(* ===== verification/Prelude.thy ===== *)
theory Prelude
  imports Complex_Main
begin

text \<open>
  What every component shares: the exceptions the modelled code raises, the result type of a
  Python call that may raise, floats as the code compares them, and the small library of
  lemmas on lists and results that the component proofs use.

  A Python function that may raise returns \<open>exn + 'a\<close>: \<open>Inl\<close> the exception, \<open>Inr\<close> the value.
  The message of an exception is dropped; its class is kept.
\<close>

section \<open>Results and exceptions\<close>

named_theorems res_simps "evaluation of results"

text \<open>The exception classes, by the name the source gives them.\<close>

datatype exn =
    InvalidOperation
  | DivisionByZero
  | Overflow
  | ValueError
  | KeyError
  | IndexError
  | AlphaLabValidationError
  | UnknownCurrencyUnitsError
  | InvalidTransitionError
  | OrderValidationError
  | UnknownOrderError
  | DuplicateOrderError
  | InsufficientFundsError
  | PortfolioError
  | InvalidTransactionError
  | ConventionInputError
  | ConventionViolationError
  | Inexact
  | BrokerValidationError
  | SnapshotDecodeError
  | OverflowError
  | DistributedValidationError
  | InvalidJobStateError
  | ClusterSchedulerInputError
  | SchedulerValidationError
  | InvalidClockStateError
  | RiskValidationError
  | RiskError
  | AssertionError
  | InstrumentInputError
  | DataValidationError
  | AllocationError
  | AllocationValidationError
  | SizingRefusedError
  | BudgetExceededError
  | UnknownReservationError
  | ExecutionError
  | ExecutionValidationError
  | InvalidExecutionStateError
  | MixedCurrencyValuationError
  | TypeError
  | FutureDatedRateError
  | StaleRateError
  | MissingRateError
  | InvalidIntentError
  | DomainValidationError
  | RuntimeValidationError
  | MarketValidationError

type_synonym 'a res = "exn + 'a"

text \<open>Sequencing: the rest of a body runs only when the call before it returned.\<close>

definition rbind :: "'a res \<Rightarrow> ('a \<Rightarrow> 'b res) \<Rightarrow> 'b res" where
  "rbind m f = (case m of Inl e \<Rightarrow> Inl e | Inr x \<Rightarrow> f x)"

lemma rbind_Inr [simp, res_simps]: "rbind (Inr x) f = f x"
  by (simp add: rbind_def)

lemma rbind_Inl [simp, res_simps]: "rbind (Inl e) f = Inl e"
  by (simp add: rbind_def)

lemma rbind_eq_Inr: "rbind m f = Inr y \<longleftrightarrow> (\<exists>x. m = Inr x \<and> f x = Inr y)"
  by (cases m) (auto simp: rbind_def)

lemma rbind_eq_Inl: "rbind m f = Inl e \<longleftrightarrow> m = Inl e \<or> (\<exists>x. m = Inr x \<and> f x = Inl e)"
  by (cases m) (auto simp: rbind_def)

lemma rbind_InrE:
  assumes "rbind m f = Inr y"
  obtains x where "m = Inr x" and "f x = Inr y"
  using assms by (auto simp: rbind_eq_Inr)

text \<open>A guard that raises, read backwards: the call returned, so the guard was false.\<close>

lemma guard_eq_Inr: "(if b then Inl e else m) = Inr x \<longleftrightarrow> \<not> b \<and> m = Inr x"
  by simp

lemma rbind_assoc: "rbind (rbind m f) g = rbind m (\<lambda>x. rbind (f x) g)"
  by (cases m) simp_all

lemma rbind_cong [fundef_cong]:
  "m = m' \<Longrightarrow> (\<And>x. m' = Inr x \<Longrightarrow> f x = f' x) \<Longrightarrow> rbind m f = rbind m' f'"
  by (cases m') simp_all

text \<open>A loop whose body may raise: it stops at the first exception.\<close>

fun rfold :: "('s \<Rightarrow> 'a \<Rightarrow> 's res) \<Rightarrow> 's \<Rightarrow> 'a list \<Rightarrow> 's res" where
  "rfold f s [] = Inr s"
| "rfold f s (x # xs) = rbind (f s x) (\<lambda>s'. rfold f s' xs)"

lemma rfold_append: "rfold f s (xs @ ys) = rbind (rfold f s xs) (\<lambda>s'. rfold f s' ys)"
  by (induction xs arbitrary: s) (simp_all add: rbind_assoc)

lemma rfold_invariant:
  assumes "\<And>s x s'. P s \<Longrightarrow> x \<in> set xs \<Longrightarrow> f s x = Inr s' \<Longrightarrow> P s'"
    and "P s" and "rfold f s xs = Inr s'"
  shows "P s'"
  using assms
proof (induction xs arbitrary: s)
  case Nil
  then show ?case by simp
next
  case (Cons x xs)
  from Cons.prems(3) obtain t where t: "f s x = Inr t" and rest: "rfold f t xs = Inr s'"
    by (auto elim: rbind_InrE)
  have "P t" using Cons.prems(1) [OF Cons.prems(2) _ t] by simp
  then show ?case using Cons.IH Cons.prems(1) rest by (meson list.set_intros(2))
qed

text \<open>A comprehension whose element expression may raise.\<close>

fun rmap :: "('a \<Rightarrow> 'b res) \<Rightarrow> 'a list \<Rightarrow> 'b list res" where
  "rmap f [] = Inr []"
| "rmap f (x # xs) = rbind (f x) (\<lambda>y. rbind (rmap f xs) (\<lambda>ys. Inr (y # ys)))"

lemma rmap_Inr: "(\<And>x. x \<in> set xs \<Longrightarrow> f x = Inr (g x)) \<Longrightarrow> rmap f xs = Inr (map g xs)"
  by (induction xs) simp_all

section \<open>Floats\<close>

text \<open>
  Timestamps are Python floats. The modelled code compares them, takes the larger of two and
  asks whether one is finite; what adds or multiplies them uses the theory \<open>Floats\<close>. A finite float
  is the rational it denotes, exactly, and the comparisons are IEEE 754's: nothing compares with a NaN.
\<close>

datatype pyfloat = FFin rat | FInf bool \<comment> \<open>True: negative\<close> | FNaN

fun flt_lt :: "pyfloat \<Rightarrow> pyfloat \<Rightarrow> bool" where
  "flt_lt (FFin x) (FFin y) = (x < y)"
| "flt_lt (FFin x) (FInf n) = (\<not> n)"
| "flt_lt (FInf n) (FFin y) = n"
| "flt_lt (FInf n) (FInf m) = (n \<and> \<not> m)"
| "flt_lt _ _ = False"

fun flt_eq :: "pyfloat \<Rightarrow> pyfloat \<Rightarrow> bool" where
  "flt_eq (FFin x) (FFin y) = (x = y)"
| "flt_eq (FInf n) (FInf m) = (n = m)"
| "flt_eq _ _ = False"

fun flt_finite :: "pyfloat \<Rightarrow> bool" where
  "flt_finite (FFin x) = True"
| "flt_finite _ = False"

text \<open>The builtin \<open>max(a, b)\<close>: the second argument only when it is greater.\<close>

definition flt_max :: "pyfloat \<Rightarrow> pyfloat \<Rightarrow> pyfloat" where
  "flt_max a b = (if flt_lt a b then b else a)"

lemma flt_lt_irrefl [simp]: "\<not> flt_lt a a"
  by (cases a) auto

lemma flt_lt_trans: "flt_lt a b \<Longrightarrow> flt_lt b c \<Longrightarrow> flt_lt a c"
  by (cases a; cases b; cases c) auto

lemma flt_max_not_less: "\<not> flt_lt (flt_max a b) a"
  by (cases a; cases b) (auto simp: flt_max_def)

section \<open>Sequences\<close>

text \<open>\<open>xs[i]\<close>: a negative index counts from the end, one out of range raises.\<close>

definition py_index :: "'a list \<Rightarrow> int \<Rightarrow> 'a res" where
  "py_index xs i =
     (let j = (if i < 0 then i + int (length xs) else i)
      in if j < 0 \<or> int (length xs) \<le> j then Inl IndexError else Inr (xs ! nat j))"

lemma py_index_nat: "i < length xs \<Longrightarrow> py_index xs (int i) = Inr (xs ! i)"
  by (simp add: py_index_def)

lemma filter_neq_id: "x \<notin> set xs \<Longrightarrow> filter (\<lambda>y. y \<noteq> x) xs = xs"
  by (induction xs) auto

lemma takeWhile_le_eq_filter:
  "sorted (map f xs) \<Longrightarrow> takeWhile (\<lambda>x. f x \<le> v) xs = filter (\<lambda>x. f x \<le> v) xs"
  for v :: "'b::linorder"
proof (induction xs)
  case (Cons x xs)
  then show ?case by (cases "f x \<le> v") (auto intro!: filter_False [symmetric] dest: order_trans)
qed simp

end
