(* ===== verification/Decimals.thy ===== *)
theory Decimals
  imports Prelude
begin

text \<open>
  Python's \<open>decimal\<close> arithmetic, as far as the modelled code uses it, and the pinned context of
  \<open>alphalab/common/arithmetic.py\<close>.

  A finite number is a coefficient and an exponent, \<open>Fin c e = c * 10^e\<close>, so that equal numbers
  may have different representations as they do in Python. The sign of a zero is not kept: no
  modelled code reads it. Every operation rounds its exact result to a context with the
  General Decimal Arithmetic rules: precision, rounding mode, exponent range. The three trapped
  conditions (an invalid operation, a division by zero, an overflow) are exceptions.
\<close>

section \<open>Numbers and contexts\<close>

named_theorems dec_simps "evaluation of decimal operations on finite numbers"

datatype decimal = Fin int int | Infinite bool \<comment> \<open>True: negative\<close> | NaN

datatype rounding =
    ROUND_HALF_EVEN | ROUND_HALF_UP | ROUND_HALF_DOWN | ROUND_DOWN | ROUND_UP
  | ROUND_CEILING | ROUND_FLOOR | ROUND_05UP

record dctx =
  prec :: nat
  rmode :: rounding
  Emin :: int
  Emax :: int

text \<open>\<open>ACCOUNTING_PRECISION\<close> and \<open>ACCOUNTING_CONTEXT\<close>.\<close>

definition ACCOUNTING_PRECISION :: nat where
  "ACCOUNTING_PRECISION = 34"

definition ACCOUNTING_CONTEXT :: dctx where
  "ACCOUNTING_CONTEXT =
     \<lparr>prec = ACCOUNTING_PRECISION, rmode = ROUND_HALF_EVEN, Emin = -999999, Emax = 999999\<rparr>"

text \<open>The smallest exponent of a subnormal number, and the largest of a full-precision one.\<close>

definition Etiny :: "dctx \<Rightarrow> int" where
  "Etiny ctx = Emin ctx - int (prec ctx) + 1"

definition Etop :: "dctx \<Rightarrow> int" where
  "Etop ctx = Emax ctx - int (prec ctx) + 1"

text \<open>The value of a finite number.\<close>

fun dval :: "decimal \<Rightarrow> rat" where
  "dval (Fin c e) = of_int c * 10 powi e"
| "dval _ = 0"

fun is_finite :: "decimal \<Rightarrow> bool" where
  "is_finite (Fin c e) = True"
| "is_finite _ = False"

lemma is_finite_iff: "is_finite d \<longleftrightarrow> (\<exists>c e. d = Fin c e)"
  by (cases d) auto

section \<open>Rounding\<close>

text \<open>Decimal digits of a coefficient; one for zero.\<close>

fun num_digits :: "nat \<Rightarrow> nat" where
  "num_digits n = (if n < 10 then 1 else Suc (num_digits (n div 10)))"

declare num_digits.simps [simp del]

lemma num_digits_small [simp]: "n < 10 \<Longrightarrow> num_digits n = 1"
  by (subst num_digits.simps) simp

lemma num_digits_pos [simp]: "0 < num_digits n"
  by (subst num_digits.simps) simp

lemma num_digits_le_iff: "0 < p \<Longrightarrow> num_digits n \<le> p \<longleftrightarrow> n < 10 ^ p"
proof (induction n arbitrary: p rule: num_digits.induct)
  case (1 n)
  show ?case
  proof (cases "n < 10")
    case True
    have "(10::nat) ^ 1 \<le> 10 ^ p" using 1(2) by (intro power_increasing) auto
    with True 1(2) show ?thesis by (subst num_digits.simps) auto
  next
    case False
    then have step: "num_digits n = Suc (num_digits (n div 10))" by (subst num_digits.simps) simp
    show ?thesis
    proof (cases "p = 1")
      case True
      have "0 < num_digits (n div 10)" by simp
      with True False step show ?thesis by simp
    next
      case p: False
      with 1(2) obtain q where q: "p = Suc q" "0 < q" by (cases p) auto
      have "num_digits (n div 10) \<le> q \<longleftrightarrow> n div 10 < 10 ^ q" using 1(1) [OF False q(2)] .
      also have "\<dots> \<longleftrightarrow> n < 10 * 10 ^ q" by (simp add: div_less_iff_less_mult mult.commute)
      finally show ?thesis using q step by simp
    qed
  qed
qed

lemma num_digits_bounds: "n \<noteq> 0 \<Longrightarrow> 10 ^ (num_digits n - 1) \<le> n"
  using num_digits_le_iff [of "num_digits n - 1" n] num_digits_pos [of n]
  by (cases "num_digits n = 1") (auto simp: not_less)

lemma less_num_digits: "n < 10 ^ num_digits n"
  using num_digits_le_iff [of "num_digits n" n] by simp

text \<open>The integer nearest to \<open>c / b\<close> in each rounding mode, for a positive \<open>b\<close>.\<close>

definition div_trunc :: "int \<Rightarrow> int \<Rightarrow> int" where
  "div_trunc c b = (if c < 0 \<and> c mod b \<noteq> 0 then c div b + 1 else c div b)"

definition div_away :: "int \<Rightarrow> int \<Rightarrow> int" where
  "div_away c b = (if 0 \<le> c \<and> c mod b \<noteq> 0 then c div b + 1 else c div b)"

fun div_round :: "rounding \<Rightarrow> int \<Rightarrow> int \<Rightarrow> int" where
  "div_round ROUND_HALF_EVEN c b =
     (if 2 * (c mod b) < b then c div b
      else if b < 2 * (c mod b) then c div b + 1
      else if even (c div b) then c div b else c div b + 1)"
| "div_round ROUND_HALF_UP c b =
     (if 2 * (c mod b) < b then c div b
      else if b < 2 * (c mod b) then c div b + 1 else div_away c b)"
| "div_round ROUND_HALF_DOWN c b =
     (if 2 * (c mod b) < b then c div b
      else if b < 2 * (c mod b) then c div b + 1 else div_trunc c b)"
| "div_round ROUND_DOWN c b = div_trunc c b"
| "div_round ROUND_UP c b = div_away c b"
| "div_round ROUND_CEILING c b = (if c mod b = 0 then c div b else c div b + 1)"
| "div_round ROUND_FLOOR c b = c div b"
| "div_round ROUND_05UP c b =
     (if \<bar>div_trunc c b\<bar> mod 10 \<in> {0, 5} then div_away c b else div_trunc c b)"

lemma div_round_exact: "0 < b \<Longrightarrow> b dvd c \<Longrightarrow> div_round m c b = c div b"
  by (cases m) (auto simp: div_trunc_def div_away_def)

lemma div_mod_cases:
  fixes c b :: int
  assumes "0 < b"
  obtains q r where "c div b = q" "c mod b = r" "c = q * b + r" "0 \<le> r" "r < b"
  using assms by (metis div_mult_mod_eq pos_mod_bound pos_mod_sign)

lemma div_round_floor_or_next:
  "0 < b \<Longrightarrow> div_round m c b = c div b \<or> (div_round m c b = c div b + 1 \<and> c mod b \<noteq> 0)"
  by (cases m) (auto simp: div_trunc_def div_away_def)

lemma div_round_dist: "0 < b \<Longrightarrow> \<bar>c - div_round m c b * b\<bar> < b"
proof -
  assume b: "0 < b"
  obtain q r where qr: "c div b = q" "c mod b = r" "c = q * b + r" "0 \<le> r" "r < b"
    using div_mod_cases [OF b] .
  have or: "div_round m c b = q \<or> (div_round m c b = q + 1 \<and> r \<noteq> 0)"
    using div_round_floor_or_next [OF b, of m c] unfolding qr(1,2) .
  have d: "c - q * b = r" "c - (q + 1) * b = r - b" using qr(3) by (auto simp: algebra_simps)
  from or show ?thesis
  proof
    assume "div_round m c b = q"
    then show ?thesis using d(1) qr(4,5) by simp
  next
    assume "div_round m c b = q + 1 \<and> r \<noteq> 0"
    then have "c - div_round m c b * b = r - b" and "0 < r" using d(2) qr(4) by simp_all
    then show ?thesis using qr(5) by linarith
  qed
qed

lemma div_half_even_dist: "0 < b \<Longrightarrow> 2 * \<bar>c - div_round ROUND_HALF_EVEN c b * b\<bar> \<le> b"
proof -
  assume b: "0 < b"
  obtain q r where qr: "c div b = q" "c mod b = r" "c = q * b + r" "0 \<le> r" "r < b"
    using div_mod_cases [OF b] .
  have "c - q * b = r" "c - (q + 1) * b = r - b" using qr(3) by (auto simp: algebra_simps)
  then show ?thesis using qr(4,5) by (simp add: qr(1,2))
qed

lemma div_round_one [simp]: "div_round m c 1 = c"
  by (simp add: div_round_exact)

section \<open>Results rounded to a context\<close>

text \<open>The adjusted exponent: the exponent of the most significant digit.\<close>

fun adjusted :: "decimal \<Rightarrow> int" where
  "adjusted (Fin c e) = e + int (num_digits (nat \<bar>c\<bar>)) - 1"
| "adjusted _ = 0"

text \<open>
  Rounding an exact result to a context. A coefficient that carries into one more digit when
  rounded loses its last zero; a result past the largest exponent is an overflow.
\<close>

fun dec_fix :: "dctx \<Rightarrow> decimal \<Rightarrow> decimal res" where
  "dec_fix ctx (Fin c e) =
     (if c = 0 then Inr (Fin 0 (min (max e (Etiny ctx)) (Emax ctx)))
      else
        let exp_min = e + int (num_digits (nat \<bar>c\<bar>)) - int (prec ctx) in
        if Etop ctx < exp_min then Inl Overflow
        else
          let exp_min = max exp_min (Etiny ctx) in
          if e < exp_min then
            let c' = div_round (rmode ctx) c (10 ^ nat (exp_min - e)) in
            if prec ctx < num_digits (nat \<bar>c'\<bar>)
            then (if Etop ctx < exp_min + 1 then Inl Overflow else Inr (Fin (c' div 10) (exp_min + 1)))
            else Inr (Fin c' exp_min)
          else Inr (Fin c e))"
| "dec_fix ctx d = Inr d"

text \<open>A number that a context holds exactly as it is.\<close>

fun fits :: "dctx \<Rightarrow> decimal \<Rightarrow> bool" where
  "fits ctx (Fin c e) =
     (num_digits (nat \<bar>c\<bar>) \<le> prec ctx \<and> Etiny ctx \<le> e \<and>
      e + int (num_digits (nat \<bar>c\<bar>)) - 1 \<le> Emax ctx)"
| "fits ctx d = True"

declare dec_fix.simps(1) [simp del]

lemma dec_fix_fits: "fits ctx d \<Longrightarrow> dec_fix ctx d = Inr d"
proof (cases d)
  case (Fin c e)
  assume "fits ctx d"
  moreover have "0 < num_digits (nat \<bar>c\<bar>)" by simp
  ultimately show ?thesis using Fin by (auto simp: dec_fix.simps(1) Etop_def Etiny_def Let_def)
qed simp_all

text \<open>Rounding keeps the sign.\<close>

lemma div_round_nonneg: "0 < b \<Longrightarrow> 0 \<le> c \<Longrightarrow> 0 \<le> div_round m c b"
  using div_round_floor_or_next [of b m c] by (auto simp: pos_imp_zdiv_nonneg_iff)

lemma dec_fix_nonneg:
  assumes "dec_fix ctx (Fin c e) = Inr (Fin c' e')" "0 \<le> c"
  shows "0 \<le> c'"
proof -
  define low where "low = e + int (num_digits (nat \<bar>c\<bar>)) - int (prec ctx)"
  define x where "x = div_round (rmode ctx) c (10 ^ nat (max low (Etiny ctx) - e))"
  have x: "0 \<le> x" unfolding x_def using assms(2) by (intro div_round_nonneg) simp_all
  have "c' = 0 \<or> c' = c \<or> c' = x \<or> c' = x div 10"
    using assms(1) unfolding dec_fix.simps(1) Let_def low_def [symmetric] x_def [symmetric] by (simp split: if_splits)
  with x assms(2) show ?thesis by (auto simp: pos_imp_zdiv_nonneg_iff)
qed

lemma fits_zero: "0 < prec ctx \<Longrightarrow> Etiny ctx \<le> e \<Longrightarrow> e \<le> Emax ctx \<Longrightarrow> fits ctx (Fin 0 e)"
  by simp

section \<open>Operations\<close>

text \<open>Both coefficients at the smaller of the two exponents.\<close>

definition align :: "int \<Rightarrow> int \<Rightarrow> int \<Rightarrow> int" where
  "align c e m = c * 10 ^ nat (e - m)"

fun dec_neg_exact :: "decimal \<Rightarrow> decimal" where
  "dec_neg_exact (Fin c e) = Fin (- c) e"
| "dec_neg_exact (Infinite n) = Infinite (\<not> n)"
| "dec_neg_exact NaN = NaN"

fun add_exact :: "decimal \<Rightarrow> decimal \<Rightarrow> decimal" where
  "add_exact (Fin c e) (Fin d f) = (let m = min e f in Fin (align c e m + align d f m) m)"
| "add_exact _ _ = NaN"

fun mul_exact :: "decimal \<Rightarrow> decimal \<Rightarrow> decimal" where
  "mul_exact (Fin c e) (Fin d f) = Fin (c * d) (e + f)"
| "mul_exact _ _ = NaN"

fun dec_add :: "dctx \<Rightarrow> decimal \<Rightarrow> decimal \<Rightarrow> decimal res" where
  "dec_add ctx NaN b = Inr NaN"
| "dec_add ctx a NaN = Inr NaN"
| "dec_add ctx (Infinite n) (Infinite m) = (if n = m then Inr (Infinite n) else Inl InvalidOperation)"
| "dec_add ctx (Infinite n) (Fin d f) = Inr (Infinite n)"
| "dec_add ctx (Fin c e) (Infinite m) = Inr (Infinite m)"
| "dec_add ctx (Fin c e) (Fin d f) = dec_fix ctx (add_exact (Fin c e) (Fin d f))"

definition dec_sub :: "dctx \<Rightarrow> decimal \<Rightarrow> decimal \<Rightarrow> decimal res" where
  "dec_sub ctx a b = dec_add ctx a (dec_neg_exact b)"

fun dec_mul :: "dctx \<Rightarrow> decimal \<Rightarrow> decimal \<Rightarrow> decimal res" where
  "dec_mul ctx NaN b = Inr NaN"
| "dec_mul ctx a NaN = Inr NaN"
| "dec_mul ctx (Infinite n) (Infinite m) = Inr (Infinite (n \<noteq> m))"
| "dec_mul ctx (Infinite n) (Fin d f) =
     (if d = 0 then Inl InvalidOperation else Inr (Infinite (n \<noteq> (d < 0))))"
| "dec_mul ctx (Fin c e) (Infinite m) =
     (if c = 0 then Inl InvalidOperation else Inr (Infinite (m \<noteq> (c < 0))))"
| "dec_mul ctx (Fin c e) (Fin d f) = dec_fix ctx (mul_exact (Fin c e) (Fin d f))"

text \<open>
  Division: one digit more than the precision, with a sticky last digit when it is inexact, so
  that the final rounding is correct; an exact quotient moves towards the exponent its
  operands imply.
\<close>

fun strip_to :: "nat \<Rightarrow> int \<Rightarrow> int \<Rightarrow> int \<times> int" where
  "strip_to 0 c e = (c, e)"
| "strip_to (Suc n) c e = (if c mod 10 = 0 then strip_to n (c div 10) (e + 1) else (c, e))"

definition div_digits :: "dctx \<Rightarrow> int \<Rightarrow> int \<Rightarrow> int \<Rightarrow> int \<Rightarrow> decimal" where
  "div_digits ctx c e d f =
     (let shift = int (num_digits (nat \<bar>d\<bar>)) - int (num_digits (nat \<bar>c\<bar>)) + int (prec ctx) + 1;
          n = \<bar>c\<bar> * 10 ^ nat shift;
          b = \<bar>d\<bar> * 10 ^ nat (- shift);
          q = n div b;
          x = e - f - shift;
          s = sgn c * sgn d
      in if n mod b \<noteq> 0 then Fin (s * (if q mod 5 = 0 then q + 1 else q)) x
         else let (q', x') = strip_to (nat (e - f - x)) q x in Fin (s * q') x')"

lemma strip_to_step:
  "strip_to n c e = (if n = 0 \<or> c mod 10 \<noteq> 0 then (c, e) else strip_to (n - 1) (c div 10) (e + 1))"
  by (cases n) auto

fun dec_div :: "dctx \<Rightarrow> decimal \<Rightarrow> decimal \<Rightarrow> decimal res" where
  "dec_div ctx NaN b = Inr NaN"
| "dec_div ctx a NaN = Inr NaN"
| "dec_div ctx (Infinite n) (Infinite m) = Inl InvalidOperation"
| "dec_div ctx (Infinite n) (Fin d f) = Inr (Infinite (n \<noteq> (d < 0)))"
| "dec_div ctx (Fin c e) (Infinite m) = Inr (Fin 0 (Etiny ctx))"
| "dec_div ctx (Fin c e) (Fin d f) =
     (if d = 0 then Inl (if c = 0 then InvalidOperation else DivisionByZero)
      else if c = 0 then dec_fix ctx (Fin 0 (e - f))
      else dec_fix ctx (div_digits ctx c e d f))"

text \<open>\<open>abs(x)\<close> and \<open>-x\<close> round to the context they run in, like any other operation.\<close>

fun dec_abs :: "dctx \<Rightarrow> decimal \<Rightarrow> decimal res" where
  "dec_abs ctx (Fin c e) = dec_fix ctx (Fin \<bar>c\<bar> e)"
| "dec_abs ctx (Infinite n) = Inr (Infinite False)"
| "dec_abs ctx NaN = Inr NaN"

definition dec_neg :: "dctx \<Rightarrow> decimal \<Rightarrow> decimal res" where
  "dec_neg ctx a = dec_fix ctx (dec_neg_exact a)"

text \<open>\<open>a.quantize(q, rounding, context)\<close>: \<open>a\<close> with the exponent of \<open>q\<close>, refused when it needs too many digits.\<close>

definition rescale :: "rounding \<Rightarrow> int \<Rightarrow> int \<Rightarrow> int \<Rightarrow> int" where
  "rescale m c e f = (if f \<le> e then c * 10 ^ nat (e - f) else div_round m c (10 ^ nat (f - e)))"

fun dec_quantize :: "dctx \<Rightarrow> decimal \<Rightarrow> decimal \<Rightarrow> decimal res" where
  "dec_quantize ctx NaN q = Inr NaN"
| "dec_quantize ctx a NaN = Inr NaN"
| "dec_quantize ctx (Infinite n) (Infinite m) = Inr (Infinite n)"
| "dec_quantize ctx (Infinite n) (Fin d f) = Inl InvalidOperation"
| "dec_quantize ctx (Fin c e) (Infinite m) = Inl InvalidOperation"
| "dec_quantize ctx (Fin c e) (Fin d f) =
     (if f < Etiny ctx \<or> Emax ctx < f then Inl InvalidOperation
      else if c = 0 then dec_fix ctx (Fin 0 f)
      else if Emax ctx < adjusted (Fin c e) then Inl InvalidOperation
      else if int (prec ctx) < adjusted (Fin c e) - f + 1 then Inl InvalidOperation
      else
        let c' = rescale (rmode ctx) c e f in
        if Emax ctx < adjusted (Fin c' f) then Inl InvalidOperation
        else if prec ctx < num_digits (nat \<bar>c'\<bar>) then Inl InvalidOperation
        else dec_fix ctx (Fin c' f))"

text \<open>
  Comparisons are exact. An ordering comparison with a NaN is an invalid operation; \<open>==\<close> with
  one is false.
\<close>

fun dec_lt :: "decimal \<Rightarrow> decimal \<Rightarrow> bool res" where
  "dec_lt NaN b = Inl InvalidOperation"
| "dec_lt a NaN = Inl InvalidOperation"
| "dec_lt (Infinite n) (Infinite m) = Inr (n \<and> \<not> m)"
| "dec_lt (Infinite n) (Fin d f) = Inr n"
| "dec_lt (Fin c e) (Infinite m) = Inr (\<not> m)"
| "dec_lt (Fin c e) (Fin d f) = Inr (align c e (min e f) < align d f (min e f))"

fun dec_le :: "decimal \<Rightarrow> decimal \<Rightarrow> bool res" where
  "dec_le NaN b = Inl InvalidOperation"
| "dec_le a NaN = Inl InvalidOperation"
| "dec_le (Infinite n) (Infinite m) = Inr (n \<or> \<not> m)"
| "dec_le (Infinite n) (Fin d f) = Inr n"
| "dec_le (Fin c e) (Infinite m) = Inr (\<not> m)"
| "dec_le (Fin c e) (Fin d f) = Inr (align c e (min e f) \<le> align d f (min e f))"

fun dec_eq :: "decimal \<Rightarrow> decimal \<Rightarrow> bool" where
  "dec_eq (Infinite n) (Infinite m) = (n = m)"
| "dec_eq (Fin c e) (Fin d f) = (align c e (min e f) = align d f (min e f))"
| "dec_eq _ _ = False"

abbreviation dec_zero :: decimal where
  "dec_zero \<equiv> Fin 0 0"

abbreviation dec_one :: decimal where
  "dec_one \<equiv> Fin 1 0"

text \<open>Evaluation on concrete numbers.\<close>

lemmas dec_eval = dec_fix.simps(1) num_digits.simps align_def div_digits_def strip_to_step dec_sub_def Let_def

section \<open>What the operations compute\<close>

declare dval.simps(1) [simp del]

lemma powi_pos [simp]: "(0::rat) < 10 powi e"
  by simp

lemma powi_split: "m \<le> e \<Longrightarrow> (10::rat) powi e = 10 ^ nat (e - m) * 10 powi m"
proof -
  assume "m \<le> e"
  then have "e = int (nat (e - m)) + m" by simp
  then have "(10::rat) powi e = 10 powi (int (nat (e - m)) + m)" by (rule arg_cong)
  also have "\<dots> = 10 powi int (nat (e - m)) * 10 powi m" by (rule power_int_add) simp
  finally show ?thesis by (simp only: power_int_of_nat)
qed

lemma dval_align: "m \<le> e \<Longrightarrow> of_int (align c e m) * 10 powi m = dval (Fin c e)"
  using powi_split [of m e] by (simp add: align_def dval.simps(1))

lemma dval_add_exact [simp]:
  "is_finite a \<Longrightarrow> is_finite b \<Longrightarrow> dval (add_exact a b) = dval a + dval b"
proof (cases a; cases b)
  fix c e d f
  assume ab: "a = Fin c e" "b = Fin d f"
  have "dval (add_exact a b) =
      of_int (align c e (min e f)) * 10 powi (min e f) + of_int (align d f (min e f)) * 10 powi (min e f)"
    by (simp add: ab Let_def dval.simps(1) distrib_right)
  then show ?thesis by (simp add: ab dval_align)
qed simp_all

lemma dval_mul_exact [simp]:
  "is_finite a \<Longrightarrow> is_finite b \<Longrightarrow> dval (mul_exact a b) = dval a * dval b"
  by (cases a; cases b) (simp_all add: dval.simps(1) power_int_add)

lemma dval_neg_exact [simp]: "dval (dec_neg_exact a) = - dval a"
  by (cases a) (simp_all add: dval.simps(1))

lemma finite_neg_exact [simp]: "is_finite (dec_neg_exact a) = is_finite a"
  by (cases a) simp_all

lemma finite_add_exact [simp]: "is_finite a \<Longrightarrow> is_finite b \<Longrightarrow> is_finite (add_exact a b)"
  by (cases a; cases b) (simp_all add: Let_def)

lemma finite_mul_exact [simp]: "is_finite a \<Longrightarrow> is_finite b \<Longrightarrow> is_finite (mul_exact a b)"
  by (cases a; cases b) simp_all

lemma align_compare:
  "align c e (min e f) < align d f (min e f) \<longleftrightarrow> dval (Fin c e) < dval (Fin d f)"
  "align c e (min e f) \<le> align d f (min e f) \<longleftrightarrow> dval (Fin c e) \<le> dval (Fin d f)"
  "align c e (min e f) = align d f (min e f) \<longleftrightarrow> dval (Fin c e) = dval (Fin d f)"
  using dval_align [of "min e f" e c] dval_align [of "min e f" f d]
  by (metis min.cobounded1 min.cobounded2 mult_less_cancel_right_pos of_int_less_iff powi_pos,
      metis min.cobounded1 min.cobounded2 mult_le_cancel_right_pos of_int_le_iff powi_pos,
      metis min.cobounded1 min.cobounded2 mult_right_cancel of_int_eq_iff powi_pos less_irrefl)

lemma dec_lt_finite [simp, dec_simps]:
  "is_finite a \<Longrightarrow> is_finite b \<Longrightarrow> dec_lt a b = Inr (dval a < dval b)"
  by (cases a; cases b) (simp_all add: align_compare)

lemma dec_le_finite [simp, dec_simps]:
  "is_finite a \<Longrightarrow> is_finite b \<Longrightarrow> dec_le a b = Inr (dval a \<le> dval b)"
  by (cases a; cases b) (simp_all add: align_compare)

lemma dec_eq_finite [simp, dec_simps]:
  "is_finite a \<Longrightarrow> is_finite b \<Longrightarrow> dec_eq a b = (dval a = dval b)"
  by (cases a; cases b) (simp_all add: align_compare)

lemma dec_add_fix:
  "is_finite a \<Longrightarrow> is_finite b \<Longrightarrow> dec_add ctx a b = dec_fix ctx (add_exact a b)"
  by (cases a; cases b) simp_all

lemma dec_sub_fix:
  "is_finite a \<Longrightarrow> is_finite b \<Longrightarrow> dec_sub ctx a b = dec_fix ctx (add_exact a (dec_neg_exact b))"
  by (simp add: dec_sub_def dec_add_fix)

lemma dec_mul_fix:
  "is_finite a \<Longrightarrow> is_finite b \<Longrightarrow> dec_mul ctx a b = dec_fix ctx (mul_exact a b)"
  by (cases a; cases b) simp_all

text \<open>Sums, differences and products that fit are exact.\<close>

lemma dec_add_exact:
  "is_finite a \<Longrightarrow> is_finite b \<Longrightarrow> fits ctx (add_exact a b) \<Longrightarrow> dec_add ctx a b = Inr (add_exact a b)"
  by (simp add: dec_add_fix dec_fix_fits)

lemma dec_sub_exact:
  "is_finite a \<Longrightarrow> is_finite b \<Longrightarrow> fits ctx (add_exact a (dec_neg_exact b)) \<Longrightarrow>
   dec_sub ctx a b = Inr (add_exact a (dec_neg_exact b))"
  by (simp add: dec_sub_fix dec_fix_fits)

lemma dec_mul_exact:
  "is_finite a \<Longrightarrow> is_finite b \<Longrightarrow> fits ctx (mul_exact a b) \<Longrightarrow> dec_mul ctx a b = Inr (mul_exact a b)"
  by (simp add: dec_mul_fix dec_fix_fits)

lemma dec_fix_finite: "is_finite d \<Longrightarrow> dec_fix ctx d = Inr r \<Longrightarrow> is_finite r"
  by (cases d) (auto simp only: dec_fix.simps is_finite.simps Let_def sum.inject sum.distinct split: if_splits)

lemma dval_nonneg_iff: "0 \<le> dval (Fin c e) \<longleftrightarrow> 0 \<le> c"
  using powi_pos [of e] by (simp add: dval.simps(1) zero_le_mult_iff not_le [symmetric] del: powi_pos)

lemma dval_zero [simp]: "dval (Fin 0 e) = 0"
  by (simp add: dval.simps(1))

lemma dec_fix_value_nonneg:
  "is_finite d \<Longrightarrow> dec_fix ctx d = Inr r \<Longrightarrow> 0 \<le> dval d \<Longrightarrow> 0 \<le> dval r"
  using dec_fix_finite [of d ctx r]
  by (cases d; cases r) (auto simp: dval_nonneg_iff dest: dec_fix_nonneg)

lemma dec_div_by_zero: "is_finite a \<Longrightarrow> is_finite b \<Longrightarrow> dec_div ctx a b = Inr r \<Longrightarrow> dval b \<noteq> 0"
  by (cases a; cases b) (auto simp: dval.simps(1) split: if_splits)

lemma dec_add_finite: "is_finite a \<Longrightarrow> is_finite b \<Longrightarrow> dec_add ctx a b = Inr r \<Longrightarrow> is_finite r"
  by (rule dec_fix_finite [of "add_exact a b" ctx]) (simp_all add: dec_add_fix)

lemma dec_sub_finite: "is_finite a \<Longrightarrow> is_finite b \<Longrightarrow> dec_sub ctx a b = Inr r \<Longrightarrow> is_finite r"
  by (rule dec_fix_finite [of "add_exact a (dec_neg_exact b)" ctx]) (simp_all add: dec_sub_fix)

lemma dec_mul_finite: "is_finite a \<Longrightarrow> is_finite b \<Longrightarrow> dec_mul ctx a b = Inr r \<Longrightarrow> is_finite r"
  by (rule dec_fix_finite [of "mul_exact a b" ctx]) (simp_all add: dec_mul_fix)

lemma finite_div_digits [simp]: "is_finite (div_digits ctx c e d f)"
  unfolding div_digits_def Let_def case_prod_unfold by (simp only: is_finite.simps simp_thms split: if_split)

lemma dec_div_fix:
  assumes "is_finite a" "is_finite b" "dec_div ctx a b = Inr r"
  obtains x where "is_finite x" "dec_fix ctx x = Inr r"
  using assms
proof (cases a; cases b)
  fix c e d f
  assume ab: "a = Fin c e" "b = Fin d f"
  with assms(3) have "dec_fix ctx (if c = 0 then Fin 0 (e - f) else div_digits ctx c e d f) = Inr r"
    by (simp split: if_splits)
  then show thesis by (rule that [rotated]) simp
qed simp_all

lemma dec_div_finite:
  assumes "is_finite a" "is_finite b" "dec_div ctx a b = Inr r"
  shows "is_finite r"
proof -
  obtain x where "is_finite x" "dec_fix ctx x = Inr r" using dec_div_fix [OF assms] .
  then show ?thesis by (rule dec_fix_finite)
qed

text \<open>The only exceptions of arithmetic.\<close>

definition arith_exn :: "exn \<Rightarrow> bool" where
  "arith_exn e = (e \<in> {InvalidOperation, DivisionByZero, Overflow})"

lemma arith_raised: "arith_exn InvalidOperation" "arith_exn DivisionByZero" "arith_exn Overflow"
  "\<not> arith_exn InvalidTransitionError"
  by (simp_all add: arith_exn_def)

lemma raised_if: "(if b then m else n) = Inl e \<Longrightarrow> (m = Inl e \<Longrightarrow> R) \<Longrightarrow> (n = Inl e \<Longrightarrow> R) \<Longrightarrow> R"
  by (cases b) simp_all

lemma raised_overflow: "Inl Overflow = (Inl e :: 'a res) \<Longrightarrow> arith_exn e"
  by (auto simp: arith_raised)

lemma dec_fix_exn: "dec_fix ctx d = Inl e \<Longrightarrow> arith_exn e"
proof (cases d)
  case (Fin c x)
  assume "dec_fix ctx d = Inl e"
  then show ?thesis
    unfolding Fin dec_fix.simps(1) Let_def
    by (elim raised_if raised_overflow sum.distinct(2) [elim_format]) simp_all
qed simp_all

lemma dec_add_exn: "dec_add ctx a b = Inl e \<Longrightarrow> arith_exn e"
  by (cases a; cases b)
    (auto simp: arith_raised simp del: add_exact.simps mul_exact.simps dest: dec_fix_exn split: if_splits)

lemma dec_sub_exn: "dec_sub ctx a b = Inl e \<Longrightarrow> arith_exn e"
  unfolding dec_sub_def by (rule dec_add_exn)

lemma dec_mul_exn: "dec_mul ctx a b = Inl e \<Longrightarrow> arith_exn e"
  by (cases a; cases b)
    (auto simp: arith_raised simp del: add_exact.simps mul_exact.simps dest: dec_fix_exn split: if_splits)

lemma dec_div_exn: "dec_div ctx a b = Inl e \<Longrightarrow> arith_exn e"
  by (cases a; cases b)
    (auto simp: arith_raised simp del: add_exact.simps mul_exact.simps dest: dec_fix_exn split: if_splits)

lemma dec_compare_exn: "dec_lt a b = Inl e \<Longrightarrow> arith_exn e" "dec_le a b = Inl e \<Longrightarrow> arith_exn e"
  by (cases a; cases b; simp add: arith_exn_def)+

text \<open>A call that raises nothing but those.\<close>

definition arith_only :: "'a res \<Rightarrow> bool" where
  "arith_only m = (\<forall>e. m = Inl e \<longrightarrow> arith_exn e)"

lemma arith_only_Inr [simp]: "arith_only (Inr x)"
  by (simp add: arith_only_def)

lemma arith_only_bind: "arith_only m \<Longrightarrow> (\<And>x. m = Inr x \<Longrightarrow> arith_only (f x)) \<Longrightarrow> arith_only (rbind m f)"
  by (cases m) (simp_all add: arith_only_def)

lemma arith_only_ops [simp]:
  "arith_only (dec_add ctx a b)" "arith_only (dec_sub ctx a b)" "arith_only (dec_mul ctx a b)"
  "arith_only (dec_div ctx a b)" "arith_only (dec_lt a b)" "arith_only (dec_le a b)"
  by (auto simp: arith_only_def dest: dec_add_exn dec_sub_exn dec_mul_exn dec_div_exn dec_compare_exn)

lemmas dec_exns = dec_add_exn dec_sub_exn dec_mul_exn dec_div_exn dec_compare_exn

lemmas dec_results_finite = dec_add_finite dec_sub_finite dec_mul_finite dec_div_finite

section \<open>Quantizing\<close>

lemma rescale_zero [simp]: "rescale m 0 e f = 0"
  by (simp add: rescale_def div_round_exact)

lemma rescale_same [simp]: "rescale m c f f = c"
  by (simp add: rescale_def)

text \<open>A number quantized has the exponent asked for, and the coefficient \<open>rescale\<close> gives it.\<close>

declare dec_quantize.simps(7) [simp del]

lemma dec_quantize_result:
  assumes "dec_quantize ctx (Fin c e) (Fin d f) = Inr r"
  shows "r = Fin (rescale (rmode ctx) c e f) f" and "0 < prec ctx \<Longrightarrow> fits ctx r"
    and "Etiny ctx \<le> f" and "f \<le> Emax ctx"
proof -
  have "r = Fin (rescale (rmode ctx) c e f) f \<and> (0 < prec ctx \<longrightarrow> fits ctx r) \<and> Etiny ctx \<le> f \<and> f \<le> Emax ctx"
proof (cases "c = 0")
  case True
  with assms show ?thesis by (auto simp: dec_quantize.simps(7) dec_fix.simps(1) split: if_splits)
next
  case False
  define c' where "c' = rescale (rmode ctx) c e f"
  have "\<not> (f < Etiny ctx \<or> Emax ctx < f) \<and> \<not> Emax ctx < adjusted (Fin c e) \<and>
      \<not> int (prec ctx) < adjusted (Fin c e) - f + 1 \<and> \<not> Emax ctx < adjusted (Fin c' f) \<and>
      \<not> prec ctx < num_digits (nat \<bar>c'\<bar>) \<and> dec_fix ctx (Fin c' f) = Inr r"
    using assms unfolding dec_quantize.simps(7) Let_def c'_def [symmetric] guard_eq_Inr if_not_P [OF False] .
  then have range: "\<not> (f < Etiny ctx \<or> Emax ctx < f)" and adj: "\<not> Emax ctx < adjusted (Fin c' f)"
    and digits: "\<not> prec ctx < num_digits (nat \<bar>c'\<bar>)" and r: "dec_fix ctx (Fin c' f) = Inr r"
    by blast+
  have fits: "fits ctx (Fin c' f)" using range adj digits by simp
  with r have "r = Fin c' f" by (simp only: dec_fix_fits sum.inject)
  with fits range show ?thesis unfolding c'_def [symmetric] by auto
qed
  then show "r = Fin (rescale (rmode ctx) c e f) f" and "0 < prec ctx \<Longrightarrow> fits ctx r"
    and "Etiny ctx \<le> f" and "f \<le> Emax ctx" by blast+
qed

lemma rescale_error:
  assumes "e < f"
  shows "\<bar>dval (Fin c e) - dval (Fin (rescale m c e f) f)\<bar> =
    of_int \<bar>c - div_round m c (10 ^ nat (f - e)) * 10 ^ nat (f - e)\<bar> * 10 powi e"
proof -
  define b where "b = (10::int) ^ nat (f - e)"
  define q where "q = div_round m c b"
  have f: "(10::rat) powi f = of_int b * 10 powi e" using assms powi_split [of e f] by (simp add: b_def)
  have "dval (Fin c e) - dval (Fin (rescale m c e f) f) = of_int c * 10 powi e - of_int q * 10 powi f"
    using assms by (simp add: rescale_def b_def q_def dval.simps(1))
  also have "\<dots> = of_int (c - q * b) * 10 powi e" unfolding f by (simp add: left_diff_distrib)
  finally show ?thesis unfolding b_def [symmetric] q_def [symmetric] by (simp only: abs_mult of_int_abs) simp
qed

lemma rescale_dist:
  "\<bar>dval (Fin c e) - dval (Fin (rescale m c e f) f)\<bar> < 10 powi f"
proof (cases "f \<le> e")
  case True
  then show ?thesis using powi_split [of f e] by (simp add: rescale_def dval.simps(1))
next
  case False
  define b where "b = (10::int) ^ nat (f - e)"
  have "\<bar>c - div_round m c b * b\<bar> < b" by (rule div_round_dist) (simp add: b_def)
  then have "of_int \<bar>c - div_round m c b * b\<bar> * 10 powi e < (of_int b :: rat) * 10 powi e"
    by (intro mult_strict_right_mono) (simp_all only: of_int_less_iff powi_pos)
  moreover have "(10::rat) powi f = of_int b * 10 powi e" using False powi_split [of e f] by (simp add: b_def)
  moreover have "e < f" using False by simp
  ultimately show ?thesis unfolding b_def by (simp only: rescale_error)
qed

lemma rescale_half_even_dist:
  "2 * \<bar>dval (Fin c e) - dval (Fin (rescale ROUND_HALF_EVEN c e f) f)\<bar> \<le> 10 powi f"
proof (cases "f \<le> e")
  case True
  then show ?thesis using powi_split [of f e] by (simp add: rescale_def dval.simps(1))
next
  case False
  define b where "b = (10::int) ^ nat (f - e)"
  define x where "x = \<bar>c - div_round ROUND_HALF_EVEN c b * b\<bar>"
  have "2 * x \<le> b" unfolding x_def by (rule div_half_even_dist) (simp add: b_def)
  then have "of_int (2 * x) * 10 powi e \<le> (of_int b :: rat) * 10 powi e"
    by (intro mult_right_mono) (simp_all only: of_int_le_iff less_imp_le powi_pos)
  moreover have "(10::rat) powi f = of_int b * 10 powi e" using False powi_split [of e f] by (simp add: b_def)
  moreover have "\<bar>dval (Fin c e) - dval (Fin (rescale ROUND_HALF_EVEN c e f) f)\<bar> = of_int x * 10 powi e"
    unfolding x_def b_def by (rule rescale_error) (use False in simp)
  ultimately show ?thesis by simp
qed

text \<open>
  The magnitude of a number in powers of ten, and when quantizing succeeds: the amount has to
  be below \<open>10^(precision - 1)\<close> units of the exponent asked for.
\<close>

lemma magnitude_iff:
  "0 \<le> n - e \<Longrightarrow> \<bar>dval (Fin c e)\<bar> < 10 powi n \<longleftrightarrow> \<bar>c\<bar> < 10 ^ nat (n - e)"
proof -
  assume "0 \<le> n - e"
  then have n: "(10::rat) powi n = 10 ^ nat (n - e) * 10 powi e" using powi_split [of e n] by simp
  have "\<bar>dval (Fin c e)\<bar> = of_int \<bar>c\<bar> * 10 powi e" by (simp add: dval.simps(1) abs_mult)
  then have "\<bar>dval (Fin c e)\<bar> < 10 powi n \<longleftrightarrow> (of_int \<bar>c\<bar> :: rat) < of_int (10 ^ nat (n - e))"
    unfolding n by (simp only: mult_less_cancel_right_pos powi_pos of_int_power of_int_numeral)
  then show ?thesis by (simp only: of_int_less_iff)
qed

lemma digits_le_iff: "0 < p \<Longrightarrow> num_digits (nat \<bar>c\<bar>) \<le> p \<longleftrightarrow> \<bar>c\<bar> < 10 ^ p"
proof -
  assume "0 < p"
  then have "num_digits (nat \<bar>c\<bar>) \<le> p \<longleftrightarrow> nat \<bar>c\<bar> < 10 ^ p" by (rule num_digits_le_iff)
  also have "\<dots> \<longleftrightarrow> int (nat \<bar>c\<bar>) < int (10 ^ p)" by (simp only: of_nat_less_iff)
  also have "int (nat \<bar>c\<bar>) = \<bar>c\<bar>" by simp
  finally show ?thesis by simp
qed

lemma digits_magnitude:
  assumes "c \<noteq> 0" "\<bar>dval (Fin c e)\<bar> < 10 powi n"
  shows "e + int (num_digits (nat \<bar>c\<bar>)) \<le> n"
proof -
  have le: "0 < n - e"
  proof (rule ccontr)
    assume "\<not> 0 < n - e"
    then have "(10::rat) powi n \<le> 10 powi e" by (intro power_int_increasing) auto
    also have "\<dots> \<le> of_int \<bar>c\<bar> * 10 powi e"
      using assms(1) mult_right_mono [of "1::rat" "of_int \<bar>c\<bar>" "10 powi e"] by (simp add: less_imp_le)
    finally show False using assms(2) by (simp add: dval.simps(1) abs_mult)
  qed
  with assms(2) have "\<bar>c\<bar> < 10 ^ nat (n - e)" by (simp add: magnitude_iff)
  with le have "num_digits (nat \<bar>c\<bar>) \<le> nat (n - e)" by (subst digits_le_iff) auto
  with le show ?thesis by linarith
qed

lemma magnitude_digits:
  assumes "e + int (num_digits (nat \<bar>c\<bar>)) \<le> n"
  shows "\<bar>dval (Fin c e)\<bar> < 10 powi n"
proof -
  have pos: "0 < num_digits (nat \<bar>c\<bar>)" by simp
  with assms have le: "0 < n - e" by linarith
  then have "num_digits (nat \<bar>c\<bar>) \<le> nat (n - e)" using assms by linarith
  with le have "\<bar>c\<bar> < 10 ^ nat (n - e)" by (subst (asm) digits_le_iff) auto
  with le show ?thesis by (simp add: magnitude_iff)
qed

lemma dec_quantize_ok:
  assumes p: "1 < prec ctx" and f: "Etiny ctx \<le> f" "f + int (prec ctx) \<le> Emax ctx"
    and small: "\<bar>dval (Fin c e)\<bar> < 10 powi (f + int (prec ctx) - 1)"
  shows "dec_quantize ctx (Fin c e) (Fin d f) = Inr (Fin (rescale (rmode ctx) c e f) f)"
proof (cases "c = 0")
  case True
  with f p show ?thesis by (simp add: dec_quantize.simps(7) dec_fix.simps(1))
next
  case False
  define c' where "c' = rescale (rmode ctx) c e f"
  from False small have dig: "e + int (num_digits (nat \<bar>c\<bar>)) \<le> f + int (prec ctx) - 1"
    by (rule digits_magnitude)
  have "\<bar>dval (Fin c' f)\<bar> < \<bar>dval (Fin c e)\<bar> + 10 powi f"
    using rescale_dist [of c e "rmode ctx" f] unfolding c'_def by linarith
  also have "\<dots> \<le> 10 powi (f + int (prec ctx) - 1) + 10 powi (f + int (prec ctx) - 1)"
    using small p by (intro add_mono power_int_increasing) auto
  also have "\<dots> \<le> 10 powi (f + int (prec ctx))"
    using power_int_add_1 [of "10::rat" "f + int (prec ctx) - 1"] by simp
  finally have "\<bar>c'\<bar> < 10 ^ prec ctx" by (simp add: magnitude_iff)
  with p have dig': "num_digits (nat \<bar>c'\<bar>) \<le> prec ctx" by (subst digits_le_iff) auto
  have "fits ctx (Fin c' f)" using dig' f by auto
  then have "dec_fix ctx (Fin c' f) = Inr (Fin c' f)" by (rule dec_fix_fits)
  moreover have "\<not> (f < Etiny ctx \<or> Emax ctx < f)" using f by auto
  moreover have "\<not> Emax ctx < adjusted (Fin c e)" using dig f by auto
  moreover have "\<not> int (prec ctx) < adjusted (Fin c e) - f + 1" using dig by auto
  moreover have "\<not> Emax ctx < adjusted (Fin c' f)" using dig' f by auto
  moreover have "\<not> prec ctx < num_digits (nat \<bar>c'\<bar>)" using dig' by auto
  ultimately show ?thesis
    using False by (simp only: dec_quantize.simps(7) Let_def c'_def [symmetric] if_False)
qed

lemma fits_magnitude:
  "0 < prec ctx \<Longrightarrow> Etiny ctx \<le> e \<Longrightarrow> e + int (prec ctx) \<le> Emax ctx \<Longrightarrow>
   \<bar>dval (Fin c e)\<bar> < 10 powi (e + int (prec ctx)) \<Longrightarrow> fits ctx (Fin c e)"
  using digits_le_iff [of "prec ctx" c] by (auto simp: magnitude_iff)

lemma fits_coefficient:
  "0 < prec ctx \<Longrightarrow> Etiny ctx \<le> e \<Longrightarrow> e + int (prec ctx) \<le> Emax ctx \<Longrightarrow>
   \<bar>c\<bar> < 10 ^ prec ctx \<Longrightarrow> fits ctx (Fin c e)"
  using digits_le_iff [of "prec ctx" c] by auto

text \<open>Quantizing a number that already has the exponent and fits gives it back.\<close>

lemma dec_quantize_same:
  assumes "fits ctx (Fin c f)" "f \<le> Emax ctx"
  shows "dec_quantize ctx (Fin c f) (Fin d f) = Inr (Fin c f)"
proof (cases "c = 0")
  case True
  with assms show ?thesis by (simp add: dec_quantize.simps(7) dec_fix.simps(1))
next
  case False
  have "dec_fix ctx (Fin c f) = Inr (Fin c f)" by (rule dec_fix_fits [OF assms(1)])
  moreover have "\<not> (f < Etiny ctx \<or> Emax ctx < f)" using assms by auto
  moreover have "\<not> Emax ctx < adjusted (Fin c f)" using assms(1) by auto
  moreover have "\<not> int (prec ctx) < adjusted (Fin c f) - f + 1" using assms(1) by auto
  moreover have "\<not> prec ctx < num_digits (nat \<bar>c\<bar>)" using assms(1) by auto
  ultimately show ?thesis using False by (simp only: dec_quantize.simps(7) Let_def rescale_same if_False)
qed

text \<open>A tie goes to the even coefficient.\<close>

lemma rescale_tie_even:
  assumes "2 * \<bar>dval (Fin c e) - dval (Fin (rescale ROUND_HALF_EVEN c e f) f)\<bar> = 10 powi f"
  shows "even (rescale ROUND_HALF_EVEN c e f)"
proof (cases "f \<le> e")
  case True
  then have "dval (Fin c e) = dval (Fin (rescale ROUND_HALF_EVEN c e f) f)"
    using powi_split [of f e] by (simp add: rescale_def dval.simps(1))
  with assms show ?thesis by simp
next
  case False
  define b where "b = (10::int) ^ nat (f - e)"
  have b: "0 < b" by (simp add: b_def)
  have f: "(10::rat) powi f = of_int b * 10 powi e" using False powi_split [of e f] by (simp add: b_def)
  have re: "\<bar>dval (Fin c e) - dval (Fin (rescale ROUND_HALF_EVEN c e f) f)\<bar> =
      of_int \<bar>c - div_round ROUND_HALF_EVEN c b * b\<bar> * 10 powi e"
    unfolding b_def by (rule rescale_error) (use False in simp)
  have "2 * (of_int \<bar>c - div_round ROUND_HALF_EVEN c b * b\<bar> * 10 powi e) = (of_int b :: rat) * 10 powi e"
    using assms unfolding re f .
  then have "(of_int (2 * \<bar>c - div_round ROUND_HALF_EVEN c b * b\<bar>) :: rat) = of_int b"
    by (simp del: div_round.simps)
  then have tie: "2 * \<bar>c - div_round ROUND_HALF_EVEN c b * b\<bar> = b" by (simp only: of_int_eq_iff)
  obtain q r where qr: "c div b = q" "c mod b = r" "c = q * b + r" "0 \<le> r" "r < b"
    using div_mod_cases [OF b] .
  have d: "c - q * b = r" "c - (q + 1) * b = r - b" using qr(3) by (auto simp: algebra_simps)
  define D where "D = div_round ROUND_HALF_EVEN c b"
  have D: "D = (if 2 * r < b then q else if b < 2 * r then q + 1 else if even q then q else q + 1)"
    by (simp add: D_def qr(1,2))
  have tD: "2 * \<bar>c - D * b\<bar> = b" using tie unfolding D_def .
  have "\<not> 2 * r < b"
  proof
    assume "2 * r < b"
    then have "2 * \<bar>r\<bar> = b" using tD d(1) by (simp add: D)
    with \<open>2 * r < b\<close> qr(4) show False by simp
  qed
  moreover have "\<not> b < 2 * r"
  proof
    assume h: "b < 2 * r"
    then have "2 * \<bar>r - b\<bar> = b" using tD d(2) by (simp add: D)
    with h qr(5) show False by simp
  qed
  ultimately have "even D" by (simp add: D)
  then have "even (div_round ROUND_HALF_EVEN c b)" unfolding D_def .
  with False show ?thesis by (simp add: rescale_def b_def del: div_round.simps)
qed

section \<open>Small results are exact\<close>

text \<open>
  Rounding never lowers an exponent, and it only drops digits when the result is too large for
  the precision: a result below \<open>10^precision\<close> units of the exact result's exponent is exact,
  representation included.
\<close>

lemma dec_fix_exponent:
  assumes "dec_fix ctx (Fin c e) = Inr (Fin c' e')" "e \<le> Emax ctx"
  shows "e \<le> e'"
proof (cases "c = 0")
  case True
  with assms show ?thesis by (auto simp: dec_fix.simps(1))
next
  case False
  define low where "low = max (e + int (num_digits (nat \<bar>c\<bar>)) - int (prec ctx)) (Etiny ctx)"
  define x where "x = div_round (rmode ctx) c (10 ^ nat (low - e))"
  have "e < low \<longrightarrow> e' = low \<or> e' = low + 1" "\<not> e < low \<longrightarrow> e' = e"
    using assms(1) False unfolding dec_fix.simps(1) Let_def low_def [symmetric] x_def [symmetric]
    by (simp_all split: if_splits)
  then show ?thesis by linarith
qed

lemma dec_fix_huge_exponent:
  assumes "dec_fix ctx (Fin c e) = Inr r" "Emax ctx < e"
  shows "c = 0"
proof (rule ccontr)
  assume "c \<noteq> 0"
  moreover have "0 < num_digits (nat \<bar>c\<bar>)" by simp
  then have "Etop ctx < e + int (num_digits (nat \<bar>c\<bar>)) - int (prec ctx)"
    using assms(2) unfolding Etop_def by linarith
  ultimately show False using assms(1) by (simp add: dec_fix.simps(1) Let_def)
qed

lemma div_round_large:
  assumes b: "0 < b" and n: "0 \<le> n" and c: "n * b \<le> \<bar>c\<bar>"
  shows "n \<le> \<bar>div_round m c b\<bar>"
proof -
  have or: "div_round m c b = c div b \<or> (div_round m c b = c div b + 1 \<and> c mod b \<noteq> 0)"
    by (rule div_round_floor_or_next [OF b])
  have eq: "c = c div b * b + c mod b" and r: "0 \<le> c mod b" "c mod b < b" using b by simp_all
  show ?thesis
  proof (cases "0 \<le> c")
    case True
    with c have "n * b \<le> c" by simp
    then have "n * b < (c div b + 1) * b" using eq r(2) by (simp only: distrib_right mult_1_left)
    then have "n \<le> c div b" using b by (simp add: mult_less_cancel_right_pos)
    with or n show ?thesis by linarith
  next
    case False
    with c have "c \<le> - n * b" by simp
    then have "c div b * b \<le> - n * b" using eq r(1) by linarith
    then have le: "c div b \<le> - n" using b mult_le_cancel_right_pos [of b "c div b" "- n"] by blast
    have "c mod b \<noteq> 0 \<Longrightarrow> c div b + 1 \<le> - n"
    proof -
      assume "c mod b \<noteq> 0"
      with r(1) eq \<open>c \<le> - n * b\<close> have "c div b * b < - n * b" by linarith
      then have "c div b < - n" using b mult_less_cancel_right_pos [of b "c div b" "- n"] by blast
      then show ?thesis by simp
    qed
    with or le n show ?thesis by linarith
  qed
qed

lemma abs_dval: "\<bar>dval (Fin c e)\<bar> = of_int \<bar>c\<bar> * 10 powi e"
  by (simp add: dval.simps(1) abs_mult)

lemma dec_fix_small_exact:
  assumes fx: "dec_fix ctx (Fin c e) = Inr r" and p: "0 < prec ctx"
    and e: "Etiny ctx \<le> e" "e \<le> Emax ctx" and small: "\<bar>dval r\<bar> < 10 powi (e + int (prec ctx))"
  shows "r = Fin c e"
proof (cases "c = 0")
  case True
  with fx e show ?thesis by (simp add: dec_fix.simps(1))
next
  case False
  define low where "low = e + int (num_digits (nat \<bar>c\<bar>)) - int (prec ctx)"
  show ?thesis
  proof (cases "e < low")
    case False
    with fx e \<open>c \<noteq> 0\<close> show ?thesis
      unfolding dec_fix.simps(1) Let_def low_def [symmetric] by (simp split: if_splits)
  next
    case True
    then have max_low: "max low (Etiny ctx) = low" using e by simp
    define b where "b = (10::int) ^ nat (low - e)"
    define x where "x = div_round (rmode ctx) c b"
    have "10 ^ (num_digits (nat \<bar>c\<bar>) - 1) \<le> nat \<bar>c\<bar>" using \<open>c \<noteq> 0\<close> by (intro num_digits_bounds) simp
    then have "int (10 ^ (num_digits (nat \<bar>c\<bar>) - 1)) \<le> int (nat \<bar>c\<bar>)" by (simp only: of_nat_le_iff)
    then have cge: "(10::int) ^ (num_digits (nat \<bar>c\<bar>) - 1) \<le> \<bar>c\<bar>" by simp
    have "num_digits (nat \<bar>c\<bar>) - 1 = (prec ctx - 1) + nat (low - e)" using True p by (simp add: low_def)
    then have "10 ^ (prec ctx - 1) * b \<le> \<bar>c\<bar>" using cge by (simp add: b_def power_add)
    then have xge: "10 ^ (prec ctx - 1) \<le> \<bar>x\<bar>" unfolding x_def by (intro div_round_large) (simp_all add: b_def)
    have r: "r = Fin (x div 10) (low + 1) \<and> \<not> \<bar>x\<bar> < 10 ^ prec ctx \<or> r = Fin x low"
      using fx True \<open>c \<noteq> 0\<close> digits_le_iff [OF p, of x]
      unfolding dec_fix.simps(1) Let_def low_def [symmetric] max_low b_def [symmetric] x_def [symmetric]
      by (auto simp: not_le split: if_splits)
    have "e + int (prec ctx) \<le> low + int (prec ctx) - 1" using True by simp
    then have le: "(10::rat) powi (e + int (prec ctx)) \<le> 10 powi (low + int (prec ctx - 1))"
      using p by (intro power_int_increasing) auto
    also have "\<dots> = of_int (10 ^ (prec ctx - 1)) * 10 powi low"
      by (simp add: power_int_add mult.commute)
    also have "\<dots> \<le> \<bar>dval r\<bar>"
    proof -
      consider "r = Fin x low" | "r = Fin (x div 10) (low + 1)" "10 ^ prec ctx \<le> \<bar>x\<bar>" using r by linarith
      then show ?thesis
      proof cases
        case 1
        show ?thesis unfolding 1 abs_dval using xge
          by (intro mult_right_mono) (simp_all only: of_int_le_iff less_imp_le powi_pos)
      next
        case 2
        have "10 ^ (prec ctx - 1) * 10 \<le> \<bar>x\<bar>" using 2(2) p by (metis power_minus_mult)
        then have "10 ^ (prec ctx - 1) \<le> \<bar>div_round ROUND_FLOOR x 10\<bar>" by (intro div_round_large) simp_all
        then have "10 ^ (prec ctx - 1) \<le> \<bar>x div 10\<bar>" by simp
        then have "(of_int (10 ^ (prec ctx - 1)) :: rat) * 10 powi (low + 1) \<le> \<bar>dval r\<bar>"
          unfolding 2(1) abs_dval by (intro mult_right_mono) (simp_all only: of_int_le_iff less_imp_le powi_pos)
        moreover have "(of_int (10 ^ (prec ctx - 1)) :: rat) * 10 powi low \<le> of_int (10 ^ (prec ctx - 1)) * 10 powi (low + 1)"
          by (intro mult_left_mono power_int_increasing) auto
        ultimately show ?thesis by (rule order_trans [rotated])
      qed
    qed
    finally show ?thesis using small by simp
  qed
qed

section \<open>What a context holds\<close>

text \<open>A rounded result is a number its context holds; one that is zero was zero before.\<close>

definition sane :: "dctx \<Rightarrow> bool" where
  "sane ctx = (0 < prec ctx \<and> Etiny ctx + int (prec ctx) \<le> Emax ctx)"

lemma dec_fix_zero:
  assumes "dec_fix ctx (Fin c e) = Inr r" "0 < prec ctx" "Etiny ctx \<le> e" "dval r = 0"
  shows "c = 0"
proof (cases "e \<le> Emax ctx")
  case True
  have "\<bar>dval r\<bar> < 10 powi (e + int (prec ctx))" unfolding assms(4) by simp
  from dec_fix_small_exact [OF assms(1-3) True this] assms(4) show ?thesis by (simp add: dval.simps(1))
next
  case False
  with dec_fix_huge_exponent [OF assms(1)] show ?thesis by simp
qed

lemma dec_fix_pos:
  assumes "dec_fix ctx (Fin c e) = Inr r" "0 < prec ctx" "Etiny ctx \<le> e" "0 < c"
  shows "0 < dval r"
proof -
  obtain c' e' where r: "r = Fin c' e'" using dec_fix_finite [of "Fin c e" ctx r] assms(1) by (auto simp: is_finite_iff)
  have "0 \<le> dval r" using dec_fix_nonneg [of ctx c e c' e'] assms(1,4) by (simp add: r dval_nonneg_iff)
  moreover have "dval r \<noteq> 0" using dec_fix_zero [OF assms(1-3)] assms(4) by auto
  ultimately show ?thesis by simp
qed

lemma div_round_nonpos: "0 < b \<Longrightarrow> c \<le> 0 \<Longrightarrow> div_round m c b \<le> 0"
proof -
  assume b: "0 < b" and c: "c \<le> 0"
  have le: "c div b \<le> 0" using b c by (simp add: zdiv_mono1 [of c 0 b, simplified])
  have "c div b \<noteq> 0" if "c mod b \<noteq> 0"
  proof
    assume "c div b = 0"
    then have "c = c mod b" using div_mult_mod_eq [of c b] by simp
    with that c pos_mod_sign [OF b, of c] show False by linarith
  qed
  with le div_round_floor_or_next [OF b, of m c] show ?thesis by linarith
qed

lemma dec_fix_nonpos:
  assumes "dec_fix ctx (Fin c e) = Inr (Fin c' e')" "c \<le> 0"
  shows "c' \<le> 0"
proof -
  define low where "low = e + int (num_digits (nat \<bar>c\<bar>)) - int (prec ctx)"
  define x where "x = div_round (rmode ctx) c (10 ^ nat (max low (Etiny ctx) - e))"
  have x: "x \<le> 0" unfolding x_def using assms(2) by (intro div_round_nonpos) simp_all
  have "c' = 0 \<or> c' = c \<or> c' = x \<or> c' = x div 10"
    using assms(1) unfolding dec_fix.simps(1) Let_def low_def [symmetric] x_def [symmetric] by (simp split: if_splits)
  with x assms(2) show ?thesis using zdiv_mono1 [of x 0 10] by auto
qed

lemma dec_fix_neg:
  assumes "dec_fix ctx (Fin c e) = Inr r" "0 < prec ctx" "Etiny ctx \<le> e" "c < 0"
  shows "dval r < 0"
proof -
  obtain c' e' where r: "r = Fin c' e'" using dec_fix_finite [of "Fin c e" ctx r] assms(1) by (auto simp: is_finite_iff)
  have "c' \<le> 0" using dec_fix_nonpos [of ctx c e c' e'] assms(1,4) by (simp add: r)
  moreover have "dval r \<noteq> 0" using dec_fix_zero [OF assms(1-3)] assms(4) by auto
  then have "c' \<noteq> 0" by (auto simp: r dval.simps(1))
  ultimately have "c' < 0" by simp
  then show ?thesis by (simp add: r dval.simps(1) mult_less_0_iff)
qed

lemma div_round_le: "0 < b \<Longrightarrow> \<bar>c\<bar> \<le> n * b \<Longrightarrow> \<bar>div_round m c b\<bar> \<le> n"
proof -
  assume b: "0 < b" and n: "\<bar>c\<bar> \<le> n * b"
  have or: "div_round m c b = c div b \<or> (div_round m c b = c div b + 1 \<and> c mod b \<noteq> 0)"
    by (rule div_round_floor_or_next [OF b])
  have eq: "c = c div b * b + c mod b" and r: "0 \<le> c mod b" "c mod b < b" using b by simp_all
  have up: "c div b * b \<le> n * b" "- n * b \<le> c" using eq r n by linarith+
  then have "- n * b < (c div b + 1) * b" using eq r(2) by (simp only: distrib_right mult_1_left)
  then have "- n < c div b + 1" using b mult_less_cancel_right_pos [of b "- n" "c div b + 1"] by blast
  moreover have "c div b \<le> n" using up(1) b mult_le_cancel_right_pos [of b "c div b" n] by blast
  ultimately have "c div b \<le> n" "- n \<le> c div b" by simp_all
  moreover have "c div b + 1 \<le> n" if "c mod b \<noteq> 0"
  proof -
    have "c div b * b < n * b" using that eq r n by linarith
    with b have "c div b < n" by (simp add: mult_less_cancel_right_pos)
    then show ?thesis by simp
  qed
  ultimately show ?thesis using or by linarith
qed

lemma dec_fix_result_fits:
  assumes "dec_fix ctx (Fin c e) = Inr r" "sane ctx"
  shows "fits ctx r"
proof (cases "c = 0")
  case True
  with assms show ?thesis by (auto simp: dec_fix.simps(1) sane_def)
next
  case False
  have p: "0 < prec ctx" using assms(2) by (simp add: sane_def)
  define low0 where "low0 = e + int (num_digits (nat \<bar>c\<bar>)) - int (prec ctx)"
  define low where "low = max low0 (Etiny ctx)"
  define b where "b = (10::int) ^ nat (low - e)"
  define x where "x = div_round (rmode ctx) c b"
  have range: "low0 \<le> Etop ctx" and r: "e < low \<and> num_digits (nat \<bar>x\<bar>) \<le> prec ctx \<and> r = Fin x low \<or>
      e < low \<and> \<not> num_digits (nat \<bar>x\<bar>) \<le> prec ctx \<and> low + 1 \<le> Etop ctx \<and> r = Fin (x div 10) (low + 1) \<or>
      \<not> e < low \<and> r = Fin c e"
    using assms(1) False
    unfolding dec_fix.simps(1) Let_def low0_def [symmetric] low_def [symmetric] b_def [symmetric] x_def [symmetric]
    by (auto split: if_splits)
  have low: "low \<le> Etop ctx" "Etiny ctx \<le> low" "low0 \<le> low"
    using range assms(2) by (auto simp: low_def sane_def Etop_def)
  from r show ?thesis
  proof (elim disjE conjE)
    assume "e < low" "num_digits (nat \<bar>x\<bar>) \<le> prec ctx" "r = Fin x low"
    with low show ?thesis by (simp add: Etop_def)
  next
    assume h: "e < low" "\<not> num_digits (nat \<bar>x\<bar>) \<le> prec ctx" "low + 1 \<le> Etop ctx" "r = Fin (x div 10) (low + 1)"
    have "num_digits (nat \<bar>c\<bar>) \<le> prec ctx + nat (low - e)" using low(3) h(1) by (simp add: low0_def)
    then have "\<bar>c\<bar> < 10 ^ (prec ctx + nat (low - e))" using p by (subst (asm) digits_le_iff) auto
    then have "\<bar>x\<bar> \<le> 10 ^ prec ctx" unfolding x_def by (intro div_round_le) (simp_all add: b_def power_add)
    moreover have "\<not> \<bar>x\<bar> < 10 ^ prec ctx" using h(2) digits_le_iff [OF p] by blast
    ultimately have "\<bar>x\<bar> \<le> 10 ^ (prec ctx - 1) * 10" using p by (metis power_minus_mult)
    then have "\<bar>div_round ROUND_FLOOR x 10\<bar> \<le> 10 ^ (prec ctx - 1)" by (intro div_round_le) simp_all
    moreover have "(10::int) ^ (prec ctx - 1) < 10 ^ prec ctx" using p by (intro power_strict_increasing) auto
    ultimately have "\<bar>x div 10\<bar> < 10 ^ prec ctx" by (simp only: div_round.simps order.strict_trans1)
    then have "num_digits (nat \<bar>x div 10\<bar>) \<le> prec ctx" using p by (simp only: digits_le_iff)
    with h low show ?thesis by (simp add: Etop_def)
  next
    assume h: "\<not> e < low" "r = Fin c e"
    with low range show ?thesis by (simp add: low0_def Etop_def)
  qed
qed

lemma fits_neg [simp]: "fits ctx (dec_neg_exact d) = fits ctx d"
  by (cases d) simp_all

lemma dec_abs_fits: "fits ctx d \<Longrightarrow> is_finite d \<Longrightarrow> \<exists>r. dec_abs ctx d = Inr r \<and> is_finite r \<and> fits ctx r \<and> dval r = \<bar>dval d\<bar>"
  by (cases d) (auto simp: dec_fix_fits dval.simps(1) abs_mult)

lemma dec_abs_finite: "is_finite d \<Longrightarrow> dec_abs ctx d = Inr r \<Longrightarrow> is_finite r"
  by (cases d) (auto dest: dec_fix_finite [rotated])

lemma dec_neg_fits: "fits ctx d \<Longrightarrow> dec_neg ctx d = Inr (dec_neg_exact d)"
  by (simp add: dec_neg_def dec_fix_fits)

lemma fits_exponent: "fits ctx (Fin c e) \<Longrightarrow> Etiny ctx \<le> e"
  by simp

text \<open>The sign of a sum of numbers the context holds is the sign of the exact sum.\<close>

lemma dec_add_sign:
  assumes "dec_add ctx a b = Inr r" "is_finite a" "is_finite b" "fits ctx a" "fits ctx b" "sane ctx"
  shows "is_finite r" "fits ctx r" "0 < dval a + dval b \<Longrightarrow> 0 < dval r" "dval a + dval b < 0 \<Longrightarrow> dval r < 0"
proof -
  obtain c e d f where ab: "a = Fin c e" "b = Fin d f" using assms(2,3) by (auto simp: is_finite_iff)
  define m where "m = min e f"
  define x where "x = align c e m + align d f m"
  have r: "dec_fix ctx (Fin x m) = Inr r" using assms(1) by (simp add: ab Let_def x_def m_def)
  have m: "Etiny ctx \<le> m" using assms(4,5) by (simp add: m_def ab)
  have "add_exact a b = Fin x m" by (simp add: ab Let_def x_def m_def)
  then have val: "dval a + dval b = of_int x * 10 powi m"
    using dval_add_exact [OF assms(2,3)] by (simp add: dval.simps(1))
  have p: "0 < prec ctx" using assms(6) by (simp add: sane_def)
  show "is_finite r" using dec_fix_finite [OF _ r] by simp
  show "fits ctx r" using dec_fix_result_fits [OF r assms(6)] .
  show "0 < dval r" if "0 < dval a + dval b"
  proof -
    have "0 < x" using that mult_less_cancel_right_pos [OF powi_pos, of 0 m "of_int x"] unfolding val by simp
    from dec_fix_pos [OF r p m this] show ?thesis .
  qed
  show "dval r < 0" if "dval a + dval b < 0"
  proof -
    have "x < 0" using that mult_less_cancel_right_pos [OF powi_pos, of "of_int x" m 0] unfolding val by simp
    from dec_fix_neg [OF r p m this] show ?thesis .
  qed
qed

lemma dec_sub_sign:
  assumes "dec_sub ctx a b = Inr r" "is_finite a" "is_finite b" "fits ctx a" "fits ctx b" "sane ctx"
  shows "is_finite r" "fits ctx r" "dval b < dval a \<Longrightarrow> 0 < dval r" "dval a < dval b \<Longrightarrow> dval r < 0"
  using dec_add_sign [of ctx a "dec_neg_exact b" r] assms by (simp_all add: dec_sub_def)

text \<open>Finiteness forwards, from the step that computed a number.\<close>

lemmas finite_steps =
  dec_add_finite [rotated 2] dec_sub_finite [rotated 2] dec_mul_finite [rotated 2]
  dec_div_finite [rotated 2] dec_abs_finite [rotated 1]

text \<open>The sign of a product.\<close>

lemma dec_mul_sign:
  assumes "dec_mul ctx a b = Inr r" "is_finite a" "is_finite b" "0 < dval b"
  shows "is_finite r" "0 \<le> dval a \<Longrightarrow> 0 \<le> dval r" "dval a \<le> 0 \<Longrightarrow> dval r \<le> 0"
proof -
  obtain c e d f where ab: "a = Fin c e" "b = Fin d f" using assms(2,3) by (auto simp: is_finite_iff)
  have d: "0 \<le> d" using assms(4) dval_nonneg_iff [of d f] by (simp add: ab)
  have r: "dec_fix ctx (Fin (c * d) (e + f)) = Inr r" using assms(1) by (simp add: ab)
  show "is_finite r" using dec_fix_finite [OF _ r] by simp
  then obtain k g where k: "r = Fin k g" by (auto simp: is_finite_iff)
  show "0 \<le> dval r" if "0 \<le> dval a"
  proof -
    have "0 \<le> c * d" using that d by (simp add: ab dval_nonneg_iff)
    with r dec_fix_nonneg [of ctx "c * d" "e + f" k g] show ?thesis by (simp add: k dval_nonneg_iff)
  qed
  show "dval r \<le> 0" if "dval a \<le> 0"
  proof -
    have "c \<le> 0" using that dval_nonneg_iff [of "- c" e] by (simp add: ab dval.simps(1))
    with d have "c * d \<le> 0" by (simp add: mult_nonpos_nonneg)
    with r dec_fix_nonpos [of ctx "c * d" "e + f" k g] have "k \<le> 0" by (simp add: k)
    then show ?thesis using dval_nonneg_iff [of "- k" g] by (simp add: k dval.simps(1))
  qed
qed

end
