(* ===== verification/Arithmetic.thy ===== *)
theory Arithmetic
  imports Decimals
begin

text \<open>
  \<open>alphalab/common/arithmetic.py\<close>: how a result is written out (\<open>plain\<close>), the one text of a
  number (\<open>canonical_text\<close>), and the check that a number is one (\<open>require_finite\<close>).

  \<open>ACCOUNTING_CONTEXT\<close> itself is in theory \<open>Decimals\<close>. A function the source decorates with
  \<open>in_accounting_context\<close> is modelled with that context as the one its bare operators use; a
  function it does not decorate takes the caller's context \<open>amb\<close> as an argument.
\<close>

section \<open>The representation of a result\<close>

definition plain :: "decimal \<Rightarrow> decimal res" where
  "plain value =
     (case value of
        Fin c e \<Rightarrow>
          if 0 < e \<and> adjusted value < int ACCOUNTING_PRECISION
          then dec_quantize ACCOUNTING_CONTEXT value dec_one else Inr value
      | _ \<Rightarrow> Inr value)"

text \<open>It never raises and never changes the number, only its exponent.\<close>

lemma accounting_context_simps [simp]:
  "prec ACCOUNTING_CONTEXT = 34" "rmode ACCOUNTING_CONTEXT = ROUND_HALF_EVEN"
  "Emin ACCOUNTING_CONTEXT = -999999" "Emax ACCOUNTING_CONTEXT = 999999"
  "Etiny ACCOUNTING_CONTEXT = -1000032" "Etop ACCOUNTING_CONTEXT = 999966"
  by (simp_all add: ACCOUNTING_CONTEXT_def ACCOUNTING_PRECISION_def Etiny_def Etop_def)

lemma quantize_up_exact:
  assumes e: "0 \<le> e" and dig: "e + int (num_digits (nat \<bar>c\<bar>)) \<le> 34"
  shows "dec_quantize ACCOUNTING_CONTEXT (Fin c e) (Fin d 0) = Inr (Fin (c * 10 ^ nat e) 0)"
proof (cases "c = 0")
  case True
  then show ?thesis by (simp add: dec_quantize.simps(7) dec_fix.simps(1))
next
  case False
  define c' where "c' = c * 10 ^ nat e"
  have r: "rescale (rmode ACCOUNTING_CONTEXT) c e 0 = c'" using e by (simp add: rescale_def c'_def)
  have "\<bar>dval (Fin c e)\<bar> < 10 powi 34" using dig by (rule magnitude_digits)
  moreover have "dval (Fin c e) = dval (Fin c' 0)"
    using e powi_split [of 0 e] by (simp add: dval.simps(1) c'_def)
  ultimately have "\<bar>c'\<bar> < 10 ^ 34" using magnitude_iff [of 34 0 c'] by simp
  then have dig': "num_digits (nat \<bar>c'\<bar>) \<le> 34" by (subst digits_le_iff) auto
  then have fixed: "dec_fix ACCOUNTING_CONTEXT (Fin c' 0) = Inr (Fin c' 0)"
    by (intro dec_fix_fits) simp
  have "\<not> (999999 < adjusted (Fin c e))" "\<not> 34 < adjusted (Fin c e) - 0 + 1"
    "\<not> 999999 < adjusted (Fin c' 0)" "\<not> 34 < num_digits (nat \<bar>c'\<bar>)"
    using e dig dig' by auto
  then show ?thesis
    unfolding c'_def [symmetric] dec_quantize.simps(7) Let_def r using False fixed by simp
qed

lemma plain_ok:
  assumes "is_finite a"
  obtains r where "plain a = Inr r" "is_finite r" "dval r = dval a"
proof (cases a)
  case (Fin c e)
  show thesis
  proof (cases "0 < e \<and> adjusted a < 34")
    case True
    with Fin have e: "0 \<le> e" "e + int (num_digits (nat \<bar>c\<bar>)) \<le> 34" by auto
    have "dval (Fin (c * 10 ^ nat e) 0) = dval a"
      using e(1) powi_split [of 0 e] by (simp add: Fin dval.simps(1))
    with True quantize_up_exact [OF e] show thesis
      by (intro that [of "Fin (c * 10 ^ nat e) 0"]) (simp_all add: plain_def Fin ACCOUNTING_PRECISION_def)
  next
    case False
    with Fin assms show thesis by (intro that [of a]) (auto simp: plain_def ACCOUNTING_PRECISION_def)
  qed
qed (use assms in auto)

lemma plain_finite: "is_finite a \<Longrightarrow> plain a = Inr r \<Longrightarrow> is_finite r"
  by (metis plain_ok sum.inject(2))

lemma plain_value: "is_finite a \<Longrightarrow> plain a = Inr r \<Longrightarrow> dval r = dval a"
  by (metis plain_ok sum.inject(2))

section \<open>The one text of a number\<close>

text \<open>Decimal digits of a coefficient, most significant first.\<close>

definition digit_char :: "nat \<Rightarrow> char" where
  "digit_char d = char_of (48 + d)"

fun digits_text :: "nat \<Rightarrow> string" where
  "digits_text n = (if n < 10 then [digit_char n] else digits_text (n div 10) @ [digit_char (n mod 10)])"

declare digits_text.simps [simp del]

text \<open>
  \<open>value.normalize(exact)\<close> in a context as precise as the value: trailing zeros of the coefficient
  move into the exponent and no digit is rounded away.
\<close>

function normal_form :: "int \<Rightarrow> int \<Rightarrow> int \<times> int" where
  "normal_form c e = (if c \<noteq> 0 \<and> c mod 10 = 0 then normal_form (c div 10) (e + 1) else (c, e))"
  by pat_completeness auto
termination
  by (relation "measure (\<lambda>(c, e). nat \<bar>c\<bar>)") auto

declare normal_form.simps [simp del]

text \<open>\<open>format(value, "f")\<close>: positional notation.\<close>

definition format_f :: "int \<Rightarrow> int \<Rightarrow> string" where
  "format_f c e =
     (let sign = (if c < 0 then ''-'' else []); ds = digits_text (nat \<bar>c\<bar>) in
      if 0 \<le> e then sign @ ds @ replicate (nat e) CHR ''0''
      else
        let n = nat (- e); padded = replicate (n + 1 - length ds) CHR ''0'' @ ds;
            k = length padded - n
        in sign @ take k padded @ ''.'' @ drop k padded)"

definition canonical_text :: "decimal \<Rightarrow> string res" where
  "canonical_text value =
     (case value of
        Fin c e \<Rightarrow> if c = 0 then Inr ''0'' else (case normal_form c e of (c', e') \<Rightarrow> Inr (format_f c' e'))
      | _ \<Rightarrow> Inl AlphaLabValidationError)"

definition require_finite :: "decimal \<Rightarrow> exn \<Rightarrow> decimal res" where
  "require_finite value exception_type = (if \<not> is_finite value then Inl exception_type else Inr value)"

section \<open>Numbers the context holds\<close>

lemma accounting_sane [simp]: "sane ACCOUNTING_CONTEXT"
  by (simp add: sane_def)

definition exact_number :: "decimal \<Rightarrow> bool" where
  "exact_number d = (is_finite d \<and> fits ACCOUNTING_CONTEXT d)"

lemma dec_sub_exact_number:
  assumes "dec_sub ACCOUNTING_CONTEXT a b = Inr r" "is_finite a" "is_finite b"
  shows "exact_number r"
proof -
  obtain c e where x: "add_exact a (dec_neg_exact b) = Fin c e"
    using finite_add_exact [of a "dec_neg_exact b"] assms(2,3) by (auto simp: is_finite_iff)
  have "dec_fix ACCOUNTING_CONTEXT (Fin c e) = Inr r"
    using assms by (simp add: dec_sub_def dec_add_fix x)
  then show ?thesis using dec_fix_result_fits [OF _ accounting_sane] dec_fix_finite [of "Fin c e"] by (simp add: exact_number_def)
qed

lemma dec_add_exact_number:
  "dec_add ACCOUNTING_CONTEXT a b = Inr r \<Longrightarrow> is_finite a \<Longrightarrow> is_finite b \<Longrightarrow> exact_number r"
  using dec_sub_exact_number [of a "dec_neg_exact b" r] by (cases b) (simp_all add: dec_sub_def)

lemma dec_mul_exact_number:
  assumes "dec_mul ACCOUNTING_CONTEXT a b = Inr r" "is_finite a" "is_finite b"
  shows "exact_number r"
proof -
  obtain c e where x: "mul_exact a b = Fin c e"
    using finite_mul_exact [of a b] assms(2,3) by (auto simp: is_finite_iff)
  have "dec_fix ACCOUNTING_CONTEXT (Fin c e) = Inr r" using assms by (simp add: dec_mul_fix x)
  then show ?thesis using dec_fix_result_fits [OF _ accounting_sane] dec_fix_finite [of "Fin c e"] by (simp add: exact_number_def)
qed

lemma exact_number_abs:
  assumes "exact_number d"
  obtains r where "dec_abs ACCOUNTING_CONTEXT d = Inr r" "exact_number r" "dval r = \<bar>dval d\<bar>"
  using dec_abs_fits [of ACCOUNTING_CONTEXT d] assms by (auto simp: exact_number_def)

lemma exact_number_neg:
  assumes "exact_number d"
  obtains r where "dec_neg ACCOUNTING_CONTEXT d = Inr r" "exact_number r" "dval r = - dval d"
  using dec_neg_fits [of ACCOUNTING_CONTEXT d] assms by (auto simp: exact_number_def)

lemma exact_number_finite [simp]: "exact_number d \<Longrightarrow> is_finite d"
  by (simp add: exact_number_def)

lemma dec_mul_zero:
  assumes "dec_mul ACCOUNTING_CONTEXT a b = Inr r" "is_finite a" "is_finite b" "dval a = 0"
  shows "dval r = 0"
proof -
  obtain c e d f where ab: "a = Fin c e" "b = Fin d f" using assms(2,3) by (auto simp: is_finite_iff)
  have "c = 0" using assms(4) by (simp add: ab dval.simps(1))
  with assms(1) show ?thesis by (auto simp: ab dec_fix.simps(1))
qed

lemma dec_sub_nonpos:
  assumes "dec_sub ctx a b = Inr r" "is_finite a" "is_finite b" "dval a \<le> dval b"
  shows "dval r \<le> 0"
proof -
  obtain c e where x: "add_exact a (dec_neg_exact b) = Fin c e"
    using finite_add_exact [of a "dec_neg_exact b"] assms(2,3) by (cases "add_exact a (dec_neg_exact b)") auto
  have "dval (Fin c e) \<le> 0" unfolding x [symmetric] using assms(2-4) by simp
  then have c: "c \<le> 0" using powi_pos [of e] by (simp add: dval.simps(1) mult_le_0_iff del: powi_pos)
  have r: "dec_fix ctx (Fin c e) = Inr r" using assms(1-3) by (simp add: dec_sub_fix x)
  then obtain c' e' where "r = Fin c' e'" using dec_fix_finite [OF _ r] by (cases r) auto
  with dec_fix_nonpos [of ctx c e c' e'] r c show ?thesis by (simp add: dval.simps(1) mult_le_0_iff)
qed

end
