(* ===== verification/Dicts.thy ===== *)
theory Dicts
  imports Prelude
begin

text \<open>
  Python's insertion-ordered \<open>dict\<close> and the ordered sets the code builds on it, as values.

  A dictionary is an association list with distinct keys, in insertion order: rewriting a key
  keeps its position, deleting it and writing it again moves it to the end. This is what
  \<open>alphalab/common/persistent_map.py\<close> promises of its \<open>PersistentMap\<close>, and theory
  \<open>Persistent_Map\<close> proves that its shared versioned store keeps that promise; the components
  above it are modelled over these values.

  The locale \<open>dict_interface\<close> states what a client may rely on, its lemmas are what a client
  gets from that, and the association lists are shown to be an instance.
\<close>

section \<open>The interface\<close>

named_theorems dict_simps "laws of insertion-ordered dictionaries"

locale dict_interface =
  fixes new :: "'m"
    and get :: "'m \<Rightarrow> 'k \<Rightarrow> 'v option"
    and put :: "'k \<Rightarrow> 'v \<Rightarrow> 'm \<Rightarrow> 'm"
    and del :: "'k \<Rightarrow> 'm \<Rightarrow> 'm"
    and keys :: "'m \<Rightarrow> 'k list"
    and ok :: "'m \<Rightarrow> bool"
  assumes new_ok: "ok new" and keys_new: "keys new = []"
    and put_ok: "ok m \<Longrightarrow> ok (put k v m)" and del_ok: "ok m \<Longrightarrow> ok (del k m)"
    and get_put: "ok m \<Longrightarrow> get (put k v m) k' = (if k' = k then Some v else get m k')"
    and get_del: "ok m \<Longrightarrow> get (del k m) k' = (if k' = k then None else get m k')"
    and keys_put: "ok m \<Longrightarrow> keys (put k v m) = (if k \<in> set (keys m) then keys m else keys m @ [k])"
    and keys_del: "ok m \<Longrightarrow> keys (del k m) = filter (\<lambda>x. x \<noteq> k) (keys m)"
    and get_keys: "ok m \<Longrightarrow> get m k = None \<longleftrightarrow> k \<notin> set (keys m)"
begin

lemma get_new: "get new k = None"
  using get_keys [OF new_ok] keys_new by simp

text \<open>Keys stay distinct, so iteration meets each key once.\<close>

lemma distinct_keys_put: "ok m \<Longrightarrow> distinct (keys m) \<Longrightarrow> distinct (keys (put k v m))"
  by (simp add: keys_put)

lemma distinct_keys_del: "ok m \<Longrightarrow> distinct (keys m) \<Longrightarrow> distinct (keys (del k m))"
  by (simp add: keys_del)

text \<open>Rewriting a present key keeps the order; a deleted and re-inserted key moves to the end.\<close>

lemma keys_put_present: "ok m \<Longrightarrow> get m k \<noteq> None \<Longrightarrow> keys (put k v m) = keys m"
  using get_keys by (auto simp: keys_put)

lemma keys_reinsert: "ok m \<Longrightarrow> keys (put k v (del k m)) = filter (\<lambda>x. x \<noteq> k) (keys m) @ [k]"
  by (simp add: keys_put keys_del del_ok)

text \<open>Building a dictionary from pairs: the last value of a key wins, its first place stays.\<close>

lemma fold_put_ok: "ok m \<Longrightarrow> ok (fold (\<lambda>(k, v). put k v) ps m)"
  by (induction ps arbitrary: m) (auto simp: put_ok)

lemma get_fold_put:
  "ok m \<Longrightarrow> get (fold (\<lambda>(k, v). put k v) ps m) k =
    (case map_of (rev ps) k of None \<Rightarrow> get m k | Some v \<Rightarrow> Some v)"
proof (induction ps arbitrary: m)
  case (Cons p ps)
  obtain a b where p: "p = (a, b)" by (cases p)
  from Cons.prems have "ok (put a b m)" by (rule put_ok)
  from Cons.IH [OF this] show ?case
    by (auto simp: p get_put [OF Cons.prems] map_add_def split: option.splits)
qed simp

end

section \<open>Association lists in insertion order\<close>

type_synonym ('k, 'v) od = "('k \<times> 'v) list"

definition od_get :: "('k, 'v) od \<Rightarrow> 'k \<Rightarrow> 'v option" where
  "od_get m k = map_of m k"

fun od_set :: "'k \<Rightarrow> 'v \<Rightarrow> ('k, 'v) od \<Rightarrow> ('k, 'v) od" where
  "od_set k v [] = [(k, v)]"
| "od_set k v ((k', v') # m) = (if k' = k then (k, v) # m else (k', v') # od_set k v m)"

definition od_del :: "'k \<Rightarrow> ('k, 'v) od \<Rightarrow> ('k, 'v) od" where
  "od_del k m = filter (\<lambda>p. fst p \<noteq> k) m"

definition od_keys :: "('k, 'v) od \<Rightarrow> 'k list" where
  "od_keys m = map fst m"

definition od_values :: "('k, 'v) od \<Rightarrow> 'v list" where
  "od_values m = map snd m"

definition od_ok :: "('k, 'v) od \<Rightarrow> bool" where
  "od_ok m = distinct (map fst m)"

lemma od_get_set [simp, dict_simps]: "od_get (od_set k v m) k' = (if k' = k then Some v else od_get m k')"
  by (induction k v m rule: od_set.induct) (auto simp: od_get_def)

lemma od_get_del [simp, dict_simps]: "od_get (od_del k m) k' = (if k' = k then None else od_get m k')"
  by (induction m) (auto simp: od_get_def od_del_def)

lemma od_get_Nil [simp, dict_simps]: "od_get [] k = None"
  by (simp add: od_get_def)

lemma od_get_Cons [dict_simps]: "od_get ((a, b) # m) k = (if k = a then Some b else od_get m k)"
  by (simp add: od_get_def)

lemma od_keys_set [dict_simps]:
  "od_keys (od_set k v m) = (if k \<in> set (od_keys m) then od_keys m else od_keys m @ [k])"
  by (induction k v m rule: od_set.induct) (auto simp: od_keys_def)

lemma od_keys_del [dict_simps]: "od_keys (od_del k m) = filter (\<lambda>x. x \<noteq> k) (od_keys m)"
  by (induction m) (auto simp: od_keys_def od_del_def)

lemma od_get_None [dict_simps]: "od_get m k = None \<longleftrightarrow> k \<notin> set (od_keys m)"
  by (simp add: od_get_def od_keys_def map_of_eq_None_iff)

lemma od_get_Some_key: "od_get m k = Some v \<Longrightarrow> k \<in> set (od_keys m)"
  using od_get_None [of m k] by auto

lemma od_key_get: "k \<in> set (od_keys m) \<Longrightarrow> \<exists>v. od_get m k = Some v"
  using od_get_None [of m k] by auto

lemma od_ok_set [simp]: "od_ok m \<Longrightarrow> od_ok (od_set k v m)"
  using od_keys_set [of k v m] by (auto simp: od_ok_def od_keys_def split: if_splits)

lemma od_ok_del [simp]: "od_ok m \<Longrightarrow> od_ok (od_del k m)"
  using od_keys_del [of k m] by (simp add: od_ok_def od_keys_def)

lemma od_ok_Nil [simp]: "od_ok []"
  by (simp add: od_ok_def)

lemma set_od_keys_set [simp]: "set (od_keys (od_set k v m)) = insert k (set (od_keys m))"
  by (auto simp: od_keys_set)

lemma od_get_in: "od_ok m \<Longrightarrow> od_get m k = Some v \<longleftrightarrow> (k, v) \<in> set m"
  by (simp add: od_get_def od_ok_def)

lemma od_set_absent: "k \<notin> set (od_keys m) \<Longrightarrow> od_set k v m = m @ [(k, v)]"
  by (induction k v m rule: od_set.induct) (auto simp: od_keys_def)

lemma od_set_present: "k \<in> set (od_keys m) \<Longrightarrow> od_ok m \<Longrightarrow>
    od_set k v m = map (\<lambda>p. if fst p = k then (k, v) else p) m"
proof (induction k v m rule: od_set.induct)
  case (2 k v k' v' m)
  have "k \<notin> set (od_keys m) \<Longrightarrow> map (\<lambda>p. if fst p = k then (k, v) else p) m = m"
    by (induction m) (auto simp: od_keys_def)
  with 2 show ?case by (auto simp: od_keys_def od_ok_def)
qed (simp add: od_keys_def)

lemma od_set_same: "od_get m k = Some v \<Longrightarrow> od_set k v m = m"
  by (induction k v m rule: od_set.induct) (auto simp: od_get_def split: if_splits)

lemma od_get_values: "od_get m k = Some v \<Longrightarrow> v \<in> set (od_values m)"
  by (auto simp: od_get_def od_values_def dest!: map_of_SomeD intro: image_eqI [rotated])

interpretation od: dict_interface "[]" od_get od_set od_del od_keys od_ok
  by unfold_locales (simp_all add: dict_simps od_keys_def [of "[]"])

section \<open>Ordered sets\<close>

text \<open>A set that iterates in insertion order: a list without repetitions.\<close>

definition os_add :: "'a \<Rightarrow> 'a list \<Rightarrow> 'a list" where
  "os_add x xs = (if x \<in> set xs then xs else xs @ [x])"

definition os_discard :: "'a \<Rightarrow> 'a list \<Rightarrow> 'a list" where
  "os_discard x xs = (if x \<in> set xs then filter (\<lambda>y. y \<noteq> x) xs else xs)"

lemma os_discard_filter: "os_discard x xs = filter (\<lambda>y. y \<noteq> x) xs"
  by (simp add: os_discard_def filter_neq_id)

lemma set_os_add [simp]: "set (os_add x xs) = insert x (set xs)"
  by (auto simp: os_add_def)

lemma set_os_discard [simp]: "set (os_discard x xs) = set xs - {x}"
  by (auto simp: os_discard_filter)

lemma distinct_os_add [simp]: "distinct xs \<Longrightarrow> distinct (os_add x xs)"
  by (simp add: os_add_def)

lemma distinct_os_discard [simp]: "distinct xs \<Longrightarrow> distinct (os_discard x xs)"
  by (simp add: os_discard_filter)

lemma fold_os_add: "distinct (ys @ xs) \<Longrightarrow> foldl (\<lambda>xs x. os_add x xs) ys xs = ys @ xs"
  by (induction xs arbitrary: ys) (simp_all add: os_add_def)

end
