(* ===== verification/Currency_Units.thy ===== *)
theory Currency_Units
  imports Arithmetic Dicts "HOL-Library.List_Lexorder" "HOL-Library.Char_ord"
begin

text \<open>
  \<open>alphalab/common/currency_units.py\<close>: the minor unit of every currency, from the ISO 4217 table
  and from what a caller declares, and rounding an amount to it.
\<close>

section \<open>The ISO 4217 table\<close>

definition iso_two :: "string list" where
  "iso_two = [
     ''AED'', ''AFN'', ''ALL'', ''AMD'', ''ANG'', ''AOA'', ''ARS'', ''AUD'', ''AWG'', ''AZN'',
     ''BAM'', ''BBD'', ''BDT'', ''BGN'', ''BMD'', ''BND'', ''BOB'', ''BOV'', ''BRL'', ''BSD'',
     ''BTN'', ''BWP'', ''BYN'', ''BZD'', ''CAD'', ''CDF'', ''CHE'', ''CHF'', ''CHW'', ''CNY'',
     ''COP'', ''COU'', ''CRC'', ''CUC'', ''CUP'', ''CVE'', ''CZK'', ''DKK'', ''DOP'', ''DZD'',
     ''EGP'', ''ERN'', ''ETB'', ''EUR'', ''FJD'', ''FKP'', ''GBP'', ''GEL'', ''GHS'', ''GIP'',
     ''GMD'', ''GTQ'', ''GYD'', ''HKD'', ''HNL'', ''HRK'', ''HTG'', ''HUF'', ''IDR'', ''ILS'',
     ''INR'', ''IRR'', ''JMD'', ''KES'', ''KGS'', ''KHR'', ''KPW'', ''KYD'', ''KZT'', ''LAK'',
     ''LBP'', ''LKR'', ''LRD'', ''LSL'', ''MAD'', ''MDL'', ''MGA'', ''MKD'', ''MMK'', ''MNT'',
     ''MOP'', ''MRU'', ''MUR'', ''MVR'', ''MWK'', ''MXN'', ''MXV'', ''MYR'', ''MZN'', ''NAD'',
     ''NGN'', ''NIO'', ''NOK'', ''NPR'', ''NZD'', ''PAB'', ''PEN'', ''PGK'', ''PHP'', ''PKR'',
     ''PLN'', ''QAR'', ''RON'', ''RSD'', ''RUB'', ''SAR'', ''SBD'', ''SCR'', ''SDG'', ''SEK'',
     ''SGD'', ''SHP'', ''SLE'', ''SLL'', ''SOS'', ''SRD'', ''SSP'', ''STN'', ''SVC'', ''SYP'',
     ''SZL'', ''THB'', ''TJS'', ''TMT'', ''TOP'', ''TRY'', ''TTD'', ''TWD'', ''TZS'', ''UAH'',
     ''USD'', ''USN'', ''UYU'', ''UZS'', ''VED'', ''VES'', ''WST'', ''XCD'', ''XCG'', ''YER'',
     ''ZAR'', ''ZMW'', ''ZWG'', ''ZWL'']"

definition iso_zero :: "string list" where
  "iso_zero = [
     ''BIF'', ''CLP'', ''DJF'', ''GNF'', ''ISK'', ''JPY'', ''KMF'', ''KRW'', ''PYG'', ''RWF'',
     ''UGX'', ''UYI'', ''VND'', ''VUV'', ''XAF'', ''XOF'', ''XPF'']"

definition iso_three :: "string list" where
  "iso_three = [''BHD'', ''IQD'', ''JOD'', ''KWD'', ''LYD'', ''OMR'', ''TND'']"

definition iso_four :: "string list" where
  "iso_four = [''CLF'', ''UYW'']"

text \<open>\<open>dict.fromkeys\<close> and three \<open>update\<close>s: a later entry for a code replaces an earlier one.\<close>

definition fromkeys :: "string list \<Rightarrow> int \<Rightarrow> (string, int) od" where
  "fromkeys ks v = fold (\<lambda>k. od_set k v) ks []"

definition od_update :: "('k, 'v) od \<Rightarrow> ('k, 'v) od \<Rightarrow> ('k, 'v) od" where
  "od_update m m' = fold (\<lambda>(k, v). od_set k v) m' m"

definition ISO_4217_MINOR_UNITS :: "string \<Rightarrow> int option" where
  "ISO_4217_MINOR_UNITS =
     od_get (od_update (od_update (od_update (fromkeys iso_two 2) (fromkeys iso_zero 0))
       (fromkeys iso_three 3)) (fromkeys iso_four 4))"

definition MAX_MINOR_UNITS :: int where
  "MAX_MINOR_UNITS = 18"

text \<open>\<open>Decimal(1).scaleb(-n)\<close> for every admissible \<open>n\<close>.\<close>

definition MINOR_UNIT_QUANTA :: "decimal list" where
  "MINOR_UNIT_QUANTA = map (\<lambda>n. Fin 1 (- int n)) [0..<nat MAX_MINOR_UNITS + 1]"

section \<open>Currency codes\<close>

text \<open>
  The pattern \<open>^[A-Z0-9][A-Z0-9._-]{0,15}$\<close> under \<open>re.match\<close>: \<open>$\<close> also matches just before a
  newline that ends the string.
\<close>

definition code_first :: "char \<Rightarrow> bool" where
  "code_first c = (c \<in> set ''ABCDEFGHIJKLMNOPQRSTUVWXYZ0123456789'')"

definition code_rest :: "char \<Rightarrow> bool" where
  "code_rest c = (code_first c \<or> c \<in> {CHR ''.'', CHR ''_'', CHR ''-''})"

definition code_body :: "string \<Rightarrow> bool" where
  "code_body s = (s \<noteq> [] \<and> code_first (hd s) \<and> list_all code_rest (tl s) \<and> length (tl s) \<le> 15)"

definition code_match :: "string \<Rightarrow> bool" where
  "code_match s = (code_body s \<or> s \<noteq> [] \<and> last s = CHR 0x0A \<and> code_body (butlast s))"

definition require_code :: "string \<Rightarrow> string res" where
  "require_code currency = (if \<not> code_match currency then Inl AlphaLabValidationError else Inr currency)"

definition require_units :: "string \<Rightarrow> int \<Rightarrow> int res" where
  "require_units currency units =
     (if \<not> (0 \<le> units \<and> units \<le> MAX_MINOR_UNITS) then Inl AlphaLabValidationError else Inr units)"

section \<open>CurrencyUnits\<close>

text \<open>A value is its declarations, sorted by code.\<close>

type_synonym currency_units = "(string, int) od"

definition check_declaration :: "(string, int) od \<Rightarrow> string \<times> int \<Rightarrow> (string, int) od res" where
  "check_declaration checked decl = (case decl of (currency, units) \<Rightarrow>
     rbind (require_code currency) (\<lambda>code.
     rbind (require_units code units) (\<lambda>count.
       case ISO_4217_MINOR_UNITS code of
         Some standard \<Rightarrow> if standard \<noteq> count then Inl AlphaLabValidationError else Inr (od_set code count checked)
       | None \<Rightarrow> Inr (od_set code count checked))))"

definition make_units :: "(string, int) od \<Rightarrow> currency_units res" where
  "make_units declared =
     rbind (rfold check_declaration [] declared) (\<lambda>checked. Inr (sort_key fst checked))"

definition STANDARD_CURRENCY_UNITS :: currency_units where
  "STANDARD_CURRENCY_UNITS = []"

definition minor_units :: "currency_units \<Rightarrow> string \<Rightarrow> int res" where
  "minor_units cu currency =
     (case od_get cu currency of
        Some declared \<Rightarrow> Inr declared
      | None \<Rightarrow>
          (case ISO_4217_MINOR_UNITS currency of
             Some standard \<Rightarrow> Inr standard
           | None \<Rightarrow> Inl UnknownCurrencyUnitsError))"

definition quantum :: "currency_units \<Rightarrow> string \<Rightarrow> decimal res" where
  "quantum cu currency = rbind (minor_units cu currency) (py_index MINOR_UNIT_QUANTA)"

definition round_money :: "currency_units \<Rightarrow> decimal \<Rightarrow> string \<Rightarrow> decimal res" where
  "round_money cu amount currency =
     rbind (quantum cu currency) (\<lambda>q.
       dec_quantize (ACCOUNTING_CONTEXT\<lparr>rmode := ROUND_HALF_EVEN\<rparr>) amount q)"

definition is_exact :: "currency_units \<Rightarrow> decimal \<Rightarrow> string \<Rightarrow> bool res" where
  "is_exact cu amount currency = rbind (round_money cu amount currency) (\<lambda>r. Inr (dec_eq r amount))"

definition declaring :: "currency_units \<Rightarrow> string \<Rightarrow> int \<Rightarrow> currency_units res" where
  "declaring cu currency units = make_units (od_set currency units cu)"

text \<open>\<open>{**self.declared, **other.declared}\<close> after the check that the two agree.\<close>

definition merged :: "currency_units \<Rightarrow> currency_units \<Rightarrow> currency_units res" where
  "merged cu other =
     (if list_ex (\<lambda>(currency, units).
           case od_get cu currency of Some mine \<Rightarrow> mine \<noteq> units | None \<Rightarrow> False) other
      then Inl AlphaLabValidationError
      else make_units (od_update cu other))"

section \<open>The table\<close>

text \<open>The four lists do not overlap, so the order of the updates does not matter.\<close>

lemma od_get_fromkeys: "od_get (fromkeys ks v) k = (if k \<in> set ks then Some v else None)"
proof -
  have "od_get (fold (\<lambda>k. od_set k v) ks m) k = (if k \<in> set ks then Some v else od_get m k)" for m
    by (induction ks arbitrary: m) auto
  then show ?thesis by (simp add: fromkeys_def)
qed

lemma od_ok_fromkeys [simp]: "od_ok (fromkeys ks v)"
proof -
  have "od_ok m \<Longrightarrow> od_ok (fold (\<lambda>k. od_set k v) ks m)" for m
    by (induction ks arbitrary: m) auto
  then show ?thesis by (simp add: fromkeys_def)
qed

lemma od_get_update:
  "od_ok m' \<Longrightarrow> od_get (od_update m m') k = (case od_get m' k of None \<Rightarrow> od_get m k | Some v \<Rightarrow> Some v)"
proof (induction m' arbitrary: m)
  case (Cons p m')
  obtain a b where p: "p = (a, b)" by (cases p)
  have "od_ok m'" using Cons.prems by (simp add: od_ok_def)
  moreover have "od_get m' a = None" using Cons.prems by (simp add: p od_ok_def od_get_def map_of_eq_None_iff)
  ultimately show ?case using Cons.IH [of "od_set a b m"]
    by (auto simp: p od_update_def od_get_Cons split: option.splits)
qed (simp add: od_update_def)

lemma ISO_4217_MINOR_UNITS_eq:
  "ISO_4217_MINOR_UNITS k =
    (if k \<in> set iso_four then Some 4 else if k \<in> set iso_three then Some 3
     else if k \<in> set iso_zero then Some 0 else if k \<in> set iso_two then Some 2 else None)"
  by (simp add: ISO_4217_MINOR_UNITS_def od_get_update od_get_fromkeys)

lemma ISO_range: "ISO_4217_MINOR_UNITS k = Some u \<Longrightarrow> 0 \<le> u \<and> u \<le> MAX_MINOR_UNITS"
  by (auto simp: ISO_4217_MINOR_UNITS_eq MAX_MINOR_UNITS_def split: if_splits)

section \<open>Declarations\<close>

text \<open>What every value built by the constructor satisfies.\<close>

definition units_legal :: "string \<Rightarrow> int \<Rightarrow> bool" where
  "units_legal c u = (0 \<le> u \<and> u \<le> MAX_MINOR_UNITS \<and>
     (case ISO_4217_MINOR_UNITS c of None \<Rightarrow> True | Some s \<Rightarrow> s = u))"

definition units_ok :: "currency_units \<Rightarrow> bool" where
  "units_ok cu = (od_ok cu \<and> sorted (map fst cu) \<and> list_all (\<lambda>(c, u). units_legal c u) cu)"

definition declared_ok :: "(string, int) od \<Rightarrow> bool" where
  "declared_ok m = (od_ok m \<and> (\<forall>c u. od_get m c = Some u \<longrightarrow> units_legal c u))"

lemma check_declaration_Inr:
  "check_declaration m (c, u) = Inr m' \<longleftrightarrow> code_match c \<and> units_legal c u \<and> m' = od_set c u m"
  by (auto simp: check_declaration_def require_code_def require_units_def units_legal_def
    rbind_eq_Inr split: if_splits option.splits)

lemma check_declaration_ok:
  "declared_ok m \<Longrightarrow> check_declaration m d = Inr m' \<Longrightarrow> declared_ok m'"
  by (cases d) (auto simp: check_declaration_Inr declared_ok_def)

lemma od_ok_sort_key [simp]: "od_ok (sort_key fst m) = od_ok m"
  by (simp add: od_ok_def distinct_map)

lemma od_get_sort_key: "od_ok m \<Longrightarrow> od_get (sort_key fst m) k = od_get m k"
proof -
  assume ok: "od_ok m"
  then have "od_get (sort_key fst m) k = Some v \<longleftrightarrow> od_get m k = Some v" for v
    by (simp add: od_get_in)
  then show ?thesis by (metis not_None_eq)
qed

lemma rfold_declarations:
  "rfold check_declaration m ds = Inr m' \<longleftrightarrow>
     list_all (\<lambda>(c, u). code_match c \<and> units_legal c u) ds \<and> m' = od_update m ds"
proof (induction ds arbitrary: m)
  case (Cons d ds)
  obtain c u where "d = (c, u)" by (cases d)
  then show ?case using Cons.IH by (auto simp: rbind_eq_Inr check_declaration_Inr od_update_def)
qed (auto simp: od_update_def)

lemma make_units_ok: "make_units declared = Inr cu \<Longrightarrow> units_ok cu"
proof -
  assume "make_units declared = Inr cu"
  then obtain m where m: "rfold check_declaration [] declared = Inr m" and cu: "cu = sort_key fst m"
    by (auto simp: make_units_def rbind_eq_Inr)
  have "declared_ok m"
    by (rule rfold_invariant [OF check_declaration_ok _ m]) (auto simp: declared_ok_def)
  then show ?thesis by (auto simp: units_ok_def declared_ok_def od_get_in cu list_all_iff)
qed

lemma units_ok_get: "units_ok cu \<Longrightarrow> od_get cu c = Some u \<Longrightarrow> units_legal c u"
  by (auto simp: units_ok_def od_get_in list_all_iff)

lemma units_ok_standard: "units_ok STANDARD_CURRENCY_UNITS"
  by (simp add: units_ok_def STANDARD_CURRENCY_UNITS_def)

lemma minor_units_range:
  "units_ok cu \<Longrightarrow> minor_units cu c = Inr u \<Longrightarrow> 0 \<le> u \<and> u \<le> MAX_MINOR_UNITS"
  using ISO_range units_ok_get by (fastforce simp: minor_units_def units_legal_def split: option.splits)

lemma quantum_eq:
  "units_ok cu \<Longrightarrow> minor_units cu c = Inr u \<Longrightarrow> quantum cu c = Inr (Fin 1 (- u))"
proof -
  assume "units_ok cu" "minor_units cu c = Inr u"
  moreover have u: "0 \<le> u" "nat u < 19" using minor_units_range [OF calculation] by (auto simp: MAX_MINOR_UNITS_def)
  moreover have "MINOR_UNIT_QUANTA ! nat u = Fin 1 (- u)" "int (length MINOR_UNIT_QUANTA) = 19"
    using u by (simp_all add: MINOR_UNIT_QUANTA_def MAX_MINOR_UNITS_def nth_append del: upt_Suc)
  ultimately show ?thesis by (simp add: quantum_def py_index_def)
qed

section \<open>Rounding to a minor unit\<close>

lemma accounting_half_even [simp]: "ACCOUNTING_CONTEXT\<lparr>rmode := ROUND_HALF_EVEN\<rparr> = ACCOUNTING_CONTEXT"
  by (simp add: ACCOUNTING_CONTEXT_def)

lemma round_money_result:
  assumes "units_ok cu" "is_finite amount" "round_money cu amount c = Inr r"
  obtains u a e where "minor_units cu c = Inr u" "0 \<le> u" "u \<le> 18" "amount = Fin a e"
    "r = Fin (rescale ROUND_HALF_EVEN a e (- u)) (- u)"
proof -
  obtain u where u: "minor_units cu c = Inr u"
    using assms(3) by (auto simp: round_money_def quantum_def rbind_eq_Inr)
  obtain a e where a: "amount = Fin a e" using assms(2) by (auto simp: is_finite_iff)
  have "dec_quantize ACCOUNTING_CONTEXT (Fin a e) (Fin 1 (- u)) = Inr r"
    using assms(3) quantum_eq [OF assms(1) u] by (simp add: round_money_def a)
  from dec_quantize_result(1) [OF this] show thesis
    using that u a minor_units_range [OF assms(1) u] by (simp add: MAX_MINOR_UNITS_def)
qed

lemma round_money_ok:
  assumes "units_ok cu" "minor_units cu c = Inr u" "\<bar>dval (Fin a e)\<bar> < 10 powi (33 - u)"
  shows "round_money cu (Fin a e) c = Inr (Fin (rescale ROUND_HALF_EVEN a e (- u)) (- u))"
proof -
  have u: "0 \<le> u" "u \<le> 18" using minor_units_range [OF assms(1,2)] by (auto simp: MAX_MINOR_UNITS_def)
  have "dec_quantize ACCOUNTING_CONTEXT (Fin a e) (Fin 1 (- u)) =
      Inr (Fin (rescale (rmode ACCOUNTING_CONTEXT) a e (- u)) (- u))"
    by (rule dec_quantize_ok) (use u assms(3) in \<open>simp_all add: add.commute\<close>)
  then show ?thesis using quantum_eq [OF assms(1,2)] by (simp add: round_money_def)
qed

lemma round_money_finite:
  "units_ok cu \<Longrightarrow> is_finite a \<Longrightarrow> round_money cu a c = Inr r \<Longrightarrow> is_finite r"
  by (auto elim: round_money_result)

lemma round_money_idem:
  assumes "units_ok cu" "is_finite amount" "round_money cu amount c = Inr r"
  shows "round_money cu r c = Inr r"
proof -
  obtain u where u: "minor_units cu c = Inr u"
    using assms(3) by (auto simp: round_money_def quantum_def rbind_eq_Inr)
  obtain a e where a: "amount = Fin a e" using assms(2) by (auto simp: is_finite_iff)
  have q: "quantum cu c = Inr (Fin 1 (- u))" using quantum_eq [OF assms(1) u] .
  have "dec_quantize ACCOUNTING_CONTEXT (Fin a e) (Fin 1 (- u)) = Inr r"
    using assms(3) q by (simp add: round_money_def a)
  note r = dec_quantize_result [OF this]
  obtain k where k: "r = Fin k (- u)" using r(1) by blast
  have "dec_quantize ACCOUNTING_CONTEXT (Fin k (- u)) (Fin 1 (- u)) = Inr (Fin k (- u))"
    by (rule dec_quantize_same) (use r(2,4) k in auto)
  then show ?thesis using q by (simp add: round_money_def k)
qed

section \<open>Properties\<close>

text \<open>No value a caller can construct books an ISO 4217 currency at another minor unit than
  the standard's: whatever was declared, \<open>minor_units\<close> answers the table's figure for every code
  of the table, and a declaration never reaches past \<open>MAX_MINOR_UNITS\<close>.\<close>

theorem units_never_contradict_iso:
  assumes "make_units declared = Inr cu" and "ISO_4217_MINOR_UNITS c = Some s"
  shows "minor_units cu c = Inr s \<and> quantum cu c = Inr (Fin 1 (- s))"
proof -
  have ok: "units_ok cu" using assms(1) by (rule make_units_ok)
  have "minor_units cu c = Inr s"
    using units_ok_get [OF ok, of c] assms(2)
    by (auto simp: minor_units_def units_legal_def split: option.splits)
  with quantum_eq [OF ok] show ?thesis by simp
qed

theorem units_never_contradict_iso_witness:
  "minor_units [(''USDT'', 6)] ''JPY'' = Inr 0 \<and> quantum [(''USDT'', 6)] ''JPY'' = Inr (Fin 1 (- 0))"
proof (rule units_never_contradict_iso)
  show "make_units [(''USDT'', 6)] = Inr [(''USDT'', 6)]"
    by (simp add: make_units_def check_declaration_def require_code_def code_match_def code_body_def
      code_first_def code_rest_def less_eq_char_def require_units_def MAX_MINOR_UNITS_def
      ISO_4217_MINOR_UNITS_eq iso_two_def iso_zero_def iso_three_def iso_four_def)
  show "ISO_4217_MINOR_UNITS ''JPY'' = Some 0"
    by (simp add: ISO_4217_MINOR_UNITS_eq iso_two_def iso_zero_def iso_three_def iso_four_def)
qed

text \<open>C34: Rounding an amount to money: the result is a whole number of the currency's minor unit,
  at most half of one away from the amount, with a tie going to the even number of units, and
  rounding it again changes nothing (\<open>is_exact\<close> answers true of it).\<close>

theorem round_money_half_even:
  assumes "units_ok cu" and "is_finite amount" and "round_money cu amount c = Inr r"
  shows "\<exists>u k. minor_units cu c = Inr u \<and> r = Fin k (- u) \<and>
    2 * \<bar>dval amount - dval r\<bar> \<le> 10 powi (- u) \<and>
    (2 * \<bar>dval amount - dval r\<bar> = 10 powi (- u) \<longrightarrow> even k) \<and>
    round_money cu r c = Inr r \<and> is_exact cu r c = Inr True"
proof -
  from assms obtain u a e where u: "minor_units cu c = Inr u" "amount = Fin a e"
    and r: "r = Fin (rescale ROUND_HALF_EVEN a e (- u)) (- u)"
    by (rule round_money_result)
  have idem: "round_money cu r c = Inr r" using assms by (rule round_money_idem)
  then have "is_exact cu r c = Inr True" using r by (simp add: is_exact_def)
  with idem u r rescale_half_even_dist [of a e "- u"] rescale_tie_even [of a e "- u"]
  show ?thesis by auto
qed

theorem round_money_half_even_witness:
  "\<exists>u k. minor_units [] ''USD'' = Inr u \<and> Fin 12346 (-2) = Fin k (- u) \<and>
    2 * \<bar>dval (Fin 1234550 (-4)) - dval (Fin 12346 (-2))\<bar> \<le> 10 powi (- u) \<and>
    (2 * \<bar>dval (Fin 1234550 (-4)) - dval (Fin 12346 (-2))\<bar> = 10 powi (- u) \<longrightarrow> even k) \<and>
    round_money [] (Fin 12346 (-2)) ''USD'' = Inr (Fin 12346 (-2)) \<and>
    is_exact [] (Fin 12346 (-2)) ''USD'' = Inr True"
proof (rule round_money_half_even)
  show "units_ok []" using units_ok_standard by (simp add: STANDARD_CURRENCY_UNITS_def)
  have u: "minor_units [] ''USD'' = Inr 2"
    by (simp add: minor_units_def ISO_4217_MINOR_UNITS_eq iso_two_def iso_zero_def iso_three_def iso_four_def)
  have "round_money [] (Fin 1234550 (-4)) ''USD'' =
      Inr (Fin (rescale ROUND_HALF_EVEN 1234550 (-4) (- 2)) (- 2))"
    by (rule round_money_ok [OF \<open>units_ok []\<close> u]) (simp add: dval.simps(1) power_int_minus_divide)
  then show "round_money [] (Fin 1234550 (-4)) ''USD'' = Inr (Fin 12346 (-2))"
    by (simp add: rescale_def)
qed simp

end
