(* ===== verification/Shared_Storage.thy ===== *)
theory Shared_Storage
  imports Prelude
begin

text \<open>
  The contract of the persistent containers of \<open>alphalab/common\<close>: values that are views over
  storage which other views share and which writes mutate in place.

  A component supplies the heap its views live in, what a view denotes, and one step function for
  its operations; \<open>shared_storage\<close> asks that a step denotes the pure operation on the value and
  leaves what every other view denotes as it was. What a client gets is one theorem: any program of
  operations, applied to any of the versions made so far in any order, computes the versions the
  pure operations compute.
\<close>

text \<open>
  A program names, at each step, the version it applies an operation to; the result becomes the
  newest version. \<open>run_views\<close> runs it on the shared heap, \<open>run_values\<close> on plain values.
\<close>

fun run_views ::
  "('op \<Rightarrow> 'h \<Rightarrow> 'v \<Rightarrow> ('h \<times> 'v) res) \<Rightarrow> 'h \<Rightarrow> 'v list \<Rightarrow> (nat \<times> 'op) list \<Rightarrow> ('h \<times> 'v list) res" where
  "run_views step h vs [] = Inr (h, vs)"
| "run_views step h vs ((i, p) # ps) =
     (if i < length vs
      then rbind (step p h (vs ! i)) (\<lambda>(h', v). run_views step h' (vs @ [v]) ps)
      else Inl IndexError)"

fun run_values :: "('op \<Rightarrow> 'a \<Rightarrow> 'a res) \<Rightarrow> 'a list \<Rightarrow> (nat \<times> 'op) list \<Rightarrow> 'a list res" where
  "run_values spec xs [] = Inr xs"
| "run_values spec xs ((i, p) # ps) =
     (if i < length xs
      then rbind (spec p (xs ! i)) (\<lambda>x. run_values spec (xs @ [x]) ps)
      else Inl IndexError)"

definition observe :: "('h \<Rightarrow> 'v \<Rightarrow> 'a) \<Rightarrow> ('h \<times> 'v list) res \<Rightarrow> 'a list res" where
  "observe read m = rbind m (\<lambda>(h, vs). Inr (map (read h) vs))"

locale shared_storage =
  fixes valid :: "'h \<Rightarrow> 'v \<Rightarrow> bool"
    and read :: "'h \<Rightarrow> 'v \<Rightarrow> 'a"
    and step :: "'op \<Rightarrow> 'h \<Rightarrow> 'v \<Rightarrow> ('h \<times> 'v) res"
    and spec :: "'op \<Rightarrow> 'a \<Rightarrow> 'a res"
  assumes step_spec: "valid h v \<Longrightarrow> spec p (read h v) = rbind (step p h v) (\<lambda>(h', v'). Inr (read h' v'))"
    and step_valid: "valid h v \<Longrightarrow> step p h v = Inr (h', v') \<Longrightarrow> valid h' v'"
    and frame_valid: "valid h v \<Longrightarrow> step p h v = Inr (h', v') \<Longrightarrow> valid h w \<Longrightarrow> valid h' w"
    and frame_read: "valid h v \<Longrightarrow> step p h v = Inr (h', v') \<Longrightarrow> valid h w \<Longrightarrow> read h' w = read h w"
begin

text \<open>Every version made stays valid, and old versions are still read as they were.\<close>

lemma run_valid:
  "run_views step h vs ps = Inr (h', vs') \<Longrightarrow> list_all (valid h) vs \<Longrightarrow> list_all (valid h') vs'"
proof (induction ps arbitrary: h vs)
  case (Cons q ps)
  obtain i p where q: "q = (i, p)" by (cases q)
  with Cons.prems obtain h1 v where i: "i < length vs" and s: "step p h (vs ! i) = Inr (h1, v)"
    and rest: "run_views step h1 (vs @ [v]) ps = Inr (h', vs')"
    by (auto simp: rbind_eq_Inr split: if_splits)
  have vi: "valid h (vs ! i)" using Cons.prems(2) i by (simp add: list_all_length)
  have "list_all (valid h1) (vs @ [v])"
    using Cons.prems(2) step_valid [OF vi s] frame_valid [OF vi s] by (simp add: list_all_iff)
  with rest show ?case by (rule Cons.IH)
qed simp

lemma run_prefix:
  "run_views step h vs ps = Inr (h', vs') \<Longrightarrow> list_all (valid h) vs \<Longrightarrow>
   \<exists>ws. vs' = vs @ ws \<and> map (read h') vs = map (read h) vs"
proof (induction ps arbitrary: h vs)
  case (Cons q ps)
  obtain i p where q: "q = (i, p)" by (cases q)
  with Cons.prems obtain h1 v where i: "i < length vs" and s: "step p h (vs ! i) = Inr (h1, v)"
    and rest: "run_views step h1 (vs @ [v]) ps = Inr (h', vs')"
    by (auto simp: rbind_eq_Inr split: if_splits)
  have vi: "valid h (vs ! i)" using Cons.prems(2) i by (simp add: list_all_length)
  have "list_all (valid h1) (vs @ [v])"
    using Cons.prems(2) step_valid [OF vi s] frame_valid [OF vi s] by (simp add: list_all_iff)
  from Cons.IH [OF rest this] obtain ws where "vs' = (vs @ [v]) @ ws"
    and "map (read h') vs = map (read h1) vs" by auto
  moreover have "map (read h1) vs = map (read h) vs"
    using Cons.prems(2) frame_read [OF vi s] by (auto simp: list_all_iff)
  ultimately show ?case by simp
qed simp

theorem run_refines:
  "list_all (valid h) vs \<Longrightarrow>
   observe read (run_views step h vs ps) = run_values spec (map (read h) vs) ps"
proof (induction ps arbitrary: h vs)
  case (Cons q ps)
  obtain i p where q: "q = (i, p)" by (cases q)
  show ?case
  proof (cases "i < length vs")
    case True
    have vi: "valid h (vs ! i)" using Cons.prems True by (simp add: list_all_length)
    show ?thesis
    proof (cases "step p h (vs ! i)")
      case (Inl e)
      then show ?thesis using True step_spec [OF vi, of p] by (simp add: q observe_def)
    next
      case (Inr r)
      obtain h1 v where s: "step p h (vs ! i) = Inr (h1, v)" using Inr by (cases r) auto
      have ok: "list_all (valid h1) (vs @ [v])"
        using Cons.prems step_valid [OF vi s] frame_valid [OF vi s] by (simp add: list_all_iff)
      have old: "map (read h1) vs = map (read h) vs"
        using Cons.prems frame_read [OF vi s] by (auto simp: list_all_iff)
      show ?thesis
        using True s step_spec [OF vi, of p] Cons.IH [OF ok] old by (simp add: q observe_def)
    qed
  qed (simp add: q observe_def)
qed (simp add: observe_def)

end

end
