(* ===== verification/Append_Log.thy ===== *)
theory Append_Log
  imports Shared_Storage
begin

text \<open>
  \<open>alphalab/common/append_log.py\<close>: an append-only log as a view \<open>(buffer, start, length)\<close> over a
  list that newer views of the same history append to in place.

  The heap is the list of all buffers, a buffer's address its index. \<open>append\<close> mutates the buffer of
  the newest view and copies for an older one; \<open>retain_last\<close> moves the start and now and then
  copies the live entries. The value of a log is how many entries it dropped and those it holds.
\<close>

section \<open>The log\<close>

record alog =
  lbuffer :: nat
  lstart :: nat
  llength :: nat
  ldropped :: int

type_synonym 'a log_heap = "'a list list"

definition RELEASE_AFTER :: nat where
  "RELEASE_AFTER = 32"

text \<open>\<open>AppendOnlyLog(items)\<close> and \<open>AppendOnlyLog.restored(items, dropped)\<close>: a buffer of its own.\<close>

definition log_new :: "'a list \<Rightarrow> 'a log_heap \<Rightarrow> 'a log_heap \<times> alog" where
  "log_new items h =
     (h @ [items], \<lparr>lbuffer = length h, lstart = 0, llength = length items, ldropped = 0\<rparr>)"

definition log_restored :: "'a list \<Rightarrow> int \<Rightarrow> 'a log_heap \<Rightarrow> ('a log_heap \<times> alog) res" where
  "log_restored items dropped h =
     (if dropped < 0 then Inl ValueError
      else Inr (h @ [items],
        \<lparr>lbuffer = length h, lstart = 0, llength = length items, ldropped = dropped\<rparr>))"

definition log_append :: "'a \<Rightarrow> 'a log_heap \<Rightarrow> alog \<Rightarrow> 'a log_heap \<times> alog" where
  "log_append item h l =
     (let end = lstart l + llength l; buffer = h ! lbuffer l in
      if end = length buffer
      then (h[lbuffer l := buffer @ [item]],
        \<lparr>lbuffer = lbuffer l, lstart = lstart l, llength = llength l + 1, ldropped = ldropped l\<rparr>)
      else
        let copy = take (end - lstart l) (drop (lstart l) buffer) @ [item] in
        (h @ [copy],
         \<lparr>lbuffer = length h, lstart = 0, llength = llength l + 1, ldropped = ldropped l\<rparr>))"

definition log_retain_last :: "int \<Rightarrow> 'a log_heap \<Rightarrow> alog \<Rightarrow> ('a log_heap \<times> alog) res" where
  "log_retain_last count h l =
     (if count < 0 then Inl ValueError
      else if int (llength l) \<le> count then Inr (h, l)
      else
        let n = nat count; excess = llength l - n; start = lstart l + excess in
        if n < start \<and> RELEASE_AFTER \<le> start
        then Inr (h @ [take n (drop start (h ! lbuffer l))],
          \<lparr>lbuffer = length h, lstart = 0, llength = n, ldropped = ldropped l + int excess\<rparr>)
        else Inr (h,
          \<lparr>lbuffer = lbuffer l, lstart = start, llength = n, ldropped = ldropped l + int excess\<rparr>))"

fun log_extend :: "'a list \<Rightarrow> 'a log_heap \<Rightarrow> alog \<Rightarrow> 'a log_heap \<times> alog" where
  "log_extend [] h l = (h, l)"
| "log_extend (x # xs) h l = (case log_append x h l of (h', l') \<Rightarrow> log_extend xs h' l')"

definition log_to_tuple :: "'a log_heap \<Rightarrow> alog \<Rightarrow> 'a list" where
  "log_to_tuple h l = take (llength l) (drop (lstart l) (h ! lbuffer l))"

section \<open>Indexing\<close>

text \<open>\<open>slice.indices(n)\<close> and \<open>range(start, stop, step)\<close>, as Python defines them.\<close>

definition slice_bound :: "int option \<Rightarrow> int \<Rightarrow> int \<Rightarrow> int \<Rightarrow> int \<Rightarrow> int" where
  "slice_bound b dflt n lo hi =
     (case b of None \<Rightarrow> dflt
      | Some i \<Rightarrow> if i < 0 then max (i + n) lo else min i hi)"

definition slice_indices ::
  "int option \<Rightarrow> int option \<Rightarrow> int option \<Rightarrow> int \<Rightarrow> (int \<times> int \<times> int) res" where
  "slice_indices start stop step n =
     (let st = (case step of None \<Rightarrow> 1 | Some s \<Rightarrow> s);
          lo = (if st < 0 then -1 else 0); hi = (if st < 0 then n - 1 else n) in
      if st = 0 then Inl ValueError
      else Inr (slice_bound start (if st < 0 then hi else lo) n lo hi,
                slice_bound stop (if st < 0 then lo else hi) n lo hi, st))"

definition range_length :: "int \<Rightarrow> int \<Rightarrow> int \<Rightarrow> nat" where
  "range_length a b s =
     (if 0 < s then (if a < b then nat ((b - a - 1) div s + 1) else 0)
      else (if b < a then nat ((a - b - 1) div (- s) + 1) else 0))"

definition py_range :: "int \<Rightarrow> int \<Rightarrow> int \<Rightarrow> int list" where
  "py_range a b s = map (\<lambda>i. a + int i * s) [0..<range_length a b s]"

text \<open>A list slice \<open>xs[a:b]\<close> with both bounds non-negative.\<close>

definition list_slice :: "'a list \<Rightarrow> int \<Rightarrow> int \<Rightarrow> 'a list" where
  "list_slice xs a b = take (nat (b - a)) (drop (nat a) xs)"

definition log_getitem :: "'a log_heap \<Rightarrow> alog \<Rightarrow> int \<Rightarrow> 'a res" where
  "log_getitem h l index =
     (let i = (if index < 0 then index + int (llength l) else index) in
      if i < 0 \<or> int (llength l) \<le> i then Inl IndexError
      else py_index (h ! lbuffer l) (int (lstart l) + i))"

definition log_getslice ::
  "'a log_heap \<Rightarrow> alog \<Rightarrow> int option \<Rightarrow> int option \<Rightarrow> int option \<Rightarrow> 'a list res" where
  "log_getslice h l a b s =
     rbind (slice_indices a b s (int (llength l))) (\<lambda>(start, stop, step).
       let offset = int (lstart l) in
       if step = 1 then Inr (list_slice (h ! lbuffer l) (offset + start) (offset + stop))
       else rfold (\<lambda>acc position. rbind (py_index (h ! lbuffer l) (offset + position))
              (\<lambda>x. Inr (acc @ [x]))) [] (py_range start stop step))"

section \<open>The log as a value\<close>

definition log_valid :: "'a log_heap \<Rightarrow> alog \<Rightarrow> bool" where
  "log_valid h l = (lbuffer l < length h \<and> lstart l + llength l \<le> length (h ! lbuffer l))"

datatype 'a log_op = Append 'a | RetainLast int

fun log_step :: "'a log_op \<Rightarrow> 'a log_heap \<Rightarrow> alog \<Rightarrow> ('a log_heap \<times> alog) res" where
  "log_step (Append x) h l = Inr (log_append x h l)"
| "log_step (RetainLast n) h l = log_retain_last n h l"

definition log_read :: "'a log_heap \<Rightarrow> alog \<Rightarrow> int \<times> 'a list" where
  "log_read h l = (ldropped l, log_to_tuple h l)"

text \<open>What the operations mean on a history: how many entries were dropped, and the rest.\<close>

fun log_spec :: "'a log_op \<Rightarrow> int \<times> 'a list \<Rightarrow> (int \<times> 'a list) res" where
  "log_spec (Append x) (d, xs) = Inr (d, xs @ [x])"
| "log_spec (RetainLast n) (d, xs) =
     (if n < 0 then Inl ValueError
      else Inr (d + int (length xs - nat n), drop (length xs - nat n) xs))"

lemma length_to_tuple: "log_valid h l \<Longrightarrow> length (log_to_tuple h l) = llength l"
  by (auto simp: log_valid_def log_to_tuple_def)

lemma append_read:
  "log_valid h l \<Longrightarrow> log_append x h l = (h', l') \<Longrightarrow> log_read h' l' = (ldropped l, log_to_tuple h l @ [x])"
  by (auto simp: log_valid_def log_append_def log_read_def log_to_tuple_def Let_def split: if_splits)

lemma append_valid: "log_valid h l \<Longrightarrow> log_append x h l = (h', l') \<Longrightarrow> log_valid h' l'"
  by (auto simp: log_valid_def log_append_def Let_def split: if_splits)

text \<open>Storage only grows: every buffer keeps what it held.\<close>

definition grows :: "'a log_heap \<Rightarrow> 'a log_heap \<Rightarrow> bool" where
  "grows h h' = (length h \<le> length h' \<and> (\<forall>i < length h. \<exists>ys. h' ! i = h ! i @ ys))"

lemma grows_read:
  assumes "grows h h'" and "log_valid h w"
  shows "log_valid h' w" and "log_read h' w = log_read h w"
proof -
  obtain ys where "h' ! lbuffer w = h ! lbuffer w @ ys" "lbuffer w < length h'"
    using assms by (auto simp: grows_def log_valid_def)
  with assms show "log_valid h' w" and "log_read h' w = log_read h w"
    by (auto simp: log_valid_def log_read_def log_to_tuple_def)
qed

lemma step_grows: "log_valid h l \<Longrightarrow> log_step p h l = Inr (h', l') \<Longrightarrow> grows h h'"
proof (cases p)
  case (Append x)
  assume "log_valid h l" and "log_step p h l = Inr (h', l')"
  then have "lbuffer l < length h" by (simp add: log_valid_def)
  from Append \<open>log_step p h l = Inr (h', l')\<close> have "h' = h[lbuffer l := h ! lbuffer l @ [x]] \<or> (\<exists>b. h' = h @ [b])"
    by (auto simp: log_append_def Let_def split: if_splits)
  with \<open>lbuffer l < length h\<close> show ?thesis by (auto simp: grows_def nth_append nth_list_update)
next
  case (RetainLast n)
  assume "log_step p h l = Inr (h', l')"
  with RetainLast have "h' = h \<or> (\<exists>b. h' = h @ [b])"
    by (auto simp: log_retain_last_def Let_def split: if_splits)
  then show ?thesis by (auto simp: grows_def nth_append)
qed

lemma retain_read:
  assumes "log_valid h l"
  shows "log_spec (RetainLast n) (log_read h l) = rbind (log_retain_last n h l) (\<lambda>(h', l'). Inr (log_read h' l'))"
  using assms length_to_tuple [OF assms]
  by (auto simp: log_valid_def log_read_def log_retain_last_def log_to_tuple_def Let_def nat_le_iff
    drop_take min_def le_nat_iff add.commute)

lemma retain_valid: "log_valid h l \<Longrightarrow> log_retain_last n h l = Inr (h', l') \<Longrightarrow> log_valid h' l'"
  by (auto simp: log_valid_def log_retain_last_def Let_def split: if_splits)

interpretation alog: shared_storage log_valid log_read log_step log_spec
proof (unfold_locales, goal_cases)
  case (1 h v p)
  show ?case
  proof (cases p)
    case (Append x)
    obtain h' v' where "log_append x h v = (h', v')" by (cases "log_append x h v")
    with append_read [OF 1 this] Append show ?thesis by (simp add: log_read_def)
  next
    case (RetainLast n)
    with retain_read [OF 1, of n] show ?thesis by simp
  qed
next
  case (2 h v p h' v')
  then show ?case by (cases p) (auto intro: append_valid retain_valid)
next
  case (3 h v p h' v' w)
  then show ?case using step_grows grows_read by blast
next
  case (4 h v p h' v' w)
  then show ?case using step_grows grows_read by blast
qed

section \<open>Reading through the view\<close>

lemma nth_to_tuple:
  "log_valid h l \<Longrightarrow> i < llength l \<Longrightarrow> log_to_tuple h l ! i = h ! lbuffer l ! (lstart l + i)"
  by (auto simp: log_valid_def log_to_tuple_def)

lemma buffer_index:
  assumes "log_valid h l" "0 \<le> i" "i < int (llength l)"
  shows "py_index (h ! lbuffer l) (int (lstart l) + i) = Inr (log_to_tuple h l ! nat i)"
proof -
  have "int (lstart l) + i = int (lstart l + nat i)" using assms(2) by simp
  moreover have "lstart l + nat i < length (h ! lbuffer l)" using assms by (auto simp: log_valid_def)
  ultimately have "py_index (h ! lbuffer l) (int (lstart l) + i) = Inr (h ! lbuffer l ! (lstart l + nat i))"
    by (simp only: py_index_nat)
  then show ?thesis using nth_to_tuple [OF assms(1), of "nat i"] assms(2,3) by simp
qed

text \<open>The positions a slice visits are all inside the view.\<close>

lemma slice_bound_range:
  "lo \<le> d \<Longrightarrow> d \<le> hi \<Longrightarrow> lo \<le> hi \<Longrightarrow> lo \<le> 0 \<Longrightarrow> n - 1 \<le> hi \<Longrightarrow>
   lo \<le> slice_bound b d n lo hi \<and> slice_bound b d n lo hi \<le> hi"
  by (auto simp: slice_bound_def split: option.splits)

lemma div_mult_below: "0 < s \<Longrightarrow> x div s * s \<le> x" for s x :: int
  using pos_mod_sign [of s x] div_mult_mod_eq [of x s] by linarith

lemma range_forward:
  assumes "p \<in> set (py_range a b s)" "0 < s"
  shows "a \<le> p \<and> p < b"
proof -
  from assms obtain i where i: "i < range_length a b s" "p = a + int i * s" by (auto simp: py_range_def)
  then have ab: "a < b" using assms(2) by (auto simp: range_length_def split: if_splits)
  with i(1) assms(2) have "int i \<le> (b - a - 1) div s" by (simp add: range_length_def)
  then have "int i * s \<le> (b - a - 1) div s * s" using assms(2) by (intro mult_right_mono) auto
  also have "\<dots> \<le> b - a - 1" using assms(2) by (intro div_mult_below) simp
  finally show ?thesis using i(2) assms(2) by simp
qed

lemma range_backward:
  assumes "p \<in> set (py_range a b s)" "s < 0"
  shows "b < p \<and> p \<le> a"
proof -
  from assms obtain i where i: "i < range_length a b s" "p = a + int i * s" by (auto simp: py_range_def)
  then have ab: "b < a" using assms(2) by (auto simp: range_length_def split: if_splits)
  with i(1) assms(2) have "int i \<le> (a - b - 1) div (- s)" by (simp add: range_length_def)
  then have "int i * (- s) \<le> (a - b - 1) div (- s) * (- s)" using assms(2) by (intro mult_right_mono) auto
  also have "\<dots> \<le> a - b - 1" using assms(2) by (intro div_mult_below) simp
  finally show ?thesis using i(2) assms(2) by (simp add: mult_nonneg_nonpos)
qed

lemma slice_positions:
  assumes "slice_indices a b s (int n) = Inr (start, stop, step)" "p \<in> set (py_range start stop step)"
  shows "0 \<le> p \<and> p < int n"
proof (cases "0 < step")
  case True
  with assms(1) have "0 \<le> start" "stop \<le> int n"
    using slice_bound_range [of 0 0 "int n" "int n" a] slice_bound_range [of 0 "int n" "int n" "int n" b]
    by (auto simp: slice_indices_def Let_def split: if_splits)
  with range_forward [OF assms(2) True] show ?thesis by simp
next
  case False
  with assms(1) have neg: "step < 0" by (auto simp: slice_indices_def Let_def split: if_splits)
  with assms(1) have "start \<le> int n - 1" "-1 \<le> stop"
    using slice_bound_range [of "-1" "int n - 1" "int n - 1" "int n" a]
      slice_bound_range [of "-1" "-1" "int n - 1" "int n" b]
    by (auto simp: slice_indices_def Let_def split: if_splits)
  with range_backward [OF assms(2) neg] show ?thesis by simp
qed

lemma rfold_read:
  "(\<And>p. p \<in> set ps \<Longrightarrow> f p = Inr (g p)) \<Longrightarrow>
   rfold (\<lambda>acc p. rbind (f p) (\<lambda>x. Inr (acc @ [x]))) acc ps = Inr (acc @ map g ps)"
  by (induction ps arbitrary: acc) auto

lemma py_range_one: "py_range a b 1 = map (\<lambda>i. a + int i) [0..<nat (b - a)]"
  by (auto simp: py_range_def range_length_def)

lemma list_slice_range:
  assumes "0 \<le> a" "b \<le> int (length xs)"
  shows "list_slice xs a b = map (\<lambda>p. xs ! nat p) (py_range a b 1)"
proof (rule nth_equalityI)
  show "length (list_slice xs a b) = length (map (\<lambda>p. xs ! nat p) (py_range a b 1))"
    using assms by (auto simp: list_slice_def py_range_one)
  fix i
  assume "i < length (list_slice xs a b)"
  then show "list_slice xs a b ! i = map (\<lambda>p. xs ! nat p) (py_range a b 1) ! i"
    using assms by (auto simp: list_slice_def py_range_one nat_add_distrib)
qed

lemma list_slice_view:
  assumes "log_valid h l" "0 \<le> a" "b \<le> int (llength l)"
  shows "list_slice (h ! lbuffer l) (int (lstart l) + a) (int (lstart l) + b) = list_slice (log_to_tuple h l) a b"
  using assms by (auto simp: list_slice_def log_to_tuple_def log_valid_def drop_take nat_add_distrib
    add.commute min_def)

section \<open>Properties\<close>

text \<open>C33: An \<open>AppendOnlyLog\<close> is a value although its views share storage: whatever sequence of
  \<open>append\<close>s and \<open>retain_last\<close>s is applied to whatever versions -- the newest or an older one, so
  that buffers are shared, branched and released -- every version, old and new, reads as the pure
  history operations say, drop counts included, and the two raise on the same programs.\<close>

theorem append_log_is_value:
  assumes "list_all (log_valid h) vs"
  shows "observe log_read (run_views log_step h vs ps) = run_values log_spec (map (log_read h) vs) ps"
  using assms by (rule alog.run_refines)

theorem append_log_is_value_witness:
  "list_all (log_valid [[1 :: int, 2, 3]]) [\<lparr>lbuffer = 0, lstart = 0, llength = 2, ldropped = 0\<rparr>] \<and>
   observe log_read (run_views log_step [[1 :: int, 2, 3]]
     [\<lparr>lbuffer = 0, lstart = 0, llength = 2, ldropped = 0\<rparr>] [(0, Append 9), (1, RetainLast 1), (0, Append 8)]) =
   Inr [(0, [1, 2]), (0, [1, 2, 9]), (2, [9]), (0, [1, 2, 8])]"
proof -
  have v: "list_all (log_valid [[1 :: int, 2, 3]]) [\<lparr>lbuffer = 0, lstart = 0, llength = 2, ldropped = 0\<rparr>]"
    by (simp add: log_valid_def)
  show ?thesis
    using v append_log_is_value [OF v, of "[(0, Append 9), (1, RetainLast 1), (0, Append 8)]"]
    by (simp add: log_read_def log_to_tuple_def)
qed

text \<open>Slicing a log reads exactly what the same slice of its tuple holds, for every start, stop
  and step: no position outside the view is touched, so entries a newer view appended to the shared
  buffer are never seen and no read of the buffer raises.\<close>

theorem log_slice_reads_view:
  assumes "log_valid h l"
  shows "log_getslice h l a b s =
    rbind (slice_indices a b s (int (length (log_to_tuple h l)))) (\<lambda>(start, stop, step).
      Inr (map (\<lambda>p. log_to_tuple h l ! nat p) (py_range start stop step)))"
proof (cases "slice_indices a b s (int (llength l))")
  case (Inl e)
  then show ?thesis by (simp add: log_getslice_def length_to_tuple [OF assms])
next
  case (Inr r)
  obtain start stop step where r: "slice_indices a b s (int (llength l)) = Inr (start, stop, step)"
    using Inr by (cases r) auto
  show ?thesis
  proof (cases "step = 1")
    case True
    with r have "0 \<le> start" "stop \<le> int (llength l)"
      using slice_bound_range [of 0 0 "int (llength l)" "int (llength l)" a]
        slice_bound_range [of 0 "int (llength l)" "int (llength l)" "int (llength l)" b]
      by (auto simp: slice_indices_def Let_def split: if_splits)
    with r True show ?thesis
      using list_slice_view [OF assms, of start stop] list_slice_range [of start stop "log_to_tuple h l"]
      by (simp add: log_getslice_def length_to_tuple [OF assms])
  next
    case False
    have "rfold (\<lambda>acc p. rbind (py_index (h ! lbuffer l) (int (lstart l) + p)) (\<lambda>x. Inr (acc @ [x]))) []
        (py_range start stop step) = Inr ([] @ map (\<lambda>p. log_to_tuple h l ! nat p) (py_range start stop step))"
      using slice_positions [OF r] by (intro rfold_read buffer_index [OF assms]) auto
    with r False show ?thesis by (simp add: log_getslice_def length_to_tuple [OF assms])
  qed
qed

theorem log_slice_reads_view_witness:
  "log_valid [[1 :: int, 2, 3, 4]] \<lparr>lbuffer = 0, lstart = 1, llength = 2, ldropped = 1\<rparr> \<and>
   log_getslice [[1 :: int, 2, 3, 4]] \<lparr>lbuffer = 0, lstart = 1, llength = 2, ldropped = 1\<rparr>
     None None (Some (-1)) = Inr [3, 2]"
proof -
  have v: "log_valid [[1 :: int, 2, 3, 4]] \<lparr>lbuffer = 0, lstart = 1, llength = 2, ldropped = 1\<rparr>"
    by (simp add: log_valid_def)
  show ?thesis using v unfolding log_slice_reads_view [OF v]
    by (simp add: slice_indices_def slice_bound_def log_to_tuple_def
      py_range_def range_length_def Let_def)
      (simp add: numeral_2_eq_2)
qed

end
