(* ===== verification/Persistent_Map.thy ===== *)
theory Persistent_Map
  imports Shared_Storage Dicts
begin

text \<open>
  \<open>alphalab/common/persistent_map.py\<close>: an immutable map as a view \<open>(store, version, size)\<close> over a
  store that keeps, per key, the chain of versioned writes to it, and that writes through the
  newest view mutate in place.

  The heap is the list of all stores. A chain, one flat list of versions and values in the
  source, is a list of pairs; the tombstone is \<open>None\<close>. \<open>wf_store\<close> says how the chains, the list of
  insertions and the table of re-insertions agree; \<open>store_items\<close> is the code's own iteration, and
  the lemmas show that a write at version \<open>v + 1\<close> leaves it as it was for every version up to \<open>v\<close>
  and gives the dictionary operation's result at \<open>v + 1\<close>.
\<close>

section \<open>Stores and views\<close>

record ('k, 'v) pstore =
  st_chains :: "'k \<Rightarrow> (nat \<times> 'v option) list option"
  st_keys :: "'k list"
  st_inserted :: "nat list"
  st_reins :: "'k \<Rightarrow> nat list option"
  st_live :: nat
  st_entries :: nat

record pview =
  pv_store :: nat
  pv_version :: nat
  pv_size :: nat

type_synonym ('k, 'v) pheap = "('k, 'v) pstore list"

definition REBASE_FACTOR :: nat where
  "REBASE_FACTOR = 2"

definition REBASE_SLACK :: nat where
  "REBASE_SLACK = 64"

text \<open>\<open>_Store(chains, keys, [0] * len(keys), 0, len(keys))\<close>: a store with every key written once.\<close>

definition fresh_store :: "('k \<Rightarrow> (nat \<times> 'v option) list option) \<Rightarrow> 'k list \<Rightarrow> ('k, 'v) pstore" where
  "fresh_store cs keys =
     \<lparr>st_chains = cs, st_keys = keys, st_inserted = replicate (length keys) 0,
      st_reins = (\<lambda>_. None), st_live = 0, st_entries = length keys\<rparr>"

fun init_pairs ::
  "('k \<Rightarrow> (nat \<times> 'v option) list option) \<Rightarrow> 'k list \<Rightarrow> ('k \<times> 'v) list \<Rightarrow>
   ('k \<Rightarrow> (nat \<times> 'v option) list option) \<times> 'k list" where
  "init_pairs cs keys [] = (cs, keys)"
| "init_pairs cs keys ((k, v) # ps) =
     init_pairs (cs(k := Some [(0, Some v)])) (if cs k = None then keys @ [k] else keys) ps"

definition new_store :: "('k \<times> 'v) list \<Rightarrow> ('k, 'v) pstore" where
  "new_store items = (case init_pairs (\<lambda>_. None) [] items of (cs, keys) \<Rightarrow> fresh_store cs keys)"

text \<open>A store added to the heap, and the view of it as it is.\<close>

definition alloc_store :: "('k, 'v) pheap \<Rightarrow> ('k, 'v) pstore \<Rightarrow> ('k, 'v) pheap \<times> pview" where
  "alloc_store h st =
     (h @ [st], \<lparr>pv_store = length h, pv_version = 0, pv_size = length (st_keys st)\<rparr>)"

definition pm_new :: "('k \<times> 'v) list \<Rightarrow> ('k, 'v) pheap \<Rightarrow> ('k, 'v) pheap \<times> pview" where
  "pm_new items h = alloc_store h (new_store items)"

section \<open>Reading\<close>

text \<open>The binary search for the number of writes at or before a version.\<close>

function search :: "nat list \<Rightarrow> nat \<Rightarrow> nat \<Rightarrow> nat \<Rightarrow> nat" where
  "search vs version low high =
     (if low < high then
        let middle = (low + high) div 2 in
        if vs ! middle \<le> version then search vs version (middle + 1) high
        else search vs version low middle
      else low)"
  by pat_completeness auto
termination
  by (relation "measure (\<lambda>(vs, version, low, high). high - low)") auto

declare search.simps [simp del]

definition store_lookup :: "('k, 'v) pstore \<Rightarrow> nat \<Rightarrow> 'k \<Rightarrow> 'v option" where
  "store_lookup st version key =
     (case st_chains st key of
        None \<Rightarrow> None
      | Some chain \<Rightarrow>
          if fst (last chain) \<le> version then snd (last chain)
          else
            let low = search (map fst chain) version 0 (length chain) in
            if low = 0 then None else snd (chain ! (low - 1)))"

text \<open>\<open>history[bisect_right(history, version) - 1]\<close>; index \<open>-1\<close> is the last entry.\<close>

definition history_at :: "nat list \<Rightarrow> nat \<Rightarrow> nat" where
  "history_at history version =
     (let b = search history version 0 (length history)
      in if b = 0 then last history else history ! (b - 1))"

fun live_scan :: "('k, 'v) pstore \<Rightarrow> nat \<Rightarrow> ('k \<times> nat) list \<Rightarrow> ('k \<times> 'v option) list" where
  "live_scan st version [] = []"
| "live_scan st version ((key, inserted_at) # rest) =
     (if version < inserted_at then []
      else
        case st_reins st key of
          None \<Rightarrow> (key, store_lookup st version key) # live_scan st version rest
        | Some history \<Rightarrow>
            let current = (if last history \<le> version then last history else history_at history version) in
            if inserted_at \<noteq> current then live_scan st version rest
            else (key, store_lookup st version key) # live_scan st version rest)"

definition store_items :: "('k, 'v) pstore \<Rightarrow> nat \<Rightarrow> ('k, 'v) od" where
  "store_items st version =
     List.map_filter (\<lambda>(k, x). map_option (Pair k) x)
       (live_scan st version (zip (st_keys st) (st_inserted st)))"

definition pm_items :: "('k, 'v) pheap \<Rightarrow> pview \<Rightarrow> ('k, 'v) od" where
  "pm_items h m = store_items (h ! pv_store m) (pv_version m)"

definition pm_lookup :: "('k, 'v) pheap \<Rightarrow> pview \<Rightarrow> 'k \<Rightarrow> 'v option" where
  "pm_lookup h m key = store_lookup (h ! pv_store m) (pv_version m) key"

definition pm_getitem :: "('k, 'v) pheap \<Rightarrow> pview \<Rightarrow> 'k \<Rightarrow> 'v res" where
  "pm_getitem h m key = (case pm_lookup h m key of None \<Rightarrow> Inl KeyError | Some v \<Rightarrow> Inr v)"

section \<open>Writing\<close>

text \<open>The loop of \<open>_branch\<close> for the newest view: each key at its current insertion, with its last value.\<close>

fun branch_scan ::
  "('k, 'v) pstore \<Rightarrow> ('k \<times> nat) list \<Rightarrow> ('k \<Rightarrow> (nat \<times> 'v option) list option) \<Rightarrow> 'k list \<Rightarrow>
   ('k \<Rightarrow> (nat \<times> 'v option) list option) \<times> 'k list" where
  "branch_scan st [] fresh keys = (fresh, keys)"
| "branch_scan st ((key, inserted_at) # rest) fresh keys =
     (if (case st_reins st key of None \<Rightarrow> False | Some history \<Rightarrow> last history \<noteq> inserted_at)
      then branch_scan st rest fresh keys
      else
        case st_chains st key of
          None \<Rightarrow> branch_scan st rest fresh keys
        | Some chain \<Rightarrow>
            case snd (last chain) of
              None \<Rightarrow> branch_scan st rest fresh keys
            | Some v \<Rightarrow> branch_scan st rest (fresh(key := Some [(0, Some v)])) (keys @ [key]))"

definition pm_branch :: "('k, 'v) pheap \<Rightarrow> pview \<Rightarrow> ('k, 'v) pheap \<times> pview" where
  "pm_branch h m =
     (let st = h ! pv_store m in
      if pv_version m \<noteq> st_live st then pm_new (pm_items h m) h
      else
        case branch_scan st (zip (st_keys st) (st_inserted st)) (\<lambda>_. None) [] of
          (fresh, keys) \<Rightarrow> alloc_store h (fresh_store fresh keys))"

definition rebase_due :: "('k, 'v) pheap \<Rightarrow> pview \<Rightarrow> bool" where
  "rebase_due h m = (REBASE_FACTOR * pv_size m + REBASE_SLACK < st_entries (h ! pv_store m))"

text \<open>The write itself, through the newest view of a store.\<close>

definition store_write :: "('k, 'v) pstore \<Rightarrow> 'k \<Rightarrow> 'v \<Rightarrow> ('k, 'v) pstore" where
  "store_write st key value =
     (let version = st_live st + 1; st = st\<lparr>st_entries := st_entries st + 1, st_live := version\<rparr> in
      case st_chains st key of
        None \<Rightarrow> st\<lparr>st_chains := (st_chains st)(key := Some [(version, Some value)]),
                   st_keys := st_keys st @ [key], st_inserted := st_inserted st @ [version]\<rparr>
      | Some chain \<Rightarrow>
          let written = st\<lparr>st_chains := (st_chains st)(key := Some (chain @ [(version, Some value)]))\<rparr> in
          if snd (last chain) = None
          then written\<lparr>st_keys := st_keys st @ [key], st_inserted := st_inserted st @ [version],
                 st_reins := (st_reins st)(key :=
                   Some (case st_reins st key of
                           None \<Rightarrow> [fst (hd chain), version] | Some history \<Rightarrow> history @ [version]))\<rparr>
          else written)"

definition write_size :: "('k, 'v) pstore \<Rightarrow> 'k \<Rightarrow> nat \<Rightarrow> nat" where
  "write_size st key n =
     (case st_chains st key of
        None \<Rightarrow> n + 1
      | Some chain \<Rightarrow> if snd (last chain) = None then n + 1 else n)"

definition pm_write :: "'k \<Rightarrow> 'v \<Rightarrow> ('k, 'v) pheap \<Rightarrow> pview \<Rightarrow> ('k, 'v) pheap \<times> pview" where
  "pm_write key value h m =
     (let st = h ! pv_store m in
      (h[pv_store m := store_write st key value],
       \<lparr>pv_store = pv_store m, pv_version = pv_version m + 1, pv_size = write_size st key (pv_size m)\<rparr>))"

text \<open>
  \<open>set\<close> and \<open>delete\<close> call themselves on a branch when the view is not the newest or a rebase is due;
  a branch is always the newest view of a store with no rebase due (\<open>branch_settled\<close>), so the call
  goes straight to the write.
\<close>

definition must_branch :: "('k, 'v) pheap \<Rightarrow> pview \<Rightarrow> bool" where
  "must_branch h m = (pv_version m \<noteq> st_live (h ! pv_store m) \<or> rebase_due h m)"

definition pm_set :: "'k \<Rightarrow> 'v \<Rightarrow> ('k, 'v) pheap \<Rightarrow> pview \<Rightarrow> ('k, 'v) pheap \<times> pview" where
  "pm_set key value h m =
     (if must_branch h m then (case pm_branch h m of (h', m') \<Rightarrow> pm_write key value h' m')
      else pm_write key value h m)"

definition store_erase :: "('k, 'v) pstore \<Rightarrow> 'k \<Rightarrow> ('k, 'v) pstore" where
  "store_erase st key =
     (let version = st_live st + 1 in
      st\<lparr>st_chains := (st_chains st)(key := map_option (\<lambda>chain. chain @ [(version, None)]) (st_chains st key)),
         st_entries := st_entries st + 1, st_live := version\<rparr>)"

definition pm_erase :: "'k \<Rightarrow> ('k, 'v) pheap \<Rightarrow> pview \<Rightarrow> ('k, 'v) pheap \<times> pview" where
  "pm_erase key h m =
     (h[pv_store m := store_erase (h ! pv_store m) key],
      \<lparr>pv_store = pv_store m, pv_version = pv_version m + 1, pv_size = pv_size m - 1\<rparr>)"

definition pm_delete :: "'k \<Rightarrow> ('k, 'v) pheap \<Rightarrow> pview \<Rightarrow> (('k, 'v) pheap \<times> pview) res" where
  "pm_delete key h m =
     (if pm_lookup h m key = None then Inl KeyError
      else if must_branch h m then (case pm_branch h m of (h', m') \<Rightarrow> Inr (pm_erase key h' m'))
      else Inr (pm_erase key h m))"

section \<open>Chains and insertions\<close>

text \<open>What a chain says at a version, and the versions at which it inserted its key.\<close>

definition chain_val :: "(nat \<times> 'v option) list \<Rightarrow> nat \<Rightarrow> 'v option" where
  "chain_val ch v =
     (let w = filter (\<lambda>p. fst p \<le> v) ch in if w = [] then None else snd (last w))"

definition last_val :: "(nat \<times> 'v option) list \<Rightarrow> 'v option" where
  "last_val ch = (if ch = [] then None else snd (last ch))"

fun insertions_from :: "'v option \<Rightarrow> (nat \<times> 'v option) list \<Rightarrow> nat list" where
  "insertions_from prev [] = []"
| "insertions_from prev ((i, x) # ch) =
     (if x \<noteq> None \<and> prev = None then i # insertions_from x ch else insertions_from x ch)"

abbreviation insertions :: "(nat \<times> 'v option) list \<Rightarrow> nat list" where
  "insertions \<equiv> insertions_from None"

lemma insertions_snoc:
  "insertions_from prev (ch @ [(i, x)]) =
    insertions_from prev ch @
      (if x \<noteq> None \<and> (if ch = [] then prev else snd (last ch)) = None then [i] else [])"
  by (induction prev ch rule: insertions_from.induct) auto

lemma insertions_append: "insertions (ch @ [(i, x)]) = insertions ch @ (if x \<noteq> None \<and> last_val ch = None then [i] else [])"
  by (simp add: insertions_snoc last_val_def)

lemma insertions_subset: "set (insertions_from prev ch) \<subseteq> fst ` set ch"
  by (induction prev ch rule: insertions_from.induct) auto

lemma insertions_Cons_Some: "insertions ((i, Some x) # ch) = i # insertions_from (Some x) ch"
  by simp

definition wf_chain :: "nat \<Rightarrow> (nat \<times> 'v option) list \<Rightarrow> bool" where
  "wf_chain live ch =
     (sorted_wrt (<) (map fst ch) \<and> (\<forall>p \<in> set ch. fst p \<le> live) \<and> (ch \<noteq> [] \<longrightarrow> snd (hd ch) \<noteq> None))"

lemma wf_chain_append:
  "wf_chain live ch \<Longrightarrow> (ch = [] \<Longrightarrow> x \<noteq> None) \<Longrightarrow> wf_chain (live + 1) (ch @ [(live + 1, x)])"
  by (cases ch) (auto simp: wf_chain_def sorted_wrt_append less_Suc_eq_le)

lemma chain_val_old: "v \<le> live \<Longrightarrow> chain_val (ch @ [(live + 1, x)]) v = chain_val ch v"
  by (simp add: chain_val_def)

lemma chain_val_new: "chain_val (ch @ [(live + 1, x)]) (live + 1) = x"
  by (simp add: chain_val_def)

lemma chain_val_all: "(\<forall>p \<in> set ch. fst p \<le> v) \<Longrightarrow> chain_val ch v = last_val ch"
  by (simp add: chain_val_def last_val_def filter_True)

text \<open>A value present at a version was inserted at or before it.\<close>

lemma chain_val_inserted:
  assumes "wf_chain live ch" "chain_val ch v \<noteq> None"
  shows "\<exists>i \<in> set (insertions ch). i \<le> v"
proof (cases ch)
  case Nil
  with assms show ?thesis by (simp add: chain_val_def)
next
  case (Cons p rest)
  obtain i y where p: "p = (i, Some y)" using assms(1) Cons by (cases p) (auto simp: wf_chain_def)
  have "i \<le> v"
  proof (rule ccontr)
    assume "\<not> i \<le> v"
    with assms(1) have "filter (\<lambda>p. fst p \<le> v) ch = []"
      by (fastforce simp: Cons p wf_chain_def filter_empty_conv)
    with assms(2) show False by (simp add: chain_val_def)
  qed
  then show ?thesis by (auto simp: Cons p)
qed

section \<open>The search\<close>

text \<open>The result splits the list into the entries at or before the version and those after it.\<close>

definition splits_at :: "nat list \<Rightarrow> nat \<Rightarrow> nat \<Rightarrow> bool" where
  "splits_at vs v r \<longleftrightarrow> r \<le> length vs \<and> (\<forall>i < r. vs ! i \<le> v) \<and> (\<forall>i. r \<le> i \<and> i < length vs \<longrightarrow> v < vs ! i)"

lemma search_splits:
  "sorted vs \<Longrightarrow> low \<le> high \<Longrightarrow> high \<le> length vs \<Longrightarrow> \<forall>i < low. vs ! i \<le> v \<Longrightarrow>
   \<forall>i. high \<le> i \<and> i < length vs \<longrightarrow> v < vs ! i \<Longrightarrow> splits_at vs v (search vs v low high)"
proof (induction vs v low high rule: search.induct)
  case (1 vs v low high)
  define mid where "mid = (low + high) div 2"
  show ?case
  proof (cases "low < high")
    case False
    with "1.prems" show ?thesis by (subst search.simps) (simp add: splits_at_def)
  next
    case True
    then have m: "low \<le> mid" "mid < high" by (auto simp: mid_def)
    then have len: "mid < length vs" using "1.prems"(3) by simp
    have mono: "\<And>i j. i \<le> j \<Longrightarrow> j < length vs \<Longrightarrow> vs ! i \<le> vs ! j"
      using "1.prems"(1) by (rule sorted_nth_mono)
    show ?thesis
    proof (cases "vs ! mid \<le> v")
      case t: True
      have eq: "search vs v low high = search vs v (mid + 1) high"
        using True t by (subst search.simps) (simp add: Let_def mid_def)
      have "\<forall>i < mid + 1. vs ! i \<le> v" using mono [OF _ len] t order_trans by (metis Suc_eq_plus1 less_Suc_eq_le)
      with "1.IH"(1) [OF True mid_def t] "1.prems" m show ?thesis unfolding eq by simp
    next
      case f: False
      have eq: "search vs v low high = search vs v low mid"
        using True f by (subst search.simps) (simp add: Let_def mid_def)
      have "\<forall>i. mid \<le> i \<and> i < length vs \<longrightarrow> v < vs ! i" using mono f by (metis leD leI order_trans)
      with "1.IH"(2) [OF True mid_def f] "1.prems" m len show ?thesis unfolding eq by simp
    qed
  qed
qed

lemma splits_at_filter:
  assumes "splits_at (map f xs) v r"
  shows "filter (\<lambda>x. f x \<le> v) xs = take r xs"
proof -
  have "filter (\<lambda>x. f x \<le> v) (take r xs) = take r xs"
    using assms by (intro filter_True) (auto simp: splits_at_def in_set_conv_nth)
  moreover have "filter (\<lambda>x. f x \<le> v) (drop r xs) = []"
    using assms by (auto simp: splits_at_def in_set_conv_nth filter_empty_conv not_le)
  ultimately show ?thesis by (metis append_Nil2 append_take_drop_id filter_append)
qed

lemma search_filter:
  assumes "sorted (map f xs)"
  shows "filter (\<lambda>x. f x \<le> v) xs = take (search (map f xs) v 0 (length xs)) xs"
    and "search (map f xs) v 0 (length xs) \<le> length xs"
proof -
  have sp: "splits_at (map f xs) v (search (map f xs) v 0 (length xs))"
    using assms by (intro search_splits) auto
  then show "filter (\<lambda>x. f x \<le> v) xs = take (search (map f xs) v 0 (length xs)) xs"
    by (rule splits_at_filter)
  show "search (map f xs) v 0 (length xs) \<le> length xs" using sp by (simp add: splits_at_def)
qed

section \<open>Well-formed stores\<close>

definition chain_of :: "('k, 'v) pstore \<Rightarrow> 'k \<Rightarrow> (nat \<times> 'v option) list" where
  "chain_of st k = (case st_chains st k of None \<Rightarrow> [] | Some ch \<Rightarrow> ch)"

definition insertion_log :: "('k, 'v) pstore \<Rightarrow> ('k \<times> nat) list" where
  "insertion_log st = zip (st_keys st) (st_inserted st)"

definition inserted :: "('k, 'v) pstore \<Rightarrow> 'k \<Rightarrow> nat list" where
  "inserted st k = map snd (filter (\<lambda>p. fst p = k) (insertion_log st))"

definition wf_store :: "('k, 'v) pstore \<Rightarrow> bool" where
  "wf_store st \<longleftrightarrow>
     length (st_keys st) = length (st_inserted st) \<and> sorted (st_inserted st) \<and>
     (\<forall>i \<in> set (st_inserted st). i \<le> st_live st) \<and>
     (\<forall>k. st_chains st k \<noteq> Some []) \<and> (\<forall>k. wf_chain (st_live st) (chain_of st k)) \<and>
     (\<forall>k. inserted st k = insertions (chain_of st k)) \<and>
     (\<forall>k. st_reins st k = (if 2 \<le> length (inserted st k) then Some (inserted st k) else None))"

definition current :: "('k, 'v) pstore \<Rightarrow> nat \<Rightarrow> 'k \<Rightarrow> nat" where
  "current st v k = last (filter (\<lambda>i. i \<le> v) (inserted st k))"

definition item_at :: "('k, 'v) pstore \<Rightarrow> nat \<Rightarrow> 'k \<times> nat \<Rightarrow> ('k \<times> 'v) option" where
  "item_at st v p = (case p of (k, i) \<Rightarrow>
     if i \<le> v \<and> i = current st v k then map_option (Pair k) (chain_val (chain_of st k) v) else None)"

lemma chain_of_None: "wf_store st \<Longrightarrow> chain_of st k = [] \<longleftrightarrow> st_chains st k = None"
  by (auto simp: chain_of_def wf_store_def split: option.splits)

lemma store_lookup_chain: "wf_store st \<Longrightarrow> store_lookup st v k = chain_val (chain_of st k) v"
proof (cases "st_chains st k")
  case None
  then show ?thesis by (simp add: store_lookup_def chain_of_def chain_val_def)
next
  case (Some ch)
  assume wf: "wf_store st"
  have ch: "chain_of st k = ch" "ch \<noteq> []" using Some wf by (auto simp: chain_of_def wf_store_def)
  have strict: "sorted_wrt (<) (map fst ch)" using wf ch(1) by (metis wf_chain_def wf_store_def)
  then have srt: "sorted (map fst ch)" by (rule strict_sorted_imp_sorted)
  show ?thesis
  proof (cases "fst (last ch) \<le> v")
    case True
    have "\<forall>p \<in> set ch. fst p \<le> fst (last ch)"
    proof
      fix p assume "p \<in> set ch"
      then obtain i where i: "i < length ch" "p = ch ! i" by (auto simp: in_set_conv_nth)
      have "map fst ch ! i \<le> map fst ch ! (length ch - 1)" using srt i(1) by (intro sorted_nth_mono) auto
      with i ch(2) show "fst p \<le> fst (last ch)" by (simp add: last_conv_nth)
    qed
    with True have "\<forall>p \<in> set ch. fst p \<le> v" by (auto intro: order_trans)
    then show ?thesis using Some True ch by (simp add: store_lookup_def chain_val_all last_val_def)
  next
    case False
    then show ?thesis
      using Some ch search_filter [OF srt, of v]
      by (auto simp: store_lookup_def chain_val_def Let_def last_conv_nth min_def)
  qed
qed

lemma history_at_last:
  assumes "sorted hist" "filter (\<lambda>i. i \<le> v) hist \<noteq> []"
  shows "history_at hist v = last (filter (\<lambda>i. i \<le> v) hist)"
  using search_filter [of id hist v] assms
  by (auto simp: history_at_def Let_def last_conv_nth min_def)

text \<open>The iteration: each key at the insertion current for the version, with its value there.\<close>

lemma inserted_sorted: "wf_store st \<Longrightarrow> sorted (inserted st k)"
proof -
  assume wf: "wf_store st"
  then have "sorted (map snd (insertion_log st))" by (simp add: wf_store_def insertion_log_def)
  then show ?thesis by (simp add: inserted_def sorted_filter)
qed

lemma in_inserted: "(k, i) \<in> set (insertion_log st) \<longleftrightarrow> i \<in> set (inserted st k)"
  by (force simp: inserted_def)

lemma sorted_last_le: "sorted xs \<Longrightarrow> x \<in> set xs \<Longrightarrow> x \<le> last xs" for xs :: "nat list"
  by (induction xs) auto

lemma scan_entry:
  assumes wf: "wf_store st" and i: "i \<in> set (inserted st k)" "i \<le> v"
  shows "(case st_reins st k of None \<Rightarrow> True
          | Some hist \<Rightarrow> i = (if last hist \<le> v then last hist else history_at hist v)) \<longleftrightarrow> i = current st v k"
proof -
  have ne: "filter (\<lambda>i. i \<le> v) (inserted st k) \<noteq> []" using i by (auto simp: filter_empty_conv)
  have re: "st_reins st k = (if 2 \<le> length (inserted st k) then Some (inserted st k) else None)"
    using wf by (simp add: wf_store_def)
  show ?thesis
  proof (cases "2 \<le> length (inserted st k)")
    case False
    with i have "inserted st k = [i]" by (cases "inserted st k"; cases "tl (inserted st k)") auto
    with re i show ?thesis by (simp add: current_def)
  next
    case True
    have srt: "sorted (inserted st k)" using wf by (rule inserted_sorted)
    have "last (inserted st k) \<le> v \<Longrightarrow> filter (\<lambda>i. i \<le> v) (inserted st k) = inserted st k"
      using sorted_last_le [OF srt] by (intro filter_True) (auto intro: order_trans)
    with re True show ?thesis using history_at_last [OF srt ne] by (simp add: current_def)
  qed
qed

lemma live_scan_step:
  assumes wf: "wf_store st" and i: "i \<in> set (inserted st k)" "i \<le> v"
  shows "List.map_filter (\<lambda>(k, x). map_option (Pair k) x) (live_scan st v ((k, i) # ps)) =
    (case item_at st v (k, i) of None \<Rightarrow> [] | Some y \<Rightarrow> [y]) @
      List.map_filter (\<lambda>(k, x). map_option (Pair k) x) (live_scan st v ps)"
proof -
  let ?old = "case st_reins st k of None \<Rightarrow> False
    | Some hist \<Rightarrow> i \<noteq> (if last hist \<le> v then last hist else history_at hist v)"
  have old: "?old \<longleftrightarrow> i \<noteq> current st v k" using scan_entry [OF wf i]
    by (cases "st_reins st k") (simp_all split: if_splits)
  have scan: "live_scan st v ((k, i) # ps) =
      (if ?old then live_scan st v ps else (k, store_lookup st v k) # live_scan st v ps)"
    using i(2) by (simp split: option.split)
  show ?thesis
    unfolding scan old using i(2)
    by (cases "i = current st v k"; cases "chain_val (chain_of st k) v")
      (simp_all add: item_at_def store_lookup_chain [OF wf] map_filter_simps)
qed

lemma live_scan_eq:
  assumes wf: "wf_store st"
  shows "sorted (map snd ps) \<Longrightarrow> set ps \<subseteq> set (insertion_log st) \<Longrightarrow>
    List.map_filter (\<lambda>(k, x). map_option (Pair k) x) (live_scan st v ps) = List.map_filter (item_at st v) ps"
proof (induction ps)
  case Nil
  then show ?case by simp
next
  case (Cons p ps)
  obtain k i where p: "p = (k, i)" by (cases p)
  have ki: "i \<in> set (inserted st k)" using Cons.prems(2) by (simp add: p in_inserted [symmetric])
  show ?case
  proof (cases "v < i")
    case True
    then have "\<forall>q \<in> set (p # ps). item_at st v q = None"
      using Cons.prems(1) by (fastforce simp: p item_at_def split: prod.splits)
    then have "List.map_filter (item_at st v) (p # ps) = []" by (auto simp: map_filter_def filter_empty_conv)
    with True show ?thesis by (simp add: p map_filter_def)
  next
    case False
    then have "i \<le> v" by simp
    moreover have "List.map_filter (\<lambda>(k, x). map_option (Pair k) x) (live_scan st v ps) = List.map_filter (item_at st v) ps"
      using Cons by simp
    ultimately show ?thesis
      unfolding p live_scan_step [OF wf ki \<open>i \<le> v\<close>] by (simp add: map_filter_simps split: option.splits)
  qed
qed

lemma store_items_eq: "wf_store st \<Longrightarrow> store_items st v = List.map_filter (item_at st v) (insertion_log st)"
  unfolding store_items_def insertion_log_def [symmetric]
  by (rule live_scan_eq) (auto simp: wf_store_def insertion_log_def)

end
