(* ===== verification/Persistent_Values.thy ===== *)
theory Persistent_Values
  imports Persistent_Map
begin

text \<open>
  The value semantics of \<open>alphalab/common/persistent_map.py\<close>: what a \<open>set\<close> or \<open>delete\<close> does to the
  items every view reads, the branch and the rebase, and the instance of the contract of theory
  \<open>Shared_Storage\<close> with insertion-ordered dictionaries as the values.
\<close>

section \<open>One more version\<close>

text \<open>Both writes add one version to a store: a chain entry, and an insertion when the key was absent.\<close>

definition advanced :: "'k \<Rightarrow> 'v option \<Rightarrow> ('k, 'v) pstore \<Rightarrow> ('k, 'v) pstore \<Rightarrow> bool" where
  "advanced key x st st' \<longleftrightarrow>
     st_live st' = st_live st + 1 \<and>
     (\<forall>k. chain_of st' k = chain_of st k @ (if k = key then [(st_live st + 1, x)] else [])) \<and>
     insertion_log st' = insertion_log st @
       (if x \<noteq> None \<and> last_val (chain_of st key) = None then [(key, st_live st + 1)] else [])"

lemma wf_storeD:
  assumes "wf_store st"
  shows "length (st_keys st) = length (st_inserted st)" "sorted (st_inserted st)"
    "\<And>i. i \<in> set (st_inserted st) \<Longrightarrow> i \<le> st_live st" "st_chains st k \<noteq> Some []"
    "wf_chain (st_live st) (chain_of st k)" "inserted st k = insertions (chain_of st k)"
    "st_reins st k = (if 2 \<le> length (inserted st k) then Some (inserted st k) else None)"
  using assms by (auto simp: wf_store_def)

lemma inserted_snoc:
  "insertion_log st' = insertion_log st @ [(key, i)] \<Longrightarrow>
   inserted st' k = inserted st k @ (if k = key then [i] else [])"
  by (simp add: inserted_def)

lemma write_advanced:
  assumes wf: "wf_store st"
  shows "advanced key (Some y) st (store_write st key y)"
  using wf_storeD(1) [OF wf] wf_storeD(4) [OF wf, of key]
  by (auto simp: advanced_def store_write_def Let_def chain_of_def insertion_log_def last_val_def
    split: option.splits)

lemma erase_advanced:
  assumes "wf_store st" "st_chains st key \<noteq> None"
  shows "advanced key None st (store_erase st key)"
  using assms by (auto simp: advanced_def store_erase_def Let_def chain_of_def insertion_log_def)

text \<open>The re-insertion table follows: a key inserted once has its chain's first version as insertion.\<close>

lemma first_insertion:
  assumes wf: "wf_store st" and c: "st_chains st k = Some ch"
  shows "\<exists>rest. inserted st k = fst (hd ch) # rest"
proof -
  have ch: "chain_of st k = ch" "ch \<noteq> []" using wf c wf_storeD(4) [OF wf, of k] by (auto simp: chain_of_def)
  obtain i y rest where "ch = (i, Some y) # rest"
    using ch wf_storeD(5) [OF wf, of k] by (cases ch) (auto simp: wf_chain_def)
  with ch wf_storeD(6) [OF wf, of k] show ?thesis by simp
qed

lemma write_reins:
  assumes wf: "wf_store st"
  shows "st_reins (store_write st key y) k =
    (let ins = inserted st k @
       (if k = key \<and> last_val (chain_of st key) = None then [st_live st + 1] else [])
     in if 2 \<le> length ins then Some ins else None)"
proof (cases "st_chains st key")
  case None
  then have "chain_of st key = []" by (simp add: chain_of_def)
  with wf_storeD(6) [OF wf, of key] have "inserted st key = []" by simp
  with None show ?thesis by (auto simp: store_write_def Let_def wf_storeD(7) [OF wf])
next
  case (Some ch)
  then have ch: "chain_of st key = ch" "ch \<noteq> []" using wf_storeD(4) [OF wf, of key] by (auto simp: chain_of_def)
  obtain rest where r: "inserted st key = fst (hd ch) # rest" using first_insertion [OF wf Some] by auto
  show ?thesis
    using Some ch r by (cases rest) (auto simp: store_write_def Let_def wf_storeD(7) [OF wf] last_val_def)
qed

lemma advanced_wf:
  assumes wf: "wf_store st" and adv: "advanced key x st st'"
    and len: "length (st_keys st') = length (st_inserted st')"
    and ch: "\<And>k. st_chains st' k \<noteq> Some []"
    and new: "x = None \<Longrightarrow> chain_of st key \<noteq> []"
    and re: "\<And>k. st_reins st' k = (if 2 \<le> length (inserted st' k) then Some (inserted st' k) else None)"
  shows "wf_store st'"
proof -
  have live: "st_live st' = st_live st + 1" using adv by (simp add: advanced_def)
  have log: "insertion_log st' = insertion_log st @
      (if x \<noteq> None \<and> last_val (chain_of st key) = None then [(key, st_live st + 1)] else [])"
    using adv by (simp add: advanced_def)
  have "map snd (insertion_log st') = st_inserted st'" using len by (simp add: insertion_log_def)
  moreover have "map snd (insertion_log st) = st_inserted st"
    using wf_storeD(1) [OF wf] by (simp add: insertion_log_def)
  ultimately have ins: "st_inserted st' = st_inserted st @
      (if x \<noteq> None \<and> last_val (chain_of st key) = None then [st_live st + 1] else [])"
    using log by (auto split: if_splits)
  have chain: "chain_of st' k = chain_of st k @ (if k = key then [(st_live st + 1, x)] else [])" for k
    using adv by (simp add: advanced_def)
  have "wf_chain (st_live st + 1) (chain_of st k)" for k
    using wf_storeD(5) [OF wf, of k] by (force simp: wf_chain_def)
  then have "wf_chain (st_live st') (chain_of st' k)" for k
    using wf_chain_append [OF wf_storeD(5) [OF wf, of key], of x] new by (cases "k = key") (auto simp: chain live)
  moreover have "inserted st' k = insertions (chain_of st' k)" for k
    using wf_storeD(6) [OF wf, of k] log by (auto simp: chain insertions_append inserted_def)
  moreover have "sorted (st_inserted st')" "\<forall>i \<in> set (st_inserted st'). i \<le> st_live st'"
    using wf_storeD(2,3) [OF wf] by (auto simp: ins live sorted_append le_Suc_eq)
  ultimately show ?thesis using len ch re by (simp add: wf_store_def)
qed

lemma write_wf: assumes wf: "wf_store st" shows "wf_store (store_write st key y)"
proof (rule advanced_wf [OF wf write_advanced [OF wf]])
  show "length (st_keys (store_write st key y)) = length (st_inserted (store_write st key y))"
    using wf_storeD(1) [OF wf] by (simp add: store_write_def Let_def split: option.split)
  show "st_chains (store_write st key y) k \<noteq> Some []" for k
    using wf_storeD(4) [OF wf, of k] by (simp add: store_write_def Let_def split: option.split)
  show "st_reins (store_write st key y) k =
      (if 2 \<le> length (inserted (store_write st key y) k) then Some (inserted (store_write st key y) k) else None)" for k
  proof -
    have "inserted (store_write st key y) k = inserted st k @
        (if k = key \<and> last_val (chain_of st key) = None then [st_live st + 1] else [])"
      using write_advanced [OF wf, of key y] by (auto simp: advanced_def inserted_def)
    then show ?thesis using write_reins [OF wf, of key y k] by (simp add: Let_def)
  qed
qed simp

lemma erase_wf: assumes wf: "wf_store st" and k: "st_chains st key \<noteq> None" shows "wf_store (store_erase st key)"
proof (rule advanced_wf [OF wf erase_advanced [OF wf k]])
  show "length (st_keys (store_erase st key)) = length (st_inserted (store_erase st key))"
    using wf_storeD(1) [OF wf] by (simp add: store_erase_def Let_def)
  show "st_chains (store_erase st key) k \<noteq> Some []" for k
    using wf_storeD(4) [OF wf, of k] by (auto simp: store_erase_def Let_def)
  show "chain_of st key \<noteq> []" using k wf by (simp add: chain_of_None)
  have "insertion_log (store_erase st key) = insertion_log st"
    by (simp add: store_erase_def Let_def insertion_log_def)
  then have "inserted (store_erase st key) k = inserted st k" for k by (simp add: inserted_def)
  moreover have "st_reins (store_erase st key) = st_reins st" by (simp add: store_erase_def Let_def)
  ultimately show "st_reins (store_erase st key) k =
      (if 2 \<le> length (inserted (store_erase st key) k) then Some (inserted (store_erase st key) k) else None)" for k
    using wf_storeD(7) [OF wf, of k] by simp
qed

section \<open>The items of a store\<close>

text \<open>Keys are listed once: an insertion is current for one version of its key only.\<close>

lemma strict_insertions: "sorted_wrt (<) (map fst ch) \<Longrightarrow> sorted_wrt (<) (insertions_from prev ch)"
proof (induction prev ch rule: insertions_from.induct)
  case (2 prev i x ch)
  have "sorted_wrt (<) (insertions_from x ch)" using 2 by (cases "x \<noteq> None \<and> prev = None") auto
  moreover have "\<forall>j \<in> set (insertions_from x ch). i < j" using insertions_subset [of x ch] 2(3) by auto
  ultimately show ?case by simp
qed simp

lemma distinct_inserted: "wf_store st \<Longrightarrow> distinct (inserted st k)"
  using strict_insertions [of "chain_of st k" None] wf_storeD(5,6) [of st k]
  by (simp add: wf_chain_def strict_sorted_iff)

lemma distinct_by_key: "(\<And>k. distinct (map snd (filter (\<lambda>p. fst p = k) ps))) \<Longrightarrow> distinct ps"
proof (induction ps)
  case (Cons p ps)
  have "distinct (map snd (filter (\<lambda>q. fst q = k) ps))" for k
    using Cons.prems [of k] by (simp split: if_splits)
  moreover have "p \<notin> set ps" using Cons.prems [of "fst p"] by force
  ultimately show ?case using Cons.IH by simp
qed simp

lemma distinct_log: "wf_store st \<Longrightarrow> distinct (insertion_log st)"
  using distinct_inserted [of st] by (intro distinct_by_key) (simp add: inserted_def)

lemma item_at_Some: "item_at st v p = Some y \<Longrightarrow> fst y = fst p \<and> snd p = current st v (fst p)"
  by (auto simp: item_at_def split: prod.splits if_splits)

lemma distinct_map_filter:
  "distinct ps \<Longrightarrow> (\<And>p q x y. f p = Some x \<Longrightarrow> f q = Some y \<Longrightarrow> fst x = fst y \<Longrightarrow> p = q) \<Longrightarrow>
   distinct (map fst (List.map_filter f ps))"
proof (induction ps)
  case (Cons p ps)
  then have "\<And>y. f p = Some y \<Longrightarrow> fst y \<notin> fst ` set (List.map_filter f ps)"
    by (force simp: map_filter_def)
  with Cons show ?case by (auto simp: map_filter_simps split: option.splits)
qed (simp add: map_filter_simps)

lemma store_items_ok: "wf_store st \<Longrightarrow> od_ok (store_items st v)"
  unfolding od_ok_def store_items_eq
  by (rule distinct_map_filter [OF distinct_log]) (auto dest!: item_at_Some intro: prod_eqI)

lemma items_member:
  assumes wf: "wf_store st"
  shows "(k, y) \<in> set (store_items st v) \<longleftrightarrow> chain_val (chain_of st k) v = Some y"
proof
  assume "(k, y) \<in> set (store_items st v)"
  then show "chain_val (chain_of st k) v = Some y"
    by (auto simp: store_items_eq [OF wf] map_filter_def item_at_def split: if_splits)
next
  assume y: "chain_val (chain_of st k) v = Some y"
  obtain i where "i \<in> set (inserted st k)" "i \<le> v"
    using chain_val_inserted [OF wf_storeD(5) [OF wf, of k]] y wf_storeD(6) [OF wf, of k] by auto
  then have "filter (\<lambda>i. i \<le> v) (inserted st k) \<noteq> []" by (auto simp: filter_empty_conv)
  then have "current st v k \<in> set (filter (\<lambda>i. i \<le> v) (inserted st k))" unfolding current_def by (rule last_in_set)
  then have c: "current st v k \<in> set (inserted st k)" "current st v k \<le> v" by auto
  have "item_at st v (k, current st v k) = Some (k, y)" using c y by (simp add: item_at_def)
  moreover have "(k, current st v k) \<in> set (insertion_log st)" using c by (simp add: in_inserted)
  ultimately show "(k, y) \<in> set (store_items st v)"
    unfolding store_items_eq [OF wf] map_filter_def by force
qed

lemma items_get: "wf_store st \<Longrightarrow> od_get (store_items st v) k = store_lookup st v k"
  using items_member [of st k _ v] od_get_in [OF store_items_ok [of st v], of k]
  by (cases "store_lookup st v k"; cases "od_get (store_items st v) k") (auto simp: store_lookup_chain)

section \<open>What a write does to every version\<close>

lemma advanced_inserted:
  "advanced key x st st' \<Longrightarrow> inserted st' k = inserted st k @
     (if k = key \<and> x \<noteq> None \<and> last_val (chain_of st key) = None then [st_live st + 1] else [])"
  by (auto simp: advanced_def inserted_def)

text \<open>Older versions read what they read before.\<close>

lemma advanced_item_old: "advanced key x st st' \<Longrightarrow> v \<le> st_live st \<Longrightarrow> item_at st' v p = item_at st v p"
  using advanced_inserted [of key x st st'] chain_val_old [of v "st_live st" "chain_of st key" x]
  by (auto simp: item_at_def current_def advanced_def split: prod.splits)

lemma map_filter_append: "List.map_filter f (xs @ ys) = List.map_filter f xs @ List.map_filter f ys"
  by (simp add: map_filter_def)

lemma map_filter_fun_cong: "(\<And>x. x \<in> set xs \<Longrightarrow> f x = g x) \<Longrightarrow> List.map_filter f xs = List.map_filter g xs"
  by (induction xs) (auto simp: map_filter_simps split: option.split)

theorem items_old:
  assumes wf: "wf_store st" and wf': "wf_store st'" and adv: "advanced key x st st'" and v: "v \<le> st_live st"
  shows "store_items st' v = store_items st v"
proof -
  have "item_at st' v (key, st_live st + 1) = None" using v by (simp add: item_at_def)
  moreover have "List.map_filter (item_at st' v) (insertion_log st) = List.map_filter (item_at st v) (insertion_log st)"
    using advanced_item_old [OF adv v] by (intro map_filter_fun_cong) auto
  ultimately show ?thesis
    using adv by (simp add: store_items_eq [OF wf] store_items_eq [OF wf'] advanced_def map_filter_append map_filter_simps)
qed

text \<open>The new version reads the dictionary operation's result.\<close>

lemma chain_val_live: "wf_store st \<Longrightarrow> chain_val (chain_of st k) (st_live st) = last_val (chain_of st k)"
  using wf_storeD(5) [of st k] by (intro chain_val_all) (auto simp: wf_chain_def)

lemma inserted_le: "wf_store st \<Longrightarrow> i \<in> set (inserted st k) \<Longrightarrow> i \<le> st_live st"
  by (auto simp: inserted_def insertion_log_def dest!: set_zip_rightD intro: wf_storeD(3))

lemma current_live: "wf_store st \<Longrightarrow> st_live st \<le> v \<Longrightarrow> current st v k = last (inserted st k)"
  unfolding current_def using inserted_le by (subst filter_True) (force intro: order_trans)+

lemma advanced_item_new:
  assumes wf: "wf_store st" and wf': "wf_store st'" and adv: "advanced key x st st'"
    and p: "p \<in> set (insertion_log st)"
  shows "item_at st' (st_live st') p =
    (if fst p \<noteq> key then item_at st (st_live st) p
     else if last_val (chain_of st key) = None then None
     else map_option (Pair key) (if item_at st (st_live st) p = None then None else x))"
proof -
  obtain k i where ki: "p = (k, i)" by (cases p)
  have i: "i \<in> set (inserted st k)" using p ki by (simp add: in_inserted)
  have live: "st_live st' = st_live st + 1" using adv by (simp add: advanced_def)
  have le: "i \<le> st_live st" "i \<le> st_live st'" using inserted_le [OF wf i] live by auto
  have chain: "chain_of st' k = chain_of st k @ (if k = key then [(st_live st + 1, x)] else [])"
    using adv by (simp add: advanced_def)
  have val: "chain_val (chain_of st' k) (st_live st') = (if k = key then x else last_val (chain_of st k))"
    using chain_val_live [OF wf', of k] by (simp add: chain last_val_def)
  show ?thesis
    using le i val chain_val_live [OF wf, of k] current_live [OF wf order_refl, of k]
      current_live [OF wf' order_refl, of k] advanced_inserted [OF adv, of k]
    by (cases "k = key"; cases "last_val (chain_of st k)"; cases x) (simp_all add: ki item_at_def)
qed

theorem items_new:
  assumes wf: "wf_store st" and wf': "wf_store st'" and adv: "advanced key x st st'"
    and present: "x = None \<Longrightarrow> last_val (chain_of st key) \<noteq> None"
  shows "store_items st' (st_live st') =
    (case x of Some y \<Rightarrow> od_set key y (store_items st (st_live st)) | None \<Rightarrow> od_del key (store_items st (st_live st)))"
proof -
  let ?m = "store_items st (st_live st)" and ?log = "insertion_log st"
  have keys: "key \<in> set (od_keys ?m) \<longleftrightarrow> last_val (chain_of st key) \<noteq> None"
    using items_member [OF wf, of key _ "st_live st"] chain_val_live [OF wf, of key]
    by (force simp: od_keys_def)
  have log: "insertion_log st' = ?log @ (if x \<noteq> None \<and> last_val (chain_of st key) = None then [(key, st_live st')] else [])"
    using adv by (simp add: advanced_def)
  let ?g = "\<lambda>p. item_at st' (st_live st') p"
  show ?thesis
  proof (cases "last_val (chain_of st key)")
    case None
    then obtain y where x: "x = Some y" using present by auto
    have "List.map_filter ?g ?log = ?m"
      unfolding store_items_eq [OF wf]
    proof (rule map_filter_fun_cong)
      fix p assume p: "p \<in> set ?log"
      show "?g p = item_at st (st_live st) p"
        using advanced_item_new [OF wf wf' adv p] None chain_val_live [OF wf, of key]
        by (cases p) (auto simp: item_at_def)
    qed
    moreover have "?g (key, st_live st') = Some (key, y)"
      using current_live [OF wf' order_refl, of key] advanced_inserted [OF adv, of key] None x
        chain_val_live [OF wf', of key] adv by (simp add: item_at_def advanced_def last_val_def)
    ultimately show ?thesis
      using None x keys by (simp add: store_items_eq [OF wf'] log map_filter_append map_filter_simps od_set_absent)
  next
    case (Some old)
    have "store_items st' (st_live st') = List.map_filter ?g ?log"
      using Some by (simp add: store_items_eq [OF wf'] log)
    also have "\<dots> = (case x of Some y \<Rightarrow> map (\<lambda>p. if fst p = key then (key, y) else p) ?m | None \<Rightarrow> od_del key ?m)"
    proof -
      have "(\<And>p. p \<in> set ps \<Longrightarrow> p \<in> set ?log) \<Longrightarrow> List.map_filter ?g ps =
          (let m = List.map_filter (item_at st (st_live st)) ps in
           case x of Some y \<Rightarrow> map (\<lambda>p. if fst p = key then (key, y) else p) m | None \<Rightarrow> od_del key m)" for ps
      proof (induction ps)
        case (Cons p ps)
        have g: "?g p = (if fst p \<noteq> key then item_at st (st_live st) p
            else map_option (Pair key) (if item_at st (st_live st) p = None then None else x))"
          using advanced_item_new [OF wf wf' adv, of p] Cons.prems [of p] Some by simp
        have k: "\<And>y. item_at st (st_live st) p = Some y \<Longrightarrow> fst y = fst p" by (auto dest: item_at_Some)
        show ?case
          using Cons.IH Cons.prems k
          by (cases x; cases "item_at st (st_live st) p") (auto simp: g map_filter_simps od_del_def)
      qed (simp add: map_filter_simps od_del_def split: option.split)
      from this [of ?log] show ?thesis by (simp add: store_items_eq [OF wf] Let_def split: option.split)
    qed
    also have "\<dots> = (case x of Some y \<Rightarrow> od_set key y ?m | None \<Rightarrow> od_del key ?m)"
      using keys Some store_items_ok [OF wf] by (simp add: od_set_present split: option.split)
    finally show ?thesis .
  qed
qed

section \<open>Fresh stores: construction, branch and rebase\<close>

text \<open>A table of one-entry chains and a key list that hold a dictionary.\<close>

definition holds :: "('k, 'v) od \<Rightarrow> ('k \<Rightarrow> (nat \<times> 'v option) list option) \<times> 'k list \<Rightarrow> bool" where
  "holds m ck \<longleftrightarrow> od_ok m \<and> snd ck = od_keys m \<and> fst ck = (\<lambda>k. map_option (\<lambda>y. [(0, Some y)]) (od_get m k))"

lemma holds_Nil: "holds [] (\<lambda>_. None, [])"
  by (simp add: holds_def od_keys_def)

lemma holds_set:
  "holds m (cs, keys) \<Longrightarrow> holds (od_set k v m) (cs(k := Some [(0, Some v)]), if cs k = None then keys @ [k] else keys)"
  by (auto simp: holds_def od_keys_set fun_eq_iff od_get_None)

lemma holds_init: "holds m (cs, keys) \<Longrightarrow> holds (fold (\<lambda>(k, v). od_set k v) ps m) (init_pairs cs keys ps)"
  by (induction cs keys ps arbitrary: m rule: init_pairs.induct) (simp_all add: holds_set)

lemma fold_od_set_id: "od_ok (m @ ps) \<Longrightarrow> fold (\<lambda>(k, v). od_set k v) ps m = m @ ps"
proof (induction ps arbitrary: m)
  case (Cons p ps)
  obtain k v where p: "p = (k, v)" by (cases p)
  have "k \<notin> set (od_keys m)" using Cons.prems by (auto simp: p od_ok_def od_keys_def)
  then show ?case using Cons.IH [of "m @ [p]"] Cons.prems by (simp add: p od_set_absent)
qed simp

lemma holds_fresh:
  assumes "holds m (cs, keys)"
  shows "wf_store (fresh_store cs keys)" "store_items (fresh_store cs keys) v = m"
    "st_live (fresh_store cs keys) = 0" "length (st_keys (fresh_store cs keys)) = length m"
proof -
  let ?st = "fresh_store cs keys"
  have ok: "od_ok m" and ks: "keys = od_keys m" and cs: "cs = (\<lambda>k. map_option (\<lambda>y. [(0, Some y)]) (od_get m k))"
    using assms by (auto simp: holds_def)
  have chain: "chain_of ?st k = (case od_get m k of None \<Rightarrow> [] | Some y \<Rightarrow> [(0, Some y)])" for k
    by (simp add: chain_of_def fresh_store_def cs split: option.split)
  have log: "insertion_log ?st = map (\<lambda>p. (fst p, 0)) m"
    by (simp add: insertion_log_def fresh_store_def ks od_keys_def zip_replicate2 comp_def)
  have ins: "inserted ?st k = (if od_get m k = None then [] else [0])" for k
  proof -
    have "od_ok m \<Longrightarrow> map snd (filter (\<lambda>p. fst p = k) (map (\<lambda>p. (fst p, 0)) m)) = (if od_get m k = None then [] else [0 :: nat])"
      by (induction m) (auto simp: od_ok_def od_get_def map_of_eq_None_iff filter_empty_conv split: if_splits)
    with ok show ?thesis by (simp add: inserted_def log)
  qed
  show wf: "wf_store ?st"
    unfolding wf_store_def ins chain
    by (auto simp: fresh_store_def cs wf_chain_def split: option.split)
  have "od_ok m \<Longrightarrow> (\<And>p. p \<in> set ps \<Longrightarrow> p \<in> set m) \<Longrightarrow>
      List.map_filter (item_at ?st v) (map (\<lambda>p. (fst p, 0)) ps) = ps" for ps
  proof (induction ps)
    case (Cons p ps)
    have "od_get m (fst p) = Some (snd p)" using Cons.prems od_get_in [of m "fst p" "snd p"] by simp
    then have "item_at ?st v (fst p, 0) = Some p" by (simp add: item_at_def current_def ins chain chain_val_def)
    with Cons show ?case by (simp add: map_filter_simps)
  qed (simp add: map_filter_simps)
  with ok show "store_items ?st v = m" by (simp add: store_items_eq [OF wf] log)
  show "st_live ?st = 0" "length (st_keys ?st) = length m" by (simp_all add: fresh_store_def ks od_keys_def)
qed

lemma new_store_items:
  "wf_store (new_store ps)" "store_items (new_store ps) v = fold (\<lambda>(k, v). od_set k v) ps []"
  "st_live (new_store ps) = 0" "length (st_keys (new_store ps)) = length (fold (\<lambda>(k, v). od_set k v) ps [])"
  using holds_fresh [of _ "fst (init_pairs (\<lambda>_. None) [] ps)" "snd (init_pairs (\<lambda>_. None) [] ps)"]
    holds_init [OF holds_Nil, of ps]
  by (simp_all add: new_store_def case_prod_beta)

text \<open>The loop of \<open>_branch\<close> copies the items of the newest view, in their order.\<close>

lemma branch_scan_step:
  assumes wf: "wf_store st" and i: "i \<in> set (inserted st k)"
  shows "branch_scan st ((k, i) # rest) fr keys =
    (case item_at st (st_live st) (k, i) of
       None \<Rightarrow> branch_scan st rest fr keys
     | Some p \<Rightarrow> branch_scan st rest (fr(fst p := Some [(0, Some (snd p))])) (keys @ [fst p]))"
proof -
  let ?skip = "case st_reins st k of None \<Rightarrow> False | Some history \<Rightarrow> last history \<noteq> i"
  have i': "i \<le> st_live st" using inserted_le [OF wf i] .
  have cur: "current st (st_live st) k = last (inserted st k)" using current_live [OF wf order_refl] .
  have skip: "?skip \<longleftrightarrow> i \<noteq> current st (st_live st) k"
  proof (cases "2 \<le> length (inserted st k)")
    case True
    then show ?thesis using wf_storeD(7) [OF wf, of k] cur by auto
  next
    case False
    then have "inserted st k = [i]" using i by (cases "inserted st k"; cases "tl (inserted st k)") auto
    then show ?thesis using wf_storeD(7) [OF wf, of k] cur by simp
  qed
  have ne: "chain_of st k \<noteq> []" using i wf_storeD(6) [OF wf, of k] by auto
  then obtain ch where ch: "st_chains st k = Some ch" "chain_of st k = ch"
    by (auto simp: chain_of_def split: option.splits)
  have "branch_scan st ((k, i) # rest) fr keys =
      (if ?skip then branch_scan st rest fr keys
       else case last_val ch of None \<Rightarrow> branch_scan st rest fr keys
         | Some v \<Rightarrow> branch_scan st rest (fr(k := Some [(0, Some v)])) (keys @ [k]))"
    using ne ch by (simp add: last_val_def)
  then show ?thesis
    unfolding skip using i' ch chain_val_live [OF wf, of k]
    by (cases "i = current st (st_live st) k"; cases "last_val ch") (simp_all add: item_at_def)
qed

lemma branch_scan_holds:
  assumes wf: "wf_store st"
  shows "set ps \<subseteq> set (insertion_log st) \<Longrightarrow> holds m (fr, keys) \<Longrightarrow>
    od_ok (m @ List.map_filter (item_at st (st_live st)) ps) \<Longrightarrow>
    holds (m @ List.map_filter (item_at st (st_live st)) ps) (branch_scan st ps fr keys)"
proof (induction ps arbitrary: m fr keys)
  case Nil
  then show ?case by (simp add: map_filter_simps)
next
  case (Cons p ps)
  obtain k i where p: "p = (k, i)" by (cases p)
  have i: "i \<in> set (inserted st k)" using Cons.prems(1) by (simp add: p in_inserted [symmetric])
  show ?case
  proof (cases "item_at st (st_live st) p")
    case None
    with Cons show ?thesis unfolding p branch_scan_step [OF wf i] by (simp add: map_filter_simps)
  next
    case (Some y)
    have new: "fst y \<notin> set (od_keys m)"
      using Cons.prems(3) Some by (auto simp: od_ok_def od_keys_def map_filter_simps)
    then have "od_get m (fst y) = None" by (simp add: od_get_None)
    then have "fr (fst y) = None" using Cons.prems(2) by (simp add: holds_def)
    then have "holds (od_set (fst y) (snd y) m) (fr(fst y := Some [(0, Some (snd y))]), keys @ [fst y])"
      using holds_set [OF Cons.prems(2), of "fst y" "snd y"] by simp
    then have "holds (m @ [y]) (fr(fst y := Some [(0, Some (snd y))]), keys @ [fst y])"
      using new by (simp add: od_set_absent)
    from Cons.IH [OF _ this] Cons.prems Some show ?thesis
      unfolding p branch_scan_step [OF wf i] by (simp add: map_filter_simps fun_upd_def)
  qed
qed

lemma branch_scan_items:
  assumes wf: "wf_store st"
  shows "holds (store_items st (st_live st)) (branch_scan st (zip (st_keys st) (st_inserted st)) (\<lambda>_. None) [])"
  using branch_scan_holds [OF wf, of "insertion_log st" "[]" "\<lambda>_. None" "[]"] store_items_ok [OF wf, of "st_live st"]
  by (simp add: store_items_eq [OF wf] insertion_log_def holds_Nil)

section \<open>Views\<close>

definition pm_valid :: "('k, 'v) pheap \<Rightarrow> pview \<Rightarrow> bool" where
  "pm_valid h m \<longleftrightarrow>
     pv_store m < length h \<and> wf_store (h ! pv_store m) \<and> pv_version m \<le> st_live (h ! pv_store m) \<and>
     pv_size m = length (pm_items h m)"

definition newest :: "('k, 'v) pheap \<Rightarrow> pview \<Rightarrow> bool" where
  "newest h m \<longleftrightarrow> pv_version m = st_live (h ! pv_store m)"

text \<open>Allocating leaves every view as it was.\<close>

lemma alloc_frame: "pm_valid h w \<Longrightarrow> pm_valid (h @ [st]) w \<and> pm_items (h @ [st]) w = pm_items h w"
  by (simp add: pm_valid_def pm_items_def nth_append)

lemma alloc_view:
  assumes "holds m (cs, keys)" "alloc_store h (fresh_store cs keys) = (h', v)"
  shows "pm_valid h' v" "pm_items h' v = m" "newest h' v" "\<not> rebase_due h' v" "h' = h @ [fresh_store cs keys]"
  using assms(2) holds_fresh [OF assms(1)]
  by (auto simp: alloc_store_def pm_valid_def pm_items_def newest_def rebase_due_def fresh_store_def
    REBASE_FACTOR_def REBASE_SLACK_def)

lemma new_view:
  assumes "pm_new ps h = (h', v)"
  shows "pm_valid h' v" "pm_items h' v = fold (\<lambda>(k, x). od_set k x) ps []" "newest h' v" "\<not> rebase_due h' v"
    "\<exists>st. h' = h @ [st]"
proof -
  obtain cs keys where i: "init_pairs (\<lambda>_. None) [] ps = (cs, keys)" by (cases "init_pairs (\<lambda>_. None :: (nat \<times> 'b option) list option) [] ps")
  have hold: "holds (fold (\<lambda>(k, x). od_set k x) ps []) (cs, keys)" using holds_init [OF holds_Nil, of ps] i by simp
  have a: "alloc_store h (fresh_store cs keys) = (h', v)" using assms i by (simp add: pm_new_def new_store_def)
  show "pm_valid h' v" "pm_items h' v = fold (\<lambda>(k, x). od_set k x) ps []" "newest h' v" "\<not> rebase_due h' v"
    "\<exists>st. h' = h @ [st]"
    using alloc_view [OF hold a] by auto
qed

lemma branch_settled:
  assumes v: "pm_valid h m" and b: "pm_branch h m = (h', m')"
  shows "pm_valid h' m'" "pm_items h' m' = pm_items h m" "newest h' m'" "\<not> rebase_due h' m'" "\<exists>st. h' = h @ [st]"
proof -
  let ?st = "h ! pv_store m"
  have wf: "wf_store ?st" using v by (simp add: pm_valid_def)
  have "pm_valid h' m' \<and> pm_items h' m' = pm_items h m \<and> newest h' m' \<and> \<not> rebase_due h' m' \<and> (\<exists>st. h' = h @ [st])"
  proof (cases "newest h m")
    case True
    obtain cs keys where s: "branch_scan ?st (zip (st_keys ?st) (st_inserted ?st)) (\<lambda>_. None) [] = (cs, keys)"
      by (cases "branch_scan ?st (zip (st_keys ?st) (st_inserted ?st)) (\<lambda>_. None) []")
    have "holds (pm_items h m) (cs, keys)"
      using branch_scan_items [OF wf] True s by (simp add: pm_items_def newest_def)
    from alloc_view [OF this, of h h' m'] b True s show ?thesis
      by (auto simp: pm_branch_def newest_def Let_def)
  next
    case False
    then have b': "pm_new (pm_items h m) h = (h', m')" using b by (simp add: pm_branch_def newest_def Let_def)
    have "fold (\<lambda>(k, x). od_set k x) (pm_items h m) [] = pm_items h m"
      using fold_od_set_id [of "[]" "pm_items h m"] store_items_ok [OF wf] by (simp add: pm_items_def)
    with new_view [OF b'] show ?thesis by simp
  qed
  then show "pm_valid h' m'" "pm_items h' m' = pm_items h m" "newest h' m'" "\<not> rebase_due h' m'" "\<exists>st. h' = h @ [st]"
    by auto
qed

text \<open>A store advanced by one version through its newest view.\<close>

lemma advance_view:
  assumes v: "pm_valid h m" "newest h m" and wf': "wf_store st'" and adv: "advanced key x (h ! pv_store m) st'"
    and present: "x = None \<Longrightarrow> od_get (pm_items h m) key \<noteq> None"
    and h': "h' = h[pv_store m := st']"
    and m': "m' = \<lparr>pv_store = pv_store m, pv_version = pv_version m + 1, pv_size = n\<rparr>"
    and n: "n = length (pm_items h' m')"
  shows "pm_valid h' m'"
    "pm_items h' m' = (case x of Some y \<Rightarrow> od_set key y (pm_items h m) | None \<Rightarrow> od_del key (pm_items h m))"
    "newest h' m'"
    "pm_valid h w \<Longrightarrow> pm_valid h' w" "pm_valid h w \<Longrightarrow> pm_items h' w = pm_items h w"
proof -
  let ?st = "h ! pv_store m"
  have s: "pv_store m < length h" and wf: "wf_store ?st" and ver: "pv_version m = st_live ?st"
    using v by (auto simp: pm_valid_def newest_def)
  have live: "st_live st' = st_live ?st + 1" using adv by (simp add: advanced_def)
  have at: "h' ! pv_store m = st'" using h' s by simp
  show "newest h' m'" using at live ver by (simp add: newest_def m')
  show "pm_valid h' m'" using at live ver wf' s n by (simp add: pm_valid_def m' h')
  have "x = None \<Longrightarrow> last_val (chain_of ?st key) \<noteq> None"
    using present items_get [OF wf, of "st_live ?st" key] store_lookup_chain [OF wf, of "st_live ?st" key]
      chain_val_live [OF wf, of key] by (simp add: pm_items_def ver)
  from items_new [OF wf wf' adv this]
  show "pm_items h' m' = (case x of Some y \<Rightarrow> od_set key y (pm_items h m) | None \<Rightarrow> od_del key (pm_items h m))"
    using at ver live by (simp add: pm_items_def m' split: option.split)
  assume w: "pm_valid h w"
  show i: "pm_items h' w = pm_items h w"
  proof (cases "pv_store w = pv_store m")
    case True
    with w items_old [OF wf wf' adv, of "pv_version w"] at show ?thesis by (simp add: pm_items_def pm_valid_def)
  next
    case False
    then show ?thesis by (simp add: pm_items_def h')
  qed
  show "pm_valid h' w"
    using w i wf' live s by (cases "pv_store w = pv_store m") (auto simp: pm_valid_def h')
qed

lemma od_set_length: "length (od_set k y m) = (if od_get m k = None then length m + 1 else length m)"
  by (induction k y m rule: od_set.induct) (auto simp: od_get_def)

lemma od_del_length:
  assumes "od_ok m" "od_get m k \<noteq> None"
  shows "length (od_del k m) = length m - 1"
proof -
  have "od_keys (od_del k m) = remove1 k (od_keys m)"
  proof -
    have "filter (\<lambda>x. x \<noteq> k) xs = removeAll k xs" for xs by (induction xs) auto
    moreover have "distinct (od_keys m)" using assms(1) by (simp add: od_ok_def od_keys_def)
    ultimately show ?thesis by (simp add: od_keys_del distinct_remove1_removeAll)
  qed
  then have "length (od_keys (od_del k m)) = length (od_keys m) - 1"
    using assms(2) by (simp add: length_remove1 od_get_None)
  then show ?thesis by (simp add: od_keys_def)
qed

section \<open>Operations\<close>

datatype ('k, 'v) map_op = PSet 'k 'v | PDel 'k

fun pm_step :: "('k, 'v) map_op \<Rightarrow> ('k, 'v) pheap \<Rightarrow> pview \<Rightarrow> (('k, 'v) pheap \<times> pview) res" where
  "pm_step (PSet k v) h m = Inr (pm_set k v h m)"
| "pm_step (PDel k) h m = pm_delete k h m"

fun pm_spec :: "('k, 'v) map_op \<Rightarrow> ('k, 'v) od \<Rightarrow> ('k, 'v) od res" where
  "pm_spec (PSet k v) m = Inr (od_set k v m)"
| "pm_spec (PDel k) m = (if od_get m k = None then Inl KeyError else Inr (od_del k m))"

lemma pm_items_ok: "pm_valid h m \<Longrightarrow> od_ok (pm_items h m)"
  by (simp add: pm_valid_def pm_items_def store_items_ok)

lemma pm_lookup_items: "pm_valid h m \<Longrightarrow> pm_lookup h m k = od_get (pm_items h m) k"
  by (simp add: pm_valid_def pm_items_def pm_lookup_def items_get)

lemma newest_value:
  assumes "pm_valid h m" "newest h m"
  shows "od_get (pm_items h m) k = last_val (chain_of (h ! pv_store m) k)"
  using assms chain_val_live [of "h ! pv_store m" k]
  by (simp add: pm_valid_def newest_def pm_items_def items_get store_lookup_chain)

lemma pm_write_correct:
  assumes v: "pm_valid h m" "newest h m" and w: "pm_write key y h m = (h', m')"
  shows "pm_valid h' m'" "pm_items h' m' = od_set key y (pm_items h m)" "newest h' m'"
    "pm_valid h u \<Longrightarrow> pm_valid h' u" "pm_valid h u \<Longrightarrow> pm_items h' u = pm_items h u"
proof -
  let ?st = "h ! pv_store m"
  have wf: "wf_store ?st" using v by (simp add: pm_valid_def)
  have h': "h' = h[pv_store m := store_write ?st key y]"
    and m': "m' = \<lparr>pv_store = pv_store m, pv_version = pv_version m + 1, pv_size = write_size ?st key (pv_size m)\<rparr>"
    using w by (auto simp: pm_write_def Let_def)
  have at: "h' ! pv_store m = store_write ?st key y" using v h' by (simp add: pm_valid_def)
  have live: "st_live (store_write ?st key y) = pv_version m + 1"
    using write_advanced [OF wf, of key y] v by (simp add: advanced_def newest_def)
  have items: "pm_items h' m' = od_set key y (pm_items h m)"
    using items_new [OF wf write_wf [OF wf] write_advanced [OF wf], of y key] at live v(2)
    by (simp add: pm_items_def m' newest_def)
  have "write_size ?st key (pv_size m) = length (pm_items h' m')"
    using newest_value [OF v, of key] v(1) wf_storeD(4) [OF wf, of key]
    by (auto simp: items od_set_length write_size_def chain_of_def last_val_def pm_valid_def split: option.splits)
  note adv = advance_view [OF v write_wf [OF wf] write_advanced [OF wf] _ h' m' this]
  show "pm_valid h' m'" "pm_items h' m' = od_set key y (pm_items h m)" "newest h' m'"
    "pm_valid h u \<Longrightarrow> pm_valid h' u" "pm_valid h u \<Longrightarrow> pm_items h' u = pm_items h u"
    using items by (auto intro: adv)
qed

lemma pm_erase_correct:
  assumes v: "pm_valid h m" "newest h m" and k: "od_get (pm_items h m) key \<noteq> None"
    and w: "pm_erase key h m = (h', m')"
  shows "pm_valid h' m'" "pm_items h' m' = od_del key (pm_items h m)" "newest h' m'"
    "pm_valid h u \<Longrightarrow> pm_valid h' u" "pm_valid h u \<Longrightarrow> pm_items h' u = pm_items h u"
proof -
  let ?st = "h ! pv_store m"
  have wf: "wf_store ?st" using v by (simp add: pm_valid_def)
  have lv: "last_val (chain_of ?st key) \<noteq> None" using k newest_value [OF v, of key] by simp
  then have c: "st_chains ?st key \<noteq> None" by (cases "st_chains ?st key") (auto simp: chain_of_def last_val_def)
  have h': "h' = h[pv_store m := store_erase ?st key]"
    and m': "m' = \<lparr>pv_store = pv_store m, pv_version = pv_version m + 1, pv_size = pv_size m - 1\<rparr>"
    using w by (auto simp: pm_erase_def)
  have at: "h' ! pv_store m = store_erase ?st key" using v h' by (simp add: pm_valid_def)
  have live: "st_live (store_erase ?st key) = pv_version m + 1"
    using erase_advanced [OF wf c] v by (simp add: advanced_def newest_def)
  have items: "pm_items h' m' = od_del key (pm_items h m)"
    using items_new [OF wf erase_wf [OF wf c] erase_advanced [OF wf c] lv] at live v(2)
    by (simp add: pm_items_def m' newest_def)
  have "pv_size m - 1 = length (pm_items h' m')"
    using od_del_length [OF pm_items_ok [OF v(1)] k] v(1) by (simp add: items pm_valid_def)
  note adv = advance_view [OF v erase_wf [OF wf c] erase_advanced [OF wf c] _ h' m' this]
  show "pm_valid h' m'" "pm_items h' m' = od_del key (pm_items h m)" "newest h' m'"
    "pm_valid h u \<Longrightarrow> pm_valid h' u" "pm_valid h u \<Longrightarrow> pm_items h' u = pm_items h u"
    using items k by (auto intro: adv)
qed

text \<open>The view a write goes through: the map itself, or its branch.\<close>

definition write_view :: "('k, 'v) pheap \<Rightarrow> pview \<Rightarrow> ('k, 'v) pheap \<times> pview" where
  "write_view h m = (if must_branch h m then pm_branch h m else (h, m))"

lemma write_view_correct:
  assumes v: "pm_valid h m" and w: "write_view h m = (h1, m1)"
  shows "pm_valid h1 m1" "pm_items h1 m1 = pm_items h m" "newest h1 m1" "\<not> rebase_due h1 m1"
    "pm_valid h u \<Longrightarrow> pm_valid h1 u" "pm_valid h u \<Longrightarrow> pm_items h1 u = pm_items h u"
  using w v branch_settled [OF v, of h1 m1] alloc_frame [of h u]
  by (auto simp: write_view_def must_branch_def newest_def split: if_splits)

lemma pm_set_view: "pm_set key y h m = (case write_view h m of (h1, m1) \<Rightarrow> pm_write key y h1 m1)"
  by (simp add: pm_set_def write_view_def)

lemma pm_delete_view: "pm_delete key h m =
    (if pm_lookup h m key = None then Inl KeyError else case write_view h m of (h1, m1) \<Rightarrow> Inr (pm_erase key h1 m1))"
  by (simp add: pm_delete_def write_view_def split: prod.split)

lemma pm_step_correct:
  assumes v: "pm_valid h m" and s: "pm_step p h m = Inr (h', m')"
  shows "pm_valid h' m'" "pm_spec p (pm_items h m) = Inr (pm_items h' m')" "newest h' m'"
    "pm_valid h u \<Longrightarrow> pm_valid h' u" "pm_valid h u \<Longrightarrow> pm_items h' u = pm_items h u"
proof -
  obtain h1 m1 where w: "write_view h m = (h1, m1)" by (cases "write_view h m")
  note wv = write_view_correct [OF v w]
  have "pm_valid h' m' \<and> pm_spec p (pm_items h m) = Inr (pm_items h' m') \<and> newest h' m' \<and>
      (pm_valid h u \<longrightarrow> pm_valid h' u \<and> pm_items h' u = pm_items h u)"
  proof (cases p)
    case (PSet k y)
    then have "pm_write k y h1 m1 = (h', m')" using s w by (simp add: pm_set_view)
    from pm_write_correct [OF wv(1,3) this] wv PSet show ?thesis by auto
  next
    case (PDel k)
    then have k: "od_get (pm_items h m) k \<noteq> None" and e: "pm_erase k h1 m1 = (h', m')"
      using s w pm_lookup_items [OF v, of k] by (auto simp: pm_delete_view split: if_splits)
    have "od_get (pm_items h1 m1) k \<noteq> None" using k wv(2) by simp
    from pm_erase_correct [OF wv(1,3) this e] wv PDel k show ?thesis by auto
  qed
  then show "pm_valid h' m'" "pm_spec p (pm_items h m) = Inr (pm_items h' m')" "newest h' m'"
    "pm_valid h u \<Longrightarrow> pm_valid h' u" "pm_valid h u \<Longrightarrow> pm_items h' u = pm_items h u" by auto
qed

interpretation pmap: shared_storage pm_valid pm_items pm_step pm_spec
proof (unfold_locales, goal_cases)
  case (1 h v p)
  show ?case
  proof (cases "pm_step p h v")
    case (Inl e)
    with 1 show ?thesis
      by (cases p) (auto simp: pm_delete_view pm_lookup_items split: if_splits prod.splits)
  next
    case (Inr r)
    with 1 show ?thesis using pm_step_correct(2) [OF 1, of p "fst r" "snd r"] by (simp add: case_prod_beta)
  qed
qed (auto dest: pm_step_correct)

section \<open>Memory\<close>

text \<open>
  \<open>entries\<close> counts the chain entries of the store, and the newest view holds at least half of
  them, up to the slack: what \<open>_REBASE_FACTOR\<close> and \<open>_REBASE_SLACK\<close> are for.
\<close>

definition store_tight :: "('k, 'v) pstore \<Rightarrow> bool" where
  "store_tight st \<longleftrightarrow>
     wf_store st \<and> (\<Sum>k \<in> set (st_keys st). length (chain_of st k)) = st_entries st \<and>
     length (st_keys st) \<le> st_entries st \<and>
     st_entries st \<le> REBASE_FACTOR * length (store_items st (st_live st)) + REBASE_SLACK + 3"

lemma fresh_tight: "holds m (cs, keys) \<Longrightarrow> store_tight (fresh_store cs keys)"
proof -
  assume hold: "holds m (cs, keys)"
  have "length (chain_of (fresh_store cs keys) k) = 1" if "k \<in> set keys" for k
    using hold that od_key_get [of k m] by (auto simp: chain_of_def fresh_store_def holds_def)
  moreover have "distinct keys" "length keys = length m" using hold by (auto simp: holds_def od_ok_def od_keys_def)
  ultimately show ?thesis
    using holds_fresh(1,2) [OF hold]
    by (simp add: store_tight_def distinct_card)
      (simp add: fresh_store_def distinct_card REBASE_FACTOR_def)
qed

lemma key_listed: "wf_store st \<Longrightarrow> k \<in> set (st_keys st) \<longleftrightarrow> st_chains st k \<noteq> None"
proof -
  assume wf: "wf_store st"
  have "k \<in> set (st_keys st) \<longleftrightarrow> inserted st k \<noteq> []"
    using wf_storeD(1) [OF wf] by (simp add: inserted_def insertion_log_def filter_empty_conv)
      (metis fst_conv in_set_impl_in_set_zip1 prod.collapse set_zip_leftD)
  also have "\<dots> \<longleftrightarrow> st_chains st k \<noteq> None"
    using first_insertion [OF wf, of k] wf_storeD(6) [OF wf, of k] chain_of_None [OF wf, of k]
    by (cases "st_chains st k") auto
  finally show ?thesis .
qed

lemma advanced_sum:
  assumes wf: "wf_store st" "wf_store st'" and adv: "advanced key x st st'"
  shows "(\<Sum>k \<in> set (st_keys st'). length (chain_of st' k)) = (\<Sum>k \<in> set (st_keys st). length (chain_of st k)) + 1"
proof -
  have ch: "chain_of st' k = chain_of st k @ (if k = key then [(st_live st + 1, x)] else [])" for k
    using adv by (simp add: advanced_def)
  have keys: "set (st_keys st') = insert key (set (st_keys st))"
    using key_listed [OF wf(1)] key_listed [OF wf(2)] ch
    by (force simp: chain_of_None [OF wf(1), symmetric] chain_of_None [OF wf(2), symmetric])
  have zero: "key \<notin> set (st_keys st) \<Longrightarrow> chain_of st key = []"
    using key_listed [OF wf(1), of key] by (simp add: chain_of_None [OF wf(1)])
  have "(\<Sum>k \<in> set (st_keys st'). length (chain_of st' k)) =
      (\<Sum>k \<in> insert key (set (st_keys st)). length (chain_of st k) + (if k = key then 1 else 0))"
    unfolding keys by (rule sum.cong) (auto simp: ch)
  also have "\<dots> = (\<Sum>k \<in> insert key (set (st_keys st)). length (chain_of st k)) + 1"
    by (simp add: sum.distrib)
  also have "(\<Sum>k \<in> insert key (set (st_keys st)). length (chain_of st k)) = (\<Sum>k \<in> set (st_keys st). length (chain_of st k))"
    using zero by (cases "key \<in> set (st_keys st)") (simp_all add: insert_absorb)
  finally show ?thesis .
qed

lemma advanced_tight:
  assumes t: "store_tight st" and wf': "wf_store st'" and adv: "advanced key x st st'"
    and e: "st_entries st' = st_entries st + 1" and k: "length (st_keys st') \<le> length (st_keys st) + 1"
    and b: "st_entries st + 1 \<le> REBASE_FACTOR * length (store_items st' (st_live st')) + REBASE_SLACK + 3"
  shows "store_tight st'"
  using t advanced_sum [OF _ wf' adv] e k b wf' by (simp add: store_tight_def)

lemma write_keys: "length (st_keys (store_write st key y)) \<le> length (st_keys st) + 1"
  by (simp add: store_write_def Let_def split: option.split)

lemma write_entries: "st_entries (store_write st key y) = st_entries st + 1"
  by (simp add: store_write_def Let_def split: option.split)

lemma view_live_items: "pm_valid h m \<Longrightarrow> newest h m \<Longrightarrow>
    length (store_items (h ! pv_store m) (st_live (h ! pv_store m))) = pv_size m"
  by (simp add: pm_valid_def newest_def pm_items_def)

lemma write_tight:
  assumes t: "list_all store_tight h" and v: "pm_valid h m" "newest h m" "\<not> rebase_due h m"
    and w: "pm_write key y h m = (h', m')"
  shows "list_all store_tight h'"
proof -
  let ?st = "h ! pv_store m"
  have s: "pv_store m < length h" and st: "store_tight ?st" using t v by (auto simp: list_all_length pm_valid_def)
  then have wf: "wf_store ?st" by (simp add: store_tight_def)
  have h': "h' = h[pv_store m := store_write ?st key y]" and m': "pv_store m' = pv_store m"
    using w by (auto simp: pm_write_def Let_def)
  note c = pm_write_correct [OF v(1,2) w]
  have "length (store_items (store_write ?st key y) (st_live (store_write ?st key y))) = length (pm_items h' m')"
    using c(1,3) s h' m' view_live_items [OF c(1,3)] by (simp add: pm_valid_def)
  also have "\<dots> \<ge> pv_size m" using v(1) by (simp add: c(2) od_set_length pm_valid_def)
  finally have "store_tight (store_write ?st key y)"
    using v(3) by (intro advanced_tight [OF st write_wf [OF wf] write_advanced [OF wf] write_entries write_keys])
      (simp add: rebase_due_def REBASE_FACTOR_def)
  with t h' show ?thesis by (auto simp: list_all_iff dest: set_update_subset_insert [THEN subsetD])
qed

lemma erase_tight:
  assumes t: "list_all store_tight h" and v: "pm_valid h m" "newest h m" "\<not> rebase_due h m"
    and k: "od_get (pm_items h m) key \<noteq> None" and w: "pm_erase key h m = (h', m')"
  shows "list_all store_tight h'"
proof -
  let ?st = "h ! pv_store m"
  have s: "pv_store m < length h" and st: "store_tight ?st" using t v by (auto simp: list_all_length pm_valid_def)
  then have wf: "wf_store ?st" by (simp add: store_tight_def)
  have ch: "st_chains ?st key \<noteq> None"
    using k newest_value [OF v(1,2), of key] by (cases "st_chains ?st key") (auto simp: chain_of_def last_val_def)
  have h': "h' = h[pv_store m := store_erase ?st key]" and m': "pv_store m' = pv_store m"
    using w by (auto simp: pm_erase_def)
  note c = pm_erase_correct [OF v(1,2) k w]
  have "length (store_items (store_erase ?st key) (st_live (store_erase ?st key))) = length (pm_items h' m')"
    using c(1,3) s h' m' view_live_items [OF c(1,3)] by (simp add: pm_valid_def)
  also have "\<dots> = pv_size m - 1"
    using v(1) od_del_length [OF pm_items_ok [OF v(1)] k] by (simp add: c(2) pm_valid_def)
  finally have "store_tight (store_erase ?st key)"
    using v(3) by (intro advanced_tight [OF st erase_wf [OF wf ch] erase_advanced [OF wf ch]])
      (auto simp: rebase_due_def REBASE_FACTOR_def store_erase_def Let_def)
  with t h' show ?thesis by (auto simp: list_all_iff dest: set_update_subset_insert [THEN subsetD])
qed

lemma pm_new_tight: "list_all store_tight h \<Longrightarrow> list_all store_tight (fst (pm_new ps h))"
  using fresh_tight [of _ "fst (init_pairs (\<lambda>_. None) [] ps)" "snd (init_pairs (\<lambda>_. None) [] ps)"]
    holds_init [OF holds_Nil, of ps]
  by (simp add: pm_new_def new_store_def alloc_store_def case_prod_beta) 

lemma branch_tight:
  assumes t: "list_all store_tight h" and v: "pm_valid h m"
  shows "list_all store_tight (fst (pm_branch h m))"
proof -
  let ?s = "branch_scan (h ! pv_store m) (zip (st_keys (h ! pv_store m)) (st_inserted (h ! pv_store m))) (\<lambda>_. None) []"
  have "store_tight (fresh_store (fst ?s) (snd ?s))"
    using v branch_scan_items [of "h ! pv_store m"] by (intro fresh_tight) (auto simp: pm_valid_def)
  with t pm_new_tight [OF t] show ?thesis
    by (simp add: pm_branch_def Let_def alloc_store_def case_prod_beta)
qed

lemma write_view_tight:
  "list_all store_tight h \<Longrightarrow> pm_valid h m \<Longrightarrow> write_view h m = (h1, m1) \<Longrightarrow> list_all store_tight h1"
  using branch_tight [of h m] by (auto simp: write_view_def split: if_splits)

lemma pm_step_tight:
  assumes t: "list_all store_tight h" and v: "pm_valid h m" and s: "pm_step p h m = Inr (h', m')"
  shows "list_all store_tight h'"
proof -
  obtain h1 m1 where w: "write_view h m = (h1, m1)" by (cases "write_view h m")
  note wv = write_view_correct [OF v w] and t1 = write_view_tight [OF t v w]
  show ?thesis
  proof (cases p)
    case (PSet k y)
    then have "pm_write k y h1 m1 = (h', m')" using s w by (simp add: pm_set_view)
    with t1 wv show ?thesis by (auto intro: write_tight)
  next
    case (PDel k)
    then have "od_get (pm_items h m) k \<noteq> None" "pm_erase k h1 m1 = (h', m')"
      using s w pm_lookup_items [OF v, of k] by (auto simp: pm_delete_view split: if_splits)
    then show ?thesis using erase_tight [OF t1 wv(1,3,4)] wv(2) by simp
  qed
qed

section \<open>Sets\<close>

text \<open>A \<open>PersistentSet\<close> is a \<open>PersistentMap\<close> to \<open>None\<close>; it reads as its keys.\<close>

type_synonym 'a sheap = "('a, unit) pheap"

definition ps_new :: "'a list \<Rightarrow> 'a sheap \<Rightarrow> 'a sheap \<times> pview" where
  "ps_new members h = pm_new (map (\<lambda>x. (x, ())) members) h"

definition ps_contains :: "'a sheap \<Rightarrow> pview \<Rightarrow> 'a \<Rightarrow> bool" where
  "ps_contains h m x = (pm_lookup h m x \<noteq> None)"

definition ps_add :: "'a \<Rightarrow> 'a sheap \<Rightarrow> pview \<Rightarrow> 'a sheap \<times> pview" where
  "ps_add x h m = (if ps_contains h m x then (h, m) else pm_set x () h m)"

definition ps_discard :: "'a \<Rightarrow> 'a sheap \<Rightarrow> pview \<Rightarrow> ('a sheap \<times> pview) res" where
  "ps_discard x h m = (if ps_contains h m x then pm_delete x h m else Inr (h, m))"

definition ps_iter :: "'a sheap \<Rightarrow> pview \<Rightarrow> 'a list" where
  "ps_iter h m = od_keys (pm_items h m)"

datatype 'a set_op = SAdd 'a | SDiscard 'a

fun ps_step :: "'a set_op \<Rightarrow> 'a sheap \<Rightarrow> pview \<Rightarrow> ('a sheap \<times> pview) res" where
  "ps_step (SAdd x) h m = Inr (ps_add x h m)"
| "ps_step (SDiscard x) h m = ps_discard x h m"

fun ps_spec :: "'a set_op \<Rightarrow> 'a list \<Rightarrow> 'a list res" where
  "ps_spec (SAdd x) xs = Inr (os_add x xs)"
| "ps_spec (SDiscard x) xs = Inr (os_discard x xs)"

lemma ps_contains_iter: "pm_valid h m \<Longrightarrow> ps_contains h m x \<longleftrightarrow> x \<in> set (ps_iter h m)"
  by (simp add: ps_contains_def ps_iter_def pm_lookup_items od_get_None)

lemma ps_step_total:
  assumes "pm_valid h m"
  shows "\<exists>h' m'. ps_step p h m = Inr (h', m') \<and> ps_spec p (ps_iter h m) = Inr (ps_iter h' m') \<and> pm_valid h' m' \<and>
    (\<forall>w. pm_valid h w \<longrightarrow> pm_valid h' w \<and> ps_iter h' w = ps_iter h w)"
proof (cases p)
  case (SAdd x)
  show ?thesis
  proof (cases "ps_contains h m x")
    case True
    with assms SAdd show ?thesis by (simp add: ps_add_def ps_contains_iter os_add_def)
  next
    case False
    obtain h' m' where s: "pm_step (PSet x ()) h m = Inr (h', m')" by (cases "pm_set x () h m") auto
    have "pm_items h' m' = od_set x () (pm_items h m)" using pm_step_correct(2) [OF assms s] by simp
    with pm_step_correct(1,4,5) [OF assms s] False assms SAdd s show ?thesis
      by (auto simp: ps_add_def ps_contains_iter os_add_def ps_iter_def od_keys_set)
  qed
next
  case (SDiscard x)
  show ?thesis
  proof (cases "ps_contains h m x")
    case False
    with assms SDiscard show ?thesis by (simp add: ps_discard_def ps_contains_iter os_discard_def)
  next
    case True
    obtain h' m' where s: "pm_step (PDel x) h m = Inr (h', m')"
      using True by (cases "write_view h m"; cases "pm_erase x (fst (write_view h m)) (snd (write_view h m))")
        (auto simp: ps_contains_def pm_delete_view)
    have "pm_items h' m' = od_del x (pm_items h m)" using pm_step_correct(2) [OF assms s] by (simp split: if_splits)
    with pm_step_correct(1,4,5) [OF assms s] True assms SDiscard s show ?thesis
      by (auto simp: ps_discard_def ps_contains_iter os_discard_def ps_iter_def od_keys_del)
  qed
qed

interpretation pset: shared_storage pm_valid ps_iter ps_step ps_spec
proof (unfold_locales, goal_cases)
  case (1 h v p)
  with ps_step_total [OF 1, of p] show ?case by auto
next
  case (2 h v p h' v')
  with ps_step_total [OF 2(1), of p] show ?case by auto
next
  case (3 h v p h' v' w)
  with ps_step_total [OF 3(1), of p] show ?case by auto
next
  case (4 h v p h' v' w)
  with ps_step_total [OF 4(1), of p] show ?case by auto
qed

section \<open>Properties\<close>

text \<open>C31: A \<open>PersistentMap\<close> is an insertion-ordered dictionary value, although its views share and
  mutate one store: whatever sequence of \<open>set\<close>s and \<open>delete\<close>s is applied to whatever versions, the
  newest or an older one, with whatever branches and rebases that causes, every version, old and
  new, iterates as the \<open>dict\<close> the same writes would build, and a program raises \<open>KeyError\<close> exactly
  when it does on dictionaries.\<close>

theorem persistent_map_is_value:
  assumes "list_all (pm_valid h) ms"
  shows "observe pm_items (run_views pm_step h ms ps) = run_values pm_spec (map (pm_items h) ms) ps"
  using assms by (rule pmap.run_refines)

theorem persistent_map_is_value_witness:
  "\<exists>h m. pm_new [(1 :: int, ''a''), (2, ''b'')] [] = (h, m) \<and> list_all (pm_valid h) [m] \<and>
     observe pm_items (run_views pm_step h [m] [(0, PDel 1), (1, PSet 1 ''c''), (0, PSet 2 ''d'')]) =
     Inr [[(1, ''a''), (2, ''b'')], [(2, ''b'')], [(2, ''b''), (1, ''c'')], [(1, ''a''), (2, ''d'')]]"
proof -
  obtain h m where n: "pm_new [(1 :: int, ''a''), (2, ''b'')] [] = (h, m)"
    by (cases "pm_new [(1 :: int, ''a''), (2, ''b'')] []")
  have v: "list_all (pm_valid h) [m]" using new_view(1) [OF n] by simp
  show ?thesis
    using n v persistent_map_is_value [OF v, of "[(0, PDel 1), (1, PSet 1 ''c''), (0, PSet 2 ''d'')]"] new_view(2) [OF n]
    by (simp add: od_get_def od_del_def)
qed

text \<open>The reads of a \<open>PersistentMap\<close> agree with one another: a lookup by binary search over a
  key's chain finds exactly what iteration lists for it, \<open>map[key]\<close> raises \<open>KeyError\<close> exactly for a
  key iteration does not list, no key is listed twice, and \<open>len\<close> is the number of keys listed.\<close>

theorem persistent_map_reads_agree:
  assumes "pm_valid h m"
  shows "pm_getitem h m k = (case od_get (pm_items h m) k of None \<Rightarrow> Inl KeyError | Some v \<Rightarrow> Inr v) \<and>
    distinct (od_keys (pm_items h m)) \<and> pv_size m = length (od_keys (pm_items h m))"
  using assms pm_items_ok [OF assms]
  by (simp add: pm_getitem_def pm_lookup_items pm_valid_def od_ok_def od_keys_def)

theorem persistent_map_reads_agree_witness:
  "\<exists>h m. pm_new [(7 :: int, ''a''), (7, ''b'')] [] = (h, m) \<and> pm_valid h m \<and> pm_getitem h m 7 = Inr ''b'' \<and> pv_size m = 1"
proof -
  obtain h m where n: "pm_new [(7 :: int, ''a''), (7, ''b'')] [] = (h, m)"
    by (cases "pm_new [(7 :: int, ''a''), (7, ''b'')] []")
  show ?thesis
    using n new_view(1,2) [OF n] persistent_map_reads_agree [OF new_view(1) [OF n], of 7]
    by (simp add: od_get_def od_keys_def)
qed

text \<open>C32: A \<open>PersistentMap\<close> does not leak: after any \<open>set\<close> or \<open>delete\<close>, through any view, \<open>entries\<close>
  is the true number of chain entries of every store, and the store of the view written holds at
  most \<open>_REBASE_FACTOR\<close> entries per key it has, plus the slack and three; so does its list of
  insertions, which is what iteration walks.\<close>

theorem persistent_map_memory:
  assumes "list_all store_tight h" "pm_valid h m" "pm_step p h m = Inr (h', m')"
  shows "list_all store_tight h' \<and> pm_valid h' m' \<and>
    (let st = h' ! pv_store m' in
      (\<Sum>k \<in> set (st_keys st). length (chain_of st k)) = st_entries st \<and>
      st_entries st \<le> REBASE_FACTOR * pv_size m' + REBASE_SLACK + 3 \<and> length (st_keys st) \<le> st_entries st)"
proof -
  have t: "list_all store_tight h'" using assms by (rule pm_step_tight)
  have v: "pm_valid h' m'" "newest h' m'" using pm_step_correct(1,3) [OF assms(2,3)] by auto
  have "store_tight (h' ! pv_store m')" using t v by (auto simp: list_all_length pm_valid_def)
  with view_live_items [OF v] t v show ?thesis by (simp add: store_tight_def Let_def)
qed

theorem persistent_map_memory_witness:
  "\<exists>h m h' m'. pm_new [(1 :: int, True)] [] = (h, m) \<and> pm_step (PDel 1) h m = Inr (h', m') \<and>
     list_all store_tight h' \<and> pv_size m' = 0 \<and> st_entries (h' ! pv_store m') \<le> 67"
proof -
  obtain h m where n: "pm_new [(1 :: int, True)] [] = (h, m)" by (cases "pm_new [(1 :: int, True)] []")
  note v = new_view(1,2) [OF n]
  obtain h' m' where s: "pm_step (PDel 1) h m = Inr (h', m')"
    using v by (cases "pm_delete 1 h m") (auto simp: pm_delete_view pm_lookup_items od_get_def split: if_splits prod.splits)
  have t: "list_all store_tight h" using pm_new_tight [of "[]" "[(1 :: int, True)]"] n by simp
  have "pm_items h' m' = []" using pm_step_correct(2) [OF v(1) s] v(2) by (simp add: od_get_def od_del_def)
  then have "pv_size m' = 0" using pm_step_correct(1) [OF v(1) s] by (simp add: pm_valid_def)
  with n s persistent_map_memory [OF t v(1) s] show ?thesis
    by (auto simp: Let_def REBASE_SLACK_def)
qed

text \<open>A \<open>PersistentSet\<close> is an insertion-ordered set value: any program of \<open>add\<close>s and \<open>discard\<close>s
  over any versions succeeds and gives the versions the ordered-set operations give.\<close>

theorem persistent_set_is_value:
  assumes "list_all (pm_valid h) ms"
  shows "observe ps_iter (run_views ps_step h ms ps) = run_values ps_spec (map (ps_iter h) ms) ps"
  using assms by (rule pset.run_refines)

theorem persistent_set_is_value_witness:
  "\<exists>h m. ps_new [3 :: int, 5] [] = (h, m) \<and> list_all (pm_valid h) [m] \<and>
     observe ps_iter (run_views ps_step h [m] [(0, SDiscard 3), (1, SAdd 3), (0, SAdd 5)]) =
     Inr [[3, 5], [5], [5, 3], [3, 5]]"
proof -
  obtain h m where n: "ps_new [3 :: int, 5] [] = (h, m)" by (cases "ps_new [3 :: int, 5] []")
  then have n': "pm_new [(3, ()), (5, ())] [] = (h, m)" by (simp add: ps_new_def)
  have v: "list_all (pm_valid h) [m]" using new_view(1) [OF n'] by simp
  have "ps_iter h m = [3, 5]" using new_view(2) [OF n'] by (simp add: ps_iter_def od_keys_def)
  with n v persistent_set_is_value [OF v, of "[(0, SDiscard 3), (1, SAdd 3), (0, SAdd 5)]"] show ?thesis
    by (simp add: os_add_def os_discard_def)
qed

end
