(* ===== verification/Order_Lifecycle.thy ===== *)
theory Order_Lifecycle
  imports Decimals
begin

text \<open>
  \<open>alphalab/core/lifecycle.py\<close> and the enumerations it uses of \<open>alphalab/core/enums.py\<close>: the order
  statuses, the events a venue can report, the table of legal transitions, the statuses reachable
  from each status, and the classification of a status event.

  \<open>status_machine\<close> is the interface the OMS and the venue boundary rely on: the statuses an order
  goes through are a path of the declared successors, terminal statuses have none, and the closure
  is reachability along them.
\<close>

section \<open>Statuses and events\<close>

datatype side = BUY | SELL

datatype order_status =
    NEW | PENDING | ACCEPTED | PARTIALLY_FILLED | FILLED | CANCEL_PENDING | CANCELLED | REJECTED | EXPIRED

datatype event_kind =
    ORDER_ACCEPTED | ORDER_REJECTED | ORDER_PARTIALLY_FILLED | ORDER_FILLED | ORDER_CANCELLED
  | ORDER_EXPIRED | ORDER_REPLACED | ORDER_CANCEL_REJECTED
  | POSITION_CHANGED | BALANCE_CHANGED | BROKER_DISCONNECTED | BROKER_CONNECTED

text \<open>Iterating the enumeration class, \<open>for start in OrderStatus\<close>.\<close>

instantiation order_status :: enum
begin

definition "Enum.enum = [NEW, PENDING, ACCEPTED, PARTIALLY_FILLED, FILLED, CANCEL_PENDING, CANCELLED, REJECTED, EXPIRED]"

definition "Enum.enum_all P = (\<forall>s \<in> set (Enum.enum :: order_status list). P s)"

definition "Enum.enum_ex P = (\<exists>s \<in> set (Enum.enum :: order_status list). P s)"

instance
proof
  have all: "set (Enum.enum :: order_status list) = UNIV"
  proof (intro equalityI subsetI UNIV_I)
    show "x \<in> set Enum.enum" for x :: order_status by (cases x) (simp_all add: enum_order_status_def)
  qed
  then show "(UNIV :: order_status set) = set Enum.enum" by simp
  show "distinct (Enum.enum :: order_status list)" by (simp add: enum_order_status_def)
  show "Enum.enum_all P = Ball (UNIV :: order_status set) P" for P
    unfolding enum_all_order_status_def all by simp
  show "Enum.enum_ex P = Bex (UNIV :: order_status set) P" for P
    unfolding enum_ex_order_status_def all by simp
qed

end

definition FILL_EVENT_KINDS :: "event_kind set" where
  "FILL_EVENT_KINDS = {ORDER_PARTIALLY_FILLED, ORDER_FILLED}"

definition STATUS_EVENT_KINDS :: "event_kind set" where
  "STATUS_EVENT_KINDS = {ORDER_ACCEPTED, ORDER_REJECTED, ORDER_CANCELLED, ORDER_EXPIRED, ORDER_CANCEL_REJECTED}"

definition ORDER_EVENT_KINDS :: "event_kind set" where
  "ORDER_EVENT_KINDS = FILL_EVENT_KINDS \<union> STATUS_EVENT_KINDS \<union> {ORDER_REPLACED}"

definition ACCOUNT_EVENT_KINDS :: "event_kind set" where
  "ACCOUNT_EVENT_KINDS = {POSITION_CHANGED, BALANCE_CHANGED}"

definition CONNECTIVITY_EVENT_KINDS :: "event_kind set" where
  "CONNECTIVITY_EVENT_KINDS = {BROKER_DISCONNECTED, BROKER_CONNECTED}"

definition TERMINAL_ORDER_STATUSES :: "order_status set" where
  "TERMINAL_ORDER_STATUSES = {FILLED, CANCELLED, REJECTED, EXPIRED}"

definition WORKING_ORDER_STATUSES :: "order_status set" where
  "WORKING_ORDER_STATUSES = set Enum.enum - TERMINAL_ORDER_STATUSES"

definition CANCEL_REQUESTABLE_STATUSES :: "order_status set" where
  "CANCEL_REQUESTABLE_STATUSES = {NEW, PENDING, ACCEPTED, PARTIALLY_FILLED}"

lemmas kind_sets = FILL_EVENT_KINDS_def STATUS_EVENT_KINDS_def ORDER_EVENT_KINDS_def
  ACCOUNT_EVENT_KINDS_def CONNECTIVITY_EVENT_KINDS_def

lemmas status_sets = TERMINAL_ORDER_STATUSES_def WORKING_ORDER_STATUSES_def
  CANCEL_REQUESTABLE_STATUSES_def enum_order_status_def

section \<open>The transition table\<close>

definition ORDER_TRANSITIONS :: "order_status \<Rightarrow> event_kind \<Rightarrow> order_status option" where
  "ORDER_TRANSITIONS s =
     (case s of
        NEW \<Rightarrow> [ORDER_ACCEPTED \<mapsto> ACCEPTED, ORDER_REJECTED \<mapsto> REJECTED, ORDER_CANCELLED \<mapsto> CANCELLED,
                ORDER_EXPIRED \<mapsto> EXPIRED, ORDER_REPLACED \<mapsto> NEW]
      | PENDING \<Rightarrow> [ORDER_ACCEPTED \<mapsto> ACCEPTED, ORDER_REJECTED \<mapsto> REJECTED, ORDER_CANCELLED \<mapsto> CANCELLED,
                ORDER_EXPIRED \<mapsto> EXPIRED, ORDER_REPLACED \<mapsto> PENDING]
      | ACCEPTED \<Rightarrow> [ORDER_REJECTED \<mapsto> REJECTED, ORDER_PARTIALLY_FILLED \<mapsto> PARTIALLY_FILLED,
                ORDER_FILLED \<mapsto> FILLED, ORDER_CANCELLED \<mapsto> CANCELLED, ORDER_EXPIRED \<mapsto> EXPIRED,
                ORDER_REPLACED \<mapsto> ACCEPTED]
      | PARTIALLY_FILLED \<Rightarrow> [ORDER_PARTIALLY_FILLED \<mapsto> PARTIALLY_FILLED, ORDER_FILLED \<mapsto> FILLED,
                ORDER_CANCELLED \<mapsto> CANCELLED, ORDER_EXPIRED \<mapsto> EXPIRED, ORDER_REPLACED \<mapsto> PARTIALLY_FILLED]
      | CANCEL_PENDING \<Rightarrow> [ORDER_REJECTED \<mapsto> REJECTED, ORDER_PARTIALLY_FILLED \<mapsto> CANCEL_PENDING,
                ORDER_FILLED \<mapsto> FILLED, ORDER_CANCELLED \<mapsto> CANCELLED, ORDER_EXPIRED \<mapsto> EXPIRED,
                ORDER_REPLACED \<mapsto> CANCEL_PENDING, ORDER_CANCEL_REJECTED \<mapsto> ACCEPTED]
      | _ \<Rightarrow> Map.empty)"

definition is_terminal_status :: "order_status \<Rightarrow> bool" where
  "is_terminal_status status = (status \<in> TERMINAL_ORDER_STATUSES)"

definition working_status_for :: "decimal \<Rightarrow> order_status res" where
  "working_status_for filled_quantity =
     rbind (dec_lt dec_zero filled_quantity) (\<lambda>traded. Inr (if traded then PARTIALLY_FILLED else ACCEPTED))"

definition next_order_status :: "order_status \<Rightarrow> event_kind \<Rightarrow> decimal \<Rightarrow> order_status option res" where
  "next_order_status status event filled_quantity =
     (case ORDER_TRANSITIONS status event of
        None \<Rightarrow> Inr None
      | Some target \<Rightarrow>
          if event = ORDER_CANCEL_REJECTED then rbind (working_status_for filled_quantity) (\<lambda>s. Inr (Some s))
          else if event = ORDER_REJECTED then
            rbind (dec_lt dec_zero filled_quantity) (\<lambda>traded. Inr (if traded then None else Some target))
          else Inr (Some target))"

definition successors :: "order_status \<Rightarrow> order_status set" where
  "successors status =
     (let row = {t. \<exists>e \<in> ORDER_EVENT_KINDS. ORDER_TRANSITIONS status e = Some t};
          row = (if status \<in> CANCEL_REQUESTABLE_STATUSES then insert CANCEL_PENDING row else row)
      in if status = CANCEL_PENDING then insert PARTIALLY_FILLED row else row)"

section \<open>The closure\<close>

text \<open>
  The worklist loop of \<open>_closure\<close>. The frontier is popped at its end; a \<open>frozenset\<close> is walked in
  the order of the enumeration, one of the orders Python may choose.
\<close>

definition successor_list :: "order_status \<Rightarrow> order_status list" where
  "successor_list status = filter (\<lambda>t. t \<in> successors status) Enum.enum"

function closure_loop :: "order_status list \<Rightarrow> order_status list \<Rightarrow> order_status list" where
  "closure_loop seen frontier =
     (if frontier = [] then seen
      else
        let status = last frontier; frontier = butlast frontier in
        if status \<in> set seen then closure_loop seen frontier
        else closure_loop (seen @ [status]) (frontier @ successor_list status))"
  by pat_completeness auto
termination
proof (relation "measures [\<lambda>(seen, frontier). card (UNIV - set seen), \<lambda>(seen, frontier). length frontier]")
  show "wf (measures [\<lambda>(seen, frontier). card (UNIV - set seen), \<lambda>(seen, frontier). length frontier])"
    by simp
  show "\<And>seen frontier x y. frontier \<noteq> [] \<Longrightarrow> x = last frontier \<Longrightarrow> y = butlast frontier \<Longrightarrow> x \<in> set seen \<Longrightarrow>
      ((seen, y), (seen, frontier)) \<in> measures [\<lambda>(seen, frontier). card (UNIV - set seen), \<lambda>(seen, frontier). length frontier]"
    by simp
  have less: "card (UNIV - set (seen @ [x])) < card (UNIV - set seen)" if "x \<notin> set seen" for seen and x :: order_status
    using that by (intro psubset_card_mono) auto
  show "\<And>seen frontier x y. frontier \<noteq> [] \<Longrightarrow> x = last frontier \<Longrightarrow> y = butlast frontier \<Longrightarrow> x \<notin> set seen \<Longrightarrow>
      ((seen @ [x], y @ successor_list x), (seen, frontier))
        \<in> measures [\<lambda>(seen, frontier). card (UNIV - set seen), \<lambda>(seen, frontier). length frontier]"
    using less by (simp del: set_append)
qed

declare closure_loop.simps [simp del]

definition reachable_statuses :: "order_status \<Rightarrow> order_status set" where
  "reachable_statuses status = set (closure_loop [] (successor_list status))"

section \<open>Classification\<close>

datatype classification = TRANSITION | DUPLICATE | STALE | CONFLICT

definition reported_status :: "event_kind \<Rightarrow> order_status res" where
  "reported_status event =
     (case [ORDER_ACCEPTED \<mapsto> ACCEPTED, ORDER_REJECTED \<mapsto> REJECTED, ORDER_CANCELLED \<mapsto> CANCELLED,
            ORDER_EXPIRED \<mapsto> EXPIRED] event of
        None \<Rightarrow> Inl KeyError
      | Some s \<Rightarrow> Inr s)"

definition classify_order_event ::
  "order_status \<Rightarrow> event_kind \<Rightarrow> decimal \<Rightarrow> (classification \<times> order_status) res" where
  "classify_order_event status event filled_quantity =
     (if event \<notin> STATUS_EVENT_KINDS then Inl ValueError
      else
        rbind (next_order_status status event filled_quantity) (\<lambda>target.
          case target of
            Some t \<Rightarrow> Inr (TRANSITION, t)
          | None \<Rightarrow>
              rbind (if event = ORDER_CANCEL_REJECTED then working_status_for filled_quantity
                     else reported_status event) (\<lambda>reported.
                Inr (if reported = status then DUPLICATE
                     else if status \<in> reachable_statuses reported then STALE
                     else CONFLICT, reported))))"

section \<open>Moves\<close>

text \<open>The moves an order can make: a legal event, at some filled quantity, or a cancel request.\<close>

inductive order_move :: "order_status \<Rightarrow> order_status \<Rightarrow> bool" where
  Event: "next_order_status s e q = Inr (Some t) \<Longrightarrow> order_move s t"
| Cancel_request: "s \<in> CANCEL_REQUESTABLE_STATUSES \<Longrightarrow> order_move s CANCEL_PENDING"

inductive_simps order_move_iff: "order_move s t"

lemma next_status_cases:
  assumes "next_order_status s e q = Inr (Some t)"
  obtains (Table) "ORDER_TRANSITIONS s e = Some t" "e \<noteq> ORDER_CANCEL_REJECTED"
  | (Refused_cancel) "e = ORDER_CANCEL_REJECTED" "s = CANCEL_PENDING" "t = ACCEPTED \<or> t = PARTIALLY_FILLED"
  using assms
  by (cases s; cases e)
    (auto simp: next_order_status_def ORDER_TRANSITIONS_def working_status_for_def rbind_eq_Inr split: if_splits)

lemma table_order_event: "ORDER_TRANSITIONS s e = Some t \<Longrightarrow> e \<in> ORDER_EVENT_KINDS"
  by (cases s; cases e) (simp_all add: ORDER_TRANSITIONS_def kind_sets)

lemma table_next:
  assumes "ORDER_TRANSITIONS s e = Some t"
  shows "next_order_status s e dec_zero = Inr (Some t)"
  using assms by (cases s; cases e) (simp_all add: next_order_status_def ORDER_TRANSITIONS_def working_status_for_def)

lemma move_successors: "order_move s t \<longleftrightarrow> t \<in> successors s"
proof
  assume "order_move s t"
  then show "t \<in> successors s"
  proof cases
    case (Event e q)
    have row: "ORDER_TRANSITIONS CANCEL_PENDING ORDER_CANCEL_REJECTED = Some ACCEPTED"
      by (simp add: ORDER_TRANSITIONS_def)
    from Event show ?thesis
    proof (cases rule: next_status_cases)
      case Table
      with table_order_event [OF Table(1)] show ?thesis by (auto simp: successors_def Let_def)
    next
      case Refused_cancel
      with row table_order_event [OF row] show ?thesis
        by (auto simp: successors_def Let_def CANCEL_REQUESTABLE_STATUSES_def)
    qed
  qed (auto simp: successors_def Let_def)
next
  assume t: "t \<in> successors s"
  have refused: "next_order_status CANCEL_PENDING ORDER_CANCEL_REJECTED dec_one = Inr (Some PARTIALLY_FILLED)"
    by (simp add: next_order_status_def ORDER_TRANSITIONS_def working_status_for_def align_def)
  from t show "order_move s t"
    by (auto simp: successors_def Let_def split: if_splits dest: table_next
      intro: order_move.intros Event [OF refused])
qed

section \<open>The interface\<close>

locale status_machine =
  fixes succ :: "'s \<Rightarrow> 's set" and reach :: "'s \<Rightarrow> 's set" and terminal :: "'s set"
  assumes reach_closure: "reach s = {t. (\<lambda>a b. b \<in> succ a)\<^sup>+\<^sup>+ s t}"
    and terminal_succ: "s \<in> terminal \<Longrightarrow> succ s = {}"
begin

definition history :: "'s list \<Rightarrow> bool" where
  "history ss \<longleftrightarrow> successively (\<lambda>a b. b \<in> succ a) ss"

text \<open>An order can still reach, from a status it held, every status it held later.\<close>

lemma history_reach: "history ss \<Longrightarrow> i < j \<Longrightarrow> j < length ss \<Longrightarrow> ss ! j \<in> reach (ss ! i)"
proof (induction j)
  case (Suc j)
  have step: "ss ! Suc j \<in> succ (ss ! j)"
    using Suc.prems by (simp add: history_def successively_conv_nth)
  show ?case
  proof (cases "i = j")
    case True
    with step show ?thesis by (auto simp: reach_closure)
  next
    case False
    with Suc have "ss ! j \<in> reach (ss ! i)" by simp
    with step show ?thesis by (auto simp: reach_closure intro: tranclp.trancl_into_trancl)
  qed
qed simp

lemma history_terminal: "history ss \<Longrightarrow> i < length ss \<Longrightarrow> ss ! i \<in> terminal \<Longrightarrow> i = length ss - 1"
proof (rule ccontr)
  assume h: "history ss" and i: "i < length ss" "ss ! i \<in> terminal" and n: "i \<noteq> length ss - 1"
  then have "ss ! Suc i \<in> succ (ss ! i)" by (simp add: history_def successively_conv_nth)
  with terminal_succ [OF i(2)] show False by simp
qed

lemma terminal_reach: "s \<in> terminal \<Longrightarrow> reach s = {}"
  using terminal_succ [of s] by (auto simp: reach_closure dest: tranclpD)

lemma reach_trans: "t \<in> reach s \<Longrightarrow> u \<in> reach t \<Longrightarrow> u \<in> reach s"
  by (auto simp: reach_closure)

end

section \<open>The closure is reachability\<close>

lemma closure_loop_sound:
  "\<forall>t \<in> set seen \<union> set frontier. order_move\<^sup>+\<^sup>+ s t \<Longrightarrow> \<forall>t \<in> set (closure_loop seen frontier). order_move\<^sup>+\<^sup>+ s t"
proof (induction seen frontier rule: closure_loop.induct)
  case (1 seen frontier)
  show ?case
  proof (cases "frontier = []")
    case True
    with 1(3) show ?thesis by (subst closure_loop.simps) simp
  next
    case False
    have l: "last frontier \<in> set frontier" using False by simp
    have b: "set (butlast frontier) \<subseteq> set frontier" by (auto dest: in_set_butlastD)
    show ?thesis
    proof (cases "last frontier \<in> set seen")
      case True
      with 1(1) [OF False refl refl True] 1(3) False b show ?thesis
        by (subst closure_loop.simps) (auto simp: Let_def)
    next
      case unseen: False
      have "\<forall>t \<in> set (seen @ [last frontier]) \<union> set (butlast frontier @ successor_list (last frontier)). order_move\<^sup>+\<^sup>+ s t"
        using 1(3) l b by (auto simp: successor_list_def move_successors [symmetric] intro: tranclp.trancl_into_trancl)
      with 1(2) [OF False refl refl unseen] False unseen show ?thesis
        by (subst closure_loop.simps) (auto simp: Let_def)
    qed
  qed
qed

lemma closure_loop_complete:
  "\<forall>t \<in> set seen. successors t \<subseteq> set seen \<union> set frontier \<Longrightarrow>
   (\<forall>t \<in> set (closure_loop seen frontier). successors t \<subseteq> set (closure_loop seen frontier)) \<and>
   set seen \<union> set frontier \<subseteq> set (closure_loop seen frontier)"
proof (induction seen frontier rule: closure_loop.induct)
  case (1 seen frontier)
  show ?case
  proof (cases "frontier = []")
    case True
    with 1(3) show ?thesis by (subst (1 2 3) closure_loop.simps) simp
  next
    case False
    have f: "set frontier = insert (last frontier) (set (butlast frontier))"
      using False by (metis append_butlast_last_id insert_is_Un list.simps(15) rotate1.simps(2) set_rotate1)
    show ?thesis
    proof (cases "last frontier \<in> set seen")
      case True
      have "closure_loop seen frontier = closure_loop seen (butlast frontier)"
        using False True by (subst closure_loop.simps) (simp add: Let_def)
      with 1(1) [OF False refl refl True] 1(3) True f show ?thesis by auto
    next
      case unseen: False
      have eq: "closure_loop seen frontier =
          closure_loop (seen @ [last frontier]) (butlast frontier @ successor_list (last frontier))"
        using False unseen by (subst closure_loop.simps) (simp add: Let_def)
      have "successors (last frontier) \<subseteq> set (successor_list (last frontier))"
        by (simp add: successor_list_def enum_UNIV)
      with 1(3) f have "\<forall>t \<in> set (seen @ [last frontier]). successors t \<subseteq>
          set (seen @ [last frontier]) \<union> set (butlast frontier @ successor_list (last frontier))" by auto
      from 1(2) [OF False refl refl unseen this] f show ?thesis unfolding eq by auto
    qed
  qed
qed

lemma reachable_closure: "reachable_statuses s = {t. order_move\<^sup>+\<^sup>+ s t}"
proof (intro equalityI subsetI)
  fix t assume t: "t \<in> reachable_statuses s"
  have "\<forall>u \<in> set [] \<union> set (successor_list s). order_move\<^sup>+\<^sup>+ s u"
    by (auto simp: successor_list_def move_successors [symmetric])
  from closure_loop_sound [OF this] t show "t \<in> {t. order_move\<^sup>+\<^sup>+ s t}" by (simp add: reachable_statuses_def)
next
  fix t assume "t \<in> {t. order_move\<^sup>+\<^sup>+ s t}"
  then have "order_move\<^sup>+\<^sup>+ s t" by simp
  then show "t \<in> reachable_statuses s"
  proof induction
    case (base t)
    then show ?case
      using closure_loop_complete [of "[]" "successor_list s"]
      by (auto simp: reachable_statuses_def successor_list_def move_successors enum_UNIV)
  next
    case (step t u)
    then show ?case
      using closure_loop_complete [of "[]" "successor_list s"] by (auto simp: reachable_statuses_def move_successors)
  qed
qed

lemma move_relation: "(\<lambda>a b. b \<in> successors a) = order_move"
  by (simp add: fun_eq_iff move_successors)

interpretation order_status: status_machine successors reachable_statuses TERMINAL_ORDER_STATUSES
proof unfold_locales
  show "reachable_statuses s = {t. (\<lambda>a b. b \<in> successors a)\<^sup>+\<^sup>+ s t}" for s
    unfolding move_relation by (rule reachable_closure)
  show "s \<in> TERMINAL_ORDER_STATUSES \<Longrightarrow> successors s = {}" for s
    by (auto simp: TERMINAL_ORDER_STATUSES_def successors_def ORDER_TRANSITIONS_def CANCEL_REQUESTABLE_STATUSES_def)
qed

section \<open>Properties\<close>

lemma classify_cases:
  assumes "classify_order_event s e q = Inr (c, r)"
  obtains (Transition) "next_order_status s e q = Inr (Some r)" "c = TRANSITION"
  | (Held) "next_order_status s e q = Inr None"
      "c = (if r = s then DUPLICATE else if s \<in> reachable_statuses r then STALE else CONFLICT)"
proof -
  from assms obtain t where t: "next_order_status s e q = Inr t"
    by (auto simp: classify_order_event_def rbind_eq_Inr split: if_splits)
  show thesis
  proof (cases t)
    case None
    from assms obtain r' where "Inr (if r' = s then DUPLICATE else if s \<in> reachable_statuses r' then STALE else CONFLICT, r') =
        (Inr (c, r) :: (classification \<times> order_status) res)"
      by (simp only: classify_order_event_def t None rbind_Inr option.case guard_eq_Inr) (auto elim: rbind_InrE)
    with t None show thesis by (intro Held) auto
  next
    case (Some u)
    with assms t show thesis by (intro Transition) (simp_all add: classify_order_event_def split: if_splits)
  qed
qed

lemma reported_total: "e \<in> STATUS_EVENT_KINDS \<Longrightarrow> e \<noteq> ORDER_CANCEL_REJECTED \<Longrightarrow> \<exists>r. reported_status e = Inr r"
  by (auto simp: STATUS_EVENT_KINDS_def reported_status_def)

lemma working_total: "is_finite q \<Longrightarrow> \<exists>r. working_status_for q = Inr r"
  by (simp add: working_status_for_def)

lemma next_status_total: "is_finite q \<Longrightarrow> \<exists>t. next_order_status s e q = Inr t"
  by (auto simp: next_order_status_def working_status_for_def split: option.split)

text \<open>The table of reachable statuses that stale reports are recognised by is exactly
  reachability: a status is listed for another if and only if some sequence of legal events, at
  whatever filled quantities, and of cancel requests leads there.\<close>

theorem closure_is_reachability: "t \<in> reachable_statuses s \<longleftrightarrow> order_move\<^sup>+\<^sup>+ s t"
  by (simp add: reachable_closure)

text \<open>C13: No report about an order is ever called a conflict because it was late: if an order went
  through a sequence of statuses by legal moves and a status event arrives, the classification
  succeeds, and when it reports a status the order held before, it is a transition, a duplicate or a
  stale report; a conflict means the order cannot get from the reported status to where it is.\<close>

theorem late_report_never_conflict:
  assumes "successively order_move (ss @ [s])" "e \<in> STATUS_EVENT_KINDS" "is_finite q"
  shows "\<exists>c r. classify_order_event s e q = Inr (c, r) \<and>
    (r \<in> set (ss @ [s]) \<longrightarrow> c \<noteq> CONFLICT) \<and> (c = CONFLICT \<longrightarrow> \<not> order_move\<^sup>*\<^sup>* r s)"
proof -
  obtain t where t: "next_order_status s e q = Inr t" using next_status_total [OF assms(3)] by auto
  obtain r' where r': "(if e = ORDER_CANCEL_REJECTED then working_status_for q else reported_status e) = Inr r'"
    using reported_total [OF assms(2)] working_total [OF assms(3)] by (cases "e = ORDER_CANCEL_REJECTED") auto
  obtain c r where cr: "classify_order_event s e q = Inr (c, r)"
    using assms(2) by (cases t) (simp_all add: classify_order_event_def t r')
  have hist: "order_status.history (ss @ [s])"
    using assms(1) unfolding order_status.history_def move_relation .
  have "s \<in> reachable_statuses r" if r: "r \<in> set ss"
  proof -
    from r obtain i where i: "i < length ss" "ss ! i = r" by (auto simp: in_set_conv_nth)
    then show ?thesis using order_status.history_reach [OF hist, of i "length ss"] by (simp add: nth_append)
  qed
  with cr have "r \<in> set (ss @ [s]) \<longrightarrow> c \<noteq> CONFLICT" by (cases rule: classify_cases) auto
  moreover have "c = CONFLICT \<longrightarrow> \<not> order_move\<^sup>*\<^sup>* r s"
    using cr by (cases rule: classify_cases) (auto simp: reachable_closure dest: rtranclpD split: if_splits)
  ultimately show ?thesis using cr by blast
qed

theorem late_report_never_conflict_witness:
  "successively order_move ([NEW, ACCEPTED] @ [CANCEL_PENDING]) \<and>
   classify_order_event CANCEL_PENDING ORDER_ACCEPTED dec_zero = Inr (STALE, ACCEPTED)"
proof -
  have h: "successively order_move ([NEW, ACCEPTED] @ [CANCEL_PENDING])"
  proof -
    have "order_move NEW ACCEPTED"
      by (rule Event [of _ ORDER_ACCEPTED dec_zero]) (simp add: next_order_status_def ORDER_TRANSITIONS_def)
    moreover have "order_move ACCEPTED CANCEL_PENDING"
      by (rule Cancel_request) (simp add: CANCEL_REQUESTABLE_STATUSES_def)
    ultimately show ?thesis by simp
  qed
  have "ORDER_ACCEPTED \<in> STATUS_EVENT_KINDS" by (simp add: STATUS_EVENT_KINDS_def)
  from late_report_never_conflict [OF h this, of dec_zero] obtain c r
    where c: "classify_order_event CANCEL_PENDING ORDER_ACCEPTED dec_zero = Inr (c, r)"
      and n: "r \<in> {NEW, ACCEPTED, CANCEL_PENDING} \<longrightarrow> c \<noteq> CONFLICT" by auto
  have "next_order_status CANCEL_PENDING ORDER_ACCEPTED dec_zero = Inr None"
    by (simp add: next_order_status_def ORDER_TRANSITIONS_def)
  with c n h show ?thesis
    by (auto simp: classify_order_event_def STATUS_EVENT_KINDS_def reported_status_def split: if_splits)
qed

text \<open>A closed order stays closed and a working one can always be closed: no event, at any
  filled quantity, moves an order out of a terminal status, no move leads out of one, and from every
  other status an order can still be cancelled, expired and filled.\<close>

theorem terminal_statuses_absorb:
  "(if s \<in> TERMINAL_ORDER_STATUSES
    then (\<forall>e q. next_order_status s e q = Inr None) \<and> reachable_statuses s = {}
    else s \<in> WORKING_ORDER_STATUSES \<and> {FILLED, CANCELLED, EXPIRED} \<subseteq> reachable_statuses s)"
proof (cases "s \<in> TERMINAL_ORDER_STATUSES")
  case True
  then show ?thesis
    using order_status.terminal_reach [OF True]
    by (auto simp: TERMINAL_ORDER_STATUSES_def next_order_status_def ORDER_TRANSITIONS_def)
next
  case False
  have accepted: "ACCEPTED \<in> reachable_statuses NEW" "ACCEPTED \<in> reachable_statuses PENDING"
    by (auto simp: reachable_closure move_successors successors_def ORDER_TRANSITIONS_def ORDER_EVENT_KINDS_def
      STATUS_EVENT_KINDS_def Let_def intro!: tranclp.r_into_trancl)
  have direct: "t \<in> reachable_statuses s" if "ORDER_TRANSITIONS s e = Some t" for s e t
    using that by (auto simp: reachable_closure intro: tranclp.r_into_trancl Event table_next)
  have filled: "FILLED \<in> reachable_statuses ACCEPTED" by (rule direct [of _ ORDER_FILLED]) (simp add: ORDER_TRANSITIONS_def)
  have "ORDER_TRANSITIONS s ORDER_CANCELLED = Some CANCELLED" "ORDER_TRANSITIONS s ORDER_EXPIRED = Some EXPIRED"
    using False by (cases s; simp add: TERMINAL_ORDER_STATUSES_def ORDER_TRANSITIONS_def)+
  then have "CANCELLED \<in> reachable_statuses s" "EXPIRED \<in> reachable_statuses s" by (auto intro: direct)
  moreover have "FILLED \<in> reachable_statuses s"
    using False filled order_status.reach_trans [OF accepted(1) filled] order_status.reach_trans [OF accepted(2) filled]
      direct [of s ORDER_FILLED FILLED]
    by (cases s) (simp_all add: TERMINAL_ORDER_STATUSES_def ORDER_TRANSITIONS_def)
  ultimately show ?thesis using False by (simp add: WORKING_ORDER_STATUSES_def enum_UNIV)
qed

end
