(* ===== verification/Order_Terms.thy ===== *)
theory Order_Terms
  imports Order_Lifecycle Arithmetic
begin

text \<open>
  \<open>alphalab/common/order_terms.py\<close>: how an order asks to be executed. \<open>make_terms\<close> is
  \<open>OrderTerms.__init__\<close> with its \<open>__post_init__\<close>; the class methods build through it, and
  \<open>terms_ok\<close> is what every value of the class satisfies.
\<close>

datatype order_type = MARKET | LIMIT | STOP | STOP_LIMIT

datatype time_in_force = DAY | GTC | IOC | FOK | GTD | OPG | CLS

record order_terms =
  ot_type :: order_type
  ot_limit :: "decimal option"
  ot_stop :: "decimal option"
  ot_tif :: time_in_force
  ot_expire :: "pyfloat option"

definition immediate_lifetimes :: "time_in_force set" where
  "immediate_lifetimes = {IOC, FOK}"

definition auction_lifetimes :: "time_in_force set" where
  "auction_lifetimes = {OPG, CLS}"

definition check_price :: "decimal option \<Rightarrow> unit res" where
  "check_price value =
     (case value of None \<Rightarrow> Inr () | Some d \<Rightarrow> if \<not> is_finite d then Inl AlphaLabValidationError else Inr ())"

definition needs_limit :: "order_type \<Rightarrow> bool" where
  "needs_limit t = (t \<in> {LIMIT, STOP_LIMIT})"

definition needs_stop :: "order_type \<Rightarrow> bool" where
  "needs_stop t = (t \<in> {STOP, STOP_LIMIT})"

definition check_expiry :: "order_terms \<Rightarrow> unit res" where
  "check_expiry t =
     (if ot_tif t = GTD then
        (case ot_expire t of
           None \<Rightarrow> Inl AlphaLabValidationError
         | Some e \<Rightarrow> if \<not> flt_finite e then Inl AlphaLabValidationError else Inr ())
      else
        (case ot_expire t of
           None \<Rightarrow> Inr ()
         | Some e \<Rightarrow>
             if ot_tif t \<noteq> DAY then Inl AlphaLabValidationError
             else if \<not> flt_finite e then Inl AlphaLabValidationError else Inr ()))"

definition post_init :: "order_terms \<Rightarrow> unit res" where
  "post_init t =
     rbind (check_price (ot_limit t)) (\<lambda>_.
     rbind (check_price (ot_stop t)) (\<lambda>_.
       if needs_limit (ot_type t) \<noteq> (ot_limit t \<noteq> None) then Inl AlphaLabValidationError
       else if needs_stop (ot_type t) \<noteq> (ot_stop t \<noteq> None) then Inl AlphaLabValidationError
       else
         rbind (check_expiry t) (\<lambda>_.
           if ot_tif t \<in> auction_lifetimes \<and> needs_stop (ot_type t) then Inl AlphaLabValidationError
           else Inr ())))"

definition make_terms ::
  "order_type \<Rightarrow> decimal option \<Rightarrow> decimal option \<Rightarrow> time_in_force \<Rightarrow> pyfloat option \<Rightarrow> order_terms res" where
  "make_terms ty limit st tif expire =
     (let t = \<lparr>ot_type = ty, ot_limit = limit, ot_stop = st, ot_tif = tif, ot_expire = expire\<rparr>
      in rbind (post_init t) (\<lambda>_. Inr t))"

definition market_terms :: "time_in_force \<Rightarrow> order_terms res" where
  "market_terms tif = make_terms MARKET None None tif None"

definition limit_terms :: "decimal \<Rightarrow> time_in_force \<Rightarrow> pyfloat option \<Rightarrow> order_terms res" where
  "limit_terms price tif expire = make_terms LIMIT (Some price) None tif expire"

definition stop_terms :: "decimal \<Rightarrow> time_in_force \<Rightarrow> pyfloat option \<Rightarrow> order_terms res" where
  "stop_terms price tif expire = make_terms STOP None (Some price) tif expire"

definition stop_limit_terms :: "decimal \<Rightarrow> decimal \<Rightarrow> time_in_force \<Rightarrow> pyfloat option \<Rightarrow> order_terms res" where
  "stop_limit_terms st limit tif expire = make_terms STOP_LIMIT (Some limit) (Some st) tif expire"

definition at_open :: "decimal option \<Rightarrow> order_terms res" where
  "at_open limit = (case limit of None \<Rightarrow> make_terms MARKET None None OPG None
                            | Some l \<Rightarrow> make_terms LIMIT (Some l) None OPG None)"

definition at_close :: "decimal option \<Rightarrow> order_terms res" where
  "at_close limit = (case limit of None \<Rightarrow> make_terms MARKET None None CLS None
                             | Some l \<Rightarrow> make_terms LIMIT (Some l) None CLS None)"

definition is_immediate :: "order_terms \<Rightarrow> bool" where
  "is_immediate t = (ot_tif t \<in> immediate_lifetimes)"

definition is_auction :: "order_terms \<Rightarrow> bool" where
  "is_auction t = (ot_tif t \<in> auction_lifetimes)"

definition rests :: "order_terms \<Rightarrow> bool" where
  "rests t = (if is_immediate t then False else is_auction t \<or> ot_type t \<noteq> MARKET)"

section \<open>What the terms of an order are\<close>

definition terms_ok :: "order_terms \<Rightarrow> bool" where
  "terms_ok t \<longleftrightarrow>
     (ot_limit t \<noteq> None \<longleftrightarrow> ot_type t \<in> {LIMIT, STOP_LIMIT}) \<and>
     (ot_stop t \<noteq> None \<longleftrightarrow> ot_type t \<in> {STOP, STOP_LIMIT}) \<and>
     (\<forall>d. ot_limit t = Some d \<or> ot_stop t = Some d \<longrightarrow> is_finite d) \<and>
     (ot_tif t = GTD \<longrightarrow> ot_expire t \<noteq> None) \<and>
     (\<forall>e. ot_expire t = Some e \<longrightarrow> flt_finite e \<and> ot_tif t \<in> {GTD, DAY}) \<and>
     (ot_tif t \<in> {OPG, CLS} \<longrightarrow> ot_stop t = None)"

lemma check_price_iff: "check_price v = Inr () \<longleftrightarrow> (\<forall>d. v = Some d \<longrightarrow> is_finite d)"
  by (auto simp: check_price_def split: option.split)

lemma check_price_error: "check_price v = Inl e \<Longrightarrow> e = AlphaLabValidationError"
  by (auto simp: check_price_def split: option.splits if_splits)

lemma check_expiry_iff: "check_expiry t = Inr () \<longleftrightarrow>
    (ot_tif t = GTD \<longrightarrow> ot_expire t \<noteq> None) \<and>
    (\<forall>e. ot_expire t = Some e \<longrightarrow> flt_finite e \<and> ot_tif t \<in> {GTD, DAY})"
  by (cases "ot_expire t") (auto simp: check_expiry_def)

lemma check_expiry_error: "check_expiry t = Inl e \<Longrightarrow> e = AlphaLabValidationError"
  by (auto simp: check_expiry_def split: option.splits if_splits)

lemma post_init_iff: "post_init t = Inr () \<longleftrightarrow> terms_ok t"
proof -
  have "post_init t = Inr () \<longleftrightarrow>
      check_price (ot_limit t) = Inr () \<and> check_price (ot_stop t) = Inr () \<and>
      needs_limit (ot_type t) = (ot_limit t \<noteq> None) \<and> needs_stop (ot_type t) = (ot_stop t \<noteq> None) \<and>
      check_expiry t = Inr () \<and> \<not> (ot_tif t \<in> auction_lifetimes \<and> needs_stop (ot_type t))"
  proof -
    have "(\<exists>x. m = Inr x) \<longleftrightarrow> m = Inr ()" for m :: "unit res" by auto
    then show ?thesis by (simp only: post_init_def rbind_eq_Inr guard_eq_Inr simp_thms ex_simps)
  qed
  moreover have "(\<forall>d. ot_limit t = Some d \<or> ot_stop t = Some d \<longrightarrow> is_finite d) \<longleftrightarrow>
      (\<forall>d. ot_limit t = Some d \<longrightarrow> is_finite d) \<and> (\<forall>d. ot_stop t = Some d \<longrightarrow> is_finite d)"
    by blast
  ultimately show ?thesis
    unfolding check_price_iff check_expiry_iff terms_ok_def needs_limit_def needs_stop_def auction_lifetimes_def
    by argo
qed

lemma post_init_error: "post_init t = Inl e \<Longrightarrow> e = AlphaLabValidationError"
  by (auto simp: post_init_def rbind_eq_Inl dest: check_price_error check_expiry_error split: if_splits)

lemma make_terms_iff: "make_terms ty l s f e = Inr t \<longleftrightarrow>
    t = \<lparr>ot_type = ty, ot_limit = l, ot_stop = s, ot_tif = f, ot_expire = e\<rparr> \<and> terms_ok t"
  by (auto simp: make_terms_def Let_def rbind_eq_Inr post_init_iff)

section \<open>Properties\<close>

text \<open>Building order terms succeeds exactly for the terms the class promises, and refuses the
  rest with a validation error: a limit price if and only if the type has one, a stop price if and
  only if the type has one, every price finite, an expiry for good-til-date and for nothing but
  good-til-date and day orders, and no stop in an auction.\<close>

theorem terms_built_are_legal:
  "make_terms ty l s f e =
     (let t = \<lparr>ot_type = ty, ot_limit = l, ot_stop = s, ot_tif = f, ot_expire = e\<rparr>
      in if terms_ok t then Inr t else Inl AlphaLabValidationError)"
proof -
  let ?t = "\<lparr>ot_type = ty, ot_limit = l, ot_stop = s, ot_tif = f, ot_expire = e\<rparr>"
  show ?thesis
  proof (cases "post_init ?t")
    case (Inl x)
    with post_init_error [OF Inl] post_init_iff [of ?t] show ?thesis by (simp add: make_terms_def Let_def)
  next
    case (Inr u)
    with post_init_iff [of ?t] show ?thesis by (simp add: make_terms_def Let_def)
  qed
qed

end
