(* ===== verification/Oms_Order.thy ===== *)
theory Oms_Order
  imports Order_Terms
begin

text \<open>
  \<open>alphalab/oms/order.py\<close> and \<open>alphalab/oms/validation.py\<close>: an order and its lifecycle. Every method
  asks the table of theory \<open>Order_Lifecycle\<close> for its status and adds the arithmetic a status cannot
  express.
\<close>

record order =
  o_id :: string
  o_strategy :: string
  o_asset :: string
  o_side :: side
  o_type :: order_type
  o_status :: order_status
  o_quantity :: decimal
  o_filled :: decimal
  o_remaining :: decimal
  o_limit :: "decimal option"
  o_stop :: "decimal option"
  o_average :: decimal
  o_created :: pyfloat
  o_updated :: pyfloat
  o_metadata :: "(string \<times> string) list"
  o_tif :: time_in_force
  o_expire :: "pyfloat option"
  o_triggered :: "pyfloat option"

definition order_terms_of :: "order \<Rightarrow> order_terms res" where
  "order_terms_of ord = make_terms (o_type ord) (o_limit ord) (o_stop ord) (o_tif ord) (o_expire ord)"

definition is_open :: "order \<Rightarrow> bool" where
  "is_open ord = (o_status ord \<in> WORKING_ORDER_STATUSES)"

definition is_closed :: "order \<Rightarrow> bool" where
  "is_closed ord = (\<not> is_open ord)"

definition fill_ratio :: "dctx \<Rightarrow> order \<Rightarrow> decimal res" where
  "fill_ratio amb ord =
     (if dec_eq (o_quantity ord) dec_zero then Inr dec_zero
      else dec_div amb (o_filled ord) (o_quantity ord))"

section \<open>Transitions\<close>

definition order_next :: "order \<Rightarrow> event_kind \<Rightarrow> order_status res" where
  "order_next ord event =
     rbind (next_order_status (o_status ord) event (o_filled ord)) (\<lambda>target.
       case target of None \<Rightarrow> Inl InvalidTransitionError | Some t \<Rightarrow> Inr t)"

definition order_accept :: "order \<Rightarrow> pyfloat \<Rightarrow> order res" where
  "order_accept ord timestamp =
     rbind (order_next ord ORDER_ACCEPTED) (\<lambda>status. Inr (ord\<lparr>o_status := status, o_updated := timestamp\<rparr>))"

definition order_reject :: "order \<Rightarrow> pyfloat \<Rightarrow> order res" where
  "order_reject ord timestamp =
     rbind (order_next ord ORDER_REJECTED) (\<lambda>status. Inr (ord\<lparr>o_status := status, o_updated := timestamp\<rparr>))"

definition order_cancel :: "order \<Rightarrow> pyfloat \<Rightarrow> order res" where
  "order_cancel ord timestamp =
     rbind (order_next ord ORDER_CANCELLED) (\<lambda>status. Inr (ord\<lparr>o_status := status, o_updated := timestamp\<rparr>))"

definition order_expire :: "order \<Rightarrow> pyfloat \<Rightarrow> order res" where
  "order_expire ord timestamp =
     rbind (order_next ord ORDER_EXPIRED) (\<lambda>status. Inr (ord\<lparr>o_status := status, o_updated := timestamp\<rparr>))"

definition filled_by :: "order \<Rightarrow> decimal \<Rightarrow> decimal \<Rightarrow> (decimal \<times> decimal) res" where
  "filled_by ord fill_qty fill_price =
     rbind (dec_le fill_qty dec_zero) (\<lambda>none.
       if none then Inl InvalidTransitionError
       else
         rbind (dec_add ACCOUNTING_CONTEXT (o_filled ord) fill_qty) (\<lambda>new_filled.
         rbind (dec_mul ACCOUNTING_CONTEXT (o_filled ord) (o_average ord)) (\<lambda>spent.
         rbind (dec_mul ACCOUNTING_CONTEXT fill_qty fill_price) (\<lambda>added.
         rbind (dec_add ACCOUNTING_CONTEXT spent added) (\<lambda>total.
         rbind (dec_div ACCOUNTING_CONTEXT total new_filled) (\<lambda>average.
         rbind (plain average) (\<lambda>new_avg. Inr (new_filled, new_avg))))))))"

definition order_partial_fill :: "order \<Rightarrow> decimal \<Rightarrow> decimal \<Rightarrow> pyfloat \<Rightarrow> order res" where
  "order_partial_fill ord fill_qty fill_price timestamp =
     rbind (order_next ord ORDER_PARTIALLY_FILLED) (\<lambda>status.
     rbind (filled_by ord fill_qty fill_price) (\<lambda>(new_filled, new_avg).
     rbind (dec_le (o_quantity ord) new_filled) (\<lambda>complete.
       if complete then Inl InvalidTransitionError
       else
         rbind (dec_sub ACCOUNTING_CONTEXT (o_quantity ord) new_filled) (\<lambda>remaining.
           Inr (ord\<lparr>o_status := status, o_filled := new_filled, o_remaining := remaining,
                    o_average := new_avg, o_updated := timestamp\<rparr>)))))"

definition order_fill :: "order \<Rightarrow> decimal \<Rightarrow> decimal \<Rightarrow> pyfloat \<Rightarrow> order res" where
  "order_fill ord fill_qty fill_price timestamp =
     rbind (order_next ord ORDER_FILLED) (\<lambda>status.
     rbind (filled_by ord fill_qty fill_price) (\<lambda>(new_filled, new_avg).
       if \<not> dec_eq new_filled (o_quantity ord) then Inl InvalidTransitionError
       else
         rbind (dec_sub ACCOUNTING_CONTEXT (o_quantity ord) new_filled) (\<lambda>remaining.
           Inr (ord\<lparr>o_status := status, o_filled := new_filled, o_remaining := remaining,
                    o_average := new_avg, o_updated := timestamp\<rparr>))))"

definition order_replace :: "order \<Rightarrow> decimal \<Rightarrow> pyfloat \<Rightarrow> decimal option \<Rightarrow> order res" where
  "order_replace ord new_qty timestamp new_limit =
     rbind (order_next ord ORDER_REPLACED) (\<lambda>status.
     rbind (dec_le new_qty (o_filled ord)) (\<lambda>too_small.
       if too_small then Inl InvalidTransitionError
       else
         rbind (dec_sub ACCOUNTING_CONTEXT new_qty (o_filled ord)) (\<lambda>remaining.
           Inr (ord\<lparr>o_status := status, o_quantity := new_qty, o_remaining := remaining,
                    o_limit := (if new_limit \<noteq> None then new_limit else o_limit ord),
                    o_updated := timestamp\<rparr>))))"

section \<open>Validation\<close>

definition validate_order :: "order \<Rightarrow> pyfloat \<Rightarrow> unit res" where
  "validate_order ord current_timestamp =
     rbind (dec_le (o_quantity ord) dec_zero) (\<lambda>b. if b then Inl OrderValidationError else
     if o_type ord = LIMIT \<and> o_limit ord = None then Inl OrderValidationError else
     if o_type ord = MARKET \<and> o_limit ord \<noteq> None then Inl OrderValidationError else
     if o_type ord \<in> {STOP, STOP_LIMIT} \<and> o_stop ord = None then Inl OrderValidationError else
     rbind (dec_lt (o_remaining ord) dec_zero) (\<lambda>b. if b then Inl OrderValidationError else
     rbind (dec_lt (o_quantity ord) (o_filled ord)) (\<lambda>b. if b then Inl OrderValidationError else
     if \<not> is_finite (o_average ord) then Inl OrderValidationError else
     if flt_lt (o_updated ord) (o_created ord) then Inl OrderValidationError else
     if flt_lt (o_updated ord) current_timestamp then Inl OrderValidationError else Inr ())))"

section \<open>The state of an order\<close>

text \<open>The transitions as one type, and the order's quantities and status in agreement.\<close>

datatype order_op =
    Accept pyfloat | Reject pyfloat | Cancel pyfloat | Expire pyfloat
  | Partial_Fill decimal decimal pyfloat | Complete_Fill decimal decimal pyfloat
  | Replace decimal pyfloat "decimal option"

fun order_apply :: "order_op \<Rightarrow> order \<Rightarrow> order res" where
  "order_apply (Accept t) ord = order_accept ord t"
| "order_apply (Reject t) ord = order_reject ord t"
| "order_apply (Cancel t) ord = order_cancel ord t"
| "order_apply (Expire t) ord = order_expire ord t"
| "order_apply (Partial_Fill q p t) ord = order_partial_fill ord q p t"
| "order_apply (Complete_Fill q p t) ord = order_fill ord q p t"
| "order_apply (Replace q t l) ord = order_replace ord q t l"

fun op_event :: "order_op \<Rightarrow> event_kind" where
  "op_event (Accept t) = ORDER_ACCEPTED"
| "op_event (Reject t) = ORDER_REJECTED"
| "op_event (Cancel t) = ORDER_CANCELLED"
| "op_event (Expire t) = ORDER_EXPIRED"
| "op_event (Partial_Fill q p t) = ORDER_PARTIALLY_FILLED"
| "op_event (Complete_Fill q p t) = ORDER_FILLED"
| "op_event (Replace q t l) = ORDER_REPLACED"

fun status_agrees :: "order_status \<Rightarrow> rat \<Rightarrow> rat \<Rightarrow> bool" where
  "status_agrees FILLED filled quantity = (filled = quantity)"
| "status_agrees PARTIALLY_FILLED filled quantity = (0 < filled \<and> filled < quantity)"
| "status_agrees CANCEL_PENDING filled quantity = (filled < quantity)"
| "status_agrees CANCELLED filled quantity = (filled < quantity)"
| "status_agrees EXPIRED filled quantity = (filled < quantity)"
| "status_agrees _ filled quantity = (filled = 0)"

definition order_ok :: "order \<Rightarrow> bool" where
  "order_ok ord \<longleftrightarrow>
     is_finite (o_quantity ord) \<and> is_finite (o_filled ord) \<and> is_finite (o_average ord) \<and>
     0 < dval (o_quantity ord) \<and> 0 \<le> dval (o_filled ord) \<and> dval (o_filled ord) \<le> dval (o_quantity ord) \<and>
     dec_sub ACCOUNTING_CONTEXT (o_quantity ord) (o_filled ord) = Inr (o_remaining ord) \<and>
     status_agrees (o_status ord) (dval (o_filled ord)) (dval (o_quantity ord))"

fun op_finite :: "order_op \<Rightarrow> bool" where
  "op_finite (Partial_Fill q p t) = (is_finite q \<and> is_finite p)"
| "op_finite (Complete_Fill q p t) = (is_finite q \<and> is_finite p)"
| "op_finite (Replace q t l) = is_finite q"
| "op_finite _ = True"

lemma order_next_table:
  assumes "order_next ord e = Inr t" "e \<noteq> ORDER_CANCEL_REJECTED" "is_finite (o_filled ord)"
  shows "ORDER_TRANSITIONS (o_status ord) e = Some t"
    and "e = ORDER_REJECTED \<Longrightarrow> \<not> 0 < dval (o_filled ord)"
    and "next_order_status (o_status ord) e (o_filled ord) = Inr (Some t)"
  using assms by (auto simp: order_next_def next_order_status_def rbind_eq_Inr split: option.splits if_splits)

text \<open>Each row of the table, read as what the status before and after it are.\<close>

lemma table_accepted: "ORDER_TRANSITIONS s ORDER_ACCEPTED = Some t \<longleftrightarrow> s \<in> {NEW, PENDING} \<and> t = ACCEPTED"
  by (cases s) (auto simp: ORDER_TRANSITIONS_def)

lemma table_rejected: "ORDER_TRANSITIONS s ORDER_REJECTED = Some t \<longleftrightarrow>
    s \<in> {NEW, PENDING, ACCEPTED, CANCEL_PENDING} \<and> t = REJECTED"
  by (cases s) (auto simp: ORDER_TRANSITIONS_def)

lemma table_cancelled: "ORDER_TRANSITIONS s ORDER_CANCELLED = Some t \<longleftrightarrow> s \<notin> TERMINAL_ORDER_STATUSES \<and> t = CANCELLED"
  by (cases s) (auto simp: ORDER_TRANSITIONS_def TERMINAL_ORDER_STATUSES_def)

lemma table_expired: "ORDER_TRANSITIONS s ORDER_EXPIRED = Some t \<longleftrightarrow> s \<notin> TERMINAL_ORDER_STATUSES \<and> t = EXPIRED"
  by (cases s) (auto simp: ORDER_TRANSITIONS_def TERMINAL_ORDER_STATUSES_def)

lemma table_partial: "ORDER_TRANSITIONS s ORDER_PARTIALLY_FILLED = Some t \<longleftrightarrow>
    s \<in> {ACCEPTED, PARTIALLY_FILLED, CANCEL_PENDING} \<and> t = (if s = CANCEL_PENDING then CANCEL_PENDING else PARTIALLY_FILLED)"
  by (cases s) (auto simp: ORDER_TRANSITIONS_def)

lemma table_filled: "ORDER_TRANSITIONS s ORDER_FILLED = Some t \<longleftrightarrow>
    s \<in> {ACCEPTED, PARTIALLY_FILLED, CANCEL_PENDING} \<and> t = FILLED"
  by (cases s) (auto simp: ORDER_TRANSITIONS_def)

lemma table_replaced: "ORDER_TRANSITIONS s ORDER_REPLACED = Some t \<longleftrightarrow> s \<notin> TERMINAL_ORDER_STATUSES \<and> t = s"
  by (cases s) (auto simp: ORDER_TRANSITIONS_def TERMINAL_ORDER_STATUSES_def)

lemmas table_rows = table_accepted table_rejected table_cancelled table_expired table_partial table_filled table_replaced

lemma filled_by_ok:
  assumes r: "filled_by ord q p = Inr (nf, na)"
    and fin: "is_finite (o_filled ord)" "is_finite (o_average ord)" "is_finite q" "is_finite p"
    and nn: "0 \<le> dval (o_filled ord)"
  shows "is_finite nf" "is_finite na" "0 < dval nf" "0 < dval q"
    "dec_add ACCOUNTING_CONTEXT (o_filled ord) q = Inr nf"
proof -
  from r fin(3) obtain a b c d where q: "\<not> dval q \<le> dval dec_zero"
    and nf: "dec_add ACCOUNTING_CONTEXT (o_filled ord) q = Inr nf"
    and a: "dec_mul ACCOUNTING_CONTEXT (o_filled ord) (o_average ord) = Inr a"
    and b: "dec_mul ACCOUNTING_CONTEXT q p = Inr b"
    and c: "dec_add ACCOUNTING_CONTEXT a b = Inr c"
    and d: "dec_div ACCOUNTING_CONTEXT c nf = Inr d" and na: "plain d = Inr na"
    by (auto simp: filled_by_def rbind_eq_Inr split: if_splits)
  show q': "0 < dval q" using q by simp
  show fnf: "is_finite nf" using dec_add_finite [OF fin(1,3) nf] .
  have fc: "is_finite c"
    using dec_add_finite [OF dec_mul_finite [OF fin(1,2) a] dec_mul_finite [OF fin(3,4) b] c] .
  show "is_finite na" using plain_finite [OF dec_div_finite [OF fc fnf d] na] .
  have "dec_fix ACCOUNTING_CONTEXT (add_exact (o_filled ord) q) = Inr nf"
    using nf fin by (simp add: dec_add_fix)
  then have "0 \<le> dval nf"
    using dec_fix_value_nonneg [of "add_exact (o_filled ord) q" ACCOUNTING_CONTEXT nf] fin q' nn by simp
  with dec_div_by_zero [OF fc fnf d] show "0 < dval nf" by simp
  show "dec_add ACCOUNTING_CONTEXT (o_filled ord) q = Inr nf" by (rule nf)
qed

lemma order_okD:
  assumes "order_ok ord"
  shows "is_finite (o_quantity ord)" "is_finite (o_filled ord)" "is_finite (o_average ord)"
    "0 < dval (o_quantity ord)" "0 \<le> dval (o_filled ord)" "dval (o_filled ord) \<le> dval (o_quantity ord)"
    "status_agrees (o_status ord) (dval (o_filled ord)) (dval (o_quantity ord))"
  using assms by (auto simp: order_ok_def)

lemma status_change_ok:
  assumes "order_ok ord" "status_agrees s (dval (o_filled ord)) (dval (o_quantity ord))"
  shows "order_ok (ord\<lparr>o_status := s, o_updated := t\<rparr>)"
  using assms by (simp add: order_ok_def)

lemma working_agrees: "order_ok ord \<Longrightarrow> o_status ord \<notin> TERMINAL_ORDER_STATUSES \<Longrightarrow> dval (o_filled ord) < dval (o_quantity ord)"
  using order_okD [of ord] by (cases "o_status ord") (auto simp: TERMINAL_ORDER_STATUSES_def)

lemma order_apply_ok:
  assumes ok: "order_ok ord" and fin: "op_finite op" and r: "order_apply op ord = Inr ord'"
  shows "order_ok ord'"
proof -
  note d = order_okD [OF ok] and w = working_agrees [OF ok]
  show ?thesis
  proof (cases op)
    case (Accept t)
    with r obtain s where s: "order_next ord ORDER_ACCEPTED = Inr s" and ord': "ord' = ord\<lparr>o_status := s, o_updated := t\<rparr>"
      by (auto simp: order_accept_def rbind_eq_Inr)
    show ?thesis unfolding ord'
      using order_next_table(1) [OF s _ d(2)] d(7) by (intro status_change_ok [OF ok]) (auto simp: table_rows)
  next
    case (Reject t)
    with r obtain s where s: "order_next ord ORDER_REJECTED = Inr s" and ord': "ord' = ord\<lparr>o_status := s, o_updated := t\<rparr>"
      by (auto simp: order_reject_def rbind_eq_Inr)
    show ?thesis unfolding ord'
      using order_next_table(1,2) [OF s _ d(2)] d(5) by (intro status_change_ok [OF ok]) (auto simp: table_rows)
  next
    case (Cancel t)
    with r obtain s where s: "order_next ord ORDER_CANCELLED = Inr s" and ord': "ord' = ord\<lparr>o_status := s, o_updated := t\<rparr>"
      by (auto simp: order_cancel_def rbind_eq_Inr)
    show ?thesis unfolding ord'
      using order_next_table(1) [OF s _ d(2)] w by (intro status_change_ok [OF ok]) (auto simp: table_rows)
  next
    case (Expire t)
    with r obtain s where s: "order_next ord ORDER_EXPIRED = Inr s" and ord': "ord' = ord\<lparr>o_status := s, o_updated := t\<rparr>"
      by (auto simp: order_expire_def rbind_eq_Inr)
    show ?thesis unfolding ord'
      using order_next_table(1) [OF s _ d(2)] w by (intro status_change_ok [OF ok]) (auto simp: table_rows)
  next
    case (Partial_Fill q p t)
    with r obtain s nf na b rem where s: "order_next ord ORDER_PARTIALLY_FILLED = Inr s"
      and f: "filled_by ord q p = Inr (nf, na)" and b: "dec_le (o_quantity ord) nf = Inr b" "\<not> b"
      and rem: "dec_sub ACCOUNTING_CONTEXT (o_quantity ord) nf = Inr rem"
      and ord': "ord' = ord\<lparr>o_status := s, o_filled := nf, o_remaining := rem, o_average := na, o_updated := t\<rparr>"
      by (auto simp: order_partial_fill_def rbind_eq_Inr split: if_splits)
    note n = filled_by_ok [OF f d(2,3) _ _ d(5)]
    have "is_finite q" "is_finite p" using fin Partial_Fill by auto
    note n = n [OF this]
    have lt: "dval nf < dval (o_quantity ord)" using b d(1) n(1) by auto
    have "status_agrees s (dval nf) (dval (o_quantity ord))"
      using order_next_table(1) [OF s _ d(2)] lt n(3) by (auto simp: table_rows split: if_splits)
    with n lt rem d show ?thesis by (simp add: ord' order_ok_def)
  next
    case (Complete_Fill q p t)
    with r obtain s nf na rem where s: "order_next ord ORDER_FILLED = Inr s"
      and f: "filled_by ord q p = Inr (nf, na)" and b: "dec_eq nf (o_quantity ord)"
      and rem: "dec_sub ACCOUNTING_CONTEXT (o_quantity ord) nf = Inr rem"
      and ord': "ord' = ord\<lparr>o_status := s, o_filled := nf, o_remaining := rem, o_average := na, o_updated := t\<rparr>"
      by (auto simp: order_fill_def rbind_eq_Inr split: if_splits)
    have "is_finite q" "is_finite p" using fin Complete_Fill by auto
    note n = filled_by_ok [OF f d(2,3) this d(5)]
    have eq: "dval nf = dval (o_quantity ord)" using b d(1) n(1) by simp
    with order_next_table(1) [OF s _ d(2)] n rem d show ?thesis by (auto simp: ord' order_ok_def table_rows)
  next
    case (Replace q t l)
    with r obtain s b rem where s: "order_next ord ORDER_REPLACED = Inr s"
      and b: "dec_le q (o_filled ord) = Inr b" "\<not> b"
      and rem: "dec_sub ACCOUNTING_CONTEXT q (o_filled ord) = Inr rem"
      and ord': "ord' = ord\<lparr>o_status := s, o_quantity := q, o_remaining := rem,
          o_limit := (if l \<noteq> None then l else o_limit ord), o_updated := t\<rparr>"
      by (auto simp: order_replace_def rbind_eq_Inr split: if_splits)
    have q: "is_finite q" using fin Replace by simp
    have lt: "dval (o_filled ord) < dval q" using b q d(2) by auto
    have st: "s = o_status ord" "o_status ord \<notin> TERMINAL_ORDER_STATUSES"
      using order_next_table(1) [OF s _ d(2)] by (auto simp: table_rows)
    have "status_agrees s (dval (o_filled ord)) (dval q)"
      using st d(7) lt by (cases "o_status ord") (auto simp: TERMINAL_ORDER_STATUSES_def)
    with q rem lt d show ?thesis by (simp add: ord' order_ok_def)
  qed
qed

section \<open>The abstract order\<close>

text \<open>
  What an order promises, over exact rationals: a status, the quantity it is for and the quantity
  executed. A fill adds to the executed quantity and never takes it past the quantity.
\<close>

type_synonym abs_order = "order_status \<times> rat \<times> rat"

definition abs_order :: "order \<Rightarrow> abs_order" where
  "abs_order ord = (o_status ord, dval (o_quantity ord), dval (o_filled ord))"

fun abs_status :: "event_kind \<Rightarrow> abs_order \<Rightarrow> order_status option" where
  "abs_status e (s, q, f) = (if e = ORDER_REJECTED \<and> 0 < f then None else ORDER_TRANSITIONS s e)"

fun abs_apply :: "order_op \<Rightarrow> abs_order \<Rightarrow> abs_order option" where
  "abs_apply (Partial_Fill x p t) (s, q, f) =
     (case abs_status ORDER_PARTIALLY_FILLED (s, q, f) of
        None \<Rightarrow> None
      | Some s' \<Rightarrow> if 0 < dval x \<and> f + dval x < q then Some (s', q, f + dval x) else None)"
| "abs_apply (Complete_Fill x p t) (s, q, f) =
     (case abs_status ORDER_FILLED (s, q, f) of
        None \<Rightarrow> None
      | Some s' \<Rightarrow> if 0 < dval x \<and> f + dval x = q then Some (s', q, f + dval x) else None)"
| "abs_apply (Replace n t l) (s, q, f) =
     (case abs_status ORDER_REPLACED (s, q, f) of
        None \<Rightarrow> None
      | Some s' \<Rightarrow> if f < dval n then Some (s', dval n, f) else None)"
| "abs_apply op (s, q, f) = map_option (\<lambda>s'. (s', q, f)) (abs_status (op_event op) (s, q, f))"

text \<open>The one place an order rounds its quantities: the running sum of its fills.\<close>

fun op_exact :: "order_op \<Rightarrow> order \<Rightarrow> bool" where
  "op_exact (Partial_Fill q p t) ord = fits ACCOUNTING_CONTEXT (add_exact (o_filled ord) q)"
| "op_exact (Complete_Fill q p t) ord = fits ACCOUNTING_CONTEXT (add_exact (o_filled ord) q)"
| "op_exact _ ord = True"

definition refines_abs :: "order res \<Rightarrow> abs_order option \<Rightarrow> bool" where
  "refines_abs r a =
     (case r of
        Inr ord' \<Rightarrow> a = Some (abs_order ord')
      | Inl e \<Rightarrow> arith_exn e \<or> e = InvalidTransitionError \<and> a = None)"

lemma refines_arith: "arith_exn e \<Longrightarrow> refines_abs (Inl e) a"
  by (simp add: refines_abs_def)

lemma refines_bind_arith:
  "(\<And>e. m = Inl e \<Longrightarrow> arith_exn e) \<Longrightarrow> (\<And>x. m = Inr x \<Longrightarrow> refines_abs (f x) a) \<Longrightarrow> refines_abs (rbind m f) a"
  by (cases m) (simp_all add: refines_arith)

lemma order_next_abs:
  assumes "is_finite (o_filled ord)" "e \<noteq> ORDER_CANCEL_REJECTED"
  shows "order_next ord e = (case abs_status e (abs_order ord) of None \<Rightarrow> Inl InvalidTransitionError | Some t \<Rightarrow> Inr t)"
  using assms by (auto simp: order_next_def next_order_status_def abs_order_def split: option.split)

lemma refines_next:
  assumes "is_finite (o_filled ord)" "e \<noteq> ORDER_CANCEL_REJECTED"
    and "abs_status e (abs_order ord) = None \<Longrightarrow> a = None"
    and "\<And>t. abs_status e (abs_order ord) = Some t \<Longrightarrow> refines_abs (f t) a"
  shows "refines_abs (rbind (order_next ord e) f) a"
  using assms(3,4) by (simp add: order_next_abs [OF assms(1,2)] refines_abs_def split: option.split)

lemma refines_filled_by:
  assumes fin: "is_finite (o_filled ord)" "is_finite q"
    and exact: "fits ACCOUNTING_CONTEXT (add_exact (o_filled ord) q)"
    and none: "dval q \<le> 0 \<Longrightarrow> a = None"
    and some: "\<And>nf na. 0 < dval q \<Longrightarrow> is_finite nf \<Longrightarrow> dval nf = dval (o_filled ord) + dval q \<Longrightarrow> refines_abs (f (nf, na)) a"
    and fin': "is_finite (o_average ord)" "is_finite p"
  shows "refines_abs (rbind (filled_by ord q p) f) a"
proof (cases "dval q \<le> 0")
  case True
  with none fin show ?thesis by (simp add: filled_by_def refines_abs_def)
next
  case False
  have add: "dec_add ACCOUNTING_CONTEXT (o_filled ord) q = Inr (add_exact (o_filled ord) q)"
    using fin exact by (rule dec_add_exact)
  have average: "arith_only (plain d)" if "dec_div ACCOUNTING_CONTEXT c (add_exact (o_filled ord) q) = Inr d" "is_finite c" for c d
  proof -
    have "is_finite d" using dec_div_finite [OF that(2) _ that(1)] fin by simp
    then obtain r where "plain d = Inr r" by (rule plain_ok)
    then show ?thesis by simp
  qed
  have le: "dec_le q dec_zero = Inr False" using fin False by simp
  have "arith_only (filled_by ord q p)"
    unfolding filled_by_def le rbind_Inr add if_False
    by (auto intro!: arith_only_bind average dest!: dec_mul_finite [OF fin(1) fin'(1)] dec_mul_finite [OF fin(2) fin'(2)]
      intro: dec_add_finite)
  then have exn: "\<And>e. filled_by ord q p = Inl e \<Longrightarrow> arith_exn e" by (simp add: arith_only_def)
  show ?thesis
  proof (rule refines_bind_arith)
    fix x assume x: "filled_by ord q p = Inr x"
    then have "fst x = add_exact (o_filled ord) q"
      using False fin by (auto simp: filled_by_def rbind_eq_Inr add)
    with some [of "fst x" "snd x"] False fin show "refines_abs (f x) a" by (cases x) simp
  qed (rule exn)
qed

lemma abs_status_not_reject: "e \<noteq> ORDER_REJECTED \<Longrightarrow> abs_status e (s, q, f) = ORDER_TRANSITIONS s e"
  by simp

lemma order_refines:
  assumes ok: "order_ok ord" and fin: "op_finite op" and exact: "op_exact op ord"
  shows "refines_abs (order_apply op ord) (abs_apply op (abs_order ord))"
proof -
  note d = order_okD [OF ok]
  have sub: "refines_abs (rbind (dec_sub ACCOUNTING_CONTEXT x y) (\<lambda>rem. Inr (g rem))) a"
    if "\<And>rem. a = Some (abs_order (g rem))" for x y g a
    using that by (intro refines_bind_arith) (auto simp: refines_abs_def dest: dec_exns)
  show ?thesis
  proof (cases op)
    case (Partial_Fill x p t)
    with fin exact have x: "is_finite x" "is_finite p" "fits ACCOUNTING_CONTEXT (add_exact (o_filled ord) x)" by auto
    show ?thesis unfolding Partial_Fill order_apply.simps order_partial_fill_def
    proof (rule refines_next [OF d(2)])
      fix s' assume s': "abs_status ORDER_PARTIALLY_FILLED (abs_order ord) = Some s'"
      show "refines_abs (rbind (filled_by ord x p) (\<lambda>(new_filled, new_avg). rbind (dec_le (o_quantity ord) new_filled) (\<lambda>complete.
          if complete then Inl InvalidTransitionError
          else rbind (dec_sub ACCOUNTING_CONTEXT (o_quantity ord) new_filled) (\<lambda>remaining.
            Inr (ord\<lparr>o_status := s', o_filled := new_filled, o_remaining := remaining, o_average := new_avg, o_updated := t\<rparr>)))))
        (abs_apply (Partial_Fill x p t) (abs_order ord))"
        by (rule refines_filled_by [OF d(2) x(1,3) _ _ d(3) x(2)])
          (use s' d(1) in \<open>auto simp: abs_order_def refines_abs_def intro!: sub [unfolded refines_abs_def]\<close>)
    qed (simp_all add: abs_order_def)
  next
    case (Complete_Fill x p t)
    with fin exact have x: "is_finite x" "is_finite p" "fits ACCOUNTING_CONTEXT (add_exact (o_filled ord) x)" by auto
    show ?thesis unfolding Complete_Fill order_apply.simps order_fill_def
    proof (rule refines_next [OF d(2)])
      fix s' assume s': "abs_status ORDER_FILLED (abs_order ord) = Some s'"
      show "refines_abs (rbind (filled_by ord x p) (\<lambda>(new_filled, new_avg).
          if \<not> dec_eq new_filled (o_quantity ord) then Inl InvalidTransitionError
          else rbind (dec_sub ACCOUNTING_CONTEXT (o_quantity ord) new_filled) (\<lambda>remaining.
            Inr (ord\<lparr>o_status := s', o_filled := new_filled, o_remaining := remaining, o_average := new_avg, o_updated := t\<rparr>))))
        (abs_apply (Complete_Fill x p t) (abs_order ord))"
        by (rule refines_filled_by [OF d(2) x(1,3) _ _ d(3) x(2)])
          (use s' d(1) in \<open>auto simp: abs_order_def refines_abs_def intro!: sub [unfolded refines_abs_def]\<close>)
    qed (simp_all add: abs_order_def)
  next
    case (Replace n t l)
    with fin have n: "is_finite n" by simp
    show ?thesis unfolding Replace order_apply.simps order_replace_def
      by (rule refines_next [OF d(2)])
        (use n d(2) in \<open>auto simp: abs_order_def refines_abs_def intro!: sub [unfolded refines_abs_def]\<close>)
  qed (auto simp: order_accept_def order_reject_def order_cancel_def order_expire_def refines_abs_def abs_order_def
      intro!: refines_next [OF d(2), unfolded refines_abs_def])
qed

section \<open>An example\<close>

text \<open>A concrete order: 100 shares, good for the day, accepted.\<close>

definition example_order :: order where
  "example_order =
     \<lparr>o_id = ''o1'', o_strategy = ''s1'', o_asset = ''A'', o_side = BUY, o_type = MARKET, o_status = ACCEPTED,
      o_quantity = Fin 100 0, o_filled = Fin 0 0, o_remaining = Fin 100 0, o_limit = None, o_stop = None,
      o_average = Fin 0 0, o_created = FFin 1, o_updated = FFin 1, o_metadata = [], o_tif = DAY,
      o_expire = None, o_triggered = None\<rparr>"

lemmas order_eval = order_accept_def order_reject_def order_cancel_def order_expire_def order_partial_fill_def
  order_fill_def order_replace_def order_next_def next_order_status_def ORDER_TRANSITIONS_def filled_by_def plain_def

lemma example_order_ok: "order_ok example_order"
  by (simp add: order_ok_def example_order_def dec_eval dval.simps(1))

lemma example_partial:
  "order_apply (Partial_Fill (Fin 40 0) (Fin 105 (-1)) (FFin 2)) example_order =
   Inr (example_order\<lparr>o_status := PARTIALLY_FILLED, o_filled := Fin 40 0, o_remaining := Fin 60 0,
        o_average := Fin 105 (-1), o_updated := FFin 2\<rparr>)"
  by (simp add: dec_eval order_eval example_order_def)

section \<open>Properties\<close>

definition order_identity :: "order \<Rightarrow> string \<times> string \<times> string \<times> side \<times> order_type \<times> time_in_force" where
  "order_identity ord = (o_id ord, o_strategy ord, o_asset ord, o_side ord, o_type ord, o_tif ord)"

lemma apply_move:
  assumes "is_finite (o_filled ord)" "order_apply op ord = Inr ord'"
  shows "next_order_status (o_status ord) (op_event op) (o_filled ord) = Inr (Some (o_status ord'))"
    "order_identity ord' = order_identity ord"
proof -
  have "order_next ord (op_event op) = Inr (o_status ord') \<and> order_identity ord' = order_identity ord"
    using assms(2)
    by (cases op)
      (auto simp: order_accept_def order_reject_def order_cancel_def order_expire_def order_partial_fill_def
        order_fill_def order_replace_def order_identity_def rbind_eq_Inr split: if_splits)
  moreover have "op_event op \<noteq> ORDER_CANCEL_REJECTED" by (cases op) simp_all
  ultimately show "next_order_status (o_status ord) (op_event op) (o_filled ord) = Inr (Some (o_status ord'))"
    "order_identity ord' = order_identity ord"
    using order_next_table(3) [OF _ _ assms(1)] by auto
qed

lemma run_order_ok:
  assumes "order_ok ord" "list_all op_finite ops" "rfold (\<lambda>ord op. order_apply op ord) ord ops = Inr ord'"
  shows "order_ok ord' \<and> order_move\<^sup>*\<^sup>* (o_status ord) (o_status ord') \<and> order_identity ord' = order_identity ord"
  using assms
proof (induction ops arbitrary: ord)
  case (Cons op ops)
  from Cons.prems obtain ord1 where s: "order_apply op ord = Inr ord1"
    and rest: "rfold (\<lambda>ord op. order_apply op ord) ord1 ops = Inr ord'" by (auto elim: rbind_InrE)
  have fin: "is_finite (o_filled ord)" using Cons.prems(1) by (simp add: order_ok_def)
  have ok: "order_ok ord1" using order_apply_ok [OF Cons.prems(1) _ s] Cons.prems(2) by simp
  have "order_move (o_status ord) (o_status ord1)" using apply_move(1) [OF fin s] by (rule Event)
  with Cons.IH [OF ok _ rest] Cons.prems(2) apply_move(2) [OF fin s] show ?case
    by (auto intro: converse_rtranclp_into_rtranclp)
qed simp

text \<open>C6: An order stays in order: from a consistent order, every sequence of accepts, rejects,
  cancels, expiries, fills and amendments with finite numbers that the order permits leaves it
  consistent -- nothing executed beyond its quantity, the remainder the difference of the two, and a
  status that says how much has traded (a filled order executed exactly its quantity, a rejected or
  untraded one nothing) -- by moves of the lifecycle table only, and never changes what the order is.\<close>

theorem order_stays_consistent:
  assumes "order_ok ord" "list_all op_finite ops"
    and "rfold (\<lambda>ord op. order_apply op ord) ord ops = Inr ord'"
  shows "0 \<le> dval (o_filled ord') \<and> dval (o_filled ord') \<le> dval (o_quantity ord') \<and>
    dec_sub ACCOUNTING_CONTEXT (o_quantity ord') (o_filled ord') = Inr (o_remaining ord') \<and>
    status_agrees (o_status ord') (dval (o_filled ord')) (dval (o_quantity ord')) \<and>
    order_move\<^sup>*\<^sup>* (o_status ord) (o_status ord') \<and> order_identity ord' = order_identity ord"
  using run_order_ok [OF assms] by (simp add: order_ok_def)

theorem order_stays_consistent_witness:
  "\<exists>ord'. rfold (\<lambda>ord op. order_apply op ord) example_order
       [Partial_Fill (Fin 40 0) (Fin 105 (-1)) (FFin 2), Cancel (FFin 3)] = Inr ord' \<and>
     o_status ord' = CANCELLED \<and> dval (o_filled ord') \<le> dval (o_quantity ord')"
proof -
  let ?ops = "[Partial_Fill (Fin 40 0) (Fin 105 (-1)) (FFin 2), Cancel (FFin 3)]"
  obtain ord' where run: "rfold (\<lambda>ord op. order_apply op ord) example_order ?ops = Inr ord'"
    and st: "o_status ord' = CANCELLED"
    using example_partial by (simp add: order_eval example_order_def)
  have "list_all op_finite ?ops" by simp
  from order_stays_consistent [OF example_order_ok this run] run st show ?thesis by blast
qed

text \<open>C7: Every transition of an order computes what the abstract order does: while the sum of its
  fills fits the 34 digits of the accounting context, an accept, reject, cancel, expiry, fill or
  amendment with finite numbers either gives the order whose status and exact quantities the abstract
  transition gives, or raises the transition error and the abstract order refuses too, or raises a
  decimal arithmetic error.\<close>

theorem order_refines_abstract:
  assumes "order_ok ord" "op_finite op" "op_exact op ord"
  shows "case order_apply op ord of
      Inr ord' \<Rightarrow> abs_apply op (abs_order ord) = Some (abs_order ord')
    | Inl e \<Rightarrow> arith_exn e \<or> e = InvalidTransitionError \<and> abs_apply op (abs_order ord) = None"
  using order_refines [OF assms] by (simp add: refines_abs_def)

theorem order_refines_abstract_witness:
  "op_exact (Partial_Fill (Fin 40 0) (Fin 105 (-1)) (FFin 2)) example_order \<and>
   abs_apply (Partial_Fill (Fin 40 0) (Fin 105 (-1)) (FFin 2)) (ACCEPTED, 100, 0) = Some (PARTIALLY_FILLED, 100, 40)"
proof -
  have e: "op_exact (Partial_Fill (Fin 40 0) (Fin 105 (-1)) (FFin 2)) example_order"
    by (simp add: example_order_def dec_eval)
  have "op_finite (Partial_Fill (Fin 40 0) (Fin 105 (-1)) (FFin 2))" by simp
  from order_refines_abstract [OF example_order_ok this e] e show ?thesis
    unfolding example_partial by (simp add: abs_order_def example_order_def dval.simps(1))
qed

text \<open>C12: A closed order refuses everything: whatever the transition and its arguments, an order
  that is filled, cancelled, rejected or expired raises the transition error.\<close>

theorem closed_order_refuses:
  assumes "is_closed ord"
  shows "order_apply op ord = Inl InvalidTransitionError"
proof -
  have "ORDER_TRANSITIONS (o_status ord) e = None" for e
    using assms by (auto simp: is_closed_def is_open_def WORKING_ORDER_STATUSES_def enum_UNIV
      TERMINAL_ORDER_STATUSES_def ORDER_TRANSITIONS_def)
  then have "order_next ord e = Inl InvalidTransitionError" for e by (simp add: order_next_def next_order_status_def)
  then show ?thesis
    by (cases op) (simp_all add: order_accept_def order_reject_def order_cancel_def order_expire_def
      order_partial_fill_def order_fill_def order_replace_def)
qed

theorem closed_order_refuses_witness:
  "order_apply (Complete_Fill (Fin 100 0) (Fin 10 0) (FFin 5)) (example_order\<lparr>o_status := CANCELLED\<rparr>) =
   Inl InvalidTransitionError"
  by (rule closed_order_refuses)
    (simp add: is_closed_def is_open_def WORKING_ORDER_STATUSES_def TERMINAL_ORDER_STATUSES_def)

end
