(* ===== verification/Oms_Book.thy ===== *)
theory Oms_Book
  imports Oms_Order Dicts
begin

text \<open>
  \<open>alphalab/oms/book.py\<close>: the orders of the OMS, indexed by asset and by strategy. The persistent
  maps and sets are the values theory \<open>Persistent_Values\<close> proves them to be.

  \<open>book_ok\<close> says what the indices hold: for every asset the orders in it, and for every declared
  strategy its orders, in the order the book holds them.
\<close>

record book =
  bk_orders :: "(string, order) od"
  bk_by_asset :: "(string, string list) od"
  bk_by_strategy :: "(string, string list) od"

definition empty_book :: book where
  "empty_book = \<lparr>bk_orders = [], bk_by_asset = [], bk_by_strategy = []\<rparr>"

definition with_member :: "string list option \<Rightarrow> string \<Rightarrow> string list" where
  "with_member members x = (case members of None \<Rightarrow> [x] | Some xs \<Rightarrow> os_add x xs)"

definition book_add :: "book \<Rightarrow> order \<Rightarrow> book" where
  "book_add b ord =
     \<lparr>bk_orders = od_set (o_id ord) ord (bk_orders b),
      bk_by_asset = od_set (o_asset ord) (with_member (od_get (bk_by_asset b) (o_asset ord)) (o_id ord)) (bk_by_asset b),
      bk_by_strategy =
        (if o_strategy ord \<noteq> []
         then od_set (o_strategy ord) (with_member (od_get (bk_by_strategy b) (o_strategy ord)) (o_id ord)) (bk_by_strategy b)
         else bk_by_strategy b)\<rparr>"

text \<open>One index of \<open>remove\<close>: the key's entry without the order, or no entry when it was the last.\<close>

definition index_remove :: "(string, string list) od \<Rightarrow> string \<Rightarrow> string \<Rightarrow> (string, string list) od res" where
  "index_remove index key x =
     (case od_get index key of
        None \<Rightarrow> Inl KeyError
      | Some members \<Rightarrow>
          let left = os_discard x members
          in Inr (if left = [] then od_del key index else od_set key left index))"

definition book_remove :: "book \<Rightarrow> string \<Rightarrow> book res" where
  "book_remove b oid =
     (case od_get (bk_orders b) oid of
        None \<Rightarrow> Inl UnknownOrderError
      | Some ord \<Rightarrow>
          rbind (index_remove (bk_by_asset b) (o_asset ord) oid) (\<lambda>by_asset.
          rbind (if o_strategy ord \<noteq> [] then index_remove (bk_by_strategy b) (o_strategy ord) oid
                 else Inr (bk_by_strategy b)) (\<lambda>by_strategy.
            Inr \<lparr>bk_orders = od_del oid (bk_orders b), bk_by_asset = by_asset, bk_by_strategy = by_strategy\<rparr>)))"

definition book_replace :: "book \<Rightarrow> order \<Rightarrow> book res" where
  "book_replace b ord =
     (if od_get (bk_orders b) (o_id ord) = None then Inl UnknownOrderError
      else Inr (b\<lparr>bk_orders := od_set (o_id ord) ord (bk_orders b)\<rparr>))"

definition book_find :: "book \<Rightarrow> string \<Rightarrow> order res" where
  "book_find b oid = (case od_get (bk_orders b) oid of None \<Rightarrow> Inl UnknownOrderError | Some ord \<Rightarrow> Inr ord)"

definition book_contains :: "book \<Rightarrow> string \<Rightarrow> bool" where
  "book_contains b oid = (od_get (bk_orders b) oid \<noteq> None)"

definition book_orders :: "book \<Rightarrow> order list" where
  "book_orders b = od_values (bk_orders b)"

definition open_orders :: "book \<Rightarrow> order list" where
  "open_orders b = filter is_open (od_values (bk_orders b))"

definition book_getitem :: "book \<Rightarrow> string \<Rightarrow> order res" where
  "book_getitem b oid = (case od_get (bk_orders b) oid of None \<Rightarrow> Inl KeyError | Some ord \<Rightarrow> Inr ord)"

definition orders_for_asset :: "book \<Rightarrow> string \<Rightarrow> order list res" where
  "orders_for_asset b asset =
     (case od_get (bk_by_asset b) asset of None \<Rightarrow> Inr [] | Some ids \<Rightarrow> rmap (book_getitem b) ids)"

definition orders_for_strategy :: "book \<Rightarrow> string \<Rightarrow> order list res" where
  "orders_for_strategy b strategy =
     (case od_get (bk_by_strategy b) strategy of None \<Rightarrow> Inr [] | Some ids \<Rightarrow> rmap (book_getitem b) ids)"

section \<open>Indices\<close>

text \<open>An index: under every key the ids of the items it selects, in order; no entry for no items.\<close>

definition ids_where :: "(order \<Rightarrow> bool) \<Rightarrow> (string, order) od \<Rightarrow> string list" where
  "ids_where P m = map fst (filter (\<lambda>p. P (snd p)) m)"

definition indexes :: "(string, string list) od \<Rightarrow> (string \<Rightarrow> order \<Rightarrow> bool) \<Rightarrow> (string, order) od \<Rightarrow> bool" where
  "indexes index P m \<longleftrightarrow>
     od_ok index \<and> (\<forall>k. od_get index k = (if ids_where (P k) m = [] then None else Some (ids_where (P k) m)))"

definition by_asset :: "string \<Rightarrow> order \<Rightarrow> bool" where
  "by_asset a ord = (o_asset ord = a)"

definition by_strategy :: "string \<Rightarrow> order \<Rightarrow> bool" where
  "by_strategy s ord = (s \<noteq> [] \<and> o_strategy ord = s)"

definition book_ok :: "book \<Rightarrow> bool" where
  "book_ok b \<longleftrightarrow>
     od_ok (bk_orders b) \<and> (\<forall>(k, ord) \<in> set (bk_orders b). o_id ord = k) \<and>
     indexes (bk_by_asset b) by_asset (bk_orders b) \<and> indexes (bk_by_strategy b) by_strategy (bk_orders b)"

lemma indexesD: "indexes index P m \<Longrightarrow> od_get index k = (if ids_where (P k) m = [] then None else Some (ids_where (P k) m))"
  by (simp add: indexes_def)

lemma indexes_ok: "indexes index P m \<Longrightarrow> od_ok index"
  by (simp add: indexes_def)

lemma ids_where_append: "ids_where P (m @ [(k, ord)]) = ids_where P m @ (if P ord then [k] else [])"
  by (simp add: ids_where_def)

lemma ids_where_subset: "set (ids_where P m) \<subseteq> set (od_keys m)"
  by (auto simp: ids_where_def od_keys_def)

lemma ids_where_del: "ids_where P (od_del k m) = filter (\<lambda>x. x \<noteq> k) (ids_where P m)"
  by (induction m) (auto simp: ids_where_def od_del_def)

text \<open>A rewritten order keeps its place in an index when it keeps its answer, and changes it in place.\<close>

lemma ids_where_rewrite:
  assumes "od_ok m" "od_get m k = Some old" "P ord = P old"
  shows "ids_where P (od_set k ord m) = ids_where P m"
proof -
  have "\<And>x. (k, x) \<in> set m \<Longrightarrow> x = old" using assms(1,2) by (simp add: od_get_in [symmetric])
  moreover have "\<And>ps. (\<And>x. (k, x) \<in> set ps \<Longrightarrow> x = old) \<Longrightarrow>
      ids_where P (map (\<lambda>p. if fst p = k then (k, ord) else p) ps) = ids_where P ps"
  proof -
    fix ps :: "(string \<times> order) list"
    assume "\<And>x. (k, x) \<in> set ps \<Longrightarrow> x = old"
    then show "ids_where P (map (\<lambda>p. if fst p = k then (k, ord) else p) ps) = ids_where P ps"
    proof (induction ps)
      case (Cons p ps)
      have "ids_where P (map (\<lambda>p. if fst p = k then (k, ord) else p) ps) = ids_where P ps" using Cons by simp
      then show ?case using Cons.prems [of "snd p"] assms(3) by (cases p) (auto simp: ids_where_def)
    qed simp
  qed
  ultimately show ?thesis using od_set_present [of k m ord] od_get_Some_key [OF assms(2)] assms(1) by simp
qed

lemma ids_where_leave:
  assumes "od_ok m" "od_get m k = Some old" "\<not> P ord"
  shows "ids_where P (od_set k ord m) = filter (\<lambda>x. x \<noteq> k) (ids_where P m)"
proof -
  have "ids_where P (map (\<lambda>p. if fst p = k then (k, ord) else p) ps) = filter (\<lambda>x. x \<noteq> k) (ids_where P ps)" for ps
    using assms(3) by (induction ps) (auto simp: ids_where_def)
  then show ?thesis using od_set_present [of k m ord] od_get_Some_key [OF assms(2)] assms(1) by simp
qed

text \<open>One index updated at one key.\<close>

lemma indexes_insert:
  assumes ix: "indexes index P m" and k: "k \<notin> set (od_keys m)" and only: "\<And>key. P key ord \<longleftrightarrow> key = a"
  shows "indexes (od_set a (with_member (od_get index a) k) index) P (m @ [(k, ord)])"
proof -
  have "k \<notin> set (ids_where (P a) m)" using ids_where_subset k by fastforce
  then have "with_member (od_get index a) k = ids_where (P a) m @ [k]"
    using indexesD [OF ix, of a] by (auto simp: with_member_def os_add_def)
  then show ?thesis
    using indexesD [OF ix] indexes_ok [OF ix] by (auto simp: indexes_def ids_where_append only)
qed

lemma indexes_insert_none:
  assumes ix: "indexes index P m" and "\<And>key. \<not> P key ord"
  shows "indexes index P (m @ [(k, ord)])"
  using assms by (simp add: indexes_def ids_where_append)

lemma indexes_rewrite:
  assumes ix: "indexes index P m" and "od_ok m" "od_get m k = Some old" "\<And>key. P key ord = P key old"
  shows "indexes index P (od_set k ord m)"
  using assms by (simp add: indexes_def ids_where_rewrite)

lemma indexes_remove:
  assumes ix: "indexes index P m" and ok: "od_ok m" and k: "od_get m k = Some ord" and only: "\<And>key. P key ord \<longleftrightarrow> key = a"
  shows "\<exists>index'. index_remove index a k = Inr index' \<and> indexes index' P (od_del k m)"
proof -
  have in_m: "(k, ord) \<in> set m" using ok k by (simp add: od_get_in)
  have "P a ord" using only by simp
  with in_m have "k \<in> set (ids_where (P a) m)" by (auto simp: ids_where_def intro: rev_image_eqI)
  then have ids: "od_get index a = Some (ids_where (P a) m)" using indexesD [OF ix, of a] by auto
  have other: "filter (\<lambda>x. x \<noteq> k) (ids_where (P b) m) = ids_where (P b) m" if "b \<noteq> a" for b
  proof -
    have "k \<notin> set (ids_where (P b) m)"
    proof
      assume "k \<in> set (ids_where (P b) m)"
      then obtain x where "(k, x) \<in> set m" "P b x" by (auto simp: ids_where_def)
      moreover have "x = ord" using ok k \<open>(k, x) \<in> set m\<close> by (simp add: od_get_in [symmetric])
      ultimately show False using only [of b] that by simp
    qed
    then show ?thesis by (rule filter_neq_id)
  qed
  have "indexes (if os_discard k (ids_where (P a) m) = [] then od_del a index
      else od_set a (os_discard k (ids_where (P a) m)) index) P (od_del k m)"
    using indexesD [OF ix] indexes_ok [OF ix] other
    by (auto simp: indexes_def ids_where_del os_discard_filter)
  then show ?thesis using ids by (simp add: index_remove_def Let_def)
qed

section \<open>Operations keep the indices\<close>

lemma book_okD:
  assumes "book_ok b"
  shows "od_ok (bk_orders b)" "(k, ord) \<in> set (bk_orders b) \<Longrightarrow> o_id ord = k"
    "indexes (bk_by_asset b) by_asset (bk_orders b)" "indexes (bk_by_strategy b) by_strategy (bk_orders b)"
  using assms by (auto simp: book_ok_def)

lemma book_get_id: "book_ok b \<Longrightarrow> od_get (bk_orders b) k = Some ord \<Longrightarrow> o_id ord = k"
  using book_okD(1,2) [of b] by (simp add: od_get_in)

lemma empty_book_ok [simp]: "book_ok empty_book"
  by (simp add: book_ok_def empty_book_def indexes_def ids_where_def)

lemma add_members:
  "book_ok b \<Longrightarrow> od_get (bk_orders b) (o_id ord) = None \<Longrightarrow> bk_orders (book_add b ord) = bk_orders b @ [(o_id ord, ord)]"
  by (simp add: book_add_def od_set_absent od_get_None)

lemma by_strategy_iff: "o_strategy ord \<noteq> [] \<Longrightarrow> by_strategy s ord \<longleftrightarrow> s = o_strategy ord"
  by (auto simp: by_strategy_def)

lemma by_asset_iff: "by_asset a ord \<longleftrightarrow> a = o_asset ord"
  by (auto simp: by_asset_def)

lemma book_add_ok:
  assumes ok: "book_ok b" and new: "od_get (bk_orders b) (o_id ord) = None"
  shows "book_ok (book_add b ord)"
proof -
  note d = book_okD [OF ok]
  have k: "o_id ord \<notin> set (od_keys (bk_orders b))" using new by (simp add: od_get_None)
  have "indexes (bk_by_asset (book_add b ord)) by_asset (bk_orders b @ [(o_id ord, ord)])"
    using indexes_insert [OF d(3) k, of ord "o_asset ord"] by (auto simp: book_add_def by_asset_def)
  moreover have "indexes (bk_by_strategy (book_add b ord)) by_strategy (bk_orders b @ [(o_id ord, ord)])"
  proof (cases "o_strategy ord = []")
    case True
    then have none: "\<And>key. \<not> by_strategy key ord" by (auto simp: by_strategy_def)
    show ?thesis using True indexes_insert_none [OF d(4) none] by (simp add: book_add_def)
  next
    case False
    with indexes_insert [OF d(4) k by_strategy_iff [OF False]] show ?thesis by (simp add: book_add_def)
  qed
  moreover have "od_ok (bk_orders b @ [(o_id ord, ord)])"
    using od_ok_set [OF d(1), of "o_id ord" ord] k by (simp add: od_set_absent)
  ultimately show ?thesis using d(2) add_members [OF ok new] by (auto simp: book_ok_def)
qed

lemma book_replace_ok:
  assumes ok: "book_ok b" and old: "od_get (bk_orders b) (o_id ord) = Some old"
    and same: "o_asset ord = o_asset old" "o_strategy ord = o_strategy old"
  shows "\<exists>b'. book_replace b ord = Inr b' \<and> book_ok b' \<and> bk_orders b' = od_set (o_id ord) ord (bk_orders b)"
proof -
  note d = book_okD [OF ok]
  have "\<forall>(k, x) \<in> set (od_set (o_id ord) ord (bk_orders b)). o_id x = k"
    using d(2) od_get_in [OF d(1)] od_get_in [OF od_ok_set [OF d(1)]]
    by (auto simp: od_get_in [OF od_ok_set [OF d(1)], symmetric] split: if_splits)
  then show ?thesis
    using old d indexes_rewrite [OF d(3,1) old, of ord] indexes_rewrite [OF d(4,1) old, of ord] same
    by (simp add: book_replace_def book_ok_def by_asset_def by_strategy_def)
qed

lemma book_remove_ok:
  assumes ok: "book_ok b" and k: "od_get (bk_orders b) oid = Some ord"
  shows "\<exists>b'. book_remove b oid = Inr b' \<and> book_ok b' \<and> bk_orders b' = od_del oid (bk_orders b)"
proof -
  note d = book_okD [OF ok]
  obtain ia where ia: "index_remove (bk_by_asset b) (o_asset ord) oid = Inr ia" "indexes ia by_asset (od_del oid (bk_orders b))"
    using indexes_remove [OF d(3,1) k, of "o_asset ord"] by (auto simp: by_asset_def)
  have "\<exists>is. (if o_strategy ord \<noteq> [] then index_remove (bk_by_strategy b) (o_strategy ord) oid else Inr (bk_by_strategy b)) = Inr is
      \<and> indexes is by_strategy (od_del oid (bk_orders b))"
  proof (cases "o_strategy ord = []")
    case True
    have "filter (\<lambda>x. x \<noteq> oid) (ids_where (by_strategy s) (bk_orders b)) = ids_where (by_strategy s) (bk_orders b)" for s
    proof (rule filter_neq_id)
      show "oid \<notin> set (ids_where (by_strategy s) (bk_orders b))"
        using d(1) k True by (auto simp: ids_where_def by_strategy_def od_get_in [symmetric])
    qed
    with True d(4) show ?thesis by (simp add: indexes_def ids_where_del)
  next
    case False
    with indexes_remove [OF d(4,1) k by_strategy_iff [OF False]] show ?thesis by simp
  qed
  moreover have "od_ok (od_del oid (bk_orders b))" "\<forall>(k, x) \<in> set (od_del oid (bk_orders b)). o_id x = k"
    using d(1,2) by (auto simp: od_del_def od_ok_del [unfolded od_del_def])
  ultimately show ?thesis using k ia by (auto simp: book_remove_def book_ok_def)
qed

text \<open>The queries answer from the orders.\<close>

lemma book_getitem_ids:
  assumes ok: "book_ok b"
  shows "rmap (book_getitem b) (ids_where P (bk_orders b)) = Inr (filter P (book_orders b))"
proof -
  note d = book_okD [OF ok]
  have "rmap (book_getitem b) (map fst ps) = Inr (map snd ps)" if "set ps \<subseteq> set (bk_orders b)" for ps
    using that
  proof (induction ps)
    case (Cons p ps)
    then have "od_get (bk_orders b) (fst p) = Some (snd p)" using od_get_in [OF d(1), of "fst p" "snd p"] by simp
    with Cons show ?case by (simp add: book_getitem_def)
  qed simp
  from this [of "filter (\<lambda>p. P (snd p)) (bk_orders b)"] show ?thesis
    by (simp add: ids_where_def book_orders_def od_values_def filter_map comp_def)
qed

lemma index_query:
  assumes ok: "book_ok b" and ix: "indexes index P (bk_orders b)"
  shows "(case od_get index k of None \<Rightarrow> Inr [] | Some ids \<Rightarrow> rmap (book_getitem b) ids) = Inr (filter (P k) (book_orders b))"
  using indexesD [OF ix, of k] book_getitem_ids [OF ok, of "P k"] by (cases "ids_where (P k) (bk_orders b)") auto

section \<open>Reachable books\<close>

datatype book_op = BAdd order | BReplace order | BRemove string

fun book_step :: "book_op \<Rightarrow> book \<Rightarrow> book res" where
  "book_step (BAdd ord) b = Inr (book_add b ord)"
| "book_step (BReplace ord) b = book_replace b ord"
| "book_step (BRemove oid) b = book_remove b oid"

text \<open>What a caller owes the book: new orders are new, and a replacement keeps the index keys.\<close>

fun book_op_legal :: "book_op \<Rightarrow> book \<Rightarrow> bool" where
  "book_op_legal (BAdd ord) b = (\<not> book_contains b (o_id ord))"
| "book_op_legal (BReplace ord) b =
     (case od_get (bk_orders b) (o_id ord) of
        None \<Rightarrow> True
      | Some old \<Rightarrow> o_asset ord = o_asset old \<and> o_strategy ord = o_strategy old)"
| "book_op_legal (BRemove oid) b = True"

inductive book_reachable :: "book \<Rightarrow> bool" where
  Empty: "book_reachable empty_book"
| Step: "book_reachable b \<Longrightarrow> book_op_legal op b \<Longrightarrow> book_step op b = Inr b' \<Longrightarrow> book_reachable b'"

lemma book_step_ok:
  assumes ok: "book_ok b" and legal: "book_op_legal op b" and s: "book_step op b = Inr b'"
  shows "book_ok b'"
proof (cases op)
  case (BAdd ord)
  with legal s book_add_ok [OF ok] show ?thesis by (auto simp: book_contains_def)
next
  case (BReplace ord)
  with s obtain old where old: "od_get (bk_orders b) (o_id ord) = Some old" by (auto simp: book_replace_def split: if_splits)
  with legal BReplace have "o_asset ord = o_asset old" "o_strategy ord = o_strategy old" by auto
  from book_replace_ok [OF ok old this] s BReplace show ?thesis by auto
next
  case (BRemove oid)
  with s obtain ord where "od_get (bk_orders b) oid = Some ord" by (auto simp: book_remove_def split: option.splits)
  from book_remove_ok [OF ok this] s BRemove show ?thesis by auto
qed

lemma book_reachable_ok: "book_reachable b \<Longrightarrow> book_ok b"
  by (induction rule: book_reachable.induct) (auto intro: book_step_ok)

section \<open>Properties\<close>

text \<open>The order book's indices never drift from its orders: after any sequence of additions of
  new orders, replacements that keep an order's asset and strategy, and removals, the orders listed
  for an asset are exactly the book's orders in that asset, those listed for a strategy exactly the
  orders that declare it, in the order the book holds them, and the queries never raise.\<close>

theorem book_indices_agree:
  assumes "book_reachable b"
  shows "orders_for_asset b a = Inr (filter (\<lambda>ord. o_asset ord = a) (book_orders b)) \<and>
    orders_for_strategy b s = Inr (if s = [] then [] else filter (\<lambda>ord. o_strategy ord = s) (book_orders b)) \<and>
    distinct (map o_id (book_orders b))"
proof -
  have ok: "book_ok b" using assms by (rule book_reachable_ok)
  note d = book_okD [OF ok]
  have "map o_id (book_orders b) = od_keys (bk_orders b)"
    using d(2) by (auto simp: book_orders_def od_values_def od_keys_def intro!: map_cong)
  then have "distinct (map o_id (book_orders b))" using d(1) by (simp add: od_ok_def od_keys_def)
  moreover have "filter (by_strategy s) xs = (if s = [] then [] else filter (\<lambda>ord. o_strategy ord = s) xs)" for xs
    by (auto simp: by_strategy_def filter_empty_conv intro!: filter_cong)
  ultimately show ?thesis
    using index_query [OF ok d(3), of a] index_query [OF ok d(4), of s]
    by (simp add: orders_for_asset_def orders_for_strategy_def by_asset_def [abs_def])
qed

theorem book_indices_agree_witness:
  "book_reachable (book_add empty_book example_order) \<and>
   orders_for_asset (book_add empty_book example_order) ''A'' = Inr [example_order]"
proof -
  have r: "book_reachable (book_add empty_book example_order)"
    by (rule Step [OF Empty, of "BAdd example_order"]) (simp_all add: book_contains_def empty_book_def)
  from book_indices_agree [OF r, of "''A''" "[]"] r show ?thesis
    by (simp add: book_orders_def book_add_def empty_book_def od_values_def) (simp add: example_order_def)
qed

end
