(* ===== verification/Oms_Engine.thy ===== *)
theory Oms_Engine
  imports Oms_Book
begin

text \<open>
  \<open>alphalab/oms/engine.py\<close>, \<open>state.py\<close>, \<open>events.py\<close> and \<open>views.py\<close>: the order management engine, whose
  every transition writes the book, the active and completed sets, the per-asset working index and
  the two logs together.

  The identifier \<open>new_id()\<close> draws for an event is an argument of the transition.
  The two append-only logs are the values theory \<open>Append_Log\<close> proves them to be; the engine never
  drops entries, so a log is its list.
\<close>

section \<open>Events and state\<close>

datatype oms_event =
    OrderSubmitted (ev_id: string) (ev_time: pyfloat) (ev_order_id: string) (ev_order: order)
  | OrderAccepted (ev_id: string) (ev_time: pyfloat) (ev_order_id: string)
  | OrderRejected (ev_id: string) (ev_time: pyfloat) (ev_order_id: string) (ev_reason: string)
  | OrderCancelled (ev_id: string) (ev_time: pyfloat) (ev_order_id: string)
  | OrderExpired (ev_id: string) (ev_time: pyfloat) (ev_order_id: string)
  | OrderReplaced (ev_id: string) (ev_time: pyfloat) (ev_order_id: string)
      (ev_quantity: decimal) (ev_limit: "decimal option")
  | OrderPartiallyFilled (ev_id: string) (ev_time: pyfloat) (ev_order_id: string)
      (ev_fill_quantity: decimal) (ev_fill_price: decimal)
  | OrderFilled (ev_id: string) (ev_time: pyfloat) (ev_order_id: string)
      (ev_fill_quantity: decimal) (ev_fill_price: decimal)

record oms_state =
  os_orders :: book
  os_active :: "string list"
  os_completed :: "string list"
  os_history :: "oms_event list"
  os_events :: "oms_event list"
  os_working :: "(string, string list) od"

definition oms_initial :: oms_state where
  "oms_initial =
     \<lparr>os_orders = empty_book, os_active = [], os_completed = [], os_history = [], os_events = [], os_working = []\<rparr>"

definition working_orders_for :: "oms_state \<Rightarrow> string \<Rightarrow> string list" where
  "working_orders_for st asset = (case od_get (os_working st) asset of None \<Rightarrow> [] | Some ids \<Rightarrow> ids)"

definition append_event :: "oms_state \<Rightarrow> oms_event \<Rightarrow> oms_state" where
  "append_event st event = st\<lparr>os_history := os_history st @ [event], os_events := os_events st @ [event]\<rparr>"

text \<open>
  The working index of \<open>_store\<close>: the asset's set is rewritten only when it changed, and dropped when
  nothing is left in it. \<open>add\<close> and \<open>discard\<close> return the set itself when it does not change, so
  \<open>working is not held\<close> is a comparison of values here.
\<close>

definition store_working :: "(string, string list) od \<Rightarrow> string \<Rightarrow> string \<Rightarrow> bool \<Rightarrow> (string, string list) od" where
  "store_working index asset oid opened =
     (let held = od_get index asset;
          working = (if opened then (case held of None \<Rightarrow> Some [oid] | Some xs \<Rightarrow> Some (os_add oid xs))
                     else map_option (os_discard oid) held)
      in if working \<noteq> held
         then (case working of
                 None \<Rightarrow> od_del asset index
               | Some xs \<Rightarrow> if xs = [] then od_del asset index else od_set asset xs index)
         else index)"

definition oms_store :: "oms_state \<Rightarrow> order \<Rightarrow> oms_event option \<Rightarrow> oms_state res" where
  "oms_store st ord event =
     rbind (if book_contains (os_orders st) (o_id ord) then book_replace (os_orders st) ord
            else Inr (book_add (os_orders st) ord)) (\<lambda>book.
       Inr \<lparr>os_orders = book,
            os_active = (if is_open ord then os_add (o_id ord) (os_active st) else os_discard (o_id ord) (os_active st)),
            os_completed = (if is_open ord then os_discard (o_id ord) (os_completed st) else os_add (o_id ord) (os_completed st)),
            os_history = (case event of None \<Rightarrow> os_history st | Some e \<Rightarrow> os_history st @ [e]),
            os_events = (case event of None \<Rightarrow> os_events st | Some e \<Rightarrow> os_events st @ [e]),
            os_working = store_working (os_working st) (o_asset ord) (o_id ord) (is_open ord)\<rparr>)"

section \<open>Transitions\<close>

definition oms_submit :: "oms_state \<Rightarrow> order \<Rightarrow> pyfloat \<Rightarrow> string \<Rightarrow> oms_state res" where
  "oms_submit st ord current_timestamp eid =
     (if book_contains (os_orders st) (o_id ord) then Inl DuplicateOrderError
      else
        rbind (validate_order ord current_timestamp) (\<lambda>_.
        rbind (oms_store st ord None) (\<lambda>st.
          Inr (append_event st (OrderSubmitted eid current_timestamp (o_id ord) ord)))))"

definition oms_accept :: "oms_state \<Rightarrow> string \<Rightarrow> pyfloat \<Rightarrow> string \<Rightarrow> oms_state res" where
  "oms_accept st oid timestamp eid =
     rbind (book_find (os_orders st) oid) (\<lambda>ord.
     rbind (order_accept ord timestamp) (\<lambda>updated.
       oms_store st updated (Some (OrderAccepted eid timestamp oid))))"

definition oms_reject :: "oms_state \<Rightarrow> string \<Rightarrow> string \<Rightarrow> pyfloat \<Rightarrow> string \<Rightarrow> oms_state res" where
  "oms_reject st oid reason timestamp eid =
     rbind (book_find (os_orders st) oid) (\<lambda>ord.
     rbind (order_reject ord timestamp) (\<lambda>updated.
       oms_store st updated (Some (OrderRejected eid timestamp oid reason))))"

definition oms_cancel :: "oms_state \<Rightarrow> string \<Rightarrow> pyfloat \<Rightarrow> string \<Rightarrow> oms_state res" where
  "oms_cancel st oid timestamp eid =
     rbind (book_find (os_orders st) oid) (\<lambda>ord.
     rbind (order_cancel ord timestamp) (\<lambda>updated.
       oms_store st updated (Some (OrderCancelled eid timestamp oid))))"

definition oms_expire :: "oms_state \<Rightarrow> string \<Rightarrow> pyfloat \<Rightarrow> string \<Rightarrow> oms_state res" where
  "oms_expire st oid timestamp eid =
     rbind (book_find (os_orders st) oid) (\<lambda>ord.
     rbind (order_expire ord timestamp) (\<lambda>updated.
       oms_store st updated (Some (OrderExpired eid timestamp oid))))"

definition oms_partial_fill ::
  "oms_state \<Rightarrow> string \<Rightarrow> decimal \<Rightarrow> decimal \<Rightarrow> pyfloat \<Rightarrow> string \<Rightarrow> oms_state res" where
  "oms_partial_fill st oid quantity price timestamp eid =
     rbind (book_find (os_orders st) oid) (\<lambda>ord.
     rbind (order_partial_fill ord quantity price timestamp) (\<lambda>updated.
       oms_store st updated (Some (OrderPartiallyFilled eid timestamp oid quantity price))))"

definition oms_fill ::
  "oms_state \<Rightarrow> string \<Rightarrow> decimal \<Rightarrow> decimal \<Rightarrow> pyfloat \<Rightarrow> string \<Rightarrow> oms_state res" where
  "oms_fill st oid quantity price timestamp eid =
     rbind (book_find (os_orders st) oid) (\<lambda>ord.
     rbind (order_fill ord quantity price timestamp) (\<lambda>updated.
       oms_store st updated (Some (OrderFilled eid timestamp oid quantity price))))"

definition oms_trigger :: "oms_state \<Rightarrow> string \<Rightarrow> pyfloat \<Rightarrow> oms_state res" where
  "oms_trigger st oid timestamp =
     rbind (book_find (os_orders st) oid) (\<lambda>ord.
       if o_triggered ord \<noteq> None then Inr st
       else oms_store st (ord\<lparr>o_triggered := Some timestamp\<rparr>) None)"

definition oms_replace ::
  "oms_state \<Rightarrow> string \<Rightarrow> decimal \<Rightarrow> pyfloat \<Rightarrow> decimal option \<Rightarrow> string \<Rightarrow> oms_state res" where
  "oms_replace st oid quantity timestamp limit_price eid =
     rbind (book_find (os_orders st) oid) (\<lambda>ord.
     rbind (order_replace ord quantity timestamp limit_price) (\<lambda>updated.
       oms_store st updated (Some (OrderReplaced eid timestamp oid quantity limit_price))))"

section \<open>Views\<close>

definition active_orders :: "oms_state \<Rightarrow> order list res" where
  "active_orders st = rmap (book_find (os_orders st)) (os_active st)"

definition completed_orders :: "oms_state \<Rightarrow> order list res" where
  "completed_orders st = rmap (book_find (os_orders st)) (os_completed st)"

definition filled_volume :: "dctx \<Rightarrow> oms_state \<Rightarrow> string \<Rightarrow> decimal res" where
  "filled_volume amb st asset =
     rbind (orders_for_asset (os_orders st) asset) (\<lambda>orders.
       rfold (\<lambda>acc ord. dec_add amb acc (o_filled ord)) dec_zero orders)"

section \<open>The engine as one step function\<close>

datatype oms_op =
    Submit order pyfloat string
  | Apply string order_op string string \<comment> \<open>order, transition, reason of a rejection, event id\<close>
  | Trigger string pyfloat

fun oms_step :: "oms_op \<Rightarrow> oms_state \<Rightarrow> oms_state res" where
  "oms_step (Submit ord now eid) st = oms_submit st ord now eid"
| "oms_step (Apply oid (Accept t) reason eid) st = oms_accept st oid t eid"
| "oms_step (Apply oid (Reject t) reason eid) st = oms_reject st oid reason t eid"
| "oms_step (Apply oid (Cancel t) reason eid) st = oms_cancel st oid t eid"
| "oms_step (Apply oid (Expire t) reason eid) st = oms_expire st oid t eid"
| "oms_step (Apply oid (Partial_Fill q p t) reason eid) st = oms_partial_fill st oid q p t eid"
| "oms_step (Apply oid (Complete_Fill q p t) reason eid) st = oms_fill st oid q p t eid"
| "oms_step (Apply oid (Replace q t l) reason eid) st = oms_replace st oid q t l eid"
| "oms_step (Trigger oid t) st = oms_trigger st oid t"

fun event_of :: "oms_op \<Rightarrow> oms_event option" where
  "event_of (Submit ord now eid) = Some (OrderSubmitted eid now (o_id ord) ord)"
| "event_of (Apply oid (Accept t) reason eid) = Some (OrderAccepted eid t oid)"
| "event_of (Apply oid (Reject t) reason eid) = Some (OrderRejected eid t oid reason)"
| "event_of (Apply oid (Cancel t) reason eid) = Some (OrderCancelled eid t oid)"
| "event_of (Apply oid (Expire t) reason eid) = Some (OrderExpired eid t oid)"
| "event_of (Apply oid (Partial_Fill q p t) reason eid) = Some (OrderPartiallyFilled eid t oid q p)"
| "event_of (Apply oid (Complete_Fill q p t) reason eid) = Some (OrderFilled eid t oid q p)"
| "event_of (Apply oid (Replace q t l) reason eid) = Some (OrderReplaced eid t oid q l)"
| "event_of (Trigger oid t) = None"

lemma oms_step_apply:
  "oms_step (Apply oid op reason eid) st =
     rbind (book_find (os_orders st) oid) (\<lambda>ord.
     rbind (order_apply op ord) (\<lambda>updated. oms_store st updated (event_of (Apply oid op reason eid))))"
  by (cases op) (simp_all add: oms_accept_def oms_reject_def oms_cancel_def oms_expire_def oms_partial_fill_def
    oms_fill_def oms_replace_def)

section \<open>The invariant\<close>

text \<open>
  The active set, the completed set and the working index are functions of the book: the open orders
  in submission order, the closed ones, and the open ones of each asset in submission order.
\<close>

definition open_in :: "string \<Rightarrow> order \<Rightarrow> bool" where
  "open_in a ord = (is_open ord \<and> o_asset ord = a)"

definition oms_ok :: "oms_state \<Rightarrow> bool" where
  "oms_ok st \<longleftrightarrow>
     book_ok (os_orders st) \<and>
     os_active st = ids_where is_open (bk_orders (os_orders st)) \<and>
     distinct (os_completed st) \<and>
     set (os_completed st) = set (ids_where is_closed (bk_orders (os_orders st))) \<and>
     indexes (os_working st) open_in (bk_orders (os_orders st)) \<and>
     os_history st = os_events st"

lemma oms_initial_ok: "oms_ok oms_initial"
  by (simp add: oms_ok_def oms_initial_def indexes_def ids_where_def empty_book_def book_ok_def)

section \<open>Storing keeps the invariant\<close>

lemma ids_where_member:
  "od_ok m \<Longrightarrow> k \<in> set (ids_where P m) \<longleftrightarrow> (\<exists>ord. od_get m k = Some ord \<and> P ord)"
  by (force simp: ids_where_def od_get_in)

lemma ids_where_distinct: "od_ok m \<Longrightarrow> distinct (ids_where P m)"
  by (induction m) (auto simp: ids_where_def od_ok_def)

lemma indexes_leave:
  assumes ix: "indexes index P m" and ok: "od_ok m" and k: "od_get m k = Some old"
    and only: "\<And>key. P key old \<longleftrightarrow> key = a" and gone: "\<And>key. \<not> P key ord"
    and xs: "xs = filter (\<lambda>x. x \<noteq> k) (ids_where (P a) m)"
  shows "indexes (if xs = [] then od_del a index else od_set a xs index) P (od_set k ord m)"
proof -
  have other: "filter (\<lambda>x. x \<noteq> k) (ids_where (P b) m) = ids_where (P b) m" if "b \<noteq> a" for b
    using that only k by (intro filter_neq_id) (auto simp: ids_where_member [OF ok])
  have leave: "ids_where (P b) (od_set k ord m) = filter (\<lambda>x. x \<noteq> k) (ids_where (P b) m)" for b
    using ok k gone by (rule ids_where_leave)
  show ?thesis
    using indexesD [OF ix] indexes_ok [OF ix] other by (auto simp: indexes_def leave xs)
qed

lemma store_working_insert:
  assumes ix: "indexes index open_in m" and ord: "is_open ord" and k: "k \<notin> set (od_keys m)"
  shows "indexes (store_working index (o_asset ord) k True) open_in (m @ [(k, ord)])"
proof -
  have "k \<notin> set (ids_where (open_in (o_asset ord)) m)" using ids_where_subset k by fastforce
  then have "store_working index (o_asset ord) k True =
      od_set (o_asset ord) (with_member (od_get index (o_asset ord)) k) index"
    using indexesD [OF ix, of "o_asset ord"]
    by (auto simp: store_working_def with_member_def os_add_def)
  moreover have "open_in key ord \<longleftrightarrow> key = o_asset ord" for key using ord by (auto simp: open_in_def)
  ultimately show ?thesis using indexes_insert [OF ix k] by simp
qed

lemma store_working_same_add:
  "indexes index open_in m \<Longrightarrow> k \<in> set (ids_where (open_in a) m) \<Longrightarrow> store_working index a k True = index"
  using indexesD [of index open_in m a] by (auto simp: store_working_def os_add_def)

lemma store_working_same_discard:
  "indexes index open_in m \<Longrightarrow> k \<notin> set (ids_where (open_in a) m) \<Longrightarrow> store_working index a k False = index"
  using indexesD [of index open_in m a] by (auto simp: store_working_def os_discard_def)

lemma store_working_leave:
  assumes ix: "indexes index open_in m" and ok: "od_ok m" and k: "od_get m k = Some old" and old: "is_open old"
    and new: "is_closed ord"
  shows "indexes (store_working index (o_asset old) k False) open_in (od_set k ord m)"
proof -
  let ?ids = "ids_where (open_in (o_asset old)) m"
  have mem: "k \<in> set ?ids" using k old by (auto simp: ids_where_member [OF ok] open_in_def)
  then have held: "od_get index (o_asset old) = Some ?ids" using indexesD [OF ix, of "o_asset old"] by auto
  have "os_discard k ?ids \<noteq> ?ids" using mem unfolding os_discard_filter filter_id_conv by blast
  then have eq: "store_working index (o_asset old) k False =
      (if os_discard k ?ids = [] then od_del (o_asset old) index else od_set (o_asset old) (os_discard k ?ids) index)"
    using held by (simp add: store_working_def)
  have only: "\<And>key. open_in key old \<longleftrightarrow> key = o_asset old" and gone: "\<And>key. \<not> open_in key ord"
    using old new by (auto simp: open_in_def is_closed_def)
  show ?thesis unfolding eq by (rule indexes_leave [OF ix ok k only gone os_discard_filter])
qed

text \<open>What a caller of \<open>_store\<close> owes it, and what it does.\<close>

definition store_legal :: "oms_state \<Rightarrow> order \<Rightarrow> bool" where
  "store_legal st ord =
     (case od_get (bk_orders (os_orders st)) (o_id ord) of
        None \<Rightarrow> True
      | Some old \<Rightarrow> o_asset ord = o_asset old \<and> o_strategy ord = o_strategy old \<and> (is_open ord \<longrightarrow> is_open old))"

lemma oms_okD:
  assumes "oms_ok st"
  shows "book_ok (os_orders st)" "od_ok (bk_orders (os_orders st))"
    "os_active st = ids_where is_open (bk_orders (os_orders st))" "distinct (os_completed st)"
    "set (os_completed st) = set (ids_where is_closed (bk_orders (os_orders st)))"
    "indexes (os_working st) open_in (bk_orders (os_orders st))" "os_history st = os_events st"
  using assms book_okD(1) by (auto simp: oms_ok_def)

lemma store_new:
  assumes ok: "oms_ok st" and new: "od_get (bk_orders (os_orders st)) (o_id ord) = None"
  shows "\<exists>st'. oms_store st ord e = Inr st' \<and> oms_ok st' \<and>
    bk_orders (os_orders st') = od_set (o_id ord) ord (bk_orders (os_orders st)) \<and>
    os_history st' = os_history st @ (case e of None \<Rightarrow> [] | Some ev \<Rightarrow> [ev])"
proof -
  let ?m = "bk_orders (os_orders st)" and ?b = "book_add (os_orders st) ord"
  note d = oms_okD [OF ok]
  have k: "o_id ord \<notin> set (od_keys ?m)" using new by (simp add: od_get_None)
  have m': "bk_orders ?b = ?m @ [(o_id ord, ord)]" using add_members [OF d(1) new] .
  have out: "o_id ord \<notin> set (ids_where P ?m)" for P using k ids_where_subset [of P ?m] by auto
  have w: "indexes (store_working (os_working st) (o_asset ord) (o_id ord) (is_open ord)) open_in (?m @ [(o_id ord, ord)])"
  proof (cases "is_open ord")
    case True
    with store_working_insert [OF d(6) True k] show ?thesis by simp
  next
    case False
    then have "\<not> open_in key ord" for key by (simp add: open_in_def)
    with indexes_insert_none [OF d(6)] store_working_same_discard [OF d(6) out] False show ?thesis by simp
  qed
  show ?thesis
    using book_add_ok [OF d(1) new] w m' d(3-5,7) out new
    by (auto simp: oms_store_def book_contains_def oms_ok_def ids_where_append is_closed_def os_add_def os_discard_def
      od_set_absent [OF k] split: option.split)
qed

lemma store_existing:
  assumes ok: "oms_ok st" and old: "od_get (bk_orders (os_orders st)) (o_id ord) = Some old" and legal: "store_legal st ord"
  shows "\<exists>st'. oms_store st ord e = Inr st' \<and> oms_ok st' \<and>
    bk_orders (os_orders st') = od_set (o_id ord) ord (bk_orders (os_orders st)) \<and>
    os_history st' = os_history st @ (case e of None \<Rightarrow> [] | Some ev \<Rightarrow> [ev])"
proof -
  let ?m = "bk_orders (os_orders st)" and ?k = "o_id ord"
  note d = oms_okD [OF ok]
  have same: "o_asset ord = o_asset old" "o_strategy ord = o_strategy old" "is_open ord \<Longrightarrow> is_open old"
    using legal old by (auto simp: store_legal_def)
  obtain b' where b': "book_replace (os_orders st) ord = Inr b'" "book_ok b'" "bk_orders b' = od_set ?k ord ?m"
    using book_replace_ok [OF d(1) old same(1,2)] by auto
  have mem: "?k \<in> set (ids_where P ?m) \<longleftrightarrow> P old" for P using old by (simp add: ids_where_member [OF d(2)])
  have comp: "?k \<in> set (os_completed st) \<longleftrightarrow> is_closed old" using d(5) mem by simp
  define act where "act = (if is_open ord then os_add ?k (os_active st) else os_discard ?k (os_active st))"
  define com where "com = (if is_open ord then os_discard ?k (os_completed st) else os_add ?k (os_completed st))"
  define wor where "wor = store_working (os_working st) (o_asset ord) ?k (is_open ord)"
  have "act = ids_where is_open (od_set ?k ord ?m) \<and> distinct com \<and>
      set com = set (ids_where is_closed (od_set ?k ord ?m)) \<and> indexes wor open_in (od_set ?k ord ?m)"
  proof (cases "is_open ord = is_open old")
    case True
    then have eq: "open_in key ord = open_in key old" "is_closed ord = is_closed old" for key
      using same by (auto simp: open_in_def is_closed_def)
    have "act = os_active st" "com = os_completed st"
      using True mem [of is_open] comp d(3) by (auto simp: act_def com_def os_add_def os_discard_def is_closed_def)
    moreover have "wor = os_working st"
      using True mem [of "open_in (o_asset ord)"] same store_working_same_add [OF d(6)] store_working_same_discard [OF d(6)]
      by (cases "is_open ord") (auto simp: wor_def open_in_def)
    moreover have "indexes (os_working st) open_in (od_set ?k ord ?m)" using indexes_rewrite [OF d(6,2) old eq(1)] .
    moreover have "ids_where is_open (od_set ?k ord ?m) = ids_where is_open ?m"
      "ids_where is_closed (od_set ?k ord ?m) = ids_where is_closed ?m"
      using True eq(2) by (auto intro: ids_where_rewrite [OF d(2) old])
    ultimately show ?thesis using d(3-5) by simp
  next
    case False
    then have op: "is_open old" "is_closed ord" "\<not> is_closed old" "\<not> is_open ord" using same(3) by (auto simp: is_closed_def)
    have "act = ids_where is_open (od_set ?k ord ?m)"
      using op d(3) by (simp add: act_def os_discard_filter ids_where_leave [OF d(2) old])
    moreover have "com = os_completed st @ [?k]" using op comp by (simp add: com_def os_add_def)
    moreover have "set (ids_where is_closed (od_set ?k ord ?m)) = insert ?k (set (ids_where is_closed ?m))"
      using op old by (auto simp: ids_where_member [OF d(2)] ids_where_member [OF od_ok_set [OF d(2)]] split: if_splits)
    moreover have "indexes wor open_in (od_set ?k ord ?m)"
      using store_working_leave [OF d(6,2) old op(1,2)] op same(1) by (simp add: wor_def)
    ultimately show ?thesis using d(4,5) comp op by simp
  qed
  then show ?thesis
    using b' old d(7)
    by (auto simp: oms_store_def book_contains_def oms_ok_def act_def [symmetric] com_def [symmetric] wor_def [symmetric]
      split: option.split)
qed

lemma store_ok:
  assumes "oms_ok st" "store_legal st ord"
  shows "\<exists>st'. oms_store st ord e = Inr st' \<and> oms_ok st' \<and>
    bk_orders (os_orders st') = od_set (o_id ord) ord (bk_orders (os_orders st)) \<and>
    os_history st' = os_history st @ (case e of None \<Rightarrow> [] | Some ev \<Rightarrow> [ev])"
  using store_new [OF assms(1)] store_existing [OF assms(1) _ assms(2)]
  by (cases "od_get (bk_orders (os_orders st)) (o_id ord)") auto

section \<open>Every transition keeps the invariant\<close>

lemma apply_keeps:
  assumes "order_apply op ord = Inr ord'"
  shows "order_identity ord' = order_identity ord" "is_open ord"
proof -
  show "order_identity ord' = order_identity ord"
    using assms
    by (cases op)
      (auto simp: order_accept_def order_reject_def order_cancel_def order_expire_def order_partial_fill_def
        order_fill_def order_replace_def order_identity_def rbind_eq_Inr split: if_splits)
  have "ORDER_TRANSITIONS s e \<noteq> None \<Longrightarrow> s \<in> WORKING_ORDER_STATUSES" for s e
    by (cases s) (auto simp: ORDER_TRANSITIONS_def WORKING_ORDER_STATUSES_def TERMINAL_ORDER_STATUSES_def enum_UNIV)
  then have "order_next ord e = Inr t \<Longrightarrow> is_open ord" for e t
    by (auto simp: is_open_def order_next_def next_order_status_def rbind_eq_Inr split: option.splits)
  then show "is_open ord"
    using assms
    by (cases op)
      (auto simp: order_accept_def order_reject_def order_cancel_def order_expire_def order_partial_fill_def
        order_fill_def order_replace_def rbind_eq_Inr)
qed

lemma book_find_iff: "book_find b oid = Inr ord \<longleftrightarrow> od_get (bk_orders b) oid = Some ord"
  by (simp add: book_find_def split: option.split)

lemma store_legal_update:
  assumes ok: "oms_ok st" and f: "book_find (os_orders st) oid = Inr ord"
    and same: "o_id ord' = o_id ord" "o_asset ord' = o_asset ord" "o_strategy ord' = o_strategy ord" "is_open ord' \<Longrightarrow> is_open ord"
  shows "store_legal st ord'" "o_id ord' = oid"
  using f same book_get_id [OF oms_okD(1) [OF ok], of oid ord] by (auto simp: store_legal_def book_find_iff)

lemma oms_apply_result:
  assumes ok: "oms_ok st" and s: "oms_step (Apply oid op reason eid) st = Inr st'"
  obtains ord ord' where "od_get (bk_orders (os_orders st)) oid = Some ord" "order_apply op ord = Inr ord'"
    "oms_ok st'" "bk_orders (os_orders st') = od_set oid ord' (bk_orders (os_orders st))"
    "\<exists>ev. event_of (Apply oid op reason eid) = Some ev \<and> os_history st' = os_history st @ [ev]"
proof -
  from s obtain ord ord' where f: "book_find (os_orders st) oid = Inr ord" and a: "order_apply op ord = Inr ord'"
    and st: "oms_store st ord' (event_of (Apply oid op reason eid)) = Inr st'"
    by (auto simp: oms_step_apply rbind_eq_Inr)
  have same: "o_id ord' = o_id ord" "o_asset ord' = o_asset ord" "o_strategy ord' = o_strategy ord"
    using apply_keeps(1) [OF a] by (auto simp: order_identity_def)
  note leg = store_legal_update [OF ok f same apply_keeps(2) [OF a]]
  obtain ev where ev: "event_of (Apply oid op reason eid) = Some ev" by (cases op) auto
  from store_ok [OF ok leg(1), of "Some ev"] st leg(2) ev a f show thesis
    by (intro that) (auto simp: book_find_iff)
qed

lemma oms_submit_result:
  assumes ok: "oms_ok st" and s: "oms_submit st ord now eid = Inr st'"
  shows "od_get (bk_orders (os_orders st)) (o_id ord) = None" "validate_order ord now = Inr ()" "oms_ok st'"
    "bk_orders (os_orders st') = bk_orders (os_orders st) @ [(o_id ord, ord)]"
    "os_history st' = os_history st @ [OrderSubmitted eid now (o_id ord) ord]"
proof -
  from s obtain st1 where new: "od_get (bk_orders (os_orders st)) (o_id ord) = None" and v: "validate_order ord now = Inr ()"
    and st1: "oms_store st ord None = Inr st1" and st': "st' = append_event st1 (OrderSubmitted eid now (o_id ord) ord)"
    by (auto simp: oms_submit_def book_contains_def rbind_eq_Inr split: if_splits)
  have "store_legal st ord" using new by (simp add: store_legal_def)
  from store_ok [OF ok this, of None] st1 have r: "oms_ok st1" "os_history st1 = os_history st"
    "bk_orders (os_orders st1) = od_set (o_id ord) ord (bk_orders (os_orders st))" by auto
  show "od_get (bk_orders (os_orders st)) (o_id ord) = None" "validate_order ord now = Inr ()" by (rule new, rule v)
  show "oms_ok st'" using r(1) by (simp add: st' append_event_def oms_ok_def)
  show "bk_orders (os_orders st') = bk_orders (os_orders st) @ [(o_id ord, ord)]"
    using r(3) new by (simp add: st' append_event_def od_set_absent od_get_None)
  show "os_history st' = os_history st @ [OrderSubmitted eid now (o_id ord) ord]"
    using r(2) by (simp add: st' append_event_def)
qed

lemma oms_trigger_result:
  assumes ok: "oms_ok st" and s: "oms_trigger st oid t = Inr st'"
  obtains ord ord' where "od_get (bk_orders (os_orders st)) oid = Some ord"
    "ord' = (if o_triggered ord = None then ord\<lparr>o_triggered := Some t\<rparr> else ord)"
    "oms_ok st'" "bk_orders (os_orders st') = od_set oid ord' (bk_orders (os_orders st))"
    "os_history st' = os_history st"
proof -
  from s obtain ord where f: "book_find (os_orders st) oid = Inr ord" by (auto simp: oms_trigger_def rbind_eq_Inr)
  show thesis
  proof (cases "o_triggered ord")
    case None
    let ?ord = "ord\<lparr>o_triggered := Some t\<rparr>"
    have st: "oms_store st ?ord None = Inr st'" using s f None by (simp add: oms_trigger_def)
    have "is_open ?ord = is_open ord" by (simp add: is_open_def)
    with store_legal_update [OF ok f, of ?ord] have "store_legal st ?ord" "o_id ?ord = oid" by auto
    from store_ok [OF ok this(1), of None] this(2) st f None show thesis
      by (intro that [of ord ?ord]) (auto simp: book_find_iff)
  next
    case (Some u)
    have "od_set oid ord (bk_orders (os_orders st)) = bk_orders (os_orders st)"
      using f by (simp add: book_find_iff od_set_same)
    with Some s f ok show thesis by (intro that [of ord ord]) (auto simp: oms_trigger_def book_find_iff)
  qed
qed

lemma oms_step_ok: "oms_ok st \<Longrightarrow> oms_step op st = Inr st' \<Longrightarrow> oms_ok st'"
proof (cases op)
  case (Submit ord now eid)
  assume "oms_ok st" "oms_step op st = Inr st'"
  then show ?thesis using oms_submit_result(3) Submit by auto
next
  case (Apply oid op' reason eid)
  assume ok: "oms_ok st" and s: "oms_step op st = Inr st'"
  from oms_apply_result [OF ok s [unfolded Apply]] show ?thesis .
next
  case (Trigger oid t)
  assume ok: "oms_ok st" and s: "oms_step op st = Inr st'"
  with Trigger have "oms_trigger st oid t = Inr st'" by simp
  from oms_trigger_result [OF ok this] show ?thesis .
qed

section \<open>Reachable states\<close>

text \<open>The states the engine reaches by operations that satisfy \<open>P\<close>.\<close>

inductive oms_reachable :: "(oms_op \<Rightarrow> bool) \<Rightarrow> oms_state \<Rightarrow> bool" for P where
  Initial: "oms_reachable P oms_initial"
| Step: "oms_reachable P st \<Longrightarrow> P op \<Longrightarrow> oms_step op st = Inr st' \<Longrightarrow> oms_reachable P st'"

abbreviation any_op :: "oms_op \<Rightarrow> bool" where
  "any_op op \<equiv> True"

lemma oms_reachable_ok: "oms_reachable P st \<Longrightarrow> oms_ok st"
  by (induction rule: oms_reachable.induct) (auto intro: oms_initial_ok oms_step_ok)

text \<open>Operations that bring consistent orders and finite numbers.\<close>

fun sound_op :: "oms_op \<Rightarrow> bool" where
  "sound_op (Submit ord now eid) = order_ok ord"
| "sound_op (Apply oid op reason eid) = op_finite op"
| "sound_op (Trigger oid t) = True"

definition orders_ok :: "oms_state \<Rightarrow> bool" where
  "orders_ok st = (\<forall>k ord. od_get (bk_orders (os_orders st)) k = Some ord \<longrightarrow> order_ok ord)"

lemma oms_step_orders_ok:
  assumes ok: "oms_ok st" and ords: "orders_ok st" and sound: "sound_op op" and s: "oms_step op st = Inr st'"
  shows "orders_ok st'"
proof (cases op)
  case (Submit ord now eid)
  with s have "oms_submit st ord now eid = Inr st'" by simp
  from oms_submit_result [OF ok this] ords sound Submit show ?thesis
    by (auto simp: orders_ok_def od_get_def map_add_def split: option.splits if_splits)
next
  case (Apply oid op' reason eid)
  from oms_apply_result [OF ok s [unfolded Apply]] ords sound Apply show ?thesis
    by (metis od_get_set option.inject order_apply_ok orders_ok_def sound_op.simps(2))
next
  case (Trigger oid t)
  with s have "oms_trigger st oid t = Inr st'" by simp
  from oms_trigger_result [OF ok this] obtain ord ord' where
    o: "od_get (bk_orders (os_orders st)) oid = Some ord"
      "ord' = (if o_triggered ord = None then ord\<lparr>o_triggered := Some t\<rparr> else ord)"
      "bk_orders (os_orders st') = od_set oid ord' (bk_orders (os_orders st))" by blast
  then have "order_ok ord'" using ords by (auto simp: orders_ok_def order_ok_def)
  with o(3) ords show ?thesis by (simp add: orders_ok_def)
qed

lemma oms_reachable_orders: "oms_reachable sound_op st \<Longrightarrow> orders_ok st"
proof (induction rule: oms_reachable.induct)
  case Initial
  show ?case by (simp add: orders_ok_def oms_initial_def empty_book_def)
next
  case (Step st op st')
  then show ?case using oms_step_orders_ok [OF oms_reachable_ok [OF Step(1)]] by blast
qed

section \<open>The event log\<close>

text \<open>The operation an event records.\<close>

fun op_of :: "oms_event \<Rightarrow> oms_op" where
  "op_of (OrderSubmitted eid t oid ord) = Submit ord t eid"
| "op_of (OrderAccepted eid t oid) = Apply oid (Accept t) [] eid"
| "op_of (OrderRejected eid t oid reason) = Apply oid (Reject t) reason eid"
| "op_of (OrderCancelled eid t oid) = Apply oid (Cancel t) [] eid"
| "op_of (OrderExpired eid t oid) = Apply oid (Expire t) [] eid"
| "op_of (OrderReplaced eid t oid q l) = Apply oid (Replace q t l) [] eid"
| "op_of (OrderPartiallyFilled eid t oid q p) = Apply oid (Partial_Fill q p t) [] eid"
| "op_of (OrderFilled eid t oid q p) = Apply oid (Complete_Fill q p t) [] eid"

definition replay :: "oms_event list \<Rightarrow> oms_state res" where
  "replay evs = rfold (\<lambda>st e. oms_step (op_of e) st) oms_initial evs"

fun no_trigger :: "oms_op \<Rightarrow> bool" where
  "no_trigger (Trigger oid t) = False"
| "no_trigger _ = True"

lemma op_of_event: "event_of op = Some ev \<Longrightarrow> oms_step (op_of ev) st = oms_step op st"
  by (cases "(op, st)" rule: oms_step.cases) auto

lemma oms_step_logs:
  assumes "oms_ok st" "oms_step op st = Inr st'"
  shows "os_history st' = os_history st @ (case event_of op of None \<Rightarrow> [] | Some ev \<Rightarrow> [ev])"
proof (cases op)
  case (Submit ord now eid)
  with assms oms_submit_result(5) [OF assms(1)] show ?thesis by simp
next
  case (Apply oid op' reason eid)
  from oms_apply_result [OF assms(1) assms(2) [unfolded Apply]] Apply show ?thesis by fastforce
next
  case (Trigger oid t)
  with assms have "oms_trigger st oid t = Inr st'" by simp
  from oms_trigger_result [OF assms(1) this] Trigger show ?thesis by auto
qed

lemma replay_history: "oms_reachable no_trigger st \<Longrightarrow> replay (os_history st) = Inr st"
proof (induction rule: oms_reachable.induct)
  case Initial
  show ?case by (simp add: replay_def oms_initial_def)
next
  case (Step st op st')
  obtain ev where ev: "event_of op = Some ev" using Step(2) by (cases "(op, st)" rule: oms_step.cases) auto
  have "os_history st' = os_history st @ [ev]"
    using oms_step_logs [OF oms_reachable_ok [OF Step(1)] Step(3)] ev by simp
  moreover have "oms_step (op_of ev) st = Inr st'" using op_of_event [OF ev] Step(3) by simp
  ultimately show ?case using Step(4) by (simp add: replay_def rfold_append)
qed

text \<open>
  \<open>trigger\<close> records the instant a stop fired and logs nothing, so the log cannot give that instant
  back. It gives back everything else: no other operation reads it, and the state without the
  instants is moved by every logged operation just as the state itself is.
\<close>

definition untriggered_order :: "order \<Rightarrow> order" where
  "untriggered_order ord = ord\<lparr>o_triggered := None\<rparr>"

definition untriggered_book :: "book \<Rightarrow> book" where
  "untriggered_book b = b\<lparr>bk_orders := map (apsnd untriggered_order) (bk_orders b)\<rparr>"

definition untriggered :: "oms_state \<Rightarrow> oms_state" where
  "untriggered st = st\<lparr>os_orders := untriggered_book (os_orders st)\<rparr>"

lemma untriggered_order_simps [simp]:
  "o_id (untriggered_order ord) = o_id ord" "o_asset (untriggered_order ord) = o_asset ord"
  "o_strategy (untriggered_order ord) = o_strategy ord" "is_open (untriggered_order ord) = is_open ord"
  by (simp_all add: untriggered_order_def is_open_def)

lemma untriggered_get [simp]:
  "od_get (map (apsnd untriggered_order) m) k = map_option untriggered_order (od_get m k)"
  by (induction m) (auto simp: od_get_def)

lemma untriggered_set:
  "od_set k (untriggered_order ord) (map (apsnd untriggered_order) m) = map (apsnd untriggered_order) (od_set k ord m)"
  by (induction k ord m rule: od_set.induct) auto

lemma untriggered_apply:
  "order_apply op (untriggered_order ord) = map_sum id untriggered_order (order_apply op ord)"
proof -
  have "order_next (untriggered_order ord) e = order_next ord e" for e
    by (simp add: order_next_def untriggered_order_def)
  moreover have "filled_by (untriggered_order ord) q p = filled_by ord q p" for q p
    by (simp add: filled_by_def untriggered_order_def cong: if_cong)
  ultimately show ?thesis
    by (cases op) (auto simp: order_accept_def order_reject_def order_cancel_def order_expire_def order_partial_fill_def
      order_fill_def order_replace_def rbind_def untriggered_order_def cong: if_cong split: sum.split prod.split)
qed

lemma untriggered_store:
  "oms_store (untriggered st) (untriggered_order ord) e = map_sum id untriggered (oms_store st ord e)"
  by (simp add: oms_store_def untriggered_def untriggered_book_def book_contains_def book_replace_def book_add_def
    rbind_def untriggered_set split: option.split)

lemma untriggered_find:
  "book_find (untriggered_book b) oid = map_sum id untriggered_order (book_find b oid)"
  by (simp add: book_find_def untriggered_book_def split: option.split)

text \<open>A logged operation on the two states: the same answer, up to the instants.\<close>

lemma untriggered_step:
  assumes "no_trigger op" "oms_step op st = Inr st'" "untriggered st0 = untriggered st"
  shows "\<exists>st1. oms_step op st0 = Inr st1 \<and> untriggered st1 = untriggered st'"
proof (cases op)
  case (Submit ord now eid)
  have same: "book_contains (os_orders st0) (o_id ord) = book_contains (os_orders st) (o_id ord)"
    using arg_cong [OF assms(3), of "\<lambda>s. od_get (bk_orders (os_orders s)) (o_id ord)"]
    by (cases "od_get (bk_orders (os_orders st)) (o_id ord)")
      (auto simp: untriggered_def untriggered_book_def book_contains_def)
  from assms(2) Submit obtain st2 where s: "\<not> book_contains (os_orders st) (o_id ord)"
      "validate_order ord now = Inr ()" "oms_store st ord None = Inr st2"
      "st' = append_event st2 (OrderSubmitted eid now (o_id ord) ord)"
    by (auto simp: oms_submit_def rbind_eq_Inr split: if_splits)
  have "map_sum id untriggered (oms_store st0 ord None) = map_sum id untriggered (oms_store st ord None)"
    using assms(3) by (simp add: untriggered_store [symmetric])
  then obtain st3 where "oms_store st0 ord None = Inr st3" "untriggered st3 = untriggered st2"
    using s(3) by (cases "oms_store st0 ord None") auto
  moreover have "untriggered (append_event a e) = append_event (untriggered a) e" for a e
    by (simp add: untriggered_def append_event_def)
  ultimately show ?thesis using Submit s same by (simp add: oms_submit_def)
next
  case (Apply oid op' reason eid)
  let ?e = "event_of op"
  from assms(2) Apply obtain ord ord' where s: "book_find (os_orders st) oid = Inr ord" "order_apply op' ord = Inr ord'"
      "oms_store st ord' ?e = Inr st'"
    by (auto simp: oms_step_apply rbind_eq_Inr)
  have "untriggered_book (os_orders st0) = untriggered_book (os_orders st)"
    using arg_cong [OF assms(3), of os_orders] by (simp add: untriggered_def)
  then have "map_sum id untriggered_order (book_find (os_orders st0) oid) = map_sum id untriggered_order (Inr ord)"
    using s(1) untriggered_find [of "os_orders st0" oid] untriggered_find [of "os_orders st" oid] by simp
  then obtain ord0 where f: "book_find (os_orders st0) oid = Inr ord0" "untriggered_order ord0 = untriggered_order ord"
    by (cases "book_find (os_orders st0) oid") auto
  have "map_sum id untriggered_order (order_apply op' ord0) = map_sum id untriggered_order (Inr ord')"
    using f(2) s(2) untriggered_apply [of op' ord0] untriggered_apply [of op' ord] by simp
  then obtain ord1 where a: "order_apply op' ord0 = Inr ord1" "untriggered_order ord1 = untriggered_order ord'"
    by (cases "order_apply op' ord0") auto
  have "map_sum id untriggered (oms_store st0 ord1 ?e) = map_sum id untriggered (oms_store st ord' ?e)"
    using assms(3) a(2) by (simp add: untriggered_store [symmetric])
  then obtain st1 where "oms_store st0 ord1 ?e = Inr st1" "untriggered st1 = untriggered st'"
    using s(3) by (cases "oms_store st0 ord1 ?e") auto
  then show ?thesis using f a Apply by (simp add: oms_step_apply)
qed (use assms(1) in simp)

text \<open>Storing an order that is already in the book as it is changes nothing.\<close>

lemma store_same:
  assumes ok: "oms_ok st" and old: "od_get (bk_orders (os_orders st)) (o_id ord) = Some ord"
  shows "oms_store st ord None = Inr st"
proof -
  let ?m = "bk_orders (os_orders st)" and ?k = "o_id ord"
  note d = oms_okD [OF ok]
  have mem: "?k \<in> set (ids_where P ?m) \<longleftrightarrow> P ord" for P using old by (simp add: ids_where_member [OF d(2)])
  have w: "store_working (os_working st) (o_asset ord) ?k (is_open ord) = os_working st"
    using mem [of "open_in (o_asset ord)"] store_working_same_add [OF d(6)] store_working_same_discard [OF d(6)]
    by (cases "is_open ord") (auto simp: open_in_def)
  have "book_replace (os_orders st) ord = Inr (os_orders st)"
    using old by (simp add: book_replace_def od_set_same)
  then show ?thesis
    using w old mem [of is_open] mem [of is_closed] d(3,5)
    by (simp add: oms_store_def book_contains_def os_add_def os_discard_def is_closed_def)
qed

lemma untriggered_trigger:
  assumes ok: "oms_ok st" and s: "oms_trigger st oid t = Inr st'"
  shows "untriggered st' = untriggered st"
proof -
  from s obtain ord where f: "book_find (os_orders st) oid = Inr ord" by (auto simp: oms_trigger_def rbind_eq_Inr)
  show ?thesis
  proof (cases "o_triggered ord")
    case None
    let ?ord = "ord\<lparr>o_triggered := Some t\<rparr>"
    have "od_get (bk_orders (os_orders st)) (o_id ord) = Some ord"
      using f book_get_id [OF oms_okD(1) [OF ok], of oid ord] by (simp add: book_find_iff)
    from store_same [OF ok this] have "oms_store st ord None = Inr st" .
    moreover have "oms_store st ?ord None = Inr st'" using s f None by (simp add: oms_trigger_def)
    moreover have "untriggered_order ?ord = untriggered_order ord" by (simp add: untriggered_order_def)
    ultimately show ?thesis
      using untriggered_store [of st ord None] untriggered_store [of st ?ord None] by simp
  next
    case (Some u)
    with s f show ?thesis by (simp add: oms_trigger_def)
  qed
qed

lemma replay_untriggered:
  "oms_reachable P st \<Longrightarrow> \<exists>st0. replay (os_history st) = Inr st0 \<and> untriggered st0 = untriggered st"
proof (induction rule: oms_reachable.induct)
  case Initial
  show ?case by (simp add: replay_def oms_initial_def)
next
  case (Step st op st')
  have ok: "oms_ok st" using Step(1) by (rule oms_reachable_ok)
  from Step(4) obtain st0 where st0: "replay (os_history st) = Inr st0" "untriggered st0 = untriggered st" by blast
  note logs = oms_step_logs [OF ok Step(3)]
  show ?case
  proof (cases "event_of op")
    case None
    then obtain oid t where "op = Trigger oid t" by (cases "(op, st)" rule: oms_step.cases) auto
    with Step(3) have "oms_trigger st oid t = Inr st'" by simp
    from untriggered_trigger [OF ok this] logs None st0 show ?thesis by simp
  next
    case (Some ev)
    then have "no_trigger op" by (cases op) auto
    from untriggered_step [OF this Step(3) st0(2)] logs Some st0(1) show ?thesis
      by (auto simp: replay_def rfold_append op_of_event [OF Some])
  qed
qed

section \<open>Views\<close>

lemma find_ids: "book_ok b \<Longrightarrow> rmap (book_find b) (ids_where P (bk_orders b)) = Inr (filter P (book_orders b))"
proof -
  assume ok: "book_ok b"
  note d = book_okD [OF ok]
  have "rmap (book_find b) (map fst ps) = Inr (map snd ps)" if "set ps \<subseteq> set (bk_orders b)" for ps
    using that
  proof (induction ps)
    case (Cons p ps)
    then have "od_get (bk_orders b) (fst p) = Some (snd p)" using od_get_in [OF d(1), of "fst p" "snd p"] by simp
    with Cons show ?case by (simp add: book_find_def)
  qed simp
  from this [of "filter (\<lambda>p. P (snd p)) (bk_orders b)"] show ?thesis
    by (simp add: ids_where_def book_orders_def od_values_def filter_map comp_def)
qed

lemma ids_where_orders:
  "book_ok b \<Longrightarrow> ids_where P (bk_orders b) = map o_id (filter P (book_orders b))"
  using book_okD(2) [of b]
  by (auto simp: ids_where_def book_orders_def od_values_def filter_map comp_def intro!: map_cong)

text \<open>The completed set names each closed order of the book once.\<close>

lemma find_completed:
  assumes ok: "oms_ok st"
  shows "\<exists>cs. completed_orders st = Inr cs \<and> map o_id cs = os_completed st \<and>
    set cs = {ord \<in> set (book_orders (os_orders st)). is_closed ord}"
proof -
  let ?m = "bk_orders (os_orders st)" and ?at = "\<lambda>oid. the (od_get (bk_orders (os_orders st)) oid)"
  note d = oms_okD [OF ok]
  have at: "oid \<in> set (os_completed st) \<longleftrightarrow> (\<exists>ord. od_get ?m oid = Some ord \<and> is_closed ord)" for oid
    using d(5) by (simp add: ids_where_member [OF d(2)])
  have ids: "od_get ?m k = Some ord \<Longrightarrow> o_id ord = k" for k ord by (rule book_get_id [OF d(1)])
  have "completed_orders st = Inr (map ?at (os_completed st))"
    unfolding completed_orders_def by (rule rmap_Inr) (auto simp: at book_find_def)
  moreover have "map o_id (map ?at (os_completed st)) = os_completed st"
    by (rule nth_equalityI) (auto simp: at ids dest!: nth_mem)
  moreover have "?at ` set (os_completed st) = {ord \<in> set (book_orders (os_orders st)). is_closed ord}"
  proof (intro set_eqI iffI)
    fix ord assume "ord \<in> ?at ` set (os_completed st)"
    then obtain k where k: "od_get ?m k = Some ord" "is_closed ord" by (auto simp: at)
    from od_get_values [OF k(1)] k(2) show "ord \<in> {ord \<in> set (book_orders (os_orders st)). is_closed ord}"
      by (simp add: book_orders_def)
  next
    fix ord assume "ord \<in> {ord \<in> set (book_orders (os_orders st)). is_closed ord}"
    then obtain k where "od_get ?m k = Some ord" "is_closed ord"
      by (auto simp: book_orders_def od_values_def od_get_in [OF d(2)])
    then show "ord \<in> ?at ` set (os_completed st)" by (intro image_eqI [of _ _ k]) (auto simp: at)
  qed
  ultimately show ?thesis by auto
qed

section \<open>Properties\<close>

text \<open>C5: The OMS never loses track of an order: in every state its operations reach, the active
  orders are exactly the open orders of the book in submission order; the completed orders are its
  closed orders, each once; the working orders of an asset are its open orders, the orders of an
  asset all its orders and the orders of a strategy all that declare it, each in submission order;
  both logs hold the same events. No index names an order the book lacks, so the views of the
  active, the completed, an asset's and a strategy's orders never raise.\<close>

theorem oms_tracks_orders:
  assumes "oms_reachable any_op st"
  shows "active_orders st = Inr (filter is_open (book_orders (os_orders st))) \<and>
    (\<exists>cs. completed_orders st = Inr cs \<and> map o_id cs = os_completed st \<and>
       set cs = {ord \<in> set (book_orders (os_orders st)). is_closed ord}) \<and>
    distinct (os_completed st) \<and>
    set (os_completed st) = o_id ` {ord \<in> set (book_orders (os_orders st)). is_closed ord} \<and>
    working_orders_for st a =
      map o_id (filter (\<lambda>ord. is_open ord \<and> o_asset ord = a) (book_orders (os_orders st))) \<and>
    orders_for_asset (os_orders st) a = Inr (filter (\<lambda>ord. o_asset ord = a) (book_orders (os_orders st))) \<and>
    orders_for_strategy (os_orders st) s =
      Inr (filter (\<lambda>ord. s \<noteq> [] \<and> o_strategy ord = s) (book_orders (os_orders st))) \<and>
    os_history st = os_events st"
proof -
  have ok: "oms_ok st" using assms by (rule oms_reachable_ok)
  note d = oms_okD [OF ok]
  have "active_orders st = Inr (filter is_open (book_orders (os_orders st)))"
    using find_ids [OF d(1)] d(3) by (simp add: active_orders_def)
  moreover have "working_orders_for st a = ids_where (open_in a) (bk_orders (os_orders st))"
    using indexesD [OF d(6), of a] by (simp add: working_orders_for_def)
  moreover have "open_in a = (\<lambda>ord. is_open ord \<and> o_asset ord = a)" "by_asset a = (\<lambda>ord. o_asset ord = a)"
      "by_strategy s = (\<lambda>ord. s \<noteq> [] \<and> o_strategy ord = s)"
    by (simp_all add: open_in_def by_asset_def by_strategy_def fun_eq_iff)
  moreover have "orders_for_asset (os_orders st) a = Inr (filter (by_asset a) (book_orders (os_orders st)))"
      "orders_for_strategy (os_orders st) s = Inr (filter (by_strategy s) (book_orders (os_orders st)))"
    using index_query [OF d(1) book_okD(3) [OF d(1)], of a] index_query [OF d(1) book_okD(4) [OF d(1)], of s]
    by (simp_all add: orders_for_asset_def orders_for_strategy_def)
  ultimately show ?thesis using d(4,5,7) ids_where_orders [OF d(1)] find_completed [OF ok] by auto
qed

lemma example_submit:
  "oms_submit oms_initial example_order (FFin 1) ''e1'' =
   Inr \<lparr>os_orders = book_add empty_book example_order, os_active = [''o1''], os_completed = [],
        os_history = [OrderSubmitted ''e1'' (FFin 1) ''o1'' example_order],
        os_events = [OrderSubmitted ''e1'' (FFin 1) ''o1'' example_order], os_working = [(''A'', [''o1''])]\<rparr>"
proof -
  have "validate_order example_order (FFin 1) = Inr ()"
    by (simp add: validate_order_def example_order_def align_def)
  moreover have "is_open example_order"
    by (simp add: is_open_def example_order_def WORKING_ORDER_STATUSES_def enum_UNIV TERMINAL_ORDER_STATUSES_def)
  ultimately show ?thesis
    by (simp add: oms_submit_def oms_initial_def book_contains_def empty_book_def oms_store_def append_event_def
      store_working_def os_add_def os_discard_def) (simp add: example_order_def)
qed

lemma example_reachable:
  "P (Submit example_order (FFin 1) ''e1'') \<Longrightarrow> oms_submit oms_initial example_order (FFin 1) ''e1'' = Inr st \<Longrightarrow> oms_reachable P st"
  by (rule Step [OF Initial, of P "Submit example_order (FFin 1) ''e1''"]) simp_all

theorem oms_tracks_orders_witness:
  "\<exists>st. oms_reachable any_op st \<and> active_orders st = Inr [example_order] \<and> working_orders_for st ''A'' = [''o1'']"
proof -
  obtain st where st: "oms_submit oms_initial example_order (FFin 1) ''e1'' = Inr st"
    and w: "os_orders st = book_add empty_book example_order" "os_working st = [(''A'', [''o1''])]"
    using example_submit by simp
  have r: "oms_reachable any_op st" using example_reachable [of any_op, OF _ st] by simp
  have "filter is_open [example_order] = [example_order]"
    by (simp add: is_open_def example_order_def WORKING_ORDER_STATUSES_def enum_UNIV TERMINAL_ORDER_STATUSES_def)
  then have "active_orders st = Inr [example_order]"
    using oms_tracks_orders [OF r, of "''A''" "[]"] w
    by (simp add: book_orders_def book_add_def empty_book_def od_values_def)
  with r w show ?thesis by (auto simp: working_orders_for_def od_get_def)
qed

text \<open>C8: The event log is the OMS but for one field: from every state its operations reach, applying
  the events of its history, one after the other, to the empty state raises nothing and rebuilds
  the book, the active and completed sets, the indices and both logs, every order up to the instant
  its stop fired, which the engine does not log. A state reached without firing a stop is rebuilt
  exactly.\<close>

theorem oms_log_rebuilds_state:
  assumes "oms_reachable any_op st"
  shows "\<exists>st0. replay (os_history st) = Inr st0 \<and> untriggered st0 = untriggered st \<and>
    (oms_reachable no_trigger st \<longrightarrow> st0 = st)"
proof -
  from replay_untriggered [OF assms] obtain st0 where st0: "replay (os_history st) = Inr st0" "untriggered st0 = untriggered st"
    by blast
  moreover have "oms_reachable no_trigger st \<Longrightarrow> st0 = st" using replay_history [of st] st0(1) by simp
  ultimately show ?thesis by blast
qed

theorem oms_log_rebuilds_state_witness:
  "\<exists>st st0. oms_reachable any_op st \<and> map o_triggered (book_orders (os_orders st)) = [Some (FFin 2)] \<and>
     replay [OrderSubmitted ''e1'' (FFin 1) ''o1'' example_order] = Inr st0 \<and> st0 \<noteq> st \<and> untriggered st0 = untriggered st"
proof -
  obtain st1 where st1: "oms_submit oms_initial example_order (FFin 1) ''e1'' = Inr st1"
    and h: "os_history st1 = [OrderSubmitted ''e1'' (FFin 1) ''o1'' example_order]"
    and b: "os_orders st1 = book_add empty_book example_order"
    using example_submit by simp
  have m: "bk_orders (os_orders st1) = [(''o1'', example_order)]"
    by (simp add: b book_add_def empty_book_def) (simp add: example_order_def)
  have r1: "oms_reachable any_op st1" using example_reachable [OF _ st1, of any_op] by simp
  note ok = oms_reachable_ok [OF r1]
  have none: "o_triggered example_order = None" "o_id example_order = ''o1''" by (simp_all add: example_order_def)
  have "store_legal st1 (example_order\<lparr>o_triggered := Some (FFin 2)\<rparr>)"
    using none by (simp add: store_legal_def m od_get_Cons is_open_def)
  from store_ok [OF ok this, of None] obtain st where st: "oms_trigger st1 ''o1'' (FFin 2) = Inr st"
    using none by (auto simp: oms_trigger_def book_find_def m od_get_Cons)
  have r: "oms_reachable any_op st" by (rule Step [OF r1, of "Trigger ''o1'' (FFin 2)"]) (simp_all add: st)
  obtain o: "os_history st = os_history st1"
      and t: "map o_triggered (book_orders (os_orders st)) = [Some (FFin 2)]"
  proof (rule oms_trigger_result [OF ok st])
    fix ord ord'
    assume a: "od_get (bk_orders (os_orders st1)) ''o1'' = Some ord"
      "ord' = (if o_triggered ord = None then ord\<lparr>o_triggered := Some (FFin 2)\<rparr> else ord)"
      "bk_orders (os_orders st) = od_set ''o1'' ord' (bk_orders (os_orders st1))" "os_history st = os_history st1"
    show thesis
      by (rule that [OF a(4)]) (use a(1-3) none in \<open>simp add: m od_get_Cons book_orders_def od_values_def\<close>)
  qed
  have "replay (os_history st1) = Inr st1"
    using example_reachable [OF _ st1, of no_trigger] replay_history by simp
  then have h1: "replay (os_history st) = Inr st1" using o by simp
  have "map o_triggered (book_orders (os_orders st1)) = [None]" using none by (simp add: m book_orders_def od_values_def)
  with t have "st1 \<noteq> st" by auto
  with h1 oms_log_rebuilds_state [OF r] r t o h show ?thesis by auto
qed

text \<open>C10: A transition of the OMS does exactly what the order's own transition does: in every state the
  operations reach it raises for an unknown order or what the order raises, and nothing else -- no
  index is ever out of step -- and otherwise changes that one order and logs that one event.\<close>

theorem oms_transition_exact:
  assumes "oms_reachable any_op st"
  shows "case od_get (bk_orders (os_orders st)) oid of
      None \<Rightarrow> oms_step (Apply oid op reason eid) st = Inl UnknownOrderError
    | Some ord \<Rightarrow>
        (case order_apply op ord of
           Inl x \<Rightarrow> oms_step (Apply oid op reason eid) st = Inl x
         | Inr ord' \<Rightarrow> \<exists>st' ev. oms_step (Apply oid op reason eid) st = Inr st' \<and>
             bk_orders (os_orders st') = od_set oid ord' (bk_orders (os_orders st)) \<and>
             event_of (Apply oid op reason eid) = Some ev \<and> os_history st' = os_history st @ [ev])"
proof (cases "od_get (bk_orders (os_orders st)) oid")
  case None
  then show ?thesis by (simp add: oms_step_apply book_find_def)
next
  case (Some ord)
  have ok: "oms_ok st" using assms by (rule oms_reachable_ok)
  have f: "book_find (os_orders st) oid = Inr ord" using Some by (simp add: book_find_iff)
  show ?thesis
  proof (cases "order_apply op ord")
    case (Inl x)
    with Some show ?thesis by (simp add: oms_step_apply f)
  next
    case (Inr ord')
    have same: "o_id ord' = o_id ord" "o_asset ord' = o_asset ord" "o_strategy ord' = o_strategy ord"
      using apply_keeps(1) [OF Inr] by (auto simp: order_identity_def)
    have "store_legal st ord'" using store_legal_update(1) [OF ok f same apply_keeps(2) [OF Inr]] .
    from store_ok [OF ok this] obtain st' where "oms_store st ord' (event_of (Apply oid op reason eid)) = Inr st'" by blast
    then have s: "oms_step (Apply oid op reason eid) st = Inr st'" using Inr by (simp add: oms_step_apply f)
    from oms_apply_result [OF ok s] Some Inr s show ?thesis by fastforce
  qed
qed

theorem oms_transition_exact_witness:
  "oms_reachable any_op oms_initial \<and> oms_step (Apply ''o9'' (Cancel (FFin 1)) [] ''e1'') oms_initial = Inl UnknownOrderError"
  using oms_transition_exact [OF Initial, of "''o9''" "Cancel (FFin 1)" "[]" "''e1''"] Initial [of any_op]
  by (simp add: oms_initial_def empty_book_def)

text \<open>C11: No order of the OMS is ever overfilled: whatever orders, consistent when submitted, and
  whatever fills, amendments, cancels and rejections with finite numbers reach the OMS in whatever
  order, every order it holds has executed no more than its quantity and a status that says how much.\<close>

theorem oms_never_overfills:
  assumes "oms_reachable sound_op st" "ord \<in> set (book_orders (os_orders st))"
  shows "dval (o_filled ord) \<le> dval (o_quantity ord) \<and>
    status_agrees (o_status ord) (dval (o_filled ord)) (dval (o_quantity ord))"
proof -
  have d: "od_ok (bk_orders (os_orders st))" using oms_okD(2) [OF oms_reachable_ok [OF assms(1)]] .
  obtain k where "(k, ord) \<in> set (bk_orders (os_orders st))" using assms(2) by (auto simp: book_orders_def od_values_def)
  then have "order_ok ord" using oms_reachable_orders [OF assms(1)] d by (simp add: orders_ok_def od_get_in)
  then show ?thesis by (simp add: order_ok_def)
qed

theorem oms_never_overfills_witness:
  "\<exists>st. oms_reachable sound_op st \<and> example_order \<in> set (book_orders (os_orders st)) \<and>
     dval (o_filled example_order) \<le> dval (o_quantity example_order)"
proof -
  obtain st where st: "oms_submit oms_initial example_order (FFin 1) ''e1'' = Inr st"
    and w: "os_orders st = book_add empty_book example_order"
    using example_submit by simp
  have r: "oms_reachable sound_op st" using example_reachable [OF _ st, of sound_op] example_order_ok by simp
  have m: "example_order \<in> set (book_orders (os_orders st))"
    by (simp add: w book_orders_def book_add_def empty_book_def od_values_def)
  from oms_never_overfills [OF r m] r m show ?thesis by blast
qed

end
