(* ===== verification/Oms_Snapshot.thy ===== *)
theory Oms_Snapshot
  imports Oms_Engine
begin

text \<open>
  \<open>capture\<close> and \<open>restore\<close> of \<open>alphalab/oms/snapshot.py\<close>: the projection of a state that is written
  out, and the state rebuilt from it. Decoding the JSON text is not modelled.

  Two states are the same when they hold the same orders in the same order, the same sets and logs,
  and indices with the same entries: Python compares the mappings of a state by their entries.
\<close>

record event_record =
  er_type :: string
  er_event :: oms_event

record oms_snapshot =
  sn_orders :: "order list"
  sn_active :: "string list"
  sn_completed :: "string list"
  sn_history :: "event_record list"
  sn_events :: "event_record list"
  sn_schema :: int

definition OMS_SNAPSHOT_SCHEMA :: int where
  "OMS_SNAPSHOT_SCHEMA = 2"

fun event_type :: "oms_event \<Rightarrow> string" where
  "event_type (OrderSubmitted eid t oid ord) = ''OrderSubmitted''"
| "event_type (OrderAccepted eid t oid) = ''OrderAccepted''"
| "event_type (OrderRejected eid t oid reason) = ''OrderRejected''"
| "event_type (OrderCancelled eid t oid) = ''OrderCancelled''"
| "event_type (OrderExpired eid t oid) = ''OrderExpired''"
| "event_type (OrderReplaced eid t oid q l) = ''OrderReplaced''"
| "event_type (OrderPartiallyFilled eid t oid q p) = ''OrderPartiallyFilled''"
| "event_type (OrderFilled eid t oid q p) = ''OrderFilled''"

definition records :: "oms_event list \<Rightarrow> event_record list" where
  "records evs = map (\<lambda>e. \<lparr>er_type = event_type e, er_event = e\<rparr>) evs"

definition capture :: "oms_state \<Rightarrow> oms_snapshot" where
  "capture st =
     \<lparr>sn_orders = book_orders (os_orders st), sn_active = os_active st, sn_completed = os_completed st,
      sn_history = records (os_history st), sn_events = records (os_events st), sn_schema = OMS_SNAPSHOT_SCHEMA\<rparr>"

definition restore_working :: "book \<Rightarrow> string list \<Rightarrow> (string, string list) od res" where
  "restore_working b active =
     rfold (\<lambda>working oid.
       rbind (book_find b oid) (\<lambda>ord.
         let held = (case od_get working (o_asset ord) of None \<Rightarrow> [] | Some xs \<Rightarrow> xs)
         in Inr (od_set (o_asset ord) (os_add oid held) working))) [] active"

definition restore :: "oms_snapshot \<Rightarrow> oms_state res" where
  "restore sn =
     (let b = foldl book_add empty_book (sn_orders sn) in
      rbind (restore_working b (sn_active sn)) (\<lambda>working.
        Inr \<lparr>os_orders = b,
             os_active = foldl (\<lambda>xs x. os_add x xs) [] (sn_active sn),
             os_completed = foldl (\<lambda>xs x. os_add x xs) [] (sn_completed sn),
             os_history = map er_event (sn_history sn),
             os_events = map er_event (sn_events sn),
             os_working = working\<rparr>))"

section \<open>Sameness\<close>

definition same_entries :: "('k, 'v) od \<Rightarrow> ('k, 'v) od \<Rightarrow> bool" where
  "same_entries m n \<longleftrightarrow> (\<forall>k. od_get m k = od_get n k)"

definition same_state :: "oms_state \<Rightarrow> oms_state \<Rightarrow> bool" where
  "same_state s t \<longleftrightarrow>
     bk_orders (os_orders s) = bk_orders (os_orders t) \<and>
     same_entries (bk_by_asset (os_orders s)) (bk_by_asset (os_orders t)) \<and>
     same_entries (bk_by_strategy (os_orders s)) (bk_by_strategy (os_orders t)) \<and>
     os_active s = os_active t \<and> os_completed s = os_completed t \<and>
     os_history s = os_history t \<and> os_events s = os_events t \<and> same_entries (os_working s) (os_working t)"

lemma indexes_unique: "indexes i P m \<Longrightarrow> indexes j P m \<Longrightarrow> same_entries i j"
  by (simp add: indexes_def same_entries_def)

text \<open>The orders added one by one make the book they were listed from.\<close>

lemma restore_book:
  assumes "book_ok b" "bk_orders b = done" "od_ok (done @ rest)" "\<forall>(k, ord) \<in> set rest. o_id ord = k"
  shows "book_ok (foldl book_add b (map snd rest)) \<and> bk_orders (foldl book_add b (map snd rest)) = done @ rest"
  using assms
proof (induction rest arbitrary: b "done")
  case (Cons p rest)
  obtain k ord where p: "p = (k, ord)" and id: "o_id ord = k" using Cons.prems(4) by (cases p) auto
  have new: "od_get (bk_orders b) (o_id ord) = None"
    using Cons.prems(2,3) by (auto simp: p id od_get_None od_ok_def od_keys_def)
  have "bk_orders (book_add b ord) = done @ [p]" using add_members [OF Cons.prems(1) new] Cons.prems(2) by (simp add: p id)
  from Cons.IH [OF book_add_ok [OF Cons.prems(1) new] this] Cons.prems(3,4) show ?case by (simp add: p)
qed simp

text \<open>The working index rebuilt from the active orders.\<close>

definition gathers :: "(string, string list) od \<Rightarrow> book \<Rightarrow> string list \<Rightarrow> bool" where
  "gathers w b ids \<longleftrightarrow>
     od_ok w \<and>
     (\<forall>a. od_get w a =
       (let xs = filter (\<lambda>i. case od_get (bk_orders b) i of None \<Rightarrow> False | Some ord \<Rightarrow> o_asset ord = a) ids
        in if xs = [] then None else Some xs))"

lemma restore_working_gathers:
  assumes "gathers w b seen" "distinct (seen @ ids)" "\<forall>i \<in> set ids. od_get (bk_orders b) i \<noteq> None"
  shows "\<exists>w'. rfold (\<lambda>working oid.
       rbind (book_find b oid) (\<lambda>ord.
         let held = (case od_get working (o_asset ord) of None \<Rightarrow> [] | Some xs \<Rightarrow> xs)
         in Inr (od_set (o_asset ord) (os_add oid held) working))) w ids = Inr w' \<and> gathers w' b (seen @ ids)"
  using assms
proof (induction ids arbitrary: w seen)
  case (Cons i ids)
  obtain ord where ord: "od_get (bk_orders b) i = Some ord" using Cons.prems(3) by auto
  let ?w = "od_set (o_asset ord) (os_add i (case od_get w (o_asset ord) of None \<Rightarrow> [] | Some xs \<Rightarrow> xs)) w"
  have "gathers ?w b (seen @ [i])"
    using Cons.prems(1,2) ord by (auto simp: gathers_def Let_def os_add_def)
  from Cons.IH [OF this] Cons.prems(2,3) ord show ?case by (simp add: book_find_def)
qed simp

section \<open>Properties\<close>

text \<open>C9: Snapshots lose nothing: restoring what was captured of any state the OMS reaches succeeds
  and gives back the same state -- the same orders, index entries, active and completed sets, logs and
  working index -- which satisfies the OMS invariant again.\<close>

theorem snapshot_round_trip:
  assumes "oms_reachable any_op st"
  shows "\<exists>st'. restore (capture st) = Inr st' \<and> same_state st' st \<and> oms_ok st'"
proof -
  have ok: "oms_ok st" using assms by (rule oms_reachable_ok)
  note d = oms_okD [OF ok]
  let ?m = "bk_orders (os_orders st)"
  define b where "b = foldl book_add empty_book (book_orders (os_orders st))"
  have b: "book_ok b" "bk_orders b = ?m"
    using restore_book [of empty_book "[]" ?m] d(1,2)
    by (auto simp: b_def book_orders_def od_values_def book_ok_def empty_book_def indexes_def ids_where_def)
  have act: "distinct (os_active st)" using d(3) ids_where_distinct [OF d(2)] by simp
  have "gathers [] b []" by (simp add: gathers_def)
  moreover have "\<forall>i \<in> set (os_active st). od_get (bk_orders b) i \<noteq> None"
    unfolding d(3) b(2) by (auto simp: ids_where_member [OF d(2)])
  ultimately obtain w where w: "restore_working b (os_active st) = Inr w" "gathers w b (os_active st)"
    using restore_working_gathers [of "[]" b "[]" "os_active st"] act by (auto simp: restore_working_def)
  have filt: "filter (\<lambda>i. case od_get ?m i of None \<Rightarrow> False | Some ord \<Rightarrow> o_asset ord = a) (ids_where is_open ?m) =
      ids_where (open_in a) ?m" for a
  proof -
    have "set ps \<subseteq> set ?m \<Longrightarrow>
        filter (\<lambda>i. case od_get ?m i of None \<Rightarrow> False | Some ord \<Rightarrow> o_asset ord = a) (ids_where is_open ps) =
        ids_where (open_in a) ps" for ps
    proof (induction ps)
      case (Cons p ps)
      then have "od_get ?m (fst p) = Some (snd p)" using od_get_in [OF d(2), of "fst p" "snd p"] by simp
      with Cons show ?case by (auto simp: ids_where_def open_in_def)
    qed (simp add: ids_where_def)
    then show ?thesis by simp
  qed
  have ix: "indexes w open_in ?m" using w(2) b(2) d(3) filt by (simp add: gathers_def indexes_def Let_def)
  let ?st = "st\<lparr>os_orders := b, os_working := w\<rparr>"
  have "restore (capture st) = Inr ?st"
    using w(1) fold_os_add [of "[]" "os_active st"] fold_os_add [of "[]" "os_completed st"] act d(4)
    by (simp add: restore_def capture_def records_def b_def [symmetric] comp_def Let_def)
  moreover have "oms_ok ?st" using ok b ix by (simp add: oms_ok_def)
  moreover have "same_state ?st st"
    using indexes_unique [OF ix d(6)] b(2)
      indexes_unique [OF book_okD(3) [OF b(1), unfolded b(2)] book_okD(3) [OF d(1)]]
      indexes_unique [OF book_okD(4) [OF b(1), unfolded b(2)] book_okD(4) [OF d(1)]]
    by (simp add: same_state_def)
  ultimately show ?thesis by blast
qed

theorem snapshot_round_trip_witness:
  "\<exists>st st'. oms_reachable any_op st \<and> os_active st = [''o1''] \<and> restore (capture st) = Inr st' \<and> same_state st' st"
proof -
  obtain st where st: "oms_submit oms_initial example_order (FFin 1) ''e1'' = Inr st" "os_active st = [''o1'']"
    using example_submit by simp
  have r: "oms_reachable any_op st" using example_reachable [of any_op, OF _ st(1)] by simp
  from snapshot_round_trip [OF r] r st(2) show ?thesis by blast
qed

end
