(* ===== verification/Money.thy ===== *)
theory Money
  imports Currency_Units Texts
begin

text \<open>
  Money: \<open>alphalab/portfolio/money.py\<close> (\<open>to_money\<close>, \<open>notional\<close>), the cash ledger of
  \<open>alphalab/portfolio/cash.py\<close> and the per-currency accumulations of
  \<open>alphalab/portfolio/amounts.py\<close>.

  Methods that use bare operators run in the context of whoever calls them: it is their argument
  \<open>amb\<close>. The lemmas are about amounts that are whole minor units (\<open>at_unit\<close>): sums of them are
  whole minor units again, and a sum that is small enough is exact.
\<close>

section \<open>Rounding to money\<close>

definition ZERO_MONEY :: decimal where
  "ZERO_MONEY = Fin 0 0"

definition to_money :: "decimal \<Rightarrow> string \<Rightarrow> currency_units \<Rightarrow> decimal res" where
  "to_money amount currency units = round_money units amount currency"

definition notional ::
  "dctx \<Rightarrow> decimal \<Rightarrow> decimal \<Rightarrow> string \<Rightarrow> currency_units \<Rightarrow> decimal res" where
  "notional amb quantity price currency units =
     rbind (dec_abs amb quantity) (\<lambda>q.
     rbind (dec_mul ACCOUNTING_CONTEXT q price) (\<lambda>x. round_money units x currency))"

section \<open>The cash ledger\<close>

record cash_ledger =
  balances :: "(string, decimal) od"
  reserved :: "(string, decimal) od"

definition empty_cash :: cash_ledger where
  "empty_cash = \<lparr>balances = [], reserved = []\<rparr>"

definition amount_of :: "(string, decimal) od \<Rightarrow> string \<Rightarrow> decimal" where
  "amount_of m currency = (case od_get m currency of None \<Rightarrow> ZERO_MONEY | Some x \<Rightarrow> x)"

definition cash_balance :: "cash_ledger \<Rightarrow> string \<Rightarrow> decimal" where
  "cash_balance l currency = amount_of (balances l) currency"

definition available_cash :: "dctx \<Rightarrow> cash_ledger \<Rightarrow> string \<Rightarrow> decimal res" where
  "available_cash amb l currency =
     dec_sub amb (cash_balance l currency) (amount_of (reserved l) currency)"

definition cash_deposit :: "dctx \<Rightarrow> decimal \<Rightarrow> string \<Rightarrow> cash_ledger \<Rightarrow> cash_ledger res" where
  "cash_deposit amb amount currency l =
     rbind (dec_add amb (amount_of (balances l) currency) amount) (\<lambda>total.
       Inr (l\<lparr>balances := od_set currency total (balances l)\<rparr>))"

definition cash_withdraw :: "dctx \<Rightarrow> decimal \<Rightarrow> string \<Rightarrow> cash_ledger \<Rightarrow> cash_ledger res" where
  "cash_withdraw amb amount currency l =
     rbind (available_cash amb l currency) (\<lambda>avail.
     rbind (dec_lt avail amount) (\<lambda>short.
       if short then Inl InsufficientFundsError
       else rbind (dec_sub amb (amount_of (balances l) currency) amount) (\<lambda>total.
         Inr (l\<lparr>balances := od_set currency total (balances l)\<rparr>))))"

definition cash_settle :: "dctx \<Rightarrow> decimal \<Rightarrow> string \<Rightarrow> cash_ledger \<Rightarrow> cash_ledger res" where
  "cash_settle amb amount currency l =
     rbind (dec_add amb (amount_of (balances l) currency) amount) (\<lambda>total.
       Inr (l\<lparr>balances := od_set currency total (balances l)\<rparr>))"

definition cash_reserve :: "dctx \<Rightarrow> decimal \<Rightarrow> string \<Rightarrow> cash_ledger \<Rightarrow> cash_ledger res" where
  "cash_reserve amb amount currency l =
     rbind (available_cash amb l currency) (\<lambda>avail.
     rbind (dec_lt avail amount) (\<lambda>short.
       if short then Inl InsufficientFundsError
       else rbind (dec_add amb (amount_of (reserved l) currency) amount) (\<lambda>total.
         Inr (l\<lparr>reserved := od_set currency total (reserved l)\<rparr>))))"

text \<open>The builtin \<open>min(a, b)\<close>: the second argument only when it is smaller.\<close>

definition dec_min :: "decimal \<Rightarrow> decimal \<Rightarrow> decimal res" where
  "dec_min a b = rbind (dec_lt b a) (\<lambda>less. Inr (if less then b else a))"

definition cash_release :: "dctx \<Rightarrow> decimal \<Rightarrow> string \<Rightarrow> cash_ledger \<Rightarrow> cash_ledger res" where
  "cash_release amb amount currency l =
     (let current_res = amount_of (reserved l) currency in
      rbind (dec_min amount current_res) (\<lambda>release_amt.
      rbind (dec_sub amb current_res release_amt) (\<lambda>left.
        Inr (l\<lparr>reserved := od_set currency left (reserved l)\<rparr>))))"

section \<open>Amounts per currency\<close>

type_synonym currency_amounts = "(string, decimal) od"

definition amounts_single :: "decimal \<Rightarrow> string \<Rightarrow> currency_amounts" where
  "amounts_single amount currency = [(currency, amount)]"

definition amounts_of :: "currency_amounts \<Rightarrow> string \<Rightarrow> decimal" where
  "amounts_of a currency = amount_of a currency"

definition amounts_add :: "decimal \<Rightarrow> string \<Rightarrow> currency_amounts \<Rightarrow> currency_amounts res" where
  "amounts_add amount currency a =
     (if blank currency then Inl PortfolioError
      else rbind (dec_add ACCOUNTING_CONTEXT (amounts_of a currency) amount) (\<lambda>total.
        Inr (od_set currency total a)))"

definition amounts_currencies :: "currency_amounts \<Rightarrow> string list" where
  "amounts_currencies a = sort (od_keys a)"

definition is_single_currency :: "currency_amounts \<Rightarrow> bool" where
  "is_single_currency a = (length a \<le> 1)"

section \<open>Whole minor units\<close>

text \<open>
  An amount written at a minor unit of \<open>u\<close> decimals or coarser: a whole number of minor units.
  The bound \<open>10^33\<close> minor units leaves one digit of the accounting precision unused, so that a
  sum of two amounts below it is never rounded.
\<close>

fun at_unit :: "int \<Rightarrow> decimal \<Rightarrow> bool" where
  "at_unit u (Fin c e) = (- u \<le> e)"
| "at_unit u _ = False"

definition small :: "int \<Rightarrow> decimal \<Rightarrow> bool" where
  "small u d = (\<bar>dval d\<bar> < 10 powi (33 - u))"

abbreviation below :: "int \<Rightarrow> decimal \<Rightarrow> bool" where
  "below u d \<equiv> \<bar>dval d\<bar> < 10 powi (34 - u)"

lemma at_unit_finite [simp]: "at_unit u d \<Longrightarrow> is_finite d"
  by (cases d) simp_all

lemma at_unit_whole: "at_unit u d \<Longrightarrow> \<exists>k::int. dval d = of_int k * 10 powi (- u)"
proof (cases d)
  case (Fin c e)
  assume "at_unit u d"
  then have "(10::rat) powi e = 10 ^ nat (e + u) * 10 powi (- u)" using powi_split [of "- u" e] by (simp add: Fin)
  then have "dval d = of_int (c * 10 ^ nat (e + u)) * 10 powi (- u)" by (simp add: Fin dval.simps(1))
  then show ?thesis by blast
qed simp_all

lemma at_unit_zero [simp]: "0 \<le> u \<Longrightarrow> at_unit u ZERO_MONEY" "dval ZERO_MONEY = 0" "is_finite ZERO_MONEY"
  by (simp_all add: ZERO_MONEY_def)

lemma small_zero [simp]: "small u ZERO_MONEY"
  by (simp add: small_def)

lemma at_unit_neg [simp]: "at_unit u (dec_neg_exact d) = at_unit u d"
  by (cases d) simp_all

lemma small_neg [simp]: "small u (dec_neg_exact d) = small u d"
  by (simp add: small_def)

text \<open>Rounding to the accounting context keeps an amount at its unit.\<close>

abbreviation unit_range :: "int \<Rightarrow> bool" where
  "unit_range u \<equiv> 0 \<le> u \<and> u \<le> MAX_MINOR_UNITS"

lemma at_unit_fix:
  assumes "dec_fix ACCOUNTING_CONTEXT d = Inr r" "at_unit u d" "0 \<le> u"
  shows "at_unit u r"
proof -
  obtain c e where d: "d = Fin c e" using assms(2) by (cases d) auto
  obtain c' e' where r: "r = Fin c' e'" using assms(1) dec_fix_finite [of d ACCOUNTING_CONTEXT r] by (auto simp: d is_finite_iff)
  show ?thesis
  proof (cases "e \<le> Emax ACCOUNTING_CONTEXT")
    case True
    with dec_fix_exponent [of ACCOUNTING_CONTEXT c e c' e'] assms show ?thesis by (simp add: d r)
  next
    case False
    then have "c = 0" using assms(1) dec_fix_huge_exponent [of ACCOUNTING_CONTEXT c e r] by (simp add: d)
    with False assms show ?thesis by (auto simp: d r dec_fix.simps(1))
  qed
qed

text \<open>An operation whose result is small is exact.\<close>

lemma fix_small_exact:
  assumes "dec_fix ACCOUNTING_CONTEXT d = Inr r" "at_unit u d" "unit_range u"
    and "\<bar>dval r\<bar> < 10 powi (34 - u)"
  shows "dval r = dval d"
proof -
  obtain c e where d: "d = Fin c e" using assms(2) by (cases d) auto
  show ?thesis
  proof (cases "e \<le> 999999")
    case True
    have "(10::rat) powi (34 - u) \<le> 10 powi (e + int 34)"
      using assms(2) by (intro power_int_increasing) (simp_all add: d)
    with assms(4) have "\<bar>dval r\<bar> < 10 powi (e + int (prec ACCOUNTING_CONTEXT))" by simp
    moreover have "Etiny ACCOUNTING_CONTEXT \<le> e" using assms(2,3) by (simp add: d MAX_MINOR_UNITS_def)
    ultimately have "r = Fin c e"
      using dec_fix_small_exact [of ACCOUNTING_CONTEXT c e r] assms(1) True by (simp add: d)
    then show ?thesis by (simp add: d)
  next
    case False
    then have "c = 0" using assms(1) dec_fix_huge_exponent [of ACCOUNTING_CONTEXT c e r] by (simp add: d)
    with False assms show ?thesis by (auto simp: d dec_fix.simps(1))
  qed
qed

lemma at_unit_add_exact: "at_unit u a \<Longrightarrow> at_unit u b \<Longrightarrow> at_unit u (add_exact a b)"
  by (cases a; cases b) (simp_all add: Let_def)

lemma at_unit_add: "dec_add ACCOUNTING_CONTEXT a b = Inr r \<Longrightarrow> at_unit u a \<Longrightarrow> at_unit u b \<Longrightarrow> 0 \<le> u \<Longrightarrow> at_unit u r"
  using at_unit_fix [of "add_exact a b" r u] by (simp add: dec_add_fix at_unit_add_exact)

lemma at_unit_sub: "dec_sub ACCOUNTING_CONTEXT a b = Inr r \<Longrightarrow> at_unit u a \<Longrightarrow> at_unit u b \<Longrightarrow> 0 \<le> u \<Longrightarrow> at_unit u r"
  using at_unit_add [of a "dec_neg_exact b" r u] by (simp add: dec_sub_def)

lemma add_small_exact:
  "dec_add ACCOUNTING_CONTEXT a b = Inr r \<Longrightarrow> at_unit u a \<Longrightarrow> at_unit u b \<Longrightarrow> unit_range u \<Longrightarrow>
   \<bar>dval r\<bar> < 10 powi (34 - u) \<Longrightarrow> dval r = dval a + dval b"
  using fix_small_exact [of "add_exact a b" r u] by (simp add: dec_add_fix at_unit_add_exact)

lemma sub_small_exact:
  "dec_sub ACCOUNTING_CONTEXT a b = Inr r \<Longrightarrow> at_unit u a \<Longrightarrow> at_unit u b \<Longrightarrow> unit_range u \<Longrightarrow>
   \<bar>dval r\<bar> < 10 powi (34 - u) \<Longrightarrow> dval r = dval a - dval b"
  using add_small_exact [of a "dec_neg_exact b" r u] by (simp add: dec_sub_def)

lemma small_less: "small u d \<Longrightarrow> \<bar>dval d\<bar> < 10 powi (34 - u)"
proof -
  assume "small u d"
  then have "\<bar>dval d\<bar> < 10 powi (33 - u)" by (simp add: small_def)
  also have "\<dots> \<le> 10 powi (34 - u)" by (intro power_int_increasing) auto
  finally show ?thesis .
qed

text \<open>A handful of small amounts is still below the bound.\<close>

lemma ten_small: "(10::rat) * 10 powi (33 - u) = 10 powi (34 - u)"
  using power_int_add_1 [of "10::rat" "33 - u"] by (simp add: mult.commute)

lemma at_unit_round_money:
  assumes "units_ok units" "minor_units units currency = Inr u" "is_finite a"
    and "round_money units a currency = Inr r"
  shows "at_unit u r"
  using assms by (auto elim!: round_money_result)

lemma minor_units_unit_range: "units_ok units \<Longrightarrow> minor_units units c = Inr u \<Longrightarrow> unit_range u"
  by (rule minor_units_range)

text \<open>And a sum that would be small is computed, exactly.\<close>

lemma fix_small_ok:
  assumes "at_unit u d" "unit_range u" "\<bar>dval d\<bar> < 10 powi (34 - u)"
  obtains r where "dec_fix ACCOUNTING_CONTEXT d = Inr r" "at_unit u r" "dval r = dval d"
proof -
  obtain c e where d: "d = Fin c e" using assms(1) by (cases d) auto
  have "\<exists>r. dec_fix ACCOUNTING_CONTEXT d = Inr r \<and> dval r = dval d"
  proof (cases "c = 0")
    case True
    then show ?thesis by (simp add: d dec_fix.simps(1))
  next
    case False
    have dig: "e + int (num_digits (nat \<bar>c\<bar>)) \<le> 34 - u"
      using digits_magnitude [OF False] assms(3) by (simp only: d)
    with assms(1,2) have "num_digits (nat \<bar>c\<bar>) \<le> 34" "Etiny ACCOUNTING_CONTEXT \<le> e"
      by (simp_all add: d MAX_MINOR_UNITS_def)
    with dig assms(2) have "fits ACCOUNTING_CONTEXT (Fin c e)" by simp
    then have "dec_fix ACCOUNTING_CONTEXT (Fin c e) = Inr (Fin c e)" by (rule dec_fix_fits)
    then show ?thesis by (simp add: d)
  qed
  then obtain r where "dec_fix ACCOUNTING_CONTEXT d = Inr r" "dval r = dval d" by blast
  with at_unit_fix [OF this(1) assms(1)] assms(2) that show thesis by blast
qed

lemma add_small_ok:
  assumes "at_unit u a" "at_unit u b" "unit_range u" "\<bar>dval a + dval b\<bar> < 10 powi (34 - u)"
  obtains r where "dec_add ACCOUNTING_CONTEXT a b = Inr r" "at_unit u r" "dval r = dval a + dval b"
  using fix_small_ok [of u "add_exact a b"] assms by (auto simp: at_unit_add_exact dec_add_fix)

lemma sub_small_ok:
  assumes "at_unit u a" "at_unit u b" "unit_range u" "\<bar>dval a - dval b\<bar> < 10 powi (34 - u)"
  obtains r where "dec_sub ACCOUNTING_CONTEXT a b = Inr r" "at_unit u r" "dval r = dval a - dval b"
  using add_small_ok [of u a "dec_neg_exact b"] assms by (auto simp: dec_sub_def)

lemma small_diff: "small u a \<Longrightarrow> small u b \<Longrightarrow> \<bar>dval a - dval b\<bar> < 10 powi (34 - u)"
  unfolding small_def ten_small [of u, symmetric] by linarith

lemma small_plus: "small u a \<Longrightarrow> small u b \<Longrightarrow> \<bar>dval a + dval b\<bar> < 10 powi (34 - u)"
  unfolding small_def ten_small [of u, symmetric] by linarith

section \<open>Reservations are covered\<close>

text \<open>
  The operations a caller spends and reserves by. \<open>settle\<close> is not one of them: it records an
  obligation whether or not cash covers it.
\<close>

datatype cash_op = Deposit | Withdraw | Reserve | Release

fun cash_step :: "cash_op \<Rightarrow> decimal \<Rightarrow> string \<Rightarrow> cash_ledger \<Rightarrow> cash_ledger res" where
  "cash_step Deposit = cash_deposit ACCOUNTING_CONTEXT"
| "cash_step Withdraw = cash_withdraw ACCOUNTING_CONTEXT"
| "cash_step Reserve = cash_reserve ACCOUNTING_CONTEXT"
| "cash_step Release = cash_release ACCOUNTING_CONTEXT"

inductive cash_run :: "int \<Rightarrow> string \<Rightarrow> cash_ledger \<Rightarrow> bool" for u currency where
  start: "cash_run u currency empty_cash"
| step: "cash_run u currency l \<Longrightarrow> cash_step oper amount c l = Inr l' \<Longrightarrow> at_unit u amount \<Longrightarrow>
    0 \<le> dval amount \<Longrightarrow> small u (cash_balance l' currency) \<Longrightarrow>
    small u (amount_of (reserved l') currency) \<Longrightarrow> cash_run u currency l'"

definition covered :: "int \<Rightarrow> string \<Rightarrow> cash_ledger \<Rightarrow> bool" where
  "covered u c l =
     (at_unit u (cash_balance l c) \<and> at_unit u (amount_of (reserved l) c) \<and>
      small u (cash_balance l c) \<and> small u (amount_of (reserved l) c) \<and>
      0 \<le> dval (amount_of (reserved l) c) \<and> dval (amount_of (reserved l) c) \<le> dval (cash_balance l c))"

lemma amount_of_set [simp]: "amount_of (od_set k v m) c = (if c = k then v else amount_of m c)"
  by (simp add: amount_of_def)

lemma amount_of_Nil [simp]: "amount_of [] c = ZERO_MONEY"
  by (simp add: amount_of_def)

lemma covered_available:
  assumes "covered u c l" "unit_range u"
  obtains v where "available_cash ACCOUNTING_CONTEXT l c = Inr v" "at_unit u v"
    "dval v = dval (cash_balance l c) - dval (amount_of (reserved l) c)"
proof -
  have "\<bar>dval (cash_balance l c) - dval (amount_of (reserved l) c)\<bar> < 10 powi (34 - u)"
    using assms(1) by (intro small_diff) (simp_all add: covered_def)
  then show thesis
    using that sub_small_ok [of u "cash_balance l c" "amount_of (reserved l) c"] assms
    unfolding covered_def available_cash_def by blast
qed

lemma cash_step_other: "cash_step oper a c' l = Inr l' \<Longrightarrow> c' \<noteq> c \<Longrightarrow>
    cash_balance l' c = cash_balance l c \<and> amount_of (reserved l') c = amount_of (reserved l) c"
  by (cases oper)
    (auto simp: cash_deposit_def cash_withdraw_def cash_reserve_def cash_release_def cash_balance_def
      Let_def rbind_eq_Inr split: if_splits)

lemma cash_step_covered:
  assumes inv: "covered u c l" and u: "unit_range u" and run: "cash_step oper a c l = Inr l'"
    and a: "at_unit u a" "0 \<le> dval a"
    and fits: "small u (cash_balance l' c)" "small u (amount_of (reserved l') c)"
  shows "covered u c l'"
proof -
  note I = inv [unfolded covered_def]
  obtain v where v: "available_cash ACCOUNTING_CONTEXT l c = Inr v" "at_unit u v"
    "dval v = dval (cash_balance l c) - dval (amount_of (reserved l) c)"
    using covered_available [OF inv u] .
  show ?thesis
  proof (cases oper)
    case Deposit
    then obtain t where t: "dec_add ACCOUNTING_CONTEXT (cash_balance l c) a = Inr t"
      and l': "l' = l\<lparr>balances := od_set c t (balances l)\<rparr>"
      using run by (auto simp: cash_deposit_def cash_balance_def rbind_eq_Inr)
    have t1: "at_unit u t" using at_unit_add [OF t _ a(1)] I u by blast
    have "small u t" using fits(1) by (simp add: l' cash_balance_def)
    with add_small_exact [OF t _ a(1) u small_less] I have "dval t = dval (cash_balance l c) + dval a" by blast
    with t1 I a fits show ?thesis by (simp add: covered_def l' cash_balance_def)
  next
    case Withdraw
    then obtain t where t: "dec_sub ACCOUNTING_CONTEXT (cash_balance l c) a = Inr t" "\<not> dval v < dval a"
      and l': "l' = l\<lparr>balances := od_set c t (balances l)\<rparr>"
      using run v a by (auto simp: cash_withdraw_def cash_balance_def rbind_eq_Inr split: if_splits)
    have t1: "at_unit u t" using at_unit_sub [OF t(1) _ a(1)] I u by blast
    have "small u t" using fits(1) by (simp add: l' cash_balance_def)
    with sub_small_exact [OF t(1) _ a(1) u small_less] I have "dval t = dval (cash_balance l c) - dval a" by blast
    with t1 I t(2) v(3) fits show ?thesis by (simp add: covered_def l' cash_balance_def)
  next
    case Reserve
    then obtain t where t: "dec_add ACCOUNTING_CONTEXT (amount_of (reserved l) c) a = Inr t" "\<not> dval v < dval a"
      and l': "l' = l\<lparr>reserved := od_set c t (reserved l)\<rparr>"
      using run v a by (auto simp: cash_reserve_def rbind_eq_Inr split: if_splits)
    have t1: "at_unit u t" using at_unit_add [OF t(1) _ a(1)] I u by blast
    have "small u t" using fits(2) by (simp add: l')
    with add_small_exact [OF t(1) _ a(1) u small_less] I
    have "dval t = dval (amount_of (reserved l) c) + dval a" by blast
    with t1 I t(2) v(3) a fits show ?thesis by (simp add: covered_def l' cash_balance_def)
  next
    case Release
    then obtain x t where x: "dec_min a (amount_of (reserved l) c) = Inr x"
      and t: "dec_sub ACCOUNTING_CONTEXT (amount_of (reserved l) c) x = Inr t"
      and l': "l' = l\<lparr>reserved := od_set c t (reserved l)\<rparr>"
      using run by (auto simp: cash_release_def Let_def rbind_eq_Inr)
    have x1: "at_unit u x" "0 \<le> dval x" "dval x \<le> dval (amount_of (reserved l) c)"
      using x I a by (auto simp: dec_min_def)
    have t1: "at_unit u t" using at_unit_sub [OF t _ x1(1)] I u by blast
    have "small u t" using fits(2) by (simp add: l')
    with sub_small_exact [OF t _ x1(1) u small_less] I
    have "dval t = dval (amount_of (reserved l) c) - dval x" by blast
    with t1 I x1 fits show ?thesis by (simp add: covered_def l' cash_balance_def)
  qed
qed

lemma cash_run_covered: "cash_run u c l \<Longrightarrow> unit_range u \<Longrightarrow> covered u c l"
proof (induction rule: cash_run.induct)
  case start
  then show ?case by (simp add: covered_def empty_cash_def cash_balance_def)
next
  case (step l oper amount c' l')
  then show ?case
    using cash_step_covered [of u c l oper amount l'] cash_step_other [of oper amount c' l l' c]
    by (cases "c' = c") (auto simp: covered_def)
qed

text \<open>C17: whatever is deposited, withdrawn, reserved and released, a currency's reservations stay
  within its balance and the cash it reports as available is exactly the rest, never negative.\<close>

theorem cash_never_overdrawn:
  assumes "cash_run u c l" "unit_range u"
  shows "0 \<le> dval (amount_of (reserved l) c) \<and> dval (amount_of (reserved l) c) \<le> dval (cash_balance l c) \<and>
    (\<exists>v. available_cash ACCOUNTING_CONTEXT l c = Inr v \<and> 0 \<le> dval v \<and>
      dval v = dval (cash_balance l c) - dval (amount_of (reserved l) c))"
proof -
  have cov: "covered u c l" using assms by (rule cash_run_covered)
  obtain v where "available_cash ACCOUNTING_CONTEXT l c = Inr v"
    "dval v = dval (cash_balance l c) - dval (amount_of (reserved l) c)"
    using covered_available [OF cov assms(2)] .
  with cov show ?thesis by (simp add: covered_def)
qed

definition example_cash :: cash_ledger where
  "example_cash = \<lparr>balances = [(''USD'', Fin 7500 (-2))], reserved = [(''USD'', Fin 1500 (-2))]\<rparr>"

lemma example_cash_run: "cash_run 2 ''USD'' example_cash"
proof -
  note ev = cash_deposit_def cash_withdraw_def cash_reserve_def cash_release_def available_cash_def
    cash_balance_def dec_min_def empty_cash_def small_def amount_of_def od_get_def ZERO_MONEY_def dec_eval dval.simps(1)
  have "cash_run 2 ''USD'' \<lparr>balances = [(''USD'', Fin 10000 (-2))], reserved = []\<rparr>"
    by (rule cash_run.step [OF cash_run.start, of Deposit "Fin 10000 (-2)" "''USD''"]) (simp_all add: ev)
  then have "cash_run 2 ''USD'' \<lparr>balances = [(''USD'', Fin 10000 (-2))], reserved = [(''USD'', Fin 4000 (-2))]\<rparr>"
    by (rule cash_run.step [where oper = Reserve and amount = "Fin 4000 (-2)" and c = "''USD''"]) (simp_all add: ev)
  then have "cash_run 2 ''USD'' \<lparr>balances = [(''USD'', Fin 7500 (-2))], reserved = [(''USD'', Fin 4000 (-2))]\<rparr>"
    by (rule cash_run.step [where oper = Withdraw and amount = "Fin 2500 (-2)" and c = "''USD''"]) (simp_all add: ev)
  then show ?thesis unfolding example_cash_def
    by (rule cash_run.step [where oper = Release and amount = "Fin 2500 (-2)" and c = "''USD''"]) (simp_all add: ev)
qed

theorem cash_never_overdrawn_witness:
  "0 \<le> dval (amount_of (reserved example_cash) ''USD'') \<and>
   dval (amount_of (reserved example_cash) ''USD'') \<le> dval (cash_balance example_cash ''USD'') \<and>
   (\<exists>v. available_cash ACCOUNTING_CONTEXT example_cash ''USD'' = Inr v \<and> 0 \<le> dval v \<and>
     dval v = dval (cash_balance example_cash ''USD'') - dval (amount_of (reserved example_cash) ''USD''))"
  by (rule cash_never_overdrawn [OF example_cash_run]) (simp_all add: MAX_MINOR_UNITS_def)

end
