(* ===== verification/Economics.thy ===== *)
theory Economics
  imports Arithmetic
begin

text \<open>
  What trading one unit of an instrument means, and the quantity grid it trades on:
  \<open>alphalab/conventions/economics.py\<close> (\<open>SettlementModel\<close>, \<open>InstrumentEconomics\<close>) and
  \<open>alphalab/conventions/lot.py\<close> (\<open>LotSpecification\<close>, \<open>lots_in\<close>, \<open>round_down_to_lot\<close>).

  Lot arithmetic is exact or refused: the context of \<open>lot.py\<close> traps \<open>Inexact\<close>. The integer
  division and the remainder of the General Decimal Arithmetic are added here to the operations
  of theory \<open>Decimals\<close>, with the trap as a check that the rounded result equals the exact one.
\<close>

section \<open>Exact arithmetic\<close>

text \<open>
  An operation in a context that traps \<open>Inexact\<close>. \<open>Overflow\<close> is a subclass of \<open>Inexact\<close>, so a
  handler of \<open>Inexact\<close> also catches it.
\<close>

definition exact_result :: "dctx \<Rightarrow> decimal \<Rightarrow> decimal res" where
  "exact_result ctx d =
     rbind (dec_fix ctx d) (\<lambda>r. if is_finite d \<and> \<not> dec_eq r d then Inl Inexact else Inr r)"

definition exact_add :: "dctx \<Rightarrow> decimal \<Rightarrow> decimal \<Rightarrow> decimal res" where
  "exact_add ctx a b =
     (if is_finite a \<and> is_finite b then exact_result ctx (add_exact a b) else dec_add ctx a b)"

definition exact_sub :: "dctx \<Rightarrow> decimal \<Rightarrow> decimal \<Rightarrow> decimal res" where
  "exact_sub ctx a b = exact_add ctx a (dec_neg_exact b)"

definition exact_mul :: "dctx \<Rightarrow> decimal \<Rightarrow> decimal \<Rightarrow> decimal res" where
  "exact_mul ctx a b =
     (if is_finite a \<and> is_finite b then exact_result ctx (mul_exact a b) else dec_mul ctx a b)"

definition caught_inexact :: "exn \<Rightarrow> bool" where
  "caught_inexact e = (e = Inexact \<or> e = Overflow)"

lemma exact_result_value:
  assumes "exact_result ctx d = Inr r" "is_finite d"
  shows "is_finite r" "dval r = dval d"
proof -
  from assms have r: "dec_fix ctx d = Inr r" "dec_eq r d"
    by (auto simp: exact_result_def rbind_eq_Inr split: if_splits)
  show "is_finite r" using dec_fix_finite [OF assms(2) r(1)] .
  with r(2) assms(2) show "dval r = dval d" by simp
qed

lemma exact_add_value:
  assumes "exact_add ctx a b = Inr r" "is_finite a" "is_finite b"
  shows "is_finite r" "dval r = dval a + dval b"
  using assms exact_result_value [of ctx "add_exact a b" r] by (simp_all add: exact_add_def)

lemma exact_sub_value:
  assumes "exact_sub ctx a b = Inr r" "is_finite a" "is_finite b"
  shows "is_finite r" "dval r = dval a - dval b"
  using assms exact_add_value [of ctx a "dec_neg_exact b" r] by (simp_all add: exact_sub_def)

lemma exact_mul_value:
  assumes "exact_mul ctx a b = Inr r" "is_finite a" "is_finite b"
  shows "is_finite r" "dval r = dval a * dval b"
  using assms exact_result_value [of ctx "mul_exact a b" r] by (simp_all add: exact_mul_def)

text \<open>
  Integer quotient and remainder of two finite numbers, the divisor not zero: the remainder has
  the smaller of the two exponents, and a quotient of more digits than the precision is an
  invalid operation.
\<close>

definition div_rem :: "dctx \<Rightarrow> int \<Rightarrow> int \<Rightarrow> int \<Rightarrow> int \<Rightarrow> (decimal \<times> decimal) res" where
  "div_rem ctx c e d f =
     (let m = min e f; n = \<bar>align c e m\<bar>; b = \<bar>align d f m\<bar>;
          apart = adjusted (Fin c e) - adjusted (Fin d f)
      in if c = 0 \<or> apart \<le> -2 then Inr (Fin 0 0, Fin (align c e m) m)
         else if apart \<le> int (prec ctx) \<and> n div b < 10 ^ prec ctx
         then Inr (Fin (sgn c * sgn d * (n div b)) 0, Fin (sgn c * (n mod b)) m)
         else Inl InvalidOperation)"

fun dec_remainder :: "dctx \<Rightarrow> decimal \<Rightarrow> decimal \<Rightarrow> decimal res" where
  "dec_remainder ctx NaN b = Inr NaN"
| "dec_remainder ctx a NaN = Inr NaN"
| "dec_remainder ctx (Infinite n) b = Inl InvalidOperation"
| "dec_remainder ctx (Fin c e) (Infinite m) = exact_result ctx (Fin c e)"
| "dec_remainder ctx (Fin c e) (Fin d f) =
     (if d = 0 then Inl InvalidOperation
      else rbind (div_rem ctx c e d f) (\<lambda>(q, r). exact_result ctx r))"

fun dec_divide_int :: "dctx \<Rightarrow> decimal \<Rightarrow> decimal \<Rightarrow> decimal res" where
  "dec_divide_int ctx NaN b = Inr NaN"
| "dec_divide_int ctx a NaN = Inr NaN"
| "dec_divide_int ctx (Infinite n) (Infinite m) = Inl InvalidOperation"
| "dec_divide_int ctx (Infinite n) (Fin d f) = Inr (Infinite (n \<noteq> (d < 0)))"
| "dec_divide_int ctx (Fin c e) (Infinite m) = Inr (Fin 0 0)"
| "dec_divide_int ctx (Fin c e) (Fin d f) =
     (if d = 0 then Inl (if c = 0 then InvalidOperation else DivisionByZero)
      else rbind (div_rem ctx c e d f) (\<lambda>(q, r). Inr q))"

text \<open>\<open>a.copy_abs()\<close> and \<open>a.copy_negate()\<close> never round.\<close>

fun copy_abs :: "decimal \<Rightarrow> decimal" where
  "copy_abs (Fin c e) = Fin \<bar>c\<bar> e"
| "copy_abs (Infinite n) = Infinite False"
| "copy_abs NaN = NaN"

definition copy_negate :: "decimal \<Rightarrow> decimal" where
  "copy_negate a = dec_neg_exact a"

lemma copy_abs_value [simp]: "dval (copy_abs a) = \<bar>dval a\<bar>"
  by (cases a) (simp_all add: dval.simps(1) abs_mult)

lemma copy_abs_finite [simp]: "is_finite (copy_abs a) = is_finite a"
  by (cases a) simp_all

section \<open>The quantity grid\<close>

record lot_specification =
  lot_size :: decimal
  minimum_quantity :: decimal

definition EXACT_LOTS :: dctx where
  "EXACT_LOTS = \<lparr>prec = ACCOUNTING_PRECISION, rmode = ROUND_FLOOR, Emin = -999999, Emax = 999999\<rparr>"

text \<open>\<open>_remainder\<close>, with its handler of \<open>InvalidOperation\<close> and \<open>Inexact\<close>.\<close>

definition caught :: "'a res \<Rightarrow> 'a res" where
  "caught m = (case m of
     Inl e \<Rightarrow> Inl (if e = InvalidOperation \<or> caught_inexact e then ConventionViolationError else e)
   | Inr r \<Rightarrow> Inr r)"

definition lot_remainder :: "decimal \<Rightarrow> decimal \<Rightarrow> decimal res" where
  "lot_remainder magnitude size_of_lot = caught (dec_remainder EXACT_LOTS magnitude size_of_lot)"

text \<open>\<open>_exactly\<close>, one definition per operation it is called with.\<close>

definition exactly_whole_lots :: "decimal \<Rightarrow> decimal \<Rightarrow> decimal res" where
  "exactly_whole_lots a b = caught (dec_divide_int EXACT_LOTS a b)"

definition exactly_times :: "decimal \<Rightarrow> decimal \<Rightarrow> decimal res" where
  "exactly_times a b = caught (exact_mul EXACT_LOTS a b)"

text \<open>A division that traps \<open>Inexact\<close>: the rounded quotient times the divisor is the dividend.\<close>

definition exactly_divide :: "decimal \<Rightarrow> decimal \<Rightarrow> decimal res" where
  "exactly_divide a b = caught (rbind (dec_div EXACT_LOTS a b) (\<lambda>q.
     if is_finite a \<and> is_finite b \<and> \<not> dec_eq (mul_exact q b) a then Inl Inexact else Inr q))"

definition make_lot :: "decimal \<Rightarrow> decimal \<Rightarrow> lot_specification res" where
  "make_lot size_of_lot minimum =
     rbind (dec_le size_of_lot dec_zero) (\<lambda>bad. if bad then Inl ConventionInputError else
     rbind (dec_le minimum dec_zero) (\<lambda>bad. if bad then Inl ConventionInputError else
     rbind (lot_remainder minimum size_of_lot) (\<lambda>r.
       if \<not> dec_eq r dec_zero then Inl ConventionInputError
       else Inr \<lparr>lot_size = size_of_lot, minimum_quantity = minimum\<rparr>)))"

definition single_units :: "lot_specification res" where
  "single_units = make_lot dec_one dec_one"

definition lot_admits :: "lot_specification \<Rightarrow> decimal \<Rightarrow> bool res" where
  "lot_admits lot quantity =
     (let magnitude = copy_abs quantity in
      rbind (dec_le (minimum_quantity lot) magnitude) (\<lambda>enough.
        if \<not> enough then Inr False
        else rbind (lot_remainder magnitude (lot_size lot)) (\<lambda>r. Inr (dec_eq r dec_zero))))"

definition lot_require :: "lot_specification \<Rightarrow> decimal \<Rightarrow> decimal res" where
  "lot_require lot quantity =
     (let magnitude = copy_abs quantity in
      rbind (dec_lt magnitude (minimum_quantity lot)) (\<lambda>below.
        if below then Inl ConventionViolationError
        else rbind (lot_remainder magnitude (lot_size lot)) (\<lambda>r.
          if \<not> dec_eq r dec_zero then Inl ConventionViolationError else Inr quantity)))"

definition lots_in :: "decimal \<Rightarrow> lot_specification \<Rightarrow> decimal res" where
  "lots_in quantity lot =
     rbind (lot_remainder (copy_abs quantity) (lot_size lot)) (\<lambda>r.
       if \<not> dec_eq r dec_zero then Inl ConventionViolationError
       else exactly_divide quantity (lot_size lot))"

definition round_down_to_lot :: "decimal \<Rightarrow> lot_specification \<Rightarrow> decimal res" where
  "round_down_to_lot quantity lot =
     (let magnitude = copy_abs quantity in
      rbind (exactly_whole_lots magnitude (lot_size lot)) (\<lambda>lots.
      rbind (exactly_times lots (lot_size lot)) (\<lambda>rounded.
      rbind (dec_lt rounded (minimum_quantity lot)) (\<lambda>below.
        if below then Inr dec_zero
        else rbind (dec_lt quantity dec_zero) (\<lambda>negative.
          Inr (if negative then copy_negate rounded else rounded))))))"

section \<open>Instrument economics\<close>

datatype settlement_model = CASH_EQUITY_SETTLEMENT | FUTURES_VARIATION | OPTION_PREMIUM | PERPETUAL

fun model_pays_notional :: "settlement_model \<Rightarrow> bool" where
  "model_pays_notional s = (s \<in> {CASH_EQUITY_SETTLEMENT, OPTION_PREMIUM})"

record instrument_economics =
  multiplier :: decimal
  settlement :: settlement_model
  lot :: "lot_specification option"
  minimum_notional :: "decimal option"
  allows_negative_prices :: bool

definition make_economics ::
  "decimal \<Rightarrow> settlement_model \<Rightarrow> lot_specification option \<Rightarrow> decimal option \<Rightarrow> bool \<Rightarrow>
   instrument_economics res" where
  "make_economics mult model l minimum negative =
     (if \<not> is_finite mult then Inl ConventionInputError
      else rbind (dec_le mult dec_zero) (\<lambda>bad. if bad then Inl ConventionInputError else
      rbind (case minimum of None \<Rightarrow> Inr False
             | Some m \<Rightarrow> if \<not> is_finite m then Inr True else dec_lt m dec_zero) (\<lambda>bad.
        if bad then Inl ConventionInputError
        else Inr \<lparr>multiplier = mult, settlement = model, lot = l, minimum_notional = minimum,
                  allows_negative_prices = negative\<rparr>)))"

definition CASH_EQUITY :: instrument_economics where
  "CASH_EQUITY = \<lparr>multiplier = dec_one, settlement = CASH_EQUITY_SETTLEMENT, lot = None,
     minimum_notional = None, allows_negative_prices = False\<rparr>"

text \<open>Equality of two dataclass values: field by field, a number by its value.\<close>

definition opt_eq :: "('a \<Rightarrow> 'a \<Rightarrow> bool) \<Rightarrow> 'a option \<Rightarrow> 'a option \<Rightarrow> bool" where
  "opt_eq eq a b =
     (case a of None \<Rightarrow> b = None | Some x \<Rightarrow> (case b of None \<Rightarrow> False | Some y \<Rightarrow> eq x y))"

definition lot_eq :: "lot_specification \<Rightarrow> lot_specification \<Rightarrow> bool" where
  "lot_eq a b = (dec_eq (lot_size a) (lot_size b) \<and> dec_eq (minimum_quantity a) (minimum_quantity b))"

definition economics_eq :: "instrument_economics \<Rightarrow> instrument_economics \<Rightarrow> bool" where
  "economics_eq a b =
     (dec_eq (multiplier a) (multiplier b) \<and> settlement a = settlement b \<and>
      opt_eq lot_eq (lot a) (lot b) \<and> opt_eq dec_eq (minimum_notional a) (minimum_notional b) \<and>
      allows_negative_prices a = allows_negative_prices b)"

definition is_cash_equity :: "instrument_economics \<Rightarrow> bool" where
  "is_cash_equity e = economics_eq e CASH_EQUITY"

definition admits_price :: "instrument_economics \<Rightarrow> decimal \<Rightarrow> bool res" where
  "admits_price e price =
     (if \<not> is_finite price then Inr False
      else if allows_negative_prices e then Inr True else dec_lt dec_zero price)"

text \<open>What the constructor admits.\<close>

definition economics_ok :: "instrument_economics \<Rightarrow> bool" where
  "economics_ok e = (is_finite (multiplier e) \<and> 0 < dval (multiplier e))"

lemma make_economics_ok: "make_economics m s l n b = Inr e \<Longrightarrow> economics_ok e"
  by (auto simp: make_economics_def economics_ok_def rbind_eq_Inr split: if_splits)

lemma CASH_EQUITY_ok [simp]: "economics_ok CASH_EQUITY"
  by (simp add: economics_ok_def CASH_EQUITY_def dval.simps(1))

lemma admits_price_finite: "admits_price e p = Inr True \<Longrightarrow> is_finite p"
  by (auto simp: admits_price_def split: if_splits)


section \<open>Whole lots\<close>

text \<open>Integer division of a magnitude by a positive number.\<close>

lemma dval_pos_iff: "0 < dval (Fin c e) \<longleftrightarrow> 0 < c"
  using dval_nonneg_iff [of c e] by (auto simp: less_le dval.simps(1))

lemma adjusted_apart:
  assumes "adjusted (Fin c e) - adjusted (Fin d f) \<le> -2" "0 < d"
  shows "\<bar>dval (Fin c e)\<bar> < dval (Fin d f)"
proof (rule ccontr)
  assume "\<not> ?thesis"
  then have le: "dval (Fin d f) \<le> \<bar>dval (Fin c e)\<bar>" by simp
  have "\<bar>dval (Fin c e)\<bar> < 10 powi (adjusted (Fin c e) + 1)" by (rule magnitude_digits) simp
  with le have "\<bar>dval (Fin d f)\<bar> < 10 powi (adjusted (Fin c e) + 1)"
    using assms(2) dval_pos_iff [of d f] by linarith
  from digits_magnitude [OF _ this] assms show False by simp
qed

lemma div_rem_value:
  assumes "div_rem ctx c e d f = Inr (q, r)" "0 \<le> c" "0 < d"
  shows "\<exists>k. 0 \<le> k \<and> q = Fin k 0 \<and> is_finite r \<and> dval (Fin c e) = of_int k * dval (Fin d f) + dval r \<and>
    0 \<le> dval r \<and> dval r < dval (Fin d f)"
proof -
  define m where "m = min e f"
  define n where "n = align c e m"
  define b where "b = align d f m"
  have nb: "0 \<le> n" "0 < b" using assms(2,3) by (simp_all add: n_def b_def align_def)
  have vals: "dval (Fin c e) = of_int n * 10 powi m" "dval (Fin d f) = of_int b * 10 powi m"
    unfolding n_def b_def m_def using dval_align [of "min e f" e c] dval_align [of "min e f" f d] by simp_all
  consider "c = 0 \<or> adjusted (Fin c e) - adjusted (Fin d f) \<le> -2" "q = Fin 0 0" "r = Fin n m"
    | "c \<noteq> 0" "q = Fin (n div b) 0" "r = Fin (n mod b) m"
    using assms nb unfolding div_rem_def Let_def m_def [symmetric] n_def [symmetric] b_def [symmetric]
    by (simp del: adjusted.simps split: if_splits)
  then show ?thesis
  proof cases
    case 1
    have "\<bar>dval (Fin c e)\<bar> < dval (Fin d f)"
      using 1(1) adjusted_apart [of c e d f] assms(3) dval_pos_iff [of d f] by (auto simp del: adjusted.simps)
    moreover have "dval (Fin c e) = dval r" unfolding 1(3) vals(1) by (simp add: dval.simps(1))
    moreover have "0 \<le> dval (Fin c e)" using assms(2) by (simp add: dval_nonneg_iff)
    ultimately show ?thesis using 1 by auto
  next
    case 2
    have "n = n div b * b + n mod b" "0 \<le> n mod b" "n mod b < b" "0 \<le> n div b"
      using nb by (simp_all add: pos_imp_zdiv_nonneg_iff)
    moreover from this(1) have "(of_int n :: rat) = of_int (n div b) * of_int b + of_int (n mod b)"
      by (metis of_int_add of_int_mult)
    moreover have "dval r = of_int (n mod b) * 10 powi m" unfolding 2(3) by (rule dval.simps(1))
    ultimately show ?thesis unfolding vals 2(2)
      by (auto simp: 2(3) distrib_right mult_strict_right_mono)
  qed
qed

text \<open>The remainder of a magnitude, and the whole lots in it.\<close>

lemma caught_Inr [simp]: "caught m = Inr r \<longleftrightarrow> m = Inr r"
  by (simp add: caught_def split: sum.split)

lemma caught_returned [simp]: "caught (Inr r) = Inr r"
  by simp

lemma lot_remainder_value:
  assumes "lot_remainder a s = Inr r" "is_finite a" "is_finite s" "0 \<le> dval a" "0 < dval s"
  shows "\<exists>k::int. 0 \<le> k \<and> is_finite r \<and> dval a = of_int k * dval s + dval r \<and> 0 \<le> dval r \<and> dval r < dval s"
proof -
  obtain c e d f where a: "a = Fin c e" and s: "s = Fin d f" using assms by (auto simp: is_finite_iff)
  have cd: "0 \<le> c" "0 < d" using assms by (simp_all add: a s dval_nonneg_iff dval_pos_iff)
  from assms(1) obtain q t where t: "div_rem EXACT_LOTS c e d f = Inr (q, t)" "exact_result EXACT_LOTS t = Inr r"
    by (auto simp: lot_remainder_def a s rbind_eq_Inr split: if_splits)
  from div_rem_value [OF t(1) cd] exact_result_value [OF t(2)] show ?thesis unfolding a s by auto
qed

lemma whole_lots_value:
  assumes "exactly_whole_lots a s = Inr q" "is_finite a" "is_finite s" "0 \<le> dval a" "0 < dval s"
  shows "\<exists>k. 0 \<le> k \<and> q = Fin k 0 \<and> of_int k * dval s \<le> dval a \<and> dval a < of_int (k + 1) * dval s"
proof -
  obtain c e d f where a: "a = Fin c e" and s: "s = Fin d f" using assms by (auto simp: is_finite_iff)
  have cd: "0 \<le> c" "0 < d" using assms by (simp_all add: a s dval_nonneg_iff dval_pos_iff)
  from assms(1) cd obtain r where r: "div_rem EXACT_LOTS c e d f = Inr (q, r)"
    by (auto simp: exactly_whole_lots_def a s rbind_eq_Inr split: if_splits)
  from div_rem_value [OF this cd] show ?thesis unfolding a s by (auto simp: distrib_right)
qed

definition lot_ok :: "lot_specification \<Rightarrow> bool" where
  "lot_ok l = (is_finite (lot_size l) \<and> is_finite (minimum_quantity l) \<and> 0 < dval (lot_size l) \<and>
     0 < dval (minimum_quantity l) \<and> (\<exists>k::int. dval (minimum_quantity l) = of_int k * dval (lot_size l)))"

lemma make_lot_ok: "make_lot s m = Inr l \<Longrightarrow> lot_ok l"
proof -
  assume l: "make_lot s m = Inr l"
  then obtain r where pos: "dec_le s dec_zero = Inr False" "dec_le m dec_zero = Inr False"
    and r: "lot_remainder m s = Inr r" "dec_eq r dec_zero"
    and lr: "l = \<lparr>lot_size = s, minimum_quantity = m\<rparr>"
    by (auto simp: make_lot_def rbind_eq_Inr split: if_splits)
  have m: "is_finite m"
  proof (rule ccontr)
    assume "\<not> is_finite m"
    then show False using pos r by (cases m; cases s) (auto simp: lot_remainder_def)
  qed
  have "is_finite s"
  proof (rule ccontr)
    assume "\<not> is_finite s"
    then have "lot_remainder m s = caught (exact_result EXACT_LOTS m)"
      using pos(1) m by (cases m; cases s) (simp_all add: lot_remainder_def)
    with r(1) have "caught (exact_result EXACT_LOTS m) = Inr r" by (simp only:)
    then have "exact_result EXACT_LOTS m = Inr r" by (simp only: caught_Inr)
    from exact_result_value [OF this m] r(2) pos(2) m show False by simp
  qed
  with m have fin: "is_finite s" "is_finite m" by blast+
  have p: "0 < dval s" "0 < dval m" using pos fin by simp_all
  from lot_remainder_value [OF r(1) fin(2,1) less_imp_le [OF p(2)] p(1)] r(2) fin p show ?thesis
    by (auto simp: lot_ok_def lr)
qed

lemma largest_lot:
  assumes size: "make_lot s m = Inr l" and q: "is_finite q" and r: "round_down_to_lot q l = Inr r"
  shows "is_finite r \<and> \<bar>dval r\<bar> \<le> \<bar>dval q\<bar> \<and> 0 \<le> dval r * dval q \<and>
    (\<exists>k::int. \<bar>dval r\<bar> = of_int k * dval s) \<and> (dval r = 0 \<or> dval m \<le> \<bar>dval r\<bar>) \<and>
    \<not> (\<exists>n::int. dval m \<le> of_int n * dval s \<and> of_int n * dval s \<le> \<bar>dval q\<bar> \<and> \<bar>dval r\<bar> < of_int n * dval s)"
proof -
  have l: "lot_size l = s" "minimum_quantity l = m"
    using size by (auto simp: make_lot_def rbind_eq_Inr split: if_splits)
  have ok: "is_finite s" "is_finite m" "0 < dval s" "0 < dval m"
    using make_lot_ok [OF size] by (simp_all add: lot_ok_def l)
  obtain lots x where lots: "exactly_whole_lots (copy_abs q) s = Inr lots"
    and x: "exactly_times lots s = Inr x"
    and rest: "rbind (dec_lt x m) (\<lambda>below. if below then Inr dec_zero
        else rbind (dec_lt q dec_zero) (\<lambda>negative. Inr (if negative then copy_negate x else x))) = Inr r"
    using r by (auto simp: round_down_to_lot_def l Let_def rbind_eq_Inr)
  obtain k where k: "0 \<le> k" "lots = Fin k 0" "of_int k * dval s \<le> \<bar>dval q\<bar>" "\<bar>dval q\<bar> < of_int (k + 1) * dval s"
    using whole_lots_value [OF lots] q ok by auto
  have xv: "is_finite x" "dval x = of_int k * dval s"
    using x exact_mul_value [of EXACT_LOTS lots s x] k(2) ok(1) by (simp_all add: exactly_times_def dval.simps(1))
  have x0: "0 \<le> dval x" using xv(2) k(1) ok(3) by simp
  have most: "of_int n * dval s \<le> dval x" if "of_int n * dval s \<le> \<bar>dval q\<bar>" for n :: int
  proof -
    have "of_int n * dval s < of_int (k + 1) * dval s" using that k(4) by linarith
    with ok(3) have "n \<le> k" by (simp add: mult_less_cancel_right_pos)
    with ok(3) show ?thesis by (simp add: xv(2) mult_right_mono)
  qed
  show ?thesis
  proof (cases "dval x < dval m")
    case True
    with rest xv ok have "r = dec_zero" by simp
    moreover have "\<exists>j::int. 0 = of_int j * dval s" by (intro exI [of _ 0]) simp
    ultimately show ?thesis using most True by fastforce
  next
    case False
    with rest xv ok q have r: "r = (if dval q < 0 then copy_negate x else x)" by simp
    then have a: "\<bar>dval r\<bar> = dval x" "is_finite r" "0 \<le> dval r * dval q"
      using x0 xv(1) by (auto simp: copy_negate_def mult_nonneg_nonpos mult_nonpos_nonpos)
    then show ?thesis using most xv(2) k(3) False by fastforce
  qed
qed

text \<open>C27: rounding a quantity down to its grid gives the largest tradable quantity no further
  from zero than it, on the same side; zero exactly when nothing tradable fits.\<close>

theorem round_down_is_largest_lot:
  assumes size: "make_lot s m = Inr l" and q: "is_finite q" and r: "round_down_to_lot q l = Inr r"
  shows "is_finite r \<and> \<bar>dval r\<bar> \<le> \<bar>dval q\<bar> \<and> 0 \<le> dval r * dval q \<and>
    (\<exists>k::int. \<bar>dval r\<bar> = of_int k * dval s) \<and> (dval r = 0 \<or> dval m \<le> \<bar>dval r\<bar>) \<and>
    \<not> (\<exists>n::int. dval m \<le> of_int n * dval s \<and> of_int n * dval s \<le> \<bar>dval q\<bar> \<and> \<bar>dval r\<bar> < of_int n * dval s)"
  by (rule largest_lot [OF assms])

theorem round_down_is_largest_lot_witness:
  "is_finite (Fin 1500 0) \<and> \<bar>dval (Fin 1500 0)\<bar> \<le> \<bar>dval (Fin 15379 (-1))\<bar> \<and>
    0 \<le> dval (Fin 1500 0) * dval (Fin 15379 (-1)) \<and>
    (\<exists>k::int. \<bar>dval (Fin 1500 0)\<bar> = of_int k * dval (Fin 100 0)) \<and>
    (dval (Fin 1500 0) = 0 \<or> dval (Fin 500 0) \<le> \<bar>dval (Fin 1500 0)\<bar>) \<and>
    \<not> (\<exists>n::int. dval (Fin 500 0) \<le> of_int n * dval (Fin 100 0) \<and>
        of_int n * dval (Fin 100 0) \<le> \<bar>dval (Fin 15379 (-1))\<bar> \<and>
        \<bar>dval (Fin 1500 0)\<bar> < of_int n * dval (Fin 100 0))"
proof (rule round_down_is_largest_lot)
  show "make_lot (Fin 100 0) (Fin 500 0) = Inr \<lparr>lot_size = Fin 100 0, minimum_quantity = Fin 500 0\<rparr>"
    by (simp add: make_lot_def lot_remainder_def div_rem_def exact_result_def EXACT_LOTS_def
      ACCOUNTING_PRECISION_def Etiny_def Etop_def dec_eval)
  show "round_down_to_lot (Fin 15379 (-1)) \<lparr>lot_size = Fin 100 0, minimum_quantity = Fin 500 0\<rparr> = Inr (Fin 1500 0)"
    by (simp add: round_down_to_lot_def exactly_whole_lots_def exactly_times_def exact_mul_def div_rem_def
      exact_result_def EXACT_LOTS_def ACCOUNTING_PRECISION_def Etiny_def Etop_def dec_eval dval.simps(1))
qed simp

end
