(* ===== verification/Positions.thy ===== *)
theory Positions
  imports Money Economics
begin

text \<open>
  One position: \<open>alphalab/portfolio/position.py\<close>. The record holds the fields of the dataclass;
  its methods are functions of it, in the order of the source.

  A position is built by its constructor, which refuses a minor unit out of range; every method
  that returns a position passes on the minor unit of the one it was called on, so the check is
  written once, in \<open>make_position\<close>. \<open>opened_at\<close> as an argument is \<open>None\<close> for the sentinel "keep",
  \<open>Some t\<close> for a new value. Methods that the source does not decorate use the caller's context.
\<close>

section \<open>The position\<close>

datatype position_side = LONG | SHORT | FLAT

record position =
  pos_asset_id :: string
  pos_quantity :: decimal
  average_cost :: decimal
  market_price :: decimal
  pos_realized_pnl :: decimal
  pos_currency :: string
  last_updated :: pyfloat
  cost_basis :: "decimal option"
  opened_at :: "pyfloat option"
  pos_minor_units :: "int option"
  pos_economics :: "instrument_economics option"

definition make_position :: "position \<Rightarrow> position res" where
  "make_position p =
     (case pos_minor_units p of
        Some u \<Rightarrow> if \<not> (0 \<le> u \<and> u \<le> MAX_MINOR_UNITS) then Inl PortfolioError else Inr p
      | None \<Rightarrow> Inr p)"

definition pos_multiplier :: "position \<Rightarrow> decimal" where
  "pos_multiplier p = (case pos_economics p of None \<Rightarrow> dec_one | Some e \<Rightarrow> multiplier e)"

definition pays_notional :: "position \<Rightarrow> bool" where
  "pays_notional p =
     (case pos_economics p of None \<Rightarrow> True | Some e \<Rightarrow> model_pays_notional (settlement e))"

definition scaled :: "position \<Rightarrow> decimal \<Rightarrow> decimal res" where
  "scaled p amount =
     (case pos_economics p of
        None \<Rightarrow> Inr amount
      | Some e \<Rightarrow> if dec_eq (multiplier e) dec_one then Inr amount
                  else dec_mul ACCOUNTING_CONTEXT amount (multiplier e))"

definition pos_money :: "position \<Rightarrow> decimal \<Rightarrow> decimal res" where
  "pos_money p amount =
     (case pos_minor_units p of
        None \<Rightarrow> round_money STANDARD_CURRENCY_UNITS amount (pos_currency p)
      | Some u \<Rightarrow> rbind (py_index MINOR_UNIT_QUANTA u) (\<lambda>q.
          dec_quantize (ACCOUNTING_CONTEXT\<lparr>rmode := ROUND_HALF_EVEN\<rparr>) amount q))"

definition side_of :: "position \<Rightarrow> position_side res" where
  "side_of p =
     rbind (dec_lt dec_zero (pos_quantity p)) (\<lambda>long. if long then Inr LONG else
     rbind (dec_lt (pos_quantity p) dec_zero) (\<lambda>short. Inr (if short then SHORT else FLAT)))"

definition basis :: "dctx \<Rightarrow> position \<Rightarrow> decimal res" where
  "basis amb p =
     (case cost_basis p of
        Some b \<Rightarrow> Inr b
      | None \<Rightarrow> rbind (dec_abs amb (pos_quantity p)) (\<lambda>q.
          rbind (dec_mul ACCOUNTING_CONTEXT q (average_cost p)) (\<lambda>x.
          rbind (scaled p x) (pos_money p))))"

definition market_value :: "position \<Rightarrow> decimal res" where
  "market_value p =
     rbind (dec_mul ACCOUNTING_CONTEXT (pos_quantity p) (market_price p)) (\<lambda>x.
     rbind (scaled p x) (pos_money p))"

definition valuation :: "dctx \<Rightarrow> position \<Rightarrow> (decimal \<times> decimal) res" where
  "valuation amb p =
     rbind (market_value p) (\<lambda>v.
       if dec_eq (pos_quantity p) dec_zero then Inr (v, ZERO_MONEY)
       else rbind (dec_lt dec_zero (pos_quantity p)) (\<lambda>long.
         rbind (basis amb p) (\<lambda>b.
         rbind (if long then dec_sub amb v b else dec_add amb v b) (\<lambda>pnl. Inr (v, pnl)))))"

definition unrealized_pnl :: "dctx \<Rightarrow> position \<Rightarrow> decimal res" where
  "unrealized_pnl amb p = rbind (valuation amb p) (\<lambda>(v, pnl). Inr pnl)"

definition carrying_value :: "dctx \<Rightarrow> position \<Rightarrow> decimal res" where
  "carrying_value amb p = (if pays_notional p then market_value p else unrealized_pnl amb p)"

definition update_market_price :: "decimal \<Rightarrow> pyfloat \<Rightarrow> position \<Rightarrow> position" where
  "update_market_price price timestamp p = p\<lparr>market_price := price, last_updated := timestamp\<rparr>"

definition rebased ::
  "dctx \<Rightarrow> position \<Rightarrow> decimal \<Rightarrow> decimal \<Rightarrow> decimal \<Rightarrow> decimal \<Rightarrow> pyfloat \<Rightarrow> pyfloat option option \<Rightarrow> position res" where
  "rebased amb p quantity new_basis realized_total price timestamp opened =
     rbind (if \<not> dec_eq quantity dec_zero
            then rbind (dec_abs amb quantity) (\<lambda>q.
              rbind (scaled p q) (\<lambda>x.
              rbind (dec_div ACCOUNTING_CONTEXT new_basis x) plain))
            else Inr dec_zero) (\<lambda>average.
     Inr \<lparr>pos_asset_id = pos_asset_id p, pos_quantity = quantity, average_cost = average,
       market_price = price, pos_realized_pnl = realized_total, pos_currency = pos_currency p,
       last_updated = timestamp, cost_basis = Some new_basis,
       opened_at = (case opened of None \<Rightarrow> opened_at p | Some t \<Rightarrow> t),
       pos_minor_units = pos_minor_units p, pos_economics = pos_economics p\<rparr>)"

definition pos_split :: "decimal \<Rightarrow> pyfloat \<Rightarrow> position \<Rightarrow> position res" where
  "pos_split ratio timestamp p =
     rbind (dec_mul ACCOUNTING_CONTEXT (pos_quantity p) ratio) (\<lambda>q.
     rbind (basis ACCOUNTING_CONTEXT p) (\<lambda>b.
     rbind (dec_div ACCOUNTING_CONTEXT (market_price p) ratio) (\<lambda>price.
       rebased ACCOUNTING_CONTEXT p q b (pos_realized_pnl p) price timestamp None)))"

definition pos_settle :: "decimal \<Rightarrow> pyfloat \<Rightarrow> position \<Rightarrow> (position \<times> decimal) res" where
  "pos_settle price timestamp p =
     (if pays_notional p \<or> dec_eq (pos_quantity p) dec_zero
      then Inr (update_market_price price timestamp p, ZERO_MONEY)
      else
        rbind (dec_sub ACCOUNTING_CONTEXT price (average_cost p)) (\<lambda>move.
        rbind (dec_mul ACCOUNTING_CONTEXT (pos_quantity p) move) (\<lambda>x.
        rbind (scaled p x) (\<lambda>y.
        rbind (pos_money p y) (\<lambda>amount.
        rbind (dec_abs ACCOUNTING_CONTEXT (pos_quantity p)) (\<lambda>q.
        rbind (dec_mul ACCOUNTING_CONTEXT q price) (\<lambda>z.
        rbind (scaled p z) (\<lambda>w.
        rbind (pos_money p w) (\<lambda>b.
        rbind (dec_add ACCOUNTING_CONTEXT (pos_realized_pnl p) amount) (\<lambda>realized.
        rbind (rebased ACCOUNTING_CONTEXT p (pos_quantity p) b realized price timestamp None) (\<lambda>s.
          Inr (s, amount))))))))))))"

section \<open>Fills\<close>

text \<open>\<open>basis * part / whole\<close>, rounded to money: the slice of the basis a partial close relieves.\<close>

definition relieved_basis :: "position \<Rightarrow> decimal \<Rightarrow> decimal \<Rightarrow> decimal \<Rightarrow> decimal res" where
  "relieved_basis p b part whole =
     rbind (dec_mul ACCOUNTING_CONTEXT b part) (\<lambda>x.
     rbind (dec_div ACCOUNTING_CONTEXT x whole) (pos_money p))"

definition apply_long ::
  "decimal \<Rightarrow> decimal \<Rightarrow> decimal \<Rightarrow> pyfloat \<Rightarrow> position \<Rightarrow> (position \<times> decimal) res" where
  "apply_long quantity price total_paid timestamp p =
     rbind (basis ACCOUNTING_CONTEXT p) (\<lambda>b.
     rbind (dec_lt dec_zero quantity) (\<lambda>buys.
       if buys then
         rbind (dec_add ACCOUNTING_CONTEXT (pos_quantity p) quantity) (\<lambda>q.
         rbind (dec_add ACCOUNTING_CONTEXT b total_paid) (\<lambda>b'.
         rbind (rebased ACCOUNTING_CONTEXT p q b' (pos_realized_pnl p) price timestamp None) (\<lambda>p'.
           Inr (p', ZERO_MONEY))))
       else
         rbind (dec_abs ACCOUNTING_CONTEXT quantity) (\<lambda>sell.
         rbind (dec_lt sell (pos_quantity p)) (\<lambda>part.
           if part then
             rbind (relieved_basis p b sell (pos_quantity p)) (\<lambda>relieved.
             rbind (dec_sub ACCOUNTING_CONTEXT total_paid relieved) (\<lambda>realized.
             rbind (dec_sub ACCOUNTING_CONTEXT (pos_quantity p) sell) (\<lambda>q.
             rbind (dec_sub ACCOUNTING_CONTEXT b relieved) (\<lambda>b'.
             rbind (dec_add ACCOUNTING_CONTEXT (pos_realized_pnl p) realized) (\<lambda>all.
             rbind (rebased ACCOUNTING_CONTEXT p q b' all price timestamp None) (\<lambda>p'.
               Inr (p', realized)))))))
           else if dec_eq sell (pos_quantity p) then
             rbind (dec_sub ACCOUNTING_CONTEXT total_paid b) (\<lambda>realized.
             rbind (dec_add ACCOUNTING_CONTEXT (pos_realized_pnl p) realized) (\<lambda>all.
             rbind (rebased ACCOUNTING_CONTEXT p dec_zero ZERO_MONEY all price timestamp None) (\<lambda>p'.
               Inr (p', realized))))
           else
             rbind (dec_abs ACCOUNTING_CONTEXT (pos_quantity p)) (\<lambda>open_q.
             rbind (dec_mul ACCOUNTING_CONTEXT open_q price) (\<lambda>x.
             rbind (scaled p x) (\<lambda>y.
             rbind (pos_money p y) (\<lambda>closing_proceeds.
             rbind (dec_sub ACCOUNTING_CONTEXT closing_proceeds b) (\<lambda>realized.
             rbind (dec_sub ACCOUNTING_CONTEXT sell (pos_quantity p)) (\<lambda>short_quantity.
             rbind (dec_neg ACCOUNTING_CONTEXT short_quantity) (\<lambda>q.
             rbind (dec_sub ACCOUNTING_CONTEXT total_paid closing_proceeds) (\<lambda>b'.
             rbind (dec_add ACCOUNTING_CONTEXT (pos_realized_pnl p) realized) (\<lambda>all.
             rbind (rebased ACCOUNTING_CONTEXT p q b' all price timestamp (Some (Some timestamp))) (\<lambda>p'.
               Inr (p', realized)))))))))))))))"

definition apply_short ::
  "decimal \<Rightarrow> decimal \<Rightarrow> decimal \<Rightarrow> pyfloat \<Rightarrow> position \<Rightarrow> (position \<times> decimal) res" where
  "apply_short quantity price total_paid timestamp p =
     rbind (dec_abs ACCOUNTING_CONTEXT (pos_quantity p)) (\<lambda>current_short.
     rbind (basis ACCOUNTING_CONTEXT p) (\<lambda>b.
     rbind (dec_lt quantity dec_zero) (\<lambda>sells.
       if sells then
         rbind (dec_abs ACCOUNTING_CONTEXT quantity) (\<lambda>more.
         rbind (dec_add ACCOUNTING_CONTEXT current_short more) (\<lambda>s.
         rbind (dec_neg ACCOUNTING_CONTEXT s) (\<lambda>q.
         rbind (dec_add ACCOUNTING_CONTEXT b total_paid) (\<lambda>b'.
         rbind (rebased ACCOUNTING_CONTEXT p q b' (pos_realized_pnl p) price timestamp None) (\<lambda>p'.
           Inr (p', ZERO_MONEY))))))
       else
         rbind (dec_lt quantity current_short) (\<lambda>part.
           if part then
             rbind (relieved_basis p b quantity current_short) (\<lambda>relieved.
             rbind (dec_sub ACCOUNTING_CONTEXT relieved total_paid) (\<lambda>realized.
             rbind (dec_add ACCOUNTING_CONTEXT (pos_quantity p) quantity) (\<lambda>q.
             rbind (dec_sub ACCOUNTING_CONTEXT b relieved) (\<lambda>b'.
             rbind (dec_add ACCOUNTING_CONTEXT (pos_realized_pnl p) realized) (\<lambda>all.
             rbind (rebased ACCOUNTING_CONTEXT p q b' all price timestamp None) (\<lambda>p'.
               Inr (p', realized)))))))
           else if dec_eq quantity current_short then
             rbind (dec_sub ACCOUNTING_CONTEXT b total_paid) (\<lambda>realized.
             rbind (dec_add ACCOUNTING_CONTEXT (pos_realized_pnl p) realized) (\<lambda>all.
             rbind (rebased ACCOUNTING_CONTEXT p dec_zero ZERO_MONEY all price timestamp None) (\<lambda>p'.
               Inr (p', realized))))
           else
             rbind (dec_mul ACCOUNTING_CONTEXT current_short price) (\<lambda>x.
             rbind (scaled p x) (\<lambda>y.
             rbind (pos_money p y) (\<lambda>closing_cost.
             rbind (dec_sub ACCOUNTING_CONTEXT b closing_cost) (\<lambda>realized.
             rbind (dec_sub ACCOUNTING_CONTEXT quantity current_short) (\<lambda>long_quantity.
             rbind (dec_sub ACCOUNTING_CONTEXT total_paid closing_cost) (\<lambda>b'.
             rbind (dec_add ACCOUNTING_CONTEXT (pos_realized_pnl p) realized) (\<lambda>all.
             rbind (rebased ACCOUNTING_CONTEXT p long_quantity b' all price timestamp (Some (Some timestamp))) (\<lambda>p'.
               Inr (p', realized)))))))))))))"

definition apply_settled ::
  "decimal \<Rightarrow> decimal \<Rightarrow> pyfloat \<Rightarrow> position \<Rightarrow> (position \<times> decimal) res" where
  "apply_settled quantity price timestamp p =
     rbind (pos_settle price timestamp p) (\<lambda>(settled, amount).
       let opened = dec_eq (pos_quantity settled) dec_zero in
       rbind (dec_add ACCOUNTING_CONTEXT (pos_quantity settled) quantity) (\<lambda>remaining.
       rbind (if \<not> opened \<and> \<not> dec_eq remaining dec_zero
              then rbind (dec_lt dec_zero remaining) (\<lambda>a.
                rbind (dec_lt dec_zero (pos_quantity settled)) (\<lambda>b. Inr (a \<noteq> b)))
              else Inr False) (\<lambda>reverses.
       rbind (dec_abs ACCOUNTING_CONTEXT remaining) (\<lambda>q.
       rbind (dec_mul ACCOUNTING_CONTEXT q price) (\<lambda>x.
       rbind (scaled p x) (\<lambda>y.
       rbind (pos_money p y) (\<lambda>b.
       rbind (rebased ACCOUNTING_CONTEXT settled remaining
                (if \<not> dec_eq remaining dec_zero then b else ZERO_MONEY) (pos_realized_pnl settled)
                price timestamp (if opened \<or> reverses then Some (Some timestamp) else None)) (\<lambda>p'.
         Inr (p', amount)))))))))"

definition trade_total :: "decimal \<Rightarrow> decimal \<Rightarrow> position \<Rightarrow> decimal res" where
  "trade_total quantity price p =
     rbind (dec_abs ACCOUNTING_CONTEXT quantity) (\<lambda>q.
     rbind (dec_mul ACCOUNTING_CONTEXT q price) (\<lambda>x.
     rbind (scaled p x) (pos_money p)))"

definition pos_apply_fill ::
  "decimal \<Rightarrow> decimal \<Rightarrow> pyfloat \<Rightarrow> position \<Rightarrow> (position \<times> decimal) res" where
  "pos_apply_fill quantity price timestamp p =
     (if dec_eq quantity dec_zero then Inr (p, ZERO_MONEY)
      else if \<not> pays_notional p then apply_settled quantity price timestamp p
      else
        rbind (trade_total quantity price p) (\<lambda>total_paid.
        rbind (side_of p) (\<lambda>s.
          case s of
            FLAT \<Rightarrow>
              rbind (rebased ACCOUNTING_CONTEXT p quantity total_paid (pos_realized_pnl p) price timestamp
                (Some (Some timestamp))) (\<lambda>p'. Inr (p', ZERO_MONEY))
          | LONG \<Rightarrow> apply_long quantity price total_paid timestamp p
          | SHORT \<Rightarrow> apply_short quantity price total_paid timestamp p)))"

end
