(* ===== verification/Position_Accounting.thy ===== *)
theory Position_Accounting
  imports Positions
begin

text \<open>
  What a fill does to a position's money. A position that the engine keeps is well formed
  (\<open>pos_ok\<close>): its quantity has at most 34 digits, its basis and its realized P&L are whole minor
  units. A fill keeps it so, and the money it moves is conserved: the signed basis moves by what
  the trade moves plus the P&L it realizes.
\<close>

section \<open>Well-formed positions\<close>


definition frame_ok :: "int \<Rightarrow> position \<Rightarrow> bool" where
  "frame_ok u p =
     (unit_range u \<and> pos_minor_units p = Some u \<and> is_finite (pos_quantity p) \<and>
      fits ACCOUNTING_CONTEXT (pos_quantity p) \<and> is_finite (average_cost p) \<and> is_finite (market_price p) \<and>
      at_unit u (pos_realized_pnl p) \<and>
      (case pos_economics p of None \<Rightarrow> True | Some e \<Rightarrow> economics_ok e))"

definition basis_ok :: "int \<Rightarrow> position \<Rightarrow> bool" where
  "basis_ok u p = (case cost_basis p of None \<Rightarrow> False | Some b \<Rightarrow> at_unit u b)"

definition pos_ok :: "int \<Rightarrow> position \<Rightarrow> bool" where
  "pos_ok u p = (frame_ok u p \<and> basis_ok u p)"

definition kept_basis :: "position \<Rightarrow> decimal" where
  "kept_basis p = (case cost_basis p of None \<Rightarrow> ZERO_MONEY | Some b \<Rightarrow> b)"

text \<open>The basis of a long is cash paid, of a short cash received.\<close>

definition signed_basis :: "position \<Rightarrow> rat" where
  "signed_basis p =
     (if dval (pos_quantity p) < 0 then - dval (kept_basis p) else dval (kept_basis p))"

lemma quantum_of_units: "unit_range u \<Longrightarrow> py_index MINOR_UNIT_QUANTA u = Inr (Fin 1 (- u))"
proof -
  assume u: "unit_range u"
  then have "nat u < 19" by (auto simp: MAX_MINOR_UNITS_def nat_less_iff)
  then have "MINOR_UNIT_QUANTA ! nat u = Fin 1 (- u)" "int (length MINOR_UNIT_QUANTA) = 19"
    using u by (simp_all add: MINOR_UNIT_QUANTA_def MAX_MINOR_UNITS_def nth_append del: upt_Suc)
  with u show ?thesis by (simp add: py_index_def MAX_MINOR_UNITS_def)
qed

lemma pos_money_at_unit: "frame_ok u p \<Longrightarrow> is_finite a \<Longrightarrow> pos_money p a = Inr r \<Longrightarrow> at_unit u r"
  by (cases a) (auto simp: frame_ok_def pos_money_def quantum_of_units rbind_eq_Inr dest: dec_quantize_result(1))

lemma scaled_finite: "frame_ok u p \<Longrightarrow> is_finite a \<Longrightarrow> scaled p a = Inr r \<Longrightarrow> is_finite r"
  by (auto simp: frame_ok_def scaled_def economics_ok_def dest: dec_mul_finite [rotated 2]
    split: option.splits if_splits)

lemma basis_kept: "basis_ok u p \<Longrightarrow> basis amb p = Inr (kept_basis p) \<and> at_unit u (kept_basis p)"
  by (simp add: basis_ok_def basis_def kept_basis_def split: option.splits)

lemma rebased_fields:
  assumes "rebased amb p q b realized price t opened = Inr p'"
  shows "pos_quantity p' = q" "cost_basis p' = Some b" "pos_realized_pnl p' = realized"
    "market_price p' = price" "pos_currency p' = pos_currency p" "pos_minor_units p' = pos_minor_units p"
    "pos_economics p' = pos_economics p" "pos_asset_id p' = pos_asset_id p" "last_updated p' = t"
    "opened_at p' = (case opened of None \<Rightarrow> opened_at p | Some x \<Rightarrow> x)"
  using assms by (auto simp: rebased_def rbind_eq_Inr)

lemma scaled_step: "scaled p a = Inr r \<Longrightarrow> frame_ok u p \<Longrightarrow> is_finite a \<Longrightarrow> is_finite r"
  by (rule scaled_finite)

lemma pos_money_step: "pos_money p a = Inr r \<Longrightarrow> frame_ok u p \<Longrightarrow> is_finite a \<Longrightarrow> at_unit u r"
  by (rule pos_money_at_unit)

lemma plain_step: "plain a = Inr r \<Longrightarrow> is_finite a \<Longrightarrow> is_finite r"
  by (rule plain_finite)

lemma rebased_average:
  assumes "rebased amb p q b realized price t opened = Inr p'"
    and "frame_ok u p" "is_finite q" "is_finite b"
  shows "is_finite (average_cost p')"
proof (cases "dec_eq q dec_zero")
  case True
  with assms show ?thesis by (auto simp: rebased_def)
next
  case False
  with assms(1) obtain q1 x y a where s: "dec_abs amb q = Inr q1" "scaled p q1 = Inr x"
      "dec_div ACCOUNTING_CONTEXT b x = Inr y" "plain y = Inr a" and p': "average_cost p' = a"
    by (auto simp: rebased_def rbind_eq_Inr)
  have "is_finite q1" using dec_abs_finite [OF assms(3) s(1)] .
  then have "is_finite x" by (rule scaled_finite [OF assms(2) _ s(2)])
  with assms(4) have "is_finite y" by (rule dec_div_finite [OF _ _ s(3)])
  with s(4) show ?thesis unfolding p' by (rule plain_step)
qed

lemma rebased_ok:
  assumes "rebased amb p q b realized price t opened = Inr p'" and "frame_ok u p"
    and "is_finite q" "fits ACCOUNTING_CONTEXT q" "at_unit u b" "at_unit u realized" "is_finite price"
  shows "pos_ok u p'" "kept_basis p' = b" "pos_quantity p' = q"
  using assms rebased_average [OF assms(1-3)] rebased_fields [OF assms(1)]
  by (simp_all add: pos_ok_def frame_ok_def basis_ok_def kept_basis_def)

lemma trade_total_at_unit:
  "trade_total q price p = Inr r \<Longrightarrow> frame_ok u p \<Longrightarrow> is_finite q \<Longrightarrow> is_finite price \<Longrightarrow> at_unit u r"
  by (auto simp: trade_total_def rbind_eq_Inr dest!: pos_money_step scaled_step finite_steps)

lemma relieved_at_unit:
  "relieved_basis p b part whole = Inr r \<Longrightarrow> frame_ok u p \<Longrightarrow> is_finite b \<Longrightarrow> is_finite part \<Longrightarrow>
   is_finite whole \<Longrightarrow> at_unit u r"
  by (auto simp: relieved_basis_def rbind_eq_Inr dest!: pos_money_step finite_steps)

section \<open>What a fill leaves\<close>

text \<open>
  \<open>fill_result u p v p' pnl\<close>: the position \<open>p'\<close> is well formed, the P&L is money, and, when the
  two bases are small and the P&L below the range of exact sums, money is conserved: \<open>v\<close> is what the trade pays into
  the position, negative for a sale.
\<close>

definition fill_result :: "int \<Rightarrow> position \<Rightarrow> rat \<Rightarrow> position \<Rightarrow> decimal \<Rightarrow> bool" where
  "fill_result u p v p' pnl =
     (pos_ok u p' \<and> at_unit u pnl \<and>
      (small u (kept_basis p) \<longrightarrow> small u (kept_basis p') \<longrightarrow> below u pnl \<longrightarrow>
        signed_basis p' = signed_basis p + v + dval pnl) \<and>
      (dval (pos_quantity p') = 0 \<longrightarrow> dval (kept_basis p') = 0))"

lemma pos_okD:
  assumes "pos_ok u p"
  shows "frame_ok u p" "basis_ok u p" "unit_range u" "0 \<le> u" "is_finite (pos_quantity p)"
    "fits ACCOUNTING_CONTEXT (pos_quantity p)" "at_unit u (pos_realized_pnl p)"
    "at_unit u (kept_basis p)" "is_finite (kept_basis p)"
  using assms basis_kept [of u p ACCOUNTING_CONTEXT] at_unit_finite [of u "kept_basis p"]
  by (auto simp: pos_ok_def frame_ok_def)

lemmas small_exact = add_small_exact [OF _ _ _ _ small_less] sub_small_exact [OF _ _ _ _ small_less]

lemma apply_long_result:
  assumes ok: "pos_ok u p" and long: "0 < dval (pos_quantity p)"
    and q: "is_finite q" "fits ACCOUNTING_CONTEXT q" "dval q \<noteq> 0"
    and price: "is_finite price" and paid: "at_unit u paid"
    and run: "apply_long q price paid t p = Inr (p', pnl)"
  shows "fill_result u p (if 0 < dval q then dval paid else - dval paid) p' pnl"
proof -
  note P = pos_okD [OF ok]
  let ?A = ACCOUNTING_CONTEXT and ?b = "kept_basis p" and ?Q = "pos_quantity p"
  have b: "basis ?A p = Inr ?b" using basis_kept [OF P(2)] by simp
  show ?thesis
  proof (cases "0 < dval q")
    case True
    then obtain q' b' where s: "dec_add ?A ?Q q = Inr q'" "dec_add ?A ?b paid = Inr b'"
        "rebased ?A p q' b' (pos_realized_pnl p) price t None = Inr p'" "pnl = ZERO_MONEY"
      using run b q by (auto simp: apply_long_def rbind_eq_Inr)
    note Q = dec_add_sign [OF s(1) P(5) q(1) P(6) q(2) accounting_sane]
    have b': "at_unit u b'" using at_unit_add [OF s(2) P(8) paid P(4)] .
    note R = rebased_ok [OF s(3) P(1) Q(1,2) b' P(7) price]
    have q': "0 < dval q'" using Q(3) long True by simp
    have "small u b' \<Longrightarrow> dval b' = dval ?b + dval paid" using small_exact(1) [OF s(2) P(8) paid P(3)] .
    with R q' long True P show ?thesis by (auto simp: fill_result_def signed_basis_def s(4))
  next
    case False
    obtain sell where sell: "dec_abs ?A q = Inr sell" "is_finite sell" "fits ?A sell" "dval sell = \<bar>dval q\<bar>"
      using dec_abs_fits [OF q(2,1)] by blast
    consider (part) "dval sell < dval ?Q" | (close) "dval sell = dval ?Q" | (turn) "dval ?Q < dval sell" by linarith
    then show ?thesis
    proof cases
      case part
      then obtain rel q' b' realized_sum where s: "relieved_basis p ?b sell ?Q = Inr rel"
          "dec_sub ?A paid rel = Inr pnl" "dec_sub ?A ?Q sell = Inr q'" "dec_sub ?A ?b rel = Inr b'"
          "dec_add ?A (pos_realized_pnl p) pnl = Inr realized_sum"
          "rebased ?A p q' b' realized_sum price t None = Inr p'"
        using run b q sell False P(5) by (auto simp: apply_long_def rbind_eq_Inr)
      have rel: "at_unit u rel" using relieved_at_unit [OF s(1) P(1,9) sell(2) P(5)] .
      have m: "at_unit u pnl" "at_unit u b'"
        by (rule at_unit_sub [OF s(2) paid rel P(4)], rule at_unit_sub [OF s(4) P(8) rel P(4)])
      have sum: "at_unit u realized_sum" using at_unit_add [OF s(5) P(7) m(1) P(4)] .
      note Q = dec_sub_sign [OF s(3) P(5) sell(2) P(6) sell(3) accounting_sane]
      note R = rebased_ok [OF s(6) P(1) Q(1,2) m(2) sum price]
      have q': "0 < dval q'" using Q(3) part by simp
      have "below u pnl \<Longrightarrow> dval pnl = dval paid - dval rel" "small u b' \<Longrightarrow> dval b' = dval ?b - dval rel"
        by (rule sub_small_exact [OF s(2) paid rel P(3)], assumption, rule small_exact(2) [OF s(4) P(8) rel P(3)], assumption)
      with R q' long False m show ?thesis by (auto simp: fill_result_def signed_basis_def)
    next
      case close
      then obtain realized_sum where s: "dec_sub ?A paid ?b = Inr pnl"
          "dec_add ?A (pos_realized_pnl p) pnl = Inr realized_sum"
          "rebased ?A p dec_zero ZERO_MONEY realized_sum price t None = Inr p'"
        using run b q sell False P(5) by (auto simp: apply_long_def rbind_eq_Inr)
      have m: "at_unit u pnl" using at_unit_sub [OF s(1) paid P(8,4)] .
      have sum: "at_unit u realized_sum" using at_unit_add [OF s(2) P(7) m P(4)] .
      have z: "is_finite dec_zero" "fits ?A dec_zero" by simp_all
      note R = rebased_ok [OF s(3) P(1) z at_unit_zero(1) [OF P(4)] sum price]
      have "below u pnl \<Longrightarrow> dval pnl = dval paid - dval ?b" using sub_small_exact [OF s(1) paid P(8,3)] .
      with R long False m show ?thesis by (auto simp: fill_result_def signed_basis_def)
    next
      case turn
      then obtain oq x y cp sq q' b' realized_sum where s: "dec_abs ?A ?Q = Inr oq" "dec_mul ?A oq price = Inr x"
          "scaled p x = Inr y" "pos_money p y = Inr cp" "dec_sub ?A cp ?b = Inr pnl"
          "dec_sub ?A sell ?Q = Inr sq" "dec_neg ?A sq = Inr q'" "dec_sub ?A paid cp = Inr b'"
          "dec_add ?A (pos_realized_pnl p) pnl = Inr realized_sum"
          "rebased ?A p q' b' realized_sum price t (Some (Some t)) = Inr p'"
        using run b q sell False P(5) by (auto simp: apply_long_def rbind_eq_Inr)
      have cp: "at_unit u cp"
        using pos_money_at_unit [OF P(1) scaled_finite [OF P(1) dec_mul_finite [OF dec_abs_finite [OF P(5) s(1)] price s(2)] s(3)] s(4)] .
      have m: "at_unit u pnl" "at_unit u b'"
        by (rule at_unit_sub [OF s(5) cp P(8,4)], rule at_unit_sub [OF s(8) paid cp P(4)])
      have sum: "at_unit u realized_sum" using at_unit_add [OF s(9) P(7) m(1) P(4)] .
      note Q = dec_sub_sign [OF s(6) sell(2) P(5) sell(3) P(6) accounting_sane]
      have nq: "q' = dec_neg_exact sq" using s(7) dec_neg_fits [OF Q(2)] by simp
      then have fq: "is_finite q'" "fits ?A q'" using Q by simp_all
      note R = rebased_ok [OF s(10) P(1) fq m(2) sum price]
      have q': "dval q' < 0" using Q(3) turn nq by simp
      have "below u pnl \<Longrightarrow> dval pnl = dval cp - dval ?b" "small u b' \<Longrightarrow> dval b' = dval paid - dval cp"
        by (rule sub_small_exact [OF s(5) cp P(8,3)], assumption, rule small_exact(2) [OF s(8) paid cp P(3)], assumption)
      with R q' long False m show ?thesis by (auto simp: fill_result_def signed_basis_def)
    qed
  qed
qed

lemma apply_short_result:
  assumes ok: "pos_ok u p" and short: "dval (pos_quantity p) < 0"
    and q: "is_finite q" "fits ACCOUNTING_CONTEXT q" "dval q \<noteq> 0"
    and price: "is_finite price" and paid: "at_unit u paid"
    and run: "apply_short q price paid t p = Inr (p', pnl)"
  shows "fill_result u p (if 0 < dval q then dval paid else - dval paid) p' pnl"
proof -
  note P = pos_okD [OF ok]
  let ?A = ACCOUNTING_CONTEXT and ?b = "kept_basis p" and ?Q = "pos_quantity p"
  have b: "basis ?A p = Inr ?b" using basis_kept [OF P(2)] by simp
  obtain cs where cs: "dec_abs ?A ?Q = Inr cs" "is_finite cs" "fits ?A cs" "dval cs = \<bar>dval ?Q\<bar>"
    using dec_abs_fits [OF P(6,5)] by blast
  consider (more) "dval q < 0" | (part) "0 < dval q" "dval q < dval cs" | (close) "0 < dval q" "dval q = dval cs"
    | (turn) "0 < dval q" "dval cs < dval q" using q(3) by linarith
  then show ?thesis
  proof cases
    case more
    obtain m where m: "dec_abs ?A q = Inr m" "is_finite m" "fits ?A m" "dval m = \<bar>dval q\<bar>"
      using dec_abs_fits [OF q(2,1)] by blast
    obtain sz q' b' where s: "dec_add ?A cs m = Inr sz" "dec_neg ?A sz = Inr q'"
        "dec_add ?A ?b paid = Inr b'" "rebased ?A p q' b' (pos_realized_pnl p) price t None = Inr p'" "pnl = ZERO_MONEY"
      using run b q cs m more by (auto simp: apply_short_def rbind_eq_Inr)
    note Q = dec_add_sign [OF s(1) cs(2) m(2) cs(3) m(3) accounting_sane]
    have nq: "q' = dec_neg_exact sz" using s(2) dec_neg_fits [OF Q(2)] by simp
    then have fq: "is_finite q'" "fits ?A q'" using Q by simp_all
    have b': "at_unit u b'" using at_unit_add [OF s(3) P(8) paid P(4)] .
    note R = rebased_ok [OF s(4) P(1) fq b' P(7) price]
    have q': "dval q' < 0" using Q(3) more cs m short nq by simp
    have "small u b' \<Longrightarrow> dval b' = dval ?b + dval paid" using small_exact(1) [OF s(3) P(8) paid P(3)] .
    with R q' short more P show ?thesis by (auto simp: fill_result_def signed_basis_def s(5))
  next
    case part
    then obtain rel q' b' realized_sum where s: "relieved_basis p ?b q cs = Inr rel"
        "dec_sub ?A rel paid = Inr pnl" "dec_add ?A ?Q q = Inr q'" "dec_sub ?A ?b rel = Inr b'"
        "dec_add ?A (pos_realized_pnl p) pnl = Inr realized_sum"
        "rebased ?A p q' b' realized_sum price t None = Inr p'"
      using run b q cs by (auto simp: apply_short_def rbind_eq_Inr)
    have rel: "at_unit u rel" using relieved_at_unit [OF s(1) P(1,9) q(1) cs(2)] .
    have m: "at_unit u pnl" "at_unit u b'"
      by (rule at_unit_sub [OF s(2) rel paid P(4)], rule at_unit_sub [OF s(4) P(8) rel P(4)])
    have sum: "at_unit u realized_sum" using at_unit_add [OF s(5) P(7) m(1) P(4)] .
    note Q = dec_add_sign [OF s(3) P(5) q(1) P(6) q(2) accounting_sane]
    note R = rebased_ok [OF s(6) P(1) Q(1,2) m(2) sum price]
    have q': "dval q' < 0" using Q(4) part cs short by simp
    have "below u pnl \<Longrightarrow> dval pnl = dval rel - dval paid" "small u b' \<Longrightarrow> dval b' = dval ?b - dval rel"
      by (rule sub_small_exact [OF s(2) rel paid P(3)], assumption, rule small_exact(2) [OF s(4) P(8) rel P(3)], assumption)
    with R q' short part m show ?thesis by (auto simp: fill_result_def signed_basis_def)
  next
    case close
    then obtain realized_sum where s: "dec_sub ?A ?b paid = Inr pnl"
        "dec_add ?A (pos_realized_pnl p) pnl = Inr realized_sum"
        "rebased ?A p dec_zero ZERO_MONEY realized_sum price t None = Inr p'"
      using run b q cs by (auto simp: apply_short_def rbind_eq_Inr)
    have m: "at_unit u pnl" using at_unit_sub [OF s(1) P(8) paid P(4)] .
    have sum: "at_unit u realized_sum" using at_unit_add [OF s(2) P(7) m P(4)] .
    have z: "is_finite dec_zero" "fits ?A dec_zero" by simp_all
    note R = rebased_ok [OF s(3) P(1) z at_unit_zero(1) [OF P(4)] sum price]
    have "below u pnl \<Longrightarrow> dval pnl = dval ?b - dval paid" using sub_small_exact [OF s(1) P(8) paid P(3)] .
    with R short close m show ?thesis by (auto simp: fill_result_def signed_basis_def)
  next
    case turn
    then obtain x y cc q' b' realized_sum where s: "dec_mul ?A cs price = Inr x"
        "scaled p x = Inr y" "pos_money p y = Inr cc" "dec_sub ?A ?b cc = Inr pnl"
        "dec_sub ?A q cs = Inr q'" "dec_sub ?A paid cc = Inr b'"
        "dec_add ?A (pos_realized_pnl p) pnl = Inr realized_sum"
        "rebased ?A p q' b' realized_sum price t (Some (Some t)) = Inr p'"
      using run b q cs by (auto simp: apply_short_def rbind_eq_Inr)
    have cc: "at_unit u cc"
      using pos_money_at_unit [OF P(1) scaled_finite [OF P(1) dec_mul_finite [OF cs(2) price s(1)] s(2)] s(3)] .
    have m: "at_unit u pnl" "at_unit u b'"
      by (rule at_unit_sub [OF s(4) P(8) cc P(4)], rule at_unit_sub [OF s(6) paid cc P(4)])
    have sum: "at_unit u realized_sum" using at_unit_add [OF s(7) P(7) m(1) P(4)] .
    note Q = dec_sub_sign [OF s(5) q(1) cs(2) q(2) cs(3) accounting_sane]
    note R = rebased_ok [OF s(8) P(1) Q(1,2) m(2) sum price]
    have q': "0 < dval q'" using Q(3) turn by simp
    have "below u pnl \<Longrightarrow> dval pnl = dval ?b - dval cc" "small u b' \<Longrightarrow> dval b' = dval paid - dval cc"
      by (rule sub_small_exact [OF s(4) P(8) cc P(3)], assumption, rule small_exact(2) [OF s(6) paid cc P(3)], assumption)
    with R q' short turn m show ?thesis by (auto simp: fill_result_def signed_basis_def)
  qed
qed

text \<open>
  A position before its first fill: flat, with no basis recorded. It is what the engine hands to
  the first fill of an asset.
\<close>

definition fresh_ok :: "int \<Rightarrow> position \<Rightarrow> bool" where
  "fresh_ok u p = (frame_ok u p \<and> dval (pos_quantity p) = 0 \<and> cost_basis p = None)"

definition held_ok :: "int \<Rightarrow> position \<Rightarrow> bool" where
  "held_ok u p = (pos_ok u p \<and> (dval (pos_quantity p) = 0 \<longrightarrow> dval (kept_basis p) = 0) \<or> fresh_ok u p)"

lemma held_frame: "held_ok u p \<Longrightarrow> frame_ok u p"
  by (auto simp: held_ok_def fresh_ok_def pos_ok_def)

lemma frame_okD:
  assumes "frame_ok u p"
  shows "unit_range u" "0 \<le> u" "is_finite (pos_quantity p)" "fits ACCOUNTING_CONTEXT (pos_quantity p)"
    "at_unit u (pos_realized_pnl p)" "is_finite (average_cost p)" "is_finite (market_price p)"
  using assms by (simp_all add: frame_ok_def)

lemma flat_basis: "held_ok u p \<Longrightarrow> dval (pos_quantity p) = 0 \<Longrightarrow> signed_basis p = 0"
  by (auto simp: held_ok_def fresh_ok_def signed_basis_def kept_basis_def)

lemma side_of_eq:
  "is_finite (pos_quantity p) \<Longrightarrow> side_of p =
     Inr (if 0 < dval (pos_quantity p) then LONG else if dval (pos_quantity p) < 0 then SHORT else FLAT)"
  by (simp add: side_of_def)

lemma fill_paid_result:
  assumes ok: "held_ok u p" and pays: "pays_notional p"
    and q: "is_finite q" "fits ACCOUNTING_CONTEXT q" "dval q \<noteq> 0" and price: "is_finite price"
    and run: "pos_apply_fill q price t p = Inr (p', pnl)"
  obtains paid where "trade_total q price p = Inr paid" "at_unit u paid"
    "fill_result u p (if 0 < dval q then dval paid else - dval paid) p' pnl"
proof -
  note F = frame_okD [OF held_frame [OF ok]]
  obtain paid where paid: "trade_total q price p = Inr paid"
    using run q pays by (auto simp: pos_apply_fill_def rbind_eq_Inr)
  have at: "at_unit u paid" using trade_total_at_unit [OF paid held_frame [OF ok] q(1) price] .
  have sp: "pos_ok u p" if "dval (pos_quantity p) \<noteq> 0" using ok that by (auto simp: held_ok_def fresh_ok_def)
  consider (long) "0 < dval (pos_quantity p)" | (short) "dval (pos_quantity p) < 0"
    | (flat) "dval (pos_quantity p) = 0" by linarith
  then have "fill_result u p (if 0 < dval q then dval paid else - dval paid) p' pnl"
  proof cases
    case long
    then have "apply_long q price paid t p = Inr (p', pnl)"
      using run q pays paid F by (simp add: pos_apply_fill_def side_of_eq)
    with apply_long_result [OF sp long q price at] long show ?thesis by simp
  next
    case short
    then have "apply_short q price paid t p = Inr (p', pnl)"
      using run q pays paid F by (simp add: pos_apply_fill_def side_of_eq)
    with apply_short_result [OF sp short q price at] short show ?thesis by simp
  next
    case flat
    then have s: "rebased ACCOUNTING_CONTEXT p q paid (pos_realized_pnl p) price t (Some (Some t)) = Inr p'"
        "pnl = ZERO_MONEY"
      using run q pays paid F by (auto simp: pos_apply_fill_def side_of_eq rbind_eq_Inr)
    note R = rebased_ok [OF s(1) held_frame [OF ok] q(1,2) at F(5) price]
    from R flat_basis [OF ok flat] q(3) F(2) show ?thesis
      by (auto simp: fill_result_def s(2) signed_basis_def [of p'])
  qed
  with paid at that show thesis by blast
qed

lemma mark_fields [simp]:
  "pos_quantity (update_market_price price t p) = pos_quantity p"
  "kept_basis (update_market_price price t p) = kept_basis p"
  "cost_basis (update_market_price price t p) = cost_basis p"
  "basis_ok u (update_market_price price t p) = basis_ok u p"
  "pos_currency (update_market_price price t p) = pos_currency p"
  "pos_economics (update_market_price price t p) = pos_economics p"
  "pos_minor_units (update_market_price price t p) = pos_minor_units p"
  "pos_asset_id (update_market_price price t p) = pos_asset_id p"
  by (simp_all add: update_market_price_def kept_basis_def basis_ok_def)

lemma mark_frame_ok: "is_finite price \<Longrightarrow> frame_ok u p \<Longrightarrow> frame_ok u (update_market_price price t p)"
  by (simp add: frame_ok_def update_market_price_def)

lemma mark_held_ok: "is_finite price \<Longrightarrow> held_ok u p \<Longrightarrow> held_ok u (update_market_price price t p)"
  using mark_frame_ok [of price u p t] by (auto simp: held_ok_def fresh_ok_def pos_ok_def)

text \<open>A position whose gains settle as cash: the P&L of the mark is money, the rest well formed.\<close>

lemma settle_result:
  assumes ok: "held_ok u p" and price: "is_finite price"
    and run: "pos_settle price t p = Inr (p', amount)"
  shows "held_ok u p'" "at_unit u amount" "pos_quantity p' = pos_quantity p"
    "pays_notional p \<Longrightarrow> dval amount = 0 \<and> kept_basis p' = kept_basis p"
proof -
  note F = frame_okD [OF held_frame [OF ok]]
  let ?A = ACCOUNTING_CONTEXT
  have "held_ok u p' \<and> at_unit u amount \<and> pos_quantity p' = pos_quantity p \<and>
    (pays_notional p \<longrightarrow> dval amount = 0 \<and> kept_basis p' = kept_basis p)"
  proof (cases "pays_notional p \<or> dec_eq (pos_quantity p) dec_zero")
    case True
    then have s: "p' = update_market_price price t p" "amount = ZERO_MONEY"
      using run by (auto simp: pos_settle_def)
    have "held_ok u p'" using ok price by (simp only: s(1) mark_held_ok)
    with F show ?thesis by (simp add: s mark_fields)
  next
    case False
    then obtain move x y q z w b realized where s: "dec_sub ?A price (average_cost p) = Inr move"
        "dec_mul ?A (pos_quantity p) move = Inr x" "scaled p x = Inr y" "pos_money p y = Inr amount"
        "dec_abs ?A (pos_quantity p) = Inr q" "dec_mul ?A q price = Inr z" "scaled p z = Inr w"
        "pos_money p w = Inr b" "dec_add ?A (pos_realized_pnl p) amount = Inr realized"
        "rebased ?A p (pos_quantity p) b realized price t None = Inr p'"
      using run by (auto simp: pos_settle_def rbind_eq_Inr)
    note fr = held_frame [OF ok]
    have am: "at_unit u amount"
      using pos_money_at_unit [OF fr scaled_finite [OF fr dec_mul_finite [OF F(3) dec_sub_finite [OF price F(6) s(1)] s(2)] s(3)] s(4)] .
    have b: "at_unit u b"
      using pos_money_at_unit [OF fr scaled_finite [OF fr dec_mul_finite [OF dec_abs_finite [OF F(3) s(5)] price s(6)] s(7)] s(8)] .
    have r: "at_unit u realized" using at_unit_add [OF s(9) F(5) am F(2)] .
    note R = rebased_ok [OF s(10) fr F(3,4) b r price]
    have "dval (pos_quantity p) \<noteq> 0" using False F by simp
    with R False am show ?thesis by (auto simp: held_ok_def)
  qed
  then show "held_ok u p'" "at_unit u amount" "pos_quantity p' = pos_quantity p"
    "pays_notional p \<Longrightarrow> dval amount = 0 \<and> kept_basis p' = kept_basis p" by blast+
qed

lemma fill_settled_result:
  assumes ok: "held_ok u p" and pays: "\<not> pays_notional p"
    and q: "is_finite q" "fits ACCOUNTING_CONTEXT q" "dval q \<noteq> 0" and price: "is_finite price"
    and run: "pos_apply_fill q price t p = Inr (p', pnl)"
  shows "pos_ok u p'" "at_unit u pnl" "dval (pos_quantity p') = 0 \<Longrightarrow> dval (kept_basis p') = 0"
proof -
  let ?A = ACCOUNTING_CONTEXT
  obtain st where st: "pos_settle price t p = Inr (st, pnl)"
    using run q pays by (auto simp: pos_apply_fill_def apply_settled_def rbind_eq_Inr Let_def)
  note S = settle_result [OF ok price st]
  note fr = held_frame [OF ok] and fs = held_frame [OF S(1)]
  note F = frame_okD [OF fs]
  obtain rem rev a x y b opn where s: "dec_add ?A (pos_quantity st) q = Inr rem"
      "dec_abs ?A rem = Inr a" "dec_mul ?A a price = Inr x" "scaled p x = Inr y" "pos_money p y = Inr b"
      "rebased ?A st rem (if \<not> dec_eq rem dec_zero then b else ZERO_MONEY) (pos_realized_pnl st) price t opn = Inr p'"
    using run q pays st by (auto simp: pos_apply_fill_def apply_settled_def rbind_eq_Inr Let_def)
  note Q = dec_add_sign [OF s(1) F(3) q(1) F(4) q(2) accounting_sane]
  have b: "at_unit u b"
    using pos_money_at_unit [OF fr scaled_finite [OF fr dec_mul_finite [OF dec_abs_finite [OF Q(1) s(2)] price s(3)] s(4)] s(5)] .
  have b': "at_unit u (if \<not> dec_eq rem dec_zero then b else ZERO_MONEY)" using b F(2) by simp
  note R = rebased_ok [OF s(6) fs Q(1,2) b' F(5) price]
  show "pos_ok u p'" "at_unit u pnl" using R S by simp_all
  show "dval (pos_quantity p') = 0 \<Longrightarrow> dval (kept_basis p') = 0" using R Q(1) by simp
qed

text \<open>What identifies a position never changes.\<close>

definition same_frame :: "position \<Rightarrow> position \<Rightarrow> bool" where
  "same_frame p p' =
     (pos_asset_id p' = pos_asset_id p \<and> pos_currency p' = pos_currency p \<and>
      pos_minor_units p' = pos_minor_units p \<and> pos_economics p' = pos_economics p)"

lemma same_frame_refl [simp]: "same_frame p p"
  by (simp add: same_frame_def)

lemma same_frame_trans: "same_frame p q \<Longrightarrow> same_frame q r \<Longrightarrow> same_frame p r"
  by (simp add: same_frame_def)

lemma rebased_frame: "rebased amb p q b r pr t opened = Inr p' \<Longrightarrow> same_frame p p'"
  by (auto simp: same_frame_def dest: rebased_fields)

lemma mark_frame [simp]: "same_frame p (update_market_price price t p)"
  by (simp add: same_frame_def)

lemma settle_frame: "pos_settle price t p = Inr (p', x) \<Longrightarrow> same_frame p p'"
  by (auto simp: pos_settle_def rbind_eq_Inr dest: rebased_frame split: if_splits)

lemma split_frame: "pos_split ratio t p = Inr p' \<Longrightarrow> same_frame p p'"
  by (auto simp: pos_split_def rbind_eq_Inr dest: rebased_frame)

lemma long_frame: "apply_long q price paid t p = Inr (p', x) \<Longrightarrow> same_frame p p'"
  by (auto simp: apply_long_def rbind_eq_Inr dest: rebased_frame split: if_splits)

lemma short_frame: "apply_short q price paid t p = Inr (p', x) \<Longrightarrow> same_frame p p'"
  by (auto simp: apply_short_def rbind_eq_Inr dest: rebased_frame split: if_splits)

lemma settled_frame: "apply_settled q price t p = Inr (p', x) \<Longrightarrow> same_frame p p'"
  by (auto simp: apply_settled_def rbind_eq_Inr Let_def dest!: settle_frame dest: rebased_frame
    intro: same_frame_trans split: prod.splits)

lemma fill_frame: "pos_apply_fill q price t p = Inr (p', x) \<Longrightarrow> same_frame p p'"
  by (auto simp: pos_apply_fill_def rbind_eq_Inr dest: rebased_frame long_frame short_frame settled_frame
    split: if_splits position_side.splits) (use position_side.exhaust in blast)

lemma same_frame_pays: "same_frame p p' \<Longrightarrow> pays_notional p' = pays_notional p"
  by (simp add: same_frame_def pays_notional_def)

text \<open>A split keeps the basis, the realized P&L and the side.\<close>

lemma split_result:
  assumes ok: "held_ok u p" and ratio: "is_finite ratio" "0 < dval ratio"
    and run: "pos_split ratio t p = Inr p'" and open_after: "dval (pos_quantity p') \<noteq> 0"
  shows "pos_ok u p'" "kept_basis p' = kept_basis p" "signed_basis p' = signed_basis p"
    "pos_realized_pnl p' = pos_realized_pnl p"
proof -
  note F = frame_okD [OF held_frame [OF ok]]
  obtain q b pr where s: "dec_mul ACCOUNTING_CONTEXT (pos_quantity p) ratio = Inr q" "basis ACCOUNTING_CONTEXT p = Inr b"
      "dec_div ACCOUNTING_CONTEXT (market_price p) ratio = Inr pr"
      "rebased ACCOUNTING_CONTEXT p q b (pos_realized_pnl p) pr t None = Inr p'"
    using run by (auto simp: pos_split_def rbind_eq_Inr)
  note Q = dec_mul_sign [OF s(1) F(3) ratio]
  have q: "pos_quantity p' = q" using rebased_fields [OF s(4)] by simp
  have "dval (pos_quantity p) \<noteq> 0" using Q open_after q by auto
  then have po: "pos_ok u p" using ok by (auto simp: held_ok_def fresh_ok_def)
  note P = pos_okD [OF po]
  have b: "b = kept_basis p" using s(2) basis_kept [OF P(2)] by auto
  have fq: "fits ACCOUNTING_CONTEXT q"
  proof -
    obtain c e d f where "pos_quantity p = Fin c e" "ratio = Fin d f" using F(3) ratio(1) by (auto simp: is_finite_iff)
    with s(1) show ?thesis using dec_fix_result_fits [OF _ accounting_sane] by simp
  qed
  have pr: "is_finite pr" using dec_div_finite [OF F(7) ratio(1) s(3)] .
  note R = rebased_ok [OF s(4) held_frame [OF ok] Q(1) fq _ F(5) pr]
  show "pos_ok u p'" "kept_basis p' = kept_basis p" using R P(8) by (simp_all add: b)
  then show "signed_basis p' = signed_basis p" using Q open_after \<open>dval (pos_quantity p) \<noteq> 0\<close>
    by (auto simp: signed_basis_def q not_less)
  show "pos_realized_pnl p' = pos_realized_pnl p" using rebased_fields [OF s(4)] by simp
qed

section \<open>Money is conserved\<close>

text \<open>
  A position that does not pay its notional -- a future, a perpetual -- settles as cash what the
  quantity it held gained since the price it was last settled at, and stands at the fill price.
\<close>

definition variation_gain :: "decimal \<Rightarrow> position \<Rightarrow> decimal res" where
  "variation_gain price p =
     rbind (dec_sub ACCOUNTING_CONTEXT price (average_cost p)) (\<lambda>move.
     rbind (dec_mul ACCOUNTING_CONTEXT (pos_quantity p) move) (\<lambda>gain.
     rbind (scaled p gain) (pos_money p)))"

lemma settle_variation:
  assumes ok: "held_ok u p" and pays: "\<not> pays_notional p" and run: "pos_settle price t p = Inr (p', amount)"
  shows "if dval (pos_quantity p) = 0 then dval amount = 0 \<and> pos_realized_pnl p' = pos_realized_pnl p
    else variation_gain price p = Inr amount \<and> dec_add ACCOUNTING_CONTEXT (pos_realized_pnl p) amount = Inr (pos_realized_pnl p')"
proof -
  note F = frame_okD [OF held_frame [OF ok]]
  from run pays F show ?thesis
    by (auto simp: pos_settle_def variation_gain_def rbind_eq_Inr update_market_price_def dest!: rebased_fields(3) split: if_splits)
qed

lemma fill_settled_stands:
  assumes ok: "held_ok u p" and pays: "\<not> pays_notional p"
    and q: "is_finite q" "fits ACCOUNTING_CONTEXT q" "dval q \<noteq> 0" and price: "is_finite price"
    and run: "pos_apply_fill q price t p = Inr (p', pnl)"
  shows "dec_add ACCOUNTING_CONTEXT (pos_quantity p) q = Inr (pos_quantity p') \<and>
    (if dval (pos_quantity p) = 0 then dval pnl = 0 \<and> pos_realized_pnl p' = pos_realized_pnl p
     else variation_gain price p = Inr pnl \<and> dec_add ACCOUNTING_CONTEXT (pos_realized_pnl p) pnl = Inr (pos_realized_pnl p')) \<and>
    (if dval (pos_quantity p') = 0 then dval (kept_basis p') = 0
     else trade_total (pos_quantity p') price p = Inr (kept_basis p'))"
proof -
  let ?A = ACCOUNTING_CONTEXT
  obtain st where st: "pos_settle price t p = Inr (st, pnl)"
    using run q pays by (auto simp: pos_apply_fill_def apply_settled_def rbind_eq_Inr Let_def)
  note S = settle_result [OF ok price st]
  obtain rem a x y b opn where s: "dec_add ?A (pos_quantity st) q = Inr rem"
      "dec_abs ?A rem = Inr a" "dec_mul ?A a price = Inr x" "scaled p x = Inr y" "pos_money p y = Inr b"
      "rebased ?A st rem (if \<not> dec_eq rem dec_zero then b else ZERO_MONEY) (pos_realized_pnl st) price t opn = Inr p'"
    using run q pays st by (auto simp: pos_apply_fill_def apply_settled_def rbind_eq_Inr Let_def)
  note R = rebased_fields [OF s(6)] and F = frame_okD [OF held_frame [OF S(1)]]
  have rem: "is_finite rem" using dec_add_sign(1) [OF s(1) F(3) q(1) F(4) q(2) accounting_sane] .
  have "trade_total rem price p = Inr b" using s(2-5) by (simp add: trade_total_def)
  then show ?thesis
    using settle_variation [OF ok pays st] s(1) R rem S(3) by (auto simp: kept_basis_def)
qed

text \<open>C15: A fill conserves money, whatever the position. A fully paid position's signed basis moves by
  exactly the money the trade moves plus the P&L it realizes, on every path -- an open, an increase,
  a partial or full close and a reversal -- while the amounts have at most 33 digits. A position
  whose gains settle as cash instead realizes exactly what the quantity it held before the fill
  gained since it was last settled, nothing when it held none, adds that to its realized P&L, and
  then carries its new quantity at the fill price. Either way the result is well formed and the
  P&L is whole minor units.\<close>

theorem fill_conserves_money:
  assumes "held_ok u p" "is_finite q" "fits ACCOUNTING_CONTEXT q" "dval q \<noteq> 0" "is_finite price"
    and "pos_apply_fill q price t p = Inr (p', pnl)"
  shows "pos_ok u p' \<and> at_unit u pnl \<and>
    (if pays_notional p
     then \<exists>paid. trade_total q price p = Inr paid \<and>
       (small u (kept_basis p) \<and> small u (kept_basis p') \<and> small u pnl \<longrightarrow>
        signed_basis p' = signed_basis p + (if 0 < dval q then dval paid else - dval paid) + dval pnl)
     else dec_add ACCOUNTING_CONTEXT (pos_quantity p) q = Inr (pos_quantity p') \<and>
       (if dval (pos_quantity p) = 0 then dval pnl = 0 \<and> pos_realized_pnl p' = pos_realized_pnl p
        else variation_gain price p = Inr pnl \<and> dec_add ACCOUNTING_CONTEXT (pos_realized_pnl p) pnl = Inr (pos_realized_pnl p')) \<and>
       (if dval (pos_quantity p') = 0 then dval (kept_basis p') = 0
        else trade_total (pos_quantity p') price p = Inr (kept_basis p')))"
proof (cases "pays_notional p")
  case True
  from fill_paid_result [OF assms(1) True assms(2-6)] obtain paid where paid: "trade_total q price p = Inr paid"
      and r: "fill_result u p (if 0 < dval q then dval paid else - dval paid) p' pnl" by blast
  then show ?thesis using True small_less [of u pnl] unfolding fill_result_def by auto
next
  case False
  with fill_settled_result [OF assms(1) False assms(2-6)] fill_settled_stands [OF assms(1) False assms(2-6)]
  show ?thesis by simp
qed

definition example_position :: position where
  "example_position = \<lparr>pos_asset_id = ''XYZ'', pos_quantity = Fin 10 0, average_cost = Fin 5 0,
     market_price = Fin 6 0, pos_realized_pnl = Fin 0 0, pos_currency = ''USD'', last_updated = FFin 0,
     cost_basis = Some (Fin 5000 (-2)), opened_at = Some (FFin 0), pos_minor_units = Some 2,
     pos_economics = None\<rparr>"

text \<open>Selling fifteen of the ten held: the long closes at a gain and a short opens.\<close>

definition example_reversed :: position where
  "example_reversed = \<lparr>pos_asset_id = ''XYZ'', pos_quantity = Fin (-5) 0, average_cost = Fin 700 (-2),
     market_price = Fin 7 0, pos_realized_pnl = Fin 2000 (-2), pos_currency = ''USD'', last_updated = FFin 1,
     cost_basis = Some (Fin 3500 (-2)), opened_at = Some (FFin 1), pos_minor_units = Some 2,
     pos_economics = None\<rparr>"

lemma example_held: "held_ok 2 example_position" "pays_notional example_position"
  by (simp_all add: example_position_def held_ok_def pos_ok_def frame_ok_def basis_ok_def kept_basis_def
    pays_notional_def MAX_MINOR_UNITS_def dval.simps(1) num_digits.simps)

lemmas pos_eval = pos_apply_fill_def trade_total_def scaled_def pos_money_def side_of_def apply_long_def
  apply_short_def basis_def rebased_def relieved_basis_def pays_notional_def quantum_of_units
  MAX_MINOR_UNITS_def dec_quantize.simps(7) rescale_def plain_def ACCOUNTING_PRECISION_def dec_neg_def
  dec_eval dval.simps(1) ZERO_MONEY_def

lemma example_reversal:
  "pos_apply_fill (Fin (-15) 0) (Fin 7 0) (FFin 1) example_position = Inr (example_reversed, Fin 2000 (-2))"
  by (simp add: example_position_def example_reversed_def pos_eval)

theorem fill_conserves_money_witness:
  "\<exists>paid. trade_total (Fin (-15) 0) (Fin 7 0) example_position = Inr paid \<and>
    signed_basis example_reversed = signed_basis example_position +
      (if 0 < dval (Fin (-15) 0) then dval paid else - dval paid) + dval (Fin 2000 (-2)) \<and>
    pos_ok 2 example_reversed \<and> at_unit 2 (Fin 2000 (-2))"
proof -
  have q: "is_finite (Fin (-15) 0)" "fits ACCOUNTING_CONTEXT (Fin (-15) 0)" "dval (Fin (-15) 0) \<noteq> 0" "is_finite (Fin 7 0)"
    by (simp_all add: dval.simps(1) num_digits.simps)
  have "small 2 (kept_basis example_position)" "small 2 (kept_basis example_reversed)" "small 2 (Fin 2000 (-2))"
    by (simp_all add: kept_basis_def example_position_def example_reversed_def small_def dval.simps(1) num_digits.simps)
  with fill_conserves_money [OF example_held(1) q example_reversal] example_held(2) show ?thesis by auto
qed

end
