(* ===== verification/Position_Book.thy ===== *)
theory Position_Book
  imports Position_Accounting
begin

text \<open>
  The book of open positions with its running totals: \<open>alphalab/portfolio/book.py\<close>. The maps it
  keeps are persistent maps, modelled as their values (theory \<open>Persistent_Values\<close>); bare operators
  run in the caller's context \<open>amb\<close>, and the totals themselves in a context that traps \<open>Inexact\<close>.

  A grouping's \<open>source\<close> is compared by identity only and is not kept.
\<close>

section \<open>Totals\<close>

record currency_totals =
  n_positions :: int
  longs :: int
  shorts :: int
  long_value :: decimal
  short_value :: decimal
  total_unrealized :: decimal
  uncarried_value :: decimal

definition NO_TOTALS :: currency_totals where
  "NO_TOTALS = \<lparr>n_positions = 0, longs = 0, shorts = 0, long_value = ZERO_MONEY,
     short_value = ZERO_MONEY, total_unrealized = ZERO_MONEY, uncarried_value = ZERO_MONEY\<rparr>"

text \<open>A handler of \<open>Inexact\<close> that raises \<open>PortfolioError\<close> instead.\<close>

definition exact_or_error :: "'a res \<Rightarrow> 'a res" where
  "exact_or_error m =
     (case m of Inl e \<Rightarrow> Inl (if caught_inexact e then PortfolioError else e) | Inr r \<Rightarrow> Inr r)"

definition exact_sum :: "decimal \<Rightarrow> decimal \<Rightarrow> decimal res" where
  "exact_sum t amount = exact_or_error (exact_add ACCOUNTING_CONTEXT t amount)"

definition add_total :: "decimal \<Rightarrow> decimal \<Rightarrow> int \<Rightarrow> decimal res" where
  "add_total t amount count =
     (if count = 0 then Inr ZERO_MONEY else exact_or_error (exact_add ACCOUNTING_CONTEXT t amount))"

type_synonym entry = "decimal \<times> decimal \<times> decimal"

definition entry_of :: "dctx \<Rightarrow> position \<Rightarrow> entry res" where
  "entry_of amb p =
     rbind (valuation amb p) (\<lambda>(v, pnl).
       if pays_notional p then Inr (v, pnl, ZERO_MONEY)
       else rbind (dec_sub amb v pnl) (\<lambda>x. Inr (v, pnl, x)))"

definition entry_difference :: "decimal \<Rightarrow> decimal \<Rightarrow> decimal res" where
  "entry_difference new old = exact_or_error (exact_sub ACCOUNTING_CONTEXT new old)"

definition moved_totals :: "currency_totals \<Rightarrow> bool \<Rightarrow> entry \<Rightarrow> entry \<Rightarrow> currency_totals res" where
  "moved_totals t long old new =
     (case old of (v0, pnl0, x0) \<Rightarrow> case new of (v1, pnl1, x1) \<Rightarrow>
      let open_positions = longs t + shorts t in
      rbind (if long then rbind (entry_difference v1 v0) (\<lambda>d. add_total (long_value t) d (longs t))
             else Inr (long_value t)) (\<lambda>lv.
      rbind (if long then Inr (short_value t)
             else rbind (entry_difference v1 v0) (\<lambda>d. add_total (short_value t) d (shorts t))) (\<lambda>sv.
      rbind (entry_difference pnl1 pnl0) (\<lambda>dp.
      rbind (add_total (total_unrealized t) dp open_positions) (\<lambda>up.
      rbind (entry_difference x1 x0) (\<lambda>dx.
      rbind (add_total (uncarried_value t) dx open_positions) (\<lambda>ux.
        Inr (t\<lparr>long_value := lv, short_value := sv, total_unrealized := up, uncarried_value := ux\<rparr>))))))))"

text \<open>\<open>_apply\<close>: a position added (\<open>adding\<close>, the sign 1) or removed (the sign -1).\<close>

definition signed_amount :: "dctx \<Rightarrow> bool \<Rightarrow> decimal \<Rightarrow> decimal res" where
  "signed_amount amb adding x = (if adding then Inr x else dec_neg amb x)"

definition apply_totals ::
  "dctx \<Rightarrow> currency_totals \<Rightarrow> position \<Rightarrow> entry \<Rightarrow> bool \<Rightarrow> currency_totals res" where
  "apply_totals amb t p e adding =
     (case e of (v, pnl, x) \<Rightarrow>
      let sign = (if adding then 1 else -1); count = n_positions t + sign in
      rbind (signed_amount amb adding v) (\<lambda>sv.
      rbind (dec_lt dec_zero (pos_quantity p)) (\<lambda>long.
      rbind (if long
             then rbind (add_total (long_value t) sv (longs t + sign)) (\<lambda>lv.
               Inr (longs t + sign, shorts t, lv, short_value t))
             else rbind (dec_lt (pos_quantity p) dec_zero) (\<lambda>short.
               if short
               then rbind (add_total (short_value t) sv (shorts t + sign)) (\<lambda>x.
                 Inr (longs t, shorts t + sign, long_value t, x))
               else Inr (longs t, shorts t, long_value t, short_value t))) (\<lambda>(nl, ns, lv, shv).
      rbind (signed_amount amb adding pnl) (\<lambda>spnl.
      rbind (add_total (total_unrealized t) spnl (nl + ns)) (\<lambda>up.
      rbind (signed_amount amb adding x) (\<lambda>sx.
      rbind (add_total (uncarried_value t) sx (nl + ns)) (\<lambda>ux.
        Inr \<lparr>n_positions = count, longs = nl, shorts = ns, long_value = lv, short_value = shv,
             total_unrealized = up, uncarried_value = ux\<rparr>))))))))"

section \<open>Groups\<close>

record book_groups =
  dimensions :: "string list"
  group_keys :: "(string, (string \<times> string) list) od"

type_synonym group_totals = "(string \<times> string \<times> string, int \<times> decimal) od"

definition od_item :: "('k, 'v) od \<Rightarrow> 'k \<Rightarrow> 'v res" where
  "od_item m k = (case od_get m k of None \<Rightarrow> Inl KeyError | Some v \<Rightarrow> Inr v)"

text \<open>One group of \<open>_regrouped\<close>: a position's value moved from \<open>old\<close> to \<open>new\<close>.\<close>

definition leave_group :: "group_totals \<Rightarrow> string \<times> string \<times> string \<Rightarrow> decimal \<Rightarrow> group_totals res" where
  "leave_group t key v =
     rbind (od_item t key) (\<lambda>(count, gross).
       if count = 1 then Inr (od_del key t)
       else rbind (exact_sum gross (copy_negate (copy_abs v))) (\<lambda>g. Inr (od_set key (count - 1, g) t)))"

definition enter_group :: "group_totals \<Rightarrow> string \<times> string \<times> string \<Rightarrow> decimal \<Rightarrow> group_totals res" where
  "enter_group t key v =
     (case (case od_get t key of None \<Rightarrow> (0, ZERO_MONEY) | Some x \<Rightarrow> x) of (count, gross) \<Rightarrow>
      rbind (exact_sum gross (copy_abs v)) (\<lambda>g. Inr (od_set key (count + 1, g) t)))"

definition regroup_key ::
  "(string \<times> decimal) option \<Rightarrow> (string \<times> decimal) option \<Rightarrow> group_totals \<Rightarrow> string \<times> string \<Rightarrow> group_totals res" where
  "regroup_key old new t dl =
     (case dl of (dimension, label) \<Rightarrow>
      case (old, new) of
        (None, None) \<Rightarrow> Inr t
      | (Some (c0, v0), None) \<Rightarrow> leave_group t (dimension, label, c0) v0
      | (None, Some (c1, v1)) \<Rightarrow> enter_group t (dimension, label, c1) v1
      | (Some (c0, v0), Some (c1, v1)) \<Rightarrow>
          if c0 = c1 then
            rbind (od_item t (dimension, label, c1)) (\<lambda>(count, gross).
            rbind (exact_sum (copy_abs v1) (copy_negate (copy_abs v0))) (\<lambda>change.
            rbind (exact_sum gross change) (\<lambda>g. Inr (od_set (dimension, label, c1) (count, g) t))))
          else rbind (leave_group t (dimension, label, c0) v0) (\<lambda>t'. enter_group t' (dimension, label, c1) v1))"

definition regrouped ::
  "book_groups option \<Rightarrow> group_totals \<Rightarrow> string \<Rightarrow> (string \<times> decimal) option \<Rightarrow>
   (string \<times> decimal) option \<Rightarrow> group_totals res" where
  "regrouped groups t asset old new =
     (case groups of
        None \<Rightarrow> Inr t
      | Some g \<Rightarrow>
          (case od_get (group_keys g) asset of
             None \<Rightarrow> Inr t
           | Some ks \<Rightarrow> rfold (regroup_key old new) t ks))"

section \<open>The book\<close>

record position_book =
  bk_positions :: "(string, position) od"
  bk_entries :: "(string, entry) od"
  bk_totals :: "(string, currency_totals) od"
  bk_groups :: "book_groups option"
  bk_group_totals :: group_totals

definition empty_positions :: position_book where
  "empty_positions = \<lparr>bk_positions = [], bk_entries = [], bk_totals = [], bk_groups = None, bk_group_totals = []\<rparr>"

definition totals_or_none :: "(string, currency_totals) od \<Rightarrow> string \<Rightarrow> currency_totals" where
  "totals_or_none m c = (case od_get m c of None \<Rightarrow> NO_TOTALS | Some t \<Rightarrow> t)"

text \<open>\<open>PositionBook(positions)\<close>: one walk over a mapping.\<close>

definition book_of :: "dctx \<Rightarrow> (string, position) od \<Rightarrow> position_book res" where
  "book_of amb items =
     rbind (rfold (\<lambda>(entries, totals) (asset, p).
       rbind (entry_of amb p) (\<lambda>e.
       rbind (apply_totals amb (totals_or_none totals (pos_currency p)) p e True) (\<lambda>t.
         Inr (od_set asset e entries, od_set (pos_currency p) t totals)))) ([], []) items)
     (\<lambda>(entries, totals).
       Inr \<lparr>bk_positions = items, bk_entries = entries, bk_totals = totals, bk_groups = None,
            bk_group_totals = []\<rparr>)"

definition book_grouped :: "book_groups option \<Rightarrow> position_book \<Rightarrow> position_book res" where
  "book_grouped groups b =
     (case groups of
        None \<Rightarrow> Inr (b\<lparr>bk_groups := None, bk_group_totals := []\<rparr>)
      | Some g \<Rightarrow>
          rbind (rfold (\<lambda>t (asset, (v, _, _)).
            case od_get (group_keys g) asset of
              None \<Rightarrow> Inr t
            | Some ks \<Rightarrow>
                rbind (od_item (bk_positions b) asset) (\<lambda>p.
                  rfold (\<lambda>t (dimension, label). enter_group t (dimension, label, pos_currency p) v) t ks))
            [] (bk_entries b)) (\<lambda>t.
          Inr (b\<lparr>bk_groups := Some g, bk_group_totals := t\<rparr>)))"

definition group_gross :: "position_book \<Rightarrow> string \<Rightarrow> string \<Rightarrow> (string, decimal) od option" where
  "group_gross b dimension label =
     (case bk_groups b of
        None \<Rightarrow> None
      | Some g \<Rightarrow>
          if dimension \<notin> set (dimensions g) then None
          else Some (fold (\<lambda>currency found.
            case od_get (bk_group_totals b) (dimension, label, currency) of
              None \<Rightarrow> found | Some held \<Rightarrow> od_set currency (snd held) found) (od_keys (bk_totals b)) []))"

definition book_get :: "position_book \<Rightarrow> string \<Rightarrow> position option" where
  "book_get b asset = od_get (bk_positions b) asset"

definition same_side :: "position \<Rightarrow> position \<Rightarrow> bool res" where
  "same_side p q =
     rbind (dec_lt dec_zero (pos_quantity p)) (\<lambda>pl.
     rbind (if pl then dec_lt dec_zero (pos_quantity q) else Inr False) (\<lambda>both_long.
       if both_long then Inr True
       else rbind (dec_lt (pos_quantity p) dec_zero) (\<lambda>ps.
         if ps then dec_lt (pos_quantity q) dec_zero else Inr False)))"

definition drop_empty :: "(string, currency_totals) od \<Rightarrow> (string, currency_totals) od" where
  "drop_empty totals = filter (\<lambda>(c, t). n_positions t \<noteq> 0) totals"

definition book_set :: "dctx \<Rightarrow> string \<Rightarrow> position \<Rightarrow> position_book \<Rightarrow> position_book res" where
  "book_set amb asset p b =
     (if pos_asset_id p \<noteq> asset then Inl PortfolioError
      else
        let previous = od_get (bk_positions b) asset in
        rbind (entry_of amb p) (\<lambda>e.
        rbind (case previous of
                 None \<Rightarrow> Inr None
               | Some q \<Rightarrow> rbind (od_item (bk_entries b) asset) (\<lambda>e0. Inr (Some (q, e0)))) (\<lambda>old.
        rbind (regrouped (bk_groups b) (bk_group_totals b) asset
                 (case old of None \<Rightarrow> None | Some (q, (v0, _, _)) \<Rightarrow> Some (pos_currency q, v0))
                 (Some (pos_currency p, fst e))) (\<lambda>gt.
        rbind (case old of
                 None \<Rightarrow> Inr False
               | Some (q, e0) \<Rightarrow> if pos_currency q = pos_currency p then same_side q p else Inr False) (\<lambda>revalued.
        rbind (case old of
                 Some (q, e0) \<Rightarrow>
                   if revalued then
                     rbind (od_item (bk_totals b) (pos_currency p)) (\<lambda>t.
                     rbind (dec_lt dec_zero (pos_quantity p)) (\<lambda>long.
                     rbind (moved_totals t long e0 e) (\<lambda>t'.
                       Inr (od_set (pos_currency p) t' (bk_totals b)))))
                   else
                     rbind (od_item (bk_totals b) (pos_currency q)) (\<lambda>t.
                     rbind (apply_totals amb t q e0 False) (\<lambda>t'.
                     let ts = od_set (pos_currency q) t' (bk_totals b) in
                     rbind (apply_totals amb (totals_or_none ts (pos_currency p)) p e True) (\<lambda>t2.
                       Inr (drop_empty (od_set (pos_currency p) t2 ts)))))
               | None \<Rightarrow>
                   rbind (apply_totals amb (totals_or_none (bk_totals b) (pos_currency p)) p e True) (\<lambda>t2.
                     Inr (drop_empty (od_set (pos_currency p) t2 (bk_totals b))))) (\<lambda>totals.
          Inr \<lparr>bk_positions = od_set asset p (bk_positions b), bk_entries = od_set asset e (bk_entries b),
               bk_totals = totals, bk_groups = bk_groups b, bk_group_totals = gt\<rparr>))))))"

definition book_delete :: "dctx \<Rightarrow> string \<Rightarrow> position_book \<Rightarrow> position_book res" where
  "book_delete amb asset b =
     (case od_get (bk_positions b) asset of
        None \<Rightarrow> Inr b
      | Some q \<Rightarrow>
          rbind (od_item (bk_totals b) (pos_currency q)) (\<lambda>t.
          rbind (od_item (bk_entries b) asset) (\<lambda>e0.
          rbind (apply_totals amb t q e0 False) (\<lambda>t'.
          rbind (regrouped (bk_groups b) (bk_group_totals b) asset (Some (pos_currency q, fst e0)) None) (\<lambda>gt.
            Inr \<lparr>bk_positions = od_del asset (bk_positions b), bk_entries = od_del asset (bk_entries b),
                 bk_totals = drop_empty (od_set (pos_currency q) t' (bk_totals b)),
                 bk_groups = bk_groups b, bk_group_totals = gt\<rparr>)))))"

definition book_currencies :: "position_book \<Rightarrow> string list" where
  "book_currencies b = sort (od_keys (bk_totals b))"

definition book_totals :: "position_book \<Rightarrow> string \<Rightarrow> currency_totals" where
  "book_totals b currency = totals_or_none (bk_totals b) currency"

definition book_market_value :: "position_book \<Rightarrow> string \<Rightarrow> decimal res" where
  "book_market_value b asset = rbind (od_item (bk_entries b) asset) (\<lambda>e. Inr (fst e))"

end
