(* ===== verification/Settlement.thy ===== *)
theory Settlement
  imports Money
begin

text \<open>
  Ledger transactions and settlement-date accounting: \<open>alphalab/portfolio/transaction.py\<close>,
  \<open>types.py\<close>, \<open>ledger.py\<close> and the pending index of \<open>alphalab/portfolio/settlement.py\<close>
  (\<open>PendingSettlement\<close>, \<open>settle_pending\<close>, \<open>amend_pending\<close>, \<open>pending_from\<close>, \<open>payment_chain\<close>,
  \<open>CashPosition\<close>).

  The ledger is an append-only log, modelled as its list of values (theory \<open>Append_Log\<close>). A
  metadata value is one of the forms the code writes: a float, a text, a flag, the text of a
  \<open>Decimal\<close> (which \<open>Decimal\<close> reads back), a comma-separated list of identifiers, or the key of a
  corporate action, \<open>holding|instant\<close>.
\<close>

section \<open>Transactions\<close>

datatype transaction_type =
    BUY_TX | SELL_TX | DIVIDEND | DEPOSIT | WITHDRAWAL | FEE | INTEREST | TRANSFER
  | VARIATION_MARGIN | FUNDING | EXCHANGE | ACCRUAL

datatype meta =
    MFloat pyfloat | MText string | MFlag bool | MDecimal decimal | MIds "string list" | MKey string pyfloat

record transaction =
  transaction_id :: string
  tx_timestamp :: pyfloat
  tx_account_id :: string
  tx_type :: transaction_type
  tx_asset_id :: string
  tx_quantity :: decimal
  tx_price :: decimal
  tx_commission :: decimal
  tx_currency :: string
  tx_metadata :: "(string, meta) od"

definition ledger_append :: "transaction \<Rightarrow> transaction list \<Rightarrow> transaction list" where
  "ledger_append tx l = l @ [tx]"

definition ledger_between :: "pyfloat \<Rightarrow> pyfloat \<Rightarrow> transaction list \<Rightarrow> transaction list" where
  "ledger_between start stop l =
     filter (\<lambda>t. (flt_lt start (tx_timestamp t) \<or> flt_eq start (tx_timestamp t)) \<and>
       (flt_lt (tx_timestamp t) stop \<or> flt_eq (tx_timestamp t) stop)) l"

definition ledger_last :: "transaction list \<Rightarrow> transaction option" where
  "ledger_last l = (if l = [] then None else Some (last l))"

definition ledger_by_asset :: "string \<Rightarrow> transaction list \<Rightarrow> transaction list" where
  "ledger_by_asset asset l = filter (\<lambda>t. tx_asset_id t = asset) l"

definition ledger_by_account :: "string \<Rightarrow> transaction list \<Rightarrow> transaction list" where
  "ledger_by_account account l = filter (\<lambda>t. tx_account_id t = account) l"

section \<open>Metadata\<close>

text \<open>The metadata keys, and the readers of the forms they are written in.\<close>

definition SETTLES_AT :: string where "SETTLES_AT = ''settles_at''"
definition SETTLEMENT_CASH :: string where "SETTLEMENT_CASH = ''settlement_cash''"
definition ENTITLEMENT :: string where "ENTITLEMENT = ''entitlement''"
definition PAYMENT_CHANGE :: string where "PAYMENT_CHANGE = ''payment_change''"
definition AFFECTS :: string where "AFFECTS = ''affects''"
definition DELIVERS :: string where "DELIVERS = ''delivers''"
definition DELIVERY_OF :: string where "DELIVERY_OF = ''delivery_of''"
definition DELIVERY_TERMS :: string where "DELIVERY_TERMS = ''delivery_terms''"

fun meta_float :: "meta \<Rightarrow> pyfloat res" where
  "meta_float (MFloat x) = Inr x"
| "meta_float _ = Inl ValueError"

fun meta_decimal :: "meta \<Rightarrow> decimal res" where
  "meta_decimal (MDecimal x) = Inr x"
| "meta_decimal _ = Inl InvalidOperation"

fun meta_text :: "meta \<Rightarrow> string" where
  "meta_text (MText s) = s"
| "meta_text _ = []"

fun meta_ids :: "meta \<Rightarrow> string list" where
  "meta_ids (MIds ids) = filter (\<lambda>i. i \<noteq> []) ids"
| "meta_ids _ = []"

datatype payment_change = DELAYED | FAILED | CORRECTED | REVERSED | REPLACED

definition change_name :: "payment_change \<Rightarrow> string" where
  "change_name c = (case c of DELAYED \<Rightarrow> ''DELAYED'' | FAILED \<Rightarrow> ''FAILED'' | CORRECTED \<Rightarrow> ''CORRECTED''
     | REVERSED \<Rightarrow> ''REVERSED'' | REPLACED \<Rightarrow> ''REPLACED'')"

definition closing_change :: "string \<Rightarrow> bool" where
  "closing_change name = (name \<in> {''FAILED'', ''REVERSED'', ''REPLACED''})"

definition is_delivery :: "transaction \<Rightarrow> bool" where
  "is_delivery t = (od_get (tx_metadata t) DELIVERS \<noteq> None \<or> od_get (tx_metadata t) DELIVERY_OF \<noteq> None)"

section \<open>What has not settled\<close>

record pending_settlement =
  ps_transaction_id :: string
  ps_asset_id :: string
  ps_currency :: string
  ps_cash :: decimal
  ps_quantity :: decimal
  ps_traded_at :: pyfloat
  ps_settles_at :: pyfloat
  ps_delivery :: "string option"

definition pending_at :: "pyfloat \<Rightarrow> pending_settlement \<Rightarrow> bool" where
  "pending_at instant p = flt_lt instant (ps_settles_at p)"

definition settle_pending ::
  "pending_settlement list \<Rightarrow> pyfloat \<Rightarrow> pending_settlement option \<Rightarrow> pending_settlement list" where
  "settle_pending pending instant new =
     (let kept = filter (pending_at instant) pending in
      case new of None \<Rightarrow> kept | Some n \<Rightarrow> if pending_at instant n then kept @ [n] else kept)"

text \<open>\<open>_entry_of\<close>: a transaction's cash or units, pending until an instant.\<close>

definition entry_from :: "transaction \<Rightarrow> pyfloat \<Rightarrow> pending_settlement res" where
  "entry_from t settles =
     (case od_get (tx_metadata t) DELIVERS of
        Some delivered \<Rightarrow>
          rbind (meta_decimal delivered) (\<lambda>units.
          Inr \<lparr>ps_transaction_id = transaction_id t, ps_asset_id = tx_asset_id t, ps_currency = tx_currency t,
               ps_cash = Fin 0 0, ps_quantity = units, ps_traded_at = tx_timestamp t, ps_settles_at = settles,
               ps_delivery = Some (case od_get (tx_metadata t) DELIVERY_TERMS of None \<Rightarrow> [] | Some x \<Rightarrow> meta_text x)\<rparr>)
      | None \<Rightarrow>
          rbind (case od_get (tx_metadata t) SETTLEMENT_CASH of
                   None \<Rightarrow> Inr (tx_quantity t) | Some c \<Rightarrow> meta_decimal c) (\<lambda>cash.
          Inr \<lparr>ps_transaction_id = transaction_id t, ps_asset_id = tx_asset_id t, ps_currency = tx_currency t,
               ps_cash = cash, ps_quantity = (if tx_type t = EXCHANGE then Fin 0 0 else tx_quantity t),
               ps_traded_at = tx_timestamp t, ps_settles_at = settles, ps_delivery = None\<rparr>))"

text \<open>\<open>booked\<close>: the affected transactions by identifier.\<close>

definition amend_pending ::
  "pending_settlement list \<Rightarrow> transaction \<Rightarrow> (string, transaction) od \<Rightarrow> pending_settlement list res" where
  "amend_pending pending amendment booked =
     (let change = (case od_get (tx_metadata amendment) PAYMENT_CHANGE of None \<Rightarrow> [] | Some c \<Rightarrow> meta_text c);
          affected = (case od_get (tx_metadata amendment) AFFECTS of None \<Rightarrow> [] | Some x \<Rightarrow> meta_ids x);
          kept = filter (\<lambda>e. ps_transaction_id e \<notin> set affected) pending
      in if change = change_name DELAYED then
           (case od_get (tx_metadata amendment) SETTLES_AT of
              None \<Rightarrow> Inl KeyError
            | Some s \<Rightarrow> rbind (meta_float s) (\<lambda>settles.
                rbind (rmap (\<lambda>t. entry_from t settles) (List.map_filter (od_get booked) affected)) (\<lambda>again.
                  Inr (kept @ again))))
         else if closing_change change then Inr kept
         else Inr pending)"

definition pending_type :: "transaction_type \<Rightarrow> bool" where
  "pending_type t = (t \<in> {BUY_TX, SELL_TX, EXCHANGE})"

text \<open>One transaction of the loop of \<open>pending_from\<close>, which carries the exchanges booked so far.\<close>

definition pending_step ::
  "pending_settlement list \<times> (string, transaction) od \<Rightarrow> transaction \<Rightarrow>
   (pending_settlement list \<times> (string, transaction) od) res" where
  "pending_step s t =
     (case s of (pending, booked) \<Rightarrow>
      if \<not> pending_type (tx_type t) then Inr (pending, booked)
      else
        let exchange = (tx_type t = EXCHANGE);
            booked' = (if exchange then od_set (transaction_id t) t booked else booked);
            change = (if exchange then od_get (tx_metadata t) PAYMENT_CHANGE else None)
        in rbind (case change of
                    None \<Rightarrow> Inr pending
                  | Some c \<Rightarrow> amend_pending (settle_pending pending (tx_timestamp t) None) t booked') (\<lambda>p.
           if (case change of None \<Rightarrow> False | Some c \<Rightarrow> meta_text c = change_name DELAYED)
           then Inr (p, booked')
           else rbind (case od_get (tx_metadata t) SETTLES_AT of
                         None \<Rightarrow> Inr None
                       | Some s \<Rightarrow> rbind (meta_float s) (\<lambda>x. rbind (entry_from t x) (\<lambda>e. Inr (Some e)))) (\<lambda>e.
             Inr (settle_pending p (tx_timestamp t) e, booked'))))"

definition pending_from :: "transaction list \<Rightarrow> pending_settlement list res" where
  "pending_from transactions = rbind (rfold pending_step ([], []) transactions) (\<lambda>(p, b). Inr p)"

text \<open>Every transaction that booked or amended one currency's payment of a corporate action.\<close>

definition payment_chain :: "transaction list \<Rightarrow> string \<Rightarrow> pyfloat \<Rightarrow> string \<Rightarrow> transaction list" where
  "payment_chain transactions holding effective_at currency =
     filter (\<lambda>t. tx_type t = EXCHANGE \<and> tx_currency t = currency \<and>
       (case od_get (tx_metadata t) ENTITLEMENT of
          Some key \<Rightarrow> key = MKey holding effective_at
        | None \<Rightarrow> tx_asset_id t = holding \<and> flt_eq (tx_timestamp t) effective_at)) transactions"

section \<open>Cash positions\<close>

record cash_position =
  cp_currency :: string
  trade_date :: decimal
  unsettled_credits :: decimal
  unsettled_debits :: decimal

definition cp_settled :: "dctx \<Rightarrow> cash_position \<Rightarrow> decimal res" where
  "cp_settled amb c =
     rbind (dec_sub amb (trade_date c) (unsettled_credits c)) (\<lambda>x. dec_add amb x (unsettled_debits c))"

definition cp_available :: "dctx \<Rightarrow> cash_position \<Rightarrow> decimal res" where
  "cp_available amb c = dec_sub amb (trade_date c) (unsettled_credits c)"

section \<open>The index\<close>

lemma pending_from_snoc:
  "pending_from (ts @ [t]) =
     rbind (rfold pending_step ([], []) ts) (\<lambda>s. rbind (pending_step s t) (\<lambda>(p, b). Inr p))"
  by (simp add: pending_from_def rfold_append rbind_assoc)

text \<open>An entry leaves the index once, when its instant has passed, and never comes back.\<close>

lemma settle_pending_set:
  "set (settle_pending pending instant new) =
     {p \<in> set pending. pending_at instant p} \<union> {n. new = Some n \<and> pending_at instant n}"
  by (auto simp: settle_pending_def Let_def split: option.splits)

lemma settle_pending_twice:
  "settle_pending (settle_pending pending instant new) instant None = settle_pending pending instant new"
  by (auto simp: settle_pending_def Let_def filter_empty_conv split: option.splits)

end
