(* ===== verification/Portfolio_Engine.thy ===== *)
theory Portfolio_Engine
  imports Position_Book Settlement
begin

text \<open>
  The portfolio accounting engine: \<open>alphalab/portfolio/engine.py\<close> with \<open>account.py\<close>,
  \<open>events.py\<close> and the declarations of \<open>corporate_actions.py\<close> it books. Every operation is a
  function from a state to a new state or an exception; the identifiers drawn by \<open>new_id\<close> are
  arguments. The engine's methods are decorated with \<open>in_accounting_context\<close>, so the context of
  everything they call is \<open>ACCOUNTING_CONTEXT\<close>. \<open>evolve\<close> is a record update: the constructor it
  runs normalises \<open>pending_marks\<close>, which every operation here already keeps sorted and unique.
\<close>

section \<open>State\<close>

record account =
  account_id :: string
  base_currency :: string
  account_name :: string
  created_at :: pyfloat
  account_status :: string
  account_units :: currency_units

datatype portfolio_event =
    CashDeposited pyfloat string decimal string
  | CashWithdrawn pyfloat string decimal string
  | PositionOpened pyfloat string string decimal decimal
  | PositionIncreased pyfloat string string decimal decimal
  | PositionReduced pyfloat string string decimal decimal decimal
  | PositionClosed pyfloat string string decimal decimal
  | MarketValueUpdated pyfloat string "(string, decimal) od"
  | VariationSettled pyfloat string string decimal decimal string
  | CashFlowBooked pyfloat string string string decimal string string
  | PositionSplit pyfloat string string decimal decimal
  | CashConverted pyfloat string decimal string decimal string decimal pyfloat string bool

record portfolio_state =
  pf_account :: account
  pf_cash :: cash_ledger
  pf_positions :: position_book
  pf_ledger :: "transaction list"
  pf_events :: "portfolio_event list"
  pf_realized :: currency_amounts
  pf_commission :: currency_amounts
  pf_pending_marks :: "string list"
  pf_unsettled :: "pending_settlement list"

text \<open>\<open>_pending\<close>: sorted and unique, with \<open>add\<close> included and \<open>remove\<close> left out.\<close>

definition pending_with :: "string list \<Rightarrow> string list \<Rightarrow> string list \<Rightarrow> string list" where
  "pending_with pending add remove =
     sort (remdups (filter (\<lambda>x. x \<notin> set remove) (pending @ add)))"

text \<open>The constructor: any mapping of positions is already a book here.\<close>

definition make_state :: "portfolio_state \<Rightarrow> portfolio_state" where
  "make_state s = s\<lparr>pf_pending_marks :=
     (if sorted_wrt (<) (pf_pending_marks s) then pf_pending_marks s
      else pending_with (pf_pending_marks s) [] [])\<rparr>"

definition new_portfolio :: "account \<Rightarrow> portfolio_state" where
  "new_portfolio acct = make_state \<lparr>pf_account = acct, pf_cash = empty_cash, pf_positions = empty_positions,
     pf_ledger = [], pf_events = [], pf_realized = [], pf_commission = [], pf_pending_marks = [],
     pf_unsettled = []\<rparr>"

definition settlement_currencies :: "portfolio_state \<Rightarrow> string list" where
  "settlement_currencies s =
     sort (remdups (map fst (filter (\<lambda>(c, x). \<not> dec_eq x ZERO_MONEY) (balances (pf_cash s))) @
       book_currencies (pf_positions s) @ amounts_currencies (pf_realized s) @
       amounts_currencies (pf_commission s)))"

definition price_one :: decimal where "price_one = Fin 10 (-1)"
definition commission_zero :: decimal where "commission_zero = Fin 0 (-1)"

definition cash_tx :: "string \<Rightarrow> pyfloat \<Rightarrow> portfolio_state \<Rightarrow> transaction_type \<Rightarrow> string \<Rightarrow> decimal \<Rightarrow> string \<Rightarrow> transaction" where
  "cash_tx tid timestamp s kind asset amount currency =
     \<lparr>transaction_id = tid, tx_timestamp = timestamp, tx_account_id = account_id (pf_account s), tx_type = kind,
      tx_asset_id = asset, tx_quantity = amount, tx_price = price_one, tx_commission = commission_zero,
      tx_currency = currency, tx_metadata = []\<rparr>"

section \<open>Cash movements\<close>

definition positive_money :: "portfolio_state \<Rightarrow> decimal \<Rightarrow> string \<Rightarrow> decimal res" where
  "positive_money s amount currency =
     (if blank currency then Inl InvalidTransactionError
      else rbind (require_finite amount InvalidTransactionError) (\<lambda>_.
        rbind (to_money amount currency (account_units (pf_account s))) (\<lambda>money.
        rbind (dec_le money dec_zero) (\<lambda>bad.
          if bad then Inl InvalidTransactionError else Inr money))))"

definition apply_deposit ::
  "string \<Rightarrow> decimal \<Rightarrow> string \<Rightarrow> pyfloat \<Rightarrow> portfolio_state \<Rightarrow> portfolio_state res" where
  "apply_deposit tid amount currency timestamp s =
     rbind (positive_money s amount currency) (\<lambda>money.
     rbind (cash_deposit ACCOUNTING_CONTEXT money currency (pf_cash s)) (\<lambda>cash.
       Inr (s\<lparr>pf_cash := cash,
              pf_ledger := ledger_append (cash_tx tid timestamp s DEPOSIT ''CASH'' money currency) (pf_ledger s),
              pf_events := pf_events s @ [CashDeposited timestamp (account_id (pf_account s)) money currency]\<rparr>)))"

definition apply_withdrawal ::
  "string \<Rightarrow> decimal \<Rightarrow> string \<Rightarrow> pyfloat \<Rightarrow> portfolio_state \<Rightarrow> portfolio_state res" where
  "apply_withdrawal tid amount currency timestamp s =
     rbind (positive_money s amount currency) (\<lambda>money.
     rbind (cash_withdraw ACCOUNTING_CONTEXT money currency (pf_cash s)) (\<lambda>cash.
     rbind (dec_neg ACCOUNTING_CONTEXT money) (\<lambda>minus.
       Inr (s\<lparr>pf_cash := cash,
              pf_ledger := ledger_append (cash_tx tid timestamp s WITHDRAWAL ''CASH'' minus currency) (pf_ledger s),
              pf_events := pf_events s @ [CashWithdrawn timestamp (account_id (pf_account s)) money currency]\<rparr>))))"

section \<open>Fills\<close>

definition declared_economics :: "instrument_economics option \<Rightarrow> instrument_economics option" where
  "declared_economics e =
     (case e of None \<Rightarrow> None | Some x \<Rightarrow> if is_cash_equity x then None else Some x)"

definition or_cash_equity :: "instrument_economics option \<Rightarrow> instrument_economics" where
  "or_cash_equity e = (case e of None \<Rightarrow> CASH_EQUITY | Some x \<Rightarrow> x)"

definition fill_admitted :: "instrument_economics option \<Rightarrow> decimal \<Rightarrow> bool \<Rightarrow> bool res" where
  "fill_admitted declared price final_settlement =
     rbind (admits_price (or_cash_equity declared) price) (\<lambda>ok.
       Inr (ok \<or> final_settlement \<and> dec_eq price dec_zero))"

definition fresh_position ::
  "string \<Rightarrow> decimal \<Rightarrow> string \<Rightarrow> pyfloat \<Rightarrow> int \<Rightarrow> instrument_economics option \<Rightarrow> position" where
  "fresh_position asset price currency timestamp units e =
     \<lparr>pos_asset_id = asset, pos_quantity = Fin 0 0, average_cost = Fin 0 0, market_price = price,
      pos_realized_pnl = ZERO_MONEY, pos_currency = currency, last_updated = timestamp, cost_basis = None,
      opened_at = None, pos_minor_units = Some units, pos_economics = e\<rparr>"

text \<open>The money the trade itself moves.\<close>

definition trade_value :: "position \<Rightarrow> decimal \<Rightarrow> decimal \<Rightarrow> string \<Rightarrow> currency_units \<Rightarrow> decimal res" where
  "trade_value p quantity price currency units =
     (if \<not> pays_notional p then Inr ZERO_MONEY
      else if dec_eq (pos_multiplier p) dec_one then notional ACCOUNTING_CONTEXT quantity price currency units
      else rbind (dec_abs ACCOUNTING_CONTEXT quantity) (\<lambda>q.
        rbind (dec_mul ACCOUNTING_CONTEXT q price) (\<lambda>x.
        rbind (dec_mul ACCOUNTING_CONTEXT x (pos_multiplier p)) (\<lambda>y. to_money y currency units))))"

text \<open>The position's new place in the book, and the event that records the fill.\<close>

definition booked_position ::
  "string \<Rightarrow> string \<Rightarrow> pyfloat \<Rightarrow> decimal \<Rightarrow> decimal \<Rightarrow> decimal \<Rightarrow> position \<Rightarrow> position \<Rightarrow> position_book \<Rightarrow>
   (position_book \<times> portfolio_event) res" where
  "booked_position acct asset timestamp quantity price pnl pos new_pos book =
     (if dec_eq (pos_quantity new_pos) dec_zero then
        rbind (book_delete ACCOUNTING_CONTEXT asset book) (\<lambda>b.
          Inr (b, PositionClosed timestamp acct asset price pnl))
      else
        rbind (book_set ACCOUNTING_CONTEXT asset new_pos book) (\<lambda>b.
          if dec_eq (pos_quantity pos) dec_zero
          then Inr (b, PositionOpened timestamp acct asset quantity price)
          else rbind (dec_lt dec_zero (pos_quantity pos)) (\<lambda>pl.
            rbind (dec_lt dec_zero quantity) (\<lambda>ql.
            rbind (dec_lt (pos_quantity pos) dec_zero) (\<lambda>ps.
            rbind (dec_lt quantity dec_zero) (\<lambda>qs.
              Inr (b, if pl \<and> ql \<or> ps \<and> qs then PositionIncreased timestamp acct asset quantity price
                      else PositionReduced timestamp acct asset quantity price pnl)))))))"

text \<open>The cash a fill moves, commission included, and whether it covers a short.\<close>

definition fill_impact :: "decimal \<Rightarrow> decimal \<Rightarrow> decimal \<Rightarrow> decimal res" where
  "fill_impact quantity tv commission =
     rbind (dec_lt quantity dec_zero) (\<lambda>sells.
     rbind (if sells then Inr tv else dec_neg ACCOUNTING_CONTEXT tv) (\<lambda>x.
       dec_sub ACCOUNTING_CONTEXT x commission))"

definition covering :: "position \<Rightarrow> decimal \<Rightarrow> bool res" where
  "covering p quantity =
     rbind (dec_lt (pos_quantity p) dec_zero) (\<lambda>short.
       if \<not> short then Inr False
       else rbind (dec_lt dec_zero quantity) (\<lambda>buys.
         if \<not> buys then Inr False
         else rbind (dec_neg ACCOUNTING_CONTEXT (pos_quantity p)) (\<lambda>owed. dec_le quantity owed)))"

definition fill_cash ::
  "position \<Rightarrow> decimal \<Rightarrow> decimal \<Rightarrow> decimal \<Rightarrow> string \<Rightarrow> bool \<Rightarrow> cash_ledger \<Rightarrow> cash_ledger res" where
  "fill_cash p quantity pnl impact currency financed cash =
     rbind (if \<not> pays_notional p \<and> \<not> dec_eq pnl dec_zero
            then cash_settle ACCOUNTING_CONTEXT pnl currency cash else Inr cash) (\<lambda>cash1.
     rbind (covering p quantity) (\<lambda>cover.
     rbind (dec_lt dec_zero impact) (\<lambda>received.
     rbind (dec_lt impact dec_zero) (\<lambda>paid.
       if received then cash_deposit ACCOUNTING_CONTEXT impact currency cash1
       else if paid \<and> (cover \<or> financed) then cash_settle ACCOUNTING_CONTEXT impact currency cash1
       else if paid then rbind (dec_neg ACCOUNTING_CONTEXT impact) (\<lambda>cost.
         cash_withdraw ACCOUNTING_CONTEXT cost currency cash1)
       else Inr cash1))))"

definition fill_unsettled ::
  "transaction \<Rightarrow> decimal option \<Rightarrow> pyfloat option \<Rightarrow> pending_settlement list \<Rightarrow> pending_settlement list" where
  "fill_unsettled tx settled_cash settles unsettled =
     (if settles = None \<and> unsettled = [] then unsettled
      else settle_pending unsettled (tx_timestamp tx)
        (case (settles, settled_cash) of
           (Some x, Some c) \<Rightarrow> Some \<lparr>ps_transaction_id = transaction_id tx, ps_asset_id = tx_asset_id tx,
             ps_currency = tx_currency tx, ps_cash = c, ps_quantity = tx_quantity tx,
             ps_traded_at = tx_timestamp tx, ps_settles_at = x, ps_delivery = None\<rparr>
         | _ \<Rightarrow> None))"

definition fill_marks :: "string \<Rightarrow> position_book \<Rightarrow> string list \<Rightarrow> string list" where
  "fill_marks asset book pending =
     (if book_get book asset \<noteq> None
      then if asset \<notin> set pending then pending_with pending [asset] [] else pending
      else if asset \<in> set pending then pending_with pending [] [asset] else pending)"

definition fill_tx ::
  "string \<Rightarrow> pyfloat \<Rightarrow> portfolio_state \<Rightarrow> string \<Rightarrow> decimal \<Rightarrow> decimal \<Rightarrow> decimal \<Rightarrow> string \<Rightarrow> bool \<Rightarrow>
   pyfloat option \<Rightarrow> decimal option \<Rightarrow> transaction" where
  "fill_tx tid timestamp s asset quantity price commission currency buys settles settled_cash =
     \<lparr>transaction_id = tid, tx_timestamp = timestamp, tx_account_id = account_id (pf_account s),
      tx_type = (if buys then BUY_TX else SELL_TX), tx_asset_id = asset, tx_quantity = quantity,
      tx_price = price, tx_commission = commission, tx_currency = currency,
      tx_metadata = (case (settles, settled_cash) of
         (Some x, Some c) \<Rightarrow> [(SETTLES_AT, MFloat x), (SETTLEMENT_CASH, MDecimal c)] | _ \<Rightarrow> [])\<rparr>"

text \<open>The checks a fill passes before anything moves: what is declared, and the position it meets.\<close>

definition fill_position ::
  "string \<Rightarrow> decimal \<Rightarrow> decimal \<Rightarrow> decimal \<Rightarrow> pyfloat \<Rightarrow> string \<Rightarrow> instrument_economics option \<Rightarrow> bool \<Rightarrow>
   portfolio_state \<Rightarrow> (position \<times> decimal) res" where
  "fill_position asset quantity price commission timestamp currency economics final_settlement s =
     (if blank currency then Inl InvalidTransactionError
      else
        rbind (require_finite quantity InvalidTransactionError) (\<lambda>_.
        rbind (require_finite price InvalidTransactionError) (\<lambda>_.
        rbind (require_finite commission InvalidTransactionError) (\<lambda>_.
        let declared = declared_economics economics in
        rbind (fill_admitted declared price final_settlement) (\<lambda>admitted.
        if \<not> admitted then Inl InvalidTransactionError
        else if dec_eq quantity dec_zero then Inl InvalidTransactionError
        else
          let units = account_units (pf_account s) in
          rbind (minor_units units currency) (\<lambda>minor.
          rbind (to_money commission currency units) (\<lambda>commission'.
          rbind (case book_get (pf_positions s) asset of
                   Some held \<Rightarrow> Inr held
                 | None \<Rightarrow> make_position (fresh_position asset price currency timestamp minor declared)) (\<lambda>pos.
            if pos_currency pos \<noteq> currency then Inl InvalidTransactionError
            else if \<not> opt_eq economics_eq (pos_economics pos) declared then Inl InvalidTransactionError
            else Inr (pos, commission')))))))))"

definition apply_fill ::
  "string \<Rightarrow> string \<Rightarrow> decimal \<Rightarrow> decimal \<Rightarrow> decimal \<Rightarrow> pyfloat \<Rightarrow> string \<Rightarrow> instrument_economics option \<Rightarrow>
   bool \<Rightarrow> pyfloat option \<Rightarrow> bool \<Rightarrow> portfolio_state \<Rightarrow> portfolio_state res" where
  "apply_fill tid asset quantity price commission timestamp currency economics final_settlement settles financed s =
     rbind (fill_position asset quantity price commission timestamp currency economics final_settlement s)
       (\<lambda>(pos, commission').
     rbind (trade_value pos quantity price currency (account_units (pf_account s))) (\<lambda>tv.
     rbind (pos_apply_fill quantity price timestamp pos) (\<lambda>(new_pos, pnl).
     rbind (booked_position (account_id (pf_account s)) asset timestamp quantity price pnl pos new_pos
              (pf_positions s)) (\<lambda>(positions, evt).
     rbind (fill_impact quantity tv commission') (\<lambda>impact.
     rbind (fill_cash pos quantity pnl impact currency financed (pf_cash s)) (\<lambda>cash.
     rbind (dec_lt dec_zero quantity) (\<lambda>buys.
     rbind (case settles of None \<Rightarrow> Inr None
            | Some _ \<Rightarrow> rbind (dec_add ACCOUNTING_CONTEXT impact (if \<not> pays_notional pos then pnl else dec_zero))
                (\<lambda>x. Inr (Some x))) (\<lambda>settled_cash.
     let tx = fill_tx tid timestamp s asset quantity price commission' currency buys settles settled_cash in
     rbind (amounts_add pnl currency (pf_realized s)) (\<lambda>realized.
     rbind (amounts_add commission' currency (pf_commission s)) (\<lambda>paid.
       Inr (make_state \<lparr>pf_account = pf_account s, pf_cash = cash, pf_positions = positions,
         pf_ledger = ledger_append tx (pf_ledger s), pf_events = pf_events s @ [evt],
         pf_realized = realized, pf_commission = paid,
         pf_pending_marks = fill_marks asset positions (pf_pending_marks s),
         pf_unsettled = fill_unsettled tx settled_cash settles (pf_unsettled s)\<rparr>)))))))))))"

section \<open>Marking to market\<close>

text \<open>
  \<open>_marked\<close>: the loop over the held positions carries the book, what was marked, the cash, the
  realized P&L, the ledger and the settlement events; the identifier of the \<open>n\<close>-th settlement is
  \<open>ids n\<close>.
\<close>

record marking =
  mk_positions :: position_book
  mk_marked :: "(string, decimal) od"
  mk_cash :: cash_ledger
  mk_realized :: currency_amounts
  mk_ledger :: "transaction list"
  mk_settled :: "portfolio_event list"

definition mark_one ::
  "(nat \<Rightarrow> string) \<Rightarrow> string \<Rightarrow> (string, decimal) od \<Rightarrow> pyfloat \<Rightarrow> marking \<Rightarrow> string \<times> position \<Rightarrow> marking res" where
  "mark_one ids acct prices timestamp m held =
     (case held of (asset, p) \<Rightarrow>
      case od_get prices asset of
        None \<Rightarrow> Inr m
      | Some price \<Rightarrow>
          rbind (admits_price (or_cash_equity (pos_economics p)) price) (\<lambda>ok.
          if \<not> ok then Inl InvalidTransactionError
          else
            rbind (pos_settle price timestamp p) (\<lambda>(after, amount).
            rbind (book_set ACCOUNTING_CONTEXT asset after (mk_positions m)) (\<lambda>b.
            let m1 = m\<lparr>mk_positions := b, mk_marked := od_set asset price (mk_marked m)\<rparr> in
            if dec_eq amount dec_zero then Inr m1
            else
              rbind (cash_settle ACCOUNTING_CONTEXT amount (pos_currency p) (mk_cash m)) (\<lambda>cash.
              rbind (amounts_add amount (pos_currency p) (mk_realized m)) (\<lambda>realized.
                Inr (m1\<lparr>mk_cash := cash, mk_realized := realized,
                  mk_ledger := ledger_append
                    \<lparr>transaction_id = ids (length (mk_settled m)), tx_timestamp = timestamp,
                     tx_account_id = acct, tx_type = VARIATION_MARGIN, tx_asset_id = asset,
                     tx_quantity = pos_quantity p, tx_price = price, tx_commission = commission_zero,
                     tx_currency = pos_currency p, tx_metadata = []\<rparr> (mk_ledger m),
                  mk_settled := mk_settled m @
                    [VariationSettled timestamp acct asset price amount (pos_currency p)]\<rparr>)))))))"

definition marked ::
  "(nat \<Rightarrow> string) \<Rightarrow> portfolio_state \<Rightarrow> (string \<times> position) list \<Rightarrow> (string, decimal) od \<Rightarrow> pyfloat \<Rightarrow>
   portfolio_state res" where
  "marked ids s held prices timestamp =
     rbind (rfold (mark_one ids (account_id (pf_account s)) prices timestamp)
       \<lparr>mk_positions = pf_positions s, mk_marked = [], mk_cash = pf_cash s, mk_realized = pf_realized s,
        mk_ledger = pf_ledger s, mk_settled = []\<rparr> held) (\<lambda>m.
     if mk_marked m = [] then Inr s
     else Inr (s\<lparr>pf_positions := mk_positions m,
       pf_pending_marks := pending_with (pf_pending_marks s) [] (od_keys (mk_marked m)),
       pf_cash := mk_cash m, pf_realized := mk_realized m, pf_ledger := mk_ledger m,
       pf_events := (pf_events s @ [MarketValueUpdated timestamp (account_id (pf_account s)) (mk_marked m)]) @
         mk_settled m\<rparr>))"

definition update_market_prices ::
  "(nat \<Rightarrow> string) \<Rightarrow> (string, decimal) od \<Rightarrow> pyfloat \<Rightarrow> portfolio_state \<Rightarrow> portfolio_state res" where
  "update_market_prices ids prices timestamp s =
     marked ids s (bk_positions (pf_positions s)) prices timestamp"

definition mark_changed ::
  "(nat \<Rightarrow> string) \<Rightarrow> (string, decimal) od \<Rightarrow> pyfloat \<Rightarrow> string option \<Rightarrow> portfolio_state \<Rightarrow> portfolio_state res" where
  "mark_changed ids prices timestamp changed s =
     (let assets = (case changed of None \<Rightarrow> pf_pending_marks s
                    | Some a \<Rightarrow> pending_with (pf_pending_marks s) [a] []) in
      if assets = [] then Inr s
      else marked ids s (List.map_filter
             (\<lambda>a. case book_get (pf_positions s) a of None \<Rightarrow> None | Some p \<Rightarrow> Some (a, p)) assets)
             prices timestamp)"

section \<open>Accruals, cash flows and splits\<close>

definition ACCRUES :: string where "ACCRUES = ''accrues''"
definition ACCRUAL_CLOSED :: string where "ACCRUAL_CLOSED = ''accrual_closed''"

definition record_accrual ::
  "string \<Rightarrow> string \<Rightarrow> decimal \<Rightarrow> string \<Rightarrow> pyfloat \<Rightarrow> portfolio_state \<Rightarrow> portfolio_state" where
  "record_accrual tid key amount currency timestamp s =
     s\<lparr>pf_ledger := ledger_append
        ((cash_tx tid timestamp s ACCRUAL ''CASH'' amount currency)\<lparr>tx_metadata := [(ACCRUES, MText key)]\<rparr>)
        (pf_ledger s)\<rparr>"

definition accrued :: "dctx \<Rightarrow> portfolio_state \<Rightarrow> string \<Rightarrow> decimal res" where
  "accrued amb s key =
     rfold (\<lambda>t tx. if tx_type tx = ACCRUAL \<and> od_get (tx_metadata tx) ACCRUES = Some (MText key)
                   then dec_add amb t (tx_quantity tx) else Inr t) (Fin 0 0) (pf_ledger s)"

definition close_accrual ::
  "string \<Rightarrow> string \<Rightarrow> decimal \<Rightarrow> string \<Rightarrow> pyfloat \<Rightarrow> portfolio_state \<Rightarrow> portfolio_state res" where
  "close_accrual tid key amount currency timestamp s =
     rbind (dec_neg ACCOUNTING_CONTEXT amount) (\<lambda>minus.
       Inr (s\<lparr>pf_ledger := ledger_append
          ((cash_tx tid timestamp s ACCRUAL ''CASH'' minus currency)
             \<lparr>tx_metadata := [(ACCRUES, MText key), (ACCRUAL_CLOSED, MFlag True)]\<rparr>) (pf_ledger s)\<rparr>))"

datatype cash_flow_kind = DIVIDEND_FLOW | INTEREST_FLOW | FEE_FLOW | FUNDING_FLOW

definition kind_value :: "cash_flow_kind \<Rightarrow> string" where
  "kind_value k = (case k of DIVIDEND_FLOW \<Rightarrow> ''dividend'' | INTEREST_FLOW \<Rightarrow> ''interest''
     | FEE_FLOW \<Rightarrow> ''fee'' | FUNDING_FLOW \<Rightarrow> ''funding'')"

definition flow_transaction :: "cash_flow_kind \<Rightarrow> transaction_type" where
  "flow_transaction k = (case k of DIVIDEND_FLOW \<Rightarrow> DIVIDEND | INTEREST_FLOW \<Rightarrow> INTEREST
     | FEE_FLOW \<Rightarrow> FEE | FUNDING_FLOW \<Rightarrow> FUNDING)"

record cash_flow =
  cf_kind :: cash_flow_kind
  cf_amount :: decimal
  cf_currency :: string
  cf_asset_id :: string
  cf_reference :: string

definition make_cash_flow :: "cash_flow_kind \<Rightarrow> decimal \<Rightarrow> string \<Rightarrow> string \<Rightarrow> string \<Rightarrow> cash_flow res" where
  "make_cash_flow kind amount currency asset reference =
     (if \<not> is_finite amount then Inl InvalidTransactionError
      else if dec_eq amount dec_zero then Inl InvalidTransactionError
      else if blank currency then Inl InvalidTransactionError
      else Inr \<lparr>cf_kind = kind, cf_amount = amount, cf_currency = currency, cf_asset_id = asset,
                cf_reference = reference\<rparr>)"

definition apply_cash_flow ::
  "string \<Rightarrow> cash_flow \<Rightarrow> pyfloat \<Rightarrow> portfolio_state \<Rightarrow> portfolio_state res" where
  "apply_cash_flow tid flow timestamp s =
     rbind (to_money (cf_amount flow) (cf_currency flow) (account_units (pf_account s))) (\<lambda>amount.
     if dec_eq amount dec_zero then Inl InvalidTransactionError
     else
       rbind (cash_settle ACCOUNTING_CONTEXT amount (cf_currency flow) (pf_cash s)) (\<lambda>cash.
       rbind (amounts_add amount (cf_currency flow) (pf_realized s)) (\<lambda>realized.
         Inr (s\<lparr>pf_cash := cash,
           pf_ledger := ledger_append (cash_tx tid timestamp s (flow_transaction (cf_kind flow))
             (if cf_asset_id flow = [] then ''CASH'' else cf_asset_id flow) amount (cf_currency flow)) (pf_ledger s),
           pf_events := pf_events s @ [CashFlowBooked timestamp (account_id (pf_account s))
             (kind_value (cf_kind flow)) (cf_asset_id flow) amount (cf_currency flow) (cf_reference flow)],
           pf_realized := realized\<rparr>))))"

record holding_split =
  sp_asset_id :: string
  sp_ratio :: decimal

definition make_split :: "string \<Rightarrow> decimal \<Rightarrow> holding_split res" where
  "make_split asset ratio =
     (if blank asset then Inl InvalidTransactionError
      else if \<not> is_finite ratio then Inl InvalidTransactionError
      else rbind (dec_le ratio dec_zero) (\<lambda>bad.
        if bad then Inl InvalidTransactionError
        else if dec_eq ratio dec_one then Inl InvalidTransactionError
        else Inr \<lparr>sp_asset_id = asset, sp_ratio = ratio\<rparr>))"

definition apply_split :: "holding_split \<Rightarrow> pyfloat \<Rightarrow> portfolio_state \<Rightarrow> portfolio_state res" where
  "apply_split sp timestamp s =
     (case book_get (pf_positions s) (sp_asset_id sp) of
        None \<Rightarrow> Inl InvalidTransactionError
      | Some p \<Rightarrow>
          rbind (pos_split (sp_ratio sp) timestamp p) (\<lambda>after.
          rbind (book_set ACCOUNTING_CONTEXT (sp_asset_id sp) after (pf_positions s)) (\<lambda>b.
            Inr (s\<lparr>pf_positions := b,
              pf_events := pf_events s @ [PositionSplit timestamp (account_id (pf_account s))
                (sp_asset_id sp) (sp_ratio sp) (pos_quantity after)]\<rparr>))))"

definition portfolio_cash_position :: "dctx \<Rightarrow> portfolio_state \<Rightarrow> string \<Rightarrow> pyfloat \<Rightarrow> cash_position res" where
  "portfolio_cash_position amb s currency instant =
     rbind (rfold (\<lambda>(credits, debits) e.
         if ps_currency e \<noteq> currency \<or> \<not> pending_at instant e then Inr (credits, debits)
         else rbind (dec_lt dec_zero (ps_cash e)) (\<lambda>received.
           if received then rbind (dec_add amb credits (ps_cash e)) (\<lambda>c. Inr (c, debits))
           else rbind (dec_sub amb debits (ps_cash e)) (\<lambda>d. Inr (credits, d))))
       (Fin 0 0, Fin 0 0) (pf_unsettled s)) (\<lambda>(credits, debits).
     Inr \<lparr>cp_currency = currency, trade_date = cash_balance (pf_cash s) currency,
          unsettled_credits = credits, unsettled_debits = debits\<rparr>)"

end
