(* ===== verification/Book_Totals.thy ===== *)
theory Book_Totals
  imports Position_Book
begin

text \<open>
  The running totals of a position book are the sums of its positions, whatever sequence of
  \<open>set\<close> and \<open>delete\<close> built it (\<open>alphalab/portfolio/book.py\<close>): the reference definition is the
  sum over the mapping, the optimised one is the book's incremental update.
\<close>

section \<open>Counting and summing over the positions\<close>

definition count_where :: "(position \<Rightarrow> bool) \<Rightarrow> (string, position) od \<Rightarrow> int" where
  "count_where P ps = (\<Sum>(k, p)\<leftarrow>ps. if P p then 1 else 0)"

definition sum_where :: "(position \<Rightarrow> bool) \<Rightarrow> (position \<Rightarrow> rat) \<Rightarrow> (string, position) od \<Rightarrow> rat" where
  "sum_where P g ps = (\<Sum>(k, p)\<leftarrow>ps. if P p then g p else 0)"

lemma count_where_simps [simp]:
  "count_where P [] = 0" "count_where P ((k, p) # ps) = (if P p then 1 else 0) + count_where P ps"
  by (simp_all add: count_where_def)

lemma sum_where_simps [simp]:
  "sum_where P g [] = 0" "sum_where P g ((k, p) # ps) = (if P p then g p else 0) + sum_where P g ps"
  by (simp_all add: sum_where_def)

lemma count_where_nonneg: "0 \<le> count_where P ps"
  by (induction ps) auto

lemma count_where_zero: "count_where P ps = 0 \<Longrightarrow> sum_where P g ps = 0"
proof (induction ps)
  case (Cons a ps)
  obtain k p where a: "a = (k, p)" by (cases a)
  have "0 \<le> count_where P ps" by (rule count_where_nonneg)
  with Cons.prems have "\<not> P p" "count_where P ps = 0" by (auto simp: a split: if_splits)
  with Cons.IH show ?case by (simp add: a)
qed simp

text \<open>\<open>grown ps p ps'\<close>: \<open>ps'\<close> holds what \<open>ps\<close> does and \<open>p\<close>.\<close>

definition grown :: "(string, position) od \<Rightarrow> position \<Rightarrow> (string, position) od \<Rightarrow> bool" where
  "grown ps p ps' =
     ((\<forall>P. count_where P ps' = count_where P ps + (if P p then 1 else 0)) \<and>
      (\<forall>P g. sum_where P g ps' = sum_where P g ps + (if P p then g p else 0)))"

lemma grown_count: "grown ps p ps' \<Longrightarrow> count_where P ps' = count_where P ps + (if P p then 1 else 0)"
  by (simp add: grown_def)

lemma grown_sum: "grown ps p ps' \<Longrightarrow> sum_where P g ps' = sum_where P g ps + (if P p then g p else 0)"
  by (simp add: grown_def)

lemma od_del_absent: "k \<notin> set (od_keys ps) \<Longrightarrow> od_del k ps = ps"
  by (induction ps) (auto simp: od_del_def od_keys_def)

lemma grown_del: "od_ok ps \<Longrightarrow> od_get ps k = Some q \<Longrightarrow> grown (od_del k ps) q ps"
proof (induction ps)
  case (Cons a ps)
  obtain j p where a: "a = (j, p)" by (cases a)
  have ok: "od_ok ps" using Cons.prems(1) by (simp add: od_ok_def)
  show ?case
  proof (cases "j = k")
    case True
    have "k \<notin> set (od_keys ps)" using Cons.prems(1) True by (simp add: a od_ok_def od_keys_def)
    then have "od_del k (a # ps) = ps" using True by (simp add: a od_del_def filter_id_conv od_keys_def) force
    with Cons.prems(2) True show ?thesis by (simp add: a od_get_Cons grown_def)
  next
    case False
    with Cons.prems(2) have "od_get ps k = Some q" by (simp add: a od_get_Cons)
    with Cons.IH [OF ok] have "grown (od_del k ps) q ps" .
    moreover have "od_del k (a # ps) = a # od_del k ps" using False by (simp add: a od_del_def)
    ultimately show ?thesis by (simp add: a grown_def)
  qed
qed simp

lemma count_where_append: "count_where P (ps @ qs) = count_where P ps + count_where P qs"
  by (simp add: count_where_def)

lemma sum_where_append: "sum_where P g (ps @ qs) = sum_where P g ps + sum_where P g qs"
  by (simp add: sum_where_def)

lemma grown_set_absent: "od_get ps k = None \<Longrightarrow> grown ps p (od_set k p ps)"
  using od_set_absent [of k ps p] by (simp add: od_get_None grown_def count_where_append sum_where_append)

lemma grown_set: "od_ok ps \<Longrightarrow> od_get ps k = Some q \<Longrightarrow> grown (od_del k ps) p (od_set k p ps)"
proof (induction k p ps rule: od_set.induct)
  case (2 k p k' p' ps)
  have ok: "od_ok ps" using 2(2) by (simp add: od_ok_def)
  show ?case
  proof (cases "k' = k")
    case True
    have "k \<notin> set (od_keys ps)" using 2(2) True by (simp add: od_ok_def od_keys_def)
    then have "od_del k ((k', p') # ps) = ps" using True by (simp add: od_del_def filter_id_conv od_keys_def) force
    with True show ?thesis by (simp add: grown_def)
  next
    case False
    with 2(3) have "od_get ps k = Some q" by (simp add: od_get_Cons)
    with 2(1) [OF False ok] have "grown (od_del k ps) p (od_set k p ps)" .
    moreover have "od_del k ((k', p') # ps) = (k', p') # od_del k ps" using False by (simp add: od_del_def)
    ultimately show ?thesis using False by (simp add: grown_def)
  qed
qed simp

section \<open>Entries\<close>

text \<open>A position the book can hold: its entry is finite and needs no more digits than are kept.\<close>

definition entry_ok :: "position \<Rightarrow> entry \<Rightarrow> bool" where
  "entry_ok p e =
     (is_finite (pos_quantity p) \<and> entry_of ACCOUNTING_CONTEXT p = Inr e \<and>
      exact_number (fst e) \<and> exact_number (fst (snd e)) \<and> exact_number (snd (snd e)) \<and>
      (dval (pos_quantity p) = 0 \<longrightarrow> dval (fst (snd e)) = 0 \<and> dval (snd (snd e)) = 0))"

definition entry_val :: "(entry \<Rightarrow> decimal) \<Rightarrow> position \<Rightarrow> rat" where
  "entry_val f p = (case entry_of ACCOUNTING_CONTEXT p of Inl e \<Rightarrow> 0 | Inr e \<Rightarrow> dval (f e))"

lemma entry_val_of: "entry_ok p e \<Longrightarrow> entry_val f p = dval (f e)"
  by (simp add: entry_ok_def entry_val_def)

lemma exact_zero [simp]: "exact_number ZERO_MONEY"
  by (simp add: exact_number_def ZERO_MONEY_def)

lemma pos_money_exact: "frame_ok u p \<Longrightarrow> is_finite a \<Longrightarrow> pos_money p a = Inr r \<Longrightarrow> exact_number r"
proof -
  assume h: "frame_ok u p" "is_finite a" "pos_money p a = Inr r"
  then obtain c e where a: "a = Fin c e" by (auto simp: is_finite_iff)
  have q: "dec_quantize ACCOUNTING_CONTEXT (Fin c e) (Fin 1 (- u)) = Inr r"
    using h by (auto simp: a frame_ok_def pos_money_def quantum_of_units rbind_eq_Inr)
  show ?thesis using dec_quantize_result(1,2) [OF q] by (simp add: exact_number_def)
qed

lemma market_value_exact: "frame_ok u p \<Longrightarrow> market_value p = Inr v \<Longrightarrow> exact_number v \<and> at_unit u v"
proof -
  assume h: "frame_ok u p" "market_value p = Inr v"
  then obtain x y where s: "dec_mul ACCOUNTING_CONTEXT (pos_quantity p) (market_price p) = Inr x"
      "scaled p x = Inr y" "pos_money p y = Inr v"
    by (auto simp: market_value_def rbind_eq_Inr)
  note F = frame_okD [OF h(1)]
  have "is_finite y" using scaled_finite [OF h(1) dec_mul_finite [OF F(3,7) s(1)] s(2)] .
  then show ?thesis using pos_money_exact [OF h(1) _ s(3)] pos_money_at_unit [OF h(1) _ s(3)] by blast
qed

lemma valuation_exact:
  assumes "held_ok u p" "valuation ACCOUNTING_CONTEXT p = Inr (v, pnl)"
  shows "exact_number v" "exact_number pnl" "at_unit u v" "at_unit u pnl"
proof -
  note fr = held_frame [OF assms(1)]
  note F = frame_okD [OF fr]
  have mv: "market_value p = Inr v" using assms(2) by (auto simp: valuation_def rbind_eq_Inr split: if_splits)
  show "exact_number v" "at_unit u v" using market_value_exact [OF fr mv] by blast+
  have "exact_number pnl \<and> at_unit u pnl"
  proof (cases "dval (pos_quantity p) = 0")
    case True
    with assms(2) mv F show ?thesis by (simp add: valuation_def)
  next
    case False
    then have ok: "pos_ok u p" using assms(1) by (auto simp: held_ok_def fresh_ok_def)
    note P = pos_okD [OF ok]
    have b: "basis ACCOUNTING_CONTEXT p = Inr (kept_basis p)" using basis_kept [OF P(2)] by simp
    have "(if 0 < dval (pos_quantity p) then dec_sub ACCOUNTING_CONTEXT v (kept_basis p)
        else dec_add ACCOUNTING_CONTEXT v (kept_basis p)) = Inr pnl"
      using assms(2) mv F False b by (auto simp: valuation_def rbind_eq_Inr)
    then show ?thesis
      using dec_sub_exact_number [of v "kept_basis p" pnl] dec_add_exact_number [of v "kept_basis p" pnl]
        at_unit_sub [of v "kept_basis p" pnl u] at_unit_add [of v "kept_basis p" pnl u]
        market_value_exact [OF fr mv] P by (auto split: if_splits)
  qed
  then show "exact_number pnl" "at_unit u pnl" by blast+
qed

text \<open>A flat position is worth nothing.\<close>

lemma scaled_zero: "scaled p a = Inr r \<Longrightarrow> frame_ok u p \<Longrightarrow> is_finite a \<Longrightarrow> dval a = 0 \<Longrightarrow> dval r = 0"
  by (auto simp: scaled_def frame_ok_def economics_ok_def dest: dec_mul_zero split: option.splits if_splits)

lemma pos_money_zero: "pos_money p a = Inr r \<Longrightarrow> frame_ok u p \<Longrightarrow> is_finite a \<Longrightarrow> dval a = 0 \<Longrightarrow> dval r = 0"
proof -
  assume h: "pos_money p a = Inr r" "frame_ok u p" "is_finite a" "dval a = 0"
  then obtain c e where a: "a = Fin c e" by (auto simp: is_finite_iff)
  have "c = 0" using h(4) by (simp add: a dval.simps(1))
  moreover have "dec_quantize ACCOUNTING_CONTEXT (Fin c e) (Fin 1 (- u)) = Inr r"
    using h by (auto simp: a frame_ok_def pos_money_def quantum_of_units rbind_eq_Inr)
  from dec_quantize_result(1) [OF this] calculation show ?thesis by simp
qed

lemma flat_market_value: "frame_ok u p \<Longrightarrow> dval (pos_quantity p) = 0 \<Longrightarrow> market_value p = Inr v \<Longrightarrow> dval v = 0"
proof -
  assume h: "frame_ok u p" "dval (pos_quantity p) = 0" "market_value p = Inr v"
  then obtain x y where s: "dec_mul ACCOUNTING_CONTEXT (pos_quantity p) (market_price p) = Inr x"
      "scaled p x = Inr y" "pos_money p y = Inr v"
    by (auto simp: market_value_def rbind_eq_Inr)
  note F = frame_okD [OF h(1)]
  have x: "is_finite x" "dval x = 0" using dec_mul_finite [OF F(3,7) s(1)] dec_mul_zero [OF s(1) F(3,7) h(2)] by auto
  have y: "is_finite y" "dval y = 0" using scaled_finite [OF h(1) x(1) s(2)] scaled_zero [OF s(2) h(1) x] by auto
  show ?thesis using pos_money_zero [OF s(3) h(1) y] .
qed

lemma held_entry_ok:
  assumes "held_ok u p" "entry_of ACCOUNTING_CONTEXT p = Inr e"
  shows "entry_ok p e"
proof -
  obtain v pnl where vp: "valuation ACCOUNTING_CONTEXT p = Inr (v, pnl)"
    and e: "(if pays_notional p then Inr (v, pnl, ZERO_MONEY)
       else rbind (dec_sub ACCOUNTING_CONTEXT v pnl) (\<lambda>x. Inr (v, pnl, x))) = Inr e"
    using assms(2) by (auto simp: entry_of_def rbind_eq_Inr)
  note V = valuation_exact [OF assms(1) vp]
  note fr = held_frame [OF assms(1)]
  note F = frame_okD [OF fr]
  have n: "exact_number (fst e) \<and> exact_number (fst (snd e)) \<and> exact_number (snd (snd e))"
    using e V by (auto simp: rbind_eq_Inr dest: dec_sub_exact_number split: if_splits)
  have "dval (fst (snd e)) = 0 \<and> dval (snd (snd e)) = 0" if z: "dval (pos_quantity p) = 0"
  proof -
    have mv: "market_value p = Inr v" "pnl = ZERO_MONEY"
      using vp z F by (auto simp: valuation_def rbind_eq_Inr)
    have v: "dval v = 0" "is_finite v" using flat_market_value [OF fr z mv(1)] V(3) by auto
    have "dval x = 0" if "dec_sub ACCOUNTING_CONTEXT v ZERO_MONEY = Inr x" for x
      using that V(3) fr sub_small_ok [of u v ZERO_MONEY] v frame_okD [OF fr]
      by (metis at_unit_zero(1,2) abs_zero diff_zero powi_pos sum.inject(2))
    with e mv v show ?thesis by (auto simp: rbind_eq_Inr split: if_splits)
  qed
  with n assms F show ?thesis by (simp add: entry_ok_def)
qed

section \<open>A currency's totals\<close>

text \<open>The selections the totals sum over: a currency's positions, its longs, shorts and open ones.\<close>

definition of_currency :: "string \<Rightarrow> position \<Rightarrow> bool" where
  "of_currency c p = (pos_currency p = c)"

definition long_in :: "string \<Rightarrow> position \<Rightarrow> bool" where
  "long_in c p = (pos_currency p = c \<and> 0 < dval (pos_quantity p))"

definition short_in :: "string \<Rightarrow> position \<Rightarrow> bool" where
  "short_in c p = (pos_currency p = c \<and> dval (pos_quantity p) < 0)"

definition held_in :: "string \<Rightarrow> position \<Rightarrow> bool" where
  "held_in c p = (pos_currency p = c \<and> dval (pos_quantity p) \<noteq> 0)"

definition totals_match :: "(string, position) od \<Rightarrow> string \<Rightarrow> currency_totals \<Rightarrow> bool" where
  "totals_match ps c t =
     (n_positions t = count_where (of_currency c) ps \<and> longs t = count_where (long_in c) ps \<and>
      shorts t = count_where (short_in c) ps \<and>
      is_finite (long_value t) \<and> is_finite (short_value t) \<and> is_finite (total_unrealized t) \<and>
      is_finite (uncarried_value t) \<and>
      dval (long_value t) = sum_where (long_in c) (entry_val fst) ps \<and>
      dval (short_value t) = sum_where (short_in c) (entry_val fst) ps \<and>
      dval (total_unrealized t) = sum_where (held_in c) (entry_val (\<lambda>e. fst (snd e))) ps \<and>
      dval (uncarried_value t) = sum_where (held_in c) (entry_val (\<lambda>e. snd (snd e))) ps)"

lemma exact_or_error_Inr [simp]: "exact_or_error m = Inr r \<longleftrightarrow> m = Inr r"
  by (simp add: exact_or_error_def split: sum.split)

lemma add_total_value:
  "add_total a b n = Inr r \<Longrightarrow> is_finite a \<Longrightarrow> is_finite b \<Longrightarrow>
   is_finite r \<and> dval r = (if n = 0 then 0 else dval a + dval b)"
  using exact_add_value [of ACCOUNTING_CONTEXT a b r] by (auto simp: add_total_def split: if_splits)

lemma signed_amount_value:
  "signed_amount ACCOUNTING_CONTEXT adding x = Inr r \<Longrightarrow> exact_number x \<Longrightarrow>
   is_finite r \<and> dval r = (if adding then dval x else - dval x)"
  by (auto simp: signed_amount_def exact_number_def dec_neg_fits split: if_splits)

lemma open_count: "count_where (held_in c) ps = count_where (long_in c) ps + count_where (short_in c) ps"
  by (induction ps) (auto simp: held_in_def long_in_def short_in_def)

text \<open>Selections of a position, for the currency it is in and for another.\<close>

lemma selections:
  "pos_currency p = c \<Longrightarrow> of_currency c p" "pos_currency p \<noteq> c \<Longrightarrow> \<not> of_currency c p"
  "pos_currency p \<noteq> c \<Longrightarrow> \<not> long_in c p" "pos_currency p \<noteq> c \<Longrightarrow> \<not> short_in c p"
  "pos_currency p \<noteq> c \<Longrightarrow> \<not> held_in c p"
  "pos_currency p = c \<Longrightarrow> long_in c p = (0 < dval (pos_quantity p))"
  "pos_currency p = c \<Longrightarrow> short_in c p = (dval (pos_quantity p) < 0)"
  "pos_currency p = c \<Longrightarrow> held_in c p = (dval (pos_quantity p) \<noteq> 0)"
  by (simp_all add: of_currency_def long_in_def short_in_def held_in_def)

lemma totals_match_other:
  "totals_match ps c t \<Longrightarrow> grown ps p ps' \<Longrightarrow> pos_currency p \<noteq> c \<Longrightarrow> totals_match ps' c t"
  "totals_match ps' c t \<Longrightarrow> grown ps p ps' \<Longrightarrow> pos_currency p \<noteq> c \<Longrightarrow> totals_match ps c t"
  by (simp_all add: totals_match_def grown_count grown_sum selections)

lemma totals_match_none:
  "count_where (of_currency c) ps = 0 \<Longrightarrow> totals_match ps c NO_TOTALS"
proof -
  assume z: "count_where (of_currency c) ps = 0"
  have "count_where P ps = 0" if "\<And>p. P p \<Longrightarrow> of_currency c p" for P
    using z that
  proof (induction ps)
    case (Cons a ps)
    obtain k p where a: "a = (k, p)" by (cases a)
    have "0 \<le> count_where (of_currency c) ps" by (rule count_where_nonneg)
    with Cons.prems(1) have "\<not> of_currency c p" "count_where (of_currency c) ps = 0"
      by (auto simp: a split: if_splits)
    with Cons show ?case by (auto simp: a)
  qed simp
  note zero = this
  have "count_where (long_in c) ps = 0" "count_where (short_in c) ps = 0" "count_where (held_in c) ps = 0"
    by (rule zero, simp add: long_in_def short_in_def held_in_def of_currency_def)+
  with z show ?thesis by (simp add: totals_match_def NO_TOTALS_def count_where_zero)
qed

text \<open>The update of a currency's totals, by its effect on each of them.\<close>

lemma apply_totals_fields:
  assumes "apply_totals ACCOUNTING_CONTEXT t p (v, pnl, x) adding = Inr t'" "is_finite (pos_quantity p)"
    and "exact_number v" "exact_number pnl" "exact_number x"
    and "is_finite (long_value t)" "is_finite (short_value t)" "is_finite (total_unrealized t)"
      "is_finite (uncarried_value t)"
  defines "s \<equiv> (if adding then 1 else -1 :: int)" and "z \<equiv> (if adding then 1 else -1 :: rat)"
  shows "n_positions t' = n_positions t + s"
    and "longs t' = longs t + (if 0 < dval (pos_quantity p) then s else 0)"
    and "shorts t' = shorts t + (if dval (pos_quantity p) < 0 then s else 0)"
    and "is_finite (long_value t') \<and> dval (long_value t') =
      (if 0 < dval (pos_quantity p) then if longs t' = 0 then 0 else dval (long_value t) + z * dval v
       else dval (long_value t))"
    and "is_finite (short_value t') \<and> dval (short_value t') =
      (if dval (pos_quantity p) < 0 then if shorts t' = 0 then 0 else dval (short_value t) + z * dval v
       else dval (short_value t))"
    and "is_finite (total_unrealized t') \<and> dval (total_unrealized t') =
      (if longs t' + shorts t' = 0 then 0 else dval (total_unrealized t) + z * dval pnl)"
    and "is_finite (uncarried_value t') \<and> dval (uncarried_value t') =
      (if longs t' + shorts t' = 0 then 0 else dval (uncarried_value t) + z * dval x)"
proof -
  obtain sv nl ns lv shv spnl up sx ux where st:
      "signed_amount ACCOUNTING_CONTEXT adding v = Inr sv"
      "(if 0 < dval (pos_quantity p)
        then rbind (add_total (long_value t) sv (longs t + s)) (\<lambda>lv. Inr (longs t + s, shorts t, lv, short_value t))
        else rbind (dec_lt (pos_quantity p) dec_zero) (\<lambda>short. if short
        then rbind (add_total (short_value t) sv (shorts t + s)) (\<lambda>y. Inr (longs t, shorts t + s, long_value t, y))
        else Inr (longs t, shorts t, long_value t, short_value t))) = Inr (nl, ns, lv, shv)"
      "signed_amount ACCOUNTING_CONTEXT adding pnl = Inr spnl" "add_total (total_unrealized t) spnl (nl + ns) = Inr up"
      "signed_amount ACCOUNTING_CONTEXT adding x = Inr sx" "add_total (uncarried_value t) sx (nl + ns) = Inr ux"
      and t': "t' = \<lparr>n_positions = n_positions t + s, longs = nl, shorts = ns, long_value = lv, short_value = shv,
        total_unrealized = up, uncarried_value = ux\<rparr>"
    using assms(1,2) unfolding apply_totals_def s_def [symmetric] by (auto simp: rbind_eq_Inr Let_def)
  note V = signed_amount_value [OF st(1) assms(3)] signed_amount_value [OF st(3) assms(4)]
    signed_amount_value [OF st(5) assms(5)]
  have lists: "nl = longs t + (if 0 < dval (pos_quantity p) then s else 0) \<and>
      ns = shorts t + (if dval (pos_quantity p) < 0 then s else 0) \<and>
      is_finite lv \<and> is_finite shv \<and>
      dval lv = (if 0 < dval (pos_quantity p) then if nl = 0 then 0 else dval (long_value t) + z * dval v
         else dval (long_value t)) \<and>
      dval shv = (if dval (pos_quantity p) < 0 then if ns = 0 then 0 else dval (short_value t) + z * dval v
         else dval (short_value t))"
    using st(2) V(1) assms(2,6,7) add_total_value [of "long_value t" sv "longs t + s"]
      add_total_value [of "short_value t" sv "shorts t + s"]
    by (auto simp: rbind_eq_Inr z_def split: if_splits)
  note U = add_total_value [OF st(4) assms(8) conjunct1 [OF V(2)]]
    add_total_value [OF st(6) assms(9) conjunct1 [OF V(3)]]
  show "n_positions t' = n_positions t + s" by (simp add: t')
  show "longs t' = longs t + (if 0 < dval (pos_quantity p) then s else 0)" using lists by (simp add: t')
  show "shorts t' = shorts t + (if dval (pos_quantity p) < 0 then s else 0)" using lists by (simp add: t')
  show "is_finite (long_value t') \<and> dval (long_value t') =
      (if 0 < dval (pos_quantity p) then if longs t' = 0 then 0 else dval (long_value t) + z * dval v
       else dval (long_value t))" using lists by (simp add: t')
  show "is_finite (short_value t') \<and> dval (short_value t') =
      (if dval (pos_quantity p) < 0 then if shorts t' = 0 then 0 else dval (short_value t) + z * dval v
       else dval (short_value t))" using lists by (simp add: t')
  show "is_finite (total_unrealized t') \<and> dval (total_unrealized t') =
      (if longs t' + shorts t' = 0 then 0 else dval (total_unrealized t) + z * dval pnl)"
    using U(1) V(2) by (auto simp: t' z_def)
  show "is_finite (uncarried_value t') \<and> dval (uncarried_value t') =
      (if longs t' + shorts t' = 0 then 0 else dval (uncarried_value t) + z * dval x)"
    using U(2) V(3) by (auto simp: t' z_def)
qed

lemma totals_match_finite:
  assumes "totals_match ps c t"
  shows "is_finite (long_value t)" "is_finite (short_value t)" "is_finite (total_unrealized t)"
    "is_finite (uncarried_value t)"
  using assms by (simp_all add: totals_match_def)

lemma apply_totals_match:
  assumes run: "apply_totals ACCOUNTING_CONTEXT t p e adding = Inr t'" and e: "entry_ok p e"
    and m: "totals_match ps c t" and c: "pos_currency p = c"
    and g: "if adding then grown ps p ps' else grown ps' p ps"
  shows "totals_match ps' c t'"
proof -
  obtain v pnl x where vx: "e = (v, pnl, x)" by (cases e)
  have q: "is_finite (pos_quantity p)" and n: "exact_number v" "exact_number pnl" "exact_number x"
    and flat: "dval (pos_quantity p) = 0 \<Longrightarrow> dval pnl = 0 \<and> dval x = 0"
    using e by (simp_all add: entry_ok_def vx)
  have ev: "entry_val fst p = dval v" "entry_val (\<lambda>e. fst (snd e)) p = dval pnl" "entry_val (\<lambda>e. snd (snd e)) p = dval x"
    using entry_val_of [OF e] by (simp_all add: vx)
  note A = apply_totals_fields [OF run [unfolded vx] q n totals_match_finite [OF m]]
  note sel = selections(1) [OF c] selections(6-8) [OF c]
  have cnt: "count_where P ps' = count_where P ps + (if P p then if adding then 1 else -1 else 0)" for P
    using g by (cases adding) (auto dest: grown_count [of _ _ _ P])
  have sum: "sum_where P f ps' = sum_where P f ps + (if P p then if adding then f p else - f p else 0)" for P f
    using g by (cases adding) (auto dest: grown_sum [of _ _ _ P f])
  note M = m [unfolded totals_match_def]
  have counts: "n_positions t' = count_where (of_currency c) ps'" "longs t' = count_where (long_in c) ps'"
      "shorts t' = count_where (short_in c) ps'"
    using M A(1-3) by (auto simp: cnt sel)
  have opn: "longs t' + shorts t' = count_where (held_in c) ps'" using counts by (simp add: open_count)
  have lv: "dval (long_value t') = sum_where (long_in c) (entry_val fst) ps'"
    using A(4) M counts(2) count_where_zero [of "long_in c" ps' "entry_val fst"]
    by (auto simp: sum sel ev split: if_splits)
  have sv: "dval (short_value t') = sum_where (short_in c) (entry_val fst) ps'"
    using A(5) M counts(3) count_where_zero [of "short_in c" ps' "entry_val fst"]
    by (auto simp: sum sel ev split: if_splits)
  have up: "dval (total_unrealized t') = sum_where (held_in c) (entry_val (\<lambda>e. fst (snd e))) ps'"
    using A(6) M opn count_where_zero [of "held_in c" ps' "entry_val (\<lambda>e. fst (snd e))"] flat
    by (auto simp: sum sel ev split: if_splits)
  have ux: "dval (uncarried_value t') = sum_where (held_in c) (entry_val (\<lambda>e. snd (snd e))) ps'"
    using A(7) M opn count_where_zero [of "held_in c" ps' "entry_val (\<lambda>e. snd (snd e))"] flat
    by (auto simp: sum sel ev split: if_splits)
  show ?thesis unfolding totals_match_def using counts lv sv up ux A(4-7) by blast
qed

lemma moved_totals_match:
  assumes run: "moved_totals t long e0 e = Inr t'" and e0: "entry_ok q e0" and e: "entry_ok p e"
    and m: "totals_match ps c t" and c: "pos_currency q = c" "pos_currency p = c"
    and g: "grown ps0 q ps" "grown ps0 p ps'"
    and side: "long = (0 < dval (pos_quantity p))" "dval (pos_quantity p) \<noteq> 0"
      "0 < dval (pos_quantity q) \<longleftrightarrow> 0 < dval (pos_quantity p)"
      "dval (pos_quantity q) < 0 \<longleftrightarrow> dval (pos_quantity p) < 0"
  shows "totals_match ps' c t'"
proof -
  obtain v0 pnl0 x0 v1 pnl1 x1 where vx: "e0 = (v0, pnl0, x0)" "e = (v1, pnl1, x1)" by (cases e0; cases e)
  have n: "is_finite v0" "is_finite pnl0" "is_finite x0" "is_finite v1" "is_finite pnl1" "is_finite x1"
    using e0 e by (simp_all add: entry_ok_def vx exact_number_def)
  have ev: "entry_val fst q = dval v0" "entry_val (\<lambda>e. fst (snd e)) q = dval pnl0" "entry_val (\<lambda>e. snd (snd e)) q = dval x0"
    "entry_val fst p = dval v1" "entry_val (\<lambda>e. fst (snd e)) p = dval pnl1" "entry_val (\<lambda>e. snd (snd e)) p = dval x1"
    using entry_val_of [OF e0] entry_val_of [OF e] by (simp_all add: vx)
  note sel = selections(1) [OF c(1)] selections(6-8) [OF c(1)] selections(1) [OF c(2)] selections(6-8) [OF c(2)]
  have cnt: "count_where P ps' = count_where P ps" if "P p = P q" for P
    using grown_count [OF g(1), of P] grown_count [OF g(2), of P] that by simp
  have sum: "sum_where P f ps' = sum_where P f ps + (if P p then f p - f q else 0)" if "P p = P q" for P f
    using grown_sum [OF g(1), of P f] grown_sum [OF g(2), of P f] that by simp
  have some: "count_where P ps = 0 \<Longrightarrow> \<not> P q" for P
    using grown_count [OF g(1), of P] count_where_nonneg [of P ps0] by auto
  have qs: "dval (pos_quantity q) \<noteq> 0" using side by linarith
  note M = m [unfolded totals_match_def]
  have opn: "longs t + shorts t = count_where (held_in c) ps" using M by (simp add: open_count)
  have sides: "of_currency c p = of_currency c q" "long_in c p = long_in c q" "short_in c p = short_in c q"
    "held_in c p = held_in c q" using side qs by (auto simp: sel)
  obtain lv sv dp up dx ux where st:
      "(if long then rbind (entry_difference v1 v0) (\<lambda>d. add_total (long_value t) d (longs t)) else Inr (long_value t)) = Inr lv"
      "(if long then Inr (short_value t) else rbind (entry_difference v1 v0) (\<lambda>d. add_total (short_value t) d (shorts t))) = Inr sv"
      "entry_difference pnl1 pnl0 = Inr dp" "add_total (total_unrealized t) dp (longs t + shorts t) = Inr up"
      "entry_difference x1 x0 = Inr dx" "add_total (uncarried_value t) dx (longs t + shorts t) = Inr ux"
      and t': "t' = t\<lparr>long_value := lv, short_value := sv, total_unrealized := up, uncarried_value := ux\<rparr>"
    using run unfolding moved_totals_def vx by (auto simp: rbind_eq_Inr Let_def)
  have diff: "is_finite d \<and> dval d = dval a - dval b"
    if "entry_difference a b = Inr d" "is_finite a" "is_finite b" for a b d
    using that exact_sub_value [of ACCOUNTING_CONTEXT a b d] by (simp add: entry_difference_def)
  note D = diff [OF st(3) n(5,2)] diff [OF st(5) n(6,3)]
  note U = add_total_value [OF st(4) totals_match_finite(3) [OF m] conjunct1 [OF D(1)]]
    add_total_value [OF st(6) totals_match_finite(4) [OF m] conjunct1 [OF D(2)]]
  have nz: "longs t + shorts t \<noteq> 0" using some [of "held_in c"] qs opn by (auto simp: sel)
  have up: "dval up = sum_where (held_in c) (entry_val (\<lambda>e. fst (snd e))) ps'"
    and ux: "dval ux = sum_where (held_in c) (entry_val (\<lambda>e. snd (snd e))) ps'"
    using U D M nz side(2) by (simp_all add: sum [OF sides(4)] sel ev)
  have lv: "is_finite lv \<and> dval lv = sum_where (long_in c) (entry_val fst) ps'"
  proof (cases long)
    case True
    then obtain d where d: "entry_difference v1 v0 = Inr d" "add_total (long_value t) d (longs t) = Inr lv"
      using st(1) by (auto simp: rbind_eq_Inr)
    note d' = diff [OF d(1) n(4,1)]
    have "longs t \<noteq> 0" using some [of "long_in c"] True side M by (auto simp: sel)
    with add_total_value [OF d(2) totals_match_finite(1) [OF m] conjunct1 [OF d']] d' M True side(1) show ?thesis
      by (simp add: sum [OF sides(2)] sel ev)
  next
    case False
    with st(1) M side(1) show ?thesis by (simp add: sum [OF sides(2)] sel)
  qed
  have sv: "is_finite sv \<and> dval sv = sum_where (short_in c) (entry_val fst) ps'"
  proof (cases long)
    case False
    then obtain d where d: "entry_difference v1 v0 = Inr d" "add_total (short_value t) d (shorts t) = Inr sv"
      using st(2) by (auto simp: rbind_eq_Inr)
    note d' = diff [OF d(1) n(4,1)]
    have neg: "dval (pos_quantity p) < 0" using False side by linarith
    then have "shorts t \<noteq> 0" using some [of "short_in c"] side M by (auto simp: sel)
    with add_total_value [OF d(2) totals_match_finite(2) [OF m] conjunct1 [OF d']] d' M neg show ?thesis
      by (simp add: sum [OF sides(3)] sel ev)
  next
    case True
    then have "\<not> dval (pos_quantity p) < 0" using side by linarith
    with st(2) M True show ?thesis by (simp add: sum [OF sides(3)] sel)
  qed
  show ?thesis unfolding totals_match_def t'
    using M U lv sv up ux cnt [OF sides(1)] cnt [OF sides(2)] cnt [OF sides(3)] by simp
qed

section \<open>The book's invariant\<close>

definition totals_ok :: "(string, position) od \<Rightarrow> (string, currency_totals) od \<Rightarrow> bool" where
  "totals_ok ps ts = (\<forall>c. totals_match ps c (totals_or_none ts c))"

definition book_sound :: "position_book \<Rightarrow> bool" where
  "book_sound b =
     (od_ok (bk_positions b) \<and> totals_ok (bk_positions b) (bk_totals b) \<and>
      od_ok (bk_totals b) \<and> (\<forall>c t. od_get (bk_totals b) c = Some t \<longrightarrow> n_positions t \<noteq> 0) \<and>
      (\<forall>a p. od_get (bk_positions b) a = Some p \<longrightarrow> (\<exists>e. od_get (bk_entries b) a = Some e \<and> entry_ok p e)))"

lemma totals_or_none_set [simp]:
  "totals_or_none (od_set c t ts) c' = (if c' = c then t else totals_or_none ts c')"
  by (simp add: totals_or_none_def)

lemma drop_empty_get: "od_ok ts \<Longrightarrow> od_get (drop_empty ts) c =
    (case od_get ts c of None \<Rightarrow> None | Some t \<Rightarrow> if n_positions t \<noteq> 0 then Some t else None)"
proof (induction ts)
  case (Cons a ts)
  obtain k t where a: "a = (k, t)" by (cases a)
  have "od_ok ts" "od_get ts k = None"
    using Cons.prems by (simp_all add: a od_ok_def od_get_None od_keys_def)
  with Cons.IH show ?case by (auto simp: a drop_empty_def od_get_Cons split: option.splits)
qed (simp add: drop_empty_def)

lemma od_ok_drop_empty [simp]: "od_ok ts \<Longrightarrow> od_ok (drop_empty ts)"
  unfolding drop_empty_def od_ok_def by (rule distinct_map_filter)

lemma totals_ok_drop_empty: "od_ok ts \<Longrightarrow> totals_ok ps ts \<Longrightarrow> totals_ok ps (drop_empty ts)"
proof -
  assume ok: "od_ok ts" and m: "totals_ok ps ts"
  have "totals_match ps c (totals_or_none (drop_empty ts) c)" for c
  proof (cases "od_get ts c")
    case None
    have "totals_match ps c (totals_or_none ts c)" using m by (simp add: totals_ok_def)
    with None ok show ?thesis by (simp add: totals_or_none_def drop_empty_get)
  next
    case (Some t)
    have "totals_match ps c (totals_or_none ts c)" using m by (simp add: totals_ok_def)
    with Some have mt: "totals_match ps c t" by (simp add: totals_or_none_def)
    show ?thesis
    proof (cases "n_positions t = 0")
      case True
      then have "count_where (of_currency c) ps = 0" using mt by (simp add: totals_match_def)
      from totals_match_none [OF this] show ?thesis using ok Some True by (simp add: totals_or_none_def drop_empty_get)
    next
      case False
      with mt show ?thesis using ok Some by (simp add: totals_or_none_def drop_empty_get)
    qed
  qed
  then show ?thesis by (simp add: totals_ok_def)
qed

text \<open>One position added to or removed from one currency's totals.\<close>

lemma totals_ok_apply:
  assumes "totals_ok ps ts" "entry_ok p e"
    and "apply_totals ACCOUNTING_CONTEXT (totals_or_none ts (pos_currency p)) p e adding = Inr t"
    and g: "if adding then grown ps p ps' else grown ps' p ps"
  shows "totals_ok ps' (od_set (pos_currency p) t ts)"
proof -
  have "totals_match ps' c (totals_or_none (od_set (pos_currency p) t ts) c)" for c
  proof (cases "pos_currency p = c")
    case True
    with apply_totals_match [OF assms(3,2) _ refl g] assms(1) show ?thesis by (simp add: totals_ok_def)
  next
    case False
    have "totals_match ps c (totals_or_none ts c)" using assms(1) by (simp add: totals_ok_def)
    then have "totals_match ps' c (totals_or_none ts c)"
      using g by (cases adding) (auto intro: totals_match_other(1) [OF _ _ False] totals_match_other(2) [OF _ _ False])
    with False show ?thesis by simp
  qed
  then show ?thesis by (simp add: totals_ok_def)
qed

lemma od_item_Inr [simp]: "od_item m k = Inr v \<longleftrightarrow> od_get m k = Some v"
  by (simp add: od_item_def split: option.split)

lemma od_item_totals: "od_get ts c = Some t \<Longrightarrow> totals_or_none ts c = t"
  by (simp add: totals_or_none_def)

lemma book_set_positions:
  "book_set amb a p b = Inr b' \<Longrightarrow> pos_asset_id p = a \<and> bk_positions b' = od_set a p (bk_positions b) \<and>
     bk_groups b' = bk_groups b \<and> (\<exists>e. entry_of amb p = Inr e \<and> bk_entries b' = od_set a e (bk_entries b))"
  by (auto simp: book_set_def Let_def rbind_eq_Inr split: if_splits)

lemma book_delete_positions:
  "book_delete amb a b = Inr b' \<Longrightarrow> bk_positions b' = (case od_get (bk_positions b) a of
     None \<Rightarrow> bk_positions b | Some q \<Rightarrow> od_del a (bk_positions b)) \<and> bk_groups b' = bk_groups b"
  by (auto simp: book_delete_def rbind_eq_Inr split: option.splits)

lemma od_del_same: "od_get m k = None \<Longrightarrow> od_del k m = m"
  by (rule od_del_absent) (simp add: od_get_None)

lemma book_delete_ok:
  assumes ok: "book_sound b" and run: "book_delete ACCOUNTING_CONTEXT a b = Inr b'"
  shows "book_sound b'" "bk_positions b' = od_del a (bk_positions b)"
proof -
  have "book_sound b' \<and> bk_positions b' = od_del a (bk_positions b)"
  proof (cases "od_get (bk_positions b) a")
    case None
    then show ?thesis using run ok by (simp add: book_delete_def od_del_same)
  next
    case (Some q)
    then obtain t e0 t' gt where s: "od_get (bk_totals b) (pos_currency q) = Some t" "od_get (bk_entries b) a = Some e0"
        "apply_totals ACCOUNTING_CONTEXT t q e0 False = Inr t'"
      and b': "b' = \<lparr>bk_positions = od_del a (bk_positions b), bk_entries = od_del a (bk_entries b),
          bk_totals = drop_empty (od_set (pos_currency q) t' (bk_totals b)),
          bk_groups = bk_groups b, bk_group_totals = gt\<rparr>"
      using run by (auto simp: book_delete_def rbind_eq_Inr)
    note B = ok [unfolded book_sound_def]
    obtain e1 where "od_get (bk_entries b) a = Some e1" "entry_ok q e1" using B Some by blast
    with s(2) have e0: "entry_ok q e0" by simp
    have "totals_ok (od_del a (bk_positions b)) (od_set (pos_currency q) t' (bk_totals b))"
      by (rule totals_ok_apply [of "bk_positions b" _ q e0 False])
        (use B e0 s Some grown_del in \<open>simp_all add: od_item_totals\<close>)
    then have "totals_ok (od_del a (bk_positions b)) (bk_totals b')"
      using B by (simp add: b' totals_ok_drop_empty)
    moreover have "\<forall>c t. od_get (bk_totals b') c = Some t \<longrightarrow> n_positions t \<noteq> 0"
      using B by (auto simp: b' drop_empty_get split: option.splits if_splits)
    ultimately show ?thesis using B unfolding book_sound_def by (simp add: b')
  qed
  then show "book_sound b'" "bk_positions b' = od_del a (bk_positions b)" by blast+
qed

lemma same_side_True:
  "same_side q p = Inr True \<Longrightarrow> is_finite (pos_quantity q) \<Longrightarrow> is_finite (pos_quantity p) \<Longrightarrow>
   0 < dval (pos_quantity q) \<and> 0 < dval (pos_quantity p) \<or> dval (pos_quantity q) < 0 \<and> dval (pos_quantity p) < 0"
  by (auto simp: same_side_def split: if_splits)

lemma book_set_ok:
  assumes ok: "book_sound b" and held: "held_ok u p" and run: "book_set ACCOUNTING_CONTEXT a p b = Inr b'"
  shows "book_sound b'"
proof -
  let ?A = ACCOUNTING_CONTEXT and ?ps = "bk_positions b" and ?ts = "bk_totals b"
  note B = ok [unfolded book_sound_def]
  obtain e where e: "entry_of ?A p = Inr e" and pos: "bk_positions b' = od_set a p ?ps"
      "bk_entries b' = od_set a e (bk_entries b)"
    using book_set_positions [OF run] by blast
  have eo: "entry_ok p e" using held_entry_ok [OF held e] .
  have "totals_ok (od_set a p ?ps) (bk_totals b') \<and> od_ok (bk_totals b') \<and>
      (\<forall>c t. od_get (bk_totals b') c = Some t \<longrightarrow> n_positions t \<noteq> 0)"
  proof (cases "od_get ?ps a")
    case None
    then obtain t2 where t2: "apply_totals ?A (totals_or_none ?ts (pos_currency p)) p e True = Inr t2"
        "bk_totals b' = drop_empty (od_set (pos_currency p) t2 ?ts)"
      using run e by (auto simp: book_set_def Let_def rbind_eq_Inr split: if_splits)
    have "totals_ok (od_set a p ?ps) (od_set (pos_currency p) t2 ?ts)"
      by (rule totals_ok_apply [of ?ps ?ts p e True]) (use B eo t2(1) grown_set_absent [OF None] in simp_all)
    then show ?thesis using B by (auto simp: t2(2) totals_ok_drop_empty drop_empty_get split: option.splits if_splits)
  next
    case (Some q)
    then obtain e0 where e0: "od_get (bk_entries b) a = Some e0" "entry_ok q e0" using B by blast
    note g = grown_del [OF _ Some] grown_set [OF _ Some, of p]
    obtain revalued where rv: "(if pos_currency q = pos_currency p then same_side q p else Inr False) = Inr revalued"
      and rest: "(if revalued then
           rbind (od_item ?ts (pos_currency p)) (\<lambda>t.
           rbind (dec_lt dec_zero (pos_quantity p)) (\<lambda>long.
           rbind (moved_totals t long e0 e) (\<lambda>t'. Inr (od_set (pos_currency p) t' ?ts))))
         else
           rbind (od_item ?ts (pos_currency q)) (\<lambda>t.
           rbind (apply_totals ?A t q e0 False) (\<lambda>t'.
           let ts = od_set (pos_currency q) t' ?ts in
           rbind (apply_totals ?A (totals_or_none ts (pos_currency p)) p e True) (\<lambda>t2.
             Inr (drop_empty (od_set (pos_currency p) t2 ts)))))) = Inr (bk_totals b')"
      using run Some e e0 by (auto simp: book_set_def Let_def rbind_eq_Inr split: if_splits)
    show ?thesis
    proof (cases revalued)
      case True
      with rv have same: "pos_currency q = pos_currency p" "same_side q p = Inr True" by (auto split: if_splits)
      have fin: "is_finite (pos_quantity q)" "is_finite (pos_quantity p)" using e0 eo by (simp_all add: entry_ok_def)
      note side = same_side_True [OF same(2) fin]
      obtain t t' where t: "od_get ?ts (pos_currency p) = Some t"
          "moved_totals t (0 < dval (pos_quantity p)) e0 e = Inr t'" "bk_totals b' = od_set (pos_currency p) t' ?ts"
        using rest True fin by (auto simp: rbind_eq_Inr)
      have mt: "totals_match ?ps (pos_currency p) t" using B t(1) by (metis od_item_totals totals_ok_def)
      have m': "totals_match (od_set a p ?ps) (pos_currency p) t'"
        by (rule moved_totals_match [OF t(2) e0(2) eo mt same(1) refl g]) (use B side in auto)
      have "totals_match (od_set a p ?ps) c (totals_or_none ?ts c)" if "c \<noteq> pos_currency p" for c
      proof -
        have "totals_match ?ps c (totals_or_none ?ts c)" using B by (simp add: totals_ok_def)
        then have "totals_match (od_del a ?ps) c (totals_or_none ?ts c)"
          using totals_match_other(2) [OF _ g(1)] B that same(1) by simp
        then show ?thesis using totals_match_other(1) [OF _ g(2)] B that by simp
      qed
      with m' have ok': "totals_ok (od_set a p ?ps) (bk_totals b')" by (simp add: totals_ok_def t(3))
      have "n_positions t' = n_positions t" using t(2) unfolding moved_totals_def
        by (cases e0; cases e) (auto simp: rbind_eq_Inr Let_def)
      then show ?thesis using ok' B t by (auto split: if_splits)
    next
      case False
      then obtain t t' t2 where t: "od_get ?ts (pos_currency q) = Some t" "apply_totals ?A t q e0 False = Inr t'"
          "apply_totals ?A (totals_or_none (od_set (pos_currency q) t' ?ts) (pos_currency p)) p e True = Inr t2"
          "bk_totals b' = drop_empty (od_set (pos_currency p) t2 (od_set (pos_currency q) t' ?ts))"
        using rest by (auto simp: rbind_eq_Inr Let_def)
      have one: "totals_ok (od_del a ?ps) (od_set (pos_currency q) t' ?ts)"
        by (rule totals_ok_apply [of ?ps ?ts q e0 False]) (use B e0 t g in \<open>simp_all add: od_item_totals\<close>)
      have "totals_ok (od_set a p ?ps) (od_set (pos_currency p) t2 (od_set (pos_currency q) t' ?ts))"
        by (rule totals_ok_apply [OF one eo t(3)]) (use B g in simp_all)
      then show ?thesis using B by (auto simp: t(4) totals_ok_drop_empty drop_empty_get split: option.splits if_splits)
    qed
  qed
  with B eo pos show ?thesis unfolding book_sound_def by (cases e) auto
qed

lemma book_ok_empty [simp]: "book_sound empty_positions"
  by (simp add: book_sound_def empty_positions_def totals_ok_def totals_or_none_def totals_match_none)

section \<open>A book and the same mapping walked afresh\<close>

inductive book_run :: "position_book \<Rightarrow> bool" where
  start: "book_run empty_positions"
| put: "book_run b \<Longrightarrow> held_ok u p \<Longrightarrow> book_set ACCOUNTING_CONTEXT a p b = Inr b' \<Longrightarrow> book_run b'"
| remove: "book_run b \<Longrightarrow> book_delete ACCOUNTING_CONTEXT a b = Inr b' \<Longrightarrow> book_run b'"

definition all_held :: "(string, position) od \<Rightarrow> bool" where
  "all_held ps = (\<forall>a p. (a, p) \<in> set ps \<longrightarrow> (\<exists>u. held_ok u p))"

lemma all_held_set: "od_ok ps \<Longrightarrow> all_held ps \<Longrightarrow> held_ok u p \<Longrightarrow> all_held (od_set a p ps)"
  unfolding all_held_def by (metis od_get_in od_get_set od_ok_set option.inject)

lemma book_run_ok: "book_run b \<Longrightarrow> book_sound b \<and> all_held (bk_positions b)"
proof (induction rule: book_run.induct)
  case start
  then show ?case by (simp add: all_held_def) (simp add: empty_positions_def)
next
  case (put b u p a b')
  have "od_ok (bk_positions b)" using put.IH by (simp add: book_sound_def)
  then show ?case
    using put book_set_ok [OF conjunct1 [OF put.IH] put.hyps(2,3)] book_set_positions [OF put.hyps(3)]
    by (simp add: all_held_set)
next
  case (remove b a b')
  then show ?case using book_delete_ok [of b a b'] by (auto simp: all_held_def od_del_def)
qed

lemma book_of_match:
  assumes "rfold (\<lambda>(entries, totals) (asset, p).
       rbind (entry_of ACCOUNTING_CONTEXT p) (\<lambda>e.
       rbind (apply_totals ACCOUNTING_CONTEXT (totals_or_none totals (pos_currency p)) p e True) (\<lambda>t.
         Inr (od_set asset e entries, od_set (pos_currency p) t totals)))) (es, ts) items = Inr (es', ts')"
    and "totals_ok ps ts" "all_held items"
  shows "totals_ok (ps @ items) ts'"
  using assms
proof (induction items arbitrary: es ts ps)
  case (Cons i items)
  obtain a p where i: "i = (a, p)" by (cases i)
  from Cons.prems(1) obtain e t where e: "entry_of ACCOUNTING_CONTEXT p = Inr e"
      "apply_totals ACCOUNTING_CONTEXT (totals_or_none ts (pos_currency p)) p e True = Inr t"
    and rest: "rfold (\<lambda>(entries, totals) (asset, p).
       rbind (entry_of ACCOUNTING_CONTEXT p) (\<lambda>e.
       rbind (apply_totals ACCOUNTING_CONTEXT (totals_or_none totals (pos_currency p)) p e True) (\<lambda>t.
         Inr (od_set asset e entries, od_set (pos_currency p) t totals))))
       (od_set a e es, od_set (pos_currency p) t ts) items = Inr (es', ts')"
    by (auto simp: i rbind_eq_Inr)
  obtain u where "held_ok u p" using Cons.prems(3) by (auto simp: i all_held_def)
  then have "entry_ok p e" using held_entry_ok e(1) by blast
  moreover have "grown ps p (ps @ [(a, p)])" by (simp add: grown_def count_where_append sum_where_append)
  ultimately have "totals_ok (ps @ [(a, p)]) (od_set (pos_currency p) t ts)"
    using totals_ok_apply [of ps ts p e True t "ps @ [(a, p)]"] Cons.prems(2) e(2) by simp
  from Cons.IH [OF rest this] Cons.prems(3) show ?case by (simp add: i all_held_def)
qed simp

definition totals_agree :: "currency_totals \<Rightarrow> currency_totals \<Rightarrow> bool" where
  "totals_agree s t =
     (n_positions s = n_positions t \<and> longs s = longs t \<and> shorts s = shorts t \<and>
      dec_eq (long_value s) (long_value t) \<and> dec_eq (short_value s) (short_value t) \<and>
      dec_eq (total_unrealized s) (total_unrealized t) \<and> dec_eq (uncarried_value s) (uncarried_value t))"

lemma totals_match_agree: "totals_match ps c s \<Longrightarrow> totals_match ps c t \<Longrightarrow> totals_agree s t"
  by (simp add: totals_match_def totals_agree_def)

text \<open>C16: whatever was set and deleted, each currency's totals are the sums over the positions the
  book holds now, and agree with those of a book built afresh from them.\<close>

theorem book_totals_are_fresh_sums:
  assumes "book_run b"
  shows "totals_match (bk_positions b) c (book_totals b c) \<and>
    (\<forall>f. book_of ACCOUNTING_CONTEXT (bk_positions b) = Inr f \<longrightarrow> totals_agree (book_totals b c) (book_totals f c))"
proof -
  have ok: "book_sound b" "all_held (bk_positions b)" using book_run_ok [OF assms] by blast+
  then have m: "totals_match (bk_positions b) c (book_totals b c)"
    by (simp add: book_sound_def totals_ok_def book_totals_def)
  have "totals_agree (book_totals b c) (book_totals f c)"
    if f: "book_of ACCOUNTING_CONTEXT (bk_positions b) = Inr f" for f
  proof -
    obtain es ts where r: "rfold (\<lambda>(entries, totals) (asset, p).
       rbind (entry_of ACCOUNTING_CONTEXT p) (\<lambda>e.
       rbind (apply_totals ACCOUNTING_CONTEXT (totals_or_none totals (pos_currency p)) p e True) (\<lambda>t.
         Inr (od_set asset e entries, od_set (pos_currency p) t totals)))) ([], []) (bk_positions b) = Inr (es, ts)"
        and ff: "bk_totals f = ts"
      using f by (auto simp: book_of_def rbind_eq_Inr)
    have "totals_ok [] []" by (simp add: totals_ok_def totals_or_none_def totals_match_none)
    from book_of_match [OF r this ok(2)] have "totals_match (bk_positions b) c (book_totals f c)"
      by (simp add: totals_ok_def book_totals_def ff)
    with m show ?thesis by (rule totals_match_agree)
  qed
  with m show ?thesis by blast
qed

definition example_book :: position_book where
  "example_book = \<lparr>bk_positions = [(''XYZ'', example_position)],
     bk_entries = [(''XYZ'', (Fin 6000 (-2), Fin 1000 (-2), ZERO_MONEY))],
     bk_totals = [(''USD'', \<lparr>n_positions = 1, longs = 1, shorts = 0, long_value = Fin 6000 (-2),
       short_value = ZERO_MONEY, total_unrealized = Fin 1000 (-2), uncarried_value = ZERO_MONEY\<rparr>)],
     bk_groups = None, bk_group_totals = []\<rparr>"

lemmas book_eval = book_set_def book_of_def entry_of_def valuation_def market_value_def apply_totals_def
  add_total_def signed_amount_def exact_or_error_def exact_add_def exact_result_def regrouped_def
  drop_empty_def totals_or_none_def NO_TOTALS_def od_get_def

lemma example_book_set: "book_set ACCOUNTING_CONTEXT ''XYZ'' example_position empty_positions = Inr example_book"
  by (simp add: book_eval empty_positions_def example_book_def example_position_def pos_eval)

lemma example_book_fresh: "book_of ACCOUNTING_CONTEXT (bk_positions example_book) = Inr example_book"
  by (simp add: book_eval empty_positions_def example_book_def example_position_def pos_eval)

theorem book_totals_are_fresh_sums_witness:
  "totals_match (bk_positions example_book) ''USD'' (book_totals example_book ''USD'') \<and>
    totals_agree (book_totals example_book ''USD'') (book_totals example_book ''USD'')"
  using book_totals_are_fresh_sums [OF book_run.put [OF book_run.start example_held(1) example_book_set]]
    example_book_fresh by blast

end
