(* ===== verification/Portfolio_Accounts.thy ===== *)
theory Portfolio_Accounts
  imports Portfolio_Engine Book_Totals
begin

text \<open>
  The accounting of the portfolio engine: an invariant of every reachable state (\<open>pf_ok\<close>: money is
  whole minor units, positions are well formed, the book's totals are its sums) and the accounting
  identity that \<open>alphalab/portfolio/engine.py\<close> states in its header, per currency:
  equity is deposits less withdrawals, plus realized and unrealized P&L, less commissions.

  The identity is exact as long as the amounts stay below \<open>10^33\<close> minor units (\<open>small\<close>), the
  range in which the 34-digit context never rounds a sum.
\<close>

section \<open>Cash movements\<close>

text \<open>\<open>l'\<close> is \<open>l\<close> with one currency's balance moved, exactly unless the result is large.\<close>

definition cash_moved :: "int \<Rightarrow> string \<Rightarrow> rat \<Rightarrow> cash_ledger \<Rightarrow> cash_ledger \<Rightarrow> bool" where
  "cash_moved u c x l l' =
     ((\<forall>c'. c' \<noteq> c \<longrightarrow> cash_balance l' c' = cash_balance l c') \<and> at_unit u (cash_balance l' c) \<and>
      (\<bar>dval (cash_balance l' c)\<bar> < 10 powi (34 - u) \<longrightarrow>
        dval (cash_balance l' c) = dval (cash_balance l c) + x))"

lemma cash_moved_refl: "at_unit u (cash_balance l c) \<Longrightarrow> cash_moved u c 0 l l"
  by (simp add: cash_moved_def)

lemma cash_add_moved:
  assumes "dec_add ACCOUNTING_CONTEXT (amount_of (balances l) c) a = Inr t"
    and "at_unit u (cash_balance l c)" "at_unit u a" "unit_range u"
  shows "cash_moved u c (dval a) l (l\<lparr>balances := od_set c t (balances l)\<rparr>)"
proof -
  have e: "dec_add ACCOUNTING_CONTEXT (cash_balance l c) a = Inr t" using assms(1) by (simp add: cash_balance_def)
  have "at_unit u t" using at_unit_add [OF e assms(2,3)] assms(4) by simp
  moreover have "\<bar>dval t\<bar> < 10 powi (34 - u) \<Longrightarrow> dval t = dval (cash_balance l c) + dval a"
    using add_small_exact [OF e assms(2-4)] .
  ultimately show ?thesis by (simp add: cash_moved_def cash_balance_def)
qed

lemma cash_deposit_moved:
  "cash_deposit ACCOUNTING_CONTEXT a c l = Inr l' \<Longrightarrow> at_unit u (cash_balance l c) \<Longrightarrow> at_unit u a \<Longrightarrow>
   unit_range u \<Longrightarrow> cash_moved u c (dval a) l l'"
  by (auto simp: cash_deposit_def rbind_eq_Inr intro: cash_add_moved)

lemma cash_settle_moved:
  "cash_settle ACCOUNTING_CONTEXT a c l = Inr l' \<Longrightarrow> at_unit u (cash_balance l c) \<Longrightarrow> at_unit u a \<Longrightarrow>
   unit_range u \<Longrightarrow> cash_moved u c (dval a) l l'"
  by (auto simp: cash_settle_def rbind_eq_Inr intro: cash_add_moved)

lemma cash_withdraw_moved:
  assumes "cash_withdraw ACCOUNTING_CONTEXT a c l = Inr l'" "at_unit u (cash_balance l c)" "at_unit u a" "unit_range u"
  shows "cash_moved u c (- dval a) l l'"
proof -
  obtain t where t: "dec_add ACCOUNTING_CONTEXT (amount_of (balances l) c) (dec_neg_exact a) = Inr t"
      and l': "l' = l\<lparr>balances := od_set c t (balances l)\<rparr>"
    using assms(1) by (auto simp: cash_withdraw_def rbind_eq_Inr dec_sub_def split: if_splits)
  show ?thesis using cash_add_moved [OF t assms(2) _ assms(4)] assms(3) by (simp add: l')
qed

lemma amounts_add_moved:
  assumes "amounts_add a c m = Inr m'" "at_unit u (amounts_of m c)" "at_unit u a" "unit_range u"
  shows "(\<forall>c'. c' \<noteq> c \<longrightarrow> amounts_of m' c' = amounts_of m c')" "at_unit u (amounts_of m' c)"
    "\<bar>dval (amounts_of m' c)\<bar> < 10 powi (34 - u) \<Longrightarrow> dval (amounts_of m' c) = dval (amounts_of m c) + dval a"
proof -
  obtain t where t: "dec_add ACCOUNTING_CONTEXT (amounts_of m c) a = Inr t" and m': "m' = od_set c t m"
    using assms(1) by (auto simp: amounts_add_def rbind_eq_Inr split: if_splits)
  show "(\<forall>c'. c' \<noteq> c \<longrightarrow> amounts_of m' c' = amounts_of m c')" by (simp add: m' amounts_of_def)
  show "at_unit u (amounts_of m' c)" using at_unit_add [OF t assms(2,3)] assms(4) by (simp add: m' amounts_of_def)
  show "\<bar>dval (amounts_of m' c)\<bar> < 10 powi (34 - u) \<Longrightarrow> dval (amounts_of m' c) = dval (amounts_of m c) + dval a"
    using add_small_exact [OF t assms(2-4)] by (simp add: m' amounts_of_def)
qed

section \<open>The invariant\<close>

definition money_ok :: "currency_units \<Rightarrow> cash_ledger \<Rightarrow> currency_amounts \<Rightarrow> currency_amounts \<Rightarrow> bool" where
  "money_ok units cash realized commission =
     (\<forall>c u. minor_units units c = Inr u \<longrightarrow> at_unit u (cash_balance cash c) \<and>
        at_unit u (amounts_of realized c) \<and> at_unit u (amounts_of commission c))"

definition position_fits :: "currency_units \<Rightarrow> string \<Rightarrow> position \<Rightarrow> bool" where
  "position_fits units a p =
     (pos_asset_id p = a \<and> (\<exists>u. minor_units units (pos_currency p) = Inr u \<and> held_ok u p))"

definition book_fits :: "currency_units \<Rightarrow> position_book \<Rightarrow> bool" where
  "book_fits units b =
     (book_sound b \<and> (\<forall>a p. od_get (bk_positions b) a = Some p \<longrightarrow> position_fits units a p))"

abbreviation units_of :: "portfolio_state \<Rightarrow> currency_units" where
  "units_of s \<equiv> account_units (pf_account s)"

definition pf_ok :: "portfolio_state \<Rightarrow> bool" where
  "pf_ok s =
     (units_ok (units_of s) \<and> money_ok (units_of s) (pf_cash s) (pf_realized s) (pf_commission s) \<and>
      book_fits (units_of s) (pf_positions s))"

lemma money_okD:
  assumes "money_ok units cash realized commission" "minor_units units c = Inr u"
  shows "at_unit u (cash_balance cash c)" "at_unit u (amounts_of realized c)" "at_unit u (amounts_of commission c)"
  using assms by (simp_all add: money_ok_def)

text \<open>Money moved in one currency keeps every balance at its unit.\<close>

lemma money_ok_move:
  assumes "money_ok units cash realized commission" "minor_units units c = Inr u"
    and "\<forall>c'. c' \<noteq> c \<longrightarrow> cash_balance cash' c' = cash_balance cash c'" "at_unit u (cash_balance cash' c)"
    and "\<forall>c'. c' \<noteq> c \<longrightarrow> amounts_of realized' c' = amounts_of realized c'" "at_unit u (amounts_of realized' c)"
    and "\<forall>c'. c' \<noteq> c \<longrightarrow> amounts_of commission' c' = amounts_of commission c'" "at_unit u (amounts_of commission' c)"
  shows "money_ok units cash' realized' commission'"
  using assms unfolding money_ok_def by (metis sum.inject(2))

lemma to_money_at_unit:
  "to_money a c units = Inr r \<Longrightarrow> units_ok units \<Longrightarrow> minor_units units c = Inr u \<Longrightarrow> is_finite a \<Longrightarrow> at_unit u r"
  by (auto simp: to_money_def intro: at_unit_round_money)

lemma to_money_units: "to_money a c units = Inr r \<Longrightarrow> \<exists>u. minor_units units c = Inr u"
  by (auto simp: to_money_def round_money_def quantum_def rbind_eq_Inr)

lemma round_money_exact:
  assumes "round_money units a c = Inr r" "units_ok units" "is_finite a"
  shows "exact_number r"
proof -
  obtain u where u: "minor_units units c = Inr u" using assms(1) by (auto simp: round_money_def quantum_def rbind_eq_Inr)
  obtain k e where a: "a = Fin k e" using assms(3) by (auto simp: is_finite_iff)
  have "dec_quantize ACCOUNTING_CONTEXT (Fin k e) (Fin 1 (- u)) = Inr r"
    using assms(1) quantum_eq [OF assms(2) u] by (simp add: round_money_def a)
  from dec_quantize_result(1,2) [OF this] show ?thesis by (simp add: exact_number_def)
qed

section \<open>What a currency holds\<close>

definition pays_in :: "string \<Rightarrow> position \<Rightarrow> bool" where
  "pays_in c p = (pays_notional p \<and> pos_currency p = c)"

definition invested :: "string \<Rightarrow> position_book \<Rightarrow> rat" where
  "invested c b = sum_where (pays_in c) signed_basis (bk_positions b)"

fun event_deposit :: "string \<Rightarrow> portfolio_event \<Rightarrow> rat" where
  "event_deposit c (CashDeposited t acct x c') = (if c' = c then dval x else 0)"
| "event_deposit c (CashWithdrawn t acct x c') = (if c' = c then - dval x else 0)"
| "event_deposit c _ = 0"

text \<open>Deposits less withdrawals, as the events record them.\<close>

definition net_deposits :: "string \<Rightarrow> portfolio_event list \<Rightarrow> rat" where
  "net_deposits c evs = sum_list (map (event_deposit c) evs)"

lemma net_deposits_append [simp]: "net_deposits c (xs @ ys) = net_deposits c xs + net_deposits c ys"
  by (simp add: net_deposits_def)

lemma net_deposits_Cons [simp]: "net_deposits c (x # xs) = event_deposit c x + net_deposits c xs"
  "net_deposits c [] = 0"
  by (simp_all add: net_deposits_def)

text \<open>Cash is what was paid in, less what is invested, plus what was earned and less what was charged.\<close>

definition cash_identity ::
  "string \<Rightarrow> rat \<Rightarrow> cash_ledger \<Rightarrow> position_book \<Rightarrow> currency_amounts \<Rightarrow> currency_amounts \<Rightarrow> bool" where
  "cash_identity c net cash b realized commission =
     (dval (cash_balance cash c) + invested c b =
      net + dval (amounts_of realized c) - dval (amounts_of commission c))"

definition money_small :: "int \<Rightarrow> string \<Rightarrow> cash_ledger \<Rightarrow> position_book \<Rightarrow> currency_amounts \<Rightarrow> currency_amounts \<Rightarrow> bool" where
  "money_small u c cash b realized commission =
     (small u (cash_balance cash c) \<and> small u (amounts_of realized c) \<and> small u (amounts_of commission c) \<and>
      (\<forall>a p. od_get (bk_positions b) a = Some p \<longrightarrow> pos_currency p = c \<longrightarrow> small u (kept_basis p)))"

text \<open>Replacing or dropping one position moves what is invested by its signed basis.\<close>

lemma invested_set:
  assumes "od_ok (bk_positions b)" "bk_positions b' = od_set a p' (bk_positions b)"
  shows "invested c b' = invested c b -
    (case od_get (bk_positions b) a of None \<Rightarrow> 0 | Some p \<Rightarrow> if pays_in c p then signed_basis p else 0) +
    (if pays_in c p' then signed_basis p' else 0)"
proof (cases "od_get (bk_positions b) a")
  case None
  then show ?thesis using grown_sum [OF grown_set_absent [OF None, of p'], of "pays_in c" signed_basis]
    by (simp add: invested_def assms(2))
next
  case (Some p)
  show ?thesis
    using grown_sum [OF grown_del [OF assms(1) Some], of "pays_in c" signed_basis]
      grown_sum [OF grown_set [OF assms(1) Some, of p'], of "pays_in c" signed_basis] Some
    by (simp add: invested_def assms(2))
qed

lemma invested_del:
  assumes "od_ok (bk_positions b)" "bk_positions b' = od_del a (bk_positions b)"
  shows "invested c b' = invested c b -
    (case od_get (bk_positions b) a of None \<Rightarrow> 0 | Some p \<Rightarrow> if pays_in c p then signed_basis p else 0)"
proof (cases "od_get (bk_positions b) a")
  case None
  then show ?thesis by (simp add: invested_def assms(2) od_del_same)
next
  case (Some p)
  show ?thesis using grown_sum [OF grown_del [OF assms(1) Some], of "pays_in c" signed_basis] Some
    by (simp add: invested_def assms(2))
qed

lemma book_fits_set:
  assumes "book_fits units b" "held_ok u p" "minor_units units (pos_currency p) = Inr u"
    and "book_set ACCOUNTING_CONTEXT a p b = Inr b'"
  shows "book_fits units b'"
  using assms book_set_ok [OF _ assms(2,4)] book_set_positions [OF assms(4)]
  by (auto simp: book_fits_def position_fits_def)

lemma book_fits_del:
  "book_fits units b \<Longrightarrow> book_delete ACCOUNTING_CONTEXT a b = Inr b' \<Longrightarrow> book_fits units b'"
  using book_delete_ok [of b a b'] by (auto simp: book_fits_def)

section \<open>Deposits, withdrawals and cash flows\<close>

text \<open>What an operation owes the invariant and, for one currency, the identity.\<close>

definition keeps_identity :: "int \<Rightarrow> string \<Rightarrow> portfolio_state \<Rightarrow> portfolio_state \<Rightarrow> bool" where
  "keeps_identity u c s s' =
     (money_small u c (pf_cash s) (pf_positions s) (pf_realized s) (pf_commission s) \<longrightarrow>
      money_small u c (pf_cash s') (pf_positions s') (pf_realized s') (pf_commission s') \<longrightarrow>
      cash_identity c (net_deposits c (pf_events s)) (pf_cash s) (pf_positions s) (pf_realized s) (pf_commission s) \<longrightarrow>
      cash_identity c (net_deposits c (pf_events s')) (pf_cash s') (pf_positions s') (pf_realized s') (pf_commission s'))"

definition sound_step :: "portfolio_state \<Rightarrow> portfolio_state \<Rightarrow> bool" where
  "sound_step s s' =
     (pf_ok s' \<and> pf_account s' = pf_account s \<and>
      (\<forall>c u. minor_units (units_of s) c = Inr u \<longrightarrow> keeps_identity u c s s'))"

lemma positive_moneyD:
  assumes "positive_money s amount c = Inr x" "units_ok (units_of s)"
  obtains u where "minor_units (units_of s) c = Inr u" "at_unit u x" "0 < dval x" "exact_number x" "unit_range u"
proof -
  have fin: "is_finite amount" and m: "to_money amount c (units_of s) = Inr x" and pos: "dec_le x dec_zero = Inr False"
    using assms(1) by (auto simp: positive_money_def require_finite_def rbind_eq_Inr split: if_splits)
  obtain u where u: "minor_units (units_of s) c = Inr u" using to_money_units [OF m] by blast
  have x: "at_unit u x" using to_money_at_unit [OF m assms(2) u fin] .
  have "exact_number x" using round_money_exact [of "units_of s" amount c x] m assms(2) fin by (simp add: to_money_def)
  with u x pos minor_units_unit_range [OF assms(2) u] that show thesis by simp
qed

text \<open>A movement of one currency's cash and P&L that leaves the book as it was.\<close>

lemma cash_step:
  assumes ok: "pf_ok s" and u: "minor_units (units_of s) c = Inr u"
    and moved: "cash_moved u c x (pf_cash s) (pf_cash s')"
    and same: "pf_account s' = pf_account s" "pf_positions s' = pf_positions s" "pf_commission s' = pf_commission s"
    and real: "(\<forall>c'. c' \<noteq> c \<longrightarrow> amounts_of (pf_realized s') c' = amounts_of (pf_realized s) c')"
      "at_unit u (amounts_of (pf_realized s') c)"
      "small u (amounts_of (pf_realized s') c) \<Longrightarrow> dval (amounts_of (pf_realized s') c) = dval (amounts_of (pf_realized s) c) + r"
    and net: "\<And>c'. net_deposits c' (pf_events s') = net_deposits c' (pf_events s) + (if c' = c then n else 0)"
    and balanced: "x = n + r"
  shows "sound_step s s'"
proof -
  note P = ok [unfolded pf_ok_def]
  have c: "at_unit u (cash_balance (pf_cash s') c)"
      "\<forall>c'. c' \<noteq> c \<longrightarrow> cash_balance (pf_cash s') c' = cash_balance (pf_cash s) c'"
    using moved by (simp_all add: cash_moved_def)
  have "money_ok (units_of s') (pf_cash s') (pf_realized s') (pf_commission s')"
    using money_ok_move [of "units_of s" "pf_cash s" "pf_realized s" "pf_commission s" c u "pf_cash s'" "pf_realized s'" "pf_commission s'"]
      P u c real(1,2) money_okD [of "units_of s" "pf_cash s" "pf_realized s" "pf_commission s" c u] same by simp
  then have ok': "pf_ok s'" using P same by (simp add: pf_ok_def)
  have "keeps_identity u' c' s s'" if u': "minor_units (units_of s) c' = Inr u'" for u' c'
  proof (cases "c' = c")
    case True
    with u u' have "u' = u" by simp
    with True moved real(3) net [of c] balanced same small_less [of u "cash_balance (pf_cash s') c"] show ?thesis
      by (auto simp: keeps_identity_def cash_identity_def money_small_def cash_moved_def)
  next
    case False
    with c real(1) net [of c'] same show ?thesis by (simp add: keeps_identity_def cash_identity_def)
  qed
  with ok' same show ?thesis by (simp add: sound_step_def)
qed

lemma apply_deposit_sound:
  assumes ok: "pf_ok s" and run: "apply_deposit tid amount c t s = Inr s'"
  shows "sound_step s s'"
proof -
  note P = ok [unfolded pf_ok_def]
  obtain x cash where x: "positive_money s amount c = Inr x" "cash_deposit ACCOUNTING_CONTEXT x c (pf_cash s) = Inr cash"
      and s': "s' = s\<lparr>pf_cash := cash,
              pf_ledger := ledger_append (cash_tx tid t s DEPOSIT ''CASH'' x c) (pf_ledger s),
              pf_events := pf_events s @ [CashDeposited t (account_id (pf_account s)) x c]\<rparr>"
    using run by (auto simp: apply_deposit_def rbind_eq_Inr)
  obtain u where u: "minor_units (units_of s) c = Inr u" "at_unit u x" "0 < dval x" "exact_number x" "unit_range u"
    using positive_moneyD [OF x(1)] P by blast
  note M = money_okD [OF _ u(1)]
  have m: "cash_moved u c (dval x) (pf_cash s) (pf_cash s')"
    using cash_deposit_moved [OF x(2) _ u(2,5)] M P by (auto simp: s')
  show ?thesis
    by (rule cash_step [OF ok u(1) m, where r = 0 and n = "dval x"]) (use M P in \<open>auto simp: s'\<close>)
qed

lemma apply_withdrawal_sound:
  assumes ok: "pf_ok s" and run: "apply_withdrawal tid amount c t s = Inr s'"
  shows "sound_step s s'"
proof -
  note P = ok [unfolded pf_ok_def]
  obtain x cash y where x: "positive_money s amount c = Inr x" "cash_withdraw ACCOUNTING_CONTEXT x c (pf_cash s) = Inr cash"
      and s': "s' = s\<lparr>pf_cash := cash,
              pf_ledger := ledger_append (cash_tx tid t s WITHDRAWAL ''CASH'' y c) (pf_ledger s),
              pf_events := pf_events s @ [CashWithdrawn t (account_id (pf_account s)) x c]\<rparr>"
    using run by (auto simp: apply_withdrawal_def rbind_eq_Inr)
  obtain u where u: "minor_units (units_of s) c = Inr u" "at_unit u x" "0 < dval x" "exact_number x" "unit_range u"
    using positive_moneyD [OF x(1)] P by blast
  note M = money_okD [OF _ u(1)]
  have m: "cash_moved u c (- dval x) (pf_cash s) (pf_cash s')"
    using cash_withdraw_moved [OF x(2) _ u(2,5)] M P by (auto simp: s')
  show ?thesis
    by (rule cash_step [OF ok u(1) m, where r = 0 and n = "- dval x"]) (use M P in \<open>auto simp: s'\<close>)
qed

lemma apply_cash_flow_sound:
  assumes ok: "pf_ok s" and fin: "is_finite (cf_amount flow)" and run: "apply_cash_flow tid flow t s = Inr s'"
  shows "sound_step s s'"
proof -
  note P = ok [unfolded pf_ok_def]
  let ?c = "cf_currency flow"
  obtain x cash realized tx ev where x: "to_money (cf_amount flow) ?c (units_of s) = Inr x"
      "cash_settle ACCOUNTING_CONTEXT x ?c (pf_cash s) = Inr cash" "amounts_add x ?c (pf_realized s) = Inr realized"
      and s': "s' = s\<lparr>pf_cash := cash, pf_ledger := ledger_append tx (pf_ledger s),
        pf_events := pf_events s @ [ev], pf_realized := realized\<rparr>" and ev: "event_deposit c' ev = 0" for c'
    using run by (auto simp: apply_cash_flow_def rbind_eq_Inr split: if_splits)
  obtain u where u: "minor_units (units_of s) ?c = Inr u" using to_money_units [OF x(1)] by blast
  have a: "at_unit u x" using to_money_at_unit [OF x(1) _ u fin] P by blast
  have ur: "unit_range u" using minor_units_unit_range [OF _ u] P by blast
  note M = money_okD [OF _ u]
  have m: "cash_moved u ?c (dval x) (pf_cash s) (pf_cash s')"
    using cash_settle_moved [OF x(2) _ a ur] M P by (auto simp: s')
  have r: "at_unit u (amounts_of (pf_realized s) ?c)" using M P by blast
  note A = amounts_add_moved [OF x(3) r a ur]
  show ?thesis
    by (rule cash_step [OF ok u m, where r = "dval x" and n = 0]) (use A small_less ev in \<open>auto simp: s'\<close>)
qed

text \<open>Accruals only write the ledger.\<close>

lemma ledger_step: "pf_ok s \<Longrightarrow> sound_step s (s\<lparr>pf_ledger := l\<rparr>)"
  by (simp add: sound_step_def pf_ok_def keeps_identity_def)

end
