(* ===== verification/Portfolio_Example.thy ===== *)
theory Portfolio_Example
  imports Portfolio_Engine Book_Totals
begin

text \<open>
  A small account worked through by evaluation: 1000 USD deposited, ten XYZ bought at 50 with one
  dollar of commission, and the holding marked at 60. Each step of the engine is evaluated on its
  own; the properties of the portfolio are instantiated on these states.
\<close>

definition example_account :: account where
  "example_account = \<lparr>account_id = ''acct'', base_currency = ''USD'', account_name = ''main'',
     created_at = FFin 0, account_status = ''ACTIVE'', account_units = []\<rparr>"

definition deposit_tx :: transaction where
  "deposit_tx = \<lparr>transaction_id = ''t1'', tx_timestamp = FFin 1, tx_account_id = ''acct'', tx_type = DEPOSIT,
     tx_asset_id = ''CASH'', tx_quantity = Fin 100000 (-2), tx_price = Fin 10 (-1), tx_commission = Fin 0 (-1),
     tx_currency = ''USD'', tx_metadata = []\<rparr>"

definition buy_tx :: transaction where
  "buy_tx = \<lparr>transaction_id = ''t2'', tx_timestamp = FFin 2, tx_account_id = ''acct'', tx_type = BUY_TX,
     tx_asset_id = ''XYZ'', tx_quantity = Fin 10 0, tx_price = Fin 50 0, tx_commission = Fin 100 (-2),
     tx_currency = ''USD'', tx_metadata = []\<rparr>"

definition example_holding :: "decimal \<Rightarrow> pyfloat \<Rightarrow> position" where
  "example_holding price t = \<lparr>pos_asset_id = ''XYZ'', pos_quantity = Fin 10 0, average_cost = Fin 5000 (-2),
     market_price = price, pos_realized_pnl = Fin 0 0, pos_currency = ''USD'', last_updated = t,
     cost_basis = Some (Fin 50000 (-2)), opened_at = Some (FFin 2), pos_minor_units = Some 2,
     pos_economics = None\<rparr>"

definition holding_book :: "decimal \<Rightarrow> pyfloat \<Rightarrow> decimal \<Rightarrow> decimal \<Rightarrow> position_book" where
  "holding_book price t v pnl =
     \<lparr>bk_positions = [(''XYZ'', example_holding price t)], bk_entries = [(''XYZ'', v, pnl, Fin 0 0)],
      bk_totals = [(''USD'', \<lparr>n_positions = 1, longs = 1, shorts = 0, long_value = v, short_value = Fin 0 0,
        total_unrealized = pnl, uncarried_value = Fin 0 0\<rparr>)], bk_groups = None, bk_group_totals = []\<rparr>"

definition funded :: portfolio_state where
  "funded = \<lparr>pf_account = example_account, pf_cash = \<lparr>balances = [(''USD'', Fin 100000 (-2))], reserved = []\<rparr>,
     pf_positions = empty_positions, pf_ledger = [deposit_tx],
     pf_events = [CashDeposited (FFin 1) ''acct'' (Fin 100000 (-2)) ''USD''],
     pf_realized = [], pf_commission = [], pf_pending_marks = [], pf_unsettled = []\<rparr>"

definition holding :: portfolio_state where
  "holding = \<lparr>pf_account = example_account, pf_cash = \<lparr>balances = [(''USD'', Fin 49900 (-2))], reserved = []\<rparr>,
     pf_positions = holding_book (Fin 50 0) (FFin 2) (Fin 50000 (-2)) (Fin 0 (-2)), pf_ledger = [deposit_tx, buy_tx],
     pf_events = [CashDeposited (FFin 1) ''acct'' (Fin 100000 (-2)) ''USD'',
       PositionOpened (FFin 2) ''acct'' ''XYZ'' (Fin 10 0) (Fin 50 0)],
     pf_realized = [(''USD'', Fin 0 0)], pf_commission = [(''USD'', Fin 100 (-2))],
     pf_pending_marks = [''XYZ''], pf_unsettled = []\<rparr>"

definition repriced :: portfolio_state where
  "repriced = holding\<lparr>pf_positions := holding_book (Fin 60 0) (FFin 3) (Fin 60000 (-2)) (Fin 10000 (-2)),
     pf_events := pf_events holding @ [MarketValueUpdated (FFin 3) ''acct'' [(''XYZ'', Fin 60 0)]],
     pf_pending_marks := []\<rparr>"

lemmas example_defs = example_account_def deposit_tx_def buy_tx_def example_holding_def holding_book_def
  funded_def holding_def repriced_def

lemma usd_units: "minor_units [] ''USD'' = Inr 2"
  by (simp add: minor_units_def ISO_4217_MINOR_UNITS_eq iso_two_def iso_zero_def iso_three_def iso_four_def)

lemma usd_known: "blank ''USD'' = False"
  by (simp add: blank_def py_space_def)

lemma usd_quantum: "quantum [] ''USD'' = Inr (Fin 1 (-2))"
  by (simp add: quantum_def usd_units quantum_of_units MAX_MINOR_UNITS_def)

lemma usd_money [simp]:
  "to_money (Fin 1000 0) ''USD'' [] = Inr (Fin 100000 (-2))"
  "to_money (Fin 1 0) ''USD'' [] = Inr (Fin 100 (-2))"
  "notional ACCOUNTING_CONTEXT (Fin 10 0) (Fin 50 0) ''USD'' [] = Inr (Fin 50000 (-2))"
  by (simp_all add: to_money_def notional_def round_money_def usd_quantum pos_eval)

lemma example_deposit:
  "apply_deposit ''t1'' (Fin 1000 0) ''USD'' (FFin 1) (new_portfolio example_account) = Inr funded"
  by (simp add: apply_deposit_def positive_money_def new_portfolio_def make_state_def usd_known example_defs
    cash_deposit_def empty_cash_def cash_tx_def ledger_append_def price_one_def commission_zero_def require_finite_def pos_eval)

definition example_fresh :: position where
  "example_fresh = fresh_position ''XYZ'' (Fin 50 0) ''USD'' (FFin 2) 2 None"

lemma example_position_met:
  "fill_position ''XYZ'' (Fin 10 0) (Fin 50 0) (Fin 1 0) (FFin 2) ''USD'' None False funded =
     Inr (example_fresh, Fin 100 (-2))"
  by (simp add: fill_position_def usd_known example_defs require_finite_def declared_economics_def
    fill_admitted_def or_cash_equity_def admits_price_def CASH_EQUITY_def usd_units book_get_def empty_positions_def
    example_fresh_def fresh_position_def make_position_def opt_eq_def pos_eval)

lemma example_booked:
  "pos_apply_fill (Fin 10 0) (Fin 50 0) (FFin 2) example_fresh =
     Inr (example_holding (Fin 50 0) (FFin 2), Fin 0 0)"
  by (simp add: example_fresh_def fresh_position_def example_holding_def pos_eval)

lemma example_placed:
  "booked_position ''acct'' ''XYZ'' (FFin 2) (Fin 10 0) (Fin 50 0) (Fin 0 0) example_fresh
     (example_holding (Fin 50 0) (FFin 2)) empty_positions =
   Inr (holding_book (Fin 50 0) (FFin 2) (Fin 50000 (-2)) (Fin 0 (-2)),
     PositionOpened (FFin 2) ''acct'' ''XYZ'' (Fin 10 0) (Fin 50 0))"
  by (simp add: booked_position_def example_fresh_def fresh_position_def example_holding_def holding_book_def
    empty_positions_def book_eval pos_eval)

lemma example_traded:
  "trade_value example_fresh (Fin 10 0) (Fin 50 0) ''USD'' [] = Inr (Fin 50000 (-2))"
  by (simp add: trade_value_def example_fresh_def fresh_position_def pos_multiplier_def pos_eval)

lemma example_impact: "fill_impact (Fin 10 0) (Fin 50000 (-2)) (Fin 100 (-2)) = Inr (Fin (-50100) (-2))"
  by (simp add: fill_impact_def pos_eval)

lemma example_paid:
  "fill_cash example_fresh (Fin 10 0) (Fin 0 0) (Fin (-50100) (-2)) ''USD'' False
     \<lparr>balances = [(''USD'', Fin 100000 (-2))], reserved = []\<rparr> =
   Inr \<lparr>balances = [(''USD'', Fin 49900 (-2))], reserved = []\<rparr>"
  by (simp add: fill_cash_def covering_def cash_withdraw_def available_cash_def cash_balance_def amount_of_def example_fresh_def
    fresh_position_def od_get_def pos_eval)

lemma example_fill:
  "apply_fill ''t2'' ''XYZ'' (Fin 10 0) (Fin 50 0) (Fin 1 0) (FFin 2) ''USD'' None False None False funded = Inr holding"
proof -
  have place: "booked_position (account_id (pf_account funded)) ''XYZ'' (FFin 2) (Fin 10 0) (Fin 50 0) (Fin 0 0)
      example_fresh (example_holding (Fin 50 0) (FFin 2)) (pf_positions funded) =
    Inr (holding_book (Fin 50 0) (FFin 2) (Fin 50000 (-2)) (Fin 0 (-2)),
      PositionOpened (FFin 2) ''acct'' ''XYZ'' (Fin 10 0) (Fin 50 0))"
    using example_placed by (simp add: funded_def example_account_def)
  have paid: "fill_cash example_fresh (Fin 10 0) (Fin 0 0) (Fin (-50100) (-2)) ''USD'' False (pf_cash funded) =
      Inr (pf_cash holding)"
    using example_paid by (simp add: funded_def holding_def)
  have units: "account_units (pf_account funded) = []" by (simp add: funded_def example_account_def)
  show ?thesis
    unfolding apply_fill_def example_position_met rbind_Inr prod.case units example_traded example_booked place
      example_impact paid
    by (simp add: fill_tx_def amounts_add_def make_state_def fill_marks_def fill_unsettled_def ledger_append_def
      book_get_def od_get_def pending_with_def example_defs amounts_of_def usd_known pos_eval)
qed

text \<open>The pass of the mark's loop over the one holding: the book revalued, no cash moved.\<close>

definition unmarked :: marking where
  "unmarked = \<lparr>mk_positions = pf_positions holding, mk_marked = [], mk_cash = pf_cash holding,
     mk_realized = pf_realized holding, mk_ledger = pf_ledger holding, mk_settled = []\<rparr>"

definition example_marking :: marking where
  "example_marking = unmarked\<lparr>mk_positions := pf_positions repriced, mk_marked := [(''XYZ'', Fin 60 0)]\<rparr>"

lemma example_revalued:
  "book_set ACCOUNTING_CONTEXT ''XYZ'' (example_holding (Fin 60 0) (FFin 3)) (pf_positions holding) =
     Inr (pf_positions repriced)"
  by (simp add: example_defs book_eval od_item_def same_side_def moved_totals_def
    entry_difference_def exact_sum_def exact_sub_def pos_eval)

lemma example_mark_one:
  "mark_one ids (account_id example_account) [(''XYZ'', Fin 60 0)] (FFin 3) unmarked
     (''XYZ'', example_holding (Fin 50 0) (FFin 2)) = Inr example_marking"
proof -
  have "pos_settle (Fin 60 0) (FFin 3) (example_holding (Fin 50 0) (FFin 2)) =
      Inr (example_holding (Fin 60 0) (FFin 3), Fin 0 0)"
    by (simp add: pos_settle_def update_market_price_def example_holding_def pos_eval)
  moreover have "pos_economics (example_holding (Fin 50 0) (FFin 2)) = None" by (simp add: example_holding_def)
  ultimately show ?thesis using example_revalued
    by (simp add: mark_one_def admits_price_def or_cash_equity_def CASH_EQUITY_def unmarked_def example_marking_def
      od_get_def pos_eval)
qed

lemma example_marked: "update_market_prices ids [(''XYZ'', Fin 60 0)] (FFin 3) holding = Inr repriced"
proof -
  have held: "bk_positions (pf_positions holding) = [(''XYZ'', example_holding (Fin 50 0) (FFin 2))]"
    by (simp add: holding_def holding_book_def)
  have acct: "pf_account holding = example_account" by (simp add: holding_def)
  show ?thesis
    unfolding update_market_prices_def marked_def held acct unmarked_def [symmetric]
    by (simp add: example_mark_one) (simp add: example_marking_def unmarked_def pending_with_def od_keys_def example_defs)
qed

end
