(* ===== verification/Portfolio_Identity.thy ===== *)
theory Portfolio_Identity
  imports Portfolio_Accounts Portfolio_Example
begin

text \<open>
  The accounting identity through splits, marks and fills, and the properties of every state the
  engine reaches.
\<close>

section \<open>Splits\<close>

text \<open>A position replaced by one whose invested money is the same.\<close>

lemma sound_position_step:
  assumes ok: "pf_ok s" and old: "od_get (bk_positions (pf_positions s)) a = Some p"
    and new: "held_ok u p'" "minor_units (units_of s) (pos_currency p) = Inr u" "same_frame p p'"
      "pays_notional p \<Longrightarrow> signed_basis p' = signed_basis p"
    and set: "book_set ACCOUNTING_CONTEXT a p' (pf_positions s) = Inr b"
    and s': "pf_account s' = pf_account s" "pf_positions s' = b" "pf_cash s' = pf_cash s"
      "pf_realized s' = pf_realized s" "pf_commission s' = pf_commission s"
      "\<And>c. net_deposits c (pf_events s') = net_deposits c (pf_events s)"
  shows "sound_step s s'"
proof -
  note P = ok [unfolded pf_ok_def]
  have cur: "pos_currency p' = pos_currency p" using new(3) by (simp add: same_frame_def)
  have fits: "book_fits (units_of s) b"
    using book_fits_set [OF _ new(1) _ set] P new(2) cur by simp
  have odok: "od_ok (bk_positions (pf_positions s))" using P by (simp add: book_fits_def book_sound_def)
  have "invested c b = invested c (pf_positions s)" for c
    using invested_set [OF odok conjunct1 [OF conjunct2 [OF book_set_positions [OF set]]], of c] old new(4)
      same_frame_pays [OF new(3)] cur
    by (simp add: pays_in_def)
  with P fits show ?thesis by (simp add: sound_step_def pf_ok_def s' keeps_identity_def cash_identity_def)
qed

lemma apply_split_sound:
  assumes ok: "pf_ok s" and sp: "make_split (sp_asset_id sp) (sp_ratio sp) = Inr sp"
    and run: "apply_split sp t s = Inr s'"
    and open_after: "\<And>p. book_get (pf_positions s') (sp_asset_id sp) = Some p \<Longrightarrow> dval (pos_quantity p) \<noteq> 0"
  shows "sound_step s s'"
proof -
  note P = ok [unfolded pf_ok_def]
  have ratio: "is_finite (sp_ratio sp)" "0 < dval (sp_ratio sp)"
    using sp by (auto simp: make_split_def rbind_eq_Inr split: if_splits)
  obtain p p' b ev where p: "od_get (bk_positions (pf_positions s)) (sp_asset_id sp) = Some p"
      "pos_split (sp_ratio sp) t p = Inr p'" "book_set ACCOUNTING_CONTEXT (sp_asset_id sp) p' (pf_positions s) = Inr b"
      and s': "s' = s\<lparr>pf_positions := b, pf_events := pf_events s @ [ev]\<rparr>" and ev: "\<And>c. event_deposit c ev = 0"
    using run by (auto simp: apply_split_def book_get_def rbind_eq_Inr split: option.splits)
  obtain u where u: "minor_units (units_of s) (pos_currency p) = Inr u" "held_ok u p"
    using P p(1) by (auto simp: book_fits_def position_fits_def)
  have "book_get (pf_positions s') (sp_asset_id sp) = Some p'"
    using book_set_positions [OF p(3)] by (simp add: s' book_get_def)
  note R = split_result [OF u(2) ratio p(2) open_after [OF this]]
  have h: "held_ok u p'" using R(1) open_after [OF \<open>book_get _ _ = Some p'\<close>] by (simp add: held_ok_def)
  show ?thesis
    by (rule sound_position_step [OF ok p(1) h u(1) split_frame [OF p(2)] R(3) p(3)]) (simp_all add: s' ev)
qed

section \<open>Marks\<close>

definition marking_ok :: "currency_units \<Rightarrow> currency_amounts \<Rightarrow> marking \<Rightarrow> bool" where
  "marking_ok units commission m =
     (money_ok units (mk_cash m) (mk_realized m) commission \<and> book_fits units (mk_positions m))"

lemma mark_one_skip: "od_get prices a = None \<Longrightarrow> mark_one ids acct prices t m (a, p) = Inr m"
  by (simp add: mark_one_def)

lemma mark_one_step:
  assumes units: "units_ok units" and ok: "marking_ok units commission m"
    and old: "od_get (bk_positions (mk_positions m)) a = Some p"
    and run: "mark_one ids acct prices t m (a, p) = Inr m'"
  shows "marking_ok units commission m'"
    and "a' \<noteq> a \<Longrightarrow> od_get (bk_positions (mk_positions m')) a' = od_get (bk_positions (mk_positions m)) a'"
    and "minor_units units c = Inr u \<Longrightarrow> cash_identity c net (mk_cash m) (mk_positions m) (mk_realized m) commission \<Longrightarrow>
      small u (cash_balance (mk_cash m') c) \<Longrightarrow> small u (amounts_of (mk_realized m') c) \<Longrightarrow>
      cash_identity c net (mk_cash m') (mk_positions m') (mk_realized m') commission"
proof -
  let ?A = ACCOUNTING_CONTEXT and ?c = "pos_currency p"
  have all: "marking_ok units commission m' \<and>
    (a' \<noteq> a \<longrightarrow> od_get (bk_positions (mk_positions m')) a' = od_get (bk_positions (mk_positions m)) a') \<and>
    (minor_units units c = Inr u \<longrightarrow> cash_identity c net (mk_cash m) (mk_positions m) (mk_realized m) commission \<longrightarrow>
      small u (cash_balance (mk_cash m') c) \<longrightarrow> small u (amounts_of (mk_realized m') c) \<longrightarrow>
      cash_identity c net (mk_cash m') (mk_positions m') (mk_realized m') commission)"
  proof (cases "od_get prices a")
    case None
    then show ?thesis using run ok by (simp add: mark_one_skip)
  next
    case (Some price)
    then obtain p' x b where st: "admits_price (or_cash_equity (pos_economics p)) price = Inr True"
        "pos_settle price t p = Inr (p', x)" "book_set ?A a p' (mk_positions m) = Inr b"
      and tail: "(let m1 = m\<lparr>mk_positions := b, mk_marked := od_set a price (mk_marked m)\<rparr> in
            if dec_eq x dec_zero then Inr m1
            else
              rbind (cash_settle ?A x ?c (mk_cash m)) (\<lambda>cash.
              rbind (amounts_add x ?c (mk_realized m)) (\<lambda>realized.
                Inr (m1\<lparr>mk_cash := cash, mk_realized := realized,
                  mk_ledger := ledger_append
                    \<lparr>transaction_id = ids (length (mk_settled m)), tx_timestamp = t,
                     tx_account_id = acct, tx_type = VARIATION_MARGIN, tx_asset_id = a,
                     tx_quantity = pos_quantity p, tx_price = price, tx_commission = commission_zero,
                     tx_currency = ?c, tx_metadata = []\<rparr> (mk_ledger m),
                  mk_settled := mk_settled m @ [VariationSettled t acct a price x ?c]\<rparr>)))) = Inr m'"
      using run unfolding mark_one_def by (simp add: Some) (elim rbind_InrE, auto split: if_splits elim!: rbind_InrE)
    have price: "is_finite price" using admits_price_finite [OF st(1)] .
    have B: "book_fits units (mk_positions m)" "money_ok units (mk_cash m) (mk_realized m) commission"
      using ok by (simp_all add: marking_ok_def)
    obtain v where v: "minor_units units ?c = Inr v" "held_ok v p"
      using B(1) old by (auto simp: book_fits_def position_fits_def)
    have vr: "unit_range v" using minor_units_unit_range [OF units v(1)] .
    note S = settle_result [OF v(2) price st(2)]
    note fr = settle_frame [OF st(2)]
    have cur: "pos_currency p' = ?c" using fr by (simp add: same_frame_def)
    have fits: "book_fits units b" using book_fits_set [OF B(1) S(1) _ st(3)] v(1) cur by simp
    have bp: "bk_positions b = od_set a p' (bk_positions (mk_positions m))" using book_set_positions [OF st(3)] by simp
    have odok: "od_ok (bk_positions (mk_positions m))" using B(1) by (simp add: book_fits_def book_sound_def)
    have inv: "invested c b = invested c (mk_positions m)"
      using invested_set [OF odok bp, of c] old S(3,4) same_frame_pays [OF fr] cur
      by (auto simp: pays_in_def signed_basis_def)
    have keep: "a' \<noteq> a \<longrightarrow> od_get (bk_positions b) a' = od_get (bk_positions (mk_positions m)) a'" by (simp add: bp)
    show ?thesis
    proof (cases "dec_eq x dec_zero")
      case True
      with tail have "m' = m\<lparr>mk_positions := b, mk_marked := od_set a price (mk_marked m)\<rparr>" by simp
      with fits B keep inv show ?thesis by (simp add: marking_ok_def cash_identity_def)
    next
      case False
      with tail obtain cash realized tx ev where cr: "cash_settle ?A x ?c (mk_cash m) = Inr cash"
          "amounts_add x ?c (mk_realized m) = Inr realized"
          and m'': "m' = m\<lparr>mk_positions := b, mk_marked := od_set a price (mk_marked m), mk_cash := cash,
            mk_realized := realized, mk_ledger := tx, mk_settled := ev\<rparr>" by (auto simp: Let_def rbind_eq_Inr)
      note M = money_okD [OF B(2) v(1)]
      note C = cash_settle_moved [OF cr(1) M(1) S(2) vr, unfolded cash_moved_def]
      note R = amounts_add_moved [OF cr(2) M(2) S(2) vr]
      have "money_ok units cash realized commission"
        using money_ok_move [OF B(2) v(1)] C R(1,2) M(3) by blast
      moreover have "minor_units units c = Inr u \<longrightarrow> cash_identity c net (mk_cash m) (mk_positions m) (mk_realized m) commission \<longrightarrow>
          small u (cash_balance cash c) \<longrightarrow> small u (amounts_of realized c) \<longrightarrow>
          cash_identity c net cash b realized commission"
      proof (cases "c = ?c")
        case True
        then show ?thesis using C R(3) inv small_less v(1) by (auto simp: cash_identity_def)
      next
        case False
        then show ?thesis using C R(1) inv by (simp add: cash_identity_def)
      qed
      ultimately show ?thesis using fits keep by (simp add: m'' marking_ok_def)
    qed
  qed
  show "marking_ok units commission m'"
    and "a' \<noteq> a \<Longrightarrow> od_get (bk_positions (mk_positions m')) a' = od_get (bk_positions (mk_positions m)) a'"
    and "minor_units units c = Inr u \<Longrightarrow> cash_identity c net (mk_cash m) (mk_positions m) (mk_realized m) commission \<Longrightarrow>
      small u (cash_balance (mk_cash m') c) \<Longrightarrow> small u (amounts_of (mk_realized m') c) \<Longrightarrow>
      cash_identity c net (mk_cash m') (mk_positions m') (mk_realized m') commission"
    using all by blast+
qed

text \<open>A condition met after every pass of a loop whose body may raise.\<close>

fun loop_all :: "('s \<Rightarrow> bool) \<Rightarrow> ('s \<Rightarrow> 'a \<Rightarrow> 's res) \<Rightarrow> 's \<Rightarrow> 'a list \<Rightarrow> bool" where
  "loop_all Q f s [] = True"
| "loop_all Q f s (x # xs) = (case f s x of Inl e \<Rightarrow> True | Inr s' \<Rightarrow> Q s' \<and> loop_all Q f s' xs)"

definition marking_small :: "int \<Rightarrow> string \<Rightarrow> marking \<Rightarrow> bool" where
  "marking_small u c m = (small u (cash_balance (mk_cash m) c) \<and> small u (amounts_of (mk_realized m) c))"

lemma mark_one_events:
  "mark_one ids acct prices t m h = Inr m' \<Longrightarrow> net_deposits c (mk_settled m') = net_deposits c (mk_settled m)"
  by (cases h) (auto simp: mark_one_def rbind_eq_Inr Let_def split: option.splits if_splits)

lemma mark_loop:
  assumes units: "units_ok units"
    and "rfold (mark_one ids acct prices t) m held = Inr m'" "marking_ok units commission m"
    and "distinct (map fst held)" "\<And>a p. (a, p) \<in> set held \<Longrightarrow> od_get (bk_positions (mk_positions m)) a = Some p"
  shows "marking_ok units commission m' \<and> net_deposits c' (mk_settled m') = net_deposits c' (mk_settled m) \<and>
    (minor_units units c = Inr u \<longrightarrow> loop_all (marking_small u c) (mark_one ids acct prices t) m held \<longrightarrow>
     cash_identity c net (mk_cash m) (mk_positions m) (mk_realized m) commission \<longrightarrow>
     cash_identity c net (mk_cash m') (mk_positions m') (mk_realized m') commission)"
  using assms(2-)
proof (induction held arbitrary: m)
  case (Cons h held)
  obtain a p where h: "h = (a, p)" by (cases h)
  obtain m1 where m1: "mark_one ids acct prices t m (a, p) = Inr m1"
      and rest: "rfold (mark_one ids acct prices t) m1 held = Inr m'"
    using Cons.prems(1) by (auto simp: h rbind_eq_Inr)
  have old: "od_get (bk_positions (mk_positions m)) a = Some p" using Cons.prems(4) by (simp add: h)
  note M = mark_one_step [OF units Cons.prems(2) old m1]
  have "od_get (bk_positions (mk_positions m1)) a' = Some p'" if "(a', p') \<in> set held" for a' p'
  proof -
    have "a' \<noteq> a" using that Cons.prems(3) by (auto simp: h image_iff)
    with M(2) [of a'] Cons.prems(4) that show ?thesis by simp
  qed
  moreover have "distinct (map fst held)" using Cons.prems(3) by simp
  ultimately have I: "marking_ok units commission m' \<and> net_deposits c' (mk_settled m') = net_deposits c' (mk_settled m1) \<and>
    (minor_units units c = Inr u \<longrightarrow> loop_all (marking_small u c) (mark_one ids acct prices t) m1 held \<longrightarrow>
     cash_identity c net (mk_cash m1) (mk_positions m1) (mk_realized m1) commission \<longrightarrow>
     cash_identity c net (mk_cash m') (mk_positions m') (mk_realized m') commission)"
    using Cons.IH [OF rest M(1)] by blast
  have one: "minor_units units c = Inr u \<Longrightarrow> marking_small u c m1 \<Longrightarrow>
      cash_identity c net (mk_cash m) (mk_positions m) (mk_realized m) commission \<Longrightarrow>
      cash_identity c net (mk_cash m1) (mk_positions m1) (mk_realized m1) commission"
    using M(3) [of c u net] by (simp add: marking_small_def)
  have ev: "net_deposits c' (mk_settled m1) = net_deposits c' (mk_settled m)" by (rule mark_one_events [OF m1])
  have la: "loop_all (marking_small u c) (mark_one ids acct prices t) m (h # held) \<Longrightarrow>
      marking_small u c m1 \<and> loop_all (marking_small u c) (mark_one ids acct prices t) m1 held"
    by (simp add: h m1)
  show ?case using I one ev la by argo
qed simp

definition start_marking :: "portfolio_state \<Rightarrow> marking" where
  "start_marking s = \<lparr>mk_positions = pf_positions s, mk_marked = [], mk_cash = pf_cash s, mk_realized = pf_realized s,
     mk_ledger = pf_ledger s, mk_settled = []\<rparr>"

definition marks_small ::
  "int \<Rightarrow> string \<Rightarrow> (nat \<Rightarrow> string) \<Rightarrow> (string, decimal) od \<Rightarrow> pyfloat \<Rightarrow> portfolio_state \<Rightarrow> (string \<times> position) list \<Rightarrow> bool" where
  "marks_small u c ids prices t s held =
     loop_all (marking_small u c) (mark_one ids (account_id (pf_account s)) prices t) (start_marking s) held"

definition identity_holds :: "string \<Rightarrow> portfolio_state \<Rightarrow> bool" where
  "identity_holds c s =
     cash_identity c (net_deposits c (pf_events s)) (pf_cash s) (pf_positions s) (pf_realized s) (pf_commission s)"

lemma marked_sound:
  assumes ok: "pf_ok s" and run: "marked ids s held prices t = Inr s'"
    and held: "distinct (map fst held)" "\<And>a p. (a, p) \<in> set held \<Longrightarrow> od_get (bk_positions (pf_positions s)) a = Some p"
  shows "pf_ok s'" "pf_account s' = pf_account s"
    "minor_units (units_of s) c = Inr u \<Longrightarrow> marks_small u c ids prices t s held \<Longrightarrow> identity_holds c s \<Longrightarrow> identity_holds c s'"
proof -
  note P = ok [unfolded pf_ok_def]
  obtain m where m: "rfold (mark_one ids (account_id (pf_account s)) prices t) (start_marking s) held = Inr m"
      and s': "s' = (if mk_marked m = [] then s else s\<lparr>pf_positions := mk_positions m,
       pf_pending_marks := pending_with (pf_pending_marks s) [] (od_keys (mk_marked m)),
       pf_cash := mk_cash m, pf_realized := mk_realized m, pf_ledger := mk_ledger m,
       pf_events := (pf_events s @ [MarketValueUpdated t (account_id (pf_account s)) (mk_marked m)]) @ mk_settled m\<rparr>)"
    using run by (auto simp: marked_def start_marking_def rbind_eq_Inr split: if_splits)
  have m0: "marking_ok (units_of s) (pf_commission s) (start_marking s)"
    using P by (simp add: marking_ok_def start_marking_def)
  have L: "marking_ok (units_of s) (pf_commission s) m \<and> net_deposits c (mk_settled m) = net_deposits c (mk_settled (start_marking s)) \<and>
    (minor_units (units_of s) c = Inr u \<longrightarrow> marks_small u c ids prices t s held \<longrightarrow>
     cash_identity c (net_deposits c (pf_events s)) (pf_cash s) (pf_positions s) (pf_realized s) (pf_commission s) \<longrightarrow>
     cash_identity c (net_deposits c (pf_events s)) (mk_cash m) (mk_positions m) (mk_realized m) (pf_commission s))"
    using mark_loop [OF conjunct1 [OF P] m m0 held(1), of c c u "net_deposits c (pf_events s)"] held(2)
    by (simp add: start_marking_def marks_small_def)
  show "pf_ok s'" using ok L by (auto simp: s' pf_ok_def marking_ok_def)
  show "pf_account s' = pf_account s" by (simp add: s')
  show "minor_units (units_of s) c = Inr u \<Longrightarrow> marks_small u c ids prices t s held \<Longrightarrow> identity_holds c s \<Longrightarrow> identity_holds c s'"
    using L by (simp add: s' identity_holds_def start_marking_def)
qed

section \<open>Fills\<close>

text \<open>The trade's money is the position's own total: the cash side and the basis never disagree.\<close>

lemma trade_value_total:
  assumes "held_ok u p" "units_ok units" "minor_units units c = Inr u" "pays_notional p"
    and "trade_value p q price c units = Inr tv" "trade_total q price p = Inr paid"
  shows "tv = paid"
proof -
  have fr: "frame_ok u p" using held_frame [OF assms(1)] .
  have ur: "unit_range u" and mu: "pos_minor_units p = Some u" using fr by (simp_all add: frame_ok_def)
  have q: "quantum units c = Inr (Fin 1 (- u))" using quantum_eq [OF assms(2,3)] .
  have rm: "round_money units x c = pos_money p x" for x
    using quantum_of_units [OF ur] by (simp add: round_money_def pos_money_def mu q)
  show ?thesis
    using assms(4-6) by (auto simp: trade_value_def trade_total_def notional_def to_money_def rm scaled_def
      pos_multiplier_def rbind_eq_Inr split: option.splits if_splits)
qed

lemma position_held:
  "book_fits units b \<Longrightarrow> od_get (bk_positions b) a = Some p \<Longrightarrow> minor_units units (pos_currency p) = Inr u \<Longrightarrow>
   held_ok u p"
  unfolding book_fits_def position_fits_def by (metis sum.inject(2))

lemma fill_positionD:
  assumes run: "fill_position asset q price comm t c economics final s = Inr (pos, comm')"
    and ok: "pf_ok s" and q: "fits ACCOUNTING_CONTEXT q"
    and e: "\<And>e. economics = Some e \<Longrightarrow> economics_ok e"
  obtains u where "minor_units (units_of s) c = Inr u" "unit_range u" "held_ok u pos" "pos_currency pos = c"
    "at_unit u comm'" "is_finite q" "is_finite price" "dval q \<noteq> 0"
    "od_get (bk_positions (pf_positions s)) asset = Some pos \<or>
     od_get (bk_positions (pf_positions s)) asset = None \<and> signed_basis pos = 0"
proof -
  note P = ok [unfolded pf_ok_def]
  let ?d = "declared_economics economics"
  obtain minor where fin: "is_finite q" "is_finite price" "is_finite comm" and nz: "\<not> dec_eq q dec_zero"
      and u: "minor_units (units_of s) c = Inr minor" and cm: "to_money comm c (units_of s) = Inr comm'"
      and pos: "(case book_get (pf_positions s) asset of Some held \<Rightarrow> Inr held
                 | None \<Rightarrow> make_position (fresh_position asset price c t minor ?d)) = Inr pos"
      and cur: "pos_currency pos = c"
    using run by (auto simp: fill_position_def require_finite_def Let_def rbind_eq_Inr split: if_splits)
  have ur: "unit_range minor" using minor_units_unit_range [OF _ u] P by blast
  have cu: "at_unit minor comm'" using to_money_at_unit [OF cm _ u fin(3)] P by blast
  have "held_ok minor pos \<and> (od_get (bk_positions (pf_positions s)) asset = Some pos \<or>
     od_get (bk_positions (pf_positions s)) asset = None \<and> signed_basis pos = 0)"
  proof (cases "book_get (pf_positions s) asset")
    case None
    then have p: "pos = fresh_position asset price c t minor ?d"
      using pos by (auto simp: make_position_def fresh_position_def split: if_splits)
    have "case ?d of None \<Rightarrow> True | Some e \<Rightarrow> economics_ok e"
      using e by (auto simp: declared_economics_def split: option.splits)
    then show ?thesis using None ur fin
      by (simp add: p fresh_position_def held_ok_def fresh_ok_def frame_ok_def signed_basis_def kept_basis_def book_get_def)
  next
    case (Some held)
    with pos have "od_get (bk_positions (pf_positions s)) asset = Some pos" by (simp add: book_get_def)
    moreover from this have "held_ok minor pos" using P u cur by (auto intro: position_held)
    ultimately show ?thesis by simp
  qed
  with u ur cur cu fin nz that show thesis by auto
qed

lemma booked_position_book:
  assumes run: "booked_position acct a t q price pnl pos new b = Inr (b', ev)"
    and fits: "book_fits units b" and new: "held_ok u new" "minor_units units (pos_currency new) = Inr u"
    and pos: "od_get (bk_positions b) a = Some pos \<or> od_get (bk_positions b) a = None \<and> signed_basis pos = 0"
    and q: "is_finite (pos_quantity new)" and flat: "dval (pos_quantity new) = 0 \<Longrightarrow> signed_basis new = 0"
  shows "book_fits units b'"
    and "invested c b' = invested c b - (if pays_in c pos then signed_basis pos else 0) +
      (if pays_in c new then signed_basis new else 0)"
    and "event_deposit c ev = 0"
    and "od_get (bk_positions b') a = Some new \<or> dval (pos_quantity new) = 0"
proof -
  have odok: "od_ok (bk_positions b)" using fits by (simp add: book_fits_def book_sound_def)
  have all: "book_fits units b' \<and> invested c b' = invested c b - (if pays_in c pos then signed_basis pos else 0) +
      (if pays_in c new then signed_basis new else 0) \<and> event_deposit c ev = 0 \<and>
      (od_get (bk_positions b') a = Some new \<or> dval (pos_quantity new) = 0)"
  proof (cases "dec_eq (pos_quantity new) dec_zero")
    case True
    then have d: "book_delete ACCOUNTING_CONTEXT a b = Inr b'" "event_deposit c ev = 0"
      using run by (auto simp: booked_position_def rbind_eq_Inr)
    have z: "dval (pos_quantity new) = 0" using True q by simp
    have "bk_positions b' = od_del a (bk_positions b)" using book_delete_ok(2) [OF _ d(1)] fits by (simp add: book_fits_def)
    from invested_del [OF odok this, of c] book_fits_del [OF fits d(1)] pos d(2) z flat show ?thesis by auto
  next
    case False
    then have st: "book_set ACCOUNTING_CONTEXT a new b = Inr b'" "event_deposit c ev = 0"
      using run by (auto simp: booked_position_def rbind_eq_Inr split: if_splits)
    have bp: "bk_positions b' = od_set a new (bk_positions b)" using book_set_positions [OF st(1)] by simp
    from invested_set [OF odok bp, of c] book_fits_set [OF fits new st(1)] pos st(2) bp show ?thesis by auto
  qed
  then show "book_fits units b'"
    and "invested c b' = invested c b - (if pays_in c pos then signed_basis pos else 0) +
      (if pays_in c new then signed_basis new else 0)"
    and "event_deposit c ev = 0"
    and "od_get (bk_positions b') a = Some new \<or> dval (pos_quantity new) = 0" by blast+
qed

lemma fill_cash_moved:
  assumes run: "fill_cash p q pnl impact c financed l = Inr l'"
    and l: "at_unit u (cash_balance l c)" and m: "at_unit u pnl" "at_unit u impact" "exact_number impact" "unit_range u"
  obtains l1 where "cash_moved u c (dval impact) l1 l'"
    "if pays_notional p then l1 = l else cash_moved u c (dval pnl) l l1"
proof -
  obtain l1 where l1: "(if \<not> pays_notional p \<and> \<not> dec_eq pnl dec_zero
      then cash_settle ACCOUNTING_CONTEXT pnl c l else Inr l) = Inr l1"
    and rest: "rbind (covering p q) (\<lambda>cover.
     rbind (dec_lt dec_zero impact) (\<lambda>received.
     rbind (dec_lt impact dec_zero) (\<lambda>paid.
       if received then cash_deposit ACCOUNTING_CONTEXT impact c l1
       else if paid \<and> (cover \<or> financed) then cash_settle ACCOUNTING_CONTEXT impact c l1
       else if paid then rbind (dec_neg ACCOUNTING_CONTEXT impact) (\<lambda>cost.
         cash_withdraw ACCOUNTING_CONTEXT cost c l1)
       else Inr l1))) = Inr l'"
    using run by (auto simp: fill_cash_def rbind_eq_Inr)
  have first: "if pays_notional p then l1 = l else cash_moved u c (dval pnl) l l1"
  proof (cases "pays_notional p")
    case True
    with l1 show ?thesis by simp
  next
    case False
    show ?thesis
    proof (cases "dec_eq pnl dec_zero")
      case True
      then have "dval pnl = 0" using m(1) by simp
      with l1 True False l show ?thesis by (simp add: cash_moved_refl)
    next
      case nz: False
      with l1 False have "cash_settle ACCOUNTING_CONTEXT pnl c l = Inr l1" by simp
      from cash_settle_moved [OF this l m(1,4)] False show ?thesis by simp
    qed
  qed
  have at: "at_unit u (cash_balance l1 c)" using first l by (cases "pays_notional p") (simp_all add: cash_moved_def)
  have fin: "is_finite impact" using m(2) by simp
  have neg: "dec_neg ACCOUNTING_CONTEXT impact = Inr (dec_neg_exact impact)"
    using m(3) by (simp add: exact_number_def dec_neg_fits)
  have na: "at_unit u (dec_neg_exact impact)" using m(2) by simp
  obtain cover where "(if 0 < dval impact then cash_deposit ACCOUNTING_CONTEXT impact c l1
       else if dval impact < 0 \<and> (cover \<or> financed) then cash_settle ACCOUNTING_CONTEXT impact c l1
       else if dval impact < 0 then cash_withdraw ACCOUNTING_CONTEXT (dec_neg_exact impact) c l1
       else Inr l1) = Inr l'"
    using rest fin by (auto simp: rbind_eq_Inr neg cong: if_cong)
  then have "cash_moved u c (dval impact) l1 l'"
    using cash_deposit_moved [OF _ at m(2,4), of l'] cash_settle_moved [OF _ at m(2,4), of l']
      cash_withdraw_moved [OF _ at na m(4), of l'] cash_moved_refl [OF at]
    by (auto split: if_splits)
  with first that show thesis by blast
qed

lemma fill_impact_money:
  assumes run: "fill_impact q tv comm = Inr x" and q: "is_finite q"
    and m: "at_unit u tv" "exact_number tv" "at_unit u comm" "unit_range u"
  shows "at_unit u x" "exact_number x"
    "\<bar>dval x\<bar> < 10 powi (34 - u) \<Longrightarrow> dval x = (if dval q < 0 then dval tv else - dval tv) - dval comm"
    "\<bar>(if dval q < 0 then dval tv else - dval tv) - dval comm\<bar> < 10 powi (34 - u) \<Longrightarrow>
      dval x = (if dval q < 0 then dval tv else - dval tv) - dval comm"
proof -
  obtain y where y: "(if dval q < 0 then Inr tv else dec_neg ACCOUNTING_CONTEXT tv) = Inr y"
      "dec_sub ACCOUNTING_CONTEXT y comm = Inr x"
    using run q by (auto simp: fill_impact_def rbind_eq_Inr)
  have yv: "y = (if dval q < 0 then tv else dec_neg_exact tv)"
    using y(1) m(2) by (auto simp: exact_number_def dec_neg_fits split: if_splits)
  then have ya: "at_unit u y" "dval y = (if dval q < 0 then dval tv else - dval tv)" using m(1) by auto
  show "at_unit u x" using at_unit_sub [OF y(2) ya(1) m(3)] m(4) by simp
  show "exact_number x" using dec_sub_exact_number [OF y(2)] ya(1) m(3) by simp
  show "\<bar>dval x\<bar> < 10 powi (34 - u) \<Longrightarrow> dval x = (if dval q < 0 then dval tv else - dval tv) - dval comm"
    using sub_small_exact [OF y(2) ya(1) m(3,4)] ya(2) by simp
  show "\<bar>(if dval q < 0 then dval tv else - dval tv) - dval comm\<bar> < 10 powi (34 - u) \<Longrightarrow>
      dval x = (if dval q < 0 then dval tv else - dval tv) - dval comm"
    using sub_small_ok [OF ya(1) m(3,4)] y(2) unfolding ya(2) by (metis sum.inject(2))
qed

text \<open>Amounts bounded by their difference and one of them.\<close>

lemma three_small: "\<bar>a\<bar> < 10 powi (33 - u) \<Longrightarrow> \<bar>b\<bar> < 10 powi (33 - u) \<Longrightarrow> \<bar>x\<bar> < 10 powi (33 - u) \<Longrightarrow>
    \<bar>y\<bar> < 10 powi (33 - u) \<Longrightarrow> \<bar>a - b - (x - y)\<bar> < 10 powi (34 - u)" for a :: rat
  unfolding ten_small [of u, symmetric] by linarith

lemma make_state_fields [simp]:
  "pf_account (make_state s) = pf_account s" "pf_cash (make_state s) = pf_cash s"
  "pf_positions (make_state s) = pf_positions s" "pf_events (make_state s) = pf_events s"
  "pf_realized (make_state s) = pf_realized s" "pf_commission (make_state s) = pf_commission s"
  "pf_ledger (make_state s) = pf_ledger s" "pf_unsettled (make_state s) = pf_unsettled s"
  by (simp_all add: make_state_def)

lemma apply_fillE:
  assumes "apply_fill tid a q price comm t c economics final settles financed s = Inr s'"
  obtains pos comm' tv new pnl b ev impact cash realized paid where
    "fill_position a q price comm t c economics final s = Inr (pos, comm')"
    "trade_value pos q price c (units_of s) = Inr tv" "pos_apply_fill q price t pos = Inr (new, pnl)"
    "booked_position (account_id (pf_account s)) a t q price pnl pos new (pf_positions s) = Inr (b, ev)"
    "fill_impact q tv comm' = Inr impact" "fill_cash pos q pnl impact c financed (pf_cash s) = Inr cash"
    "amounts_add pnl c (pf_realized s) = Inr realized" "amounts_add comm' c (pf_commission s) = Inr paid"
    "pf_account s' = pf_account s" "pf_cash s' = cash" "pf_positions s' = b" "pf_events s' = pf_events s @ [ev]"
    "pf_realized s' = realized" "pf_commission s' = paid"
proof -
  obtain pos comm' tv new pnl b ev impact cash buys sc realized paid where run:
    "fill_position a q price comm t c economics final s = Inr (pos, comm')"
    "trade_value pos q price c (units_of s) = Inr tv" "pos_apply_fill q price t pos = Inr (new, pnl)"
    "booked_position (account_id (pf_account s)) a t q price pnl pos new (pf_positions s) = Inr (b, ev)"
    "fill_impact q tv comm' = Inr impact" "fill_cash pos q pnl impact c financed (pf_cash s) = Inr cash"
    "amounts_add pnl c (pf_realized s) = Inr realized" "amounts_add comm' c (pf_commission s) = Inr paid"
    and s': "s' = make_state \<lparr>pf_account = pf_account s, pf_cash = cash, pf_positions = b,
         pf_ledger = ledger_append (fill_tx tid t s a q price comm' c buys settles sc) (pf_ledger s),
         pf_events = pf_events s @ [ev], pf_realized = realized, pf_commission = paid,
         pf_pending_marks = fill_marks a b (pf_pending_marks s),
         pf_unsettled = fill_unsettled (fill_tx tid t s a q price comm' c buys settles sc) sc settles (pf_unsettled s)\<rparr>"
    using assms unfolding apply_fill_def Let_def
    by (elim rbind_InrE) (auto elim!: rbind_InrE)
  show thesis by (rule that [OF run]) (simp_all add: s')
qed

lemma apply_fill_sound:
  assumes ok: "pf_ok s" and q34: "fits ACCOUNTING_CONTEXT q" and e: "\<And>e. economics = Some e \<Longrightarrow> economics_ok e"
    and run: "apply_fill tid a q price comm t c economics final settles financed s = Inr s'"
  shows "sound_step s s'"
proof -
  let ?A = ACCOUNTING_CONTEXT
  note P = ok [unfolded pf_ok_def]
  obtain pos comm' tv new pnl b ev impact cash realized paid where st:
    "fill_position a q price comm t c economics final s = Inr (pos, comm')"
    "trade_value pos q price c (units_of s) = Inr tv" "pos_apply_fill q price t pos = Inr (new, pnl)"
    "booked_position (account_id (pf_account s)) a t q price pnl pos new (pf_positions s) = Inr (b, ev)"
    "fill_impact q tv comm' = Inr impact" "fill_cash pos q pnl impact c financed (pf_cash s) = Inr cash"
    "amounts_add pnl c (pf_realized s) = Inr realized" "amounts_add comm' c (pf_commission s) = Inr paid"
    and s': "pf_account s' = pf_account s" "pf_cash s' = cash" "pf_positions s' = b" "pf_events s' = pf_events s @ [ev]"
    "pf_realized s' = realized" "pf_commission s' = paid"
    by (rule apply_fillE [OF run])
  obtain u where u: "minor_units (units_of s) c = Inr u" "unit_range u" "held_ok u pos" "pos_currency pos = c"
    "at_unit u comm'" "is_finite q" "is_finite price" "dval q \<noteq> 0"
    and place: "od_get (bk_positions (pf_positions s)) a = Some pos \<or>
     od_get (bk_positions (pf_positions s)) a = None \<and> signed_basis pos = 0"
    using fill_positionD [OF st(1) ok q34 e] by blast
  have uo: "units_ok (units_of s)" and bf: "book_fits (units_of s) (pf_positions s)" using P by simp_all
  have fr: "same_frame pos new" using fill_frame [OF st(3)] .
  have cur: "pos_currency new = c" and pays: "pays_notional new = pays_notional pos"
    using fr u(4) by (simp_all add: same_frame_def same_frame_pays)
  have new: "pos_ok u new \<and> at_unit u pnl \<and> (dval (pos_quantity new) = 0 \<longrightarrow> dval (kept_basis new) = 0) \<and>
      at_unit u tv \<and> exact_number tv \<and>
      (pays_notional pos \<longrightarrow> fill_result u pos (if 0 < dval q then dval tv else - dval tv) new pnl) \<and>
      (\<not> pays_notional pos \<longrightarrow> dval tv = 0)"
  proof (cases "pays_notional pos")
    case True
    obtain total where total: "trade_total q price pos = Inr total" "at_unit u total"
        "fill_result u pos (if 0 < dval q then dval total else - dval total) new pnl"
      using fill_paid_result [OF u(3) True u(6) q34 u(8,7) st(3)] by blast
    have tv: "tv = total" using trade_value_total [OF u(3) uo u(1) True st(2) total(1)] .
    have "exact_number total"
    proof -
      obtain x y z where "dec_abs ?A q = Inr x" "dec_mul ?A x price = Inr y" "scaled pos y = Inr z" "pos_money pos z = Inr total"
        using total(1) by (auto simp: trade_total_def rbind_eq_Inr)
      moreover from this have "is_finite z"
        using scaled_finite [OF held_frame [OF u(3)] dec_mul_finite [OF dec_abs_finite [OF u(6)] u(7)]] by blast
      ultimately show ?thesis using pos_money_exact [OF held_frame [OF u(3)]] by blast
    qed
    with total True show ?thesis by (simp add: tv fill_result_def)
  next
    case False
    have "tv = ZERO_MONEY" using st(2) False by (simp add: trade_value_def)
    with fill_settled_result [OF u(3) False u(6) q34 u(8,7) st(3)] False u(2) show ?thesis by auto
  qed
  have hn: "held_ok u new" using new by (simp add: held_ok_def)
  have nq: "is_finite (pos_quantity new)" using new pos_okD by blast
  have flat: "dval (pos_quantity new) = 0 \<Longrightarrow> signed_basis new = 0" using new by (simp add: signed_basis_def)
  have mnew: "minor_units (units_of s) (pos_currency new) = Inr u" by (simp add: cur u(1))
  note BK = booked_position_book [OF st(4) bf hn mnew place nq flat]
  have nt: "at_unit u tv" "exact_number tv" "at_unit u pnl" using new by blast+
  note IM = fill_impact_money [OF st(5) u(6) nt(1,2) u(5,2)]
  have mo: "money_ok (units_of s) (pf_cash s) (pf_realized s) (pf_commission s)" using P by simp
  note M = money_okD [OF mo u(1)]
  obtain l1 where l1: "cash_moved u c (dval impact) l1 cash"
      "if pays_notional pos then l1 = pf_cash s else cash_moved u c (dval pnl) (pf_cash s) l1"
    using fill_cash_moved [OF st(6) M(1) nt(3) IM(1,2) u(2)] .
  note R = amounts_add_moved [OF st(7) M(2) nt(3) u(2)]
  note C = amounts_add_moved [OF st(8) M(3) u(5,2)]
  have others: "c' \<noteq> c \<Longrightarrow> cash_balance cash c' = cash_balance (pf_cash s) c'" for c'
    using l1 by (cases "pays_notional pos") (simp_all add: cash_moved_def)
  have "money_ok (units_of s) cash realized paid"
    by (rule money_ok_move [OF mo u(1)]) (use others l1(1) R(1,2) C(1,2) in \<open>simp_all add: cash_moved_def\<close>)
  then have ok': "pf_ok s'" using uo BK(1) by (simp add: pf_ok_def s')
  have "keeps_identity u' c' s s'" if u': "minor_units (units_of s) c' = Inr u'" for u' c'
  proof (cases "c' = c")
    case False
    have "\<not> pays_in c' pos" "\<not> pays_in c' new" using False u(4) cur by (simp_all add: pays_in_def)
    with False others [of c'] R(1) C(1) BK(2) [of c'] BK(3) [of c'] show ?thesis
      by (simp add: keeps_identity_def cash_identity_def s')
  next
    case True
    with u' u have uu: "u' = u" by simp
    show ?thesis unfolding keeps_identity_def uu True
    proof (intro impI)
      assume small0: "money_small u c (pf_cash s) (pf_positions s) (pf_realized s) (pf_commission s)"
        and small1: "money_small u c (pf_cash s') (pf_positions s') (pf_realized s') (pf_commission s')"
        and id: "cash_identity c (net_deposits c (pf_events s)) (pf_cash s) (pf_positions s) (pf_realized s) (pf_commission s)"
      note S0 = small0 [unfolded money_small_def] and S1 = small1 [unfolded money_small_def s']
      have r: "dval (amounts_of realized c) = dval (amounts_of (pf_realized s) c) + dval pnl"
        using R(3) S1 small_less by blast
      have cm: "dval (amounts_of paid c) = dval (amounts_of (pf_commission s) c) + dval comm'"
        using C(3) S1 small_less by blast
      have ca: "dval (cash_balance cash c) = dval (cash_balance l1 c) + dval impact"
        using l1(1) S1 small_less by (simp add: cash_moved_def)
      have bounds: "\<bar>dval (cash_balance cash c)\<bar> < 10 powi (33 - u)" "\<bar>dval (cash_balance (pf_cash s) c)\<bar> < 10 powi (33 - u)"
          "\<bar>dval (amounts_of realized c)\<bar> < 10 powi (33 - u)" "\<bar>dval (amounts_of (pf_realized s) c)\<bar> < 10 powi (33 - u)"
          "\<bar>dval (amounts_of paid c)\<bar> < 10 powi (33 - u)" "\<bar>dval (amounts_of (pf_commission s) c)\<bar> < 10 powi (33 - u)"
        using S0 S1 by (simp_all add: small_def)
      show "cash_identity c (net_deposits c (pf_events s')) (pf_cash s') (pf_positions s') (pf_realized s') (pf_commission s')"
      proof (cases "pays_notional pos")
        case True
        then have "pays_in c pos" "pays_in c new" using u(4) cur pays by (simp_all add: pays_in_def)
        then have iv: "invested c b = invested c (pf_positions s) - signed_basis pos + signed_basis new"
          using BK(2) [of c] by simp
        have "small u (kept_basis pos)"
          using place
        proof
          assume "od_get (bk_positions (pf_positions s)) a = Some pos"
          then show ?thesis using S0 u(4) by blast
        next
          assume "od_get (bk_positions (pf_positions s)) a = None \<and> signed_basis pos = 0"
          then have "dval (kept_basis pos) = 0" by (simp add: signed_basis_def split: if_splits)
          then show ?thesis by (simp add: small_def)
        qed
        moreover have "small u (kept_basis new)"
          using BK(4)
        proof
          assume "od_get (bk_positions b) a = Some new"
          then show ?thesis using S1 cur by blast
        next
          assume "dval (pos_quantity new) = 0"
          then have "dval (kept_basis new) = 0" using new by blast
          then show ?thesis by (simp add: small_def)
        qed
        moreover have "below u pnl"
          using three_small [OF bounds(3,4) bounds(3) bounds(3)] r by simp
        ultimately have sb: "signed_basis new = signed_basis pos + (if 0 < dval q then dval tv else - dval tv) + dval pnl"
          using new True unfolding fill_result_def by blast
        have "below u impact" using three_small [OF bounds(1,2) bounds(1) bounds(1)] ca l1(2) True by simp
        then have "dval impact = (if dval q < 0 then dval tv else - dval tv) - dval comm'" by (rule IM(3))
        with sb ca iv r cm id l1(2) True u(8) BK(3) [of c] show ?thesis
          by (auto simp: cash_identity_def s' split: if_splits)
      next
        case False
        then have "\<not> pays_in c pos" "\<not> pays_in c new" using pays by (simp_all add: pays_in_def)
        then have iv: "invested c b = invested c (pf_positions s)" using BK(2) [of c] by simp
        have tz: "dval tv = 0" using new False by blast
        have "\<bar>- dval comm'\<bar> < 10 powi (34 - u)" using three_small [OF bounds(6,5) bounds(5) bounds(5)] cm by simp
        then have im: "dval impact = - dval comm'" using IM(4) tz by simp
        then have "dval (cash_balance l1 c) = dval (cash_balance cash c) - 0 - (dval (amounts_of (pf_commission s) c) - dval (amounts_of paid c))"
          using ca cm by simp
        then have "below u (cash_balance l1 c)" using three_small [OF bounds(1) _ bounds(6,5), of 0] by simp
        then have "dval (cash_balance l1 c) = dval (cash_balance (pf_cash s) c) + dval pnl"
          using l1(2) False by (simp add: cash_moved_def)
        with im ca iv r cm id BK(3) [of c] show ?thesis by (simp add: cash_identity_def s')
      qed
    qed
  qed
  with ok' show ?thesis by (simp add: sound_step_def s')
qed

section \<open>Every state the engine reaches\<close>

datatype pf_op =
    Deposit_op string decimal string pyfloat
  | Withdraw_op string decimal string pyfloat
  | Fill_op string string decimal decimal decimal pyfloat string "instrument_economics option" bool "pyfloat option" bool
  | Mark_op "nat \<Rightarrow> string" "(string, decimal) od" pyfloat
  | Mark_changed_op "nat \<Rightarrow> string" "(string, decimal) od" pyfloat "string option"
  | Accrue_op string string decimal string pyfloat
  | Close_accrual_op string string decimal string pyfloat
  | Flow_op string cash_flow pyfloat
  | Split_op holding_split pyfloat

fun pf_step :: "pf_op \<Rightarrow> portfolio_state \<Rightarrow> portfolio_state res" where
  "pf_step (Deposit_op tid x c t) s = apply_deposit tid x c t s"
| "pf_step (Withdraw_op tid x c t) s = apply_withdrawal tid x c t s"
| "pf_step (Fill_op tid a q pr comm t c e final settles financed) s =
     apply_fill tid a q pr comm t c e final settles financed s"
| "pf_step (Mark_op ids prices t) s = update_market_prices ids prices t s"
| "pf_step (Mark_changed_op ids prices t ch) s = mark_changed ids prices t ch s"
| "pf_step (Accrue_op tid key x c t) s = Inr (record_accrual tid key x c t s)"
| "pf_step (Close_accrual_op tid key x c t) s = close_accrual tid key x c t s"
| "pf_step (Flow_op tid flow t) s = apply_cash_flow tid flow t s"
| "pf_step (Split_op sp t) s = apply_split sp t s"

text \<open>
  What the arguments of an operation are: a fill's quantity has at most 34 significant digits, its
  economics, a cash flow and a split come from their constructors, and a split leaves some of the
  holding.
\<close>

fun op_ok :: "pf_op \<Rightarrow> portfolio_state \<Rightarrow> bool" where
  "op_ok (Fill_op tid a q pr comm t c e final settles financed) s' =
     (fits ACCOUNTING_CONTEXT q \<and> (\<forall>x. e = Some x \<longrightarrow> economics_ok x))"
| "op_ok (Flow_op tid flow t) s' = is_finite (cf_amount flow)"
| "op_ok (Split_op sp t) s' = (make_split (sp_asset_id sp) (sp_ratio sp) = Inr sp \<and>
     (\<forall>p. book_get (pf_positions s') (sp_asset_id sp) = Some p \<longrightarrow> dval (pos_quantity p) \<noteq> 0))"
| "op_ok _ s' = True"

text \<open>The positions a mark passes over.\<close>

definition changed_held :: "string option \<Rightarrow> portfolio_state \<Rightarrow> (string \<times> position) list" where
  "changed_held ch s = List.map_filter
     (\<lambda>a. case book_get (pf_positions s) a of None \<Rightarrow> None | Some p \<Rightarrow> Some (a, p))
     (case ch of None \<Rightarrow> pf_pending_marks s | Some a \<Rightarrow> pending_with (pf_pending_marks s) [a] [])"

text \<open>Amounts in one currency stay small: after the operation, and after each pass of a mark's loop.\<close>

definition state_small :: "int \<Rightarrow> string \<Rightarrow> portfolio_state \<Rightarrow> bool" where
  "state_small u c s = money_small u c (pf_cash s) (pf_positions s) (pf_realized s) (pf_commission s)"

fun bounded :: "int \<Rightarrow> string \<Rightarrow> pf_op \<Rightarrow> portfolio_state \<Rightarrow> portfolio_state \<Rightarrow> bool" where
  "bounded u c (Mark_op ids prices t) s s' =
     (state_small u c s' \<and> marks_small u c ids prices t s (bk_positions (pf_positions s)))"
| "bounded u c (Mark_changed_op ids prices t ch) s s' =
     (state_small u c s' \<and> marks_small u c ids prices t s (changed_held ch s))"
| "bounded u c _ s s' = state_small u c s'"

inductive pf_run ::
  "(pf_op \<Rightarrow> portfolio_state \<Rightarrow> portfolio_state \<Rightarrow> bool) \<Rightarrow> account \<Rightarrow> portfolio_state \<Rightarrow> bool"
  for Q acct where
  start: "units_ok (account_units acct) \<Longrightarrow> pf_run Q acct (new_portfolio acct)"
| step: "pf_run Q acct s \<Longrightarrow> pf_step act s = Inr s' \<Longrightarrow> op_ok act s' \<Longrightarrow> Q act s s' \<Longrightarrow> pf_run Q acct s'"

text \<open>The pending marks are always sorted and unique.\<close>

definition marks_sorted :: "portfolio_state \<Rightarrow> bool" where
  "marks_sorted s = sorted_wrt (<) (pf_pending_marks s)"

lemma pending_with_sorted: "sorted_wrt (<) (pending_with p add remove)"
  unfolding pending_with_def strict_sorted_iff by simp

lemma make_state_sorted: "marks_sorted (make_state s)"
  by (simp add: marks_sorted_def make_state_def pending_with_sorted)

lemma sorted_distinct: "sorted_wrt (<) xs \<Longrightarrow> distinct xs" for xs :: "string list"
  by (simp add: strict_sorted_iff)

lemma step_sorted: "pf_step act s = Inr s' \<Longrightarrow> marks_sorted s \<Longrightarrow> marks_sorted s'"
proof (cases act)
  case (Fill_op tid a q pr comm t c e final settles financed)
  assume "pf_step act s = Inr s'"
  then have "\<exists>x. s' = make_state x"
    unfolding Fill_op pf_step.simps apply_fill_def Let_def by (elim rbind_InrE) (auto elim!: rbind_InrE)
  then show ?thesis using make_state_sorted by blast
qed (auto simp: marks_sorted_def apply_deposit_def apply_withdrawal_def update_market_prices_def mark_changed_def
    marked_def record_accrual_def close_accrual_def apply_cash_flow_def apply_split_def rbind_eq_Inr Let_def
    pending_with_sorted split: if_splits option.splits)

lemma changed_held_ok:
  assumes "marks_sorted s"
  shows "distinct (map fst (changed_held ch s))"
    and "(a, p) \<in> set (changed_held ch s) \<Longrightarrow> od_get (bk_positions (pf_positions s)) a = Some p"
proof -
  define assets where "assets = (case ch of None \<Rightarrow> pf_pending_marks s | Some a \<Rightarrow> pending_with (pf_pending_marks s) [a] [])"
  have "sorted_wrt (<) assets"
    using assms pending_with_sorted by (auto simp: assets_def marks_sorted_def split: option.split)
  then have d: "distinct assets" by (rule sorted_distinct)
  define f where "f = (\<lambda>a. case book_get (pf_positions s) a of None \<Rightarrow> None | Some p \<Rightarrow> Some (a, p))"
  have ch: "changed_held ch s = List.map_filter f assets" by (simp add: changed_held_def assets_def f_def)
  have "distinct (map fst (List.map_filter f xs)) \<and> set (map fst (List.map_filter f xs)) \<subseteq> set xs"
    if "distinct xs" for xs
    using that by (induction xs) (auto simp: map_filter_simps f_def split: option.splits)
  with d show "distinct (map fst (changed_held ch s))" unfolding ch by blast
  have "(a, p) \<in> set (List.map_filter f xs) \<Longrightarrow> od_get (bk_positions (pf_positions s)) a = Some p" for xs
    by (induction xs) (auto simp: map_filter_simps f_def book_get_def split: option.splits)
  then show "(a, p) \<in> set (changed_held ch s) \<Longrightarrow> od_get (bk_positions (pf_positions s)) a = Some p"
    unfolding ch .
qed

text \<open>One operation: the invariant, and the identity when amounts stay small.\<close>

definition step_result :: "pf_op \<Rightarrow> portfolio_state \<Rightarrow> portfolio_state \<Rightarrow> bool" where
  "step_result act s s' =
     (pf_ok s' \<and> pf_account s' = pf_account s \<and>
      (\<forall>c u. minor_units (units_of s) c = Inr u \<longrightarrow> state_small u c s \<longrightarrow> bounded u c act s s' \<longrightarrow>
        identity_holds c s \<longrightarrow> identity_holds c s'))"

lemma bounded_small: "bounded u c act s s' \<Longrightarrow> state_small u c s'"
  by (cases act) simp_all

lemma sound_result: "sound_step s s' \<Longrightarrow> step_result act s s'"
  using bounded_small
  by (auto simp: sound_step_def step_result_def keeps_identity_def identity_holds_def state_small_def)

lemma pf_step_result:
  assumes ok: "pf_ok s" and srt: "marks_sorted s" and run: "pf_step act s = Inr s'" and args: "op_ok act s'"
  shows "step_result act s s'"
proof (cases act)
  case (Mark_op ids prices t)
  have held: "distinct (map fst (bk_positions (pf_positions s)))"
      "(a, p) \<in> set (bk_positions (pf_positions s)) \<Longrightarrow> od_get (bk_positions (pf_positions s)) a = Some p" for a p
    using ok by (auto simp: pf_ok_def book_fits_def book_sound_def od_ok_def od_get_in)
  have "marked ids s (bk_positions (pf_positions s)) prices t = Inr s'"
    using run by (simp add: Mark_op update_market_prices_def)
  note M = marked_sound [OF ok this held]
  show ?thesis using M by (auto simp: step_result_def Mark_op)
next
  case (Mark_changed_op ids prices t ch)
  show ?thesis
  proof (cases "s' = s")
    case True
    then show ?thesis using ok by (simp add: step_result_def)
  next
    case False
    then have "marked ids s (changed_held ch s) prices t = Inr s'"
      using run by (auto simp: Mark_changed_op mark_changed_def changed_held_def Let_def split: if_splits)
    note M = marked_sound [OF ok this changed_held_ok [OF srt]]
    show ?thesis using M by (auto simp: step_result_def Mark_changed_op)
  qed
next
  case (Fill_op tid a q pr comm t c e final settles financed)
  with args run show ?thesis by (intro sound_result apply_fill_sound [OF ok]) auto
next
  case (Split_op sp t)
  with args run show ?thesis by (intro sound_result apply_split_sound [OF ok]) auto
next
  case (Flow_op tid flow t)
  with args run show ?thesis by (intro sound_result apply_cash_flow_sound [OF ok]) auto
next
  case (Close_accrual_op tid key x c t)
  with run obtain l where "s' = s\<lparr>pf_ledger := l\<rparr>" by (auto simp: close_accrual_def rbind_eq_Inr)
  with ledger_step [OF ok] show ?thesis by (simp add: sound_result)
next
  case (Accrue_op tid key x c t)
  with run obtain l where "s' = s\<lparr>pf_ledger := l\<rparr>" by (auto simp: record_accrual_def)
  with ledger_step [OF ok] show ?thesis by (simp add: sound_result)
qed (use run ok in \<open>auto intro: sound_result apply_deposit_sound apply_withdrawal_sound\<close>)

lemma new_portfolio_ok:
  "units_ok (account_units acct) \<Longrightarrow> pf_ok (new_portfolio acct) \<and> marks_sorted (new_portfolio acct) \<and>
   pf_account (new_portfolio acct) = acct \<and> identity_holds c (new_portfolio acct) \<and> state_small u c (new_portfolio acct)"
proof -
  assume u: "units_ok (account_units acct)"
  have z: "cash_balance empty_cash c' = ZERO_MONEY" "amounts_of [] c' = ZERO_MONEY" for c'
    by (simp_all add: cash_balance_def empty_cash_def amounts_of_def)
  have e: "bk_positions empty_positions = []" "invested c' empty_positions = 0" for c'
    by (simp_all add: empty_positions_def invested_def)
  show ?thesis using u minor_units_unit_range [OF u]
    by (auto simp: new_portfolio_def make_state_sorted pf_ok_def money_ok_def book_fits_def z e identity_holds_def
      cash_identity_def state_small_def money_small_def)
qed

lemma pf_run_ok: "pf_run Q acct s \<Longrightarrow> pf_ok s \<and> marks_sorted s \<and> pf_account s = acct"
proof (induction rule: pf_run.induct)
  case start
  then show ?case using new_portfolio_ok by blast
next
  case (step s act s')
  with pf_step_result [of s act s'] step_sorted [of act s s'] show ?case by (simp add: step_result_def)
qed

lemma pf_run_identity:
  assumes "minor_units (account_units acct) c = Inr u"
  shows "pf_run (bounded u c) acct s \<Longrightarrow> identity_holds c s \<and> state_small u c s"
proof (induction rule: pf_run.induct)
  case start
  then show ?case using new_portfolio_ok by blast
next
  case (step s act s')
  have "step_result act s s'" using pf_step_result [OF _ _ step.hyps(2,3)] pf_run_ok [OF step.hyps(1)] by blast
  moreover have "pf_account s = acct" using pf_run_ok [OF step.hyps(1)] by blast
  ultimately show ?case using step assms bounded_small by (auto simp: step_result_def)
qed

section \<open>The properties\<close>

definition whole_units :: "int \<Rightarrow> decimal \<Rightarrow> bool" where
  "whole_units u d = (is_finite d \<and> (\<exists>k::int. dval d = of_int k * 10 powi (- u)))"

lemma whole_at_unit: "at_unit u d \<Longrightarrow> whole_units u d"
  by (simp add: whole_units_def at_unit_whole)

text \<open>C14: in every state the engine reaches, money is a whole number of the minor unit of its
  currency: cash, realized P&L, commissions, and each position's basis and own realized P&L. Each
  position is booked under its own asset and in a currency whose minor unit the account knows.\<close>

theorem portfolio_money_is_whole:
  assumes "pf_run Q acct s"
  shows "(\<forall>c u. minor_units (account_units acct) c = Inr u \<longrightarrow>
      whole_units u (cash_balance (pf_cash s) c) \<and> whole_units u (amounts_of (pf_realized s) c) \<and>
      whole_units u (amounts_of (pf_commission s) c)) \<and>
    (\<forall>a p. book_get (pf_positions s) a = Some p \<longrightarrow> pos_asset_id p = a \<and>
      (\<exists>u. minor_units (account_units acct) (pos_currency p) = Inr u \<and> pos_minor_units p = Some u \<and>
        whole_units u (kept_basis p) \<and> whole_units u (pos_realized_pnl p)))"
proof -
  have ok: "pf_ok s" "pf_account s = acct" using pf_run_ok [OF assms] by blast+
  note P = ok(1) [unfolded pf_ok_def ok(2)]
  have "whole_units u (kept_basis p) \<and> whole_units u (pos_realized_pnl p) \<and> pos_minor_units p = Some u"
    if "held_ok u p" for u p
    using that whole_at_unit [of u "kept_basis p"] whole_at_unit [of u "pos_realized_pnl p"] held_frame [OF that]
      frame_okD [OF held_frame [OF that]] pos_okD [of u p]
    by (auto simp: held_ok_def fresh_ok_def kept_basis_def frame_ok_def)
  then have "pos_asset_id p = a \<and> (\<exists>u. minor_units (account_units acct) (pos_currency p) = Inr u \<and>
      pos_minor_units p = Some u \<and> whole_units u (kept_basis p) \<and> whole_units u (pos_realized_pnl p))"
    if "book_get (pf_positions s) a = Some p" for a p
    using P that unfolding book_fits_def position_fits_def book_get_def by blast
  moreover have "whole_units u (cash_balance (pf_cash s) c) \<and> whole_units u (amounts_of (pf_realized s) c) \<and>
      whole_units u (amounts_of (pf_commission s) c)" if "minor_units (account_units acct) c = Inr u" for c u
    using P that whole_at_unit unfolding money_ok_def by blast
  ultimately show ?thesis by blast
qed

definition example_run :: "pf_op list" where
  "example_run = [Deposit_op ''t1'' (Fin 1000 0) ''USD'' (FFin 1),
     Fill_op ''t2'' ''XYZ'' (Fin 10 0) (Fin 50 0) (Fin 1 0) (FFin 2) ''USD'' None False None False,
     Mark_op (\<lambda>n. ''m'') [(''XYZ'', Fin 60 0)] (FFin 3)]"

lemma example_steps:
  "pf_step (example_run ! 0) (new_portfolio example_account) = Inr funded"
  "pf_step (example_run ! 1) funded = Inr holding"
  "pf_step (example_run ! 2) holding = Inr repriced"
  by (simp_all add: example_run_def example_deposit example_fill example_marked)

lemma example_ops: "op_ok (example_run ! 0) funded" "op_ok (example_run ! 1) holding" "op_ok (example_run ! 2) repriced"
  by (simp_all add: example_run_def ACCOUNTING_PRECISION_def num_digits.simps)

lemma example_reached:
  assumes "Q (example_run ! 0) (new_portfolio example_account) funded" "Q (example_run ! 1) funded holding"
    "Q (example_run ! 2) holding repriced"
  shows "pf_run Q example_account repriced"
proof -
  have "pf_run Q example_account (new_portfolio example_account)"
    by (rule pf_run.start) (simp add: example_account_def units_ok_standard [unfolded STANDARD_CURRENCY_UNITS_def])
  from pf_run.step [OF this example_steps(1) example_ops(1) assms(1)]
  have "pf_run Q example_account funded" .
  from pf_run.step [OF this example_steps(2) example_ops(2) assms(2)]
  have "pf_run Q example_account holding" .
  from pf_run.step [OF this example_steps(3) example_ops(3) assms(3)] show ?thesis .
qed

lemma example_held_asset:
  "book_get (pf_positions repriced) ''XYZ'' = Some (example_holding (Fin 60 0) (FFin 3))"
  by (simp add: repriced_def holding_book_def book_get_def od_get_def)

theorem portfolio_money_is_whole_witness:
  "whole_units 2 (cash_balance (pf_cash repriced) ''USD'') \<and> whole_units 2 (amounts_of (pf_realized repriced) ''USD'') \<and>
   whole_units 2 (amounts_of (pf_commission repriced) ''USD'') \<and>
   whole_units 2 (kept_basis (example_holding (Fin 60 0) (FFin 3)))"
proof -
  have "minor_units (account_units example_account) ''USD'' = Inr 2" by (simp add: example_account_def usd_units)
  moreover have "pos_minor_units (example_holding (Fin 60 0) (FFin 3)) = Some 2" by (simp add: example_holding_def)
  ultimately show ?thesis
    using portfolio_money_is_whole [OF example_reached [of "\<lambda>_ _ _. True"]] example_held_asset by fastforce
qed

text \<open>The valuation of one position splits its value into P&L and invested money.\<close>

definition entry_below :: "int \<Rightarrow> entry \<Rightarrow> bool" where
  "entry_below u e = (below u (fst (snd e)) \<and> below u (snd (snd e)))"

lemma entry_split:
  assumes ok: "held_ok u p" and e: "entry_of ACCOUNTING_CONTEXT p = Inr e" and b: "entry_below u e"
    and opn: "dval (pos_quantity p) \<noteq> 0"
  shows "dval (fst e) - dval (snd (snd e)) = dval (fst (snd e)) + (if pays_notional p then signed_basis p else 0)"
proof -
  let ?A = ACCOUNTING_CONTEXT
  obtain v pnl where vp: "valuation ?A p = Inr (v, pnl)"
    and ev: "(if pays_notional p then Inr (v, pnl, ZERO_MONEY)
       else rbind (dec_sub ?A v pnl) (\<lambda>x. Inr (v, pnl, x))) = Inr e"
    using e by (auto simp: entry_of_def rbind_eq_Inr)
  note V = valuation_exact [OF ok vp]
  have po: "pos_ok u p" using ok opn by (auto simp: held_ok_def fresh_ok_def)
  note P = pos_okD [OF po]
  show ?thesis
  proof (cases "pays_notional p")
    case True
    with ev have ee: "e = (v, pnl, ZERO_MONEY)" by simp
    have "(if 0 < dval (pos_quantity p) then dec_sub ?A v (kept_basis p) else dec_add ?A v (kept_basis p)) = Inr pnl"
      using vp opn P(5) basis_kept [OF P(2), of ?A] by (auto simp: valuation_def rbind_eq_Inr)
    moreover have "below u pnl" using b by (simp add: entry_below_def ee)
    ultimately have "dval pnl = (if 0 < dval (pos_quantity p) then dval v - dval (kept_basis p) else dval v + dval (kept_basis p))"
      using sub_small_exact [OF _ V(3) P(8,3)] add_small_exact [OF _ V(3) P(8,3)] by (auto split: if_splits)
    with opn True show ?thesis by (auto simp: ee signed_basis_def)
  next
    case False
    with ev obtain x where x: "dec_sub ?A v pnl = Inr x" "e = (v, pnl, x)" by (auto simp: rbind_eq_Inr)
    then have "dval x = dval v - dval pnl"
      using b sub_small_exact [OF x(1) V(3,4) P(3)] by (simp add: entry_below_def)
    with False show ?thesis by (simp add: x(2))
  qed
qed

lemma sums_split:
  assumes "\<And>a p. (a, p) \<in> set ps \<Longrightarrow> pos_currency p = c \<Longrightarrow> \<exists>e. held_ok u p \<and>
      entry_of ACCOUNTING_CONTEXT p = Inr e \<and> entry_below u e"
  shows "sum_where (long_in c) (entry_val fst) ps + sum_where (short_in c) (entry_val fst) ps -
      sum_where (held_in c) (entry_val (\<lambda>e. snd (snd e))) ps =
    sum_where (held_in c) (entry_val (\<lambda>e. fst (snd e))) ps + sum_where (pays_in c) signed_basis ps"
  using assms
proof (induction ps)
  case (Cons h ps)
  obtain a p where h: "h = (a, p)" by (cases h)
  have IH: "sum_where (long_in c) (entry_val fst) ps + sum_where (short_in c) (entry_val fst) ps -
      sum_where (held_in c) (entry_val (\<lambda>e. snd (snd e))) ps =
    sum_where (held_in c) (entry_val (\<lambda>e. fst (snd e))) ps + sum_where (pays_in c) signed_basis ps"
  proof (rule Cons.IH)
    fix b q
    assume q: "(b, q) \<in> set ps" "pos_currency q = c"
    from q(1) have "(b, q) \<in> set (h # ps)" by simp
    then show "\<exists>e. held_ok u q \<and> entry_of ACCOUNTING_CONTEXT q = Inr e \<and> entry_below u e"
      using q(2) by (rule Cons.prems)
  qed
  show ?case
  proof (cases "pos_currency p = c")
    case False
    then have "\<not> pays_in c p" by (simp add: pays_in_def)
    with IH False show ?thesis by (simp add: h selections)
  next
    case True
    obtain e where e: "held_ok u p" "entry_of ACCOUNTING_CONTEXT p = Inr e" "entry_below u e"
      using Cons.prems [of a p] True by (auto simp: h)
    have ev: "entry_val f p = dval (f e)" for f by (simp add: entry_val_def e(2))
    show ?thesis
    proof (cases "dval (pos_quantity p) = 0")
      case True
      with flat_basis [OF e(1)] IH \<open>pos_currency p = c\<close> show ?thesis by (simp add: h selections)
    next
      case False
      have pays: "pays_in c p = pays_notional p" using \<open>pos_currency p = c\<close> by (simp add: pays_in_def)
      from False entry_split [OF e False] IH \<open>pos_currency p = c\<close> show ?thesis
        by (auto simp: h selections ev pays)
    qed
  qed
qed simp

text \<open>C1: the accounting identity, per currency, over the figures the engine keeps: cash plus what
  the positions add to equity is deposits less withdrawals, plus realized and unrealized P&L, less
  commissions, exactly, after any run whose amounts stay in the range of exact sums.\<close>

theorem portfolio_accounting_identity:
  assumes run: "pf_run (bounded u c) acct s" and u: "minor_units (account_units acct) c = Inr u"
    and entries: "\<forall>a e. od_get (bk_entries (pf_positions s)) a = Some e \<longrightarrow> entry_below u e"
  defines "totals \<equiv> book_totals (pf_positions s) c"
  shows "dval (cash_balance (pf_cash s) c) +
      (dval (long_value totals) + dval (short_value totals) - dval (uncarried_value totals)) =
    net_deposits c (pf_events s) + dval (amounts_of (pf_realized s) c) + dval (total_unrealized totals) -
      dval (amounts_of (pf_commission s) c)"
proof -
  have ok: "pf_ok s" "pf_account s = acct" using pf_run_ok [OF run] by blast+
  have id: "identity_holds c s" using pf_run_identity [OF u] run by blast
  have bf: "book_fits (account_units acct) (pf_positions s)" using ok by (simp add: pf_ok_def)
  then have m: "totals_match (bk_positions (pf_positions s)) c totals"
    by (simp add: book_fits_def book_sound_def totals_ok_def totals_def book_totals_def)
  have "\<exists>e. held_ok u p \<and> entry_of ACCOUNTING_CONTEXT p = Inr e \<and> entry_below u e"
    if p: "(a, p) \<in> set (bk_positions (pf_positions s))" "pos_currency p = c" for a p
  proof -
    have get: "od_get (bk_positions (pf_positions s)) a = Some p"
      using p bf by (simp add: book_fits_def book_sound_def od_get_in)
    obtain e where e: "od_get (bk_entries (pf_positions s)) a = Some e" "entry_ok p e"
      using bf get unfolding book_fits_def book_sound_def by blast
    have "entry_below u e" using entries e(1) by blast
    moreover have "held_ok u p" using position_held [OF bf get] u p(2) by simp
    moreover have "entry_of ACCOUNTING_CONTEXT p = Inr e" using e(2) by (simp only: entry_ok_def)
    ultimately show ?thesis by blast
  qed
  from sums_split [of "bk_positions (pf_positions s)" c u, OF this] m id show ?thesis
    by (simp add: totals_match_def identity_holds_def cash_identity_def invested_def)
qed

lemma example_small:
  "state_small 2 ''USD'' funded" "state_small 2 ''USD'' holding" "state_small 2 ''USD'' repriced"
  by (auto simp: state_small_def money_small_def example_defs small_def cash_balance_def amount_of_def od_get_def
    amounts_of_def empty_positions_def kept_basis_def dval.simps(1) ZERO_MONEY_def split: if_splits)

lemma example_bounded:
  "bounded 2 ''USD'' (example_run ! 0) (new_portfolio example_account) funded"
  "bounded 2 ''USD'' (example_run ! 1) funded holding"
  "bounded 2 ''USD'' (example_run ! 2) holding repriced"
proof -
  have held: "bk_positions (pf_positions holding) = [(''XYZ'', example_holding (Fin 50 0) (FFin 2))]"
    and acct: "pf_account holding = example_account" by (simp_all add: holding_def holding_book_def)
  have start: "start_marking holding = unmarked" by (simp add: start_marking_def unmarked_def)
  have "marking_small 2 ''USD'' example_marking"
    using example_small(2) by (simp add: marking_small_def example_marking_def unmarked_def state_small_def money_small_def)
  then have "marks_small 2 ''USD'' (\<lambda>n. ''m'') [(''XYZ'', Fin 60 0)] (FFin 3) holding (bk_positions (pf_positions holding))"
    by (simp add: marks_small_def held acct start example_mark_one)
  then show "bounded 2 ''USD'' (example_run ! 2) holding repriced" by (simp add: example_run_def example_small)
qed (simp_all add: example_run_def example_small)

lemma example_entries:
  "\<forall>a e. od_get (bk_entries (pf_positions repriced)) a = Some e \<longrightarrow> entry_below 2 e"
  by (simp add: repriced_def holding_book_def od_get_def entry_below_def dval.simps(1))

lemma example_net: "net_deposits ''USD'' (pf_events repriced) = 1000"
  by (simp add: net_deposits_def repriced_def holding_def dval.simps(1))

theorem portfolio_accounting_identity_witness:
  "dval (cash_balance (pf_cash repriced) ''USD'') +
      (dval (long_value (book_totals (pf_positions repriced) ''USD'')) +
       dval (short_value (book_totals (pf_positions repriced) ''USD'')) -
       dval (uncarried_value (book_totals (pf_positions repriced) ''USD''))) =
    net_deposits ''USD'' (pf_events repriced) + dval (amounts_of (pf_realized repriced) ''USD'') +
      dval (total_unrealized (book_totals (pf_positions repriced) ''USD'')) -
      dval (amounts_of (pf_commission repriced) ''USD'') \<and>
    net_deposits ''USD'' (pf_events repriced) = 1000"
  using portfolio_accounting_identity [OF example_reached [of "bounded 2 ''USD''", OF example_bounded] _ example_entries]
  by (simp add: usd_units example_account_def example_net)

end
