(* ===== verification/Portfolio_Views.thy ===== *)
theory Portfolio_Views
  imports Portfolio_Identity
begin

text \<open>
  What the portfolio engine keeps beside the money: the index of pending settlements is what the
  ledger alone implies, the pending marks name open positions, marking a fully paid book re-prices
  it position by position and moves nothing else, and marking what changed settles and re-prices
  what marking the whole book would.
\<close>

section \<open>Every state a sequence of operations reaches\<close>

inductive pf_reach :: "account \<Rightarrow> portfolio_state \<Rightarrow> bool" for acct where
  opened: "pf_reach acct (new_portfolio acct)"
| op_done: "pf_reach acct s \<Longrightarrow> pf_step act s = Inr s' \<Longrightarrow> pf_reach acct s'"

lemma example_reach: "pf_reach example_account repriced"
  by (rule pf_reach.op_done [OF pf_reach.op_done [OF pf_reach.op_done [OF pf_reach.opened example_steps(1)]
    example_steps(2)] example_steps(3)])

lemma settled_cash_kind:
  "(case settles of None \<Rightarrow> Inr None | Some _ \<Rightarrow> rbind m (\<lambda>x. Inr (Some x))) = Inr sc \<Longrightarrow>
    settles = None \<longleftrightarrow> sc = None"
  by (auto simp: rbind_eq_Inr split: option.splits)

lemma apply_fill_rest:
  assumes "apply_fill tid a q price comm t c economics final settles financed s = Inr s'"
  obtains comm' buys settled_cash pos pnl new b ev where
    "booked_position (account_id (pf_account s)) a t q price pnl pos new (pf_positions s) = Inr (b, ev)"
    "pf_positions s' = b" "settles = None \<longleftrightarrow> settled_cash = None"
    "pf_ledger s' = pf_ledger s @ [fill_tx tid t s a q price comm' c buys settles settled_cash]"
    "pf_unsettled s' = fill_unsettled (fill_tx tid t s a q price comm' c buys settles settled_cash)
       settled_cash settles (pf_unsettled s)"
    "set (pf_pending_marks s') = set (fill_marks a b (pf_pending_marks s))"
proof -
  obtain comm' buys settled_cash pos pnl new b ev cash realized paid m where
    B: "booked_position (account_id (pf_account s)) a t q price pnl pos new (pf_positions s) = Inr (b, ev)"
    and k: "(case settles of None \<Rightarrow> Inr None | Some _ \<Rightarrow> rbind m (\<lambda>x. Inr (Some x))) = Inr settled_cash"
    and s': "s' = make_state \<lparr>pf_account = pf_account s, pf_cash = cash, pf_positions = b,
         pf_ledger = ledger_append (fill_tx tid t s a q price comm' c buys settles settled_cash) (pf_ledger s),
         pf_events = pf_events s @ [ev], pf_realized = realized, pf_commission = paid,
         pf_pending_marks = fill_marks a b (pf_pending_marks s),
         pf_unsettled = fill_unsettled (fill_tx tid t s a q price comm' c buys settles settled_cash)
           settled_cash settles (pf_unsettled s)\<rparr>"
    using assms unfolding apply_fill_def Let_def
    by (elim rbind_InrE) (auto elim!: rbind_InrE)
  note sc = settled_cash_kind [OF k]
  have "set (pf_pending_marks s') = set (fill_marks a b (pf_pending_marks s))"
    by (auto simp: s' make_state_def pending_with_def)
  with B sc show thesis by (intro that) (auto simp: s' ledger_append_def)
qed

section \<open>The index of pending settlements\<close>

definition replays_to :: "transaction list \<Rightarrow> pending_settlement list \<Rightarrow> bool" where
  "replays_to ledger unsettled = (rfold pending_step ([], []) ledger = Inr (unsettled, []))"

lemma replays_other: "replays_to l p \<Longrightarrow> \<not> pending_type (tx_type t) \<Longrightarrow> replays_to (l @ [t]) p"
  by (simp add: replays_to_def rfold_append pending_step_def)

lemma replays_fill:
  assumes "replays_to l p" and kinds: "settles = None \<longleftrightarrow> settled_cash = None"
    and tx_def: "tx = fill_tx tid t s a q price comm c buys settles settled_cash"
  shows "replays_to (l @ [tx]) (fill_unsettled tx settled_cash settles p)"
proof -
  have kind: "tx_type tx = (if buys then BUY_TX else SELL_TX)" by (simp add: tx_def fill_tx_def)
  have keys: "SETTLEMENT_CASH \<noteq> DELIVERS" "SETTLES_AT \<noteq> DELIVERS" "SETTLES_AT \<noteq> SETTLEMENT_CASH"
    by (simp_all add: SETTLEMENT_CASH_def SETTLES_AT_def DELIVERS_def)
  have "pending_step (p, []) tx = Inr (fill_unsettled tx settled_cash settles p, [])"
  proof (cases settles)
    case None
    with kinds have "tx_metadata tx = []" by (simp add: tx_def fill_tx_def)
    with None show ?thesis
      by (auto simp: pending_step_def kind pending_type_def fill_unsettled_def settle_pending_def)
  next
    case (Some x)
    with kinds obtain cash where cash: "settled_cash = Some cash" by auto
    have md: "tx_metadata tx = [(SETTLES_AT, MFloat x), (SETTLEMENT_CASH, MDecimal cash)]"
      by (simp add: tx_def fill_tx_def Some cash)
    have "entry_from tx x = Inr \<lparr>ps_transaction_id = transaction_id tx, ps_asset_id = tx_asset_id tx,
        ps_currency = tx_currency tx, ps_cash = cash, ps_quantity = tx_quantity tx,
        ps_traded_at = tx_timestamp tx, ps_settles_at = x, ps_delivery = None\<rparr>"
      using keys by (simp add: entry_from_def md od_get_Cons kind)
    then show ?thesis
      by (simp add: pending_step_def kind pending_type_def fill_unsettled_def Some cash md od_get_Cons)
  qed
  with assms(1) show ?thesis by (simp add: replays_to_def rfold_append)
qed

lemma mark_ledger:
  assumes "rfold (mark_one ids acct prices t) m held = Inr m'" "replays_to (mk_ledger m) p"
  shows "replays_to (mk_ledger m') p"
proof (rule rfold_invariant [where P = "\<lambda>m. replays_to (mk_ledger m) p", OF _ assms(2,1)])
  fix m x m'
  assume "replays_to (mk_ledger m) p" "mark_one ids acct prices t m x = Inr m'"
  then show "replays_to (mk_ledger m') p"
    by (cases x) (auto simp: mark_one_def rbind_eq_Inr Let_def ledger_append_def pending_type_def
      intro!: replays_other split: option.splits if_splits)
qed

lemma marked_ledger:
  assumes "marked ids s held prices t = Inr s'" "replays_to (pf_ledger s) (pf_unsettled s)"
  shows "replays_to (pf_ledger s') (pf_unsettled s')"
  using assms mark_ledger [where m = "\<lparr>mk_positions = pf_positions s, mk_marked = [], mk_cash = pf_cash s,
    mk_realized = pf_realized s, mk_ledger = pf_ledger s, mk_settled = []\<rparr>" and p = "pf_unsettled s"]
  by (auto simp: marked_def rbind_eq_Inr split: if_splits)

lemma step_replays:
  assumes run: "pf_step act s = Inr s'" and inv: "replays_to (pf_ledger s) (pf_unsettled s)"
  shows "replays_to (pf_ledger s') (pf_unsettled s')"
proof (cases act)
  case (Fill_op tid a q pr comm t c e final settles financed)
  with run have "apply_fill tid a q pr comm t c e final settles financed s = Inr s'" by simp
  then obtain comm' buys sc where "settles = None \<longleftrightarrow> sc = None"
      "pf_ledger s' = pf_ledger s @ [fill_tx tid t s a q pr comm' c buys settles sc]"
      "pf_unsettled s' = fill_unsettled (fill_tx tid t s a q pr comm' c buys settles sc) sc settles (pf_unsettled s)"
    by (rule apply_fill_rest)
  with replays_fill [OF inv _ refl] show ?thesis by simp
next
  case (Mark_op ids prices t)
  with run inv show ?thesis by (auto simp: update_market_prices_def intro: marked_ledger)
next
  case (Mark_changed_op ids prices t ch)
  with run inv show ?thesis by (auto simp: mark_changed_def Let_def intro: marked_ledger split: if_splits)
next
  case (Flow_op tid flow t)
  with run inv show ?thesis
    by (auto simp: apply_cash_flow_def rbind_eq_Inr Let_def ledger_append_def cash_tx_def pending_type_def
      flow_transaction_def intro!: replays_other split: if_splits cash_flow_kind.splits)
next
  case (Split_op sp t)
  with run inv show ?thesis by (auto simp: apply_split_def rbind_eq_Inr split: option.splits)
qed (use run inv in \<open>auto simp: apply_deposit_def apply_withdrawal_def record_accrual_def close_accrual_def
    rbind_eq_Inr ledger_append_def cash_tx_def pending_type_def intro!: replays_other\<close>)

lemma reach_replays: "pf_reach acct s \<Longrightarrow> replays_to (pf_ledger s) (pf_unsettled s)"
  by (induction rule: pf_reach.induct)
    (auto simp: new_portfolio_def make_state_def replays_to_def [of "[]"] intro: step_replays)

text \<open>C35: in every state the engine reaches, the index of pending settlements is exactly what a restore
  rebuilds from the ledger's transactions.\<close>

theorem pending_index_from_ledger:
  assumes "pf_reach acct s"
  shows "pending_from (pf_ledger s) = Inr (pf_unsettled s)"
  using reach_replays [OF assms] by (simp add: pending_from_def replays_to_def)

theorem pending_index_from_ledger_witness: "pending_from (pf_ledger repriced) = Inr (pf_unsettled repriced)"
  by (rule pending_index_from_ledger [OF example_reach])

section \<open>Marking a fully paid book\<close>

definition held_at :: "marking \<Rightarrow> string \<Rightarrow> position option" where
  "held_at m a = od_get (bk_positions (mk_positions m)) a"

definition at_price :: "(string, decimal) od \<Rightarrow> pyfloat \<Rightarrow> string \<Rightarrow> position \<Rightarrow> position" where
  "at_price prices t a p = (case od_get prices a of None \<Rightarrow> p | Some x \<Rightarrow> update_market_price x t p)"

definition same_money :: "marking \<Rightarrow> marking \<Rightarrow> bool" where
  "same_money m m' = (mk_cash m' = mk_cash m \<and> mk_realized m' = mk_realized m \<and> mk_ledger m' = mk_ledger m \<and>
     mk_settled m' = mk_settled m)"

lemma mark_one_paid:
  assumes "mark_one ids acct prices t m (a, p) = Inr m'" "pays_notional p" "held_at m a = Some p"
  shows "same_money m m' \<and> held_at m' = (held_at m)(a \<mapsto> at_price prices t a p) \<and>
    set (od_keys (mk_marked m')) = set (od_keys (mk_marked m)) \<union> (if od_get prices a = None then {} else {a})"
proof (cases "od_get prices a")
  case None
  with assms show ?thesis by (auto simp: mark_one_def same_money_def at_price_def)
next
  case (Some x)
  have "pos_settle x t p = Inr (update_market_price x t p, ZERO_MONEY)" using assms(2) by (simp add: pos_settle_def)
  with assms(1) Some obtain b where b: "book_set ACCOUNTING_CONTEXT a (update_market_price x t p) (mk_positions m) = Inr b"
      and m': "m' = m\<lparr>mk_positions := b, mk_marked := od_set a x (mk_marked m)\<rparr>"
    by (auto simp: mark_one_def rbind_eq_Inr Let_def ZERO_MONEY_def split: if_splits)
  then show ?thesis using book_set_positions [OF b] Some
    by (auto simp: same_money_def held_at_def at_price_def fun_eq_iff)
qed

lemma mark_loop_paid:
  assumes "rfold (mark_one ids acct prices t) m held = Inr m'" "distinct (map fst held)"
    and "\<And>a p. (a, p) \<in> set held \<Longrightarrow> held_at m a = Some p \<and> pays_notional p"
  shows "same_money m m' \<and>
    (\<forall>a. held_at m' a = (if a \<in> fst ` set held then map_option (at_price prices t a) (held_at m a) else held_at m a)) \<and>
    set (od_keys (mk_marked m')) = set (od_keys (mk_marked m)) \<union> {a \<in> fst ` set held. od_get prices a \<noteq> None}"
  using assms
proof (induction held arbitrary: m)
  case Nil
  then show ?case by (simp add: same_money_def)
next
  case (Cons h held)
  obtain a p where h: "h = (a, p)" by (cases h)
  obtain m1 where m1: "mark_one ids acct prices t m (a, p) = Inr m1"
      and rest: "rfold (mark_one ids acct prices t) m1 held = Inr m'"
    using Cons.prems(1) by (auto simp: h rbind_eq_Inr)
  have p: "held_at m a = Some p" "pays_notional p" using Cons.prems(3) [of a p] by (simp_all add: h)
  note one = mark_one_paid [OF m1 p(2,1)]
  have a: "a \<notin> fst ` set held" "distinct (map fst held)" using Cons.prems(2) by (simp_all add: h)
  have "held_at m1 a' = Some p' \<and> pays_notional p'" if "(a', p') \<in> set held" for a' p'
  proof -
    have "a' \<noteq> a" using that a(1) by force
    then show ?thesis using one Cons.prems(3) [of a' p'] that by simp
  qed
  note I = Cons.IH [OF rest a(2) this]
  show ?case using one I p a(1) by (auto simp: h same_money_def)
qed

lemma marked_run:
  assumes "marked ids s held prices t = Inr s'"
  obtains m where "rfold (mark_one ids (account_id (pf_account s)) prices t) (start_marking s) held = Inr m"
    "s' = (if mk_marked m = [] then s else s\<lparr>pf_positions := mk_positions m,
       pf_pending_marks := pending_with (pf_pending_marks s) [] (od_keys (mk_marked m)),
       pf_cash := mk_cash m, pf_realized := mk_realized m, pf_ledger := mk_ledger m,
       pf_events := (pf_events s @ [MarketValueUpdated t (account_id (pf_account s)) (mk_marked m)]) @ mk_settled m\<rparr>)"
  using assms by (auto simp: marked_def start_marking_def rbind_eq_Inr split: if_splits)

text \<open>A marked book, position by position.\<close>

lemma marked_paid:
  assumes run: "marked ids s held prices t = Inr s'" and d: "distinct (map fst held)"
    and held: "\<And>a p. (a, p) \<in> set held \<Longrightarrow> book_get (pf_positions s) a = Some p \<and> pays_notional p"
  shows "pf_cash s' = pf_cash s \<and> pf_realized s' = pf_realized s \<and> pf_commission s' = pf_commission s \<and>
      pf_ledger s' = pf_ledger s \<and> pf_unsettled s' = pf_unsettled s \<and>
      (\<forall>a. book_get (pf_positions s') a = (if a \<in> fst ` set held
        then map_option (at_price prices t a) (book_get (pf_positions s) a) else book_get (pf_positions s) a))"
proof -
  let ?m = "start_marking s"
  obtain m where m: "rfold (mark_one ids (account_id (pf_account s)) prices t) ?m held = Inr m"
      and s': "s' = (if mk_marked m = [] then s else s\<lparr>pf_positions := mk_positions m,
       pf_pending_marks := pending_with (pf_pending_marks s) [] (od_keys (mk_marked m)),
       pf_cash := mk_cash m, pf_realized := mk_realized m, pf_ledger := mk_ledger m,
       pf_events := (pf_events s @ [MarketValueUpdated t (account_id (pf_account s)) (mk_marked m)]) @ mk_settled m\<rparr>)"
    by (rule marked_run [OF run])
  have start: "held_at ?m a = book_get (pf_positions s) a" for a
    by (simp add: held_at_def start_marking_def book_get_def)
  have L: "same_money ?m m" "\<And>a. held_at m a = (if a \<in> fst ` set held
        then map_option (at_price prices t a) (book_get (pf_positions s) a) else book_get (pf_positions s) a)"
      "set (od_keys (mk_marked m)) = {a \<in> fst ` set held. od_get prices a \<noteq> None}"
    using mark_loop_paid [OF m d] held by (auto simp: start) (auto simp: start_marking_def od_keys_def)
  show ?thesis
  proof (cases "mk_marked m = []")
    case True
    then have none: "{a \<in> fst ` set held. od_get prices a \<noteq> None} = {}" using L(3) by (simp add: od_keys_def)
    have "map_option (at_price prices t a) x = x" if "a \<in> fst ` set held" for a x
    proof -
      have "od_get prices a = None" using none that by blast
      then show ?thesis by (cases x) (simp_all add: at_price_def)
    qed
    with True show ?thesis by (simp add: s')
  next
    case False
    then show ?thesis using L(1,2) by (simp add: s' same_money_def start_marking_def held_at_def book_get_def)
  qed
qed

lemma reach_positions_distinct: "pf_reach acct s \<Longrightarrow> od_ok (bk_positions (pf_positions s))"
proof (induction rule: pf_reach.induct)
  case opened
  then show ?case by (simp add: new_portfolio_def empty_positions_def)
next
  case (op_done s act s')
  have set_ok: "book_set amb a p b = Inr b' \<Longrightarrow> od_ok (bk_positions b) \<Longrightarrow> od_ok (bk_positions b')" for amb a p b b'
    using book_set_positions by fastforce
  have del_ok: "book_delete amb a b = Inr b' \<Longrightarrow> od_ok (bk_positions b) \<Longrightarrow> od_ok (bk_positions b')" for amb a b b'
    using book_delete_positions by (fastforce split: option.splits)
  have loop: "rfold (mark_one ids ac prices t) m held = Inr m' \<Longrightarrow> od_ok (bk_positions (mk_positions m)) \<Longrightarrow>
      od_ok (bk_positions (mk_positions m'))" for ids ac prices t m held m'
    by (erule rfold_invariant [where P = "\<lambda>m. od_ok (bk_positions (mk_positions m))", rotated -1])
      (auto simp: mark_one_def rbind_eq_Inr Let_def split: option.splits if_splits dest!: book_set_positions)
  have marked: "marked ids s held prices t = Inr s' \<Longrightarrow> ?case" for ids held prices t
    using op_done.IH by (auto simp: marked_def rbind_eq_Inr split: if_splits dest: loop)
  show ?case
  proof (cases act)
    case (Fill_op tid a q pr comm t c e final settles financed)
    with op_done.hyps have "apply_fill tid a q pr comm t c e final settles financed s = Inr s'" by simp
    then obtain pos pnl new b ev where
      "booked_position (account_id (pf_account s)) a t q pr pnl pos new (pf_positions s) = Inr (b, ev)"
      "pf_positions s' = b" by (rule apply_fill_rest)
    then show ?thesis using op_done.IH set_ok del_ok
      by (auto simp: booked_position_def rbind_eq_Inr split: if_splits)
  next
    case (Split_op sp t)
    with op_done show ?thesis by (auto simp: apply_split_def rbind_eq_Inr split: option.splits dest: set_ok)
  qed (use op_done marked in \<open>auto simp: apply_deposit_def apply_withdrawal_def record_accrual_def
      close_accrual_def apply_cash_flow_def update_market_prices_def mark_changed_def rbind_eq_Inr Let_def
      split: if_splits\<close>)
qed

definition fully_paid :: "portfolio_state \<Rightarrow> bool" where
  "fully_paid s = list_all (\<lambda>(a, p). pays_notional p) (bk_positions (pf_positions s))"

lemma fully_paid_held:
  assumes "fully_paid s" "od_ok (bk_positions (pf_positions s))"
  shows "(a, p) \<in> set (bk_positions (pf_positions s)) \<longleftrightarrow> book_get (pf_positions s) a = Some p"
    and "book_get (pf_positions s) a = Some p \<Longrightarrow> pays_notional p"
  using assms by (auto simp: fully_paid_def list_all_iff book_get_def od_get_in)

lemma market_prices_paid:
  assumes reach: "pf_reach acct s" and paid: "fully_paid s"
    and run: "update_market_prices ids prices t s = Inr s'"
  shows "pf_cash s' = pf_cash s \<and> pf_realized s' = pf_realized s \<and> pf_commission s' = pf_commission s \<and>
      pf_ledger s' = pf_ledger s \<and> pf_unsettled s' = pf_unsettled s \<and>
      (\<forall>a. book_get (pf_positions s') a = map_option (at_price prices t a) (book_get (pf_positions s) a))"
proof -
  note d = reach_positions_distinct [OF reach]
  note held = fully_paid_held [OF paid d]
  have outside: "book_get (pf_positions s) a = None" if "a \<notin> fst ` set (bk_positions (pf_positions s))" for a
    using that by (auto simp: book_get_def od_get_None od_keys_def)
  have "distinct (map fst (bk_positions (pf_positions s)))" using d by (simp add: od_ok_def od_keys_def)
  from marked_paid [OF run [unfolded update_market_prices_def] this] held outside show ?thesis
    by (metis option.map_disc_iff)
qed

text \<open>Marking a fully paid book moves no cash, no P&L and no commission, and writes no transaction:
  every position it holds is the one it held, at the price it was given or the price it had.\<close>

theorem marks_move_no_money:
  assumes "pf_reach acct s" "fully_paid s" "update_market_prices ids prices t s = Inr s'"
  shows "pf_cash s' = pf_cash s \<and> pf_realized s' = pf_realized s \<and> pf_commission s' = pf_commission s \<and>
      pf_ledger s' = pf_ledger s \<and> pf_unsettled s' = pf_unsettled s \<and>
      (\<forall>a. book_get (pf_positions s') a = (case book_get (pf_positions s) a of None \<Rightarrow> None
        | Some p \<Rightarrow> Some (case od_get prices a of None \<Rightarrow> p | Some x \<Rightarrow> update_market_price x t p)))"
  using market_prices_paid [OF assms] by (auto simp: at_price_def split: option.splits)

lemma example_reach_holding: "pf_reach example_account holding"
  by (rule pf_reach.op_done [OF pf_reach.op_done [OF pf_reach.opened example_steps(1)] example_steps(2)])

lemma example_paid_up: "fully_paid holding"
  by (simp add: fully_paid_def holding_def holding_book_def example_holding_def pays_notional_def)

theorem marks_move_no_money_witness:
  "pf_cash repriced = pf_cash holding \<and> pf_ledger repriced = pf_ledger holding \<and>
   book_get (pf_positions repriced) ''XYZ'' =
     Some (update_market_price (Fin 60 0) (FFin 3) (example_holding (Fin 50 0) (FFin 2)))"
  using marks_move_no_money [OF example_reach_holding example_paid_up example_marked]
  by (simp add: holding_def holding_book_def book_get_def od_get_Cons)

section \<open>Marking what changed\<close>

text \<open>
  The mark's loop, seen apart: the money it moves is a fold of its own, over the positions alone,
  and every position it reaches is left as its settlement leaves it.
\<close>

type_synonym moneys = "cash_ledger \<times> currency_amounts \<times> transaction list \<times> portfolio_event list"

definition money_of :: "marking \<Rightarrow> moneys" where
  "money_of m = (mk_cash m, mk_realized m, mk_ledger m, mk_settled m)"

definition money_mark ::
  "(nat \<Rightarrow> string) \<Rightarrow> string \<Rightarrow> (string, decimal) od \<Rightarrow> pyfloat \<Rightarrow> moneys \<Rightarrow> string \<times> position \<Rightarrow> moneys res" where
  "money_mark ids acct prices t M h =
     (case M of (cash, realized, ledger, settled) \<Rightarrow> case h of (a, p) \<Rightarrow>
      case od_get prices a of
        None \<Rightarrow> Inr M
      | Some x \<Rightarrow> rbind (pos_settle x t p) (\<lambda>(after, amount).
          if dec_eq amount dec_zero then Inr M
          else rbind (cash_settle ACCOUNTING_CONTEXT amount (pos_currency p) cash) (\<lambda>cash'.
            rbind (amounts_add amount (pos_currency p) realized) (\<lambda>realized'.
              Inr (cash', realized', ledger_append
                    \<lparr>transaction_id = ids (length settled), tx_timestamp = t, tx_account_id = acct,
                     tx_type = VARIATION_MARGIN, tx_asset_id = a, tx_quantity = pos_quantity p, tx_price = x,
                     tx_commission = commission_zero, tx_currency = pos_currency p, tx_metadata = []\<rparr> ledger,
                  settled @ [VariationSettled t acct a x amount (pos_currency p)])))))"

definition after_mark :: "(string, decimal) od \<Rightarrow> pyfloat \<Rightarrow> string \<Rightarrow> position \<Rightarrow> position" where
  "after_mark prices t a p =
     (case od_get prices a of
        None \<Rightarrow> p
      | Some x \<Rightarrow> (case pos_settle x t p of Inl e \<Rightarrow> p | Inr (after, amount) \<Rightarrow> after))"

lemma mark_one_money:
  assumes "mark_one ids acct prices t m (a, p) = Inr m'" "held_at m a = Some p"
  shows "money_mark ids acct prices t (money_of m) (a, p) = Inr (money_of m') \<and>
    held_at m' = (held_at m)(a \<mapsto> after_mark prices t a p) \<and> (mk_marked m' = [] \<longrightarrow> m' = m)"
proof (cases "od_get prices a")
  case None
  with assms show ?thesis by (auto simp: mark_one_def money_mark_def money_of_def after_mark_def)
next
  case (Some x)
  from assms(1) Some obtain after amount b where s: "pos_settle x t p = Inr (after, amount)"
      "book_set ACCOUNTING_CONTEXT a after (mk_positions m) = Inr b"
    by (auto simp: mark_one_def rbind_eq_Inr split: if_splits)
  note set = book_set_positions [OF s(2)]
  have ne: "od_set a x ms \<noteq> []" for ms :: "(string, decimal) od" by (cases ms) (auto split: if_splits)
  from assms(1) Some s have m': "mk_positions m' = b" "mk_marked m' = od_set a x (mk_marked m)"
      "money_mark ids acct prices t (money_of m) (a, p) = Inr (money_of m')"
    by (auto simp: mark_one_def money_mark_def money_of_def rbind_eq_Inr Let_def split: if_splits)
  with Some s(1) set ne show ?thesis by (simp add: held_at_def fun_eq_iff after_mark_def)
qed

lemma mark_loop_money:
  assumes "rfold (mark_one ids acct prices t) m held = Inr m'" "distinct (map fst held)"
    and "\<And>a p. (a, p) \<in> set held \<Longrightarrow> held_at m a = Some p"
  shows "rfold (money_mark ids acct prices t) (money_of m) held = Inr (money_of m') \<and>
    (\<forall>a. held_at m' a = (if a \<in> fst ` set held then map_option (after_mark prices t a) (held_at m a) else held_at m a)) \<and>
    (mk_marked m' = [] \<longrightarrow> m' = m)"
  using assms
proof (induction held arbitrary: m)
  case (Cons h held)
  obtain a p where h: "h = (a, p)" by (cases h)
  obtain m1 where m1: "mark_one ids acct prices t m (a, p) = Inr m1"
      and rest: "rfold (mark_one ids acct prices t) m1 held = Inr m'"
    using Cons.prems(1) by (auto simp: h rbind_eq_Inr)
  have p: "held_at m a = Some p" using Cons.prems(3) [of a p] by (simp add: h)
  note one = mark_one_money [OF m1 p]
  have a: "a \<notin> fst ` set held" "distinct (map fst held)" using Cons.prems(2) by (simp_all add: h)
  have "held_at m1 a' = Some p'" if "(a', p') \<in> set held" for a' p'
  proof -
    have "a' \<noteq> a" using that a(1) by force
    then show ?thesis using one Cons.prems(3) [of a' p'] that by simp
  qed
  note I = Cons.IH [OF rest a(2) this]
  show ?case using one I p a(1) by (auto simp: h)
qed simp

lemma marked_money:
  assumes run: "marked ids s held prices t = Inr s'" and d: "distinct (map fst held)"
    and held: "\<And>a p. (a, p) \<in> set held \<Longrightarrow> book_get (pf_positions s) a = Some p"
  shows "\<exists>settled. rfold (money_mark ids (account_id (pf_account s)) prices t)
      (pf_cash s, pf_realized s, pf_ledger s, []) held = Inr (pf_cash s', pf_realized s', pf_ledger s', settled)"
    and "book_get (pf_positions s') a = (if a \<in> fst ` set held
      then map_option (after_mark prices t a) (book_get (pf_positions s) a) else book_get (pf_positions s) a)"
proof -
  obtain m where m: "rfold (mark_one ids (account_id (pf_account s)) prices t) (start_marking s) held = Inr m"
      and s': "s' = (if mk_marked m = [] then s else s\<lparr>pf_positions := mk_positions m,
       pf_pending_marks := pending_with (pf_pending_marks s) [] (od_keys (mk_marked m)),
       pf_cash := mk_cash m, pf_realized := mk_realized m, pf_ledger := mk_ledger m,
       pf_events := (pf_events s @ [MarketValueUpdated t (account_id (pf_account s)) (mk_marked m)]) @ mk_settled m\<rparr>)"
    by (rule marked_run [OF run])
  have start: "held_at (start_marking s) a = book_get (pf_positions s) a" for a
    by (simp add: held_at_def start_marking_def book_get_def)
  have L: "rfold (money_mark ids (account_id (pf_account s)) prices t) (money_of (start_marking s)) held = Inr (money_of m)"
      "held_at m a = (if a \<in> fst ` set held
        then map_option (after_mark prices t a) (book_get (pf_positions s) a) else book_get (pf_positions s) a)"
      "mk_marked m = [] \<Longrightarrow> m = start_marking s"
    using mark_loop_money [OF m d] held by (simp_all add: start)
  have same: "pf_cash s' = mk_cash m" "pf_realized s' = mk_realized m" "pf_ledger s' = mk_ledger m"
      "pf_positions s' = mk_positions m"
    using s' L(3) by (cases "mk_marked m = []"; simp add: start_marking_def)+
  show "\<exists>settled. rfold (money_mark ids (account_id (pf_account s)) prices t)
      (pf_cash s, pf_realized s, pf_ledger s, []) held = Inr (pf_cash s', pf_realized s', pf_ledger s', settled)"
    using L(1) by (simp add: same money_of_def start_marking_def)
  show "book_get (pf_positions s') a = (if a \<in> fst ` set held
      then map_option (after_mark prices t a) (book_get (pf_positions s) a) else book_get (pf_positions s) a)"
    using L(2) by (simp add: same held_at_def book_get_def)
qed

text \<open>
  A position at rest at a price: settling it there moves no money and changes nothing but when the
  price was observed. A position that pays its notional is at rest at the price it carries.
\<close>

definition at_rest :: "decimal \<Rightarrow> pyfloat \<Rightarrow> position \<Rightarrow> bool" where
  "at_rest x t p = (case pos_settle x t p of
     Inl e \<Rightarrow> False | Inr (after, amount) \<Rightarrow> after = p\<lparr>last_updated := t\<rparr> \<and> dec_eq amount dec_zero)"

lemma at_rest_paid: "pays_notional p \<Longrightarrow> at_rest x t p \<longleftrightarrow> market_price p = x"
  by (cases p) (auto simp: at_rest_def pos_settle_def update_market_price_def ZERO_MONEY_def)

definition settles_gains :: "(string, decimal) od \<Rightarrow> string \<times> position \<Rightarrow> bool" where
  "settles_gains prices h = (od_get prices (fst h) \<noteq> None \<and> \<not> pays_notional (snd h))"

lemma no_money:
  assumes "\<not> settles_gains prices (a, p) \<or> (\<forall>x. od_get prices a = Some x \<longrightarrow> at_rest x t p)"
  shows "money_mark ids acct prices t M (a, p) = Inr M"
proof (cases "od_get prices a")
  case None
  then show ?thesis by (cases M) (simp add: money_mark_def)
next
  case (Some x)
  have "\<exists>after amount. pos_settle x t p = Inr (after, amount) \<and> dec_eq amount dec_zero"
  proof (cases "pays_notional p")
    case True
    then show ?thesis by (simp add: pos_settle_def ZERO_MONEY_def)
  next
    case False
    with assms Some show ?thesis by (auto simp: settles_gains_def at_rest_def split: sum.splits)
  qed
  with Some show ?thesis by (cases M) (auto simp: money_mark_def)
qed

lemma rfold_skips:
  "(\<And>h M. h \<in> set hs \<Longrightarrow> \<not> P h \<Longrightarrow> f M h = Inr M) \<Longrightarrow> rfold f M hs = rfold f M (filter P hs)"
  by (induction hs arbitrary: M) auto

text \<open>C36: Marking what changed is marking everything. In any state the engine reaches, if every priced
  position that is neither pending nor the changed one is at rest at its price -- it carries that
  price and, where it settles its gains as cash, has none left to settle -- then \<open>mark_changed\<close> leaves
  the cash, the realized P&L, the ledger with its variation-margin transactions, and every position
  that \<open>update_market_prices\<close> leaves, up to when the price of an untouched position was last
  observed. The positions that settle as cash must come in the same order in the book and among
  the marked ones, as they do when at most one of them is marked, because the ledger records
  settlements in the order they are met.\<close>

theorem mark_changed_is_full_mark:
  assumes reach: "pf_reach acct s"
    and rest: "\<forall>a p x. book_get (pf_positions s) a = Some p \<longrightarrow> od_get prices a = Some x \<longrightarrow>
      a \<notin> set (pf_pending_marks s) \<longrightarrow> changed \<noteq> Some a \<longrightarrow> at_rest x t p"
    and order: "filter (settles_gains prices) (changed_held changed s) =
      filter (\<lambda>h. settles_gains prices h \<and> (fst h \<in> set (pf_pending_marks s) \<or> changed = Some (fst h)))
        (bk_positions (pf_positions s))"
    and full: "update_market_prices ids prices t s = Inr s'" and one: "mark_changed ids prices t changed s = Inr s''"
  shows "pf_cash s'' = pf_cash s' \<and> pf_realized s'' = pf_realized s' \<and> pf_ledger s'' = pf_ledger s' \<and>
    (\<forall>a. map_option (\<lambda>p. p\<lparr>last_updated := t\<rparr>) (book_get (pf_positions s'') a) =
         map_option (\<lambda>p. p\<lparr>last_updated := t\<rparr>) (book_get (pf_positions s') a))"
proof -
  let ?h = "changed_held changed s" and ?b = "bk_positions (pf_positions s)"
  let ?met = "\<lambda>a. a \<in> set (pf_pending_marks s) \<or> changed = Some a"
  let ?f = "money_mark ids (account_id (pf_account s)) prices t" and ?M = "(pf_cash s, pf_realized s, pf_ledger s, [])"
  note d = reach_positions_distinct [OF reach]
  have srt: "marks_sorted s" using reach
    by (induction rule: pf_reach.induct) (auto simp: new_portfolio_def make_state_sorted intro: step_sorted)
  have in_held: "a \<in> fst ` set ?h \<longleftrightarrow> book_get (pf_positions s) a \<noteq> None \<and> ?met a" for a
    by (force simp: changed_held_def map_filter_def pending_with_def split: option.splits)
  have in_book: "(a, p) \<in> set ?b \<longleftrightarrow> book_get (pf_positions s) a = Some p" for a p
    using d by (simp add: book_get_def od_get_in)
  have "distinct (map fst ?b)" using d by (simp add: od_ok_def od_keys_def)
  note F = marked_money [OF full [unfolded update_market_prices_def] this, unfolded in_book]
  have C: "(\<exists>settled. rfold ?f ?M ?h = Inr (pf_cash s'', pf_realized s'', pf_ledger s'', settled)) \<and>
      (\<forall>a. book_get (pf_positions s'') a = (if a \<in> fst ` set ?h
        then map_option (after_mark prices t a) (book_get (pf_positions s) a) else book_get (pf_positions s) a))"
  proof (cases "(case changed of None \<Rightarrow> pf_pending_marks s | Some a \<Rightarrow> pending_with (pf_pending_marks s) [a] []) = []")
    case True
    then have "?h = []" by (simp only: changed_held_def map_filter_simps)
    moreover have "s'' = s" using one True by (simp add: mark_changed_def)
    ultimately have "?h = []" "s'' = s" by blast+
    then show ?thesis by simp
  next
    case False
    then have run: "marked ids s ?h prices t = Inr s''"
      using one by (simp add: mark_changed_def changed_held_def Let_def)
    have "(a, p) \<in> set ?h \<Longrightarrow> book_get (pf_positions s) a = Some p" for a p
      using changed_held_ok(2) [OF srt, of a p changed] by (simp add: book_get_def)
    note M = marked_money [OF run changed_held_ok(1) [OF srt] this]
    then show ?thesis by blast
  qed
  have "rfold ?f ?M ?h = rfold ?f ?M (filter (settles_gains prices) ?h)"
    by (rule rfold_skips) (auto intro: no_money)
  also have "\<dots> = rfold ?f ?M ?b" unfolding order
    by (rule rfold_skips [symmetric]) (use rest in \<open>auto simp: in_book intro!: no_money\<close>)
  finally have "pf_cash s'' = pf_cash s' \<and> pf_realized s'' = pf_realized s' \<and> pf_ledger s'' = pf_ledger s'"
    using C F(1) by auto
  moreover have "map_option (\<lambda>p. p\<lparr>last_updated := t\<rparr>) (book_get (pf_positions s'') a) =
      map_option (\<lambda>p. p\<lparr>last_updated := t\<rparr>) (book_get (pf_positions s') a)" for a
  proof (cases "book_get (pf_positions s) a")
    case None
    then show ?thesis using C F(2) [of a] by simp
  next
    case (Some p)
    then have in_b: "a \<in> fst ` set ?b" using in_book [of a p] by force
    have "(after_mark prices t a p)\<lparr>last_updated := t\<rparr> = p\<lparr>last_updated := t\<rparr>" if "\<not> ?met a"
    proof (cases "od_get prices a")
      case (Some x)
      with rest \<open>book_get (pf_positions s) a = Some p\<close> that have "at_rest x t p" by simp
      with Some show ?thesis by (auto simp: after_mark_def at_rest_def split: sum.splits)
    qed (simp add: after_mark_def)
    then show ?thesis using C F(2) [of a] in_held [of a] Some in_b by auto
  qed
  ultimately show ?thesis by blast
qed

text \<open>
  The account of the example buys two futures at 100, ten units each, and marks them at 101 while
  XYZ still stands at 60: the variation of 20 is paid in by both marks.
\<close>

definition example_future :: instrument_economics where
  "example_future = \<lparr>multiplier = Fin 10 0, settlement = FUTURES_VARIATION, lot = None, minimum_notional = None,
     allows_negative_prices = False\<rparr>"

definition future_held :: "decimal \<Rightarrow> decimal \<Rightarrow> decimal \<Rightarrow> decimal \<Rightarrow> pyfloat \<Rightarrow> position" where
  "future_held price average b realized t = \<lparr>pos_asset_id = ''FUT'', pos_quantity = Fin 2 0, average_cost = average,
     market_price = price, pos_realized_pnl = realized, pos_currency = ''USD'', last_updated = t,
     cost_basis = Some b, opened_at = Some (FFin 4), pos_minor_units = Some 2, pos_economics = Some example_future\<rparr>"

definition future_bought :: position where
  "future_bought = future_held (Fin 100 0) (Fin 10000 (-2)) (Fin 200000 (-2)) (Fin 0 0) (FFin 4)"

definition future_settled :: position where
  "future_settled = future_held (Fin 101 0) (Fin 10100 (-2)) (Fin 202000 (-2)) (Fin 2000 (-2)) (FFin 5)"

definition future_book :: "position \<Rightarrow> pyfloat \<Rightarrow> decimal \<Rightarrow> decimal \<Rightarrow> position_book" where
  "future_book p t v long =
     \<lparr>bk_positions = [(''XYZ'', example_holding (Fin 60 0) t), (''FUT'', p)],
      bk_entries = [(''XYZ'', Fin 60000 (-2), Fin 10000 (-2), Fin 0 0), (''FUT'', v, Fin 0 (-2), v)],
      bk_totals = [(''USD'', \<lparr>n_positions = 2, longs = 2, shorts = 0, long_value = long, short_value = Fin 0 0,
        total_unrealized = Fin 10000 (-2), uncarried_value = v\<rparr>)], bk_groups = None, bk_group_totals = []\<rparr>"

definition future_tx :: transaction where
  "future_tx = \<lparr>transaction_id = ''t3'', tx_timestamp = FFin 4, tx_account_id = ''acct'', tx_type = BUY_TX,
     tx_asset_id = ''FUT'', tx_quantity = Fin 2 0, tx_price = Fin 100 0, tx_commission = Fin 100 (-2),
     tx_currency = ''USD'', tx_metadata = []\<rparr>"

definition margin_held :: portfolio_state where
  "margin_held = repriced\<lparr>pf_cash := \<lparr>balances = [(''USD'', Fin 49800 (-2))], reserved = []\<rparr>,
     pf_positions := future_book future_bought (FFin 3) (Fin 200000 (-2)) (Fin 260000 (-2)),
     pf_ledger := pf_ledger repriced @ [future_tx],
     pf_events := pf_events repriced @ [PositionOpened (FFin 4) ''acct'' ''FUT'' (Fin 2 0) (Fin 100 0)],
     pf_commission := [(''USD'', Fin 200 (-2))], pf_pending_marks := [''FUT'']\<rparr>"

definition future_fresh :: position where
  "future_fresh = fresh_position ''FUT'' (Fin 100 0) ''USD'' (FFin 4) 2 (Some example_future)"

lemmas future_defs = example_future_def future_held_def future_bought_def future_settled_def future_fresh_def
  fresh_position_def future_book_def future_tx_def margin_held_def

lemma future_economics: "is_cash_equity example_future = False"
  by (simp add: is_cash_equity_def example_future_def economics_eq_def CASH_EQUITY_def dval.simps(1))

lemma future_met:
  "fill_position ''FUT'' (Fin 2 0) (Fin 100 0) (Fin 1 0) (FFin 4) ''USD'' (Some example_future) False repriced =
     Inr (future_fresh, Fin 100 (-2))"
proof -
  have "opt_eq economics_eq (Some example_future) (Some example_future)"
    by (simp add: opt_eq_def economics_eq_def example_future_def)
  moreover have "account_units (pf_account repriced) = []" "book_get (pf_positions repriced) ''FUT'' = None"
    by (simp_all add: example_defs book_get_def od_get_Cons)
  moreover have "admits_price example_future (Fin 100 0) = Inr True"
    by (simp add: admits_price_def example_future_def dec_eval dval.simps(1))
  moreover have "make_position future_fresh = Inr future_fresh"
    by (simp add: make_position_def future_defs MAX_MINOR_UNITS_def pos_eval)
  ultimately show ?thesis
    by (simp add: fill_position_def usd_known require_finite_def declared_economics_def future_economics
      fill_admitted_def or_cash_equity_def usd_units future_fresh_def fresh_position_def Let_def pos_eval)
qed

lemma future_opened:
  "pos_apply_fill (Fin 2 0) (Fin 100 0) (FFin 4) future_fresh = Inr (future_bought, Fin 0 0)"
  by (simp add: apply_settled_def pos_settle_def update_market_price_def future_defs pos_eval)

lemma future_placed:
  "booked_position ''acct'' ''FUT'' (FFin 4) (Fin 2 0) (Fin 100 0) (Fin 0 0) future_fresh future_bought (pf_positions repriced) =
   Inr (pf_positions margin_held, PositionOpened (FFin 4) ''acct'' ''FUT'' (Fin 2 0) (Fin 100 0))"
  by (simp add: booked_position_def future_defs example_defs book_eval od_item_def same_side_def moved_totals_def
    entry_difference_def exact_sum_def exact_sub_def pos_eval)

lemma future_fill:
  "apply_fill ''t3'' ''FUT'' (Fin 2 0) (Fin 100 0) (Fin 1 0) (FFin 4) ''USD'' (Some example_future) False None False repriced =
     Inr margin_held"
proof -
  have pays: "pays_notional future_fresh = False"
    by (simp add: pays_notional_def future_fresh_def fresh_position_def example_future_def)
  have place: "booked_position (account_id (pf_account repriced)) ''FUT'' (FFin 4) (Fin 2 0) (Fin 100 0) (Fin 0 0)
      future_fresh future_bought (pf_positions repriced) =
    Inr (pf_positions margin_held, PositionOpened (FFin 4) ''acct'' ''FUT'' (Fin 2 0) (Fin 100 0))"
    using future_placed by (simp add: example_defs)
  have traded: "trade_value future_fresh (Fin 2 0) (Fin 100 0) ''USD'' (account_units (pf_account repriced)) = Inr (Fin 0 0)"
    by (simp add: trade_value_def pays ZERO_MONEY_def)
  have impact: "fill_impact (Fin 2 0) (Fin 0 0) (Fin 100 (-2)) = Inr (Fin (-100) (-2))"
    by (simp add: fill_impact_def pos_eval)
  have paid: "fill_cash future_fresh (Fin 2 0) (Fin 0 0) (Fin (-100) (-2)) ''USD'' False (pf_cash repriced) =
      Inr (pf_cash margin_held)"
    by (simp add: fill_cash_def covering_def cash_withdraw_def available_cash_def cash_balance_def amount_of_def
      future_fresh_def fresh_position_def margin_held_def example_defs od_get_def pos_eval)
  show ?thesis
    unfolding apply_fill_def future_met rbind_Inr prod.case traded future_opened place impact paid
    by (simp add: fill_tx_def amounts_add_def make_state_def fill_marks_def fill_unsettled_def ledger_append_def
      book_get_def od_get_def pending_with_def example_defs amounts_of_def amount_of_def usd_known future_defs pos_eval)
qed

definition future_prices :: "(string, decimal) od" where
  "future_prices = [(''XYZ'', Fin 60 0), (''FUT'', Fin 101 0)]"

definition variation_tx :: transaction where
  "variation_tx = \<lparr>transaction_id = ''v'', tx_timestamp = FFin 5, tx_account_id = ''acct'', tx_type = VARIATION_MARGIN,
     tx_asset_id = ''FUT'', tx_quantity = Fin 2 0, tx_price = Fin 101 0, tx_commission = Fin 0 (-1),
     tx_currency = ''USD'', tx_metadata = []\<rparr>"

definition varied :: "pyfloat \<Rightarrow> (string, decimal) od \<Rightarrow> portfolio_state" where
  "varied t marks = margin_held\<lparr>pf_cash := \<lparr>balances = [(''USD'', Fin 51800 (-2))], reserved = []\<rparr>,
     pf_positions := future_book future_settled t (Fin 202000 (-2)) (Fin 262000 (-2)),
     pf_ledger := pf_ledger margin_held @ [variation_tx],
     pf_events := (pf_events margin_held @ [MarketValueUpdated (FFin 5) ''acct'' marks]) @
       [VariationSettled (FFin 5) ''acct'' ''FUT'' (Fin 101 0) (Fin 2000 (-2)) ''USD''],
     pf_realized := [(''USD'', Fin 2000 (-2))], pf_pending_marks := []\<rparr>"

lemma future_varies: "pos_settle (Fin 101 0) (FFin 5) future_bought = Inr (future_settled, Fin 2000 (-2))"
  by (simp add: pos_settle_def future_defs pos_eval)

text \<open>Settled at its price, the future is at rest there.\<close>

lemma future_rests: "at_rest (Fin 101 0) t future_settled"
  by (simp add: at_rest_def pos_settle_def future_defs pos_eval)

lemma xyz_settles:
  "pos_settle (Fin 60 0) (FFin 5) (example_holding (Fin 60 0) t) = Inr (example_holding (Fin 60 0) (FFin 5), Fin 0 0)"
  by (simp add: pos_settle_def update_market_price_def example_holding_def pos_eval)

lemma xyz_marked:
  "mark_one ids ''acct'' future_prices (FFin 5) (start_marking margin_held) (''XYZ'', example_holding (Fin 60 0) (FFin 3)) =
     Inr ((start_marking margin_held)\<lparr>mk_positions := future_book future_bought (FFin 5) (Fin 200000 (-2)) (Fin 260000 (-2)),
       mk_marked := [(''XYZ'', Fin 60 0)]\<rparr>)"
proof -
  have "book_set ACCOUNTING_CONTEXT ''XYZ'' (example_holding (Fin 60 0) (FFin 5)) (pf_positions margin_held) =
      Inr (future_book future_bought (FFin 5) (Fin 200000 (-2)) (Fin 260000 (-2)))"
    by (simp add: future_defs example_holding_def book_eval od_item_def same_side_def moved_totals_def
      entry_difference_def exact_sum_def exact_sub_def pos_eval)
  moreover have "admits_price (or_cash_equity (pos_economics (example_holding (Fin 60 0) (FFin 3)))) (Fin 60 0) = Inr True"
    by (simp add: admits_price_def or_cash_equity_def CASH_EQUITY_def example_holding_def pos_eval)
  ultimately show ?thesis by (simp add: mark_one_def xyz_settles start_marking_def future_prices_def od_get_Cons pos_eval)
qed

lemma future_marked:
  "mark_one (\<lambda>n. ''v'') ''acct'' future_prices (FFin 5)
     ((start_marking margin_held)\<lparr>mk_positions := future_book future_bought t (Fin 200000 (-2)) (Fin 260000 (-2)), mk_marked := ms\<rparr>)
     (''FUT'', future_bought) =
   Inr \<lparr>mk_positions = pf_positions (varied t ms), mk_marked = od_set ''FUT'' (Fin 101 0) ms, mk_cash = pf_cash (varied t ms),
     mk_realized = pf_realized (varied t ms), mk_ledger = pf_ledger (varied t ms),
     mk_settled = [VariationSettled (FFin 5) ''acct'' ''FUT'' (Fin 101 0) (Fin 2000 (-2)) ''USD'']\<rparr>"
proof -
  have "book_set ACCOUNTING_CONTEXT ''FUT'' future_settled (future_book future_bought t (Fin 200000 (-2)) (Fin 260000 (-2))) =
      Inr (pf_positions (varied t ms))"
    by (simp add: varied_def future_defs book_eval od_item_def same_side_def moved_totals_def
      entry_difference_def exact_sum_def exact_sub_def pos_eval)
  moreover have "admits_price (or_cash_equity (pos_economics future_bought)) (Fin 101 0) = Inr True"
    by (simp add: admits_price_def or_cash_equity_def future_defs pos_eval)
  moreover have "cash_settle ACCOUNTING_CONTEXT (Fin 2000 (-2)) ''USD'' (pf_cash margin_held) = Inr (pf_cash (varied t ms))"
    by (simp add: cash_settle_def cash_balance_def amount_of_def varied_def margin_held_def od_get_def pos_eval)
  moreover have "amounts_add (Fin 2000 (-2)) ''USD'' (pf_realized margin_held) = Inr (pf_realized (varied t ms))"
    by (simp add: amounts_add_def amounts_of_def amount_of_def usd_known varied_def margin_held_def example_defs od_get_def pos_eval)
  moreover have "pos_currency future_bought = ''USD''" "pos_quantity future_bought = Fin 2 0" by (simp_all add: future_defs)
  ultimately show ?thesis
    by (simp add: mark_one_def future_varies start_marking_def future_prices_def od_get_Cons align_def Let_def
      ledger_append_def variation_tx_def varied_def commission_zero_def)
qed

lemma example_remarked: "update_market_prices (\<lambda>n. ''v'') future_prices (FFin 5) margin_held = Inr (varied (FFin 5) future_prices)"
proof -
  have held: "bk_positions (pf_positions margin_held) = [(''XYZ'', example_holding (Fin 60 0) (FFin 3)), (''FUT'', future_bought)]"
    by (simp add: margin_held_def future_book_def)
  have acct: "account_id (pf_account margin_held) = ''acct''" by (simp add: margin_held_def example_defs)
  show ?thesis
    unfolding update_market_prices_def marked_def held acct start_marking_def [symmetric]
    by (simp add: xyz_marked future_marked) (simp add: varied_def future_prices_def pending_with_def od_keys_def margin_held_def acct)
qed

lemma example_changed: "mark_changed (\<lambda>n. ''v'') future_prices (FFin 5) None margin_held = Inr (varied (FFin 3) [(''FUT'', Fin 101 0)])"
proof -
  have "book_get (pf_positions margin_held) ''FUT'' = Some future_bought" "pf_pending_marks margin_held = [''FUT'']"
    by (simp_all add: margin_held_def future_book_def book_get_def od_get_Cons)
  then have c: "mark_changed (\<lambda>n. ''v'') future_prices (FFin 5) None margin_held =
      marked (\<lambda>n. ''v'') margin_held [(''FUT'', future_bought)] future_prices (FFin 5)"
    by (simp add: mark_changed_def)
  have acct: "account_id (pf_account margin_held) = ''acct''" by (simp add: margin_held_def example_defs)
  have start: "(start_marking margin_held)\<lparr>mk_positions := future_book future_bought (FFin 3) (Fin 200000 (-2)) (Fin 260000 (-2)),
      mk_marked := []\<rparr> = start_marking margin_held"
    by (simp add: start_marking_def margin_held_def)
  show ?thesis
    unfolding c marked_def start_marking_def [symmetric]
    by (simp add: acct future_marked [where t = "FFin 3" and ms = "[]", unfolded start])
      (simp add: varied_def pending_with_def od_keys_def margin_held_def acct)
qed

theorem mark_changed_is_full_mark_witness:
  "update_market_prices (\<lambda>n. ''v'') future_prices (FFin 5) margin_held = Inr (varied (FFin 5) future_prices) \<and>
   mark_changed (\<lambda>n. ''v'') future_prices (FFin 5) None margin_held = Inr (varied (FFin 3) [(''FUT'', Fin 101 0)]) \<and>
   pf_cash (varied (FFin 3) [(''FUT'', Fin 101 0)]) = pf_cash (varied (FFin 5) future_prices) \<and>
   pf_ledger (varied (FFin 3) [(''FUT'', Fin 101 0)]) = pf_ledger (varied (FFin 5) future_prices) \<and>
   pf_cash (varied (FFin 5) future_prices) \<noteq> pf_cash margin_held"
proof -
  have reach: "pf_reach example_account margin_held"
    by (rule pf_reach.op_done [OF example_reach, of "Fill_op ''t3'' ''FUT'' (Fin 2 0) (Fin 100 0) (Fin 1 0) (FFin 4) ''USD''
      (Some example_future) False None False"]) (simp add: future_fill)
  have paid: "pays_notional (example_holding p t)" for p t by (simp add: pays_notional_def example_holding_def)
  have rest: "\<forall>a p x. book_get (pf_positions margin_held) a = Some p \<longrightarrow> od_get future_prices a = Some x \<longrightarrow>
      a \<notin> set (pf_pending_marks margin_held) \<longrightarrow> None \<noteq> Some a \<longrightarrow> at_rest x (FFin 5) p"
    using at_rest_paid [OF paid [of "Fin 60 0" "FFin 3"], of "Fin 60 0" "FFin 5"]
    by (auto simp: margin_held_def future_book_def book_get_def od_get_Cons future_prices_def split: if_splits)
      (simp add: example_holding_def)
  have order: "filter (settles_gains future_prices) (changed_held None margin_held) =
      filter (\<lambda>h. settles_gains future_prices h \<and> (fst h \<in> set (pf_pending_marks margin_held) \<or> None = Some (fst h)))
        (bk_positions (pf_positions margin_held))"
    by (simp add: changed_held_def margin_held_def future_book_def book_get_def od_get_Cons List.map_filter_simps)
  have "pf_cash (varied (FFin 5) future_prices) \<noteq> pf_cash margin_held" by (simp add: varied_def margin_held_def)
  with mark_changed_is_full_mark [OF reach rest order example_remarked example_changed] example_remarked example_changed
  show ?thesis by blast
qed

section \<open>Pending marks\<close>

definition marks_held :: "portfolio_state \<Rightarrow> bool" where
  "marks_held s = (set (pf_pending_marks s) \<subseteq> set (od_keys (bk_positions (pf_positions s))))"

lemma set_pending_with: "set (pending_with p add remove) = (set p \<union> set add) - set remove"
  by (auto simp: pending_with_def)

lemma mark_loop_keys:
  assumes "rfold (mark_one ids acct prices t) m held = Inr m'"
    "set (od_keys (bk_positions b)) \<subseteq> set (od_keys (bk_positions (mk_positions m)))"
  shows "set (od_keys (bk_positions b)) \<subseteq> set (od_keys (bk_positions (mk_positions m')))"
proof (rule rfold_invariant [where P = "\<lambda>m. set (od_keys (bk_positions b)) \<subseteq> set (od_keys (bk_positions (mk_positions m)))",
      OF _ assms(2,1)])
  fix m x m'
  assume "set (od_keys (bk_positions b)) \<subseteq> set (od_keys (bk_positions (mk_positions m)))"
    "mark_one ids acct prices t m x = Inr m'"
  then show "set (od_keys (bk_positions b)) \<subseteq> set (od_keys (bk_positions (mk_positions m')))"
    by (cases x) (auto simp: mark_one_def rbind_eq_Inr Let_def dest!: book_set_positions split: option.splits if_splits)
qed

lemma marked_held:
  assumes run: "marked ids s held prices t = Inr s'" and held: "marks_held s"
  shows "marks_held s'"
proof -
  obtain m where m: "rfold (mark_one ids (account_id (pf_account s)) prices t) (start_marking s) held = Inr m"
      and "s' = (if mk_marked m = [] then s else s\<lparr>pf_positions := mk_positions m,
       pf_pending_marks := pending_with (pf_pending_marks s) [] (od_keys (mk_marked m)),
       pf_cash := mk_cash m, pf_realized := mk_realized m, pf_ledger := mk_ledger m,
       pf_events := (pf_events s @ [MarketValueUpdated t (account_id (pf_account s)) (mk_marked m)]) @ mk_settled m\<rparr>)"
    by (rule marked_run [OF run])
  then have s': "pf_positions s' = (if mk_marked m = [] then pf_positions s else mk_positions m)"
      "set (pf_pending_marks s') \<subseteq> set (pf_pending_marks s)"
    by (auto simp: set_pending_with)
  have "set (od_keys (bk_positions (pf_positions s))) \<subseteq> set (od_keys (bk_positions (mk_positions m)))"
    by (rule mark_loop_keys [OF m]) (simp add: start_marking_def)
  with s' held show ?thesis by (auto simp: marks_held_def split: if_splits)
qed

lemma booked_keys:
  assumes "booked_position acct a t q price pnl pos new b = Inr (b', ev)"
  shows "set (od_keys (bk_positions b)) - {a} \<subseteq> set (od_keys (bk_positions b'))"
proof (cases "dec_eq (pos_quantity new) dec_zero")
  case True
  with assms have "book_delete ACCOUNTING_CONTEXT a b = Inr b'" by (auto simp: booked_position_def rbind_eq_Inr)
  from book_delete_positions [OF this] show ?thesis by (auto simp: od_keys_del split: option.splits)
next
  case False
  with assms have "book_set ACCOUNTING_CONTEXT a new b = Inr b'"
    by (auto simp: booked_position_def rbind_eq_Inr split: if_splits)
  from book_set_positions [OF this] show ?thesis by auto
qed

lemma step_held:
  assumes run: "pf_step act s = Inr s'" and held: "marks_held s"
  shows "marks_held s'"
proof (cases act)
  case (Fill_op tid a q pr comm t c e final settles financed)
  with run have "apply_fill tid a q pr comm t c e final settles financed s = Inr s'" by simp
  then obtain pos pnl new b ev where
    B: "booked_position (account_id (pf_account s)) a t q pr pnl pos new (pf_positions s) = Inr (b, ev)"
    and s': "pf_positions s' = b" "set (pf_pending_marks s') = set (fill_marks a b (pf_pending_marks s))"
    by (rule apply_fill_rest)
  show ?thesis using booked_keys [OF B] held
    by (auto simp: marks_held_def s' fill_marks_def set_pending_with book_get_def od_get_None split: if_splits
      dest: od_get_Some_key)
next
  case (Mark_op ids prices t)
  with run held show ?thesis by (auto simp: update_market_prices_def intro: marked_held)
next
  case (Mark_changed_op ids prices t ch)
  with run held show ?thesis by (auto simp: mark_changed_def Let_def intro: marked_held split: if_splits)
next
  case (Split_op sp t)
  with run held show ?thesis
    by (auto simp: apply_split_def rbind_eq_Inr marks_held_def dest!: book_set_positions split: option.splits)
qed (use run held in \<open>auto simp: apply_deposit_def apply_withdrawal_def record_accrual_def close_accrual_def
    apply_cash_flow_def rbind_eq_Inr Let_def marks_held_def split: if_splits\<close>)

text \<open>The pending marks are always sorted, without repetition, and every one of them names a position
  the book holds.\<close>

theorem pending_marks_are_held:
  assumes "pf_reach acct s"
  shows "sorted_wrt (<) (pf_pending_marks s) \<and> list_all (\<lambda>a. book_get (pf_positions s) a \<noteq> None) (pf_pending_marks s)"
proof -
  have "marks_sorted s \<and> marks_held s"
    using assms
  proof (induction rule: pf_reach.induct)
    case opened
    then show ?case by (simp add: new_portfolio_def make_state_sorted) (simp add: marks_held_def make_state_def)
  next
    case (op_done s act s')
    then show ?case using step_sorted step_held by blast
  qed
  then show ?thesis by (auto simp: marks_sorted_def marks_held_def list_all_iff book_get_def od_get_None)
qed

theorem pending_marks_are_held_witness:
  "sorted_wrt (<) (pf_pending_marks holding) \<and> pf_pending_marks holding = [''XYZ''] \<and>
   list_all (\<lambda>a. book_get (pf_positions holding) a \<noteq> None) (pf_pending_marks holding)"
  using pending_marks_are_held [OF example_reach_holding] by (simp add: holding_def)

section \<open>What a fill refuses\<close>

text \<open>A fill is refused, and nothing is booked, when it names no currency, any of its figures is not
  finite, its quantity is zero, its price is one its economics do not admit, its currency has no known
  minor unit, or the position it meets is in another currency or booked by other economics.\<close>

theorem fill_refusals:
  assumes "blank c \<or> \<not> is_finite q \<or> \<not> is_finite price \<or> \<not> is_finite comm \<or> dec_eq q dec_zero \<or>
    fill_admitted (declared_economics economics) price final = Inr False \<or>
    minor_units (account_units (pf_account s)) c = Inl e \<or>
    (\<exists>p. book_get (pf_positions s) a = Some p \<and>
      (pos_currency p \<noteq> c \<or> \<not> opt_eq economics_eq (pos_economics p) (declared_economics economics)))"
  shows "\<exists>e. apply_fill tid a q price comm t c economics final settles financed s = Inl e"
proof -
  have "fill_position a q price comm t c economics final s \<noteq> Inr r" for r
  proof
    assume "fill_position a q price comm t c economics final s = Inr r"
    then show False using assms
      by (auto simp: fill_position_def rbind_eq_Inr Let_def require_finite_def split: if_splits option.splits)
  qed
  then obtain e' where "fill_position a q price comm t c economics final s = Inl e'"
    by (cases "fill_position a q price comm t c economics final s") auto
  then show ?thesis by (simp add: apply_fill_def)
qed

theorem fill_refusals_witness:
  "\<exists>e. apply_fill ''t9'' ''XYZ'' (Fin 1 0) (Fin 60 0) (Fin 0 0) (FFin 4) ''EUR'' None False None False repriced = Inl e"
  by (rule fill_refusals)
    (simp add: repriced_def holding_book_def example_holding_def book_get_def od_get_Cons)

end
