(* ===== verification/Sorting.thy ===== *)
theory Sorting
  imports Prelude "HOL-Library.Multiset"
begin

text \<open>
  What the code does with \<open>sorted\<close>, \<open>max\<close> and their keys: the stable sort by a comparison and the
  first maximal element. The locale \<open>weak_order\<close> is what a comparison must satisfy for Python's
  sort to be the stable sort; each component interprets it on its own keys.
\<close>

section \<open>The first maximal element\<close>

text \<open>\<open>max(xs, key=f)\<close> keeps the earliest of the largest.\<close>

fun first_max :: "('a \<Rightarrow> int) \<Rightarrow> 'a \<Rightarrow> 'a list \<Rightarrow> 'a" where
  "first_max f m [] = m"
| "first_max f m (x # xs) = first_max f (if f m < f x then x else m) xs"

lemma first_max_in: "first_max f m xs \<in> insert m (set xs)"
  by (induction f m xs rule: first_max.induct) (auto split: if_splits)

lemma first_max_largest: "x \<in> insert m (set xs) \<Longrightarrow> f x \<le> f (first_max f m xs)"
proof (induction xs arbitrary: m x)
  case (Cons y ys)
  let ?n = "if f m < f y then y else m"
  have "f ?n \<le> f (first_max f ?n ys)" by (rule Cons.IH) simp
  moreover have "f m \<le> f ?n" "f y \<le> f ?n" by auto
  moreover have "x \<in> set ys \<Longrightarrow> f x \<le> f (first_max f ?n ys)" by (rule Cons.IH) simp
  ultimately show ?case using Cons.prems by auto
qed simp

section \<open>Stable sorting\<close>

text \<open>\<open>place\<close> puts an element before the first one it is less than, after all others.\<close>

fun place :: "('a \<Rightarrow> 'a \<Rightarrow> bool) \<Rightarrow> 'a \<Rightarrow> 'a list \<Rightarrow> 'a list" where
  "place lt x [] = [x]"
| "place lt x (y # ys) = (if lt x y then x # y # ys else y # place lt x ys)"

definition stable_sort :: "('a \<Rightarrow> 'a \<Rightarrow> bool) \<Rightarrow> 'a list \<Rightarrow> 'a list" where
  "stable_sort lt xs = foldl (\<lambda>acc x. place lt x acc) [] xs"

lemma mset_place [simp]: "mset (place lt x xs) = add_mset x (mset xs)"
  by (induction lt x xs rule: place.induct) auto

lemma set_place [simp]: "set (place lt x xs) = insert x (set xs)"
  by (induction lt x xs rule: place.induct) auto

lemma stable_sort_snoc: "stable_sort lt (xs @ [x]) = place lt x (stable_sort lt xs)"
  by (simp add: stable_sort_def)

lemma mset_stable_sort [simp]: "mset (stable_sort lt xs) = mset xs"
  by (induction xs rule: rev_induct) (simp_all add: stable_sort_snoc stable_sort_def [of lt "[]"])

lemma set_stable_sort [simp]: "set (stable_sort lt xs) = set xs"
  by (metis mset_stable_sort set_mset_mset)

lemma length_stable_sort [simp]: "length (stable_sort lt xs) = length xs"
  by (metis mset_stable_sort size_mset)

lemma place_last: "(\<And>y. y \<in> set xs \<Longrightarrow> \<not> lt x y) \<Longrightarrow> place lt x xs = xs @ [x]"
  by (induction lt x xs rule: place.induct) auto

locale weak_order =
  fixes ok :: "'a \<Rightarrow> bool" and lt :: "'a \<Rightarrow> 'a \<Rightarrow> bool"
  assumes asym: "ok a \<Longrightarrow> ok b \<Longrightarrow> lt a b \<Longrightarrow> \<not> lt b a"
    and le_trans: "ok a \<Longrightarrow> ok b \<Longrightarrow> ok c \<Longrightarrow> \<not> lt b a \<Longrightarrow> \<not> lt c b \<Longrightarrow> \<not> lt c a"
begin

abbreviation in_order :: "'a list \<Rightarrow> bool" where
  "in_order xs \<equiv> sorted_wrt (\<lambda>a b. \<not> lt b a) xs"

lemma place_in_order:
  "ok x \<Longrightarrow> \<forall>y \<in> set xs. ok y \<Longrightarrow> in_order xs \<Longrightarrow> in_order (place lt x xs)"
proof (induction xs)
  case (Cons y ys)
  show ?case
  proof (cases "lt x y")
    case True
    then have "\<not> lt y x" using Cons.prems asym by simp
    moreover have "\<not> lt z x" if "z \<in> set ys" for z
      using that Cons.prems le_trans [of x y z] \<open>\<not> lt y x\<close> by simp
    ultimately show ?thesis using True Cons.prems by simp
  next
    case False
    with Cons show ?thesis by auto
  qed
qed simp

lemma stable_sort_in_order: "\<forall>x \<in> set xs. ok x \<Longrightarrow> in_order (stable_sort lt xs)"
proof (induction xs rule: rev_induct)
  case Nil
  then show ?case by (simp add: stable_sort_def)
next
  case (snoc x xs)
  then show ?case by (simp add: stable_sort_snoc place_in_order)
qed

lemma sorted_is_stable:
  "\<forall>x \<in> set xs. ok x \<Longrightarrow> in_order xs \<Longrightarrow> stable_sort lt xs = xs"
proof (induction xs rule: rev_induct)
  case Nil
  then show ?case by (simp add: stable_sort_def)
next
  case (snoc x xs)
  then have "stable_sort lt xs = xs" by (simp add: sorted_wrt_append)
  moreover have "place lt x xs = xs @ [x]"
    using snoc.prems by (intro place_last) (auto simp: sorted_wrt_append)
  ultimately show ?case by (simp add: stable_sort_snoc)
qed

text \<open>An element not below the last one belongs at the end.\<close>

lemma append_is_stable:
  assumes "\<forall>y \<in> set xs. ok y" "ok x" "in_order xs" "xs \<noteq> [] \<Longrightarrow> \<not> lt x (last xs)"
  shows "stable_sort lt (xs @ [x]) = xs @ [x]"
proof -
  have "\<not> lt x y" if "y \<in> set xs" for y
  proof -
    from that obtain zs where zs: "xs = zs @ [last xs]" by (metis append_butlast_last_id empty_iff list.set(1))
    then have "y = last xs \<or> \<not> lt (last xs) y"
      using that assms(3) by (metis UnE empty_iff insert_iff list.set set_append sorted_wrt_append)
    moreover have ne: "xs \<noteq> []" using that by auto
    ultimately show ?thesis
      using assms(4) [OF ne] le_trans [of y "last xs" x] that assms(1,2) last_in_set [OF ne] by blast
  qed
  then show ?thesis using sorted_is_stable [OF assms(1,3)] by (simp add: stable_sort_snoc place_last)
qed

end

end
