(* ===== verification/Floats.thy ===== *)
theory Floats
  imports Prelude
begin

text \<open>
  Arithmetic on Python floats: IEEE 754 binary64, round to nearest with ties to even. A finite
  float is the rational it denotes (the sign of zero is not kept: no comparison sees it), and the
  result of an operation is the exact rational result rounded by \<open>fl\<close>. Rounding is monotone
  and leaves a representable value alone; the gap above a value is its unit in the last place.
\<close>

section \<open>Rounding\<close>

fun ilog2 :: "nat \<Rightarrow> nat" where
  "ilog2 n = (if n < 2 then 0 else Suc (ilog2 (n div 2)))"

declare ilog2.simps [simp del]

text \<open>The binade of a positive rational: the \<open>e\<close> with \<open>2 powi e \<le> r < 2 powi (e + 1)\<close>.\<close>

definition binade :: "rat \<Rightarrow> int" where
  "binade r = (case quotient_of r of (n, d) \<Rightarrow>
     let k = int (ilog2 (nat n)) - int (ilog2 (nat d))
     in if 2 powi k \<le> r then k else k - 1)"

definition half_even :: "rat \<Rightarrow> int" where
  "half_even x = (let k = \<lfloor>x\<rfloor>; f = x - of_int k in
     if 2 * f < 1 then k else if 1 < 2 * f then k + 1 else if even k then k else k + 1)"

definition ulp_exp :: "rat \<Rightarrow> int" where
  "ulp_exp r = (if r = 0 then - 1074 else max (binade \<bar>r\<bar> - 52) (- 1074))"

definition round_at :: "int \<Rightarrow> rat \<Rightarrow> rat" where
  "round_at q r = of_int (half_even (r / 2 powi q)) * 2 powi q"

definition fl :: "rat \<Rightarrow> pyfloat" where
  "fl r = (let x = round_at (ulp_exp r) r in if 2 ^ 1024 \<le> \<bar>x\<bar> then FInf (r < 0) else FFin x)"

section \<open>Operations\<close>

fun flt_neg :: "pyfloat \<Rightarrow> pyfloat" where
  "flt_neg (FFin x) = FFin (- x)"
| "flt_neg (FInf n) = FInf (\<not> n)"
| "flt_neg FNaN = FNaN"

fun flt_add :: "pyfloat \<Rightarrow> pyfloat \<Rightarrow> pyfloat" where
  "flt_add (FFin x) (FFin y) = fl (x + y)"
| "flt_add (FFin x) (FInf n) = FInf n"
| "flt_add (FInf n) (FFin x) = FInf n"
| "flt_add (FInf n) (FInf m) = (if n = m then FInf n else FNaN)"
| "flt_add _ _ = FNaN"

definition flt_sub :: "pyfloat \<Rightarrow> pyfloat \<Rightarrow> pyfloat" where
  "flt_sub x y = flt_add x (flt_neg y)"

fun flt_mul :: "pyfloat \<Rightarrow> pyfloat \<Rightarrow> pyfloat" where
  "flt_mul (FFin x) (FFin y) = fl (x * y)"
| "flt_mul (FFin x) (FInf n) = (if x = 0 then FNaN else FInf (n \<noteq> (x < 0)))"
| "flt_mul (FInf n) (FFin x) = (if x = 0 then FNaN else FInf (n \<noteq> (x < 0)))"
| "flt_mul (FInf n) (FInf m) = FInf (n \<noteq> m)"
| "flt_mul _ _ = FNaN"

text \<open>An integer met by a float is rounded first; one beyond the largest float raises.\<close>

definition flt_of_int :: "int \<Rightarrow> pyfloat res" where
  "flt_of_int n = (case fl (of_int n) of FFin x \<Rightarrow> Inr (FFin x) | _ \<Rightarrow> Inl OverflowError)"

definition flt_le :: "pyfloat \<Rightarrow> pyfloat \<Rightarrow> bool" where
  "flt_le x y = (flt_lt x y \<or> flt_eq x y)"

section \<open>The binade\<close>

lemma ilog2_bounds: "0 < n \<Longrightarrow> 2 ^ ilog2 n \<le> n \<and> n < 2 ^ Suc (ilog2 n)"
proof (induction n rule: ilog2.induct)
  case (1 n)
  show ?case
  proof (cases "n < 2")
    case True
    with 1(2) have "n = 1" by simp
    then show ?thesis by (simp add: ilog2.simps)
  next
    case False
    then have "2 ^ ilog2 (n div 2) \<le> n div 2 \<and> n div 2 < 2 ^ Suc (ilog2 (n div 2))" using 1(1) by simp
    with False show ?thesis by (subst (1 2) ilog2.simps) auto
  qed
qed

lemma two_powi_pos [simp]: "0 < (2::rat) powi k"
  by simp

lemma two_powi_mono: "a \<le> b \<Longrightarrow> (2::rat) powi a \<le> 2 powi b"
  by (rule power_int_increasing) simp_all

lemma two_powi_less: "a < b \<Longrightarrow> (2::rat) powi a < 2 powi b"
  by (rule power_int_strict_increasing) simp_all

lemma two_powi_Suc: "(2::rat) powi (k + 1) = 2 * 2 powi k"
  by (simp add: power_int_add)

lemma two_powi_nat_diff: "(2::rat) powi (int a - int b) = 2 ^ a / 2 ^ b"
  by (simp add: power_int_diff)

lemma binade_bounds:
  assumes "0 < r"
  shows "2 powi binade r \<le> r \<and> r < 2 powi (binade r + 1)"
proof -
  obtain n d where q: "quotient_of r = (n, d)" by (cases "quotient_of r")
  have d: "0 < d" using quotient_of_denom_pos [OF q] .
  have r: "r = of_int n / of_int d" using quotient_of_div [OF q] .
  with assms d have n: "0 < n" by (simp add: zero_less_divide_iff)
  let ?a = "ilog2 (nat n)" and ?b = "ilog2 (nat d)"
  let ?k = "int ?a - int ?b"
  have A: "2 ^ ?a \<le> nat n" "nat n < 2 ^ Suc ?a" and B: "2 ^ ?b \<le> nat d" "nat d < 2 ^ Suc ?b"
    using ilog2_bounds [of "nat n"] ilog2_bounds [of "nat d"] n d by auto
  have conv: "(of_nat (nat n) :: rat) = of_int n" "(of_nat (nat d) :: rat) = of_int d" using n d by simp_all
  have an: "2 ^ ?a \<le> (of_int n :: rat)" "(of_int n :: rat) < 2 ^ Suc ?a"
    using A unfolding conv [symmetric] of_nat_power_le_of_nat_cancel_iff [symmetric]
    by (metis of_nat_le_iff of_nat_numeral of_nat_power, metis of_nat_less_iff of_nat_numeral of_nat_power)
  have bd: "2 ^ ?b \<le> (of_int d :: rat)" "(of_int d :: rat) < 2 ^ Suc ?b"
    using B unfolding conv [symmetric]
    by (metis of_nat_le_iff of_nat_numeral of_nat_power, metis of_nat_less_iff of_nat_numeral of_nat_power)
  have dp: "0 < (of_int d :: rat)" using d by simp
  have "r < 2 ^ Suc ?a / 2 ^ ?b"
    unfolding r using an bd dp n by (intro frac_less) auto
  then have up: "r < 2 powi (?k + 1)" unfolding two_powi_Suc two_powi_nat_diff by simp
  have "2 ^ ?a / 2 ^ Suc ?b < r"
    unfolding r by (rule frac_less2) (use an bd dp in auto)
  then have lo: "2 powi (?k - 1) < r" using two_powi_Suc [of "?k - 1"] two_powi_nat_diff [of ?a ?b] by simp
  show ?thesis using up lo by (auto simp: binade_def q Let_def)
qed

lemma binade_unique:
  assumes "2 powi e \<le> r" "r < 2 powi (e + 1)"
  shows "binade r = e"
proof -
  have "0 < r" using assms(1) two_powi_pos [of e] by linarith
  note B = binade_bounds [OF this]
  have "\<not> e + 1 \<le> binade r" using two_powi_mono [of "e + 1" "binade r"] B assms by linarith
  moreover have "\<not> binade r + 1 \<le> e" using two_powi_mono [of "binade r + 1" e] B assms by linarith
  ultimately show ?thesis by linarith
qed

lemma binade_powi [simp]: "binade (2 powi e) = e"
  by (rule binade_unique) (simp_all add: two_powi_less)

lemma ulp_exp_powi: "ulp_exp (2 powi e) = max (e - 52) (- 1074)"
  by (simp add: ulp_exp_def)

lemma ulp_exp_0: "ulp_exp 0 = - 1074"
  by (simp add: ulp_exp_def)

lemma binade_mono: "0 < r \<Longrightarrow> r \<le> s \<Longrightarrow> binade r \<le> binade s"
proof (rule ccontr)
  assume a: "0 < r" "r \<le> s" "\<not> binade r \<le> binade s"
  then have "2 powi (binade s + 1) \<le> (2::rat) powi binade r" by (intro two_powi_mono) simp
  with a binade_bounds [of r] binade_bounds [of s] show False by linarith
qed

section \<open>Rounding is monotone and exact on the grid\<close>

lemma half_even_of_int [simp]: "half_even (of_int k) = k"
  by (simp add: half_even_def)

lemma half_even_bounds: "of_int (half_even x) \<le> x + 1/2" "x - 1/2 \<le> of_int (half_even x)"
  by (auto simp: half_even_def Let_def) (use of_int_floor_le [of x] in linarith)+

lemma half_even_mono:
  assumes "x \<le> y"
  shows "half_even x \<le> half_even y"
proof (cases "\<lfloor>x\<rfloor> = \<lfloor>y\<rfloor>")
  case True
  with assms show ?thesis by (auto simp: half_even_def Let_def)
next
  case False
  have m: "\<lfloor>x\<rfloor> \<le> \<lfloor>y\<rfloor>" using assms by (rule floor_mono)
  have "half_even x \<le> \<lfloor>x\<rfloor> + 1" "\<lfloor>y\<rfloor> \<le> half_even y" by (auto simp: half_even_def Let_def)
  with m False show ?thesis by linarith
qed

lemma round_at_grid: "round_at q (of_int k * 2 powi q) = of_int k * 2 powi q"
  by (simp add: round_at_def)

lemma round_at_mono: "x \<le> y \<Longrightarrow> round_at q x \<le> round_at q y"
  unfolding round_at_def
  by (intro mult_right_mono) (auto intro!: half_even_mono divide_right_mono)

lemma finer_grid: "q \<le> p \<Longrightarrow> \<exists>k::int. of_int j * (2::rat) powi p = of_int k * 2 powi q"
proof -
  assume "q \<le> p"
  then have "(2::rat) powi (p - q) = of_int (2 ^ nat (p - q))" by (simp add: power_int_def)
  moreover have "(2::rat) powi p = 2 powi (p - q) * 2 powi q" by (simp flip: power_int_add)
  ultimately have "(2::rat) powi p = of_int (2 ^ nat (p - q)) * 2 powi q" by simp
  then show ?thesis by (metis (no_types) mult.assoc of_int_mult)
qed

text \<open>The doubles: multiples of a power of two with at most 53 bits.\<close>

definition is_double :: "rat \<Rightarrow> bool" where
  "is_double x = (\<bar>x\<bar> < 2 ^ 1024 \<and> round_at (ulp_exp x) x = x)"

lemma fl_double: "is_double x \<Longrightarrow> fl x = FFin x"
  by (auto simp: is_double_def fl_def Let_def)

lemma ulp_exp_mono: "0 \<le> r \<Longrightarrow> r \<le> s \<Longrightarrow> ulp_exp r \<le> ulp_exp s"
  using binade_mono [of r s] by (cases "r = 0") (auto simp: ulp_exp_def)

lemma round_at_nonneg: "0 \<le> x \<Longrightarrow> 0 \<le> round_at q x"
  using round_at_mono [of 0 x q] round_at_grid [of q 0] by simp

lemma binade_grid:
  assumes "ulp_exp r \<le> e"
  shows "round_at (ulp_exp r) (2 powi e) = 2 powi e"
  using finer_grid [OF assms, of 1] round_at_grid by auto

lemma round_at_next_binade:
  assumes "0 < r"
  shows "round_at (ulp_exp r) r \<le> 2 powi (max (binade r + 1) (- 1074))"
proof -
  have b: "r \<le> 2 powi (max (binade r + 1) (- 1074))"
    using binade_bounds [OF assms] two_powi_mono [of "binade r + 1" "max (binade r + 1) (- 1074)"] by linarith
  have "ulp_exp r \<le> max (binade r + 1) (- 1074)" using assms by (auto simp: ulp_exp_def)
  from round_at_mono [OF b, of "ulp_exp r"] binade_grid [OF this] show ?thesis by simp
qed

lemma round_up_mono:
  assumes "0 \<le> r" "r \<le> s"
  shows "round_at (ulp_exp r) r \<le> round_at (ulp_exp s) s"
proof (cases "ulp_exp r = ulp_exp s")
  case True
  with assms show ?thesis by (simp add: round_at_mono)
next
  case False
  with ulp_exp_mono [OF assms] have less: "ulp_exp r < ulp_exp s" by simp
  show ?thesis
  proof (cases "r = 0")
    case True
    then show ?thesis using round_at_nonneg [of s "ulp_exp s"] assms round_at_grid [of "ulp_exp r" 0] by simp
  next
    case False
    with assms have pos: "0 < r" "0 < s" by auto
    with less have e: "max (binade r + 1) (- 1074) \<le> binade s" "ulp_exp s \<le> binade s"
      by (auto simp: ulp_exp_def)
    have "round_at (ulp_exp r) r \<le> 2 powi binade s"
      using round_at_next_binade [OF pos(1)] two_powi_mono [OF e(1)] by linarith
    also have "\<dots> \<le> round_at (ulp_exp s) s"
      using round_at_mono [of "2 powi binade s" s "ulp_exp s"] binade_bounds [OF pos(2)] binade_grid [OF e(2)] by simp
    finally show ?thesis .
  qed
qed

text \<open>Adding at least the gap above a double moves past it.\<close>

lemma next_double:
  assumes "is_double x" "0 \<le> x" "2 powi ulp_exp x \<le> d"
  shows "x + 2 powi ulp_exp x \<le> round_at (ulp_exp (x + d)) (x + d)"
proof -
  let ?q = "ulp_exp x" and ?y = "x + 2 powi ulp_exp x"
  obtain k where k: "x = of_int k * 2 powi ?q"
    using assms(1) unfolding is_double_def round_at_def by metis
  have y: "?y = of_int (k + 1) * 2 powi ?q" by (subst k) (simp add: algebra_simps)
  have "round_at (ulp_exp ?y) ?y = ?y"
  proof (cases "x = 0")
    case True
    then have q: "?y = 2 powi ulp_exp 0" by (simp only: True add_0)
    have "ulp_exp ?y = ulp_exp 0" unfolding q ulp_exp_powi by (simp only: ulp_exp_0)
    then show ?thesis using round_at_grid [of "ulp_exp 0" 1] q by simp
  next
    case False
    with assms have pos: "0 < x" by simp
    have "?q \<le> ulp_exp ?y" using assms(2) by (intro ulp_exp_mono) simp_all
    moreover have "ulp_exp ?y \<le> ?q \<or> (\<exists>e. ?y = 2 powi e \<and> ulp_exp ?y \<le> e)"
    proof (cases "?y < 2 powi (binade x + 1)")
      case True
      have "binade ?y = binade x"
        using binade_bounds [OF pos] True by (intro binade_unique) (auto intro: order_trans)
      then show ?thesis using pos by (simp add: ulp_exp_def)
    next
      case False
      have qb: "?q \<le> binade x + 1 \<or> binade x + 1 < - 1074" using pos by (auto simp: ulp_exp_def)
      show ?thesis
      proof (cases "?q \<le> binade x + 1")
        case True
        obtain j where j: "2 powi (binade x + 1) = of_int j * (2::rat) powi ?q" using finer_grid [OF True, of 1] by auto
        have "of_int k * 2 powi ?q < of_int j * (2::rat) powi ?q" using binade_bounds [OF pos] k j by simp
        then have "k + 1 \<le> j" by simp
        then have "of_int (k + 1) * 2 powi ?q \<le> of_int j * (2::rat) powi ?q"
          by (intro mult_right_mono) (simp_all only: of_int_le_iff, simp)
        then have e: "?y = 2 powi (binade x + 1)" using False y j by linarith
        have "ulp_exp ?y \<le> binade x + 1" unfolding e ulp_exp_powi using True pos by (simp add: ulp_exp_def)
        with e show ?thesis by blast
      next
        case False
        then have small: "binade x + 1 < - 1074" using qb by blast
        then have q: "?q = - 1074" using pos by (simp add: ulp_exp_def)
        have "x < 2 powi (- 1074)" using binade_bounds [OF pos] two_powi_less [OF small] by linarith
        then have "of_int k * 2 powi ?q < 1 * (2::rat) powi ?q" using k q by simp
        then have "k < 1" by simp
        then have "of_int k * 2 powi ?q \<le> (0::rat)" by (intro mult_nonpos_nonneg) simp_all
        with pos k show ?thesis by linarith
      qed
    qed
    ultimately show ?thesis
      using round_at_grid [of ?q "k + 1"] y binade_grid [of ?y] by (metis order_antisym)
  qed
  moreover have "round_at (ulp_exp ?y) ?y \<le> round_at (ulp_exp (x + d)) (x + d)"
    using assms by (intro round_up_mono) auto
  ultimately show ?thesis by simp
qed

text \<open>Integers of at most 53 bits are doubles.\<close>

lemma fl_of_int:
  assumes "\<bar>n\<bar> < 2 ^ 53"
  shows "fl (of_int n) = FFin (of_int n)"
proof (rule fl_double)
  have b: "\<bar>of_int n\<bar> < (2::rat) ^ 53"
    using assms by (metis of_int_abs of_int_less_iff of_int_numeral of_int_power)
  have "ulp_exp (of_int n) \<le> 0"
  proof (cases "n = 0")
    case False
    then have "0 < \<bar>of_int n :: rat\<bar>" by simp
    note B = binade_bounds [OF this]
    have "\<not> 53 \<le> binade \<bar>of_int n\<bar>"
    proof
      assume "53 \<le> binade \<bar>of_int n :: rat\<bar>"
      then have "2 powi 53 \<le> (2::rat) powi binade \<bar>of_int n\<bar>" by (rule two_powi_mono)
      with B b show False by simp
    qed
    then show ?thesis by (simp add: ulp_exp_def)
  qed (simp add: ulp_exp_def)
  from finer_grid [OF this, of n] obtain k where "of_int n = of_int k * (2::rat) powi ulp_exp (of_int n)" by auto
  then have "round_at (ulp_exp (of_int n)) (of_int n) = of_int n" by (metis round_at_grid)
  moreover have "\<bar>of_int n\<bar> < (2::rat) ^ 1024"
    using b power_strict_increasing [of 53 1024 "2::rat"] by linarith
  ultimately show "is_double (of_int n)" by (simp add: is_double_def)
qed

lemma fl_numeral: "numeral n < (2::int) ^ 53 \<Longrightarrow> fl (numeral n) = FFin (numeral n)"
  using fl_of_int [of "numeral n"] by simp

lemma fl_zero [simp]: "fl 0 = FFin 0" and fl_one [simp]: "fl 1 = FFin 1"
  using fl_of_int [of 0] fl_of_int [of 1] by simp_all

end
