(* ===== verification/Cluster.thy ===== *)
theory Cluster
  imports Dicts Texts Sorting Floats
begin

text \<open>
  The distributed research cluster: \<open>alphalab/distributed\<close> (jobs, workers, state, queue, registry,
  coordinator, scheduler, validation) and \<open>alphalab/cluster_scheduler\<close> (aging, affinity, queue
  positions). Every operation is a function from a state to a new state or an exception; the
  identifiers drawn by \<open>new_id\<close> are arguments, \<open>ids n\<close> the \<open>n\<close>-th of an assignment. The state's
  persistent maps and sets are insertion-ordered dictionaries and its logs are lists. A job's
  payload is opaque: its values are texts here, and no operation reads them.
\<close>

section \<open>Jobs, workers and state\<close>

datatype job_type = BACKTEST | OPTIMIZATION | REPLAY | ANALYTICS | REPORT | PLUGIN_TASK

datatype job_status = JOB_PENDING | JOB_ASSIGNED | JOB_RUNNING | JOB_COMPLETED | JOB_FAILED | JOB_CANCELLED

record job =
  job_id :: string
  job_kind :: job_type
  job_state :: job_status
  priority :: int
  created_timestamp :: pyfloat
  started_timestamp :: pyfloat
  completed_timestamp :: pyfloat
  job_worker :: "string option"
  payload :: "(string, string) od"
  job_metadata :: "(string, string) od"

datatype worker_status = IDLE | BUSY | OFFLINE

record worker_node =
  node_id :: string
  hostname :: string
  worker_state :: worker_status
  capacity :: int
  worker_jobs :: "string list"
  completed_count :: int
  worker_metadata :: "(string, string) od"

datatype cluster_event =
    JobSubmitted string pyfloat string job_type int
  | JobAssigned string pyfloat string string
  | JobStarted string pyfloat string string
  | JobCompleted string pyfloat string string pyfloat
  | JobFailed string pyfloat string string string
  | JobCancelled string pyfloat string string
  | WorkerRegistered string pyfloat string int
  | WorkerRemoved string pyfloat string

record cluster_statistics =
  total_jobs_submitted :: int
  total_jobs_completed :: int
  total_jobs_failed :: int
  total_jobs_cancelled :: int

record cluster_state =
  cluster_id :: string
  workers :: "(string, worker_node) od"
  queued_jobs :: "job list"
  queued_ids :: "string list"
  running_jobs :: "(string, job) od"
  completed_jobs :: "(string, job) od"
  failed_jobs :: "(string, job) od"
  cancelled_jobs :: "(string, job) od"
  statistics :: cluster_statistics
  cl_events :: "cluster_event list"

definition cluster_initialize :: "string \<Rightarrow> cluster_state res" where
  "cluster_initialize cid =
     (if blank cid then Inl ValueError
      else Inr \<lparr>cluster_id = cid, workers = [], queued_jobs = [], queued_ids = [], running_jobs = [],
        completed_jobs = [], failed_jobs = [], cancelled_jobs = [],
        statistics = \<lparr>total_jobs_submitted = 0, total_jobs_completed = 0, total_jobs_failed = 0,
          total_jobs_cancelled = 0\<rparr>, cl_events = []\<rparr>)"

section \<open>Validation\<close>

definition od_has :: "('k, 'v) od \<Rightarrow> 'k \<Rightarrow> bool" where
  "od_has m k = (od_get m k \<noteq> None)"

definition validate_worker_registration :: "cluster_state \<Rightarrow> worker_node \<Rightarrow> unit res" where
  "validate_worker_registration s w =
     (if blank (node_id w) then Inl DistributedValidationError
      else if od_has (workers s) (node_id w) then Inl DistributedValidationError
      else if capacity w \<le> 0 then Inl DistributedValidationError
      else Inr ())"

definition validate_job_submission :: "cluster_state \<Rightarrow> job \<Rightarrow> unit res" where
  "validate_job_submission s j =
     (if blank (job_id j) then Inl DistributedValidationError
      else if priority j < 0 then Inl DistributedValidationError
      else if job_id j \<in> set (queued_ids s) \<or> od_has (running_jobs s) (job_id j) \<or>
              od_has (completed_jobs s) (job_id j) \<or> od_has (failed_jobs s) (job_id j) \<or>
              od_has (cancelled_jobs s) (job_id j)
        then Inl DistributedValidationError
      else Inr ())"

definition valid_transitions :: "job_status \<Rightarrow> job_status list" where
  "valid_transitions st = (case st of
       JOB_PENDING \<Rightarrow> [JOB_ASSIGNED, JOB_CANCELLED]
     | JOB_ASSIGNED \<Rightarrow> [JOB_RUNNING, JOB_FAILED, JOB_CANCELLED]
     | JOB_RUNNING \<Rightarrow> [JOB_COMPLETED, JOB_FAILED]
     | _ \<Rightarrow> [])"

definition validate_job_transition :: "job \<Rightarrow> job_status \<Rightarrow> unit res" where
  "validate_job_transition j goal =
     (if goal \<in> set (valid_transitions (job_state j)) then Inr () else Inl InvalidJobStateError)"

section \<open>The registry\<close>

definition register_worker :: "string \<Rightarrow> worker_node \<Rightarrow> pyfloat \<Rightarrow> cluster_state \<Rightarrow> cluster_state res" where
  "register_worker eid w timestamp s =
     rbind (validate_worker_registration s w) (\<lambda>_.
       Inr (s\<lparr>workers := od_set (node_id w) w (workers s),
              cl_events := cl_events s @ [WorkerRegistered eid timestamp (node_id w) (capacity w)]\<rparr>))"

definition remove_worker :: "string \<Rightarrow> string \<Rightarrow> pyfloat \<Rightarrow> cluster_state \<Rightarrow> cluster_state" where
  "remove_worker eid wid timestamp s =
     (if \<not> od_has (workers s) wid then s
      else s\<lparr>workers := od_del wid (workers s),
             cl_events := cl_events s @ [WorkerRemoved eid timestamp wid]\<rparr>)"

definition update_status :: "string \<Rightarrow> worker_status \<Rightarrow> cluster_state \<Rightarrow> cluster_state" where
  "update_status wid status s =
     (case od_get (workers s) wid of
        None \<Rightarrow> s
      | Some w \<Rightarrow> if worker_state w = status then s
                  else s\<lparr>workers := od_set wid (w\<lparr>worker_state := status\<rparr>) (workers s)\<rparr>)"

section \<open>The queue\<close>

text \<open>\<open>queue_key\<close> is a pair; this is \<open>key a < key b\<close> and \<open>key a \<le> key b\<close> on it.\<close>

definition queue_lt :: "job \<Rightarrow> job \<Rightarrow> bool" where
  "queue_lt a b = (priority b < priority a \<or>
     priority a = priority b \<and> flt_lt (created_timestamp a) (created_timestamp b))"

definition queue_le :: "job \<Rightarrow> job \<Rightarrow> bool" where
  "queue_le a b = (priority b < priority a \<or>
     priority a = priority b \<and> flt_le (created_timestamp a) (created_timestamp b))"

definition enqueue :: "job list \<Rightarrow> job \<Rightarrow> job list" where
  "enqueue queued j =
     (if queued = [] \<or> queue_le (last queued) j then queued @ [j]
      else stable_sort queue_lt (queued @ [j]))"

definition submit_job :: "string \<Rightarrow> job \<Rightarrow> pyfloat \<Rightarrow> cluster_state \<Rightarrow> cluster_state res" where
  "submit_job eid j timestamp s =
     rbind (validate_job_submission s j) (\<lambda>_.
       Inr (s\<lparr>queued_jobs := enqueue (queued_jobs s) j,
              queued_ids := os_add (job_id j) (queued_ids s),
              statistics := (statistics s)\<lparr>total_jobs_submitted := total_jobs_submitted (statistics s) + 1\<rparr>,
              cl_events := cl_events s @ [JobSubmitted eid timestamp (job_id j) (job_kind j) (priority j)]\<rparr>))"

text \<open>\<open>worker_id and worker_id in workers\<close>: the worker to free a slot of, and its list without the job.\<close>

definition assigned_worker :: "job \<Rightarrow> (string, worker_node) od \<Rightarrow> worker_node option" where
  "assigned_worker j ws =
     (case job_worker j of None \<Rightarrow> None | Some wid \<Rightarrow> if wid = [] then None else od_get ws wid)"

definition without_job :: "string \<Rightarrow> worker_node \<Rightarrow> worker_node" where
  "without_job jid w = w\<lparr>worker_jobs := filter (\<lambda>x. x \<noteq> jid) (worker_jobs w)\<rparr>"

definition free_slot :: "(worker_node \<Rightarrow> worker_node) \<Rightarrow> job \<Rightarrow> (string, worker_node) od \<Rightarrow> (string, worker_node) od" where
  "free_slot f j ws =
     (case assigned_worker j ws of
        None \<Rightarrow> ws
      | Some w \<Rightarrow> od_set (the (job_worker j)) (f w) ws)"

definition worker_or :: "string \<Rightarrow> job \<Rightarrow> string" where
  "worker_or unknown j = (case job_worker j of None \<Rightarrow> unknown | Some w \<Rightarrow> if w = [] then unknown else w)"

definition record_cancelled :: "string \<Rightarrow> job \<Rightarrow> string \<Rightarrow> pyfloat \<Rightarrow> cluster_state \<Rightarrow> cluster_state" where
  "record_cancelled eid j jid timestamp s =
     s\<lparr>cancelled_jobs := od_set jid (j\<lparr>job_state := JOB_CANCELLED, completed_timestamp := timestamp\<rparr>) (cancelled_jobs s),
       statistics := (statistics s)\<lparr>total_jobs_cancelled := total_jobs_cancelled (statistics s) + 1\<rparr>,
       cl_events := cl_events s @ [JobCancelled eid timestamp jid (worker_or ''UNASSIGNED'' j)]\<rparr>"

definition cancel_job :: "string \<Rightarrow> string \<Rightarrow> pyfloat \<Rightarrow> cluster_state \<Rightarrow> cluster_state res" where
  "cancel_job eid jid timestamp s =
     (case (if jid \<in> set (queued_ids s) then find (\<lambda>j. job_id j = jid) (queued_jobs s) else None) of
        Some j \<Rightarrow>
          Inr (record_cancelled eid j jid timestamp
            (s\<lparr>queued_jobs := filter (\<lambda>j. job_id j \<noteq> jid) (queued_jobs s),
               queued_ids := os_discard jid (queued_ids s)\<rparr>))
      | None \<Rightarrow>
          (case od_get (running_jobs s) jid of
             None \<Rightarrow> Inr s
           | Some j \<Rightarrow>
               rbind (validate_job_transition j JOB_CANCELLED) (\<lambda>_.
                 Inr (record_cancelled eid j jid timestamp
                   (s\<lparr>running_jobs := od_del jid (running_jobs s),
                      workers := free_slot (without_job jid) j (workers s)\<rparr>)))))"

definition pop_next :: "cluster_state \<Rightarrow> cluster_state \<times> job option" where
  "pop_next s =
     (case queued_jobs s of
        [] \<Rightarrow> (s, None)
      | j # rest \<Rightarrow> (s\<lparr>queued_jobs := rest, queued_ids := os_discard (job_id j) (queued_ids s)\<rparr>, Some j))"

definition peek :: "cluster_state \<Rightarrow> job option" where
  "peek s = (case queued_jobs s of [] \<Rightarrow> None | j # rest \<Rightarrow> Some j)"

definition queue_length :: "cluster_state \<Rightarrow> int" where
  "queue_length s = int (length (queued_jobs s))"

fun position_from :: "int \<Rightarrow> string \<Rightarrow> job list \<Rightarrow> int option" where
  "position_from n jid [] = None"
| "position_from n jid (j # js) = (if job_id j = jid then Some n else position_from (n + 1) jid js)"

definition queue_position :: "cluster_state \<Rightarrow> string \<Rightarrow> int option" where
  "queue_position s jid = position_from 0 jid (queued_jobs s)"

section \<open>The coordinator\<close>

definition start_job :: "string \<Rightarrow> string \<Rightarrow> pyfloat \<Rightarrow> cluster_state \<Rightarrow> cluster_state res" where
  "start_job eid jid timestamp s =
     (case od_get (running_jobs s) jid of
        None \<Rightarrow> Inr s
      | Some j \<Rightarrow>
          rbind (validate_job_transition j JOB_RUNNING) (\<lambda>_.
            Inr (s\<lparr>running_jobs := od_set jid (j\<lparr>job_state := JOB_RUNNING, started_timestamp := timestamp\<rparr>) (running_jobs s),
                   cl_events := cl_events s @ [JobStarted eid timestamp jid (worker_or ''UNKNOWN'' j)]\<rparr>)))"

definition execution_time :: "job \<Rightarrow> pyfloat \<Rightarrow> pyfloat" where
  "execution_time j timestamp =
     (if flt_lt (FFin 0) (started_timestamp j) then flt_sub timestamp (started_timestamp j) else FFin 0)"

definition complete_job :: "string \<Rightarrow> string \<Rightarrow> pyfloat \<Rightarrow> cluster_state \<Rightarrow> cluster_state res" where
  "complete_job eid jid timestamp s =
     (case od_get (running_jobs s) jid of
        None \<Rightarrow> Inr s
      | Some j \<Rightarrow>
          rbind (validate_job_transition j JOB_COMPLETED) (\<lambda>_.
            Inr (s\<lparr>running_jobs := od_del jid (running_jobs s),
                   completed_jobs := od_set jid (j\<lparr>job_state := JOB_COMPLETED, completed_timestamp := timestamp\<rparr>) (completed_jobs s),
                   workers := free_slot (\<lambda>w. (without_job jid w)\<lparr>completed_count := completed_count w + 1\<rparr>) j (workers s),
                   statistics := (statistics s)\<lparr>total_jobs_completed := total_jobs_completed (statistics s) + 1\<rparr>,
                   cl_events := cl_events s @ [JobCompleted eid timestamp jid (worker_or ''UNKNOWN'' j) (execution_time j timestamp)]\<rparr>)))"

definition fail_job :: "string \<Rightarrow> string \<Rightarrow> string \<Rightarrow> pyfloat \<Rightarrow> cluster_state \<Rightarrow> cluster_state res" where
  "fail_job eid jid reason timestamp s =
     (case od_get (running_jobs s) jid of
        None \<Rightarrow> Inr s
      | Some j \<Rightarrow>
          rbind (validate_job_transition j JOB_FAILED) (\<lambda>_.
            Inr (s\<lparr>running_jobs := od_del jid (running_jobs s),
                   failed_jobs := od_set jid (j\<lparr>job_state := JOB_FAILED, completed_timestamp := timestamp\<rparr>) (failed_jobs s),
                   workers := free_slot (without_job jid) j (workers s),
                   statistics := (statistics s)\<lparr>total_jobs_failed := total_jobs_failed (statistics s) + 1\<rparr>,
                   cl_events := cl_events s @ [JobFailed eid timestamp jid (worker_or ''UNKNOWN'' j) reason]\<rparr>)))"

section \<open>Assignment\<close>

definition spare :: "worker_node \<Rightarrow> int" where
  "spare w = capacity w - int (length (worker_jobs w))"

definition node_lt :: "worker_node \<Rightarrow> worker_node \<Rightarrow> bool" where
  "node_lt a b = (node_id a < node_id b)"

definition available_workers :: "(worker_node \<Rightarrow> bool) \<Rightarrow> (string, worker_node) od \<Rightarrow> worker_node list" where
  "available_workers match ws =
     stable_sort node_lt (filter (\<lambda>w. int (length (worker_jobs w)) < capacity w \<and> match w) (od_values ws))"

text \<open>What one pass of an assignment loop changes: the job leaves the queue for its worker.\<close>

record assignment =
  as_workers :: "(string, worker_node) od"
  as_running :: "(string, job) od"
  as_events :: "cluster_event list"

definition assign_to :: "(nat \<Rightarrow> string) \<Rightarrow> pyfloat \<Rightarrow> job \<Rightarrow> worker_node \<Rightarrow> assignment \<Rightarrow> assignment res" where
  "assign_to ids timestamp j w a =
     rbind (validate_job_transition j JOB_ASSIGNED) (\<lambda>_.
       Inr \<lparr>as_workers = od_set (node_id w) (w\<lparr>worker_jobs := worker_jobs w @ [job_id j]\<rparr>) (as_workers a),
            as_running = od_set (job_id j) (j\<lparr>job_state := JOB_ASSIGNED, job_worker := Some (node_id w)\<rparr>) (as_running a),
            as_events = as_events a @ [JobAssigned (ids (length (as_events a))) timestamp (job_id j) (node_id w)]\<rparr>)"

text \<open>
  The loop of \<open>assign_jobs\<close> and of \<open>assign_jobs_with_aging\<close>: the front of the queue goes to the
  worker with the most free slots while there is one; the index never moves.
\<close>

fun assign_loop :: "(nat \<Rightarrow> string) \<Rightarrow> pyfloat \<Rightarrow> job list \<Rightarrow> assignment \<Rightarrow> (job list \<times> assignment) res" where
  "assign_loop ids timestamp [] a = Inr ([], a)"
| "assign_loop ids timestamp (j # queued) a =
     (case available_workers (\<lambda>_. True) (as_workers a) of
        [] \<Rightarrow> Inr (j # queued, a)
      | w # others \<Rightarrow> rbind (assign_to ids timestamp j (first_max spare w others) a) (assign_loop ids timestamp queued))"

definition assignment_of :: "cluster_state \<Rightarrow> assignment" where
  "assignment_of s = \<lparr>as_workers = workers s, as_running = running_jobs s, as_events = []\<rparr>"

definition assigned_state :: "cluster_state \<Rightarrow> job list \<times> assignment \<Rightarrow> cluster_state" where
  "assigned_state s r = (case r of (queued, a) \<Rightarrow>
     if as_events a = [] then s
     else s\<lparr>queued_jobs := queued, queued_ids := foldl (\<lambda>xs x. os_add x xs) [] (map job_id queued),
            workers := as_workers a, running_jobs := as_running a, cl_events := cl_events s @ as_events a\<rparr>)"

definition assign_jobs :: "(nat \<Rightarrow> string) \<Rightarrow> pyfloat \<Rightarrow> cluster_state \<Rightarrow> cluster_state res" where
  "assign_jobs ids timestamp s =
     (if queued_jobs s = [] \<or> workers s = [] then Inr s
      else rbind (assign_loop ids timestamp (queued_jobs s) (assignment_of s)) (\<lambda>r. Inr (assigned_state s r)))"

subsection \<open>With aging\<close>

definition effective_priority :: "pyfloat \<Rightarrow> pyfloat \<Rightarrow> job \<Rightarrow> pyfloat res" where
  "effective_priority timestamp rate j =
     (let wait = flt_max (FFin 0) (flt_sub timestamp (created_timestamp j)) in
      rbind (flt_of_int (priority j)) (\<lambda>p. Inr (flt_add p (flt_mul rate wait))))"

text \<open>\<open>sorted(..., reverse=True)\<close>: the largest key first, equal keys in the order they had.\<close>

definition key_above :: "pyfloat \<times> 'a \<Rightarrow> pyfloat \<times> 'a \<Rightarrow> bool" where
  "key_above a b = flt_lt (fst b) (fst a)"

definition aged_queue :: "pyfloat \<Rightarrow> pyfloat \<Rightarrow> job list \<Rightarrow> job list res" where
  "aged_queue timestamp rate queued =
     rbind (rmap (\<lambda>j. rbind (effective_priority timestamp rate j) (\<lambda>k. Inr (k, j))) queued) (\<lambda>keyed.
       Inr (map snd (stable_sort key_above keyed)))"

definition assign_jobs_with_aging :: "(nat \<Rightarrow> string) \<Rightarrow> pyfloat \<Rightarrow> pyfloat \<Rightarrow> cluster_state \<Rightarrow> cluster_state res" where
  "assign_jobs_with_aging ids timestamp rate s =
     (if flt_lt rate (FFin 0) then Inl ClusterSchedulerInputError
      else if queued_jobs s = [] \<or> workers s = [] then Inr s
      else rbind (aged_queue timestamp rate (queued_jobs s)) (\<lambda>queued.
        rbind (assign_loop ids timestamp queued (assignment_of s)) (\<lambda>r. Inr (assigned_state s r))))"

subsection \<open>With affinity\<close>

definition TAGS_KEY :: string where "TAGS_KEY = ''tags''"

definition parse_tags :: "(string, string) od \<Rightarrow> string list" where
  "parse_tags metadata =
     (let raw = (case od_get metadata TAGS_KEY of None \<Rightarrow> [] | Some x \<Rightarrow> x)
      in map py_strip (filter (\<lambda>t. py_strip t \<noteq> []) (py_split CHR '','' raw)))"

definition suits :: "job \<Rightarrow> worker_node \<Rightarrow> bool" where
  "suits j w = list_all (\<lambda>t. t \<in> set (parse_tags (worker_metadata w))) (parse_tags (job_metadata j))"

text \<open>The loop of \<open>assign_jobs_with_affinity\<close>: the index moves past a job no free worker suits.\<close>

function affinity_loop ::
  "(nat \<Rightarrow> string) \<Rightarrow> pyfloat \<Rightarrow> nat \<Rightarrow> job list \<Rightarrow> assignment \<Rightarrow> (job list \<times> assignment) res" where
  "affinity_loop ids timestamp index queued a =
     (if length queued \<le> index then Inr (queued, a)
      else
        let j = queued ! index in
        case available_workers (suits j) (as_workers a) of
          [] \<Rightarrow> affinity_loop ids timestamp (index + 1) queued a
        | w # others \<Rightarrow>
            rbind (assign_to ids timestamp j (first_max spare w others) a) (\<lambda>a'.
              affinity_loop ids timestamp index (take index queued @ drop (index + 1) queued) a'))"
  by pat_completeness auto

termination
  by (relation "measure (\<lambda>(ids, timestamp, index, queued, a). length queued - index)") auto

declare affinity_loop.simps [simp del]

definition assign_jobs_with_affinity :: "(nat \<Rightarrow> string) \<Rightarrow> pyfloat \<Rightarrow> cluster_state \<Rightarrow> cluster_state res" where
  "assign_jobs_with_affinity ids timestamp s =
     (if queued_jobs s = [] \<or> workers s = [] then Inr s
      else rbind (affinity_loop ids timestamp 0 (queued_jobs s) (assignment_of s)) (\<lambda>r. Inr (assigned_state s r)))"

section \<open>The adapter\<close>

definition fresh_job :: "string \<Rightarrow> job_type \<Rightarrow> int \<Rightarrow> pyfloat \<Rightarrow> (string, string) od \<Rightarrow> job" where
  "fresh_job jid kind prio timestamp load =
     \<lparr>job_id = jid, job_kind = kind, job_state = JOB_PENDING, priority = prio, created_timestamp = timestamp,
      started_timestamp = FFin 0, completed_timestamp = FFin 0, job_worker = None, payload = load, job_metadata = []\<rparr>"

definition create_optimization_job :: "string \<Rightarrow> (string, string) od \<Rightarrow> int \<Rightarrow> pyfloat \<Rightarrow> job" where
  "create_optimization_job jid parameters prio timestamp = fresh_job jid OPTIMIZATION prio timestamp parameters"

end
