(* ===== verification/Cluster_Jobs.thy ===== *)
theory Cluster_Jobs
  imports Cluster
begin

text \<open>
  The cluster's jobs: no operation loses or duplicates one, no worker is given more than its
  capacity, an assignment always returns and leaves no job waiting for a slot that is free, and the
  queue stays in priority order under everything but aging.
\<close>

section \<open>The invariant\<close>

definition queued_names :: "cluster_state \<Rightarrow> string list" where
  "queued_names s = map job_id (queued_jobs s)"

definition all_ids :: "cluster_state \<Rightarrow> string list" where
  "all_ids s = queued_names s @ od_keys (running_jobs s) @ od_keys (completed_jobs s) @
     od_keys (failed_jobs s) @ od_keys (cancelled_jobs s)"

definition waiting :: "job \<Rightarrow> bool" where
  "waiting j = (job_state j = JOB_PENDING \<and> job_worker j = None)"

definition placed :: "job \<Rightarrow> bool" where
  "placed j = (job_state j \<in> {JOB_ASSIGNED, JOB_RUNNING} \<and> (\<exists>w. job_worker j = Some w \<and> w \<noteq> []))"

definition table_ok :: "(job \<Rightarrow> bool) \<Rightarrow> (string, job) od \<Rightarrow> bool" where
  "table_ok P t = (od_ok t \<and> (\<forall>k j. od_get t k = Some j \<longrightarrow> job_id j = k \<and> P j))"

definition in_state :: "job_status \<Rightarrow> job \<Rightarrow> bool" where
  "in_state st j = (job_state j = st)"

definition worker_ok :: "(string, job) od \<Rightarrow> string \<Rightarrow> worker_node \<Rightarrow> bool" where
  "worker_ok running k w =
     (node_id w = k \<and> k \<noteq> [] \<and> 0 < capacity w \<and> int (length (worker_jobs w)) \<le> capacity w \<and>
      distinct (worker_jobs w) \<and>
      (\<forall>x \<in> set (worker_jobs w). \<exists>j. od_get running x = Some j \<and> job_worker j = Some k))"

definition workers_ok :: "(string, job) od \<Rightarrow> (string, worker_node) od \<Rightarrow> bool" where
  "workers_ok running ws = (od_ok ws \<and> (\<forall>k w. od_get ws k = Some w \<longrightarrow> worker_ok running k w))"

definition counts_ok :: "cluster_state \<Rightarrow> bool" where
  "counts_ok s =
     (total_jobs_submitted (statistics s) = int (length (all_ids s)) \<and>
      total_jobs_completed (statistics s) = int (length (completed_jobs s)) \<and>
      total_jobs_failed (statistics s) = int (length (failed_jobs s)) \<and>
      total_jobs_cancelled (statistics s) = int (length (cancelled_jobs s)))"

definition cluster_ok :: "cluster_state \<Rightarrow> bool" where
  "cluster_ok s =
     (distinct (all_ids s) \<and> set (queued_ids s) = set (queued_names s) \<and> list_all waiting (queued_jobs s) \<and>
      table_ok placed (running_jobs s) \<and> table_ok (in_state JOB_COMPLETED) (completed_jobs s) \<and>
      table_ok (in_state JOB_FAILED) (failed_jobs s) \<and> table_ok (in_state JOB_CANCELLED) (cancelled_jobs s) \<and>
      workers_ok (running_jobs s) (workers s) \<and> counts_ok s)"

section \<open>Tables\<close>

lemma mset_keys_set: "k \<notin> set (od_keys m) \<Longrightarrow> mset (od_keys (od_set k v m)) = add_mset k (mset (od_keys m))"
  by (simp add: od_keys_set)

lemma keys_set_present: "k \<in> set (od_keys m) \<Longrightarrow> od_keys (od_set k v m) = od_keys m"
  by (simp add: od_keys_set)

lemma mset_without: "distinct xs \<Longrightarrow> x \<in> set xs \<Longrightarrow> add_mset x (mset (filter (\<lambda>y. y \<noteq> x) xs)) = mset xs"
  by (induction xs) (auto simp: filter_neq_id simp del: mset_filter)

lemma mset_keys_del:
  "od_ok m \<Longrightarrow> k \<in> set (od_keys m) \<Longrightarrow> add_mset k (mset (od_keys (od_del k m))) = mset (od_keys m)"
  unfolding od_keys_del using mset_without [of "od_keys m" k] by (simp only: od_ok_def od_keys_def)

lemma length_keys [simp]: "length (od_keys m) = length m"
  by (simp add: od_keys_def)

lemma table_set: "table_ok P t \<Longrightarrow> job_id j = k \<Longrightarrow> P j \<Longrightarrow> table_ok P (od_set k j t)"
  by (simp add: table_ok_def)

lemma table_del: "table_ok P t \<Longrightarrow> table_ok P (od_del k t)"
  by (simp add: table_ok_def)

lemma table_get: "table_ok P t \<Longrightarrow> od_get t k = Some j \<Longrightarrow> job_id j = k \<and> P j"
  by (simp add: table_ok_def)

lemma ids_perm:
  assumes "mset (all_ids s') = mset (all_ids s)"
  shows "distinct (all_ids s') = distinct (all_ids s)" "length (all_ids s') = length (all_ids s)"
  using mset_eq_imp_distinct_iff [OF assms] mset_eq_length [OF assms] by simp_all

section \<open>Workers\<close>

lemma workers_ok_running:
  assumes "workers_ok running ws"
    and "\<And>x j. od_get running x = Some j \<Longrightarrow> (\<exists>k w. od_get ws k = Some w \<and> x \<in> set (worker_jobs w)) \<Longrightarrow>
      \<exists>j'. od_get running' x = Some j' \<and> job_worker j' = job_worker j"
  shows "workers_ok running' ws"
  using assms by (fastforce simp: workers_ok_def worker_ok_def)

lemma free_slot_ok:
  assumes ok: "workers_ok running ws" and t: "table_ok placed running" and j: "od_get running jid = Some j"
    and f: "\<And>w. node_id (f w) = node_id w \<and> capacity (f w) = capacity w \<and>
      worker_jobs (f w) = filter (\<lambda>x. x \<noteq> jid) (worker_jobs w)"
  shows "workers_ok (od_del jid running) (free_slot f j ws)"
proof -
  obtain wid where wid: "job_worker j = Some wid" "wid \<noteq> []"
    using table_get [OF t j] by (auto simp: placed_def)
  have off: "jid \<notin> set (worker_jobs w)" if "od_get ws k = Some w" "k \<noteq> wid" for k w
  proof
    assume "jid \<in> set (worker_jobs w)"
    moreover have "worker_ok running k w" using ok that(1) by (simp add: workers_ok_def)
    ultimately have "\<exists>j'. od_get running jid = Some j' \<and> job_worker j' = Some k" by (simp add: worker_ok_def)
    with j wid(1) that(2) show False by simp
  qed
  have len: "int (length (filter (\<lambda>x. x \<noteq> jid) xs)) \<le> c" if "int (length xs) \<le> c" for xs :: "string list" and c
    using that length_filter_le [of "\<lambda>x. x \<noteq> jid" xs] by linarith
  show ?thesis
  proof (cases "od_get ws wid")
    case None
    with wid have "free_slot f j ws = ws" by (simp add: free_slot_def assigned_worker_def)
    moreover have "worker_ok (od_del jid running) k w" if w: "od_get ws k = Some w" for k w
      using ok w off [OF w] None by (cases "k = wid") (auto simp: workers_ok_def worker_ok_def)
    ultimately show ?thesis using ok by (simp add: workers_ok_def)
  next
    case (Some w0)
    with wid have fs: "free_slot f j ws = od_set wid (f w0) ws" by (simp add: free_slot_def assigned_worker_def)
    have "worker_ok (od_del jid running) k w" if w: "od_get (od_set wid (f w0) ws) k = Some w" for k w
    proof (cases "k = wid")
      case True
      with w have "w = f w0" by simp
      then show ?thesis using ok Some True f [of w0] len by (auto simp: workers_ok_def worker_ok_def)
    next
      case False
      with w have w': "od_get ws k = Some w" by simp
      show ?thesis using ok w' off [OF w' False] by (auto simp: workers_ok_def worker_ok_def)
    qed
    then show ?thesis using ok by (simp add: workers_ok_def fs)
  qed
qed

section \<open>Operations\<close>

lemma unknown_id:
  assumes "cluster_ok s" "validate_job_submission s j = Inr u"
  shows "job_id j \<notin> set (all_ids s)"
  using assms by (auto simp: validate_job_submission_def od_has_def cluster_ok_def all_ids_def od_get_None split: if_splits)

lemma enqueue_mset [simp]: "mset (enqueue queued j) = add_mset j (mset queued)"
  by (simp add: enqueue_def)

lemma enqueue_set [simp]: "set (enqueue queued j) = insert j (set queued)"
  by (auto simp: enqueue_def)

lemma submit_ok:
  assumes ok: "cluster_ok s" and j: "waiting j" and run: "submit_job eid j t s = Inr s'"
  shows "cluster_ok s'"
proof -
  obtain u where v: "validate_job_submission s j = Inr u"
      and s': "s' = s\<lparr>queued_jobs := enqueue (queued_jobs s) j, queued_ids := os_add (job_id j) (queued_ids s),
              statistics := (statistics s)\<lparr>total_jobs_submitted := total_jobs_submitted (statistics s) + 1\<rparr>,
              cl_events := cl_events s @ [JobSubmitted eid t (job_id j) (job_kind j) (priority j)]\<rparr>"
    using run by (auto simp: submit_job_def rbind_eq_Inr)
  have ids: "mset (all_ids s') = add_mset (job_id j) (mset (all_ids s))"
    by (simp add: s' all_ids_def queued_names_def)
  then have "mset (all_ids s') = mset (job_id j # all_ids s)" by simp
  then have "distinct (all_ids s') = distinct (job_id j # all_ids s)" "length (all_ids s') = length (job_id j # all_ids s)"
    using mset_eq_imp_distinct_iff mset_eq_length by blast+
  then show ?thesis using ok unknown_id [OF ok v] j
    by (auto simp: cluster_ok_def counts_ok_def list_all_iff queued_names_def s')
qed

text \<open>A running job moves to a finished table.\<close>

lemma finish_ok:
  assumes ok: "cluster_ok s" and j: "od_get (running_jobs s) jid = Some j"
    and f: "\<And>w. node_id (f w) = node_id w \<and> capacity (f w) = capacity w \<and>
      worker_jobs (f w) = filter (\<lambda>x. x \<noteq> jid) (worker_jobs w)"
  shows "table_ok placed (od_del jid (running_jobs s))" "workers_ok (od_del jid (running_jobs s)) (free_slot f j (workers s))"
    "job_id j = jid" "add_mset jid (mset (od_keys (od_del jid (running_jobs s)))) = mset (od_keys (running_jobs s))"
    "jid \<notin> set (queued_names s @ od_keys (completed_jobs s) @ od_keys (failed_jobs s) @ od_keys (cancelled_jobs s))"
proof -
  note c = ok [unfolded cluster_ok_def]
  have t: "table_ok placed (running_jobs s)" using c by blast
  show "table_ok placed (od_del jid (running_jobs s))" using t by (rule table_del)
  show "workers_ok (od_del jid (running_jobs s)) (free_slot f j (workers s))"
    using c by (intro free_slot_ok [OF _ t j f]) blast
  show "job_id j = jid" using table_get [OF t j] by blast
  have k: "jid \<in> set (od_keys (running_jobs s))" using j by (rule od_get_Some_key)
  show "add_mset jid (mset (od_keys (od_del jid (running_jobs s)))) = mset (od_keys (running_jobs s))"
    using t k by (intro mset_keys_del) (simp_all add: table_ok_def)
  show "jid \<notin> set (queued_names s @ od_keys (completed_jobs s) @ od_keys (failed_jobs s) @ od_keys (cancelled_jobs s))"
    using c k by (auto simp: all_ids_def)
qed

lemma absent_length: "k \<notin> set (od_keys m) \<Longrightarrow> length (od_set k v m) = length m + 1"
  by (simp add: od_set_absent)

lemma complete_ok:
  assumes ok: "cluster_ok s" and run: "complete_job eid jid t s = Inr s'"
  shows "cluster_ok s'"
proof (cases "od_get (running_jobs s) jid")
  case None
  with run ok show ?thesis by (simp add: complete_job_def)
next
  case (Some j)
  let ?f = "\<lambda>w. (without_job jid w)\<lparr>completed_count := completed_count w + 1\<rparr>"
  note F = finish_ok [OF ok Some, of ?f]
  have s': "running_jobs s' = od_del jid (running_jobs s)" "workers s' = free_slot ?f j (workers s)"
      "completed_jobs s' = od_set jid (j\<lparr>job_state := JOB_COMPLETED, completed_timestamp := t\<rparr>) (completed_jobs s)"
      "statistics s' = (statistics s)\<lparr>total_jobs_completed := total_jobs_completed (statistics s) + 1\<rparr>"
      "queued_jobs s' = queued_jobs s" "queued_ids s' = queued_ids s" "failed_jobs s' = failed_jobs s"
      "cancelled_jobs s' = cancelled_jobs s"
    using run Some by (auto simp: complete_job_def rbind_eq_Inr)
  have ids: "mset (all_ids s') = mset (all_ids s)"
    using F(4,5) by (simp add: all_ids_def queued_names_def s' without_job_def mset_keys_set del: od_keys_set)
  show ?thesis using ok F ids_perm [OF ids]
    by (auto simp: cluster_ok_def counts_ok_def queued_names_def s' without_job_def in_state_def absent_length intro!: table_set)
qed

lemma fail_ok:
  assumes ok: "cluster_ok s" and run: "fail_job eid jid reason t s = Inr s'"
  shows "cluster_ok s'"
proof (cases "od_get (running_jobs s) jid")
  case None
  with run ok show ?thesis by (simp add: fail_job_def)
next
  case (Some j)
  note F = finish_ok [OF ok Some, of "without_job jid"]
  have s': "running_jobs s' = od_del jid (running_jobs s)" "workers s' = free_slot (without_job jid) j (workers s)"
      "failed_jobs s' = od_set jid (j\<lparr>job_state := JOB_FAILED, completed_timestamp := t\<rparr>) (failed_jobs s)"
      "statistics s' = (statistics s)\<lparr>total_jobs_failed := total_jobs_failed (statistics s) + 1\<rparr>"
      "queued_jobs s' = queued_jobs s" "queued_ids s' = queued_ids s" "completed_jobs s' = completed_jobs s"
      "cancelled_jobs s' = cancelled_jobs s"
    using run Some by (auto simp: fail_job_def rbind_eq_Inr)
  have ids: "mset (all_ids s') = mset (all_ids s)"
    using F(4,5) by (simp add: all_ids_def queued_names_def s' without_job_def mset_keys_set del: od_keys_set)
  show ?thesis using ok F ids_perm [OF ids]
    by (auto simp: cluster_ok_def counts_ok_def queued_names_def s' without_job_def in_state_def absent_length intro!: table_set)
qed

lemma mset_names_without:
  assumes "distinct (map job_id js)" "j \<in> set js"
  shows "add_mset (job_id j) (mset (map job_id (filter (\<lambda>i. job_id i \<noteq> job_id j) js))) = mset (map job_id js)"
proof -
  have "map job_id (filter (\<lambda>i. job_id i \<noteq> job_id j) js) = filter (\<lambda>x. x \<noteq> job_id j) (map job_id js)"
    by (simp add: filter_map comp_def)
  with mset_without [OF assms(1), of "job_id j"] assms(2) show ?thesis by (simp del: mset_filter mset_map)
qed

lemma record_cancelled_fields:
  "queued_jobs (record_cancelled eid j jid t s) = queued_jobs s" "queued_ids (record_cancelled eid j jid t s) = queued_ids s"
  "running_jobs (record_cancelled eid j jid t s) = running_jobs s" "workers (record_cancelled eid j jid t s) = workers s"
  "completed_jobs (record_cancelled eid j jid t s) = completed_jobs s" "failed_jobs (record_cancelled eid j jid t s) = failed_jobs s"
  "cancelled_jobs (record_cancelled eid j jid t s) =
     od_set jid (j\<lparr>job_state := JOB_CANCELLED, completed_timestamp := t\<rparr>) (cancelled_jobs s)"
  "statistics (record_cancelled eid j jid t s) =
     (statistics s)\<lparr>total_jobs_cancelled := total_jobs_cancelled (statistics s) + 1\<rparr>"
  by (simp_all add: record_cancelled_def)

lemma cancel_ok:
  assumes ok: "cluster_ok s" and run: "cancel_job eid jid t s = Inr s'"
  shows "cluster_ok s'"
proof (cases "if jid \<in> set (queued_ids s) then find (\<lambda>j. job_id j = jid) (queued_jobs s) else None")
  case (Some j)
  then have j: "j \<in> set (queued_jobs s)" "job_id j = jid" by (auto simp: find_Some_iff split: if_splits)
  have s': "s' = record_cancelled eid j jid t (s\<lparr>queued_jobs := filter (\<lambda>j. job_id j \<noteq> jid) (queued_jobs s),
               queued_ids := os_discard jid (queued_ids s)\<rparr>)"
    using run Some unfolding cancel_job_def by simp
  note c = ok [unfolded cluster_ok_def]
  have q: "distinct (map job_id (queued_jobs s))" and fresh: "jid \<notin> set (od_keys (cancelled_jobs s))"
    using c j by (auto simp: all_ids_def queued_names_def)
  have ids: "mset (all_ids s') = mset (all_ids s)"
    using mset_names_without [OF q j(1)] fresh
    by (simp add: all_ids_def queued_names_def s' record_cancelled_fields j(2) mset_keys_set del: od_keys_set mset_map mset_filter)
  have "set (queued_ids s') = set (queued_names s')"
    using c by (auto simp: s' record_cancelled_fields queued_names_def)
  moreover have "table_ok (in_state JOB_CANCELLED) (cancelled_jobs s')"
    using c j(2) by (auto simp: s' record_cancelled_fields in_state_def intro: table_set)
  moreover have "counts_ok s'" using c ids_perm(2) [OF ids] fresh
    by (simp add: counts_ok_def s' record_cancelled_fields absent_length)
  moreover have "list_all waiting (queued_jobs s')" using c by (auto simp: s' record_cancelled_fields list_all_iff)
  ultimately show ?thesis using c ids_perm(1) [OF ids]
    by (simp add: cluster_ok_def s' record_cancelled_fields)
next
  case queued: None
  show ?thesis
  proof (cases "od_get (running_jobs s) jid")
    case None
    with run queued ok show ?thesis by (simp add: cancel_job_def)
  next
    case (Some j)
    note F = finish_ok [OF ok Some, of "without_job jid"]
    have s': "s' = record_cancelled eid j jid t (s\<lparr>running_jobs := od_del jid (running_jobs s),
                      workers := free_slot (without_job jid) j (workers s)\<rparr>)"
      using run Some queued unfolding cancel_job_def by (auto simp: rbind_eq_Inr)
    have ids: "mset (all_ids s') = mset (all_ids s)"
      using F(4,5) by (simp add: all_ids_def queued_names_def s' record_cancelled_fields without_job_def mset_keys_set
        del: od_keys_set)
    show ?thesis using ok F ids_perm [OF ids]
      by (auto simp: cluster_ok_def counts_ok_def queued_names_def s' record_cancelled_fields without_job_def
        in_state_def absent_length intro!: table_set)
  qed
qed

lemma start_ok:
  assumes ok: "cluster_ok s" and run: "start_job eid jid t s = Inr s'"
  shows "cluster_ok s'"
proof (cases "od_get (running_jobs s) jid")
  case None
  with run ok show ?thesis by (simp add: start_job_def)
next
  case (Some j)
  let ?j = "j\<lparr>job_state := JOB_RUNNING, started_timestamp := t\<rparr>"
  note c = ok [unfolded cluster_ok_def]
  have s': "running_jobs s' = od_set jid ?j (running_jobs s)" "workers s' = workers s" "statistics s' = statistics s"
      "queued_jobs s' = queued_jobs s" "queued_ids s' = queued_ids s" "failed_jobs s' = failed_jobs s"
      "completed_jobs s' = completed_jobs s" "cancelled_jobs s' = cancelled_jobs s"
    using run Some by (auto simp: start_job_def rbind_eq_Inr)
  have j: "job_id j = jid" "placed j" using c Some table_get by blast+
  have ids: "all_ids s' = all_ids s"
    using od_get_Some_key [OF Some] by (simp add: all_ids_def queued_names_def s' keys_set_present)
  have "workers_ok (od_set jid ?j (running_jobs s)) (workers s)"
    by (rule workers_ok_running [of "running_jobs s"]) (use c Some in auto)
  moreover have "table_ok placed (od_set jid ?j (running_jobs s))"
    using c j by (intro table_set) (auto simp: placed_def)
  ultimately show ?thesis using c by (simp add: cluster_ok_def counts_ok_def ids s' queued_names_def)
qed

lemma register_ok:
  assumes ok: "cluster_ok s" and idle: "worker_jobs w = []" and run: "register_worker eid w t s = Inr s'"
  shows "cluster_ok s'"
proof -
  have v: "\<not> blank (node_id w)" "0 < capacity w" and s': "workers s' = od_set (node_id w) w (workers s)"
      "running_jobs s' = running_jobs s" "statistics s' = statistics s"
      "queued_jobs s' = queued_jobs s" "queued_ids s' = queued_ids s" "failed_jobs s' = failed_jobs s"
      "completed_jobs s' = completed_jobs s" "cancelled_jobs s' = cancelled_jobs s"
    using run by (auto simp: register_worker_def validate_worker_registration_def rbind_eq_Inr split: if_splits)
  have "worker_ok (running_jobs s) (node_id w) w" using v idle by (auto simp: worker_ok_def blank_def)
  then have "workers_ok (running_jobs s) (workers s')" using ok by (auto simp: cluster_ok_def workers_ok_def s')
  then show ?thesis using ok by (simp add: cluster_ok_def counts_ok_def all_ids_def queued_names_def s')
qed

lemma remove_ok: "cluster_ok s \<Longrightarrow> cluster_ok (remove_worker eid wid t s)"
  by (simp add: remove_worker_def cluster_ok_def counts_ok_def all_ids_def queued_names_def workers_ok_def)

lemma status_ok:
  assumes "cluster_ok s"
  shows "cluster_ok (update_status wid st s)"
proof (cases "od_get (workers s) wid")
  case (Some w)
  have "worker_ok (running_jobs s) wid w" using assms Some by (simp add: cluster_ok_def workers_ok_def)
  then have "worker_ok (running_jobs s) wid (w\<lparr>worker_state := st\<rparr>)" by (simp add: worker_ok_def)
  then show ?thesis using assms Some
    by (auto simp: update_status_def cluster_ok_def counts_ok_def all_ids_def queued_names_def workers_ok_def)
qed (simp add: update_status_def assms)

section \<open>Assignment\<close>

definition loop_ok :: "job list \<Rightarrow> assignment \<Rightarrow> bool" where
  "loop_ok queued a =
     (list_all waiting queued \<and> table_ok placed (as_running a) \<and> workers_ok (as_running a) (as_workers a) \<and>
      distinct (map job_id queued @ od_keys (as_running a)))"

lemma set_available:
  "set (available_workers match ws) = {w \<in> set (od_values ws). 0 < spare w \<and> match w}"
  by (auto simp: available_workers_def spare_def)

lemma worker_value:
  assumes "workers_ok running ws" "w \<in> set (od_values ws)"
  shows "od_get ws (node_id w) = Some w"
proof -
  obtain k where k: "od_get ws k = Some w"
    using assms by (auto simp: workers_ok_def od_values_def od_get_in)
  then show ?thesis using assms(1) by (auto simp: workers_ok_def worker_ok_def)
qed

lemma chosen_worker:
  assumes "workers_ok running ws" "available_workers match ws = w # others"
  defines "best \<equiv> first_max spare w others"
  shows "od_get ws (node_id best) = Some best" "0 < spare best" "match best"
    "\<And>v. v \<in> set (od_values ws) \<Longrightarrow> 0 < spare v \<Longrightarrow> match v \<Longrightarrow> spare v \<le> spare best"
proof -
  have "best \<in> set (available_workers match ws)" using first_max_in [of spare w others] by (simp add: assms(2) best_def)
  then show "od_get ws (node_id best) = Some best" "0 < spare best" "match best"
    using worker_value [OF assms(1)] by (simp_all add: set_available)
  fix v
  assume "v \<in> set (od_values ws)" "0 < spare v" "match v"
  then have "v \<in> insert w (set others)" using set_available [of match ws] by (simp add: assms(2))
  then show "spare v \<le> spare best" unfolding best_def by (rule first_max_largest)
qed

lemma assign_step:
  assumes ok: "loop_ok (pre @ j # post) a" and w: "od_get (as_workers a) (node_id w) = Some w" "0 < spare w"
  obtains a' where "assign_to ids t j w a = Inr a'" "loop_ok (pre @ post) a'"
    "mset (map job_id (pre @ post) @ od_keys (as_running a')) = mset (map job_id (pre @ j # post) @ od_keys (as_running a))"
    "as_events a' = as_events a @ [JobAssigned (ids (length (as_events a))) t (job_id j) (node_id w)]"
    "as_workers a' = od_set (node_id w) (w\<lparr>worker_jobs := worker_jobs w @ [job_id j]\<rparr>) (as_workers a)"
proof -
  note L = ok [unfolded loop_ok_def]
  let ?j = "j\<lparr>job_state := JOB_ASSIGNED, job_worker := Some (node_id w)\<rparr>"
    and ?w = "w\<lparr>worker_jobs := worker_jobs w @ [job_id j]\<rparr>"
  let ?a = "\<lparr>as_workers = od_set (node_id w) ?w (as_workers a), as_running = od_set (job_id j) ?j (as_running a),
      as_events = as_events a @ [JobAssigned (ids (length (as_events a))) t (job_id j) (node_id w)]\<rparr>"
  have wait: "waiting j" using L by simp
  have run: "assign_to ids t j w a = Inr ?a"
    using wait by (simp add: assign_to_def validate_job_transition_def valid_transitions_def waiting_def)
  have fresh: "job_id j \<notin> set (od_keys (as_running a))" using L by auto
  have wok: "worker_ok (as_running a) (node_id w) w" using L w(1) by (simp add: workers_ok_def)
  have jobs: "x \<noteq> job_id j" if "x \<in> set (worker_jobs v)" "od_get (as_workers a) k = Some v" for x v k
  proof -
    have "worker_ok (as_running a) k v" using L that(2) by (simp add: workers_ok_def)
    with that(1) obtain i where "od_get (as_running a) x = Some i" by (auto simp: worker_ok_def)
    then show ?thesis using fresh od_get_Some_key by fastforce
  qed
  have "worker_ok (as_running ?a) k v" if v: "od_get (as_workers ?a) k = Some v" for k v
  proof (cases "k = node_id w")
    case True
    with v have "v = ?w" by simp
    then show ?thesis using wok w(2) jobs [OF _ w(1)] True by (auto simp: worker_ok_def spare_def)
  next
    case False
    with v have v': "od_get (as_workers a) k = Some v" by simp
    then have "worker_ok (as_running a) k v" using L by (simp add: workers_ok_def)
    then show ?thesis using jobs [OF _ v'] by (auto simp: worker_ok_def)
  qed
  then have "workers_ok (as_running ?a) (as_workers ?a)" using L by (simp add: workers_ok_def)
  moreover have "table_ok placed (as_running ?a)"
    using L wok by (auto simp: placed_def worker_ok_def intro!: table_set)
  moreover have ids: "mset (map job_id (pre @ post) @ od_keys (as_running ?a)) =
      mset (map job_id (pre @ j # post) @ od_keys (as_running a))"
    using fresh by (simp add: mset_keys_set del: od_keys_set)
  moreover have "distinct (map job_id (pre @ post) @ od_keys (as_running ?a))"
    using L mset_eq_imp_distinct_iff [OF ids] by blast
  ultimately have "loop_ok (pre @ post) ?a" using L by (simp add: loop_ok_def)
  from that [OF run this ids] show thesis by simp
qed

text \<open>The plain loop: it returns, takes jobs from the front, and stops only for want of jobs or of slots.\<close>

lemma assign_loop_ok:
  "loop_ok queued a \<Longrightarrow> \<exists>rest a' taken. assign_loop ids t queued a = Inr (rest, a') \<and> loop_ok rest a' \<and>
     queued = taken @ rest \<and>
     mset (map job_id rest @ od_keys (as_running a')) = mset (map job_id queued @ od_keys (as_running a)) \<and>
     (rest = [] \<or> (\<forall>w \<in> set (od_values (as_workers a')). spare w \<le> 0)) \<and>
     length (as_events a') = length (as_events a) + length taken \<and>
     (taken = [] \<longrightarrow> a' = a)"
proof (induction queued arbitrary: a)
  case Nil
  then show ?case by simp
next
  case (Cons j queued)
  show ?case
  proof (cases "available_workers (\<lambda>_. True) (as_workers a)")
    case Nil
    then have "\<forall>w \<in> set (od_values (as_workers a)). spare w \<le> 0"
      using set_available [of "\<lambda>_. True" "as_workers a"] by (auto simp: not_less)
    with Nil Cons.prems show ?thesis by simp
  next
    case (Cons w others)
    let ?w = "first_max spare w others"
    have ws: "workers_ok (as_running a) (as_workers a)" using Cons.prems by (simp add: loop_ok_def)
    note W = chosen_worker [OF ws Cons]
    have "loop_ok ([] @ j # queued) a" using Cons.prems by simp
    then obtain a' where a': "assign_to ids t j ?w a = Inr a'" "loop_ok ([] @ queued) a'"
        "mset (map job_id ([] @ queued) @ od_keys (as_running a')) = mset (map job_id ([] @ j # queued) @ od_keys (as_running a))"
        "as_events a' = as_events a @ [JobAssigned (ids (length (as_events a))) t (job_id j) (node_id ?w)]"
      by (rule assign_step [OF _ W(1,2)])
    have "loop_ok queued a'" using a'(2) by simp
    from Cons.IH [OF this] obtain rest a'' taken where I: "assign_loop ids t queued a' = Inr (rest, a'')" "loop_ok rest a''"
        "queued = taken @ rest"
        "mset (map job_id rest @ od_keys (as_running a'')) = mset (map job_id queued @ od_keys (as_running a'))"
        "rest = [] \<or> (\<forall>w \<in> set (od_values (as_workers a'')). spare w \<le> 0)"
        "length (as_events a'') = length (as_events a') + length taken" by blast
    have "assign_loop ids t (j # queued) a = Inr (rest, a'')" using Cons a'(1) I(1) by simp
    moreover have "j # queued = (j # taken) @ rest" using I(3) by simp
    moreover have "mset (map job_id rest @ od_keys (as_running a'')) = mset (map job_id (j # queued) @ od_keys (as_running a))"
      using I(4) a'(3) by simp
    moreover have "length (as_events a'') = length (as_events a) + length (j # taken)" using I(6) a'(4) by simp
    ultimately show ?thesis using I(2,5) by blast
  qed
qed

text \<open>
  The affinity loop: every job it leaves waits for a worker that suits it and has a free slot, and
  every job it assigns goes to a worker that suits it. Suiting is a matter of tags alone, and slots
  only fill up, so a job passed over stays unplaceable to the end.
\<close>

definition placeable :: "(string, worker_node) od \<Rightarrow> job \<Rightarrow> bool" where
  "placeable ws j = (\<exists>w \<in> set (od_values ws). 0 < spare w \<and> suits j w)"

definition suited :: "(string, worker_node) od \<Rightarrow> job list \<Rightarrow> cluster_event \<Rightarrow> bool" where
  "suited ws js e = (\<exists>eid t j w. j \<in> set js \<and> w \<in> set (od_values ws) \<and> suits j w \<and>
     e = JobAssigned eid t (job_id j) (node_id w))"

definition same_tags :: "(string, worker_node) od \<Rightarrow> (string, worker_node) od \<Rightarrow> bool" where
  "same_tags ws ws' = (od_ok ws \<and> od_ok ws' \<and> (\<forall>k. map_option (\<lambda>w. (node_id w, worker_metadata w)) (od_get ws' k) =
     map_option (\<lambda>w. (node_id w, worker_metadata w)) (od_get ws k)))"

lemma in_values: "od_ok ws \<Longrightarrow> w \<in> set (od_values ws) \<longleftrightarrow> (\<exists>k. od_get ws k = Some w)"
  by (auto simp: od_values_def od_get_in image_iff) force

lemma same_tags_value:
  assumes "same_tags ws ws'" "w' \<in> set (od_values ws')"
  obtains w where "w \<in> set (od_values ws)" "node_id w = node_id w'" "worker_metadata w = worker_metadata w'"
proof -
  obtain k where "od_get ws' k = Some w'" using assms by (auto simp: same_tags_def in_values)
  moreover have "map_option (\<lambda>w. (node_id w, worker_metadata w)) (od_get ws' k) =
      map_option (\<lambda>w. (node_id w, worker_metadata w)) (od_get ws k)" using assms(1) by (simp add: same_tags_def)
  ultimately obtain w where "od_get ws k = Some w" "node_id w = node_id w'" "worker_metadata w = worker_metadata w'"
    by (cases "od_get ws k") auto
  with that assms(1) show thesis by (auto simp: same_tags_def in_values)
qed

lemma filled_slot:
  assumes ok: "od_ok ws" and w: "od_get ws (node_id w) = Some w"
    and ws'_def: "ws' = od_set (node_id w) (w\<lparr>worker_jobs := worker_jobs w @ [x]\<rparr>) ws"
  shows "same_tags ws ws'" "placeable ws' j \<Longrightarrow> placeable ws j"
proof -
  show "same_tags ws ws'" using ok w by (simp add: same_tags_def ws'_def)
  assume "placeable ws' j"
  then obtain v k where v: "od_get ws' k = Some v" "0 < spare v" "suits j v"
    using ok by (auto simp: placeable_def in_values ws'_def)
  show "placeable ws j"
  proof (cases "k = node_id w")
    case True
    with v have "0 < spare w" "suits j w" by (auto simp: ws'_def spare_def suits_def)
    moreover have "w \<in> set (od_values ws)" using ok w by (auto simp: in_values)
    ultimately show ?thesis unfolding placeable_def by blast
  next
    case False
    then have "v \<in> set (od_values ws)" using v(1) ok by (auto simp: in_values ws'_def)
    then show ?thesis using v(2,3) unfolding placeable_def by blast
  qed
qed

lemma affinity_loop_ok:
  "loop_ok queued a \<Longrightarrow> (\<forall>j \<in> set (take index queued). \<not> placeable (as_workers a) j) \<Longrightarrow>
    same_tags ws (as_workers a) \<Longrightarrow> set queued \<subseteq> set js \<Longrightarrow> list_all (suited ws js) (as_events a) \<Longrightarrow>
    \<exists>rest a'. affinity_loop ids t index queued a = Inr (rest, a') \<and> loop_ok rest a' \<and>
     mset (map job_id rest @ od_keys (as_running a')) = mset (map job_id queued @ od_keys (as_running a)) \<and>
     (\<forall>j \<in> set rest. \<not> placeable (as_workers a') j) \<and> list_all (suited ws js) (as_events a') \<and>
     set rest \<subseteq> set queued \<and> length (as_events a') + length rest = length (as_events a) + length queued \<and>
     length rest \<le> length queued \<and> (length rest = length queued \<longrightarrow> rest = queued \<and> a' = a)"
proof (induction ids t index queued a rule: affinity_loop.induct)
  case (1 ids t index queued a)
  show ?case
  proof (cases "length queued \<le> index")
    case True
    with "1.prems" show ?thesis by (simp add: affinity_loop.simps [of _ _ index])
  next
    case False
    then have split: "queued = take index queued @ queued ! index # drop (index + 1) queued"
      by (simp add: Cons_nth_drop_Suc)
    let ?j = "queued ! index" and ?rest = "take index queued @ drop (index + 1) queued"
    show ?thesis
    proof (cases "available_workers (suits ?j) (as_workers a)")
      case Nil
      then have none: "\<not> placeable (as_workers a) ?j"
        using set_available [of "suits ?j" "as_workers a"] by (auto simp: placeable_def)
      have "\<forall>j \<in> set (take (index + 1) queued). \<not> placeable (as_workers a) j"
        using "1.prems"(2) none False by (simp add: take_Suc_conv_app_nth)
      from "1.IH"(1) [OF False refl Nil "1.prems"(1) this "1.prems"(3-5)] show ?thesis
        using False Nil by (simp add: affinity_loop.simps [of _ _ index queued])
    next
      case (Cons w others)
      let ?w = "first_max spare w others"
      have ws: "workers_ok (as_running a) (as_workers a)" using "1.prems"(1) by (simp add: loop_ok_def)
      then have wsok: "od_ok (as_workers a)" by (simp add: workers_ok_def)
      note W = chosen_worker [OF ws Cons]
      have "loop_ok (take index queued @ ?j # drop (index + 1) queued) a" using "1.prems"(1) split by simp
      then obtain a' where a': "assign_to ids t ?j ?w a = Inr a'" "loop_ok ?rest a'"
          "mset (map job_id ?rest @ od_keys (as_running a')) =
            mset (map job_id (take index queued @ ?j # drop (index + 1) queued) @ od_keys (as_running a))"
          "as_events a' = as_events a @ [JobAssigned (ids (length (as_events a))) t (job_id ?j) (node_id ?w)]"
          "as_workers a' = od_set (node_id ?w) (?w\<lparr>worker_jobs := worker_jobs ?w @ [job_id ?j]\<rparr>) (as_workers a)"
        by (rule assign_step [OF _ W(1,2)])
      note fill = filled_slot [OF wsok W(1) a'(5)]
      have take: "take index ?rest = take index queued" using False by simp
      have skip: "\<forall>j \<in> set (take index ?rest). \<not> placeable (as_workers a') j"
        using "1.prems"(2) fill(2) take by auto
      have tags: "same_tags ws (as_workers a')" using "1.prems"(3) fill(1) by (simp add: same_tags_def)
      have "?w \<in> set (od_values (as_workers a))" using W(1) wsok by (auto simp: in_values)
      from same_tags_value [OF "1.prems"(3) this] obtain w0 where w0: "w0 \<in> set (od_values ws)"
          "node_id w0 = node_id ?w" "worker_metadata w0 = worker_metadata ?w" .
      have "suits ?j w0" using W(3) w0(3) by (simp add: suits_def)
      moreover have "?j \<in> set js" using "1.prems"(4) False by auto
      ultimately have "suited ws js (JobAssigned (ids (length (as_events a))) t (job_id ?j) (node_id ?w))"
        using w0 by (force simp: suited_def)
      with "1.prems"(5) have evs: "list_all (suited ws js) (as_events a')" by (simp add: a'(4))
      have sub: "set ?rest \<subseteq> set queued" by (auto dest: in_set_takeD in_set_dropD)
      then have sub': "set ?rest \<subseteq> set js" using "1.prems"(4) by blast
      from "1.IH"(2) [OF False refl Cons a'(1,2) skip tags sub' evs]
      obtain rest a'' where I: "affinity_loop ids t index ?rest a' = Inr (rest, a'')" "loop_ok rest a''"
          "mset (map job_id rest @ od_keys (as_running a'')) = mset (map job_id ?rest @ od_keys (as_running a'))"
          "\<forall>j \<in> set rest. \<not> placeable (as_workers a'') j" "list_all (suited ws js) (as_events a'')" "set rest \<subseteq> set ?rest"
          "length (as_events a'') + length rest = length (as_events a') + length ?rest" "length rest \<le> length ?rest" by blast
      have "affinity_loop ids t index queued a = Inr (rest, a'')"
        using False Cons a'(1) I(1) by (simp add: affinity_loop.simps [of _ _ index queued] Let_def)
      moreover have "mset (map job_id rest @ od_keys (as_running a'')) = mset (map job_id queued @ od_keys (as_running a))"
        using I(3) a'(3) by (simp only: split [symmetric])
      moreover have "length (as_events a'') + length rest = length (as_events a) + length queued"
        using I(7) a'(4) False by simp
      moreover have "length rest \<le> length queued" "length rest \<noteq> length queued" using I(8) False by auto
      ultimately show ?thesis using I(2,4,5,6) sub by blast
    qed
  qed
qed

section \<open>Every state the cluster reaches\<close>

datatype cluster_op =
    Register_op string worker_node pyfloat
  | Remove_op string string pyfloat
  | Status_op string worker_status
  | Submit_op string job pyfloat
  | Cancel_op string string pyfloat
  | Assign_op "nat \<Rightarrow> string" pyfloat
  | Assign_aging_op "nat \<Rightarrow> string" pyfloat pyfloat
  | Assign_affinity_op "nat \<Rightarrow> string" pyfloat
  | Start_op string string pyfloat
  | Complete_op string string pyfloat
  | Fail_op string string string pyfloat

fun cluster_step :: "cluster_op \<Rightarrow> cluster_state \<Rightarrow> cluster_state res" where
  "cluster_step (Register_op eid w t) s = register_worker eid w t s"
| "cluster_step (Remove_op eid wid t) s = Inr (remove_worker eid wid t s)"
| "cluster_step (Status_op wid st) s = Inr (update_status wid st s)"
| "cluster_step (Submit_op eid j t) s = submit_job eid j t s"
| "cluster_step (Cancel_op eid jid t) s = cancel_job eid jid t s"
| "cluster_step (Assign_op ids t) s = assign_jobs ids t s"
| "cluster_step (Assign_aging_op ids t rate) s = assign_jobs_with_aging ids t rate s"
| "cluster_step (Assign_affinity_op ids t) s = assign_jobs_with_affinity ids t s"
| "cluster_step (Start_op eid jid t) s = start_job eid jid t s"
| "cluster_step (Complete_op eid jid t) s = complete_job eid jid t s"
| "cluster_step (Fail_op eid jid reason t) s = fail_job eid jid reason t s"

text \<open>A worker registers idle and a job is submitted pending, as the adapter builds it.\<close>

fun cluster_op_ok :: "cluster_op \<Rightarrow> bool" where
  "cluster_op_ok (Register_op eid w t) = (worker_jobs w = [])"
| "cluster_op_ok (Submit_op eid j t) = waiting j"
| "cluster_op_ok _ = True"

inductive cluster_run :: "(cluster_op \<Rightarrow> bool) \<Rightarrow> cluster_state \<Rightarrow> bool" for Q where
  cluster_start: "cluster_initialize cid = Inr s \<Longrightarrow> cluster_run Q s"
| cluster_next: "cluster_run Q s \<Longrightarrow> cluster_op_ok act \<Longrightarrow> Q act \<Longrightarrow> cluster_step act s = Inr s' \<Longrightarrow> cluster_run Q s'"

lemma start_loop: "cluster_ok s \<Longrightarrow> mset queued = mset (queued_jobs s) \<Longrightarrow> loop_ok queued (assignment_of s)"
proof -
  assume ok: "cluster_ok s" and q: "mset queued = mset (queued_jobs s)"
  have "mset (map job_id queued @ od_keys (running_jobs s)) = mset (queued_names s @ od_keys (running_jobs s))"
    using q by (simp add: queued_names_def)
  then have "distinct (map job_id queued @ od_keys (running_jobs s)) = distinct (queued_names s @ od_keys (running_jobs s))"
    by (rule mset_eq_imp_distinct_iff)
  moreover have "distinct (queued_names s @ od_keys (running_jobs s))"
    using ok by (auto simp: cluster_ok_def all_ids_def)
  moreover have "list_all waiting queued" using ok mset_eq_setD [OF q] by (simp add: cluster_ok_def list_all_iff)
  ultimately show ?thesis using ok by (simp add: loop_ok_def cluster_ok_def assignment_of_def)
qed

lemma assigned_ok:
  assumes ok: "cluster_ok s" and L: "loop_ok rest a"
    and m: "mset (map job_id rest @ od_keys (as_running a)) = mset (queued_names s @ od_keys (running_jobs s))"
  shows "cluster_ok (assigned_state s (rest, a))"
proof (cases "as_events a = []")
  case True
  with ok show ?thesis by (simp add: assigned_state_def)
next
  case False
  let ?s = "assigned_state s (rest, a)"
  have d: "distinct (map job_id rest)" using L by (simp add: loop_ok_def)
  have s': "queued_jobs ?s = rest" "queued_ids ?s = map job_id rest" "workers ?s = as_workers a"
      "running_jobs ?s = as_running a" "completed_jobs ?s = completed_jobs s" "failed_jobs ?s = failed_jobs s"
      "cancelled_jobs ?s = cancelled_jobs s" "statistics ?s = statistics s"
    using False d fold_os_add [of "[]" "map job_id rest"] by (simp_all add: assigned_state_def)
  have ids: "mset (all_ids ?s) = mset (all_ids s)"
    using m by (simp add: all_ids_def queued_names_def s' flip: add.assoc)
  show ?thesis using ok L ids_perm [OF ids]
    by (auto simp: cluster_ok_def loop_ok_def counts_ok_def queued_names_def s')
qed

lemma assign_ok:
  assumes ok: "cluster_ok s"
  shows "\<exists>s'. assign_jobs ids t s = Inr s' \<and> cluster_ok s' \<and> (\<exists>taken. queued_jobs s = taken @ queued_jobs s') \<and>
    (queued_jobs s' = [] \<or> (\<forall>w \<in> set (od_values (workers s')). spare w \<le> 0))"
proof (cases "queued_jobs s = [] \<or> workers s = []")
  case True
  with ok show ?thesis by (auto simp: assign_jobs_def od_values_def)
next
  case False
  from assign_loop_ok [OF start_loop [OF ok refl], of ids t]
  obtain rest a taken where L: "assign_loop ids t (queued_jobs s) (assignment_of s) = Inr (rest, a)" "loop_ok rest a"
      "queued_jobs s = taken @ rest"
      "mset (map job_id rest @ od_keys (as_running a)) = mset (map job_id (queued_jobs s) @ od_keys (as_running (assignment_of s)))"
      "rest = [] \<or> (\<forall>w \<in> set (od_values (as_workers a)). spare w \<le> 0)"
      "length (as_events a) = length (as_events (assignment_of s)) + length taken"
      "taken = [] \<longrightarrow> a = assignment_of s" by blast
  let ?s = "assigned_state s (rest, a)"
  have ev: "as_events a = [] \<longleftrightarrow> taken = []" using L(6) by (auto simp: assignment_of_def)
  have "queued_jobs ?s = rest" using L(3) ev by (auto simp: assigned_state_def)
  moreover have "workers ?s = as_workers a" using L(7) ev by (auto simp: assigned_state_def assignment_of_def)
  moreover have "cluster_ok ?s"
    using L(4) by (intro assigned_ok [OF ok L(2)]) (simp add: queued_names_def assignment_of_def)
  ultimately show ?thesis using False L(1,3,5) by (auto simp: assign_jobs_def)
qed

lemma affinity_ok:
  assumes ok: "cluster_ok s"
  shows "\<exists>s'. assign_jobs_with_affinity ids t s = Inr s' \<and> cluster_ok s' \<and>
    (\<forall>j \<in> set (queued_jobs s'). \<not> placeable (workers s') j) \<and>
    (\<exists>evs. cl_events s' = cl_events s @ evs \<and> list_all (suited (workers s) (queued_jobs s)) evs)"
proof (cases "queued_jobs s = [] \<or> workers s = []")
  case True
  with ok show ?thesis by (auto simp: assign_jobs_with_affinity_def placeable_def od_values_def)
next
  case False
  have tags: "same_tags (workers s) (as_workers (assignment_of s))"
    using ok by (simp add: same_tags_def assignment_of_def cluster_ok_def workers_ok_def)
  have zero: "\<forall>j \<in> set (take 0 (queued_jobs s)). \<not> placeable (as_workers (assignment_of s)) j"
    "list_all (suited (workers s) (queued_jobs s)) (as_events (assignment_of s))" by (simp_all add: assignment_of_def)
  from affinity_loop_ok [OF start_loop [OF ok refl] zero(1) tags order_refl zero(2), of ids t]
  obtain rest a where L: "affinity_loop ids t 0 (queued_jobs s) (assignment_of s) = Inr (rest, a)" "loop_ok rest a"
      "mset (map job_id rest @ od_keys (as_running a)) = mset (map job_id (queued_jobs s) @ od_keys (as_running (assignment_of s)))"
      "\<forall>j \<in> set rest. \<not> placeable (as_workers a) j" "list_all (suited (workers s) (queued_jobs s)) (as_events a)"
      "length (as_events a) + length rest = length (as_events (assignment_of s)) + length (queued_jobs s)"
      "length rest = length (queued_jobs s) \<longrightarrow> rest = queued_jobs s \<and> a = assignment_of s" by blast
  let ?s = "assigned_state s (rest, a)"
  have none: "as_events a = [] \<Longrightarrow> rest = queued_jobs s \<and> a = assignment_of s" using L(6,7) by (simp add: assignment_of_def)
  then have "queued_jobs ?s = rest" "workers ?s = as_workers a" "cl_events ?s = cl_events s @ as_events a"
    by (auto simp: assigned_state_def assignment_of_def)
  moreover have "cluster_ok ?s"
    using L(3) by (intro assigned_ok [OF ok L(2)]) (simp add: queued_names_def assignment_of_def)
  ultimately show ?thesis using False L(1,4,5) by (auto simp: assign_jobs_with_affinity_def)
qed

lemma rmap_fst: "rmap (\<lambda>j. rbind (f j) (\<lambda>k. Inr (k, j))) xs = Inr ys \<Longrightarrow> map snd ys = xs"
  by (induction xs arbitrary: ys) (auto simp: rbind_eq_Inr)

lemma aged_queue_mset: "aged_queue t rate queued = Inr q \<Longrightarrow> mset q = mset queued"
  by (auto simp: aged_queue_def rbind_eq_Inr dest!: rmap_fst simp flip: mset_map)
    (metis mset_map mset_stable_sort)

lemma aging_ok:
  assumes ok: "cluster_ok s" and run: "assign_jobs_with_aging ids t rate s = Inr s'"
  shows "cluster_ok s'"
proof (cases "queued_jobs s = [] \<or> workers s = []")
  case True
  with run ok show ?thesis by (auto simp: assign_jobs_with_aging_def split: if_splits)
next
  case False
  with run obtain q rest a where q: "aged_queue t rate (queued_jobs s) = Inr q"
      and l: "assign_loop ids t q (assignment_of s) = Inr (rest, a)" and s': "s' = assigned_state s (rest, a)"
    by (auto simp: assign_jobs_with_aging_def rbind_eq_Inr split: if_splits)
  note m = aged_queue_mset [OF q]
  from assign_loop_ok [OF start_loop [OF ok m], of ids t] l
  have L: "loop_ok rest a" "mset (map job_id rest @ od_keys (as_running a)) = mset (map job_id q @ od_keys (as_running (assignment_of s)))"
    by auto
  show ?thesis unfolding s'
    using L(2) m by (intro assigned_ok [OF ok L(1)]) (simp add: queued_names_def assignment_of_def)
qed

lemma step_ok:
  assumes ok: "cluster_ok s" and act: "cluster_op_ok act" and run: "cluster_step act s = Inr s'"
  shows "cluster_ok s'"
proof (cases act)
  case (Assign_op ids t)
  with assign_ok [OF ok, of ids t] run show ?thesis by auto
next
  case (Assign_affinity_op ids t)
  with affinity_ok [OF ok, of ids t] run show ?thesis by auto
qed (use assms in \<open>auto intro: submit_ok cancel_ok start_ok complete_ok fail_ok register_ok remove_ok status_ok aging_ok\<close>)

lemma cluster_run_ok: "cluster_run Q s \<Longrightarrow> cluster_ok s"
proof (induction rule: cluster_run.induct)
  case (cluster_start cid s)
  then show ?case
    by (auto simp: cluster_initialize_def cluster_ok_def all_ids_def queued_names_def table_ok_def workers_ok_def
      counts_ok_def od_keys_def [of "[]"] split: if_splits)
next
  case (cluster_next s act s')
  then show ?case using step_ok by blast
qed

section \<open>The properties\<close>

lemma table_entries: "table_ok P t \<Longrightarrow> list_all (\<lambda>(k, j). job_id j = k \<and> P j) t"
  by (auto simp: table_ok_def list_all_iff od_get_in)

text \<open>C37: In every state the cluster reaches, whatever the order of its operations, each job ever
  submitted is in exactly one place, in the status that place stands for -- pending and on no worker
  in the queue, assigned or running on a worker among the running jobs, completed, failed and
  cancelled in the three tables of those names -- filed there under its own id, and the counters
  count them.\<close>

theorem cluster_conserves_jobs:
  assumes "cluster_run Q s"
  shows "distinct (map job_id (queued_jobs s) @ od_keys (running_jobs s) @ od_keys (completed_jobs s) @
      od_keys (failed_jobs s) @ od_keys (cancelled_jobs s)) \<and>
    total_jobs_submitted (statistics s) = int (length (queued_jobs s) + length (running_jobs s)) +
      total_jobs_completed (statistics s) + total_jobs_failed (statistics s) + total_jobs_cancelled (statistics s) \<and>
    total_jobs_completed (statistics s) = int (length (completed_jobs s)) \<and>
    total_jobs_failed (statistics s) = int (length (failed_jobs s)) \<and>
    total_jobs_cancelled (statistics s) = int (length (cancelled_jobs s)) \<and>
    list_all waiting (queued_jobs s) \<and> list_all (\<lambda>(k, j). job_id j = k \<and> placed j) (running_jobs s) \<and>
    list_all (\<lambda>(k, j). job_id j = k \<and> job_state j = JOB_COMPLETED) (completed_jobs s) \<and>
    list_all (\<lambda>(k, j). job_id j = k \<and> job_state j = JOB_FAILED) (failed_jobs s) \<and>
    list_all (\<lambda>(k, j). job_id j = k \<and> job_state j = JOB_CANCELLED) (cancelled_jobs s)"
proof -
  have ok: "cluster_ok s" using assms by (rule cluster_run_ok)
  then have "list_all (\<lambda>(k, j). job_id j = k \<and> placed j) (running_jobs s)"
      "list_all (\<lambda>(k, j). job_id j = k \<and> in_state JOB_COMPLETED j) (completed_jobs s)"
      "list_all (\<lambda>(k, j). job_id j = k \<and> in_state JOB_FAILED j) (failed_jobs s)"
      "list_all (\<lambda>(k, j). job_id j = k \<and> in_state JOB_CANCELLED j) (cancelled_jobs s)"
    by (auto intro!: table_entries simp: cluster_ok_def)
  with ok show ?thesis by (simp add: cluster_ok_def counts_ok_def all_ids_def queued_names_def in_state_def)
qed

text \<open>C38: no worker is ever given more jobs than its capacity, nor the same job twice, and every job it
  lists is a running job assigned to it.\<close>

theorem no_worker_overloaded:
  assumes "cluster_run Q s" "od_get (workers s) k = Some w"
  shows "int (length (worker_jobs w)) \<le> capacity w \<and> distinct (worker_jobs w) \<and>
    list_all (\<lambda>x. \<exists>j. od_get (running_jobs s) x = Some j \<and> job_worker j = Some k) (worker_jobs w)"
proof -
  have "worker_ok (running_jobs s) k w"
    using cluster_run_ok [OF assms(1)] assms(2) by (simp add: cluster_ok_def workers_ok_def)
  then show ?thesis by (simp add: worker_ok_def list_all_iff)
qed

text \<open>C39: in every state the cluster reaches, the assignment loop returns, takes its jobs from the front
  of the queue, and leaves a job waiting only when no worker has a free slot.\<close>

theorem assignment_returns:
  assumes "cluster_run Q s"
  shows "\<exists>s' taken. assign_jobs ids t s = Inr s' \<and> queued_jobs s = taken @ queued_jobs s' \<and>
    (queued_jobs s' = [] \<or> list_all (\<lambda>w. capacity w \<le> int (length (worker_jobs w))) (od_values (workers s')))"
  using assign_ok [OF cluster_run_ok [OF assms], of ids t] by (auto simp: list_all_iff spare_def)

text \<open>affinity assignment returns; every job it assigns goes to a worker with all the tags the job
  requires, and every job it leaves has no suitable worker with a free slot.\<close>

theorem affinity_places_all_it_can:
  assumes "cluster_run Q s"
  shows "\<exists>s' evs. assign_jobs_with_affinity ids t s = Inr s' \<and> cl_events s' = cl_events s @ evs \<and>
    list_all (\<lambda>e. \<exists>eid j w. j \<in> set (queued_jobs s) \<and> w \<in> set (od_values (workers s)) \<and> suits j w \<and>
      (\<exists>t. e = JobAssigned eid t (job_id j) (node_id w))) evs \<and>
    list_all (\<lambda>j. list_all (\<lambda>w. \<not> suits j w \<or> spare w \<le> 0) (od_values (workers s'))) (queued_jobs s')"
proof -
  obtain s' evs where A: "assign_jobs_with_affinity ids t s = Inr s'"
      "\<forall>j \<in> set (queued_jobs s'). \<not> placeable (workers s') j" "cl_events s' = cl_events s @ evs"
      "list_all (suited (workers s) (queued_jobs s)) evs"
    using affinity_ok [OF cluster_run_ok [OF assms], of ids t] by blast
  have "list_all (\<lambda>e. \<exists>eid j w. j \<in> set (queued_jobs s) \<and> w \<in> set (od_values (workers s)) \<and> suits j w \<and>
      (\<exists>t. e = JobAssigned eid t (job_id j) (node_id w))) evs"
    using A(4) unfolding list_all_iff suited_def by blast
  moreover have "list_all (\<lambda>j. list_all (\<lambda>w. \<not> suits j w \<or> spare w \<le> 0) (od_values (workers s'))) (queued_jobs s')"
    using A(2) unfolding list_all_iff placeable_def by (meson not_less)
  ultimately show ?thesis using A(1,3) by blast
qed

subsection \<open>The order of the queue\<close>

definition timed :: "job \<Rightarrow> bool" where
  "timed j = (created_timestamp j \<noteq> FNaN)"

lemma flt_not_lt: "a \<noteq> FNaN \<Longrightarrow> b \<noteq> FNaN \<Longrightarrow> flt_le b a \<longleftrightarrow> \<not> flt_lt a b"
  by (cases a; cases b) (auto simp: flt_le_def)

lemma flt_le_trans': "a \<noteq> FNaN \<Longrightarrow> b \<noteq> FNaN \<Longrightarrow> c \<noteq> FNaN \<Longrightarrow> \<not> flt_lt b a \<Longrightarrow> \<not> flt_lt c b \<Longrightarrow> \<not> flt_lt c a"
  by (cases a; cases b; cases c) auto

lemma flt_asym: "flt_lt a b \<Longrightarrow> \<not> flt_lt b a"
  by (cases a; cases b) auto

interpretation queue_order: weak_order timed queue_lt
proof
  fix a b c
  show "timed a \<Longrightarrow> timed b \<Longrightarrow> queue_lt a b \<Longrightarrow> \<not> queue_lt b a" using flt_asym by (auto simp: queue_lt_def)
  show "timed a \<Longrightarrow> timed b \<Longrightarrow> timed c \<Longrightarrow> \<not> queue_lt b a \<Longrightarrow> \<not> queue_lt c b \<Longrightarrow> \<not> queue_lt c a"
    using flt_le_trans' [of "created_timestamp a" "created_timestamp b" "created_timestamp c"]
    by (auto simp: queue_lt_def timed_def)
qed

interpretation node_order: weak_order "\<lambda>w. True" node_lt
  by unfold_locales (auto simp: node_lt_def)

interpretation aged_order: weak_order "\<lambda>p. fst p \<noteq> FNaN" key_above
proof
  fix a b c :: "pyfloat \<times> 'a"
  show "fst a \<noteq> FNaN \<Longrightarrow> fst b \<noteq> FNaN \<Longrightarrow> key_above a b \<Longrightarrow> \<not> key_above b a" using flt_asym by (auto simp: key_above_def)
  show "fst a \<noteq> FNaN \<Longrightarrow> fst b \<noteq> FNaN \<Longrightarrow> fst c \<noteq> FNaN \<Longrightarrow> \<not> key_above b a \<Longrightarrow> \<not> key_above c b \<Longrightarrow> \<not> key_above c a"
    using flt_le_trans' [of "fst c" "fst b" "fst a"] by (auto simp: key_above_def)
qed

lemma queue_le_iff: "timed a \<Longrightarrow> timed b \<Longrightarrow> queue_le a b \<longleftrightarrow> \<not> queue_lt b a"
  using flt_not_lt [of "created_timestamp b" "created_timestamp a"] by (auto simp: queue_lt_def queue_le_def timed_def)

lemma enqueue_stable:
  assumes "\<forall>y \<in> set queued. timed y" "timed j" "queue_order.in_order queued"
  shows "enqueue queued j = stable_sort queue_lt (queued @ [j])"
proof (cases "queued = [] \<or> queue_le (last queued) j")
  case True
  then have "queued \<noteq> [] \<Longrightarrow> \<not> queue_lt j (last queued)" using assms(1,2) queue_le_iff last_in_set by metis
  from queue_order.append_is_stable [OF assms this] True show ?thesis by (simp add: enqueue_def)
next
  case False
  then show ?thesis by (simp add: enqueue_def)
qed

fun no_aging :: "cluster_op \<Rightarrow> bool" where
  "no_aging (Assign_aging_op ids t rate) = False"
| "no_aging (Submit_op eid j t) = timed j"
| "no_aging _ = True"

lemma filter_in_order: "queue_order.in_order js \<Longrightarrow> queue_order.in_order (filter P js)"
  by (rule sorted_wrt_filter)

lemma affinity_keeps_order:
  "affinity_loop ids t index queued a = Inr (rest, a') \<Longrightarrow> sorted_wrt P queued \<Longrightarrow>
    sorted_wrt P rest \<and> set rest \<subseteq> set queued"
proof (induction ids t index queued a arbitrary: rest a' rule: affinity_loop.induct)
  case (1 ids t index queued a)
  show ?case
  proof (cases "length queued \<le> index")
    case True
    with "1.prems" show ?thesis by (simp add: affinity_loop.simps [of _ _ index])
  next
    case False
    show ?thesis
    proof (cases "available_workers (suits (queued ! index)) (as_workers a)")
      case Nil
      with "1.prems" False have "affinity_loop ids t (index + 1) queued a = Inr (rest, a')"
        by (simp add: affinity_loop.simps [of _ _ index queued])
      from "1.IH"(1) [OF False refl Nil this "1.prems"(2)] show ?thesis .
    next
      case (Cons w others)
      let ?rest = "take index queued @ drop (index + 1) queued"
      obtain a1 where a1: "assign_to ids t (queued ! index) (first_max spare w others) a = Inr a1"
          "affinity_loop ids t index ?rest a1 = Inr (rest, a')"
        using "1.prems"(1) False Cons by (auto simp: affinity_loop.simps [of _ _ index queued] Let_def rbind_eq_Inr)
      have "queued = take index queued @ queued ! index # drop (index + 1) queued"
        using False by (simp add: Cons_nth_drop_Suc)
      with "1.prems"(2) have "sorted_wrt P (take index queued @ queued ! index # drop (index + 1) queued)" by metis
      then have "sorted_wrt P ?rest" by (simp add: sorted_wrt_append)
      from "1.IH"(2) [OF False refl Cons a1 this] show ?thesis by (auto dest: in_set_takeD in_set_dropD)
    qed
  qed
qed

definition queue_sorted :: "cluster_state \<Rightarrow> bool" where
  "queue_sorted s = ((\<forall>j \<in> set (queued_jobs s). timed j) \<and> queue_order.in_order (queued_jobs s))"

lemma queue_sorted_part:
  "queue_sorted s \<Longrightarrow> set (queued_jobs s') \<subseteq> set (queued_jobs s) \<Longrightarrow> queue_order.in_order (queued_jobs s') \<Longrightarrow> queue_sorted s'"
  by (auto simp: queue_sorted_def)

lemma step_sorted_queue:
  assumes srt: "queue_sorted s" and act: "no_aging act" and ok: "cluster_ok s" and run: "cluster_step act s = Inr s'"
  shows "queue_sorted s'"
proof (cases act)
  case (Submit_op eid j t)
  with run have "queued_jobs s' = enqueue (queued_jobs s) j" by (auto simp: submit_job_def rbind_eq_Inr)
  with srt act Submit_op enqueue_stable [of "queued_jobs s" j] queue_order.stable_sort_in_order [of "queued_jobs s @ [j]"]
  show ?thesis by (auto simp: queue_sorted_def)
next
  case (Cancel_op eid jid t)
  with run have "queued_jobs s' = queued_jobs s \<or> (\<exists>P. queued_jobs s' = filter P (queued_jobs s))"
    by (auto simp: cancel_job_def rbind_eq_Inr record_cancelled_fields split: option.splits if_splits)
  then show ?thesis using srt by (elim disjE exE; intro queue_sorted_part [OF srt])
    (auto simp: queue_sorted_def filter_in_order)
next
  case (Assign_op ids t)
  from assign_ok [OF ok, of ids t] run Assign_op obtain taken where "queued_jobs s = taken @ queued_jobs s'" by auto
  then show ?thesis using srt unfolding queue_sorted_def
    by (metis Un_iff set_append sorted_wrt_append)
next
  case (Assign_affinity_op ids t)
  show ?thesis
  proof (cases "queued_jobs s' = queued_jobs s")
    case True
    then show ?thesis using srt by (simp add: queue_sorted_def)
  next
    case False
    with Assign_affinity_op run obtain rest a where
      "affinity_loop ids t 0 (queued_jobs s) (assignment_of s) = Inr (rest, a)" "queued_jobs s' = rest"
      by (auto simp: assign_jobs_with_affinity_def rbind_eq_Inr assigned_state_def split: if_splits)
    with affinity_keeps_order [where P = "\<lambda>a b. \<not> queue_lt b a"] srt show ?thesis
      by (intro queue_sorted_part [OF srt]) (simp_all add: queue_sorted_def)
  qed
next
  case (Assign_aging_op ids t rate)
  with act show ?thesis by simp
qed (use run in \<open>auto simp: register_worker_def remove_worker_def update_status_def start_job_def complete_job_def
    fail_job_def rbind_eq_Inr intro!: queue_sorted_part [OF srt] split: if_splits option.splits\<close>,
  use srt in \<open>simp_all add: queue_sorted_def\<close>)

lemma run_sorted_queue: "cluster_run no_aging s \<Longrightarrow> queue_sorted s"
proof (induction rule: cluster_run.induct)
  case (cluster_start cid s)
  then show ?case by (auto simp: cluster_initialize_def queue_sorted_def split: if_splits)
next
  case (cluster_next s act s')
  then show ?case using step_sorted_queue cluster_run_ok by blast
qed

text \<open>without aging the queue is always in priority order, descending priority and then ascending
  creation time, and the append that a submission usually is gives exactly what sorting the whole queue
  again would.\<close>

theorem queue_in_priority_order:
  assumes "cluster_run no_aging s" "timed j"
  shows "sorted_wrt (\<lambda>a b. \<not> queue_lt b a) (queued_jobs s) \<and>
    enqueue (queued_jobs s) j = stable_sort queue_lt (queued_jobs s @ [j])"
  using run_sorted_queue [OF assms(1)] enqueue_stable [OF _ assms(2)] by (simp add: queue_sorted_def)

subsection \<open>A small cluster\<close>

definition small_worker :: worker_node where
  "small_worker = \<lparr>node_id = ''w1'', hostname = ''h'', worker_state = IDLE, capacity = 1, worker_jobs = [],
     completed_count = 0, worker_metadata = [(''tags'', ''gpu'')]\<rparr>"

definition low_job :: job where "low_job = fresh_job ''low'' BACKTEST 0 (FFin 0) []"
definition high_job :: job where "high_job = fresh_job ''high'' BACKTEST 10 (FFin 90) []"
definition old_job :: job where "old_job = fresh_job ''old'' BACKTEST 5 (FFin 0) []"

definition small_cluster :: cluster_state where
  "small_cluster = \<lparr>cluster_id = ''c'', workers = [(''w1'', small_worker)], queued_jobs = [high_job, old_job, low_job],
     queued_ids = [''low'', ''high'', ''old''], running_jobs = [], completed_jobs = [], failed_jobs = [], cancelled_jobs = [],
     statistics = \<lparr>total_jobs_submitted = 3, total_jobs_completed = 0, total_jobs_failed = 0, total_jobs_cancelled = 0\<rparr>,
     cl_events = [WorkerRegistered ''e1'' (FFin 0) ''w1'' 1, JobSubmitted ''e2'' (FFin 0) ''low'' BACKTEST 0,
       JobSubmitted ''e3'' (FFin 90) ''high'' BACKTEST 10, JobSubmitted ''e4'' (FFin 91) ''old'' BACKTEST 5]\<rparr>"

lemmas small_defs = small_worker_def low_job_def high_job_def old_job_def fresh_job_def small_cluster_def

lemma small_cluster_reached: "cluster_run no_aging small_cluster"
proof -
  let ?zero = "\<lparr>total_jobs_submitted = 0, total_jobs_completed = 0, total_jobs_failed = 0, total_jobs_cancelled = 0\<rparr>"
  define s0 :: cluster_state where "s0 = \<lparr>cluster_id = ''c'', workers = [], queued_jobs = [], queued_ids = [], running_jobs = [],
     completed_jobs = [], failed_jobs = [], cancelled_jobs = [], statistics = ?zero, cl_events = []\<rparr>"
  have "cluster_initialize ''c'' = Inr s0" by (simp add: cluster_initialize_def s0_def blank_def py_space_def)
  then have r0: "cluster_run no_aging s0" by (rule cluster_run.cluster_start)
  define s1 where "s1 = s0\<lparr>workers := [(''w1'', small_worker)], cl_events := [WorkerRegistered ''e1'' (FFin 0) ''w1'' 1]\<rparr>"
  have "cluster_step (Register_op ''e1'' small_worker (FFin 0)) s0 = Inr s1"
    by (simp add: register_worker_def validate_worker_registration_def s0_def s1_def small_worker_def od_has_def
      blank_def py_space_def)
  from cluster_run.cluster_next [OF r0 _ _ this] have r1: "cluster_run no_aging s1" by (simp add: small_worker_def)
  note ev = submit_job_def validate_job_submission_def od_has_def blank_def py_space_def os_add_def enqueue_def
    queue_le_def queue_lt_def flt_le_def stable_sort_def fresh_job_def
  define s2 where "s2 = s1\<lparr>queued_jobs := [low_job], queued_ids := [''low''], statistics := ?zero\<lparr>total_jobs_submitted := 1\<rparr>,
     cl_events := cl_events s1 @ [JobSubmitted ''e2'' (FFin 0) ''low'' BACKTEST 0]\<rparr>"
  have "cluster_step (Submit_op ''e2'' low_job (FFin 0)) s1 = Inr s2"
    by (simp add: ev s0_def s1_def s2_def low_job_def)
  from cluster_run.cluster_next [OF r1 _ _ this] have r2: "cluster_run no_aging s2"
    by (simp add: low_job_def fresh_job_def waiting_def timed_def)
  define s3 where "s3 = s2\<lparr>queued_jobs := [high_job, low_job], queued_ids := [''low'', ''high''],
     statistics := ?zero\<lparr>total_jobs_submitted := 2\<rparr>,
     cl_events := cl_events s2 @ [JobSubmitted ''e3'' (FFin 90) ''high'' BACKTEST 10]\<rparr>"
  have "cluster_step (Submit_op ''e3'' high_job (FFin 90)) s2 = Inr s3"
    by (simp add: ev s0_def s1_def s2_def s3_def low_job_def high_job_def)
  from cluster_run.cluster_next [OF r2 _ _ this] have r3: "cluster_run no_aging s3"
    by (simp add: high_job_def fresh_job_def waiting_def timed_def)
  have "cluster_step (Submit_op ''e4'' old_job (FFin 91)) s3 = Inr small_cluster"
    by (simp add: ev s0_def s1_def s2_def s3_def low_job_def high_job_def old_job_def small_cluster_def)
  from cluster_run.cluster_next [OF r3 _ _ this] show ?thesis
    by (simp add: old_job_def fresh_job_def waiting_def timed_def)
qed

lemma small_cluster_any: "cluster_run (\<lambda>act. True) small_cluster"
  using small_cluster_reached
proof (induction rule: cluster_run.induct)
  case (cluster_start cid s)
  then show ?case by (rule cluster_run.cluster_start)
next
  case (cluster_next s act s')
  then show ?case using cluster_run.cluster_next by blast
qed

theorem cluster_conserves_jobs_witness:
  "distinct (map job_id (queued_jobs small_cluster)) \<and> total_jobs_submitted (statistics small_cluster) = 3 \<and>
   length (queued_jobs small_cluster) = 3 \<and> list_all waiting (queued_jobs small_cluster)"
  using cluster_conserves_jobs [OF small_cluster_reached] by (simp add: small_cluster_def)

theorem no_worker_overloaded_witness:
  "int (length (worker_jobs small_worker)) \<le> capacity small_worker \<and> distinct (worker_jobs small_worker)"
  using no_worker_overloaded [OF small_cluster_reached, of "''w1''" small_worker]
  by (simp add: small_cluster_def od_get_Cons)

theorem assignment_returns_witness:
  "\<exists>s' taken. assign_jobs (\<lambda>n. ''a'') (FFin 100) small_cluster = Inr s' \<and> queued_jobs small_cluster = taken @ queued_jobs s' \<and>
    (queued_jobs s' = [] \<or> list_all (\<lambda>w. capacity w \<le> int (length (worker_jobs w))) (od_values (workers s')))"
  by (rule assignment_returns [OF small_cluster_reached])

theorem affinity_places_all_it_can_witness:
  "\<exists>s' evs. assign_jobs_with_affinity (\<lambda>n. ''a'') (FFin 100) small_cluster = Inr s' \<and>
    cl_events s' = cl_events small_cluster @ evs"
  using affinity_places_all_it_can [OF small_cluster_reached] by blast

theorem queue_in_priority_order_witness:
  "sorted_wrt (\<lambda>a b. \<not> queue_lt b a) [high_job, old_job, low_job] \<and>
   enqueue [high_job, old_job, low_job] old_job = stable_sort queue_lt [high_job, old_job, low_job, old_job]"
  using queue_in_priority_order [OF small_cluster_reached, of old_job]
  by (simp add: small_cluster_def old_job_def fresh_job_def timed_def)

text \<open>
  Aging writes the queue back in the order of the aged priorities: what it leaves behind is no
  longer in the priority order every other operation keeps and relies on.
\<close>

lemma aging_breaks_order:
  "\<exists>s'. assign_jobs_with_aging (\<lambda>n. ''a'') (FFin 100) (FFin 1) small_cluster = Inr s' \<and>
    queued_jobs s' = [low_job, high_job] \<and> queue_lt high_job low_job"
proof -
  have eff: "effective_priority (FFin 100) (FFin 1) high_job = Inr (FFin 20)"
      "effective_priority (FFin 100) (FFin 1) old_job = Inr (FFin 105)"
      "effective_priority (FFin 100) (FFin 1) low_job = Inr (FFin 100)"
    by (simp_all add: effective_priority_def high_job_def old_job_def low_job_def fresh_job_def flt_of_int_def
      flt_sub_def flt_max_def fl_numeral)
  have q: "aged_queue (FFin 100) (FFin 1) (queued_jobs small_cluster) = Inr [old_job, low_job, high_job]"
    by (simp add: aged_queue_def small_cluster_def eff stable_sort_def key_above_def)
  have ids: "job_id old_job = ''old''" "job_state old_job = JOB_PENDING" by (simp_all add: old_job_def fresh_job_def)
  obtain a where a: "assign_loop (\<lambda>n. ''a'') (FFin 100) [old_job, low_job, high_job] (assignment_of small_cluster) =
      Inr ([low_job, high_job], a)" "as_events a \<noteq> []"
    by (simp add: assignment_of_def small_cluster_def available_workers_def od_values_def stable_sort_def
      small_worker_def assign_to_def validate_job_transition_def valid_transitions_def ids node_lt_def)
  have "assign_jobs_with_aging (\<lambda>n. ''a'') (FFin 100) (FFin 1) small_cluster =
      Inr (assigned_state small_cluster ([low_job, high_job], a))"
    using q a(1) by (simp add: assign_jobs_with_aging_def) (simp add: small_cluster_def)
  moreover have "queue_lt high_job low_job" by (simp add: queue_lt_def high_job_def low_job_def fresh_job_def)
  ultimately show ?thesis using a(2) by (simp add: assigned_state_def)
qed

text \<open>And an assignment does not look at a worker's status: an offline worker is given the job.\<close>

lemma offline_worker_is_assigned:
  "\<exists>s'. assign_jobs (\<lambda>n. ''a'') (FFin 100) (update_status ''w1'' OFFLINE small_cluster) = Inr s' \<and>
    map_option worker_jobs (od_get (workers s') ''w1'') = Some [''high''] \<and>
    map_option worker_state (od_get (workers s') ''w1'') = Some OFFLINE"
  by (simp add: assign_jobs_def update_status_def small_cluster_def small_worker_def od_get_Cons assignment_of_def
    available_workers_def od_values_def stable_sort_def assign_to_def validate_job_transition_def valid_transitions_def
    high_job_def fresh_job_def assigned_state_def)

end
