(* ===== verification/Contributions.thy ===== *)
theory Contributions
  imports Arithmetic Dicts Texts "HOL-Library.Multiset"
begin

text \<open>
  Who asked for what: \<open>alphalab/core/contribution.py\<close> and the asset netting of
  \<open>alphalab/allocation/netting.py\<close>. Strategies' signed quantities are summed per strategy and per
  asset, and an amount is divided among the strategies of a netted order. Sums written with bare
  operators run in the caller's context \<open>amb\<close>; the division runs in its own.
\<close>

section \<open>Contributions\<close>

record strategy_contribution =
  contributor :: string
  contributed :: decimal

definition add_quantity :: "dctx \<Rightarrow> decimal \<Rightarrow> (string, decimal) od \<Rightarrow> string \<times> decimal \<Rightarrow> (string, decimal) od res" where
  "add_quantity amb zero totals p = (case p of (sid, q) \<Rightarrow>
     rbind (dec_add amb (case od_get totals sid of None \<Rightarrow> zero | Some t \<Rightarrow> t) q) (\<lambda>t. Inr (od_set sid t totals)))"

definition contributions_ordered :: "(string, decimal) od \<Rightarrow> strategy_contribution list" where
  "contributions_ordered totals =
     map (\<lambda>sid. \<lparr>contributor = sid, contributed = the (od_get totals sid)\<rparr>) (sort (od_keys totals))"

definition contributions_from :: "dctx \<Rightarrow> (string \<times> decimal) list \<Rightarrow> strategy_contribution list res" where
  "contributions_from amb sized =
     rbind (rfold (add_quantity amb (Fin 0 0)) [] sized) (\<lambda>totals. Inr (contributions_ordered totals))"

section \<open>Netting\<close>

definition net_quantities :: "dctx \<Rightarrow> (string \<times> string \<times> decimal) list \<Rightarrow> (string, decimal) od res" where
  "net_quantities amb sized_intents =
     rfold (\<lambda>net (sid, asset, q). add_quantity amb (Fin 0 (-2)) net (asset, q)) [] sized_intents"

definition rows_by_asset :: "(string \<times> string \<times> decimal) list \<Rightarrow> (string, (string \<times> decimal) list) od" where
  "rows_by_asset sized_intents =
     foldl (\<lambda>m (sid, asset, q). od_set asset ((case od_get m asset of None \<Rightarrow> [] | Some rows \<Rightarrow> rows) @ [(sid, q)]) m)
       [] sized_intents"

definition contributions_by_asset ::
  "dctx \<Rightarrow> (string \<times> string \<times> decimal) list \<Rightarrow> (string, strategy_contribution list) od res" where
  "contributions_by_asset amb sized_intents =
     rmap (\<lambda>(asset, rows). rbind (contributions_from amb rows) (\<lambda>cs. Inr (asset, cs))) (rows_by_asset sized_intents)"

section \<open>Dividing an amount\<close>

definition SPLIT_CONTEXT :: dctx where
  "SPLIT_CONTEXT = \<lparr>prec = 28, rmode = ROUND_HALF_EVEN, Emin = -999999, Emax = 999999\<rparr>"

definition net_of :: "strategy_contribution list \<Rightarrow> decimal res" where
  "net_of cs = rfold (\<lambda>net c. dec_add SPLIT_CONTEXT net (contributed c)) (Fin 0 0) cs"

text \<open>One share of the loop: rounded to the quantum, and added to what is assigned.\<close>

definition next_share ::
  "decimal \<Rightarrow> decimal \<Rightarrow> decimal \<Rightarrow> (string \<times> decimal) list \<times> decimal \<Rightarrow> strategy_contribution \<Rightarrow>
   ((string \<times> decimal) list \<times> decimal) res" where
  "next_share amount net quantum st c = (case st of (parts, assigned) \<Rightarrow>
     rbind (dec_mul SPLIT_CONTEXT amount (contributed c)) (\<lambda>x.
     rbind (dec_div SPLIT_CONTEXT x net) (\<lambda>y.
     rbind (dec_quantize SPLIT_CONTEXT y quantum) (\<lambda>share.
     rbind (dec_add SPLIT_CONTEXT assigned share) (\<lambda>a.
       Inr (parts @ [(contributor c, share)], a))))))"

definition split_by_contribution ::
  "decimal \<Rightarrow> strategy_contribution list \<Rightarrow> decimal \<Rightarrow> (string \<times> decimal) list res" where
  "split_by_contribution amount contributions quantum =
     (if contributions = [] then Inr []
      else
        rbind (net_of contributions) (\<lambda>net.
        if dec_eq net dec_zero then
          rbind (dec_div SPLIT_CONTEXT amount (Fin (int (length contributions)) 0)) (\<lambda>x.
          rbind (dec_quantize SPLIT_CONTEXT x quantum) (\<lambda>share.
          let head = map (\<lambda>c. (contributor c, share)) (butlast contributions) in
          rbind (dec_mul SPLIT_CONTEXT share (Fin (int (length head)) 0)) (\<lambda>y.
          rbind (dec_sub SPLIT_CONTEXT amount y) (\<lambda>remainder.
            Inr (head @ [(contributor (last contributions), remainder)])))))
        else
          rbind (rfold (next_share amount net quantum) ([], Fin 0 0) (butlast contributions)) (\<lambda>(parts, assigned).
          rbind (dec_sub SPLIT_CONTEXT amount assigned) (\<lambda>remainder.
            Inr (parts @ [(contributor (last contributions), remainder)])))))"

section \<open>Sums on a grid\<close>

text \<open>Numbers with no exponent below \<open>e\<close> whose sums stay below \<open>10 powi (e + prec)\<close> add exactly.\<close>

definition grid :: "int \<Rightarrow> decimal \<Rightarrow> bool" where
  "grid e d = (case d of Fin c x \<Rightarrow> e \<le> x | _ \<Rightarrow> False)"

fun dec_exponent :: "decimal \<Rightarrow> int" where
  "dec_exponent (Fin c x) = x"
| "dec_exponent _ = 0"

definition room :: "dctx \<Rightarrow> int \<Rightarrow> bool" where
  "room ctx e = (0 < prec ctx \<and> Etiny ctx \<le> e \<and> e \<le> 0 \<and> e + int (prec ctx) \<le> Emax ctx \<and> 0 \<le> Emax ctx)"

lemma gridD: "grid e d \<Longrightarrow> \<exists>c x. d = Fin c x \<and> e \<le> x"
  by (cases d) (auto simp: grid_def)

lemma same_decimal: "is_finite a \<Longrightarrow> is_finite b \<Longrightarrow> dval a = dval b \<Longrightarrow> dec_exponent a = dec_exponent b \<Longrightarrow> a = b"
proof -
  assume a: "is_finite a" "is_finite b" "dval a = dval b" "dec_exponent a = dec_exponent b"
  obtain c x d y where e: "a = Fin c x" "b = Fin d y" using a(1,2) by (auto simp: is_finite_iff)
  with a(3,4) have "of_int c * 10 powi x = of_int d * (10::rat) powi x" by (simp add: dval.simps(1))
  then have "c = d" using powi_pos [of x] by (metis mult_right_cancel of_int_eq_iff less_irrefl)
  with a(4) e show ?thesis by simp
qed

lemma grid_add:
  assumes r: "room ctx e" and a: "grid e a" "dec_exponent a \<le> 0" and b: "grid e b"
    and small: "\<bar>dval a + dval b\<bar> < 10 powi (e + int (prec ctx))"
  shows "\<exists>s. dec_add ctx a b = Inr s \<and> grid e s \<and> dec_exponent s = min (dec_exponent a) (dec_exponent b) \<and>
    dval s = dval a + dval b"
proof -
  obtain c x d y where ab: "a = Fin c x" "b = Fin d y" "e \<le> x" "e \<le> y" "x \<le> 0"
    using gridD [OF a(1)] gridD [OF b] a(2) by auto
  obtain k where k: "add_exact a b = Fin k (min x y)" by (simp add: ab Let_def)
  have v: "dval (Fin k (min x y)) = dval a + dval b"
    unfolding k [symmetric] by (rule dval_add_exact) (simp_all add: ab)
  have "fits ctx (Fin k (min x y))"
  proof (cases "k = 0")
    case True
    with r ab show ?thesis by (intro iffD2 [OF arg_cong [OF True, of "\<lambda>k. fits ctx (Fin k (min x y))"]])
      (auto simp: room_def intro!: fits_zero)
  next
    case False
    have "min x y + int (num_digits (nat \<bar>k\<bar>)) \<le> e + int (prec ctx)"
      by (rule digits_magnitude [OF False]) (use small in \<open>simp only: v\<close>)
    with r ab show ?thesis by (auto simp: room_def)
  qed
  then have "dec_add ctx a b = Inr (Fin k (min x y))" using dec_add_exact [of a b ctx] k ab by simp
  then show ?thesis using ab v by (auto simp: grid_def)
qed

lemma grid_finite: "grid e d \<Longrightarrow> is_finite d"
  by (auto dest: gridD)

section \<open>Totals per key\<close>

definition sum_for :: "string \<Rightarrow> (string \<times> decimal) list \<Rightarrow> rat" where
  "sum_for k sized = sum_list (map (\<lambda>(sid, q). if sid = k then dval q else 0) sized)"

definition size_of :: "(string \<times> decimal) list \<Rightarrow> rat" where
  "size_of sized = sum_list (map (\<lambda>(sid, q). \<bar>dval q\<bar>) sized)"

definition low_for :: "int \<Rightarrow> string \<Rightarrow> (string \<times> decimal) list \<Rightarrow> int" where
  "low_for z k sized = Min (insert z {dec_exponent q | q. (k, q) \<in> set sized})"

text \<open>Quantities the context sums without rounding, in any order.\<close>

definition sums_exactly :: "dctx \<Rightarrow> int \<Rightarrow> (string \<times> decimal) list \<Rightarrow> bool" where
  "sums_exactly ctx e sized = (room ctx e \<and> list_all (\<lambda>(sid, q). grid e q) sized \<and> size_of sized < 10 powi (e + int (prec ctx)))"

lemma sum_for_le: "\<bar>sum_for k sized\<bar> \<le> size_of sized"
  by (induction sized) (auto simp: sum_for_def size_of_def intro: order_trans [OF abs_triangle_ineq])

lemma size_nonneg: "0 \<le> size_of sized"
  by (induction sized) (auto simp: size_of_def)

lemma size_append [simp]: "size_of (xs @ ys) = size_of xs + size_of ys"
  by (simp add: size_of_def)

lemma sum_for_append [simp]: "sum_for k (xs @ ys) = sum_for k xs + sum_for k ys"
  by (simp add: sum_for_def)

lemma sum_for_none: "k \<notin> fst ` set sized \<Longrightarrow> sum_for k sized = 0"
  by (induction sized) (auto simp: sum_for_def)

lemma low_for_finite: "finite {dec_exponent q | q. (k, q) \<in> set sized}"
proof -
  have "{dec_exponent q | q. (k, q) \<in> set sized} \<subseteq> (\<lambda>(a, q). dec_exponent q) ` set sized" by force
  then show ?thesis by (rule finite_subset) simp
qed

lemma low_for_snoc: "low_for z k (xs @ [(k', q)]) = (if k' = k then min (low_for z k xs) (dec_exponent q) else low_for z k xs)"
proof (cases "k' = k")
  case True
  have e: "{dec_exponent p | p. (k, p) \<in> set (xs @ [(k', q)])} = insert (dec_exponent q) {dec_exponent p | p. (k, p) \<in> set xs}"
    using True by auto
  have f: "finite (insert z {dec_exponent p | p. (k, p) \<in> set xs})" using low_for_finite [of k xs] by simp
  have "Min (insert z (insert (dec_exponent q) {dec_exponent p | p. (k, p) \<in> set xs})) =
      min (dec_exponent q) (Min (insert z {dec_exponent p | p. (k, p) \<in> set xs}))"
    unfolding insert_commute [of z] by (rule Min_insert [OF f]) simp
  then show ?thesis unfolding low_for_def e using True by (simp add: min.commute)
next
  case False
  then have "{dec_exponent p | p. (k, p) \<in> set (xs @ [(k', q)])} = {dec_exponent p | p. (k, p) \<in> set xs}" by auto
  with False show ?thesis by (simp add: low_for_def)
qed

lemma low_for_perm: "set xs = set ys \<Longrightarrow> low_for z k xs = low_for z k ys"
  by (simp add: low_for_def)

lemma sum_list_perm:
  fixes f :: "'a \<Rightarrow> rat"
  assumes "mset xs = mset ys"
  shows "sum_list (map f xs) = sum_list (map f ys)"
proof -
  have "sum_list (map f zs) = sum_mset (image_mset f (mset zs))" for zs :: "'a list"
    by (simp flip: sum_mset_sum_list)
  with assms show ?thesis by (simp only:)
qed

lemma sum_for_perm: "mset xs = mset ys \<Longrightarrow> sum_for k xs = sum_for k ys"
  unfolding sum_for_def by (rule sum_list_perm)

lemma size_perm: "mset xs = mset ys \<Longrightarrow> size_of xs = size_of ys"
  unfolding size_of_def by (rule sum_list_perm)

lemma sums_exactly_perm: "mset xs = mset ys \<Longrightarrow> sums_exactly ctx e xs = sums_exactly ctx e ys"
  using size_perm [of xs ys] mset_eq_setD [of xs ys] by (simp only: sums_exactly_def list_all_iff)

text \<open>What the loop has after some quantities: each key's exact sum, at the finest exponent met.\<close>

definition totals_are :: "int \<Rightarrow> (string \<times> decimal) list \<Rightarrow> (string, decimal) od \<Rightarrow> bool" where
  "totals_are z sized totals =
     (od_ok totals \<and> set (od_keys totals) = fst ` set sized \<and>
      (\<forall>k d. od_get totals k = Some d \<longrightarrow> is_finite d \<and> dval d = sum_for k sized \<and> dec_exponent d = low_for z k sized))"

lemma totals_step:
  assumes T: "totals_are z sized totals" and S: "sums_exactly ctx e (sized @ [(k, q)])" and z: "e \<le> z" "z \<le> 0"
  shows "\<exists>totals'. add_quantity ctx (Fin 0 z) totals (k, q) = Inr totals' \<and> totals_are z (sized @ [(k, q)]) totals'"
proof -
  have r: "room ctx e" and g: "grid e q" "list_all (\<lambda>(sid, q). grid e q) sized"
    and small: "size_of (sized @ [(k, q)]) < 10 powi (e + int (prec ctx))" using S by (auto simp: sums_exactly_def)
  define t where "t = (case od_get totals k of None \<Rightarrow> Fin 0 z | Some t \<Rightarrow> t)"
  have t: "is_finite t" "dval t = sum_for k sized" "dec_exponent t = low_for z k sized"
  proof -
    have "is_finite t \<and> dval t = sum_for k sized \<and> dec_exponent t = low_for z k sized"
    proof (cases "od_get totals k")
      case None
      then have out: "k \<notin> fst ` set sized" using T by (auto simp: totals_are_def od_get_None)
      then have no: "(k, q) \<notin> set sized" for q by force
      from out have "sum_for k sized = 0" by (rule sum_for_none)
      with None no show ?thesis by (simp add: t_def low_for_def)
    next
      case (Some d)
      with T show ?thesis by (simp add: t_def totals_are_def)
    qed
    then show "is_finite t" "dval t = sum_for k sized" "dec_exponent t = low_for z k sized" by blast+
  qed
  have low: "e \<le> low_for z k sized" "low_for z k sized \<le> z"
    using low_for_finite [of k sized] g(2) z(1) by (auto simp: low_for_def list_all_iff grid_def split: decimal.splits)
  have gt: "grid e t" "dec_exponent t \<le> 0"
    using t low z(2) by (auto simp: grid_def is_finite_iff)
  have "\<bar>dval t + dval q\<bar> = \<bar>sum_for k (sized @ [(k, q)])\<bar>" using t(2) by (simp add: sum_for_def)
  also have "\<dots> < 10 powi (e + int (prec ctx))" using sum_for_le small by (rule le_less_trans)
  finally obtain s where s: "dec_add ctx t q = Inr s" "grid e s"
      "dec_exponent s = min (dec_exponent t) (dec_exponent q)" "dval s = dval t + dval q"
    using grid_add [OF r gt g(1)] by blast
  have "add_quantity ctx (Fin 0 z) totals (k, q) = Inr (od_set k s totals)"
    using s(1) by (simp add: add_quantity_def t_def)
  moreover have "totals_are z (sized @ [(k, q)]) (od_set k s totals)"
    using T s t grid_finite [OF s(2)]
    by (auto simp: totals_are_def low_for_snoc sum_for_def split: if_splits)
  ultimately show ?thesis by blast
qed

lemma totals_fold:
  "sums_exactly ctx e sized \<Longrightarrow> e \<le> z \<Longrightarrow> z \<le> 0 \<Longrightarrow>
    \<exists>totals. rfold (add_quantity ctx (Fin 0 z)) [] sized = Inr totals \<and> totals_are z sized totals"
proof (induction sized rule: rev_induct)
  case Nil
  then show ?case by (simp add: totals_are_def od_keys_def)
next
  case (snoc p sized)
  obtain k q where p: "p = (k, q)" by (cases p)
  have "sums_exactly ctx e sized"
    using snoc.prems(1) size_nonneg [of "[p]"] by (auto simp: sums_exactly_def intro: le_less_trans [rotated])
  with snoc obtain totals where T: "rfold (add_quantity ctx (Fin 0 z)) [] sized = Inr totals" "totals_are z sized totals"
    by blast
  from snoc.prems have "sums_exactly ctx e (sized @ [(k, q)])" "e \<le> z" "z \<le> 0" by (simp_all add: p)
  from totals_step [OF T(2) this] obtain totals' where
    "add_quantity ctx (Fin 0 z) totals (k, q) = Inr totals'" "totals_are z (sized @ [(k, q)]) totals'" by blast
  then show ?case by (simp add: p rfold_append T(1))
qed

text \<open>Two totals of the same quantities are the same totals.\<close>

lemma totals_unique:
  assumes "totals_are z xs t" "totals_are z ys t'" "mset xs = mset ys"
  shows "sort (od_keys t) = sort (od_keys t')" "od_get t k = od_get t' k"
proof -
  have keys: "set (od_keys t) = set (od_keys t')"
    using assms mset_eq_setD [OF assms(3)] by (simp add: totals_are_def)
  then have "mset (od_keys t) = mset (od_keys t')"
    using assms by (intro iffD1 [OF set_eq_iff_mset_eq_distinct]) (auto simp: totals_are_def od_ok_def od_keys_def)
  then show "sort (od_keys t) = sort (od_keys t')" by (metis sorted_list_of_multiset_mset)
  show "od_get t k = od_get t' k"
  proof (cases "od_get t k")
    case None
    with keys show ?thesis by (metis od_get_None)
  next
    case (Some d)
    then obtain d' where d': "od_get t' k = Some d'" using keys by (metis od_get_None od_get_Some_key not_Some_eq)
    have "d = d'"
      using Some d' assms sum_for_perm [OF assms(3)] low_for_perm [OF mset_eq_setD [OF assms(3)]]
      by (intro same_decimal) (simp_all add: totals_are_def)
    with Some d' show ?thesis by simp
  qed
qed

section \<open>The properties\<close>

text \<open>C40: two batches with the same intents in a different order give equal contributions, each strategy
  named once, in ascending order, with the exact sum of what it asked for.\<close>

theorem contributions_ignore_order:
  assumes "sums_exactly amb e sized" "e \<le> 0" "mset sized' = mset sized"
  shows "\<exists>cs. contributions_from amb sized = Inr cs \<and> contributions_from amb sized' = Inr cs \<and>
    sorted_wrt (<) (map contributor cs) \<and> set (map contributor cs) = fst ` set sized \<and>
    list_all (\<lambda>c. dval (contributed c) = sum_for (contributor c) sized) cs"
proof -
  have S': "sums_exactly amb e sized'" using assms(1) sums_exactly_perm [OF assms(3)] by blast
  obtain t where t: "rfold (add_quantity amb (Fin 0 0)) [] sized = Inr t" "totals_are 0 sized t"
    using totals_fold [OF assms(1,2)] by auto
  obtain t' where t': "rfold (add_quantity amb (Fin 0 0)) [] sized' = Inr t'" "totals_are 0 sized' t'"
    using totals_fold [OF S' assms(2)] by auto
  note U = totals_unique [OF t'(2) t(2) assms(3)]
  have "contributions_ordered t' = contributions_ordered t" by (simp add: contributions_ordered_def U)
  moreover have "map contributor (contributions_ordered t) = sort (od_keys t)"
    by (simp add: contributions_ordered_def comp_def)
  moreover have "distinct (od_keys t)" "set (od_keys t) = fst ` set sized"
    using t(2) by (simp_all add: totals_are_def od_ok_def od_keys_def)
  moreover have "dval (the (od_get t k)) = sum_for k sized" if k: "k \<in> set (od_keys t)" for k
  proof -
    obtain d where "od_get t k = Some d" using od_key_get [OF k] by blast
    then show ?thesis using t(2) by (simp add: totals_are_def)
  qed
  ultimately show ?thesis using t(1) t'(1)
    by (intro exI [of _ "contributions_ordered t"])
      (auto simp: contributions_from_def strict_sorted_iff list_all_iff contributions_ordered_def comp_def)
qed

definition example_sized :: "(string \<times> decimal) list" where
  "example_sized = [(''MOMENTUM'', Fin 60 0), (''MEANREV'', Fin 425 (-1)), (''MOMENTUM'', Fin (-5) 0)]"

lemma example_sums_exactly: "sums_exactly ACCOUNTING_CONTEXT (-1) example_sized"
  by (simp add: sums_exactly_def example_sized_def room_def grid_def size_of_def ACCOUNTING_CONTEXT_def
    ACCOUNTING_PRECISION_def Etiny_def dval.simps(1))

theorem contributions_ignore_order_witness:
  "\<exists>cs. contributions_from ACCOUNTING_CONTEXT example_sized = Inr cs \<and>
    contributions_from ACCOUNTING_CONTEXT (rev example_sized) = Inr cs \<and> sorted_wrt (<) (map contributor cs)"
  using contributions_ignore_order [OF example_sums_exactly, of "rev example_sized"] by auto

end
