(* ===== verification/Risk.thy ===== *)
theory Risk
  imports Contributions Order_Terms Floats
begin

text \<open>
  The pre-trade risk gate: \<open>alphalab/risk\<close> and the order it judges, \<open>core/order_request.py\<close>. Limits, the
  state the gate keeps, the projection of the book after one order, one function per check, and the
  engine that evaluates an order and marks the book. Descriptions of violations, texts for a reader,
  are left out. Functions with bare operators take the caller's context \<open>amb\<close>; \<open>evaluate\<close> and \<open>mark\<close>
  run them in the accounting context. Two things come from outside: whether a name is an IANA zone
  (\<open>known_zone\<close>), and the wall clock of a zone at an instant (\<open>wall_clock\<close>: microseconds since
  0001-01-01 00:00 local time). A trading day is the number of the day, where the code keeps its
  ISO text.
\<close>

section \<open>The order judged\<close>

record order_request =
  rq_order_id :: string
  rq_strategy_id :: string
  rq_asset_id :: string
  rq_side :: side
  rq_quantity :: decimal
  rq_price :: decimal
  rq_timestamp :: pyfloat
  rq_contributions :: "strategy_contribution list"
  rq_terms :: order_terms

definition notional_value :: "order_request \<Rightarrow> decimal res" where
  "notional_value r = dec_mul ACCOUNTING_CONTEXT (rq_quantity r) (rq_price r)"

text \<open>The builtin \<open>max(a, b)\<close>: the second only when it is greater.\<close>

definition dec_max :: "decimal \<Rightarrow> decimal \<Rightarrow> decimal res" where
  "dec_max a b = rbind (dec_lt a b) (\<lambda>greater. Inr (if greater then b else a))"

section \<open>Margin, exposure, violations\<close>

abbreviation zero_cents :: decimal where "zero_cents \<equiv> Fin 0 (-2)"

record margin_status =
  initial_margin :: decimal
  maintenance_margin :: decimal
  available_margin :: decimal
  margin_used :: decimal

definition no_margin :: margin_status where
  "no_margin = \<lparr>initial_margin = zero_cents, maintenance_margin = zero_cents, available_margin = zero_cents,
     margin_used = zero_cents\<rparr>"

definition margin_remaining :: "dctx \<Rightarrow> margin_status \<Rightarrow> decimal res" where
  "margin_remaining amb m = rbind (dec_sub amb (available_margin m) (margin_used m)) (dec_max zero_cents)"

definition utilization_pct :: "margin_status \<Rightarrow> decimal option res" where
  "utilization_pct m =
     rbind (dec_le (available_margin m) dec_zero) (\<lambda>undefined.
       if undefined then Inr None
       else rbind (dec_div ACCOUNTING_CONTEXT (margin_used m) (available_margin m)) (\<lambda>u. Inr (Some u)))"

record exposure_status =
  gross_exposure :: decimal
  net_exposure :: decimal
  long_exposure :: decimal
  short_exposure :: decimal
  asset_exposure :: "(string, decimal) od"
  sector_exposure :: "(string, decimal) od"

definition no_exposure :: exposure_status where
  "no_exposure = \<lparr>gross_exposure = zero_cents, net_exposure = zero_cents, long_exposure = zero_cents,
     short_exposure = zero_cents, asset_exposure = [], sector_exposure = []\<rparr>"

datatype risk_severity = SEVERITY_HIGH | SEVERITY_CRITICAL

record risk_violation =
  violated_rule :: string
  severity :: risk_severity
  current_value :: decimal
  allowed_value :: decimal

definition violation :: "string \<Rightarrow> risk_severity \<Rightarrow> decimal \<Rightarrow> decimal \<Rightarrow> risk_violation option" where
  "violation r s current allowed =
     Some \<lparr>violated_rule = r, severity = s, current_value = current, allowed_value = allowed\<rparr>"

section \<open>Limits\<close>

record position_limit =
  pl_max_quantity :: decimal
  pl_max_notional :: decimal

record order_size_limit =
  os_max_quantity :: decimal
  os_max_notional :: decimal

record exposure_limit =
  max_gross_exposure :: decimal
  max_net_exposure :: decimal

record leverage_limit =
  max_leverage :: decimal

record margin_limit =
  max_margin_utilization :: decimal

record drawdown_limit =
  max_drawdown_pct :: decimal

text \<open>\<open>day_start\<close> is a local time of day, in microseconds.\<close>

record daily_loss_limit =
  max_daily_loss :: decimal
  dl_zone :: string
  day_start :: int

definition make_daily_loss :: "(string \<Rightarrow> bool) \<Rightarrow> daily_loss_limit \<Rightarrow> daily_loss_limit res" where
  "make_daily_loss known_zone limit =
     (if \<not> is_finite (max_daily_loss limit) then Inl RiskValidationError
      else rbind (dec_lt (max_daily_loss limit) dec_zero) (\<lambda>negative.
        if negative then Inl RiskValidationError
        else if blank (dl_zone limit) then Inl RiskValidationError
        else if \<not> known_zone (dl_zone limit) then Inl RiskValidationError
        else Inr limit))"

definition DAY_MICROSECONDS :: int where
  "DAY_MICROSECONDS = 86400000000"

definition trading_day_of :: "(string \<Rightarrow> pyfloat \<Rightarrow> int res) \<Rightarrow> daily_loss_limit \<Rightarrow> pyfloat \<Rightarrow> int res" where
  "trading_day_of wall_clock limit timestamp =
     rbind (wall_clock (dl_zone limit) timestamp) (\<lambda>local.
       if local - day_start limit < 0 then Inl OverflowError
       else Inr ((local - day_start limit) div DAY_MICROSECONDS))"

text \<open>Names of dimensions and labels, \<open>instrument/classification.py\<close> and \<open>instrument/record.py\<close>.\<close>

definition lower_char :: "char \<Rightarrow> char" where
  "lower_char c = (let n = of_char c :: nat in
     if (65 \<le> n \<and> n \<le> 90) \<or> (192 \<le> n \<and> n \<le> 222 \<and> n \<noteq> 215) then char_of (n + 32) else c)"

definition name_first :: "char \<Rightarrow> bool" where
  "name_first c = (let n = of_char c :: nat in (97 \<le> n \<and> n \<le> 122) \<or> (48 \<le> n \<and> n \<le> 57))"

definition name_rest :: "char \<Rightarrow> bool" where
  "name_rest c = (name_first c \<or> c \<in> {CHR ''_'', CHR ''.'', CHR ''-''})"

definition normalize_dimension :: "string \<Rightarrow> string res" where
  "normalize_dimension value =
     (let name = map lower_char (py_strip value) in
      case name of
        [] \<Rightarrow> Inl InstrumentInputError
      | c # cs \<Rightarrow> if name_first c \<and> list_all name_rest cs \<and> length cs \<le> 63 then Inr name
                  else Inl InstrumentInputError)"

definition printable :: "char \<Rightarrow> bool" where
  "printable c = (let n = of_char c :: nat in (32 \<le> n \<and> n \<le> 126) \<or> (161 \<le> n \<and> n \<noteq> 173))"

definition normalize_sector_label :: "string \<Rightarrow> string res" where
  "normalize_sector_label value =
     (let stripped = py_strip value in
      if stripped = [] then Inl InstrumentInputError
      else if \<not> list_all printable stripped then Inl InstrumentInputError
      else Inr stripped)"

record classification_limit =
  cl_dimension :: string
  max_gross :: "decimal option"
  max_share :: "decimal option"
  cl_label :: "string option"
  refuse_unclassified :: bool

definition check_ceiling :: "decimal option \<Rightarrow> unit res" where
  "check_ceiling most =
     (case most of
        None \<Rightarrow> Inr ()
      | Some c \<Rightarrow>
          if \<not> is_finite c then Inl RiskValidationError
          else rbind (dec_lt c dec_zero) (\<lambda>negative. if negative then Inl RiskValidationError else Inr ()))"

definition malformed :: "'a res \<Rightarrow> 'a res" where
  "malformed m = (case m of Inl e \<Rightarrow> Inl (if e = InstrumentInputError then RiskValidationError else e) | Inr x \<Rightarrow> Inr x)"

definition make_classification_limit :: "classification_limit \<Rightarrow> classification_limit res" where
  "make_classification_limit limit =
     rbind (malformed (normalize_dimension (cl_dimension limit))) (\<lambda>dimension.
     rbind (case cl_label limit of
              None \<Rightarrow> Inr None
            | Some l \<Rightarrow> rbind (malformed (normalize_sector_label l)) (\<lambda>label. Inr (Some label))) (\<lambda>label.
       if max_gross limit = None \<and> max_share limit = None then Inl RiskValidationError
       else
         rbind (check_ceiling (max_gross limit)) (\<lambda>_.
         rbind (check_ceiling (max_share limit)) (\<lambda>_.
           if refuse_unclassified limit \<and> label \<noteq> None then Inl RiskValidationError
           else Inr (limit\<lparr>cl_dimension := dimension, cl_label := label\<rparr>)))))"

definition binds :: "string \<Rightarrow> string option \<Rightarrow> classification_limit \<Rightarrow> bool" where
  "binds dimension label limit = (cl_dimension limit = dimension \<and> cl_label limit = label)"

record risk_limits =
  order_size :: order_size_limit
  position_lim :: position_limit
  exposure_lim :: exposure_limit
  leverage_lim :: leverage_limit
  margin_lim :: margin_limit
  daily_loss_lim :: "daily_loss_limit option"
  drawdown_lim :: drawdown_limit
  classification :: "classification_limit list"

definition bucket_limits :: "risk_limits \<Rightarrow> string \<Rightarrow> string option \<Rightarrow> classification_limit list" where
  "bucket_limits limits dimension label =
     (let named = filter (binds dimension label) (classification limits) in
      if named \<noteq> [] \<or> label = None then named
      else filter (binds dimension None) (classification limits))"

section \<open>Decisions, events and the state\<close>

record risk_decision =
  decision_id :: string
  rd_timestamp :: pyfloat
  rd_order_id :: string
  approved :: bool
  rd_reason :: string
  rd_violations :: "risk_violation list"
  required_margin :: decimal
  remaining_buying_power :: decimal
  rd_exposure :: exposure_status
  rd_breaches :: "risk_violation list"

datatype risk_event =
    RiskCheckStarted string pyfloat order_request
  | RiskApproved string pyfloat string string
  | RiskRejected string pyfloat string string string
  | MarginUpdated string pyfloat decimal decimal
  | ExposureUpdated string pyfloat decimal decimal
  | DrawdownTriggered string pyfloat decimal decimal
  | BuyingPowerUpdated string pyfloat decimal
  | MarginCall string pyfloat decimal decimal decimal decimal "string list"
  | BuyIn string pyfloat string decimal decimal decimal "string list"

text \<open>Volatility surfaces as a run received them.\<close>

record vol_point =
  vp_strike :: pyfloat
  vp_expiry :: pyfloat
  vp_implied_vol :: pyfloat

record volatility_surface =
  vs_underlying :: string
  vs_timestamp :: pyfloat
  vs_points :: "vol_point list"

record observed_surface =
  surface :: volatility_surface
  known_at :: pyfloat
  os_source :: string
  os_version :: string

definition make_observed_surface :: "observed_surface \<Rightarrow> observed_surface res" where
  "make_observed_surface o' =
     (if os_source o' = [] \<or> os_version o' = [] then Inl RiskError
      else if flt_lt (known_at o') (vs_timestamp (surface o')) then Inl RiskError
      else Inr o')"

text \<open>The comparison of two pairs of floats, \<open>(a, b) > (c, d)\<close>.\<close>

definition later :: "observed_surface \<Rightarrow> observed_surface \<Rightarrow> bool" where
  "later a b =
     (if flt_eq (vs_timestamp (surface a)) (vs_timestamp (surface b)) then flt_lt (known_at b) (known_at a)
      else flt_lt (vs_timestamp (surface b)) (vs_timestamp (surface a)))"

fun select_from :: "pyfloat \<Rightarrow> observed_surface option \<Rightarrow> observed_surface list \<Rightarrow> observed_surface option" where
  "select_from at' best [] = best"
| "select_from at' best (c # cs) =
     (if flt_lt at' (known_at c) then select_from at' best cs
      else if (case best of None \<Rightarrow> True | Some b \<Rightarrow> later c b) then select_from at' (Some c) cs
      else select_from at' best cs)"

definition select :: "observed_surface list \<Rightarrow> pyfloat \<Rightarrow> pyfloat option \<Rightarrow> observed_surface option" where
  "select observed at' max_age =
     (case select_from at' None observed of
        None \<Rightarrow> None
      | Some best \<Rightarrow>
          (case max_age of
             None \<Rightarrow> Some best
           | Some age \<Rightarrow> if flt_lt age (flt_sub at' (vs_timestamp (surface best))) then None else Some best))"

record risk_state =
  active_limits :: risk_limits
  rs_margin :: margin_status
  rs_exposure :: exposure_status
  rs_cash :: decimal
  buying_power :: decimal
  peak_nav :: decimal
  current_nav :: decimal
  daily_loss :: decimal
  rs_history :: "risk_decision list"
  rs_events :: "risk_event list"
  trading_day :: "int option"
  day_start_nav :: "decimal option"
  surfaces :: "(string, observed_surface list) od"

definition current_drawdown_pct :: "risk_state \<Rightarrow> decimal res" where
  "current_drawdown_pct s =
     rbind (dec_le (peak_nav s) dec_zero) (\<lambda>no_peak.
       if no_peak then Inr dec_zero
       else
         rbind (dec_sub ACCOUNTING_CONTEXT (peak_nav s) (current_nav s)) (\<lambda>fall.
         rbind (dec_div ACCOUNTING_CONTEXT fall (peak_nav s)) (\<lambda>drawdown.
           dec_max dec_zero drawdown)))"

definition current_leverage :: "risk_state \<Rightarrow> decimal res" where
  "current_leverage s =
     rbind (dec_le (current_nav s) dec_zero) (\<lambda>no_nav.
       if no_nav then Inr dec_zero
       else dec_div ACCOUNTING_CONTEXT (gross_exposure (rs_exposure s)) (current_nav s))"

section \<open>The projection\<close>

record working_exposure =
  we_quantity :: decimal
  we_price :: decimal
  we_position :: decimal
  we_charge :: "decimal option"

record bucket_exposure =
  be_dimension :: string
  be_label :: "string option"
  be_committed_gross :: decimal
  be_projected_gross :: decimal

record risk_projection =
  pj_asset_id :: string
  order_quantity :: decimal
  pj_price :: decimal
  committed_position :: decimal
  projected_position :: decimal
  committed_gross :: decimal
  projected_gross :: decimal
  committed_net :: decimal
  projected_net :: decimal
  increasing_notional :: decimal
  available_buying_power :: decimal
  pj_nav :: decimal
  margin_requirement :: "decimal option"
  margin_equity :: "decimal option"

text \<open>A chained comparison stops at the first false one.\<close>

definition reverses :: "decimal \<Rightarrow> decimal \<Rightarrow> bool res" where
  "reverses prior after =
     rbind (dec_lt dec_zero prior) (\<lambda>long.
     rbind (if long then dec_lt after dec_zero else Inr False) (\<lambda>to_short.
       if to_short then Inr True
       else rbind (dec_lt prior dec_zero) (\<lambda>short.
         if short then dec_lt dec_zero after else Inr False)))"

definition grows :: "dctx \<Rightarrow> decimal \<Rightarrow> decimal \<Rightarrow> bool res" where
  "grows amb prior after =
     rbind (dec_abs amb after) (\<lambda>a. rbind (dec_abs amb prior) (\<lambda>b.
     rbind (dec_lt b a) (\<lambda>larger. if larger then Inr True else reverses prior after)))"

definition growth :: "dctx \<Rightarrow> decimal \<Rightarrow> decimal \<Rightarrow> decimal res" where
  "growth amb prior after =
     rbind (reverses prior after) (\<lambda>reversed.
       if reversed then dec_abs amb after
       else
         rbind (dec_abs amb after) (\<lambda>a. rbind (dec_abs amb prior) (\<lambda>b.
         rbind (dec_sub ACCOUNTING_CONTEXT a b) (\<lambda>d. dec_max dec_zero d))))"

definition increases_exposure :: "dctx \<Rightarrow> risk_projection \<Rightarrow> bool res" where
  "increases_exposure amb p = grows amb (committed_position p) (projected_position p)"

definition projected_position_value :: "dctx \<Rightarrow> risk_projection \<Rightarrow> decimal res" where
  "projected_position_value amb p =
     rbind (dec_abs amb (projected_position p)) (\<lambda>m. dec_mul ACCOUNTING_CONTEXT m (pj_price p))"

definition value_of :: "(string, decimal) od \<Rightarrow> string \<Rightarrow> decimal" where
  "value_of values a = (case od_get values a of None \<Rightarrow> dec_zero | Some v \<Rightarrow> v)"

text \<open>What one asset's working orders add: the committed gross and net, and the growth they will spend.\<close>

definition commit_working ::
  "dctx \<Rightarrow> (string, decimal) od \<Rightarrow> decimal \<times> decimal \<times> decimal \<Rightarrow> string \<times> working_exposure \<Rightarrow>
   (decimal \<times> decimal \<times> decimal) res" where
  "commit_working amb values acc entry = (case acc of (gross, net, spent) \<Rightarrow> case entry of (asset, pending) \<Rightarrow>
     let filled = value_of values asset in
     rbind (dec_mul ACCOUNTING_CONTEXT (we_quantity pending) (we_price pending)) (\<lambda>pending_value.
     rbind (dec_add ACCOUNTING_CONTEXT filled pending_value) (\<lambda>committed.
     rbind (dec_abs amb committed) (\<lambda>c. rbind (dec_abs amb filled) (\<lambda>f.
     rbind (dec_sub ACCOUNTING_CONTEXT c f) (\<lambda>more_gross.
     rbind (dec_add ACCOUNTING_CONTEXT gross more_gross) (\<lambda>gross'.
     rbind (dec_add ACCOUNTING_CONTEXT net pending_value) (\<lambda>net'.
     rbind (dec_add ACCOUNTING_CONTEXT (we_position pending) (we_quantity pending)) (\<lambda>after.
     rbind (growth amb (we_position pending) after) (\<lambda>g.
     rbind (dec_mul ACCOUNTING_CONTEXT g (case we_charge pending of None \<Rightarrow> we_price pending | Some x \<Rightarrow> x)) (\<lambda>cost.
     rbind (dec_add ACCOUNTING_CONTEXT spent cost) (\<lambda>spent'.
       Inr (gross', net', spent')))))))))))))"

definition signed_quantity :: "dctx \<Rightarrow> order_request \<Rightarrow> decimal res" where
  "signed_quantity amb r = (if rq_side r = BUY then Inr (rq_quantity r) else dec_neg amb (rq_quantity r))"

definition project ::
  "dctx \<Rightarrow> risk_state \<Rightarrow> order_request \<Rightarrow> decimal \<Rightarrow> decimal \<Rightarrow> (string, working_exposure) od \<Rightarrow>
   decimal option \<Rightarrow> (decimal \<times> decimal) option \<Rightarrow> risk_projection res" where
  "project amb s request position price working charge margin =
     rbind (signed_quantity amb request) (\<lambda>signed.
     let values = asset_exposure (rs_exposure s) in
     rbind (rfold (commit_working amb values)
              (gross_exposure (rs_exposure s), net_exposure (rs_exposure s), dec_zero) working) (\<lambda>(gross, net, spent).
     let here = od_get working (rq_asset_id request) in
     rbind (case here of None \<Rightarrow> Inr position
            | Some p \<Rightarrow> dec_add ACCOUNTING_CONTEXT position (we_quantity p)) (\<lambda>committed.
     rbind (dec_add ACCOUNTING_CONTEXT committed signed) (\<lambda>projected.
     let filled = value_of values (rq_asset_id request) in
     rbind (case here of None \<Rightarrow> Inr filled
            | Some p \<Rightarrow> rbind (dec_mul ACCOUNTING_CONTEXT (we_quantity p) (we_price p)) (dec_add ACCOUNTING_CONTEXT filled))
       (\<lambda>committed_value.
     rbind (dec_mul ACCOUNTING_CONTEXT signed price) (\<lambda>order_value.
     rbind (dec_add ACCOUNTING_CONTEXT committed_value order_value) (\<lambda>projected_value.
     rbind (dec_abs amb committed_value) (\<lambda>c.
     rbind (dec_sub ACCOUNTING_CONTEXT gross c) (\<lambda>others.
     rbind (dec_abs amb projected_value) (\<lambda>v.
     rbind (dec_add ACCOUNTING_CONTEXT others v) (\<lambda>projected_gross'.
     rbind (dec_add ACCOUNTING_CONTEXT net order_value) (\<lambda>projected_net'.
     rbind (growth amb committed projected) (\<lambda>g.
     rbind (dec_mul ACCOUNTING_CONTEXT g (case charge of None \<Rightarrow> price | Some x \<Rightarrow> x)) (\<lambda>increasing.
     rbind (dec_sub ACCOUNTING_CONTEXT (buying_power s) spent) (\<lambda>available.
       Inr \<lparr>pj_asset_id = rq_asset_id request, order_quantity = signed, pj_price = price,
            committed_position = committed, projected_position = projected, committed_gross = gross,
            projected_gross = projected_gross', committed_net = net, projected_net = projected_net',
            increasing_notional = increasing, available_buying_power = available, pj_nav = current_nav s,
            margin_requirement = map_option fst margin, margin_equity = map_option snd margin\<rparr>)))))))))))))))"

end
