(* ===== verification/Risk_Engine.thy ===== *)
theory Risk_Engine
  imports Risk
begin

text \<open>
  \<open>risk/checks.py\<close>, \<open>risk/engine.py\<close>, \<open>risk/validation.py\<close> and \<open>risk/views.py\<close>: each check of an order
  against one limit, the evaluation that runs them all and records its decision, and the marks that
  keep the net asset value, its high-water mark and the loss of the day.
\<close>

section \<open>The checks\<close>

text \<open>A check returns no violation where the code returns \<open>None\<close>.\<close>

type_synonym check = "risk_violation option res"

text \<open>Refused when the figure is above what is allowed.\<close>

definition refuse_above :: "string \<Rightarrow> risk_severity \<Rightarrow> decimal \<Rightarrow> decimal \<Rightarrow> check \<Rightarrow> check" where
  "refuse_above r s current allowed rest =
     rbind (dec_lt allowed current) (\<lambda>above. if above then Inr (violation r s current allowed) else rest)"

definition check_order_size :: "order_request \<Rightarrow> risk_state \<Rightarrow> risk_projection \<Rightarrow> check" where
  "check_order_size request s p =
     (let limit = order_size (active_limits s) in
      refuse_above ''OrderSizeQuantity'' SEVERITY_HIGH (rq_quantity request) (os_max_quantity limit)
        (rbind (dec_mul ACCOUNTING_CONTEXT (rq_quantity request) (pj_price p)) (\<lambda>notional.
          refuse_above ''OrderSizeNotional'' SEVERITY_HIGH notional (os_max_notional limit) (Inr None))))"

definition check_position_limit :: "dctx \<Rightarrow> risk_state \<Rightarrow> risk_projection \<Rightarrow> check" where
  "check_position_limit amb s p =
     rbind (increases_exposure amb p) (\<lambda>increases.
       if \<not> increases then Inr None
       else
         let limit = position_lim (active_limits s) in
         rbind (dec_abs amb (projected_position p)) (\<lambda>magnitude.
           refuse_above ''PositionLimit'' SEVERITY_HIGH magnitude (pl_max_quantity limit)
             (rbind (projected_position_value amb p) (\<lambda>val.
               refuse_above ''PositionNotionalLimit'' SEVERITY_HIGH val (pl_max_notional limit) (Inr None)))))"

text \<open>\<open>projected_gross <= committed_gross\<close> lets an order pass; otherwise the rest of the check runs.\<close>

definition when_gross_grows :: "risk_projection \<Rightarrow> check \<Rightarrow> check" where
  "when_gross_grows p rest =
     rbind (dec_le (projected_gross p) (committed_gross p)) (\<lambda>no_worse. if no_worse then Inr None else rest)"

text \<open>A ratio over a base: undefined, and refused, with no positive base.\<close>

definition refuse_ratio ::
  "string \<Rightarrow> risk_severity \<Rightarrow> decimal \<Rightarrow> decimal \<Rightarrow> decimal \<Rightarrow> check" where
  "refuse_ratio r s amount base allowed =
     rbind (dec_le base dec_zero) (\<lambda>no_base.
       if no_base then Inr (violation r s amount dec_zero)
       else rbind (dec_div ACCOUNTING_CONTEXT amount base) (\<lambda>ratio. refuse_above r s ratio allowed (Inr None)))"

definition check_margin :: "risk_state \<Rightarrow> risk_projection \<Rightarrow> check" where
  "check_margin s p =
     when_gross_grows p
       (let allowed = max_margin_utilization (margin_lim (active_limits s)) in
        case (margin_requirement p, margin_equity p) of
          (Some requirement, Some equity) \<Rightarrow> refuse_ratio ''MarginLimit'' SEVERITY_CRITICAL requirement equity allowed
        | _ \<Rightarrow> refuse_ratio ''MarginLimit'' SEVERITY_CRITICAL (projected_gross p) (pj_nav p) allowed)"

definition check_exposure :: "risk_state \<Rightarrow> risk_projection \<Rightarrow> check" where
  "check_exposure s p =
     when_gross_grows p
       (refuse_above ''GrossExposureLimit'' SEVERITY_HIGH (projected_gross p)
         (max_gross_exposure (exposure_lim (active_limits s))) (Inr None))"

definition check_net_exposure :: "dctx \<Rightarrow> risk_state \<Rightarrow> risk_projection \<Rightarrow> check" where
  "check_net_exposure amb s p =
     rbind (dec_abs amb (projected_net p)) (\<lambda>projected.
     rbind (dec_abs amb (committed_net p)) (\<lambda>committed.
     rbind (dec_le projected committed) (\<lambda>no_worse.
       if no_worse then Inr None
       else refuse_above ''NetExposureLimit'' SEVERITY_HIGH projected
         (max_net_exposure (exposure_lim (active_limits s))) (Inr None))))"

definition check_leverage :: "risk_state \<Rightarrow> risk_projection \<Rightarrow> check" where
  "check_leverage s p =
     when_gross_grows p
       (refuse_ratio ''LeverageLimit'' SEVERITY_HIGH (projected_gross p) (pj_nav p)
         (max_leverage (leverage_lim (active_limits s))))"

definition check_buying_power :: "risk_projection \<Rightarrow> check" where
  "check_buying_power p =
     rbind (dec_le (increasing_notional p) dec_zero) (\<lambda>free.
       if free then Inr None
       else refuse_above ''BuyingPowerLimit'' SEVERITY_HIGH (increasing_notional p) (available_buying_power p) (Inr None))"

definition drawdown_breach :: "risk_state \<Rightarrow> check" where
  "drawdown_breach s =
     rbind (current_drawdown_pct s) (\<lambda>drawdown.
       refuse_above ''DrawdownLimit'' SEVERITY_CRITICAL drawdown (max_drawdown_pct (drawdown_lim (active_limits s))) (Inr None))"

definition daily_loss_breach :: "risk_state \<Rightarrow> check" where
  "daily_loss_breach s =
     (case daily_loss_lim (active_limits s) of
        None \<Rightarrow> Inr None
      | Some limit \<Rightarrow>
          rbind (dec_le (daily_loss s) (max_daily_loss limit)) (\<lambda>allowed.
            if allowed then Inr None
            else Inr (violation ''DailyLossLimit'' SEVERITY_CRITICAL (daily_loss s) (max_daily_loss limit))))"

text \<open>In a breach an order is refused only when it grows a position.\<close>

definition refuse_growth :: "dctx \<Rightarrow> check \<Rightarrow> risk_projection \<Rightarrow> check" where
  "refuse_growth amb breach p =
     rbind breach (\<lambda>b.
       if b = None then Inr None
       else rbind (increases_exposure amb p) (\<lambda>increases. Inr (if increases then b else None)))"

definition check_drawdown :: "dctx \<Rightarrow> risk_state \<Rightarrow> risk_projection \<Rightarrow> check" where
  "check_drawdown amb s p = refuse_growth amb (drawdown_breach s) p"

definition check_daily_loss :: "dctx \<Rightarrow> risk_state \<Rightarrow> risk_projection \<Rightarrow> check" where
  "check_daily_loss amb s p = refuse_growth amb (daily_loss_breach s) p"

subsection \<open>Buckets\<close>

fun check_binding :: "risk_projection \<Rightarrow> bucket_exposure \<Rightarrow> classification_limit list \<Rightarrow> check" where
  "check_binding p bucket [] = Inr None"
| "check_binding p bucket (limit # rest) =
     (let share =
        (case max_share limit of
           None \<Rightarrow> check_binding p bucket rest
         | Some allowed \<Rightarrow>
             rbind (refuse_ratio ''ClassificationShareLimit'' SEVERITY_HIGH (be_projected_gross bucket) (pj_nav p) allowed)
               (\<lambda>v. if v = None then check_binding p bucket rest else Inr v))
      in case max_gross limit of
           None \<Rightarrow> share
         | Some allowed \<Rightarrow>
             refuse_above ''ClassificationLimit'' SEVERITY_HIGH (be_projected_gross bucket) allowed share)"

fun check_buckets :: "dctx \<Rightarrow> risk_limits \<Rightarrow> risk_projection \<Rightarrow> bucket_exposure list \<Rightarrow> check" where
  "check_buckets amb limits p [] = Inr None"
| "check_buckets amb limits p (bucket # rest) =
     (let binding = bucket_limits limits (be_dimension bucket) (be_label bucket) in
      if be_label bucket = None then
        rbind (increases_exposure amb p) (\<lambda>increases.
          if increases \<and> list_ex refuse_unclassified binding
          then rbind (projected_position_value amb p) (\<lambda>val.
                 Inr (violation ''ClassificationUnclassified'' SEVERITY_HIGH val dec_zero))
          else check_buckets amb limits p rest)
      else
        rbind (dec_le (be_projected_gross bucket) (be_committed_gross bucket)) (\<lambda>no_worse.
          if no_worse then check_buckets amb limits p rest
          else rbind (check_binding p bucket binding) (\<lambda>v.
            if v = None then check_buckets amb limits p rest else Inr v)))"

definition check_classification :: "dctx \<Rightarrow> risk_state \<Rightarrow> risk_projection \<Rightarrow> bucket_exposure list \<Rightarrow> check" where
  "check_classification amb s p buckets = check_buckets amb (active_limits s) p buckets"

section \<open>The engine\<close>

definition validate_order_request :: "order_request \<Rightarrow> unit res" where
  "validate_order_request r =
     rbind (dec_le (rq_quantity r) dec_zero) (\<lambda>none.
       if none then Inl RiskValidationError
       else if \<not> is_finite (rq_price r) then Inl RiskValidationError
       else if rq_asset_id r = [] then Inl RiskValidationError
       else Inr ())"

definition risk_reset :: "risk_limits \<Rightarrow> risk_state" where
  "risk_reset limits = \<lparr>active_limits = limits, rs_margin = no_margin, rs_exposure = no_exposure, rs_cash = zero_cents,
     buying_power = zero_cents, peak_nav = zero_cents, current_nav = zero_cents, daily_loss = zero_cents,
     rs_history = [], rs_events = [], trading_day = None, day_start_nav = None, surfaces = []\<rparr>"

text \<open>The results of several checks, in order; the violations among them.\<close>

definition all_checks ::
  "dctx \<Rightarrow> order_request \<Rightarrow> risk_state \<Rightarrow> risk_projection \<Rightarrow> bucket_exposure list \<Rightarrow> check list" where
  "all_checks amb request s p buckets =
     [check_order_size request s p, check_position_limit amb s p, check_margin s p, check_exposure s p,
      check_net_exposure amb s p, check_drawdown amb s p, check_buying_power p, check_daily_loss amb s p,
      check_leverage s p, if buckets \<noteq> [] then check_classification amb s p buckets else Inr None]"

definition found :: "check list \<Rightarrow> risk_violation list res" where
  "found checks = rbind (rmap (\<lambda>c. c) checks) (\<lambda>results. Inr (List.map_filter (\<lambda>v. v) results))"

definition breaches :: "risk_state \<Rightarrow> risk_violation list res" where
  "breaches s = found [drawdown_breach s, daily_loss_breach s]"

definition approve ::
  "dctx \<Rightarrow> string \<Rightarrow> order_request \<Rightarrow> pyfloat \<Rightarrow> risk_state \<Rightarrow> risk_projection option \<Rightarrow> risk_violation list \<Rightarrow>
   risk_decision res" where
  "approve amb did request timestamp s projection bs =
     rbind (case projection of None \<Rightarrow> notional_value request | Some p \<Rightarrow> Inr (increasing_notional p)) (\<lambda>committed.
     rbind (dec_sub amb (case projection of None \<Rightarrow> buying_power s | Some p \<Rightarrow> available_buying_power p) committed) (\<lambda>left.
       Inr \<lparr>decision_id = did, rd_timestamp = timestamp, rd_order_id = rq_order_id request, approved = True,
            rd_reason = ''All risk checks passed.'', rd_violations = [], required_margin = committed,
            remaining_buying_power = left, rd_exposure = rs_exposure s, rd_breaches = bs\<rparr>))"

definition reject ::
  "string \<Rightarrow> order_request \<Rightarrow> pyfloat \<Rightarrow> risk_violation list \<Rightarrow> risk_state \<Rightarrow> risk_violation list \<Rightarrow> risk_decision" where
  "reject did request timestamp vs s bs =
     \<lparr>decision_id = did, rd_timestamp = timestamp, rd_order_id = rq_order_id request, approved = False,
      rd_reason = ''Rejected due to '' @ digits_text (length vs) @ '' constraint violations.'', rd_violations = vs,
      required_margin = margin_used (rs_margin s), remaining_buying_power = buying_power s,
      rd_exposure = rs_exposure s, rd_breaches = bs\<rparr>"

text \<open>What a caller gives beside the state, the order and the instant.\<close>

record gate_input =
  gi_position :: decimal
  gi_price :: "decimal option"
  gi_working :: "(string, working_exposure) od"
  gi_buckets :: "bucket_exposure list"
  gi_charge :: "decimal option"
  gi_margin :: "(decimal \<times> decimal) option"

definition projected_book :: "risk_state \<Rightarrow> order_request \<Rightarrow> gate_input \<Rightarrow> risk_projection res" where
  "projected_book s request i =
     project ACCOUNTING_CONTEXT s request (gi_position i)
       (case gi_price i of None \<Rightarrow> rq_price request | Some x \<Rightarrow> x) (gi_working i) (gi_charge i) (gi_margin i)"

definition decide ::
  "string \<Rightarrow> string \<Rightarrow> order_request \<Rightarrow> pyfloat \<Rightarrow> risk_state \<Rightarrow> risk_projection \<Rightarrow> risk_violation list \<Rightarrow>
   risk_violation list \<Rightarrow> (risk_decision \<times> risk_event) res" where
  "decide did eid request timestamp s p vs bs =
     (if vs \<noteq> [] then
        (let d = reject did request timestamp vs s bs
         in Inr (d, RiskRejected eid timestamp did (rq_order_id request) (rd_reason d)))
      else rbind (approve ACCOUNTING_CONTEXT did request timestamp s (Some p) bs) (\<lambda>d.
        Inr (d, RiskApproved eid timestamp did (rq_order_id request))))"

definition evaluate ::
  "string \<Rightarrow> string \<Rightarrow> string \<Rightarrow> risk_state \<Rightarrow> order_request \<Rightarrow> pyfloat \<Rightarrow> gate_input \<Rightarrow>
   (risk_state \<times> risk_decision) res" where
  "evaluate sid did eid s request timestamp i =
     rbind (validate_order_request request) (\<lambda>_.
     rbind (projected_book s request i) (\<lambda>p.
     rbind (found (all_checks ACCOUNTING_CONTEXT request s p (gi_buckets i))) (\<lambda>vs.
     rbind (breaches s) (\<lambda>bs.
     rbind (decide did eid request timestamp s p vs bs) (\<lambda>(d, e).
       Inr (s\<lparr>rs_history := rs_history s @ [d],
              rs_events := rs_events s @ [RiskCheckStarted sid timestamp request, e]\<rparr>, d))))))"

subsection \<open>Marks\<close>

text \<open>The trading day a mark falls in, and the value that day began at.\<close>

definition day_of_mark ::
  "(string \<Rightarrow> pyfloat \<Rightarrow> int res) \<Rightarrow> risk_state \<Rightarrow> daily_loss_limit \<Rightarrow> decimal \<Rightarrow> pyfloat \<Rightarrow> (int \<times> decimal) res" where
  "day_of_mark wall_clock s limit nav timestamp =
     rbind (trading_day_of wall_clock limit timestamp) (\<lambda>today.
       if trading_day s \<noteq> Some today
       then Inr (today, if trading_day s \<noteq> None then current_nav s else nav)
       else case day_start_nav s of None \<Rightarrow> Inl AssertionError | Some x \<Rightarrow> Inr (today, x))"

definition mark ::
  "(string \<Rightarrow> pyfloat \<Rightarrow> int res) \<Rightarrow> risk_state \<Rightarrow> decimal \<Rightarrow> decimal \<Rightarrow> pyfloat \<Rightarrow> risk_state res" where
  "mark wall_clock s nav cash timestamp =
     rbind (case daily_loss_lim (active_limits s) of
              None \<Rightarrow> Inr (trading_day s, day_start_nav s, zero_cents)
            | Some limit \<Rightarrow>
                rbind (day_of_mark wall_clock s limit nav timestamp) (\<lambda>(today, start).
                rbind (dec_sub ACCOUNTING_CONTEXT start nav) (\<lambda>fall.
                rbind (dec_max zero_cents fall) (\<lambda>loss. Inr (Some today, Some start, loss))))) (\<lambda>(day, start, loss).
     rbind (dec_max zero_cents cash) (\<lambda>power.
     rbind (dec_max (peak_nav s) nav) (\<lambda>peak.
       Inr (s\<lparr>rs_cash := cash, buying_power := power, current_nav := nav, peak_nav := peak, daily_loss := loss,
              trading_day := day, day_start_nav := start\<rparr>))))"

definition update_margin :: "string \<Rightarrow> risk_state \<Rightarrow> margin_status \<Rightarrow> pyfloat \<Rightarrow> risk_state" where
  "update_margin eid s m timestamp =
     s\<lparr>rs_margin := m, rs_events := rs_events s @ [MarginUpdated eid timestamp (margin_used m) (available_margin m)]\<rparr>"

definition update_exposure :: "string \<Rightarrow> risk_state \<Rightarrow> exposure_status \<Rightarrow> pyfloat \<Rightarrow> risk_state" where
  "update_exposure eid s x timestamp =
     s\<lparr>rs_exposure := x, rs_events := rs_events s @ [ExposureUpdated eid timestamp (gross_exposure x) (net_exposure x)]\<rparr>"

section \<open>Views\<close>

definition latest_decision :: "risk_state \<Rightarrow> risk_decision option" where
  "latest_decision s = (if rs_history s = [] then None else Some (last (rs_history s)))"

definition violations :: "risk_state \<Rightarrow> risk_violation list" where
  "violations s = concat (map rd_violations (rs_history s))"

end
