(* ===== verification/Risk_Gate.thy ===== *)
theory Risk_Gate
  imports Risk_Engine
begin

text \<open>
  What the risk gate promises. A decision approves an order exactly when the book it would leave is
  within every limit or no worse on what the limit measures, stated over rational numbers.
\<close>

section \<open>What the limits mean\<close>

text \<open>A computed figure that exists and is at most what is allowed.\<close>

definition at_most :: "decimal res \<Rightarrow> decimal \<Rightarrow> bool" where
  "at_most m allowed = (case m of Inl e \<Rightarrow> False | Inr v \<Rightarrow> dval v \<le> dval allowed)"

definition ratio_at_most :: "decimal \<Rightarrow> decimal \<Rightarrow> decimal \<Rightarrow> bool" where
  "ratio_at_most amount base allowed = (0 < dval base \<and> at_most (dec_div ACCOUNTING_CONTEXT amount base) allowed)"

definition position_grows :: "risk_projection \<Rightarrow> bool" where
  "position_grows p = (let prior = dval (committed_position p); after = dval (projected_position p) in
     \<bar>prior\<bar> < \<bar>after\<bar> \<or> (0 < prior \<and> after < 0) \<or> (prior < 0 \<and> 0 < after))"

definition gross_grows :: "risk_projection \<Rightarrow> bool" where
  "gross_grows p = (dval (committed_gross p) < dval (projected_gross p))"

definition net_grows :: "risk_projection \<Rightarrow> bool" where
  "net_grows p = (\<bar>dval (committed_net p)\<bar> < \<bar>dval (projected_net p)\<bar>)"

definition drawdown_within :: "risk_state \<Rightarrow> bool" where
  "drawdown_within s = at_most (current_drawdown_pct s) (max_drawdown_pct (drawdown_lim (active_limits s)))"

definition daily_loss_within :: "risk_state \<Rightarrow> bool" where
  "daily_loss_within s = (case daily_loss_lim (active_limits s) of
     None \<Rightarrow> True | Some limit \<Rightarrow> dval (daily_loss s) \<le> dval (max_daily_loss limit))"

definition size_within :: "risk_state \<Rightarrow> order_request \<Rightarrow> risk_projection \<Rightarrow> bool" where
  "size_within s r p = (let limit = order_size (active_limits s) in
     dval (rq_quantity r) \<le> dval (os_max_quantity limit) \<and>
     at_most (dec_mul ACCOUNTING_CONTEXT (rq_quantity r) (pj_price p)) (os_max_notional limit))"

definition position_within :: "risk_state \<Rightarrow> risk_projection \<Rightarrow> bool" where
  "position_within s p = (let limit = position_lim (active_limits s) in
     \<bar>dval (projected_position p)\<bar> \<le> dval (pl_max_quantity limit) \<and>
     at_most (projected_position_value ACCOUNTING_CONTEXT p) (pl_max_notional limit))"

definition gross_within :: "risk_state \<Rightarrow> risk_projection \<Rightarrow> bool" where
  "gross_within s p =
     (dval (projected_gross p) \<le> dval (max_gross_exposure (exposure_lim (active_limits s))) \<and>
      ratio_at_most (projected_gross p) (pj_nav p) (max_leverage (leverage_lim (active_limits s))) \<and>
      (let allowed = max_margin_utilization (margin_lim (active_limits s)) in
       case (margin_requirement p, margin_equity p) of
         (Some requirement, Some equity) \<Rightarrow> ratio_at_most requirement equity allowed
       | _ \<Rightarrow> ratio_at_most (projected_gross p) (pj_nav p) allowed))"

definition bucket_within :: "risk_limits \<Rightarrow> risk_projection \<Rightarrow> bucket_exposure \<Rightarrow> bool" where
  "bucket_within limits p b = (let binding = bucket_limits limits (be_dimension b) (be_label b) in
     if be_label b = None then
       \<not> (position_grows p \<and> list_ex refuse_unclassified binding)
     else
       dval (be_projected_gross b) \<le> dval (be_committed_gross b) \<or>
       list_all (\<lambda>limit.
         (case max_gross limit of None \<Rightarrow> True | Some allowed \<Rightarrow> dval (be_projected_gross b) \<le> dval allowed) \<and>
         (case max_share limit of None \<Rightarrow> True | Some allowed \<Rightarrow> ratio_at_most (be_projected_gross b) (pj_nav p) allowed))
         binding)"

definition admissible :: "risk_state \<Rightarrow> order_request \<Rightarrow> risk_projection \<Rightarrow> bucket_exposure list \<Rightarrow> bool" where
  "admissible s r p buckets =
     (size_within s r p \<and>
      (position_grows p \<longrightarrow> position_within s p \<and> drawdown_within s \<and> daily_loss_within s) \<and>
      (gross_grows p \<longrightarrow> gross_within s p) \<and>
      (net_grows p \<longrightarrow> \<bar>dval (projected_net p)\<bar> \<le> dval (max_net_exposure (exposure_lim (active_limits s)))) \<and>
      (0 < dval (increasing_notional p) \<longrightarrow> dval (increasing_notional p) \<le> dval (available_buying_power p)) \<and>
      list_all (bucket_within (active_limits s) p) buckets)"

text \<open>Every figure the gate is given is a number, and those it takes absolute values of fit the context.\<close>

definition limit_finite :: "classification_limit \<Rightarrow> bool" where
  "limit_finite c = (pred_option is_finite (max_gross c) \<and> pred_option is_finite (max_share c))"

definition limits_finite :: "risk_limits \<Rightarrow> bool" where
  "limits_finite l =
     (list_all is_finite [os_max_quantity (order_size l), os_max_notional (order_size l),
        pl_max_quantity (position_lim l), pl_max_notional (position_lim l),
        max_gross_exposure (exposure_lim l), max_net_exposure (exposure_lim l), max_leverage (leverage_lim l),
        max_margin_utilization (margin_lim l), max_drawdown_pct (drawdown_lim l)] \<and>
      pred_option (\<lambda>d. is_finite (max_daily_loss d)) (daily_loss_lim l) \<and>
      list_all limit_finite (classification l))"

definition state_finite :: "risk_state \<Rightarrow> bool" where
  "state_finite s =
     (limits_finite (active_limits s) \<and>
      list_all is_finite [buying_power s, peak_nav s, current_nav s, daily_loss s] \<and>
      list_all exact_number [gross_exposure (rs_exposure s), net_exposure (rs_exposure s)] \<and>
      list_all exact_number (od_values (asset_exposure (rs_exposure s))))"

definition working_finite :: "working_exposure \<Rightarrow> bool" where
  "working_finite w = (is_finite (we_quantity w) \<and> is_finite (we_price w) \<and> exact_number (we_position w) \<and>
     pred_option is_finite (we_charge w))"

definition input_finite :: "gate_input \<Rightarrow> bool" where
  "input_finite i =
     (exact_number (gi_position i) \<and> pred_option is_finite (gi_price i) \<and> pred_option is_finite (gi_charge i) \<and>
      pred_option (\<lambda>(r, e). is_finite r \<and> is_finite e) (gi_margin i) \<and>
      list_all working_finite (od_values (gi_working i)) \<and>
      list_all (\<lambda>b. is_finite (be_committed_gross b) \<and> is_finite (be_projected_gross b)) (gi_buckets i))"

definition projection_finite :: "risk_projection \<Rightarrow> bool" where
  "projection_finite p =
     (list_all exact_number [committed_position p, projected_position p, committed_net p, projected_net p] \<and>
      list_all is_finite [pj_price p, committed_gross p, projected_gross p, increasing_notional p,
        available_buying_power p, pj_nav p] \<and>
      pred_option is_finite (margin_requirement p) \<and> pred_option is_finite (margin_equity p))"

section \<open>The projection is a number throughout\<close>

lemma dec_max_finite:
  "is_finite a \<Longrightarrow> is_finite b \<Longrightarrow> dec_max a b = Inr (if dval a < dval b then b else a)"
  by (simp add: dec_max_def)

lemma reverses_value:
  "is_finite a \<Longrightarrow> is_finite b \<Longrightarrow>
    reverses a b = Inr ((0 < dval a \<and> dval b < 0) \<or> (dval a < 0 \<and> 0 < dval b))"
  by (auto simp: reverses_def)

lemma grows_value:
  assumes "exact_number a" "exact_number b"
  shows "grows ACCOUNTING_CONTEXT a b =
    Inr (\<bar>dval a\<bar> < \<bar>dval b\<bar> \<or> (0 < dval a \<and> dval b < 0) \<or> (dval a < 0 \<and> 0 < dval b))"
proof -
  obtain x where x: "dec_abs ACCOUNTING_CONTEXT a = Inr x" "exact_number x" "dval x = \<bar>dval a\<bar>"
    using exact_number_abs [OF assms(1)] by blast
  obtain y where y: "dec_abs ACCOUNTING_CONTEXT b = Inr y" "exact_number y" "dval y = \<bar>dval b\<bar>"
    using exact_number_abs [OF assms(2)] by blast
  show ?thesis using x y assms by (simp add: grows_def reverses_value)
qed

lemma growth_finite:
  assumes "exact_number a" "exact_number b" "growth ACCOUNTING_CONTEXT a b = Inr g"
  shows "is_finite g"
proof -
  obtain x where x: "dec_abs ACCOUNTING_CONTEXT a = Inr x" "exact_number x" using exact_number_abs [OF assms(1)] by blast
  obtain y where y: "dec_abs ACCOUNTING_CONTEXT b = Inr y" "exact_number y" using exact_number_abs [OF assms(2)] by blast
  show ?thesis using assms x y
    by (auto simp: growth_def reverses_value rbind_eq_Inr dec_max_finite finite_steps split: if_splits)
qed

lemma value_of_exact: "list_all exact_number (od_values m) \<Longrightarrow> exact_number (value_of m a)"
  by (auto simp: value_of_def list_all_iff exact_number_def split: option.splits dest!: od_get_values)

lemma exact_number_zero: "exact_number dec_zero"
  by (simp add: exact_number_def)

lemma commit_working_finite:
  assumes run: "commit_working ACCOUNTING_CONTEXT values (g, n, sp) (a, w) = Inr (g', n', sp')"
    and w: "working_finite w" and acc: "is_finite g" "is_finite n" "is_finite sp"
    and v: "list_all exact_number (od_values values)"
  shows "exact_number g' \<and> exact_number n' \<and> is_finite sp'"
proof -
  obtain pv cv c f mg after gr cost where
    s: "dec_mul ACCOUNTING_CONTEXT (we_quantity w) (we_price w) = Inr pv"
      "dec_add ACCOUNTING_CONTEXT (value_of values a) pv = Inr cv"
      "dec_abs ACCOUNTING_CONTEXT cv = Inr c" "dec_abs ACCOUNTING_CONTEXT (value_of values a) = Inr f"
      "dec_sub ACCOUNTING_CONTEXT c f = Inr mg" "dec_add ACCOUNTING_CONTEXT g mg = Inr g'"
      "dec_add ACCOUNTING_CONTEXT n pv = Inr n'"
      "dec_add ACCOUNTING_CONTEXT (we_position w) (we_quantity w) = Inr after"
      "growth ACCOUNTING_CONTEXT (we_position w) after = Inr gr"
      "dec_mul ACCOUNTING_CONTEXT gr (case we_charge w of None \<Rightarrow> we_price w | Some x \<Rightarrow> x) = Inr cost"
      "dec_add ACCOUNTING_CONTEXT sp cost = Inr sp'"
    using run by (auto simp: commit_working_def Let_def rbind_eq_Inr)
  have F: "exact_number (value_of values a)" by (rule value_of_exact [OF v])
  have wf: "is_finite (we_quantity w)" "is_finite (we_price w)" "exact_number (we_position w)"
    "pred_option is_finite (we_charge w)" using w by (simp_all add: working_finite_def)
  have pv: "is_finite pv" using dec_mul_finite [OF _ _ s(1)] wf by simp
  have cv: "is_finite cv" using dec_add_finite [OF _ pv s(2)] F by simp
  have mg: "is_finite mg"
    using dec_sub_finite [OF dec_abs_finite [OF cv s(3)] dec_abs_finite [OF _ s(4)] s(5)] F by simp
  have af: "exact_number after" using dec_add_exact_number [OF s(8)] wf by simp
  have gr: "is_finite gr" using growth_finite [OF _ af s(9)] wf by simp
  have "is_finite (case we_charge w of None \<Rightarrow> we_price w | Some x \<Rightarrow> x)" using wf by (auto split: option.splits)
  then have "is_finite cost" using dec_mul_finite [OF gr _ s(10)] by simp
  then show ?thesis
    using dec_add_exact_number [OF s(6) acc(1) mg] dec_add_exact_number [OF s(7) acc(2) pv]
      dec_add_finite [OF acc(3) _ s(11)] by simp
qed

lemma commit_all_finite:
  assumes "rfold (commit_working ACCOUNTING_CONTEXT values) (g, n, sp) working = Inr (g', n', sp')"
    "list_all working_finite (od_values working)" "list_all exact_number (od_values values)"
    "exact_number g" "exact_number n" "is_finite sp"
  shows "exact_number g' \<and> exact_number n' \<and> is_finite sp'"
proof -
  have "case (g', n', sp') of (g, n, sp) \<Rightarrow> exact_number g \<and> exact_number n \<and> is_finite sp"
  proof (rule rfold_invariant [where P = "\<lambda>(g, n, sp). exact_number g \<and> exact_number n \<and> is_finite sp", OF _ _ assms(1)])
    fix acc x acc'
    assume h: "case acc of (g, n, sp) \<Rightarrow> exact_number g \<and> exact_number n \<and> is_finite sp" "x \<in> set working"
      "commit_working ACCOUNTING_CONTEXT values acc x = Inr acc'"
    obtain g n sp a w g' n' sp' where e: "acc = (g, n, sp)" "x = (a, w)" "acc' = (g', n', sp')" by (metis surj_pair)
    have "working_finite w" using assms(2) h(2) by (auto simp: e od_values_def list_all_iff)
    from commit_working_finite [OF _ this, of "values" g n sp a g' n' sp'] h assms(3)
    show "case acc' of (g, n, sp) \<Rightarrow> exact_number g \<and> exact_number n \<and> is_finite sp" by (simp add: e)
  qed (use assms in simp)
  then show ?thesis by simp
qed

lemma signed_quantity_finite:
  "is_finite (rq_quantity r) \<Longrightarrow> signed_quantity ACCOUNTING_CONTEXT r = Inr q \<Longrightarrow> is_finite q"
  by (auto simp: signed_quantity_def dec_neg_def intro: dec_fix_finite [rotated] split: if_splits)

lemma projectE:
  assumes "project amb s request position price working charge margin = Inr p"
  obtains signed gross net spent committed projected cv ov pv c others v pg pn g inc available where
    "signed_quantity amb request = Inr signed"
    "rfold (commit_working amb (asset_exposure (rs_exposure s)))
       (gross_exposure (rs_exposure s), net_exposure (rs_exposure s), dec_zero) working = Inr (gross, net, spent)"
    "(case od_get working (rq_asset_id request) of None \<Rightarrow> Inr position
      | Some w \<Rightarrow> dec_add ACCOUNTING_CONTEXT position (we_quantity w)) = Inr committed"
    "dec_add ACCOUNTING_CONTEXT committed signed = Inr projected"
    "(case od_get working (rq_asset_id request) of
        None \<Rightarrow> Inr (value_of (asset_exposure (rs_exposure s)) (rq_asset_id request))
      | Some w \<Rightarrow> rbind (dec_mul ACCOUNTING_CONTEXT (we_quantity w) (we_price w))
          (dec_add ACCOUNTING_CONTEXT (value_of (asset_exposure (rs_exposure s)) (rq_asset_id request)))) = Inr cv"
    "dec_mul ACCOUNTING_CONTEXT signed price = Inr ov" "dec_add ACCOUNTING_CONTEXT cv ov = Inr pv"
    "dec_abs amb cv = Inr c" "dec_sub ACCOUNTING_CONTEXT gross c = Inr others" "dec_abs amb pv = Inr v"
    "dec_add ACCOUNTING_CONTEXT others v = Inr pg" "dec_add ACCOUNTING_CONTEXT net ov = Inr pn"
    "growth amb committed projected = Inr g"
    "dec_mul ACCOUNTING_CONTEXT g (case charge of None \<Rightarrow> price | Some x \<Rightarrow> x) = Inr inc"
    "dec_sub ACCOUNTING_CONTEXT (buying_power s) spent = Inr available"
    "p = \<lparr>pj_asset_id = rq_asset_id request, order_quantity = signed, pj_price = price,
            committed_position = committed, projected_position = projected, committed_gross = gross,
            projected_gross = pg, committed_net = net, projected_net = pn,
            increasing_notional = inc, available_buying_power = available, pj_nav = current_nav s,
            margin_requirement = map_option fst margin, margin_equity = map_option snd margin\<rparr>"
  using assms unfolding project_def Let_def
  by (elim rbind_InrE) (auto elim!: rbind_InrE simp: that)

lemma working_entry_finite:
  "list_all working_finite (od_values m) \<Longrightarrow> od_get m a = Some w \<Longrightarrow> working_finite w"
  by (auto simp: list_all_iff dest!: od_get_values)

lemma project_finite:
  assumes st: "state_finite s" and i: "input_finite i"
    and r: "is_finite (rq_quantity r)" "is_finite (rq_price r)" and run: "projected_book s r i = Inr p"
  shows "projection_finite p"
proof -
  let ?x = "asset_exposure (rs_exposure s)" and ?a = "rq_asset_id r"
  define price where "price = (case gi_price i of None \<Rightarrow> rq_price r | Some x \<Rightarrow> x)"
  have price: "is_finite price" using i r by (auto simp: price_def input_finite_def split: option.splits)
  have wk: "list_all working_finite (od_values (gi_working i))" and pos: "exact_number (gi_position i)"
    and ch: "pred_option is_finite (gi_charge i)" and mg: "pred_option (\<lambda>(r, e). is_finite r \<and> is_finite e) (gi_margin i)"
    using i by (auto simp: input_finite_def)
  have sv: "list_all exact_number (od_values ?x)" "exact_number (gross_exposure (rs_exposure s))"
      "exact_number (net_exposure (rs_exposure s))" "is_finite (buying_power s)" "is_finite (current_nav s)"
    using st by (auto simp: state_finite_def)
  have run': "project ACCOUNTING_CONTEXT s r (gi_position i) price (gi_working i) (gi_charge i) (gi_margin i) = Inr p"
    using run by (simp add: projected_book_def price_def)
  show ?thesis
  proof (rule projectE [OF run'])
    fix signed gross net spent committed projected cv ov pv c others v pg pn g inc available
    assume h: "signed_quantity ACCOUNTING_CONTEXT r = Inr signed"
      "rfold (commit_working ACCOUNTING_CONTEXT ?x) (gross_exposure (rs_exposure s), net_exposure (rs_exposure s), dec_zero)
         (gi_working i) = Inr (gross, net, spent)"
      "(case od_get (gi_working i) ?a of None \<Rightarrow> Inr (gi_position i)
        | Some w \<Rightarrow> dec_add ACCOUNTING_CONTEXT (gi_position i) (we_quantity w)) = Inr committed"
      "dec_add ACCOUNTING_CONTEXT committed signed = Inr projected"
      "(case od_get (gi_working i) ?a of None \<Rightarrow> Inr (value_of ?x ?a)
        | Some w \<Rightarrow> rbind (dec_mul ACCOUNTING_CONTEXT (we_quantity w) (we_price w))
            (dec_add ACCOUNTING_CONTEXT (value_of ?x ?a))) = Inr cv"
      "dec_mul ACCOUNTING_CONTEXT signed price = Inr ov" "dec_add ACCOUNTING_CONTEXT cv ov = Inr pv"
      "dec_abs ACCOUNTING_CONTEXT cv = Inr c" "dec_sub ACCOUNTING_CONTEXT gross c = Inr others"
      "dec_abs ACCOUNTING_CONTEXT pv = Inr v" "dec_add ACCOUNTING_CONTEXT others v = Inr pg"
      "dec_add ACCOUNTING_CONTEXT net ov = Inr pn" "growth ACCOUNTING_CONTEXT committed projected = Inr g"
      "dec_mul ACCOUNTING_CONTEXT g (case gi_charge i of None \<Rightarrow> price | Some x \<Rightarrow> x) = Inr inc"
      "dec_sub ACCOUNTING_CONTEXT (buying_power s) spent = Inr available"
    assume p: "p = \<lparr>pj_asset_id = ?a, order_quantity = signed, pj_price = price,
            committed_position = committed, projected_position = projected, committed_gross = gross,
            projected_gross = pg, committed_net = net, projected_net = pn,
            increasing_notional = inc, available_buying_power = available, pj_nav = current_nav s,
            margin_requirement = map_option fst (gi_margin i), margin_equity = map_option snd (gi_margin i)\<rparr>"
    have q: "is_finite signed" using signed_quantity_finite [OF r(1) h(1)] .
    have acc: "exact_number gross" "exact_number net" "is_finite spent"
      using commit_all_finite [OF h(2) wk sv(1-3)] by simp_all
    have w: "is_finite (we_quantity w)" "is_finite (we_price w)" if "od_get (gi_working i) ?a = Some w" for w
      using working_entry_finite [OF wk that] by (simp_all add: working_finite_def)
    have co: "exact_number committed"
      using h(3) pos w by (auto split: option.splits dest!: dec_add_exact_number)
    have pr: "exact_number projected" using dec_add_exact_number [OF h(4)] co q by simp
    have xv: "is_finite (value_of ?x ?a)" using value_of_exact [OF sv(1)] by simp
    have cv: "is_finite cv" using h(5) xv w
      by (auto split: option.splits simp: rbind_eq_Inr intro: dec_add_finite [rotated 2] dec_mul_finite [rotated 2])
    have ov: "is_finite ov" using dec_mul_finite [OF q price h(6)] .
    have pv: "is_finite pv" using dec_add_finite [OF cv ov h(7)] .
    have ot: "is_finite others" using dec_sub_finite [OF _ dec_abs_finite [OF cv h(8)] h(9)] acc by simp
    have pg: "is_finite pg" using dec_add_finite [OF ot dec_abs_finite [OF pv h(10)] h(11)] .
    have pn: "exact_number pn" using dec_add_exact_number [OF h(12)] acc ov by simp
    have g: "is_finite g" using growth_finite [OF co pr h(13)] .
    have "is_finite (case gi_charge i of None \<Rightarrow> price | Some x \<Rightarrow> x)" using ch price by (auto split: option.splits)
    then have inc: "is_finite inc" using dec_mul_finite [OF g _ h(14)] by simp
    have av: "is_finite available" using dec_sub_finite [OF sv(4) acc(3) h(15)] .
    have m: "pred_option is_finite (map_option fst (gi_margin i))" "pred_option is_finite (map_option snd (gi_margin i))"
      using mg by (auto simp: option.pred_map pred_option_def split: option.splits)
    show ?thesis unfolding projection_finite_def p using co pr acc pn price pg inc av sv(5) m by simp
  qed
qed

section \<open>Each check\<close>

lemma refuse_above_None:
  assumes "is_finite current" "is_finite allowed"
  shows "refuse_above r v current allowed rest = Inr None \<longleftrightarrow> dval current \<le> dval allowed \<and> rest = Inr None"
  using assms by (auto simp: refuse_above_def violation_def)

lemma refuse_ratio_None:
  assumes "is_finite amount" "is_finite base" "is_finite allowed"
  shows "refuse_ratio r v amount base allowed = Inr None \<longleftrightarrow> ratio_at_most amount base allowed"
proof (cases "dec_div ACCOUNTING_CONTEXT amount base")
  case (Inl e)
  then show ?thesis using assms by (auto simp: refuse_ratio_def ratio_at_most_def at_most_def violation_def)
next
  case (Inr x)
  have "is_finite x" using dec_div_finite [OF assms(1,2) Inr] .
  then show ?thesis
    using assms Inr by (auto simp: refuse_ratio_def ratio_at_most_def at_most_def violation_def refuse_above_None)
qed

lemma increases_value:
  "projection_finite p \<Longrightarrow> increases_exposure ACCOUNTING_CONTEXT p = Inr (position_grows p)"
  by (simp add: projection_finite_def increases_exposure_def grows_value position_grows_def Let_def)

lemma bind_refuse:
  assumes "\<And>x. m = Inr x \<Longrightarrow> is_finite x" "is_finite allowed"
  shows "rbind m (\<lambda>x. refuse_above r v x allowed rest) = Inr None \<longleftrightarrow> at_most m allowed \<and> rest = Inr None"
  using assms by (cases m) (auto simp: at_most_def refuse_above_None)

lemma position_value_finite:
  "projection_finite p \<Longrightarrow> projected_position_value ACCOUNTING_CONTEXT p = Inr x \<Longrightarrow> is_finite x"
  by (auto simp: projected_position_value_def projection_finite_def rbind_eq_Inr finite_steps)

lemma check_order_size_None:
  assumes "projection_finite p" "limits_finite (active_limits s)" "is_finite (rq_quantity r)"
  shows "check_order_size r s p = Inr None \<longleftrightarrow> size_within s r p"
proof -
  have f: "is_finite (pj_price p)" "is_finite (os_max_quantity (order_size (active_limits s)))"
      "is_finite (os_max_notional (order_size (active_limits s)))"
    using assms by (simp_all add: projection_finite_def limits_finite_def)
  show ?thesis
    unfolding check_order_size_def size_within_def Let_def refuse_above_None [OF assms(3) f(2)]
    using bind_refuse [OF dec_mul_finite [OF assms(3) f(1)] f(3)] by simp
qed

lemma check_position_None:
  assumes p: "projection_finite p" and l: "limits_finite (active_limits s)"
  shows "check_position_limit ACCOUNTING_CONTEXT s p = Inr None \<longleftrightarrow> (position_grows p \<longrightarrow> position_within s p)"
proof -
  have f: "exact_number (projected_position p)" "is_finite (pl_max_quantity (position_lim (active_limits s)))"
      "is_finite (pl_max_notional (position_lim (active_limits s)))"
    using p l by (simp_all add: projection_finite_def limits_finite_def)
  obtain m where m: "dec_abs ACCOUNTING_CONTEXT (projected_position p) = Inr m" "exact_number m"
      "dval m = \<bar>dval (projected_position p)\<bar>" using exact_number_abs [OF f(1)] by blast
  note V = bind_refuse [OF position_value_finite [OF p] f(3), where r = "''PositionNotionalLimit''" and v = SEVERITY_HIGH and rest = "Inr None"]
  show ?thesis using V
    by (simp add: check_position_limit_def increases_value [OF p] m Let_def refuse_above_None f position_within_def)
qed

lemma when_gross_None:
  assumes "projection_finite p"
  shows "when_gross_grows p rest = Inr None \<longleftrightarrow> (gross_grows p \<longrightarrow> rest = Inr None)"
  using assms by (auto simp: projection_finite_def when_gross_grows_def gross_grows_def)

lemma check_gross_None:
  assumes p: "projection_finite p" and l: "limits_finite (active_limits s)"
  shows "check_margin s p = Inr None \<and> check_exposure s p = Inr None \<and> check_leverage s p = Inr None \<longleftrightarrow>
    (gross_grows p \<longrightarrow> gross_within s p)"
proof -
  have f: "is_finite (projected_gross p)" "is_finite (pj_nav p)" "pred_option is_finite (margin_requirement p)"
      "pred_option is_finite (margin_equity p)"
      "is_finite (max_gross_exposure (exposure_lim (active_limits s)))"
      "is_finite (max_leverage (leverage_lim (active_limits s)))"
      "is_finite (max_margin_utilization (margin_lim (active_limits s)))"
    using p l by (simp_all add: projection_finite_def limits_finite_def)
  have m: "(case (margin_requirement p, margin_equity p) of
        (Some requirement, Some equity) \<Rightarrow> refuse_ratio ''MarginLimit'' SEVERITY_CRITICAL requirement equity
           (max_margin_utilization (margin_lim (active_limits s)))
      | _ \<Rightarrow> refuse_ratio ''MarginLimit'' SEVERITY_CRITICAL (projected_gross p) (pj_nav p)
           (max_margin_utilization (margin_lim (active_limits s)))) = Inr None \<longleftrightarrow>
      (case (margin_requirement p, margin_equity p) of
        (Some requirement, Some equity) \<Rightarrow> ratio_at_most requirement equity (max_margin_utilization (margin_lim (active_limits s)))
      | _ \<Rightarrow> ratio_at_most (projected_gross p) (pj_nav p) (max_margin_utilization (margin_lim (active_limits s))))"
    using f by (auto simp: refuse_ratio_None split: option.splits)
  show ?thesis
    unfolding check_margin_def check_exposure_def check_leverage_def when_gross_None [OF p] gross_within_def Let_def m
    using f by (auto simp: refuse_above_None refuse_ratio_None)
qed

lemma check_net_None:
  assumes p: "projection_finite p" and l: "limits_finite (active_limits s)"
  shows "check_net_exposure ACCOUNTING_CONTEXT s p = Inr None \<longleftrightarrow>
    (net_grows p \<longrightarrow> \<bar>dval (projected_net p)\<bar> \<le> dval (max_net_exposure (exposure_lim (active_limits s))))"
proof -
  have f: "exact_number (projected_net p)" "exact_number (committed_net p)"
      "is_finite (max_net_exposure (exposure_lim (active_limits s)))"
    using p l by (simp_all add: projection_finite_def limits_finite_def)
  obtain x where x: "dec_abs ACCOUNTING_CONTEXT (projected_net p) = Inr x" "exact_number x" "dval x = \<bar>dval (projected_net p)\<bar>"
    using exact_number_abs [OF f(1)] by blast
  obtain y where y: "dec_abs ACCOUNTING_CONTEXT (committed_net p) = Inr y" "exact_number y" "dval y = \<bar>dval (committed_net p)\<bar>"
    using exact_number_abs [OF f(2)] by blast
  show ?thesis using f(3) x y by (auto simp: check_net_exposure_def refuse_above_None net_grows_def)
qed

lemma check_buying_power_None:
  assumes "projection_finite p"
  shows "check_buying_power p = Inr None \<longleftrightarrow>
    (0 < dval (increasing_notional p) \<longrightarrow> dval (increasing_notional p) \<le> dval (available_buying_power p))"
  using assms by (auto simp: projection_finite_def check_buying_power_def refuse_above_None)

lemma drawdown_finite: "state_finite s \<Longrightarrow> current_drawdown_pct s = Inr d \<Longrightarrow> is_finite d"
  by (auto simp: state_finite_def current_drawdown_pct_def rbind_eq_Inr dec_max_def finite_steps split: if_splits)

lemma drawdown_breach_None:
  assumes "state_finite s"
  shows "drawdown_breach s = Inr None \<longleftrightarrow> drawdown_within s"
proof -
  have f: "is_finite (max_drawdown_pct (drawdown_lim (active_limits s)))"
    using assms by (simp add: state_finite_def limits_finite_def)
  show ?thesis
    using bind_refuse [OF drawdown_finite [OF assms] f, where r = "''DrawdownLimit''" and v = SEVERITY_CRITICAL and rest = "Inr None"]
    by (simp add: drawdown_breach_def drawdown_within_def)
qed

lemma daily_loss_breach_value:
  assumes "state_finite s"
  shows "\<exists>v. daily_loss_breach s = Inr v \<and> (v = None \<longleftrightarrow> daily_loss_within s)"
proof (cases "daily_loss_lim (active_limits s)")
  case None
  then show ?thesis by (simp add: daily_loss_breach_def daily_loss_within_def)
next
  case (Some l)
  have "is_finite (max_daily_loss l)" "is_finite (daily_loss s)"
    using assms Some by (simp_all add: state_finite_def limits_finite_def)
  with Some show ?thesis by (simp add: daily_loss_breach_def daily_loss_within_def violation_def)
qed

lemma refuse_growth_None:
  assumes "projection_finite p" "breach = Inr v"
  shows "refuse_growth ACCOUNTING_CONTEXT breach p = Inr None \<longleftrightarrow> (position_grows p \<longrightarrow> v = None)"
  using assms by (auto simp: refuse_growth_def increases_value)

lemma check_binding_None:
  assumes "is_finite (be_projected_gross b)" "is_finite (pj_nav p)" "list_all limit_finite ls"
  shows "check_binding p b ls = Inr None \<longleftrightarrow>
    list_all (\<lambda>limit.
      (case max_gross limit of None \<Rightarrow> True | Some allowed \<Rightarrow> dval (be_projected_gross b) \<le> dval allowed) \<and>
      (case max_share limit of None \<Rightarrow> True | Some allowed \<Rightarrow> ratio_at_most (be_projected_gross b) (pj_nav p) allowed)) ls"
  using assms(3)
proof (induction ls)
  case Nil
  then show ?case by simp
next
  case (Cons l ls)
  then have f: "pred_option is_finite (max_gross l)" "pred_option is_finite (max_share l)"
    and IH: "check_binding p b ls = Inr None \<longleftrightarrow> list_all (\<lambda>limit.
      (case max_gross limit of None \<Rightarrow> True | Some allowed \<Rightarrow> dval (be_projected_gross b) \<le> dval allowed) \<and>
      (case max_share limit of None \<Rightarrow> True | Some allowed \<Rightarrow> ratio_at_most (be_projected_gross b) (pj_nav p) allowed)) ls"
    by (simp_all add: limit_finite_def)
  define share where "share = (case max_share l of
           None \<Rightarrow> check_binding p b ls
         | Some allowed \<Rightarrow>
             rbind (refuse_ratio ''ClassificationShareLimit'' SEVERITY_HIGH (be_projected_gross b) (pj_nav p) allowed)
               (\<lambda>v. if v = None then check_binding p b ls else Inr v))"
  have "share = Inr None \<longleftrightarrow>
      (case max_share l of None \<Rightarrow> True | Some allowed \<Rightarrow> ratio_at_most (be_projected_gross b) (pj_nav p) allowed) \<and>
      check_binding p b ls = Inr None"
  proof (cases "max_share l")
    case None
    then show ?thesis by (simp add: share_def)
  next
    case (Some x)
    with f(2) refuse_ratio_None [OF assms(1,2), of x "''ClassificationShareLimit''" SEVERITY_HIGH]
    show ?thesis by (auto simp: share_def rbind_eq_Inr split: if_splits)
  qed
  moreover have "check_binding p b (l # ls) = (case max_gross l of None \<Rightarrow> share
      | Some allowed \<Rightarrow> refuse_above ''ClassificationLimit'' SEVERITY_HIGH (be_projected_gross b) allowed share)"
    unfolding share_def by (simp add: Let_def)
  ultimately show ?case
    using IH f(1) by (cases "max_gross l") (simp_all add: refuse_above_None [OF assms(1)])
qed

lemma bucket_limits_finite: "list_all limit_finite (classification l) \<Longrightarrow> list_all limit_finite (bucket_limits l d x)"
  by (auto simp: bucket_limits_def Let_def list_all_iff)

lemma check_buckets_None:
  assumes "projection_finite p" "limits_finite l"
    "list_all (\<lambda>b. is_finite (be_committed_gross b) \<and> is_finite (be_projected_gross b)) bs"
    "position_grows p \<longrightarrow> (\<exists>x. projected_position_value ACCOUNTING_CONTEXT p = Inr x)"
  shows "check_buckets ACCOUNTING_CONTEXT l p bs = Inr None \<longleftrightarrow> list_all (bucket_within l p) bs"
  using assms(3)
proof (induction bs)
  case Nil
  then show ?case by simp
next
  case (Cons b bs)
  have nav: "is_finite (pj_nav p)" and lf: "list_all limit_finite (classification l)"
    using assms(1,2) by (simp_all add: projection_finite_def limits_finite_def)
  from Cons.prems have b: "is_finite (be_projected_gross b)" "is_finite (be_committed_gross b)" by simp_all
  have IH: "check_buckets ACCOUNTING_CONTEXT l p bs = Inr None \<longleftrightarrow> list_all (bucket_within l p) bs"
    using Cons by simp
  show ?case
  proof (cases "be_label b")
    case None
    then show ?thesis using IH
      by (auto simp: Let_def increases_value [OF assms(1)] bucket_within_def [of l p b] violation_def rbind_eq_Inr)
  next
    case (Some x)
    note B = check_binding_None [OF b(1) nav bucket_limits_finite [OF lf, of "be_dimension b" "Some x"]]
    show ?thesis
      using IH Some B b by (auto simp: Let_def bucket_within_def [of l p b] rbind_eq_Inr split: if_splits)
  qed
qed

section \<open>The decision\<close>

lemma found_Nil: "found cs = Inr [] \<longleftrightarrow> (\<forall>c \<in> set cs. c = Inr None)"
proof (induction cs)
  case Nil
  then show ?case by (simp add: found_def List.map_filter_simps)
next
  case (Cons c cs)
  then show ?case
    by (cases c) (auto simp: found_def rbind_eq_Inr List.map_filter_simps split: option.splits)
qed

lemma evaluateE:
  assumes "evaluate sid did eid s r t i = Inr (s', d)"
  obtains p vs bs e where "validate_order_request r = Inr ()" "projected_book s r i = Inr p"
    "found (all_checks ACCOUNTING_CONTEXT r s p (gi_buckets i)) = Inr vs" "breaches s = Inr bs"
    "decide did eid r t s p vs bs = Inr (d, e)"
    "s' = s\<lparr>rs_history := rs_history s @ [d], rs_events := rs_events s @ [RiskCheckStarted sid t r, e]\<rparr>"
  using assms unfolding evaluate_def by (auto elim!: rbind_InrE split: prod.splits)

lemma decide_approved: "decide did eid r t s p vs bs = Inr (d, e) \<Longrightarrow> approved d \<longleftrightarrow> vs = []"
  by (auto simp: decide_def approve_def reject_def rbind_eq_Inr Let_def split: if_splits)

lemma validated:
  assumes "validate_order_request r = Inr ()" "is_finite (rq_quantity r)"
  shows "0 < dval (rq_quantity r)" "is_finite (rq_price r)" "rq_asset_id r \<noteq> []"
  using assms by (auto simp: validate_order_request_def split: if_splits)

lemma checks_pass:
  assumes p: "projection_finite p" and st: "state_finite s" and i: "input_finite i" and q: "is_finite (rq_quantity r)"
    and bs: "breaches s = Inr bs"
    and vs: "found (all_checks ACCOUNTING_CONTEXT r s p (gi_buckets i)) = Inr vs"
  shows "vs = [] \<longleftrightarrow> admissible s r p (gi_buckets i)"
proof -
  have l: "limits_finite (active_limits s)" using st by (simp add: state_finite_def)
  obtain dv where dv: "drawdown_breach s = Inr dv" using bs by (auto simp: breaches_def found_def rbind_eq_Inr)
  obtain lv where lv: "daily_loss_breach s = Inr lv" "lv = None \<longleftrightarrow> daily_loss_within s"
    using daily_loss_breach_value [OF st] by blast
  have D: "check_drawdown ACCOUNTING_CONTEXT s p = Inr None \<longleftrightarrow> (position_grows p \<longrightarrow> drawdown_within s)"
    using refuse_growth_None [OF p dv] drawdown_breach_None [OF st] dv by (simp add: check_drawdown_def)
  have L: "check_daily_loss ACCOUNTING_CONTEXT s p = Inr None \<longleftrightarrow> (position_grows p \<longrightarrow> daily_loss_within s)"
    using refuse_growth_None [OF p lv(1)] lv(2) by (simp add: check_daily_loss_def)
  have run: "\<exists>x. projected_position_value ACCOUNTING_CONTEXT p = Inr x"
    if pw: "position_grows p \<longrightarrow> position_within s p" and g: "position_grows p"
    using pw g by (auto simp: position_within_def Let_def at_most_def split: sum.splits)
  have fb: "list_all (\<lambda>b. is_finite (be_committed_gross b) \<and> is_finite (be_projected_gross b)) (gi_buckets i)"
    using i by (simp add: input_finite_def)
  have B: "(if gi_buckets i \<noteq> [] then check_classification ACCOUNTING_CONTEXT s p (gi_buckets i) else Inr None) = Inr None \<longleftrightarrow>
      list_all (bucket_within (active_limits s) p) (gi_buckets i)"
    if "position_grows p \<longrightarrow> position_within s p"
    using check_buckets_None [OF p l fb] run [OF that] by (auto simp: check_classification_def)
  define final where "final = (if gi_buckets i \<noteq> [] then check_classification ACCOUNTING_CONTEXT s p (gi_buckets i) else Inr None)"
  have "vs = [] \<longleftrightarrow> found (all_checks ACCOUNTING_CONTEXT r s p (gi_buckets i)) = Inr []" using vs by auto
  also have "\<dots> \<longleftrightarrow> size_within s r p \<and> (position_grows p \<longrightarrow> position_within s p) \<and>
      (check_margin s p = Inr None \<and> check_exposure s p = Inr None \<and> check_leverage s p = Inr None) \<and>
      (net_grows p \<longrightarrow> \<bar>dval (projected_net p)\<bar> \<le> dval (max_net_exposure (exposure_lim (active_limits s)))) \<and>
      (position_grows p \<longrightarrow> drawdown_within s) \<and>
      (0 < dval (increasing_notional p) \<longrightarrow> dval (increasing_notional p) \<le> dval (available_buying_power p)) \<and>
      (position_grows p \<longrightarrow> daily_loss_within s) \<and> final = Inr None"
    unfolding found_Nil all_checks_def final_def [symmetric]
    by (simp only: D L check_order_size_None [OF p l q] check_position_None [OF p l] check_net_None [OF p l]
        check_buying_power_None [OF p] list.set ball_simps insert_iff empty_iff simp_thms) blast
  also have "\<dots> \<longleftrightarrow> admissible s r p (gi_buckets i)"
    unfolding admissible_def check_gross_None [OF p l] using B [folded final_def] by blast
  finally show ?thesis .
qed

text \<open>C18: the gate approves an order exactly when the book it would leave is admissible: within every
  limit, or no worse on what that limit measures. The decision carries the order's id, is appended to
  the history, and is announced as what it is: the evaluation appends exactly two events, the start
  of the check and the approval or the refusal of that decision for that order, a refusal with its
  reason. An order refused names at least one violated limit.\<close>

theorem gate_is_exact:
  assumes "evaluate sid did eid s r t i = Inr (s', d)" "state_finite s" "input_finite i" "is_finite (rq_quantity r)"
  shows "\<exists>p. projected_book s r i = Inr p \<and> (approved d \<longleftrightarrow> admissible s r p (gi_buckets i)) \<and>
    (approved d \<longleftrightarrow> rd_violations d = []) \<and> decision_id d = did \<and> rd_order_id d = rq_order_id r \<and>
    rs_history s' = rs_history s @ [d] \<and>
    rs_events s' = rs_events s @ [RiskCheckStarted sid t r,
      if approved d then RiskApproved eid t did (rq_order_id r) else RiskRejected eid t did (rq_order_id r) (rd_reason d)]"
proof -
  obtain p vs bs e where E: "validate_order_request r = Inr ()" "projected_book s r i = Inr p"
    "found (all_checks ACCOUNTING_CONTEXT r s p (gi_buckets i)) = Inr vs" "breaches s = Inr bs"
    "decide did eid r t s p vs bs = Inr (d, e)"
    "s' = s\<lparr>rs_history := rs_history s @ [d], rs_events := rs_events s @ [RiskCheckStarted sid t r, e]\<rparr>"
    using evaluateE [OF assms(1)] .
  have p: "projection_finite p"
    using project_finite [OF assms(2-4) validated(2) [OF E(1) assms(4)] E(2)] .
  have "approved d \<longleftrightarrow> admissible s r p (gi_buckets i)"
    using decide_approved [OF E(5)] checks_pass [OF p assms(2-4) E(4) E(3)] by blast
  moreover have "approved d \<longleftrightarrow> rd_violations d = []" "decision_id d = did" "rd_order_id d = rq_order_id r"
      "e = (if approved d then RiskApproved eid t did (rq_order_id r) else RiskRejected eid t did (rq_order_id r) (rd_reason d))"
    using E(5) by (auto simp: decide_def approve_def reject_def rbind_eq_Inr Let_def split: if_splits)
  ultimately show ?thesis using E(2,6) by auto
qed

end
