(* ===== verification/Risk_Book.thy ===== *)
theory Risk_Book
  imports Risk_Gate Money
begin

text \<open>
  The projection of the risk gate against a reference: the whole book, summed again over every asset.
  The code adds to the kept totals what the working orders and the order change.
\<close>

section \<open>The projection is the whole book\<close>

text \<open>An asset's filled value with what its working orders add, at their price.\<close>

definition work_value :: "(string, working_exposure) od \<Rightarrow> string \<Rightarrow> rat" where
  "work_value working a = (case od_get working a of None \<Rightarrow> 0 | Some w \<Rightarrow> dval (we_quantity w) * dval (we_price w))"

definition work_quantity :: "(string, working_exposure) od \<Rightarrow> string \<Rightarrow> rat" where
  "work_quantity working a = (case od_get working a of None \<Rightarrow> 0 | Some w \<Rightarrow> dval (we_quantity w))"

definition signed_value :: "order_request \<Rightarrow> rat" where
  "signed_value r = (if rq_side r = BUY then dval (rq_quantity r) else - dval (rq_quantity r))"

definition book_value :: "exposure_status \<Rightarrow> (string, working_exposure) od \<Rightarrow> string \<Rightarrow> rat" where
  "book_value x working a = dval (value_of (asset_exposure x) a) + work_value working a"

definition assets :: "exposure_status \<Rightarrow> (string, working_exposure) od \<Rightarrow> string \<Rightarrow> string set" where
  "assets x working a = insert a (set (od_keys (asset_exposure x)) \<union> set (od_keys working))"

text \<open>Everything the projection adds up: its size bounds every intermediate sum.\<close>

definition turnover :: "exposure_status \<Rightarrow> (string, working_exposure) od \<Rightarrow> rat \<Rightarrow> rat" where
  "turnover x working order =
     \<bar>dval (gross_exposure x)\<bar> + \<bar>dval (net_exposure x)\<bar> +
     sum_list (map (\<lambda>(a, w). \<bar>dval (we_quantity w) * dval (we_price w)\<bar>) working) + \<bar>order\<bar>"

text \<open>Quantities with \<open>uq\<close> decimals, prices with \<open>up\<close>, values with both.\<close>

definition book_exact :: "int \<Rightarrow> int \<Rightarrow> exposure_status \<Rightarrow> (string, working_exposure) od \<Rightarrow> bool" where
  "book_exact uq up x working =
     (unit_range uq \<and> unit_range up \<and> unit_range (uq + up) \<and>
      od_ok (asset_exposure x) \<and> od_ok working \<and>
      list_all (at_unit (uq + up)) (gross_exposure x # net_exposure x # od_values (asset_exposure x)) \<and>
      dval (gross_exposure x) = sum_list (map (\<lambda>v. \<bar>dval v\<bar>) (od_values (asset_exposure x))) \<and>
      dval (net_exposure x) = sum_list (map dval (od_values (asset_exposure x))) \<and>
      list_all (\<lambda>w. at_unit uq (we_quantity w) \<and> at_unit up (we_price w)) (od_values working))"

lemma add_exactly:
  assumes "dec_add ACCOUNTING_CONTEXT a b = Inr r" "at_unit u a" "at_unit u b" "unit_range u"
    "\<bar>dval a + dval b\<bar> < 10 powi (34 - u)"
  shows "at_unit u r" "dval r = dval a + dval b"
  using add_small_ok [OF assms(2-5)] assms(1) by (metis sum.inject(2))+

lemma sub_exactly:
  assumes "dec_sub ACCOUNTING_CONTEXT a b = Inr r" "at_unit u a" "at_unit u b" "unit_range u"
    "\<bar>dval a - dval b\<bar> < 10 powi (34 - u)"
  shows "at_unit u r" "dval r = dval a - dval b"
  using sub_small_ok [OF assms(2-5)] assms(1) by (metis sum.inject(2))+

lemma fix_exactly:
  assumes "dec_fix ACCOUNTING_CONTEXT d = Inr r" "at_unit u d" "unit_range u" "\<bar>dval d\<bar> < 10 powi (34 - u)"
  shows "at_unit u r" "dval r = dval d"
  using fix_small_ok [OF assms(2-4)] assms(1) by (metis sum.inject(2))+

lemma abs_exactly:
  assumes "dec_abs ACCOUNTING_CONTEXT a = Inr r" "at_unit u a" "unit_range u" "\<bar>dval a\<bar> < 10 powi (34 - u)"
  shows "at_unit u r" "dval r = \<bar>dval a\<bar>"
proof -
  obtain c e where a: "a = Fin c e" using assms(2) by (cases a) auto
  have v: "dval (Fin \<bar>c\<bar> e) = \<bar>dval a\<bar>" by (simp add: a dval.simps(1) abs_mult)
  from fix_exactly [of "Fin \<bar>c\<bar> e" r u] assms v show "at_unit u r" "dval r = \<bar>dval a\<bar>" by (simp_all add: a)
qed

lemma neg_exactly:
  assumes "dec_neg ACCOUNTING_CONTEXT a = Inr r" "at_unit u a" "unit_range u" "\<bar>dval a\<bar> < 10 powi (34 - u)"
  shows "at_unit u r" "dval r = - dval a"
  using fix_exactly [of "dec_neg_exact a" r u] assms by (simp_all add: dec_neg_def)

lemma mul_exactly:
  assumes "dec_mul ACCOUNTING_CONTEXT a b = Inr r" "at_unit v a" "at_unit w b" "unit_range (v + w)"
    "\<bar>dval a * dval b\<bar> < 10 powi (34 - (v + w))"
  shows "at_unit (v + w) r" "dval r = dval a * dval b"
proof -
  have "at_unit (v + w) (mul_exact a b)" using assms(2,3) by (cases a; cases b) auto
  with fix_exactly [of "mul_exact a b" r "v + w"] assms
  show "at_unit (v + w) r" "dval r = dval a * dval b" by (simp_all add: dec_mul_fix)
qed

definition pending :: "working_exposure \<Rightarrow> rat" where
  "pending w = dval (we_quantity w) * dval (we_price w)"

definition added_gross :: "(string, decimal) od \<Rightarrow> string \<times> working_exposure \<Rightarrow> rat" where
  "added_gross m e = \<bar>dval (value_of m (fst e)) + pending (snd e)\<bar> - \<bar>dval (value_of m (fst e))\<bar>"

lemma added_gross_le: "\<bar>added_gross m e\<bar> \<le> \<bar>pending (snd e)\<bar>"
  by (simp add: added_gross_def)

lemma commit_step_exact:
  assumes run: "commit_working ACCOUNTING_CONTEXT m (g, n, sp) (a, w) = Inr (g', n', sp')"
    and u: "unit_range (uq + up)" and w: "at_unit uq (we_quantity w)" "at_unit up (we_price w)"
    and gn: "at_unit (uq + up) g" "at_unit (uq + up) n" "at_unit (uq + up) (value_of m a)"
    and small: "\<bar>dval (value_of m a)\<bar> < 10 powi (33 - (uq + up))" "\<bar>dval g\<bar> + \<bar>pending w\<bar> < 10 powi (33 - (uq + up))"
      "\<bar>dval n\<bar> + \<bar>pending w\<bar> < 10 powi (33 - (uq + up))"
  shows "at_unit (uq + up) g'" "at_unit (uq + up) n'" "dval g' = dval g + added_gross m (a, w)" "dval n' = dval n + pending w"
proof -
  obtain pv cv c f mg where
    s: "dec_mul ACCOUNTING_CONTEXT (we_quantity w) (we_price w) = Inr pv"
      "dec_add ACCOUNTING_CONTEXT (value_of m a) pv = Inr cv"
      "dec_abs ACCOUNTING_CONTEXT cv = Inr c" "dec_abs ACCOUNTING_CONTEXT (value_of m a) = Inr f"
      "dec_sub ACCOUNTING_CONTEXT c f = Inr mg" "dec_add ACCOUNTING_CONTEXT g mg = Inr g'"
      "dec_add ACCOUNTING_CONTEXT n pv = Inr n'"
    using run by (auto simp: commit_working_def Let_def rbind_eq_Inr)
  let ?B = "10 powi (33 - (uq + up)) :: rat" and ?v = "dval (value_of m a)"
  note ten = ten_small [of "uq + up", symmetric]
  have pw: "\<bar>pending w\<bar> < ?B" "\<bar>dval g\<bar> < ?B" "\<bar>dval n\<bar> < ?B" using small by linarith+
  have pv: "at_unit (uq + up) pv" "dval pv = pending w"
    using mul_exactly [OF s(1) w u] pw(1) unfolding ten pending_def by linarith+
  have cv: "at_unit (uq + up) cv" "dval cv = ?v + pending w"
    using add_exactly [OF s(2) gn(3) pv(1) u] pw(1) small(1) unfolding ten pv(2) by linarith+
  have c: "at_unit (uq + up) c" "dval c = \<bar>?v + pending w\<bar>"
    using abs_exactly [OF s(3) cv(1) u] pw(1) small(1) unfolding ten cv(2) by linarith+
  have f: "at_unit (uq + up) f" "dval f = \<bar>?v\<bar>"
    using abs_exactly [OF s(4) gn(3) u] small(1) unfolding ten by linarith+
  have mg: "at_unit (uq + up) mg" "dval mg = \<bar>?v + pending w\<bar> - \<bar>?v\<bar>"
    using sub_exactly [OF s(5) c(1) f(1) u] pw(1) small(1) unfolding ten c(2) f(2) by linarith+
  have "at_unit (uq + up) g'" "dval g' = dval g + (\<bar>?v + pending w\<bar> - \<bar>?v\<bar>)"
    using add_exactly [OF s(6) gn(1) mg(1) u] pw small(1) unfolding ten mg(2) by linarith+
  then show "at_unit (uq + up) g'" "dval g' = dval g + added_gross m (a, w)" by (simp_all add: added_gross_def)
  show "at_unit (uq + up) n'" "dval n' = dval n + pending w"
    using add_exactly [OF s(7) gn(2) pv(1) u] pw unfolding ten pv(2) by linarith+
qed

lemma commit_all_exact:
  assumes "rfold (commit_working ACCOUNTING_CONTEXT m) (g, n, sp) working = Inr (g', n', sp')"
    and "unit_range (uq + up)" "\<forall>(a, w) \<in> set working. at_unit uq (we_quantity w) \<and> at_unit up (we_price w)"
    and "at_unit (uq + up) g" "at_unit (uq + up) n" "\<forall>a. at_unit (uq + up) (value_of m a)"
    and "\<forall>a. \<bar>dval (value_of m a)\<bar> < 10 powi (33 - (uq + up))"
    and "\<bar>dval g\<bar> + sum_list (map (\<lambda>e. \<bar>pending (snd e)\<bar>) working) < 10 powi (33 - (uq + up))"
    and "\<bar>dval n\<bar> + sum_list (map (\<lambda>e. \<bar>pending (snd e)\<bar>) working) < 10 powi (33 - (uq + up))"
  shows "at_unit (uq + up) g' \<and> at_unit (uq + up) n' \<and> dval g' = dval g + sum_list (map (added_gross m) working) \<and>
    dval n' = dval n + sum_list (map (\<lambda>e. pending (snd e)) working)"
  using assms
proof (induction working arbitrary: g n sp)
  case Nil
  then show ?case by simp
next
  case (Cons e working)
  obtain a w where e: "e = (a, w)" by (cases e)
  obtain g1 n1 sp1 where step: "commit_working ACCOUNTING_CONTEXT m (g, n, sp) (a, w) = Inr (g1, n1, sp1)"
      and rest: "rfold (commit_working ACCOUNTING_CONTEXT m) (g1, n1, sp1) working = Inr (g', n', sp')"
    using Cons.prems(1) by (auto simp: e rbind_eq_Inr)
  have nn: "0 \<le> sum_list (map (\<lambda>e. \<bar>pending (snd e)\<bar>) working)" by (intro sum_list_nonneg) auto
  have su: "\<bar>dval g\<bar> + \<bar>pending w\<bar> + sum_list (map (\<lambda>e. \<bar>pending (snd e)\<bar>) working) < 10 powi (33 - (uq + up))"
      "\<bar>dval n\<bar> + \<bar>pending w\<bar> + sum_list (map (\<lambda>e. \<bar>pending (snd e)\<bar>) working) < 10 powi (33 - (uq + up))"
    using Cons.prems(8,9) by (simp_all add: e)
  have S: "at_unit (uq + up) g1" "at_unit (uq + up) n1" "dval g1 = dval g + added_gross m (a, w)" "dval n1 = dval n + pending w"
    using commit_step_exact [OF step Cons.prems(2) _ _ Cons.prems(4,5)] Cons.prems(3,6,7) su nn
    by (auto simp: e)
  have b: "\<bar>added_gross m (a, w)\<bar> \<le> \<bar>pending w\<bar>" using added_gross_le [of m "(a, w)"] by simp
  have "\<bar>dval g1\<bar> + sum_list (map (\<lambda>e. \<bar>pending (snd e)\<bar>) working) < 10 powi (33 - (uq + up))"
    "\<bar>dval n1\<bar> + sum_list (map (\<lambda>e. \<bar>pending (snd e)\<bar>) working) < 10 powi (33 - (uq + up))"
    using su b S(3,4) by linarith+
  from Cons.IH [OF rest Cons.prems(2) _ S(1,2) Cons.prems(6,7) this] Cons.prems(3) S(3,4) show ?case by (simp add: e)
qed

text \<open>A sum over the entries of a dictionary is a sum over its keys.\<close>

lemma od_sum:
  fixes f :: "'k \<Rightarrow> 'v \<Rightarrow> rat"
  shows "od_ok m \<Longrightarrow> sum_list (map (\<lambda>e. f (fst e) (snd e)) m) = (\<Sum>a \<in> set (od_keys m). f a (the (od_get m a)))"
proof (induction m)
  case Nil
  then show ?case by (simp add: od_keys_def)
next
  case (Cons e m)
  obtain k v where e: "e = (k, v)" by (cases e)
  from Cons.prems have m: "od_ok m" "k \<notin> set (od_keys m)" by (simp_all add: od_ok_def od_keys_def e)
  have "(\<Sum>a \<in> set (od_keys m). f a (the (od_get m a))) = (\<Sum>a \<in> set (od_keys m). f a (the (od_get (e # m) a)))"
    using m(2) by (intro sum.cong) (auto simp: e od_get_Cons)
  with Cons.IH [OF m(1)] m(2) show ?case by (simp add: e od_keys_def od_get_Cons)
qed

lemma value_of_key: "a \<notin> set (od_keys m) \<Longrightarrow> value_of m a = dec_zero"
  by (metis od_get_None option.simps(4) value_of_def)

lemma values_sum:
  fixes f :: "decimal \<Rightarrow> rat"
  assumes "od_ok m" "finite K" "set (od_keys m) \<subseteq> K" "f dec_zero = 0"
  shows "sum_list (map f (od_values m)) = (\<Sum>a \<in> K. f (value_of m a))"
proof -
  have "sum_list (map f (od_values m)) = (\<Sum>a \<in> set (od_keys m). f (the (od_get m a)))"
    using od_sum [OF assms(1), of "\<lambda>a. f"] by (simp add: od_values_def comp_def)
  also have "\<dots> = (\<Sum>a \<in> set (od_keys m). f (value_of m a))"
    by (intro sum.cong) (auto simp: value_of_def dest: od_key_get)
  also have "\<dots> = (\<Sum>a \<in> K. f (value_of m a))"
    using assms by (intro sum.mono_neutral_left) (auto simp: value_of_key)
  finally show ?thesis .
qed

lemma work_value_key: "a \<notin> set (od_keys w) \<Longrightarrow> work_value w a = 0"
  by (metis od_get_None option.simps(4) work_value_def)

lemma working_sum:
  fixes f :: "string \<Rightarrow> rat \<Rightarrow> rat"
  assumes "od_ok w" "finite K" "set (od_keys w) \<subseteq> K" "\<And>a. f a 0 = 0"
  shows "sum_list (map (\<lambda>e. f (fst e) (pending (snd e))) w) = (\<Sum>a \<in> K. f a (work_value w a))"
proof -
  have "sum_list (map (\<lambda>e. f (fst e) (pending (snd e))) w) = (\<Sum>a \<in> set (od_keys w). f a (pending (the (od_get w a))))"
    using od_sum [OF assms(1), of "\<lambda>a x. f a (pending x)"] by simp
  also have "\<dots> = (\<Sum>a \<in> set (od_keys w). f a (work_value w a))"
    by (intro sum.cong) (auto simp: work_value_def pending_def dest: od_key_get)
  also have "\<dots> = (\<Sum>a \<in> K. f a (work_value w a))"
  proof (intro sum.mono_neutral_left)
    show "\<forall>a \<in> K - set (od_keys w). f a (work_value w a) = 0"
      using assms(4) by (auto simp: work_value_key)
  qed (use assms in auto)
  finally show ?thesis .
qed

lemma committed_sums:
  assumes x: "book_exact uq up x w" and K: "finite K" "set (od_keys (asset_exposure x)) \<subseteq> K" "set (od_keys w) \<subseteq> K"
  shows "dval (gross_exposure x) + sum_list (map (added_gross (asset_exposure x)) w) = (\<Sum>a \<in> K. \<bar>book_value x w a\<bar>)"
    and "dval (net_exposure x) + sum_list (map (\<lambda>e. pending (snd e)) w) = (\<Sum>a \<in> K. book_value x w a)"
proof -
  have ok: "od_ok (asset_exposure x)" "od_ok w"
    and g: "dval (gross_exposure x) = sum_list (map (\<lambda>v. \<bar>dval v\<bar>) (od_values (asset_exposure x)))"
    and n: "dval (net_exposure x) = sum_list (map dval (od_values (asset_exposure x)))"
    using x by (simp_all add: book_exact_def)
  let ?v = "\<lambda>a. dval (value_of (asset_exposure x) a)"
  have "sum_list (map (added_gross (asset_exposure x)) w) = (\<Sum>a \<in> K. \<bar>?v a + work_value w a\<bar> - \<bar>?v a\<bar>)"
    using working_sum [OF ok(2) K(1,3), of "\<lambda>a y. \<bar>?v a + y\<bar> - \<bar>?v a\<bar>"] by (simp add: added_gross_def [abs_def])
  moreover have "dval (gross_exposure x) = (\<Sum>a \<in> K. \<bar>?v a\<bar>)"
    using values_sum [OF ok(1) K(1,2), of "\<lambda>v. \<bar>dval v\<bar>"] g by simp
  ultimately show "dval (gross_exposure x) + sum_list (map (added_gross (asset_exposure x)) w) = (\<Sum>a \<in> K. \<bar>book_value x w a\<bar>)"
    by (simp add: book_value_def sum_subtractf)
  have "sum_list (map (\<lambda>e. pending (snd e)) w) = (\<Sum>a \<in> K. work_value w a)"
    using working_sum [OF ok(2) K(1,3), of "\<lambda>a y. y"] by simp
  moreover have "dval (net_exposure x) = (\<Sum>a \<in> K. ?v a)"
    using values_sum [OF ok(1) K(1,2), of dval] n by simp
  ultimately show "dval (net_exposure x) + sum_list (map (\<lambda>e. pending (snd e)) w) = (\<Sum>a \<in> K. book_value x w a)"
    by (simp add: book_value_def sum.distrib)
qed

lemma value_at_most_gross:
  assumes "book_exact uq up x w"
  shows "\<bar>dval (value_of (asset_exposure x) a)\<bar> \<le> dval (gross_exposure x)"
proof -
  let ?K = "insert a (set (od_keys (asset_exposure x)))"
  have "dval (gross_exposure x) = (\<Sum>a \<in> ?K. \<bar>dval (value_of (asset_exposure x) a)\<bar>)"
    using assms values_sum [of "asset_exposure x" ?K "\<lambda>v. \<bar>dval v\<bar>"] by (auto simp: book_exact_def)
  moreover have "\<bar>dval (value_of (asset_exposure x) a)\<bar> \<le> (\<Sum>a \<in> ?K. \<bar>dval (value_of (asset_exposure x) a)\<bar>)"
    by (rule member_le_sum) auto
  ultimately show ?thesis by simp
qed

lemma value_of_unit: "book_exact uq up x w \<Longrightarrow> at_unit (uq + up) (value_of (asset_exposure x) a)"
  by (auto simp: book_exact_def value_of_def list_all_iff split: option.splits dest!: od_get_values)

lemma added_gross_total: "\<bar>sum_list (map (added_gross m) w)\<bar> \<le> sum_list (map (\<lambda>e. \<bar>pending (snd e)\<bar>) w)"
proof (induction w)
  case (Cons e w)
  then show ?case using added_gross_le [of m e] by simp
qed simp

lemma pending_total: "\<bar>sum_list (map (\<lambda>e. pending (snd e)) w)\<bar> \<le> sum_list (map (\<lambda>e. \<bar>pending (snd e)\<bar>) w)"
  by (induction w) auto

lemma work_value_total: "\<bar>work_value w a\<bar> \<le> sum_list (map (\<lambda>e. \<bar>pending (snd e)\<bar>) w)"
proof (induction w)
  case (Cons e w)
  have "0 \<le> sum_list (map (\<lambda>e. \<bar>pending (snd e)\<bar>) w)" by (intro sum_list_nonneg) auto
  with Cons show ?case by (cases e) (auto simp: work_value_def od_get_Cons pending_def)
qed (simp add: work_value_def)

lemma signed_exactly:
  assumes "signed_quantity ACCOUNTING_CONTEXT r = Inr q" "at_unit uq (rq_quantity r)" "unit_range uq"
    "\<bar>signed_value r\<bar> < 10 powi (34 - uq)"
  shows "at_unit uq q" "dval q = signed_value r"
proof -
  have "at_unit uq q \<and> dval q = signed_value r"
  proof (cases "rq_side r = BUY")
    case True
    with assms(1,2) show ?thesis by (simp add: signed_quantity_def signed_value_def)
  next
    case False
    with assms(1,4) have "dec_neg ACCOUNTING_CONTEXT (rq_quantity r) = Inr q" "\<bar>dval (rq_quantity r)\<bar> < 10 powi (34 - uq)"
      by (simp_all add: signed_quantity_def signed_value_def)
    from neg_exactly [OF this(1) assms(2,3) this(2)] False show ?thesis by (simp add: signed_value_def)
  qed
  then show "at_unit uq q" "dval q = signed_value r" by simp_all
qed

text \<open>The order's own steps: what it makes of the asset's value and of the totals.\<close>

lemma order_steps_exact:
  assumes s: "dec_mul ACCOUNTING_CONTEXT signed price = Inr ov" "dec_add ACCOUNTING_CONTEXT cv ov = Inr pv"
      "dec_abs ACCOUNTING_CONTEXT cv = Inr c" "dec_sub ACCOUNTING_CONTEXT gross c = Inr others"
      "dec_abs ACCOUNTING_CONTEXT pv = Inr v" "dec_add ACCOUNTING_CONTEXT others v = Inr pg"
      "dec_add ACCOUNTING_CONTEXT net ov = Inr pn"
    and u: "unit_range (uq + up)" and un: "at_unit uq signed" "at_unit up price" "at_unit (uq + up) cv"
      "at_unit (uq + up) gross" "at_unit (uq + up) net"
    and b: "\<bar>dval signed * dval price\<bar> < 10 powi (33 - (uq + up))" "\<bar>dval cv\<bar> < 10 powi (33 - (uq + up))"
      "\<bar>dval gross\<bar> < 10 powi (33 - (uq + up))" "\<bar>dval net\<bar> < 10 powi (33 - (uq + up))"
  shows "dval pg = dval gross - \<bar>dval cv\<bar> + \<bar>dval cv + dval signed * dval price\<bar>"
    "dval pn = dval net + dval signed * dval price"
proof -
  note ten = ten_small [of "uq + up", symmetric]
  have ov: "at_unit (uq + up) ov" "dval ov = dval signed * dval price"
    using mul_exactly [OF s(1) un(1,2) u] b(1) unfolding ten by linarith+
  have pv: "at_unit (uq + up) pv" "dval pv = dval cv + dval ov"
    using add_exactly [OF s(2) un(3) ov(1) u] b(1,2) unfolding ten ov(2) by linarith+
  have c: "at_unit (uq + up) c" "dval c = \<bar>dval cv\<bar>"
    using abs_exactly [OF s(3) un(3) u] b(2) unfolding ten by linarith+
  have ot: "at_unit (uq + up) others" "dval others = dval gross - \<bar>dval cv\<bar>"
    using sub_exactly [OF s(4) un(4) c(1) u] b unfolding ten c(2) by linarith+
  have v: "at_unit (uq + up) v" "dval v = \<bar>dval cv + dval ov\<bar>"
    using abs_exactly [OF s(5) pv(1) u] b unfolding ten pv(2) ov(2) by linarith+
  show "dval pg = dval gross - \<bar>dval cv\<bar> + \<bar>dval cv + dval signed * dval price\<bar>"
    using add_exactly [OF s(6) ot(1) v(1) u] b unfolding ten ot(2) v(2) ov(2) by linarith
  show "dval pn = dval net + dval signed * dval price"
    using add_exactly [OF s(7) un(5) ov(1) u] b unfolding ten ov(2) by linarith
qed

lemma one_changed:
  fixes f :: "string \<Rightarrow> rat"
  assumes "finite K" "a \<in> K"
  shows "(\<Sum>b \<in> K. \<bar>f b + (if b = a then y else 0)\<bar>) = (\<Sum>b \<in> K. \<bar>f b\<bar>) - \<bar>f a\<bar> + \<bar>f a + y\<bar>"
    "(\<Sum>b \<in> K. f b + (if b = a then y else 0)) = (\<Sum>b \<in> K. f b) + y"
proof -
  have "(\<Sum>b \<in> K - {a}. \<bar>f b + (if b = a then y else 0)\<bar>) = (\<Sum>b \<in> K - {a}. \<bar>f b\<bar>)" by (intro sum.cong) auto
  then show "(\<Sum>b \<in> K. \<bar>f b + (if b = a then y else 0)\<bar>) = (\<Sum>b \<in> K. \<bar>f b\<bar>) - \<bar>f a\<bar> + \<bar>f a + y\<bar>"
    using sum.remove [OF assms, of "\<lambda>b. \<bar>f b + (if b = a then y else 0)\<bar>"] sum.remove [OF assms, of "\<lambda>b. \<bar>f b\<bar>"] by simp
  show "(\<Sum>b \<in> K. f b + (if b = a then y else 0)) = (\<Sum>b \<in> K. f b) + y"
    using assms by (simp add: sum.distrib)
qed

lemma committed_exactly:
  assumes "book_exact uq up (rs_exposure s) w" "at_unit uq position"
    and "\<bar>dval position\<bar> + \<bar>work_quantity w a\<bar> < 10 powi (34 - uq)"
    and "(case od_get w a of None \<Rightarrow> Inr position | Some y \<Rightarrow> dec_add ACCOUNTING_CONTEXT position (we_quantity y)) = Inr c"
  shows "at_unit uq c" "dval c = dval position + work_quantity w a"
proof -
  have "at_unit uq c \<and> dval c = dval position + work_quantity w a"
  proof (cases "od_get w a")
    case None
    with assms(2,4) show ?thesis by (simp add: work_quantity_def)
  next
    case (Some y)
    have y: "at_unit uq (we_quantity y)" "unit_range uq"
      using assms(1) od_get_values [OF Some] by (auto simp: book_exact_def list_all_iff)
    have "\<bar>dval position + dval (we_quantity y)\<bar> < 10 powi (34 - uq)" using assms(3) Some by (simp add: work_quantity_def)
    with add_exactly [OF _ assms(2) y(1) y(2)] assms(4) Some show ?thesis by (simp add: work_quantity_def)
  qed
  then show "at_unit uq c" "dval c = dval position + work_quantity w a" by simp_all
qed

lemma committed_value_exactly:
  assumes x: "book_exact uq up x w" and u: "unit_range (uq + up)"
    and small: "\<bar>dval (value_of (asset_exposure x) a)\<bar> + \<bar>work_value w a\<bar> < 10 powi (33 - (uq + up))"
    and run: "(case od_get w a of None \<Rightarrow> Inr (value_of (asset_exposure x) a)
      | Some y \<Rightarrow> rbind (dec_mul ACCOUNTING_CONTEXT (we_quantity y) (we_price y))
          (dec_add ACCOUNTING_CONTEXT (value_of (asset_exposure x) a))) = Inr c"
  shows "at_unit (uq + up) c" "dval c = book_value x w a"
proof -
  note ten = ten_small [of "uq + up", symmetric]
  have "at_unit (uq + up) c \<and> dval c = book_value x w a"
  proof (cases "od_get w a")
    case None
    with run value_of_unit [OF x, of a] show ?thesis by (simp add: book_value_def work_value_def)
  next
    case (Some y)
    have y: "at_unit uq (we_quantity y)" "at_unit up (we_price y)"
      using x od_get_values [OF Some] by (auto simp: book_exact_def list_all_iff)
    obtain z where z: "dec_mul ACCOUNTING_CONTEXT (we_quantity y) (we_price y) = Inr z"
        "dec_add ACCOUNTING_CONTEXT (value_of (asset_exposure x) a) z = Inr c"
      using run Some by (auto simp: rbind_eq_Inr)
    have wv: "work_value w a = dval (we_quantity y) * dval (we_price y)" using Some by (simp add: work_value_def)
    have Z: "at_unit (uq + up) z" "dval z = work_value w a"
      using mul_exactly [OF z(1) y u] small unfolding ten wv by linarith+
    show ?thesis
      using add_exactly [OF z(2) value_of_unit [OF x] Z(1) u] small unfolding ten Z(2) book_value_def by linarith
  qed
  then show "at_unit (uq + up) c" "dval c = book_value x w a" by simp_all
qed

lemma projection_sums:
  assumes run: "projected_book s r i = Inr p" and x: "book_exact uq up (rs_exposure s) (gi_working i)"
    and price: "at_unit up (case gi_price i of None \<Rightarrow> rq_price r | Some y \<Rightarrow> y)"
    and q: "at_unit uq (rq_quantity r)" "at_unit uq (gi_position i)"
    and small: "turnover (rs_exposure s) (gi_working i) (signed_value r * dval (pj_price p)) < 10 powi (33 - (uq + up))"
    and small_q: "\<bar>dval (gi_position i)\<bar> + \<bar>work_quantity (gi_working i) (rq_asset_id r)\<bar> + \<bar>signed_value r\<bar> < 10 powi (34 - uq)"
  shows "dval (committed_position p) = dval (gi_position i) + work_quantity (gi_working i) (rq_asset_id r) \<and>
    dval (projected_position p) = dval (committed_position p) + signed_value r \<and>
    (let K = assets (rs_exposure s) (gi_working i) (rq_asset_id r);
         before = book_value (rs_exposure s) (gi_working i);
         after = (\<lambda>a. before a + (if a = rq_asset_id r then signed_value r * dval (pj_price p) else 0)) in
     dval (committed_gross p) = (\<Sum>a \<in> K. \<bar>before a\<bar>) \<and> dval (projected_gross p) = (\<Sum>a \<in> K. \<bar>after a\<bar>) \<and>
     dval (committed_net p) = (\<Sum>a \<in> K. before a) \<and> dval (projected_net p) = (\<Sum>a \<in> K. after a))"
proof (rule projectE [OF run [unfolded projected_book_def]])
  let ?x = "rs_exposure s" and ?w = "gi_working i" and ?a = "rq_asset_id r"
  let ?m = "asset_exposure ?x" and ?u = "uq + up"
  define pr where "pr = (case gi_price i of None \<Rightarrow> rq_price r | Some y \<Rightarrow> y)"
  fix signed gross net spent committed projected cv ov pv c others v pg pn g inc available
  assume h: "signed_quantity ACCOUNTING_CONTEXT r = Inr signed"
    "rfold (commit_working ACCOUNTING_CONTEXT ?m) (gross_exposure ?x, net_exposure ?x, dec_zero) ?w = Inr (gross, net, spent)"
    "(case od_get ?w ?a of None \<Rightarrow> Inr (gi_position i)
      | Some w \<Rightarrow> dec_add ACCOUNTING_CONTEXT (gi_position i) (we_quantity w)) = Inr committed"
    "dec_add ACCOUNTING_CONTEXT committed signed = Inr projected"
    "(case od_get ?w ?a of None \<Rightarrow> Inr (value_of ?m ?a)
      | Some w \<Rightarrow> rbind (dec_mul ACCOUNTING_CONTEXT (we_quantity w) (we_price w))
          (dec_add ACCOUNTING_CONTEXT (value_of ?m ?a))) = Inr cv"
    "dec_mul ACCOUNTING_CONTEXT signed (case gi_price i of None \<Rightarrow> rq_price r | Some y \<Rightarrow> y) = Inr ov"
    "dec_add ACCOUNTING_CONTEXT cv ov = Inr pv"
    "dec_abs ACCOUNTING_CONTEXT cv = Inr c" "dec_sub ACCOUNTING_CONTEXT gross c = Inr others"
    "dec_abs ACCOUNTING_CONTEXT pv = Inr v" "dec_add ACCOUNTING_CONTEXT others v = Inr pg"
    "dec_add ACCOUNTING_CONTEXT net ov = Inr pn"
  assume p: "p = \<lparr>pj_asset_id = ?a, order_quantity = signed, pj_price = (case gi_price i of None \<Rightarrow> rq_price r | Some y \<Rightarrow> y),
          committed_position = committed, projected_position = projected, committed_gross = gross,
          projected_gross = pg, committed_net = net, projected_net = pn,
          increasing_notional = inc, available_buying_power = available, pj_nav = current_nav s,
          margin_requirement = map_option fst (gi_margin i), margin_equity = map_option snd (gi_margin i)\<rparr>"
  define K where "K = assets ?x ?w ?a"
  have K: "finite K" "set (od_keys ?m) \<subseteq> K" "set (od_keys ?w) \<subseteq> K" "?a \<in> K" by (auto simp: K_def assets_def)
  have ur: "unit_range uq" "unit_range ?u" using x by (simp_all add: book_exact_def)
  have gn: "at_unit ?u (gross_exposure ?x)" "at_unit ?u (net_exposure ?x)" using x by (simp_all add: book_exact_def)
  have wu: "at_unit uq (we_quantity w) \<and> at_unit up (we_price w)" if "od_get ?w a = Some w" for a w
    using x od_get_values [OF that] by (simp add: book_exact_def list_all_iff)
  have wall: "\<forall>(a, w) \<in> set ?w. at_unit uq (we_quantity w) \<and> at_unit up (we_price w)"
    using x by (auto simp: book_exact_def list_all_iff od_values_def)
  let ?B = "10 powi (33 - ?u) :: rat"
  note ten = ten_small [of ?u, symmetric]
  let ?W = "sum_list (map (\<lambda>e. \<bar>pending (snd e)\<bar>) ?w)" and ?o = "signed_value r * dval pr"
  have W: "?W = sum_list (map (\<lambda>(a, w). \<bar>dval (we_quantity w) * dval (we_price w)\<bar>) ?w)"
    by (simp add: pending_def case_prod_unfold)
  have tot: "\<bar>dval (gross_exposure ?x)\<bar> + \<bar>dval (net_exposure ?x)\<bar> + ?W + \<bar>?o\<bar> < ?B"
    using small by (simp add: turnover_def W p pr_def)
  have W0: "0 \<le> ?W" by (intro sum_list_nonneg) auto
  have val: "\<bar>dval (value_of ?m a)\<bar> < ?B" for a using value_at_most_gross [OF x, of a] tot W0 by linarith
  have acc: "at_unit ?u gross" "at_unit ?u net"
      "dval gross = dval (gross_exposure ?x) + sum_list (map (added_gross ?m) ?w)"
      "dval net = dval (net_exposure ?x) + sum_list (map (\<lambda>e. pending (snd e)) ?w)"
    using commit_all_exact [OF h(2) ur(2) wall gn] value_of_unit [OF x] val tot W0 by auto
  have o: "\<bar>?o\<bar> < ?B" and cb: "\<bar>dval (value_of ?m ?a)\<bar> + \<bar>work_value ?w ?a\<bar> < ?B"
    using tot W0 value_at_most_gross [OF x, of ?a] work_value_total [of ?w ?a] by linarith+
  have bounds: "\<bar>dval gross\<bar> < ?B" "\<bar>dval net\<bar> < ?B"
    using tot added_gross_total [of ?m ?w] pending_total [of ?w] unfolding acc(3,4) by linarith+
  have sq: "\<bar>signed_value r\<bar> < 10 powi (34 - uq)" "\<bar>dval (gi_position i)\<bar> + \<bar>work_quantity ?w ?a\<bar> < 10 powi (34 - uq)"
    using small_q by linarith+
  note Q = signed_exactly [OF h(1) q(1) ur(1) sq(1)]
  note C = committed_exactly [OF x q(2) sq(2) h(3)]
  have P: "dval projected = dval committed + signed_value r"
    using add_exactly(2) [OF h(4) C(1) Q(1) ur(1)] small_q unfolding C(2) Q(2) by linarith
  note V = committed_value_exactly [OF x ur(2) cb h(5)]
  have vb: "\<bar>dval cv\<bar> < ?B" using cb unfolding V(2) book_value_def by linarith
  have T: "dval pg = dval gross - \<bar>dval cv\<bar> + \<bar>dval cv + ?o\<bar>" "dval pn = dval net + ?o"
    using order_steps_exact [OF h(6-12) ur(2) Q(1) price V(1) acc(1,2) _ vb bounds] o by (simp_all add: Q(2) pr_def)
  note S = committed_sums [OF x K(1-3)]
  have fields: "pj_price p = pr" "committed_position p = committed" "projected_position p = projected"
      "committed_gross p = gross" "projected_gross p = pg" "committed_net p = net" "projected_net p = pn"
    by (simp_all add: p pr_def)
  show ?thesis
    unfolding Let_def K_def [symmetric] fields one_changed [OF K(1,4)]
    using C(2) P T acc(3,4) S V(2) by simp
qed

text \<open>C20: for figures within the context's precision, the projection the gate computes entry by entry is the
  whole book summed again: gross and net exposure over every asset held or worked, before and after the
  order, and the asset's position with its working orders and the order.\<close>

theorem projection_is_whole_book:
  assumes run: "projected_book s r i = Inr p" and x: "book_exact uq up (rs_exposure s) (gi_working i)"
    and price: "at_unit up (case gi_price i of None \<Rightarrow> rq_price r | Some y \<Rightarrow> y)"
    and q: "at_unit uq (rq_quantity r)" "at_unit uq (gi_position i)"
    and small: "turnover (rs_exposure s) (gi_working i) (signed_value r * dval (pj_price p)) < 10 powi (33 - (uq + up))"
    and small_q: "\<bar>dval (gi_position i)\<bar> + \<bar>work_quantity (gi_working i) (rq_asset_id r)\<bar> + \<bar>signed_value r\<bar> < 10 powi (34 - uq)"
  shows "dval (committed_position p) = dval (gi_position i) + work_quantity (gi_working i) (rq_asset_id r) \<and>
    dval (projected_position p) = dval (committed_position p) + signed_value r \<and>
    (let K = assets (rs_exposure s) (gi_working i) (rq_asset_id r);
         before = book_value (rs_exposure s) (gi_working i);
         after = (\<lambda>a. before a + (if a = rq_asset_id r then signed_value r * dval (pj_price p) else 0)) in
     dval (committed_gross p) = (\<Sum>a \<in> K. \<bar>before a\<bar>) \<and> dval (projected_gross p) = (\<Sum>a \<in> K. \<bar>after a\<bar>) \<and>
     dval (committed_net p) = (\<Sum>a \<in> K. before a) \<and> dval (projected_net p) = (\<Sum>a \<in> K. after a))"
  by (rule projection_sums [OF assms])

end
