(* ===== verification/Risk_Orders.thy ===== *)
theory Risk_Orders
  imports Risk_Book
begin

text \<open>
  Orders judged one after another. An approved order works until it fills, and the projection of the next
  one counts it, so that orders cannot jointly breach a limit that none of them breaches alone.
\<close>

section \<open>Orders judged one after another\<close>

text \<open>
  What the pipeline does with an approved order before anything fills: it works the order, so that the
  next projection counts its signed quantity with the others of its asset, at the asset's price.
\<close>

definition work_order ::
  "decimal \<Rightarrow> decimal \<Rightarrow> order_request \<Rightarrow> (string, working_exposure) od \<Rightarrow> (string, working_exposure) od res" where
  "work_order position price r working =
     rbind (signed_quantity ACCOUNTING_CONTEXT r) (\<lambda>signed.
     rbind (dec_add ACCOUNTING_CONTEXT
              (case od_get working (rq_asset_id r) of None \<Rightarrow> dec_zero | Some w \<Rightarrow> we_quantity w) signed) (\<lambda>q.
       Inr (od_set (rq_asset_id r) \<lparr>we_quantity = q, we_price = price, we_position = position, we_charge = None\<rparr> working)))"

definition judged_with :: "(string \<Rightarrow> decimal) \<Rightarrow> (string \<Rightarrow> decimal) \<Rightarrow> (string, working_exposure) od \<Rightarrow> order_request \<Rightarrow> gate_input" where
  "judged_with pos pr working r = \<lparr>gi_position = pos (rq_asset_id r), gi_price = Some (pr (rq_asset_id r)),
     gi_working = working, gi_buckets = [], gi_charge = None, gi_margin = None\<rparr>"

definition order_fits :: "int \<Rightarrow> int \<Rightarrow> (string \<Rightarrow> decimal) \<Rightarrow> (string \<Rightarrow> decimal) \<Rightarrow> risk_state \<Rightarrow> (string, working_exposure) od \<Rightarrow> order_request \<Rightarrow> bool" where
  "order_fits uq up pos pr s working r =
     (at_unit uq (rq_quantity r) \<and>
      turnover (rs_exposure s) working (signed_value r * dval (pr (rq_asset_id r))) < 10 powi (33 - (uq + up)) \<and>
      \<bar>dval (pos (rq_asset_id r))\<bar> + \<bar>work_quantity working (rq_asset_id r)\<bar> + \<bar>signed_value r\<bar> < 10 powi (34 - uq))"

inductive gate_run :: "int \<Rightarrow> int \<Rightarrow> (string \<Rightarrow> decimal) \<Rightarrow> (string \<Rightarrow> decimal) \<Rightarrow> risk_state \<Rightarrow> risk_state \<Rightarrow> (string, working_exposure) od \<Rightarrow> bool"
  for uq up pos pr s0 where
  nothing_working: "gate_run uq up pos pr s0 s0 []"
| judged: "gate_run uq up pos pr s0 s working \<Longrightarrow> order_fits uq up pos pr s working r \<Longrightarrow>
    evaluate sid did eid s r t (judged_with pos pr working r) = Inr (s', d) \<Longrightarrow>
    (if approved d then work_order (pos (rq_asset_id r)) (pr (rq_asset_id r)) r working else Inr working) = Inr working' \<Longrightarrow>
    gate_run uq up pos pr s0 s' working'"

text \<open>What holds of the working orders throughout.\<close>

definition entry_of_asset :: "(string \<Rightarrow> decimal) \<Rightarrow> (string \<Rightarrow> decimal) \<Rightarrow> string \<Rightarrow> working_exposure \<Rightarrow> bool" where
  "entry_of_asset pos pr a w = (we_price w = pr a \<and> we_position w = pos a \<and> we_charge w = None)"

definition worked_ok :: "int \<Rightarrow> int \<Rightarrow> (string \<Rightarrow> decimal) \<Rightarrow> (string \<Rightarrow> decimal) \<Rightarrow> risk_state \<Rightarrow> risk_state \<Rightarrow> (string, working_exposure) od \<Rightarrow> bool" where
  "worked_ok uq up pos pr s0 s working =
     (active_limits s = active_limits s0 \<and> rs_exposure s = rs_exposure s0 \<and> state_finite s \<and>
      book_exact uq up (rs_exposure s0) working \<and>
      (\<forall>a w. od_get working a = Some w \<longrightarrow> entry_of_asset pos pr a w))"

definition within_start :: "(string \<Rightarrow> decimal) \<Rightarrow> risk_state \<Rightarrow> (string, working_exposure) od \<Rightarrow> bool" where
  "within_start pos s working =
     ((\<forall>a. \<bar>dval (pos a) + work_quantity working a\<bar> \<le>
         max \<bar>dval (pos a)\<bar> (dval (pl_max_quantity (position_lim (active_limits s))))) \<and>
      (\<Sum>a \<in> set (od_keys (asset_exposure (rs_exposure s))) \<union> set (od_keys working).
         \<bar>book_value (rs_exposure s) working a\<bar>) \<le>
         max (dval (gross_exposure (rs_exposure s))) (dval (max_gross_exposure (exposure_lim (active_limits s)))))"

definition marks_given :: "int \<Rightarrow> int \<Rightarrow> (string \<Rightarrow> decimal) \<Rightarrow> (string \<Rightarrow> decimal) \<Rightarrow> bool" where
  "marks_given uq up pos pr = (\<forall>a. at_unit uq (pos a) \<and> exact_number (pos a) \<and> at_unit up (pr a))"

lemma od_all: "od_ok m \<Longrightarrow> list_all P (od_values m) \<longleftrightarrow> (\<forall>a v. od_get m a = Some v \<longrightarrow> P v)"
proof (induction m)
  case Nil
  then show ?case by (simp add: od_values_def)
next
  case (Cons e m)
  obtain k v where e: "e = (k, v)" by (cases e)
  from Cons.prems have m: "od_ok m" "od_get m k = None" by (simp_all add: od_ok_def od_keys_def e od_get_None)
  from Cons.IH [OF m(1)] m(2) show ?case by (auto simp: e od_values_def od_get_Cons split: if_splits)
qed

lemma worked_input:
  assumes ok: "worked_ok uq up pos pr s0 s working" and m: "marks_given uq up pos pr"
  shows "input_finite (judged_with pos pr working r)"
proof -
  have w: "working_finite w" if g: "od_get working a = Some w" for a w
    using ok m g od_get_values [OF g] at_unit_finite [of up "pr a"]
    by (auto simp: worked_ok_def marks_given_def entry_of_asset_def working_finite_def book_exact_def list_all_iff)
  have "od_ok working" using ok by (simp add: worked_ok_def book_exact_def)
  with w have "list_all working_finite (od_values working)" using od_all by blast
  with m at_unit_finite [of up "pr (rq_asset_id r)"] show ?thesis
    by (simp add: input_finite_def judged_with_def marks_given_def)
qed

lemma assets_sum:
  assumes "finite K" "set (od_keys (asset_exposure x)) \<union> set (od_keys w) \<subseteq> K"
  shows "(\<Sum>a \<in> K. \<bar>book_value x w a\<bar>) = (\<Sum>a \<in> set (od_keys (asset_exposure x)) \<union> set (od_keys w). \<bar>book_value x w a\<bar>)"
  using assms by (intro sum.mono_neutral_right) (auto simp: book_value_def value_of_key work_value_key)

lemma worked_step:
  assumes ok: "worked_ok uq up pos pr s0 s working" and m: "marks_given uq up pos pr"
    and fit: "order_fits uq up pos pr s working r"
    and run: "work_order (pos (rq_asset_id r)) (pr (rq_asset_id r)) r working = Inr working'"
  shows "worked_ok uq up pos pr s0 s working'"
    "work_quantity working' a = work_quantity working a + (if a = rq_asset_id r then signed_value r else 0)"
    "work_value working' a = work_value working a + (if a = rq_asset_id r then signed_value r * dval (pr a) else 0)"
    "set (od_keys working') = insert (rq_asset_id r) (set (od_keys working))"
proof -
  let ?a = "rq_asset_id r"
  let ?old = "case od_get working ?a of None \<Rightarrow> dec_zero | Some w \<Rightarrow> we_quantity w"
  have x: "book_exact uq up (rs_exposure s0) working" and en: "\<And>b w. od_get working b = Some w \<Longrightarrow> entry_of_asset pos pr b w"
    using ok by (simp_all add: worked_ok_def)
  have u: "unit_range uq" and okw: "od_ok working" using x by (simp_all add: book_exact_def)
  obtain signed q where s: "signed_quantity ACCOUNTING_CONTEXT r = Inr signed" "dec_add ACCOUNTING_CONTEXT ?old signed = Inr q"
      "working' = od_set ?a \<lparr>we_quantity = q, we_price = pr ?a, we_position = pos ?a, we_charge = None\<rparr> working"
    using run by (auto simp: work_order_def rbind_eq_Inr)
  have small: "\<bar>signed_value r\<bar> < 10 powi (34 - uq)" "\<bar>work_quantity working ?a + signed_value r\<bar> < 10 powi (34 - uq)"
      "at_unit uq (rq_quantity r)" using fit by (auto simp: order_fits_def)
  note Q = signed_exactly [OF s(1) small(3) u small(1)]
  have wu: "at_unit uq (we_quantity w)" if g: "od_get working b = Some w" for b w
    using x od_get_values [OF g] by (simp add: book_exact_def list_all_iff)
  have old: "at_unit uq ?old" "dval ?old = work_quantity working ?a"
    using wu [of ?a] u by (auto simp: work_quantity_def split: option.splits)
  have q: "at_unit uq q" "dval q = work_quantity working ?a + signed_value r"
    using add_exactly [OF s(2) old(1) Q(1) u] small(2) by (simp_all add: old(2) Q(2))
  have "list_all (\<lambda>w. at_unit uq (we_quantity w) \<and> at_unit up (we_price w)) (od_values working')"
  proof (subst od_all)
    show "od_ok working'" using okw by (simp add: s(3))
    show "\<forall>b w. od_get working' b = Some w \<longrightarrow> at_unit uq (we_quantity w) \<and> at_unit up (we_price w)"
      using q m en wu by (auto simp: s(3) marks_given_def entry_of_asset_def)
  qed
  then have "book_exact uq up (rs_exposure s0) working'" using x by (simp add: book_exact_def s(3))
  moreover have "\<forall>b w. od_get working' b = Some w \<longrightarrow> entry_of_asset pos pr b w"
    using en by (auto simp: s(3) entry_of_asset_def)
  ultimately show "worked_ok uq up pos pr s0 s working'" using ok by (simp add: worked_ok_def)
  show "work_quantity working' a = work_quantity working a + (if a = ?a then signed_value r else 0)"
    using q(2) by (simp add: s(3) work_quantity_def)
  show "work_value working' a = work_value working a + (if a = ?a then signed_value r * dval (pr a) else 0)"
    using q(2) en [of ?a] by (auto simp: s(3) work_value_def work_quantity_def entry_of_asset_def distrib_right split: option.splits)
  show "set (od_keys working') = insert ?a (set (od_keys working))" by (simp add: s(3))
qed

text \<open>One approved order keeps the book within its start or its limits.\<close>

lemma approved_step:
  assumes ok: "worked_ok uq up pos pr s0 s working" and m: "marks_given uq up pos pr"
    and fit: "order_fits uq up pos pr s working r" and start: "within_start pos s working"
    and run: "projected_book s r (judged_with pos pr working r) = Inr p" and adm: "admissible s r p []"
    and work: "work_order (pos (rq_asset_id r)) (pr (rq_asset_id r)) r working = Inr working'"
  shows "within_start pos s working'"
proof -
  let ?a = "rq_asset_id r" and ?x = "rs_exposure s" and ?v = "signed_value r * dval (pr (rq_asset_id r))"
  note W = worked_step [OF ok m fit work]
  have x: "book_exact uq up ?x working" using ok by (simp add: worked_ok_def)
  have price: "pj_price p = pr ?a" using run by (auto simp: projected_book_def judged_with_def elim!: projectE)
  define K where "K = assets ?x working ?a"
  have K: "finite K" by (simp add: K_def assets_def)
  have sub: "set (od_keys (asset_exposure ?x)) \<union> set (od_keys working) \<subseteq> K" by (auto simp: K_def assets_def)
  have P: "dval (committed_position p) = dval (pos ?a) + work_quantity working ?a"
      "dval (projected_position p) = dval (committed_position p) + signed_value r"
      "dval (committed_gross p) = (\<Sum>a \<in> K. \<bar>book_value ?x working a\<bar>)"
      "dval (projected_gross p) = (\<Sum>a \<in> K. \<bar>book_value ?x working a + (if a = ?a then ?v else 0)\<bar>)"
    using projection_sums [OF run, of uq up, unfolded price] x m fit
    by (simp_all add: judged_with_def marks_given_def order_fits_def Let_def K_def)
  have after: "book_value ?x working' a = book_value ?x working a + (if a = ?a then ?v else 0)" for a
    using W(3) [of a] by (simp add: book_value_def)
  have "\<bar>dval (pos a) + work_quantity working' a\<bar> \<le>
      max \<bar>dval (pos a)\<bar> (dval (pl_max_quantity (position_lim (active_limits s))))" for a
  proof (cases "a = ?a")
    case False
    with start W(2) [of a] show ?thesis by (simp add: within_start_def)
  next
    case True
    have before: "\<bar>dval (committed_position p)\<bar> \<le> max \<bar>dval (pos a)\<bar> (dval (pl_max_quantity (position_lim (active_limits s))))"
      using start P(1) True by (simp add: within_start_def)
    have now: "dval (pos a) + work_quantity working' a = dval (projected_position p)" using W(2) [of a] P(1,2) True by simp
    show ?thesis
    proof (cases "position_grows p")
      case True
      then have "\<bar>dval (projected_position p)\<bar> \<le> dval (pl_max_quantity (position_lim (active_limits s)))"
        using adm by (simp add: admissible_def position_within_def Let_def)
      with now show ?thesis by simp
    next
      case False
      then have "\<bar>dval (projected_position p)\<bar> \<le> \<bar>dval (committed_position p)\<bar>" by (simp add: position_grows_def Let_def)
      with now before show ?thesis by linarith
    qed
  qed
  moreover have "(\<Sum>a \<in> set (od_keys (asset_exposure ?x)) \<union> set (od_keys working'). \<bar>book_value ?x working' a\<bar>) \<le>
      max (dval (gross_exposure ?x)) (dval (max_gross_exposure (exposure_lim (active_limits s))))"
  proof -
    have "set (od_keys (asset_exposure ?x)) \<union> set (od_keys working') = K" using W(4) by (auto simp: K_def assets_def)
    then have g: "(\<Sum>a \<in> set (od_keys (asset_exposure ?x)) \<union> set (od_keys working'). \<bar>book_value ?x working' a\<bar>) =
        dval (projected_gross p)" using P(4) after by simp
    have "dval (committed_gross p) \<le> max (dval (gross_exposure ?x)) (dval (max_gross_exposure (exposure_lim (active_limits s))))"
      using start assets_sum [OF K sub] P(3) by (simp add: within_start_def)
    moreover have "dval (projected_gross p) \<le> dval (max_gross_exposure (exposure_lim (active_limits s)))" if "gross_grows p"
      using adm that by (simp add: admissible_def gross_within_def)
    ultimately show ?thesis unfolding g gross_grows_def by linarith
  qed
  ultimately show ?thesis by (simp add: within_start_def)
qed

lemma gate_run_ok:
  assumes run: "gate_run uq up pos pr s0 s working" and m: "marks_given uq up pos pr"
    and s0: "state_finite s0" "book_exact uq up (rs_exposure s0) []"
  shows "worked_ok uq up pos pr s0 s working \<and> within_start pos s working"
  using run
proof (induction rule: gate_run.induct)
  case nothing_working
  have "(\<Sum>a \<in> set (od_keys (asset_exposure (rs_exposure s0))). \<bar>book_value (rs_exposure s0) [] a\<bar>) = dval (gross_exposure (rs_exposure s0))"
    using committed_sums(1) [OF s0(2), of "set (od_keys (asset_exposure (rs_exposure s0)))"] by (simp add: od_keys_def)
  with s0 show ?case by (simp add: worked_ok_def within_start_def work_quantity_def od_keys_def)
next
  case (judged s working r sid did eid t s' d working')
  then have ok: "worked_ok uq up pos pr s0 s working" and st: "within_start pos s working" by simp_all
  obtain p vs bs e where E: "validate_order_request r = Inr ()" "projected_book s r (judged_with pos pr working r) = Inr p"
    "found (all_checks ACCOUNTING_CONTEXT r s p (gi_buckets (judged_with pos pr working r))) = Inr vs" "breaches s = Inr bs"
    "decide did eid r t s p vs bs = Inr (d, e)"
    "s' = s\<lparr>rs_history := rs_history s @ [d], rs_events := rs_events s @ [RiskCheckStarted sid t r, e]\<rparr>"
    using evaluateE [OF judged.hyps(3)] .
  have q: "is_finite (rq_quantity r)" using judged.hyps(2) at_unit_finite [of uq "rq_quantity r"] by (simp add: order_fits_def)
  have fin: "state_finite s" and i: "input_finite (judged_with pos pr working r)"
    using ok worked_input [OF ok m] by (simp_all add: worked_ok_def)
  have p: "projection_finite p" using project_finite [OF fin i q validated(2) [OF E(1) q] E(2)] .
  have same: "worked_ok uq up pos pr s0 s' w = worked_ok uq up pos pr s0 s w" "within_start pos s' w = within_start pos s w" for w
    by (simp_all add: E(6) worked_ok_def within_start_def state_finite_def)
  show ?case
  proof (cases "approved d")
    case False
    with judged.hyps(4) ok st same show ?thesis by simp
  next
    case True
    then have w: "work_order (pos (rq_asset_id r)) (pr (rq_asset_id r)) r working = Inr working'" using judged.hyps(4) by simp
    have "admissible s r p []"
      using True decide_approved [OF E(5)] checks_pass [OF p fin i q E(4) E(3)] by (simp add: judged_with_def)
    from approved_step [OF ok m judged.hyps(2) st E(2) this w] worked_step(1) [OF ok m judged.hyps(2) w] same
    show ?thesis by simp
  qed
qed

text \<open>C19: orders judged one after another, each approved one working before the next is judged, cannot jointly
  breach a limit none of them breaches alone: every asset's position with its working orders stays within
  the position it had or the position limit, and the gross exposure of the book with every working order
  within what it was or the gross limit.\<close>

theorem orders_cannot_jointly_breach:
  assumes "gate_run uq up pos pr s0 s working" "marks_given uq up pos pr" "state_finite s0" "book_exact uq up (rs_exposure s0) []"
  shows "\<bar>dval (pos a) + work_quantity working a\<bar> \<le>
      max \<bar>dval (pos a)\<bar> (dval (pl_max_quantity (position_lim (active_limits s0)))) \<and>
    (\<Sum>b \<in> set (od_keys (asset_exposure (rs_exposure s0))) \<union> set (od_keys working).
       \<bar>book_value (rs_exposure s0) working b\<bar>) \<le>
      max (dval (gross_exposure (rs_exposure s0))) (dval (max_gross_exposure (exposure_lim (active_limits s0))))"
proof -
  have ok: "worked_ok uq up pos pr s0 s working" and w: "within_start pos s working" using gate_run_ok [OF assms] by simp_all
  then have "active_limits s = active_limits s0" "rs_exposure s = rs_exposure s0" by (simp_all add: worked_ok_def)
  with w show ?thesis unfolding within_start_def by metis
qed

section \<open>Orders that reduce\<close>

lemma growth_zero:
  assumes "exact_number a" "exact_number b" "growth ACCOUNTING_CONTEXT a b = Inr g"
    and "\<bar>dval b\<bar> \<le> \<bar>dval a\<bar>" "\<not> (0 < dval a \<and> dval b < 0)" "\<not> (dval a < 0 \<and> 0 < dval b)"
  shows "dval g = 0"
proof -
  obtain x where x: "dec_abs ACCOUNTING_CONTEXT a = Inr x" "exact_number x" "dval x = \<bar>dval a\<bar>"
    using exact_number_abs [OF assms(1)] by blast
  obtain y where y: "dec_abs ACCOUNTING_CONTEXT b = Inr y" "exact_number y" "dval y = \<bar>dval b\<bar>"
    using exact_number_abs [OF assms(2)] by blast
  have "reverses a b = Inr False" using assms by (simp add: reverses_value)
  then obtain z where z: "dec_sub ACCOUNTING_CONTEXT y x = Inr z" "dec_max dec_zero z = Inr g"
    using assms(3) x(1) y(1) by (auto simp: growth_def rbind_eq_Inr)
  have fz: "is_finite z" using dec_sub_finite [OF _ _ z(1)] x(2) y(2) by simp
  have "dval z \<le> 0" using dec_sub_nonpos [OF z(1)] assms(4) x(2,3) y(2,3) by simp
  with z(2) fz show ?thesis by (auto simp: dec_max_finite split: if_splits)
qed

lemma increasing_zero:
  assumes run: "projected_book s r i = Inr p" and p: "projection_finite p" and no: "\<not> position_grows p"
    and ch: "gi_charge i = None"
  shows "dval (increasing_notional p) = 0"
proof (rule projectE [OF run [unfolded projected_book_def]])
  fix signed gross net spent committed projected cv ov pv c others v pg pn g inc available
  let ?price = "case gi_price i of None \<Rightarrow> rq_price r | Some y \<Rightarrow> y"
  assume g: "growth ACCOUNTING_CONTEXT committed projected = Inr g"
    and m: "dec_mul ACCOUNTING_CONTEXT g (case gi_charge i of None \<Rightarrow> ?price | Some y \<Rightarrow> y) = Inr inc"
    and pe: "p = \<lparr>pj_asset_id = rq_asset_id r, order_quantity = signed, pj_price = ?price,
      committed_position = committed, projected_position = projected, committed_gross = gross,
      projected_gross = pg, committed_net = net, projected_net = pn,
      increasing_notional = inc, available_buying_power = available, pj_nav = current_nav s,
      margin_requirement = map_option fst (gi_margin i), margin_equity = map_option snd (gi_margin i)\<rparr>"
  have ex: "exact_number committed" "exact_number projected" "is_finite ?price"
    using p by (simp_all add: projection_finite_def pe)
  have z: "dval g = 0" using growth_zero [OF ex(1,2) g] no by (auto simp: pe position_grows_def Let_def)
  have "dec_mul ACCOUNTING_CONTEXT g ?price = Inr inc" using m by (simp add: ch)
  from dec_mul_zero [OF this growth_finite [OF ex(1,2) g] ex(3) z] show ?thesis by (simp add: pe)
qed

text \<open>C21: An order that brings the position it is judged against towards zero without passing it is
  approved whatever breach the account is in and whatever its position, exposure, leverage, drawdown
  and daily-loss limits are, if it is within the order-size limit, if its value brings the asset's
  value in the book no further from zero -- as at any price up to twice what the position is valued
  at, and not at one far above it -- and if the net exposure it leaves is within the net limit or
  no larger than it was. The order is judged as one of an account with no margin model, no charge
  for the order and no classification buckets, whose working orders are priced at the marks.\<close>

theorem reducing_order_passes:
  assumes run: "evaluate sid did eid s r t (judged_with pos pr working r) = Inr (s', d)" and s: "state_finite s"
    and x: "book_exact uq up (rs_exposure s) working" "worked_ok uq up pos pr s s working" "marks_given uq up pos pr"
    and fit: "order_fits uq up pos pr s working r"
    and size: "dval (rq_quantity r) \<le> dval (os_max_quantity (order_size (active_limits s)))"
      "at_most (dec_mul ACCOUNTING_CONTEXT (rq_quantity r) (pr (rq_asset_id r))) (os_max_notional (order_size (active_limits s)))"
    and held: "c = dval (pos (rq_asset_id r)) + work_quantity working (rq_asset_id r)"
      "v = book_value (rs_exposure s) working (rq_asset_id r)"
      "\<bar>v + signed_value r * dval (pr (rq_asset_id r))\<bar> \<le> \<bar>v\<bar>"
    and reduces: "0 < c \<and> - c \<le> signed_value r \<and> signed_value r < 0 \<or> c < 0 \<and> signed_value r \<le> - c \<and> 0 < signed_value r"
    and net: "n = (\<Sum>a \<in> assets (rs_exposure s) working (rq_asset_id r). book_value (rs_exposure s) working a)"
      "\<bar>n + signed_value r * dval (pr (rq_asset_id r))\<bar> \<le> max \<bar>n\<bar> (dval (max_net_exposure (exposure_lim (active_limits s))))"
  shows "approved d"
proof -
  let ?i = "judged_with pos pr working r" and ?a = "rq_asset_id r" and ?x = "rs_exposure s"
  let ?q = "signed_value r" and ?p = "dval (pr (rq_asset_id r))"
  obtain p vs bs e where E: "validate_order_request r = Inr ()" "projected_book s r ?i = Inr p"
    "found (all_checks ACCOUNTING_CONTEXT r s p (gi_buckets ?i)) = Inr vs" "breaches s = Inr bs"
    "decide did eid r t s p vs bs = Inr (d, e)" using evaluateE [OF run] by metis
  have q: "is_finite (rq_quantity r)" using fit at_unit_finite [of uq "rq_quantity r"] by (simp add: order_fits_def)
  have i: "input_finite ?i" by (rule worked_input [OF x(2,3)])
  have p: "projection_finite p" using project_finite [OF s i q validated(2) [OF E(1) q] E(2)] .
  have price: "pj_price p = pr ?a" using E(2) by (auto simp: projected_book_def judged_with_def elim!: projectE)
  define K where "K = assets ?x working ?a"
  have K: "finite K" "?a \<in> K" by (simp_all add: K_def assets_def)
  have P: "dval (committed_position p) = c" "dval (projected_position p) = c + ?q"
      "dval (committed_gross p) = (\<Sum>a \<in> K. \<bar>book_value ?x working a\<bar>)"
      "dval (projected_gross p) = (\<Sum>a \<in> K. \<bar>book_value ?x working a\<bar>) - \<bar>v\<bar> + \<bar>v + ?q * ?p\<bar>"
      "dval (committed_net p) = n" "dval (projected_net p) = n + ?q * ?p"
    using projection_sums [OF E(2), of uq up, unfolded price] x(1,3) fit held(1,2) net(1) one_changed [OF K]
    by (simp_all add: judged_with_def marks_given_def order_fits_def Let_def K_def)
  have smaller: "\<bar>c + ?q\<bar> \<le> \<bar>c\<bar>" "\<not> (0 < c \<and> c + ?q < 0)" "\<not> (c < 0 \<and> 0 < c + ?q)" using reduces by auto
  then have "\<not> position_grows p" by (simp add: position_grows_def P Let_def)
  moreover have "\<not> gross_grows p" using held(3) by (simp add: gross_grows_def P)
  moreover have "dval (increasing_notional p) = 0"
    using increasing_zero [OF E(2) p] \<open>\<not> position_grows p\<close> by (simp add: judged_with_def)
  moreover have "size_within s r p" using size price by (simp add: size_within_def Let_def)
  ultimately have "admissible s r p []" using net(2) P(5,6) by (auto simp: admissible_def net_grows_def)
  then show ?thesis
    using decide_approved [OF E(5)] checks_pass [OF p s i q E(4) E(3)] by (simp add: judged_with_def)
qed

section \<open>A small account\<close>

definition example_limits :: risk_limits where
  "example_limits = \<lparr>order_size = \<lparr>os_max_quantity = Fin 60 0, os_max_notional = Fin 10000 0\<rparr>,
     position_lim = \<lparr>pl_max_quantity = Fin 100 0, pl_max_notional = Fin 10000 0\<rparr>,
     exposure_lim = \<lparr>max_gross_exposure = Fin 10000 0, max_net_exposure = Fin 9500 0\<rparr>,
     leverage_lim = \<lparr>max_leverage = Fin 1 0\<rparr>, margin_lim = \<lparr>max_margin_utilization = Fin 1 0\<rparr>,
     daily_loss_lim = None, drawdown_lim = \<lparr>max_drawdown_pct = Fin 2 (-1)\<rparr>, classification = []\<rparr>"

definition example_book :: exposure_status where
  "example_book = \<lparr>gross_exposure = Fin 4000 0, net_exposure = Fin 4000 0, long_exposure = Fin 4000 0,
     short_exposure = Fin 0 0, asset_exposure = [(''A'', Fin 4000 0)], sector_exposure = []\<rparr>"

definition example_gate :: risk_state where
  "example_gate = (risk_reset example_limits)\<lparr>rs_exposure := example_book, rs_cash := Fin 6000 0,
     buying_power := Fin 6000 0, peak_nav := Fin 10000 0, current_nav := Fin 10000 0\<rparr>"

definition plain_order :: "side \<Rightarrow> int \<Rightarrow> order_request" where
  "plain_order s q = \<lparr>rq_order_id = ''o'', rq_strategy_id = [], rq_asset_id = ''A'', rq_side = s,
     rq_quantity = Fin q 0, rq_price = Fin 100 0, rq_timestamp = FFin 0, rq_contributions = [],
     rq_terms = \<lparr>ot_type = MARKET, ot_limit = None, ot_stop = None, ot_tif = DAY, ot_expire = None\<rparr>\<rparr>"

definition example_pos :: "string \<Rightarrow> decimal" where "example_pos a = (if a = ''A'' then Fin 40 0 else dec_zero)"
definition example_pr :: "string \<Rightarrow> decimal" where "example_pr a = Fin 100 0"

lemmas gate_example = example_limits_def example_book_def example_gate_def plain_order_def example_pos_def example_pr_def
  risk_reset_def judged_with_def value_of_def od_get_Cons

lemma dec_zero_eval: "dec_fix ACCOUNTING_CONTEXT (Fin 0 0) = Inr (Fin 0 0)"
  by (simp add: dec_fix.simps(1))

lemma example_bought:
  "projected_book example_gate (plain_order BUY 50) (judged_with example_pos example_pr [] (plain_order BUY 50)) =
    Inr \<lparr>pj_asset_id = ''A'', order_quantity = Fin 50 0, pj_price = Fin 100 0, committed_position = Fin 40 0,
      projected_position = Fin 90 0, committed_gross = Fin 4000 0, projected_gross = Fin 9000 0,
      committed_net = Fin 4000 0, projected_net = Fin 9000 0, increasing_notional = Fin 5000 0,
      available_buying_power = Fin 6000 0, pj_nav = Fin 10000 0, margin_requirement = None, margin_equity = None\<rparr>"
  by (simp add: projected_book_def project_def signed_quantity_def growth_def reverses_def dec_max_def gate_example dec_eval)

lemma example_bought_checks:
  assumes "p = \<lparr>pj_asset_id = ''A'', order_quantity = Fin 50 0, pj_price = Fin 100 0, committed_position = Fin 40 0,
      projected_position = Fin 90 0, committed_gross = Fin 4000 0, projected_gross = Fin 9000 0,
      committed_net = Fin 4000 0, projected_net = Fin 9000 0, increasing_notional = Fin 5000 0,
      available_buying_power = Fin 6000 0, pj_nav = Fin 10000 0, margin_requirement = None, margin_equity = None\<rparr>"
  shows "found (all_checks ACCOUNTING_CONTEXT (plain_order BUY 50) example_gate p []) = Inr []"
proof -
  have g: "when_gross_grows p c = c" for c by (simp add: assms when_gross_grows_def dec_eval)
  have r: "refuse_ratio n v (Fin 9000 0) (Fin 10000 0) (Fin 1 0) = Inr None" for n v
    by (simp add: refuse_ratio_def refuse_above_def dec_eval)
  have i: "increases_exposure ACCOUNTING_CONTEXT p = Inr True" by (simp add: assms increases_exposure_def grows_def dec_eval)
  have b: "drawdown_breach example_gate = Inr None"
    by (simp add: drawdown_breach_def current_drawdown_pct_def dec_max_def refuse_above_def gate_example dec_eval)
  have "check_order_size (plain_order BUY 50) example_gate p = Inr None"
    by (simp add: check_order_size_def assms gate_example refuse_above_def dec_eval)
  moreover have "check_position_limit ACCOUNTING_CONTEXT example_gate p = Inr None"
    unfolding check_position_limit_def i
    by (simp add: assms gate_example refuse_above_def projected_position_value_def dec_eval)
  moreover have "check_margin example_gate p = Inr None" "check_leverage example_gate p = Inr None"
    unfolding check_margin_def check_leverage_def g by (simp_all add: assms gate_example r)
  moreover have "check_exposure example_gate p = Inr None"
    unfolding check_exposure_def g by (simp add: assms gate_example refuse_above_def dec_eval)
  moreover have "check_net_exposure ACCOUNTING_CONTEXT example_gate p = Inr None"
    by (simp add: check_net_exposure_def assms gate_example refuse_above_def dec_eval)
  moreover have "check_drawdown ACCOUNTING_CONTEXT example_gate p = Inr None"
    by (simp add: check_drawdown_def b refuse_growth_def)
  moreover have "check_daily_loss ACCOUNTING_CONTEXT example_gate p = Inr None"
    by (simp add: check_daily_loss_def refuse_growth_def daily_loss_breach_def gate_example)
  moreover have "check_buying_power p = Inr None" by (simp add: check_buying_power_def assms refuse_above_def dec_eval)
  ultimately show ?thesis by (simp add: found_Nil all_checks_def)
qed

lemma example_bought_run:
  "\<exists>s' d. evaluate ''s'' ''d'' ''e'' example_gate (plain_order BUY 50) (FFin 1)
      (judged_with example_pos example_pr [] (plain_order BUY 50)) = Inr (s', d) \<and> approved d"
proof -
  have v: "validate_order_request (plain_order BUY 50) = Inr ()"
    by (simp add: validate_order_request_def plain_order_def dec_eval)
  have b: "breaches example_gate = Inr []"
    by (simp add: breaches_def found_def drawdown_breach_def daily_loss_breach_def current_drawdown_pct_def dec_max_def
      refuse_above_def gate_example dec_eval List.map_filter_simps)
  have c: "gi_buckets (judged_with example_pos example_pr [] (plain_order BUY 50)) = []" by (simp add: judged_with_def)
  show ?thesis
    unfolding evaluate_def v example_bought rbind_Inr c b example_bought_checks [OF refl]
    by (simp add: decide_def approve_def dec_eval)
qed

lemmas example_figures = state_finite_def limits_finite_def input_finite_def exact_number_def fits.simps od_values_def
  dval.simps(1) dec_eval

lemma example_finite: "state_finite example_gate" "input_finite (judged_with example_pos example_pr [] (plain_order s q))"
    "is_finite (rq_quantity (plain_order s q))"
  by (simp_all add: example_figures gate_example)

theorem gate_is_exact_witness:
  "\<exists>p. projected_book example_gate (plain_order BUY 50) (judged_with example_pos example_pr [] (plain_order BUY 50)) = Inr p \<and>
    admissible example_gate (plain_order BUY 50) p []"
proof -
  obtain s' d where e: "evaluate ''s'' ''d'' ''e'' example_gate (plain_order BUY 50) (FFin 1)
      (judged_with example_pos example_pr [] (plain_order BUY 50)) = Inr (s', d)" "approved d"
    using example_bought_run by blast
  have b: "gi_buckets (judged_with example_pos example_pr [] (plain_order BUY 50)) = []" by (simp add: judged_with_def)
  from gate_is_exact [OF e(1) example_finite] e(2) show ?thesis unfolding b by blast
qed

lemma example_exact: "book_exact 0 0 (rs_exposure example_gate) []"
  by (simp add: book_exact_def MAX_MINOR_UNITS_def gate_example od_ok_def od_values_def od_keys_def dval.simps(1))

lemma example_marks: "marks_given 0 0 example_pos example_pr"
  by (simp add: marks_given_def gate_example exact_number_def num_digits.simps)

lemma example_fits: "order_fits 0 0 example_pos example_pr example_gate [] (plain_order BUY 50)"
  by (simp add: order_fits_def turnover_def signed_value_def gate_example work_quantity_def od_get_def dval.simps(1))

theorem projection_is_whole_book_witness:
  "(\<Sum>a \<in> {''A''}. \<bar>book_value (rs_exposure example_gate) [] a + (if a = ''A'' then 50 * 100 else 0)\<bar>) = 9000"
proof -
  have a: "assets (rs_exposure example_gate) [] (rq_asset_id (plain_order BUY 50)) = {''A''}"
    by (simp add: assets_def gate_example od_keys_def)
  have j: "at_unit 0 (case gi_price (judged_with example_pos example_pr [] (plain_order BUY 50)) of
      None \<Rightarrow> rq_price (plain_order BUY 50) | Some y \<Rightarrow> y)" "at_unit 0 (rq_quantity (plain_order BUY 50))"
    "at_unit 0 (gi_position (judged_with example_pos example_pr [] (plain_order BUY 50)))"
    "gi_working (judged_with example_pos example_pr [] (plain_order BUY 50)) = []"
    by (simp_all add: gate_example)
  have sv: "signed_value (plain_order BUY 50) = 50" "rq_asset_id (plain_order BUY 50) = ''A''"
    by (simp_all add: signed_value_def plain_order_def dval.simps(1))
  note T = projection_is_whole_book [OF example_bought, of 0 0, unfolded j(4) Let_def a, OF example_exact j(1-3)]
  have "turnover (rs_exposure example_gate) [] (50 * 100) < 10 powi 33"
    by (simp add: turnover_def gate_example dval.simps(1))
  moreover have "\<bar>dval (gi_position (judged_with example_pos example_pr [] (plain_order BUY 50)))\<bar> +
      \<bar>work_quantity [] ''A''\<bar> + \<bar>50\<bar> < 10 powi 34"
    by (simp add: gate_example work_quantity_def dval.simps(1))
  ultimately show ?thesis using T by (simp add: sv dval.simps(1))
qed

theorem orders_cannot_jointly_breach_witness:
  "\<exists>s working. gate_run 0 0 example_pos example_pr example_gate s working \<and> work_quantity working ''A'' = 50 \<and>
    \<bar>dval (example_pos ''A'') + work_quantity working ''A''\<bar> \<le> 100"
proof -
  obtain s' d where e: "evaluate ''s'' ''d'' ''e'' example_gate (plain_order BUY 50) (FFin 1)
      (judged_with example_pos example_pr [] (plain_order BUY 50)) = Inr (s', d)" "approved d"
    using example_bought_run by blast
  define w where "w = [(''A'', \<lparr>we_quantity = Fin 50 0, we_price = Fin 100 0, we_position = Fin 40 0, we_charge = None\<rparr>)]"
  have w: "work_order (example_pos (rq_asset_id (plain_order BUY 50))) (example_pr (rq_asset_id (plain_order BUY 50)))
      (plain_order BUY 50) [] = Inr w"
    by (simp add: work_order_def signed_quantity_def gate_example w_def dec_eval)
  have run: "gate_run 0 0 example_pos example_pr example_gate s' w"
    using gate_run.judged [OF gate_run.nothing_working example_fits e(1)] w e(2) by simp
  have "work_quantity w ''A'' = 50" by (simp add: w_def work_quantity_def od_get_Cons dval.simps(1))
  moreover have "\<bar>dval (example_pos ''A'') + work_quantity w ''A''\<bar> \<le> 100"
    using orders_cannot_jointly_breach [OF run example_marks example_finite(1) example_exact, of "''A''"]
    by (simp add: gate_example dval.simps(1))
  ultimately show ?thesis using run by blast
qed

text \<open>The same account after its value fell by half: past its drawdown limit, a sale is approved.\<close>

definition drawn_down :: risk_state where
  "drawn_down = example_gate\<lparr>peak_nav := Fin 20000 0\<rparr>"

lemma drawn_down_breach:
  "drawdown_breach drawn_down = Inr (violation ''DrawdownLimit'' SEVERITY_CRITICAL (Fin 5 (-1)) (Fin 2 (-1)))"
  by (simp add: drawdown_breach_def current_drawdown_pct_def dec_max_def refuse_above_def drawn_down_def gate_example dec_eval)

lemma example_sold_run:
  "\<exists>s' d. evaluate ''s'' ''d'' ''e'' drawn_down (plain_order SELL 10) (FFin 1)
      (judged_with example_pos example_pr [] (plain_order SELL 10)) = Inr (s', d)"
proof -
  define p where "p = \<lparr>pj_asset_id = ''A'', order_quantity = Fin (-10) 0, pj_price = Fin 100 0, committed_position = Fin 40 0,
      projected_position = Fin 30 0, committed_gross = Fin 4000 0, projected_gross = Fin 3000 0,
      committed_net = Fin 4000 0, projected_net = Fin 3000 0, increasing_notional = Fin 0 0,
      available_buying_power = Fin 6000 0, pj_nav = Fin 10000 0, margin_requirement = None, margin_equity = None\<rparr>"
  have p: "projected_book drawn_down (plain_order SELL 10) (judged_with example_pos example_pr [] (plain_order SELL 10)) = Inr p"
    by (simp add: projected_book_def project_def signed_quantity_def growth_def reverses_def dec_max_def drawn_down_def
      dec_neg_def p_def gate_example dec_eval)
  have v: "validate_order_request (plain_order SELL 10) = Inr ()"
    by (simp add: validate_order_request_def plain_order_def dec_eval)
  have i: "increases_exposure ACCOUNTING_CONTEXT p = Inr False"
    by (simp add: p_def increases_exposure_def grows_def reverses_def dec_eval)
  have g: "when_gross_grows p c = Inr None" for c by (simp add: p_def when_gross_grows_def dec_eval)
  have l: "daily_loss_breach drawn_down = Inr None" by (simp add: daily_loss_breach_def drawn_down_def gate_example)
  have c: "found (all_checks ACCOUNTING_CONTEXT (plain_order SELL 10) drawn_down p []) = Inr []"
    unfolding found_Nil all_checks_def check_margin_def check_exposure_def check_leverage_def g check_drawdown_def
      check_daily_loss_def refuse_growth_def drawn_down_breach l check_position_limit_def i
    by (simp add: check_order_size_def check_net_exposure_def check_buying_power_def refuse_above_def drawn_down_def
      p_def gate_example dec_eval)
  have b: "gi_buckets (judged_with example_pos example_pr [] (plain_order SELL 10)) = []" by (simp add: judged_with_def)
  have "\<exists>bs. breaches drawn_down = Inr bs" by (simp add: breaches_def found_def drawn_down_breach l)
  then obtain bs where bs: "breaches drawn_down = Inr bs" by blast
  show ?thesis
    unfolding evaluate_def v p rbind_Inr b c bs by (simp add: decide_def approve_def p_def dec_eval)
qed

theorem reducing_order_passes_witness:
  "\<exists>s' d. evaluate ''s'' ''d'' ''e'' drawn_down (plain_order SELL 10) (FFin 1)
      (judged_with example_pos example_pr [] (plain_order SELL 10)) = Inr (s', d) \<and> approved d \<and> \<not> drawdown_within drawn_down"
proof -
  obtain s' d where e: "evaluate ''s'' ''d'' ''e'' drawn_down (plain_order SELL 10) (FFin 1)
      (judged_with example_pos example_pr [] (plain_order SELL 10)) = Inr (s', d)"
    using example_sold_run by blast
  have f: "state_finite drawn_down" by (simp add: example_figures gate_example drawn_down_def)
  have x: "book_exact 0 0 (rs_exposure drawn_down) []" using example_exact by (simp add: drawn_down_def)
  have w: "worked_ok 0 0 example_pos example_pr drawn_down drawn_down []" using x f by (simp add: worked_ok_def)
  have fit: "order_fits 0 0 example_pos example_pr drawn_down [] (plain_order SELL 10)"
    by (simp add: order_fits_def turnover_def signed_value_def gate_example drawn_down_def work_quantity_def od_get_def dval.simps(1))
  have n: "\<not> drawdown_within drawn_down" using drawdown_breach_None [OF f] by (simp add: drawn_down_breach violation_def)
  have a: "assets (rs_exposure drawn_down) [] (rq_asset_id (plain_order SELL 10)) = {''A''}"
    by (simp add: assets_def gate_example drawn_down_def od_keys_def)
  have "approved d"
  proof (rule reducing_order_passes [OF e f x w example_marks fit _ _ refl refl _ _ refl])
    show "dval (rq_quantity (plain_order SELL 10)) \<le> dval (os_max_quantity (order_size (active_limits drawn_down)))"
      by (simp add: drawn_down_def gate_example dval.simps(1))
    show "at_most (dec_mul ACCOUNTING_CONTEXT (rq_quantity (plain_order SELL 10)) (example_pr (rq_asset_id (plain_order SELL 10))))
        (os_max_notional (order_size (active_limits drawn_down)))"
      by (simp add: at_most_def drawn_down_def gate_example dec_eval dval.simps(1))
  qed (simp_all add: a, simp_all add: book_value_def work_value_def work_quantity_def signed_value_def drawn_down_def gate_example
      od_get_def dval.simps(1))
  with e n show ?thesis by blast
qed

text \<open>
  The net limit alone can refuse an order that reduces: in a book that is net short, selling part of a
  long position makes the net exposure larger.
\<close>

definition hedged :: risk_state where
  "hedged = example_gate\<lparr>rs_exposure := example_book\<lparr>gross_exposure := Fin 13000 0, net_exposure := Fin (-5000) 0,
     asset_exposure := [(''A'', Fin 4000 0), (''B'', Fin (-9000) 0)]\<rparr>,
     active_limits := example_limits\<lparr>exposure_lim := \<lparr>max_gross_exposure = Fin 20000 0, max_net_exposure = Fin 5500 0\<rparr>\<rparr>\<rparr>"

lemma reducing_order_refused:
  "\<exists>p. projected_book hedged (plain_order SELL 10) (judged_with example_pos example_pr [] (plain_order SELL 10)) = Inr p \<and>
    \<not> position_grows p \<and> \<not> gross_grows p \<and>
    check_net_exposure ACCOUNTING_CONTEXT hedged p =
      Inr (violation ''NetExposureLimit'' SEVERITY_HIGH (Fin 6000 0) (Fin 5500 0))"
proof -
  have "projected_book hedged (plain_order SELL 10) (judged_with example_pos example_pr [] (plain_order SELL 10)) =
    Inr \<lparr>pj_asset_id = ''A'', order_quantity = Fin (-10) 0, pj_price = Fin 100 0, committed_position = Fin 40 0,
      projected_position = Fin 30 0, committed_gross = Fin 13000 0, projected_gross = Fin 12000 0,
      committed_net = Fin (-5000) 0, projected_net = Fin (-6000) 0, increasing_notional = Fin 0 0,
      available_buying_power = Fin 6000 0, pj_nav = Fin 10000 0, margin_requirement = None, margin_equity = None\<rparr>"
    by (simp add: projected_book_def project_def signed_quantity_def growth_def reverses_def dec_max_def hedged_def
      dec_neg_def gate_example dec_eval)
  then show ?thesis
    by (simp add: position_grows_def gross_grows_def check_net_exposure_def refuse_above_def hedged_def gate_example
      dval.simps(1) dec_eval)
qed

end
