(* ===== verification/Risk_Records.thy ===== *)
theory Risk_Records
  imports Risk_Gate
begin

text \<open>
  What the gate keeps: through any order of marks, evaluations and updates the high-water mark, the
  buying power, the trading day, the value it began at and the loss of the day are what the marks say,
  and the decisions in the history are the decisions the events announce.
\<close>

datatype risk_op =
    Mark_op decimal decimal pyfloat
  | Evaluate_op string string string order_request pyfloat gate_input
  | Margin_op string margin_status pyfloat
  | Exposure_op string exposure_status pyfloat

fun risk_step :: "(string \<Rightarrow> pyfloat \<Rightarrow> int res) \<Rightarrow> risk_op \<Rightarrow> risk_state \<Rightarrow> risk_state res" where
  "risk_step wall_clock (Mark_op nav cash t) s = mark wall_clock s nav cash t"
| "risk_step wall_clock (Evaluate_op sid did eid r t i) s = rbind (evaluate sid did eid s r t i) (\<lambda>(s', d). Inr s')"
| "risk_step wall_clock (Margin_op eid m t) s = Inr (update_margin eid s m t)"
| "risk_step wall_clock (Exposure_op eid x t) s = Inr (update_exposure eid s x t)"

fun finite_mark :: "risk_op \<Rightarrow> bool" where
  "finite_mark (Mark_op nav cash t) = (is_finite nav \<and> is_finite cash)"
| "finite_mark _ = True"

text \<open>A run carries its marks: each value marked, with its instant.\<close>

fun marks_of :: "risk_op \<Rightarrow> (decimal \<times> pyfloat) list" where
  "marks_of (Mark_op nav cash t) = [(nav, t)]"
| "marks_of _ = []"

abbreviation navs_of :: "(decimal \<times> pyfloat) list \<Rightarrow> rat list" where
  "navs_of marks \<equiv> map (\<lambda>(nav, t). dval nav) marks"

inductive risk_run ::
  "(string \<Rightarrow> pyfloat \<Rightarrow> int res) \<Rightarrow> risk_limits \<Rightarrow> (decimal \<times> pyfloat) list \<Rightarrow> risk_state \<Rightarrow> bool" for wall_clock limits where
  fresh: "risk_run wall_clock limits [] (risk_reset limits)"
| step: "risk_run wall_clock limits marks s \<Longrightarrow> finite_mark act \<Longrightarrow> risk_step wall_clock act s = Inr s' \<Longrightarrow>
    risk_run wall_clock limits (marks @ marks_of act) s'"

text \<open>The decisions the events announce, in order.\<close>

fun announced :: "risk_event \<Rightarrow> (string \<times> string \<times> bool) option" where
  "announced (RiskApproved eid t did oid) = Some (did, oid, True)"
| "announced (RiskRejected eid t did oid why) = Some (did, oid, False)"
| "announced _ = None"

definition records_agree :: "risk_state \<Rightarrow> bool" where
  "records_agree s =
     (map (\<lambda>d. (decision_id d, rd_order_id d, approved d)) (rs_history s) = List.map_filter announced (rs_events s) \<and>
      list_all (\<lambda>d. approved d = (rd_violations d = [])) (rs_history s))"

text \<open>The loss of the day: what the value fell since the day began, never negative.\<close>

definition loss_agrees :: "risk_state \<Rightarrow> bool" where
  "loss_agrees s =
     (case (daily_loss_lim (active_limits s), day_start_nav s) of
        (Some l, Some start) \<Rightarrow>
          (case dec_sub ACCOUNTING_CONTEXT start (current_nav s) of
             Inl e \<Rightarrow> False | Inr fall \<Rightarrow> dval (daily_loss s) = max 0 (dval fall))
      | _ \<Rightarrow> dval (daily_loss s) = 0)"

text \<open>
  The value the newest day of a list of marks began at, the marks newest first and each with its day:
  the last value of the day before, or the first value of all when there was no day before.
\<close>

fun began :: "(int \<times> decimal) list \<Rightarrow> decimal option" where
  "began [] = None"
| "began [(day, nav)] = Some nav"
| "began ((day, nav) # (day', nav') # ms) = (if day' = day then began ((day', nav') # ms) else Some nav')"

definition day_agrees ::
  "(string \<Rightarrow> pyfloat \<Rightarrow> int res) \<Rightarrow> risk_limits \<Rightarrow> (decimal \<times> pyfloat) list \<Rightarrow> risk_state \<Rightarrow> bool" where
  "day_agrees wall_clock limits marks s =
     (case daily_loss_lim limits of
        None \<Rightarrow> trading_day s = None \<and> day_start_nav s = None
      | Some l \<Rightarrow> \<exists>days. rmap (\<lambda>(nav, t). trading_day_of wall_clock l t) marks = Inr days \<and>
          trading_day s = (if days = [] then None else Some (last days)) \<and>
          day_start_nav s = began (rev (zip days (map fst marks))))"

definition gate_ok ::
  "(string \<Rightarrow> pyfloat \<Rightarrow> int res) \<Rightarrow> risk_limits \<Rightarrow> (decimal \<times> pyfloat) list \<Rightarrow> risk_state \<Rightarrow> bool" where
  "gate_ok wall_clock limits marks s =
     (active_limits s = limits \<and>
      list_all is_finite [rs_cash s, buying_power s, peak_nav s, current_nav s, daily_loss s] \<and>
      pred_option is_finite (day_start_nav s) \<and> (trading_day s = None \<longleftrightarrow> day_start_nav s = None) \<and>
      (marks \<noteq> [] \<longrightarrow> current_nav s = fst (last marks)) \<and> day_agrees wall_clock limits marks s \<and>
      dval (current_nav s) = last (0 # navs_of marks) \<and> dval (peak_nav s) = Max (set (0 # navs_of marks)) \<and>
      dval (buying_power s) = max 0 (dval (rs_cash s)) \<and> loss_agrees s \<and>
      (daily_loss_lim limits = None \<longrightarrow> day_start_nav s = None) \<and> records_agree s)"

lemma loss_agrees_same:
  assumes "active_limits s' = active_limits s" "day_start_nav s' = day_start_nav s" "current_nav s' = current_nav s"
    "daily_loss s' = daily_loss s"
  shows "loss_agrees s' = loss_agrees s"
  unfolding loss_agrees_def assms ..

lemma day_agrees_same:
  assumes "trading_day s' = trading_day s" "day_start_nav s' = day_start_nav s"
  shows "day_agrees wall_clock limits marks s' = day_agrees wall_clock limits marks s"
  unfolding day_agrees_def assms ..

lemma rmap_snoc: "rmap f (xs @ [x]) = rbind (rmap f xs) (\<lambda>ys. rbind (f x) (\<lambda>y. Inr (ys @ [y])))"
  by (induction xs) (auto simp: rbind_def split: sum.split)

lemma rmap_length: "rmap f xs = Inr ys \<Longrightarrow> length ys = length xs"
  by (induction xs arbitrary: ys) (auto simp: rbind_eq_Inr)

lemma map_filter_snoc: "List.map_filter f (xs @ ys) = List.map_filter f xs @ List.map_filter f ys"
  by (simp add: List.map_filter_def)

lemma evaluate_keeps:
  assumes "gate_ok wall_clock limits marks s" "evaluate sid did eid s r t i = Inr (s', d)"
  shows "gate_ok wall_clock limits marks s'"
proof -
  obtain p vs bs e where D: "decide did eid r t s p vs bs = Inr (d, e)"
    "s' = s\<lparr>rs_history := rs_history s @ [d], rs_events := rs_events s @ [RiskCheckStarted sid t r, e]\<rparr>"
    using evaluateE [OF assms(2)] by metis
  have "announced e = Some (decision_id d, rd_order_id d, approved d)" "approved d = (rd_violations d = [])"
    using D(1) by (auto simp: decide_def approve_def reject_def rbind_eq_Inr Let_def split: if_splits)
  moreover have "loss_agrees s' = loss_agrees s" by (rule loss_agrees_same) (simp_all add: D(2))
  moreover have "day_agrees wall_clock limits marks s' = day_agrees wall_clock limits marks s"
    by (rule day_agrees_same) (simp_all add: D(2))
  ultimately show ?thesis using assms(1)
    by (simp add: gate_ok_def records_agree_def D(2) map_filter_snoc List.map_filter_simps)
qed

lemma update_keeps:
  assumes "gate_ok wall_clock limits marks s"
  shows "gate_ok wall_clock limits marks (update_margin eid s m t)" "gate_ok wall_clock limits marks (update_exposure eid s x t)"
proof -
  have "loss_agrees (update_margin eid s m t) = loss_agrees s" "loss_agrees (update_exposure eid s x t) = loss_agrees s"
    by (rule loss_agrees_same; simp add: update_margin_def update_exposure_def)+
  moreover have "day_agrees wall_clock limits marks (update_margin eid s m t) = day_agrees wall_clock limits marks s"
      "day_agrees wall_clock limits marks (update_exposure eid s x t) = day_agrees wall_clock limits marks s"
    by (rule day_agrees_same; simp add: update_margin_def update_exposure_def)+
  ultimately show "gate_ok wall_clock limits marks (update_margin eid s m t)" "gate_ok wall_clock limits marks (update_exposure eid s x t)"
    using assms by (simp_all add: gate_ok_def update_margin_def update_exposure_def records_agree_def
      map_filter_snoc List.map_filter_simps)
qed

lemma mark_result:
  assumes run: "mark wall_clock s nav cash t = Inr s'" and fin: "is_finite nav" "is_finite cash" and ok: "gate_ok wall_clock limits marks s"
  obtains day start loss where
    "s' = s\<lparr>rs_cash := cash, buying_power := (if 0 < dval cash then cash else zero_cents), current_nav := nav,
       peak_nav := (if dval (peak_nav s) < dval nav then nav else peak_nav s), daily_loss := loss,
       trading_day := day, day_start_nav := start\<rparr>"
    "daily_loss_lim limits = None \<Longrightarrow> day = trading_day s \<and> start = day_start_nav s \<and> loss = zero_cents"
    "\<And>l. daily_loss_lim limits = Some l \<Longrightarrow> \<exists>d st fall. day = Some d \<and> start = Some st \<and> is_finite st \<and>
       day_of_mark wall_clock s l nav t = Inr (d, st) \<and>
       dec_sub ACCOUNTING_CONTEXT st nav = Inr fall \<and> loss = (if 0 < dval fall then fall else zero_cents)"
proof -
  have al: "active_limits s = limits" "is_finite (peak_nav s)" "is_finite (current_nav s)" "pred_option is_finite (day_start_nav s)"
    using ok by (simp_all add: gate_ok_def)
  obtain day start loss where m: "(case daily_loss_lim limits of
              None \<Rightarrow> Inr (trading_day s, day_start_nav s, zero_cents)
            | Some limit \<Rightarrow>
                rbind (day_of_mark wall_clock s limit nav t) (\<lambda>(today, start).
                rbind (dec_sub ACCOUNTING_CONTEXT start nav) (\<lambda>fall.
                rbind (dec_max zero_cents fall) (\<lambda>loss. Inr (Some today, Some start, loss))))) = Inr (day, start, loss)"
    and s': "s' = s\<lparr>rs_cash := cash, buying_power := (if 0 < dval cash then cash else zero_cents), current_nav := nav,
       peak_nav := (if dval (peak_nav s) < dval nav then nav else peak_nav s), daily_loss := loss,
       trading_day := day, day_start_nav := start\<rparr>"
    using run fin al by (auto simp: mark_def rbind_eq_Inr dec_max_finite split: prod.splits)
  show thesis
  proof (rule that [OF s'])
    assume "daily_loss_lim limits = None"
    with m show "day = trading_day s \<and> start = day_start_nav s \<and> loss = zero_cents" by simp
  next
    fix l
    assume "daily_loss_lim limits = Some l"
    with m obtain today st fall where f: "day_of_mark wall_clock s l nav t = Inr (today, st)"
        "dec_sub ACCOUNTING_CONTEXT st nav = Inr fall" "dec_max zero_cents fall = Inr loss" "day = Some today" "start = Some st"
      by (auto simp: rbind_eq_Inr split: prod.splits)
    have st: "is_finite st"
      using f(1) fin al by (auto simp: day_of_mark_def rbind_eq_Inr split: if_splits option.splits)
    have "is_finite fall" using dec_sub_finite [OF st fin(1) f(2)] .
    with f st show "\<exists>d st fall. day = Some d \<and> start = Some st \<and> is_finite st \<and>
       day_of_mark wall_clock s l nav t = Inr (d, st) \<and> dec_sub ACCOUNTING_CONTEXT st nav = Inr fall \<and> loss = (if 0 < dval fall then fall else zero_cents)"
      by (auto simp: dec_max_finite)
  qed
qed

text \<open>A mark moves the day on as the marks say.\<close>

lemma day_moves:
  assumes ok: "gate_ok wall_clock limits marks s" and l: "daily_loss_lim limits = Some l"
    and d: "day_of_mark wall_clock s l nav t = Inr (day, start)"
    and s': "trading_day s' = Some day" "day_start_nav s' = Some start"
  shows "day_agrees wall_clock limits (marks @ [(nav, t)]) s'"
proof -
  from ok l obtain days where days: "rmap (\<lambda>(nav, t). trading_day_of wall_clock l t) marks = Inr days"
      "trading_day s = (if days = [] then None else Some (last days))"
      "day_start_nav s = began (rev (zip days (map fst marks)))"
    and now: "marks \<noteq> [] \<longrightarrow> current_nav s = fst (last marks)"
    by (auto simp: gate_ok_def day_agrees_def)
  have len: "length days = length marks" using rmap_length [OF days(1)] .
  have today: "trading_day_of wall_clock l t = Inr day" using d by (auto simp: day_of_mark_def rbind_eq_Inr split: if_splits option.splits)
  then have "rmap (\<lambda>(nav, t). trading_day_of wall_clock l t) (marks @ [(nav, t)]) = Inr (days @ [day])"
    by (simp add: rmap_snoc days(1))
  moreover have "began (rev (zip (days @ [day]) (map fst (marks @ [(nav, t)])))) = Some start"
  proof (cases "marks = []")
    case True
    then show ?thesis using len d today days(2) by (auto simp: day_of_mark_def)
  next
    case False
    then obtain ms m u ds d0 where m: "marks = ms @ [(m, u)]" "days = ds @ [d0]" "length ds = length ms"
      using len by (cases marks rule: rev_cases; cases days rule: rev_cases) auto
    then show ?thesis using d today days(2,3) now by (auto simp: day_of_mark_def split: if_splits option.splits)
  qed
  ultimately show ?thesis using l s' by (auto simp: day_agrees_def)
qed

lemma mark_keeps:
  assumes ok: "gate_ok wall_clock limits marks s" and run: "mark wall_clock s nav cash t = Inr s'"
    and fin: "is_finite nav" "is_finite cash"
  shows "gate_ok wall_clock limits (marks @ [(nav, t)]) s'"
proof (rule mark_result [OF run fin ok])
  fix day start loss
  assume s': "s' = s\<lparr>rs_cash := cash, buying_power := (if 0 < dval cash then cash else zero_cents), current_nav := nav,
       peak_nav := (if dval (peak_nav s) < dval nav then nav else peak_nav s), daily_loss := loss,
       trading_day := day, day_start_nav := start\<rparr>"
    and none: "daily_loss_lim limits = None \<Longrightarrow> day = trading_day s \<and> start = day_start_nav s \<and> loss = zero_cents"
    and lim: "\<And>l. daily_loss_lim limits = Some l \<Longrightarrow> \<exists>d st fall. day = Some d \<and> start = Some st \<and> is_finite st \<and>
       day_of_mark wall_clock s l nav t = Inr (d, st) \<and> dec_sub ACCOUNTING_CONTEXT st nav = Inr fall \<and> loss = (if 0 < dval fall then fall else zero_cents)"
  have old: "active_limits s = limits" "is_finite (peak_nav s)" "dval (peak_nav s) = Max (set (0 # navs_of marks))"
      "trading_day s = None \<longleftrightarrow> day_start_nav s = None" "daily_loss_lim limits = None \<longrightarrow> day_start_nav s = None"
      "records_agree s" "day_agrees wall_clock limits marks s" using ok by (simp_all add: gate_ok_def)
  let ?navs = "navs_of marks" and ?navs' = "navs_of (marks @ [(nav, t)])"
  have "set (0 # ?navs') = insert (dval nav) (set (0 # ?navs))" by auto
  then have "Max (set (0 # ?navs')) = max (dval nav) (Max (set (0 # ?navs)))"
    by (simp only: Max_insert [OF finite_set, of "0 # ?navs"]) simp
  then have peak: "dval (peak_nav s') = Max (set (0 # ?navs'))" unfolding old(3) [symmetric]
    by (simp add: s' max_def)
  have loss: "loss_agrees s' \<and> is_finite loss \<and> pred_option is_finite start \<and> (day = None \<longleftrightarrow> start = None) \<and>
      (daily_loss_lim limits = None \<longrightarrow> start = None) \<and> day_agrees wall_clock limits (marks @ [(nav, t)]) s'"
  proof (cases "daily_loss_lim limits")
    case None
    with none old show ?thesis by (auto simp: s' loss_agrees_def day_agrees_def)
  next
    case (Some l)
    obtain d st fall where f: "day = Some d" "start = Some st" "is_finite st"
       "day_of_mark wall_clock s l nav t = Inr (d, st)"
       "dec_sub ACCOUNTING_CONTEXT st nav = Inr fall" "loss = (if 0 < dval fall then fall else zero_cents)"
      using lim [OF Some] by blast
    have "day_agrees wall_clock limits (marks @ [(nav, t)]) s'"
      by (rule day_moves [OF ok Some f(4)]) (simp_all add: s' f(1,2))
    moreover have "is_finite fall" using dec_sub_finite [OF f(3) fin(1) f(5)] .
    ultimately show ?thesis using f Some old(1) by (auto simp: s' loss_agrees_def)
  qed
  have "records_agree s'" "active_limits s' = limits" "trading_day s' = day" "day_start_nav s' = start"
    "list_all is_finite [rs_cash s', buying_power s', peak_nav s', current_nav s', daily_loss s']"
    "dval (current_nav s') = last (0 # ?navs')" "marks @ [(nav, t)] \<noteq> [] \<longrightarrow> current_nav s' = fst (last (marks @ [(nav, t)]))" "dval (buying_power s') = max 0 (dval (rs_cash s'))"
    using old loss fin by (simp_all add: s' records_agree_def)
  with peak loss show ?thesis unfolding gate_ok_def by (intro conjI) simp_all
qed

lemma risk_run_ok: "risk_run wall_clock limits marks s \<Longrightarrow> gate_ok wall_clock limits marks s"
proof (induction rule: risk_run.induct)
  case fresh
  then show ?case
    by (simp add: gate_ok_def risk_reset_def records_agree_def loss_agrees_def day_agrees_def List.map_filter_simps split: option.splits)
next
  case (step marks s act s')
  then show ?case
    by (cases act) (auto simp: rbind_eq_Inr update_keeps intro: mark_keeps evaluate_keeps)
qed

text \<open>What the state says of the day, spelt out.\<close>

lemma began_None: "began ms = None \<longleftrightarrow> ms = []"
  by (induction ms rule: began.induct) auto

lemma loss_of_the_day:
  assumes ok: "gate_ok wall_clock limits marks s"
  shows "case daily_loss_lim limits of
       None \<Rightarrow> dval (daily_loss s) = 0
     | Some l \<Rightarrow> \<exists>days. rmap (\<lambda>(nav, t). trading_day_of wall_clock l t) marks = Inr days \<and>
         trading_day s = (if days = [] then None else Some (last days)) \<and>
         day_start_nav s = began (rev (zip days (map fst marks))) \<and>
         (case began (rev (zip days (map fst marks))) of
            None \<Rightarrow> marks = [] \<and> dval (daily_loss s) = 0
          | Some start \<Rightarrow> \<exists>fall. dec_sub ACCOUNTING_CONTEXT start (current_nav s) = Inr fall \<and>
              dval (daily_loss s) = max 0 (dval fall))"
proof (cases "daily_loss_lim limits")
  case None
  then show ?thesis using ok by (auto simp: gate_ok_def loss_agrees_def)
next
  case (Some l)
  from ok Some obtain days where days: "rmap (\<lambda>(nav, t). trading_day_of wall_clock l t) marks = Inr days"
      "trading_day s = (if days = [] then None else Some (last days))"
      "day_start_nav s = began (rev (zip days (map fst marks)))"
    by (auto simp: gate_ok_def day_agrees_def)
  have loss: "loss_agrees s" "active_limits s = limits" using ok by (simp_all add: gate_ok_def)
  have empty: "began (rev (zip days (map fst marks))) = None \<Longrightarrow> marks = []"
    using rmap_length [OF days(1)] by (auto simp: began_None zip_eq_Nil_iff)
  show ?thesis
  proof (cases "day_start_nav s")
    case None
    with Some days empty loss show ?thesis by (simp add: loss_agrees_def)
  next
    case start: (Some start)
    with loss Some obtain fall where "dec_sub ACCOUNTING_CONTEXT start (current_nav s) = Inr fall"
        "dval (daily_loss s) = max 0 (dval fall)"
      by (auto simp: loss_agrees_def split: sum.splits)
    moreover have "began (rev (zip days (map fst marks))) = Some start" using days(3) start by simp
    ultimately show ?thesis using Some days by auto
  qed
qed

text \<open>C22: Through any marks, evaluations and updates, the high-water mark is the largest value marked and
  never below the current one, and the buying power is the cash and never negative. Under a
  daily-loss limit the gate stands in the trading day of the last mark, and the loss of the day is
  what the value fell, to that mark, from the last value marked on the day before -- from the first
  value marked when there was no day before -- and never negative; without such a limit no loss is
  kept. The history's decisions are exactly those the events announce, each approved exactly when it
  names no violation.\<close>

theorem gate_records_agree:
  assumes "risk_run wall_clock limits marks s"
  shows "dval (peak_nav s) = Max (set (0 # navs_of marks)) \<and> dval (current_nav s) = last (0 # navs_of marks) \<and>
    dval (current_nav s) \<le> dval (peak_nav s) \<and> dval (buying_power s) = max 0 (dval (rs_cash s)) \<and>
    (case daily_loss_lim limits of
       None \<Rightarrow> dval (daily_loss s) = 0
     | Some l \<Rightarrow> \<exists>days. rmap (\<lambda>(nav, t). trading_day_of wall_clock l t) marks = Inr days \<and>
         trading_day s = (if days = [] then None else Some (last days)) \<and>
         day_start_nav s = began (rev (zip days (map fst marks))) \<and>
         (case began (rev (zip days (map fst marks))) of
            None \<Rightarrow> marks = [] \<and> dval (daily_loss s) = 0
          | Some start \<Rightarrow> \<exists>fall. dec_sub ACCOUNTING_CONTEXT start (current_nav s) = Inr fall \<and>
              dval (daily_loss s) = max 0 (dval fall))) \<and>
    0 \<le> dval (daily_loss s) \<and> loss_agrees s \<and>
    map (\<lambda>d. (decision_id d, rd_order_id d, approved d)) (rs_history s) = List.map_filter announced (rs_events s) \<and>
    list_all (\<lambda>d. approved d = (rd_violations d = [])) (rs_history s)"
proof -
  have ok: "gate_ok wall_clock limits marks s" by (rule risk_run_ok [OF assms])
  have "last (0 # navs_of marks) \<in> set (0 # navs_of marks)" by (rule last_in_set) simp
  then have "last (0 # navs_of marks) \<le> Max (set (0 # navs_of marks))" by (intro Max_ge) simp_all
  moreover have "0 \<le> dval (daily_loss s)"
    using ok by (auto simp: gate_ok_def loss_agrees_def split: option.splits sum.splits)
  moreover note loss_of_the_day [OF ok]
  ultimately show ?thesis using ok by (simp add: gate_ok_def records_agree_def)
qed

definition quiet_limits :: risk_limits where
  "quiet_limits = \<lparr>order_size = \<lparr>os_max_quantity = Fin 60 0, os_max_notional = Fin 10000 0\<rparr>,
     position_lim = \<lparr>pl_max_quantity = Fin 100 0, pl_max_notional = Fin 10000 0\<rparr>,
     exposure_lim = \<lparr>max_gross_exposure = Fin 10000 0, max_net_exposure = Fin 9500 0\<rparr>,
     leverage_lim = \<lparr>max_leverage = Fin 1 0\<rparr>, margin_lim = \<lparr>max_margin_utilization = Fin 1 0\<rparr>,
     daily_loss_lim = Some \<lparr>max_daily_loss = Fin 500 0, dl_zone = ''UTC'', day_start = 0\<rparr>,
     drawdown_lim = \<lparr>max_drawdown_pct = Fin 2 (-1)\<rparr>, classification = []\<rparr>"

text \<open>Three marks over two days: a clock that counts seconds, and a day of 86400 of them.\<close>

definition second_clock :: "string \<Rightarrow> pyfloat \<Rightarrow> int res" where
  "second_clock zone t = (case t of FFin r \<Rightarrow> Inr (\<lfloor>r\<rfloor> * 1000000) | _ \<Rightarrow> Inl ValueError)"

definition fell_twice :: risk_state where
  "fell_twice = (risk_reset quiet_limits)\<lparr>rs_cash := Fin (-5) 0, buying_power := zero_cents, current_nav := Fin 850 0,
     peak_nav := Fin 1000 0, daily_loss := Fin 50 0, trading_day := Some 1, day_start_nav := Some (Fin 900 0)\<rparr>"

lemma fell_twice_run:
  "risk_run second_clock quiet_limits
     [(Fin 1000 0, FFin 10), (Fin 900 0, FFin 20), (Fin 870 0, FFin 86410), (Fin 850 0, FFin 86420)] fell_twice"
proof -
  define st where "st = (\<lambda>cash power nav loss day start. (risk_reset quiet_limits)\<lparr>rs_cash := cash, buying_power := power,
     current_nav := nav, peak_nav := Fin 1000 0, daily_loss := loss, trading_day := Some day, day_start_nav := Some start\<rparr>)"
  note ev = mark_def day_of_mark_def trading_day_of_def dec_max_def risk_reset_def quiet_limits_def second_clock_def
    DAY_MICROSECONDS_def st_def
  have s1: "risk_step second_clock (Mark_op (Fin 1000 0) (Fin 1000 0) (FFin 10)) (risk_reset quiet_limits) =
      Inr (st (Fin 1000 0) (Fin 1000 0) (Fin 1000 0) zero_cents 0 (Fin 1000 0))"
    by (simp add: ev dec_eval)
  have s2: "risk_step second_clock (Mark_op (Fin 900 0) (Fin 900 0) (FFin 20))
      (st (Fin 1000 0) (Fin 1000 0) (Fin 1000 0) zero_cents 0 (Fin 1000 0)) =
      Inr (st (Fin 900 0) (Fin 900 0) (Fin 900 0) (Fin 100 0) 0 (Fin 1000 0))"
    by (simp add: ev dec_eval)
  have s3: "risk_step second_clock (Mark_op (Fin 870 0) (Fin 900 0) (FFin 86410))
      (st (Fin 900 0) (Fin 900 0) (Fin 900 0) (Fin 100 0) 0 (Fin 1000 0)) =
      Inr (st (Fin 900 0) (Fin 900 0) (Fin 870 0) (Fin 30 0) 1 (Fin 900 0))"
    by (simp add: ev dec_eval)
  have s4: "risk_step second_clock (Mark_op (Fin 850 0) (Fin (-5) 0) (FFin 86420))
      (st (Fin 900 0) (Fin 900 0) (Fin 870 0) (Fin 30 0) 1 (Fin 900 0)) = Inr fell_twice"
    by (simp add: ev fell_twice_def dec_eval)
  show ?thesis
    using risk_run.step [OF risk_run.step [OF risk_run.step [OF risk_run.step [OF risk_run.fresh _ s1] _ s2] _ s3] _ s4]
    by simp
qed

theorem gate_records_agree_witness:
  "dval (peak_nav fell_twice) = 1000 \<and> trading_day fell_twice = Some 1 \<and> day_start_nav fell_twice = Some (Fin 900 0) \<and>
   dval (daily_loss fell_twice) = 50 \<and> dval (current_nav fell_twice) \<le> dval (peak_nav fell_twice)"
  using gate_records_agree [OF fell_twice_run]
  by (auto simp: fell_twice_def risk_reset_def quiet_limits_def dval.simps(1))

end
