(* ===== verification/Intents.thy ===== *)
theory Intents
  imports Risk Economics
begin

text \<open>
  What a strategy asks for: the \<open>Intent\<close> of \<open>alphalab/strategy/events.py\<close> and the structural check of
  \<open>alphalab/strategy/validation.py\<close>. The checks that a field has the class its annotation names hold of
  every value here. The constructor \<open>Decimal(text)\<close> is the standard library's: an exact number, or
  \<open>InvalidOperation\<close> for what is not one.
\<close>

section \<open>Intents\<close>

datatype intent_kind = DELTA | TARGET_QUANTITY | TARGET_WEIGHT | EXERCISE | CANCEL | ELECT | AMEND

record intent =
  in_strategy :: string
  instrument :: string
  in_target :: decimal
  strength :: decimal
  horizon :: string
  in_terms :: order_terms
  correlation_id :: string
  in_timestamp :: pyfloat
  in_metadata :: "(string, string) od"
  in_kind :: intent_kind

text \<open>Equality of two values of the class: a number by its value.\<close>

definition terms_eq :: "order_terms \<Rightarrow> order_terms \<Rightarrow> bool" where
  "terms_eq a b =
     (ot_type a = ot_type b \<and> opt_eq dec_eq (ot_limit a) (ot_limit b) \<and> opt_eq dec_eq (ot_stop a) (ot_stop b) \<and>
      ot_tif a = ot_tif b \<and> opt_eq flt_eq (ot_expire a) (ot_expire b))"

definition PLAIN_TERMS :: order_terms where
  "PLAIN_TERMS = \<lparr>ot_type = MARKET, ot_limit = None, ot_stop = None, ot_tif = DAY, ot_expire = None\<rparr>"

section \<open>Decimal texts\<close>

definition digit_of :: "char \<Rightarrow> bool" where
  "digit_of c = (let n = of_char c :: nat in 48 \<le> n \<and> n \<le> 57)"

fun read_digits :: "int \<Rightarrow> string \<Rightarrow> int" where
  "read_digits n [] = n"
| "read_digits n (c # cs) = read_digits (10 * n + (of_char c - 48)) cs"

definition signed_text :: "string \<Rightarrow> bool \<times> string" where
  "signed_text s = (case s of [] \<Rightarrow> (False, [])
     | c # cs \<Rightarrow> if c = CHR ''-'' then (True, cs) else if c = CHR ''+'' then (False, cs) else (False, s))"

text \<open>The exponent after the digits: none, or \<open>e\<close>, a sign and at least one digit.\<close>

definition read_exponent :: "string \<Rightarrow> int option" where
  "read_exponent s = (case s of [] \<Rightarrow> Some 0
     | c # cs \<Rightarrow>
         if lower_char c \<noteq> CHR ''e'' then None
         else case signed_text cs of (negative, ds) \<Rightarrow>
           if ds = [] \<or> \<not> list_all digit_of ds then None
           else Some (if negative then - read_digits 0 ds else read_digits 0 ds))"

text \<open>A number outside the widest exponents is refused: the constructor never rounds.\<close>

definition in_decimal_range :: "decimal \<Rightarrow> bool" where
  "in_decimal_range d =
     (adjusted d \<le> 999999999999999999 \<and> (case d of Fin c e \<Rightarrow> -1999999999999999997 \<le> e | _ \<Rightarrow> True))"

definition read_number :: "bool \<Rightarrow> string \<Rightarrow> decimal res" where
  "read_number negative s =
     (let whole = takeWhile digit_of s; rest = dropWhile digit_of s;
          pointed = (rest \<noteq> [] \<and> hd rest = CHR ''.'');
          fraction = (if pointed then takeWhile digit_of (tl rest) else []);
          rest' = (if pointed then dropWhile digit_of (tl rest) else rest);
          c = read_digits 0 (whole @ fraction) in
      if whole = [] \<and> fraction = [] then Inl InvalidOperation
      else case read_exponent rest' of
             None \<Rightarrow> Inl InvalidOperation
           | Some e \<Rightarrow>
               let d = Fin (if negative then - c else c) (e - int (length fraction)) in
               if in_decimal_range d then Inr d else Inl InvalidOperation)"

definition decimal_of_text :: "string \<Rightarrow> decimal res" where
  "decimal_of_text text =
     (case signed_text (filter (\<lambda>c. c \<noteq> CHR ''_'') (py_strip text)) of (negative, s) \<Rightarrow>
        let low = map lower_char s in
        if low = ''inf'' \<or> low = ''infinity'' then Inr (Infinite negative)
        else if take 3 low = ''nan'' \<and> list_all digit_of (drop 3 low) then Inr NaN
        else if take 4 low = ''snan'' \<and> list_all digit_of (drop 4 low) then Inr NaN
        else read_number negative s)"

section \<open>Validation\<close>

text \<open>\<open>d.to_integral_value(rounding)\<close>\<close>

fun to_integral :: "rounding \<Rightarrow> decimal \<Rightarrow> decimal" where
  "to_integral m (Fin c e) = (if 0 \<le> e then Fin c e else Fin (rescale m c e 0) 0)"
| "to_integral m d = d"

definition refuse_intent :: "bool \<Rightarrow> unit res" where
  "refuse_intent broken = (if broken then Inl InvalidIntentError else Inr ())"

definition require_amend :: "intent \<Rightarrow> unit res" where
  "require_amend i =
     rbind (dec_le (in_target i) dec_zero) (\<lambda>none.
     rbind (refuse_intent none) (\<lambda>_. refuse_intent (\<not> dec_eq (strength i) dec_one)))"

text \<open>The units elected, read from the metadata; a text that is no number reads as NaN.\<close>

definition elected_units :: "intent \<Rightarrow> unit res" where
  "elected_units i =
     (case od_get (in_metadata i) ''units'' of
        None \<Rightarrow> Inr ()
      | Some units \<Rightarrow>
          let elected = (case decimal_of_text units of Inl e \<Rightarrow> NaN | Inr d \<Rightarrow> d) in
          if \<not> is_finite elected then Inl InvalidIntentError
          else rbind (dec_le elected dec_zero) refuse_intent)"

definition require_election :: "dctx \<Rightarrow> intent \<Rightarrow> unit res" where
  "require_election amb i =
     rbind (dec_lt (in_target i) dec_zero) (\<lambda>negative.
     rbind (refuse_intent (negative \<or> \<not> dec_eq (in_target i) (to_integral (rmode amb) (in_target i)))) (\<lambda>_.
     rbind (refuse_intent (case od_get (in_metadata i) ''action'' of None \<Rightarrow> True | Some a \<Rightarrow> a = [])) (\<lambda>_.
     rbind (elected_units i) (\<lambda>_.
     rbind (refuse_intent (\<not> dec_eq (strength i) dec_one)) (\<lambda>_.
       refuse_intent (\<not> terms_eq (in_terms i) PLAIN_TERMS))))))"

definition require_cancel :: "intent \<Rightarrow> unit res" where
  "require_cancel i =
     rbind (refuse_intent (\<not> dec_eq (in_target i) dec_zero)) (\<lambda>_.
     rbind (refuse_intent (\<not> dec_eq (strength i) dec_one)) (\<lambda>_.
       refuse_intent (\<not> terms_eq (in_terms i) PLAIN_TERMS)))"

definition require_exercise :: "dctx \<Rightarrow> intent \<Rightarrow> unit res" where
  "require_exercise amb i =
     rbind (dec_le (in_target i) dec_zero) (\<lambda>none.
     rbind (refuse_intent (none \<or> \<not> dec_eq (in_target i) (to_integral (rmode amb) (in_target i)))) (\<lambda>_.
     rbind (refuse_intent (\<not> dec_eq (strength i) dec_one)) (\<lambda>_.
       refuse_intent (\<not> terms_eq (in_terms i) PLAIN_TERMS))))"

definition strength_in_range :: "intent \<Rightarrow> bool res" where
  "strength_in_range i =
     (if \<not> is_finite (strength i) then Inr False
      else rbind (dec_le dec_zero (strength i)) (\<lambda>low.
             if \<not> low then Inr False else dec_le (strength i) dec_one))"

definition validate_intent :: "dctx \<Rightarrow> intent \<Rightarrow> unit res" where
  "validate_intent amb i =
     (if in_strategy i = [] \<or> instrument i = [] \<or> \<not> is_finite (in_target i) then Inl InvalidIntentError
      else
        rbind (strength_in_range i) (\<lambda>ranged.
        if \<not> ranged then Inl InvalidIntentError
        else if \<not> flt_finite (in_timestamp i) \<or> flt_lt (in_timestamp i) (FFin 0) then Inl InvalidIntentError
        else case in_kind i of
               EXERCISE \<Rightarrow> require_exercise amb i
             | CANCEL \<Rightarrow> require_cancel i
             | ELECT \<Rightarrow> require_election amb i
             | AMEND \<Rightarrow> require_amend i
             | _ \<Rightarrow> Inr ()))"

text \<open>Equality of two intents, as the key allocation compares them by.\<close>

definition intent_eq :: "intent \<Rightarrow> intent \<Rightarrow> bool" where
  "intent_eq a b =
     (in_strategy a = in_strategy b \<and> instrument a = instrument b \<and> dec_eq (in_target a) (in_target b) \<and>
      dec_eq (strength a) (strength b) \<and> horizon a = horizon b \<and> terms_eq (in_terms a) (in_terms b) \<and>
      correlation_id a = correlation_id b \<and> flt_eq (in_timestamp a) (in_timestamp b) \<and>
      set (in_metadata a) = set (in_metadata b) \<and> in_kind a = in_kind b)"

lemma intent_validated:
  assumes "validate_intent amb i = Inr ()"
  shows "is_finite (in_target i)" "is_finite (strength i)" "0 \<le> dval (strength i)" "dval (strength i) \<le> 1"
proof -
  have "strength_in_range i = Inr True" "is_finite (in_target i)"
    using assms by (auto simp: validate_intent_def rbind_eq_Inr split: if_splits)
  then show "is_finite (in_target i)" "is_finite (strength i)" "0 \<le> dval (strength i)" "dval (strength i) \<le> 1"
    by (auto simp: strength_in_range_def dval.simps(1) split: if_splits)
qed

end
