(* ===== verification/Allocation.thy ===== *)
theory Allocation
  imports Intents Money
begin

text \<open>
  The parts of \<open>alphalab/allocation\<close> the engine is made of: the budget, the sizing models, what a
  strategy has committed of its ceiling, netting by terms, the events and the state. The context a
  caller runs in is \<open>amb\<close>; the engine pins it to the accounting context. A sizing model is a function
  from an intent, the budget and a price; the models of the package are instances.
\<close>

section \<open>Budget\<close>

record capital_budget =
  global_capital :: decimal
  maximum_exposure :: decimal
  cash_buffer :: decimal
  strategy_budgets :: "(string, decimal) od"
  cb_currency :: string
  enforce_strategy_budgets :: bool

text \<open>\<open>CapitalBudget.__post_init__\<close>\<close>

definition make_budget :: "capital_budget \<Rightarrow> capital_budget res" where
  "make_budget b =
     (if \<not> enforce_strategy_budgets b then Inr b
      else rbind (rmap (\<lambda>c. if \<not> is_finite c then Inl AllocationValidationError
                            else rbind (dec_lt c dec_zero) (\<lambda>negative.
                                   if negative then Inl AllocationValidationError else Inr ()))
                    (od_values (strategy_budgets b))) (\<lambda>_. Inr b))"

definition strategy_ceiling :: "capital_budget \<Rightarrow> string \<Rightarrow> decimal option" where
  "strategy_ceiling b sid = (if \<not> enforce_strategy_budgets b then None else od_get (strategy_budgets b) sid)"

definition available_global_capital :: "dctx \<Rightarrow> capital_budget \<Rightarrow> decimal res" where
  "available_global_capital amb b =
     rbind (dec_sub amb (global_capital b) (cash_buffer b)) (dec_max zero_cents)"

definition available_strategy_capital :: "dctx \<Rightarrow> capital_budget \<Rightarrow> string \<Rightarrow> decimal res" where
  "available_strategy_capital amb b sid =
     rbind (available_global_capital amb b) (\<lambda>all.
       Inr (case od_get (strategy_budgets b) sid of None \<Rightarrow> all | Some c \<Rightarrow> c))"

definition states_currency :: "capital_budget \<Rightarrow> bool" where
  "states_currency b = (py_strip (cb_currency b) \<noteq> [])"

definition in_currency :: "capital_budget \<Rightarrow> string \<Rightarrow> capital_budget res" where
  "in_currency b c = make_budget (b\<lparr>cb_currency := c\<rparr>)"

record allocation_constraints =
  max_weight_per_asset :: decimal
  min_weight_per_asset :: decimal
  allow_shorting :: bool
  enforce_integer_quantities :: bool

section \<open>Sizing\<close>

type_synonym sizing_model = "intent \<Rightarrow> capital_budget \<Rightarrow> decimal \<Rightarrow> decimal res"

definition QUANTITY_QUANTUM :: decimal where "QUANTITY_QUANTUM = Fin 1 (-6)"

definition require_price :: "decimal \<Rightarrow> decimal res" where
  "require_price price =
     (if \<not> is_finite price then Inl SizingRefusedError
      else rbind (dec_le price dec_zero) (\<lambda>none. if none then Inl SizingRefusedError else Inr price))"

definition sign_of :: "intent \<Rightarrow> decimal res" where
  "sign_of i = rbind (dec_le dec_zero (in_target i)) (\<lambda>up. Inr (if up then Fin 1 0 else Fin (-1) 0))"

definition fixed_quantity :: "dctx \<Rightarrow> sizing_model" where
  "fixed_quantity amb i b price =
     rbind (dec_mul amb (in_target i) (strength i)) (\<lambda>q. dec_quantize amb q QUANTITY_QUANTUM)"

definition fixed_dollar :: "dctx \<Rightarrow> sizing_model" where
  "fixed_dollar amb i b price =
     rbind (dec_mul amb (in_target i) (strength i)) (\<lambda>dollars.
     rbind (require_price price) (\<lambda>p.
     rbind (dec_div amb dollars p) (\<lambda>q. dec_quantize amb q QUANTITY_QUANTUM)))"

definition target_weight :: "dctx \<Rightarrow> sizing_model" where
  "target_weight amb i b price =
     rbind (require_price price) (\<lambda>p.
     rbind (available_strategy_capital amb b (in_strategy i)) (\<lambda>capital.
     rbind (dec_mul amb capital (in_target i)) (\<lambda>x.
     rbind (dec_mul amb x (strength i)) (\<lambda>dollars.
     rbind (dec_div amb dollars p) (\<lambda>q. dec_quantize amb q QUANTITY_QUANTUM)))))"

definition signed_size :: "dctx \<Rightarrow> intent \<Rightarrow> decimal \<Rightarrow> decimal \<Rightarrow> decimal res" where
  "signed_size amb i amount price =
     rbind (sign_of i) (\<lambda>s.
     rbind (dec_mul amb s amount) (\<lambda>x.
     rbind (dec_div amb x price) (\<lambda>q. dec_quantize amb q QUANTITY_QUANTUM)))"

definition make_equal_weight :: "int \<Rightarrow> int res" where
  "make_equal_weight num_assets = (if num_assets < 1 then Inl AllocationValidationError else Inr num_assets)"

definition equal_weight :: "dctx \<Rightarrow> int \<Rightarrow> sizing_model" where
  "equal_weight amb num_assets i b price =
     rbind (require_price price) (\<lambda>p.
     rbind (available_strategy_capital amb b (in_strategy i)) (\<lambda>capital.
     rbind (dec_div amb capital (Fin num_assets 0)) (\<lambda>share.
     rbind (dec_mul amb share (strength i)) (\<lambda>dollars. signed_size amb i dollars p))))"

definition make_volatility_target :: "decimal \<Rightarrow> decimal res" where
  "make_volatility_target target_vol =
     (if \<not> is_finite target_vol then Inl AllocationValidationError
      else rbind (dec_le target_vol dec_zero) (\<lambda>none.
             if none then Inl AllocationValidationError else Inr target_vol))"

definition volatility_target :: "dctx \<Rightarrow> decimal \<Rightarrow> (string, decimal) od \<Rightarrow> sizing_model" where
  "volatility_target amb target_vol asset_vols i b price =
     rbind (require_price price) (\<lambda>p.
     rbind (case od_get asset_vols (instrument i) of
              None \<Rightarrow> Inl SizingRefusedError
            | Some v \<Rightarrow> require_price v) (\<lambda>vol.
     rbind (available_strategy_capital amb b (in_strategy i)) (\<lambda>capital.
     rbind (dec_div amb target_vol vol) (\<lambda>scale.
     rbind (dec_mul amb scale capital) (\<lambda>x.
     rbind (dec_mul amb x (strength i)) (\<lambda>exposure. signed_size amb i exposure p))))))"

definition UNPRICED :: decimal where "UNPRICED = Fin 0 0"

definition size_intent ::
  "intent \<Rightarrow> capital_budget \<Rightarrow> (string, decimal) od \<Rightarrow> sizing_model \<Rightarrow> decimal res" where
  "size_intent i b market_prices model =
     model i b (case od_get market_prices (instrument i) of None \<Rightarrow> UNPRICED | Some p \<Rightarrow> p)"

definition size_intents ::
  "intent list \<Rightarrow> capital_budget \<Rightarrow> (string, decimal) od \<Rightarrow> sizing_model \<Rightarrow> (string \<times> string \<times> decimal) list res" where
  "size_intents intents b market_prices model =
     rmap (\<lambda>i. rbind (size_intent i b market_prices model) (\<lambda>q. Inr (in_strategy i, instrument i, q))) intents"

section \<open>Committed capital\<close>

definition adding_exposure :: "dctx \<Rightarrow> decimal \<Rightarrow> decimal \<Rightarrow> decimal res" where
  "adding_exposure amb held delta =
     rbind (dec_add ACCOUNTING_CONTEXT held delta) (\<lambda>after.
     rbind (dec_lt dec_zero held) (\<lambda>long. rbind (dec_lt dec_zero after) (\<lambda>long'.
     if dec_eq held dec_zero \<or> (long = long' \<and> \<not> dec_eq after dec_zero) then
       rbind (dec_abs amb after) (\<lambda>a. rbind (dec_abs amb held) (\<lambda>h.
       rbind (dec_sub ACCOUNTING_CONTEXT a h) (dec_max dec_zero)))
     else dec_abs amb after)))"

record strategy_capital =
  deployed :: "(string, decimal) od"
  reserved :: "(string, decimal) od"
  deployed_total :: decimal
  reserved_total :: decimal

definition no_capital :: strategy_capital where
  "no_capital = \<lparr>deployed = [], reserved = [], deployed_total = dec_zero, reserved_total = dec_zero\<rparr>"

definition committed_capital :: "strategy_capital \<Rightarrow> decimal res" where
  "committed_capital c = dec_add ACCOUNTING_CONTEXT (deployed_total c) (reserved_total c)"

definition reserve :: "string \<Rightarrow> decimal \<Rightarrow> strategy_capital \<Rightarrow> strategy_capital res" where
  "reserve oid amount c =
     rbind (dec_le amount dec_zero) (\<lambda>none.
       if none then Inr c
       else
         rbind (dec_add ACCOUNTING_CONTEXT (case od_get (reserved c) oid of None \<Rightarrow> dec_zero | Some h \<Rightarrow> h) amount) (\<lambda>h.
         rbind (dec_add ACCOUNTING_CONTEXT (reserved_total c) amount) (\<lambda>t.
           Inr (c\<lparr>reserved := od_set oid h (reserved c), reserved_total := t\<rparr>))))"

definition release :: "string \<Rightarrow> strategy_capital \<Rightarrow> strategy_capital res" where
  "release oid c =
     (case od_get (reserved c) oid of
        None \<Rightarrow> Inr c
      | Some amount \<Rightarrow>
          rbind (dec_sub ACCOUNTING_CONTEXT (reserved_total c) amount) (\<lambda>t.
            Inr (c\<lparr>reserved := od_del oid (reserved c), reserved_total := t\<rparr>)))"

definition reduce :: "string \<Rightarrow> decimal \<Rightarrow> strategy_capital \<Rightarrow> strategy_capital res" where
  "reduce oid amount c =
     (case od_get (reserved c) oid of
        None \<Rightarrow> Inr c
      | Some held \<Rightarrow>
          rbind (dec_le held amount) (\<lambda>enough.
            if enough then Inr c
            else
              rbind (dec_max dec_zero amount) (\<lambda>kept.
              rbind (dec_lt dec_zero kept) (\<lambda>positive.
              rbind (dec_sub ACCOUNTING_CONTEXT held kept) (\<lambda>freed.
              rbind (dec_sub ACCOUNTING_CONTEXT (reserved_total c) freed) (\<lambda>t.
                Inr (c\<lparr>reserved := (if positive then od_set oid kept (reserved c) else od_del oid (reserved c)),
                       reserved_total := t\<rparr>)))))))"

text \<open>What a position costs after a fill, before what the fill deploys.\<close>

definition kept_cost :: "dctx \<Rightarrow> decimal \<Rightarrow> decimal \<Rightarrow> decimal \<Rightarrow> decimal res" where
  "kept_cost amb cost held after =
     rbind (dec_lt dec_zero held) (\<lambda>long. rbind (dec_lt dec_zero after) (\<lambda>long'.
       if \<not> dec_eq held dec_zero \<and> (long \<noteq> long' \<or> dec_eq after dec_zero) then Inr dec_zero
       else
         rbind (dec_abs amb after) (\<lambda>a. rbind (dec_abs amb held) (\<lambda>h.
         rbind (dec_lt a h) (\<lambda>smaller.
           if smaller then rbind (dec_mul ACCOUNTING_CONTEXT cost a) (\<lambda>x. dec_div ACCOUNTING_CONTEXT x h)
           else Inr cost)))))"

text \<open>The reservation a fill converts, up to what it deploys.\<close>

definition convert_reservation :: "string \<Rightarrow> decimal \<Rightarrow> strategy_capital \<Rightarrow> strategy_capital res" where
  "convert_reservation oid deploys c =
     (case od_get (reserved c) oid of
        None \<Rightarrow> Inr c
      | Some held_back \<Rightarrow>
          rbind (dec_lt dec_zero deploys) (\<lambda>spends.
            if \<not> spends then Inr c
            else
              rbind (dec_min held_back deploys) (\<lambda>converted.
              rbind (dec_sub ACCOUNTING_CONTEXT held_back converted) (\<lambda>remaining.
              rbind (dec_lt dec_zero remaining) (\<lambda>some.
              rbind (dec_sub ACCOUNTING_CONTEXT (reserved_total c) converted) (\<lambda>t.
                Inr (c\<lparr>reserved := (if some then od_set oid remaining (reserved c) else od_del oid (reserved c)),
                       reserved_total := t\<rparr>)))))))"

definition capital_fill ::
  "dctx \<Rightarrow> string \<Rightarrow> string \<Rightarrow> decimal \<Rightarrow> decimal \<Rightarrow> decimal \<Rightarrow> strategy_capital \<Rightarrow> strategy_capital res" where
  "capital_fill amb oid asset held quantity unit_value c =
     rbind (dec_add ACCOUNTING_CONTEXT held quantity) (\<lambda>after.
     rbind (adding_exposure amb held quantity) (\<lambda>added.
     rbind (kept_cost amb (case od_get (deployed c) asset of None \<Rightarrow> dec_zero | Some x \<Rightarrow> x) held after) (\<lambda>kept.
     rbind (dec_mul ACCOUNTING_CONTEXT added unit_value) (\<lambda>deploys.
     rbind (dec_add ACCOUNTING_CONTEXT kept deploys) (\<lambda>cost.
     rbind (dec_sub ACCOUNTING_CONTEXT (deployed_total c)
              (case od_get (deployed c) asset of None \<Rightarrow> dec_zero | Some x \<Rightarrow> x)) (\<lambda>others.
     rbind (dec_add ACCOUNTING_CONTEXT others cost) (\<lambda>t.
       convert_reservation oid deploys
         (c\<lparr>deployed := (if \<not> dec_eq cost dec_zero then od_set asset cost (deployed c) else od_del asset (deployed c)),
            deployed_total := t\<rparr>))))))))"

section \<open>Netting by terms\<close>

text \<open>A dict whose keys are compared by a given equality; the key first written stays.\<close>

fun kd_get :: "('k \<Rightarrow> 'k \<Rightarrow> bool) \<Rightarrow> ('k \<times> 'v) list \<Rightarrow> 'k \<Rightarrow> 'v option" where
  "kd_get eq [] k = None"
| "kd_get eq ((k', v) # m) k = (if eq k k' then Some v else kd_get eq m k)"

fun kd_set :: "('k \<Rightarrow> 'k \<Rightarrow> bool) \<Rightarrow> 'k \<Rightarrow> 'v \<Rightarrow> ('k \<times> 'v) list \<Rightarrow> ('k \<times> 'v) list" where
  "kd_set eq k v [] = [(k, v)]"
| "kd_set eq k v ((k', v') # m) = (if eq k k' then (k', v) # m else (k', v') # kd_set eq k v m)"

type_synonym sized = "string \<times> string \<times> order_terms \<times> decimal"
type_synonym order_key = "string \<times> order_terms"

definition key_eq :: "order_key \<Rightarrow> order_key \<Rightarrow> bool" where
  "key_eq a b = (fst a = fst b \<and> terms_eq (snd a) (snd b))"

definition net_step :: "dctx \<Rightarrow> (order_key \<times> decimal) list \<Rightarrow> sized \<Rightarrow> (order_key \<times> decimal) list res" where
  "net_step amb net d = (case d of (sid, asset, terms, q) \<Rightarrow>
     rbind (dec_add amb (case kd_get key_eq net (asset, terms) of None \<Rightarrow> zero_cents | Some t \<Rightarrow> t) q) (\<lambda>t.
       Inr (kd_set key_eq (asset, terms) t net)))"

definition net_by_terms :: "dctx \<Rightarrow> sized list \<Rightarrow> (order_key \<times> decimal) list res" where
  "net_by_terms amb sized_intents = rfold (net_step amb) [] sized_intents"

definition row_step :: "(order_key \<times> (string \<times> decimal) list) list \<Rightarrow> sized \<Rightarrow> (order_key \<times> (string \<times> decimal) list) list" where
  "row_step by_key d = (case d of (sid, asset, terms, q) \<Rightarrow>
     kd_set key_eq (asset, terms)
       ((case kd_get key_eq by_key (asset, terms) of None \<Rightarrow> [] | Some rows \<Rightarrow> rows) @ [(sid, q)]) by_key)"

definition contributions_by_terms :: "dctx \<Rightarrow> sized list \<Rightarrow> (order_key \<times> strategy_contribution list) list res" where
  "contributions_by_terms amb sized_intents =
     rmap (\<lambda>(k, rows). rbind (contributions_from amb rows) (\<lambda>cs. Inr (k, cs))) (foldl row_step [] sized_intents)"

section \<open>Events and state\<close>

text \<open>What the events say; the texts of refusals are left out.\<close>

datatype allocation_note =
    AllocationStarted int
  | AllocationCompleted int decimal
  | NettingCompleted string decimal side
  | BudgetExceeded decimal decimal
  | AllocationRejected
  | AllocationExecutionApplied string decimal
  | AllocationReservationReleased string decimal

record allocation_event =
  ae_id :: string
  ae_timestamp :: pyfloat
  ae_note :: allocation_note

record allocation_state =
  budget :: capital_budget
  al_history :: "order_request list"
  al_events :: "allocation_event list"
  notional_allocated :: decimal
  reservations :: "(string, decimal) od"
  al_contributions :: "(string, strategy_contribution list) od"
  strategy_positions :: "(string, (string, decimal) od) od option"
  strategy_capitals :: "(string, strategy_capital) od"

section \<open>Validation\<close>

definition validate_net_quantity :: "decimal \<Rightarrow> bool \<Rightarrow> unit res" where
  "validate_net_quantity q long_only =
     (if q = NaN then Inl AllocationValidationError
      else if \<not> long_only then Inr ()
      else rbind (dec_lt q zero_cents) (\<lambda>negative. if negative then Inl AllocationValidationError else Inr ()))"

definition validate_long_only :: "dctx \<Rightarrow> decimal \<Rightarrow> decimal \<Rightarrow> unit res" where
  "validate_long_only amb delta committed =
     rbind (dec_add amb committed delta) (\<lambda>projected.
     rbind (dec_lt projected dec_zero) (\<lambda>negative. if negative then Inl AllocationValidationError else Inr ()))"

section \<open>Views\<close>

definition recent_orders_for_asset :: "allocation_state \<Rightarrow> string \<Rightarrow> order_request list" where
  "recent_orders_for_asset s asset = filter (\<lambda>r. rq_asset_id r = asset) (al_history s)"

definition reserved_for_order :: "allocation_state \<Rightarrow> string \<Rightarrow> decimal" where
  "reserved_for_order s oid = (case od_get (reservations s) oid of None \<Rightarrow> zero_cents | Some r \<Rightarrow> r)"

end
