(* ===== verification/Allocation_Engine.thy ===== *)
theory Allocation_Engine
  imports Allocation
begin

text \<open>
  \<open>AllocationEngine\<close> of \<open>alphalab/allocation/engine.py\<close>. The decorated operations run in the accounting
  context; \<open>apply_lifecycle\<close> is not decorated, so it takes its caller's. One call may append several
  events and emit several orders: \<open>eids k\<close> is the identifier drawn for its k-th event, \<open>oids k\<close> for its
  k-th order. A refusal is an event without its text.
\<close>

section \<open>Prices and targets\<close>

definition scale_price :: "dctx \<Rightarrow> (string, decimal) od \<Rightarrow> string \<times> decimal \<Rightarrow> (string, decimal) od res" where
  "scale_price amb prices entry = (case entry of (asset, m) \<Rightarrow>
     (case od_get prices asset of
        None \<Rightarrow> Inr prices
      | Some price \<Rightarrow> rbind (dec_mul amb price m) (\<lambda>p. Inr (od_set asset p prices))))"

definition per_unit :: "dctx \<Rightarrow> (string, decimal) od \<Rightarrow> (string, decimal) od \<Rightarrow> (string, decimal) od res" where
  "per_unit amb prices multipliers =
     (if multipliers = [] \<or> prices = [] then Inr prices else rfold (scale_price amb) prices multipliers)"

text \<open>What the caller of \<open>allocate\<close> gives beside the state, the intents and the instant.\<close>

record batch =
  bt_prices :: "(string, decimal) od"
  bt_model :: sizing_model
  bt_constraints :: allocation_constraints
  bt_budget_prices :: "(string, decimal) od"
  bt_positions :: "(string, decimal) od option"
  bt_working :: "(string \<times> string, decimal) od"
  bt_lots :: "(string, lot_specification) od"
  bt_minimum_notionals :: "(string, decimal) od"
  bt_multipliers :: "(string, decimal) od"

definition amount_or_zero :: "('k, decimal) od \<Rightarrow> 'k \<Rightarrow> decimal" where
  "amount_or_zero m k = (case od_get m k of None \<Rightarrow> dec_zero | Some x \<Rightarrow> x)"

definition own_position :: "(string, (string, decimal) od) od \<Rightarrow> string \<Rightarrow> string \<Rightarrow> decimal" where
  "own_position positions sid asset =
     (case od_get positions sid of None \<Rightarrow> dec_zero | Some held \<Rightarrow> amount_or_zero held asset)"

definition strategy_position :: "allocation_state \<Rightarrow> string \<Rightarrow> string \<Rightarrow> decimal res" where
  "strategy_position s sid asset =
     (case strategy_positions s of None \<Rightarrow> Inl SizingRefusedError | Some ps \<Rightarrow> Inr (own_position ps sid asset))"

definition DOWN_CONTEXT :: "dctx" where
  "DOWN_CONTEXT = ACCOUNTING_CONTEXT\<lparr>rmode := ROUND_DOWN\<rparr>"

text \<open>The target itself, in units.\<close>

definition target_units :: "allocation_state \<Rightarrow> intent \<Rightarrow> decimal \<Rightarrow> (string, decimal) od \<Rightarrow> decimal res" where
  "target_units s i price budget_prices =
     rbind (dec_mul ACCOUNTING_CONTEXT (in_target i) (strength i)) (\<lambda>scale.
       if in_kind i = TARGET_QUANTITY then Inr scale
       else
         rbind (available_strategy_capital ACCOUNTING_CONTEXT (budget s) (in_strategy i)) (\<lambda>capital.
         rbind (dec_mul ACCOUNTING_CONTEXT capital scale) (\<lambda>x.
           dec_div ACCOUNTING_CONTEXT x
             (case od_get budget_prices (instrument i) of None \<Rightarrow> price | Some p \<Rightarrow> p))))"

text \<open>The difference to what is committed, rounded toward zero onto the grids the run trades on.\<close>

definition round_toward :: "decimal \<Rightarrow> decimal \<Rightarrow> bool \<Rightarrow> lot_specification option \<Rightarrow> decimal res" where
  "round_toward target committed whole grid_lot =
     rbind (dec_sub ACCOUNTING_CONTEXT target committed) (\<lambda>difference.
     rbind (dec_quantize DOWN_CONTEXT difference QUANTITY_QUANTUM) (\<lambda>delta.
     let delta = (if whole then to_integral ROUND_DOWN delta else delta) in
     (case grid_lot of None \<Rightarrow> Inr delta | Some l \<Rightarrow> round_down_to_lot delta l)))"

definition check_minimum :: "decimal \<Rightarrow> decimal \<Rightarrow> decimal option \<Rightarrow> decimal res" where
  "check_minimum delta price minimum =
     rbind (dec_abs ACCOUNTING_CONTEXT delta) (\<lambda>a.
     rbind (dec_mul ACCOUNTING_CONTEXT a (copy_abs price)) (\<lambda>value.
       case minimum of
         None \<Rightarrow> Inr delta
       | Some m \<Rightarrow> rbind (dec_lt value m) (\<lambda>small. if small then Inl SizingRefusedError else Inr delta)))"

definition priced_for_target :: "intent \<Rightarrow> (string, decimal) od \<Rightarrow> decimal res" where
  "priced_for_target i prices =
     (case od_get prices (instrument i) of
        None \<Rightarrow> Inl SizingRefusedError
      | Some price \<Rightarrow>
          if \<not> is_finite price then Inl SizingRefusedError
          else rbind (dec_le price dec_zero) (\<lambda>none.
                 if in_kind i = TARGET_WEIGHT \<and> none then Inl SizingRefusedError else Inr price))"

definition target_delta ::
  "allocation_state \<Rightarrow> intent \<Rightarrow> (string, decimal) od \<Rightarrow> (string, decimal) od \<Rightarrow> (string \<times> string, decimal) od \<Rightarrow>
   lot_specification option \<Rightarrow> decimal option \<Rightarrow> bool \<Rightarrow> decimal res" where
  "target_delta s i prices budget_prices working grid_lot minimum whole =
     rbind (strategy_position s (in_strategy i) (instrument i)) (\<lambda>held.
     rbind (priced_for_target i prices) (\<lambda>price.
     rbind (target_units s i price budget_prices) (\<lambda>target.
     rbind (dec_add ACCOUNTING_CONTEXT held (amount_or_zero working (in_strategy i, instrument i))) (\<lambda>committed.
     rbind (round_toward target committed whole grid_lot) (\<lambda>delta.
       if dec_eq delta dec_zero then Inr delta else check_minimum delta price minimum)))))"

section \<open>The phases of allocate\<close>

text \<open>1. Validation: the intents kept, and one refusal for each of the others.\<close>

definition screen :: "intent list \<times> allocation_note list \<Rightarrow> intent \<Rightarrow> (intent list \<times> allocation_note list) res" where
  "screen st i = (case st of (valid, notes) \<Rightarrow>
     (case validate_intent ACCOUNTING_CONTEXT i of
        Inl e \<Rightarrow> if e = InvalidIntentError then Inr (valid, notes @ [AllocationRejected]) else Inl e
      | Inr u \<Rightarrow>
          if in_kind i \<in> {EXERCISE, AMEND, ELECT, CANCEL} then Inr (valid, notes @ [AllocationRejected])
          else if list_ex (intent_eq i) valid then Inr (valid, notes @ [AllocationRejected])
          else Inr (valid @ [i], notes)))"

text \<open>2. Sizing, one intent at a time.\<close>

definition size_one ::
  "allocation_state \<Rightarrow> batch \<Rightarrow> (string, decimal) od \<Rightarrow> (string, decimal) od \<Rightarrow> intent \<Rightarrow> decimal res" where
  "size_one s b unit_prices unit_budget_prices i =
     (if in_kind i = DELTA then size_intent i (budget s) unit_prices (bt_model b)
      else target_delta s i unit_prices unit_budget_prices (bt_working b) (od_get (bt_lots b) (instrument i))
             (od_get (bt_minimum_notionals b) (instrument i)) (enforce_integer_quantities (bt_constraints b)))"

definition size_step ::
  "allocation_state \<Rightarrow> batch \<Rightarrow> (string, decimal) od \<Rightarrow> (string, decimal) od \<Rightarrow> sized list \<times> allocation_note list \<Rightarrow>
   intent \<Rightarrow> (sized list \<times> allocation_note list) res" where
  "size_step s b unit_prices unit_budget_prices st i = (case st of (sizes, notes) \<Rightarrow>
     (case size_one s b unit_prices unit_budget_prices i of
        Inl e \<Rightarrow> if e = SizingRefusedError then Inr (sizes, notes @ [AllocationRejected]) else Inl e
      | Inr q \<Rightarrow>
          if in_kind i \<noteq> DELTA \<and> dec_eq q dec_zero then Inr (sizes, notes)
          else Inr (sizes @ [(in_strategy i, instrument i, in_terms i, q)], notes)))"

text \<open>2b. Each strategy's own ceiling.\<close>

type_synonym commitment_key = "string \<times> string \<times> order_terms"

definition commitment_eq :: "commitment_key \<Rightarrow> commitment_key \<Rightarrow> bool" where
  "commitment_eq a b = (fst a = fst b \<and> key_eq (snd a) (snd b))"

record ceiling_fold =
  cf_admitted :: "sized list"
  cf_commitments :: "(commitment_key \<times> decimal) list"
  cf_projected :: "(string \<times> string, decimal) od"
  cf_running :: "(string, decimal) od"
  cf_notes :: "allocation_note list"

definition capital_of :: "allocation_state \<Rightarrow> string \<Rightarrow> strategy_capital" where
  "capital_of s sid = (case od_get (strategy_capitals s) sid of None \<Rightarrow> no_capital | Some c \<Rightarrow> c)"

definition held_for_ceiling ::
  "allocation_state \<Rightarrow> (string \<times> string, decimal) od \<Rightarrow> ceiling_fold \<Rightarrow> string \<Rightarrow> string \<Rightarrow> decimal res" where
  "held_for_ceiling s working f sid asset =
     (case od_get (cf_projected f) (sid, asset) of
        Some h \<Rightarrow> Inr h
      | None \<Rightarrow>
          dec_add ACCOUNTING_CONTEXT
            (case strategy_positions s of None \<Rightarrow> dec_zero | Some ps \<Rightarrow> own_position ps sid asset)
            (amount_or_zero working (sid, asset)))"

definition unit_value_of :: "(string, decimal) od \<Rightarrow> (string, decimal) od \<Rightarrow> decimal \<Rightarrow> string \<Rightarrow> decimal" where
  "unit_value_of unit_prices unit_budget_prices fallback asset =
     (case od_get unit_budget_prices asset of
        Some p \<Rightarrow> p
      | None \<Rightarrow> (case od_get unit_prices asset of Some p \<Rightarrow> p | None \<Rightarrow> fallback))"

text \<open>Whether the ceiling refuses a commitment, and what the batch has then committed.\<close>

definition over_ceiling ::
  "allocation_state \<Rightarrow> string \<Rightarrow> decimal \<Rightarrow> (string, decimal) od \<Rightarrow> decimal \<Rightarrow> bool res" where
  "over_ceiling s sid ceil running commitment =
     rbind (committed_capital (capital_of s sid)) (\<lambda>c.
     rbind (dec_add ACCOUNTING_CONTEXT c (amount_or_zero running sid)) (\<lambda>committed.
       if strategy_positions s = None then Inr True
       else rbind (dec_add ACCOUNTING_CONTEXT committed commitment) (dec_lt ceil)))"

definition admit ::
  "ceiling_fold \<Rightarrow> sized \<Rightarrow> decimal \<Rightarrow> decimal \<Rightarrow> (string, decimal) od \<Rightarrow> ceiling_fold res" where
  "admit f d held commitment running = (case d of (sid, asset, terms, q) \<Rightarrow>
     rbind (dec_add ACCOUNTING_CONTEXT held q) (\<lambda>h.
     rbind (dec_add ACCOUNTING_CONTEXT
              (case kd_get commitment_eq (cf_commitments f) (sid, asset, terms) of None \<Rightarrow> dec_zero | Some c \<Rightarrow> c)
              commitment) (\<lambda>c.
       Inr (f\<lparr>cf_admitted := cf_admitted f @ [d],
              cf_commitments := kd_set commitment_eq (sid, asset, terms) c (cf_commitments f),
              cf_projected := od_set (sid, asset) h (cf_projected f), cf_running := running\<rparr>))))"

definition ceiling_step ::
  "allocation_state \<Rightarrow> batch \<Rightarrow> (string, decimal) od \<Rightarrow> (string, decimal) od \<Rightarrow> ceiling_fold \<Rightarrow> sized \<Rightarrow>
   ceiling_fold res" where
  "ceiling_step s b unit_prices unit_budget_prices f d = (case d of (sid, asset, terms, q) \<Rightarrow>
     (case strategy_ceiling (budget s) sid of
        None \<Rightarrow> Inr (f\<lparr>cf_admitted := cf_admitted f @ [d]\<rparr>)
      | Some ceil \<Rightarrow>
          rbind (held_for_ceiling s (bt_working b) f sid asset) (\<lambda>held.
          rbind (adding_exposure ACCOUNTING_CONTEXT held q) (\<lambda>added.
          rbind (dec_mul ACCOUNTING_CONTEXT added
                   (copy_abs (unit_value_of unit_prices unit_budget_prices dec_zero asset))) (\<lambda>commitment.
          rbind (dec_lt dec_zero commitment) (\<lambda>commits.
            if \<not> commits then admit f d held commitment (cf_running f)
            else
              rbind (over_ceiling s sid ceil (cf_running f) commitment) (\<lambda>refused.
                if refused then Inr (f\<lparr>cf_notes := cf_notes f @ [AllocationRejected]\<rparr>)
                else
                  rbind (dec_add ACCOUNTING_CONTEXT (amount_or_zero (cf_running f) sid) commitment) (\<lambda>r.
                    admit f d held commitment (od_set sid r (cf_running f))))))))))"

definition within_ceilings ::
  "allocation_state \<Rightarrow> batch \<Rightarrow> (string, decimal) od \<Rightarrow> (string, decimal) od \<Rightarrow> sized list \<Rightarrow> ceiling_fold res" where
  "within_ceilings s b unit_prices unit_budget_prices sizes =
     rfold (ceiling_step s b unit_prices unit_budget_prices)
       \<lparr>cf_admitted = [], cf_commitments = [], cf_projected = [], cf_running = [], cf_notes = []\<rparr> sizes"

text \<open>4. Constraints: whether an order may be sent, and the position it is judged against.\<close>

definition check_net :: "batch \<Rightarrow> string \<Rightarrow> decimal \<Rightarrow> decimal option \<Rightarrow> unit res" where
  "check_net b asset q held =
     rbind (validate_net_quantity q False) (\<lambda>_.
     rbind (case od_get (bt_lots b) asset of
              None \<Rightarrow> Inr ()
            | Some l \<Rightarrow> rbind (lot_admits l q) (\<lambda>ok. if ok then Inr () else Inl AllocationValidationError)) (\<lambda>_.
       if allow_shorting (bt_constraints b) then Inr ()
       else case held of
              None \<Rightarrow> validate_net_quantity q True
            | Some h \<Rightarrow> validate_long_only ACCOUNTING_CONTEXT q h))"

text \<open>What an order adds to the committed position, and whether it reduces it.\<close>

definition exposure_added :: "decimal \<Rightarrow> decimal option \<Rightarrow> (decimal \<times> bool) res" where
  "exposure_added q held =
     (case held of
        None \<Rightarrow> rbind (dec_abs ACCOUNTING_CONTEXT q) (\<lambda>a. Inr (a, False))
      | Some h \<Rightarrow>
          rbind (dec_add ACCOUNTING_CONTEXT h q) (\<lambda>x.
          rbind (dec_abs ACCOUNTING_CONTEXT x) (\<lambda>after.
          rbind (dec_abs ACCOUNTING_CONTEXT h) (\<lambda>size_held.
          rbind (dec_sub ACCOUNTING_CONTEXT after size_held) (\<lambda>grown.
          rbind (dec_max dec_zero grown) (\<lambda>adding.
          rbind (dec_lt after size_held) (\<lambda>reduces. Inr (adding, reduces))))))))"

record emission =
  em_request :: order_request
  em_commitment :: decimal
  em_reduces :: bool

record net_fold =
  nf_total :: decimal
  nf_emitted :: "emission list"
  nf_projected :: "(string, decimal) od option"
  nf_notes :: "allocation_note list"

definition net_request ::
  "string \<Rightarrow> batch \<Rightarrow> pyfloat \<Rightarrow> (order_key \<times> strategy_contribution list) list \<Rightarrow> order_key \<Rightarrow> side \<Rightarrow> decimal \<Rightarrow>
   order_request" where
  "net_request oid b timestamp contribs k sd magnitude =
     \<lparr>rq_order_id = oid, rq_strategy_id = [], rq_asset_id = fst k, rq_side = sd, rq_quantity = magnitude,
      rq_price = (case od_get (bt_prices b) (fst k) of None \<Rightarrow> zero_cents | Some p \<Rightarrow> p),
      rq_timestamp = timestamp,
      rq_contributions = (case kd_get key_eq contribs k of None \<Rightarrow> [] | Some cs \<Rightarrow> cs), rq_terms = snd k\<rparr>"

definition emit ::
  "(nat \<Rightarrow> string) \<Rightarrow> batch \<Rightarrow> pyfloat \<Rightarrow> (string, decimal) od \<Rightarrow> (string, decimal) od \<Rightarrow>
   (order_key \<times> strategy_contribution list) list \<Rightarrow> net_fold \<Rightarrow> order_key \<Rightarrow> decimal \<Rightarrow> decimal option \<Rightarrow> net_fold res" where
  "emit oids b timestamp unit_prices unit_budget_prices contribs f k q held =
     rbind (case held of None \<Rightarrow> Inr None | Some h \<Rightarrow> rbind (dec_add ACCOUNTING_CONTEXT h q) (\<lambda>x. Inr (Some x))) (\<lambda>after.
     rbind (dec_lt dec_zero q) (\<lambda>buys.
     rbind (dec_abs ACCOUNTING_CONTEXT q) (\<lambda>magnitude.
     rbind (exposure_added q held) (\<lambda>(adding, reduces).
     let sd = (if buys then BUY else SELL);
         request = net_request (oids (length (nf_emitted f))) b timestamp contribs k sd magnitude;
         unit_worth = unit_value_of unit_prices unit_budget_prices (rq_price request) (fst k) in
     rbind (dec_mul ACCOUNTING_CONTEXT adding (copy_abs unit_worth)) (\<lambda>commitment.
     rbind (dec_add ACCOUNTING_CONTEXT (nf_total f) commitment) (\<lambda>t.
       Inr (f\<lparr>nf_total := t,
              nf_emitted := nf_emitted f @ [\<lparr>em_request = request, em_commitment = commitment, em_reduces = reduces\<rparr>],
              nf_projected := (case nf_projected f of None \<Rightarrow> None
                 | Some m \<Rightarrow> (case after of None \<Rightarrow> Some m | Some x \<Rightarrow> Some (od_set (fst k) x m))),
              nf_notes := nf_notes f @ [NettingCompleted (fst k) magnitude sd]\<rparr>)))))))"

definition emit_step ::
  "(nat \<Rightarrow> string) \<Rightarrow> batch \<Rightarrow> pyfloat \<Rightarrow> (string, decimal) od \<Rightarrow> (string, decimal) od \<Rightarrow>
   (order_key \<times> strategy_contribution list) list \<Rightarrow> net_fold \<Rightarrow> order_key \<times> decimal \<Rightarrow> net_fold res" where
  "emit_step oids b timestamp unit_prices unit_budget_prices contribs f entry = (case entry of (k, net_qty) \<Rightarrow>
     (let q = (if enforce_integer_quantities (bt_constraints b) then to_integral ROUND_HALF_EVEN net_qty else net_qty) in
      if dec_eq q dec_zero then Inr f
      else
        (let held = (case nf_projected f of None \<Rightarrow> None | Some m \<Rightarrow> Some (amount_or_zero m (fst k))) in
         case check_net b (fst k) q held of
           Inl e \<Rightarrow> if e = AllocationValidationError then Inr (f\<lparr>nf_notes := nf_notes f @ [AllocationRejected]\<rparr>) else Inl e
         | Inr u \<Rightarrow> emit oids b timestamp unit_prices unit_budget_prices contribs f k q held)))"

definition sent_first :: "emission list \<Rightarrow> emission list" where
  "sent_first es = filter em_reduces es @ filter (\<lambda>e. \<not> em_reduces e) es"

text \<open>5. The budget.\<close>

definition fits_budget :: "allocation_state \<Rightarrow> decimal \<Rightarrow> (bool \<times> decimal) res" where
  "fits_budget s total_notional =
     rbind (dec_add ACCOUNTING_CONTEXT (notional_allocated s) total_notional) (\<lambda>committed.
     rbind (available_global_capital ACCOUNTING_CONTEXT (budget s)) (\<lambda>available.
     rbind (dec_sub ACCOUNTING_CONTEXT available (notional_allocated s)) (\<lambda>remaining.
     rbind (dec_lt available committed) (\<lambda>over.
       if over then Inr (False, remaining)
       else rbind (dec_lt (maximum_exposure (budget s)) committed) (\<lambda>exposed. Inr (\<not> exposed, remaining))))))"

text \<open>6. The ledgers: per order what it commits and who asked for it, per strategy what its share will deploy.\<close>

definition reserve_share ::
  "(commitment_key \<times> decimal) list \<Rightarrow> order_request \<Rightarrow> (string, strategy_capital) od \<Rightarrow> strategy_contribution \<Rightarrow>
   (string, strategy_capital) od res" where
  "reserve_share commitments r capitals c =
     (case kd_get commitment_eq commitments (contributor c, rq_asset_id r, rq_terms r) of
        None \<Rightarrow> Inr capitals
      | Some amount \<Rightarrow>
          rbind (reserve (rq_order_id r) amount
                   (case od_get capitals (contributor c) of None \<Rightarrow> no_capital | Some x \<Rightarrow> x)) (\<lambda>x.
            Inr (od_set (contributor c) x capitals)))"

definition reserve_shares ::
  "(commitment_key \<times> decimal) list \<Rightarrow> (string, strategy_capital) od \<Rightarrow> emission \<Rightarrow> (string, strategy_capital) od res" where
  "reserve_shares commitments capitals e =
     (if commitments = [] then Inr capitals
      else rfold (reserve_share commitments (em_request e)) capitals (rq_contributions (em_request e)))"

definition stamp :: "(nat \<Rightarrow> string) \<Rightarrow> pyfloat \<Rightarrow> allocation_note list \<Rightarrow> allocation_event list" where
  "stamp eids timestamp notes =
     map (\<lambda>(k, n). \<lparr>ae_id = eids k, ae_timestamp = timestamp, ae_note = n\<rparr>) (enumerate 0 notes)"

text \<open>What follows when the batch fits.\<close>

definition book_emissions ::
  "allocation_state \<Rightarrow> (commitment_key \<times> decimal) list \<Rightarrow> emission list \<Rightarrow> decimal \<Rightarrow> allocation_state res" where
  "book_emissions s commitments sent total_notional =
     rbind (rfold (reserve_shares commitments) (strategy_capitals s) sent) (\<lambda>capitals.
     rbind (dec_add ACCOUNTING_CONTEXT (notional_allocated s) total_notional) (\<lambda>committed.
       Inr (s\<lparr>al_history := al_history s @ map em_request sent, notional_allocated := committed,
              reservations := fold (\<lambda>e. od_set (rq_order_id (em_request e)) (em_commitment e)) sent (reservations s),
              al_contributions := fold (\<lambda>e. od_set (rq_order_id (em_request e)) (rq_contributions (em_request e))) sent
                 (al_contributions s),
              strategy_capitals := capitals\<rparr>)))"

definition sized_batch ::
  "allocation_state \<Rightarrow> batch \<Rightarrow> intent list \<Rightarrow> (string, decimal) od \<Rightarrow> (string, decimal) od \<Rightarrow>
   (sized list \<times> (commitment_key \<times> decimal) list \<times> allocation_note list) res" where
  "sized_batch s b valid unit_prices unit_budget_prices =
     rbind (rfold (size_step s b unit_prices unit_budget_prices) ([], []) valid) (\<lambda>(sizes, notes).
       if enforce_strategy_budgets (budget s) \<and> sizes \<noteq> [] then
         rbind (within_ceilings s b unit_prices unit_budget_prices sizes) (\<lambda>f.
           Inr (cf_admitted f, cf_commitments f, notes @ cf_notes f))
       else Inr (sizes, [], notes))"

definition allocate_batch ::
  "(nat \<Rightarrow> string) \<Rightarrow> allocation_state \<Rightarrow> intent list \<Rightarrow> batch \<Rightarrow> pyfloat \<Rightarrow>
   (allocation_state \<times> order_request list \<times> allocation_note list) res" where
  "allocate_batch oids s valid b timestamp =
     rbind (per_unit ACCOUNTING_CONTEXT (bt_prices b) (bt_multipliers b)) (\<lambda>unit_prices.
     rbind (per_unit ACCOUNTING_CONTEXT (bt_budget_prices b) (bt_multipliers b)) (\<lambda>unit_budget_prices.
     rbind (sized_batch s b valid unit_prices unit_budget_prices) (\<lambda>(sizes, commitments, notes).
     rbind (net_by_terms ACCOUNTING_CONTEXT sizes) (\<lambda>net.
     rbind (contributions_by_terms ACCOUNTING_CONTEXT sizes) (\<lambda>contribs.
     rbind (rfold (emit_step oids b timestamp unit_prices unit_budget_prices contribs)
              \<lparr>nf_total = zero_cents, nf_emitted = [], nf_projected = bt_positions b, nf_notes = notes\<rparr> net) (\<lambda>f.
     rbind (fits_budget s (nf_total f)) (\<lambda>(fitting, remaining).
       if \<not> fitting then Inr (s, [], nf_notes f @ [BudgetExceeded (nf_total f) remaining])
       else
         (let sent = sent_first (nf_emitted f) in
          rbind (book_emissions s commitments sent (nf_total f)) (\<lambda>s'.
            Inr (s', map em_request sent,
                 nf_notes f @ [AllocationCompleted (int (length sent)) (nf_total f)]))))))))))"

definition allocate ::
  "(nat \<Rightarrow> string) \<Rightarrow> (nat \<Rightarrow> string) \<Rightarrow> allocation_state \<Rightarrow> intent list \<Rightarrow> batch \<Rightarrow> pyfloat \<Rightarrow>
   (allocation_state \<times> order_request list) res" where
  "allocate eids oids s intents b timestamp =
     rbind (rfold screen ([], []) intents) (\<lambda>(valid, refused).
     let started = AllocationStarted (int (length intents)) # refused in
     if valid = [] then Inr (s\<lparr>al_events := al_events s @ stamp eids timestamp started\<rparr>, [])
     else
       rbind (allocate_batch oids s valid b timestamp) (\<lambda>(s', orders, notes).
         Inr (s'\<lparr>al_events := al_events s @ stamp eids timestamp (started @ notes)\<rparr>, orders)))"

section \<open>After allocation\<close>

definition initialize :: "capital_budget \<Rightarrow> allocation_state" where
  "initialize b = \<lparr>budget = b, al_history = [], al_events = [], notional_allocated = zero_cents, reservations = [],
     al_contributions = [], strategy_positions = Some [], strategy_capitals = []\<rparr>"

definition contributions_for :: "allocation_state \<Rightarrow> string \<Rightarrow> strategy_contribution list" where
  "contributions_for s oid = (case od_get (al_contributions s) oid of None \<Rightarrow> [] | Some cs \<Rightarrow> cs)"

definition release_share :: "string \<Rightarrow> (string, strategy_capital) od \<Rightarrow> strategy_contribution \<Rightarrow> (string, strategy_capital) od res" where
  "release_share oid capitals c =
     (case od_get capitals (contributor c) of
        None \<Rightarrow> Inr capitals
      | Some x \<Rightarrow>
          if od_get (reserved x) oid = None then Inr capitals
          else rbind (release oid x) (\<lambda>x'. Inr (od_set (contributor c) x' capitals)))"

definition retire_contributions :: "allocation_state \<Rightarrow> string \<Rightarrow> allocation_state res" where
  "retire_contributions s oid =
     (case od_get (al_contributions s) oid of
        None \<Rightarrow> Inr s
      | Some cs \<Rightarrow>
          rbind (if strategy_capitals s = [] then Inr [] else rfold (release_share oid) (strategy_capitals s) cs) (\<lambda>capitals.
            Inr (s\<lparr>al_contributions := od_del oid (al_contributions s), strategy_capitals := capitals\<rparr>)))"

definition POSITION_QUANTUM :: decimal where "POSITION_QUANTUM = Fin 1 (-12)"

text \<open>A position booked under a strategy, and the new map of all of them.\<close>

definition set_position ::
  "string \<Rightarrow> string \<Rightarrow> decimal \<Rightarrow> (string, (string, decimal) od) od \<Rightarrow> (string, (string, decimal) od) od" where
  "set_position sid asset x positions =
     od_set sid (od_set asset x (case od_get positions sid of None \<Rightarrow> [] | Some held \<Rightarrow> held)) positions"

definition fill_share ::
  "capital_budget \<Rightarrow> string \<Rightarrow> string \<Rightarrow> bool \<Rightarrow> decimal \<Rightarrow>
   (string, (string, decimal) od) od \<times> (string, strategy_capital) od \<Rightarrow> string \<times> decimal \<Rightarrow>
   ((string, (string, decimal) od) od \<times> (string, strategy_capital) od) res" where
  "fill_share b oid asset ceilinged unit_value st part =
     (case st of (positions, capitals) \<Rightarrow> case part of (sid, share) \<Rightarrow>
        let held = own_position positions sid asset in
        rbind (dec_add ACCOUNTING_CONTEXT held share) (\<lambda>after.
          if ceilinged \<and> strategy_ceiling b sid \<noteq> None then
            rbind (capital_fill ACCOUNTING_CONTEXT oid asset held share unit_value
                     (case od_get capitals sid of None \<Rightarrow> no_capital | Some c \<Rightarrow> c)) (\<lambda>c.
              Inr (set_position sid asset after positions, od_set sid c capitals))
          else Inr (set_position sid asset after positions, capitals)))"

definition record_fill ::
  "allocation_state \<Rightarrow> string \<Rightarrow> string \<Rightarrow> decimal \<Rightarrow> decimal option \<Rightarrow> allocation_state res" where
  "record_fill s oid asset signed executed_notional =
     (case strategy_positions s of
        None \<Rightarrow> Inr s
      | Some positions \<Rightarrow>
          if contributions_for s oid = [] \<or> dec_eq signed dec_zero then Inr s
          else
            let ceilinged = (enforce_strategy_budgets (budget s) \<and> executed_notional \<noteq> None) in
            rbind (if ceilinged then rbind (dec_abs ACCOUNTING_CONTEXT signed) (dec_div ACCOUNTING_CONTEXT (the executed_notional))
                   else Inr dec_zero) (\<lambda>unit_value.
            rbind (split_by_contribution signed (contributions_for s oid) POSITION_QUANTUM) (\<lambda>parts.
            rbind (rfold (fill_share (budget s) oid asset ceilinged unit_value) (positions, strategy_capitals s) parts)
              (\<lambda>(positions', capitals).
              Inr (s\<lparr>strategy_positions := Some positions', strategy_capitals := capitals\<rparr>)))))"

definition split_position ::
  "string \<Rightarrow> decimal \<Rightarrow> (string, (string, decimal) od) od \<Rightarrow> string \<times> (string, decimal) od \<Rightarrow>
   (string, (string, decimal) od) od res" where
  "split_position asset ratio restated entry = (case entry of (sid, held) \<Rightarrow>
     (case od_get held asset of
        None \<Rightarrow> Inr restated
      | Some q \<Rightarrow> rbind (dec_mul ACCOUNTING_CONTEXT q ratio) (\<lambda>q'. Inr (od_set sid (od_set asset q' held) restated))))"

definition alloc_apply_split :: "allocation_state \<Rightarrow> string \<Rightarrow> decimal \<Rightarrow> allocation_state res" where
  "alloc_apply_split s asset ratio =
     (case strategy_positions s of
        None \<Rightarrow> Inr s
      | Some positions \<Rightarrow>
          rbind (rfold (split_position asset ratio) positions positions) (\<lambda>restated.
            Inr (s\<lparr>strategy_positions := Some restated\<rparr>)))"

text \<open>A position the venue closed: its capital is released by a fill of the opposite quantity at no value.\<close>

definition close_capital ::
  "dctx \<Rightarrow> string \<Rightarrow> string \<Rightarrow> decimal \<Rightarrow> decimal \<Rightarrow> decimal \<Rightarrow> (string, strategy_capital) od \<Rightarrow> (string, strategy_capital) od res" where
  "close_capital amb sid asset held quantity unit_value capitals =
     (case od_get capitals sid of
        None \<Rightarrow> Inr capitals
      | Some c \<Rightarrow> rbind (capital_fill amb [] asset held quantity unit_value c) (\<lambda>c'. Inr (od_set sid c' capitals)))"

definition settle_step ::
  "string \<Rightarrow> (string, (string, decimal) od) od \<times> (string, strategy_capital) od \<times> strategy_contribution list \<Rightarrow>
   string \<times> (string, decimal) od \<Rightarrow>
   ((string, (string, decimal) od) od \<times> (string, strategy_capital) od \<times> strategy_contribution list) res" where
  "settle_step asset st entry =
     (case st of (restated, capitals, shares) \<Rightarrow> case entry of (sid, held) \<Rightarrow>
        case od_get held asset of
          None \<Rightarrow> Inr (restated, capitals, shares)
        | Some q \<Rightarrow>
            if dec_eq q dec_zero then Inr (restated, capitals, shares)
            else
              rbind (if od_get capitals sid = None then Inr capitals
                     else rbind (dec_neg ACCOUNTING_CONTEXT q) (\<lambda>n.
                            close_capital ACCOUNTING_CONTEXT sid asset q n dec_zero capitals)) (\<lambda>capitals'.
                Inr (od_set sid (od_del asset held) restated, capitals',
                     shares @ [\<lparr>contributor = sid, contributed = copy_abs q\<rparr>])))"

definition settle_asset :: "allocation_state \<Rightarrow> string \<Rightarrow> (allocation_state \<times> strategy_contribution list) res" where
  "settle_asset s asset =
     (case strategy_positions s of
        None \<Rightarrow> Inr (s, [])
      | Some positions \<Rightarrow>
          rbind (rfold (settle_step asset) (positions, strategy_capitals s, []) positions) (\<lambda>(restated, capitals, shares).
            if shares = [] then Inr (s, [])
            else Inr (s\<lparr>strategy_positions := Some restated, strategy_capitals := capitals\<rparr>, shares)))"

definition shares_of :: "allocation_state \<Rightarrow> string \<Rightarrow> (string \<times> decimal) list" where
  "shares_of s asset =
     (case strategy_positions s of
        None \<Rightarrow> []
      | Some positions \<Rightarrow>
          List.map_filter (\<lambda>(sid, held).
            if dec_eq (amount_or_zero held asset) dec_zero then None
            else Some (sid, the (od_get held asset))) positions)"

text \<open>A position after an event: deleted when it is zero, and a deletion of what is not there raises.\<close>

definition rebook :: "string \<Rightarrow> string \<Rightarrow> decimal \<Rightarrow> (string, (string, decimal) od) od \<Rightarrow> (string, (string, decimal) od) od res" where
  "rebook sid asset after positions =
     (let held = (case od_get positions sid of None \<Rightarrow> [] | Some h \<Rightarrow> h) in
      if dec_eq after dec_zero then
        (if od_get held asset = None then Inl KeyError else Inr (od_set sid (od_del asset held) positions))
      else Inr (set_position sid asset after positions))"

definition close_share ::
  "dctx \<Rightarrow> string \<Rightarrow> (string, (string, decimal) od) od \<times> (string, strategy_capital) od \<Rightarrow> string \<times> decimal \<Rightarrow>
   ((string, (string, decimal) od) od \<times> (string, strategy_capital) od) res" where
  "close_share amb asset st entry = (case st of (restated, capitals) \<Rightarrow> case entry of (sid, q) \<Rightarrow>
     let held = own_position restated sid asset in
     rbind (dec_sub ACCOUNTING_CONTEXT held q) (\<lambda>after.
     rbind (rebook sid asset after restated) (\<lambda>restated'.
     rbind (if od_get capitals sid = None then Inr capitals
            else rbind (dec_neg amb q) (\<lambda>n. close_capital amb sid asset held n dec_zero capitals)) (\<lambda>capitals'.
       Inr (restated', capitals')))))"

definition deliver_share ::
  "dctx \<Rightarrow> string \<Rightarrow> decimal \<Rightarrow> (string, (string, decimal) od) od \<times> (string, strategy_capital) od \<Rightarrow> string \<times> decimal \<Rightarrow>
   ((string, (string, decimal) od) od \<times> (string, strategy_capital) od) res" where
  "deliver_share amb asset unit_value st entry = (case st of (restated, capitals) \<Rightarrow> case entry of (sid, units) \<Rightarrow>
     let held = own_position restated sid asset in
     rbind (dec_add ACCOUNTING_CONTEXT held units) (\<lambda>after.
     rbind (rebook sid asset after restated) (\<lambda>restated'.
     rbind (close_capital amb sid asset held units unit_value capitals) (\<lambda>capitals'.
       Inr (restated', capitals')))))"

definition apply_lifecycle ::
  "dctx \<Rightarrow> allocation_state \<Rightarrow> string \<Rightarrow> (string, decimal) od \<Rightarrow> string option \<Rightarrow> (string, decimal) od option \<Rightarrow>
   decimal \<Rightarrow> allocation_state res" where
  "apply_lifecycle amb s asset closings delivered_asset delivered unit_value =
     (case strategy_positions s of
        None \<Rightarrow> Inr s
      | Some positions \<Rightarrow>
          rbind (rfold (close_share amb asset) (positions, strategy_capitals s) closings) (\<lambda>st.
          rbind (case (delivered_asset, delivered) of
                   (Some received, Some units) \<Rightarrow> rfold (deliver_share amb received unit_value) st units
                 | _ \<Rightarrow> Inr st) (\<lambda>(restated, capitals).
            Inr (s\<lparr>strategy_positions := Some restated, strategy_capitals := capitals\<rparr>))))"

section \<open>Reservations\<close>

text \<open>What an execution consumes, and the reservations it leaves.\<close>

definition consume :: "(string, decimal) od \<Rightarrow> string \<Rightarrow> decimal \<Rightarrow> (decimal \<times> (string, decimal) od) res" where
  "consume rs oid executed =
     (case od_get rs oid of
        None \<Rightarrow> Inr (zero_cents, rs)
      | Some held \<Rightarrow>
          rbind (dec_min held executed) (\<lambda>consumed.
          rbind (dec_sub ACCOUNTING_CONTEXT held consumed) (\<lambda>remaining.
          rbind (dec_le remaining zero_cents) (\<lambda>spent.
            Inr (consumed, if spent then od_del oid rs else od_set oid remaining rs)))))"

definition apply_execution :: "string \<Rightarrow> allocation_state \<Rightarrow> string \<Rightarrow> decimal \<Rightarrow> pyfloat \<Rightarrow> allocation_state res" where
  "apply_execution eid s oid executed timestamp =
     rbind (consume (reservations s) oid executed) (\<lambda>(consumed, rs).
     rbind (dec_sub ACCOUNTING_CONTEXT (notional_allocated s) consumed) (\<lambda>n.
       Inr (s\<lparr>notional_allocated := n, reservations := rs,
              al_events := al_events s @ [\<lparr>ae_id = eid, ae_timestamp = timestamp,
                ae_note = AllocationExecutionApplied oid executed\<rparr>]\<rparr>)))"

definition release_reservation :: "string \<Rightarrow> allocation_state \<Rightarrow> string \<Rightarrow> pyfloat \<Rightarrow> allocation_state res" where
  "release_reservation eid s oid timestamp =
     (case od_get (reservations s) oid of
        None \<Rightarrow> Inl UnknownReservationError
      | Some released \<Rightarrow>
          rbind (dec_sub ACCOUNTING_CONTEXT (notional_allocated s) released) (\<lambda>n.
            Inr (s\<lparr>notional_allocated := n, reservations := od_del oid (reservations s),
                   al_events := al_events s @ [\<lparr>ae_id = eid, ae_timestamp = timestamp,
                     ae_note = AllocationReservationReleased oid released\<rparr>]\<rparr>)))"

end
