(* ===== verification/Allocation_Ledger.thy ===== *)
theory Allocation_Ledger
  imports Allocation_Engine
begin

text \<open>
  The capital allocation holds against the budget. Every reservation is a number no finer than
  \<open>10 powi e\<close>, and sums below \<open>10 powi (e + 34)\<close> of those are exact in the accounting context; a sum
  that is not exact is larger, and the budget refuses it. So the ledger and its total agree in every
  state the engine reaches, whatever batches, fills and releases arrive, and neither passes the budget.
\<close>

section \<open>Checked sums\<close>

definition money_room :: "int \<Rightarrow> bool" where
  "money_room e = (-900000 \<le> e \<and> e \<le> -2)"

lemma grid_mono: "grid e d \<Longrightarrow> e' \<le> e \<Longrightarrow> grid e' d"
  by (cases d) (auto simp: grid_def)

lemma fix_grid:
  assumes "dec_fix ACCOUNTING_CONTEXT (Fin c x) = Inr r" "e \<le> x" "money_room e"
  shows "grid e r"
proof (cases "x \<le> 999999")
  case True
  obtain c' x' where r: "r = Fin c' x'" using dec_fix_finite [OF _ assms(1)] by (auto simp: is_finite_iff)
  from dec_fix_exponent [of ACCOUNTING_CONTEXT c x c' x'] assms(1,2) True r show ?thesis by (simp add: grid_def)
next
  case False
  then have "c = 0" using dec_fix_huge_exponent [OF assms(1)] by simp
  with assms False show ?thesis by (auto simp: dec_fix.simps(1) grid_def money_room_def)
qed

lemma fix_checked:
  assumes f: "dec_fix ACCOUNTING_CONTEXT (Fin c x) = Inr r" "e \<le> x" "money_room e" and small: "\<bar>dval r\<bar> < 10 powi (e + 34)"
  shows "dval r = dval (Fin c x)"
proof (cases "x \<le> 999999")
  case True
  have "(10::rat) powi (e + 34) \<le> 10 powi (x + 34)" by (rule power_int_increasing) (use assms(2) in auto)
  then have "\<bar>dval r\<bar> < 10 powi (x + int (prec ACCOUNTING_CONTEXT))" using small by simp
  from dec_fix_small_exact [OF f(1) _ _ _ this] True assms(2,3) show ?thesis
    by (simp add: money_room_def Etiny_def)
next
  case False
  then have "c = 0" using dec_fix_huge_exponent [OF f(1)] by simp
  with f(1) show ?thesis by (auto simp: dec_fix.simps(1))
qed

lemma sum_checked:
  assumes "dec_add ACCOUNTING_CONTEXT a b = Inr r" "grid e a" "grid e b" "money_room e"
  shows "grid e r" "\<bar>dval r\<bar> < 10 powi (e + 34) \<Longrightarrow> dval r = dval a + dval b"
    "0 \<le> dval a \<Longrightarrow> 0 \<le> dval b \<Longrightarrow> 0 \<le> dval r"
proof -
  obtain c x d y where ab: "a = Fin c x" "b = Fin d y" "e \<le> x" "e \<le> y"
    using gridD [OF assms(2)] gridD [OF assms(3)] by auto
  obtain k where k: "add_exact a b = Fin k (min x y)" by (simp add: ab Let_def)
  have v: "dval (Fin k (min x y)) = dval a + dval b" unfolding k [symmetric] by (rule dval_add_exact) (simp_all add: ab)
  have f: "dec_fix ACCOUNTING_CONTEXT (Fin k (min x y)) = Inr r" using assms(1) k by (simp add: ab)
  show "grid e r" using fix_grid [OF f _ assms(4)] ab by simp
  show "dval r = dval a + dval b" if "\<bar>dval r\<bar> < 10 powi (e + 34)"
    using fix_checked [OF f _ assms(4) that] ab v by simp
  show "0 \<le> dval r" if "0 \<le> dval a" "0 \<le> dval b"
    using dec_fix_value_nonneg [OF _ f] v that by simp
qed

lemma grid_neg_exact [simp]: "grid e (dec_neg_exact d) = grid e d"
  by (cases d) (simp_all add: grid_def)

lemma difference_checked:
  assumes "dec_sub ACCOUNTING_CONTEXT a b = Inr r" "grid e a" "grid e b" "money_room e"
  shows "grid e r" "\<bar>dval r\<bar> < 10 powi (e + 34) \<Longrightarrow> dval r = dval a - dval b"
  using sum_checked(1,2) [OF assms(1) [unfolded dec_sub_def] assms(2) _ assms(4)] assms(3) by simp_all

text \<open>A sum below the bound is exact.\<close>

lemma exact_sum:
  assumes "dec_add ACCOUNTING_CONTEXT a b = Inr r" "grid e a" "grid e b" "money_room e"
    and "\<bar>dval a + dval b\<bar> < 10 powi (e + 34)"
  shows "grid e r" "dval r = dval a + dval b"
proof -
  show "grid e r" using sum_checked(1) [OF assms(1-4)] .
  have fin: "is_finite a" "is_finite b" using assms(2,3) grid_finite by blast+
  obtain c x d y where ab: "a = Fin c x" "b = Fin d y" "e \<le> x" "e \<le> y"
    using gridD [OF assms(2)] gridD [OF assms(3)] by auto
  obtain k where k: "add_exact a b = Fin k (min x y)" by (simp add: ab Let_def)
  have v: "dval (Fin k (min x y)) = dval a + dval b" unfolding k [symmetric] by (rule dval_add_exact) (simp_all add: fin)
  have f: "dec_fix ACCOUNTING_CONTEXT (Fin k (min x y)) = Inr r" using assms(1) k by (simp add: ab)
  show "dval r = dval a + dval b"
  proof (cases "k = 0")
    case True
    with f v show ?thesis by (auto simp: dec_fix.simps(1))
  next
    case False
    have "\<bar>dval (Fin k (min x y))\<bar> < 10 powi (e + 34)" using assms(5) v by simp
    from digits_magnitude [OF False this] have "min x y + int (num_digits (nat \<bar>k\<bar>)) \<le> e + 34" .
    moreover have "0 < num_digits (nat \<bar>k\<bar>)" by simp
    ultimately have "fits ACCOUNTING_CONTEXT (Fin k (min x y))" using ab assms(4)
      by (auto simp: Etiny_def money_room_def)
    from dec_fix_fits [OF this] f v show ?thesis by simp
  qed
qed

lemma exact_difference:
  assumes "dec_sub ACCOUNTING_CONTEXT a b = Inr r" "grid e a" "grid e b" "money_room e"
    and "\<bar>dval a - dval b\<bar> < 10 powi (e + 34)"
  shows "grid e r" "dval r = dval a - dval b"
  using exact_sum [OF assms(1) [unfolded dec_sub_def] assms(2) _ assms(4)] assms(3,5) by simp_all

text \<open>What is taken from a larger amount below the bound is taken exactly.\<close>

lemma taken_exactly:
  assumes "dec_sub ACCOUNTING_CONTEXT a b = Inr r" "grid e a" "grid e b" "money_room e"
    and "0 \<le> dval b" "dval b \<le> dval a" "dval a < 10 powi (e + 34)"
  shows "grid e r" "dval r = dval a - dval b"
  using exact_difference [OF assms(1-4)] assms(5-7) by simp_all

lemma product_grid:
  assumes "dec_mul ACCOUNTING_CONTEXT a b = Inr r" "grid u a" "grid v b" "money_room (u + v)"
  shows "grid (u + v) r" "0 \<le> dval a \<Longrightarrow> 0 \<le> dval b \<Longrightarrow> 0 \<le> dval r"
proof -
  obtain c x d y where ab: "a = Fin c x" "b = Fin d y" "u \<le> x" "v \<le> y"
    using gridD [OF assms(2)] gridD [OF assms(3)] by auto
  have f: "dec_fix ACCOUNTING_CONTEXT (Fin (c * d) (x + y)) = Inr r" using assms(1) by (simp add: ab)
  show "grid (u + v) r" using fix_grid [OF f _ assms(4)] ab by simp
  show "0 \<le> dval r" if "0 \<le> dval a" "0 \<le> dval b"
    using dec_fix_value_nonneg [OF _ f] that dval_mul_exact [of a b] by (simp add: ab)
qed

lemma grid_copy_abs [simp]: "grid e (copy_abs d) = grid e d"
  by (cases d) (simp_all add: grid_def)

lemma abs_grid:
  assumes "dec_abs ACCOUNTING_CONTEXT a = Inr r" "grid e a" "money_room e"
  shows "grid e r" "0 \<le> dval r"
proof -
  obtain c x where a: "a = Fin c x" "e \<le> x" using gridD [OF assms(2)] by auto
  have f: "dec_fix ACCOUNTING_CONTEXT (Fin \<bar>c\<bar> x) = Inr r" using assms(1) by (simp add: a)
  show "grid e r" by (rule fix_grid [OF f a(2) assms(3)])
  show "0 \<le> dval r" using dec_fix_value_nonneg [OF _ f] by (simp add: dval.simps(1))
qed

lemma max_zero_grid:
  assumes "dec_max dec_zero a = Inr r" "grid e a" "e \<le> 0"
  shows "grid e r" "0 \<le> dval r"
proof -
  have fin: "is_finite a" by (rule grid_finite [OF assms(2)])
  then have r: "r = (if 0 < dval a then a else dec_zero)" using assms(1) by (simp add: dec_max_def)
  show "grid e r" using r assms(2,3) by (simp add: grid_def)
  show "0 \<le> dval r" using r by simp
qed

section \<open>Sums of a ledger\<close>

definition ledger_sum :: "(string, decimal) od \<Rightarrow> rat" where
  "ledger_sum rs = sum_list (map (\<lambda>(k, v). dval v) rs)"

lemma ledger_sum_set:
  "od_ok rs \<Longrightarrow> ledger_sum (od_set k v rs) =
     ledger_sum rs - (case od_get rs k of None \<Rightarrow> 0 | Some x \<Rightarrow> dval x) + dval v"
proof (induction rs)
  case (Cons p rs)
  then have "od_ok rs" by (simp add: od_ok_def)
  with Cons show ?case by (cases p) (auto simp: ledger_sum_def od_get_Cons split: option.splits)
qed (simp add: ledger_sum_def od_get_def)

lemma ledger_sum_del:
  "od_ok rs \<Longrightarrow> ledger_sum (od_del k rs) = ledger_sum rs - (case od_get rs k of None \<Rightarrow> 0 | Some x \<Rightarrow> dval x)"
proof (induction rs)
  case (Cons p rs)
  then have ok: "od_ok rs" "fst p \<notin> fst ` set rs" by (auto simp: od_ok_def)
  have "od_del k (p # rs) = (if fst p = k then od_del k rs else p # od_del k rs)" by (simp add: od_del_def)
  moreover have "fst p = k \<Longrightarrow> od_get rs k = None" using ok(2) by (auto simp: od_get_None od_keys_def)
  ultimately show ?case using Cons.IH [OF ok(1)] by (cases p) (auto simp: ledger_sum_def od_get_Cons)
qed (simp add: ledger_sum_def od_get_def od_del_def)

lemma ledger_sum_part:
  assumes "od_ok rs" "list_all (\<lambda>v. 0 \<le> dval v) (od_values rs)" "od_get rs k = Some v"
  shows "dval v \<le> ledger_sum rs" "0 \<le> dval v"
proof -
  have "list_all (\<lambda>v. 0 \<le> dval v) (od_values (od_del k rs))" using assms(2) by (auto simp: list_all_iff od_values_def od_del_def)
  then have "0 \<le> ledger_sum (od_del k rs)"
    unfolding ledger_sum_def by (intro sum_list_nonneg) (auto simp: list_all_iff od_values_def)
  then show "dval v \<le> ledger_sum rs" using ledger_sum_del [OF assms(1), of k] assms(3) by simp
  show "0 \<le> dval v" using assms(2) od_get_values [OF assms(3)] by (simp add: list_all_iff)
qed

section \<open>Figures on a grid, infinite ones included\<close>

text \<open>A figure no finer than \<open>10 powi e\<close>, and one that is moreover not negative; both allow what is not finite.\<close>

fun loose :: "int \<Rightarrow> decimal \<Rightarrow> bool" where
  "loose e (Fin c x) = (e \<le> x)"
| "loose e _ = True"

fun heavy :: "int \<Rightarrow> decimal \<Rightarrow> bool" where
  "heavy e (Fin c x) = (e \<le> x \<and> 0 \<le> c)"
| "heavy e (Infinite n) = (\<not> n)"
| "heavy e NaN = True"

lemma loose_grid: "is_finite d \<Longrightarrow> loose e d = grid e d"
  by (cases d) (simp_all add: grid_def)

lemma heavy_grid: "is_finite d \<Longrightarrow> heavy e d \<longleftrightarrow> grid e d \<and> 0 \<le> dval d"
  by (cases d) (auto simp: grid_def dval_nonneg_iff)

lemma heavy_loose: "heavy e d \<Longrightarrow> loose e d"
  by (cases d) auto

lemma loose_mono: "loose e d \<Longrightarrow> e' \<le> e \<Longrightarrow> loose e' d"
  by (cases d) auto

lemma loose_add:
  assumes "dec_add ACCOUNTING_CONTEXT a b = Inr r" "loose e a" "loose e b" "money_room e"
  shows "loose e r"
proof (cases "is_finite a \<and> is_finite b")
  case True
  then have "grid e r" using sum_checked(1) [OF assms(1) _ _ assms(4)] assms(2,3) loose_grid by simp
  then show ?thesis using loose_grid [OF grid_finite [OF \<open>grid e r\<close>]] by simp
next
  case False
  with assms(1) show ?thesis by (cases a; cases b) (auto split: if_splits)
qed

lemma loose_neg_exact [simp]: "loose e (dec_neg_exact d) = loose e d"
  by (cases d) simp_all

lemma loose_sub:
  "dec_sub ACCOUNTING_CONTEXT a b = Inr r \<Longrightarrow> loose e a \<Longrightarrow> loose e b \<Longrightarrow> money_room e \<Longrightarrow> loose e r"
  unfolding dec_sub_def by (rule loose_add [of a "dec_neg_exact b"]) simp_all

lemma loose_mul:
  assumes "dec_mul ACCOUNTING_CONTEXT a b = Inr r" "loose u a" "loose v b" "money_room (u + v)"
  shows "loose (u + v) r"
proof (cases "is_finite a \<and> is_finite b")
  case True
  then have "grid (u + v) r" using product_grid(1) [OF assms(1) _ _ assms(4)] assms(2,3) loose_grid by simp
  then show ?thesis using loose_grid [OF grid_finite [OF \<open>grid (u + v) r\<close>]] by simp
next
  case False
  with assms(1) show ?thesis by (cases a; cases b) (auto split: if_splits)
qed

lemma heavy_abs:
  assumes "dec_abs ACCOUNTING_CONTEXT a = Inr r" "loose e a" "money_room e"
  shows "heavy e r"
proof (cases "is_finite a")
  case True
  then have "grid e r" "0 \<le> dval r" using abs_grid [OF assms(1) _ assms(3)] assms(2) loose_grid by simp_all
  then show ?thesis using heavy_grid grid_finite by blast
next
  case False
  with assms(1) show ?thesis by (cases a) auto
qed

lemma heavy_copy_abs: "loose e d \<Longrightarrow> heavy e (copy_abs d)"
  by (cases d) auto

lemma heavy_max:
  assumes "dec_max dec_zero a = Inr r" "loose e a" "e \<le> 0"
  shows "heavy e r"
proof (cases "is_finite a")
  case True
  then show ?thesis using max_zero_grid [OF assms(1) _ assms(3)] assms(2) loose_grid heavy_grid grid_finite by blast
next
  case False
  with assms show ?thesis by (cases a) (auto simp: dec_max_def)
qed

lemma heavy_add:
  assumes "dec_add ACCOUNTING_CONTEXT a b = Inr r" "heavy e a" "heavy e b" "money_room e"
  shows "heavy e r"
proof (cases "is_finite a \<and> is_finite b")
  case True
  then have "grid e r" "0 \<le> dval r" using sum_checked(1,3) [OF assms(1) _ _ assms(4)] assms(2,3) heavy_grid by simp_all
  then show ?thesis using heavy_grid grid_finite by blast
next
  case False
  with assms(1-3) show ?thesis by (cases a; cases b) (auto split: if_splits)
qed

lemma heavy_mul:
  assumes "dec_mul ACCOUNTING_CONTEXT a b = Inr r" "heavy u a" "heavy v b" "money_room (u + v)"
  shows "heavy (u + v) r"
proof (cases "is_finite a \<and> is_finite b")
  case True
  then have "grid (u + v) r" "0 \<le> dval r" using product_grid [OF assms(1) _ _ assms(4)] assms(2,3) heavy_grid by simp_all
  then show ?thesis using heavy_grid grid_finite by blast
next
  case False
  with assms(1-3) show ?thesis by (cases a; cases b) (auto split: if_splits)
qed

lemma fix_loose:
  assumes "dec_fix ctx (Fin c x) = Inr r" "e \<le> x" "e \<le> Emax ctx" "Etiny ctx \<le> Emax ctx"
  shows "loose e r"
proof (cases "x \<le> Emax ctx")
  case True
  obtain c' x' where r: "r = Fin c' x'" using dec_fix_finite [OF _ assms(1)] by (auto simp: is_finite_iff)
  from dec_fix_exponent [of ctx c x c' x'] assms(1,2) True r show ?thesis by simp
next
  case False
  then have "c = 0" using dec_fix_huge_exponent [OF assms(1)] by simp
  with assms False show ?thesis by (auto simp: dec_fix.simps(1))
qed

lemma loose_to_integral: "loose e d \<Longrightarrow> e \<le> 0 \<Longrightarrow> loose e (to_integral m d)"
  by (cases d) auto

lemma loose_quantize:
  assumes "dec_quantize ctx a (Fin d e) = Inr r"
  shows "loose e r"
proof (cases a)
  case (Fin c x)
  then have "dec_quantize ctx (Fin c x) (Fin d e) = Inr r" using assms by simp
  from dec_quantize_result(1) [OF this] show ?thesis by simp
qed (use assms in auto)

lemma whole_lots_loose: "exactly_whole_lots a s = Inr q \<Longrightarrow> loose 0 q"
  by (cases a; cases s) (auto simp: exactly_whole_lots_def rbind_eq_Inr div_rem_def Let_def split: if_splits)

lemma exact_result_loose:
  "exact_result EXACT_LOTS (Fin c x) = Inr r \<Longrightarrow> e \<le> x \<Longrightarrow> e \<le> 0 \<Longrightarrow> loose e r"
  using fix_loose [of EXACT_LOTS c x r e]
  by (auto simp: exact_result_def rbind_eq_Inr EXACT_LOTS_def Etiny_def ACCOUNTING_PRECISION_def split: if_splits)

lemma times_loose:
  assumes "exactly_times q s = Inr r" "loose 0 q" "loose e s" "e \<le> 0"
  shows "loose e r"
proof (cases "is_finite q \<and> is_finite s")
  case True
  then obtain c x d y where qs: "q = Fin c x" "s = Fin d y" by (auto simp: is_finite_iff)
  with assms show ?thesis
    by (auto simp: exactly_times_def exact_mul_def intro!: exact_result_loose)
next
  case False
  with assms(1) show ?thesis
    by (cases q; cases s) (auto simp: exactly_times_def exact_mul_def split: if_splits)
qed

lemma round_down_loose:
  assumes "round_down_to_lot d l = Inr r" "loose e (lot_size l)" "e \<le> 0"
  shows "loose e r"
proof -
  from assms(1) obtain k x below where k: "exactly_whole_lots (copy_abs d) (lot_size l) = Inr k"
      "exactly_times k (lot_size l) = Inr x" and r: "below \<and> r = dec_zero \<or> r = copy_negate x \<or> r = x"
    by (auto simp: round_down_to_lot_def rbind_eq_Inr Let_def split: if_splits)
  have "loose e x" by (rule times_loose [OF k(2) whole_lots_loose [OF k(1)] assms(2,3)])
  with r assms(3) show ?thesis by (auto simp: copy_negate_def)
qed

end
