(* ===== verification/Allocation_Budget.thy ===== *)
theory Allocation_Budget
  imports Allocation_Ledger "HOL-Library.Multiset"
begin

text \<open>
  The reservations through the engine's operations. A batch's figures lie on grids: quantities on
  \<open>10 powi q\<close>, prices on \<open>10 powi p\<close> and multipliers on \<open>10 powi m\<close>, so what an order commits lies on
  \<open>10 powi (q + p + m)\<close>.
\<close>

section \<open>What is on a grid\<close>

definition on_grid :: "int \<Rightarrow> ('k, decimal) od \<Rightarrow> bool" where
  "on_grid e m = list_all (loose e) (od_values m)"

lemma on_grid_get: "on_grid e m \<Longrightarrow> od_get m k = Some v \<Longrightarrow> loose e v"
  using od_get_values [of m k v] by (simp add: on_grid_def list_all_iff)

lemma on_grid_zero: "on_grid e m \<Longrightarrow> e \<le> 0 \<Longrightarrow> loose e (amount_or_zero m k)"
  by (auto simp: amount_or_zero_def on_grid_get split: option.split)

lemma values_set: "set (od_values (od_set k v m)) \<subseteq> insert v (set (od_values m))"
  unfolding od_values_def by (induction k v m rule: od_set.induct) (auto split: if_splits)

lemma values_del: "set (od_values (od_del k m)) \<subseteq> set (od_values m)"
  by (auto simp: od_values_def od_del_def)

lemma values_del_all: "list_all P (od_values m) \<Longrightarrow> list_all P (od_values (od_del k m))"
  using values_del [of k m] by (auto simp: list_all_iff)

lemma on_grid_set: "on_grid e m \<Longrightarrow> loose e v \<Longrightarrow> on_grid e (od_set k v m)"
  using values_set [of k v m] by (auto simp: on_grid_def list_all_iff)

definition batch_on_grid :: "int \<Rightarrow> int \<Rightarrow> int \<Rightarrow> batch \<Rightarrow> bool" where
  "batch_on_grid q p m b =
     (q \<le> -6 \<and> p \<le> -2 \<and> m \<le> 0 \<and> -900000 \<le> q + p + m \<and>
      (\<forall>i c x r. bt_model b i c x = Inr r \<longrightarrow> loose q r) \<and>
      on_grid p (bt_prices b) \<and> on_grid p (bt_budget_prices b) \<and>
      on_grid m (bt_multipliers b) \<and> od_ok (bt_multipliers b) \<and>
      pred_option (on_grid q) (bt_positions b) \<and> list_all (\<lambda>l. loose q (lot_size l)) (od_values (bt_lots b)))"

text \<open>The package's own sizing models all size to the quantum.\<close>

lemma models_size_to_the_quantum:
  assumes "model \<in> {fixed_quantity amb, fixed_dollar amb, target_weight amb, equal_weight amb n,
    volatility_target amb v vols}" "model i c x = Inr r"
  shows "loose (-6) r"
proof -
  have "\<exists>a. dec_quantize amb a QUANTITY_QUANTUM = Inr r"
    using assms by (auto simp: fixed_quantity_def fixed_dollar_def target_weight_def equal_weight_def
      volatility_target_def signed_size_def rbind_eq_Inr)
  then show ?thesis using loose_quantize by (auto simp: QUANTITY_QUANTUM_def)
qed

section \<open>Prices of one unit\<close>

lemma scaled_once:
  assumes "rfold (scale_price ACCOUNTING_CONTEXT) prices ms = Inr r" "distinct (od_keys ms)"
    and "\<And>k v. od_get prices k = Some v \<Longrightarrow> loose (if k \<in> set (od_keys ms) then p else p + m) v"
    and "on_grid m ms" "money_room (p + m)" "od_get r k = Some v"
  shows "loose (p + m) v"
  using assms
proof (induction ms arbitrary: prices)
  case Nil
  then show ?case by (simp add: od_keys_def)
next
  case (Cons entry ms)
  obtain asset x where e: "entry = (asset, x)" by (cases entry)
  obtain prices' where st: "scale_price ACCOUNTING_CONTEXT prices entry = Inr prices'"
    and rest: "rfold (scale_price ACCOUNTING_CONTEXT) prices' ms = Inr r"
    using Cons.prems(1) by (auto simp: rbind_eq_Inr)
  have keys: "asset \<notin> set (od_keys ms)" "distinct (od_keys ms)" and x: "loose m x" and ms: "on_grid m ms"
    using Cons.prems(2,4) by (simp_all add: e od_keys_def on_grid_def od_values_def)
  have new: "loose (if k' \<in> set (od_keys ms) then p else p + m) v'" if "od_get prices' k' = Some v'" for k' v'
  proof (cases "od_get prices asset")
    case None
    then have "prices' = prices" using st by (simp add: scale_price_def e)
    with that None have "k' \<noteq> asset" by auto
    with Cons.prems(3) [of k' v'] that \<open>prices' = prices\<close> show ?thesis by (simp add: e od_keys_def)
  next
    case (Some price)
    then obtain y where y: "dec_mul ACCOUNTING_CONTEXT price x = Inr y" "prices' = od_set asset y prices"
      using st by (auto simp: scale_price_def e rbind_eq_Inr)
    have "loose p price" using Cons.prems(3) [OF Some] by (simp add: e od_keys_def)
    with y(1) x Cons.prems(5) have "loose (p + m) y" by (intro loose_mul)
    with y(2) that keys(1) Cons.prems(3) [of k' v'] show ?thesis
      by (auto simp: e od_keys_def split: if_splits)
  qed
  from Cons.IH [OF rest keys(2) new ms Cons.prems(5,6)] show ?case .
qed

lemma per_unit_loose:
  assumes "per_unit ACCOUNTING_CONTEXT prices ms = Inr r" "on_grid p prices" "on_grid m ms" "od_ok ms" "m \<le> 0"
    "money_room (p + m)" "od_get r k = Some v"
  shows "loose (p + m) v"
proof (cases "ms = [] \<or> prices = []")
  case True
  with assms(1) have "r = prices" by (auto simp: per_unit_def)
  then have "loose p v" using on_grid_get [OF assms(2)] assms(7) by simp
  then show ?thesis by (rule loose_mono) (use assms(5) in simp)
next
  case False
  then have f: "rfold (scale_price ACCOUNTING_CONTEXT) prices ms = Inr r" using assms(1) by (auto simp: per_unit_def)
  have "loose (if k' \<in> set (od_keys ms) then p else p + m) v'" if "od_get prices k' = Some v'" for k' v'
    using loose_mono [OF on_grid_get [OF assms(2) that], of "p + m"] on_grid_get [OF assms(2) that] assms(5) by simp
  from scaled_once [OF f _ this assms(3,6,7)] assms(4) show ?thesis by (simp add: od_ok_def od_keys_def)
qed

section \<open>Sizing and netting\<close>

lemma round_toward_loose:
  assumes "round_toward target committed whole l = Inr d" "q \<le> -6" "pred_option (\<lambda>l. loose q (lot_size l)) l"
  shows "loose q d"
proof -
  obtain diff x where x: "dec_quantize DOWN_CONTEXT diff QUANTITY_QUANTUM = Inr x"
    and d: "(case l of None \<Rightarrow> Inr (if whole then to_integral ROUND_DOWN x else x)
      | Some l \<Rightarrow> round_down_to_lot (if whole then to_integral ROUND_DOWN x else x) l) = Inr d"
    using assms(1) by (auto simp: round_toward_def rbind_eq_Inr Let_def)
  have "loose (-6) x" using x loose_quantize by (auto simp: QUANTITY_QUANTUM_def)
  then have "loose q (if whole then to_integral ROUND_DOWN x else x)"
    using assms(2) by (auto intro: loose_mono loose_to_integral)
  with d assms(2,3) show ?thesis by (cases l) (auto intro: round_down_loose)
qed

lemma target_delta_loose:
  assumes "target_delta s i up bp working l minimum whole = Inr d" "q \<le> -6" "pred_option (\<lambda>l. loose q (lot_size l)) l"
  shows "loose q d"
proof -
  obtain t c x where x: "round_toward t c whole l = Inr x" and d: "d = x"
    using assms(1) by (auto simp: target_delta_def check_minimum_def rbind_eq_Inr split: if_splits option.splits)
  show ?thesis using round_toward_loose [OF x assms(2,3)] d by simp
qed

definition sizes_loose :: "int \<Rightarrow> sized list \<Rightarrow> bool" where
  "sizes_loose q sizes = list_all (\<lambda>(sid, asset, terms, x). loose q x) sizes"

lemma size_one_loose:
  assumes "size_one s b up bp i = Inr x" "batch_on_grid q p m b"
  shows "loose q x"
proof (cases "in_kind i = DELTA")
  case True
  with assms show ?thesis by (auto simp: size_one_def size_intent_def batch_on_grid_def)
next
  case False
  have "pred_option (\<lambda>l. loose q (lot_size l)) (od_get (bt_lots b) (instrument i))"
    using assms(2) od_get_values [of "bt_lots b" "instrument i"]
    by (auto simp: batch_on_grid_def list_all_iff pred_option_def split: option.split)
  with False assms show ?thesis by (auto simp: size_one_def batch_on_grid_def intro: target_delta_loose)
qed

lemma admit_admitted: "admit f d held c running = Inr f' \<Longrightarrow> cf_admitted f' = cf_admitted f @ [d]"
  by (cases d) (auto simp: admit_def rbind_eq_Inr)

lemma ceiling_step_cases:
  assumes st: "ceiling_step s b up bp f (sid, asset, terms, x) = Inr f'" and ceil: "strategy_ceiling (budget s) sid = Some ceil"
  obtains (reduces) held added c where "held_for_ceiling s (bt_working b) f sid asset = Inr held"
      "adding_exposure ACCOUNTING_CONTEXT held x = Inr added"
      "dec_mul ACCOUNTING_CONTEXT added (copy_abs (unit_value_of up bp dec_zero asset)) = Inr c"
      "dec_lt dec_zero c = Inr False" "admit f (sid, asset, terms, x) held c (cf_running f) = Inr f'"
  | (refused) "f' = f\<lparr>cf_notes := cf_notes f @ [AllocationRejected]\<rparr>"
  | (commits) held added c r where "held_for_ceiling s (bt_working b) f sid asset = Inr held"
      "adding_exposure ACCOUNTING_CONTEXT held x = Inr added"
      "dec_mul ACCOUNTING_CONTEXT added (copy_abs (unit_value_of up bp dec_zero asset)) = Inr c"
      "dec_lt dec_zero c = Inr True" "over_ceiling s sid ceil (cf_running f) c = Inr False"
      "dec_add ACCOUNTING_CONTEXT (amount_or_zero (cf_running f) sid) c = Inr r"
      "admit f (sid, asset, terms, x) held c (od_set sid r (cf_running f)) = Inr f'"
proof -
  obtain held added c positive where h: "held_for_ceiling s (bt_working b) f sid asset = Inr held"
      "adding_exposure ACCOUNTING_CONTEXT held x = Inr added"
      "dec_mul ACCOUNTING_CONTEXT added (copy_abs (unit_value_of up bp dec_zero asset)) = Inr c"
      "dec_lt dec_zero c = Inr positive"
    and last: "(if \<not> positive then admit f (sid, asset, terms, x) held c (cf_running f)
      else rbind (over_ceiling s sid ceil (cf_running f) c) (\<lambda>refused.
        if refused then Inr (f\<lparr>cf_notes := cf_notes f @ [AllocationRejected]\<rparr>)
        else rbind (dec_add ACCOUNTING_CONTEXT (amount_or_zero (cf_running f) sid) c) (\<lambda>r.
          admit f (sid, asset, terms, x) held c (od_set sid r (cf_running f))))) = Inr f'"
    using st unfolding ceiling_step_def prod.case ceil option.case rbind_eq_Inr by blast
  show thesis
  proof (cases positive)
    case False
    with h last show ?thesis by (intro reduces) simp_all
  next
    case True
    then obtain over where o: "over_ceiling s sid ceil (cf_running f) c = Inr over"
      and rest: "(if over then Inr (f\<lparr>cf_notes := cf_notes f @ [AllocationRejected]\<rparr>)
        else rbind (dec_add ACCOUNTING_CONTEXT (amount_or_zero (cf_running f) sid) c) (\<lambda>r.
          admit f (sid, asset, terms, x) held c (od_set sid r (cf_running f)))) = Inr f'"
      using last by (auto simp: rbind_eq_Inr)
    show ?thesis
    proof (cases over)
      case True
      with rest show ?thesis by (intro refused) simp
    next
      case False
      with rest obtain r where "dec_add ACCOUNTING_CONTEXT (amount_or_zero (cf_running f) sid) c = Inr r"
        "admit f (sid, asset, terms, x) held c (od_set sid r (cf_running f)) = Inr f'" by (auto simp: rbind_eq_Inr)
      with h o False \<open>positive\<close> show ?thesis by (intro commits) simp_all
    qed
  qed
qed

lemma ceiling_step_admitted:
  assumes "ceiling_step s b up bp f d = Inr f'"
  shows "cf_admitted f' = cf_admitted f \<or> cf_admitted f' = cf_admitted f @ [d]"
proof -
  obtain sid asset terms x where d: "d = (sid, asset, terms, x)" by (cases d)
  show ?thesis
  proof (cases "strategy_ceiling (budget s) sid")
    case None
    with assms d show ?thesis by (auto simp: ceiling_step_def)
  next
    case (Some ceil)
    show ?thesis by (rule ceiling_step_cases [OF assms [unfolded d] Some]) (auto simp: d dest: admit_admitted)
  qed
qed

lemma ceiling_step_loose:
  assumes "sizes_loose q (cf_admitted f)" "sizes_loose q [d]" "ceiling_step s b up bp f d = Inr f'"
  shows "sizes_loose q (cf_admitted f')"
  using ceiling_step_admitted [OF assms(3)] assms(1,2) by (auto simp: sizes_loose_def)

lemma sized_batch_loose:
  assumes "sized_batch s b valid up bp = Inr (sizes, commitments, notes)" "batch_on_grid q p m b"
  shows "sizes_loose q sizes"
proof -
  obtain xs ns where xs: "rfold (size_step s b up bp) ([], []) valid = Inr (xs, ns)"
    and rest: "if enforce_strategy_budgets (budget s) \<and> xs \<noteq> []
      then \<exists>f. within_ceilings s b up bp xs = Inr f \<and> sizes = cf_admitted f else sizes = xs"
    using assms(1) by (auto simp: sized_batch_def rbind_eq_Inr split: if_splits)
  have "sizes_loose q (fst (xs, ns))"
  proof (rule rfold_invariant [OF _ _ xs, where P = "\<lambda>st. sizes_loose q (fst st)"])
    fix st i st'
    assume "sizes_loose q (fst st)" "size_step s b up bp st i = Inr st'"
    then show "sizes_loose q (fst st')"
      using size_one_loose [OF _ assms(2)]
      by (auto simp: size_step_def sizes_loose_def split: prod.splits sum.splits if_splits)
  qed (simp add: sizes_loose_def)
  then have x: "sizes_loose q xs" by simp
  show ?thesis
  proof (cases "enforce_strategy_budgets (budget s) \<and> xs \<noteq> []")
    case False
    with rest x show ?thesis by auto
  next
    case True
    with rest obtain f where f: "within_ceilings s b up bp xs = Inr f" "sizes = cf_admitted f" by auto
    have "sizes_loose q (cf_admitted f)"
    proof (rule rfold_invariant [OF _ _ f(1) [unfolded within_ceilings_def], where P = "\<lambda>f. sizes_loose q (cf_admitted f)"])
      fix g d g'
      assume g: "sizes_loose q (cf_admitted g)" "d \<in> set xs" "ceiling_step s b up bp g d = Inr g'"
      have "sizes_loose q [d]" using g(2) x by (auto simp: sizes_loose_def list_all_iff)
      from ceiling_step_loose [OF g(1) this g(3)] show "sizes_loose q (cf_admitted g')" .
    qed (simp add: sizes_loose_def)
    with f show ?thesis by simp
  qed
qed

lemma kd_get_in: "kd_get eq m k = Some v \<Longrightarrow> \<exists>k'. (k', v) \<in> set m \<and> eq k k'"
  by (induction m) (auto split: if_splits)

lemma kd_set_in: "(k', v') \<in> set (kd_set eq k v m) \<Longrightarrow> v' = v \<or> (k', v') \<in> set m"
  by (induction m) (auto split: if_splits)

lemma net_loose:
  assumes "net_by_terms ACCOUNTING_CONTEXT sizes = Inr net" "sizes_loose q sizes" "q \<le> -6" "money_room q" "(k, x) \<in> set net"
  shows "loose q x"
proof -
  have "\<forall>(k, x) \<in> set net. loose q x"
  proof (rule rfold_invariant [OF _ _ assms(1) [unfolded net_by_terms_def], where P = "\<lambda>net. \<forall>(k, x) \<in> set net. loose q x"])
    fix net d net'
    assume ok: "\<forall>(k, x) \<in> set net. loose q x" "d \<in> set sizes" and st: "net_step ACCOUNTING_CONTEXT net d = Inr net'"
    obtain sid asset terms x where d: "d = (sid, asset, terms, x)" by (cases d)
    have x: "loose q x" using ok(2) assms(2) by (auto simp: d sizes_loose_def list_all_iff)
    define t0 where "t0 = (case kd_get key_eq net (asset, terms) of None \<Rightarrow> zero_cents | Some t \<Rightarrow> t)"
    have t0: "loose q t0"
      using ok(1) assms(3) kd_get_in [of key_eq net "(asset, terms)"] by (auto simp: t0_def split: option.split)
    obtain t where t: "dec_add ACCOUNTING_CONTEXT t0 x = Inr t" "net' = kd_set key_eq (asset, terms) t net"
      using st by (auto simp: net_step_def d t0_def rbind_eq_Inr)
    have "loose q t" by (rule loose_add [OF t(1) t0 x assms(4)])
    then show "\<forall>(k, x) \<in> set net'. loose q x" using ok(1) t(2) kd_set_in by fastforce
  qed simp
  with assms(5) show ?thesis by auto
qed

section \<open>The orders of a batch\<close>

lemma emitE:
  assumes "emit oids b t up bp contribs f k x held = Inr f'"
  obtains buys magnitude adding reduces commitment total after where
    "(case held of None \<Rightarrow> Inr None | Some h \<Rightarrow> rbind (dec_add ACCOUNTING_CONTEXT h x) (\<lambda>y. Inr (Some y))) = Inr after"
    "dec_lt dec_zero x = Inr buys" "dec_abs ACCOUNTING_CONTEXT x = Inr magnitude"
    "exposure_added x held = Inr (adding, reduces)"
    "dec_mul ACCOUNTING_CONTEXT adding (copy_abs (unit_value_of up bp
       (case od_get (bt_prices b) (fst k) of None \<Rightarrow> zero_cents | Some p \<Rightarrow> p) (fst k))) = Inr commitment"
    "dec_add ACCOUNTING_CONTEXT (nf_total f) commitment = Inr total"
    "f' = f\<lparr>nf_total := total,
       nf_emitted := nf_emitted f @ [\<lparr>em_request = net_request (oids (length (nf_emitted f))) b t contribs k
          (if buys then BUY else SELL) magnitude, em_commitment = commitment, em_reduces = reduces\<rparr>],
       nf_projected := (case nf_projected f of None \<Rightarrow> None
         | Some m \<Rightarrow> (case after of None \<Rightarrow> Some m | Some y \<Rightarrow> Some (od_set (fst k) y m))),
       nf_notes := nf_notes f @ [NettingCompleted (fst k) magnitude (if buys then BUY else SELL)]\<rparr>"
proof -
  have "rq_price (net_request oid b t contribs k sd magnitude) =
      (case od_get (bt_prices b) (fst k) of None \<Rightarrow> zero_cents | Some p \<Rightarrow> p)" for oid sd magnitude
    by (simp add: net_request_def)
  with assms that show thesis unfolding emit_def rbind_eq_Inr Let_def by (auto simp: rbind_eq_Inr split: prod.splits)
qed

lemma exposure_heavy:
  assumes "exposure_added x held = Inr (adding, reduces)" "loose q x" "pred_option (loose q) held" "money_room q"
  shows "heavy q adding"
proof (cases held)
  case None
  with assms(1) show ?thesis by (auto simp: exposure_added_def rbind_eq_Inr intro: heavy_abs [OF _ assms(2,4)])
next
  case (Some h)
  then obtain y after before grown where y: "dec_add ACCOUNTING_CONTEXT h x = Inr y" "dec_abs ACCOUNTING_CONTEXT y = Inr after"
    "dec_abs ACCOUNTING_CONTEXT h = Inr before" "dec_sub ACCOUNTING_CONTEXT after before = Inr grown"
    "dec_max dec_zero grown = Inr adding"
    using assms(1) by (auto simp: exposure_added_def rbind_eq_Inr)
  have h: "loose q h" using assms(3) Some by simp
  have a: "loose q y" by (rule loose_add [OF y(1) h assms(2,4)])
  have "loose q after" "loose q before"
    using heavy_abs [OF y(2) a assms(4)] heavy_abs [OF y(3) h assms(4)] heavy_loose by blast+
  then have "loose q grown" using loose_sub [OF y(4)] assms(4) by blast
  with y(5) assms(4) show ?thesis by (intro heavy_max) (auto simp: money_room_def)
qed

definition nf_ok :: "int \<Rightarrow> int \<Rightarrow> (nat \<Rightarrow> string) \<Rightarrow> net_fold \<Rightarrow> bool" where
  "nf_ok e q oids f =
     (heavy e (nf_total f) \<and> pred_option (on_grid q) (nf_projected f) \<and>
      map (\<lambda>x. rq_order_id (em_request x)) (nf_emitted f) = map oids [0..<length (nf_emitted f)] \<and>
      (is_finite (nf_total f) \<and> dval (nf_total f) < 10 powi (e + 34) \<longrightarrow>
         list_all (\<lambda>x. grid e (em_commitment x) \<and> 0 \<le> dval (em_commitment x)) (nf_emitted f) \<and>
         dval (nf_total f) = sum_list (map (\<lambda>x. dval (em_commitment x)) (nf_emitted f))))"

text \<open>A total that stays below the bound adds up exactly, and so did what it was added to.\<close>

lemma total_step:
  assumes "dec_add ACCOUNTING_CONTEXT t c = Inr r" "heavy e t" "heavy e c" "money_room e"
    and small: "is_finite r" "dval r < 10 powi (e + 34)"
  shows "is_finite t \<and> dval t < 10 powi (e + 34) \<and> grid e c \<and> 0 \<le> dval c \<and> dval r = dval t + dval c"
proof -
  have fin: "is_finite t" "is_finite c" using assms(1) small(1) by (cases t; cases c; auto split: if_splits)+
  then have g: "grid e t" "0 \<le> dval t" "grid e c" "0 \<le> dval c" using assms(2,3) heavy_grid by auto
  have "0 \<le> dval r" using sum_checked(3) [OF assms(1) g(1,3) assms(4)] g by blast
  with small have "dval r = dval t + dval c" by (intro sum_checked(2) [OF assms(1) g(1,3) assms(4)]) simp
  with fin g small show ?thesis by auto
qed

lemma emit_ok:
  assumes em: "emit oids b t up bp contribs f k x held = Inr f'" and ok: "nf_ok e q oids f"
    and figures: "loose q x" "pred_option (loose q) held" "loose v (unit_value_of up bp
       (case od_get (bt_prices b) (fst k) of None \<Rightarrow> zero_cents | Some p \<Rightarrow> p) (fst k))"
    and room: "money_room q" "e = q + v" "money_room e"
  shows "nf_ok e q oids f'"
proof (rule emitE [OF em])
  fix buys magnitude adding reduces commitment total after
  assume st: "(case held of None \<Rightarrow> Inr None | Some h \<Rightarrow> rbind (dec_add ACCOUNTING_CONTEXT h x) (\<lambda>y. Inr (Some y))) = Inr after"
    "dec_lt dec_zero x = Inr buys" "dec_abs ACCOUNTING_CONTEXT x = Inr magnitude"
    "exposure_added x held = Inr (adding, reduces)"
    "dec_mul ACCOUNTING_CONTEXT adding (copy_abs (unit_value_of up bp
       (case od_get (bt_prices b) (fst k) of None \<Rightarrow> zero_cents | Some p \<Rightarrow> p) (fst k))) = Inr commitment"
    "dec_add ACCOUNTING_CONTEXT (nf_total f) commitment = Inr total"
    and f': "f' = f\<lparr>nf_total := total,
       nf_emitted := nf_emitted f @ [\<lparr>em_request = net_request (oids (length (nf_emitted f))) b t contribs k
          (if buys then BUY else SELL) magnitude, em_commitment = commitment, em_reduces = reduces\<rparr>],
       nf_projected := (case nf_projected f of None \<Rightarrow> None
         | Some m \<Rightarrow> (case after of None \<Rightarrow> Some m | Some y \<Rightarrow> Some (od_set (fst k) y m))),
       nf_notes := nf_notes f @ [NettingCompleted (fst k) magnitude (if buys then BUY else SELL)]\<rparr>"
  have "heavy q adding" by (rule exposure_heavy [OF st(4) figures(1,2) room(1)])
  then have c: "heavy e commitment" unfolding room(2)
    by (rule heavy_mul [OF st(5) _ heavy_copy_abs [OF figures(3)]]) (use room in simp)
  have t: "heavy e (nf_total f)" using ok by (simp add: nf_ok_def)
  have total: "heavy e total" by (rule heavy_add [OF st(6) t c room(3)])
  have "pred_option (loose q) after"
    using st(1) figures(1,2) room(1) by (auto simp: rbind_eq_Inr intro: loose_add split: option.splits)
  then have proj: "pred_option (on_grid q) (nf_projected f')"
    using ok by (auto simp: f' nf_ok_def intro: on_grid_set split: option.splits)
  have ids: "map (\<lambda>x. rq_order_id (em_request x)) (nf_emitted f') = map oids [0..<length (nf_emitted f')]"
    using ok by (simp add: f' nf_ok_def net_request_def)
  have exact: "list_all (\<lambda>x. grid e (em_commitment x) \<and> 0 \<le> dval (em_commitment x)) (nf_emitted f') \<and>
      dval (nf_total f') = sum_list (map (\<lambda>x. dval (em_commitment x)) (nf_emitted f'))"
    if "is_finite (nf_total f')" "dval (nf_total f') < 10 powi (e + 34)"
  proof -
    have "is_finite total" "dval total < 10 powi (e + 34)" using that by (simp_all add: f')
    from total_step [OF st(6) t c room(3) this] ok show ?thesis by (simp add: f' nf_ok_def)
  qed
  show ?thesis unfolding nf_ok_def using total proj ids exact by (simp add: f')
qed

lemma emit_step_ok:
  assumes st: "emit_step oids b t up bp contribs f (k, net_qty) = Inr f'" and ok: "nf_ok e q oids f"
    and figures: "loose q net_qty" "\<And>a v'. od_get up a = Some v' \<Longrightarrow> loose v v'" "\<And>a v'. od_get bp a = Some v' \<Longrightarrow> loose v v'"
      "on_grid p (bt_prices b)" "v \<le> p" "p \<le> -2"
    and room: "money_room q" "e = q + v" "money_room e"
  shows "nf_ok e q oids f'"
proof -
  define x where "x = (if enforce_integer_quantities (bt_constraints b) then to_integral ROUND_HALF_EVEN net_qty else net_qty)"
  define held where "held = (case nf_projected f of None \<Rightarrow> None | Some m \<Rightarrow> Some (amount_or_zero m (fst k)))"
  have x: "loose q x" using figures(1) room(1) by (auto simp: x_def money_room_def intro: loose_to_integral)
  have proj: "pred_option (on_grid q) (nf_projected f)" using ok by (simp add: nf_ok_def)
  have h: "pred_option (loose q) held"
  proof (cases "nf_projected f")
    case (Some m)
    with proj room(1) show ?thesis by (simp add: held_def money_room_def on_grid_zero)
  qed (simp add: held_def)
  have price: "loose v (case od_get (bt_prices b) (fst k) of None \<Rightarrow> zero_cents | Some p \<Rightarrow> p)"
    using loose_mono [OF on_grid_get [OF figures(4)] figures(5)] figures(5,6) by (auto split: option.split)
  then have unit: "loose v (unit_value_of up bp (case od_get (bt_prices b) (fst k) of None \<Rightarrow> zero_cents | Some p \<Rightarrow> p) (fst k))"
    using figures(2,3) by (auto simp: unit_value_of_def split: option.splits)
  have same: "nf_ok e q oids (f\<lparr>nf_notes := nf_notes f @ ns\<rparr>)" for ns using ok by (simp add: nf_ok_def)
  from st have "f' = f \<or> f' = f\<lparr>nf_notes := nf_notes f @ [AllocationRejected]\<rparr> \<or>
      emit oids b t up bp contribs f k x held = Inr f'"
    unfolding emit_step_def prod.case x_def [symmetric] held_def [symmetric] Let_def
    by (auto split: if_splits sum.splits)
  then show ?thesis using ok same emit_ok [OF _ ok x h unit room] by auto
qed

section \<open>The ledger\<close>

definition available_capital :: "capital_budget \<Rightarrow> rat" where
  "available_capital b = (case available_global_capital ACCOUNTING_CONTEXT b of Inl e \<Rightarrow> 0 | Inr a \<Rightarrow> dval a)"

text \<open>Between the amounts of a budget that are finite and within the exact range.\<close>

definition budget_fits :: "int \<Rightarrow> capital_budget \<Rightarrow> bool" where
  "budget_fits e b =
     (money_room e \<and> is_finite (global_capital b) \<and> is_finite (cash_buffer b) \<and> is_finite (maximum_exposure b) \<and>
      available_capital b < 10 powi (e + 34))"

definition ledger_ok :: "int \<Rightarrow> capital_budget \<Rightarrow> allocation_state \<Rightarrow> bool" where
  "ledger_ok e b s =
     (budget s = b \<and> od_ok (reservations s) \<and>
      list_all (\<lambda>v. grid e v \<and> 0 \<le> dval v) (od_values (reservations s)) \<and>
      grid e (notional_allocated s) \<and> dval (notional_allocated s) = ledger_sum (reservations s) \<and>
      dval (notional_allocated s) \<le> max 0 (available_capital b) \<and>
      dval (notional_allocated s) \<le> max 0 (dval (maximum_exposure b)) \<and>
      set (od_keys (reservations s)) \<subseteq> rq_order_id ` set (al_history s))"

lemma available_is:
  assumes "available_global_capital ACCOUNTING_CONTEXT b = Inr a" "budget_fits e b"
  shows "is_finite a" "dval a = available_capital b" "0 \<le> dval a"
proof -
  obtain d where d: "dec_sub ACCOUNTING_CONTEXT (global_capital b) (cash_buffer b) = Inr d" "dec_max zero_cents d = Inr a"
    using assms(1) by (auto simp: available_global_capital_def rbind_eq_Inr)
  have "is_finite d" using dec_sub_finite [OF _ _ d(1)] assms(2) by (simp add: budget_fits_def)
  with d(2) show "is_finite a" "0 \<le> dval a" by (auto simp: dec_max_def)
  show "dval a = available_capital b" using assms(1) by (simp add: available_capital_def)
qed

lemma same_ledger:
  assumes "ledger_ok e b s" "budget s' = budget s" "reservations s' = reservations s"
    "notional_allocated s' = notional_allocated s" "al_history s' = al_history s"
  shows "ledger_ok e b s'"
  using assms by (simp add: ledger_ok_def)

text \<open>An entry set or dropped while the total moves with it.\<close>

lemma ledger_moves:
  assumes ok: "ledger_ok e b s" and n: "grid e n" "dval n = ledger_sum rs" and rs: "od_ok rs"
    "list_all (\<lambda>v. grid e v \<and> 0 \<le> dval v) (od_values rs)" "set (od_keys rs) \<subseteq> set (od_keys (reservations s))"
    and less: "dval n \<le> dval (notional_allocated s)"
  shows "ledger_ok e b (s\<lparr>notional_allocated := n, reservations := rs, al_events := evs\<rparr>)"
  using assms by (auto simp: ledger_ok_def)

lemma ledger_facts:
  assumes "ledger_ok e b s" "budget_fits e b"
  shows "money_room e" "od_ok (reservations s)" "list_all (\<lambda>v. grid e v \<and> 0 \<le> dval v) (od_values (reservations s))"
    "grid e (notional_allocated s)" "dval (notional_allocated s) = ledger_sum (reservations s)"
    "dval (notional_allocated s) < 10 powi (e + 34)" "0 \<le> dval (notional_allocated s)"
proof -
  show ok: "money_room e" "od_ok (reservations s)" "list_all (\<lambda>v. grid e v \<and> 0 \<le> dval v) (od_values (reservations s))"
    "grid e (notional_allocated s)" "dval (notional_allocated s) = ledger_sum (reservations s)"
    using assms by (simp_all add: ledger_ok_def budget_fits_def)
  have "dval (notional_allocated s) \<le> max 0 (available_capital b)" using assms(1) unfolding ledger_ok_def by blast
  moreover have "max 0 (available_capital b) < 10 powi (e + 34)" using assms(2) by (simp add: budget_fits_def)
  ultimately show "dval (notional_allocated s) < 10 powi (e + 34)" by (rule order.strict_trans1)
  have "0 \<le> ledger_sum (reservations s)" unfolding ledger_sum_def
    using ok(3) by (intro sum_list_nonneg) (auto simp: list_all_iff od_values_def)
  then show "0 \<le> dval (notional_allocated s)" using ok(5) by simp
qed

lemma release_ledger:
  assumes "release_reservation eid s oid t = Inr s'" "ledger_ok e b s" "budget_fits e b"
  shows "ledger_ok e b s'"
proof -
  obtain held n evs where h: "od_get (reservations s) oid = Some held"
    "dec_sub ACCOUNTING_CONTEXT (notional_allocated s) held = Inr n"
    "s' = s\<lparr>notional_allocated := n, reservations := od_del oid (reservations s), al_events := evs\<rparr>"
    using assms(1) by (auto simp: release_reservation_def rbind_eq_Inr split: option.splits)
  note ok = ledger_facts [OF assms(2,3)]
  have held: "grid e held" using ok(3) od_get_values [OF h(1)] by (simp add: list_all_iff)
  have part: "dval held \<le> ledger_sum (reservations s)" "0 \<le> dval held"
    using ledger_sum_part [OF ok(2) _ h(1)] ok(3) by (simp_all add: list_all_iff)
  have n: "grid e n" "dval n = dval (notional_allocated s) - dval held"
    using taken_exactly [OF h(2) ok(4) held ok(1) part(2)] part ok by simp_all
  have "dval n = ledger_sum (od_del oid (reservations s))" using n(2) ok(5) ledger_sum_del [OF ok(2), of oid] h(1) by simp
  with n part ok assms(2) h(3) show ?thesis
    by (auto intro!: ledger_moves values_del_all simp: od_keys_del)
qed

lemma consume_ledger:
  assumes "apply_execution eid s oid x t = Inr s'" "ledger_ok e b s" "budget_fits e b" "grid e x" "0 \<le> dval x"
  shows "ledger_ok e b s'"
proof (cases "od_get (reservations s) oid")
  case None
  then obtain n evs where "dec_sub ACCOUNTING_CONTEXT (notional_allocated s) zero_cents = Inr n"
    "s' = s\<lparr>notional_allocated := n, reservations := reservations s, al_events := evs\<rparr>"
    using assms(1) by (auto simp: apply_execution_def consume_def rbind_eq_Inr)
  moreover note ok = ledger_facts [OF assms(2,3)]
  moreover have "grid e zero_cents" using ok(1) by (simp add: grid_def money_room_def)
  ultimately have "grid e n \<and> dval n = dval (notional_allocated s)"
    using taken_exactly [of "notional_allocated s" zero_cents n e] by simp
  with assms(2) \<open>s' = _\<close> show ?thesis by (auto intro!: ledger_moves simp: ledger_ok_def)
next
  case (Some held)
  then obtain taken left spent n evs where h: "dec_min held x = Inr taken" "dec_sub ACCOUNTING_CONTEXT held taken = Inr left"
    "dec_le left zero_cents = Inr spent" "dec_sub ACCOUNTING_CONTEXT (notional_allocated s) taken = Inr n"
    "s' = s\<lparr>notional_allocated := n, reservations := (if spent then od_del oid (reservations s)
        else od_set oid left (reservations s)), al_events := evs\<rparr>"
    using assms(1) by (auto simp: apply_execution_def consume_def rbind_eq_Inr)
  note ok = ledger_facts [OF assms(2,3)]
  have held: "grid e held" using ok(3) od_get_values [OF Some] by (simp add: list_all_iff)
  have part: "dval held \<le> ledger_sum (reservations s)" "0 \<le> dval held"
    using ledger_sum_part [OF ok(2) _ Some] ok(3) by (simp_all add: list_all_iff)
  have taken: "grid e taken" "0 \<le> dval taken" "dval taken \<le> dval held"
    using h(1) held part(2) assms(4,5) grid_finite by (auto simp: dec_min_def split: if_splits)
  have left: "grid e left" "dval left = dval held - dval taken"
    using taken_exactly [OF h(2) held taken(1) ok(1) taken(2,3)] part ok by simp_all
  have n: "grid e n" "dval n = dval (notional_allocated s) - dval taken"
    using taken_exactly [OF h(4) ok(4) taken(1) ok(1) taken(2)] part ok taken by simp_all
  have "is_finite left" by (rule grid_finite [OF left(1)])
  then have spent: "spent \<longleftrightarrow> dval left \<le> 0" using h(3) by simp
  define rs where "rs = (if spent then od_del oid (reservations s) else od_set oid left (reservations s))"
  have "dval n = ledger_sum rs"
    using n(2) ok(5) ledger_sum_del [OF ok(2), of oid] ledger_sum_set [OF ok(2), of oid left] Some spent left taken
    by (auto simp: rs_def)
  moreover have "set (od_values rs) \<subseteq> insert left (set (od_values (reservations s)))"
    using values_set [of oid left "reservations s"] values_del [of oid "reservations s"] by (auto simp: rs_def)
  then have "list_all (\<lambda>v. grid e v \<and> 0 \<le> dval v) (od_values rs)"
    using ok(3) left taken by (auto simp: list_all_iff)
  moreover have "set (od_keys rs) \<subseteq> set (od_keys (reservations s))" "od_ok rs"
    using od_get_Some_key [OF Some] ok(2) by (auto simp: rs_def od_keys_del)
  ultimately show ?thesis using n taken assms(2) unfolding h(5) rs_def [symmetric] by (intro ledger_moves) simp_all
qed

lemma reserve_all:
  assumes "od_ok rs" "distinct (map (\<lambda>x. rq_order_id (em_request x)) es)"
    "set (map (\<lambda>x. rq_order_id (em_request x)) es) \<inter> set (od_keys rs) = {}"
    "list_all (\<lambda>v. grid e v \<and> 0 \<le> dval v) (od_values rs)" "list_all (\<lambda>x. grid e (em_commitment x) \<and> 0 \<le> dval (em_commitment x)) es"
  defines "rs' \<equiv> fold (\<lambda>x. od_set (rq_order_id (em_request x)) (em_commitment x)) es rs"
  shows "od_ok rs' \<and> list_all (\<lambda>v. grid e v \<and> 0 \<le> dval v) (od_values rs') \<and>
    ledger_sum rs' = ledger_sum rs + sum_list (map (\<lambda>x. dval (em_commitment x)) es) \<and>
    set (od_keys rs') = set (od_keys rs) \<union> set (map (\<lambda>x. rq_order_id (em_request x)) es)"
  using assms(1-5) unfolding rs'_def
proof (induction es arbitrary: rs)
  case (Cons x es)
  let ?k = "rq_order_id (em_request x)" and ?v = "em_commitment x"
  have none: "od_get rs ?k = None" using Cons.prems(3) by (simp add: od_get_None)
  have vals: "list_all (\<lambda>v. grid e v \<and> 0 \<le> dval v) (od_values (od_set ?k ?v rs))"
    using Cons.prems(4,5) values_set [of ?k ?v rs] by (auto simp: list_all_iff)
  have "ledger_sum (od_set ?k ?v rs) = ledger_sum rs + dval ?v" using ledger_sum_set [OF Cons.prems(1), of ?k ?v] none by simp
  moreover have "set (map (\<lambda>x. rq_order_id (em_request x)) es) \<inter> set (od_keys (od_set ?k ?v rs)) = {}"
    using Cons.prems(2,3) by auto
  moreover note Cons.IH [OF od_ok_set [OF Cons.prems(1)] _ calculation(2) vals]
  ultimately show ?case using Cons.prems(2,5) by auto
qed simp

definition new_ids :: "(nat \<Rightarrow> string) \<Rightarrow> allocation_state \<Rightarrow> bool" where
  "new_ids oids s = (inj oids \<and> (\<forall>k. oids k \<notin> rq_order_id ` set (al_history s)))"

lemma sent_first_mset: "mset (sent_first es) = mset es"
  by (simp add: sent_first_def)

lemma sent_first_sum: "sum_list (map f (sent_first es)) = (sum_list (map f es) :: rat)"
  by (metis mset_map sent_first_mset sum_mset_sum_list)

lemma sent_first_set [simp]: "set (sent_first es) = set es"
  by (metis sent_first_mset set_mset_mset)

lemma sent_first_distinct: "distinct (map f (sent_first es)) = distinct (map f es)"
  by (metis mset_map sent_first_mset mset_eq_imp_distinct_iff)

lemma fits_budget_ok:
  assumes "fits_budget s n = Inr (True, remaining)" "budget_fits e (budget s)" "grid e (notional_allocated s)" "heavy e n"
    "0 \<le> dval (notional_allocated s)"
  obtains c where "dec_add ACCOUNTING_CONTEXT (notional_allocated s) n = Inr c" "is_finite n" "grid e c"
    "dval c \<le> available_capital (budget s)" "dval c \<le> dval (maximum_exposure (budget s))"
    "dval c = dval (notional_allocated s) + dval n" "dval n < 10 powi (e + 34)"
proof -
  let ?h = "notional_allocated s" and ?b = "budget s"
  obtain c a where c: "dec_add ACCOUNTING_CONTEXT ?h n = Inr c" "available_global_capital ACCOUNTING_CONTEXT ?b = Inr a"
    "dec_lt a c = Inr False" "dec_lt (maximum_exposure ?b) c = Inr False"
    using assms(1) by (auto simp: fits_budget_def rbind_eq_Inr split: if_splits)
  note a = available_is [OF c(2) assms(2)]
  have m: "is_finite (maximum_exposure ?b)" "money_room e" using assms(2) by (simp_all add: budget_fits_def)
  have h: "is_finite ?h" "heavy e ?h" using grid_finite [OF assms(3)] heavy_grid assms(3,5) by simp_all
  have heavy: "heavy e c" by (rule heavy_add [OF c(1) h(2) assms(4) m(2)])
  have fin: "is_finite c" using c(3) a(1) heavy by (cases c; cases a) auto
  have le: "dval c \<le> dval a" "dval c \<le> dval (maximum_exposure ?b)" using c(3,4) a(1) m(1) fin by simp_all
  have "dval c < 10 powi (e + 34)" using le(1) a(2) assms(2) unfolding budget_fits_def by linarith
  have n: "is_finite n" using c(1) fin h(1) by (cases n; cases "?h") auto
  then have "grid e n" "0 \<le> dval n" using assms(4) heavy_grid by simp_all
  have "0 \<le> dval c" using heavy heavy_grid fin by simp
  then have "dval c = dval ?h + dval n" using sum_checked(2) [OF c(1) assms(3) \<open>grid e n\<close> m(2)] \<open>dval c < _\<close> by simp
  with that c(1) n heavy heavy_grid fin le a(2) assms(5) \<open>dval c < _\<close> show thesis by simp
qed

lemma emissions_ok:
  assumes run: "rfold (emit_step oids b t up bp contribs)
      \<lparr>nf_total = zero_cents, nf_emitted = [], nf_projected = bt_positions b, nf_notes = notes\<rparr> net = Inr f"
    and units: "per_unit ACCOUNTING_CONTEXT (bt_prices b) (bt_multipliers b) = Inr up"
      "per_unit ACCOUNTING_CONTEXT (bt_budget_prices b) (bt_multipliers b) = Inr bp"
    and grid: "batch_on_grid q p m b" and net: "\<And>k x. (k, x) \<in> set net \<Longrightarrow> loose q x"
  shows "nf_ok (q + p + m) q oids f"
proof (rule rfold_invariant [OF _ _ run, where P = "nf_ok (q + p + m) q oids"])
  have room: "money_room q" "money_room (p + m)" "money_room (q + (p + m))" "p + m \<le> p" "p \<le> -2" "m \<le> 0"
    using grid by (auto simp: batch_on_grid_def money_room_def)
  have on: "on_grid p (bt_prices b)" "on_grid p (bt_budget_prices b)" "on_grid m (bt_multipliers b)" "od_ok (bt_multipliers b)"
    "pred_option (on_grid q) (bt_positions b)" using grid by (simp_all add: batch_on_grid_def)
  show "nf_ok (q + p + m) q oids \<lparr>nf_total = zero_cents, nf_emitted = [], nf_projected = bt_positions b, nf_notes = notes\<rparr>"
    using on(5) room(3) by (simp add: nf_ok_def money_room_def add.assoc)
  fix g entry g'
  assume g: "nf_ok (q + p + m) q oids g" "entry \<in> set net" "emit_step oids b t up bp contribs g entry = Inr g'"
  obtain k x where e: "entry = (k, x)" by (cases entry)
  have x: "loose q x" using net g(2) e by blast
  note U = per_unit_loose [OF units(1) on(1,3,4) room(6,2)] and B = per_unit_loose [OF units(2) on(2,3,4) room(6,2)]
  show "nf_ok (q + p + m) q oids g'"
    using emit_step_ok [OF g(3) [unfolded e] g(1) x U B on(1) room(4,5,1)] room(3) by (simp add: add.assoc)
qed

lemma allocate_ledger:
  assumes run: "allocate eids oids s intents b t = Inr (s', orders)" and ok: "ledger_ok e c s" and fits: "budget_fits e c"
    and grid: "batch_on_grid q p m b" and e: "e = q + p + m" and ids: "new_ids oids s"
  shows "ledger_ok e c s'"
proof -
  have bud: "budget s = c" using ok by (simp add: ledger_ok_def)
  obtain valid where V: "(\<exists>evs. s' = s\<lparr>al_events := evs\<rparr>) \<or>
      (\<exists>s1 ns evs. allocate_batch oids s valid b t = Inr (s1, orders, ns) \<and> s' = s1\<lparr>al_events := evs\<rparr>)"
    using run by (fastforce simp: allocate_def rbind_eq_Inr Let_def split: if_splits prod.splits)
  have frame: "ledger_ok e c (x\<lparr>al_events := evs\<rparr>)" if "ledger_ok e c x" for x evs
    by (rule same_ledger [OF that]) simp_all
  show ?thesis
  proof (cases "\<exists>evs. s' = s\<lparr>al_events := evs\<rparr>")
    case True
    with frame [OF ok] show ?thesis by auto
  next
    case False
    with V obtain s1 ns' evs where s1: "allocate_batch oids s valid b t = Inr (s1, orders, ns')" "s' = s1\<lparr>al_events := evs\<rparr>" by auto
    then obtain up bp sizes commitments ns net contribs f fitting remaining where B:
        "per_unit ACCOUNTING_CONTEXT (bt_prices b) (bt_multipliers b) = Inr up"
        "per_unit ACCOUNTING_CONTEXT (bt_budget_prices b) (bt_multipliers b) = Inr bp"
        "sized_batch s b valid up bp = Inr (sizes, commitments, ns)" "net_by_terms ACCOUNTING_CONTEXT sizes = Inr net"
        "rfold (emit_step oids b t up bp contribs)
           \<lparr>nf_total = zero_cents, nf_emitted = [], nf_projected = bt_positions b, nf_notes = ns\<rparr> net = Inr f"
        "fits_budget s (nf_total f) = Inr (fitting, remaining)"
      and book: "if \<not> fitting then s1 = s
        else book_emissions s commitments (sent_first (nf_emitted f)) (nf_total f) = Inr s1"
      unfolding allocate_batch_def rbind_eq_Inr Let_def by (auto simp: rbind_eq_Inr split: if_splits)
    have q: "q \<le> -6" "money_room q" using grid by (auto simp: batch_on_grid_def money_room_def)
    have net: "loose q x" if "(k, x) \<in> set net" for k x
      using net_loose [OF B(4) sized_batch_loose [OF B(3) grid] q that] .
    have nf: "nf_ok e q oids f" using emissions_ok [OF B(5) B(1,2) grid net] e by simp
    have "ledger_ok e c s1"
    proof (cases fitting)
      case False
      with book ok show ?thesis by simp
    next
      case True
      note L = ledger_facts [OF ok fits]
      have heavy: "heavy e (nf_total f)" using nf by (simp add: nf_ok_def)
      have fb: "fits_budget s (nf_total f) = Inr (True, remaining)" using B(6) True by simp
      obtain n where n: "dec_add ACCOUNTING_CONTEXT (notional_allocated s) (nf_total f) = Inr n" "is_finite (nf_total f)"
        "grid e n" "dval n \<le> available_capital c" "dval n \<le> dval (maximum_exposure c)"
        "dval n = dval (notional_allocated s) + dval (nf_total f)" "dval (nf_total f) < 10 powi (e + 34)"
        using fits_budget_ok [OF fb fits [folded bud] L(4) heavy L(7)] unfolding bud by blast
      define sent where "sent = sent_first (nf_emitted f)"
      have each: "list_all (\<lambda>x. grid e (em_commitment x) \<and> 0 \<le> dval (em_commitment x)) sent"
        and total: "dval (nf_total f) = sum_list (map (\<lambda>x. dval (em_commitment x)) sent)"
        using nf n(2,7) by (auto simp: nf_ok_def sent_def list_all_iff sent_first_sum)
      have idl: "map (\<lambda>x. rq_order_id (em_request x)) (nf_emitted f) = map oids [0..<length (nf_emitted f)]"
        using nf by (simp add: nf_ok_def)
      have "distinct (map oids [0..<length (nf_emitted f)])"
        using ids by (simp add: new_ids_def distinct_map inj_on_subset [OF _ subset_UNIV])
      then have dist: "distinct (map (\<lambda>x. rq_order_id (em_request x)) sent)"
        unfolding sent_def sent_first_distinct idl .
      have ids': "set (map (\<lambda>x. rq_order_id (em_request x)) sent) \<subseteq> range oids"
        using arg_cong [OF idl, of set] by (auto simp: sent_def)
      have "set (od_keys (reservations s)) \<subseteq> rq_order_id ` set (al_history s)" using ok by (simp add: ledger_ok_def)
      moreover have "range oids \<inter> rq_order_id ` set (al_history s) = {}" using ids unfolding new_ids_def by blast
      ultimately have disj: "set (map (\<lambda>x. rq_order_id (em_request x)) sent) \<inter> set (od_keys (reservations s)) = {}"
        using ids' by blast
      obtain capitals contrs where s1e: "s1 = s\<lparr>al_history := al_history s @ map em_request sent, notional_allocated := n,
          reservations := fold (\<lambda>x. od_set (rq_order_id (em_request x)) (em_commitment x)) sent (reservations s),
          al_contributions := contrs, strategy_capitals := capitals\<rparr>"
        using book True n(1) by (auto simp: book_emissions_def rbind_eq_Inr sent_def)
      from reserve_all [OF L(2) dist disj L(3) each] show ?thesis
        unfolding s1e ledger_ok_def using ok n(3-6) total L(5) by (auto simp: ledger_ok_def)
    qed
    with frame s1(2) show ?thesis by simp
  qed
qed

text \<open>What else happens to an allocation state, none of which touches a reservation.\<close>

definition other_step :: "dctx \<Rightarrow> allocation_state \<Rightarrow> allocation_state \<Rightarrow> bool" where
  "other_step amb s s' =
     ((\<exists>oid. retire_contributions s oid = Inr s') \<or> (\<exists>oid a x v. record_fill s oid a x v = Inr s') \<or>
      (\<exists>a r. alloc_apply_split s a r = Inr s') \<or> (\<exists>a shares. settle_asset s a = Inr (s', shares)) \<or>
      (\<exists>a cs d ds v. apply_lifecycle amb s a cs d ds v = Inr s'))"

lemma bind_pair_Inr: "rbind m (\<lambda>(a, b). Inr (g a b)) = Inr y \<Longrightarrow> \<exists>a b. m = Inr (a, b) \<and> y = g a b"
  by (auto simp: rbind_eq_Inr)

lemma lifecycle_frame:
  assumes "apply_lifecycle amb s a cs d ds v = Inr s'"
  shows "\<exists>r c. s' = s\<lparr>strategy_positions := r, strategy_capitals := c\<rparr>"
proof (cases "strategy_positions s")
  case None
  with assms have "s' = s\<lparr>strategy_positions := strategy_positions s, strategy_capitals := strategy_capitals s\<rparr>"
    by (simp add: apply_lifecycle_def)
  then show ?thesis by blast
next
  case (Some positions)
  with assms obtain m where "rbind m (\<lambda>(restated, capitals).
      Inr (s\<lparr>strategy_positions := Some restated, strategy_capitals := capitals\<rparr>)) = Inr s'"
    unfolding apply_lifecycle_def by (simp only: option.case) (erule rbind_InrE, blast)
  from bind_pair_Inr [OF this] show ?thesis by blast
qed

lemma other_ledger: "other_step amb s s' \<Longrightarrow> ledger_ok e b s \<Longrightarrow> ledger_ok e b s'"
proof -
  assume st: "other_step amb s s'" and ok: "ledger_ok e b s"
  have "budget s' = budget s \<and> reservations s' = reservations s \<and> notional_allocated s' = notional_allocated s \<and>
      al_history s' = al_history s"
    using st unfolding other_step_def
  proof (elim disjE exE)
    fix a cs d ds v
    assume "apply_lifecycle amb s a cs d ds v = Inr s'"
    from lifecycle_frame [OF this] show ?thesis by auto
  qed (auto simp: retire_contributions_def record_fill_def alloc_apply_split_def settle_asset_def
      Let_def rbind_eq_Inr split: option.splits if_splits prod.splits)
  with same_ledger [OF ok] show ?thesis by simp
qed

inductive alloc_run :: "int \<Rightarrow> int \<Rightarrow> int \<Rightarrow> capital_budget \<Rightarrow> allocation_state \<Rightarrow> bool" for q p m c where
  fresh: "alloc_run q p m c (initialize c)"
| allocated: "alloc_run q p m c s \<Longrightarrow> batch_on_grid q p m b \<Longrightarrow> new_ids oids s \<Longrightarrow>
    allocate eids oids s intents b t = Inr (s', orders) \<Longrightarrow> alloc_run q p m c s'"
| executed: "alloc_run q p m c s \<Longrightarrow> grid (q + p + m) x \<Longrightarrow> 0 \<le> dval x \<Longrightarrow>
    apply_execution eid s oid x t = Inr s' \<Longrightarrow> alloc_run q p m c s'"
| released: "alloc_run q p m c s \<Longrightarrow> release_reservation eid s oid t = Inr s' \<Longrightarrow> alloc_run q p m c s'"
| other: "alloc_run q p m c s \<Longrightarrow> other_step amb s s' \<Longrightarrow> alloc_run q p m c s'"

lemma alloc_run_ok:
  assumes "alloc_run q p m c s" "budget_fits (q + p + m) c"
  shows "ledger_ok (q + p + m) c s"
  using assms(1)
proof induction
  case fresh
  have "money_room (q + p + m)" using assms(2) by (simp add: budget_fits_def)
  then show ?case by (simp add: ledger_ok_def initialize_def ledger_sum_def od_values_def od_keys_def grid_def money_room_def)
next
  case allocated
  then show ?case by (blast intro: allocate_ledger [OF _ _ assms(2)])
next
  case executed
  then show ?case by (blast intro: consume_ledger [OF _ _ assms(2)])
next
  case released
  then show ?case by (blast intro: release_ledger [OF _ _ assms(2)])
next
  case other
  then show ?case by (blast intro: other_ledger)
qed

text \<open>C23: Whatever batches are allocated and whatever fills, releases, splits and settlements follow, the capital
  counted as committed is exactly the sum of the open reservations, none of them negative, and it never passes the
  capital the budget makes available nor its maximum exposure.\<close>

theorem committed_capital_within_budget:
  assumes "alloc_run q p m c s" "budget_fits (q + p + m) c"
  shows "dval (notional_allocated s) = ledger_sum (reservations s) \<and>
    list_all (\<lambda>v. 0 \<le> dval v) (od_values (reservations s)) \<and>
    dval (notional_allocated s) \<le> max 0 (available_capital c) \<and>
    dval (notional_allocated s) \<le> max 0 (dval (maximum_exposure c))"
  using alloc_run_ok [OF assms] by (auto simp: ledger_ok_def list_all_iff)

end
