(* ===== verification/Allocation_Example.thy ===== *)
theory Allocation_Example
  imports Allocation_Budget
begin

text \<open>
  A batch of two strategies that net to one order, and an execution of part of it: the run the
  witnesses of the allocation properties share.
\<close>

definition small_budget :: capital_budget where
  "small_budget = \<lparr>global_capital = Fin 100000 (-2), maximum_exposure = Fin 100000 (-2), cash_buffer = zero_cents,
     strategy_budgets = [], cb_currency = [], enforce_strategy_budgets = False\<rparr>"

definition ask :: "string \<Rightarrow> int \<Rightarrow> intent" where
  "ask sid n = \<lparr>in_strategy = sid, instrument = ''A'', in_target = Fin n 0, strength = Fin 1 0, horizon = [],
     in_terms = PLAIN_TERMS, correlation_id = [], in_timestamp = FFin 0, in_metadata = [], in_kind = DELTA\<rparr>"

definition small_batch :: batch where
  "small_batch = \<lparr>bt_prices = [(''A'', Fin 10000 (-2))], bt_model = fixed_quantity ACCOUNTING_CONTEXT,
     bt_constraints = \<lparr>max_weight_per_asset = Fin 1 0, min_weight_per_asset = Fin (-1) 0, allow_shorting = False,
       enforce_integer_quantities = False\<rparr>, bt_budget_prices = [], bt_positions = Some [], bt_working = [], bt_lots = [],
     bt_minimum_notionals = [], bt_multipliers = []\<rparr>"

definition counted_ids :: "nat \<Rightarrow> string" where "counted_ids n = replicate n CHR ''x''"

lemmas batch_figures = small_budget_def ask_def small_batch_def counted_ids_def initialize_def PLAIN_TERMS_def

lemma screened_asks: "rfold screen ([], []) [ask ''m'' 6, ask ''r'' (-1)] = Inr ([ask ''m'' 6, ask ''r'' (-1)], [])"
  by (simp add: screen_def validate_intent_def strength_in_range_def intent_eq_def batch_figures dec_eval)

lemma sized_asks: "sized_batch (initialize small_budget) small_batch [ask ''m'' 6, ask ''r'' (-1)] [(''A'', Fin 10000 (-2))] [] =
   Inr ([(''m'', ''A'', PLAIN_TERMS, Fin 6000000 (-6)), (''r'', ''A'', PLAIN_TERMS, Fin (-1000000) (-6))], [], [])"
  by (simp add: sized_batch_def size_step_def size_one_def size_intent_def fixed_quantity_def QUANTITY_QUANTUM_def dec_quantize.simps batch_figures rescale_def dec_eval)

lemma netted_asks: "net_by_terms ACCOUNTING_CONTEXT [(''m'', ''A'', PLAIN_TERMS, Fin 6000000 (-6)), (''r'', ''A'', PLAIN_TERMS, Fin (-1000000) (-6))] =
  Inr [((''A'', PLAIN_TERMS), Fin 5000000 (-6))]"
  by (simp add: net_by_terms_def net_step_def key_eq_def terms_eq_def opt_eq_def batch_figures dec_eval)
definition asked_shares where "asked_shares = [((''A'', PLAIN_TERMS), [\<lparr>contributor = ''m'', contributed = Fin 6000000 (-6)\<rparr>, \<lparr>contributor = ''r'', contributed = Fin (-1000000) (-6)\<rparr>])]"

lemma shares_asked: "contributions_by_terms ACCOUNTING_CONTEXT [(''m'', ''A'', PLAIN_TERMS, Fin 6000000 (-6)), (''r'', ''A'', PLAIN_TERMS, Fin (-1000000) (-6))] =
  Inr asked_shares"
  by (simp add: asked_shares_def contributions_by_terms_def row_step_def key_eq_def terms_eq_def opt_eq_def contributions_from_def add_quantity_def
    contributions_ordered_def od_keys_def od_get_Cons batch_figures dec_eval)

definition netted_order :: order_request where
  "netted_order = \<lparr>rq_order_id = [], rq_strategy_id = [], rq_asset_id = ''A'', rq_side = BUY, rq_quantity = Fin 5000000 (-6),
     rq_price = Fin 10000 (-2), rq_timestamp = FFin 0, rq_contributions = snd (hd asked_shares), rq_terms = PLAIN_TERMS\<rparr>"

lemma emitted_ask: "emit_step counted_ids small_batch (FFin 0) [(''A'', Fin 10000 (-2))] [] asked_shares \<lparr>nf_total = zero_cents, nf_emitted = [], nf_projected = Some [], nf_notes = []\<rparr>
   ((''A'', PLAIN_TERMS), Fin 5000000 (-6)) = Inr \<lparr>nf_total = Fin 50000000000 (-8), nf_emitted = [\<lparr>em_request = netted_order, em_commitment = Fin 50000000000 (-8), em_reduces = False\<rparr>],
     nf_projected = Some [(''A'', Fin 5000000 (-6))], nf_notes = [NettingCompleted ''A'' (Fin 5000000 (-6)) BUY]\<rparr>"
  by (simp add: emit_step_def check_net_def validate_net_quantity_def validate_long_only_def emit_def exposure_added_def amount_or_zero_def
    net_request_def unit_value_of_def dec_max_def od_get_Cons key_eq_def terms_eq_def opt_eq_def netted_order_def asked_shares_def batch_figures dec_eval)

definition after_batch where
  "after_batch = (initialize small_budget)\<lparr>al_history := [netted_order], notional_allocated := Fin 50000000000 (-8),
     reservations := [([], Fin 50000000000 (-8))], al_contributions := [([], rq_contributions netted_order)],
     al_events := stamp (\<lambda>k. []) (FFin 0) [AllocationStarted 2, NettingCompleted ''A'' (Fin 5000000 (-6)) BUY,
       AllocationCompleted 1 (Fin 50000000000 (-8))]\<rparr>"

lemma batch_allocated:
  "allocate_batch counted_ids (initialize small_budget) [ask ''m'' 6, ask ''r'' (-1)] small_batch (FFin 0) =
   Inr (after_batch\<lparr>al_events := []\<rparr>, [netted_order],
     [NettingCompleted ''A'' (Fin 5000000 (-6)) BUY, AllocationCompleted 1 (Fin 50000000000 (-8))])"
proof -
  have u: "per_unit ACCOUNTING_CONTEXT (bt_prices small_batch) (bt_multipliers small_batch) = Inr [(''A'', Fin 10000 (-2))]"
    "per_unit ACCOUNTING_CONTEXT (bt_budget_prices small_batch) (bt_multipliers small_batch) = Inr []"
    by (simp_all add: per_unit_def small_batch_def)
  have p: "bt_positions small_batch = Some []" by (simp add: small_batch_def)
  have b: "fits_budget (initialize small_budget) (Fin 50000000000 (-8)) = Inr (True, Fin 100000 (-2))"
    by (simp add: fits_budget_def available_global_capital_def dec_max_def batch_figures dec_eval)
  have e: "book_emissions (initialize small_budget) []
      (sent_first [\<lparr>em_request = netted_order, em_commitment = Fin 50000000000 (-8), em_reduces = False\<rparr>])
      (Fin 50000000000 (-8)) = Inr (after_batch\<lparr>al_events := []\<rparr>)"
    by (simp add: book_emissions_def reserve_shares_def sent_first_def after_batch_def initialize_def netted_order_def dec_eval)
  show ?thesis
    unfolding allocate_batch_def u rbind_Inr sized_asks prod.case netted_asks shares_asked p
    by (simp add: emitted_ask b e) (simp add: sent_first_def)
qed

lemma small_allocation:
  "allocate (\<lambda>k. []) counted_ids (initialize small_budget) [ask ''m'' 6, ask ''r'' (-1)] small_batch (FFin 0) =
   Inr (after_batch, [netted_order])"
  unfolding allocate_def screened_asks rbind_Inr prod.case Let_def batch_allocated
  by (simp add: after_batch_def initialize_def stamp_def)

lemma small_execution:
  "\<exists>s. apply_execution [] after_batch [] (Fin 20000 (-2)) (FFin 1) = Inr s \<and> notional_allocated s = Fin 30000000000 (-8)"
  by (simp add: apply_execution_def consume_def dec_min_def after_batch_def od_get_Cons dec_eval)

lemma small_batch_on_grid: "batch_on_grid (-6) (-2) 0 small_batch"
proof -
  have "loose (-6) r" if "fixed_quantity ACCOUNTING_CONTEXT i c x = Inr r" for i c x r
    by (rule models_size_to_the_quantum [of "fixed_quantity ACCOUNTING_CONTEXT" ACCOUNTING_CONTEXT 1 dec_one "[]" i c x]) (simp_all add: that)
  then show ?thesis by (simp add: batch_on_grid_def small_batch_def on_grid_def od_values_def)
qed

lemma small_budget_fits: "budget_fits (-8) small_budget"
proof -
  have "available_capital small_budget = 1000"
    by (simp add: available_capital_def available_global_capital_def dec_max_def small_budget_def dec_eval) (simp add: dval.simps(1))
  then show ?thesis by (simp add: budget_fits_def money_room_def small_budget_def)
qed

lemma counted_ids_new: "new_ids counted_ids (initialize b)"
  by (auto simp: new_ids_def initialize_def inj_def counted_ids_def dest: arg_cong [of _ _ length])

lemma small_run: "\<exists>s. alloc_run (-6) (-2) 0 small_budget s \<and> notional_allocated s = Fin 30000000000 (-8)"
proof -
  have r: "alloc_run (-6) (-2) 0 small_budget after_batch"
    by (rule alloc_run.allocated [OF alloc_run.fresh small_batch_on_grid counted_ids_new small_allocation])
  obtain s where s: "apply_execution [] after_batch [] (Fin 20000 (-2)) (FFin 1) = Inr s" "notional_allocated s = Fin 30000000000 (-8)"
    using small_execution by blast
  have "alloc_run (-6) (-2) 0 small_budget s"
    by (rule alloc_run.executed [OF r _ _ s(1)]) (simp_all add: grid_def dval.simps(1))
  with s show ?thesis by blast
qed

theorem committed_capital_within_budget_witness:
  "\<exists>s::allocation_state. dval (notional_allocated s) = 300 \<and> ledger_sum (reservations s) = 300 \<and> 300 \<le> max 0 (available_capital small_budget)"
proof -
  obtain s where s: "alloc_run (-6) (-2) 0 small_budget s" "notional_allocated s = Fin 30000000000 (-8)"
    using small_run by blast
  have fits: "budget_fits (-6 + -2 + 0) small_budget" using small_budget_fits by simp
  have "dval (notional_allocated s) = 300" using s(2) by (simp add: dval.simps(1))
  moreover from committed_capital_within_budget [OF s(1) fits] have "dval (notional_allocated s) = ledger_sum (reservations s)"
    "dval (notional_allocated s) \<le> max 0 (available_capital small_budget)" by blast+
  ultimately show ?thesis by (intro exI [of _ s]) simp
qed

end
