(* ===== verification/Allocation_Orders.thy ===== *)
theory Allocation_Orders
  imports Allocation_Example
begin

text \<open>
  What the orders of a batch do to the account's positions: under long-only, once every order of the
  batch is filled no position it touched is short. Before that it may be: reductions are sent first.
\<close>

definition signed_order :: "order_request \<Rightarrow> rat" where
  "signed_order r = (if rq_side r = BUY then dval (rq_quantity r) else - dval (rq_quantity r))"

definition order_flow :: "string \<Rightarrow> order_request list \<Rightarrow> rat" where
  "order_flow a rs = sum_list (map (\<lambda>r. if rq_asset_id r = a then signed_order r else 0) rs)"

definition order_size_sum :: "string \<Rightarrow> order_request list \<Rightarrow> rat" where
  "order_size_sum a rs = sum_list (map (\<lambda>r. if rq_asset_id r = a then \<bar>dval (rq_quantity r)\<bar> else 0) rs)"

lemma flow_append [simp]:
  "order_flow a (rs @ rs') = order_flow a rs + order_flow a rs'"
  "order_size_sum a (rs @ rs') = order_size_sum a rs + order_size_sum a rs'"
  by (simp_all add: order_flow_def order_size_sum_def)

lemma flow_le: "\<bar>order_flow a rs\<bar> \<le> order_size_sum a rs"
  by (induction rs) (auto simp: order_flow_def order_size_sum_def signed_order_def)

text \<open>Small enough to be exact: finite quantities, and the position with all of them below the bound.\<close>

definition flow_small :: "int \<Rightarrow> (string, decimal) od \<Rightarrow> string \<Rightarrow> order_request list \<Rightarrow> bool" where
  "flow_small q ps a rs =
     (list_all (\<lambda>r. is_finite (rq_quantity r)) rs \<and> is_finite (amount_or_zero ps a) \<and>
      \<bar>dval (amount_or_zero ps a)\<bar> + order_size_sum a rs < 10 powi (q + 34))"

definition long_kept :: "int \<Rightarrow> (string, decimal) od \<Rightarrow> net_fold \<Rightarrow> bool" where
  "long_kept q ps f =
     (\<exists>m. nf_projected f = Some m \<and> on_grid q m \<and>
        (\<forall>a. flow_small q ps a (map em_request (nf_emitted f)) \<longrightarrow>
           is_finite (amount_or_zero m a) \<and>
           dval (amount_or_zero m a) = dval (amount_or_zero ps a) + order_flow a (map em_request (nf_emitted f)) \<and>
           (a \<in> set (map (\<lambda>x. rq_asset_id (em_request x)) (nf_emitted f)) \<longrightarrow> 0 \<le> dval (amount_or_zero m a))))"

lemma small_before: "flow_small q ps a (rs @ [r]) \<Longrightarrow> flow_small q ps a rs"
  by (auto simp: flow_small_def order_size_sum_def split: if_splits)

lemma long_emit:
  assumes em: "emit oids b t up bp contribs f k x (Some (amount_or_zero m (fst k))) = Inr f'"
    and m: "nf_projected f = Some m" and ok: "long_kept q ps f" and x: "loose q x" and room: "money_room q"
    and judged: "validate_long_only ACCOUNTING_CONTEXT x (amount_or_zero m (fst k)) = Inr ()"
  shows "long_kept q ps f'"
proof (rule emitE [OF em])
  fix buys magnitude adding reduces commitment total after
  assume st: "(case Some (amount_or_zero m (fst k)) of None \<Rightarrow> Inr None
        | Some h \<Rightarrow> rbind (dec_add ACCOUNTING_CONTEXT h x) (\<lambda>y. Inr (Some y))) = Inr after"
    "dec_lt dec_zero x = Inr buys" "dec_abs ACCOUNTING_CONTEXT x = Inr magnitude"
    and f': "f' = f\<lparr>nf_total := total,
       nf_emitted := nf_emitted f @ [\<lparr>em_request = net_request (oids (length (nf_emitted f))) b t contribs k
          (if buys then BUY else SELL) magnitude, em_commitment = commitment, em_reduces = reduces\<rparr>],
       nf_projected := (case nf_projected f of None \<Rightarrow> None
         | Some m \<Rightarrow> (case after of None \<Rightarrow> Some m | Some y \<Rightarrow> Some (od_set (fst k) y m))),
       nf_notes := nf_notes f @ [NettingCompleted (fst k) magnitude (if buys then BUY else SELL)]\<rparr>"
  let ?h = "amount_or_zero m (fst k)" and ?rs = "map em_request (nf_emitted f)"
  define r where "r = net_request (oids (length (nf_emitted f))) b t contribs k (if buys then BUY else SELL) magnitude"
  have r: "rq_asset_id r = fst k" "rq_quantity r = magnitude" "rq_side r = (if buys then BUY else SELL)"
    by (simp_all add: r_def net_request_def)
  obtain y where y: "dec_add ACCOUNTING_CONTEXT ?h x = Inr y" "after = Some y" using st(1) by (auto simp: rbind_eq_Inr)
  have pos: "dec_lt y dec_zero = Inr False" using judged y(1) by (auto simp: validate_long_only_def rbind_eq_Inr split: if_splits)
  have grid: "on_grid q m" using ok m by (auto simp: long_kept_def)
  have h: "loose q ?h" by (rule on_grid_zero [OF grid]) (use room in \<open>simp add: money_room_def\<close>)
  have yq: "loose q y" by (rule loose_add [OF y(1) h x room])
  have new: "nf_projected f' = Some (od_set (fst k) y m)" "map em_request (nf_emitted f') = ?rs @ [r]"
    using m y(2) by (simp_all add: f' r_def)
  have get: "amount_or_zero (od_set (fst k) y m) a = (if a = fst k then y else amount_or_zero m a)" for a
    by (simp add: amount_or_zero_def)
  have each: "is_finite (amount_or_zero (od_set (fst k) y m) a) \<and>
      dval (amount_or_zero (od_set (fst k) y m) a) = dval (amount_or_zero ps a) + order_flow a (?rs @ [r]) \<and>
      (a \<in> set (map rq_asset_id (?rs @ [r])) \<longrightarrow> 0 \<le> dval (amount_or_zero (od_set (fst k) y m) a))"
    if small: "flow_small q ps a (?rs @ [r])" for a
  proof -
    have before: "is_finite (amount_or_zero m a)" "dval (amount_or_zero m a) = dval (amount_or_zero ps a) + order_flow a ?rs"
      "a \<in> set (map rq_asset_id ?rs) \<Longrightarrow> 0 \<le> dval (amount_or_zero m a)"
      using ok m small_before [OF small] by (auto simp: long_kept_def)
    show ?thesis
    proof (cases "a = fst k")
      case False
      with before r show ?thesis by (simp add: get order_flow_def)
    next
      case True
      have fin: "is_finite magnitude" using small r by (simp add: flow_small_def)
      then have fx: "is_finite x" using st(3) by (cases x) auto
      obtain c e where xe: "x = Fin c e" "q \<le> e" using fx x by (auto simp: is_finite_iff)
      have size: "\<bar>dval (amount_or_zero ps a)\<bar> + order_size_sum a ?rs + \<bar>dval magnitude\<bar> < 10 powi (q + 34)"
        using small r True by (simp add: flow_small_def order_size_sum_def)
      have rest: "0 \<le> \<bar>dval (amount_or_zero ps a)\<bar> + order_size_sum a ?rs" using flow_le [of a ?rs] by linarith
      have f: "dec_fix ACCOUNTING_CONTEXT (Fin \<bar>c\<bar> e) = Inr magnitude" using st(3) xe by simp
      have "\<bar>dval magnitude\<bar> < 10 powi (q + 34)" using size rest by linarith
      from fix_checked [OF f xe(2) room this] have mag: "dval magnitude = \<bar>dval x\<bar>" by (simp add: xe(1) dval.simps(1) abs_mult)
      have sx: "signed_order r = dval x" using st(2) fx mag by (auto simp: signed_order_def r)
      have gm: "grid q (amount_or_zero m a)" using h before(1) True loose_grid by simp
      have gx: "grid q x" using x fx loose_grid by simp
      have "\<bar>dval (amount_or_zero m a) + dval x\<bar> < 10 powi (q + 34)"
        using size mag before(2) flow_le [of a ?rs] by linarith
      from exact_sum [OF y(1) [folded True] gm gx room this]
      have Y: "is_finite y" "dval y = dval (amount_or_zero m a) + dval x" using grid_finite by auto
      then have "0 \<le> dval y" using pos by simp
      with Y before(2) sx True show ?thesis by (simp add: get order_flow_def r)
    qed
  qed
  have names: "set (map (\<lambda>x. rq_asset_id (em_request x)) (nf_emitted f')) = set (map rq_asset_id (?rs @ [r]))"
    unfolding new(2) [symmetric] by (simp add: image_image)
  show ?thesis unfolding long_kept_def names new
    by (intro exI [of _ "od_set (fst k) y m"] conjI) (use each on_grid_set [OF grid yq] in blast)+
qed

lemma long_step:
  assumes st: "emit_step oids b t up bp contribs f (k, net_qty) = Inr f'" and ok: "long_kept q ps f" and x: "loose q net_qty"
    and room: "money_room q" and long: "\<not> allow_shorting (bt_constraints b)"
  shows "long_kept q ps f'"
proof -
  obtain m where m: "nf_projected f = Some m" using ok by (auto simp: long_kept_def)
  define y where "y = (if enforce_integer_quantities (bt_constraints b) then to_integral ROUND_HALF_EVEN net_qty else net_qty)"
  have y: "loose q y" using x room by (auto simp: y_def money_room_def intro: loose_to_integral)
  have same: "long_kept q ps (f\<lparr>nf_notes := nf_notes f @ ns\<rparr>)" for ns using ok by (simp add: long_kept_def)
  from st have "f' = f \<or> f' = f\<lparr>nf_notes := nf_notes f @ [AllocationRejected]\<rparr> \<or>
      (emit oids b t up bp contribs f k y (Some (amount_or_zero m (fst k))) = Inr f' \<and>
       check_net b (fst k) y (Some (amount_or_zero m (fst k))) = Inr ())"
    unfolding emit_step_def prod.case y_def [symmetric] m option.case Let_def
    by (auto split: if_splits sum.splits)
  then show ?thesis
  proof (elim disjE conjE)
    assume e: "emit oids b t up bp contribs f k y (Some (amount_or_zero m (fst k))) = Inr f'"
      and c: "check_net b (fst k) y (Some (amount_or_zero m (fst k))) = Inr ()"
    have "validate_long_only ACCOUNTING_CONTEXT y (amount_or_zero m (fst k)) = Inr ()"
      using c long by (auto simp: check_net_def rbind_eq_Inr)
    from long_emit [OF e m ok y room this] show ?thesis .
  qed (use ok same in auto)
qed

lemma sent_orders_sum: "sum_list (map f (map em_request (sent_first es))) = (sum_list (map f (map em_request es)) :: rat)"
  using sent_first_sum [of "\<lambda>e. f (em_request e)" es] by (simp add: comp_def)

lemma sent_flow [simp]:
  "order_flow a (map em_request (sent_first es)) = order_flow a (map em_request es)"
  "order_size_sum a (map em_request (sent_first es)) = order_size_sum a (map em_request es)"
  unfolding order_flow_def order_size_sum_def by (rule sent_orders_sum)+

lemma batch_orders:
  assumes run: "allocate eids oids s intents b t = Inr (s', orders)" and some: "orders \<noteq> []" and grid: "batch_on_grid q p m b"
  obtains net up bp contribs ns f where "\<And>k x. (k, x) \<in> set net \<Longrightarrow> loose q x"
    "rfold (emit_step oids b t up bp contribs)
       \<lparr>nf_total = zero_cents, nf_emitted = [], nf_projected = bt_positions b, nf_notes = ns\<rparr> net = Inr f"
    "orders = map em_request (sent_first (nf_emitted f))"
proof -
  obtain valid s1 ns1 where b: "allocate_batch oids s valid b t = Inr (s1, orders, ns1)"
    using run some by (fastforce simp: allocate_def rbind_eq_Inr Let_def split: if_splits prod.splits)
  obtain up bp sizes commitments ns net contribs f where B:
      "sized_batch s b valid up bp = Inr (sizes, commitments, ns)" "net_by_terms ACCOUNTING_CONTEXT sizes = Inr net"
      "rfold (emit_step oids b t up bp contribs)
         \<lparr>nf_total = zero_cents, nf_emitted = [], nf_projected = bt_positions b, nf_notes = ns\<rparr> net = Inr f"
    and o: "orders = [] \<or> orders = map em_request (sent_first (nf_emitted f))"
    using b unfolding allocate_batch_def rbind_eq_Inr Let_def by (auto simp: rbind_eq_Inr split: if_splits)
  have q: "q \<le> -6" "money_room q" using grid by (auto simp: batch_on_grid_def money_room_def)
  have N: "(k, x) \<in> set net \<Longrightarrow> loose q x" for k x
    using net_loose [OF B(2) sized_batch_loose [OF B(1) grid] q] .
  show thesis by (rule that [OF N B(3)]) (use o some in simp_all)
qed

text \<open>C25: In a long-only run whose caller says what the account holds, once all the orders of a batch are filled
  no asset they trade is left short.\<close>

theorem long_only_ends_long:
  assumes run: "allocate eids oids s intents b t = Inr (s', orders)" and grid: "batch_on_grid q p m b"
    and long: "\<not> allow_shorting (bt_constraints b)" "bt_positions b = Some ps"
    and r: "r \<in> set orders" "flow_small q ps (rq_asset_id r) orders"
  shows "0 \<le> dval (amount_or_zero ps (rq_asset_id r)) + order_flow (rq_asset_id r) orders"
proof -
  have "orders \<noteq> []" using r(1) by auto
  from batch_orders [OF run this grid] obtain net up bp contribs ns f where N: "\<And>k x. (k, x) \<in> set net \<Longrightarrow> loose q x"
    and f: "rfold (emit_step oids b t up bp contribs)
       \<lparr>nf_total = zero_cents, nf_emitted = [], nf_projected = bt_positions b, nf_notes = ns\<rparr> net = Inr f"
    and o: "orders = map em_request (sent_first (nf_emitted f))" by blast
  have room: "money_room q" using grid by (auto simp: batch_on_grid_def money_room_def)
  have "long_kept q ps f"
  proof (rule rfold_invariant [OF _ _ f, where P = "long_kept q ps"])
    show "long_kept q ps \<lparr>nf_total = zero_cents, nf_emitted = [], nf_projected = bt_positions b, nf_notes = ns\<rparr>"
      using grid long(2) by (auto simp: long_kept_def batch_on_grid_def order_flow_def flow_small_def)
    fix g e g'
    assume "long_kept q ps g" "e \<in> set net" "emit_step oids b t up bp contribs g e = Inr g'"
    then show "long_kept q ps g'" using N long_step [OF _ _ _ room long(1)] by (cases e) blast
  qed
  moreover have "flow_small q ps (rq_asset_id r) (map em_request (nf_emitted f))"
    using r(2) by (auto simp: o flow_small_def list_all_iff)
  moreover have "rq_asset_id r \<in> set (map (\<lambda>x. rq_asset_id (em_request x)) (nf_emitted f))"
    using r(1) by (auto simp: o)
  ultimately show ?thesis by (auto simp: long_kept_def o)
qed

theorem long_only_ends_long_witness:
  "0 \<le> dval (amount_or_zero ([] :: (string, decimal) od) ''A'') + order_flow ''A'' [netted_order] \<and> order_flow ''A'' [netted_order] = 5"
proof -
  have p: "bt_positions small_batch = Some []" "\<not> allow_shorting (bt_constraints small_batch)" by (simp_all add: small_batch_def)
  have o: "netted_order \<in> set [netted_order]" "rq_asset_id netted_order = ''A''" "order_flow ''A'' [netted_order] = 5"
    by (simp_all add: netted_order_def order_flow_def signed_order_def dval.simps(1) power_int_minus)
  have f: "flow_small (-6) [] ''A'' [netted_order]"
    by (simp add: flow_small_def netted_order_def order_size_sum_def amount_or_zero_def dval.simps(1) power_int_minus)
  from long_only_ends_long [OF small_allocation small_batch_on_grid p(2,1) o(1)] f o(2,3) show ?thesis by simp
qed

text \<open>
  Before all are filled it may be short: the account holds five, one strategy buys ten at a limit and another
  sells twelve at the market. Each is judged after the other, and then the sale is sent first.
\<close>

definition mixed_batch :: batch where
  "mixed_batch = small_batch\<lparr>bt_positions := Some [(''A'', Fin 5 0)]\<rparr>"

definition at_limit :: order_terms where
  "at_limit = \<lparr>ot_type = LIMIT, ot_limit = Some (Fin 100 0), ot_stop = None, ot_tif = DAY, ot_expire = None\<rparr>"

lemma sale_sent_before_its_purchase:
  "\<exists>f. rfold (emit_step counted_ids mixed_batch (FFin 0) [(''A'', Fin 10000 (-2))] [] [])
      \<lparr>nf_total = zero_cents, nf_emitted = [], nf_projected = bt_positions mixed_batch, nf_notes = []\<rparr>
      [((''A'', at_limit), Fin 10 0), ((''A'', PLAIN_TERMS), Fin (-12) 0)] = Inr f \<and>
    dval (Fin 5 0) + order_flow ''A'' (take 1 (map em_request (sent_first (nf_emitted f)))) = -7"
  by (simp add: mixed_batch_def small_batch_def at_limit_def emit_step_def check_net_def validate_net_quantity_def
    validate_long_only_def emit_def exposure_added_def amount_or_zero_def net_request_def unit_value_of_def dec_max_def
    od_get_Cons sent_first_def counted_ids_def dec_eval) (simp add: order_flow_def signed_order_def dval.simps(1))

end
