(* ===== verification/Allocation_Shares.thy ===== *)
theory Allocation_Shares
  imports Allocation_Example
begin

text \<open>
  Each strategy's own position: a fill is divided among the strategies that asked for its order, exactly
  while the shares are of ordinary size, so the strategies' positions always add up to what was filled.
\<close>

section \<open>Dividing exactly\<close>

definition parts_sum :: "(string \<times> decimal) list \<Rightarrow> rat" where
  "parts_sum parts = sum_list (map (\<lambda>(sid, x). dval x) parts)"

definition parts_size :: "(string \<times> decimal) list \<Rightarrow> rat" where
  "parts_size parts = sum_list (map (\<lambda>(sid, x). \<bar>dval x\<bar>) parts)"

lemma parts_append [simp]:
  "parts_sum (ps @ qs) = parts_sum ps + parts_sum qs" "parts_size (ps @ qs) = parts_size ps + parts_size qs"
  by (simp_all add: parts_sum_def parts_size_def)

lemma parts_size_nonneg: "0 \<le> parts_size ps"
  unfolding parts_size_def by (rule sum_list_nonneg) auto

lemma parts_sum_le: "\<bar>parts_sum ps\<bar> \<le> parts_size ps"
  by (induction ps) (auto simp: parts_sum_def parts_size_def)

lemma split_room: "room SPLIT_CONTEXT (-12)"
  by (simp add: room_def SPLIT_CONTEXT_def Etiny_def)

lemma split_add:
  assumes "dec_add SPLIT_CONTEXT a b = Inr r" "grid (-12) a" "dec_exponent a \<le> 0" "grid (-12) b"
    "\<bar>dval a + dval b\<bar> < 10 ^ 16"
  shows "grid (-12) r" "dec_exponent r \<le> 0" "dval r = dval a + dval b"
proof -
  have "\<bar>dval a + dval b\<bar> < 10 powi (-12 + int (prec SPLIT_CONTEXT))" using assms(5) by (simp add: SPLIT_CONTEXT_def)
  from grid_add [OF split_room assms(2-4) this] assms(1,3)
  show "grid (-12) r" "dec_exponent r \<le> 0" "dval r = dval a + dval b" by auto
qed

lemma quantized_grid: "dec_quantize ctx a (Fin d f) = Inr r \<Longrightarrow> is_finite r \<Longrightarrow> grid f r"
  using loose_quantize [of ctx a d f r] loose_grid by blast

lemma shares_assigned:
  assumes "rfold (next_share amount net (Fin 1 (-12))) (ps, a) cs = Inr (ps', a')"
    and "grid (-12) a" "dec_exponent a \<le> 0" "dval a = parts_sum ps" "list_all (\<lambda>(sid, x). is_finite x) ps'"
    and "parts_size ps' < 10 ^ 15"
  shows "grid (-12) a' \<and> dec_exponent a' \<le> 0 \<and> dval a' = parts_sum ps' \<and>
    (\<exists>more. ps' = ps @ more \<and> map fst more = map contributor cs \<and> list_all (\<lambda>(sid, x). grid (-12) x) more)"
  using assms
proof (induction cs arbitrary: ps a)
  case (Cons c cs)
  obtain st1 where one: "next_share amount net (Fin 1 (-12)) (ps, a) c = Inr st1"
    and rest: "rfold (next_share amount net (Fin 1 (-12))) st1 cs = Inr (ps', a')"
    using Cons.prems(1) by (simp only: rfold.simps rbind_eq_Inr) blast
  obtain share a1 y where st1: "dec_add SPLIT_CONTEXT a share = Inr a1" "st1 = (ps @ [(contributor c, share)], a1)"
    and q: "dec_quantize SPLIT_CONTEXT y (Fin 1 (-12)) = Inr share"
    using one unfolding next_share_def prod.case rbind_eq_Inr by blast
  note st = st1(1) rest [unfolded st1(2)]
  have pre: "\<exists>more. ps' = ps @ [(contributor c, share)] @ more"
  proof -
    have "\<exists>more. fst (ps', a') = (ps @ [(contributor c, share)]) @ more"
      by (rule rfold_invariant [OF _ _ st(2), where P = "\<lambda>st. \<exists>more. fst st = (ps @ [(contributor c, share)]) @ more"])
        (auto simp: next_share_def rbind_eq_Inr)
    then show ?thesis by simp
  qed
  then obtain more where more: "ps' = ps @ [(contributor c, share)] @ more" by blast
  then have fin: "is_finite share" using Cons.prems(5) by (auto simp: list_all_iff)
  then have g: "grid (-12) share" using q quantized_grid by blast
  have size: "parts_size ps + \<bar>dval share\<bar> < 10 ^ 15"
    using Cons.prems(6) parts_size_nonneg [of more] by (simp add: more parts_size_def)
  have "\<bar>dval a + dval share\<bar> \<le> \<bar>dval a\<bar> + \<bar>dval share\<bar>" by linarith
  also have "\<dots> \<le> parts_size ps + \<bar>dval share\<bar>" using parts_sum_le [of ps] Cons.prems(4) by simp
  finally have "\<bar>dval a + dval share\<bar> < 10 ^ 16" using size by simp
  note A = split_add [OF st(1) Cons.prems(2,3) g this]
  have "dval a1 = parts_sum (ps @ [(contributor c, share)])" using A(3) Cons.prems(4) by (simp add: parts_sum_def)
  from Cons.IH [OF st(2) A(1,2) this Cons.prems(5,6)] g show ?case by auto
qed simp

text \<open>A division of a quantity on the grid, while the parts are of ordinary size.\<close>

definition splits_exactly :: "decimal \<Rightarrow> strategy_contribution list \<Rightarrow> bool" where
  "splits_exactly amount cs =
     (grid (-12) amount \<and> dec_exponent amount \<le> 0 \<and> \<bar>dval amount\<bar> < 10 ^ 15 \<and>
      (case split_by_contribution amount cs (Fin 1 (-12)) of
         Inl e \<Rightarrow> True
       | Inr parts \<Rightarrow> list_all (\<lambda>(sid, x). is_finite x) parts \<and> parts_size parts < 10 ^ 15) \<and>
      (\<forall>net. net_of cs = Inr net \<longrightarrow> \<not> dec_eq net dec_zero))"

lemma split_sums:
  assumes run: "split_by_contribution amount cs (Fin 1 (-12)) = Inr parts" and ok: "splits_exactly amount cs" and cs: "cs \<noteq> []"
  shows "parts_sum parts = dval amount \<and> map fst parts = map contributor cs \<and> list_all (\<lambda>(sid, x). grid (-12) x) parts"
proof -
  have amount: "grid (-12) amount" "dec_exponent amount \<le> 0" "\<bar>dval amount\<bar> < 10 ^ 15"
    and parts: "list_all (\<lambda>(sid, x). is_finite x) parts" "parts_size parts < 10 ^ 15"
    and net: "net_of cs = Inr n \<Longrightarrow> \<not> dec_eq n dec_zero" for n
    using ok run by (simp_all add: splits_exactly_def)
  obtain n ps a rest where st: "net_of cs = Inr n"
    "rfold (next_share amount n (Fin 1 (-12))) ([], Fin 0 0) (butlast cs) = Inr (ps, a)"
    "dec_sub SPLIT_CONTEXT amount a = Inr rest" "parts = ps @ [(contributor (last cs), rest)]"
    using run net cs by (auto simp: split_by_contribution_def rbind_eq_Inr Let_def split: if_splits)
  have ps: "list_all (\<lambda>(sid, x). is_finite x) ps" "parts_size ps < 10 ^ 15"
    using parts st(4) by (auto simp: parts_size_def)
  from shares_assigned [OF st(2) _ _ _ ps]
  have A: "grid (-12) a" "dval a = parts_sum ps" "map fst ps = map contributor (butlast cs)" "list_all (\<lambda>(sid, x). grid (-12) x) ps"
    by (auto simp: grid_def parts_sum_def)
  have "\<bar>dval a\<bar> < 10 ^ 15" using parts_sum_le [of ps] ps(2) A(2) by simp
  then have small: "\<bar>dval amount + dval (dec_neg_exact a)\<bar> < 10 ^ 16" using amount(3) by simp
  have "grid (-12) rest" "dval rest = dval amount - dval a"
    using split_add [OF st(3) [unfolded dec_sub_def] amount(1,2) _ small] A(1) by simp_all
  moreover have "map contributor (butlast cs) @ [contributor (last cs)] = map contributor cs"
    using cs by (metis append_butlast_last_id list.simps(8,9) map_append)
  ultimately show ?thesis using A by (simp add: st(4) parts_sum_def)
qed

text \<open>A quantity with more digits than the division has leaves a residue: even the remainder is rounded.\<close>

lemma split_leaves_residue:
  "split_by_contribution (Fin 10000000000000000000000000002 (-13))
     [\<lparr>contributor = ''a'', contributed = Fin 0 0\<rparr>, \<lparr>contributor = ''b'', contributed = Fin 1 0\<rparr>] (Fin 1 (-12)) =
   Inr [(''a'', Fin 0 (-12)), (''b'', Fin 1000000000000000000000000000 (-12))] \<and>
   parts_sum [(''a'', Fin 0 (-12)), (''b'', Fin 1000000000000000000000000000 (-12))] \<noteq>
     dval (Fin 10000000000000000000000000002 (-13))"
  by (rule conjI, simp add: split_by_contribution_def net_of_def next_share_def SPLIT_CONTEXT_def Etiny_def Etop_def
    dec_quantize.simps rescale_def dec_eval) (simp add: parts_sum_def dval.simps(1) power_int_minus)

section \<open>Positions\<close>

type_synonym position_map = "(string, (string, decimal) od) od"

definition positions_total :: "position_map \<Rightarrow> string \<Rightarrow> rat" where
  "positions_total ps a = sum_list (map (\<lambda>(sid, held). dval (amount_or_zero held a)) ps)"

lemma own_position_set:
  "own_position (set_position sid a x ps) sid' b = (if sid' = sid \<and> b = a then x else own_position ps sid' b)"
  by (auto simp: own_position_def set_position_def amount_or_zero_def split: option.split)

lemma total_od_set:
  "od_ok ps \<Longrightarrow> positions_total (od_set sid held ps) b =
     positions_total ps b - dval (own_position ps sid b) + dval (amount_or_zero held b)"
proof (induction ps)
  case Nil
  then show ?case by (simp add: positions_total_def own_position_def od_get_def)
next
  case (Cons p ps)
  then have "od_ok ps" by (simp add: od_ok_def)
  with Cons show ?case
    by (cases p) (auto simp: positions_total_def own_position_def od_get_Cons split: option.splits)
qed

lemma total_set:
  "od_ok ps \<Longrightarrow> positions_total (set_position sid a x ps) b =
     positions_total ps b + (if b = a then dval x - dval (own_position ps sid a) else 0)"
  unfolding set_position_def
  by (subst total_od_set) (auto simp: own_position_def amount_or_zero_def split: option.split)

text \<open>The positions are on the grid of fills.\<close>

definition positions_ok :: "position_map \<Rightarrow> bool" where
  "positions_ok ps = (od_ok ps \<and> (\<forall>sid a. grid (-12) (own_position ps sid a)))"

lemma positions_ok_set: "positions_ok ps \<Longrightarrow> grid (-12) x \<Longrightarrow> positions_ok (set_position sid a x ps)"
  unfolding positions_ok_def own_position_set by (simp add: set_position_def)

lemma fill_shares:
  assumes "rfold (fill_share b oid a ceilinged v) (ps, capitals) parts = Inr (ps', capitals')"
    and "positions_ok ps" "list_all (\<lambda>(sid, x). grid (-12) x) parts"
    and "\<And>sid. \<bar>dval (own_position ps sid a)\<bar> + parts_size parts < 10 ^ 22"
  shows "positions_ok ps' \<and> (\<forall>b. positions_total ps' b = positions_total ps b + (if b = a then parts_sum parts else 0))"
  using assms
proof (induction parts arbitrary: ps capitals)
  case (Cons part parts)
  obtain sid x where part: "part = (sid, x)" by (cases part)
  obtain st where one: "fill_share b oid a ceilinged v (ps, capitals) part = Inr st"
    and rest: "rfold (fill_share b oid a ceilinged v) st parts = Inr (ps', capitals')"
    using Cons.prems(1) by (simp only: rfold.simps rbind_eq_Inr) blast
  obtain y cs where y: "dec_add ACCOUNTING_CONTEXT (own_position ps sid a) x = Inr y" "st = (set_position sid a y ps, cs)"
    using one by (auto simp: fill_share_def part Let_def rbind_eq_Inr split: if_splits)
  have held: "grid (-12) (own_position ps sid a)" and x: "grid (-12) x"
    using Cons.prems(2,3) by (simp_all add: positions_ok_def part)
  have size: "parts_size (part # parts) = \<bar>dval x\<bar> + parts_size parts" by (simp add: parts_size_def part)
  have room: "money_room (-12)" by (simp add: money_room_def)
  have "\<bar>dval (own_position ps sid a) + dval x\<bar> < 10 powi (-12 + 34)"
    using Cons.prems(4) [of sid] parts_size_nonneg [of parts] unfolding size by simp
  note Y = exact_sum [OF y(1) held x room this]
  have ok: "positions_ok (set_position sid a y ps)" by (rule positions_ok_set [OF Cons.prems(2) Y(1)])
  have small: "\<bar>dval (own_position (set_position sid a y ps) sid' a)\<bar> + parts_size parts < 10 ^ 22" for sid'
  proof (cases "sid' = sid")
    case True
    then show ?thesis using Cons.prems(4) [of sid] Y(2) unfolding own_position_set size by simp
  next
    case False
    then show ?thesis using Cons.prems(4) [of sid'] unfolding own_position_set size by simp
  qed
  have xs: "list_all (\<lambda>(sid, x). grid (-12) x) parts" using Cons.prems(3) by simp
  from Cons.IH [OF rest [unfolded y(2)] ok xs small] Cons.prems(2)
  show ?case by (auto simp: positions_ok_def total_set Y(2) parts_sum_def part)
qed (simp add: parts_sum_def)

lemma dec_eq_zero: "dec_eq q dec_zero \<Longrightarrow> dval q = 0"
proof (cases "is_finite q")
  case False
  then show "dec_eq q dec_zero \<Longrightarrow> dval q = 0" by (cases q) auto
qed simp

lemma settle_totals:
  assumes "rfold (settle_step a) (r, capitals, shares) ps = Inr (r', capitals', shares')"
    and "positions_ok r" "od_ok ps" "\<And>sid held. (sid, held) \<in> set ps \<Longrightarrow> od_get r sid = Some held"
  shows "positions_ok r' \<and>
    (\<forall>b. positions_total r' b = positions_total r b - (if b = a then positions_total ps a else 0))"
  using assms
proof (induction ps arbitrary: r capitals shares)
  case (Cons entry ps)
  obtain sid held where e: "entry = (sid, held)" by (cases entry)
  obtain st where one: "settle_step a (r, capitals, shares) entry = Inr st"
    and rest: "rfold (settle_step a) st ps = Inr (r', capitals', shares')"
    using Cons.prems(1) by (simp only: rfold.simps rbind_eq_Inr) blast
  have h: "od_get r sid = Some held" using Cons.prems(4) by (simp add: e)
  define zero where "zero = (od_get held a = None \<or> (\<exists>q. od_get held a = Some q \<and> dec_eq q dec_zero))"
  obtain cs ss where st: "st = (if zero then r else od_set sid (od_del a held) r, cs, ss)"
    using one unfolding settle_step_def e zero_def
    by (auto simp: rbind_eq_Inr split: option.splits if_splits)
  have ps: "od_ok ps" "sid \<notin> set (od_keys ps)" using Cons.prems(3) by (auto simp: od_ok_def od_keys_def e)
  define r1 where "r1 = (if zero then r else od_set sid (od_del a held) r)"
  have own: "own_position r sid b = amount_or_zero held b" for b by (simp add: own_position_def h)
  have gone: "zero \<Longrightarrow> dval (amount_or_zero held a) = 0"
    using dec_eq_zero by (auto simp: zero_def amount_or_zero_def)
  have ok: "positions_ok r1"
  proof -
    have g: "grid (-12) (own_position r s b)" for s b using Cons.prems(2) by (simp add: positions_ok_def)
    have "grid (-12) (own_position (od_set sid (od_del a held) r) s b)" for s b
      using g [of s b] own [of b] by (auto simp: own_position_def amount_or_zero_def grid_def split: option.splits)
    with Cons.prems(2) show ?thesis by (simp add: r1_def positions_ok_def)
  qed
  have total: "positions_total r1 b = positions_total r b - (if b = a then dval (amount_or_zero held a) else 0)" for b
    using total_od_set [of r sid "od_del a held" b] Cons.prems(2) gone own
    by (auto simp: r1_def positions_ok_def amount_or_zero_def)
  have later: "od_get r1 s = Some x" if "(s, x) \<in> set ps" for s x
    using Cons.prems(4) [of s x] that ps(2) by (auto simp: r1_def e od_keys_def image_iff)
  have rest1: "rfold (settle_step a) (r1, cs, ss) ps = Inr (r', capitals', shares')" using rest by (simp add: st r1_def)
  have "positions_total (entry # ps) a = dval (amount_or_zero held a) + positions_total ps a"
    by (simp add: positions_total_def e)
  with Cons.IH [OF rest1 ok ps(1) later] total show ?case by auto
qed (simp add: positions_total_def)

section \<open>Fills and settlements\<close>

text \<open>
  A run of the allocation state, with the position the account itself has in each asset through the
  orders allocation placed: a fill adds its quantity, a final settlement closes the position.
\<close>

definition fill_fits :: "allocation_state \<Rightarrow> string \<Rightarrow> string \<Rightarrow> decimal \<Rightarrow> bool" where
  "fill_fits s oid a x =
     (splits_exactly x (contributions_for s oid) \<and>
      (\<forall>ps sid. strategy_positions s = Some ps \<longrightarrow> \<bar>dval (own_position ps sid a)\<bar> < 10 ^ 21))"

definition positions_kept :: "allocation_state \<Rightarrow> allocation_state \<Rightarrow> bool" where
  "positions_kept s s' =
     ((\<exists>eids oids intents b t orders. allocate eids oids s intents b t = Inr (s', orders)) \<or>
      (\<exists>eid oid x t. apply_execution eid s oid x t = Inr s') \<or>
      (\<exists>eid oid t. release_reservation eid s oid t = Inr s') \<or> (\<exists>oid. retire_contributions s oid = Inr s'))"

inductive shares_run :: "capital_budget \<Rightarrow> allocation_state \<Rightarrow> (string \<Rightarrow> rat) \<Rightarrow> bool" for c where
  fresh: "shares_run c (initialize c) (\<lambda>a. 0)"
| filled: "shares_run c s account \<Longrightarrow> record_fill s oid a x v = Inr s' \<Longrightarrow> contributions_for s oid \<noteq> [] \<Longrightarrow>
    fill_fits s oid a x \<Longrightarrow> shares_run c s' (account(a := account a + dval x))"
| nobody: "shares_run c s account \<Longrightarrow> record_fill s oid a x v = Inr s' \<Longrightarrow> contributions_for s oid = [] \<Longrightarrow>
    shares_run c s' account"
| settled: "shares_run c s account \<Longrightarrow> settle_asset s a = Inr (s', shares) \<Longrightarrow> shares_run c s' (account(a := 0))"
| kept: "shares_run c s account \<Longrightarrow> positions_kept s s' \<Longrightarrow> shares_run c s' account"

definition shares_ok :: "allocation_state \<Rightarrow> (string \<Rightarrow> rat) \<Rightarrow> bool" where
  "shares_ok s account =
     (\<exists>ps. strategy_positions s = Some ps \<and> positions_ok ps \<and> (\<forall>a. positions_total ps a = account a))"

lemma fill_keeps:
  assumes ok: "shares_ok s account" and run: "record_fill s oid a x v = Inr s'" and cs: "contributions_for s oid \<noteq> []"
    and fits: "fill_fits s oid a x"
  shows "shares_ok s' (account(a := account a + dval x))"
proof -
  obtain ps where ps: "strategy_positions s = Some ps" "positions_ok ps" "\<And>a. positions_total ps a = account a"
    using ok by (auto simp: shares_ok_def)
  have x: "is_finite x" using fits grid_finite by (auto simp: fill_fits_def splits_exactly_def)
  show ?thesis
  proof (cases "dec_eq x dec_zero")
    case True
    then have "s' = s" "dval x = 0" using run ps(1) cs dec_eq_zero by (simp_all add: record_fill_def)
    with ok show ?thesis by simp
  next
    case False
    then obtain v' parts ps' capitals where st:
        "split_by_contribution x (contributions_for s oid) (Fin 1 (-12)) = Inr parts"
        "rfold (fill_share (budget s) oid a (enforce_strategy_budgets (budget s) \<and> v \<noteq> None) v') (ps, strategy_capitals s) parts = Inr (ps', capitals)"
        "s' = s\<lparr>strategy_positions := Some ps', strategy_capitals := capitals\<rparr>"
      using run ps(1) cs unfolding record_fill_def POSITION_QUANTUM_def Let_def
      by (auto simp: rbind_eq_Inr split: if_splits)
    have split: "splits_exactly x (contributions_for s oid)" using fits by (simp add: fill_fits_def)
    note P = split_sums [OF st(1) split cs]
    have "parts_size parts < 10 ^ 15" using split st(1) by (simp add: splits_exactly_def)
    then have "\<bar>dval (own_position ps sid a)\<bar> + parts_size parts < 10 ^ 22" for sid
    proof -
      have "\<bar>dval (own_position ps sid a)\<bar> < 10 ^ 21" using fits ps(1) by (simp add: fill_fits_def)
      with \<open>parts_size parts < 10 ^ 15\<close> show ?thesis by simp
    qed
    from fill_shares [OF st(2) ps(2) _ this] P ps(3) show ?thesis unfolding shares_ok_def st(3) by simp
  qed
qed

lemma settle_keeps:
  assumes ok: "shares_ok s account" and run: "settle_asset s a = Inr (s', shares)"
  shows "shares_ok s' (account(a := 0))"
proof -
  obtain ps where ps: "strategy_positions s = Some ps" "positions_ok ps" "\<And>a. positions_total ps a = account a"
    using ok by (auto simp: shares_ok_def)
  obtain r capitals ss where st: "rfold (settle_step a) (ps, strategy_capitals s, []) ps = Inr (r, capitals, ss)"
    and s': "s' = (if ss = [] then s else s\<lparr>strategy_positions := Some r, strategy_capitals := capitals\<rparr>)"
    using run ps(1) by (auto simp: settle_asset_def rbind_eq_Inr split: if_splits)
  have od: "od_ok ps" using ps(2) by (simp add: positions_ok_def)
  note T = settle_totals [OF st ps(2) od]
  have entry: "(sid, held) \<in> set ps \<Longrightarrow> od_get ps sid = Some held" for sid held using od_get_in [OF od] by blast
  show ?thesis
  proof (cases "ss = []")
    case False
    with T [OF entry] ps(3) show ?thesis by (auto simp: shares_ok_def s')
  next
    case True
    have "ss = [] \<longrightarrow> r = ps"
    proof -
      have "snd (snd (r, capitals, ss)) = [] \<longrightarrow> fst (r, capitals, ss) = ps"
        by (rule rfold_invariant [OF _ _ st, where P = "\<lambda>st. snd (snd st) = [] \<longrightarrow> fst st = ps"])
          (auto simp: settle_step_def rbind_eq_Inr split: option.splits if_splits)
      then show ?thesis by simp
    qed
    with True have "r = ps" by simp
    moreover have "positions_total r a = 0" using T [OF entry] by simp
    ultimately have "positions_total ps a = 0" by simp
    with True ps show ?thesis by (auto simp: shares_ok_def s')
  qed
qed

lemma kept_positions: "positions_kept s s' \<Longrightarrow> strategy_positions s' = strategy_positions s"
proof -
  have batch: "strategy_positions s1 = strategy_positions s" if "allocate_batch oids s valid b t = Inr (s1, orders, ns)"
    for oids valid b t s1 orders ns
    using that by (auto simp: allocate_batch_def book_emissions_def rbind_eq_Inr Let_def split: if_splits)
  show "positions_kept s s' \<Longrightarrow> strategy_positions s' = strategy_positions s"
    unfolding positions_kept_def
  proof (elim disjE exE)
    fix eids oids intents b t orders
    assume "allocate eids oids s intents b t = Inr (s', orders)"
    then show ?thesis by (auto simp: allocate_def rbind_eq_Inr Let_def dest: batch split: if_splits)
  qed (auto simp: apply_execution_def release_reservation_def retire_contributions_def rbind_eq_Inr split: option.splits)
qed

lemma shares_run_ok: "shares_run c s account \<Longrightarrow> shares_ok s account"
proof (induction rule: shares_run.induct)
  case fresh
  have "positions_ok []" by (simp add: positions_ok_def own_position_def grid_def)
  then show ?case by (simp add: shares_ok_def initialize_def positions_total_def)
next
  case (nobody s account oid a x v s')
  then have "s' = s" by (auto simp: record_fill_def split: option.splits)
  with nobody show ?case by simp
next
  case (kept s account s')
  with kept_positions show ?case by (simp add: shares_ok_def)
qed (blast intro: fill_keeps settle_keeps)+

text \<open>C24: Through any batches, fills, settlements, executions, releases and retirements -- splits and
  lifecycle moves are outside this run -- the strategies' own positions in an asset add up to exactly what
  the account's own orders have filled in it since it was last settled.\<close>

theorem strategies_share_every_fill:
  assumes "shares_run c s account"
  shows "\<exists>ps. strategy_positions s = Some ps \<and> positions_total ps a = account a"
  using shares_run_ok [OF assms] by (auto simp: shares_ok_def)

definition two_shares :: "(string \<times> decimal) list" where
  "two_shares = [(''m'', Fin 6000000000000 (-12)), (''r'', Fin (-1000000000000) (-12))]"

lemma five_split: "split_by_contribution (Fin 5000000 (-6)) (contributions_for after_batch []) (Fin 1 (-12)) = Inr two_shares"
  by (simp add: two_shares_def contributions_for_def after_batch_def netted_order_def asked_shares_def od_get_Cons
    split_by_contribution_def net_of_def next_share_def SPLIT_CONTEXT_def Etiny_def Etop_def dec_quantize.simps
    rescale_def dec_eval)

definition after_fill :: allocation_state where
  "after_fill = after_batch\<lparr>strategy_positions :=
     Some [(''m'', [(''A'', Fin 6000000000000 (-12))]), (''r'', [(''A'', Fin (-1000000000000) (-12))])]\<rparr>"

lemma five_filled: "record_fill after_batch [] ''A'' (Fin 5000000 (-6)) None = Inr after_fill"
proof -
  have c: "contributions_for after_batch [] \<noteq> []"
    by (simp add: contributions_for_def after_batch_def netted_order_def asked_shares_def od_get_Cons)
  show ?thesis
    using five_split c unfolding record_fill_def POSITION_QUANTUM_def
    by (simp add: two_shares_def fill_share_def own_position_def set_position_def amount_or_zero_def od_get_Cons
      after_batch_def initialize_def dec_eval) (simp add: after_fill_def after_batch_def initialize_def)
qed

lemma five_fits: "fill_fits after_batch [] ''A'' (Fin 5000000 (-6))"
proof -
  have n: "net_of (contributions_for after_batch []) = Inr (Fin 5000000 (-6))"
    by (simp add: contributions_for_def after_batch_def netted_order_def asked_shares_def od_get_Cons net_of_def
      SPLIT_CONTEXT_def Etiny_def Etop_def dec_eval)
  show ?thesis
    by (simp add: fill_fits_def splits_exactly_def five_split n two_shares_def parts_size_def grid_def align_def)
      (simp add: dval.simps(1) power_int_minus after_batch_def initialize_def own_position_def)
qed

theorem strategies_share_every_fill_witness:
  "positions_total (the (strategy_positions after_fill)) ''A'' = 5 \<and> own_position (the (strategy_positions after_fill)) ''m'' ''A'' =
     Fin 6000000000000 (-12)"
proof -
  have r: "shares_run small_budget after_batch (\<lambda>a. 0)"
    by (rule shares_run.kept [OF shares_run.fresh]) (use small_allocation in \<open>auto simp: positions_kept_def\<close>)
  have c: "contributions_for after_batch [] \<noteq> []"
    by (simp add: contributions_for_def after_batch_def netted_order_def asked_shares_def od_get_Cons)
  note f = shares_run.filled [OF r five_filled c five_fits]
  from strategies_share_every_fill [OF f, of "''A''"] show ?thesis
    by (auto simp: after_fill_def own_position_def amount_or_zero_def od_get_Cons dval.simps(1))
qed

end
