(* ===== verification/Allocation_Targets.thy ===== *)
theory Allocation_Targets
  imports Allocation_Budget
begin

text \<open>
  Target intents: the order that takes a strategy to its target is measured against what it holds and
  has working, rounded toward zero, and never overshoots.
\<close>

section \<open>Rounding toward zero\<close>

text \<open>\<open>y\<close> lies between zero and \<open>x\<close>.\<close>

definition toward :: "rat \<Rightarrow> rat \<Rightarrow> bool" where
  "toward x y = (\<bar>y\<bar> \<le> \<bar>x\<bar> \<and> 0 \<le> x * y)"

lemma toward_refl [simp]: "toward x x"
  by (simp add: toward_def)

lemma toward_zero [simp]: "toward x 0"
  by (simp add: toward_def)

lemma toward_trans: "toward x y \<Longrightarrow> toward y z \<Longrightarrow> toward x z"
proof -
  assume h: "toward x y" "toward y z"
  show "toward x z"
  proof (cases "y = 0")
    case True
    with h(2) show ?thesis by (simp add: toward_def)
  next
    case False
    with h show ?thesis by (auto simp: toward_def zero_le_mult_iff)
  qed
qed

lemma toward_rest: "toward x y \<Longrightarrow> \<bar>x - y\<bar> = \<bar>x\<bar> - \<bar>y\<bar>"
  by (auto simp: toward_def zero_le_mult_iff)

lemma div_trunc_toward:
  fixes c b :: int
  assumes "0 < b"
  shows "\<bar>div_trunc c b * b\<bar> \<le> \<bar>c\<bar> \<and> 0 \<le> c * div_trunc c b"
proof -
  obtain q r where qr: "c div b = q" "c mod b = r" "c = q * b + r" "0 \<le> r" "r < b"
    using div_mod_cases [OF assms] .
  show ?thesis
  proof (cases "0 \<le> c")
    case True
    then have "0 \<le> q" using qr(1) assms pos_imp_zdiv_nonneg_iff by blast
    moreover have "div_trunc c b = q" using True qr(1) by (simp add: div_trunc_def)
    moreover have "q * b \<le> c" using qr(3,4) by simp
    ultimately show ?thesis using True assms by (simp add: abs_mult)
  next
    case neg: False
    show ?thesis
    proof (cases "r = 0")
      case True
      then have "c = q * b" "div_trunc c b = q" using neg qr by (simp_all add: div_trunc_def)
      moreover have "0 \<le> q * b * q" using assms by (simp add: mult.commute [of q b] mult.assoc)
      ultimately show ?thesis by simp
    next
      case False
      have "q < 0" using neg qr(3,4) assms by (smt (verit) mult_nonneg_nonneg)
      then have n: "q + 1 \<le> 0" by simp
      have d: "div_trunc c b = q + 1" using neg False qr by (simp add: div_trunc_def)
      have "c \<le> (q + 1) * b" using qr(3,5) by (simp add: distrib_right)
      moreover have "(q + 1) * b \<le> 0" using n assms by (simp add: mult_nonpos_nonneg)
      moreover have "0 \<le> c * (q + 1)" using neg n by (simp add: mult_nonpos_nonpos)
      ultimately show ?thesis using neg unfolding d by (simp add: abs_of_nonpos)
    qed
  qed
qed

lemma rescale_down_toward: "toward (dval (Fin c e)) (dval (Fin (rescale ROUND_DOWN c e f) f))"
proof (cases "f \<le> e")
  case True
  then have "dval (Fin (rescale ROUND_DOWN c e f) f) = dval (Fin c e)"
    using powi_split [of f e] by (simp add: rescale_def dval.simps(1) mult.assoc)
  then show ?thesis by simp
next
  case False
  define b where "b = (10::int) ^ nat (f - e)"
  define k where "k = div_trunc c b"
  have f: "(10::rat) powi f = of_int b * 10 powi e" using False powi_split [of e f] by (simp add: b_def)
  have t: "\<bar>k * b\<bar> \<le> \<bar>c\<bar>" "0 \<le> c * k" using div_trunc_toward [of b c] by (simp_all add: k_def b_def)
  have y: "dval (Fin (rescale ROUND_DOWN c e f) f) = of_int (k * b) * 10 powi e"
    using False by (simp add: rescale_def dval.simps(1) f k_def b_def)
  have "of_int \<bar>k * b\<bar> * (10::rat) powi e \<le> of_int \<bar>c\<bar> * 10 powi e"
    using t(1) by (intro mult_right_mono) (simp_all only: of_int_le_iff less_imp_le powi_pos)
  moreover have "0 \<le> c * (k * b)" using t(2) by (simp add: b_def mult.assoc [symmetric])
  then have "0 \<le> (of_int (c * (k * b)) :: rat)" by (simp only: of_int_0_le_iff)
  then have "0 \<le> of_int (c * (k * b)) * (10 powi e * (10::rat) powi e)" by simp
  then have "0 \<le> (of_int c * 10 powi e) * (of_int (k * b) * (10::rat) powi e)" by (simp add: mult_ac)
  ultimately show ?thesis unfolding toward_def y by (simp add: dval.simps(1) abs_mult)
qed

lemma quantized_down:
  assumes "dec_quantize DOWN_CONTEXT a (Fin d f) = Inr r" "is_finite a"
  shows "\<exists>k. r = Fin k f" "toward (dval a) (dval r)" "\<bar>dval a - dval r\<bar> < 10 powi f"
proof -
  obtain c e where a: "a = Fin c e" using assms(2) by (auto simp: is_finite_iff)
  have r: "r = Fin (rescale ROUND_DOWN c e f) f"
    using dec_quantize_result(1) [OF assms(1) [unfolded a]] by (simp add: DOWN_CONTEXT_def)
  then show "\<exists>k. r = Fin k f" by blast
  show "toward (dval a) (dval r)" unfolding a r by (rule rescale_down_toward)
  show "\<bar>dval a - dval r\<bar> < 10 powi f" unfolding a r by (rule rescale_dist)
qed

lemma integral_down:
  assumes "is_finite a"
  shows "is_finite (to_integral ROUND_DOWN a)" "toward (dval a) (dval (to_integral ROUND_DOWN a))"
    "\<bar>dval a - dval (to_integral ROUND_DOWN a)\<bar> < 1" "\<exists>k::int. dval (to_integral ROUND_DOWN a) = of_int k"
proof -
  obtain c e where a: "a = Fin c e" using assms by (auto simp: is_finite_iff)
  have "\<exists>k::int. dval (to_integral ROUND_DOWN a) = of_int k"
  proof (cases "0 \<le> e")
    case True
    then have "dval a = of_int (c * 10 ^ nat e)" using powi_split [of 0 e] by (simp add: a dval.simps(1))
    with True show ?thesis unfolding a by (intro exI [of _ "c * 10 ^ nat e"]) simp
  qed (auto simp: a dval.simps(1))
  then show "\<exists>k::int. dval (to_integral ROUND_DOWN a) = of_int k" .
  show "is_finite (to_integral ROUND_DOWN a)" by (simp add: a)
  show "toward (dval a) (dval (to_integral ROUND_DOWN a))"
    using rescale_down_toward [of c e 0] by (simp add: a)
  show "\<bar>dval a - dval (to_integral ROUND_DOWN a)\<bar> < 1" using rescale_dist [of c e ROUND_DOWN 0] by (simp add: a)
qed

section \<open>The order for a target\<close>

text \<open>The figures a target is measured with: finite, on a grid and together below the bound.\<close>

definition measured :: "int \<Rightarrow> decimal \<Rightarrow> decimal \<Rightarrow> decimal \<Rightarrow> bool" where
  "measured e t h w =
     (money_room e \<and> grid e t \<and> grid e h \<and> grid e w \<and> \<bar>dval t\<bar> + \<bar>dval h\<bar> + \<bar>dval w\<bar> < 10 powi (e + 34))"

lemma measured_gap:
  assumes "measured e t h w" "dec_add ACCOUNTING_CONTEXT h w = Inr c" "dec_sub ACCOUNTING_CONTEXT t c = Inr g"
  shows "is_finite g" "dval c = dval h + dval w" "dval g = dval t - (dval h + dval w)"
proof -
  have m: "money_room e" "grid e t" "grid e h" "grid e w" "\<bar>dval t\<bar> + \<bar>dval h\<bar> + \<bar>dval w\<bar> < 10 powi (e + 34)"
    using assms(1) by (simp_all add: measured_def)
  have c: "grid e c" "dval c = dval h + dval w"
    using exact_sum [OF assms(2) m(3,4,1)] m(5) by linarith+
  have "\<bar>dval t - dval c\<bar> < 10 powi (e + 34)" using m(5) c(2) by linarith
  from exact_difference [OF assms(3) m(2) c(1) m(1) this] c(2) grid_finite
  show "is_finite g" "dval c = dval h + dval w" "dval g = dval t - (dval h + dval w)" by auto
qed

lemma rounded_toward:
  assumes run: "round_toward t c whole l = Inr d" and g: "dec_sub ACCOUNTING_CONTEXT t c = Inr g" "is_finite g"
    and l: "\<And>x. l = Some x \<Longrightarrow> \<exists>s m. make_lot s m = Inr x"
  shows "is_finite d" "toward (dval g) (dval d)"
    "l = None \<Longrightarrow> \<bar>dval g - dval d\<bar> < (if whole then 1 else 10 powi (-6))"
    "l = None \<Longrightarrow> whole \<Longrightarrow> \<exists>k::int. dval d = of_int k"
proof -
  obtain x where x: "dec_quantize DOWN_CONTEXT g (Fin 1 (-6)) = Inr x"
    and d: "(case l of None \<Rightarrow> Inr (if whole then to_integral ROUND_DOWN x else x)
      | Some l \<Rightarrow> round_down_to_lot (if whole then to_integral ROUND_DOWN x else x) l) = Inr d"
    using run g(1) by (auto simp: round_toward_def QUANTITY_QUANTUM_def rbind_eq_Inr Let_def)
  define y where "y = (if whole then to_integral ROUND_DOWN x else x)"
  note X = quantized_down [OF x g(2)]
  have fx: "is_finite x" using X(1) by auto
  note W = integral_down [OF fx]
  have y: "is_finite y" "toward (dval g) (dval y)"
    using fx W(1,2) X(2) by (auto simp: y_def intro: toward_trans)
  show "is_finite d" "toward (dval g) (dval d)"
  proof -
    have "is_finite d \<and> toward (dval g) (dval d)"
    proof (cases l)
      case None
      with d y show ?thesis by (simp add: y_def)
    next
      case (Some z)
      then obtain s m where m: "make_lot s m = Inr z" using l by blast
      have r: "round_down_to_lot y z = Inr d" using d Some by (simp add: y_def)
      have "is_finite d" "toward (dval y) (dval d)"
        using largest_lot [OF m y(1) r] by (simp_all add: toward_def mult.commute)
      with y(2) show ?thesis using toward_trans by blast
    qed
    then show "is_finite d" "toward (dval g) (dval d)" by simp_all
  qed
  show "\<bar>dval g - dval d\<bar> < (if whole then 1 else 10 powi (-6))" if "l = None"
  proof (cases whole)
    case True
    with that d have e: "d = to_integral ROUND_DOWN x" by simp
    obtain k where k: "x = Fin k (-6)" using X(1) by blast
    obtain j :: int where j: "dval d = of_int j" using W(4) e by blast
    have "dval x - dval d = of_int (k - j * 1000000) / 1000000"
      by (simp add: k j dval.simps(1) power_int_minus field_simps)
    note diff = this
    have "\<bar>dval x - dval d\<bar> < 1" using W(3) e by simp
    then have "\<bar>(of_int (k - j * 1000000) :: rat)\<bar> < 1000000" unfolding diff abs_divide by simp
    then have "\<bar>k - j * 1000000\<bar> < 1000000" by (simp flip: of_int_abs)
    then have "\<bar>k - j * 1000000\<bar> \<le> 999999" by simp
    then have "(of_int \<bar>k - j * 1000000\<bar> :: rat) \<le> of_int 999999" by (simp only: of_int_le_iff)
    then have "\<bar>dval x - dval d\<bar> \<le> 999999 / 1000000" unfolding diff abs_divide by simp
    moreover have "\<bar>dval g - dval x\<bar> < 1 / 1000000" using X(3) by (simp add: power_int_minus)
    moreover have "\<bar>dval g - dval d\<bar> \<le> \<bar>dval g - dval x\<bar> + \<bar>dval x - dval d\<bar>" by linarith
    ultimately show ?thesis using True by simp
  next
    case False
    with that d X(3) show ?thesis by simp
  qed
  show "\<exists>k::int. dval d = of_int k" if "l = None" whole using that d W(4) by auto
qed

lemma target_deltaE:
  assumes "target_delta s i up bp working l minimum whole = Inr d"
  obtains h price t c where "strategy_position s (in_strategy i) (instrument i) = Inr h"
    "priced_for_target i up = Inr price" "target_units s i price bp = Inr t"
    "dec_add ACCOUNTING_CONTEXT h (amount_or_zero working (in_strategy i, instrument i)) = Inr c"
    "round_toward t c whole l = Inr d" "dec_eq d dec_zero \<or> check_minimum d price minimum = Inr d"
proof -
  obtain h price t c x where st: "strategy_position s (in_strategy i) (instrument i) = Inr h"
    "priced_for_target i up = Inr price" "target_units s i price bp = Inr t"
    "dec_add ACCOUNTING_CONTEXT h (amount_or_zero working (in_strategy i, instrument i)) = Inr c"
    "round_toward t c whole l = Inr x" "(if dec_eq x dec_zero then Inr x else check_minimum x price minimum) = Inr d"
    using assms unfolding target_delta_def rbind_eq_Inr by blast
  have same: "check_minimum x price minimum = Inr d \<Longrightarrow> d = x"
    by (cases minimum) (auto simp: check_minimum_def rbind_eq_Inr split: if_splits)
  show thesis
  proof (cases "dec_eq x dec_zero")
    case True
    with st that show ?thesis by simp
  next
    case False
    with st(6) have "check_minimum x price minimum = Inr d" by simp
    with same st that show ?thesis by blast
  qed
qed

text \<open>Truncating what is already less than one step of the grid leaves nothing.\<close>

lemma nothing_left:
  assumes run: "round_toward t c whole None = Inr d" and g: "dec_sub ACCOUNTING_CONTEXT t c = Inr g" "is_finite g"
    and small: "\<bar>dval g\<bar> < (if whole then 1 else 10 powi (-6))"
  shows "dval d = 0"
proof -
  obtain x where x: "dec_quantize DOWN_CONTEXT g (Fin 1 (-6)) = Inr x" "d = (if whole then to_integral ROUND_DOWN x else x)"
    using run g(1) by (auto simp: round_toward_def QUANTITY_QUANTUM_def rbind_eq_Inr Let_def)
  note X = quantized_down [OF x(1) g(2)]
  obtain k where k: "x = Fin k (-6)" using X(1) by blast
  have le: "\<bar>dval x\<bar> \<le> \<bar>dval g\<bar>" using X(2) by (simp add: toward_def)
  show ?thesis
  proof (cases whole)
    case True
    have W: "\<bar>dval d\<bar> \<le> \<bar>dval x\<bar>" "\<exists>j::int. dval d = of_int j"
      using integral_down(2,4) [of x] x(2) True k by (simp_all add: toward_def)
    then obtain j :: int where j: "dval d = of_int j" by blast
    have "\<bar>dval d\<bar> < 1" using order.strict_trans1 [OF order.trans [OF W(1) le]] small True by simp
    then have "\<bar>(of_int j :: rat)\<bar> < 1" unfolding j .
    then show ?thesis using j by (simp flip: of_int_abs)
  next
    case False
    have "\<bar>of_int k * (10::rat) powi (-6)\<bar> < 10 powi (-6)" using le small False k by (simp add: dval.simps(1))
    then have "\<bar>(of_int k :: rat)\<bar> < 1" by (simp add: abs_mult power_int_minus)
    then have "k = 0" by (simp flip: of_int_abs)
    with x(2) False k show ?thesis by simp
  qed
qed

text \<open>The figures of one target: what the strategy holds, the target in units and what is working for it.\<close>

definition target_figures ::
  "int \<Rightarrow> allocation_state \<Rightarrow> intent \<Rightarrow> (string, decimal) od \<Rightarrow> (string, decimal) od \<Rightarrow> (string \<times> string, decimal) od \<Rightarrow>
   decimal \<Rightarrow> decimal \<Rightarrow> decimal \<Rightarrow> bool" where
  "target_figures e s i up bp working t h w =
     (strategy_position s (in_strategy i) (instrument i) = Inr h \<and>
      rbind (priced_for_target i up) (\<lambda>price. target_units s i price bp) = Inr t \<and>
      w = amount_or_zero working (in_strategy i, instrument i) \<and> measured e t h w)"

lemma target_order:
  assumes run: "target_delta s i up bp working l minimum whole = Inr d" and figs: "target_figures e s i up bp working t h w"
    and l: "\<And>x. l = Some x \<Longrightarrow> \<exists>s m. make_lot s m = Inr x"
  obtains c g where "round_toward t c whole l = Inr d" "dec_sub ACCOUNTING_CONTEXT t c = Inr g" "is_finite g"
    "dval g = dval t - (dval h + dval w)"
proof (rule target_deltaE [OF run])
  fix h' price t' c
  assume st: "strategy_position s (in_strategy i) (instrument i) = Inr h'" "priced_for_target i up = Inr price"
    "target_units s i price bp = Inr t'"
    "dec_add ACCOUNTING_CONTEXT h' (amount_or_zero working (in_strategy i, instrument i)) = Inr c"
    "round_toward t' c whole l = Inr d"
  have eq: "h' = h" "t' = t" "w = amount_or_zero working (in_strategy i, instrument i)"
    using figs st(1-3) by (simp_all add: target_figures_def)
  have m: "measured e t h w" using figs unfolding target_figures_def by blast
  obtain g where g: "dec_sub ACCOUNTING_CONTEXT t c = Inr g"
    using st(5) eq(2) by (auto simp: round_toward_def rbind_eq_Inr)
  from measured_gap [OF m st(4) [unfolded eq(1) eq(3) [symmetric]] g] st(5) eq(2) g that show thesis by simp
qed

text \<open>C26: The order for a target never passes it: it lies between nothing and what the strategy is short of
  its target, and with no lot it comes within one quantum of it, or one unit in a run of whole units.\<close>

theorem target_never_overshot:
  assumes "target_delta s i up bp working l minimum whole = Inr d" "target_figures e s i up bp working t h w"
    and "\<And>x. l = Some x \<Longrightarrow> \<exists>s m. make_lot s m = Inr x"
  shows "toward (dval t - (dval h + dval w)) (dval d) \<and>
    (l \<noteq> None \<or> \<bar>dval t - (dval h + dval w) - dval d\<bar> < (if whole then 1 else 10 powi (-6)))"
proof (rule target_order [OF assms])
  fix c g
  assume g: "round_toward t c whole l = Inr d" "dec_sub ACCOUNTING_CONTEXT t c = Inr g" "is_finite g"
    "dval g = dval t - (dval h + dval w)"
  from rounded_toward(2,3) [OF g(1-3) assms(3)] show ?thesis unfolding g(4) by blast
qed

text \<open>With the order for a target working, stating the same target again asks for nothing.\<close>

theorem target_asked_once:
  assumes first: "target_delta s i up bp working None minimum whole = Inr d" "target_figures e s i up bp working t h w"
    and again: "target_delta s i up bp working' None minimum whole = Inr d'" "target_figures e s i up bp working' t h w'"
    and "dval w' = dval w + dval d"
  shows "dval d' = 0"
proof (rule target_order [OF first])
  fix c g
  assume g: "round_toward t c whole None = Inr d" "dec_sub ACCOUNTING_CONTEXT t c = Inr g" "is_finite g"
    "dval g = dval t - (dval h + dval w)"
  have close: "\<bar>dval g - dval d\<bar> < (if whole then 1 else 10 powi (-6))" using rounded_toward(3) [OF g(1-3)] by simp
  show "dval d' = 0"
  proof (rule target_order [OF again])
    fix c' g'
    assume g': "round_toward t c' whole None = Inr d'" "dec_sub ACCOUNTING_CONTEXT t c' = Inr g'" "is_finite g'"
      "dval g' = dval t - (dval h + dval w')"
    have "dval g' = dval g - dval d" using g(4) g'(4) assms(5) by simp
    with close nothing_left [OF g'(1-3)] show ?thesis by simp
  qed simp
qed simp

definition holder :: allocation_state where
  "holder = (initialize \<lparr>global_capital = Fin 1000 0, maximum_exposure = Fin 1000 0, cash_buffer = zero_cents,
     strategy_budgets = [], cb_currency = [], enforce_strategy_budgets = False\<rparr>)
     \<lparr>strategy_positions := Some [(''m'', [(''A'', Fin 25 (-1))])]\<rparr>"

definition wants_ten :: intent where
  "wants_ten = \<lparr>in_strategy = ''m'', instrument = ''A'', in_target = Fin 10 0, strength = Fin 99 (-2), horizon = [],
     in_terms = PLAIN_TERMS, correlation_id = [], in_timestamp = FFin 0, in_metadata = [], in_kind = TARGET_QUANTITY\<rparr>"

lemmas target_example = target_delta_def strategy_position_def own_position_def amount_or_zero_def priced_for_target_def
  target_units_def round_toward_def QUANTITY_QUANTUM_def DOWN_CONTEXT_def check_minimum_def holder_def initialize_def
  wants_ten_def od_get_Cons dec_quantize.simps rescale_def div_trunc_def ACCOUNTING_CONTEXT_def ACCOUNTING_PRECISION_def Etiny_def
  Etop_def dec_eval

lemma ten_first: "target_delta holder wants_ten [(''A'', Fin 100 0)] [] [] None None True = Inr (Fin 7 0)"
  by (simp add: target_example)

lemma ten_again: "target_delta holder wants_ten [(''A'', Fin 100 0)] [] [((''m'', ''A''), Fin 7 0)] None None True = Inr (Fin 0 0)"
  by (simp add: target_example)

lemma ten_figures:
  "target_figures (-2) holder wants_ten [(''A'', Fin 100 0)] [] [] (Fin 990 (-2)) (Fin 25 (-1)) (Fin 0 0)"
  "target_figures (-2) holder wants_ten [(''A'', Fin 100 0)] [] [((''m'', ''A''), Fin 7 0)] (Fin 990 (-2)) (Fin 25 (-1)) (Fin 7 0)"
  by (simp_all add: target_figures_def measured_def money_room_def grid_def target_example) (simp_all add: dval.simps(1))

theorem target_never_overshot_witness:
  "toward (99 / 10 - 5 / 2) (dval (Fin 7 0)) \<and> \<bar>99 / 10 - 5 / 2 - dval (Fin 7 0)\<bar> < 1"
  using target_never_overshot [OF ten_first ten_figures(1)] by (simp add: dval.simps(1))

theorem target_asked_once_witness: "dval (Fin 0 0) = 0"
  by (rule target_asked_once [OF ten_first ten_figures(1) ten_again ten_figures(2)]) (simp add: dval.simps(1))

end
