(* ===== verification/Fx.thy ===== *)
theory Fx
  imports Portfolio_Engine Floats
begin

text \<open>
  Foreign exchange: \<open>alphalab/portfolio/fx.py\<close>, the total of a \<open>CurrencyAmounts\<close> in one currency
  (\<open>amounts.py\<close>) and the engine's \<open>convert_cash\<close>. A table of rates is a dictionary keyed by the pair.
  Characters are those of Latin-1, as everywhere in this development, in the \<open>repr\<close> a cross rate's source quotes.
\<close>

section \<open>Rates\<close>

record fx_rate =
  fx_base :: string
  fx_quote :: string
  fx_value :: decimal
  fx_as_of :: pyfloat
  fx_source :: string
  fx_derived :: bool

definition make_rate :: "fx_rate \<Rightarrow> fx_rate res" where
  "make_rate r =
     (if blank (fx_base r) \<or> blank (fx_quote r) then Inl PortfolioError
      else if fx_base r = fx_quote r then Inl PortfolioError
      else if \<not> is_finite (fx_value r) then Inl PortfolioError
      else rbind (dec_le (fx_value r) dec_zero) (\<lambda>bad.
        if bad then Inl PortfolioError
        else if blank (fx_source r) then Inl PortfolioError
        else Inr r))"

definition rate_pair :: "fx_rate \<Rightarrow> string \<times> string" where
  "rate_pair r = (fx_base r, fx_quote r)"

definition inverse_rate :: "fx_rate \<Rightarrow> fx_rate res" where
  "inverse_rate r =
     rbind (dec_div ACCOUNTING_CONTEXT dec_one (fx_value r)) (\<lambda>x.
     rbind (plain x) (\<lambda>rate.
       make_rate \<lparr>fx_base = fx_quote r, fx_quote = fx_base r, fx_value = rate, fx_as_of = fx_as_of r,
                  fx_source = fx_source r, fx_derived = True\<rparr>))"

record fx_conversion =
  cv_amount :: decimal
  cv_converted :: decimal
  cv_rate :: fx_rate

definition conversion_rounding :: "dctx \<Rightarrow> fx_conversion \<Rightarrow> decimal res" where
  "conversion_rounding amb c =
     rbind (dec_mul amb (cv_amount c) (fx_value (cv_rate c))) (\<lambda>x. dec_sub amb (cv_converted c) x)"

section \<open>Tables\<close>

record fx_rates =
  fx_table :: "(string \<times> string, fx_rate) od"
  max_age :: "pyfloat option"
  fx_units :: currency_units

definition rates_of :: "fx_rate list \<Rightarrow> pyfloat option \<Rightarrow> currency_units \<Rightarrow> fx_rates res" where
  "rates_of quoted age units =
     rbind (rfold (\<lambda>table r. if od_get table (rate_pair r) \<noteq> None then Inl PortfolioError
                            else Inr (od_set (rate_pair r) r table)) [] quoted)
       (\<lambda>table. Inr \<lparr>fx_table = table, max_age = age, fx_units = units\<rparr>)"

definition with_rate :: "fx_rate \<Rightarrow> fx_rates \<Rightarrow> fx_rates" where
  "with_rate r rates = rates\<lparr>fx_table := od_set (rate_pair r) r (fx_table rates)\<rparr>"

definition with_inverses :: "fx_rates \<Rightarrow> fx_rates res" where
  "with_inverses rates =
     rbind (rfold (\<lambda>table r. rbind (inverse_rate r) (\<lambda>i.
              Inr (if od_get table (rate_pair i) = None then od_set (rate_pair i) i table else table)))
            (fx_table rates) (od_values (fx_table rates)))
       (\<lambda>table. Inr (rates\<lparr>fx_table := table\<rparr>))"

definition rate_for :: "fx_rates \<Rightarrow> string \<Rightarrow> string \<Rightarrow> fx_rate option" where
  "rate_for rates base quote = od_get (fx_table rates) (base, quote)"

text \<open>The builtin \<open>min(a, b)\<close> of two floats: the second only when it is smaller.\<close>

definition flt_min :: "pyfloat \<Rightarrow> pyfloat \<Rightarrow> pyfloat" where
  "flt_min a b = (if flt_lt b a then b else a)"

text \<open>The builtin \<open>repr\<close> of a string: in double quotes only when it holds single ones and no double one.\<close>

definition hex_digit :: "nat \<Rightarrow> char" where
  "hex_digit n = char_of (if n < 10 then n + 48 else n + 87)"

definition repr_char :: "char \<Rightarrow> char \<Rightarrow> string" where
  "repr_char q c =
     (let n = of_char c :: nat in
      if c = q \<or> c = CHR 0x5C then [CHR 0x5C, c]
      else if n = 9 then [CHR 0x5C, CHR ''t'']
      else if n = 10 then [CHR 0x5C, CHR ''n'']
      else if n = 13 then [CHR 0x5C, CHR ''r'']
      else if (32 \<le> n \<and> n \<le> 126) \<or> (161 \<le> n \<and> n \<noteq> 173) then [c]
      else [CHR 0x5C, CHR ''x'', hex_digit (n div 16), hex_digit (n mod 16)])"

definition py_repr :: "string \<Rightarrow> string" where
  "py_repr s =
     (let q = (if CHR 0x27 \<in> set s \<and> CHR 0x22 \<notin> set s then CHR 0x22 else CHR 0x27) in
      q # concat (map (repr_char q) s) @ [q])"

definition cross_rate :: "fx_rates \<Rightarrow> string \<Rightarrow> string \<Rightarrow> string \<Rightarrow> fx_rate res" where
  "cross_rate rates base quote via =
     (if base = quote then Inl PortfolioError
      else if via = base \<or> via = quote then Inl PortfolioError
      else case (rate_for rates base via, rate_for rates via quote) of
        (Some first, Some second) \<Rightarrow>
          rbind (dec_mul ACCOUNTING_CONTEXT (fx_value first) (fx_value second)) (\<lambda>x.
            make_rate \<lparr>fx_base = base, fx_quote = quote, fx_value = x,
                       fx_as_of = flt_min (fx_as_of first) (fx_as_of second),
                       fx_source = ''cross via '' @ via @ '': '' @ py_repr (fx_source first) @ '' x '' @ py_repr (fx_source second),
                       fx_derived = True\<rparr>)
      | _ \<Rightarrow> Inl MissingRateError)"

definition rate_at :: "fx_rates \<Rightarrow> string \<Rightarrow> string \<Rightarrow> pyfloat option \<Rightarrow> fx_rate res" where
  "rate_at rates base quote as_of =
     (case rate_for rates base quote of
        None \<Rightarrow> Inl MissingRateError
      | Some r \<Rightarrow>
          (case as_of of
             None \<Rightarrow> Inr r
           | Some t \<Rightarrow>
               if flt_lt t (fx_as_of r) then Inl FutureDatedRateError
               else (case max_age rates of
                       None \<Rightarrow> Inr r
                     | Some tolerated \<Rightarrow>
                         if flt_lt tolerated (flt_sub t (fx_as_of r)) then Inl StaleRateError else Inr r)))"

definition fx_convert ::
  "fx_rates \<Rightarrow> decimal \<Rightarrow> string \<Rightarrow> string \<Rightarrow> pyfloat option \<Rightarrow> currency_units option \<Rightarrow> fx_conversion res" where
  "fx_convert rates amount base quote as_of units =
     (let rounding = (case units of None \<Rightarrow> fx_units rates | Some u \<Rightarrow> u) in
      if base = quote then
        rbind (to_money amount quote rounding) (\<lambda>money.
        rbind (make_rate \<lparr>fx_base = base, fx_quote = quote @ ''*'', fx_value = dec_one, fx_as_of = FFin 0,
                          fx_source = ''identity'', fx_derived = False\<rparr>) (\<lambda>identity.
          Inr \<lparr>cv_amount = amount, cv_converted = money, cv_rate = identity\<rparr>))
      else
        rbind (rate_at rates base quote as_of) (\<lambda>r.
        rbind (dec_mul ACCOUNTING_CONTEXT amount (fx_value r)) (\<lambda>x.
        rbind (to_money x quote rounding) (\<lambda>money.
          Inr \<lparr>cv_amount = amount, cv_converted = money, cv_rate = r\<rparr>))))"

definition NO_RATES :: fx_rates where
  "NO_RATES = \<lparr>fx_table = [], max_age = None, fx_units = STANDARD_CURRENCY_UNITS\<rparr>"

section \<open>Amounts and cash in another currency\<close>

text \<open>\<open>CurrencyAmounts.total_in\<close>: its bare additions run in the caller's context.\<close>

definition total_in ::
  "dctx \<Rightarrow> currency_amounts \<Rightarrow> string \<Rightarrow> fx_rates \<Rightarrow> pyfloat option \<Rightarrow> currency_units option \<Rightarrow>
   (decimal \<times> fx_conversion list) res" where
  "total_in amb amounts currency rates as_of units =
     rfold (\<lambda>(total, performed) (held, amount).
       if held = currency then rbind (dec_add amb total amount) (\<lambda>t. Inr (t, performed))
       else if dec_eq amount ZERO_MONEY then Inr (total, performed)
       else if fx_table rates = [] then Inl MixedCurrencyValuationError
       else
         rbind (fx_convert rates amount held currency as_of units) (\<lambda>c.
         rbind (dec_add amb total (cv_converted c)) (\<lambda>t. Inr (t, performed @ [c]))))
       (ZERO_MONEY, []) amounts"

definition convert_cash ::
  "string \<Rightarrow> string \<Rightarrow> decimal \<Rightarrow> string \<Rightarrow> string \<Rightarrow> fx_rates \<Rightarrow> pyfloat \<Rightarrow> bool \<Rightarrow> portfolio_state \<Rightarrow>
   (portfolio_state \<times> fx_conversion) res" where
  "convert_cash tid1 tid2 amount from_currency to_currency rates timestamp financed s =
     (if \<not> is_finite amount then Inl InvalidTransactionError
      else
        rbind (dec_le amount dec_zero) (\<lambda>bad.
        if bad then Inl InvalidTransactionError
        else if from_currency = to_currency then Inl InvalidTransactionError
        else
          let units = account_units (pf_account s) in
          rbind (to_money amount from_currency units) (\<lambda>money.
          rbind (fx_convert rates money from_currency to_currency (Some timestamp) (Some units)) (\<lambda>c.
          rbind (dec_neg ACCOUNTING_CONTEXT money) (\<lambda>minus.
          rbind (if financed then cash_settle ACCOUNTING_CONTEXT minus from_currency (pf_cash s)
                 else cash_withdraw ACCOUNTING_CONTEXT money from_currency (pf_cash s)) (\<lambda>cash1.
          rbind (cash_deposit ACCOUNTING_CONTEXT (cv_converted c) to_currency cash1) (\<lambda>cash2.
            Inr (s\<lparr>pf_cash := cash2,
                   pf_ledger := ledger_append (cash_tx tid2 timestamp s DEPOSIT ''CASH'' (cv_converted c) to_currency)
                     (ledger_append (cash_tx tid1 timestamp s WITHDRAWAL ''CASH'' minus from_currency) (pf_ledger s)),
                   pf_events := pf_events s @ [CashConverted timestamp (account_id (pf_account s)) money from_currency
                     (cv_converted c) to_currency (fx_value (cv_rate c)) (fx_as_of (cv_rate c)) (fx_source (cv_rate c))
                     (fx_derived (cv_rate c))]\<rparr>, c))))))))"
end
