(* ===== verification/Valuation.thy ===== *)
theory Valuation
  imports Fx
begin

text \<open>
  What a book is worth: \<open>alphalab/portfolio/valuation.py\<close>, \<open>nav.py\<close>, \<open>pnl.py\<close> and \<open>exposure.py\<close>. The
  positions a function is given are always a \<open>PositionBook\<close> here, as the portfolio's are. Functions that
  are not decorated with \<open>in_accounting_context\<close> take the caller's context \<open>amb\<close>.
\<close>

section \<open>One currency or several\<close>

definition foreign_currencies :: "cash_ledger \<Rightarrow> position_book \<Rightarrow> string \<Rightarrow> string list \<times> string list" where
  "foreign_currencies cash book base =
     (filter (\<lambda>c. c \<noteq> base) (book_currencies book),
      sort (map fst (filter (\<lambda>(c, x). c \<noteq> base \<and> \<not> dec_eq x ZERO_MONEY) (balances cash))))"

definition assert_single_currency ::
  "cash_ledger \<Rightarrow> position_book \<Rightarrow> string \<Rightarrow> fx_rates \<Rightarrow> (string list \<times> string list) res" where
  "assert_single_currency cash book base rates =
     (case foreign_currencies cash book base of (held, owned) \<Rightarrow>
        if list_all (\<lambda>c. rate_for rates c base \<noteq> None) (held @ owned) then Inr (held, owned)
        else Inl MixedCurrencyValuationError)"

definition cash_in ::
  "dctx \<Rightarrow> cash_ledger \<Rightarrow> string \<Rightarrow> fx_rates \<Rightarrow> pyfloat option \<Rightarrow> currency_units option \<Rightarrow>
   (decimal \<times> fx_conversion list) res" where
  "cash_in amb cash base rates as_of units =
     rfold (\<lambda>(total, performed) (currency, amount).
       if currency = base then rbind (dec_add amb total amount) (\<lambda>t. Inr (t, performed))
       else if dec_eq amount ZERO_MONEY then Inr (total, performed)
       else
         rbind (fx_convert rates amount currency base as_of units) (\<lambda>c.
         rbind (dec_add amb total (cv_converted c)) (\<lambda>t. Inr (t, performed @ [c]))))
       (ZERO_MONEY, []) (balances cash)"

definition positions_in ::
  "dctx \<Rightarrow> position_book \<Rightarrow> string \<Rightarrow> fx_rates \<Rightarrow> pyfloat option \<Rightarrow> currency_units option \<Rightarrow>
   (decimal \<times> fx_conversion list) res" where
  "positions_in amb book base rates as_of units =
     rfold (\<lambda>(total, performed) p.
       rbind (carrying_value amb p) (\<lambda>value.
       if pos_currency p = base then rbind (dec_add amb total value) (\<lambda>t. Inr (t, performed))
       else
         rbind (fx_convert rates value (pos_currency p) base as_of units) (\<lambda>c.
         rbind (dec_add amb total (cv_converted c)) (\<lambda>t. Inr (t, performed @ [c])))))
       (ZERO_MONEY, []) (od_values (bk_positions book))"

text \<open>The long value, the short value, the unrealized P&L and what is not carried, in one currency.\<close>

record book_worth =
  worth_long :: decimal
  worth_short :: decimal
  worth_unrealized :: decimal
  worth_uncarried :: decimal
  worth_conversions :: "fx_conversion list"

definition no_worth :: book_worth where
  "no_worth = \<lparr>worth_long = ZERO_MONEY, worth_short = ZERO_MONEY, worth_unrealized = ZERO_MONEY,
     worth_uncarried = ZERO_MONEY, worth_conversions = []\<rparr>"

text \<open>One figure of a foreign currency, added where \<open>put\<close> puts it when the condition holds.\<close>

definition add_converted ::
  "dctx \<Rightarrow> fx_rates \<Rightarrow> string \<Rightarrow> string \<Rightarrow> pyfloat option \<Rightarrow> currency_units option \<Rightarrow> bool \<Rightarrow> decimal \<Rightarrow>
   (book_worth \<Rightarrow> decimal) \<Rightarrow> (decimal \<Rightarrow> book_worth \<Rightarrow> book_worth) \<Rightarrow> book_worth \<Rightarrow> book_worth res" where
  "add_converted amb rates currency base as_of units wanted amount pick put w =
     (if \<not> wanted then Inr w
      else
        rbind (fx_convert rates amount currency base as_of units) (\<lambda>c.
        rbind (dec_add amb (pick w) (cv_converted c)) (\<lambda>t.
          Inr (put t (w\<lparr>worth_conversions := worth_conversions w @ [c]\<rparr>)))))"

definition put_long where "put_long t w = w\<lparr>worth_long := t\<rparr>" for w :: book_worth
definition put_short where "put_short t w = w\<lparr>worth_short := t\<rparr>" for w :: book_worth
definition put_unrealized where "put_unrealized t w = w\<lparr>worth_unrealized := t\<rparr>" for w :: book_worth
definition put_uncarried where "put_uncarried t w = w\<lparr>worth_uncarried := t\<rparr>" for w :: book_worth

definition add_currency ::
  "dctx \<Rightarrow> position_book \<Rightarrow> string \<Rightarrow> fx_rates \<Rightarrow> pyfloat option \<Rightarrow> currency_units option \<Rightarrow> book_worth \<Rightarrow> string \<Rightarrow>
   book_worth res" where
  "add_currency amb book base rates as_of units w currency =
     (let t = book_totals book currency in
      if currency = base then
        rbind (dec_add amb (worth_long w) (long_value t)) (\<lambda>lv.
        rbind (dec_add amb (worth_short w) (short_value t)) (\<lambda>sv.
        rbind (dec_add amb (worth_unrealized w) (total_unrealized t)) (\<lambda>un.
        rbind (dec_add amb (worth_uncarried w) (uncarried_value t)) (\<lambda>uc.
          Inr (w\<lparr>worth_long := lv, worth_short := sv, worth_unrealized := un, worth_uncarried := uc\<rparr>)))))
      else
        rbind (add_converted amb rates currency base as_of units (\<not> dec_eq (uncarried_value t) dec_zero)
                 (uncarried_value t) worth_uncarried put_uncarried w) (\<lambda>w1.
        rbind (add_converted amb rates currency base as_of units (longs t \<noteq> 0)
                 (long_value t) worth_long put_long w1) (\<lambda>w2.
        rbind (add_converted amb rates currency base as_of units (shorts t \<noteq> 0)
                 (short_value t) worth_short put_short w2) (\<lambda>w3.
        add_converted amb rates currency base as_of units (longs t \<noteq> 0 \<or> shorts t \<noteq> 0)
          (total_unrealized t) worth_unrealized put_unrealized w3))))"

definition book_totals_in ::
  "dctx \<Rightarrow> position_book \<Rightarrow> string \<Rightarrow> fx_rates \<Rightarrow> pyfloat option \<Rightarrow> currency_units option \<Rightarrow> book_worth res" where
  "book_totals_in amb book base rates as_of units =
     rfold (add_currency amb book base rates as_of units) no_worth (book_currencies book)"

section \<open>Net asset value\<close>

definition nav_calculate :: "cash_ledger \<Rightarrow> position_book \<Rightarrow> string \<Rightarrow> fx_rates \<Rightarrow> pyfloat option \<Rightarrow> decimal res" where
  "nav_calculate cash book base rates as_of =
     rbind (assert_single_currency cash book base rates) (\<lambda>(held, owned).
       if held = [] \<and> owned = [] then
         (let t = book_totals book base in
          rbind (dec_add ACCOUNTING_CONTEXT (cash_balance cash base) (long_value t)) (\<lambda>x.
          rbind (dec_add ACCOUNTING_CONTEXT x (short_value t)) (\<lambda>y.
            dec_sub ACCOUNTING_CONTEXT y (uncarried_value t))))
       else
         rbind (book_totals_in ACCOUNTING_CONTEXT book base rates as_of None) (\<lambda>w.
         rbind (cash_in ACCOUNTING_CONTEXT cash base rates as_of None) (\<lambda>(total, _).
         rbind (dec_add ACCOUNTING_CONTEXT total (worth_long w)) (\<lambda>x.
         rbind (dec_add ACCOUNTING_CONTEXT x (worth_short w)) (\<lambda>y.
           dec_sub ACCOUNTING_CONTEXT y (worth_uncarried w))))))"

definition portfolio_value :: "cash_ledger \<Rightarrow> position_book \<Rightarrow> string \<Rightarrow> fx_rates \<Rightarrow> pyfloat option \<Rightarrow> decimal res" where
  "portfolio_value cash book base rates as_of =
     rbind (assert_single_currency cash book base rates) (\<lambda>_.
     rbind (cash_in ACCOUNTING_CONTEXT cash base rates as_of None) (\<lambda>(c, _).
     rbind (positions_in ACCOUNTING_CONTEXT book base rates as_of None) (\<lambda>(p, _).
       dec_add ACCOUNTING_CONTEXT c p)))"

section \<open>The snapshot\<close>

record valuation_snapshot =
  vs_timestamp :: pyfloat
  vs_currency :: string
  vs_cash :: decimal
  vs_long :: decimal
  vs_short :: decimal
  vs_positions :: decimal
  vs_unrealized :: decimal
  vs_realized :: decimal
  vs_commission :: decimal
  vs_equity :: decimal
  vs_conversions :: "fx_conversion list"

definition vs_converted :: "valuation_snapshot \<Rightarrow> bool" where
  "vs_converted v = (vs_conversions v \<noteq> [])"

definition vs_rate_sources :: "valuation_snapshot \<Rightarrow> string list" where
  "vs_rate_sources v = sort (remdups (map (\<lambda>c. fx_source (cv_rate c)) (vs_conversions v)))"

definition carried_value :: "decimal \<Rightarrow> decimal \<Rightarrow> decimal \<Rightarrow> decimal res" where
  "carried_value lv sv uncarried =
     rbind (dec_add ACCOUNTING_CONTEXT lv sv) (\<lambda>x. dec_sub ACCOUNTING_CONTEXT x uncarried)"

definition valuation_snapshot_of ::
  "portfolio_state \<Rightarrow> pyfloat \<Rightarrow> string option \<Rightarrow> fx_rates \<Rightarrow> valuation_snapshot res" where
  "valuation_snapshot_of s timestamp currency rates =
     (let base = (case currency of None \<Rightarrow> base_currency (pf_account s) | Some c \<Rightarrow> c);
          units = Some (account_units (pf_account s)); t = Some timestamp in
      rbind (assert_single_currency (pf_cash s) (pf_positions s) base rates) (\<lambda>(held, owned).
      rbind (total_in ACCOUNTING_CONTEXT (pf_realized s) base rates t units) (\<lambda>(realized, c1).
      rbind (total_in ACCOUNTING_CONTEXT (pf_commission s) base rates t units) (\<lambda>(commission, c2).
      rbind (if held = [] \<and> owned = [] then
               (let totals = book_totals (pf_positions s) base in
                rbind (carried_value (long_value totals) (short_value totals) (uncarried_value totals)) (\<lambda>pv.
                  Inr (cash_balance (pf_cash s) base, long_value totals, short_value totals, pv,
                       total_unrealized totals, [])))
             else
               rbind (cash_in ACCOUNTING_CONTEXT (pf_cash s) base rates t units) (\<lambda>(cash, c3).
               rbind (book_totals_in ACCOUNTING_CONTEXT (pf_positions s) base rates t units) (\<lambda>w.
               rbind (carried_value (worth_long w) (worth_short w) (worth_uncarried w)) (\<lambda>pv.
                 Inr (cash, worth_long w, worth_short w, pv, worth_unrealized w, c3 @ worth_conversions w)))))
        (\<lambda>(cash, lv, sv, pv, un, c3).
      rbind (dec_add ACCOUNTING_CONTEXT cash pv) (\<lambda>equity.
        Inr \<lparr>vs_timestamp = timestamp, vs_currency = base, vs_cash = cash, vs_long = lv, vs_short = sv,
             vs_positions = pv, vs_unrealized = un, vs_realized = realized, vs_commission = commission,
             vs_equity = equity, vs_conversions = c1 @ c2 @ c3\<rparr>))))))"

section \<open>Sums over positions\<close>

definition sum_over :: "dctx \<Rightarrow> decimal \<Rightarrow> (position \<Rightarrow> bool res) \<Rightarrow> (position \<Rightarrow> decimal res) \<Rightarrow> position_book \<Rightarrow> decimal res" where
  "sum_over amb start keep figure book =
     rfold (\<lambda>total p. rbind (keep p) (\<lambda>k.
       if k then rbind (figure p) (dec_add amb total) else Inr total)) start (od_values (bk_positions book))"

definition pnl_realized :: "dctx \<Rightarrow> position_book \<Rightarrow> decimal res" where
  "pnl_realized amb book = sum_over amb (Fin 0 (-2)) (\<lambda>p. Inr True) (\<lambda>p. Inr (pos_realized_pnl p)) book"

definition pnl_unrealized :: "dctx \<Rightarrow> position_book \<Rightarrow> decimal res" where
  "pnl_unrealized amb book = sum_over amb (Fin 0 (-2)) (\<lambda>p. Inr True) (unrealized_pnl amb) book"

definition pnl_portfolio :: "dctx \<Rightarrow> position_book \<Rightarrow> decimal res" where
  "pnl_portfolio amb book = rbind (pnl_realized amb book) (\<lambda>r. rbind (pnl_unrealized amb book) (dec_add amb r))"

definition val_long_value :: "dctx \<Rightarrow> position_book \<Rightarrow> decimal res" where
  "val_long_value amb book = sum_over amb ZERO_MONEY (\<lambda>p. dec_lt dec_zero (pos_quantity p)) market_value book"

definition val_short_value :: "dctx \<Rightarrow> position_book \<Rightarrow> decimal res" where
  "val_short_value amb book = sum_over amb ZERO_MONEY (\<lambda>p. dec_lt (pos_quantity p) dec_zero) market_value book"

definition engine_long_exposure :: "dctx \<Rightarrow> position_book \<Rightarrow> decimal res" where
  "engine_long_exposure amb book = sum_over amb ZERO_MONEY (\<lambda>p. rbind (market_value p) (dec_lt dec_zero)) market_value book"

definition engine_short_exposure :: "dctx \<Rightarrow> position_book \<Rightarrow> decimal res" where
  "engine_short_exposure amb book =
     sum_over amb ZERO_MONEY (\<lambda>p. rbind (market_value p) (\<lambda>v. dec_lt v dec_zero)) (\<lambda>p. rbind (market_value p) (dec_abs amb)) book"

definition engine_gross_exposure :: "dctx \<Rightarrow> position_book \<Rightarrow> decimal res" where
  "engine_gross_exposure amb book =
     rbind (engine_long_exposure amb book) (\<lambda>l. rbind (engine_short_exposure amb book) (dec_add amb l))"

definition engine_net_exposure :: "dctx \<Rightarrow> position_book \<Rightarrow> decimal res" where
  "engine_net_exposure amb book =
     rbind (engine_long_exposure amb book) (\<lambda>l. rbind (engine_short_exposure amb book) (dec_sub amb l))"

definition asset_weights ::
  "cash_ledger \<Rightarrow> position_book \<Rightarrow> string \<Rightarrow> fx_rates \<Rightarrow> pyfloat option \<Rightarrow> (string, decimal) od res" where
  "asset_weights cash book base rates as_of =
     rbind (portfolio_value cash book base rates as_of) (\<lambda>nav.
       if dec_eq nav dec_zero then Inr (map (\<lambda>(a, p). (a, ZERO_MONEY)) (bk_positions book))
       else rmap (\<lambda>(a, p). rbind (market_value p) (\<lambda>v. rbind (dec_div ACCOUNTING_CONTEXT v nav) (\<lambda>w. Inr (a, w))))
              (bk_positions book))"

end
