(* ===== verification/Square_Root.thy ===== *)
theory Square_Root
  imports Arithmetic
begin

text \<open>
  \<open>Decimal.sqrt\<close>: the integer square root by Newton's iteration, on a coefficient scaled so that the
  root has one digit more than the precision, with a sticky last digit when it is inexact. The lemmas
  show that the iteration ends at the root itself.
\<close>

function newton :: "nat \<Rightarrow> nat \<Rightarrow> nat" where
  "newton c n = (if n \<le> c div n then n else newton c ((n + c div n) div 2))"
  by pat_completeness auto
termination by (relation "measure snd") auto

declare newton.simps [simp del]

lemma newton_step:
  assumes "c div n < n" shows "c < (Suc ((n + c div n) div 2))\<^sup>2"
proof -
  define q where "q = c div n"
  have "c < n * (q + 1)" using assms by (simp add: q_def dividend_less_times_div)
  moreover have "(int n + int q + 1)\<^sup>2 - 4 * (int n * (int q + 1)) = (int n - int q - 1)\<^sup>2"
    by (simp add: power2_eq_square algebra_simps)
  then have "4 * (int n * (int q + 1)) \<le> (int n + int q + 1)\<^sup>2" using zero_le_power2 [of "int n - int q - 1"] by linarith
  then have "int (4 * (n * (q + 1))) \<le> int ((n + q + 1)\<^sup>2)" by (simp add: algebra_simps)
  then have "4 * (n * (q + 1)) \<le> (n + q + 1)\<^sup>2" by (simp only: of_nat_le_iff)
  moreover have "n + q + 1 \<le> 2 * Suc ((n + q) div 2)" by simp
  then have "(n + q + 1)\<^sup>2 \<le> (2 * Suc ((n + q) div 2))\<^sup>2" by (rule power_mono) simp
  moreover have "(2 * Suc ((n + q) div 2))\<^sup>2 = 4 * (Suc ((n + q) div 2))\<^sup>2" by (simp only: power_mult_distrib) simp
  ultimately have "4 * c < 4 * (Suc ((n + q) div 2))\<^sup>2" by linarith
  then show ?thesis by (simp add: q_def)
qed

lemma newton_root:
  "c < (Suc n)\<^sup>2 \<Longrightarrow> (newton c n)\<^sup>2 \<le> c \<and> c < (Suc (newton c n))\<^sup>2"
proof (induction c n rule: newton.induct)
  case (1 c n)
  show ?case
  proof (cases "n \<le> c div n")
    case True
    have "n * n \<le> c"
    proof (cases "n = 0")
      case False
      then show ?thesis using True by (metis div_times_less_eq_dividend le_trans mult_le_mono1)
    qed simp
    with True 1(2) show ?thesis by (simp add: newton.simps [of c n] power2_eq_square)
  next
    case False
    then have "c < (Suc ((n + c div n) div 2))\<^sup>2" by (intro newton_step) simp
    from 1(1) [OF False this] False show ?thesis by (simp add: newton.simps [of c n])
  qed
qed

text \<open>The root of a positive coefficient before it is rounded to the context: a number \<open>n * 10^e\<close>.\<close>

definition root_digits :: "dctx \<Rightarrow> int \<Rightarrow> int \<Rightarrow> decimal" where
  "root_digits ctx c e =
     (let p = int (prec ctx) + 1;
          len = int (num_digits (nat c));
          c1 = (if odd e then c * 10 else c);
          l = (if odd e then len div 2 + 1 else (len + 1) div 2);
          shift = p - l;
          c2 = c1 * 100 ^ nat shift div 100 ^ nat (- shift);
          whole = (c1 * 100 ^ nat shift mod 100 ^ nat (- shift) = 0);
          n = int (newton (nat c2) (10 ^ nat p))
      in if whole \<and> n * n = c2
         then Fin (n div 10 ^ nat shift * 10 ^ nat (- shift)) (e div 2)
         else Fin (if n mod 5 = 0 then n + 1 else n) (e div 2 - shift))"

fun dec_sqrt :: "dctx \<Rightarrow> decimal \<Rightarrow> decimal res" where
  "dec_sqrt ctx NaN = Inr NaN"
| "dec_sqrt ctx (Infinite n) = (if n then Inl InvalidOperation else Inr (Infinite False))"
| "dec_sqrt ctx (Fin c e) =
     (if c = 0 then dec_fix ctx (Fin 0 (e div 2))
      else if c < 0 then Inl InvalidOperation
      else dec_fix (ctx\<lparr>rmode := ROUND_HALF_EVEN\<rparr>) (root_digits ctx c e))"

end
