(* ===== verification/Execution_Costs.thy ===== *)
theory Execution_Costs
  imports Square_Root Money Order_Terms
begin

text \<open>
  What a fill costs: \<open>alphalab/execution/costs.py\<close>, \<open>commission.py\<close> and \<open>slippage.py\<close>. Each role of the
  cost model is a datatype of the implementations the package has, with the constructors' checks as
  \<open>make_\<close> functions; \<open>quote\<close> prices all six and \<open>fill_price_from\<close> turns the price concession into a price.
  One of each minor unit, \<open>Decimal(1).scaleb(-units)\<close>, is exact in every context and is written directly.
\<close>

section \<open>The context of a fill and its costs\<close>

record cost_context =
  cc_asset_id :: string
  cc_side :: side
  cc_quantity :: decimal
  cc_reference_price :: decimal
  cc_currency :: string
  cc_venue :: string
  cc_timestamp :: pyfloat
  cc_bid :: "decimal option"
  cc_ask :: "decimal option"
  cc_available :: "decimal option"
  cc_minor_units :: "int option"

definition cc_money :: "cost_context \<Rightarrow> decimal \<Rightarrow> decimal res" where
  "cc_money c amount =
     (case (case cc_minor_units c of Some u \<Rightarrow> Some u | None \<Rightarrow> ISO_4217_MINOR_UNITS (cc_currency c)) of
        None \<Rightarrow> Inr amount
      | Some u \<Rightarrow> dec_quantize ACCOUNTING_CONTEXT amount (Fin 1 (- u)))"

definition participation :: "cost_context \<Rightarrow> decimal option res" where
  "participation c =
     (case cc_available c of
        None \<Rightarrow> Inr None
      | Some available \<Rightarrow>
          rbind (dec_le available dec_zero) (\<lambda>none.
            if none then Inr None
            else rbind (dec_div ACCOUNTING_CONTEXT (cc_quantity c) available) (\<lambda>p. Inr (Some p))))"

record execution_costs =
  ec_spread :: decimal
  ec_slippage :: decimal
  ec_impact :: decimal
  ec_commission :: decimal
  ec_fees :: decimal
  ec_tax :: decimal

definition refuse_negative :: "decimal \<Rightarrow> unit res" where
  "refuse_negative x = rbind (dec_lt x dec_zero) (\<lambda>bad. if bad then Inl ExecutionValidationError else Inr ())"

definition make_costs :: "execution_costs \<Rightarrow> execution_costs res" where
  "make_costs c =
     rbind (refuse_negative (ec_spread c)) (\<lambda>_.
     rbind (refuse_negative (ec_slippage c)) (\<lambda>_.
     rbind (refuse_negative (ec_impact c)) (\<lambda>_.
     rbind (refuse_negative (ec_fees c)) (\<lambda>_.
     rbind (refuse_negative (ec_tax c)) (\<lambda>_. Inr c)))))"

definition sum_of_three :: "decimal \<Rightarrow> decimal \<Rightarrow> decimal \<Rightarrow> decimal res" where
  "sum_of_three a b c =
     rbind (dec_add ACCOUNTING_CONTEXT a b) (\<lambda>x. dec_add ACCOUNTING_CONTEXT x c)"

definition price_concession :: "execution_costs \<Rightarrow> decimal res" where
  "price_concession c = sum_of_three (ec_spread c) (ec_slippage c) (ec_impact c)"

definition cash_charged :: "execution_costs \<Rightarrow> decimal res" where
  "cash_charged c = sum_of_three (ec_commission c) (ec_fees c) (ec_tax c)"

definition costs_total :: "execution_costs \<Rightarrow> decimal \<Rightarrow> decimal res" where
  "costs_total c quantity =
     rbind (price_concession c) (\<lambda>p.
     rbind (dec_mul ACCOUNTING_CONTEXT p quantity) (\<lambda>x.
     rbind (cash_charged c) (\<lambda>cash. dec_add ACCOUNTING_CONTEXT x cash)))"

datatype cost_settlement = PRICE_EMBEDDED | CASH_CHARGED

definition by_settlement :: "execution_costs \<Rightarrow> cost_settlement \<Rightarrow> (string, decimal) od" where
  "by_settlement c s =
     (case s of
        PRICE_EMBEDDED \<Rightarrow> [(''spread'', ec_spread c), (''slippage'', ec_slippage c), (''impact'', ec_impact c)]
      | CASH_CHARGED \<Rightarrow> [(''commission'', ec_commission c), (''fees'', ec_fees c), (''tax'', ec_tax c)])"

definition itemized :: "execution_costs \<Rightarrow> decimal \<Rightarrow> (string, decimal) od res" where
  "itemized c quantity =
     rbind (dec_mul ACCOUNTING_CONTEXT (ec_spread c) quantity) (\<lambda>a.
     rbind (dec_mul ACCOUNTING_CONTEXT (ec_slippage c) quantity) (\<lambda>b.
     rbind (dec_mul ACCOUNTING_CONTEXT (ec_impact c) quantity) (\<lambda>d.
       Inr [(''spread'', a), (''slippage'', b), (''impact'', d), (''commission'', ec_commission c),
            (''fees'', ec_fees c), (''tax'', ec_tax c)])))"

definition reconciles :: "execution_costs \<Rightarrow> decimal \<Rightarrow> decimal \<Rightarrow> bool res" where
  "reconciles c concession cash =
     rbind (price_concession c) (\<lambda>p.
       if \<not> dec_eq p concession then Inr False
       else rbind (cash_charged c) (\<lambda>x. Inr (dec_eq x cash)))"

section \<open>The roles\<close>

datatype spread_model = NoSpread | QuotedHalfSpread | FixedHalfSpread decimal
datatype slippage_model =
    NoSlippage | FixedSlippage decimal | PercentageSlippage decimal | MarketImpactSlippage decimal decimal
datatype impact_model = NoImpact | LinearImpact decimal | SquareRootImpact decimal
datatype commission_model = FixedCommission decimal | PercentageCommission decimal | PerShareCommission decimal
datatype fee_model = NoFee | PerTradeFee decimal | ProportionalFee decimal
datatype tax_model = NoTax | ProportionalTax decimal "side list"

definition make_fixed_half_spread :: "decimal \<Rightarrow> spread_model res" where
  "make_fixed_half_spread amount = rbind (refuse_negative amount) (\<lambda>_. Inr (FixedHalfSpread amount))"

definition make_linear_impact :: "decimal \<Rightarrow> impact_model res" where
  "make_linear_impact k = rbind (refuse_negative k) (\<lambda>_. Inr (LinearImpact k))"

definition make_square_root_impact :: "decimal \<Rightarrow> impact_model res" where
  "make_square_root_impact k = rbind (refuse_negative k) (\<lambda>_. Inr (SquareRootImpact k))"

definition make_per_trade_fee :: "decimal \<Rightarrow> fee_model res" where
  "make_per_trade_fee amount = rbind (refuse_negative amount) (\<lambda>_. Inr (PerTradeFee amount))"

definition make_proportional_fee :: "decimal \<Rightarrow> fee_model res" where
  "make_proportional_fee k = rbind (refuse_negative k) (\<lambda>_. Inr (ProportionalFee k))"

definition make_proportional_tax :: "decimal \<Rightarrow> side list \<Rightarrow> tax_model res" where
  "make_proportional_tax k sides =
     rbind (refuse_negative k) (\<lambda>_. if sides = [] then Inl ExecutionValidationError else Inr (ProportionalTax k sides))"

definition make_market_impact_slippage :: "decimal \<Rightarrow> decimal \<Rightarrow> slippage_model res" where
  "make_market_impact_slippage factor reference =
     rbind (refuse_negative factor) (\<lambda>_.
     rbind (dec_le reference dec_zero) (\<lambda>bad.
       if bad then Inl ExecutionValidationError else Inr (MarketImpactSlippage factor reference)))"

definition half_spread :: "spread_model \<Rightarrow> cost_context \<Rightarrow> decimal res" where
  "half_spread m c =
     (case m of
        NoSpread \<Rightarrow> Inr dec_zero
      | FixedHalfSpread amount \<Rightarrow> Inr amount
      | QuotedHalfSpread \<Rightarrow>
          (case (cc_bid c, cc_ask c) of
             (Some bid, Some ask) \<Rightarrow>
               rbind (dec_lt ask bid) (\<lambda>crossed.
                 if crossed then Inl ExecutionValidationError
                 else rbind (dec_sub ACCOUNTING_CONTEXT ask bid) (\<lambda>x. dec_div ACCOUNTING_CONTEXT x (Fin 2 0)))
           | _ \<Rightarrow> Inl ExecutionValidationError))"

definition slippage_of :: "slippage_model \<Rightarrow> decimal \<Rightarrow> decimal \<Rightarrow> decimal res" where
  "slippage_of m quantity price =
     (case m of
        NoSlippage \<Rightarrow> Inr dec_zero
      | _ \<Rightarrow> rbind (dec_le quantity dec_zero) (\<lambda>none.
          if none then Inr dec_zero
          else (case m of
             FixedSlippage amount \<Rightarrow> Inr amount
           | PercentageSlippage rate \<Rightarrow> dec_mul ACCOUNTING_CONTEXT price rate
           | MarketImpactSlippage factor reference \<Rightarrow>
               rbind (dec_div ACCOUNTING_CONTEXT quantity reference) (\<lambda>x.
               rbind (dec_mul ACCOUNTING_CONTEXT x factor) (\<lambda>impact. dec_mul ACCOUNTING_CONTEXT price impact))
           | NoSlippage \<Rightarrow> Inr dec_zero)))"

definition require_participation :: "cost_context \<Rightarrow> decimal res" where
  "require_participation c =
     rbind (participation c) (\<lambda>p. case p of None \<Rightarrow> Inl ExecutionValidationError | Some x \<Rightarrow> Inr x)"

definition impact_of :: "impact_model \<Rightarrow> cost_context \<Rightarrow> decimal res" where
  "impact_of m c =
     (case m of
        NoImpact \<Rightarrow> Inr dec_zero
      | LinearImpact k \<Rightarrow>
          rbind (require_participation c) (\<lambda>p.
          rbind (dec_mul ACCOUNTING_CONTEXT k p) (\<lambda>x. dec_mul ACCOUNTING_CONTEXT x (cc_reference_price c)))
      | SquareRootImpact k \<Rightarrow>
          rbind (require_participation c) (\<lambda>p.
          rbind (dec_sqrt ACCOUNTING_CONTEXT p) (\<lambda>r.
          rbind (dec_mul ACCOUNTING_CONTEXT k r) (\<lambda>x. dec_mul ACCOUNTING_CONTEXT x (cc_reference_price c)))))"

definition commission_of :: "commission_model \<Rightarrow> decimal \<Rightarrow> decimal \<Rightarrow> decimal res" where
  "commission_of m quantity price =
     (case m of
        FixedCommission fee \<Rightarrow> rbind (dec_lt dec_zero quantity) (\<lambda>some. Inr (if some then fee else dec_zero))
      | PercentageCommission rate \<Rightarrow>
          rbind (dec_mul ACCOUNTING_CONTEXT quantity price) (\<lambda>x. dec_mul ACCOUNTING_CONTEXT x rate)
      | PerShareCommission rate \<Rightarrow> dec_mul ACCOUNTING_CONTEXT quantity rate)"

definition fee_of :: "fee_model \<Rightarrow> cost_context \<Rightarrow> decimal \<Rightarrow> decimal res" where
  "fee_of m c cash_base =
     (case m of
        NoFee \<Rightarrow> Inr dec_zero
      | PerTradeFee amount \<Rightarrow> rbind (dec_lt dec_zero (cc_quantity c)) (\<lambda>some. Inr (if some then amount else dec_zero))
      | ProportionalFee k \<Rightarrow> dec_mul ACCOUNTING_CONTEXT cash_base k)"

definition tax_of :: "tax_model \<Rightarrow> cost_context \<Rightarrow> decimal \<Rightarrow> decimal res" where
  "tax_of m c cash_base =
     (case m of
        NoTax \<Rightarrow> Inr dec_zero
      | ProportionalTax k sides \<Rightarrow>
          if cc_side c \<notin> set sides then Inr dec_zero else dec_mul ACCOUNTING_CONTEXT cash_base k)"

section \<open>The cost model\<close>

record cost_model =
  spread_role :: spread_model
  slippage_role :: slippage_model
  impact_role :: impact_model
  commission_role :: commission_model
  fee_role :: fee_model
  tax_role :: tax_model

definition FREE :: cost_model where
  "FREE = \<lparr>spread_role = NoSpread, slippage_role = NoSlippage, impact_role = NoImpact,
     commission_role = FixedCommission (Fin 0 (-2)), fee_role = NoFee, tax_role = NoTax\<rparr>"

text \<open>A price concession has 18 digits, so that no fill price carries the expansion of a division.\<close>

definition CONCESSION_CONTEXT :: dctx where
  "CONCESSION_CONTEXT = \<lparr>prec = 18, rmode = ROUND_HALF_EVEN, Emin = -999999, Emax = 999999\<rparr>"

definition concession :: "decimal \<Rightarrow> decimal res" where
  "concession amount = dec_fix CONCESSION_CONTEXT amount"

definition fill_price_from :: "cost_context \<Rightarrow> decimal \<Rightarrow> decimal res" where
  "fill_price_from c conc =
     (if cc_side c = BUY then dec_add ACCOUNTING_CONTEXT (cc_reference_price c) conc
      else
        rbind (dec_sub ACCOUNTING_CONTEXT (cc_reference_price c) conc) (\<lambda>price.
        rbind (dec_lt dec_zero (cc_reference_price c)) (\<lambda>positive.
          if \<not> positive then Inr price
          else rbind (dec_le price dec_zero) (\<lambda>bad. if bad then Inl ExecutionValidationError else Inr price))))"

definition no_costs :: execution_costs where
  "no_costs = \<lparr>ec_spread = dec_zero, ec_slippage = dec_zero, ec_impact = dec_zero, ec_commission = dec_zero,
     ec_fees = dec_zero, ec_tax = dec_zero\<rparr>"

definition quote :: "cost_model \<Rightarrow> cost_context \<Rightarrow> execution_costs res" where
  "quote m c =
     rbind (dec_le (cc_quantity c) dec_zero) (\<lambda>none.
     if none then make_costs no_costs
     else
       rbind (rbind (half_spread (spread_role m) c) concession) (\<lambda>spread.
       rbind (rbind (slippage_of (slippage_role m) (cc_quantity c) (cc_reference_price c)) concession) (\<lambda>slippage.
       rbind (rbind (impact_of (impact_role m) c) concession) (\<lambda>impact.
       rbind (sum_of_three spread slippage impact) (\<lambda>conc.
       rbind (fill_price_from c conc) (\<lambda>price.
       rbind (dec_mul ACCOUNTING_CONTEXT price (cc_quantity c)) (\<lambda>cash_base.
       rbind (rbind (commission_of (commission_role m) (cc_quantity c) price) (cc_money c)) (\<lambda>commission.
       rbind (rbind (fee_of (fee_role m) c cash_base) (cc_money c)) (\<lambda>fees.
       rbind (rbind (tax_of (tax_role m) c cash_base) (cc_money c)) (\<lambda>tax.
         make_costs \<lparr>ec_spread = spread, ec_slippage = slippage, ec_impact = impact,
           ec_commission = commission, ec_fees = fees, ec_tax = tax\<rparr>))))))))))"

definition costed_price :: "cost_context \<Rightarrow> execution_costs \<Rightarrow> decimal res" where
  "costed_price c costs = rbind (price_concession costs) (fill_price_from c)"

end
