(* ===== verification/Execution.thy ===== *)
theory Execution
  imports Execution_Costs Floats Dicts
begin

text \<open>
  Simulated execution: \<open>alphalab/execution/fill.py\<close>, \<open>policy.py\<close>, \<open>latency.py\<close>, \<open>validation.py\<close>,
  \<open>report.py\<close>, \<open>simulator.py\<close>, \<open>state.py\<close>, \<open>events.py\<close>, \<open>engine.py\<close> and \<open>views.py\<close>. The fraction
  \<open>latency.py\<close> takes from a SHA-256 digest of an order's identifier is the parameter \<open>draw\<close>; the
  identifiers drawn by \<open>new_id\<close> are arguments. Auction reopenings are carried and not interpreted.
\<close>

section \<open>What is to be filled\<close>

datatype fill_status = FULL_FILL | PARTIAL_FILL | NO_FILL | FILL_REJECTED | FILL_EXPIRED

record instruction =
  ins_order_id :: string
  ins_strategy_id :: string
  ins_asset_id :: string
  ins_quantity :: decimal
  ins_price :: decimal
  ins_side :: side
  ins_venue :: string
  ins_currency :: string
  ins_minor_units :: "int option"

text \<open>How much of it: the fill policies.\<close>

record liquidity_context =
  lc_asset_id :: string
  lc_side :: side
  lc_requested :: decimal
  lc_price :: decimal
  lc_available :: "decimal option"
  lc_timestamp :: pyfloat

record fill_decision =
  fd_status :: fill_status
  fd_quantity :: "decimal option"

datatype fill_policy = ImmediateFill | StaticFill fill_status "decimal option" | LiquidityCappedFill decimal

definition policy_decide :: "dctx \<Rightarrow> fill_policy \<Rightarrow> liquidity_context \<Rightarrow> fill_decision res" where
  "policy_decide amb p c =
     (case p of
        ImmediateFill \<Rightarrow> Inr \<lparr>fd_status = FULL_FILL, fd_quantity = Some (lc_requested c)\<rparr>
      | StaticFill st q \<Rightarrow>
          Inr \<lparr>fd_status = st, fd_quantity = Some (case q of Some x \<Rightarrow> x | None \<Rightarrow> lc_requested c)\<rparr>
      | LiquidityCappedFill rate \<Rightarrow>
          (case lc_available c of
             None \<Rightarrow> Inr \<lparr>fd_status = FULL_FILL, fd_quantity = Some (lc_requested c)\<rparr>
           | Some available \<Rightarrow>
               rbind (dec_mul amb available rate) (\<lambda>cap.
               rbind (dec_le cap dec_zero) (\<lambda>none.
                 if none then Inr \<lparr>fd_status = NO_FILL, fd_quantity = None\<rparr>
                 else rbind (dec_le (lc_requested c) cap) (\<lambda>all.
                   if all then Inr \<lparr>fd_status = FULL_FILL, fd_quantity = Some (lc_requested c)\<rparr>
                   else Inr \<lparr>fd_status = PARTIAL_FILL, fd_quantity = Some cap\<rparr>)))))"

section \<open>Reports\<close>

record execution_report =
  er_execution_id :: string
  er_order_id :: string
  er_asset_id :: string
  er_strategy_id :: string
  er_timestamp :: pyfloat
  er_price :: decimal
  er_quantity :: decimal
  er_commission :: decimal
  er_slippage :: decimal
  er_liquidity :: string
  er_venue :: string
  er_currency :: string
  er_status :: fill_status

definition validate_execution :: "decimal \<Rightarrow> decimal \<Rightarrow> decimal \<Rightarrow> pyfloat \<Rightarrow> unit res" where
  "validate_execution quantity price commission timestamp =
     rbind (dec_lt quantity dec_zero) (\<lambda>negative.
       if negative then Inl ExecutionValidationError
       else if dec_eq quantity dec_zero then Inl ExecutionValidationError
       else if \<not> is_finite price then Inl ExecutionValidationError
       else if \<not> is_finite commission then Inl ExecutionValidationError
       else if flt_lt timestamp (FFin 0) then Inl ExecutionValidationError
       else Inr ())"

section \<open>The simulator\<close>

datatype latency_model = ConstantLatency pyfloat | DeterministicLatency pyfloat pyfloat

definition latency_of :: "(string \<Rightarrow> pyfloat) \<Rightarrow> latency_model \<Rightarrow> string \<Rightarrow> pyfloat" where
  "latency_of draw m oid =
     (case m of
        ConstantLatency x \<Rightarrow> x
      | DeterministicLatency low high \<Rightarrow> flt_add low (flt_mul (flt_sub high low) (draw oid)))"

record simulator =
  sim_commission :: commission_model
  sim_slippage :: slippage_model
  sim_latency :: latency_model
  sim_costs :: "cost_model option"
  sim_maker :: "commission_model option"

definition default_simulator :: simulator where
  "default_simulator = \<lparr>sim_commission = FixedCommission (Fin 0 (-2)), sim_slippage = FixedSlippage (Fin 0 (-2)),
     sim_latency = ConstantLatency (FFin 0), sim_costs = None, sim_maker = None\<rparr>"

definition active_costs :: "simulator \<Rightarrow> cost_model" where
  "active_costs sim =
     (case sim_costs sim of
        Some m \<Rightarrow> m
      | None \<Rightarrow> \<lparr>spread_role = NoSpread, slippage_role = sim_slippage sim, impact_role = NoImpact,
                 commission_role = sim_commission sim, fee_role = NoFee, tax_role = NoTax\<rparr>)"

definition passive_costs :: "simulator \<Rightarrow> cost_model" where
  "passive_costs sim =
     (let costs = active_costs sim in
      \<lparr>spread_role = NoSpread, slippage_role = NoSlippage, impact_role = NoImpact,
       commission_role = (case sim_maker sim of None \<Rightarrow> commission_role costs | Some m \<Rightarrow> m),
       fee_role = fee_role costs, tax_role = tax_role costs\<rparr>)"

definition commission_free :: "commission_model \<Rightarrow> bool" where
  "commission_free m = (case m of FixedCommission fee \<Rightarrow> dec_eq fee dec_zero | _ \<Rightarrow> False)"

definition is_frictionless :: "simulator \<Rightarrow> bool" where
  "is_frictionless sim =
     (let c = active_costs sim in
      spread_role c = NoSpread \<and>
      (case slippage_role c of NoSlippage \<Rightarrow> True | FixedSlippage x \<Rightarrow> dec_eq x dec_zero | _ \<Rightarrow> False) \<and>
      impact_role c = NoImpact \<and> commission_free (commission_role c) \<and> fee_role c = NoFee \<and> tax_role c = NoTax \<and>
      (case sim_maker sim of None \<Rightarrow> True | Some m \<Rightarrow> commission_free m))"

text \<open>What the market event showed, beside its price and its instant.\<close>

record shown =
  sh_bid :: "decimal option"
  sh_ask :: "decimal option"
  sh_available :: "decimal option"

definition simulator_context ::
  "(string \<Rightarrow> pyfloat) \<Rightarrow> simulator \<Rightarrow> instruction \<Rightarrow> decimal \<Rightarrow> decimal \<Rightarrow> pyfloat \<Rightarrow> shown \<Rightarrow> cost_context" where
  "simulator_context draw sim i quantity price timestamp sh =
     \<lparr>cc_asset_id = ins_asset_id i, cc_side = ins_side i, cc_quantity = quantity, cc_reference_price = price,
      cc_currency = ins_currency i, cc_venue = ins_venue i,
      cc_timestamp = flt_add timestamp (latency_of draw (sim_latency sim) (ins_order_id i)),
      cc_bid = sh_bid sh, cc_ask = sh_ask sh, cc_available = sh_available sh, cc_minor_units = ins_minor_units i\<rparr>"

definition role_costs :: "simulator \<Rightarrow> bool \<Rightarrow> cost_model" where
  "role_costs sim passive = (if passive then passive_costs sim else active_costs sim)"

definition simulate_costs ::
  "(string \<Rightarrow> pyfloat) \<Rightarrow> simulator \<Rightarrow> instruction \<Rightarrow> decimal \<Rightarrow> decimal \<Rightarrow> pyfloat \<Rightarrow> shown \<Rightarrow> bool \<Rightarrow>
   execution_costs res" where
  "simulate_costs draw sim i quantity price timestamp sh passive =
     quote (role_costs sim passive) (simulator_context draw sim i quantity price timestamp sh)"

definition simulate_fill ::
  "string \<Rightarrow> (string \<Rightarrow> pyfloat) \<Rightarrow> simulator \<Rightarrow> instruction \<Rightarrow> decimal \<Rightarrow> decimal \<Rightarrow> pyfloat \<Rightarrow> fill_status \<Rightarrow> shown \<Rightarrow>
   bool \<Rightarrow> execution_report res" where
  "simulate_fill xid draw sim i quantity price timestamp st sh passive =
     (let c = simulator_context draw sim i quantity price timestamp sh in
      rbind (quote (role_costs sim passive) c) (\<lambda>costs.
      rbind (costed_price c costs) (\<lambda>fill_price.
      rbind (cash_charged costs) (\<lambda>cash.
      rbind (if st \<in> {FULL_FILL, PARTIAL_FILL} then validate_execution quantity fill_price cash (cc_timestamp c)
             else Inr ()) (\<lambda>_.
      rbind (price_concession costs) (\<lambda>conc.
        Inr \<lparr>er_execution_id = xid, er_order_id = ins_order_id i, er_asset_id = ins_asset_id i,
             er_strategy_id = ins_strategy_id i, er_timestamp = cc_timestamp c, er_price = fill_price,
             er_quantity = quantity, er_commission = cash, er_slippage = conc,
             er_liquidity = (if passive then ''MAKER'' else ''TAKER''), er_venue = ins_venue i,
             er_currency = ins_currency i, er_status = st\<rparr>))))))"

section \<open>The engine\<close>

datatype execution_event =
    ExecutionSubmitted string pyfloat string string decimal decimal
  | ExecutionCompleted string pyfloat string string decimal decimal
  | ExecutionPartiallyFilled string pyfloat string string decimal decimal decimal
  | ExecutionRejected string pyfloat string
  | ExecutionExpired string pyfloat string

record auction_reopening =
  halt_end :: pyfloat
  reopened_at :: pyfloat
  reopen_price :: "decimal option"
  matched_quantity :: "decimal option"
  imbalance :: "decimal option"
  extended_to :: "pyfloat option"

record execution_state =
  ex_reports :: "(string, execution_report) od"
  ex_history :: "execution_report list"
  ex_events :: "execution_event list"
  ex_reopened :: "(string, auction_reopening) od"

definition execution_initial :: execution_state where
  "execution_initial = \<lparr>ex_reports = [], ex_history = [], ex_events = [], ex_reopened = []\<rparr>"

definition record_report :: "execution_state \<Rightarrow> execution_report \<Rightarrow> execution_event \<Rightarrow> execution_state" where
  "record_report s r e = s\<lparr>ex_reports := od_set (er_execution_id r) r (ex_reports s),
     ex_history := ex_history s @ [r], ex_events := ex_events s @ [e]\<rparr>"

definition execute :: "string \<Rightarrow> execution_state \<Rightarrow> execution_report \<Rightarrow> execution_state" where
  "execute eid s r = record_report s r
     (ExecutionCompleted eid (er_timestamp r) (er_order_id r) (er_execution_id r) (er_price r) (er_quantity r))"

definition partial_fill :: "string \<Rightarrow> execution_state \<Rightarrow> execution_report \<Rightarrow> decimal \<Rightarrow> execution_state" where
  "partial_fill eid s r remaining = record_report s r
     (ExecutionPartiallyFilled eid (er_timestamp r) (er_order_id r) (er_execution_id r) (er_price r) (er_quantity r)
        remaining)"

definition execution_note :: "execution_state \<Rightarrow> execution_event \<Rightarrow> execution_state" where
  "execution_note s e = s\<lparr>ex_events := ex_events s @ [e]\<rparr>"

text \<open>\<open>simulate\<close>: the identifiers are the submission's, the report's and the outcome's.\<close>

definition simulate ::
  "(nat \<Rightarrow> string) \<Rightarrow> (string \<Rightarrow> pyfloat) \<Rightarrow> dctx \<Rightarrow> execution_state \<Rightarrow> simulator \<Rightarrow> instruction \<Rightarrow> decimal \<Rightarrow> decimal \<Rightarrow>
   pyfloat \<Rightarrow> fill_status \<Rightarrow> shown \<Rightarrow> bool \<Rightarrow> execution_state res" where
  "simulate ids draw amb s sim i quantity price timestamp st sh passive =
     (let s1 = execution_note s (ExecutionSubmitted (ids 0) timestamp (ins_order_id i) (ins_asset_id i)
                 (ins_quantity i) (ins_price i)) in
      rbind (simulate_fill (ids 1) draw sim i quantity price timestamp st sh passive) (\<lambda>r.
        case st of
          FULL_FILL \<Rightarrow> Inr (execute (ids 2) s1 r)
        | PARTIAL_FILL \<Rightarrow>
            rbind (dec_sub amb (ins_quantity i) quantity) (\<lambda>remaining. Inr (partial_fill (ids 2) s1 r remaining))
        | FILL_REJECTED \<Rightarrow> Inr (execution_note s1 (ExecutionRejected (ids 2) timestamp (ins_order_id i)))
        | FILL_EXPIRED \<Rightarrow> Inr (execution_note s1 (ExecutionExpired (ids 2) timestamp (ins_order_id i)))
        | NO_FILL \<Rightarrow> Inr s1))"

section \<open>Views\<close>

definition report_of :: "execution_state \<Rightarrow> string \<Rightarrow> execution_report option" where
  "report_of s xid = od_get (ex_reports s) xid"

definition all_reports :: "execution_state \<Rightarrow> execution_report list" where
  "all_reports s = od_values (ex_reports s)"

definition reports_for_order :: "execution_state \<Rightarrow> string \<Rightarrow> execution_report list" where
  "reports_for_order s oid = filter (\<lambda>r. er_order_id r = oid) (ex_history s)"

definition reports_for_asset :: "execution_state \<Rightarrow> string \<Rightarrow> execution_report list" where
  "reports_for_asset s asset = filter (\<lambda>r. er_asset_id r = asset) (ex_history s)"

end
