(* ===== verification/Execution_Queue.thy ===== *)
theory Execution_Queue
  imports Execution
begin

text \<open>
  Where a resting order stands: \<open>alphalab/execution/queue.py\<close>. A limit order joins behind what its
  side shows at its price; what trades at that price advances it, and a market that trades through its
  price reaches it whatever stood ahead.
\<close>

section \<open>Observations and positions\<close>

record queue_observation =
  qo_timestamp :: pyfloat
  qo_bid :: "decimal option"
  qo_bid_size :: "decimal option"
  qo_ask :: "decimal option"
  qo_ask_size :: "decimal option"
  qo_trade_price :: "decimal option"
  qo_trade_quantity :: "decimal option"
  qo_aggressor :: "side option"
  qo_low :: "decimal option"
  qo_high :: "decimal option"

record queue_place =
  qp_limit :: decimal
  qp_ahead :: "decimal option"

record queue_turn =
  qt_position :: queue_place
  qt_eligible :: "decimal option"

definition may_fill :: "queue_turn \<Rightarrow> bool res" where
  "may_fill t = (case qt_eligible t of None \<Rightarrow> Inr True | Some x \<Rightarrow> dec_lt dec_zero x)"

section \<open>The price-time queue\<close>

definition same_side_shown :: "side \<Rightarrow> queue_observation \<Rightarrow> decimal option \<times> decimal option" where
  "same_side_shown side ob = (if side = BUY then (qo_bid ob, qo_bid_size ob) else (qo_ask ob, qo_ask_size ob))"

definition better :: "side \<Rightarrow> decimal \<Rightarrow> decimal \<Rightarrow> bool res" where
  "better side limit price = (if side = BUY then dec_lt price limit else dec_lt limit price)"

definition opt_better :: "side \<Rightarrow> decimal \<Rightarrow> decimal option \<Rightarrow> bool res" where
  "opt_better side limit price = (case price of None \<Rightarrow> Inr False | Some p \<Rightarrow> better side limit p)"

definition queue_join :: "side \<Rightarrow> decimal \<Rightarrow> queue_observation \<Rightarrow> queue_place res" where
  "queue_join side limit ob =
     (case same_side_shown side ob of (best, behind) \<Rightarrow>
      case best of
        None \<Rightarrow> Inr \<lparr>qp_limit = limit, qp_ahead = None\<rparr>
      | Some b \<Rightarrow>
          rbind (better side limit b) (\<lambda>improves.
            if improves then Inr \<lparr>qp_limit = limit, qp_ahead = Some dec_zero\<rparr>
            else if dec_eq limit b then Inr \<lparr>qp_limit = limit, qp_ahead = behind\<rparr>
            else Inr \<lparr>qp_limit = limit, qp_ahead = None\<rparr>))"

definition consumes :: "bool \<Rightarrow> side \<Rightarrow> side option \<Rightarrow> bool" where
  "consumes count_unsigned side aggressor =
     (case aggressor of None \<Rightarrow> count_unsigned | Some a \<Rightarrow> a \<noteq> side)"

text \<open>What the own side shows, the part of the queue a print consumes, and what reached the price.\<close>

definition shown_ahead :: "side \<Rightarrow> decimal \<Rightarrow> decimal option \<Rightarrow> queue_observation \<Rightarrow> decimal option res" where
  "shown_ahead side limit ahead ob =
     (case same_side_shown side ob of (best, behind) \<Rightarrow>
      case best of
        None \<Rightarrow> Inr ahead
      | Some b \<Rightarrow>
          rbind (better side limit b) (\<lambda>improves.
            if improves then Inr (Some dec_zero)
            else case behind of
              Some n \<Rightarrow>
                if dec_eq b limit
                then (case ahead of None \<Rightarrow> Inr (Some n) | Some a \<Rightarrow> rbind (dec_min a n) (\<lambda>x. Inr (Some x)))
                else Inr ahead
            | None \<Rightarrow> Inr ahead))"

definition print_consumed ::
  "bool \<Rightarrow> dctx \<Rightarrow> side \<Rightarrow> decimal \<Rightarrow> decimal option \<Rightarrow> queue_observation \<Rightarrow> (bool \<times> decimal option \<times> decimal option) res" where
  "print_consumed count_unsigned amb side limit ahead ob =
     (case qo_trade_price ob of
        None \<Rightarrow> Inr (False, ahead, None)
      | Some price \<Rightarrow>
          rbind (better side limit price) (\<lambda>through.
            if through then Inr (True, ahead, None)
            else if dec_eq price limit \<and> consumes count_unsigned side (qo_aggressor ob) then
              (case (ahead, qo_trade_quantity ob) of
                 (Some a, Some printed) \<Rightarrow>
                   rbind (dec_lt a printed) (\<lambda>more.
                     if more then rbind (dec_sub amb printed a) (\<lambda>beyond. Inr (False, Some dec_zero, Some beyond))
                     else rbind (dec_sub amb a printed) (\<lambda>rest. Inr (False, Some rest, Some dec_zero)))
               | _ \<Rightarrow> Inr (False, ahead, None))
            else Inr (False, ahead, None)))"

definition touches :: "decimal \<Rightarrow> decimal option \<Rightarrow> bool" where
  "touches limit price = (case price of None \<Rightarrow> False | Some p \<Rightarrow> dec_eq p limit)"

definition queue_advance ::
  "bool \<Rightarrow> dctx \<Rightarrow> queue_place \<Rightarrow> side \<Rightarrow> queue_observation \<Rightarrow> queue_turn res" where
  "queue_advance count_unsigned amb pos side ob =
     (let limit = qp_limit pos;
          opposite = (if side = BUY then qo_ask ob else qo_bid ob);
          extreme = (if side = BUY then qo_low ob else qo_high ob);
          turn = (\<lambda>ahead eligible. \<lparr>qt_position = \<lparr>qp_limit = limit, qp_ahead = ahead\<rparr>, qt_eligible = eligible\<rparr>) in
      rbind (shown_ahead side limit (qp_ahead pos) ob) (\<lambda>ahead.
      rbind (opt_better side limit opposite) (\<lambda>crossed.
      rbind (print_consumed count_unsigned amb side limit ahead ob) (\<lambda>(printed_through, ahead', beyond).
      rbind (if crossed \<or> printed_through then Inr True else opt_better side limit extreme) (\<lambda>through.
      if through then Inr (turn (Some dec_zero) None)
      else
        rbind (case beyond of None \<Rightarrow> Inr False | Some b \<Rightarrow> dec_lt dec_zero b) (\<lambda>past.
        if past then Inr (turn ahead' beyond)
        else if (touches limit opposite \<or> touches limit extreme) \<and> (case ahead' of None \<Rightarrow> False | Some a \<Rightarrow> dec_eq a dec_zero)
        then Inr (turn ahead' None)
        else Inr (turn ahead' (Some dec_zero))))))))"

section \<open>The queue book\<close>

record queue_book =
  qb_count_unsigned :: bool
  qb_positions :: "(string, queue_place) od"

definition position_of :: "queue_book \<Rightarrow> string \<Rightarrow> queue_place option" where
  "position_of b oid = od_get (qb_positions b) oid"

definition placed_in :: "queue_book \<Rightarrow> string \<Rightarrow> queue_place \<Rightarrow> queue_book" where
  "placed_in b oid p = b\<lparr>qb_positions := od_set oid p (qb_positions b)\<rparr>"

definition without_order :: "queue_book \<Rightarrow> string \<Rightarrow> queue_book" where
  "without_order b oid =
     (if od_get (qb_positions b) oid = None then b else b\<lparr>qb_positions := od_del oid (qb_positions b)\<rparr>)"

definition keeping :: "queue_book \<Rightarrow> string list \<Rightarrow> queue_book" where
  "keeping b oids =
     b\<lparr>qb_positions := fold od_del (filter (\<lambda>oid. oid \<notin> set oids) (od_keys (qb_positions b))) (qb_positions b)\<rparr>"

end
