(* ===== verification/Pipeline.thy ===== *)
theory Pipeline
  imports Valuation Execution_Queue Risk_Engine Allocation_Engine Oms_Engine
begin

text \<open>
  The state of the execution pipeline and the settlement of an execution report:
  \<open>alphalab/runtime/execution_pipeline.py\<close> and \<open>execution_adapters.py\<close>. One report moves the order in the
  OMS, the position and the cash in the portfolio, the exposures of the risk gate, and the shares and
  the reserved capital of the allocation; a terminal order gives back what it still holds. The static
  methods are decorated with \<open>in_accounting_context\<close>, so every context is \<open>ACCOUNTING_CONTEXT\<close>.

  What this code asks of parts that are not modelled is the record \<open>queries\<close>: functions of the whole
  state that answer and change nothing (a venue's calendar and controls, margin terms, the borrow table,
  classification). Identifiers come from one stream, \<open>mint\<close>, whose position the state keeps as
  \<open>pl_drawn\<close>, as the code keeps \<open>id_position\<close>. An order's identifier is its canonical UUID text.

  The records have the fields the operations read or write. Left out are the identifying fields of market
  data (venue, currency, trade id, a bar's average price and count), the market, strategy and analytics
  states and the portfolio snapshots of the pipeline's state, the calendars and the retention of its
  configuration, the text of an unpriced asset, and what of an instrument only the answers in \<open>queries\<close> depend on.
\<close>

section \<open>Market events\<close>

record quote_data =
  q_asset :: string
  q_bid :: decimal
  q_ask :: decimal
  q_bid_size :: decimal
  q_ask_size :: decimal
  q_time :: pyfloat

datatype interval_unit = SECOND | MINUTE | HOUR | DAY_UNIT | WEEK | MONTH

record bar_data =
  bar_asset :: string
  bar_open :: decimal
  bar_high :: decimal
  bar_low :: decimal
  bar_close :: decimal
  bar_volume :: decimal
  bar_unit :: interval_unit
  bar_time :: pyfloat

record tick_data =
  tk_asset :: string
  tk_price :: decimal
  tk_quantity :: decimal
  tk_aggressor :: "side option"
  tk_time :: pyfloat

datatype market_event =
    QuoteReceived pyfloat quote_data
  | BarClosed pyfloat bar_data
  | TickReceived pyfloat tick_data
  | TradeReceived pyfloat tick_data
  | BookUpdated pyfloat
  | SnapshotCreated pyfloat

fun event_time :: "market_event \<Rightarrow> pyfloat" where
  "event_time (QuoteReceived t q) = t"
| "event_time (BarClosed t b) = t"
| "event_time (TickReceived t k) = t"
| "event_time (TradeReceived t k) = t"
| "event_time (BookUpdated t) = t"
| "event_time (SnapshotCreated t) = t"

definition quote_mid :: "quote_data \<Rightarrow> decimal res" where
  "quote_mid q =
     rbind (dec_add ACCOUNTING_CONTEXT (q_bid q) (q_ask q)) (\<lambda>x. dec_div ACCOUNTING_CONTEXT x (Fin 2 0))"

definition event_price :: "market_event \<Rightarrow> (string \<times> decimal) option res" where
  "event_price e =
     (case e of
        QuoteReceived t q \<Rightarrow> rbind (quote_mid q) (\<lambda>mid. Inr (Some (q_asset q, mid)))
      | BarClosed t b \<Rightarrow> Inr (Some (bar_asset b, bar_close b))
      | TickReceived t k \<Rightarrow> Inr (Some (tk_asset k, tk_price k))
      | _ \<Rightarrow> Inr None)"

definition prices_with_event ::
  "(string, decimal) od \<Rightarrow> (string \<times> decimal) option \<Rightarrow> (string, decimal) od" where
  "prices_with_event prices update =
     (case update of None \<Rightarrow> prices | Some (asset, price) \<Rightarrow> od_set asset price prices)"

definition available_quote :: "market_event \<Rightarrow> decimal option \<times> decimal option" where
  "available_quote e = (case e of QuoteReceived t q \<Rightarrow> (Some (q_bid q), Some (q_ask q)) | _ \<Rightarrow> (None, None))"

definition available_quantity :: "market_event \<Rightarrow> side \<Rightarrow> decimal option" where
  "available_quantity e side =
     (case e of
        QuoteReceived t q \<Rightarrow> Some (if side = BUY then q_ask_size q else q_bid_size q)
      | BarClosed t b \<Rightarrow> Some (bar_volume b)
      | TickReceived t k \<Rightarrow> Some (tk_quantity k)
      | TradeReceived t k \<Rightarrow> Some (tk_quantity k)
      | _ \<Rightarrow> None)"

definition shown_by :: "market_event \<Rightarrow> side \<Rightarrow> shown" where
  "shown_by e side = \<lparr>sh_bid = fst (available_quote e), sh_ask = snd (available_quote e),
     sh_available = available_quantity e side\<rparr>"

definition queue_observation_of :: "market_event \<Rightarrow> queue_observation" where
  "queue_observation_of e =
     (let nothing = \<lparr>qo_timestamp = event_time e, qo_bid = None, qo_bid_size = None, qo_ask = None, qo_ask_size = None,
        qo_trade_price = None, qo_trade_quantity = None, qo_aggressor = None, qo_low = None, qo_high = None\<rparr> in
      case e of
        QuoteReceived t q \<Rightarrow> nothing\<lparr>qo_bid := Some (q_bid q), qo_bid_size := Some (q_bid_size q),
          qo_ask := Some (q_ask q), qo_ask_size := Some (q_ask_size q)\<rparr>
      | TickReceived t k \<Rightarrow> nothing\<lparr>qo_trade_price := Some (tk_price k), qo_trade_quantity := Some (tk_quantity k),
          qo_aggressor := tk_aggressor k\<rparr>
      | TradeReceived t k \<Rightarrow> nothing\<lparr>qo_trade_price := Some (tk_price k), qo_trade_quantity := Some (tk_quantity k),
          qo_aggressor := tk_aggressor k\<rparr>
      | BarClosed t b \<Rightarrow> nothing\<lparr>qo_low := Some (bar_low b), qo_high := Some (bar_high b)\<rparr>
      | _ \<Rightarrow> nothing)"

section \<open>Instruments and configuration\<close>

datatype asset_type = EQUITY | FUTURE | OPTION | FOREX | CRYPTO | CASH_TYPE | BOND | INDEX

record listing =
  li_asset_type :: asset_type
  li_exchange :: string
  li_currency :: string
  li_sector :: "string option"
  li_economics :: "instrument_economics option"
  li_last_trade_at :: "pyfloat option"

definition economics_for :: "asset_type \<Rightarrow> instrument_economics option \<Rightarrow> instrument_economics res" where
  "economics_for kind declared =
     (case declared of
        Some e \<Rightarrow> Inr e
      | None \<Rightarrow> if kind \<in> {EQUITY, CRYPTO, FOREX, CASH_TYPE, INDEX} then Inr CASH_EQUITY else Inl InstrumentInputError)"

datatype execution_routing = SIMULATED | EXTERNAL | ALGORITHMIC
datatype fill_timing = SAME_EVENT | NEXT_EVENT

record pipeline_config =
  pc_account :: account
  pc_starting_cash :: decimal
  pc_budget :: capital_budget
  pc_constraints :: allocation_constraints
  pc_limits :: risk_limits
  pc_sizing :: sizing_model
  pc_simulator :: simulator
  pc_venue :: string
  pc_currency :: string
  pc_also_settles :: "string list"
  pc_routing :: execution_routing
  pc_instruments :: "(string, listing) od option"
  pc_fill_timing :: fill_timing

text \<open>The settlement currency is the account's base currency when none is named.\<close>

definition make_config :: "pipeline_config \<Rightarrow> pipeline_config" where
  "make_config c = (if pc_currency c = [] then c\<lparr>pc_currency := base_currency (pc_account c)\<rparr> else c)"

definition settles :: "pipeline_config \<Rightarrow> string \<Rightarrow> bool" where
  "settles c currency = (currency = pc_currency c \<or> currency \<in> set (pc_also_settles c))"

definition is_multi_currency :: "pipeline_config \<Rightarrow> bool" where
  "is_multi_currency c = (\<exists>x \<in> set (pc_also_settles c). x \<noteq> pc_currency c)"

section \<open>The state\<close>

record core_fill =
  fl_fill_id :: string
  fl_order_id :: string
  fl_asset_id :: string
  fl_side :: side
  fl_quantity :: decimal
  fl_price :: decimal
  fl_filled_at :: pyfloat
  fl_commission :: decimal

record core_trade =
  tr_trade_id :: string
  tr_asset_id :: string
  tr_side :: side
  tr_quantity :: decimal
  tr_average_price :: decimal
  tr_fill_ids :: "string list"
  tr_executed_at :: pyfloat
  tr_order_id :: "string option"

record trade_record =
  rec_trade_id :: string
  rec_asset_id :: string
  rec_sector :: "string option"
  rec_realized :: decimal
  rec_notional :: decimal
  rec_holding_period :: "pyfloat option"
  rec_contributions :: "strategy_contribution list"

datatype unpriced_reason = NO_PRICE_OBSERVED | NOT_REGISTERED | REGISTERED_BUT_UNPRICED

record unpriced_asset =
  ua_reason :: unpriced_reason
  ua_first :: pyfloat
  ua_last :: pyfloat
  ua_occurrences :: int

record pipeline =
  pl_config :: pipeline_config
  pl_allocation :: allocation_state
  pl_risk :: risk_state
  pl_oms :: oms_state
  pl_execution :: execution_state
  pl_portfolio :: portfolio_state
  pl_prices :: "(string, decimal) od"
  pl_fills :: "core_fill list"
  pl_trades :: "core_trade list"
  pl_records :: "trade_record list"
  pl_unpriced :: "(string, unpriced_asset) od"
  pl_drawn :: nat

text \<open>What the parts that are not modelled answer, and the identifiers of the run.\<close>

record queries =
  mint :: "nat \<Rightarrow> string"
  latency_draw :: "string \<Rightarrow> pyfloat"
  zone_clock :: "string \<Rightarrow> pyfloat \<Rightarrow> int res"
  uuid_text :: "string \<Rightarrow> bool"
  venue_blocks :: "pipeline \<Rightarrow> string \<Rightarrow> pyfloat \<Rightarrow> decimal \<Rightarrow> bool res"
  settles_at :: "pipeline \<Rightarrow> string \<Rightarrow> pyfloat \<Rightarrow> pyfloat option res"
  calendar_missing :: "pipeline \<Rightarrow> string \<Rightarrow> bool res"
  day_order_close :: "pipeline \<Rightarrow> string \<Rightarrow> pyfloat \<Rightarrow> pyfloat option res"
  session_bars :: "pipeline \<Rightarrow> string \<Rightarrow> bool"
  bought_on_margin :: "pipeline \<Rightarrow> string \<Rightarrow> bool"
  buy_in_terms :: "pipeline \<Rightarrow> order \<Rightarrow> (decimal option \<times> decimal option) option res"
  power_charge :: "pipeline \<Rightarrow> fx_rates \<Rightarrow> string \<Rightarrow> decimal \<Rightarrow> pyfloat \<Rightarrow> bool \<Rightarrow> decimal option res"
  gate_margin :: "pipeline \<Rightarrow> fx_rates \<Rightarrow> order_request \<Rightarrow> pyfloat \<Rightarrow> (decimal \<times> decimal) option res"
  gate_buckets :: "pipeline \<Rightarrow> order_request \<Rightarrow> decimal \<Rightarrow> (string, working_exposure) od \<Rightarrow> bucket_exposure list res"
  margin_breached :: "pipeline \<Rightarrow> fx_rates \<Rightarrow> pyfloat \<Rightarrow> bool res"
  short_of_margin :: "pipeline \<Rightarrow> fx_rates \<Rightarrow> order_request \<Rightarrow> pyfloat \<Rightarrow> bool res"
  unborrowable :: "pipeline \<Rightarrow> order_request \<Rightarrow> pyfloat \<Rightarrow> bool res"
  band_limit :: "pipeline \<Rightarrow> order_request \<Rightarrow> pyfloat \<Rightarrow> decimal option option res"
  off_grid :: "pipeline \<Rightarrow> order_request \<Rightarrow> bool res"

definition drawn_id :: "queries \<Rightarrow> pipeline \<Rightarrow> nat \<Rightarrow> string" where
  "drawn_id q s k = mint q (pl_drawn s + k)"

definition drew :: "nat \<Rightarrow> pipeline \<Rightarrow> pipeline" where
  "drew n s = s\<lparr>pl_drawn := pl_drawn s + n\<rparr>"

section \<open>What an asset is\<close>

definition listing_of :: "pipeline \<Rightarrow> string \<Rightarrow> listing option" where
  "listing_of s asset = (case pc_instruments (pl_config s) of None \<Rightarrow> None | Some r \<Rightarrow> od_get r asset)"

definition sector_for :: "pipeline \<Rightarrow> string \<Rightarrow> string option" where
  "sector_for s asset = (case listing_of s asset of None \<Rightarrow> None | Some l \<Rightarrow> li_sector l)"

definition economics_of :: "pipeline \<Rightarrow> string \<Rightarrow> instrument_economics option" where
  "economics_of s asset =
     (case listing_of s asset of None \<Rightarrow> None | Some l \<Rightarrow> declared_economics (li_economics l))"

definition unit_value :: "pipeline \<Rightarrow> string \<Rightarrow> decimal \<Rightarrow> decimal res" where
  "unit_value s asset price =
     (case economics_of s asset of
        None \<Rightarrow> Inr price
      | Some e \<Rightarrow> if dec_eq (multiplier e) dec_one then Inr price else dec_mul ACCOUNTING_CONTEXT price (multiplier e))"

definition settlement_currency_for :: "pipeline \<Rightarrow> string \<Rightarrow> string" where
  "settlement_currency_for s asset =
     (case listing_of s asset of
        None \<Rightarrow> pc_currency (pl_config s)
      | Some l \<Rightarrow> if settles (pl_config s) (li_currency l) then li_currency l else pc_currency (pl_config s))"

definition in_budget_currency ::
  "pipeline \<Rightarrow> decimal \<Rightarrow> string \<Rightarrow> fx_rates \<Rightarrow> pyfloat \<Rightarrow> decimal res" where
  "in_budget_currency s amount currency rates as_of =
     (let target = cb_currency (pc_budget (pl_config s)) in
      if target = [] \<or> currency = target then Inr amount
      else rbind (fx_convert rates amount currency target (Some as_of) None) (\<lambda>c. Inr (cv_converted c)))"

definition price_in_base :: "pipeline \<Rightarrow> string \<Rightarrow> decimal \<Rightarrow> fx_rates \<Rightarrow> pyfloat \<Rightarrow> decimal res" where
  "price_in_base s asset price rates as_of =
     (let currency = settlement_currency_for s asset; base = base_currency (pf_account (pl_portfolio s)) in
      if currency = base then Inr price
      else rbind (rate_at rates currency base (Some as_of)) (\<lambda>r. dec_mul ACCOUNTING_CONTEXT price (fx_value r)))"

end
