(* ===== verification/Pipeline_Settlement.thy ===== *)
theory Pipeline_Settlement
  imports Pipeline
begin

text \<open>
  What one execution report does to the whole state, and how an order ends: the settlement half of
  \<open>alphalab/runtime/execution_pipeline.py\<close>. The identifiers are drawn in the order the code draws them.
  A sector's sum that raises is the empty map: the code's map is summed when it is read, and nothing
  here reads it.
\<close>

section \<open>The risk state follows the book\<close>

text \<open>The values of the positions in one currency, and their sums by sector.\<close>

definition values_in_base ::
  "position_book \<Rightarrow> string \<Rightarrow> fx_rates \<Rightarrow> pyfloat \<Rightarrow> (string, decimal) od res" where
  "values_in_base book base rates as_of =
     rmap (\<lambda>(asset, p). rbind (book_market_value book asset) (\<lambda>value.
       if pos_currency p = base then Inr (asset, value)
       else rbind (fx_convert rates value (pos_currency p) base (Some as_of) None) (\<lambda>c. Inr (asset, cv_converted c))))
       (bk_positions book)"

definition sector_sums :: "(string \<Rightarrow> string option) \<Rightarrow> (string, decimal) od \<Rightarrow> (string, decimal) od res" where
  "sector_sums sector vs =
     rfold (\<lambda>acc (asset, value).
       case sector asset of
         None \<Rightarrow> Inr acc
       | Some s \<Rightarrow>
           rbind (dec_add ACCOUNTING_CONTEXT (case od_get acc s of None \<Rightarrow> zero_cents | Some x \<Rightarrow> x) value)
             (\<lambda>t. Inr (od_set s t acc))) [] vs"

definition or_empty :: "('a list) res \<Rightarrow> 'a list" where
  "or_empty m = (case m of Inl e \<Rightarrow> [] | Inr xs \<Rightarrow> xs)"

definition exposure_of ::
  "decimal \<Rightarrow> decimal \<Rightarrow> (string, decimal) od \<Rightarrow> (string, decimal) od \<Rightarrow> exposure_status res" where
  "exposure_of lv sv vs sectors =
     rbind (dec_add ACCOUNTING_CONTEXT zero_cents lv) (\<lambda>long_total.
     rbind (dec_add ACCOUNTING_CONTEXT zero_cents sv) (\<lambda>short_total.
     rbind (dec_abs ACCOUNTING_CONTEXT short_total) (\<lambda>owed.
     rbind (dec_add ACCOUNTING_CONTEXT long_total owed) (\<lambda>gross.
     rbind (dec_add ACCOUNTING_CONTEXT long_total short_total) (\<lambda>net.
       Inr \<lparr>gross_exposure = gross, net_exposure = net, long_exposure = long_total, short_exposure = short_total,
            asset_exposure = vs, sector_exposure = sectors\<rparr>)))))"

definition risk_exposure ::
  "(string, listing) od option \<Rightarrow> portfolio_state \<Rightarrow> fx_rates \<Rightarrow> pyfloat \<Rightarrow> exposure_status res" where
  "risk_exposure instruments pf rates as_of =
     (let base = base_currency (pf_account pf); book = pf_positions pf;
          sector = (\<lambda>asset. case instruments of None \<Rightarrow> None
                      | Some r \<Rightarrow> (case od_get r asset of None \<Rightarrow> None | Some l \<Rightarrow> li_sector l));
          sectors = (\<lambda>vs. if instruments = None then [] else or_empty (sector_sums sector vs)) in
      if book_currencies book = [] \<or> book_currencies book = [base] then
        (let t = book_totals book base;
             vs = map (\<lambda>(asset, value, unrealized). (asset, value)) (bk_entries book) in
         exposure_of (long_value t) (short_value t) vs (sectors vs))
      else
        rbind (assert_single_currency (pf_cash pf) book base rates) (\<lambda>_.
        rbind (book_totals_in ACCOUNTING_CONTEXT book base rates (Some as_of) None) (\<lambda>w.
        let vs = or_empty (values_in_base book base rates as_of) in
        exposure_of (worth_long w) (worth_short w) vs (sectors vs))))"

text \<open>What has been sold and not yet paid is cash the gate does not count.\<close>

definition unsettled_credit :: "portfolio_state \<Rightarrow> fx_rates \<Rightarrow> pyfloat \<Rightarrow> decimal \<Rightarrow> pending_settlement \<Rightarrow> decimal res" where
  "unsettled_credit pf rates as_of credits entry =
     rbind (dec_le (ps_cash entry) dec_zero) (\<lambda>owed.
       if owed \<or> \<not> pending_at as_of entry then Inr credits
       else if ps_currency entry = base_currency (pf_account pf) then dec_add ACCOUNTING_CONTEXT credits (ps_cash entry)
       else
         rbind (fx_convert rates (ps_cash entry) (ps_currency entry) (base_currency (pf_account pf)) (Some as_of)
                  (Some (account_units (pf_account pf)))) (\<lambda>c. dec_add ACCOUNTING_CONTEXT credits (cv_converted c)))"

definition sync_risk :: "queries \<Rightarrow> fx_rates \<Rightarrow> pyfloat \<Rightarrow> portfolio_state \<Rightarrow> pipeline \<Rightarrow> pipeline res" where
  "sync_risk q rates as_of pf s =
     (let base = base_currency (pf_account pf) in
      rbind (cash_in ACCOUNTING_CONTEXT (pf_cash pf) base rates (Some as_of) (Some (account_units (pf_account pf)))) (\<lambda>(cash, _).
      rbind (nav_calculate (pf_cash pf) (pf_positions pf) base rates (Some as_of)) (\<lambda>nav.
      rbind (risk_exposure (pc_instruments (pl_config s)) pf rates as_of) (\<lambda>exposure.
      let exposed = update_exposure (drawn_id q s 0) (pl_risk s) exposure as_of;
          margined = update_margin (drawn_id q s 1) exposed
            (no_margin\<lparr>available_margin := nav, margin_used := gross_exposure exposure\<rparr>) as_of in
      rbind (mark (zone_clock q) margined nav cash as_of) (\<lambda>marked.
      rbind (if pf_unsettled pf = [] then Inr marked
             else
               rbind (rfold (unsettled_credit pf rates as_of) dec_zero (pf_unsettled pf)) (\<lambda>credits.
                 if dec_eq credits dec_zero then Inr marked
                 else
                   rbind (dec_sub ACCOUNTING_CONTEXT (rs_cash marked) credits) (\<lambda>free.
                   rbind (dec_max zero_cents free) (\<lambda>power. Inr (marked\<lparr>buying_power := power\<rparr>))))) (\<lambda>risk.
        Inr (drew 2 (s\<lparr>pl_portfolio := pf, pl_risk := risk\<rparr>))))))))"

definition fund :: "queries \<Rightarrow> decimal \<Rightarrow> string \<Rightarrow> pyfloat \<Rightarrow> fx_rates \<Rightarrow> pipeline \<Rightarrow> pipeline res" where
  "fund q amount currency timestamp rates s =
     (if \<not> settles (pl_config s) currency then Inl RuntimeValidationError
      else
        rbind (apply_deposit (drawn_id q s 0) amount currency timestamp (pl_portfolio s)) (\<lambda>pf.
          sync_risk q rates timestamp pf (drew 1 s)))"

definition pipeline_convert_cash ::
  "queries \<Rightarrow> decimal \<Rightarrow> string \<Rightarrow> string \<Rightarrow> fx_rates \<Rightarrow> pyfloat \<Rightarrow> pipeline \<Rightarrow> (pipeline \<times> fx_conversion) res" where
  "pipeline_convert_cash q amount from_currency to_currency rates timestamp s =
     (if \<not> settles (pl_config s) from_currency \<or> \<not> settles (pl_config s) to_currency then Inl RuntimeValidationError
      else
        rbind (convert_cash (drawn_id q s 0) (drawn_id q s 1) amount from_currency to_currency rates timestamp False
                 (pl_portfolio s)) (\<lambda>(pf, c).
        rbind (sync_risk q rates timestamp pf (drew 2 s)) (\<lambda>s'. Inr (s', c))))"

section \<open>The end of an order\<close>

definition release_held :: "queries \<Rightarrow> string \<Rightarrow> pyfloat \<Rightarrow> pipeline \<Rightarrow> pipeline res" where
  "release_held q oid timestamp s =
     (if od_get (reservations (pl_allocation s)) oid = None then Inr s
      else rbind (release_reservation (drawn_id q s 0) (pl_allocation s) oid timestamp) (\<lambda>a.
        Inr (drew 1 (s\<lparr>pl_allocation := a\<rparr>))))"

definition retire_dropped_request :: "queries \<Rightarrow> string \<Rightarrow> pyfloat \<Rightarrow> pipeline \<Rightarrow> pipeline res" where
  "retire_dropped_request q oid timestamp s =
     rbind (release_held q oid timestamp s) (\<lambda>released.
     rbind (retire_contributions (pl_allocation released) oid) (\<lambda>a. Inr (released\<lparr>pl_allocation := a\<rparr>)))"

definition release_if_terminal :: "queries \<Rightarrow> string \<Rightarrow> pyfloat \<Rightarrow> pipeline \<Rightarrow> pipeline res" where
  "release_if_terminal q oid timestamp s =
     (if \<not> book_contains (os_orders (pl_oms s)) oid then Inr s
      else
        rbind (book_find (os_orders (pl_oms s)) oid) (\<lambda>ord.
          if is_open ord then Inr s else retire_dropped_request q oid timestamp s))"

definition with_oms :: "oms_state res \<Rightarrow> nat \<Rightarrow> pipeline \<Rightarrow> pipeline res" where
  "with_oms m n s = rbind m (\<lambda>o'. Inr (drew n (s\<lparr>pl_oms := o'\<rparr>)))"

definition terminate_order :: "queries \<Rightarrow> string \<Rightarrow> order_status \<Rightarrow> string \<Rightarrow> pyfloat \<Rightarrow> pipeline \<Rightarrow> pipeline res" where
  "terminate_order q oid outcome reason timestamp s =
     with_oms (case outcome of
         CANCELLED \<Rightarrow> oms_cancel (pl_oms s) oid timestamp (drawn_id q s 0)
       | EXPIRED \<Rightarrow> oms_expire (pl_oms s) oid timestamp (drawn_id q s 0)
       | _ \<Rightarrow> oms_reject (pl_oms s) oid reason timestamp (drawn_id q s 0)) 1 s"

definition apply_terminal_outcome ::
  "queries \<Rightarrow> string \<Rightarrow> order_status \<Rightarrow> pyfloat \<Rightarrow> string \<Rightarrow> pipeline \<Rightarrow> pipeline res" where
  "apply_terminal_outcome q oid outcome timestamp reason s =
     (if outcome \<notin> {CANCELLED, REJECTED, EXPIRED} then Inl RuntimeValidationError
      else rbind (terminate_order q oid outcome reason timestamp s) (release_if_terminal q oid timestamp))"

definition withdraw_partial_remainder :: "queries \<Rightarrow> string \<Rightarrow> pyfloat \<Rightarrow> pipeline \<Rightarrow> pipeline res" where
  "withdraw_partial_remainder q oid timestamp s =
     rbind (book_find (os_orders (pl_oms s)) oid) (\<lambda>ord.
       if o_status ord \<noteq> PARTIALLY_FILLED then Inr s
       else rbind (with_oms (oms_cancel (pl_oms s) oid timestamp (drawn_id q s 0)) 1 s) (release_if_terminal q oid timestamp))"

definition VENUE_REJECTED :: string where
  "VENUE_REJECTED = ''Rejected by execution venue''"

definition close_unfilled_order :: "queries \<Rightarrow> string \<Rightarrow> fill_status \<Rightarrow> pyfloat \<Rightarrow> pipeline \<Rightarrow> pipeline res" where
  "close_unfilled_order q oid st timestamp s =
     with_oms (case st of
         FILL_EXPIRED \<Rightarrow> oms_expire (pl_oms s) oid timestamp (drawn_id q s 0)
       | NO_FILL \<Rightarrow> oms_cancel (pl_oms s) oid timestamp (drawn_id q s 0)
       | _ \<Rightarrow> oms_reject (pl_oms s) oid VENUE_REJECTED timestamp (drawn_id q s 0)) 1 s"

section \<open>One execution report\<close>

definition record_venue_execution :: "queries \<Rightarrow> order \<Rightarrow> execution_report \<Rightarrow> pipeline \<Rightarrow> pipeline res" where
  "record_venue_execution q ord r s =
     (if er_status r = PARTIAL_FILL then
        rbind (dec_sub ACCOUNTING_CONTEXT (o_remaining ord) (er_quantity r)) (\<lambda>rest.
          Inr (drew 1 (s\<lparr>pl_execution := partial_fill (drawn_id q s 0) (pl_execution s) r rest\<rparr>)))
      else Inr (drew 1 (s\<lparr>pl_execution := execute (drawn_id q s 0) (pl_execution s) r\<rparr>)))"

definition report_to_oms :: "queries \<Rightarrow> string \<Rightarrow> execution_report \<Rightarrow> pipeline \<Rightarrow> pipeline res" where
  "report_to_oms q oid r s =
     (case er_status r of
        FULL_FILL \<Rightarrow> with_oms (oms_fill (pl_oms s) oid (er_quantity r) (er_price r) (er_timestamp r) (drawn_id q s 0)) 1 s
      | PARTIAL_FILL \<Rightarrow>
          with_oms (oms_partial_fill (pl_oms s) oid (er_quantity r) (er_price r) (er_timestamp r) (drawn_id q s 0)) 1 s
      | _ \<Rightarrow> Inr s)"

text \<open>The fill and the trade of a report; the identifiers drawn are UUIDs.\<close>

definition refuse_domain :: "bool \<Rightarrow> unit res" where
  "refuse_domain bad = (if bad then Inl DomainValidationError else Inr ())"

definition canonical_execution ::
  "queries \<Rightarrow> pipeline \<Rightarrow> execution_report \<Rightarrow> side \<Rightarrow> (core_fill \<times> core_trade) res" where
  "canonical_execution q s r sd =
     rbind (refuse_domain (\<not> uuid_text q (er_order_id r) \<or> \<not> uuid_text q (er_asset_id r))) (\<lambda>_.
     rbind (dec_le (er_quantity r) dec_zero) (\<lambda>none.
     rbind (refuse_domain (none \<or> \<not> is_finite (er_price r) \<or> \<not> is_finite (er_commission r))) (\<lambda>_.
       Inr (\<lparr>fl_fill_id = drawn_id q s 0, fl_order_id = er_order_id r, fl_asset_id = er_asset_id r, fl_side = sd,
             fl_quantity = er_quantity r, fl_price = er_price r, fl_filled_at = er_timestamp r,
             fl_commission = er_commission r\<rparr>,
            \<lparr>tr_trade_id = drawn_id q s 1, tr_asset_id = er_asset_id r, tr_side = sd, tr_quantity = er_quantity r,
             tr_average_price = er_price r, tr_fill_ids = [drawn_id q s 0], tr_executed_at = er_timestamp r,
             tr_order_id = Some (er_order_id r)\<rparr>))))"

definition signed_fill :: "side \<Rightarrow> decimal \<Rightarrow> decimal res" where
  "signed_fill sd quantity = (if sd = BUY then Inr quantity else dec_neg ACCOUNTING_CONTEXT quantity)"

fun event_realized :: "portfolio_event \<Rightarrow> decimal option" where
  "event_realized (PositionReduced t acct a x y pnl) = Some pnl"
| "event_realized (PositionClosed t acct a x pnl) = Some pnl"
| "event_realized e = None"

definition trade_record_of ::
  "execution_report \<Rightarrow> portfolio_event list \<Rightarrow> pyfloat option \<Rightarrow> strategy_contribution list \<Rightarrow> string option \<Rightarrow>
   trade_record res" where
  "trade_record_of r evs opened contributions sector =
     (let reducing = List.map_filter event_realized evs in
      rbind (dec_mul ACCOUNTING_CONTEXT (er_quantity r) (er_price r)) (\<lambda>value.
        Inr \<lparr>rec_trade_id = er_execution_id r, rec_asset_id = er_asset_id r, rec_sector = sector,
             rec_realized = (case reducing of [] \<Rightarrow> zero_cents | pnl # _ \<Rightarrow> pnl), rec_notional = value,
             rec_holding_period = (if reducing = [] then None
               else case opened of None \<Rightarrow> None | Some t \<Rightarrow> Some (flt_sub (er_timestamp r) t)),
             rec_contributions = contributions\<rparr>))"

definition opened_of :: "portfolio_state \<Rightarrow> string \<Rightarrow> pyfloat option" where
  "opened_of pf asset = (case book_get (pf_positions pf) asset of None \<Rightarrow> None | Some p \<Rightarrow> opened_at p)"

definition purchased_on_margin :: "queries \<Rightarrow> pipeline \<Rightarrow> string \<Rightarrow> decimal \<Rightarrow> bool res" where
  "purchased_on_margin q s asset quantity =
     rbind (dec_le quantity dec_zero) (\<lambda>sold. Inr (\<not> sold \<and> bought_on_margin q s asset))"

definition report_to_portfolio ::
  "queries \<Rightarrow> execution_report \<Rightarrow> side \<Rightarrow> fx_rates \<Rightarrow> pipeline \<Rightarrow> pipeline res" where
  "report_to_portfolio q r sd rates s =
     (if \<not> settles (pl_config s) (er_currency r) then Inl RuntimeValidationError
      else
        rbind (signed_fill sd (er_quantity r)) (\<lambda>signed.
        rbind (settles_at q s (er_asset_id r) (er_timestamp r)) (\<lambda>settling.
        rbind (purchased_on_margin q s (er_asset_id r) signed) (\<lambda>financed.
        rbind (apply_fill (drawn_id q s 0) (er_asset_id r) signed (er_price r) (er_commission r) (er_timestamp r)
                 (er_currency r) (economics_of s (er_asset_id r)) False settling financed (pl_portfolio s)) (\<lambda>pf.
        rbind (sync_risk q rates (er_timestamp r) pf (drew 1 s)) (\<lambda>s'.
        rbind (trade_record_of r (drop (length (pf_events (pl_portfolio s))) (pf_events pf))
                 (opened_of (pl_portfolio s) (er_asset_id r))
                 (contributions_for (pl_allocation s) (er_order_id r)) (sector_for s (er_asset_id r))) (\<lambda>t.
          Inr (s'\<lparr>pl_records := pl_records s' @ [t]\<rparr>))))))))"

section \<open>What a buy-in costs\<close>

definition BUY_IN :: string where "BUY_IN = ''buy_in''"

definition buy_in_charge :: "decimal \<Rightarrow> decimal option \<Rightarrow> decimal option \<Rightarrow> bool \<Rightarrow> decimal res" where
  "buy_in_charge value premium fee first =
     rbind (case premium of
              None \<Rightarrow> Inr dec_zero
            | Some p \<Rightarrow> rbind (dec_mul ACCOUNTING_CONTEXT value p) (dec_add ACCOUNTING_CONTEXT dec_zero)) (\<lambda>charge.
       case fee of
         None \<Rightarrow> Inr charge
       | Some f \<Rightarrow> if first then dec_add ACCOUNTING_CONTEXT charge f else Inr charge)"

definition charge_part ::
  "queries \<Rightarrow> execution_report \<Rightarrow> string \<Rightarrow> pipeline \<Rightarrow> string \<times> decimal \<Rightarrow> pipeline res" where
  "charge_part q r asset s part =
     (case part of (sid, amount) \<Rightarrow>
        if dec_eq amount dec_zero then Inr s
        else
          rbind (dec_neg ACCOUNTING_CONTEXT amount) (\<lambda>minus.
          rbind (make_cash_flow FEE_FLOW minus (er_currency r) asset (''buy-in:'' @ sid)) (\<lambda>flow.
          rbind (apply_cash_flow (drawn_id q s 0) flow (er_timestamp r) (pl_portfolio s)) (\<lambda>pf.
            Inr (drew 1 (s\<lparr>pl_portfolio := pf\<rparr>))))))"

definition buy_in_charges :: "queries \<Rightarrow> order \<Rightarrow> execution_report \<Rightarrow> pipeline \<Rightarrow> pipeline res" where
  "buy_in_charges q ord r s =
     rbind (buy_in_terms q s ord) (\<lambda>entry.
       case entry of
         None \<Rightarrow> Inr s
       | Some (premium, fee) \<Rightarrow>
           rbind (dec_mul ACCOUNTING_CONTEXT (er_quantity r) (er_price r)) (\<lambda>x.
           rbind (unit_value s (o_asset ord) x) (\<lambda>value.
           rbind (buy_in_charge (copy_abs value) premium fee (dec_eq (o_filled ord) dec_zero)) (\<lambda>charge.
             if dec_eq charge dec_zero then Inr s
             else
               rbind (split_by_contribution charge (contributions_for (pl_allocation s) (o_id ord)) (Fin 1 (-2))) (\<lambda>parts.
                 rfold (charge_part q r (o_asset ord)) s (if parts = [] then [(o_strategy ord, charge)] else parts))))))"

section \<open>Applying reports\<close>

definition executed_value :: "execution_report \<Rightarrow> fx_rates \<Rightarrow> pipeline \<Rightarrow> decimal res" where
  "executed_value r rates s =
     rbind (dec_mul ACCOUNTING_CONTEXT (er_quantity r) (er_price r)) (\<lambda>x.
     rbind (unit_value s (er_asset_id r) x) (\<lambda>v.
       in_budget_currency s (copy_abs v) (er_currency r) rates (er_timestamp r)))"

definition report_to_allocation :: "queries \<Rightarrow> execution_report \<Rightarrow> side \<Rightarrow> fx_rates \<Rightarrow> pipeline \<Rightarrow> pipeline res" where
  "report_to_allocation q r sd rates s =
     rbind (executed_value r rates s) (\<lambda>executed.
     rbind (signed_fill sd (er_quantity r)) (\<lambda>signed.
     rbind (record_fill (pl_allocation s) (er_order_id r) (er_asset_id r) signed (Some executed)) (\<lambda>a.
     rbind (apply_execution (drawn_id q s 0) a (er_order_id r) executed (er_timestamp r)) (\<lambda>a'.
       Inr (drew 1 (s\<lparr>pl_allocation := a'\<rparr>))))))"

type_synonym applied = "pipeline \<times> core_fill list \<times> core_trade list"

definition apply_report :: "queries \<Rightarrow> order \<Rightarrow> fx_rates \<Rightarrow> applied \<Rightarrow> execution_report \<Rightarrow> applied res" where
  "apply_report q ord rates st r =
     (case st of (s, fills, trades) \<Rightarrow>
        rbind (book_find (os_orders (pl_oms s)) (o_id ord)) (\<lambda>before.
        rbind (report_to_oms q (o_id ord) r s) (\<lambda>s1.
        rbind (canonical_execution q s1 r (o_side ord)) (\<lambda>(fill, trade).
        rbind (report_to_portfolio q r (o_side ord) rates (drew 2 s1)) (\<lambda>s2.
        rbind (if map_of (o_metadata before) BUY_IN \<noteq> None then buy_in_charges q before r s2 else Inr s2) (\<lambda>s3.
        rbind (report_to_allocation q r (o_side ord) rates s3) (\<lambda>s4.
        rbind (release_if_terminal q (o_id ord) (er_timestamp r) s4) (\<lambda>s5.
          Inr (s5, fills @ [fill], trades @ [trade])))))))))"

definition apply_reports :: "queries \<Rightarrow> order \<Rightarrow> fx_rates \<Rightarrow> execution_report list \<Rightarrow> pipeline \<Rightarrow> applied res" where
  "apply_reports q ord rates reports s =
     rbind (rfold (apply_report q ord rates) (s, [], []) reports) (\<lambda>(s', fills, trades).
       Inr (s'\<lparr>pl_fills := pl_fills s' @ fills, pl_trades := pl_trades s' @ trades\<rparr>, fills, trades))"

definition apply_execution_report ::
  "queries \<Rightarrow> order \<Rightarrow> execution_report \<Rightarrow> fx_rates \<Rightarrow> pipeline \<Rightarrow> applied res" where
  "apply_execution_report q ord r rates s =
     (if od_get (ex_reports (pl_execution s)) (er_execution_id r) \<noteq> None then Inr (s, [], [])
      else rbind (record_venue_execution q ord r s) (apply_reports q ord rates [r]))"

end
