(* ===== verification/Pipeline_Orders.thy ===== *)
theory Pipeline_Orders
  imports Pipeline_Settlement
begin

text \<open>
  Working an order against a market event: the execution half of \<open>alphalab/runtime/execution_pipeline.py\<close>.
  An arriving order trades at the market, a resting one at the price it waited for; a stop waits for
  its trigger; an immediate order trades once and what is left of it is withdrawn. The reopening auction
  after a halt (\<open>_reopen\<close>) is not modelled: the registry declares no auction.
\<close>

section \<open>How much is filled\<close>

definition whole_units :: "pipeline \<Rightarrow> bool" where
  "whole_units s = enforce_integer_quantities (pc_constraints (pl_config s))"

definition decide_fill :: "fill_policy \<Rightarrow> order \<Rightarrow> market_event \<Rightarrow> decimal \<Rightarrow> bool \<Rightarrow> fill_decision res" where
  "decide_fill policy ord e price whole =
     rbind (policy_decide ACCOUNTING_CONTEXT policy
              \<lparr>lc_asset_id = o_asset ord, lc_side = o_side ord, lc_requested = o_remaining ord, lc_price = price,
               lc_available = available_quantity e (o_side ord), lc_timestamp = event_time e\<rparr>) (\<lambda>d.
       if \<not> whole \<or> fd_status d \<noteq> PARTIAL_FILL then Inr d
       else case fd_quantity d of
              None \<Rightarrow> Inr d
            | Some quantity \<Rightarrow>
                let units = to_integral ROUND_DOWN quantity in
                rbind (dec_le units dec_zero) (\<lambda>none.
                  Inr (if none then \<lparr>fd_status = NO_FILL, fd_quantity = None\<rparr>
                       else \<lparr>fd_status = PARTIAL_FILL, fd_quantity = Some units\<rparr>)))"

definition decided_quantity :: "order \<Rightarrow> fill_decision \<Rightarrow> decimal" where
  "decided_quantity ord d = (case fd_quantity d of None \<Rightarrow> o_remaining ord | Some x \<Rightarrow> x)"

definition within_queue :: "fill_decision \<Rightarrow> order \<Rightarrow> decimal \<Rightarrow> bool \<Rightarrow> fill_decision res" where
  "within_queue d ord cap whole =
     (if fd_status d \<notin> {FULL_FILL, PARTIAL_FILL} then Inr d
      else
        rbind (dec_le (decided_quantity ord d) cap) (\<lambda>fits_in.
        if fits_in then Inr d
        else
          let allowed = (if whole then to_integral ROUND_DOWN cap else cap) in
          rbind (dec_le allowed dec_zero) (\<lambda>none.
            Inr (if none then \<lparr>fd_status = NO_FILL, fd_quantity = None\<rparr>
                 else \<lparr>fd_status = PARTIAL_FILL, fd_quantity = Some allowed\<rparr>))))"

text \<open>A fill-or-kill order ends when it cannot fill whole.\<close>

definition kills :: "order \<Rightarrow> fill_decision \<Rightarrow> bool res" where
  "kills ord d =
     (if o_tif ord \<noteq> FOK then Inr False
      else if fd_status d \<notin> {FULL_FILL, PARTIAL_FILL} then Inr True
      else dec_lt (decided_quantity ord d) (o_remaining ord))"

section \<open>Executing\<close>

definition price_known :: "pipeline \<Rightarrow> string \<Rightarrow> decimal res" where
  "price_known s asset = od_item (pl_prices s) asset"

definition instruction_of :: "pipeline \<Rightarrow> order \<Rightarrow> instruction res" where
  "instruction_of s ord =
     (let currency = settlement_currency_for s (o_asset ord) in
      rbind (price_known s (o_asset ord)) (\<lambda>price.
      rbind (minor_units (account_units (pc_account (pl_config s))) currency) (\<lambda>units.
        Inr \<lparr>ins_order_id = o_id ord, ins_strategy_id = o_strategy ord, ins_asset_id = o_asset ord,
             ins_quantity = o_remaining ord, ins_price = price, ins_side = o_side ord,
             ins_venue = pc_venue (pl_config s), ins_currency = currency, ins_minor_units = Some units\<rparr>)))"

definition execute_order ::
  "queries \<Rightarrow> order \<Rightarrow> fill_decision \<Rightarrow> market_event \<Rightarrow> decimal \<Rightarrow> bool \<Rightarrow> pipeline \<Rightarrow>
   (pipeline \<times> execution_report list) res" where
  "execute_order q ord d e price passive s =
     rbind (instruction_of s ord) (\<lambda>i.
     rbind (simulate (drawn_id q s) (latency_draw q) ACCOUNTING_CONTEXT (pl_execution s) (pc_simulator (pl_config s)) i
              (decided_quantity ord d) price (event_time e) (fd_status d) (shown_by e (o_side ord)) passive) (\<lambda>x.
       Inr (drew (if fd_status d = NO_FILL then 2 else 3) (s\<lparr>pl_execution := x\<rparr>),
            drop (length (ex_history (pl_execution s))) (ex_history x))))"

definition end_unfilled :: "queries \<Rightarrow> string \<Rightarrow> pyfloat \<Rightarrow> pipeline \<Rightarrow> pipeline res" where
  "end_unfilled q oid timestamp s =
     rbind (with_oms (oms_cancel (pl_oms s) oid timestamp (drawn_id q s 0)) 1 s) (release_if_terminal q oid timestamp)"

definition expire_order :: "queries \<Rightarrow> string \<Rightarrow> pyfloat \<Rightarrow> pipeline \<Rightarrow> pipeline res" where
  "expire_order q oid timestamp s =
     rbind (with_oms (oms_expire (pl_oms s) oid timestamp (drawn_id q s 0)) 1 s) (release_if_terminal q oid timestamp)"

type_synonym worked = "pipeline \<times> execution_report list \<times> core_fill list \<times> core_trade list"

definition nothing_done :: "pipeline \<Rightarrow> worked" where
  "nothing_done s = (s, [], [], [])"

text \<open>The venue's answer, applied: an order it closed without a fill, or the reports of its fills.\<close>

definition settle_reports ::
  "queries \<Rightarrow> order \<Rightarrow> fill_decision \<Rightarrow> pyfloat \<Rightarrow> fx_rates \<Rightarrow> bool \<Rightarrow> pipeline \<times> execution_report list \<Rightarrow> worked res" where
  "settle_reports q ord d timestamp rates one_shot executed =
     (case executed of (s, reports) \<Rightarrow>
        rbind (if reports = [] \<and> fd_status d \<in> {FILL_REJECTED, FILL_EXPIRED, NO_FILL} then
                 rbind (close_unfilled_order q (o_id ord) (fd_status d) timestamp s) (release_if_terminal q (o_id ord) timestamp)
               else Inr s) (\<lambda>s1.
        rbind (apply_reports q ord rates reports s1) (\<lambda>(s2, fills, trades).
        rbind (if one_shot then withdraw_partial_remainder q (o_id ord) timestamp s2 else Inr s2) (\<lambda>s3.
          Inr (s3, reports, fills, trades)))))"

text \<open>An order that takes the market: it trades once, and what is left of it is withdrawn.\<close>

definition fill_at_market ::
  "queries \<Rightarrow> order \<Rightarrow> market_event \<Rightarrow> fill_policy \<Rightarrow> fx_rates \<Rightarrow> decimal option \<Rightarrow> pipeline \<Rightarrow> worked res" where
  "fill_at_market q ord e policy rates price s =
     rbind (case price of None \<Rightarrow> price_known s (o_asset ord) | Some p \<Rightarrow> Inr p) (\<lambda>base.
     rbind (venue_blocks q s (o_asset ord) (event_time e) base) (\<lambda>blocked.
     if blocked then Inr (nothing_done s)
     else
       rbind (decide_fill policy ord e base (whole_units s)) (\<lambda>d.
       rbind (kills ord d) (\<lambda>killed.
       if killed then rbind (end_unfilled q (o_id ord) (event_time e) s) (\<lambda>s'. Inr (nothing_done s'))
       else
         rbind (execute_order q ord d e base False s) (settle_reports q ord d (event_time e) rates True)))))"

section \<open>What a resting order trades at\<close>

definition stop_price_reached :: "order \<Rightarrow> market_event \<Rightarrow> decimal \<Rightarrow> bool \<Rightarrow> decimal option res" where
  "stop_price_reached ord e market_price' arriving =
     (case o_stop ord of
        None \<Rightarrow> Inl AssertionError
      | Some trigger \<Rightarrow>
          let buy = (o_side ord = BUY);
              reached = (\<lambda>observed. if buy then dec_le trigger observed else dec_le observed trigger);
              at_market = (\<lambda>observed. rbind (reached observed) (\<lambda>hit. Inr (if hit then Some market_price' else None))) in
          (case e of
             BarClosed t b \<Rightarrow>
               if arriving then at_market market_price'
               else
                 rbind (reached (if buy then bar_high b else bar_low b)) (\<lambda>hit.
                   if \<not> hit then Inr None
                   else rbind ((if buy then dec_max else dec_min) (bar_open b) trigger) (\<lambda>p. Inr (Some p)))
           | QuoteReceived t qd \<Rightarrow> at_market (if buy then q_ask qd else q_bid qd)
           | _ \<Rightarrow> at_market market_price'))"

definition resting_fill_price :: "order \<Rightarrow> market_event \<Rightarrow> decimal option res" where
  "resting_fill_price ord e =
     (case o_limit ord of
        None \<Rightarrow> Inl AssertionError
      | Some limit \<Rightarrow>
          let buy = (o_side ord = BUY);
              crosses = (\<lambda>price. if buy then dec_le price limit else dec_le limit price);
              at_limit = (\<lambda>price. rbind (crosses price) (\<lambda>hit. Inr (if hit then Some limit else None))) in
          (case e of
             QuoteReceived t qd \<Rightarrow> at_limit (if buy then q_ask qd else q_bid qd)
           | BarClosed t b \<Rightarrow>
               rbind (crosses (if buy then bar_low b else bar_high b)) (\<lambda>hit.
                 if \<not> hit then Inr None
                 else rbind ((if buy then dec_min else dec_max) (bar_open b) limit) (\<lambda>p. Inr (Some p)))
           | TickReceived t k \<Rightarrow> at_limit (tk_price k)
           | TradeReceived t k \<Rightarrow> at_limit (tk_price k)
           | _ \<Rightarrow> Inr None))"

definition within_limit :: "order \<Rightarrow> decimal \<Rightarrow> bool res" where
  "within_limit ord price =
     (case o_limit ord of
        None \<Rightarrow> Inl AssertionError
      | Some limit \<Rightarrow> if o_side ord = BUY then dec_le price limit else dec_le limit price)"

text \<open>What the order would pay taking the market at \<open>base\<close>, its price concessions included.\<close>

definition taker_price :: "queries \<Rightarrow> pipeline \<Rightarrow> order \<Rightarrow> market_event \<Rightarrow> decimal \<Rightarrow> decimal res" where
  "taker_price q s ord e base =
     rbind (instruction_of s ord) (\<lambda>i.
     let sim = pc_simulator (pl_config s);
         c = simulator_context (latency_draw q) sim i (o_remaining ord) base (event_time e) (shown_by e (o_side ord)) in
     rbind (Execution_Costs.quote (active_costs sim) c) (costed_price c))"

definition work_resting ::
  "queries \<Rightarrow> order \<Rightarrow> market_event \<Rightarrow> fill_policy \<Rightarrow> fx_rates \<Rightarrow> decimal \<Rightarrow> bool \<Rightarrow> bool \<Rightarrow> decimal option \<Rightarrow> pipeline \<Rightarrow>
   worked res" where
  "work_resting q ord e policy rates price passive one_shot cap s =
     (let give_up = (\<lambda>ends. rbind (if ends then end_unfilled q (o_id ord) (event_time e) s else Inr s)
                              (\<lambda>s'. Inr (nothing_done s'))) in
      rbind (venue_blocks q s (o_asset ord) (event_time e) price) (\<lambda>blocked.
      if blocked then give_up one_shot
      else
        rbind (rbind (decide_fill policy ord e price (whole_units s)) (\<lambda>d.
                 case cap of None \<Rightarrow> Inr d | Some c \<Rightarrow> within_queue d ord c (whole_units s))) (\<lambda>d.
        rbind (kills ord d) (\<lambda>killed.
        if killed then give_up True
        else if fd_status d = NO_FILL then give_up one_shot
        else rbind (execute_order q ord d e price passive s) (settle_reports q ord d (event_time e) rates one_shot)))))"

section \<open>Working an order\<close>

definition session_bar :: "market_event \<Rightarrow> string \<Rightarrow> bar_data option" where
  "session_bar e asset =
     (case e of
        BarClosed t b \<Rightarrow> if bar_asset b = asset \<and> bar_unit b \<in> {DAY_UNIT, WEEK, MONTH} then Some b else None
      | _ \<Rightarrow> None)"

definition work_auction ::
  "queries \<Rightarrow> order \<Rightarrow> market_event \<Rightarrow> fill_policy \<Rightarrow> fx_rates \<Rightarrow> bool \<Rightarrow> pipeline \<Rightarrow> worked res" where
  "work_auction q ord e policy rates arriving s =
     (case (if arriving then None else session_bar e (o_asset ord)) of
        None \<Rightarrow> Inr (nothing_done s)
      | Some b \<Rightarrow>
          let price = (if o_tif ord = OPG then bar_open b else bar_close b) in
          rbind (if o_type ord = LIMIT then within_limit ord price else Inr True) (\<lambda>admitted.
            if \<not> admitted then rbind (expire_order q (o_id ord) (event_time e) s) (\<lambda>s'. Inr (nothing_done s'))
            else work_resting q ord e policy rates price True True None s))"

text \<open>A limit order that takes: only within its limit, its costs included.\<close>

definition take_within_limit ::
  "queries \<Rightarrow> order \<Rightarrow> market_event \<Rightarrow> fill_policy \<Rightarrow> fx_rates \<Rightarrow> decimal \<Rightarrow> bool \<Rightarrow> pipeline \<Rightarrow> worked res" where
  "take_within_limit q ord e policy rates base one_shot s =
     rbind (taker_price q s ord e base) (\<lambda>price.
     rbind (within_limit ord price) (\<lambda>ok.
       if ok then work_resting q ord e policy rates base False one_shot None s
       else rbind (if one_shot then end_unfilled q (o_id ord) (event_time e) s else Inr s) (\<lambda>s'. Inr (nothing_done s'))))"

definition work_limit ::
  "queries \<Rightarrow> order \<Rightarrow> market_event \<Rightarrow> fill_policy \<Rightarrow> fx_rates \<Rightarrow> bool \<Rightarrow> queue_turn option \<Rightarrow> pipeline \<Rightarrow> worked res" where
  "work_limit q ord e policy rates one_shot turn s =
     rbind (resting_fill_price ord e) (\<lambda>crossed.
     rbind (case turn of None \<Rightarrow> Inr True | Some t \<Rightarrow> may_fill t) (\<lambda>reached.
       case (if reached then crossed else None) of
         None \<Rightarrow> rbind (if one_shot then end_unfilled q (o_id ord) (event_time e) s else Inr s) (\<lambda>s'. Inr (nothing_done s'))
       | Some price \<Rightarrow>
           work_resting q ord e policy rates price True one_shot (case turn of None \<Rightarrow> None | Some t \<Rightarrow> qt_eligible t) s))"

definition work_stop ::
  "queries \<Rightarrow> order \<Rightarrow> market_event \<Rightarrow> fill_policy \<Rightarrow> fx_rates \<Rightarrow> decimal \<Rightarrow> bool \<Rightarrow> bool \<Rightarrow> pipeline \<Rightarrow> worked res" where
  "work_stop q ord e policy rates market_price' arriving one_shot s =
     rbind (stop_price_reached ord e market_price' arriving) (\<lambda>reached.
       case reached of
         None \<Rightarrow> rbind (if one_shot then end_unfilled q (o_id ord) (event_time e) s else Inr s) (\<lambda>s'. Inr (nothing_done s'))
       | Some price \<Rightarrow>
           if o_type ord = STOP then fill_at_market q ord e policy rates (Some price) s
           else
             rbind (with_oms (oms_trigger (pl_oms s) (o_id ord) (event_time e)) 0 s) (\<lambda>s'.
             rbind (book_find (os_orders (pl_oms s')) (o_id ord)) (\<lambda>ord'.
               take_within_limit q ord' e policy rates price one_shot s')))"

definition work_order ::
  "queries \<Rightarrow> order \<Rightarrow> market_event \<Rightarrow> fill_policy \<Rightarrow> fx_rates \<Rightarrow> bool \<Rightarrow> queue_turn option \<Rightarrow> pipeline \<Rightarrow> worked res" where
  "work_order q ord e policy rates arriving turn s =
     rbind (order_terms_of ord) (\<lambda>terms.
     if (case o_expire ord of None \<Rightarrow> False | Some t \<Rightarrow> flt_le t (event_time e))
     then rbind (expire_order q (o_id ord) (event_time e) s) (\<lambda>s'. Inr (nothing_done s'))
     else
       rbind (price_known s (o_asset ord)) (\<lambda>market_price'.
       rbind (venue_blocks q s (o_asset ord) (event_time e) market_price') (\<lambda>blocked.
       if blocked then
         rbind (if is_immediate terms then end_unfilled q (o_id ord) (event_time e) s else Inr s) (\<lambda>s'. Inr (nothing_done s'))
       else if is_auction terms then work_auction q ord e policy rates arriving s
       else if o_type ord = MARKET then fill_at_market q ord e policy rates None s
       else if o_type ord \<in> {STOP, STOP_LIMIT} \<and> o_triggered ord = None
       then work_stop q ord e policy rates market_price' arriving (is_immediate terms) s
       else if arriving then take_within_limit q ord e policy rates market_price' (is_immediate terms) s
       else work_limit q ord e policy rates (is_immediate terms) turn s)))"

section \<open>Every working order of an asset\<close>

definition queued :: "order \<Rightarrow> bool" where
  "queued ord =
     (if o_tif ord \<in> {IOC, FOK, OPG, CLS} then False
      else o_type ord = LIMIT \<or> (o_type ord = STOP_LIMIT \<and> o_triggered ord \<noteq> None))"

definition position_eq :: "queue_place \<Rightarrow> queue_place \<Rightarrow> bool" where
  "position_eq a b = (dec_eq (qp_limit a) (qp_limit b) \<and> opt_eq dec_eq (qp_ahead a) (qp_ahead b))"

text \<open>The order's turn at this event, and the book with its new place.\<close>

definition queue_turn_of ::
  "queue_book \<Rightarrow> order \<Rightarrow> queue_observation \<Rightarrow> (queue_turn option \<times> queue_book) res" where
  "queue_turn_of b ord ob =
     (if \<not> queued ord then Inr (None, b)
      else case o_limit ord of
        None \<Rightarrow> Inl AssertionError
      | Some limit \<Rightarrow>
          let held = position_of b (o_id ord);
              place = (case held of None \<Rightarrow> \<lparr>qp_limit = limit, qp_ahead = None\<rparr>
                       | Some p \<Rightarrow> if dec_eq (qp_limit p) limit then p else \<lparr>qp_limit = limit, qp_ahead = None\<rparr>) in
          rbind (queue_advance (qb_count_unsigned b) ACCOUNTING_CONTEXT place (o_side ord) ob) (\<lambda>turn.
            Inr (Some turn,
                 if (case held of None \<Rightarrow> False | Some p \<Rightarrow> position_eq (qt_position turn) p) then b
                 else placed_in b (o_id ord) (qt_position turn))))"

definition join_queue :: "queue_book \<Rightarrow> order \<Rightarrow> queue_observation \<Rightarrow> queue_book res" where
  "join_queue b ord ob =
     (case o_limit ord of
        None \<Rightarrow> Inl AssertionError
      | Some limit \<Rightarrow> rbind (queue_join (o_side ord) limit ob) (\<lambda>p. Inr (placed_in b (o_id ord) p)))"

definition queue_after_order ::
  "queue_book \<Rightarrow> string \<Rightarrow> order \<Rightarrow> queue_turn option \<Rightarrow> queue_observation \<Rightarrow> queue_book res" where
  "queue_after_order b oid after turn ob =
     (if \<not> is_open after then Inr (without_order b oid)
      else if turn = None \<and> queued after then join_queue b after ob
      else Inr b)"

record routed =
  rt_decisions :: "risk_decision list"
  rt_orders :: "order list"
  rt_reports :: "execution_report list"
  rt_fills :: "core_fill list"
  rt_trades :: "core_trade list"
  rt_unpriced :: "order_request list"
  rt_refusals :: "string list"
  rt_dropped :: "order_request list"

definition no_routing :: routed where
  "no_routing = \<lparr>rt_decisions = [], rt_orders = [], rt_reports = [], rt_fills = [], rt_trades = [], rt_unpriced = [],
     rt_refusals = [], rt_dropped = []\<rparr>"

definition fill_one ::
  "queries \<Rightarrow> market_event \<Rightarrow> fill_policy \<Rightarrow> fx_rates \<Rightarrow> pipeline \<times> routed \<times> queue_book option \<Rightarrow> string \<Rightarrow>
   (pipeline \<times> routed \<times> queue_book option) res" where
  "fill_one q e policy rates st oid =
     (case st of (s, out, queue) \<Rightarrow>
        rbind (book_find (os_orders (pl_oms s)) oid) (\<lambda>ord.
        rbind (case queue of None \<Rightarrow> Inr (None, None)
               | Some b \<Rightarrow> rbind (queue_turn_of b ord (queue_observation_of e)) (\<lambda>(t, b'). Inr (t, Some b'))) (\<lambda>(turn, queue1).
        rbind (work_order q ord e policy rates False turn s) (\<lambda>(s', reports, fills, trades).
        rbind (book_find (os_orders (pl_oms s')) oid) (\<lambda>after.
        rbind (case queue1 of None \<Rightarrow> Inr None
               | Some b \<Rightarrow> rbind (queue_after_order b oid after turn (queue_observation_of e)) (\<lambda>b'. Inr (Some b'))) (\<lambda>queue2.
          Inr (s', out\<lparr>rt_orders := rt_orders out @ [after], rt_reports := rt_reports out @ reports,
                       rt_fills := rt_fills out @ fills, rt_trades := rt_trades out @ trades\<rparr>, queue2)))))))"

definition fill_working_orders ::
  "queries \<Rightarrow> market_event \<Rightarrow> string \<Rightarrow> fill_policy \<Rightarrow> fx_rates \<Rightarrow> queue_book option \<Rightarrow> pipeline \<Rightarrow>
   (pipeline \<times> routed \<times> queue_book option) res" where
  "fill_working_orders q e asset policy rates queue s =
     rfold (fill_one q e policy rates) (s, no_routing, queue) (working_orders_for (pl_oms s) asset)"

definition join_placed ::
  "pipeline \<Rightarrow> market_event \<Rightarrow> queue_book \<Rightarrow> string \<Rightarrow> queue_book res" where
  "join_placed s e b oid =
     (if position_of b oid \<noteq> None then Inr b
      else
        rbind (book_find (os_orders (pl_oms s)) oid) (\<lambda>ord.
          if \<not> queued ord then Inr b else join_queue b ord (queue_observation_of e)))"

definition queue_after_step ::
  "queue_book \<Rightarrow> pipeline \<Rightarrow> market_event \<Rightarrow> (string \<times> decimal) option \<Rightarrow> nat \<Rightarrow> queue_book res" where
  "queue_after_step b s e update resting_before =
     (case update of
        None \<Rightarrow> Inr b
      | Some (asset, price) \<Rightarrow>
          if pc_routing (pl_config s) \<noteq> SIMULATED then Inr b
          else if length (working_orders_for (pl_oms s) asset) = resting_before then Inr b
          else rfold (join_placed s e) b (drop resting_before (working_orders_for (pl_oms s) asset)))"

end
