(* ===== verification/Pipeline_Routing.thy ===== *)
theory Pipeline_Routing
  imports Pipeline_Orders
begin

text \<open>
  From the strategies' intents to orders at work: the allocation of a batch, the refusals a request
  meets before the OMS, the risk gate, submission and, in a simulated run, the first attempt to fill
  (\<open>_allocate\<close>, \<open>_route_requests\<close> and what they call in \<open>alphalab/runtime/execution_pipeline.py\<close>), with the part
  of a market event's step before and after the strategies run. A request refused gives back what it
  held. The texts of refusals are not kept, and a mapping built over a set of assets is built in the
  order the intents name them.
\<close>

section \<open>What an order keeps of its reference price\<close>

text \<open>\<open>str\<close> of a \<open>Decimal\<close>: scientific notation when the exponent asks for it.\<close>

definition signed_int_text :: "int \<Rightarrow> string" where
  "signed_int_text n = (if n < 0 then ''-'' else ''+'') @ digits_text (nat \<bar>n\<bar>)"

definition digits_at :: "string \<Rightarrow> int \<Rightarrow> string" where
  "digits_at ds dot =
     (if dot \<le> 0 then ''0.'' @ replicate (nat (- dot)) CHR ''0'' @ ds
      else if int (length ds) \<le> dot then ds @ replicate (nat (dot - int (length ds))) CHR ''0''
      else take (nat dot) ds @ ''.'' @ drop (nat dot) ds)"

fun dec_str :: "decimal \<Rightarrow> string" where
  "dec_str (Fin c e) =
     (let ds = digits_text (nat \<bar>c\<bar>);
          left = e + int (length ds);
          dot = (if e \<le> 0 \<and> - 6 < left then left else 1) in
      (if c < 0 then ''-'' else []) @ digits_at ds dot @ (if left = dot then [] else ''E'' @ signed_int_text (left - dot)))"
| "dec_str (Infinite negative) = (if negative then ''-Infinity'' else ''Infinity'')"
| "dec_str NaN = ''NaN''"

definition REFERENCE_PRICE :: string where "REFERENCE_PRICE = ''reference_price''"

section \<open>Allocation\<close>

definition intent_assets :: "intent list \<Rightarrow> string list" where
  "intent_assets intents = remdups (map instrument intents)"

definition signed_remaining :: "order \<Rightarrow> decimal res" where
  "signed_remaining ord = signed_fill (o_side ord) (o_remaining ord)"

definition held_quantity :: "pipeline \<Rightarrow> string \<Rightarrow> decimal" where
  "held_quantity s asset =
     (case book_get (pf_positions (pl_portfolio s)) asset of None \<Rightarrow> dec_zero | Some p \<Rightarrow> pos_quantity p)"

definition working_orders :: "pipeline \<Rightarrow> string \<Rightarrow> order list res" where
  "working_orders s asset = rmap (book_find (os_orders (pl_oms s))) (working_orders_for (pl_oms s) asset)"

definition committed_position_of :: "pipeline \<Rightarrow> string \<Rightarrow> decimal res" where
  "committed_position_of s asset =
     rbind (working_orders s asset) (rfold (\<lambda>total ord.
       rbind (signed_remaining ord) (dec_add ACCOUNTING_CONTEXT total)) (held_quantity s asset))"

definition committed_positions :: "pipeline \<Rightarrow> intent list \<Rightarrow> (string, decimal) od res" where
  "committed_positions s intents =
     rfold (\<lambda>committed asset.
       rbind (committed_position_of s asset) (\<lambda>total.
         Inr (if book_get (pf_positions (pl_portfolio s)) asset \<noteq> None \<or> \<not> dec_eq total dec_zero
              then od_set asset total committed else committed))) [] (intent_assets intents)"

definition ATTRIBUTION_QUANTUM :: decimal where "ATTRIBUTION_QUANTUM = Fin 1 (-12)"

definition wanted_share :: "capital_budget \<Rightarrow> intent \<Rightarrow> bool" where
  "wanted_share b i = (in_kind i \<noteq> DELTA \<or> strategy_ceiling b (in_strategy i) \<noteq> None)"

definition add_working_share ::
  "(string \<times> string) set \<Rightarrow> string \<Rightarrow> (string \<times> string, decimal) od \<Rightarrow> string \<times> decimal \<Rightarrow>
   (string \<times> string, decimal) od res" where
  "add_working_share wanted asset acc part = (case part of (sid, share) \<Rightarrow>
     if (sid, asset) \<notin> wanted then Inr acc
     else
       rbind (dec_add ACCOUNTING_CONTEXT (amount_or_zero acc (sid, asset)) share) (\<lambda>t.
         Inr (od_set (sid, asset) t acc)))"

definition working_share_of ::
  "pipeline \<Rightarrow> (string \<times> string) set \<Rightarrow> string \<Rightarrow> (string \<times> string, decimal) od \<Rightarrow> order \<Rightarrow>
   (string \<times> string, decimal) od res" where
  "working_share_of s wanted asset acc ord =
     rbind (signed_remaining ord) (\<lambda>signed.
     rbind (split_by_contribution signed (contributions_for (pl_allocation s) (o_id ord)) ATTRIBUTION_QUANTUM)
       (rfold (add_working_share wanted asset) acc))"

definition working_shares :: "pipeline \<Rightarrow> intent list \<Rightarrow> (string \<times> string, decimal) od res" where
  "working_shares s intents =
     (let asked = filter (wanted_share (budget (pl_allocation s))) intents;
          wanted = set (map (\<lambda>i. (in_strategy i, instrument i)) asked) in
      rfold (\<lambda>acc asset.
        rbind (working_orders s asset) (rfold (working_share_of s wanted asset) acc)) [] (intent_assets asked))"

text \<open>The declared grid of each asset, and the observed prices in the budget's currency.\<close>

definition grid_of ::
  "pipeline \<Rightarrow> intent list \<Rightarrow> (instrument_economics \<Rightarrow> 'a option) \<Rightarrow> (string, 'a) od" where
  "grid_of s intents field =
     List.map_filter (\<lambda>asset. case economics_of s asset of
        None \<Rightarrow> None
      | Some e \<Rightarrow> map_option (Pair asset) (field e)) (intent_assets intents)"

definition scaled_multiplier :: "instrument_economics \<Rightarrow> decimal option" where
  "scaled_multiplier e = (if dec_eq (multiplier e) dec_one then None else Some (multiplier e))"

definition budget_prices :: "pipeline \<Rightarrow> fx_rates \<Rightarrow> pyfloat \<Rightarrow> (string, decimal) od res" where
  "budget_prices s rates as_of =
     (let c = pl_config s; target = cb_currency (pc_budget c) in
      if \<not> is_multi_currency c \<or> pc_instruments c = None \<or> target = [] then Inr []
      else
        rfold (\<lambda>converted (asset, price).
          case listing_of s asset of
            None \<Rightarrow> Inr converted
          | Some l \<Rightarrow>
              if li_currency l = target \<or> \<not> settles c (li_currency l) then Inr converted
              else
                rbind (fx_convert rates price (li_currency l) target (Some as_of) None) (\<lambda>x.
                  Inr (od_set asset (cv_converted x) converted))) [] (pl_prices s))"

definition allocation_batch :: "pipeline \<Rightarrow> intent list \<Rightarrow> fx_rates \<Rightarrow> pyfloat \<Rightarrow> batch res" where
  "allocation_batch s intents rates timestamp =
     rbind (budget_prices s rates timestamp) (\<lambda>prices_in_budget.
     rbind (committed_positions s intents) (\<lambda>committed.
     rbind (working_shares s intents) (\<lambda>shares.
       Inr \<lparr>bt_prices = pl_prices s, bt_model = pc_sizing (pl_config s), bt_constraints = pc_constraints (pl_config s),
            bt_budget_prices = prices_in_budget, bt_positions = Some committed, bt_working = shares,
            bt_lots = grid_of s intents lot, bt_minimum_notionals = grid_of s intents minimum_notional,
            bt_multipliers = grid_of s intents scaled_multiplier\<rparr>)))"

definition allocate_intents ::
  "(nat \<Rightarrow> string) \<Rightarrow> (nat \<Rightarrow> string) \<Rightarrow> intent list \<Rightarrow> fx_rates \<Rightarrow> pyfloat \<Rightarrow> pipeline \<Rightarrow>
   (pipeline \<times> order_request list) res" where
  "allocate_intents eids oids intents rates timestamp s =
     rbind (allocation_batch s intents rates timestamp) (\<lambda>b.
     rbind (allocate eids oids (pl_allocation s) intents b timestamp) (\<lambda>(a, requests).
       Inr (s\<lparr>pl_allocation := a\<rparr>, requests)))"

section \<open>Refusals before the OMS\<close>

definition growth_of :: "pipeline \<Rightarrow> string \<Rightarrow> decimal \<Rightarrow> decimal res" where
  "growth_of s asset signed =
     (let held = held_quantity s asset in
      rbind (dec_add ACCOUNTING_CONTEXT held signed) (\<lambda>after.
      rbind (reverses held after) (\<lambda>reversed.
        if reversed then Inr (copy_abs after)
        else
          rbind (dec_sub ACCOUNTING_CONTEXT (copy_abs after) (copy_abs held)) (\<lambda>grown. dec_max dec_zero grown))))"

definition increases :: "pipeline \<Rightarrow> order_request \<Rightarrow> bool res" where
  "increases s r =
     rbind (signed_fill (rq_side r) (rq_quantity r)) (\<lambda>signed.
     rbind (growth_of s (rq_asset_id r) signed) (\<lambda>g. dec_lt dec_zero g))"

definition settlement_refused :: "pipeline \<Rightarrow> string \<Rightarrow> pyfloat \<Rightarrow> bool" where
  "settlement_refused s asset timestamp =
     (case listing_of s asset of
        None \<Rightarrow> False
      | Some l \<Rightarrow>
          li_asset_type l = INDEX \<or>
          (case li_last_trade_at l of None \<Rightarrow> False | Some t \<Rightarrow> flt_lt t timestamp) \<or>
          \<not> settles (pl_config s) (li_currency l) \<or>
          (case economics_for (li_asset_type l) (li_economics l) of Inl e \<Rightarrow> True | Inr x \<Rightarrow> False))"

definition multiplier_or_one :: "instrument_economics option \<Rightarrow> decimal" where
  "multiplier_or_one e = (case e of None \<Rightarrow> dec_one | Some x \<Rightarrow> multiplier x)"

definition purchase_cost :: "pipeline \<Rightarrow> string \<Rightarrow> decimal \<Rightarrow> decimal \<Rightarrow> decimal res" where
  "purchase_cost s asset quantity price =
     rbind (dec_mul ACCOUNTING_CONTEXT quantity price) (\<lambda>x.
       dec_mul ACCOUNTING_CONTEXT x (multiplier_or_one (economics_of s asset)))"

definition bid_price :: "pipeline \<Rightarrow> order \<Rightarrow> decimal" where
  "bid_price s ord =
     (case o_limit ord of
        Some limit \<Rightarrow> if dec_eq limit dec_zero then amount_or_zero (pl_prices s) (o_asset ord) else limit
      | None \<Rightarrow> amount_or_zero (pl_prices s) (o_asset ord))"

definition less_unsettled :: "string \<Rightarrow> pyfloat \<Rightarrow> decimal \<Rightarrow> pending_settlement \<Rightarrow> decimal res" where
  "less_unsettled currency at' available entry =
     (if ps_currency entry \<noteq> currency then Inr available
      else rbind (dec_lt dec_zero (ps_cash entry)) (\<lambda>credit.
        if credit \<and> pending_at at' entry then dec_sub ACCOUNTING_CONTEXT available (ps_cash entry) else Inr available))"

definition less_working_buy :: "pipeline \<Rightarrow> string \<Rightarrow> decimal \<Rightarrow> string \<Rightarrow> decimal res" where
  "less_working_buy s currency available oid =
     rbind (book_find (os_orders (pl_oms s)) oid) (\<lambda>ord.
       if o_side ord \<noteq> BUY \<or> settlement_currency_for s (o_asset ord) \<noteq> currency then Inr available
       else rbind (purchase_cost s (o_asset ord) (o_remaining ord) (bid_price s ord)) (dec_sub ACCOUNTING_CONTEXT available))"

definition payable :: "pipeline \<Rightarrow> string \<Rightarrow> pyfloat \<Rightarrow> decimal res" where
  "payable s currency at' =
     (let cash = pf_cash (pl_portfolio s) in
      rbind (dec_sub ACCOUNTING_CONTEXT (cash_balance cash currency) (amount_of (cash_ledger.reserved cash) currency)) (\<lambda>free.
      rbind (rfold (less_unsettled currency at') free (pf_unsettled (pl_portfolio s))) (\<lambda>settled.
        rfold (less_working_buy s currency) settled (os_active (pl_oms s)))))"

definition currency_cash_refused :: "queries \<Rightarrow> pipeline \<Rightarrow> order_request \<Rightarrow> pyfloat \<Rightarrow> bool res" where
  "currency_cash_refused q s r at' =
     (if rq_side r \<noteq> BUY \<or> \<not> is_multi_currency (pl_config s) then Inr False
      else if (case economics_of s (rq_asset_id r) of None \<Rightarrow> False
               | Some e \<Rightarrow> \<not> model_pays_notional (settlement e)) then Inr False
      else
        rbind (dec_lt (held_quantity s (rq_asset_id r)) dec_zero) (\<lambda>short.
        if short then Inr False
        else
          rbind (purchased_on_margin q s (rq_asset_id r) (rq_quantity r)) (\<lambda>financed.
          if financed then Inr False
          else
            rbind (purchase_cost s (rq_asset_id r) (rq_quantity r) (rq_price r)) (\<lambda>cost.
            rbind (payable s (settlement_currency_for s (rq_asset_id r)) at') (\<lambda>available.
              dec_lt available cost)))))"

text \<open>Units an exchange owes and has not delivered are not sold.\<close>

definition undelivered :: "pipeline \<Rightarrow> string \<Rightarrow> pyfloat \<Rightarrow> string \<Rightarrow> decimal res" where
  "undelivered s asset at' use =
     rfold (\<lambda>total entry.
       case ps_delivery entry of
         None \<Rightarrow> Inr total
       | Some terms \<Rightarrow>
           if ps_asset_id entry = asset \<and> pending_at at' entry \<and> use \<notin> set (py_split CHR '','' terms)
           then dec_add ACCOUNTING_CONTEXT total (ps_quantity entry) else Inr total)
       dec_zero (pf_unsettled (pl_portfolio s))"

definition less_working_sale :: "decimal \<Rightarrow> order \<Rightarrow> decimal res" where
  "less_working_sale held ord =
     (if o_side ord = SELL then dec_sub ACCOUNTING_CONTEXT held (o_remaining ord) else Inr held)"

definition undelivered_refused :: "pipeline \<Rightarrow> order_request \<Rightarrow> pyfloat \<Rightarrow> bool res" where
  "undelivered_refused s r at' =
     (if rq_side r \<noteq> SELL \<or> pf_unsettled (pl_portfolio s) = [] then Inr False
      else
        rbind (undelivered s (rq_asset_id r) at' ''sellable'') (\<lambda>owed.
        rbind (dec_le owed dec_zero) (\<lambda>nothing.
        if nothing then Inr False
        else
          rbind (working_orders s (rq_asset_id r)) (\<lambda>ords.
          rbind (rfold less_working_sale (held_quantity s (rq_asset_id r)) ords) (\<lambda>held.
          rbind (dec_sub ACCOUNTING_CONTEXT held (rq_quantity r)) (\<lambda>after. dec_lt after owed))))))"

definition needs_session_close :: "order_terms \<Rightarrow> bool" where
  "needs_session_close t = (rests t \<and> ot_tif t = DAY \<and> ot_expire t = None)"

definition terms_refused :: "queries \<Rightarrow> pipeline \<Rightarrow> order_request \<Rightarrow> pyfloat \<Rightarrow> bool res" where
  "terms_refused q s r instant =
     (let t = rq_terms r; routing = pc_routing (pl_config s) in
      if (case ot_expire t of None \<Rightarrow> False | Some x \<Rightarrow> flt_le x instant) then Inr True
      else
        rbind (calendar_missing q s (rq_asset_id r)) (\<lambda>missing.
        if missing then Inr True
        else if routing = EXTERNAL then Inr False
        else if routing = ALGORITHMIC \<and> (ot_type t \<notin> {MARKET, LIMIT} \<or> is_auction t \<or> is_immediate t) then Inr True
        else
          rbind (if needs_session_close t
                 then rbind (day_order_close q s (rq_asset_id r) instant) (\<lambda>c. Inr (c = None)) else Inr False) (\<lambda>endless.
            Inr (endless \<or> (is_auction t \<and> \<not> session_bars q s (rq_asset_id r))))))"

section \<open>The risk gate\<close>

definition gate_price :: "pipeline \<Rightarrow> string \<Rightarrow> decimal \<Rightarrow> fx_rates \<Rightarrow> pyfloat \<Rightarrow> decimal res" where
  "gate_price s asset price rates as_of =
     rbind (price_in_base s asset price rates as_of) (\<lambda>p.
     rbind (unit_value s asset p) (\<lambda>v. Inr (copy_abs v)))"

text \<open>The working orders by asset: their signed quantity, and the price the first of them kept.\<close>

definition add_working ::
  "pipeline \<Rightarrow> (string, decimal) od \<times> (string, decimal) od \<Rightarrow> string \<Rightarrow>
   ((string, decimal) od \<times> (string, decimal) od) res" where
  "add_working s st oid = (case st of (quantities, reference) \<Rightarrow>
     rbind (book_find (os_orders (pl_oms s)) oid) (\<lambda>ord.
     rbind (signed_remaining ord) (\<lambda>signed.
     rbind (dec_add ACCOUNTING_CONTEXT (amount_or_zero quantities (o_asset ord)) signed) (\<lambda>t.
     rbind (case map_of (o_metadata ord) REFERENCE_PRICE of
              None \<Rightarrow> Inr reference
            | Some quoted \<Rightarrow>
                rbind (decimal_of_text quoted) (\<lambda>price.
                  Inr (if od_get reference (o_asset ord) = None then od_set (o_asset ord) price reference else reference)))
       (\<lambda>reference'. Inr (od_set (o_asset ord) t quantities, reference'))))))"

definition working_entry ::
  "queries \<Rightarrow> pipeline \<Rightarrow> fx_rates \<Rightarrow> pyfloat \<Rightarrow> (string, decimal) od \<Rightarrow> (string, working_exposure) od \<Rightarrow>
   string \<times> decimal \<Rightarrow> (string, working_exposure) od res" where
  "working_entry q s rates as_of reference working entry = (case entry of (asset, quantity) \<Rightarrow>
     case (case od_get (pl_prices s) asset of Some p \<Rightarrow> Some p | None \<Rightarrow> od_get reference asset) of
       None \<Rightarrow> Inr working
     | Some mark_price \<Rightarrow>
         rbind (gate_price s asset mark_price rates as_of) (\<lambda>unit.
         rbind (dec_lt dec_zero quantity) (\<lambda>buying.
         rbind (power_charge q s rates asset unit as_of buying) (\<lambda>charge.
           Inr (od_set asset \<lparr>we_quantity = quantity, we_price = unit, we_position = held_quantity s asset,
                              we_charge = charge\<rparr> working)))))"

definition working_exposure_of :: "queries \<Rightarrow> pipeline \<Rightarrow> fx_rates \<Rightarrow> pyfloat \<Rightarrow> (string, working_exposure) od res" where
  "working_exposure_of q s rates as_of =
     rbind (rfold (add_working s) ([], []) (os_active (pl_oms s))) (\<lambda>(quantities, reference).
       rfold (working_entry q s rates as_of reference) [] quantities)"

definition evaluate_risk ::
  "queries \<Rightarrow> order_request \<Rightarrow> pyfloat \<Rightarrow> fx_rates \<Rightarrow> pipeline \<Rightarrow> (pipeline \<times> risk_decision) res" where
  "evaluate_risk q r timestamp rates s =
     rbind (gate_price s (rq_asset_id r) (rq_price r) rates timestamp) (\<lambda>price.
     rbind (working_exposure_of q s rates timestamp) (\<lambda>working.
     rbind (gate_buckets q s r price working) (\<lambda>buckets.
     rbind (power_charge q s rates (rq_asset_id r) price timestamp (rq_side r = BUY)) (\<lambda>charge.
     rbind (gate_margin q s rates r timestamp) (\<lambda>margin.
     rbind (evaluate (drawn_id q s 0) (drawn_id q s 1) (drawn_id q s 2) (pl_risk s) r timestamp
              \<lparr>gi_position = held_quantity s (rq_asset_id r), gi_price = Some price, gi_working = working,
               gi_buckets = buckets, gi_charge = charge, gi_margin = margin\<rparr>) (\<lambda>(risk, d).
       Inr (drew 3 (s\<lparr>pl_risk := risk\<rparr>), d)))))))"

section \<open>Submission\<close>

definition oms_order_of :: "order_request \<Rightarrow> pyfloat option \<Rightarrow> order" where
  "oms_order_of r expire =
     \<lparr>o_id = rq_order_id r, o_strategy = rq_strategy_id r, o_asset = rq_asset_id r, o_side = rq_side r,
      o_type = ot_type (rq_terms r), o_status = NEW, o_quantity = rq_quantity r, o_filled = dec_zero,
      o_remaining = rq_quantity r, o_limit = ot_limit (rq_terms r), o_stop = ot_stop (rq_terms r), o_average = dec_zero,
      o_created = rq_timestamp r, o_updated = rq_timestamp r, o_metadata = [(REFERENCE_PRICE, dec_str (rq_price r))],
      o_tif = ot_tif (rq_terms r), o_expire = expire, o_triggered = None\<rparr>"

definition submit_and_accept_order ::
  "queries \<Rightarrow> order_request \<Rightarrow> pyfloat \<Rightarrow> pipeline \<Rightarrow> (pipeline \<times> order) res" where
  "submit_and_accept_order q r timestamp s =
     rbind (if pc_routing (pl_config s) \<noteq> EXTERNAL \<and> needs_session_close (rq_terms r)
            then day_order_close q s (rq_asset_id r) timestamp else Inr (ot_expire (rq_terms r))) (\<lambda>expire.
     let ord = oms_order_of r expire in
     rbind (with_oms (oms_submit (pl_oms s) ord timestamp (drawn_id q s 0)) 1 s) (\<lambda>s1.
     rbind (with_oms (oms_accept (pl_oms s1) (o_id ord) timestamp (drawn_id q s1 0)) 1 s1) (\<lambda>s2.
     rbind (book_find (os_orders (pl_oms s2)) (o_id ord)) (\<lambda>accepted. Inr (s2, accepted)))))"

section \<open>Routing\<close>

definition classify_unpriced :: "pipeline \<Rightarrow> string \<Rightarrow> unpriced_reason" where
  "classify_unpriced s asset =
     (if pc_instruments (pl_config s) = None then NO_PRICE_OBSERVED
      else if listing_of s asset = None then NOT_REGISTERED else REGISTERED_BUT_UNPRICED)"

definition record_unpriced :: "string \<Rightarrow> pyfloat \<Rightarrow> pipeline \<Rightarrow> pipeline" where
  "record_unpriced asset timestamp s =
     (let entry = (case od_get (pl_unpriced s) asset of
            None \<Rightarrow> \<lparr>ua_reason = classify_unpriced s asset, ua_first = timestamp, ua_last = timestamp, ua_occurrences = 1\<rparr>
          | Some old \<Rightarrow> old\<lparr>ua_last := timestamp, ua_occurrences := ua_occurrences old + 1\<rparr>) in
      s\<lparr>pl_unpriced := od_set asset entry (pl_unpriced s)\<rparr>)"

text \<open>The maintenance margin is asked for once, at the first request that increases a position.\<close>

definition margin_refused ::
  "queries \<Rightarrow> fx_rates \<Rightarrow> pyfloat \<Rightarrow> pipeline \<Rightarrow> bool option \<Rightarrow> order_request \<Rightarrow> (bool \<times> bool option) res" where
  "margin_refused q rates instant s asked r =
     rbind (increases s r) (\<lambda>grows_it.
     if \<not> grows_it then Inr (False, asked)
     else
       rbind (case asked of Some b \<Rightarrow> Inr b | None \<Rightarrow> margin_breached q s rates instant) (\<lambda>breached.
       if breached then Inr (True, Some breached)
       else
         rbind (short_of_margin q s rates r instant) (\<lambda>short.
         if short then Inr (True, Some breached)
         else rbind (unborrowable q s r instant) (\<lambda>u. Inr (u, Some breached)))))"

text \<open>The band's edge replaces a limit the venue caps.\<close>

definition banded :: "queries \<Rightarrow> pyfloat \<Rightarrow> pipeline \<Rightarrow> order_request \<Rightarrow> order_request option res" where
  "banded q instant s r =
     rbind (band_limit q s r instant) (\<lambda>answer.
       case answer of
         None \<Rightarrow> Inr None
       | Some None \<Rightarrow> Inr (Some r)
       | Some (Some edge) \<Rightarrow>
           let t = rq_terms r in
           rbind (make_terms (ot_type t) (Some edge) (ot_stop t) (ot_tif t) (ot_expire t)) (\<lambda>t'.
             Inr (Some (r\<lparr>rq_terms := t'\<rparr>))))"

datatype verdict = Admitted | Unpriced_Request | Refused_Settlement | Refused

text \<open>The refusals between the margin and the gate, in their order.\<close>

definition request_verdict :: "queries \<Rightarrow> pyfloat \<Rightarrow> pipeline \<Rightarrow> order_request \<Rightarrow> verdict res" where
  "request_verdict q instant s r =
     rbind (off_grid q s r) (\<lambda>off.
     if off then Inr Refused
     else if od_get (pl_prices s) (rq_asset_id r) = None then Inr Unpriced_Request
     else if settlement_refused s (rq_asset_id r) instant then Inr Refused_Settlement
     else
       rbind (currency_cash_refused q s r instant) (\<lambda>unpayable.
       if unpayable then Inr Refused
       else
         rbind (undelivered_refused s r instant) (\<lambda>owed.
         if owed then Inr Refused
         else rbind (terms_refused q s r instant) (\<lambda>unworkable. Inr (if unworkable then Refused else Admitted)))))"

definition drop_request ::
  "queries \<Rightarrow> pyfloat \<Rightarrow> order_request \<Rightarrow> bool option \<Rightarrow> routed \<Rightarrow> pipeline \<Rightarrow> (pipeline \<times> routed \<times> bool option) res" where
  "drop_request q instant r asked out s =
     rbind (retire_dropped_request q (rq_order_id r) instant s) (\<lambda>s'.
       Inr (s', out\<lparr>rt_dropped := rt_dropped out @ [r]\<rparr>, asked))"

text \<open>An admitted request: the gate, the OMS and, in a simulated run, the first attempt to fill.\<close>

definition place_request ::
  "queries \<Rightarrow> market_event \<Rightarrow> pyfloat \<Rightarrow> fill_policy \<Rightarrow> fx_rates \<Rightarrow> bool \<Rightarrow> order_request \<Rightarrow> bool option \<Rightarrow> routed \<Rightarrow>
   pipeline \<Rightarrow> (pipeline \<times> routed \<times> bool option) res" where
  "place_request q e instant policy rates rest r asked out s =
     rbind (evaluate_risk q r instant rates s) (\<lambda>(s1, d).
     let out1 = out\<lparr>rt_decisions := rt_decisions out @ [d]\<rparr> in
     if \<not> approved d then drop_request q instant r asked out1 s1
     else
       rbind (submit_and_accept_order q r instant s1) (\<lambda>(s2, ord).
       if pc_routing (pl_config s2) \<noteq> SIMULATED \<or> rest \<or> pc_fill_timing (pl_config s2) = NEXT_EVENT
       then Inr (s2, out1\<lparr>rt_orders := rt_orders out1 @ [ord]\<rparr>, asked)
       else
         rbind (work_order q ord e policy rates True None s2) (\<lambda>(s3, reports, fills, trades).
           Inr (s3, out1\<lparr>rt_orders := rt_orders out1 @ [ord], rt_reports := rt_reports out1 @ reports,
                         rt_fills := rt_fills out1 @ fills, rt_trades := rt_trades out1 @ trades\<rparr>, asked))))"

definition route_one ::
  "queries \<Rightarrow> market_event \<Rightarrow> pyfloat \<Rightarrow> fill_policy \<Rightarrow> fx_rates \<Rightarrow> bool \<Rightarrow> pipeline \<times> routed \<times> bool option \<Rightarrow>
   order_request \<Rightarrow> (pipeline \<times> routed \<times> bool option) res" where
  "route_one q e instant policy rates rest st r0 =
     (case st of (s, out, asked) \<Rightarrow>
        rbind (margin_refused q rates instant s asked r0) (\<lambda>(refused, asked').
        if refused then drop_request q instant r0 asked' out s
        else
          rbind (banded q instant s r0) (\<lambda>capped.
            case capped of
              None \<Rightarrow> drop_request q instant r0 asked' out s
            | Some r \<Rightarrow>
                rbind (request_verdict q instant s r) (\<lambda>v.
                  case v of
                    Refused \<Rightarrow> drop_request q instant r asked' out s
                  | Unpriced_Request \<Rightarrow>
                      drop_request q instant r asked' (out\<lparr>rt_unpriced := rt_unpriced out @ [r]\<rparr>)
                        (record_unpriced (rq_asset_id r) instant s)
                  | Refused_Settlement \<Rightarrow>
                      drop_request q instant r asked' (out\<lparr>rt_refusals := rt_refusals out @ [rq_asset_id r]\<rparr>) s
                  | Admitted \<Rightarrow> place_request q e instant policy rates rest r asked' out s))))"

definition unpriced_intents :: "intent list \<Rightarrow> order_request list \<Rightarrow> pipeline \<Rightarrow> string list" where
  "unpriced_intents intents requests s =
     filter (\<lambda>asset. od_get (pl_prices s) asset = None \<and> asset \<notin> set (map rq_asset_id requests)) (intent_assets intents)"

definition route_requests ::
  "queries \<Rightarrow> market_event \<Rightarrow> pyfloat option \<Rightarrow> intent list \<Rightarrow> order_request list \<Rightarrow> fill_policy \<Rightarrow> fx_rates \<Rightarrow> bool \<Rightarrow>
   pipeline \<Rightarrow> (pipeline \<times> routed) res" where
  "route_requests q e at' intents requests policy rates rest s =
     (let instant = (case at' of None \<Rightarrow> event_time e | Some t \<Rightarrow> t);
          s0 = fold (\<lambda>asset. record_unpriced asset instant) (unpriced_intents intents requests s) s in
      rbind (rfold (route_one q e instant policy rates rest) (s0, no_routing, None) requests) (\<lambda>(s', out, asked).
        Inr (s', out)))"

section \<open>A market event\<close>

definition all_positive :: "decimal list \<Rightarrow> bool res" where
  "all_positive shown = rfold (\<lambda>ok p. if \<not> ok then Inr False else dec_le dec_zero p) True shown"

text \<open>The asset, the mark and the prices a record shows, and its instant.\<close>

definition record_prices :: "market_event \<Rightarrow> (string \<times> decimal \<times> decimal list \<times> pyfloat) option res" where
  "record_prices e =
     (case e of
        QuoteReceived t q \<Rightarrow> rbind (quote_mid q) (\<lambda>mid. Inr (Some (q_asset q, mid, [q_bid q, q_ask q], q_time q)))
      | BarClosed t b \<Rightarrow>
          Inr (Some (bar_asset b, bar_close b, [bar_open b, bar_high b, bar_low b, bar_close b], bar_time b))
      | TickReceived t k \<Rightarrow> Inr (Some (tk_asset k, tk_price k, [tk_price k], tk_time k))
      | _ \<Rightarrow> Inr None)"

definition price_refused :: "market_event \<Rightarrow> pipeline \<Rightarrow> bool res" where
  "price_refused e s =
     rbind (record_prices e) (\<lambda>shown.
       case shown of
         None \<Rightarrow> Inr False
       | Some (asset, mid, prices, instant) \<Rightarrow>
           if (case listing_of s asset of None \<Rightarrow> False
               | Some l \<Rightarrow> (case li_last_trade_at l of None \<Rightarrow> False | Some t \<Rightarrow> flt_lt t instant)) then Inr True
           else
             rbind (dec_lt dec_zero mid) (\<lambda>positive.
             rbind (if positive then all_positive prices else Inr False) (\<lambda>fine.
               if fine then Inr False
               else Inr (case economics_of s asset of None \<Rightarrow> True | Some e \<Rightarrow> \<not> allows_negative_prices e))))"

text \<open>The event's price is recorded, the positions it changes are marked, and the risk state follows.\<close>

definition mark_event :: "queries \<Rightarrow> market_event \<Rightarrow> fx_rates \<Rightarrow> pipeline \<Rightarrow> pipeline res" where
  "mark_event q e rates s =
     rbind (price_refused e s) (\<lambda>refused.
     if refused then Inl MarketValidationError
     else
       rbind (event_price e) (\<lambda>update.
       let prices = prices_with_event (pl_prices s) update in
       rbind (mark_changed (drawn_id q s) prices (event_time e) (map_option fst update) (pl_portfolio s)) (\<lambda>pf.
         sync_risk q rates (event_time e) pf
           (drew (length (pf_ledger pf) - length (pf_ledger (pl_portfolio s))) (s\<lparr>pl_prices := prices\<rparr>)))))"

text \<open>What works in the event's asset is worked before the strategies see it.\<close>

definition open_event ::
  "queries \<Rightarrow> market_event \<Rightarrow> fill_policy \<Rightarrow> fx_rates \<Rightarrow> queue_book option \<Rightarrow> pipeline \<Rightarrow>
   (pipeline \<times> routed \<times> queue_book option) res" where
  "open_event q e policy rates queue s =
     rbind (mark_event q e rates s) (\<lambda>s1.
     rbind (event_price e) (\<lambda>update.
       case update of
         None \<Rightarrow> Inr (s1, no_routing, queue)
       | Some (asset, price) \<Rightarrow>
           if pc_routing (pl_config s1) = SIMULATED \<and> working_orders_for (pl_oms s1) asset \<noteq> []
           then fill_working_orders q e asset policy rates queue s1
           else Inr (s1, no_routing, queue)))"

text \<open>The intents the strategies answered with, allocated and routed.\<close>

definition route_intents ::
  "queries \<Rightarrow> (nat \<Rightarrow> string) \<Rightarrow> (nat \<Rightarrow> string) \<Rightarrow> market_event \<Rightarrow> intent list \<Rightarrow> fill_policy \<Rightarrow> fx_rates \<Rightarrow> pipeline \<Rightarrow>
   (pipeline \<times> routed) res" where
  "route_intents q eids oids e intents policy rates s =
     rbind (allocate_intents eids oids intents rates (event_time e) s) (\<lambda>(s1, requests).
       route_requests q e None intents requests policy rates False s1)"

section \<open>Views\<close>

text \<open>The live orders by the strategies that asked for them: driven by the contributions.\<close>

definition order_shares_by_strategy :: "pipeline \<Rightarrow> (string, (order \<times> decimal) list) od res" where
  "order_shares_by_strategy s =
     rfold (\<lambda>collected (oid, cs).
       if \<not> book_contains (os_orders (pl_oms s)) oid then Inr collected
       else
         rbind (book_find (os_orders (pl_oms s)) oid) (\<lambda>ord.
           Inr (if \<not> is_open ord then collected
                else fold (\<lambda>c acc. od_set (contributor c)
                       ((case od_get acc (contributor c) of None \<Rightarrow> [] | Some xs \<Rightarrow> xs) @ [(ord, contributed c)]) acc)
                     cs collected)))
       [] (al_contributions (pl_allocation s))"

end
