(* ===== verification/Pipeline_Steps.thy ===== *)
theory Pipeline_Steps
  imports Pipeline_Routing
begin

text \<open>
  What working an order is made of. Everything the pipeline does to an order at work is one of five
  moves: the order ends without a fill, a stop is triggered, the venue answers without a report, a
  report is recorded and applied, or nothing. A relation between the states before and after that these
  moves satisfy, that nothing leaves unrelated and that composes, holds of a whole event; the locale is
  that argument, and each property of the pipeline is an interpretation of it.
\<close>

section \<open>The moves\<close>

definition end_by :: "queries \<Rightarrow> string \<Rightarrow> order_op \<Rightarrow> string \<Rightarrow> pyfloat \<Rightarrow> pipeline \<Rightarrow> pipeline res" where
  "end_by q oid op reason t s =
     rbind (with_oms (oms_step (Apply oid op reason (drawn_id q s 0)) (pl_oms s)) 1 s) (release_if_terminal q oid t)"

definition ends_unfilled :: "pyfloat \<Rightarrow> order_op \<Rightarrow> bool" where
  "ends_unfilled t op = (op \<in> {Cancel t, Expire t, Reject t})"

lemma end_unfilled_by: "end_unfilled q oid t s = end_by q oid (Cancel t) [] t s"
  by (simp add: end_unfilled_def end_by_def)

lemma expire_order_by: "expire_order q oid t s = end_by q oid (Expire t) [] t s"
  by (simp add: expire_order_def end_by_def)

definition closing_op :: "fill_status \<Rightarrow> pyfloat \<Rightarrow> order_op" where
  "closing_op st t = (case st of FILL_EXPIRED \<Rightarrow> Expire t | NO_FILL \<Rightarrow> Cancel t | _ \<Rightarrow> Reject t)"

lemma close_unfilled_by:
  "rbind (close_unfilled_order q oid st t s) (release_if_terminal q oid t) = end_by q oid (closing_op st t) VENUE_REJECTED t s"
  by (cases st) (simp_all add: close_unfilled_order_def end_by_def closing_op_def)

lemma closing_op_ends: "ends_unfilled t (closing_op st t)"
  by (cases st) (simp_all add: closing_op_def ends_unfilled_def)

definition outcome_op :: "order_status \<Rightarrow> pyfloat \<Rightarrow> order_op" where
  "outcome_op st t = (case st of CANCELLED \<Rightarrow> Cancel t | EXPIRED \<Rightarrow> Expire t | _ \<Rightarrow> Reject t)"

lemma terminal_outcome_by:
  assumes "apply_terminal_outcome q oid outcome t reason s = Inr s'"
  shows "end_by q oid (outcome_op outcome t) reason t s = Inr s'"
  using assms
  by (cases outcome) (simp_all add: apply_terminal_outcome_def terminate_order_def end_by_def outcome_op_def)

lemma outcome_op_ends: "ends_unfilled t (outcome_op st t)"
  by (cases st) (simp_all add: outcome_op_def ends_unfilled_def)

lemma with_oms_Inr: "with_oms m n s = Inr s' \<longleftrightarrow> (\<exists>o'. m = Inr o' \<and> s' = drew n (s\<lparr>pl_oms := o'\<rparr>))"
  by (auto simp: with_oms_def rbind_eq_Inr)

lemma drew_fields [simp]:
  "pl_oms (drew n s) = pl_oms s" "pl_allocation (drew n s) = pl_allocation s" "pl_risk (drew n s) = pl_risk s"
  "pl_execution (drew n s) = pl_execution s" "pl_portfolio (drew n s) = pl_portfolio s"
  "pl_config (drew n s) = pl_config s" "pl_fills (drew n s) = pl_fills s" "pl_trades (drew n s) = pl_trades s"
  "pl_records (drew n s) = pl_records s" "pl_prices (drew n s) = pl_prices s" "pl_unpriced (drew n s) = pl_unpriced s"
  by (simp_all add: drew_def)

section \<open>What each function leaves alone\<close>

lemma sync_risk_fields:
  assumes "sync_risk q rates t pf s = Inr s'"
  shows "\<exists>risk. s' = drew 2 (s\<lparr>pl_portfolio := pf, pl_risk := risk\<rparr>)"
  using assms by (auto simp: sync_risk_def Let_def rbind_eq_Inr split: prod.splits if_splits)

lemma release_held_fields:
  assumes "release_held q oid t s = Inr s'"
  shows "\<exists>n a. s' = drew n (s\<lparr>pl_allocation := a\<rparr>) \<and> al_contributions a = al_contributions (pl_allocation s) \<and>
    strategy_positions a = strategy_positions (pl_allocation s) \<and>
    reservations a = od_del oid (reservations (pl_allocation s))"
proof (cases "od_get (reservations (pl_allocation s)) oid")
  case None
  then have "od_del oid (reservations (pl_allocation s)) = reservations (pl_allocation s)"
    by (auto simp: od_del_def od_get_None od_keys_def intro!: filter_True)
  with None assms show ?thesis
    by (intro exI [of _ 0] exI [of _ "pl_allocation s"]) (simp add: release_held_def drew_def)
next
  case (Some x)
  with assms show ?thesis
    by (auto simp: release_held_def release_reservation_def rbind_eq_Inr intro!: exI [of _ 1])
qed

lemma retire_fields:
  assumes "retire_contributions a oid = Inr a'"
  shows "al_contributions a' = od_del oid (al_contributions a) \<and> reservations a' = reservations a \<and>
    strategy_positions a' = strategy_positions a"
proof (cases "od_get (al_contributions a) oid")
  case None
  then have "od_del oid (al_contributions a) = al_contributions a"
    by (auto simp: od_del_def od_get_None od_keys_def intro!: filter_True)
  with None assms show ?thesis by (simp add: retire_contributions_def)
next
  case (Some cs)
  with assms show ?thesis by (auto simp: retire_contributions_def rbind_eq_Inr)
qed

lemma retire_dropped_fields:
  assumes "retire_dropped_request q oid t s = Inr s'"
  shows "\<exists>n a. s' = drew n (s\<lparr>pl_allocation := a\<rparr>) \<and>
    al_contributions a = od_del oid (al_contributions (pl_allocation s)) \<and>
    strategy_positions a = strategy_positions (pl_allocation s) \<and>
    reservations a = od_del oid (reservations (pl_allocation s))"
proof -
  from assms obtain s1 a where h: "release_held q oid t s = Inr s1" and a: "retire_contributions (pl_allocation s1) oid = Inr a"
    and s': "s' = s1\<lparr>pl_allocation := a\<rparr>" by (auto simp: retire_dropped_request_def rbind_eq_Inr)
  from release_held_fields [OF h] obtain n b where s1: "s1 = drew n (s\<lparr>pl_allocation := b\<rparr>)"
    and b: "al_contributions b = al_contributions (pl_allocation s)"
      "strategy_positions b = strategy_positions (pl_allocation s)"
      "reservations b = od_del oid (reservations (pl_allocation s))" by blast
  from retire_fields [OF a] b s1 have "al_contributions a = od_del oid (al_contributions (pl_allocation s)) \<and>
    strategy_positions a = strategy_positions (pl_allocation s) \<and>
    reservations a = od_del oid (reservations (pl_allocation s))" by simp
  moreover have "s' = drew n (s\<lparr>pl_allocation := a\<rparr>)" by (simp add: s' s1 drew_def)
  ultimately show ?thesis by blast
qed

lemma release_if_terminal_cases:
  assumes "release_if_terminal q oid t s = Inr s'"
  obtains "s' = s"
      "\<And>ord. od_get (bk_orders (os_orders (pl_oms s))) oid = Some ord \<Longrightarrow> is_open ord"
    | "retire_dropped_request q oid t s = Inr s'"
      "\<exists>ord. od_get (bk_orders (os_orders (pl_oms s))) oid = Some ord \<and> \<not> is_open ord"
proof (cases "od_get (bk_orders (os_orders (pl_oms s))) oid")
  case None
  with assms show ?thesis by (intro that(1)) (simp_all add: release_if_terminal_def book_contains_def)
next
  case (Some ord)
  show ?thesis
  proof (cases "is_open ord")
    case True
    with Some assms show ?thesis
      by (intro that(1)) (simp_all add: release_if_terminal_def book_contains_def book_find_def)
  next
    case False
    with Some assms show ?thesis
      by (intro that(2)) (simp_all add: release_if_terminal_def book_contains_def book_find_def)
  qed
qed

section \<open>The argument\<close>

locale order_relation =
  fixes q :: queries and R :: "string \<Rightarrow> pipeline \<Rightarrow> pipeline \<Rightarrow> bool"
  assumes stays: "R oid s s"
    and composes: "R oid s s' \<Longrightarrow> R oid s' s'' \<Longrightarrow> R oid s s''"
    and keeps_oms: "R oid s s' \<Longrightarrow> oms_ok (pl_oms s) \<Longrightarrow> oms_ok (pl_oms s')"
    and ended: "oms_ok (pl_oms s) \<Longrightarrow> ends_unfilled t op \<Longrightarrow> end_by q oid op reason t s = Inr s' \<Longrightarrow> R oid s s'"
    and triggered: "oms_ok (pl_oms s) \<Longrightarrow> oms_trigger (pl_oms s) oid t = Inr o' \<Longrightarrow> R oid s (drew 0 (s\<lparr>pl_oms := o'\<rparr>))"
    and answered: "oms_ok (pl_oms s) \<Longrightarrow> execute_order q ord d e price passive s = Inr (s', []) \<Longrightarrow> R (o_id ord) s s'"
    and filled: "oms_ok (pl_oms s) \<Longrightarrow> execute_order q ord d e price passive s = Inr (s1, [r]) \<Longrightarrow>
      apply_reports q ord rates [r] s1 = Inr (s', fills, trades) \<Longrightarrow> R (o_id ord) s s'"

text \<open>At most one report comes back, and it is a fill of the order at work.\<close>

lemma execute_order_reports:
  assumes "execute_order q ord d e price passive s = Inr (s', reports)"
  shows "\<exists>n x. s' = drew n (s\<lparr>pl_execution := x\<rparr>) \<and>
    (reports = [] \<and> ex_history x = ex_history (pl_execution s) \<and> ex_reports x = ex_reports (pl_execution s) \<or>
     (\<exists>r. reports = [r] \<and> er_order_id r = o_id ord \<and> er_asset_id r = o_asset ord \<and> er_status r = fd_status d \<and>
       er_status r \<in> {FULL_FILL, PARTIAL_FILL} \<and> er_currency r = settlement_currency_for s (o_asset ord) \<and>
       ex_history x = ex_history (pl_execution s) @ [r] \<and>
       ex_reports x = od_set (er_execution_id r) r (ex_reports (pl_execution s))))"
proof -
  from assms obtain i x where i: "instruction_of s ord = Inr i"
    and sim: "simulate (drawn_id q s) (latency_draw q) ACCOUNTING_CONTEXT (pl_execution s) (pc_simulator (pl_config s)) i
      (decided_quantity ord d) price (event_time e) (fd_status d) (shown_by e (o_side ord)) passive = Inr x"
    and s': "s' = drew (if fd_status d = NO_FILL then 2 else 3) (s\<lparr>pl_execution := x\<rparr>)"
    and rs: "reports = drop (length (ex_history (pl_execution s))) (ex_history x)"
    by (auto simp: execute_order_def rbind_eq_Inr)
  have ids: "ins_order_id i = o_id ord" "ins_asset_id i = o_asset ord" "ins_currency i = settlement_currency_for s (o_asset ord)"
    using i by (auto simp: instruction_of_def Let_def rbind_eq_Inr)
  from sim obtain r where r: "simulate_fill (drawn_id q s 1) (latency_draw q) (pc_simulator (pl_config s)) i
      (decided_quantity ord d) price (event_time e) (fd_status d) (shown_by e (o_side ord)) passive = Inr r"
    by (auto simp: simulate_def Let_def rbind_eq_Inr)
  have rf: "er_order_id r = o_id ord" "er_asset_id r = o_asset ord" "er_status r = fd_status d"
    "er_currency r = settlement_currency_for s (o_asset ord)"
    using r by (auto simp: simulate_fill_def Let_def rbind_eq_Inr ids)
  show ?thesis
  proof (intro exI conjI)
    show "s' = drew (if fd_status d = NO_FILL then 2 else 3) (s\<lparr>pl_execution := x\<rparr>)" by (rule s')
    show "reports = [] \<and> ex_history x = ex_history (pl_execution s) \<and> ex_reports x = ex_reports (pl_execution s) \<or>
     (\<exists>r. reports = [r] \<and> er_order_id r = o_id ord \<and> er_asset_id r = o_asset ord \<and> er_status r = fd_status d \<and>
       er_status r \<in> {FULL_FILL, PARTIAL_FILL} \<and> er_currency r = settlement_currency_for s (o_asset ord) \<and>
       ex_history x = ex_history (pl_execution s) @ [r] \<and>
       ex_reports x = od_set (er_execution_id r) r (ex_reports (pl_execution s)))"
    proof (cases "fd_status d")
      case FULL_FILL
      then have "x = execute (drawn_id q s 2) (execution_note (pl_execution s) (ExecutionSubmitted (drawn_id q s 0)
          (event_time e) (ins_order_id i) (ins_asset_id i) (ins_quantity i) (ins_price i))) r"
        using sim r by (simp add: simulate_def Let_def)
      then have "ex_history x = ex_history (pl_execution s) @ [r]"
        "ex_reports x = od_set (er_execution_id r) r (ex_reports (pl_execution s))"
        by (simp_all add: execute_def record_report_def execution_note_def)
      with rs rf FULL_FILL show ?thesis by simp
    next
      case PARTIAL_FILL
      with sim r obtain left where "x = partial_fill (drawn_id q s 2) (execution_note (pl_execution s) (ExecutionSubmitted (drawn_id q s 0)
          (event_time e) (ins_order_id i) (ins_asset_id i) (ins_quantity i) (ins_price i))) r left"
        by (auto simp: simulate_def Let_def rbind_eq_Inr)
      then have "ex_history x = ex_history (pl_execution s) @ [r]"
        "ex_reports x = od_set (er_execution_id r) r (ex_reports (pl_execution s))"
        by (simp_all add: partial_fill_def record_report_def execution_note_def)
      with rs rf PARTIAL_FILL show ?thesis by simp
    qed (use sim r rs in \<open>auto simp: simulate_def Let_def execution_note_def\<close>)
  qed
qed

lemma apply_no_reports: "apply_reports q ord rates [] s = Inr (s, [], [])"
  by (simp add: apply_reports_def)

lemma withdraw_by:
  assumes "withdraw_partial_remainder q oid t s = Inr s'"
  shows "s' = s \<or> end_by q oid (Cancel t) [] t s = Inr s'"
  using assms by (auto simp: withdraw_partial_remainder_def end_by_def rbind_eq_Inr split: if_splits)

lemma triggered_id:
  assumes "oms_ok o'" and "book_find (os_orders o') oid = Inr ord"
  shows "o_id ord = oid"
  using assms book_get_id [OF oms_okD(1)] by (simp add: book_find_iff)

context order_relation
begin

lemma related_then:
  assumes "R oid s s'" and "oms_ok (pl_oms s)" and "oms_ok (pl_oms s') \<Longrightarrow> R oid s' s''"
  shows "R oid s s''"
  using assms composes keeps_oms by blast

lemma withdrawn:
  assumes "oms_ok (pl_oms s)" and "withdraw_partial_remainder q oid t s = Inr s'"
  shows "R oid s s'"
  using withdraw_by [OF assms(2)] stays ended [OF assms(1), of t "Cancel t"] by (auto simp: ends_unfilled_def)

lemma settled:
  assumes ok: "oms_ok (pl_oms s)" and ex: "execute_order q ord d e price passive s = Inr (s1, reports)"
    and st: "settle_reports q ord d t rates one_shot (s1, reports) = Inr (s', rs, fills, trades)"
  shows "R (o_id ord) s s'"
proof -
  from st obtain s2 s3 fs ts where
    two: "(if reports = [] \<and> fd_status d \<in> {FILL_REJECTED, FILL_EXPIRED, NO_FILL}
           then rbind (close_unfilled_order q (o_id ord) (fd_status d) t s1) (release_if_terminal q (o_id ord) t)
           else Inr s1) = Inr s2"
    and three: "apply_reports q ord rates reports s2 = Inr (s3, fs, ts)"
    and last: "(if one_shot then withdraw_partial_remainder q (o_id ord) t s3 else Inr s3) = Inr s'"
    by (auto simp only: settle_reports_def rbind_eq_Inr split: prod.splits) auto
  have "R (o_id ord) s s3"
  proof (cases "reports = []")
    case True
    then have "R (o_id ord) s s1" using answered [OF ok] ex by blast
    moreover have "R (o_id ord) s1 s2" if "oms_ok (pl_oms s1)"
      using two that ended [OF that closing_op_ends] stays by (auto simp: close_unfilled_by split: if_splits)
    moreover have "s3 = s2" using three True by (simp add: apply_no_reports)
    ultimately show ?thesis using related_then [OF _ ok] by blast
  next
    case False
    with execute_order_reports [OF ex] obtain r where "reports = [r]" by auto
    with two three have "apply_reports q ord rates [r] s1 = Inr (s3, fs, ts)" by simp
    with filled [OF ok] ex \<open>reports = [r]\<close> show ?thesis by blast
  qed
  then show ?thesis
    by (rule related_then [OF _ ok]) (use last withdrawn stays in \<open>auto split: if_splits\<close>)
qed

lemma gives_up:
  assumes "oms_ok (pl_oms s)"
    and "rbind (if ends then end_unfilled q oid t s else Inr s) (\<lambda>s'. Inr (nothing_done s')) = Inr (s', rs, fs, ts)"
  shows "R oid s s'"
  using assms(2) stays ended [OF assms(1), of t "Cancel t"]
  by (auto simp: rbind_eq_Inr nothing_done_def end_unfilled_by ends_unfilled_def split: if_splits)

lemma expires:
  assumes "oms_ok (pl_oms s)"
    and "rbind (expire_order q oid t s) (\<lambda>s'. Inr (nothing_done s')) = Inr (s', rs, fs, ts)"
  shows "R oid s s'"
  using assms(2) ended [OF assms(1), of t "Expire t"]
  by (auto simp: rbind_eq_Inr nothing_done_def expire_order_by ends_unfilled_def)

lemma at_market:
  assumes ok: "oms_ok (pl_oms s)" and f: "fill_at_market q ord e policy rates p s = Inr (s', rs, fs, ts)"
  shows "R (o_id ord) s s'"
proof -
  from f obtain base blocked where
    f1: "(if blocked then Inr (nothing_done s)
     else
       rbind (decide_fill policy ord e base (whole_units s)) (\<lambda>d.
       rbind (kills ord d) (\<lambda>killed.
       if killed then rbind (end_unfilled q (o_id ord) (event_time e) s) (\<lambda>s'. Inr (nothing_done s'))
       else
         rbind (execute_order q ord d e base False s) (settle_reports q ord d (event_time e) rates True)))) = Inr (s', rs, fs, ts)"
    by (auto simp only: fill_at_market_def rbind_eq_Inr)
  show ?thesis
  proof (cases blocked)
    case True
    with f1 stays show ?thesis by (simp add: nothing_done_def)
  next
    case False
    with f1 obtain d killed where
      f2: "(if killed then rbind (end_unfilled q (o_id ord) (event_time e) s) (\<lambda>s'. Inr (nothing_done s'))
       else
         rbind (execute_order q ord d e base False s) (settle_reports q ord d (event_time e) rates True)) = Inr (s', rs, fs, ts)"
      by (auto simp only: rbind_eq_Inr if_False)
    show ?thesis
    proof (cases killed)
      case True
      with f2 show ?thesis using gives_up [OF ok, of True] by simp
    next
      case False
      with f2 obtain s1 reports where "execute_order q ord d e base False s = Inr (s1, reports)"
        "settle_reports q ord d (event_time e) rates True (s1, reports) = Inr (s', rs, fs, ts)"
        by (auto simp: rbind_eq_Inr)
      then show ?thesis by (rule settled [OF ok])
    qed
  qed
qed

lemma resting:
  assumes ok: "oms_ok (pl_oms s)"
    and f: "work_resting q ord e policy rates price passive one_shot cap s = Inr (s', rs, fs, ts)"
  shows "R (o_id ord) s s'"
proof -
  let ?up = "\<lambda>ends. rbind (if ends then end_unfilled q (o_id ord) (event_time e) s else Inr s) (\<lambda>s'. Inr (nothing_done s'))"
  from f obtain blocked where
    f1: "(if blocked then ?up one_shot
      else
        rbind (rbind (decide_fill policy ord e price (whole_units s)) (\<lambda>d.
                 case cap of None \<Rightarrow> Inr d | Some c \<Rightarrow> within_queue d ord c (whole_units s))) (\<lambda>d.
        rbind (kills ord d) (\<lambda>killed.
        if killed then ?up True
        else if fd_status d = NO_FILL then ?up one_shot
        else rbind (execute_order q ord d e price passive s) (settle_reports q ord d (event_time e) rates one_shot))))
      = Inr (s', rs, fs, ts)"
    by (auto simp only: work_resting_def rbind_eq_Inr Let_def)
  show ?thesis
  proof (cases blocked)
    case True
    with f1 have "?up one_shot = Inr (s', rs, fs, ts)" by (simp only: if_True)
    then show ?thesis by (rule gives_up [OF ok])
  next
    case False
    with f1 obtain d killed where
      f2: "(if killed then ?up True
        else if fd_status d = NO_FILL then ?up one_shot
        else rbind (execute_order q ord d e price passive s) (settle_reports q ord d (event_time e) rates one_shot))
        = Inr (s', rs, fs, ts)"
      by (auto simp only: rbind_eq_Inr if_False)
    then consider "?up True = Inr (s', rs, fs, ts)" | "?up one_shot = Inr (s', rs, fs, ts)"
      | "rbind (execute_order q ord d e price passive s) (settle_reports q ord d (event_time e) rates one_shot)
           = Inr (s', rs, fs, ts)"
      by (auto simp only: split: if_splits)
    then show ?thesis
    proof cases
      case 1 then show ?thesis by (rule gives_up [OF ok])
    next
      case 2 then show ?thesis by (rule gives_up [OF ok])
    next
      case 3
      then obtain s1 reports where "execute_order q ord d e price passive s = Inr (s1, reports)"
        "settle_reports q ord d (event_time e) rates one_shot (s1, reports) = Inr (s', rs, fs, ts)"
        by (auto simp: rbind_eq_Inr)
      then show ?thesis by (rule settled [OF ok])
    qed
  qed
qed

lemma auction:
  assumes ok: "oms_ok (pl_oms s)" and f: "work_auction q ord e policy rates arriving s = Inr (s', rs, fs, ts)"
  shows "R (o_id ord) s s'"
proof (cases "if arriving then None else session_bar e (o_asset ord)")
  case None
  with f stays show ?thesis by (simp add: work_auction_def nothing_done_def)
next
  case (Some b)
  let ?p = "if o_tif ord = OPG then bar_open b else bar_close b"
  from f Some obtain admitted where
    "(if \<not> admitted then rbind (expire_order q (o_id ord) (event_time e) s) (\<lambda>s'. Inr (nothing_done s'))
      else work_resting q ord e policy rates ?p True True None s) = Inr (s', rs, fs, ts)"
    by (auto simp only: work_auction_def rbind_eq_Inr Let_def option.case)
  then show ?thesis using expires [OF ok] resting [OF ok] by (cases admitted) (simp_all only: if_True if_False simp_thms)
qed

lemma taking:
  assumes ok: "oms_ok (pl_oms s)" and f: "take_within_limit q ord e policy rates base one_shot s = Inr (s', rs, fs, ts)"
  shows "R (o_id ord) s s'"
proof -
  from f obtain admitted where
    "(if admitted then work_resting q ord e policy rates base False one_shot None s
       else rbind (if one_shot then end_unfilled q (o_id ord) (event_time e) s else Inr s) (\<lambda>s'. Inr (nothing_done s')))
      = Inr (s', rs, fs, ts)"
    by (auto simp only: take_within_limit_def rbind_eq_Inr)
  then show ?thesis using gives_up [OF ok] resting [OF ok] by (cases admitted) (simp_all only: if_True if_False)
qed

lemma at_limit:
  assumes ok: "oms_ok (pl_oms s)" and f: "work_limit q ord e policy rates one_shot turn s = Inr (s', rs, fs, ts)"
  shows "R (o_id ord) s s'"
proof -
  from f obtain answer where
    f1: "(case answer of
         None \<Rightarrow> rbind (if one_shot then end_unfilled q (o_id ord) (event_time e) s else Inr s) (\<lambda>s'. Inr (nothing_done s'))
       | Some price \<Rightarrow>
           work_resting q ord e policy rates price True one_shot (case turn of None \<Rightarrow> None | Some t \<Rightarrow> qt_eligible t) s)
      = Inr (s', rs, fs, ts)"
    unfolding work_limit_def rbind_eq_Inr by blast
  show ?thesis
  proof (cases answer)
    case None
    with f1 show ?thesis using gives_up [OF ok] by (simp only: option.case)
  next
    case (Some price)
    with f1 show ?thesis using resting [OF ok] by (simp only: option.case)
  qed
qed

lemma stopped:
  assumes ok: "oms_ok (pl_oms s)" and f: "work_stop q ord e policy rates m arriving one_shot s = Inr (s', rs, fs, ts)"
  shows "R (o_id ord) s s'"
proof -
  from f obtain reached where
    f1: "(case reached of
         None \<Rightarrow> rbind (if one_shot then end_unfilled q (o_id ord) (event_time e) s else Inr s) (\<lambda>s'. Inr (nothing_done s'))
       | Some price \<Rightarrow>
           if o_type ord = STOP then fill_at_market q ord e policy rates (Some price) s
           else
             rbind (with_oms (oms_trigger (pl_oms s) (o_id ord) (event_time e)) 0 s) (\<lambda>s'.
             rbind (book_find (os_orders (pl_oms s')) (o_id ord)) (\<lambda>ord'.
               take_within_limit q ord' e policy rates price one_shot s'))) = Inr (s', rs, fs, ts)"
    unfolding work_stop_def rbind_eq_Inr by blast
  show ?thesis
  proof (cases reached)
    case None
    with f1 show ?thesis using gives_up [OF ok] by (simp only: option.case)
  next
    case (Some price)
    show ?thesis
    proof (cases "o_type ord = STOP")
      case True
      with f1 Some show ?thesis using at_market [OF ok] by (simp only: option.case refl if_True)
    next
      case False
      with f1 Some obtain o' ord' where tr: "oms_trigger (pl_oms s) (o_id ord) (event_time e) = Inr o'"
        and find: "book_find (os_orders o') (o_id ord) = Inr ord'"
        and go: "take_within_limit q ord' e policy rates price one_shot (drew 0 (s\<lparr>pl_oms := o'\<rparr>)) = Inr (s', rs, fs, ts)"
        by (auto simp: rbind_eq_Inr with_oms_Inr)
      from triggered [OF ok tr] show ?thesis
      proof (rule related_then [OF _ ok])
        assume ok': "oms_ok (pl_oms (drew 0 (s\<lparr>pl_oms := o'\<rparr>)))"
        from triggered_id [OF _ find] ok' have "o_id ord' = o_id ord" by simp
        with taking [OF ok' go] show "R (o_id ord) (drew 0 (s\<lparr>pl_oms := o'\<rparr>)) s'" by simp
      qed
    qed
  qed
qed

lemma worked:
  assumes ok: "oms_ok (pl_oms s)" and f: "work_order q ord e policy rates arriving turn s = Inr (s', rs, fs, ts)"
  shows "R (o_id ord) s s'"
proof -
  from f obtain terms where
    f1: "(if (case o_expire ord of None \<Rightarrow> False | Some t \<Rightarrow> flt_le t (event_time e))
    then rbind (expire_order q (o_id ord) (event_time e) s) (\<lambda>s'. Inr (nothing_done s'))
    else
       rbind (price_known s (o_asset ord)) (\<lambda>market_price'.
       rbind (venue_blocks q s (o_asset ord) (event_time e) market_price') (\<lambda>blocked.
       if blocked then
         rbind (if is_immediate terms then end_unfilled q (o_id ord) (event_time e) s else Inr s) (\<lambda>s'. Inr (nothing_done s'))
       else if is_auction terms then work_auction q ord e policy rates arriving s
       else if o_type ord = MARKET then fill_at_market q ord e policy rates None s
       else if o_type ord \<in> {STOP, STOP_LIMIT} \<and> o_triggered ord = None
       then work_stop q ord e policy rates market_price' arriving (is_immediate terms) s
       else if arriving then take_within_limit q ord e policy rates market_price' (is_immediate terms) s
       else work_limit q ord e policy rates (is_immediate terms) turn s))) = Inr (s', rs, fs, ts)"
    unfolding work_order_def rbind_eq_Inr by blast
  show ?thesis
  proof (cases "case o_expire ord of None \<Rightarrow> False | Some t \<Rightarrow> flt_le t (event_time e)")
    case True
    with f1 show ?thesis using expires [OF ok] by (simp only: if_True)
  next
    case False
    with f1 obtain m blocked where
      f2: "(if blocked then
         rbind (if is_immediate terms then end_unfilled q (o_id ord) (event_time e) s else Inr s) (\<lambda>s'. Inr (nothing_done s'))
       else if is_auction terms then work_auction q ord e policy rates arriving s
       else if o_type ord = MARKET then fill_at_market q ord e policy rates None s
       else if o_type ord \<in> {STOP, STOP_LIMIT} \<and> o_triggered ord = None
       then work_stop q ord e policy rates m arriving (is_immediate terms) s
       else if arriving then take_within_limit q ord e policy rates m (is_immediate terms) s
       else work_limit q ord e policy rates (is_immediate terms) turn s) = Inr (s', rs, fs, ts)"
      by (auto simp only: if_False rbind_eq_Inr)
    then show ?thesis
      by (auto simp only: split: if_splits
          intro: gives_up [OF ok] auction [OF ok] at_market [OF ok] stopped [OF ok] taking [OF ok] at_limit [OF ok])
  qed
qed

end

end
