(* ===== verification/Pipeline_Books.thy ===== *)
theory Pipeline_Books
  imports Pipeline_Steps
begin

text \<open>
  Every fill is booked once, everywhere. The execution history, the canonical fills and trades, the
  trade records, the fill events of the OMS and the trades of the portfolio's ledger agree line by line,
  and what an order has filled is the sum of its reports.
\<close>

section \<open>One report, line by line\<close>

definition same_fill :: "execution_report \<Rightarrow> core_fill \<Rightarrow> bool" where
  "same_fill r f =
     (fl_order_id f = er_order_id r \<and> fl_asset_id f = er_asset_id r \<and> fl_quantity f = er_quantity r \<and>
      fl_price f = er_price r \<and> fl_filled_at f = er_timestamp r \<and> fl_commission f = er_commission r)"

definition same_trade :: "core_fill \<Rightarrow> core_trade \<Rightarrow> bool" where
  "same_trade f t =
     (tr_fill_ids t = [fl_fill_id f] \<and> tr_order_id t = Some (fl_order_id f) \<and> tr_asset_id t = fl_asset_id f \<and>
      tr_side t = fl_side f \<and> tr_quantity t = fl_quantity f \<and> tr_average_price t = fl_price f \<and>
      tr_executed_at t = fl_filled_at f)"

definition same_record :: "execution_report \<Rightarrow> trade_record \<Rightarrow> bool" where
  "same_record r t =
     (rec_trade_id t = er_execution_id r \<and> rec_asset_id t = er_asset_id r \<and>
      dec_mul ACCOUNTING_CONTEXT (er_quantity r) (er_price r) = Inr (rec_notional t))"

fun same_event :: "execution_report \<Rightarrow> oms_event \<Rightarrow> bool" where
  "same_event r (OrderFilled eid t oid x p) =
     (er_status r = FULL_FILL \<and> oid = er_order_id r \<and> x = er_quantity r \<and> p = er_price r \<and> t = er_timestamp r)"
| "same_event r (OrderPartiallyFilled eid t oid x p) =
     (er_status r = PARTIAL_FILL \<and> oid = er_order_id r \<and> x = er_quantity r \<and> p = er_price r \<and> t = er_timestamp r)"
| "same_event r ev = False"

definition same_entry :: "core_fill \<Rightarrow> transaction \<Rightarrow> bool" where
  "same_entry f t =
     (tx_asset_id t = fl_asset_id f \<and> signed_fill (fl_side f) (fl_quantity f) = Inr (tx_quantity t) \<and>
      tx_price t = fl_price f \<and> tx_timestamp t = fl_filled_at f)"

fun is_fill_event :: "oms_event \<Rightarrow> bool" where
  "is_fill_event (OrderFilled eid t oid x p) = True"
| "is_fill_event (OrderPartiallyFilled eid t oid x p) = True"
| "is_fill_event ev = False"

definition fill_events :: "pipeline \<Rightarrow> oms_event list" where
  "fill_events s = filter is_fill_event (os_history (pl_oms s))"

definition is_trade :: "transaction \<Rightarrow> bool" where
  "is_trade t = (tx_type t \<in> {BUY_TX, SELL_TX})"

definition trade_entries :: "portfolio_state \<Rightarrow> transaction list" where
  "trade_entries pf = filter is_trade (pf_ledger pf)"

definition filled_sum :: "execution_report list \<Rightarrow> string \<Rightarrow> decimal res" where
  "filled_sum rs oid =
     rfold (\<lambda>total r. dec_add ACCOUNTING_CONTEXT total (er_quantity r)) dec_zero (filter (\<lambda>r. er_order_id r = oid) rs)"

definition order_in :: "pipeline \<Rightarrow> string \<Rightarrow> order option" where
  "order_in s oid = od_get (bk_orders (os_orders (pl_oms s))) oid"

definition books_agree :: "pipeline \<Rightarrow> bool" where
  "books_agree s \<longleftrightarrow>
     list_all2 same_fill (ex_history (pl_execution s)) (pl_fills s) \<and>
     list_all2 same_trade (pl_fills s) (pl_trades s) \<and>
     list_all2 same_record (ex_history (pl_execution s)) (pl_records s) \<and>
     list_all2 same_event (ex_history (pl_execution s)) (fill_events s) \<and>
     list_all2 same_entry (pl_fills s) (trade_entries (pl_portfolio s)) \<and>
     (\<forall>r \<in> set (ex_history (pl_execution s)). order_in s (er_order_id r) \<noteq> None) \<and>
     (\<forall>oid ord. order_in s oid = Some ord \<longrightarrow> filled_sum (ex_history (pl_execution s)) oid = Inr (o_filled ord))"

section \<open>What the portfolio writes\<close>

lemma trade_entries_fill:
  assumes "apply_fill tid asset quantity price commission t currency economics final settling financed pf = Inr pf'"
  shows "\<exists>tx. trade_entries pf' = trade_entries pf @ [tx] \<and> tx_asset_id tx = asset \<and> tx_quantity tx = quantity \<and>
    tx_price tx = price \<and> tx_timestamp tx = t"
  using assms
  by (auto simp: apply_fill_def trade_entries_def Let_def rbind_eq_Inr make_state_def ledger_append_def fill_tx_def
      is_trade_def split: prod.splits)

lemma trade_entries_deposit:
  "apply_deposit tid amount currency t pf = Inr pf' \<Longrightarrow> trade_entries pf' = trade_entries pf"
  by (auto simp: apply_deposit_def rbind_eq_Inr trade_entries_def ledger_append_def cash_tx_def is_trade_def)

lemma trade_entries_convert:
  "convert_cash t1 t2 amount c1 c2 rates t financed pf = Inr (pf', c) \<Longrightarrow> trade_entries pf' = trade_entries pf"
  by (auto simp: convert_cash_def Let_def rbind_eq_Inr trade_entries_def ledger_append_def cash_tx_def is_trade_def
      split: if_splits)

lemma trade_entries_flow:
  assumes "apply_cash_flow tid flow t pf = Inr pf'"
  shows "trade_entries pf' = trade_entries pf"
proof -
  have "flow_transaction (cf_kind flow) \<notin> {BUY_TX, SELL_TX}"
    by (cases "cf_kind flow") (simp_all add: flow_transaction_def)
  with assms show ?thesis
    by (auto simp: apply_cash_flow_def rbind_eq_Inr trade_entries_def ledger_append_def cash_tx_def is_trade_def
        split: if_splits)
qed

lemma trade_entries_mark:
  assumes "mark_changed ids prices t asset pf = Inr pf'"
  shows "trade_entries pf' = trade_entries pf"
proof -
  have step: "mark_one ids acct prices t m h = Inr m' \<Longrightarrow> filter is_trade (mk_ledger m') = filter is_trade (mk_ledger m)"
    for acct m h m'
    by (auto simp: mark_one_def Let_def rbind_eq_Inr ledger_append_def is_trade_def split: prod.splits option.splits if_splits)
  have all: "rfold (mark_one ids acct prices t) m held = Inr m' \<Longrightarrow> filter is_trade (mk_ledger m') = filter is_trade (mk_ledger m)"
    for acct m held m'
    by (rule rfold_invariant [where P = "\<lambda>x. filter is_trade (mk_ledger x) = filter is_trade (mk_ledger m)"])
      (auto dest: step)
  show ?thesis
    using assms
    by (auto simp: mark_changed_def marked_def Let_def rbind_eq_Inr trade_entries_def dest!: all split: if_splits)
qed

lemma charge_part_fields:
  assumes "charge_part q r asset s part = Inr s'"
  shows "\<exists>n pf. s' = drew n (s\<lparr>pl_portfolio := pf\<rparr>) \<and> trade_entries pf = trade_entries (pl_portfolio s)"
proof (cases "dec_eq (snd part) dec_zero")
  case True
  with assms show ?thesis
    by (intro exI [of _ 0] exI [of _ "pl_portfolio s"]) (simp add: charge_part_def drew_def split: prod.splits)
next
  case False
  with assms show ?thesis
    by (auto simp: charge_part_def rbind_eq_Inr split: prod.splits intro!: exI [of _ 1] dest: trade_entries_flow)
qed

definition portfolio_moves :: "pipeline \<Rightarrow> pipeline \<Rightarrow> bool" where
  "portfolio_moves s s' =
     (\<exists>n pf. s' = drew n (s\<lparr>pl_portfolio := pf\<rparr>) \<and> trade_entries pf = trade_entries (pl_portfolio s))"

lemma portfolio_moves_refl: "portfolio_moves s s"
  unfolding portfolio_moves_def by (rule exI [of _ 0], rule exI [of _ "pl_portfolio s"]) (simp add: drew_def)

lemma portfolio_moves_trans:
  assumes "portfolio_moves s s'" and "portfolio_moves s' s''"
  shows "portfolio_moves s s''"
proof -
  from assms(1) obtain n pf where 1: "s' = drew n (s\<lparr>pl_portfolio := pf\<rparr>)" "trade_entries pf = trade_entries (pl_portfolio s)"
    by (auto simp: portfolio_moves_def)
  from assms(2) obtain m pf' where 2: "s'' = drew m (s'\<lparr>pl_portfolio := pf'\<rparr>)" "trade_entries pf' = trade_entries (pl_portfolio s')"
    by (auto simp: portfolio_moves_def)
  have "s'' = drew (n + m) (s\<lparr>pl_portfolio := pf'\<rparr>)" by (simp add: 1 2 drew_def add.assoc)
  moreover have "trade_entries pf' = trade_entries (pl_portfolio s)" using 1 2 by simp
  ultimately show ?thesis unfolding portfolio_moves_def by blast
qed

lemma charge_part_moves: "charge_part q r asset s part = Inr s' \<Longrightarrow> portfolio_moves s s'"
  using charge_part_fields unfolding portfolio_moves_def by blast

lemma charges_move:
  assumes "rfold (charge_part q r asset) s parts = Inr s'"
  shows "portfolio_moves s s'"
  by (rule rfold_invariant [where P = "portfolio_moves s" and f = "charge_part q r asset" and xs = parts])
    (use assms portfolio_moves_refl portfolio_moves_trans charge_part_moves in blast)+

lemma buy_in_moves:
  assumes "buy_in_charges q ord r s = Inr s'"
  shows "portfolio_moves s s'"
  using assms portfolio_moves_refl
  by (auto simp: buy_in_charges_def rbind_eq_Inr simp del: rfold.simps split: option.splits if_splits
      intro: charges_move [where parts = "[(o_strategy ord, x)]" for x] charges_move)

section \<open>One report applied\<close>

definition fill_op :: "execution_report \<Rightarrow> order_op" where
  "fill_op r = (if er_status r = FULL_FILL then Complete_Fill (er_quantity r) (er_price r) (er_timestamp r)
     else Partial_Fill (er_quantity r) (er_price r) (er_timestamp r))"

lemma report_to_oms_by:
  assumes "er_status r \<in> {FULL_FILL, PARTIAL_FILL}"
  shows "report_to_oms q oid r s = with_oms (oms_step (Apply oid (fill_op r) [] (drawn_id q s 0)) (pl_oms s)) 1 s"
  using assms by (auto simp: report_to_oms_def fill_op_def)

lemma report_to_portfolio_fields:
  assumes "report_to_portfolio q r sd rates s = Inr s'"
  shows "\<exists>n pf risk rec tx. s' = drew n (s\<lparr>pl_portfolio := pf, pl_risk := risk, pl_records := pl_records s @ [rec]\<rparr>) \<and>
    trade_entries pf = trade_entries (pl_portfolio s) @ [tx] \<and> tx_asset_id tx = er_asset_id r \<and>
    signed_fill sd (er_quantity r) = Inr (tx_quantity tx) \<and> tx_price tx = er_price r \<and>
    tx_timestamp tx = er_timestamp r \<and> same_record r rec"
proof -
  from assms obtain signed settling financed pf s1 rec where
    sg: "signed_fill sd (er_quantity r) = Inr signed"
    and pf: "apply_fill (drawn_id q s 0) (er_asset_id r) signed (er_price r) (er_commission r) (er_timestamp r)
                 (er_currency r) (economics_of s (er_asset_id r)) False settling financed (pl_portfolio s) = Inr pf"
    and s1: "sync_risk q rates (er_timestamp r) pf (drew 1 s) = Inr s1"
    and rec: "trade_record_of r (drop (length (pf_events (pl_portfolio s))) (pf_events pf))
                 (opened_of (pl_portfolio s) (er_asset_id r))
                 (contributions_for (pl_allocation s) (er_order_id r)) (sector_for s (er_asset_id r)) = Inr rec"
    and s': "s' = s1\<lparr>pl_records := pl_records s1 @ [rec]\<rparr>"
    by (auto simp: report_to_portfolio_def rbind_eq_Inr split: if_splits)
  from trade_entries_fill [OF pf] obtain tx where tx: "trade_entries pf = trade_entries (pl_portfolio s) @ [tx]"
    "tx_asset_id tx = er_asset_id r" "tx_quantity tx = signed" "tx_price tx = er_price r" "tx_timestamp tx = er_timestamp r"
    by blast
  from sync_risk_fields [OF s1] obtain risk where "s1 = drew 2 ((drew 1 s)\<lparr>pl_portfolio := pf, pl_risk := risk\<rparr>)" by blast
  then have "s' = drew 3 (s\<lparr>pl_portfolio := pf, pl_risk := risk, pl_records := pl_records s @ [rec]\<rparr>)"
    by (simp add: s' drew_def)
  moreover have "same_record r rec"
    using rec by (auto simp: trade_record_of_def Let_def rbind_eq_Inr same_record_def)
  ultimately show ?thesis using tx sg by blast
qed

lemma record_fill_fields:
  assumes "record_fill a oid asset signed x = Inr a'"
  shows "al_contributions a' = al_contributions a \<and> reservations a' = reservations a"
  using assms by (auto simp: record_fill_def Let_def rbind_eq_Inr split: option.splits if_splits)

lemma consume_keys:
  assumes "consume rs oid x = Inr (y, rs')"
  shows "od_get rs' k \<noteq> None \<Longrightarrow> od_get rs k \<noteq> None" and "k \<noteq> oid \<Longrightarrow> od_get rs' k = od_get rs k"
  using assms by (auto simp: consume_def rbind_eq_Inr split: option.splits if_splits)

lemma report_to_allocation_fields:
  assumes "report_to_allocation q r sd rates s = Inr s'"
  shows "\<exists>n a. s' = drew n (s\<lparr>pl_allocation := a\<rparr>) \<and> al_contributions a = al_contributions (pl_allocation s) \<and>
    (\<forall>k. od_get (reservations a) k \<noteq> None \<longrightarrow> od_get (reservations (pl_allocation s)) k \<noteq> None)"
proof -
  from assms obtain x signed a b where a: "record_fill (pl_allocation s) (er_order_id r) (er_asset_id r) signed (Some x) = Inr a"
    and b: "apply_execution (drawn_id q s 0) a (er_order_id r) x (er_timestamp r) = Inr b"
    and s': "s' = drew 1 (s\<lparr>pl_allocation := b\<rparr>)"
    by (auto simp: report_to_allocation_def rbind_eq_Inr)
  from b obtain y rs where rs: "consume (reservations a) (er_order_id r) x = Inr (y, rs)"
    and bf: "reservations b = rs" "al_contributions b = al_contributions a"
    by (auto simp: apply_execution_def rbind_eq_Inr)
  from record_fill_fields [OF a] consume_keys(1) [OF rs] bf s' show ?thesis by auto
qed

lemma canonical_lines:
  assumes "canonical_execution q s r sd = Inr (f, t)"
  shows "same_fill r f \<and> same_trade f t \<and> fl_side f = sd"
  using assms by (auto simp: canonical_execution_def rbind_eq_Inr same_fill_def same_trade_def)

text \<open>
  What a report that is a fill does: one OMS transition, one line in each of the other ledgers, and an
  allocation that asks nothing new; an order the fill closed has given back everything.
\<close>

lemma one_report:
  assumes ok: "oms_ok (pl_oms s)" and st: "er_status r \<in> {FULL_FILL, PARTIAL_FILL}"
    and f: "apply_reports q ord rates [r] s = Inr (s', fills, trades)"
  obtains o' fill trade rec tx where
    "oms_step (Apply (o_id ord) (fill_op r) [] (drawn_id q s 0)) (pl_oms s) = Inr o'" "pl_oms s' = o'"
    "pl_execution s' = pl_execution s"
    "pl_fills s' = pl_fills s @ [fill]" "same_fill r fill" "fl_side fill = o_side ord"
    "pl_trades s' = pl_trades s @ [trade]" "same_trade fill trade"
    "pl_records s' = pl_records s @ [rec]" "same_record r rec"
    "trade_entries (pl_portfolio s') = trade_entries (pl_portfolio s) @ [tx]" "same_entry fill tx"
    "\<exists>n a. (\<exists>m x. pl_allocation x = a \<and> pl_oms x = o' \<and> release_if_terminal q (o_id ord) (er_timestamp r) x = Inr m \<and>
        pl_allocation m = pl_allocation s') \<and>
      al_contributions a = al_contributions (pl_allocation s) \<and>
      (\<forall>k. od_get (reservations a) k \<noteq> None \<longrightarrow> od_get (reservations (pl_allocation s)) k \<noteq> None)"
proof -
  from f obtain before s1 fill trade s2 s3 s4 s5 where
    s1: "report_to_oms q (o_id ord) r s = Inr s1"
    and can: "canonical_execution q s1 r (o_side ord) = Inr (fill, trade)"
    and s2: "report_to_portfolio q r (o_side ord) rates (drew 2 s1) = Inr s2"
    and s3: "(if map_of (o_metadata before) BUY_IN \<noteq> None then buy_in_charges q before r s2 else Inr s2) = Inr s3"
    and s4: "report_to_allocation q r (o_side ord) rates s3 = Inr s4"
    and s5: "release_if_terminal q (o_id ord) (er_timestamp r) s4 = Inr s5"
    and s': "s' = s5\<lparr>pl_fills := pl_fills s5 @ [fill], pl_trades := pl_trades s5 @ [trade]\<rparr>"
    by (auto simp only: apply_reports_def apply_report_def rfold.simps rbind_eq_Inr sum.inject prod.inject split: prod.splits)
      (auto simp: append_Nil)
  from s1 obtain o' where o': "oms_step (Apply (o_id ord) (fill_op r) [] (drawn_id q s 0)) (pl_oms s) = Inr o'"
    and s1': "s1 = drew 1 (s\<lparr>pl_oms := o'\<rparr>)"
    by (auto simp: report_to_oms_by [OF st] with_oms_Inr)
  note lines = canonical_lines [OF can]
  from report_to_portfolio_fields [OF s2] obtain n pf risk rec tx where
    s2': "s2 = drew n ((drew 2 s1)\<lparr>pl_portfolio := pf, pl_risk := risk, pl_records := pl_records (drew 2 s1) @ [rec]\<rparr>)"
    and tx: "trade_entries pf = trade_entries (pl_portfolio (drew 2 s1)) @ [tx]" "tx_asset_id tx = er_asset_id r"
      "signed_fill (o_side ord) (er_quantity r) = Inr (tx_quantity tx)" "tx_price tx = er_price r" "tx_timestamp tx = er_timestamp r"
    and rec: "same_record r rec" by blast
  have "portfolio_moves s2 s3" using s3 portfolio_moves_refl buy_in_moves by (auto split: if_splits)
  then obtain n3 pf3 where s3': "s3 = drew n3 (s2\<lparr>pl_portfolio := pf3\<rparr>)" "trade_entries pf3 = trade_entries (pl_portfolio s2)"
    by (auto simp: portfolio_moves_def)
  from report_to_allocation_fields [OF s4] obtain n4 a where s4': "s4 = drew n4 (s3\<lparr>pl_allocation := a\<rparr>)"
    and a: "al_contributions a = al_contributions (pl_allocation s3)"
      "\<forall>k. od_get (reservations a) k \<noteq> None \<longrightarrow> od_get (reservations (pl_allocation s3)) k \<noteq> None" by blast
  have s5': "pl_oms s5 = pl_oms s4 \<and> pl_execution s5 = pl_execution s4 \<and> pl_fills s5 = pl_fills s4 \<and>
    pl_trades s5 = pl_trades s4 \<and> pl_records s5 = pl_records s4 \<and> pl_portfolio s5 = pl_portfolio s4"
    using s5
  proof (cases rule: release_if_terminal_cases)
    case 2
    from retire_dropped_fields [OF 2(1)] show ?thesis by auto
  qed simp
  show thesis
  proof (rule that [OF o'])
    show "pl_oms s' = o'" using s' s5' s4' s3' s2' s1' by simp
    show "pl_execution s' = pl_execution s" using s' s5' s4' s3' s2' s1' by simp
    show "pl_fills s' = pl_fills s @ [fill]" using s' s5' s4' s3' s2' s1' by simp
    show "pl_trades s' = pl_trades s @ [trade]" using s' s5' s4' s3' s2' s1' by simp
    show "pl_records s' = pl_records s @ [rec]" using s' s5' s4' s3' s2' s1' by simp
    show "same_fill r fill" "same_trade fill trade" "fl_side fill = o_side ord" using lines by auto
    show "same_record r rec" by (rule rec)
    show "trade_entries (pl_portfolio s') = trade_entries (pl_portfolio s) @ [tx]"
      using s' s5' s4' s3' s2' s1' tx(1) by simp
    show "same_entry fill tx" using lines tx by (auto simp: same_entry_def same_fill_def)
    show "\<exists>n a. (\<exists>m x. pl_allocation x = a \<and> pl_oms x = o' \<and> release_if_terminal q (o_id ord) (er_timestamp r) x = Inr m \<and>
        pl_allocation m = pl_allocation s') \<and>
      al_contributions a = al_contributions (pl_allocation s) \<and>
      (\<forall>k. od_get (reservations a) k \<noteq> None \<longrightarrow> od_get (reservations (pl_allocation s)) k \<noteq> None)"
      using s5 s' a s4' s3' s2' s1' by (intro exI conjI [OF exI [of _ s5, OF exI [of _ s4]]]) auto
  qed
qed

end
