(* ===== verification/Pipeline_Run.thy ===== *)
theory Pipeline_Run
  imports Pipeline_Books
begin

text \<open>
  A run of the pipeline as a step relation: cash funded or converted, a venue's report or terminal
  outcome applied, a market event opened, the strategies' intents allocated and routed. A relation the
  moves of an order satisfy, and that what touches no order satisfies, holds of every step.
\<close>

section \<open>Steps\<close>

definition fresh_ids :: "(nat \<Rightarrow> string) \<Rightarrow> pipeline \<Rightarrow> bool" where
  "fresh_ids oids s =
     (inj oids \<and> (\<forall>k. order_in s (oids k) = None \<and> od_get (al_contributions (pl_allocation s)) (oids k) = None \<and>
                    od_get (reservations (pl_allocation s)) (oids k) = None))"

inductive pipeline_step :: "queries \<Rightarrow> pipeline \<Rightarrow> pipeline \<Rightarrow> bool" for q where
  Funded: "fund q amount currency t rates s = Inr s' \<Longrightarrow> pipeline_step q s s'"
| Converted: "pipeline_convert_cash q amount c1 c2 rates t s = Inr (s', c) \<Longrightarrow> pipeline_step q s s'"
| Reported: "apply_execution_report q ord r rates s = Inr (s', fills, trades) \<Longrightarrow> er_order_id r = o_id ord \<Longrightarrow>
    er_status r \<in> {FULL_FILL, PARTIAL_FILL} \<Longrightarrow> pipeline_step q s s'"
| Ended: "apply_terminal_outcome q oid outcome t reason s = Inr s' \<Longrightarrow> pipeline_step q s s'"
| Opened: "open_event q e policy rates queue s = Inr (s', out, queue') \<Longrightarrow> pipeline_step q s s'"
| Routed: "route_intents q eids oids e intents policy rates s = Inr (s', out) \<Longrightarrow> fresh_ids oids s \<Longrightarrow> pipeline_step q s s'"

definition untraded :: "pipeline \<Rightarrow> bool" where
  "untraded s =
     (pl_oms s = oms_initial \<and> pl_execution s = execution_initial \<and> pl_fills s = [] \<and> pl_trades s = [] \<and>
      pl_records s = [] \<and> trade_entries (pl_portfolio s) = [] \<and>
      al_contributions (pl_allocation s) = [] \<and> reservations (pl_allocation s) = [])"

inductive pipeline_run :: "queries \<Rightarrow> pipeline \<Rightarrow> bool" for q where
  start: "untraded s \<Longrightarrow> pipeline_run q s"
| move: "pipeline_run q s \<Longrightarrow> pipeline_step q s s' \<Longrightarrow> pipeline_run q s'"

section \<open>What a request and an event do to the rest\<close>

definition only_allocation :: "pipeline \<Rightarrow> pipeline \<Rightarrow> bool" where
  "only_allocation s s' = (\<exists>n a. s' = drew n (s\<lparr>pl_allocation := a\<rparr>))"

lemma drop_request_only:
  "drop_request q instant r asked out s = Inr (s', out', asked') \<Longrightarrow> only_allocation s s'"
  unfolding drop_request_def only_allocation_def by (auto simp: rbind_eq_Inr dest!: retire_dropped_fields)

lemma evaluate_risk_fields:
  "evaluate_risk q r t rates s = Inr (s', d) \<Longrightarrow> \<exists>risk. s' = drew 3 (s\<lparr>pl_risk := risk\<rparr>)"
  by (auto simp: evaluate_risk_def rbind_eq_Inr)

lemma record_unpriced_fields: "\<exists>u. record_unpriced a t s = s\<lparr>pl_unpriced := u\<rparr>"
  by (auto simp: record_unpriced_def Let_def)

lemma records_unpriced_fields: "\<exists>u. fold (\<lambda>a. record_unpriced a t) xs s = s\<lparr>pl_unpriced := u\<rparr>"
proof (induction xs arbitrary: s)
  case Nil
  show ?case by (rule exI [of _ "pl_unpriced s"]) simp
next
  case (Cons x xs)
  obtain u where "record_unpriced x t s = s\<lparr>pl_unpriced := u\<rparr>" using record_unpriced_fields by blast
  moreover obtain u' where "fold (\<lambda>a. record_unpriced a t) xs (s\<lparr>pl_unpriced := u\<rparr>) = s\<lparr>pl_unpriced := u, pl_unpriced := u'\<rparr>"
    using Cons.IH [of "s\<lparr>pl_unpriced := u\<rparr>"] by blast
  ultimately show ?case by auto
qed

lemma allocate_intents_fields:
  assumes "allocate_intents eids oids intents rates t s = Inr (s', requests)"
  obtains b a where "allocate eids oids (pl_allocation s) intents b t = Inr (a, requests)" "s' = s\<lparr>pl_allocation := a\<rparr>"
  using assms by (auto simp: allocate_intents_def rbind_eq_Inr)

lemma mark_event_fields:
  assumes "mark_event q e rates s = Inr s'"
  shows "\<exists>n pf risk prices. s' = drew n (s\<lparr>pl_portfolio := pf, pl_risk := risk, pl_prices := prices\<rparr>) \<and>
    trade_entries pf = trade_entries (pl_portfolio s)"
proof -
  from assms obtain update pf where
    m: "mark_changed (drawn_id q s) (prices_with_event (pl_prices s) update) (event_time e) (map_option fst update) (pl_portfolio s) = Inr pf"
    and sy: "sync_risk q rates (event_time e) pf (drew (length (pf_ledger pf) - length (pf_ledger (pl_portfolio s)))
      (s\<lparr>pl_prices := prices_with_event (pl_prices s) update\<rparr>)) = Inr s'"
    by (auto simp: mark_event_def rbind_eq_Inr Let_def split: if_splits)
  from sync_risk_fields [OF sy] obtain risk where "s' = drew 2 ((drew (length (pf_ledger pf) - length (pf_ledger (pl_portfolio s)))
      (s\<lparr>pl_prices := prices_with_event (pl_prices s) update\<rparr>))\<lparr>pl_portfolio := pf, pl_risk := risk\<rparr>)" by blast
  then have "s' = drew (length (pf_ledger pf) - length (pf_ledger (pl_portfolio s)) + 2)
     (s\<lparr>pl_portfolio := pf, pl_risk := risk, pl_prices := prices_with_event (pl_prices s) update\<rparr>)"
    by (simp add: drew_def)
  with trade_entries_mark [OF m] show ?thesis by blast
qed

lemma submit_and_accept_by:
  assumes "submit_and_accept_order q r t s = Inr (s', ord)"
  obtains ex o1 o2 where "oms_submit (pl_oms s) (oms_order_of r ex) t (drawn_id q s 0) = Inr o1"
    "oms_accept o1 (rq_order_id r) t (drawn_id q (drew 1 (s\<lparr>pl_oms := o1\<rparr>)) 0) = Inr o2"
    "s' = drew 1 ((drew 1 (s\<lparr>pl_oms := o1\<rparr>))\<lparr>pl_oms := o2\<rparr>)" "book_find (os_orders o2) (rq_order_id r) = Inr ord"
proof -
  let ?o = "oms_order_of r"
  from assms obtain ex s1 s2 where
    1: "with_oms (oms_submit (pl_oms s) (?o ex) t (drawn_id q s 0)) 1 s = Inr s1"
    and 2: "with_oms (oms_accept (pl_oms s1) (o_id (?o ex)) t (drawn_id q s1 0)) 1 s1 = Inr s2"
    and 3: "book_find (os_orders (pl_oms s2)) (o_id (?o ex)) = Inr ord" "s' = s2"
    by (auto simp: submit_and_accept_order_def rbind_eq_Inr Let_def)
  have id: "o_id (?o ex) = rq_order_id r" by (simp add: oms_order_of_def)
  from 1 obtain o1 where o1: "oms_submit (pl_oms s) (?o ex) t (drawn_id q s 0) = Inr o1" "s1 = drew 1 (s\<lparr>pl_oms := o1\<rparr>)"
    by (auto simp: with_oms_Inr)
  from 2 obtain o2 where o2: "oms_accept (pl_oms s1) (rq_order_id r) t (drawn_id q s1 0) = Inr o2"
      "s2 = drew 1 (s1\<lparr>pl_oms := o2\<rparr>)"
    by (auto simp: with_oms_Inr id)
  show thesis
  proof (rule that [OF o1(1)])
    show "oms_accept o1 (rq_order_id r) t (drawn_id q (drew 1 (s\<lparr>pl_oms := o1\<rparr>)) 0) = Inr o2" using o2 o1 by simp
    show "s' = drew 1 ((drew 1 (s\<lparr>pl_oms := o1\<rparr>))\<lparr>pl_oms := o2\<rparr>)" using o2 o1 3 by simp
    show "book_find (os_orders o2) (rq_order_id r) = Inr ord" using 3 o2 by (simp add: id)
  qed
qed

lemma place_request_cases [consumes 1, case_names Refused Placed]:
  assumes f: "place_request q e instant policy rates rest r asked out s = Inr (s', out', asked')"
  obtains risk o1 where "drop_request q instant r asked o1 (drew 3 (s\<lparr>pl_risk := risk\<rparr>)) = Inr (s', out', asked')"
    | risk s2 ord where "submit_and_accept_order q r instant (drew 3 (s\<lparr>pl_risk := risk\<rparr>)) = Inr (s2, ord)"
      "s' = s2 \<or> (\<exists>rs fs ts. work_order q ord e policy rates True None s2 = Inr (s', rs, fs, ts))"
proof -
  from f obtain s1 d where ev: "evaluate_risk q r instant rates s = Inr (s1, d)"
    by (auto simp: place_request_def rbind_eq_Inr)
  from evaluate_risk_fields [OF ev] obtain risk where s1: "s1 = drew 3 (s\<lparr>pl_risk := risk\<rparr>)" by blast
  show thesis
  proof (cases "approved d")
    case False
    with f ev s1 show ?thesis
      by (intro that(1) [of "out\<lparr>rt_decisions := rt_decisions out @ [d]\<rparr>" risk]) (simp add: place_request_def Let_def)
  next
    case True
    with f ev obtain s2 ord where sub: "submit_and_accept_order q r instant s1 = Inr (s2, ord)"
      by (auto simp: place_request_def Let_def rbind_eq_Inr)
    note all = f [unfolded place_request_def Let_def] ev True sub
    show ?thesis
    proof (cases "pc_routing (pl_config s2) \<noteq> SIMULATED \<or> rest \<or> pc_fill_timing (pl_config s2) = NEXT_EVENT")
      case True
      with all s1 show ?thesis by (intro that(2) [of risk s2 ord]) simp_all
    next
      case False
      with all s1 show ?thesis by (intro that(2) [of risk s2 ord]) (auto simp: rbind_eq_Inr)
    qed
  qed
qed

lemma banded_id:
  assumes "banded q instant s r = Inr (Some r1)"
  shows "rq_order_id r1 = rq_order_id r"
proof -
  from assms obtain answer where a: "band_limit q s r instant = Inr answer" by (auto simp: banded_def rbind_eq_Inr)
  show ?thesis
  proof (cases answer)
    case None
    with assms a show ?thesis by (simp add: banded_def)
  next
    case (Some edge)
    with assms a show ?thesis by (cases edge) (auto simp: banded_def Let_def rbind_eq_Inr)
  qed
qed

lemma route_one_cases [consumes 1, case_names Dropped Placed]:
  assumes f: "route_one q e instant policy rates rest (s, out, asked) r = Inr (s', out', asked')"
  obtains s1 r' a o1 where "s1 = s \<or> s1 = record_unpriced (rq_asset_id r') instant s"
      "drop_request q instant r' a o1 s1 = Inr (s', out', asked')" "rq_order_id r' = rq_order_id r"
    | r' a o1 where "place_request q e instant policy rates rest r' a o1 s = Inr (s', out', asked')"
      "rq_order_id r' = rq_order_id r"
proof -
  from f obtain refused asked1 where mr: "margin_refused q rates instant s asked r = Inr (refused, asked1)"
    by (auto simp: route_one_def rbind_eq_Inr)
  show thesis
  proof (cases refused)
    case True
    with f mr show ?thesis by (intro that(1) [of s r asked1 out]) (simp_all add: route_one_def)
  next
    case False
    from f mr False obtain capped where cp: "banded q instant s r = Inr capped"
      by (auto simp: route_one_def rbind_eq_Inr)
    show ?thesis
    proof (cases capped)
      case None
      with f mr False cp show ?thesis by (intro that(1) [of s r asked1 out]) (simp_all add: route_one_def)
    next
      case (Some r1)
      have id: "rq_order_id r1 = rq_order_id r"
        by (rule banded_id) (use cp Some in simp)
      from f mr False cp Some obtain v where v: "request_verdict q instant s r1 = Inr v"
        by (auto simp: route_one_def rbind_eq_Inr)
      note all = f [unfolded route_one_def] mr False cp Some v id
      show ?thesis
      proof (cases v)
        case Admitted
        with all show ?thesis by (intro that(2) [of r1 asked1 out]) simp_all
      next
        case Unpriced_Request
        with all show ?thesis
          by (intro that(1) [of "record_unpriced (rq_asset_id r1) instant s" r1 asked1 "out\<lparr>rt_unpriced := rt_unpriced out @ [r1]\<rparr>"])
            simp_all
      next
        case Refused_Settlement
        with all show ?thesis
          by (intro that(1) [of s r1 asked1 "out\<lparr>rt_refusals := rt_refusals out @ [rq_asset_id r1]\<rparr>"]) simp_all
      next
        case Refused
        with all show ?thesis by (intro that(1) [of s r1 asked1 out]) simp_all
      qed
    qed
  qed
qed

section \<open>A relation of whole steps\<close>

locale step_relation = order_relation q "\<lambda>oid. T" for q :: queries and T :: "pipeline \<Rightarrow> pipeline \<Rightarrow> bool" +
  assumes moved: "pl_oms s' = pl_oms s \<Longrightarrow> pl_execution s' = pl_execution s \<Longrightarrow> pl_fills s' = pl_fills s \<Longrightarrow>
      pl_trades s' = pl_trades s \<Longrightarrow> pl_records s' = pl_records s \<Longrightarrow>
      trade_entries (pl_portfolio s') = trade_entries (pl_portfolio s) \<Longrightarrow> T s s'"
    and submitted: "oms_ok (pl_oms s) \<Longrightarrow> oms_submit (pl_oms s) (oms_order_of r ex) t eid = Inr o' \<Longrightarrow>
      T s (drew 1 (s\<lparr>pl_oms := o'\<rparr>))"
    and accepted: "oms_ok (pl_oms s) \<Longrightarrow> oms_accept (pl_oms s) oid t eid = Inr o' \<Longrightarrow> T s (drew 1 (s\<lparr>pl_oms := o'\<rparr>))"
    and reported: "oms_ok (pl_oms s) \<Longrightarrow> apply_execution_report q ord x rates s = Inr (s', fills, trades) \<Longrightarrow>
      er_order_id x = o_id ord \<Longrightarrow> er_status x \<in> {FULL_FILL, PARTIAL_FILL} \<Longrightarrow> T s s'"
begin

lemma allocation_moved: "only_allocation s s' \<Longrightarrow> T s s'"
  by (rule moved) (auto simp: only_allocation_def)

lemma synced: "sync_risk q rates t pf s = Inr s' \<Longrightarrow> trade_entries pf = trade_entries (pl_portfolio s) \<Longrightarrow> T s s'"
  by (rule moved) (auto dest: sync_risk_fields)

lemma drew_moved: "T s (drew n s)"
  by (rule moved) simp_all

lemma placed:
  assumes ok: "oms_ok (pl_oms s)" and f: "submit_and_accept_order q r t s = Inr (s', ord)"
  shows "T s s'"
proof -
  from f obtain ex o1 o2 where 1: "oms_submit (pl_oms s) (oms_order_of r ex) t (drawn_id q s 0) = Inr o1"
    and 2: "oms_accept o1 (rq_order_id r) t (drawn_id q (drew 1 (s\<lparr>pl_oms := o1\<rparr>)) 0) = Inr o2"
    and s': "s' = drew 1 ((drew 1 (s\<lparr>pl_oms := o1\<rparr>))\<lparr>pl_oms := o2\<rparr>)"
    by (rule submit_and_accept_by)
  from submitted [OF ok 1] show ?thesis
    by (rule related_then [OF _ ok]) (use 2 s' accepted [of "drew 1 (s\<lparr>pl_oms := o1\<rparr>)"] in auto)
qed

lemma placing:
  assumes ok: "oms_ok (pl_oms s)"
    and f: "place_request q e instant policy rates rest r asked out s = Inr (s', out', asked')"
  shows "T s s'"
  using f
proof (cases rule: place_request_cases)
  case (Refused risk o1)
  have "T s (drew 3 (s\<lparr>pl_risk := risk\<rparr>))" by (rule moved) simp_all
  with Refused show ?thesis using allocation_moved drop_request_only composes by blast
next
  case (Placed risk s2 ord)
  have "T s (drew 3 (s\<lparr>pl_risk := risk\<rparr>))" by (rule moved) simp_all
  moreover have "T (drew 3 (s\<lparr>pl_risk := risk\<rparr>)) s2" using ok by (intro placed [OF _ Placed(1)]) simp
  ultimately have "T s s2" by (rule composes)
  then show ?thesis by (rule related_then [OF _ ok]) (use Placed(2) stays worked in blast)
qed

lemma routing_one:
  assumes ok: "oms_ok (pl_oms s)"
    and f: "route_one q e instant policy rates rest (s, out, asked) r = Inr (s', out', asked')"
  shows "T s s'"
  using f
proof (cases rule: route_one_cases)
  case (Dropped s1 r' a o1)
  obtain u where "record_unpriced (rq_asset_id r') instant s = s\<lparr>pl_unpriced := u\<rparr>"
    using record_unpriced_fields by blast
  then have "T s s1" using Dropped(1) stays by (auto intro!: moved)
  with Dropped(2) show ?thesis using allocation_moved drop_request_only composes by blast
next
  case (Placed r' a o1)
  with placing [OF ok] show ?thesis by blast
qed

lemma routing:
  assumes ok: "oms_ok (pl_oms s)" and f: "route_requests q e at' intents requests policy rates rest s = Inr (s', out)"
  shows "T s s'"
proof -
  let ?t = "case at' of None \<Rightarrow> event_time e | Some t \<Rightarrow> t"
  from f obtain s0 asked where s0: "s0 = fold (\<lambda>asset. record_unpriced asset ?t) (unpriced_intents intents requests s) s"
    and fold: "rfold (route_one q e ?t policy rates rest) (s0, no_routing, None) requests = Inr (s', out, asked)"
    by (auto simp: route_requests_def Let_def rbind_eq_Inr)
  from records_unpriced_fields obtain u where "s0 = s\<lparr>pl_unpriced := u\<rparr>" unfolding s0 by blast
  then have m: "T s s0" by (intro moved) simp_all
  have "T s (fst (s', out, asked))"
  proof (rule rfold_invariant [where P = "\<lambda>x. T s (fst x)", OF _ _ fold])
    show "T s (fst (s0, no_routing, None))" using m by simp
    fix x r x' assume x: "T s (fst x)" and f: "route_one q e ?t policy rates rest x r = Inr x'"
    obtain a b c a' b' c' where xs: "x = (a, b, c)" "x' = (a', b', c')" by (metis surj_pair)
    from x xs have "T s a" by simp
    then have "T s a'" by (rule related_then [OF _ ok]) (use routing_one f xs in blast)
    then show "T s (fst x')" by (simp add: xs)
  qed
  then show ?thesis by simp
qed

lemma filling_one:
  assumes ok: "oms_ok (pl_oms s)" and f: "fill_one q e policy rates (s, out, queue) oid = Inr (s', out', queue')"
  shows "T s s'"
proof -
  from f obtain ord turn rs fs ts where "work_order q ord e policy rates False turn s = Inr (s', rs, fs, ts)"
    by (auto simp: fill_one_def rbind_eq_Inr split: prod.splits)
  then show ?thesis by (rule worked [OF ok])
qed

lemma filling:
  assumes ok: "oms_ok (pl_oms s)" and f: "fill_working_orders q e asset policy rates queue s = Inr (s', out, queue')"
  shows "T s s'"
proof -
  have "T s (fst (s', out, queue'))"
  proof (rule rfold_invariant [where P = "\<lambda>x. T s (fst x)", OF _ _ f [unfolded fill_working_orders_def]])
    show "T s (fst (s, no_routing, queue))" using stays by simp
    fix x r x' assume x: "T s (fst x)" and f: "fill_one q e policy rates x r = Inr x'"
    obtain a b c a' b' c' where xs: "x = (a, b, c)" "x' = (a', b', c')" by (metis surj_pair)
    from x xs have "T s a" by simp
    then have "T s a'" by (rule related_then [OF _ ok]) (use filling_one f xs in blast)
    then show "T s (fst x')" by (simp add: xs)
  qed
  then show ?thesis by simp
qed

lemma marking_event: "mark_event q e rates s = Inr s' \<Longrightarrow> T s s'"
  by (rule moved) (auto dest!: mark_event_fields)

lemma opening_event:
  assumes ok: "oms_ok (pl_oms s)" and f: "open_event q e policy rates queue s = Inr (s', out, queue')"
  shows "T s s'"
proof -
  from f obtain s1 update where m: "mark_event q e rates s = Inr s1" and u: "event_price e = Inr update"
    by (auto simp: open_event_def rbind_eq_Inr)
  from marking_event [OF m] show ?thesis
    by (rule related_then [OF _ ok])
      (use f m u stays filling in \<open>auto simp: open_event_def split: option.splits if_splits\<close>)
qed

lemma routing_intents:
  assumes ok: "oms_ok (pl_oms s)" and f: "route_intents q eids oids e intents policy rates s = Inr (s', out)"
  shows "T s s'"
proof -
  from f obtain s1 requests where al: "allocate_intents eids oids intents rates (event_time e) s = Inr (s1, requests)"
    and rt: "route_requests q e None intents requests policy rates False s1 = Inr (s', out)"
    by (auto simp: route_intents_def rbind_eq_Inr)
  from al obtain a where "s1 = s\<lparr>pl_allocation := a\<rparr>" by (rule allocate_intents_fields)
  then have "T s s1" by (intro moved) simp_all
  then show ?thesis by (rule related_then [OF _ ok]) (use routing rt in blast)
qed

lemma funding: "fund q amount currency t rates s = Inr s' \<Longrightarrow> T s s'"
  by (auto simp: fund_def rbind_eq_Inr split: if_splits
      intro!: composes [OF drew_moved synced] dest: trade_entries_deposit)

lemma converting: "pipeline_convert_cash q amount c1 c2 rates t s = Inr (s', c) \<Longrightarrow> T s s'"
  by (auto simp: pipeline_convert_cash_def rbind_eq_Inr split: if_splits
      intro!: composes [OF drew_moved synced] dest: trade_entries_convert)

theorem step:
  assumes "pipeline_step q s s'" and ok: "oms_ok (pl_oms s)"
  shows "T s s'"
  using assms(1)
proof cases
  case Funded
  then show ?thesis by (rule funding)
next
  case Converted
  then show ?thesis by (rule converting)
next
  case (Reported ord r rates fills trades)
  then show ?thesis by (rule reported [OF ok])
next
  case (Ended oid outcome t reason)
  then show ?thesis using terminal_outcome_by ended [OF ok outcome_op_ends] by blast
next
  case Opened
  then show ?thesis by (rule opening_event [OF ok])
next
  case Routed
  then show ?thesis using routing_intents [OF ok] by blast
qed

end

end
