(* ===== verification/Pipeline_Ledgers.thy ===== *)
theory Pipeline_Ledgers
  imports Pipeline_Run
begin

text \<open>
  The ledgers of the pipeline agree in every reached state, and a report is applied once: the relation
  \<open>booked\<close> is kept by every move of an order, so by every step.
\<close>

section \<open>The relation\<close>

definition reported_id :: "string \<Rightarrow> pipeline \<Rightarrow> bool" where
  "reported_id xid s = (od_get (ex_reports (pl_execution s)) xid \<noteq> None)"

definition booked :: "pipeline \<Rightarrow> pipeline \<Rightarrow> bool" where
  "booked s s' \<longleftrightarrow>
     (oms_ok (pl_oms s) \<longrightarrow> oms_ok (pl_oms s') \<and> (books_agree s \<longrightarrow> books_agree s')) \<and>
     (\<forall>xid. reported_id xid s \<longrightarrow> reported_id xid s')"

lemma booked_refl: "booked s s"
  by (simp add: booked_def)

lemma booked_trans: "booked s s' \<Longrightarrow> booked s' s'' \<Longrightarrow> booked s s''"
  by (simp add: booked_def)

lemma filled_sum_none:
  assumes "\<forall>r \<in> set h. er_order_id r \<noteq> oid"
  shows "filled_sum h oid = Inr dec_zero"
proof -
  have "filter (\<lambda>r. er_order_id r = oid) h = []" using assms by (simp add: filter_empty_conv)
  then show ?thesis by (simp add: filled_sum_def)
qed

lemma filled_sum_snoc:
  "filled_sum (h @ [r]) oid =
     (if er_order_id r = oid then rbind (filled_sum h oid) (\<lambda>t. dec_add ACCOUNTING_CONTEXT t (er_quantity r))
      else filled_sum h oid)"
  by (cases "rfold (\<lambda>total r. dec_add ACCOUNTING_CONTEXT total (er_quantity r)) dec_zero (filter (\<lambda>r. er_order_id r = oid) h)")
    (auto simp: filled_sum_def rfold_append rbind_eq_Inr rbind_def split: sum.splits)

text \<open>An OMS transition that fills nothing.\<close>

lemma booked_oms:
  assumes same: "pl_execution s' = pl_execution s" "pl_fills s' = pl_fills s" "pl_trades s' = pl_trades s"
    "pl_records s' = pl_records s" "trade_entries (pl_portfolio s') = trade_entries (pl_portfolio s)"
    and ok: "oms_ok (pl_oms s')" and ev: "fill_events s' = fill_events s"
    and keep: "\<And>k. order_in s k \<noteq> None \<Longrightarrow> order_in s' k \<noteq> None"
    and amounts: "\<And>k ord'. order_in s' k = Some ord' \<Longrightarrow>
      (case order_in s k of None \<Rightarrow> o_filled ord' = dec_zero | Some ord \<Rightarrow> o_filled ord' = o_filled ord)"
  shows "booked s s'"
proof -
  have "books_agree s'" if b: "books_agree s"
  proof -
    have "filled_sum (ex_history (pl_execution s)) k = Inr (o_filled ord')" if o': "order_in s' k = Some ord'" for k ord'
    proof (cases "order_in s k")
      case None
      with b have "\<forall>r \<in> set (ex_history (pl_execution s)). er_order_id r \<noteq> k" by (auto simp: books_agree_def)
      with None amounts [OF o'] show ?thesis by (simp add: filled_sum_none)
    next
      case (Some ord)
      with b amounts [OF o'] show ?thesis by (simp add: books_agree_def)
    qed
    with b keep show ?thesis by (auto simp: books_agree_def same ev)
  qed
  with ok same(1) show ?thesis by (simp add: booked_def reported_id_def)
qed

lemma closing_keeps_filled:
  assumes "order_apply op ord = Inr ord'" and "ends_unfilled t op \<or> (\<exists>t. op = Accept t)"
  shows "o_filled ord' = o_filled ord"
  using assms
  by (auto simp: ends_unfilled_def order_cancel_def order_expire_def order_reject_def order_accept_def rbind_eq_Inr)

lemma booked_apply:
  assumes ok: "oms_ok (pl_oms s)" and st: "oms_step (Apply oid op reason eid) (pl_oms s) = Inr o'"
    and op: "ends_unfilled t op \<or> (\<exists>t. op = Accept t)"
  shows "booked s (drew n (s\<lparr>pl_oms := o'\<rparr>))"
  using ok st
proof (rule oms_apply_result)
  fix ord ord' assume g: "od_get (bk_orders (os_orders (pl_oms s))) oid = Some ord" and a: "order_apply op ord = Inr ord'"
    and ok': "oms_ok o'" and b: "bk_orders (os_orders o') = od_set oid ord' (bk_orders (os_orders (pl_oms s)))"
    and h: "\<exists>ev. event_of (Apply oid op reason eid) = Some ev \<and> os_history o' = os_history (pl_oms s) @ [ev]"
  have "\<not> is_fill_event ev" if "event_of (Apply oid op reason eid) = Some ev" for ev
    using that op by (auto simp: ends_unfilled_def)
  with h have "fill_events (drew n (s\<lparr>pl_oms := o'\<rparr>)) = fill_events s" by (auto simp: fill_events_def)
  with closing_keeps_filled [OF a op] g ok' b show ?thesis
    by (intro booked_oms) (auto simp: order_in_def split: option.split if_splits)
qed

lemma booked_quiet:
  assumes "pl_oms s' = pl_oms s" "pl_execution s' = pl_execution s" "pl_fills s' = pl_fills s" "pl_trades s' = pl_trades s"
    "pl_records s' = pl_records s" "trade_entries (pl_portfolio s') = trade_entries (pl_portfolio s)"
  shows "booked s s'"
  using assms by (simp add: booked_def books_agree_def reported_id_def fill_events_def order_in_def)

lemma booked_release: "release_if_terminal q oid t s = Inr s' \<Longrightarrow> booked s s'"
  by (erule release_if_terminal_cases) (auto intro!: booked_refl booked_quiet dest!: retire_dropped_fields)

lemma booked_ended:
  assumes "oms_ok (pl_oms s)" "ends_unfilled t op" "end_by q oid op reason t s = Inr s'"
  shows "booked s s'"
proof -
  from assms(3) obtain o' where o': "oms_step (Apply oid op reason (drawn_id q s 0)) (pl_oms s) = Inr o'"
    and r: "release_if_terminal q oid t (drew 1 (s\<lparr>pl_oms := o'\<rparr>)) = Inr s'"
    by (auto simp: end_by_def rbind_eq_Inr with_oms_Inr)
  from booked_apply [OF assms(1) o'] assms(2) booked_release [OF r] show ?thesis by (blast intro: booked_trans)
qed

lemma booked_triggered:
  assumes "oms_ok (pl_oms s)" "oms_trigger (pl_oms s) oid t = Inr o'"
  shows "booked s (drew 0 (s\<lparr>pl_oms := o'\<rparr>))"
  using assms
proof (rule oms_trigger_result)
  fix ord ord' assume "od_get (bk_orders (os_orders (pl_oms s))) oid = Some ord"
    "ord' = (if o_triggered ord = None then ord\<lparr>o_triggered := Some t\<rparr> else ord)"
    "oms_ok o'" "bk_orders (os_orders o') = od_set oid ord' (bk_orders (os_orders (pl_oms s)))"
    "os_history o' = os_history (pl_oms s)"
  then show ?thesis
    by (intro booked_oms) (auto simp: order_in_def fill_events_def split: option.split if_splits)
qed

section \<open>A fill\<close>

lemma fill_op_filled:
  assumes "order_apply (fill_op r) ord = Inr ord'" and "er_status r \<in> {FULL_FILL, PARTIAL_FILL}"
  shows "dec_add ACCOUNTING_CONTEXT (o_filled ord) (er_quantity r) = Inr (o_filled ord')"
  using assms
  by (auto simp: fill_op_def order_fill_def order_partial_fill_def filled_by_def rbind_eq_Inr split: if_splits)

text \<open>A report is recorded in \<open>s1\<close> and applied in \<open>s'\<close>.\<close>

lemma booked_fill:
  assumes ok: "oms_ok (pl_oms s)"
    and s1: "pl_oms s1 = pl_oms s" "pl_fills s1 = pl_fills s" "pl_trades s1 = pl_trades s" "pl_records s1 = pl_records s"
      "pl_portfolio s1 = pl_portfolio s" "ex_history (pl_execution s1) = ex_history (pl_execution s) @ [r]"
      "ex_reports (pl_execution s1) = od_set (er_execution_id r) r (ex_reports (pl_execution s))"
    and id: "er_order_id r = o_id ord" and st: "er_status r \<in> {FULL_FILL, PARTIAL_FILL}"
    and f: "apply_reports q ord rates [r] s1 = Inr (s', fills, trades)"
  shows "booked s s'"
proof -
  have ok1: "oms_ok (pl_oms s1)" using ok s1 by simp
  from ok1 st f show ?thesis
  proof (rule one_report)
    fix o' fill trade rec tx
    assume step: "oms_step (Apply (o_id ord) (fill_op r) [] (drawn_id q s1 0)) (pl_oms s1) = Inr o'" "pl_oms s' = o'"
      and ex: "pl_execution s' = pl_execution s1"
      and lines: "pl_fills s' = pl_fills s1 @ [fill]" "same_fill r fill"
        "pl_trades s' = pl_trades s1 @ [trade]" "same_trade fill trade"
        "pl_records s' = pl_records s1 @ [rec]" "same_record r rec"
        "trade_entries (pl_portfolio s') = trade_entries (pl_portfolio s1) @ [tx]" "same_entry fill tx"
    from ok1 step(1) show "booked s s'"
    proof (rule oms_apply_result)
      fix b b' assume g: "od_get (bk_orders (os_orders (pl_oms s1))) (o_id ord) = Some b"
        and a: "order_apply (fill_op r) b = Inr b'" and ok': "oms_ok o'"
        and bk: "bk_orders (os_orders o') = od_set (o_id ord) b' (bk_orders (os_orders (pl_oms s1)))"
        and h: "\<exists>ev. event_of (Apply (o_id ord) (fill_op r) [] (drawn_id q s1 0)) = Some ev \<and>
          os_history o' = os_history (pl_oms s1) @ [ev]"
      have ev: "\<exists>ev. fill_events s' = fill_events s @ [ev] \<and> same_event r ev"
        using h st id s1 step(2) by (auto simp: fill_events_def fill_op_def split: if_splits)
      have "books_agree s'" if old: "books_agree s"
      proof -
        have "filled_sum (ex_history (pl_execution s')) k = Inr (o_filled x)" if x: "order_in s' k = Some x" for k x
        proof (cases "k = o_id ord")
          case True
          with x bk step(2) have "x = b'" by (simp add: order_in_def)
          moreover have "filled_sum (ex_history (pl_execution s)) k = Inr (o_filled b)"
            using old g True s1 by (simp add: books_agree_def order_in_def)
          ultimately show ?thesis
            using fill_op_filled [OF a st] True id ex s1 by (simp add: filled_sum_snoc)
        next
          case False
          with x bk step(2) s1 have "order_in s k = Some x" by (simp add: order_in_def)
          with old False id ex s1 show ?thesis by (simp add: filled_sum_snoc books_agree_def)
        qed
        moreover have "\<forall>x \<in> set (ex_history (pl_execution s')). order_in s' (er_order_id x) \<noteq> None"
          using old id ex s1 bk step(2) by (auto simp: books_agree_def order_in_def)
        ultimately show ?thesis
          using old lines s1 ex ev by (auto simp: books_agree_def intro!: list_all2_appendI)
      qed
      with ok' step(2) ex s1 show ?thesis by (simp add: booked_def reported_id_def)
    qed
  qed
qed

lemma booked_executed:
  assumes ok: "oms_ok (pl_oms s)" and ex: "execute_order q ord d e price passive s = Inr (s1, [r])"
    and f: "apply_reports q ord rates [r] s1 = Inr (s', fills, trades)"
  shows "booked s s'"
proof -
  from execute_order_reports [OF ex] obtain n x where s1: "s1 = drew n (s\<lparr>pl_execution := x\<rparr>)"
    and r: "er_order_id r = o_id ord" "er_status r \<in> {FULL_FILL, PARTIAL_FILL}"
      "ex_history x = ex_history (pl_execution s) @ [r]" "ex_reports x = od_set (er_execution_id r) r (ex_reports (pl_execution s))"
    by blast
  show ?thesis by (rule booked_fill [OF ok _ _ _ _ _ _ _ r(1,2) f]) (simp_all add: s1 r)
qed

lemma booked_answered:
  assumes "execute_order q ord d e price passive s = Inr (s', [])"
  shows "booked s s'"
proof -
  from execute_order_reports [OF assms] obtain n x where "s' = drew n (s\<lparr>pl_execution := x\<rparr>)"
    "ex_history x = ex_history (pl_execution s)" "ex_reports x = ex_reports (pl_execution s)" by blast
  then show ?thesis by (simp add: booked_def books_agree_def reported_id_def fill_events_def order_in_def)
qed

lemma recorded_fields:
  assumes "record_venue_execution q ord r s = Inr s1"
  shows "\<exists>n x. s1 = drew n (s\<lparr>pl_execution := x\<rparr>) \<and> ex_history x = ex_history (pl_execution s) @ [r] \<and>
    ex_reports x = od_set (er_execution_id r) r (ex_reports (pl_execution s))"
  using assms
  by (auto simp: record_venue_execution_def rbind_eq_Inr partial_fill_def execute_def record_report_def split: if_splits
      intro!: exI [of _ 1])

lemma booked_reported:
  assumes ok: "oms_ok (pl_oms s)" and f: "apply_execution_report q ord r rates s = Inr (s', fills, trades)"
    and id: "er_order_id r = o_id ord" and st: "er_status r \<in> {FULL_FILL, PARTIAL_FILL}"
  shows "booked s s'"
proof (cases "od_get (ex_reports (pl_execution s)) (er_execution_id r) = None")
  case False
  with f show ?thesis by (simp add: apply_execution_report_def booked_refl)
next
  case True
  with f obtain s1 where rec: "record_venue_execution q ord r s = Inr s1"
    and ap: "apply_reports q ord rates [r] s1 = Inr (s', fills, trades)"
    by (auto simp: apply_execution_report_def rbind_eq_Inr)
  from recorded_fields [OF rec] obtain n x where x: "s1 = drew n (s\<lparr>pl_execution := x\<rparr>)"
    "ex_history x = ex_history (pl_execution s) @ [r]"
    "ex_reports x = od_set (er_execution_id r) r (ex_reports (pl_execution s))" by blast
  show ?thesis by (rule booked_fill [OF ok _ _ _ _ _ _ _ id st ap]) (simp_all add: x)
qed

lemma booked_submitted:
  assumes ok: "oms_ok (pl_oms s)" and f: "oms_submit (pl_oms s) (oms_order_of r ex) t eid = Inr o'"
  shows "booked s (drew 1 (s\<lparr>pl_oms := o'\<rparr>))"
proof -
  note sub = oms_submit_result [OF ok f]
  have "od_get (bk_orders (os_orders o')) k =
      (if k = rq_order_id r then Some (oms_order_of r ex) else od_get (bk_orders (os_orders (pl_oms s))) k)" for k
    using sub(1,4) by (auto simp: od_get_def map_add_Some_iff oms_order_of_def map_add_def split: option.splits)
  with sub show ?thesis
    by (intro booked_oms)
      (auto simp: order_in_def fill_events_def oms_order_of_def split: option.split if_splits)
qed

interpretation ledgers: step_relation q booked for q
proof unfold_locales
  fix s :: pipeline and o' oid t eid
  assume "oms_ok (pl_oms s)" "oms_accept (pl_oms s) oid t eid = Inr o'"
  then show "booked s (drew 1 (s\<lparr>pl_oms := o'\<rparr>))"
    by (intro booked_apply [where op = "Accept t" and reason = "[]"]) auto
qed (blast intro: booked_refl booked_trans booked_ended booked_triggered booked_answered booked_executed booked_quiet
  booked_submitted booked_reported | simp add: booked_def)+

section \<open>Every reached state\<close>

lemma untraded_agrees: "untraded s \<Longrightarrow> oms_ok (pl_oms s) \<and> books_agree s"
  using oms_initial_ok
  by (auto simp: untraded_def books_agree_def execution_initial_def fill_events_def order_in_def)
    (auto simp: oms_initial_def empty_book_def)

lemma run_books: "pipeline_run q s \<Longrightarrow> oms_ok (pl_oms s) \<and> books_agree s"
proof (induction rule: pipeline_run.induct)
  case (start s)
  then show ?case by (rule untraded_agrees)
next
  case (move s s')
  with ledgers.step show ?case by (auto simp: booked_def)
qed

lemma later_reported:
  assumes "(pipeline_step q)\<^sup>*\<^sup>* s s'" and "oms_ok (pl_oms s)" and "reported_id xid s"
  shows "oms_ok (pl_oms s') \<and> reported_id xid s'"
  using assms(1)
proof (induction rule: rtranclp_induct)
  case base
  with assms show ?case by simp
next
  case (step y z)
  with ledgers.step show ?case by (auto simp: booked_def)
qed

end
