(* ===== verification/Pipeline_Lives.thy ===== *)
theory Pipeline_Lives
  imports Pipeline_Ledgers
begin

text \<open>
  A contribution exists exactly as long as its order is at work, and no capital is held for anything
  else: every request allocation emits is retired when it is dropped, and every order when it ends,
  whatever ends it.
\<close>

section \<open>What is held for an order\<close>

definition at_work :: "string \<Rightarrow> pipeline \<Rightarrow> bool" where
  "at_work oid s = (case order_in s oid of None \<Rightarrow> False | Some ord \<Rightarrow> is_open ord)"

definition asked_for :: "string \<Rightarrow> pipeline \<Rightarrow> bool" where
  "asked_for oid s = (od_get (al_contributions (pl_allocation s)) oid \<noteq> None)"

definition holds_capital :: "string \<Rightarrow> pipeline \<Rightarrow> bool" where
  "holds_capital oid s = (od_get (reservations (pl_allocation s)) oid \<noteq> None)"

definition accounted :: "string \<Rightarrow> pipeline \<Rightarrow> bool" where
  "accounted oid s = ((asked_for oid s \<longleftrightarrow> at_work oid s) \<and> (holds_capital oid s \<longrightarrow> at_work oid s))"

definition leaves_others :: "string \<Rightarrow> pipeline \<Rightarrow> pipeline \<Rightarrow> bool" where
  "leaves_others oid s s' \<longleftrightarrow>
     (\<forall>x. x \<noteq> oid \<longrightarrow> (at_work x s' \<longleftrightarrow> at_work x s) \<and> (asked_for x s' \<longleftrightarrow> asked_for x s) \<and>
                       (holds_capital x s' \<longrightarrow> holds_capital x s)) \<and>
     (\<forall>x. order_in s' x \<noteq> None \<longleftrightarrow> order_in s x \<noteq> None)"

definition lives :: "string \<Rightarrow> pipeline \<Rightarrow> pipeline \<Rightarrow> bool" where
  "lives oid s s' \<longleftrightarrow>
     (oms_ok (pl_oms s) \<longrightarrow> oms_ok (pl_oms s') \<and> leaves_others oid s s' \<and> (accounted oid s \<longrightarrow> accounted oid s'))"

lemma lives_refl: "lives oid s s"
  by (simp add: lives_def leaves_others_def)

lemma lives_trans: "lives oid s s' \<Longrightarrow> lives oid s' s'' \<Longrightarrow> lives oid s s''"
  by (auto simp: lives_def leaves_others_def)

lemma lives_same:
  assumes "pl_oms s' = pl_oms s" "pl_allocation s' = pl_allocation s"
  shows "lives oid s s'"
  using assms by (simp add: lives_def leaves_others_def accounted_def at_work_def asked_for_def holds_capital_def order_in_def)

text \<open>An order changes and then, if it is closed, gives back what it holds.\<close>

lemma lives_release:
  assumes g: "order_in s oid = Some ord" and opened: "is_open ord" and ok': "oms_ok o'"
    and bk: "bk_orders (os_orders o') = od_set oid ord' (bk_orders (os_orders (pl_oms s)))"
    and x: "pl_oms x = o'" "al_contributions (pl_allocation x) = al_contributions (pl_allocation s)"
      "\<forall>k. od_get (reservations (pl_allocation x)) k \<noteq> None \<longrightarrow> od_get (reservations (pl_allocation s)) k \<noteq> None"
    and r: "release_if_terminal q oid t x = Inr m" and s': "pl_oms s' = o'" "pl_allocation s' = pl_allocation m"
  shows "lives oid s s'"
  using r
proof (cases rule: release_if_terminal_cases)
  case 1
  then have "is_open ord'" using bk x(1) by simp
  with 1 g opened ok' bk x s' show ?thesis
    by (auto simp: lives_def leaves_others_def accounted_def at_work_def asked_for_def holds_capital_def order_in_def)
next
  case 2
  then have "\<not> is_open ord'" using bk x(1) by simp
  moreover from retire_dropped_fields [OF 2(1)] obtain a where "pl_allocation m = a"
    "al_contributions a = od_del oid (al_contributions (pl_allocation x))"
    "reservations a = od_del oid (reservations (pl_allocation x))" by auto
  ultimately show ?thesis using g ok' bk x s'
    by (auto simp: lives_def leaves_others_def accounted_def at_work_def asked_for_def holds_capital_def order_in_def)
qed

lemma lives_ended:
  assumes ok: "oms_ok (pl_oms s)" and f: "end_by q oid op reason t s = Inr s'"
  shows "lives oid s s'"
proof -
  from f obtain o' where o': "oms_step (Apply oid op reason (drawn_id q s 0)) (pl_oms s) = Inr o'"
    and r: "release_if_terminal q oid t (drew 1 (s\<lparr>pl_oms := o'\<rparr>)) = Inr s'"
    by (auto simp: end_by_def rbind_eq_Inr with_oms_Inr)
  have same: "pl_oms s' = o'" using r
    by (cases rule: release_if_terminal_cases) (auto dest!: retire_dropped_fields)
  from ok o' show ?thesis
  proof (rule oms_apply_result)
    fix ord ord' assume g: "od_get (bk_orders (os_orders (pl_oms s))) oid = Some ord" and a: "order_apply op ord = Inr ord'"
      and ok': "oms_ok o'" and bk: "bk_orders (os_orders o') = od_set oid ord' (bk_orders (os_orders (pl_oms s)))"
    show "lives oid s s'"
      by (rule lives_release [OF _ apply_keeps(2) [OF a] ok' bk _ _ _ r same refl]) (simp_all add: order_in_def g)
  qed
qed

lemma lives_triggered:
  assumes "oms_ok (pl_oms s)" "oms_trigger (pl_oms s) oid t = Inr o'"
  shows "lives oid s (drew 0 (s\<lparr>pl_oms := o'\<rparr>))"
  using assms
proof (rule oms_trigger_result)
  fix ord ord' assume "od_get (bk_orders (os_orders (pl_oms s))) oid = Some ord"
    "ord' = (if o_triggered ord = None then ord\<lparr>o_triggered := Some t\<rparr> else ord)"
    "oms_ok o'" "bk_orders (os_orders o') = od_set oid ord' (bk_orders (os_orders (pl_oms s)))"
  then show ?thesis
    by (auto simp: lives_def leaves_others_def accounted_def at_work_def asked_for_def holds_capital_def order_in_def is_open_def)
qed

lemma lives_fill:
  assumes ok: "oms_ok (pl_oms s)" and s1: "pl_oms s1 = pl_oms s" "pl_allocation s1 = pl_allocation s"
    and st: "er_status r \<in> {FULL_FILL, PARTIAL_FILL}"
    and f: "apply_reports q ord rates [r] s1 = Inr (s', fills, trades)"
  shows "lives (o_id ord) s s'"
proof -
  have ok1: "oms_ok (pl_oms s1)" using ok s1 by simp
  from ok1 st f show ?thesis
  proof (rule one_report)
    fix o'
    assume step: "oms_step (Apply (o_id ord) (fill_op r) [] (drawn_id q s1 0)) (pl_oms s1) = Inr o'" "pl_oms s' = o'"
      and al: "\<exists>n a. (\<exists>m x. pl_allocation x = a \<and> pl_oms x = o' \<and>
        release_if_terminal q (o_id ord) (er_timestamp r) x = Inr m \<and> pl_allocation m = pl_allocation s') \<and>
        al_contributions a = al_contributions (pl_allocation s1) \<and>
        (\<forall>k. od_get (reservations a) k \<noteq> None \<longrightarrow> od_get (reservations (pl_allocation s1)) k \<noteq> None)"
    from al obtain m x where x: "pl_oms x = o'" "al_contributions (pl_allocation x) = al_contributions (pl_allocation s1)"
      "\<forall>k. od_get (reservations (pl_allocation x)) k \<noteq> None \<longrightarrow> od_get (reservations (pl_allocation s1)) k \<noteq> None"
      and r: "release_if_terminal q (o_id ord) (er_timestamp r) x = Inr m" "pl_allocation m = pl_allocation s'" by blast
    from ok1 step(1) show "lives (o_id ord) s s'"
    proof (rule oms_apply_result)
      fix b b' assume g: "od_get (bk_orders (os_orders (pl_oms s1))) (o_id ord) = Some b"
        and a: "order_apply (fill_op r) b = Inr b'" and ok': "oms_ok o'"
        and bk: "bk_orders (os_orders o') = od_set (o_id ord) b' (bk_orders (os_orders (pl_oms s1)))"
      show "lives (o_id ord) s s'"
        by (rule lives_release [OF _ apply_keeps(2) [OF a] ok' _ x(1) _ _ r(1) step(2) r(2) [symmetric]])
          (use g bk x s1 in \<open>simp_all add: order_in_def\<close>)
    qed
  qed
qed

interpretation lives: order_relation q lives for q
proof unfold_locales
  fix s s1 s' :: pipeline and q ord d e price still r rates fills trades
  assume ok: "oms_ok (pl_oms s)" and ex: "execute_order q ord d e price still s = Inr (s1, [r])"
    and f: "apply_reports q ord rates [r] s1 = Inr (s', fills, trades)"
  from execute_order_reports [OF ex] obtain n x where "s1 = drew n (s\<lparr>pl_execution := x\<rparr>)"
    "er_status r \<in> {FULL_FILL, PARTIAL_FILL}" by blast
  then show "lives (o_id ord) s s'" by (intro lives_fill [OF ok _ _ _ f]) simp_all
next
  fix s s' :: pipeline and q ord d e price still
  assume "execute_order q ord d e price still s = Inr (s', [])"
  from execute_order_reports [OF this] show "lives (o_id ord) s s'" by (auto intro: lives_same)
qed (blast intro: lives_refl lives_trans lives_ended lives_triggered | simp add: lives_def)+

section \<open>Steps that route nothing\<close>

definition all_accounted :: "pipeline \<Rightarrow> bool" where
  "all_accounted s = (oms_ok (pl_oms s) \<and> (\<forall>x. accounted x s))"

lemma accounted_elsewhere: "leaves_others oid s s' \<Longrightarrow> x \<noteq> oid \<Longrightarrow> accounted x s \<Longrightarrow> accounted x s'"
  by (auto simp: leaves_others_def accounted_def)

lemma all_accounted_lives:
  assumes s: "all_accounted s" and l: "lives oid s s'"
  shows "all_accounted s'"
proof -
  from s l have "oms_ok (pl_oms s')" and others: "leaves_others oid s s'" and here: "accounted oid s'"
    by (auto simp: all_accounted_def lives_def)
  moreover have "accounted x s'" for x
    using accounted_elsewhere [OF others] here s by (cases "x = oid") (auto simp: all_accounted_def)
  ultimately show ?thesis by (simp add: all_accounted_def)
qed

lemma all_accounted_same:
  "all_accounted s \<Longrightarrow> pl_oms s' = pl_oms s \<Longrightarrow> pl_allocation s' = pl_allocation s \<Longrightarrow> all_accounted s'"
  using all_accounted_lives lives_same by blast

lemma accounted_reported:
  assumes ok: "all_accounted s" and f: "apply_execution_report q ord r rates s = Inr (s', fills, trades)"
    and st: "er_status r \<in> {FULL_FILL, PARTIAL_FILL}"
  shows "all_accounted s'"
proof (cases "od_get (ex_reports (pl_execution s)) (er_execution_id r) = None")
  case False
  with f ok show ?thesis by (simp add: apply_execution_report_def)
next
  case True
  with f obtain s1 where rec: "record_venue_execution q ord r s = Inr s1"
    and ap: "apply_reports q ord rates [r] s1 = Inr (s', fills, trades)"
    by (auto simp: apply_execution_report_def rbind_eq_Inr)
  from recorded_fields [OF rec] obtain n x where x: "s1 = drew n (s\<lparr>pl_execution := x\<rparr>)" by blast
  have "lives (o_id ord) s s'"
    by (rule lives_fill [OF _ _ _ st ap]) (use ok x in \<open>simp_all add: all_accounted_def\<close>)
  with ok show ?thesis by (rule all_accounted_lives)
qed

lemma accounted_filling:
  assumes "all_accounted s" and f: "fill_working_orders q e asset policy rates queue s = Inr (s', out, queue')"
  shows "all_accounted s'"
proof -
  have "all_accounted (fst (s', out, queue'))"
  proof (rule rfold_invariant [where P = "\<lambda>x. all_accounted (fst x)", OF _ _ f [unfolded fill_working_orders_def]])
    show "all_accounted (fst (s, no_routing, queue))" using assms by simp
    fix x oid x' assume x: "all_accounted (fst x)" and f: "fill_one q e policy rates x oid = Inr x'"
    obtain a b c a' b' c' where xs: "x = (a, b, c)" "x' = (a', b', c')" by (metis surj_pair)
    with f obtain ord turn rs fs ts where "work_order q ord e policy rates False turn a = Inr (a', rs, fs, ts)"
      by (auto simp: fill_one_def rbind_eq_Inr split: prod.splits)
    moreover from x xs have a: "all_accounted a" by simp
    ultimately have "lives (o_id ord) a a'" by (intro lives.worked) (simp_all add: all_accounted_def)
    with a show "all_accounted (fst x')" by (simp add: xs all_accounted_lives)
  qed
  then show ?thesis by simp
qed

lemma accounted_opened:
  assumes ok: "all_accounted s" and f: "open_event q e policy rates queue s = Inr (s', out, queue')"
  shows "all_accounted s'"
proof -
  from f obtain s1 update where m: "mark_event q e rates s = Inr s1" and u: "event_price e = Inr update"
    by (auto simp: open_event_def rbind_eq_Inr)
  from mark_event_fields [OF m] have "all_accounted s1" by (auto intro: all_accounted_same [OF ok])
  with f m u accounted_filling show ?thesis
    by (auto simp: open_event_def split: option.splits if_splits)
qed

end
