(* ===== verification/Pipeline_Requests.thy ===== *)
theory Pipeline_Requests
  imports Pipeline_Lives
begin

text \<open>
  A batch of requests through routing: each of them asked for and not yet placed, then dropped with what
  it held, or placed and at work for as long as its contributions stand.
\<close>

section \<open>What allocation emits\<close>

definition request_ids :: "order_request list \<Rightarrow> string list" where
  "request_ids rs = map rq_order_id rs"

lemma emit_ids:
  assumes "emit oids b t up ubp cs f k x held = Inr f'"
    and "map (\<lambda>e. rq_order_id (em_request e)) (nf_emitted f) = map oids [0..<length (nf_emitted f)]"
  shows "map (\<lambda>e. rq_order_id (em_request e)) (nf_emitted f') = map oids [0..<length (nf_emitted f')]"
proof -
  from assms(1) obtain e where "nf_emitted f' = nf_emitted f @ [e]" "rq_order_id (em_request e) = oids (length (nf_emitted f))"
    by (auto simp: emit_def Let_def net_request_def rbind_eq_Inr)
  with assms(2) show ?thesis by simp
qed

lemma emit_step_ids:
  assumes "emit_step oids b t up ubp cs f entry = Inr f'"
    and "map (\<lambda>e. rq_order_id (em_request e)) (nf_emitted f) = map oids [0..<length (nf_emitted f)]"
  shows "map (\<lambda>e. rq_order_id (em_request e)) (nf_emitted f') = map oids [0..<length (nf_emitted f')]"
  using assms
  by (auto simp: emit_step_def Let_def intro: emit_ids split: prod.splits sum.splits if_splits)

lemma fold_emissions_get:
  "od_get (fold (\<lambda>e. od_set (rq_order_id (em_request e)) (g e)) es m) k \<noteq> None \<longleftrightarrow>
     od_get m k \<noteq> None \<or> k \<in> set (request_ids (map em_request es))"
  by (induction es arbitrary: m) (auto simp: request_ids_def split: if_splits)

definition emitted_exactly :: "(nat \<Rightarrow> string) \<Rightarrow> allocation_state \<Rightarrow> order_request list \<Rightarrow> allocation_state \<Rightarrow> bool" where
  "emitted_exactly oids a rs a' \<longleftrightarrow>
     distinct (request_ids rs) \<and> set (request_ids rs) \<subseteq> range oids \<and>
     (\<forall>k. od_get (al_contributions a') k \<noteq> None \<longleftrightarrow> od_get (al_contributions a) k \<noteq> None \<or> k \<in> set (request_ids rs)) \<and>
     (\<forall>k. od_get (reservations a') k \<noteq> None \<longleftrightarrow> od_get (reservations a) k \<noteq> None \<or> k \<in> set (request_ids rs))"

lemma routed_first_set: "set (sent_first es) = set es"
  by (auto simp: sent_first_def)

lemma routed_first_distinct: "distinct (map h es) \<Longrightarrow> distinct (map h (sent_first es))"
proof -
  assume "distinct (map h es)"
  moreover have "mset (sent_first es) = mset es" by (simp add: sent_first_def)
  then have "mset (map h (sent_first es)) = mset (map h es)" by simp
  ultimately show ?thesis by (metis distinct_count_atmost_1 set_mset_mset)
qed

lemma allocate_batch_ids:
  assumes f: "allocate_batch oids a valid b t = Inr (a', rs, notes)" and inj: "inj oids"
  shows "emitted_exactly oids a rs a'"
proof -
  from f obtain up ubp commitments notes1 net cs nf fitting remaining where
    fold: "rfold (emit_step oids b t up ubp cs)
              \<lparr>nf_total = zero_cents, nf_emitted = [], nf_projected = bt_positions b, nf_notes = notes1\<rparr> net = Inr nf"
    and "fits_budget a (nf_total nf) = Inr (fitting, remaining)"
    and rest: "if \<not> fitting then a' = a \<and> rs = []
       else book_emissions a commitments (sent_first (nf_emitted nf)) (nf_total nf) = Inr a' \<and>
         rs = map em_request (sent_first (nf_emitted nf))"
    unfolding allocate_batch_def rbind_eq_Inr Let_def by (auto simp: rbind_eq_Inr split: if_splits)
  have ids: "map (\<lambda>e. rq_order_id (em_request e)) (nf_emitted nf) = map oids [0..<length (nf_emitted nf)]"
    by (rule rfold_invariant [where P = "\<lambda>f. map (\<lambda>e. rq_order_id (em_request e)) (nf_emitted f) =
        map oids [0..<length (nf_emitted f)]", OF _ _ fold]) (auto intro: emit_step_ids)
  let ?sent = "sent_first (nf_emitted nf)"
  from rest consider "a' = a" "rs = []" | (booked) "book_emissions a commitments ?sent (nf_total nf) = Inr a'" "rs = map em_request ?sent"
    by (auto split: if_splits)
  then show ?thesis
  proof cases
    case 1
    then show ?thesis by (simp add: emitted_exactly_def request_ids_def)
  next
    case booked
    note bk = booked(1) and rs = booked(2)
    from bk have "reservations a' = fold (\<lambda>e. od_set (rq_order_id (em_request e)) (em_commitment e)) ?sent (reservations a)"
      "al_contributions a' = fold (\<lambda>e. od_set (rq_order_id (em_request e)) (rq_contributions (em_request e))) ?sent (al_contributions a)"
      by (auto simp: book_emissions_def rbind_eq_Inr)
    then have "\<forall>k. od_get (al_contributions a') k \<noteq> None \<longleftrightarrow> od_get (al_contributions a) k \<noteq> None \<or> k \<in> set (request_ids rs)"
      "\<forall>k. od_get (reservations a') k \<noteq> None \<longleftrightarrow> od_get (reservations a) k \<noteq> None \<or> k \<in> set (request_ids rs)"
      by (simp_all only: fold_emissions_get rs) simp_all
    moreover have "distinct (request_ids rs)"
    proof -
      have "distinct (map (\<lambda>e. rq_order_id (em_request e)) (nf_emitted nf))"
        unfolding ids using inj by (simp add: distinct_map inj_on_def)
      from routed_first_distinct [OF this] show ?thesis by (simp add: request_ids_def rs comp_def)
    qed
    moreover have "set (request_ids rs) \<subseteq> range oids"
    proof -
      have "set (request_ids rs) = set (map (\<lambda>e. rq_order_id (em_request e)) (nf_emitted nf))"
        by (simp add: request_ids_def rs routed_first_set image_image)
      then show ?thesis unfolding ids by auto
    qed
    ultimately show ?thesis by (simp add: emitted_exactly_def)
  qed
qed

lemma allocate_ids:
  assumes f: "allocate eids oids a intents b t = Inr (a', rs)" and inj: "inj oids"
  shows "emitted_exactly oids a rs a'"
proof -
  from f obtain valid refused where sc: "rfold screen ([], []) intents = Inr (valid, refused)"
    by (auto simp: allocate_def rbind_eq_Inr)
  show ?thesis
  proof (cases "valid = []")
    case True
    with f sc show ?thesis by (auto simp: allocate_def Let_def emitted_exactly_def request_ids_def)
  next
    case False
    with f sc obtain a1 ns where "allocate_batch oids a valid b t = Inr (a1, rs, ns)"
      and a': "al_contributions a' = al_contributions a1" "reservations a' = reservations a1"
      by (auto simp: allocate_def Let_def rbind_eq_Inr)
    from allocate_batch_ids [OF this(1) inj] a' show ?thesis by (simp add: emitted_exactly_def)
  qed
qed

section \<open>Routing a batch\<close>

definition pending :: "string set \<Rightarrow> pipeline \<Rightarrow> bool" where
  "pending P s \<longleftrightarrow>
     oms_ok (pl_oms s) \<and> (\<forall>x \<in> P. asked_for x s \<and> order_in s x = None) \<and> (\<forall>x. x \<notin> P \<longrightarrow> accounted x s)"

lemma pending_none: "pending {} s \<longleftrightarrow> all_accounted s"
  by (simp add: pending_def all_accounted_def)

lemma pending_same:
  assumes "pending P s" "pl_oms s' = pl_oms s" "pl_allocation s' = pl_allocation s"
  shows "pending P s'"
  using assms by (simp add: pending_def accounted_def at_work_def asked_for_def holds_capital_def order_in_def)

lemma pending_dropped:
  assumes p: "pending P s" and mem: "rq_order_id r \<in> P"
    and d: "drop_request q t r asked out s = Inr (s', out', asked')"
  shows "pending (P - {rq_order_id r}) s'"
proof -
  from d obtain s1 where s1: "retire_dropped_request q (rq_order_id r) t s = Inr s1" and [simp]: "s' = s1"
    by (auto simp: drop_request_def rbind_eq_Inr)
  from retire_dropped_fields [OF s1] obtain n a where a: "s1 = drew n (s\<lparr>pl_allocation := a\<rparr>)"
    "al_contributions a = od_del (rq_order_id r) (al_contributions (pl_allocation s))"
    "reservations a = od_del (rq_order_id r) (reservations (pl_allocation s))" by blast
  with p mem show ?thesis
    by (auto simp: pending_def accounted_def at_work_def asked_for_def holds_capital_def order_in_def)
qed

lemma accepted_open: "order_accept ord t = Inr ord' \<Longrightarrow> o_status ord = NEW \<Longrightarrow> is_open ord'"
  by (auto simp: order_accept_def order_next_def next_order_status_def ORDER_TRANSITIONS_def rbind_eq_Inr is_open_def
      WORKING_ORDER_STATUSES_def TERMINAL_ORDER_STATUSES_def enum_UNIV split: option.splits if_splits)

lemma pending_placed:
  assumes p: "pending P s" and mem: "rq_order_id r \<in> P" and f: "submit_and_accept_order q r t s = Inr (s', ord)"
  shows "pending (P - {rq_order_id r}) s' \<and> o_id ord = rq_order_id r"
proof -
  let ?k = "rq_order_id r"
  have ok: "oms_ok (pl_oms s)" using p by (simp add: pending_def)
  from f obtain ex o1 o2 where 1: "oms_submit (pl_oms s) (oms_order_of r ex) t (drawn_id q s 0) = Inr o1"
    and 2: "oms_accept o1 ?k t (drawn_id q (drew 1 (s\<lparr>pl_oms := o1\<rparr>)) 0) = Inr o2"
    and s': "s' = drew 1 ((drew 1 (s\<lparr>pl_oms := o1\<rparr>))\<lparr>pl_oms := o2\<rparr>)"
    and find: "book_find (os_orders o2) ?k = Inr ord"
    by (rule submit_and_accept_by)
  note sub = oms_submit_result [OF ok 1]
  have g1: "od_get (bk_orders (os_orders o1)) x = (if x = ?k then Some (oms_order_of r ex) else od_get (bk_orders (os_orders (pl_oms s))) x)" for x
    using sub(1,4) by (auto simp: od_get_def oms_order_of_def map_add_def split: option.splits)
  from 2 have "oms_step (Apply ?k (Accept t) [] (drawn_id q (drew 1 (s\<lparr>pl_oms := o1\<rparr>)) 0)) o1 = Inr o2" by simp
  with sub(3) show ?thesis
  proof (rule oms_apply_result)
    fix a b assume a: "od_get (bk_orders (os_orders o1)) ?k = Some a" and b: "order_apply (Accept t) a = Inr b"
      and ok2: "oms_ok o2" and bk: "bk_orders (os_orders o2) = od_set ?k b (bk_orders (os_orders o1))"
    have "is_open b" using b a g1 by (auto intro: accepted_open simp: oms_order_of_def)
    moreover have "order_in s' x = (if x = ?k then Some b else order_in s x)" for x
      using bk g1 s' by (simp add: order_in_def)
    ultimately have "pending (P - {?k}) s'"
      using p mem ok2 s' unfolding pending_def accounted_def at_work_def asked_for_def holds_capital_def by auto
    moreover have "o_id ord = ?k" using triggered_id [OF ok2 find] .
    ultimately show ?thesis by blast
  qed
qed

lemma pending_lives:
  assumes p: "pending P s" and l: "lives oid s s'" and out: "oid \<notin> P"
  shows "pending P s'"
proof -
  from p l out have ok: "oms_ok (pl_oms s')" and others: "leaves_others oid s s'" and here: "accounted oid s'"
    by (auto simp: pending_def lives_def)
  have "accounted x s'" if "x \<notin> P" for x
    using accounted_elsewhere [OF others] here p that by (cases "x = oid") (auto simp: pending_def)
  moreover have "asked_for x s' \<and> order_in s' x = None" if "x \<in> P" for x
    using others p that out unfolding leaves_others_def pending_def by metis
  ultimately show ?thesis using ok by (simp add: pending_def)
qed

lemma pending_routed_one:
  assumes p: "pending P s" and mem: "rq_order_id r \<in> P"
    and f: "route_one q e instant policy rates rest (s, out, asked) r = Inr (s', out', asked')"
  shows "pending (P - {rq_order_id r}) s'"
  using f
proof (cases rule: route_one_cases)
  case (Dropped s1 r' a o1)
  obtain u where "record_unpriced (rq_asset_id r') instant s = s\<lparr>pl_unpriced := u\<rparr>"
    using record_unpriced_fields by blast
  with Dropped(1) p have "pending P s1" by (auto intro: pending_same)
  from pending_dropped [OF this _ Dropped(2)] mem Dropped(3) show ?thesis by simp
next
  case (Placed r' a o1)
  have quiet: "pending P (drew 3 (s\<lparr>pl_risk := risk\<rparr>))" for risk by (rule pending_same [OF p]) simp_all
  from Placed(1) show ?thesis
  proof (cases rule: place_request_cases)
    case (Refused risk o2)
    from pending_dropped [OF quiet _ Refused] mem Placed(2) show ?thesis by simp
  next
    case (Placed risk s2 ord)
    note ids = \<open>rq_order_id r' = rq_order_id r\<close>
    from pending_placed [OF quiet _ Placed(1)] mem ids have s2: "pending (P - {rq_order_id r}) s2" and id: "o_id ord = rq_order_id r"
      by auto
    from Placed(2) show ?thesis
    proof
      assume "s' = s2"
      with s2 show ?thesis by simp
    next
      assume "\<exists>rs fs ts. work_order q ord e policy rates True None s2 = Inr (s', rs, fs, ts)"
      then obtain rs fs ts where work: "work_order q ord e policy rates True None s2 = Inr (s', rs, fs, ts)" by blast
      from s2 have "oms_ok (pl_oms s2)" by (simp add: pending_def)
      from lives.worked [OF this work] have "lives (rq_order_id r) s2 s'" unfolding id .
      then show ?thesis by (rule pending_lives [OF s2]) simp
    qed
  qed
qed

lemma pending_routed:
  assumes "pending (set (request_ids rs)) s" and "distinct (request_ids rs)"
    and "rfold (route_one q e instant policy rates rest) (s, out, asked) rs = Inr (s', out', asked')"
  shows "all_accounted s'"
  using assms
proof (induction rs arbitrary: s out asked)
  case Nil
  then show ?case by (simp add: request_ids_def pending_none)
next
  case (Cons r rs)
  from Cons.prems(3) obtain s1 out1 asked1 where
    one: "route_one q e instant policy rates rest (s, out, asked) r = Inr (s1, out1, asked1)"
    and more: "rfold (route_one q e instant policy rates rest) (s1, out1, asked1) rs = Inr (s', out', asked')"
    by (auto simp: rbind_eq_Inr)
  have "pending (set (request_ids (r # rs)) - {rq_order_id r}) s1"
    by (rule pending_routed_one [OF Cons.prems(1) _ one]) (simp add: request_ids_def)
  moreover have "set (request_ids (r # rs)) - {rq_order_id r} = set (request_ids rs)"
    using Cons.prems(2) by (auto simp: request_ids_def)
  ultimately show ?case using Cons.IH [OF _ _ more] Cons.prems(2) by (simp add: request_ids_def)
qed

lemma accounted_routed:
  assumes ok: "all_accounted s" and f: "route_intents q eids oids e intents policy rates s = Inr (s', out)"
    and fresh: "fresh_ids oids s"
  shows "all_accounted s'"
proof -
  from f obtain s1 rs where al: "allocate_intents eids oids intents rates (event_time e) s = Inr (s1, rs)"
    and rt: "route_requests q e None intents rs policy rates False s1 = Inr (s', out)"
    by (auto simp: route_intents_def rbind_eq_Inr)
  from al obtain b a where a: "allocate eids oids (pl_allocation s) intents b (event_time e) = Inr (a, rs)"
    and s1: "s1 = s\<lparr>pl_allocation := a\<rparr>" by (rule allocate_intents_fields)
  have em: "emitted_exactly oids (pl_allocation s) rs a" using allocate_ids [OF a] fresh by (simp add: fresh_ids_def)
  have p1: "pending (set (request_ids rs)) s1"
    using ok em fresh s1
    by (auto simp: pending_def all_accounted_def emitted_exactly_def fresh_ids_def accounted_def at_work_def asked_for_def
        holds_capital_def order_in_def)
  from rt obtain s0 asked where s0: "s0 = fold (\<lambda>asset. record_unpriced asset (event_time e)) (unpriced_intents intents rs s1) s1"
    and fold: "rfold (route_one q e (event_time e) policy rates False) (s0, no_routing, None) rs = Inr (s', out, asked)"
    by (auto simp: route_requests_def Let_def rbind_eq_Inr)
  from records_unpriced_fields obtain u where "s0 = s1\<lparr>pl_unpriced := u\<rparr>" unfolding s0 by blast
  then have "pending (set (request_ids rs)) s0" by (intro pending_same [OF p1]) simp_all
  from pending_routed [OF this _ fold] em show ?thesis by (simp add: emitted_exactly_def)
qed

section \<open>Every reached state\<close>

lemma accounted_step:
  assumes "pipeline_step q s s'" and ok: "all_accounted s"
  shows "all_accounted s'"
  using assms(1)
proof cases
  case (Funded amount currency t rates)
  then obtain pf where "sync_risk q rates t pf (drew 1 s) = Inr s'" by (auto simp: fund_def rbind_eq_Inr split: if_splits)
  from sync_risk_fields [OF this] show ?thesis by (auto intro: all_accounted_same [OF ok])
next
  case (Converted amount c1 c2 rates t c)
  then obtain pf where "sync_risk q rates t pf (drew 2 s) = Inr s'"
    by (auto simp: pipeline_convert_cash_def rbind_eq_Inr split: if_splits)
  from sync_risk_fields [OF this] show ?thesis by (auto intro: all_accounted_same [OF ok])
next
  case (Reported ord r rates fills trades)
  then show ?thesis using accounted_reported [OF ok] by blast
next
  case (Ended oid outcome t reason)
  with lives_ended terminal_outcome_by have "lives oid s s'" using ok unfolding all_accounted_def by blast
  with ok show ?thesis by (rule all_accounted_lives)
next
  case Opened
  then show ?thesis by (rule accounted_opened [OF ok])
next
  case Routed
  then show ?thesis by (rule accounted_routed [OF ok])
qed

lemma run_accounted: "pipeline_run q s \<Longrightarrow> all_accounted s"
proof (induction rule: pipeline_run.induct)
  case (start s)
  then have "oms_ok (pl_oms s)" using untraded_agrees by blast
  with start show ?case
    by (auto simp: all_accounted_def accounted_def at_work_def asked_for_def holds_capital_def order_in_def untraded_def
        oms_initial_def empty_book_def)
qed (rule accounted_step)

end
