(* ===== verification/Pipeline_Example.thy ===== *)
theory Pipeline_Example
  imports Pipeline_Requests Allocation_Example Portfolio_Example Risk_Gate
begin

text \<open>
  A run of the pipeline worked through by evaluation: two strategies ask for XYZ, their intents net to
  one order of ten that the gate admits and the OMS holds at work, and the venue reports it filled.
\<close>

definition sample_queries :: queries where
  "sample_queries = \<lparr>mint = (\<lambda>n. ''t2''), latency_draw = (\<lambda>x. FFin 0), zone_clock = (\<lambda>z t. Inr 0),
     uuid_text = (\<lambda>x. True), venue_blocks = (\<lambda>s a t p. Inr False), settles_at = (\<lambda>s a t. Inr None),
     calendar_missing = (\<lambda>s a. Inr False), day_order_close = (\<lambda>s a t. Inr None), session_bars = (\<lambda>s a. False),
     bought_on_margin = (\<lambda>s a. False), buy_in_terms = (\<lambda>s o'. Inr None), power_charge = (\<lambda>s r a u t b. Inr None),
     gate_margin = (\<lambda>s r x t. Inr None), gate_buckets = (\<lambda>s r p w. Inr []), margin_breached = (\<lambda>s r t. Inr False),
     short_of_margin = (\<lambda>s r x t. Inr False), unborrowable = (\<lambda>s r t. Inr False), band_limit = (\<lambda>s r t. Inr (Some None)),
     off_grid = (\<lambda>s r. Inr False)\<rparr>"

definition sample_limits :: risk_limits where
  "sample_limits = \<lparr>order_size = \<lparr>os_max_quantity = Fin 100 0, os_max_notional = Fin 10000 0\<rparr>,
     position_lim = \<lparr>pl_max_quantity = Fin 200 0, pl_max_notional = Fin 20000 0\<rparr>,
     exposure_lim = \<lparr>max_gross_exposure = Fin 20000 0, max_net_exposure = Fin 20000 0\<rparr>,
     leverage_lim = \<lparr>max_leverage = Fin 1 0\<rparr>, margin_lim = \<lparr>max_margin_utilization = Fin 1 0\<rparr>,
     daily_loss_lim = None, drawdown_lim = \<lparr>max_drawdown_pct = Fin 5 (-1)\<rparr>, classification = []\<rparr>"

definition sample_config :: pipeline_config where
  "sample_config = \<lparr>pc_account = example_account, pc_starting_cash = zero_cents, pc_budget = small_budget,
     pc_constraints = bt_constraints small_batch, pc_limits = sample_limits, pc_sizing = fixed_quantity ACCOUNTING_CONTEXT,
     pc_simulator = default_simulator, pc_venue = ''V'', pc_currency = ''USD'', pc_also_settles = [],
     pc_routing = EXTERNAL, pc_instruments = None, pc_fill_timing = SAME_EVENT\<rparr>"

definition sample_gate :: risk_state where
  "sample_gate = (risk_reset sample_limits)\<lparr>rs_cash := Fin 100000 (-2), buying_power := Fin 100000 (-2),
     peak_nav := Fin 100000 (-2), current_nav := Fin 100000 (-2)\<rparr>"

definition sample_start :: pipeline where
  "sample_start = \<lparr>pl_config = sample_config, pl_allocation = initialize small_budget, pl_risk = sample_gate,
     pl_oms = oms_initial, pl_execution = execution_initial, pl_portfolio = funded,
     pl_prices = [(''XYZ'', Fin 50 0)], pl_fills = [], pl_trades = [], pl_records = [], pl_unpriced = [], pl_drawn = 0\<rparr>"

definition no_rates :: fx_rates where
  "no_rates = \<lparr>fx_table = [], max_age = None, fx_units = []\<rparr>"

definition wish :: "string \<Rightarrow> int \<Rightarrow> intent" where
  "wish sid n = (ask sid n)\<lparr>instrument := ''XYZ''\<rparr>"

definition sample_bar :: market_event where
  "sample_bar = BarClosed (FFin 0) \<lparr>bar_asset = ''XYZ'', bar_open = Fin 50 0, bar_high = Fin 51 0, bar_low = Fin 49 0,
     bar_close = Fin 50 0, bar_volume = Fin 1000 0, bar_unit = DAY_UNIT, bar_time = FFin 0\<rparr>"

section \<open>Allocation\<close>

definition wished_batch :: batch where
  "wished_batch = small_batch\<lparr>bt_prices := [(''XYZ'', Fin 50 0)]\<rparr>"

lemmas run_defs = sample_start_def sample_config_def no_rates_def wish_def wished_batch_def oms_initial_def

lemma wished_batch:
  "allocation_batch sample_start [wish ''m'' 12, wish ''r'' (-2)] no_rates (FFin 0) = Inr wished_batch"
  by (simp add: allocation_batch_def budget_prices_def is_multi_currency_def committed_positions_def intent_assets_def
    committed_position_of_def working_orders_def working_orders_for_def held_quantity_def working_shares_def wanted_share_def
    strategy_ceiling_def grid_of_def economics_of_def listing_of_def book_get_def empty_positions_def funded_def run_defs batch_figures
    List.map_filter_def dec_eval)

lemma wishes_screened: "rfold screen ([], []) [wish ''m'' 12, wish ''r'' (-2)] = Inr ([wish ''m'' 12, wish ''r'' (-2)], [])"
  by (simp add: screen_def validate_intent_def strength_in_range_def intent_eq_def wish_def batch_figures dec_eval)

lemma wishes_sized: "sized_batch (initialize small_budget) wished_batch [wish ''m'' 12, wish ''r'' (-2)] [(''XYZ'', Fin 50 0)] [] =
   Inr ([(''m'', ''XYZ'', PLAIN_TERMS, Fin 12000000 (-6)), (''r'', ''XYZ'', PLAIN_TERMS, Fin (-2000000) (-6))], [], [])"
  by (simp add: sized_batch_def size_step_def size_one_def size_intent_def fixed_quantity_def QUANTITY_QUANTUM_def
    dec_quantize.simps wish_def wished_batch_def batch_figures rescale_def dec_eval)

lemma wishes_netted: "net_by_terms ACCOUNTING_CONTEXT [(''m'', ''XYZ'', PLAIN_TERMS, Fin 12000000 (-6)), (''r'', ''XYZ'', PLAIN_TERMS, Fin (-2000000) (-6))] =
  Inr [((''XYZ'', PLAIN_TERMS), Fin 10000000 (-6))]"
  by (simp add: net_by_terms_def net_step_def key_eq_def terms_eq_def opt_eq_def batch_figures dec_eval)

definition wished_shares where "wished_shares = [((''XYZ'', PLAIN_TERMS), [\<lparr>contributor = ''m'', contributed = Fin 12000000 (-6)\<rparr>,
  \<lparr>contributor = ''r'', contributed = Fin (-2000000) (-6)\<rparr>])]"

lemma shares_wished: "contributions_by_terms ACCOUNTING_CONTEXT [(''m'', ''XYZ'', PLAIN_TERMS, Fin 12000000 (-6)), (''r'', ''XYZ'', PLAIN_TERMS, Fin (-2000000) (-6))] =
  Inr wished_shares"
  by (simp add: wished_shares_def contributions_by_terms_def row_step_def key_eq_def terms_eq_def opt_eq_def contributions_from_def add_quantity_def
    contributions_ordered_def od_keys_def od_get_Cons batch_figures dec_eval)

definition wished_order :: order_request where
  "wished_order = \<lparr>rq_order_id = [], rq_strategy_id = [], rq_asset_id = ''XYZ'', rq_side = BUY, rq_quantity = Fin 10000000 (-6),
     rq_price = Fin 50 0, rq_timestamp = FFin 0, rq_contributions = snd (hd wished_shares), rq_terms = PLAIN_TERMS\<rparr>"

lemma wish_emitted: "emit_step counted_ids wished_batch (FFin 0) [(''XYZ'', Fin 50 0)] [] wished_shares \<lparr>nf_total = zero_cents, nf_emitted = [], nf_projected = Some [], nf_notes = []\<rparr>
   ((''XYZ'', PLAIN_TERMS), Fin 10000000 (-6)) = Inr \<lparr>nf_total = Fin 500000000 (-6), nf_emitted = [\<lparr>em_request = wished_order, em_commitment = Fin 500000000 (-6), em_reduces = False\<rparr>],
     nf_projected = Some [(''XYZ'', Fin 10000000 (-6))], nf_notes = [NettingCompleted ''XYZ'' (Fin 10000000 (-6)) BUY]\<rparr>"
  by (simp add: emit_step_def check_net_def validate_net_quantity_def validate_long_only_def emit_def exposure_added_def amount_or_zero_def
    net_request_def unit_value_of_def dec_max_def od_get_Cons key_eq_def terms_eq_def opt_eq_def wished_order_def wished_shares_def wished_batch_def batch_figures dec_eval)

definition after_wishes where
  "after_wishes = (initialize small_budget)\<lparr>al_history := [wished_order], notional_allocated := Fin 500000000 (-6),
     reservations := [([], Fin 500000000 (-6))], al_contributions := [([], rq_contributions wished_order)],
     al_events := stamp (\<lambda>k. []) (FFin 0) [AllocationStarted 2, NettingCompleted ''XYZ'' (Fin 10000000 (-6)) BUY,
       AllocationCompleted 1 (Fin 500000000 (-6))]\<rparr>"

lemma wishes_allocated:
  "allocate (\<lambda>k. []) counted_ids (initialize small_budget) [wish ''m'' 12, wish ''r'' (-2)] wished_batch (FFin 0) =
   Inr (after_wishes, [wished_order])"
proof -
  have u: "per_unit ACCOUNTING_CONTEXT (bt_prices wished_batch) (bt_multipliers wished_batch) = Inr [(''XYZ'', Fin 50 0)]"
    "per_unit ACCOUNTING_CONTEXT (bt_budget_prices wished_batch) (bt_multipliers wished_batch) = Inr []"
    by (simp_all add: per_unit_def small_batch_def wished_batch_def)
  have p: "bt_positions wished_batch = Some []" by (simp add: small_batch_def wished_batch_def)
  have b: "fits_budget (initialize small_budget) (Fin 500000000 (-6)) = Inr (True, Fin 100000 (-2))"
    by (simp add: fits_budget_def available_global_capital_def dec_max_def batch_figures dec_eval)
  have e: "book_emissions (initialize small_budget) []
      (sent_first [\<lparr>em_request = wished_order, em_commitment = Fin 500000000 (-6), em_reduces = False\<rparr>])
      (Fin 500000000 (-6)) = Inr (after_wishes\<lparr>al_events := []\<rparr>)"
    by (simp add: book_emissions_def reserve_shares_def sent_first_def after_wishes_def initialize_def wished_order_def dec_eval)
  have "allocate_batch counted_ids (initialize small_budget) [wish ''m'' 12, wish ''r'' (-2)] wished_batch (FFin 0) =
     Inr (after_wishes\<lparr>al_events := []\<rparr>, [wished_order],
       [NettingCompleted ''XYZ'' (Fin 10000000 (-6)) BUY, AllocationCompleted 1 (Fin 500000000 (-6))])"
    unfolding allocate_batch_def u rbind_Inr wishes_sized prod.case wishes_netted shares_wished p
    by (simp add: wish_emitted b e) (simp add: sent_first_def)
  then show ?thesis
    unfolding allocate_def wishes_screened rbind_Inr prod.case Let_def
    by (simp add: after_wishes_def initialize_def stamp_def)
qed

section \<open>The gate\<close>

definition wished_input :: gate_input where
  "wished_input = \<lparr>gi_position = dec_zero, gi_price = Some (Fin 50 0), gi_working = [], gi_buckets = [], gi_charge = None,
     gi_margin = None\<rparr>"

lemmas gate_figures = sample_gate_def sample_limits_def risk_reset_def no_exposure_def no_margin_def wished_input_def wished_order_def value_of_def
  PLAIN_TERMS_def

definition wished_projection :: risk_projection where
  "wished_projection = \<lparr>pj_asset_id = ''XYZ'', order_quantity = Fin 10000000 (-6), pj_price = Fin 50 0, committed_position = dec_zero,
      projected_position = Fin 10000000 (-6), committed_gross = zero_cents, projected_gross = Fin 500000000 (-6),
      committed_net = zero_cents, projected_net = Fin 500000000 (-6), increasing_notional = Fin 500000000 (-6),
      available_buying_power = Fin 100000 (-2), pj_nav = Fin 100000 (-2), margin_requirement = None, margin_equity = None\<rparr>"

lemma wish_projected: "projected_book sample_gate wished_order wished_input = Inr wished_projection"
  by (simp add: projected_book_def project_def signed_quantity_def growth_def reverses_def dec_max_def gate_figures
    wished_projection_def dec_eval)

lemma wish_checked: "found (all_checks ACCOUNTING_CONTEXT wished_order sample_gate wished_projection []) = Inr []"
proof -
  note w = wished_projection_def
  have g: "when_gross_grows wished_projection c = c" for c by (simp add: w when_gross_grows_def dec_eval)
  have r: "refuse_ratio n v (Fin 500000000 (-6)) (Fin 100000 (-2)) (Fin 1 0) = Inr None" for n v
    by (simp add: refuse_ratio_def refuse_above_def dec_eval)
  have i: "increases_exposure ACCOUNTING_CONTEXT wished_projection = Inr True"
    by (simp add: w increases_exposure_def grows_def dec_eval)
  have b: "drawdown_breach sample_gate = Inr None"
    by (simp add: drawdown_breach_def current_drawdown_pct_def dec_max_def refuse_above_def gate_figures dec_eval)
  have "check_order_size wished_order sample_gate wished_projection = Inr None"
    by (simp add: check_order_size_def w gate_figures refuse_above_def dec_eval)
  moreover have "check_position_limit ACCOUNTING_CONTEXT sample_gate wished_projection = Inr None"
    unfolding check_position_limit_def i
    by (simp add: w gate_figures refuse_above_def projected_position_value_def dec_eval)
  moreover have "check_margin sample_gate wished_projection = Inr None" "check_leverage sample_gate wished_projection = Inr None"
    unfolding check_margin_def check_leverage_def g by (simp_all add: w gate_figures r)
  moreover have "check_exposure sample_gate wished_projection = Inr None"
    unfolding check_exposure_def g by (simp add: w gate_figures refuse_above_def dec_eval)
  moreover have "check_net_exposure ACCOUNTING_CONTEXT sample_gate wished_projection = Inr None"
    by (simp add: check_net_exposure_def w gate_figures refuse_above_def dec_eval)
  moreover have "check_drawdown ACCOUNTING_CONTEXT sample_gate wished_projection = Inr None"
    by (simp add: check_drawdown_def b refuse_growth_def)
  moreover have "check_daily_loss ACCOUNTING_CONTEXT sample_gate wished_projection = Inr None"
    by (simp add: check_daily_loss_def refuse_growth_def daily_loss_breach_def gate_figures)
  moreover have "check_buying_power wished_projection = Inr None" by (simp add: check_buying_power_def w refuse_above_def dec_eval)
  ultimately show ?thesis by (simp add: found_Nil all_checks_def)
qed

lemma wish_approved:
  "\<exists>h ev d. evaluate ''t2'' ''t2'' ''t2'' sample_gate wished_order (FFin 0) wished_input =
     Inr (sample_gate\<lparr>rs_history := h, rs_events := ev\<rparr>, d) \<and> approved d"
proof -
  have v: "validate_order_request wished_order = Inr ()"
    by (simp add: validate_order_request_def wished_order_def dec_eval)
  have b: "breaches sample_gate = Inr []"
    by (simp add: breaches_def found_def drawdown_breach_def daily_loss_breach_def current_drawdown_pct_def dec_max_def
      refuse_above_def gate_figures dec_eval List.map_filter_simps)
  have c: "gi_buckets wished_input = []" by (simp add: wished_input_def)
  show ?thesis
    unfolding evaluate_def v wish_projected rbind_Inr c b wish_checked
    by (auto simp: decide_def approve_def wished_projection_def dec_eval)
qed

section \<open>The order at work\<close>

definition wished_at_work :: order where
  "wished_at_work = (oms_order_of wished_order None)\<lparr>o_status := ACCEPTED\<rparr>"

definition oms_at_work :: oms_state where
  "oms_at_work =
     \<lparr>os_orders = \<lparr>bk_orders = [([], wished_at_work)], bk_by_asset = [(''XYZ'', [[]])], bk_by_strategy = []\<rparr>,
      os_active = [[]], os_completed = [],
      os_history = [OrderSubmitted ''t2'' (FFin 0) [] (oms_order_of wished_order None), OrderAccepted ''t2'' (FFin 0) []],
      os_events = [OrderSubmitted ''t2'' (FFin 0) [] (oms_order_of wished_order None), OrderAccepted ''t2'' (FFin 0) []],
      os_working = [(''XYZ'', [[]])]\<rparr>"

lemma sample_statuses: "NEW \<in> WORKING_ORDER_STATUSES" "ACCEPTED \<in> WORKING_ORDER_STATUSES" "FILLED \<notin> WORKING_ORDER_STATUSES"
  by (simp_all add: WORKING_ORDER_STATUSES_def TERMINAL_ORDER_STATUSES_def enum_UNIV)

lemma wish_accepted: "order_accept (oms_order_of wished_order None) (FFin 0) = Inr wished_at_work"
  by (simp add: order_accept_def order_next_def next_order_status_def ORDER_TRANSITIONS_def wished_at_work_def
    oms_order_of_def wished_order_def)

lemmas oms_at_work_eval = oms_initial_def empty_book_def book_contains_def oms_store_def book_add_def with_member_def
  os_add_def os_discard_def store_working_def append_event_def book_find_def book_replace_def is_open_def sample_statuses
  oms_at_work_def od_get_Cons

lemma wish_valid: "validate_order (oms_order_of wished_order None) (FFin 0) = Inr ()"
  by (simp add: validate_order_def oms_order_of_def wished_order_def PLAIN_TERMS_def dec_eval)

lemma wished_fields: "o_id (oms_order_of wished_order None) = []" "o_asset (oms_order_of wished_order None) = ''XYZ''"
  "o_status (oms_order_of wished_order None) = NEW" "o_strategy (oms_order_of wished_order None) = []"
  "o_id wished_at_work = []" "o_asset wished_at_work = ''XYZ''" "o_status wished_at_work = ACCEPTED" "o_strategy wished_at_work = []"
  by (simp_all add: wished_at_work_def oms_order_of_def wished_order_def)

definition oms_new :: oms_state where
  "oms_new = oms_at_work\<lparr>os_orders := (os_orders oms_at_work)\<lparr>bk_orders := [([], oms_order_of wished_order None)]\<rparr>,
     os_history := [OrderSubmitted ''t2'' (FFin 0) [] (oms_order_of wished_order None)],
     os_events := [OrderSubmitted ''t2'' (FFin 0) [] (oms_order_of wished_order None)]\<rparr>"

lemma wish_submitted: "oms_submit oms_initial (oms_order_of wished_order None) (FFin 0) ''t2'' = Inr oms_new"
  unfolding oms_submit_def wish_valid by (simp add: oms_new_def oms_at_work_eval wished_fields)

lemma wish_taken: "oms_accept oms_new [] (FFin 0) ''t2'' = Inr oms_at_work"
proof -
  have f: "book_find (os_orders oms_new) [] = Inr (oms_order_of wished_order None)"
    by (simp add: oms_new_def book_find_def od_get_Cons)
  show ?thesis
    unfolding oms_accept_def f rbind_Inr wish_accepted by (simp add: oms_new_def oms_at_work_eval wished_fields Let_def)
qed

definition sample_working :: "risk_state \<Rightarrow> pipeline" where
  "sample_working risk = sample_start\<lparr>pl_allocation := after_wishes, pl_risk := risk, pl_oms := oms_at_work, pl_drawn := 5\<rparr>"

lemma wish_routed:
  "\<exists>h ev out. route_intents sample_queries (\<lambda>k. []) counted_ids sample_bar [wish ''m'' 12, wish ''r'' (-2)] ImmediateFill no_rates
      sample_start = Inr (sample_working (sample_gate\<lparr>rs_history := h, rs_events := ev\<rparr>), out)"
proof -
  let ?s = "sample_start\<lparr>pl_allocation := after_wishes\<rparr>"
  obtain h ev d where e: "evaluate ''t2'' ''t2'' ''t2'' sample_gate wished_order (FFin 0) wished_input =
     Inr (sample_gate\<lparr>rs_history := h, rs_events := ev\<rparr>, d)" "approved d" using wish_approved by blast
  have t: "event_time sample_bar = FFin 0" by (simp add: sample_bar_def)
  have al: "allocate_intents (\<lambda>k. []) counted_ids [wish ''m'' 12, wish ''r'' (-2)] no_rates (FFin 0) sample_start = Inr (?s, [wished_order])"
    using wishes_allocated by (simp add: allocate_intents_def wished_batch) (simp add: sample_start_def)
  have risk: "evaluate_risk sample_queries wished_order (FFin 0) no_rates ?s =
      Inr (drew 3 (?s\<lparr>pl_risk := sample_gate\<lparr>rs_history := h, rs_events := ev\<rparr>\<rparr>), d)"
    using e
    by (simp add: evaluate_risk_def gate_price_def price_in_base_def settlement_currency_for_def listing_of_def economics_of_def
      unit_value_def working_exposure_of_def held_quantity_def book_get_def empty_positions_def drawn_id_def
      sample_queries_def wished_input_def run_defs funded_def example_account_def wished_order_def)
  have same: "pl_oms sample_start = oms_initial" "pl_config sample_start = sample_config" "pl_drawn sample_start = 0" "pl_prices sample_start = [(''XYZ'', Fin 50 0)]"
    "pf_positions (pl_portfolio sample_start) = empty_positions" "pf_unsettled (pl_portfolio sample_start) = []" "pl_risk sample_start = sample_gate"
    by (simp_all add: sample_start_def funded_def)
  have cfg: "pc_routing sample_config = EXTERNAL" "pc_instruments sample_config = None" "is_multi_currency sample_config = False"
    by (simp_all add: sample_config_def is_multi_currency_def)
  have q: "margin_breached sample_queries s r t = Inr False" "short_of_margin sample_queries s r' x t = Inr False"
    "unborrowable sample_queries s x t = Inr False" "band_limit sample_queries s x t = Inr (Some None)"
    "off_grid sample_queries s x = Inr False" "calendar_missing sample_queries s a = Inr False" "mint sample_queries n = ''t2''" for s r r' x t a n
    by (simp_all add: sample_queries_def)
  have w: "rq_asset_id wished_order = ''XYZ''" "rq_side wished_order = BUY" "rq_order_id wished_order = []" "rq_terms wished_order = PLAIN_TERMS"
    by (simp_all add: wished_order_def)
  have g: "increases ?s wished_order = Inr True"
    by (simp add: increases_def growth_of_def held_quantity_def same w signed_fill_def book_get_def empty_positions_def reverses_def
      dec_max_def wished_order_def dec_eval)
  have m: "margin_refused sample_queries no_rates (FFin 0) ?s None wished_order = Inr (False, Some False)"
    by (simp add: margin_refused_def g q)
  have b: "banded sample_queries (FFin 0) ?s wished_order = Inr (Some wished_order)" by (simp add: banded_def q)
  have v: "request_verdict sample_queries (FFin 0) ?s wished_order = Inr Admitted"
    by (simp add: request_verdict_def q same w od_get_Cons settlement_refused_def listing_of_def cfg currency_cash_refused_def
      undelivered_refused_def terms_refused_def PLAIN_TERMS_def)
  have sub: "submit_and_accept_order sample_queries wished_order (FFin 0)
      (drew 3 (?s\<lparr>pl_risk := sample_gate\<lparr>rs_history := h, rs_events := ev\<rparr>\<rparr>)) =
      Inr (sample_working (sample_gate\<lparr>rs_history := h, rs_events := ev\<rparr>), wished_at_work)"
    using wish_submitted wish_taken
    by (simp add: submit_and_accept_order_def with_oms_def cfg same w PLAIN_TERMS_def drawn_id_def q Let_def
      wished_fields oms_at_work_eval od_get_Cons sample_working_def drew_def sample_start_def)
  have "pc_routing (pl_config (sample_working risk)) \<noteq> SIMULATED" for risk by (simp add: sample_working_def same cfg)
  then have place: "place_request sample_queries sample_bar (FFin 0) ImmediateFill no_rates False wished_order (Some False) no_routing ?s =
      Inr (sample_working (sample_gate\<lparr>rs_history := h, rs_events := ev\<rparr>),
       no_routing\<lparr>rt_decisions := [d], rt_orders := [wished_at_work]\<rparr>, Some False)"
    unfolding place_request_def risk rbind_Inr prod.case Let_def sub using e(2) by (simp add: no_routing_def)
  have "route_one sample_queries sample_bar (FFin 0) ImmediateFill no_rates False (?s, no_routing, None) wished_order =
     Inr (sample_working (sample_gate\<lparr>rs_history := h, rs_events := ev\<rparr>),
       no_routing\<lparr>rt_decisions := [d], rt_orders := [wished_at_work]\<rparr>, Some False)"
    unfolding route_one_def prod.case m rbind_Inr b by (simp add: v place)
  then have "route_requests sample_queries sample_bar None [wish ''m'' 12, wish ''r'' (-2)] [wished_order] ImmediateFill no_rates False ?s =
      Inr (sample_working (sample_gate\<lparr>rs_history := h, rs_events := ev\<rparr>), no_routing\<lparr>rt_decisions := [d], rt_orders := [wished_at_work]\<rparr>)"
    by (simp add: route_requests_def t unpriced_intents_def intent_assets_def wish_def ask_def same od_get_Cons)
  then show ?thesis by (simp add: route_intents_def t al) blast
qed

section \<open>The fill reported\<close>

definition sample_report :: execution_report where
  "sample_report = \<lparr>er_execution_id = ''x1'', er_order_id = [], er_asset_id = ''XYZ'', er_strategy_id = [],
     er_timestamp = FFin 2, er_price = Fin 50 0, er_quantity = Fin 10 0, er_commission = Fin 1 0, er_slippage = Fin 0 0,
     er_liquidity = ''TAKER'', er_venue = ''V'', er_currency = ''USD'', er_status = FULL_FILL\<rparr>"

definition wished_filled :: order where
  "wished_filled = wished_at_work\<lparr>o_status := FILLED, o_filled := Fin 10 0, o_remaining := Fin 0 (-6),
     o_average := Fin 50 0, o_updated := FFin 2\<rparr>"

lemma wish_filled: "order_fill wished_at_work (Fin 10 0) (Fin 50 0) (FFin 2) = Inr wished_filled"
  by (simp add: order_fill_def order_next_def next_order_status_def ORDER_TRANSITIONS_def wished_filled_def filled_by_def
    wished_at_work_def oms_order_of_def wished_order_def plain_def dec_eval)

definition oms_done :: oms_state where
  "oms_done = oms_at_work\<lparr>os_orders := (os_orders oms_at_work)\<lparr>bk_orders := [([], wished_filled)]\<rparr>, os_active := [],
     os_completed := [[]], os_working := [],
     os_history := os_history oms_at_work @ [OrderFilled ''t2'' (FFin 2) [] (Fin 10 0) (Fin 50 0)],
     os_events := os_events oms_at_work @ [OrderFilled ''t2'' (FFin 2) [] (Fin 10 0) (Fin 50 0)]\<rparr>"

lemma wish_done: "oms_fill oms_at_work [] (Fin 10 0) (Fin 50 0) (FFin 2) ''t2'' = Inr oms_done"
proof -
  have f: "book_find (os_orders oms_at_work) [] = Inr wished_at_work"
    by (simp add: oms_at_work_def book_find_def od_get_Cons)
  have w: "o_id wished_filled = []" "o_asset wished_filled = ''XYZ''" "o_status wished_filled = FILLED"
    by (simp_all add: wished_filled_def wished_fields)
  show ?thesis
    unfolding oms_fill_def f rbind_Inr wish_filled by (simp add: oms_done_def oms_at_work_eval w Let_def od_del_def)
qed

lemma split_context: "prec SPLIT_CONTEXT = 28" "rmode SPLIT_CONTEXT = ROUND_HALF_EVEN" "Etiny SPLIT_CONTEXT = -1000026"
  "Etop SPLIT_CONTEXT = 999972" "Emin SPLIT_CONTEXT = -999999" "Emax SPLIT_CONTEXT = 999999"
  by (simp_all add: SPLIT_CONTEXT_def Etiny_def Etop_def)

lemma wish_split:
  "split_by_contribution (Fin 10 0) (rq_contributions wished_order) POSITION_QUANTUM =
     Inr [(''m'', Fin 12000000000000 (-12)), (''r'', Fin (-2000000000000) (-12))]"
  by (simp add: split_by_contribution_def net_of_def next_share_def split_context wished_order_def wished_shares_def
    POSITION_QUANTUM_def dec_quantize.simps rescale_def dec_eval)

definition booked_wishes :: allocation_state where
  "booked_wishes = after_wishes\<lparr>strategy_positions := Some [(''m'', [(''XYZ'', Fin 12000000000000 (-12))]),
       (''r'', [(''XYZ'', Fin (-2000000000000) (-12))])]\<rparr>"

lemma wish_booked: "record_fill after_wishes [] ''XYZ'' (Fin 10 0) (Some (Fin 500 0)) = Inr booked_wishes"
proof -
  have c: "contributions_for after_wishes [] = rq_contributions wished_order" "rq_contributions wished_order \<noteq> []"
    "strategy_positions after_wishes = Some []" "strategy_capitals after_wishes = []"
    "budget after_wishes = small_budget" "enforce_strategy_budgets small_budget = False"
    by (simp_all add: contributions_for_def after_wishes_def od_get_Cons wished_order_def wished_shares_def initialize_def
      small_budget_def)
  show ?thesis
    by (simp add: record_fill_def c wish_split fill_share_def set_position_def od_get_Cons booked_wishes_def
      own_position_def dec_eval)
qed

definition spent_wishes :: allocation_state where
  "spent_wishes = booked_wishes\<lparr>notional_allocated := Fin 0 (-6), reservations := [],
     al_events := al_events after_wishes @ [\<lparr>ae_id = ''t2'', ae_timestamp = FFin 2,
       ae_note = AllocationExecutionApplied [] (Fin 500 0)\<rparr>]\<rparr>"

lemma wish_spent: "apply_execution ''t2'' booked_wishes [] (Fin 500 0) (FFin 2) = Inr spent_wishes"
  by (simp add: apply_execution_def consume_def dec_min_def booked_wishes_def spent_wishes_def after_wishes_def od_get_Cons
    od_del_def dec_eval)

lemma holding_cash: "cash_in ACCOUNTING_CONTEXT (pf_cash holding) ''USD'' no_rates (Some (FFin 2)) (Some []) = Inr (Fin 49900 (-2), [])"
  by (simp add: cash_in_def holding_def ZERO_MONEY_def dec_eval)

lemma holding_totals:
  "book_totals (pf_positions holding) ''USD'' = \<lparr>n_positions = 1, longs = 1, shorts = 0, long_value = Fin 50000 (-2),
     short_value = Fin 0 0, total_unrealized = Fin 0 (-2), uncarried_value = Fin 0 0\<rparr>"
  "book_currencies (pf_positions holding) = [''USD'']"
  by (simp_all add: book_totals_def totals_or_none_def book_currencies_def holding_def holding_book_def od_get_Cons od_keys_def)

lemma holding_worth: "nav_calculate (pf_cash holding) (pf_positions holding) ''USD'' no_rates (Some (FFin 2)) = Inr (Fin 99900 (-2))"
proof -
  have "pf_cash holding = \<lparr>balances = [(''USD'', Fin 49900 (-2))], reserved = []\<rparr>" by (simp add: holding_def)
  then show ?thesis
    by (simp add: nav_calculate_def assert_single_currency_def foreign_currencies_def holding_totals cash_balance_def amount_of_def
      od_get_Cons Let_def dec_eval)
qed

lemma holding_account: "base_currency (pf_account holding) = ''USD''" "account_units (pf_account holding) = []" "pf_unsettled holding = []"
  by (simp_all add: holding_def example_account_def)

lemma holding_exposed: "\<exists>x. risk_exposure None holding no_rates (FFin 2) = Inr x"
  by (simp add: risk_exposure_def holding_account holding_totals exposure_of_def Let_def dec_eval)

lemma sample_marked:
  "\<exists>risk. mark wc (update_margin e1 (update_exposure e2 (sample_gate\<lparr>rs_history := h, rs_events := ev\<rparr>) x t) m t)
     (Fin 99900 (-2)) (Fin 49900 (-2)) t = Inr risk"
  by (simp add: mark_def update_exposure_def update_margin_def gate_figures dec_max_def dec_eval)

lemma holding_synced:
  assumes "pl_config s = sample_config" "pl_risk s = sample_gate\<lparr>rs_history := h, rs_events := ev\<rparr>"
  shows "\<exists>risk. sync_risk sample_queries no_rates (FFin 2) holding s = Inr (drew 2 (s\<lparr>pl_portfolio := holding, pl_risk := risk\<rparr>))"
proof -
  obtain x where x: "risk_exposure None holding no_rates (FFin 2) = Inr x" using holding_exposed by blast
  have c: "pc_instruments sample_config = None" by (simp add: sample_config_def)
  let ?m = "no_margin\<lparr>available_margin := Fin 99900 (-2), margin_used := gross_exposure x\<rparr>"
  obtain risk where r: "mark (zone_clock sample_queries) (update_margin (drawn_id sample_queries s 1)
      (update_exposure (drawn_id sample_queries s 0) (pl_risk s) x (FFin 2)) ?m (FFin 2)) (Fin 99900 (-2)) (Fin 49900 (-2)) (FFin 2) = Inr risk"
    unfolding assms(2) using sample_marked by blast
  show ?thesis
    unfolding sync_risk_def Let_def holding_account holding_cash rbind_Inr prod.case holding_worth assms(1) c x r by (simp, rule exI, rule refl)
qed

section \<open>The report applied\<close>

lemma wish_bought:
  assumes "pl_config s = sample_config" "pl_risk s = sample_gate\<lparr>rs_history := h, rs_events := ev\<rparr>" "pl_portfolio s = funded"
  shows "\<exists>n risk rec. report_to_portfolio sample_queries sample_report BUY no_rates s =
     Inr (drew n (s\<lparr>pl_portfolio := holding, pl_risk := risk, pl_records := pl_records s @ [rec]\<rparr>))"
proof -
  from holding_synced [of "drew 1 s"] assms obtain risk where
    "sync_risk sample_queries no_rates (FFin 2) holding (drew 1 s) = Inr (drew 2 ((drew 1 s)\<lparr>pl_portfolio := holding, pl_risk := risk\<rparr>))"
    by auto
  moreover have "settles sample_config ''USD''" by (simp add: settles_def sample_config_def)
  moreover have "economics_of s a = None" for a by (simp add: economics_of_def listing_of_def assms sample_config_def)
  moreover have "settles_at sample_queries s a t = Inr None" "mint sample_queries k = ''t2''" "bought_on_margin sample_queries s a = False" for a t k
    by (simp_all add: sample_queries_def)
  moreover have "er_currency sample_report = ''USD''" "er_quantity sample_report = Fin 10 0" "er_price sample_report = Fin 50 0"
    "er_asset_id sample_report = ''XYZ''" "er_timestamp sample_report = FFin 2" "er_commission sample_report = Fin 1 0"
    by (simp_all add: sample_report_def)
  moreover obtain rec where "trade_record_of sample_report (drop (length (pf_events funded)) (pf_events holding))
      (opened_of funded ''XYZ'') (contributions_for (pl_allocation s) (er_order_id sample_report)) (sector_for s ''XYZ'') = Inr rec"
    by (simp add: trade_record_of_def sample_report_def dec_eval)
  ultimately show ?thesis using example_fill assms
    by (intro exI [of _ 3] exI [of _ risk] exI [of _ rec])
      (simp add: report_to_portfolio_def signed_fill_def purchased_on_margin_def drawn_id_def drew_def dec_eval)
qed

definition sample_fill :: core_fill where
  "sample_fill = \<lparr>fl_fill_id = ''t2'', fl_order_id = [], fl_asset_id = ''XYZ'', fl_side = BUY,
     fl_quantity = Fin 10 0, fl_price = Fin 50 0, fl_filled_at = FFin 2, fl_commission = Fin 1 0\<rparr>"

definition sample_trade :: core_trade where
  "sample_trade = \<lparr>tr_trade_id = ''t2'', tr_asset_id = ''XYZ'', tr_side = BUY, tr_quantity = Fin 10 0,
     tr_average_price = Fin 50 0, tr_fill_ids = [''t2''], tr_executed_at = FFin 2, tr_order_id = Some []\<rparr>"

definition closed_wishes :: allocation_state where
  "closed_wishes = spent_wishes\<lparr>al_contributions := []\<rparr>"

definition sample_execution :: execution_state where
  "sample_execution = execute ''t2'' execution_initial sample_report"

lemma wish_reported:
  assumes "risk = sample_gate\<lparr>rs_history := h, rs_events := ev\<rparr>"
  shows "\<exists>n risk' rec. apply_execution_report sample_queries wished_at_work sample_report no_rates (sample_working risk) =
     Inr ((sample_working risk')\<lparr>pl_oms := oms_done, pl_execution := sample_execution, pl_portfolio := holding,
            pl_allocation := closed_wishes, pl_fills := [sample_fill], pl_trades := [sample_trade], pl_records := [rec], pl_drawn := n\<rparr>,
          [sample_fill], [sample_trade])"
proof -
  note figures = sample_report_def
  have k: "mint sample_queries n = ''t2''" "uuid_text sample_queries x = True" for n x by (simp_all add: sample_queries_def)
  have e: "er_status sample_report = FULL_FILL" "er_execution_id sample_report = ''x1''" "er_order_id sample_report = []"
    "er_quantity sample_report = Fin 10 0" "er_price sample_report = Fin 50 0" "er_timestamp sample_report = FFin 2"
    "er_asset_id sample_report = ''XYZ''" "er_commission sample_report = Fin 1 0" "er_currency sample_report = ''USD''"
    by (simp_all add: figures)
  have w: "o_id wished_at_work = []" "o_side wished_at_work = BUY" "o_metadata wished_at_work = [(REFERENCE_PRICE, dec_str (Fin 50 0))]"
    by (simp_all add: wished_at_work_def oms_order_of_def wished_order_def)
  let ?s0 = "drew 1 ((sample_working risk)\<lparr>pl_execution := sample_execution\<rparr>)"
  have rec: "record_venue_execution sample_queries wished_at_work sample_report (sample_working risk) = Inr ?s0"
    by (simp add: record_venue_execution_def e drawn_id_def k sample_execution_def sample_working_def sample_start_def)
  have found: "book_find (os_orders (pl_oms ?s0)) [] = Inr wished_at_work"
    by (simp add: sample_working_def oms_at_work_def book_find_def od_get_Cons)
  let ?s1 = "drew 1 (?s0\<lparr>pl_oms := oms_done\<rparr>)"
  have oms: "report_to_oms sample_queries [] sample_report ?s0 = Inr ?s1"
    using wish_done by (simp add: report_to_oms_def e with_oms_def drawn_id_def k sample_working_def)
  have can: "canonical_execution sample_queries ?s1 sample_report BUY = Inr (sample_fill, sample_trade)"
    by (simp add: canonical_execution_def e k refuse_domain_def drawn_id_def sample_fill_def sample_trade_def dec_eval)
  have pre: "pl_config (drew 2 ?s1) = sample_config" "pl_risk (drew 2 ?s1) = sample_gate\<lparr>rs_history := h, rs_events := ev\<rparr>"
    "pl_portfolio (drew 2 ?s1) = funded"
    by (simp_all add: sample_working_def sample_start_def assms)
  obtain n risk' rec where bought: "report_to_portfolio sample_queries sample_report BUY no_rates (drew 2 ?s1) =
     Inr (drew n ((drew 2 ?s1)\<lparr>pl_portfolio := holding, pl_risk := risk', pl_records := pl_records (drew 2 ?s1) @ [rec]\<rparr>))"
    using wish_bought [OF pre] by blast
  let ?s2 = "drew n ((drew 2 ?s1)\<lparr>pl_portfolio := holding, pl_risk := risk', pl_records := pl_records (drew 2 ?s1) @ [rec]\<rparr>)"
  have worth: "executed_value sample_report no_rates ?s2 = Inr (Fin 500 0)"
    by (simp add: executed_value_def e unit_value_def economics_of_def listing_of_def in_budget_currency_def sample_working_def
      sample_start_def sample_config_def small_budget_def Let_def dec_eval)
  have al: "report_to_allocation sample_queries sample_report BUY no_rates ?s2 = Inr (drew 1 (?s2\<lparr>pl_allocation := spent_wishes\<rparr>))"
    unfolding report_to_allocation_def worth rbind_Inr
    using wish_booked wish_spent by (simp add: e signed_fill_def drawn_id_def k sample_working_def)
  have rel: "release_if_terminal sample_queries [] (FFin 2) (drew 1 (?s2\<lparr>pl_allocation := spent_wishes\<rparr>)) =
      Inr (drew 1 (?s2\<lparr>pl_allocation := closed_wishes\<rparr>))"
    by (simp add: release_if_terminal_def book_contains_def book_find_def oms_done_def oms_at_work_def od_get_Cons is_open_def
      wished_filled_def sample_statuses retire_dropped_request_def release_held_def retire_contributions_def
      spent_wishes_def booked_wishes_def after_wishes_def initialize_def closed_wishes_def od_del_def drew_def)
  have new: "od_get (ex_reports (pl_execution (sample_working risk))) (er_execution_id sample_report) = None"
    by (simp add: sample_working_def sample_start_def execution_initial_def)
  have unlabelled: "map_of (o_metadata wished_at_work) BUY_IN = None" by (simp add: w REFERENCE_PRICE_def BUY_IN_def)
  have "apply_report sample_queries wished_at_work no_rates (?s0, [], []) sample_report =
      Inr (drew 1 (?s2\<lparr>pl_allocation := closed_wishes\<rparr>), [sample_fill], [sample_trade])"
    unfolding apply_report_def prod.case w(1,2) found rbind_Inr oms can bought unlabelled
    by (simp only: simp_thms if_False rbind_Inr al e(6) rel append_Nil)
  then show ?thesis
    unfolding apply_execution_report_def new rec rbind_Inr apply_reports_def
    by (intro exI) (auto simp: drew_def sample_working_def sample_start_def)
qed

section \<open>The run\<close>

lemma sample_begun: "pipeline_run sample_queries sample_start"
  by (rule pipeline_run.start)
    (simp add: untraded_def sample_start_def trade_entries_def is_trade_def funded_def deposit_tx_def initialize_def)

lemma sample_run:
  obtains s1 s2 where "pipeline_run sample_queries s1" "pl_oms s1 = oms_at_work" "pl_allocation s1 = after_wishes"
    "apply_execution_report sample_queries wished_at_work sample_report no_rates s1 = Inr (s2, [sample_fill], [sample_trade])"
    "pipeline_run sample_queries s2" "pl_oms s2 = oms_done" "pl_execution s2 = sample_execution" "pl_fills s2 = [sample_fill]"
    "pl_portfolio s2 = holding" "pl_allocation s2 = closed_wishes"
proof -
  obtain h ev out where r: "route_intents sample_queries (\<lambda>k. []) counted_ids sample_bar [wish ''m'' 12, wish ''r'' (-2)] ImmediateFill
      no_rates sample_start = Inr (sample_working (sample_gate\<lparr>rs_history := h, rs_events := ev\<rparr>), out)"
    using wish_routed by blast
  let ?s1 = "sample_working (sample_gate\<lparr>rs_history := h, rs_events := ev\<rparr>)"
  have "fresh_ids counted_ids sample_start"
    by (auto simp: fresh_ids_def inj_def counted_ids_def order_in_def sample_start_def oms_initial_def empty_book_def
        initialize_def dest: arg_cong [of _ _ length])
  then have one: "pipeline_run sample_queries ?s1" by (rule pipeline_run.move [OF sample_begun Routed [OF r]])
  obtain n risk' rec where rep: "apply_execution_report sample_queries wished_at_work sample_report no_rates ?s1 =
     Inr ((sample_working risk')\<lparr>pl_oms := oms_done, pl_execution := sample_execution, pl_portfolio := holding,
            pl_allocation := closed_wishes, pl_fills := [sample_fill], pl_trades := [sample_trade], pl_records := [rec], pl_drawn := n\<rparr>,
          [sample_fill], [sample_trade])"
    using wish_reported [OF refl] by blast
  have two: "pipeline_run sample_queries ((sample_working risk')\<lparr>pl_oms := oms_done, pl_execution := sample_execution,
      pl_portfolio := holding, pl_allocation := closed_wishes, pl_fills := [sample_fill], pl_trades := [sample_trade],
      pl_records := [rec], pl_drawn := n\<rparr>)"
    by (rule pipeline_run.move [OF one Reported [OF rep]]) (simp_all add: sample_report_def wished_fields)
  show thesis by (rule that [OF one _ _ rep two]) (simp_all add: sample_working_def)
qed

end
