(* ===== verification/Pipeline_Properties.thy ===== *)
theory Pipeline_Properties
  imports Pipeline_Example
begin

text \<open>
  What every reached state of the pipeline satisfies, and what a report delivered twice does: the
  properties of the pipeline, on the runs of \<open>Pipeline_Run\<close>.
\<close>

section \<open>Contributions and orders\<close>

lemma held_for_open_orders:
  assumes "all_accounted s"
  shows "(od_get (al_contributions (pl_allocation s)) oid \<noteq> None \<longleftrightarrow>
      (\<exists>ord. od_get (bk_orders (os_orders (pl_oms s))) oid = Some ord \<and> is_open ord)) \<and>
    (od_get (reservations (pl_allocation s)) oid \<noteq> None \<longrightarrow>
      (\<exists>ord. od_get (bk_orders (os_orders (pl_oms s))) oid = Some ord \<and> is_open ord))"
proof -
  have "accounted oid s" using assms by (simp add: all_accounted_def)
  then show ?thesis
    by (cases "od_get (bk_orders (os_orders (pl_oms s))) oid")
      (simp_all add: accounted_def asked_for_def holds_capital_def at_work_def order_in_def)
qed

text \<open>C3: in every state a run of the pipeline reaches, the strategies' shares in an order are kept exactly
  while the order is open in the OMS, and capital is reserved for nothing but an open order. Whatever ends
  an order, a venue's last fill, a cancellation, an expiry, a refusal before or at the gate, gives back
  what was held for it, and nothing else does.
\<close>

theorem held_exactly_while_open:
  assumes "pipeline_run q s"
  shows "(od_get (al_contributions (pl_allocation s)) oid \<noteq> None \<longleftrightarrow>
      (\<exists>ord. od_get (bk_orders (os_orders (pl_oms s))) oid = Some ord \<and> is_open ord)) \<and>
    (od_get (reservations (pl_allocation s)) oid \<noteq> None \<longrightarrow>
      (\<exists>ord. od_get (bk_orders (os_orders (pl_oms s))) oid = Some ord \<and> is_open ord))"
  by (rule held_for_open_orders [OF run_accounted [OF assms]])

theorem held_exactly_while_open_witness:
  "\<exists>(s1 :: pipeline) (s2 :: pipeline). pl_oms s1 = oms_at_work \<and> pl_oms s2 = oms_done \<and>
     od_get (al_contributions (pl_allocation s1)) [] \<noteq> None \<and> od_get (al_contributions (pl_allocation s2)) [] = None \<and>
     od_get (reservations (pl_allocation s2)) [] = None"
proof (rule sample_run)
  fix s1 s2
  assume r: "pipeline_run sample_queries s1" "pipeline_run sample_queries s2" and o: "pl_oms s1 = oms_at_work" "pl_oms s2 = oms_done"
  have "\<exists>ord. od_get (bk_orders (os_orders (pl_oms s1))) [] = Some ord \<and> is_open ord"
    by (simp add: o oms_at_work_def od_get_Cons is_open_def sample_statuses wished_fields)
  with held_exactly_while_open [OF r(1), of "[]"] have "od_get (al_contributions (pl_allocation s1)) [] \<noteq> None" by blast
  moreover have "\<not> (\<exists>ord. od_get (bk_orders (os_orders (pl_oms s2))) [] = Some ord \<and> is_open ord)"
    by (simp add: o oms_done_def od_get_Cons is_open_def sample_statuses wished_filled_def)
  with held_exactly_while_open [OF r(2), of "[]"] have "od_get (al_contributions (pl_allocation s2)) [] = None"
    "od_get (reservations (pl_allocation s2)) [] = None" by blast+
  ultimately show ?thesis using o by (intro exI [of _ s1] exI [of _ s2]) simp
qed

section \<open>Fills\<close>

text \<open>C2: in every state a run of the pipeline reaches, the execution history, the canonical fills and trades,
  the trade records, the fill events of the OMS and the trades of the portfolio's ledger have the same
  length and agree line by line, in order; each names an order of the book; and what an order has filled
  is the sum of the quantities reported for it. A fill is booked once, in every ledger or in none.
\<close>

theorem every_fill_booked_once:
  assumes "pipeline_run q s"
  shows "books_agree s"
  using run_books [OF assms] by (rule conjunct2)

theorem every_fill_booked_once_witness:
  "\<exists>s :: pipeline. books_agree s \<and> ex_history (pl_execution s) = [sample_report] \<and> pl_fills s = [sample_fill] \<and>
     trade_entries (pl_portfolio s) = [buy_tx]"
proof (rule sample_run)
  fix s2
  assume r: "pipeline_run sample_queries s2" and f: "pl_execution s2 = sample_execution" "pl_fills s2 = [sample_fill]" "pl_portfolio s2 = holding"
  have "trade_entries holding = [buy_tx]" by (simp add: trade_entries_def is_trade_def holding_def deposit_tx_def buy_tx_def)
  with every_fill_booked_once [OF r] f show ?thesis
    by (intro exI [of _ s2]) (simp add: sample_execution_def execute_def record_report_def execution_initial_def)
qed

section \<open>A report delivered twice\<close>

lemma report_is_known:
  assumes ok: "oms_ok (pl_oms s)" and f: "apply_execution_report q ord r rates s = Inr (s', fills, trades)"
    and st: "er_status r \<in> {FULL_FILL, PARTIAL_FILL}"
  shows "reported_id (er_execution_id r) s'"
proof (cases "od_get (ex_reports (pl_execution s)) (er_execution_id r) = None")
  case False
  with f show ?thesis by (auto simp: apply_execution_report_def reported_id_def)
next
  case True
  with f obtain s1 where rec: "record_venue_execution q ord r s = Inr s1"
    and ap: "apply_reports q ord rates [r] s1 = Inr (s', fills, trades)"
    by (auto simp: apply_execution_report_def rbind_eq_Inr)
  from recorded_fields [OF rec] obtain n x where x: "s1 = drew n (s\<lparr>pl_execution := x\<rparr>)"
    "ex_reports x = od_set (er_execution_id r) r (ex_reports (pl_execution s))" by blast
  have ok1: "oms_ok (pl_oms s1)" using ok x by simp
  from ok1 st ap have "pl_execution s' = pl_execution s1" by (rule one_report)
  with x show ?thesis by (simp add: reported_id_def)
qed

text \<open>C4: a venue's report is applied once. After a fill has been applied in a reached state, and after any
  further steps of the run, a report with the same execution identifier is accepted, changes nothing and
  answers with no fill and no trade, whatever order, prices or rates it is delivered with.
\<close>

theorem redelivered_report_changes_nothing:
  assumes "pipeline_run q s" and "apply_execution_report q ord r rates s = Inr (s1, fills, trades)"
    and "er_status r \<in> {FULL_FILL, PARTIAL_FILL}" and "er_order_id r = o_id ord" and "(pipeline_step q)\<^sup>*\<^sup>* s1 s2"
    and "er_execution_id again = er_execution_id r"
  shows "apply_execution_report q ord' again rates' s2 = Inr (s2, [], [])"
proof -
  have ok: "oms_ok (pl_oms s)" using run_books [OF assms(1)] by blast
  have "oms_ok (pl_oms s1)" using run_books [OF pipeline_run.move [OF assms(1) Reported [OF assms(2,4,3)]]] by blast
  from later_reported [OF assms(5) this report_is_known [OF ok assms(2,3)]] have "reported_id (er_execution_id r) s2" by blast
  then show ?thesis by (simp add: apply_execution_report_def reported_id_def assms(6))
qed

theorem redelivered_report_changes_nothing_witness:
  "\<exists>s :: pipeline. pl_oms s = oms_done \<and> apply_execution_report sample_queries wished_at_work sample_report no_rates s = Inr (s, [], [])"
proof (rule sample_run)
  fix s1 s2
  assume r: "pipeline_run sample_queries s1" "pl_oms s2 = oms_done"
    "apply_execution_report sample_queries wished_at_work sample_report no_rates s1 = Inr (s2, [sample_fill], [sample_trade])"
  have "apply_execution_report sample_queries wished_at_work sample_report no_rates s2 = Inr (s2, [], [])"
    by (rule redelivered_report_changes_nothing [OF r(1) r(3) _ _ rtranclp.rtrancl_refl refl])
      (simp_all add: sample_report_def wished_fields)
  with r(2) show ?thesis by blast
qed

end
