(* ===== verification/Fx_Rates.thy ===== *)
theory Fx_Rates
  imports Fx Portfolio_Example
begin

text \<open>
  What a table of rates holds and which rate a conversion uses: a quote, or the inverse of a quote where
  the pair itself has none, known at the instant of the conversion and no older than the table admits.
  A cross rate is the exception: it takes the earlier instant of its legs.
\<close>

section \<open>What a table holds\<close>

definition tabled :: "fx_rate list \<Rightarrow> (string \<times> string, fx_rate) od \<Rightarrow> bool" where
  "tabled quoted table \<longleftrightarrow>
     od_ok table \<and> (\<forall>r \<in> set quoted. od_get table (rate_pair r) = Some r) \<and>
     (\<forall>k r. od_get table k = Some r \<longrightarrow>
        rate_pair r = k \<and> (r \<in> set quoted \<or> ((\<exists>r0 \<in> set quoted. inverse_rate r0 = Inr r) \<and> (\<forall>x \<in> set quoted. rate_pair x \<noteq> k))))"

lemma tabled_quotes:
  assumes "rates_of quoted age units = Inr rates"
  shows "tabled quoted (fx_table rates)" "max_age rates = age" "od_values (fx_table rates) = quoted"
proof -
  let ?add = "\<lambda>table r. if od_get table (rate_pair r) \<noteq> None then Inl PortfolioError else Inr (od_set (rate_pair r) r table)"
  have "tabled (shown @ rest) table' \<and> od_values table' = shown @ rest"
    if "rfold ?add table rest = Inr table'" "tabled shown table" "od_values table = shown" for rest shown table table'
    using that
  proof (induction rest arbitrary: shown table)
    case Nil
    then show ?case by simp
  next
    case (Cons r rest)
    from Cons.prems(1) have new: "od_get table (rate_pair r) = None" and more: "rfold ?add (od_set (rate_pair r) r table) rest = Inr table'"
      by (auto split: if_splits)
    have "tabled (shown @ [r]) (od_set (rate_pair r) r table)"
      using Cons.prems(2) new by (auto simp: tabled_def od_ok_set split: if_splits)
    moreover have "od_values (od_set (rate_pair r) r table) = shown @ [r]"
      using Cons.prems(3) new by (simp add: od_values_def od_set_absent od_get_None)
    ultimately show ?case using Cons.IH [OF more, of "shown @ [r]"] by simp
  qed
  note built = this
  from assms obtain table where "rfold ?add [] quoted = Inr table" and r: "rates = \<lparr>fx_table = table, max_age = age, fx_units = units\<rparr>"
    by (auto simp: rates_of_def rbind_eq_Inr)
  with built [of "[]" quoted table "[]"] show "tabled quoted (fx_table rates)" "max_age rates = age" "od_values (fx_table rates) = quoted"
    by (simp_all add: tabled_def od_values_def)
qed

lemma inverse_fields:
  assumes "inverse_rate r = Inr i"
  shows "rate_pair i = (fx_quote r, fx_base r)" "fx_as_of i = fx_as_of r" "fx_derived i"
  using assms by (auto simp: inverse_rate_def make_rate_def rate_pair_def rbind_eq_Inr split: if_splits)

lemma tabled_inverses:
  assumes ok: "tabled quoted (fx_table rates)" and vs: "od_values (fx_table rates) = quoted" and f: "with_inverses rates = Inr rates'"
  shows "tabled quoted (fx_table rates')" "max_age rates' = max_age rates"
proof -
  let ?add = "\<lambda>table r. rbind (inverse_rate r) (\<lambda>i. Inr (if od_get table (rate_pair i) = None then od_set (rate_pair i) i table else table))"
  have "tabled quoted table'" if "rfold ?add table rs = Inr table'" "tabled quoted table" "set rs \<subseteq> set quoted" for rs table table'
    using that
  proof (induction rs arbitrary: table)
    case (Cons r rs)
    from Cons.prems(1) obtain i where i: "inverse_rate r = Inr i"
      and more: "rfold ?add (if od_get table (rate_pair i) = None then od_set (rate_pair i) i table else table) rs = Inr table'"
      by (auto simp: rbind_eq_Inr)
    have "tabled quoted (if od_get table (rate_pair i) = None then od_set (rate_pair i) i table else table)"
    proof (cases "od_get table (rate_pair i) = None")
      case True
      then have "\<forall>x \<in> set quoted. rate_pair x \<noteq> rate_pair i" using Cons.prems(2) by (auto simp: tabled_def)
      with True Cons.prems i show ?thesis by (auto simp: tabled_def od_ok_set split: if_splits)
    next
      case False
      then show ?thesis using Cons.prems(2) by (cases "od_get table (rate_pair i)") simp_all
    qed
    from Cons.IH [OF more this] Cons.prems(3) show ?case by simp
  qed simp
  with ok vs f show "tabled quoted (fx_table rates')" by (auto simp: with_inverses_def rbind_eq_Inr)
  show "max_age rates' = max_age rates" using f by (auto simp: with_inverses_def rbind_eq_Inr)
qed

section \<open>The rate of a conversion\<close>

definition known_and_fresh :: "pyfloat \<Rightarrow> pyfloat option \<Rightarrow> fx_rate \<Rightarrow> bool" where
  "known_and_fresh t age r =
     (\<not> flt_lt t (fx_as_of r) \<and> (case age of None \<Rightarrow> True | Some most \<Rightarrow> \<not> flt_lt most (flt_sub t (fx_as_of r))))"

lemma rate_at_admits:
  "rate_at rates base quote (Some t) = Inr r \<Longrightarrow> rate_for rates base quote = Some r \<and> known_and_fresh t (max_age rates) r"
  by (auto simp: rate_at_def known_and_fresh_def split: option.splits if_splits)

lemma converted_rate:
  "fx_convert rates amount base quote (Some t) units = Inr c \<Longrightarrow> base \<noteq> quote \<Longrightarrow> rate_at rates base quote (Some t) = Inr (cv_rate c)"
  by (auto simp: fx_convert_def Let_def rbind_eq_Inr)

text \<open>C30: a conversion between two currencies at an instant, in a table built from quotes with or without
  their inverses, uses a quote of exactly that pair, or, only when the pair has no quote, the inverse of a
  quote of the opposite pair and says it is derived; the quote it rests on was known at the instant of the
  conversion and is no older than the table admits. No rate is ever triangulated.
\<close>

theorem conversion_rests_on_a_known_quote:
  assumes table: "rates_of quoted age units = Inr direct" and rates: "rates = direct \<or> with_inverses direct = Inr rates"
    and c: "fx_convert rates amount base quote (Some t) rounding = Inr c" and other: "base \<noteq> quote"
  shows "\<exists>r \<in> set quoted. known_and_fresh t age r \<and>
    ((cv_rate c = r \<and> rate_pair r = (base, quote)) \<or>
     (inverse_rate r = Inr (cv_rate c) \<and> rate_pair r = (quote, base) \<and> fx_derived (cv_rate c) \<and>
        (\<forall>x \<in> set quoted. rate_pair x \<noteq> (base, quote))))"
proof -
  note built = tabled_quotes [OF table]
  have "tabled quoted (fx_table rates)" and age: "max_age rates = age"
    using rates built tabled_inverses [OF built(1,3)] by (elim disjE; simp)+
  moreover have r: "od_get (fx_table rates) (base, quote) = Some (cv_rate c)" "known_and_fresh t age (cv_rate c)"
    using rate_at_admits [OF converted_rate [OF c other]] age by (auto simp: rate_for_def)
  ultimately have "rate_pair (cv_rate c) = (base, quote)" "cv_rate c \<in> set quoted \<or>
      ((\<exists>r0 \<in> set quoted. inverse_rate r0 = Inr (cv_rate c)) \<and> (\<forall>x \<in> set quoted. rate_pair x \<noteq> (base, quote)))"
    unfolding tabled_def by simp_all
  then consider "rate_pair (cv_rate c) = (base, quote)" "cv_rate c \<in> set quoted"
    | r0 where "r0 \<in> set quoted" "inverse_rate r0 = Inr (cv_rate c)" "rate_pair (cv_rate c) = (base, quote)"
        "\<forall>x \<in> set quoted. rate_pair x \<noteq> (base, quote)"
    by blast
  then show ?thesis
  proof cases
    case 1
    with r show ?thesis by blast
  next
    case 2
    from inverse_fields [OF 2(2)] 2(3) have "rate_pair r0 = (quote, base)" "fx_derived (cv_rate c)"
      by (auto simp: rate_pair_def)
    moreover from r(2) inverse_fields(2) [OF 2(2)] have "known_and_fresh t age r0"
      by (cases age) (simp_all add: known_and_fresh_def)
    ultimately show ?thesis using 2 by blast
  qed
qed

definition euro_quote :: fx_rate where
  "euro_quote = \<lparr>fx_base = ''EUR'', fx_quote = ''USD'', fx_value = Fin 125 (-2), fx_as_of = FFin 5, fx_source = ''ecb'', fx_derived = False\<rparr>"

definition yen_quote :: fx_rate where
  "yen_quote = \<lparr>fx_base = ''USD'', fx_quote = ''JPY'', fx_value = Fin 150 0, fx_as_of = FFin 9, fx_source = ''boj'', fx_derived = False\<rparr>"

definition euro_table :: fx_rates where
  "euro_table = \<lparr>fx_table = [((''EUR'', ''USD''), euro_quote), ((''USD'', ''JPY''), yen_quote)], max_age = Some (FFin 60),
     fx_units = STANDARD_CURRENCY_UNITS\<rparr>"

lemma euro_table: "rates_of [euro_quote, yen_quote] (Some (FFin 60)) STANDARD_CURRENCY_UNITS = Inr euro_table"
  by (simp add: rates_of_def rate_pair_def euro_quote_def yen_quote_def euro_table_def od_get_Cons)

lemma quote_ages: "flt_lt (FFin 60) (flt_sub (FFin 6) (FFin 5)) = False" "flt_lt (FFin 60) (flt_sub (FFin 10) (FFin 5)) = False"
  by (simp_all add: flt_sub_def fl_numeral)

theorem conversion_rests_on_a_known_quote_witness:
  "\<exists>c. fx_convert euro_table (Fin 100 0) ''EUR'' ''USD'' (Some (FFin 10)) None = Inr c \<and> cv_rate c = euro_quote \<and>
     known_and_fresh (FFin 10) (Some (FFin 60)) euro_quote"
proof -
  obtain m where m: "to_money (Fin 12500 (-2)) ''USD'' STANDARD_CURRENCY_UNITS = Inr m"
    by (simp add: to_money_def round_money_def usd_quantum STANDARD_CURRENCY_UNITS_def pos_eval)
  let ?c = "\<lparr>cv_amount = Fin 100 0, cv_converted = m, cv_rate = euro_quote\<rparr>"
  have c: "fx_convert euro_table (Fin 100 0) ''EUR'' ''USD'' (Some (FFin 10)) None = Inr ?c"
    using m by (simp add: fx_convert_def rate_at_def rate_for_def euro_table_def euro_quote_def od_get_Cons quote_ages dec_eval)
  from conversion_rests_on_a_known_quote [OF euro_table disjI1 [OF refl] c] c show ?thesis
    by (auto simp: rate_pair_def euro_quote_def yen_quote_def)
qed

text \<open>
  A cross rate is dated by the earlier of its legs, so it is accepted at an instant at which the other leg
  was not known, and would be refused on its own.
\<close>

lemma cross_rate_looks_ahead:
  "\<exists>r. cross_rate euro_table ''EUR'' ''JPY'' ''USD'' = Inr r \<and>
     rate_at (with_rate r euro_table) ''EUR'' ''JPY'' (Some (FFin 6)) = Inr r \<and>
     rate_at euro_table ''USD'' ''JPY'' (Some (FFin 6)) = Inl FutureDatedRateError"
  by (simp add: cross_rate_def make_rate_def rate_at_def rate_for_def with_rate_def rate_pair_def euro_table_def euro_quote_def
    yen_quote_def od_get_Cons flt_min_def blank_def py_space_def quote_ages dec_eval)

end
