(* ===== verification/Rounding.thy ===== *)
theory Rounding
  imports Arithmetic
begin

text \<open>
  Rounding to a context never crosses a number the context holds, in any of its rounding modes: a
  number that is at least another the context holds exactly is still at least that number once it
  is rounded.
\<close>

lemma div_round_at_least: "0 < b \<Longrightarrow> n * b \<le> c \<Longrightarrow> n \<le> div_round m c b"
proof -
  assume b: "0 < b" and c: "n * b \<le> c"
  from zdiv_mono1 [OF c b] b have "n \<le> c div b" by simp
  with div_round_floor_or_next [OF b, of m c] show ?thesis by linarith
qed

lemma div_round_at_most:
  assumes b: "0 < b" and c: "c \<le> n * b"
  shows "div_round m c b \<le> n"
proof -
  from zdiv_mono1 [OF c b] b have le: "c div b \<le> n" by simp
  have "c div b \<noteq> n" if "c mod b \<noteq> 0"
  proof
    assume "c div b = n"
    then have "c = n * b + c mod b" using div_mult_mod_eq [of c b] by simp
    with c that pos_mod_sign [OF b, of c] show False by linarith
  qed
  with le div_round_floor_or_next [OF b, of m c] show ?thesis by linarith
qed

text \<open>What is rounded away, when anything is: a multiple of the last kept place.\<close>

lemma dec_fix_rounded:
  assumes fx: "dec_fix ctx (Fin c e) = Inr r" and ok: "sane ctx"
  obtains "dval r = dval (Fin c e)"
  | low x where "e < low" "dval r = of_int x * 10 powi low" "x = div_round (rmode ctx) c (10 ^ nat (low - e))"
      "low = Etiny ctx \<or> 10 ^ (prec ctx - 1) * 10 ^ nat (low - e) \<le> \<bar>c\<bar>"
proof (cases "c = 0")
  case True
  with fx have "dval r = dval (Fin c e)" by (auto simp: dec_fix.simps(1))
  then show thesis by (rule that(1))
next
  case False
  have p: "0 < prec ctx" using ok by (simp add: sane_def)
  define low0 where "low0 = e + int (num_digits (nat \<bar>c\<bar>)) - int (prec ctx)"
  define low where "low = max low0 (Etiny ctx)"
  define b where "b = (10::int) ^ nat (low - e)"
  define x where "x = div_round (rmode ctx) c b"
  have r: "e < low \<and> num_digits (nat \<bar>x\<bar>) \<le> prec ctx \<and> r = Fin x low \<or>
      e < low \<and> \<not> num_digits (nat \<bar>x\<bar>) \<le> prec ctx \<and> r = Fin (x div 10) (low + 1) \<or> \<not> e < low \<and> r = Fin c e"
    using fx False
    unfolding dec_fix.simps(1) Let_def low0_def [symmetric] low_def [symmetric] b_def [symmetric] x_def [symmetric]
    by (auto split: if_splits)
  show thesis
  proof (cases "e < low")
    case False
    with r have "dval r = dval (Fin c e)" by auto
    then show thesis by (rule that(1))
  next
    case True
    have "low0 \<le> low" by (simp add: low_def)
    then have "num_digits (nat \<bar>c\<bar>) \<le> prec ctx + nat (low - e)" using True by (simp add: low0_def)
    then have "\<bar>c\<bar> < 10 ^ (prec ctx + nat (low - e))" using p by (subst (asm) digits_le_iff) auto
    then have most: "\<bar>x\<bar> \<le> 10 ^ prec ctx" unfolding x_def by (intro div_round_le) (simp_all add: b_def power_add)
    have "dval r = of_int x * 10 powi low"
    proof (cases "num_digits (nat \<bar>x\<bar>) \<le> prec ctx")
      case True
      with r \<open>e < low\<close> show ?thesis by (auto simp: dval.simps(1))
    next
      case False
      then have "\<not> \<bar>x\<bar> < 10 ^ prec ctx" using digits_le_iff [OF p] by blast
      with most have "\<bar>x\<bar> = 10 ^ (prec ctx - 1) * 10" using p by (metis power_minus_mult not_less order_antisym)
      then have "x = 10 ^ (prec ctx - 1) * 10 \<or> x = - (10 ^ (prec ctx - 1)) * 10" by linarith
      then obtain k where "x = k * 10" by blast
      then have "x = x div 10 * 10" by simp
      then have "of_int x * (10::rat) powi low = of_int (x div 10) * 10 powi (low + 1)"
        by (metis (no_types, opaque_lifting) mult.assoc mult.commute of_int_mult of_int_numeral power_int_add_1 zero_neq_numeral)
      with r False \<open>e < low\<close> show ?thesis by (auto simp: dval.simps(1))
    qed
    moreover have "low = Etiny ctx \<or> 10 ^ (prec ctx - 1) * 10 ^ nat (low - e) \<le> \<bar>c\<bar>"
    proof (cases "low = low0")
      case True
      have "10 ^ (num_digits (nat \<bar>c\<bar>) - 1) \<le> nat \<bar>c\<bar>" using \<open>c \<noteq> 0\<close> by (intro num_digits_bounds) simp
      then have "int (10 ^ (num_digits (nat \<bar>c\<bar>) - 1)) \<le> int (nat \<bar>c\<bar>)" by (simp only: of_nat_le_iff)
      then have cge: "(10::int) ^ (num_digits (nat \<bar>c\<bar>) - 1) \<le> \<bar>c\<bar>" by simp
      have "int (num_digits (nat \<bar>c\<bar>)) = int (prec ctx) + (low - e)" using True by (simp add: low0_def)
      then have "num_digits (nat \<bar>c\<bar>) - 1 = (prec ctx - 1) + nat (low - e)" using \<open>e < low\<close> p by linarith
      with cge show ?thesis by (simp add: power_add)
    next
      case False
      then show ?thesis by (simp add: low_def)
    qed
    ultimately show thesis by (rule that(2) [OF \<open>e < low\<close> _ x_def [unfolded b_def]])
  qed
qed

theorem rounding_keeps_order:
  assumes fx: "dec_fix ctx d = Inr r" and ok: "sane ctx" and fin: "is_finite d" "is_finite k" and k: "fits ctx k"
  shows "dval k \<le> dval d \<Longrightarrow> dval k \<le> dval r" "dval d \<le> dval k \<Longrightarrow> dval r \<le> dval k"
proof -
  obtain c e n f where d: "d = Fin c e" and kn: "k = Fin n f" using fin by (auto simp: is_finite_iff)
  have p: "0 < prec ctx" using ok by (simp add: sane_def)
  have "(dval k \<le> dval d \<longrightarrow> dval k \<le> dval r) \<and> (dval d \<le> dval k \<longrightarrow> dval r \<le> dval k)"
    using dec_fix_rounded [OF fx [unfolded d] ok]
  proof cases
    case 1
    then show ?thesis by (simp add: d)
  next
    case (2 low x)
    define b where "b = (10::int) ^ nat (low - e)"
    have b: "0 < b" by (simp add: b_def)
    have scale: "of_int (j * b) * (10::rat) powi e = of_int j * 10 powi low" for j
      using powi_split [of e low] 2(1) by (simp add: b_def)
    have at_least: "j \<le> x" if "of_int j * 10 powi low \<le> dval d" for j
      using that unfolding d dval.simps(1) scale [symmetric] 2(3) b_def [symmetric]
      by (intro div_round_at_least [OF b]) (simp only: mult_le_cancel_right_pos powi_pos of_int_le_iff)
    have at_most: "x \<le> j" if "dval d \<le> of_int j * 10 powi low" for j
      using that unfolding d dval.simps(1) scale [symmetric] 2(3) b_def [symmetric]
      by (intro div_round_at_most [OF b]) (simp only: mult_le_cancel_right_pos powi_pos of_int_le_iff)
    have ord: "of_int i * (10::rat) powi low \<le> of_int j * 10 powi low \<longleftrightarrow> i \<le> j" for i j
      by (simp only: mult_le_cancel_right_pos powi_pos of_int_le_iff)
    show ?thesis
    proof (cases "low \<le> f")
      case True
      then have "dval k = of_int (align n f low) * 10 powi low" by (simp add: kn dval_align)
      then show ?thesis using at_least at_most by (simp only: 2(2) ord) blast
    next
      case False
      let ?N = "(10::int) ^ (prec ctx - 1)"
      have "f + int (num_digits (nat \<bar>n\<bar>)) \<le> low + int (prec ctx) - 1" using k False by (simp add: kn)
      then have "\<bar>dval k\<bar> < 10 powi (low + int (prec ctx) - 1)" unfolding kn by (rule magnitude_digits)
      also have "\<dots> = of_int ?N * 10 powi low" using p by (simp add: power_int_add [symmetric] flip: power_int_of_nat) (simp add: algebra_simps)
      finally have small: "\<bar>dval k\<bar> < of_int ?N * 10 powi low" .
      have "?N * b \<le> \<bar>c\<bar>" using 2(4) False k by (auto simp: kn b_def)
      then have "of_int (?N * b) * (10::rat) powi e \<le> \<bar>dval d\<bar>"
        unfolding d abs_dval by (simp only: mult_le_cancel_right_pos powi_pos of_int_le_iff)
      then have big: "of_int ?N * (10::rat) powi low \<le> \<bar>dval d\<bar>" unfolding scale .
      show ?thesis
      proof (cases "0 \<le> dval d")
        case True
        with big have "of_int ?N * 10 powi low \<le> dval d" by simp
        from at_least [OF this] have "of_int ?N * 10 powi low \<le> dval r" unfolding 2(2) ord .
        with True big small show ?thesis by linarith
      next
        case False
        with big have "dval d \<le> of_int (- ?N) * 10 powi low" by simp
        from at_most [OF this] have "dval r \<le> of_int (- ?N) * 10 powi low" unfolding 2(2) ord .
        with False big small show ?thesis by simp linarith
      qed
    qed
  qed
  then show "dval k \<le> dval d \<Longrightarrow> dval k \<le> dval r" "dval d \<le> dval k \<Longrightarrow> dval r \<le> dval k" by simp_all
qed

lemma dec_add_above:
  assumes "dec_add ctx a b = Inr r" "sane ctx" "is_finite a" "is_finite b" "fits ctx a" "0 \<le> dval b"
  shows "dval a \<le> dval r"
  using rounding_keeps_order(1) [of ctx "add_exact a b" r a] assms by (simp add: dec_add_fix)

lemma dec_sub_below:
  assumes "dec_sub ctx a b = Inr r" "sane ctx" "is_finite a" "is_finite b" "fits ctx a" "0 \<le> dval b"
  shows "dval r \<le> dval a"
  using rounding_keeps_order(2) [of ctx "add_exact a (dec_neg_exact b)" r a] assms by (simp add: dec_sub_fix)

end
