(* ===== verification/Execution_Fills.thy ===== *)
theory Execution_Fills
  imports Execution Rounding
begin

text \<open>
  What a simulated fill costs: the concession is never negative, moves the price only against the
  order, and is nothing at all for an order that rested.
\<close>

section \<open>Costs\<close>

lemma refused_negative:
  "refuse_negative x = Inr u \<longleftrightarrow> x = Infinite False \<or> is_finite x \<and> 0 \<le> dval x"
proof (cases "is_finite x")
  case True
  then show ?thesis by (auto simp: refuse_negative_def not_less)
next
  case False
  then show ?thesis by (cases x) (auto simp: refuse_negative_def)
qed

lemma add_of_nonneg:
  assumes sum: "dec_add ctx a b = Inr r" and "is_finite r" and a: "refuse_negative a = Inr u" and b: "refuse_negative b = Inr v"
  shows "is_finite a" "is_finite b" "0 \<le> dval r"
proof -
  have "is_finite a \<and> is_finite b"
  proof (rule ccontr)
    assume "\<not> (is_finite a \<and> is_finite b)"
    with sum a b have "r = Infinite False" by (cases a; cases b) (simp_all add: refused_negative)
    with assms(2) show False by simp
  qed
  then show fin: "is_finite a" "is_finite b" by simp_all
  then have vals: "0 \<le> dval a" "0 \<le> dval b" using a b by (auto simp: refused_negative)
  have "dec_fix ctx (add_exact a b) = Inr r" using sum fin by (simp add: dec_add_fix)
  from dec_fix_value_nonneg [OF _ this] show "0 \<le> dval r" using fin vals by simp
qed

lemma sum_of_three_nonneg:
  assumes sum: "sum_of_three a b c = Inr r" and fin: "is_finite r"
    and a: "refuse_negative a = Inr u" and b: "refuse_negative b = Inr v" and c: "refuse_negative c = Inr w"
  shows "0 \<le> dval r"
proof -
  obtain x where x: "dec_add ACCOUNTING_CONTEXT a b = Inr x" and r: "dec_add ACCOUNTING_CONTEXT x c = Inr r"
    using sum by (auto simp: sum_of_three_def rbind_eq_Inr)
  have "refuse_negative x = Inr ()"
  proof (cases "is_finite x")
    case True
    with add_of_nonneg(3) [OF x True a b] show ?thesis by (simp add: refused_negative)
  next
    case False
    then have "\<not> (is_finite a \<and> is_finite b)" using x dec_add_finite by blast
    with x a b have "x = Infinite False" by (cases a; cases b) (simp_all add: refused_negative)
    then show ?thesis by (simp add: refused_negative)
  qed
  from add_of_nonneg(3) [OF r fin this c] show ?thesis .
qed

lemma made_costs:
  "make_costs c = Inr c' \<longleftrightarrow> c' = c \<and> refuse_negative (ec_spread c) = Inr () \<and> refuse_negative (ec_slippage c) = Inr () \<and>
     refuse_negative (ec_impact c) = Inr () \<and> refuse_negative (ec_fees c) = Inr () \<and> refuse_negative (ec_tax c) = Inr ()"
  by (auto simp: make_costs_def rbind_eq_Inr)

lemma quote_is_checked: "quote m c = Inr costs \<Longrightarrow> make_costs costs = Inr costs"
  by (auto simp: quote_def rbind_eq_Inr made_costs split: if_splits)

lemma concession_nonneg:
  "quote m c = Inr costs \<Longrightarrow> price_concession costs = Inr p \<Longrightarrow> is_finite p \<Longrightarrow> 0 \<le> dval p"
  by (drule quote_is_checked) (auto simp: made_costs price_concession_def intro: sum_of_three_nonneg)

lemma concession_zero [simp]: "concession dec_zero = Inr dec_zero"
  by (simp add: concession_def CONCESSION_CONTEXT_def dec_fix_fits fits_zero Etiny_def)

text \<open>An order that rested concedes nothing.\<close>

lemma resting_concedes_nothing:
  assumes "quote (passive_costs sim) c = Inr costs"
  shows "price_concession costs = Inr dec_zero"
proof -
  have roles: "spread_role (passive_costs sim) = NoSpread" "slippage_role (passive_costs sim) = NoSlippage"
    "impact_role (passive_costs sim) = NoImpact" by (simp_all add: passive_costs_def Let_def)
  have "ec_spread costs = dec_zero \<and> ec_slippage costs = dec_zero \<and> ec_impact costs = dec_zero"
    using assms by (auto simp: quote_def rbind_eq_Inr made_costs no_costs_def roles half_spread_def slippage_of_def impact_of_def
      split: if_splits)
  moreover have "dec_add ACCOUNTING_CONTEXT dec_zero dec_zero = Inr dec_zero" by (simp add: dec_eval)
  ultimately show ?thesis by (simp add: price_concession_def sum_of_three_def)
qed

section \<open>The price of a fill\<close>

lemma fill_price_finite:
  assumes "fill_price_from c p = Inr price" "is_finite price" "is_finite (cc_reference_price c)"
  shows "is_finite p"
  using assms
  by (cases p; cases "cc_reference_price c")
    (auto simp: fill_price_from_def rbind_eq_Inr dec_sub_def split: if_splits)

text \<open>C28: a simulated fill is never better than the price it starts from. Whatever spread, slippage and
  impact the run's cost model quotes, the report of a fill has a slippage that is not negative and a
  price that is the starting price moved by it: up for a buy, down for a sale, and a sale at a
  positive price still at a positive one. An order that rested fills at its price exactly.
\<close>

theorem fill_no_better_than_its_price:
  assumes fill: "simulate_fill xid draw sim i quantity price timestamp st sh maker = Inr r"
    and traded: "st = FULL_FILL \<or> st = PARTIAL_FILL" and fin: "is_finite price" and held: "fits ACCOUNTING_CONTEXT price"
  shows "0 \<le> dval (er_slippage r) \<and>
    (if ins_side i = BUY then dec_add ACCOUNTING_CONTEXT price (er_slippage r) = Inr (er_price r) \<and> dval price \<le> dval (er_price r)
     else dec_sub ACCOUNTING_CONTEXT price (er_slippage r) = Inr (er_price r) \<and> dval (er_price r) \<le> dval price \<and>
       (dval price \<le> 0 \<or> 0 < dval (er_price r))) \<and>
    (\<not> maker \<or> er_slippage r = dec_zero \<and> dval (er_price r) = dval price)"
proof -
  let ?c = "simulator_context draw sim i quantity price timestamp sh"
  obtain costs cash where quoted: "quote (role_costs sim maker) ?c = Inr costs"
    and conc: "price_concession costs = Inr (er_slippage r)" and filled: "fill_price_from ?c (er_slippage r) = Inr (er_price r)"
    and ok: "validate_execution quantity (er_price r) cash (cc_timestamp ?c) = Inr ()"
    using fill traded by (auto simp: simulate_fill_def rbind_eq_Inr costed_price_def Let_def)
  have c [simp]: "cc_reference_price ?c = price" "cc_side ?c = ins_side i" by (simp_all add: simulator_context_def)
  have "is_finite (er_price r)" using ok by (auto simp: validate_execution_def rbind_eq_Inr split: if_splits)
  with fill_price_finite [OF filled] fin have slip: "is_finite (er_slippage r)" by simp
  with concession_nonneg [OF quoted conc] have nonneg: "0 \<le> dval (er_slippage r)" by simp
  have rested: "er_slippage r = dec_zero" if maker
    using resting_concedes_nothing [of sim ?c costs] quoted conc that by (simp add: role_costs_def)
  show ?thesis
  proof (cases "ins_side i = BUY")
    case True
    then have add: "dec_add ACCOUNTING_CONTEXT price (er_slippage r) = Inr (er_price r)" using filled by (simp add: fill_price_from_def)
    moreover have "dval (er_price r) = dval price" if maker
      using rounding_keeps_order(2) [of ACCOUNTING_CONTEXT "add_exact price dec_zero" "er_price r" price] add fin held rested [OF that]
        dec_add_above [OF add accounting_sane fin slip held nonneg] by (simp add: dec_add_fix)
    ultimately show ?thesis using True nonneg rested dec_add_above [OF add accounting_sane fin slip held nonneg] by auto
  next
    case False
    then have sub: "dec_sub ACCOUNTING_CONTEXT price (er_slippage r) = Inr (er_price r)"
      using filled by (auto simp: fill_price_from_def rbind_eq_Inr split: if_splits)
    moreover have "dval price \<le> 0 \<or> 0 < dval (er_price r)"
      using filled False fin dec_sub_finite [OF fin slip sub] by (auto simp: fill_price_from_def rbind_eq_Inr split: if_splits)
    moreover have "dval (er_price r) = dval price" if maker
      using rounding_keeps_order(1) [of ACCOUNTING_CONTEXT "add_exact price (dec_neg_exact dec_zero)" "er_price r" price] sub fin held
        rested [OF that] dec_sub_below [OF sub accounting_sane fin slip held nonneg] by (simp add: dec_sub_fix)
    ultimately show ?thesis using False nonneg rested dec_sub_below [OF sub accounting_sane fin slip held nonneg] by auto
  qed
qed

definition quoted_costs :: cost_model where
  "quoted_costs = \<lparr>spread_role = QuotedHalfSpread, slippage_role = FixedSlippage (Fin 1 (-2)), impact_role = NoImpact,
     commission_role = PerShareCommission (Fin 1 (-2)), fee_role = NoFee, tax_role = NoTax\<rparr>"

definition ten_bought :: instruction where
  "ten_bought = \<lparr>ins_order_id = ''o'', ins_strategy_id = ''s'', ins_asset_id = ''A'', ins_quantity = Fin 10 0,
     ins_price = Fin 10000 (-2), ins_side = BUY, ins_venue = ''V'', ins_currency = ''USD'', ins_minor_units = Some 2\<rparr>"

definition quote_shown :: shown where
  "quote_shown = \<lparr>sh_bid = Some (Fin 9998 (-2)), sh_ask = Some (Fin 10002 (-2)), sh_available = None\<rparr>"

definition ten_filled :: execution_report where
  "ten_filled = \<lparr>er_execution_id = ''x'', er_order_id = ''o'', er_asset_id = ''A'', er_strategy_id = ''s'',
     er_timestamp = FFin 5, er_price = Fin 10003 (-2), er_quantity = Fin 10 0, er_commission = Fin 10 (-2),
     er_slippage = Fin 3 (-2), er_liquidity = ''TAKER'', er_venue = ''V'', er_currency = ''USD'', er_status = FULL_FILL\<rparr>"

definition ten_context :: cost_context where
  "ten_context = \<lparr>cc_asset_id = ''A'', cc_side = BUY, cc_quantity = Fin 10 0, cc_reference_price = Fin 10000 (-2),
     cc_currency = ''USD'', cc_venue = ''V'', cc_timestamp = FFin 5, cc_bid = Some (Fin 9998 (-2)),
     cc_ask = Some (Fin 10002 (-2)), cc_available = None, cc_minor_units = Some 2\<rparr>"

definition ten_costs :: execution_costs where
  "ten_costs = \<lparr>ec_spread = Fin 2 (-2), ec_slippage = Fin 1 (-2), ec_impact = dec_zero, ec_commission = Fin 10 (-2),
     ec_fees = Fin 0 (-2), ec_tax = Fin 0 (-2)\<rparr>"

lemma ten_spread: "half_spread QuotedHalfSpread ten_context = Inr (Fin 2 (-2))"
  by (simp add: half_spread_def ten_context_def dec_eval)

lemma ten_concessions:
  "concession (Fin 2 (-2)) = Inr (Fin 2 (-2))" "concession (Fin 1 (-2)) = Inr (Fin 1 (-2))"
  "sum_of_three (Fin 2 (-2)) (Fin 1 (-2)) dec_zero = Inr (Fin 3 (-2))"
  "fill_price_from ten_context (Fin 3 (-2)) = Inr (Fin 10003 (-2))"
  subgoal by (simp add: concession_def CONCESSION_CONTEXT_def dec_fix_fits Etiny_def)
  subgoal by (simp add: concession_def CONCESSION_CONTEXT_def dec_fix_fits Etiny_def)
  subgoal by (simp add: sum_of_three_def dec_eval)
  subgoal by (simp add: fill_price_from_def ten_context_def dec_eval)
  done

lemma ten_cents: "fits ACCOUNTING_CONTEXT (Fin 10 (-2))" "cc_money ten_context (Fin 10 (-2)) = Inr (Fin 10 (-2))"
  using dec_quantize_same [of ACCOUNTING_CONTEXT 10 "-2" 1] by (simp_all add: cc_money_def ten_context_def num_digits.simps)

lemma ten_charges:
  "dec_mul ACCOUNTING_CONTEXT (Fin 10003 (-2)) (Fin 10 0) = Inr (Fin 100030 (-2))"
  "commission_of (PerShareCommission (Fin 1 (-2))) (Fin 10 0) (Fin 10003 (-2)) = Inr (Fin 10 (-2))"
  "cc_money ten_context dec_zero = Inr (Fin 0 (-2))"
  "sum_of_three (Fin 10 (-2)) (Fin 0 (-2)) (Fin 0 (-2)) = Inr (Fin 10 (-2))"
  subgoal by (simp add: dec_eval)
  subgoal by (simp add: commission_of_def dec_eval)
  subgoal by (simp add: cc_money_def ten_context_def dec_quantize.simps(7) dec_eval)
  subgoal by (simp add: sum_of_three_def dec_eval)
  done

lemma ten_quoted: "quote quoted_costs ten_context = Inr ten_costs"
proof -
  have "cc_quantity ten_context = Fin 10 0" "cc_reference_price ten_context = Fin 10000 (-2)" by (simp_all add: ten_context_def)
  then show ?thesis
    by (simp add: quote_def quoted_costs_def ten_spread ten_concessions slippage_of_def impact_of_def ten_charges ten_cents(2) fee_of_def
      tax_of_def made_costs refused_negative ten_costs_def dval.simps(1) align_def del: dec_mul.simps)
qed

lemma ten_filled_at_quote:
  "simulate_fill ''x'' (\<lambda>oid. FFin 0) (default_simulator\<lparr>sim_costs := Some quoted_costs\<rparr>) ten_bought (Fin 10 0)
     (Fin 10000 (-2)) (FFin 5) FULL_FILL quote_shown False = Inr ten_filled"
proof -
  have "simulator_context (\<lambda>oid. FFin 0) (default_simulator\<lparr>sim_costs := Some quoted_costs\<rparr>) ten_bought (Fin 10 0)
      (Fin 10000 (-2)) (FFin 5) quote_shown = ten_context"
    by (simp add: simulator_context_def default_simulator_def ten_bought_def quote_shown_def ten_context_def latency_of_def fl_numeral)
  moreover have "role_costs (default_simulator\<lparr>sim_costs := Some quoted_costs\<rparr>) False = quoted_costs"
    by (simp add: role_costs_def active_costs_def)
  moreover have "ins_order_id ten_bought = ''o''" "ins_asset_id ten_bought = ''A''" "ins_strategy_id ten_bought = ''s''"
      "ins_venue ten_bought = ''V''" "ins_currency ten_bought = ''USD''" "cc_timestamp ten_context = FFin 5"
    by (simp_all add: ten_bought_def ten_context_def)
  moreover have "price_concession ten_costs = Inr (Fin 3 (-2))" "cash_charged ten_costs = Inr (Fin 10 (-2))"
    by (simp_all add: price_concession_def cash_charged_def ten_costs_def ten_concessions ten_charges)
  moreover have "validate_execution (Fin 10 0) (Fin 10003 (-2)) (Fin 10 (-2)) (cc_timestamp ten_context) = Inr ()"
    by (simp add: validate_execution_def ten_context_def align_def)
  ultimately show ?thesis
    by (simp add: simulate_fill_def ten_quoted costed_price_def ten_concessions ten_filled_def)
qed

theorem fill_no_better_than_its_price_witness:
  "dval (Fin 10000 (-2)) \<le> dval (er_price ten_filled)"
  using fill_no_better_than_its_price [OF ten_filled_at_quote]
  by (simp add: ten_bought_def num_digits.simps)

end
