(* ===== verification/Execution_Priority.thy ===== *)
theory Execution_Priority
  imports Pipeline_Orders Allocation_Ledger
begin

text \<open>
  Price-time priority of the queue model over the events of a run: of two orders resting at one limit,
  the one with less ahead of it keeps less ahead, and is never offered less.
\<close>

section \<open>Amounts that may be unknown\<close>

text \<open>No amount stands for more than any amount: a queue not known, a fill not bounded.\<close>

definition opt_le :: "decimal option \<Rightarrow> decimal option \<Rightarrow> bool" where
  "opt_le x y = (case y of None \<Rightarrow> True | Some b \<Rightarrow> (case x of None \<Rightarrow> False | Some a \<Rightarrow> dval a \<le> dval b))"

definition opt_fits :: "int \<Rightarrow> decimal option \<Rightarrow> bool" where
  "opt_fits e x = (case x of None \<Rightarrow> True | Some a \<Rightarrow> grid e a \<and> 0 \<le> dval a \<and> dval a < 10 powi (e + 34))"

lemma opt_le_simps [simp]: "opt_le x None" "opt_le (Some a) (Some b) = (dval a \<le> dval b)" "\<not> opt_le None (Some b)"
  by (simp_all add: opt_le_def)

lemma opt_fits_simps [simp]:
  "opt_fits e None" "opt_fits e (Some a) = (grid e a \<and> 0 \<le> dval a \<and> dval a < 10 powi (e + 34))"
  by (simp_all add: opt_fits_def)

lemma opt_le_refl [simp]: "opt_le x x"
  by (cases x) simp_all

lemma zero_fits: "money_room e \<Longrightarrow> opt_fits e (Some dec_zero)"
  by (simp add: grid_def money_room_def)

section \<open>One event\<close>

definition sizes_fit :: "int \<Rightarrow> queue_observation \<Rightarrow> bool" where
  "sizes_fit e ob = (opt_fits e (qo_bid_size ob) \<and> opt_fits e (qo_ask_size ob) \<and> opt_fits e (qo_trade_quantity ob))"

text \<open>An event shows a print, or prices: not both.\<close>

definition one_record :: "queue_observation \<Rightarrow> bool" where
  "one_record ob = (qo_trade_price ob = None \<or> qo_bid ob = None \<and> qo_ask ob = None \<and> qo_low ob = None \<and> qo_high ob = None)"

lemma event_is_one_record: "one_record (queue_observation_of e)"
  by (cases e) (simp_all add: one_record_def queue_observation_of_def Let_def)

lemma same_side_fits: "sizes_fit e ob \<Longrightarrow> same_side_shown side ob = (best, behind) \<Longrightarrow> opt_fits e behind"
  by (auto simp: sizes_fit_def same_side_shown_def split: if_splits)

lemma grid_min: "grid e a \<Longrightarrow> grid e b \<Longrightarrow> dec_min a b = Inr (if dval b < dval a then b else a)"
  using grid_finite [of e a] grid_finite [of e b] by (simp add: dec_min_def)

lemma shown_keeps_priority:
  assumes "shown_ahead side limit x ob = Inr x'" "shown_ahead side limit y ob = Inr y'" "opt_le x y"
    and fit: "opt_fits e x" "opt_fits e y" "sizes_fit e ob" "money_room e"
  shows "opt_le x' y' \<and> opt_fits e x' \<and> opt_fits e y'"
proof -
  obtain best behind where bb: "same_side_shown side ob = (best, behind)" by (cases "same_side_shown side ob")
  moreover have "opt_fits e behind" by (rule same_side_fits [OF fit(3) bb])
  ultimately show ?thesis
    using assms(1-5) zero_fits [OF fit(4)] grid_min [of e]
    by (cases best; cases behind; cases x; cases y) (auto simp: shown_ahead_def bb rbind_eq_Inr split: if_splits)
qed

text \<open>A print at the limit takes what is ahead first, and what it trades beyond that reaches the order.\<close>

definition consumed_at :: "bool \<Rightarrow> side \<Rightarrow> decimal \<Rightarrow> queue_observation \<Rightarrow> bool" where
  "consumed_at cu side limit ob =
     (case qo_trade_price ob of None \<Rightarrow> False
      | Some price \<Rightarrow> better side limit price = Inr False \<and> dec_eq price limit \<and> consumes cu side (qo_aggressor ob))"

lemma print_elsewhere:
  assumes "\<not> consumed_at cu side limit ob" "print_consumed cu amb side limit x ob = Inr (t, x', b)"
  shows "x' = x \<and> b = None \<and> t = (case qo_trade_price ob of None \<Rightarrow> False | Some p \<Rightarrow> better side limit p = Inr True)"
  using assms by (cases "qo_trade_price ob") (auto simp: print_consumed_def consumed_at_def rbind_eq_Inr split: if_splits)

lemma print_at_limit:
  assumes at: "consumed_at cu side limit ob" and print: "print_consumed cu ACCOUNTING_CONTEXT side limit (Some a) ob = Inr (t, x', b)"
    and n: "qo_trade_quantity ob = Some n" and fit: "opt_fits e (Some a)" "opt_fits e (Some n)" "money_room e"
  obtains u v where "t = False" "x' = Some u" "b = Some v" "opt_fits e x'" "opt_fits e b"
    "dval u = max 0 (dval a - dval n)" "dval v = max 0 (dval n - dval a)"
proof -
  have fin: "is_finite a" "is_finite n" using fit grid_finite by auto
  have open_print: "print_consumed cu ACCOUNTING_CONTEXT side limit (Some a) ob =
      (if dval a < dval n then rbind (dec_sub ACCOUNTING_CONTEXT n a) (\<lambda>v. Inr (False, Some dec_zero, Some v))
       else rbind (dec_sub ACCOUNTING_CONTEXT a n) (\<lambda>u. Inr (False, Some u, Some dec_zero)))"
    using at n fin by (auto simp: print_consumed_def consumed_at_def split: option.splits)
  have taken: "opt_fits e (Some s) \<and> dval s = dval y - dval z"
    if "dec_sub ACCOUNTING_CONTEXT y z = Inr s" "opt_fits e (Some z)" "opt_fits e (Some y)" "dval z \<le> dval y" for s y z
    using taken_exactly [OF that(1) _ _ fit(3)] that(2-4) by auto
  show thesis
  proof (cases "dval a < dval n")
    case True
    then obtain v where v: "dec_sub ACCOUNTING_CONTEXT n a = Inr v" "t = False" "x' = Some dec_zero" "b = Some v"
      using print open_print by (auto simp: rbind_eq_Inr)
    with taken [OF v(1) fit(1,2)] True zero_fits [OF fit(3)] show thesis by (intro that [of dec_zero v]) auto
  next
    case False
    then obtain u where u: "dec_sub ACCOUNTING_CONTEXT a n = Inr u" "t = False" "x' = Some u" "b = Some dec_zero"
      using print open_print by (auto simp: rbind_eq_Inr)
    with taken [OF u(1) fit(2,1)] False zero_fits [OF fit(3)] show thesis by (intro that [of u dec_zero]) auto
  qed
qed

lemma print_unbounded:
  assumes "consumed_at cu side limit ob" "print_consumed cu amb side limit x ob = Inr (t, x', b)"
    "x = None \<or> qo_trade_quantity ob = None"
  shows "t = False \<and> x' = x \<and> b = None"
  using assms by (auto simp: print_consumed_def consumed_at_def split: option.splits)

definition beyond_le :: "decimal option \<Rightarrow> decimal option \<Rightarrow> bool" where
  "beyond_le v u = (case v of None \<Rightarrow> True | Some y \<Rightarrow> (case u of None \<Rightarrow> False | Some x \<Rightarrow> dval y \<le> dval x))"

lemma print_keeps_priority:
  assumes px: "print_consumed cu ACCOUNTING_CONTEXT side limit x ob = Inr (tx, x', bx)"
    and py: "print_consumed cu ACCOUNTING_CONTEXT side limit y ob = Inr (ty, y', by')" and le: "opt_le x y"
    and fit: "opt_fits e x" "opt_fits e y" "sizes_fit e ob" "money_room e"
  shows "tx = ty \<and> opt_le x' y' \<and> opt_fits e x' \<and> opt_fits e y' \<and> beyond_le by' bx \<and> opt_fits e bx \<and> opt_fits e by'"
proof (cases "consumed_at cu side limit ob")
  case False
  from print_elsewhere [OF this px] print_elsewhere [OF this py] le fit show ?thesis by (simp add: beyond_le_def)
next
  case at: True
  show ?thesis
  proof (cases "y = None \<or> qo_trade_quantity ob = None")
    case True
    from print_unbounded [OF at py True] have y: "ty = False" "y' = y" "by' = None" by simp_all
    show ?thesis
    proof (cases "x = None \<or> qo_trade_quantity ob = None")
      case True
      from print_unbounded [OF at px this] y le fit show ?thesis by (simp add: beyond_le_def)
    next
      case False
      then obtain a n where a: "x = Some a" and n: "qo_trade_quantity ob = Some n" by auto
      have "opt_fits e (Some n)" using fit(3) n by (simp add: sizes_fit_def)
      then obtain u v where "tx = False" "x' = Some u" "opt_fits e x'" "opt_fits e bx"
        by (rule print_at_limit [OF at px [unfolded a] n fit(1) [unfolded a] _ fit(4)])
      with y True n fit show ?thesis by (simp add: beyond_le_def)
    qed
  next
    case False
    then obtain c n where c: "y = Some c" and n: "qo_trade_quantity ob = Some n" by auto
    then obtain a where a: "x = Some a" using le by (cases x) auto
    have nf: "opt_fits e (Some n)" using fit(3) n by (simp add: sizes_fit_def)
    obtain u v where "tx = False" "x' = Some u" "bx = Some v" "opt_fits e x'" "opt_fits e bx"
        "dval u = max 0 (dval a - dval n)" "dval v = max 0 (dval n - dval a)"
      by (rule print_at_limit [OF at px [unfolded a] n fit(1) [unfolded a] nf fit(4)])
    moreover obtain u' v' where "ty = False" "y' = Some u'" "by' = Some v'" "opt_fits e y'" "opt_fits e by'"
        "dval u' = max 0 (dval c - dval n)" "dval v' = max 0 (dval n - dval c)"
      by (rule print_at_limit [OF at py [unfolded c] n fit(2) [unfolded c] nf fit(4)])
    ultimately show ?thesis using le a c by (auto simp: beyond_le_def)
  qed
qed

text \<open>The whole turn.\<close>

lemma advance_keeps_priority:
  assumes p: "queue_advance cu ACCOUNTING_CONTEXT p side ob = Inr t" and q: "queue_advance cu ACCOUNTING_CONTEXT q side ob = Inr u"
    and level: "qp_limit p = qp_limit q" and le: "opt_le (qp_ahead p) (qp_ahead q)"
    and fit: "opt_fits e (qp_ahead p)" "opt_fits e (qp_ahead q)" "sizes_fit e ob" "money_room e" and one: "one_record ob"
  shows "qp_limit (qt_position t) = qp_limit (qt_position u) \<and> opt_le (qp_ahead (qt_position t)) (qp_ahead (qt_position u)) \<and>
    opt_fits e (qp_ahead (qt_position t)) \<and> opt_fits e (qp_ahead (qt_position u)) \<and>
    opt_le (qt_eligible u) (qt_eligible t) \<and> opt_fits e (qt_eligible t) \<and> opt_fits e (qt_eligible u)"
proof -
  obtain a crossed tx a' bx thr where sp: "shown_ahead side (qp_limit q) (qp_ahead p) ob = Inr a"
    and cp: "opt_better side (qp_limit q) (if side = BUY then qo_ask ob else qo_bid ob) = Inr crossed"
    and pp: "print_consumed cu ACCOUNTING_CONTEXT side (qp_limit q) a ob = Inr (tx, a', bx)"
    and tp: "(if crossed \<or> tx then Inr True else opt_better side (qp_limit q) (if side = BUY then qo_low ob else qo_high ob)) = Inr thr"
    using p level by (auto simp: queue_advance_def rbind_eq_Inr Let_def)
  obtain c ty c' by' where sq: "shown_ahead side (qp_limit q) (qp_ahead q) ob = Inr c"
    and pq: "print_consumed cu ACCOUNTING_CONTEXT side (qp_limit q) c ob = Inr (ty, c', by')"
    using q cp by (auto simp: queue_advance_def rbind_eq_Inr Let_def)
  have shown: "opt_le a c" "opt_fits e a" "opt_fits e c" using shown_keeps_priority [OF sp sq le fit] by simp_all
  from print_keeps_priority [OF pp pq this fit(3,4)]
  have print: "tx = ty" "opt_le a' c'" "opt_fits e a'" "opt_fits e c'" "beyond_le by' bx" "opt_fits e bx" "opt_fits e by'" by simp_all
  define touch where "touch = (touches (qp_limit q) (if side = BUY then qo_ask ob else qo_bid ob) \<or>
      touches (qp_limit q) (if side = BUY then qo_low ob else qo_high ob))"
  have unprinted: "bx = None \<and> by' = None" if touch
  proof -
    from that have "qo_trade_price ob = None" using one by (auto simp: touch_def touches_def one_record_def split: if_splits)
    then show ?thesis using pp pq by (simp add: print_consumed_def)
  qed
  let ?turn = "\<lambda>a b. \<lparr>qt_position = \<lparr>qp_limit = qp_limit q, qp_ahead = a\<rparr>, qt_eligible = b\<rparr>"
  let ?offer = "\<lambda>a b. if thr then ?turn (Some dec_zero) None
      else if (case b of None \<Rightarrow> False | Some v \<Rightarrow> 0 < dval v) then ?turn a b
      else if touch \<and> (case a of None \<Rightarrow> False | Some v \<Rightarrow> dval v = 0) then ?turn a None else ?turn a (Some dec_zero)"
  have "t = ?offer a' bx"
    using p level sp cp pp tp print grid_finite [of e] unfolding touch_def
    by (cases a'; cases bx) (auto simp: queue_advance_def Let_def split: if_splits)
  moreover have "u = ?offer c' by'"
    using q sq cp pq tp print grid_finite [of e] unfolding touch_def
    by (cases c'; cases by') (auto simp: queue_advance_def Let_def split: if_splits)
  ultimately show ?thesis
    using print unprinted zero_fits [OF fit(4)]
    by (cases a'; cases c'; cases bx; cases by') (auto simp: beyond_le_def)
qed

section \<open>The events of a run\<close>

text \<open>The turns one resting order is given over the events of its asset.\<close>

fun queue_turns :: "bool \<Rightarrow> side \<Rightarrow> queue_place \<Rightarrow> market_event list \<Rightarrow> queue_turn list res" where
  "queue_turns cu side p [] = Inr []"
| "queue_turns cu side p (e # es) =
     rbind (queue_advance cu ACCOUNTING_CONTEXT p side (queue_observation_of e)) (\<lambda>t.
     rbind (queue_turns cu side (qt_position t) es) (\<lambda>ts. Inr (t # ts)))"

definition stands_first :: "int \<Rightarrow> queue_place \<Rightarrow> queue_place \<Rightarrow> bool" where
  "stands_first e p q =
     (qp_limit p = qp_limit q \<and> opt_le (qp_ahead p) (qp_ahead q) \<and> opt_fits e (qp_ahead p) \<and> opt_fits e (qp_ahead q))"

definition served_first :: "queue_turn \<Rightarrow> queue_turn \<Rightarrow> bool" where
  "served_first t u =
     (opt_le (qp_ahead (qt_position t)) (qp_ahead (qt_position u)) \<and> opt_le (qt_eligible u) (qt_eligible t) \<and>
      (may_fill u = Inr True \<longrightarrow> may_fill t = Inr True))"

lemma may_fill_fits: "opt_fits e (qt_eligible t) \<Longrightarrow> may_fill t = Inr (case qt_eligible t of None \<Rightarrow> True | Some x \<Rightarrow> 0 < dval x)"
  using grid_finite [of e] by (cases "qt_eligible t") (auto simp: may_fill_def)

lemma turn_served_first:
  assumes "queue_advance cu ACCOUNTING_CONTEXT p side ob = Inr t" "queue_advance cu ACCOUNTING_CONTEXT q side ob = Inr u"
    and "stands_first e p q" "sizes_fit e ob" "money_room e" "one_record ob"
  shows "stands_first e (qt_position t) (qt_position u) \<and> served_first t u"
proof -
  from advance_keeps_priority [OF assms(1,2) _ _ _ _ assms(4-6)] assms(3)
  have k: "stands_first e (qt_position t) (qt_position u)" and offers: "opt_le (qt_eligible u) (qt_eligible t)"
    "opt_fits e (qt_eligible t)" "opt_fits e (qt_eligible u)" by (simp_all add: stands_first_def)
  have "may_fill u = Inr True \<longrightarrow> may_fill t = Inr True"
    using offers by (cases "qt_eligible t"; cases "qt_eligible u") (auto simp: may_fill_fits [of e])
  with k offers show ?thesis by (simp add: served_first_def stands_first_def)
qed

text \<open>C29: price-time priority. Of two orders resting at one limit on one side, the one that has less ahead
  of it is served first over any sequence of quotes, prints and bars of their asset: after every
  event it still has no more ahead of it, what the event lets it fill is no less, and whenever the
  other may fill it may. An unknown queue counts as longer than any known one; sizes are numbers of
  at least \<open>e\<close> decimals below \<open>10 powi (e + 34)\<close>, where their differences are exact.
\<close>

theorem earlier_order_served_first:
  assumes "stands_first e p q" "money_room e" "list_all (\<lambda>ev. sizes_fit e (queue_observation_of ev)) es"
    and "queue_turns cu side p es = Inr ts" "queue_turns cu side q es = Inr us"
  shows "list_all2 served_first ts us"
  using assms
proof (induction es arbitrary: p q ts us)
  case Nil
  then show ?case by simp
next
  case (Cons ev es)
  obtain t ts' where t: "queue_advance cu ACCOUNTING_CONTEXT p side (queue_observation_of ev) = Inr t"
    "queue_turns cu side (qt_position t) es = Inr ts'" "ts = t # ts'" using Cons.prems(4) by (auto simp: rbind_eq_Inr)
  obtain u us' where u: "queue_advance cu ACCOUNTING_CONTEXT q side (queue_observation_of ev) = Inr u"
    "queue_turns cu side (qt_position u) es = Inr us'" "us = u # us'" using Cons.prems(5) by (auto simp: rbind_eq_Inr)
  have "stands_first e (qt_position t) (qt_position u) \<and> served_first t u"
    using turn_served_first [OF t(1) u(1) Cons.prems(1) _ Cons.prems(2) event_is_one_record] Cons.prems(3) by simp
  with Cons.IH [OF _ Cons.prems(2) _ t(2) u(2)] Cons.prems(3) t(3) u(3) show ?case by simp
qed

definition ten_sold :: market_event where
  "ten_sold = TickReceived (FFin 1) \<lparr>tk_asset = ''A'', tk_price = Fin 100 0, tk_quantity = Fin 10 0,
     tk_aggressor = Some SELL, tk_time = FFin 1\<rparr>"

definition five_ahead :: queue_place where "five_ahead = \<lparr>qp_limit = Fin 100 0, qp_ahead = Some (Fin 5 0)\<rparr>"
definition twelve_ahead :: queue_place where "twelve_ahead = \<lparr>qp_limit = Fin 100 0, qp_ahead = Some (Fin 12 0)\<rparr>"

lemma ten_sold_turns:
  "queue_turns False BUY five_ahead [ten_sold] =
     Inr [\<lparr>qt_position = \<lparr>qp_limit = Fin 100 0, qp_ahead = Some dec_zero\<rparr>, qt_eligible = Some (Fin 5 0)\<rparr>]"
  "queue_turns False BUY twelve_ahead [ten_sold] =
     Inr [\<lparr>qt_position = \<lparr>qp_limit = Fin 100 0, qp_ahead = Some (Fin 2 0)\<rparr>, qt_eligible = Some dec_zero\<rparr>]"
  by (simp_all add: queue_advance_def shown_ahead_def same_side_shown_def opt_better_def better_def print_consumed_def
    consumes_def touches_def queue_observation_of_def ten_sold_def five_ahead_def twelve_ahead_def dec_eval)

theorem earlier_order_served_first_witness:
  "list_all2 served_first
     [\<lparr>qt_position = \<lparr>qp_limit = Fin 100 0, qp_ahead = Some dec_zero\<rparr>, qt_eligible = Some (Fin 5 0)\<rparr>]
     [\<lparr>qt_position = \<lparr>qp_limit = Fin 100 0, qp_ahead = Some (Fin 2 0)\<rparr>, qt_eligible = Some dec_zero\<rparr>]"
  using earlier_order_served_first [of "-2" five_ahead twelve_ahead "[ten_sold]", OF _ _ _ ten_sold_turns]
  by (simp add: stands_first_def five_ahead_def twelve_ahead_def ten_sold_def queue_observation_of_def sizes_fit_def
    money_room_def grid_def dval.simps(1))

end
