(* ===== verification/Spec2Isabelle.thy ===== *)
theory Spec2Isabelle
  imports Currency_Units Append_Log Persistent_Values Oms_Snapshot Portfolio_Views Cluster_Jobs
    Contributions Risk_Orders Risk_Records Allocation_Orders Allocation_Shares Allocation_Targets
    Pipeline_Properties Fx_Rates Execution_Fills Execution_Priority
begin

text \<open>
  AlphaLab: the trading core, the pipeline that runs it, and the research cluster.

  The repository is an event-driven platform for research and trading. This library models the parts
  that hold its money and its orders, the data structures they share, and the cluster that runs its
  research jobs, each as pure functions from a state to a new state or an exception, which is how the
  Python code itself is written: frozen dataclasses and static methods that return a replacement.

  \<^bold>\<open>Foundations.\<close> \<open>Prelude\<close> holds the exceptions, the result type \<open>'a res\<close> and its folds.
  \<open>Decimals\<close> is the decimal arithmetic of Python: numbers with a coefficient and an exponent, a context with
  a precision and a rounding mode, and the operations with their signals as exceptions. \<open>Floats\<close> rounds
  IEEE doubles to nearest even. \<open>Dicts\<close>, \<open>Texts\<close> and \<open>Sorting\<close> are insertion-ordered dictionaries, the
  string methods and the stable sort. \<open>Arithmetic\<close> is \<open>common/arithmetic.py\<close>, \<open>Currency_Units\<close> is
  \<open>common/currency_units.py\<close>.

  \<^bold>\<open>Shared persistent containers.\<close> \<open>Persistent_Map\<close> (\<open>common/persistent_map.py\<close>) and \<open>Append_Log\<close>
  (\<open>common/append_log.py\<close>) mutate a store that several versions share, so the model has an explicit heap
  of stores (\<open>Shared_Storage\<close>); \<open>Persistent_Values\<close> shows by a simulation that every version nevertheless
  reads as the pure dictionary, set or list its own writes build. The states of the other components
  use those pure values.

  \<^bold>\<open>Orders.\<close> \<open>Order_Lifecycle\<close> is \<open>core/lifecycle.py\<close>, \<open>Order_Terms\<close> is \<open>common/order_terms.py\<close>,
  \<open>Oms_Order\<close>, \<open>Oms_Book\<close>, \<open>Oms_Engine\<close> and \<open>Oms_Snapshot\<close> are \<open>alphalab/oms\<close>: an order and its
  transitions, the book with its indices, the engine with its event log and its snapshot. Their lemmas
  show that the indices always say what the book says, that an order's quantities and status agree, that
  the log rebuilds the state but for the instants at which stops fired, which are not logged, and that
  no order is overfilled.

  \<^bold>\<open>Money.\<close> \<open>Economics\<close> is \<open>conventions/economics.py\<close> and \<open>conventions/lot.py\<close>; \<open>Money\<close>, \<open>Positions\<close>,
  \<open>Position_Book\<close>, \<open>Settlement\<close> and \<open>Portfolio_Engine\<close> are \<open>alphalab/portfolio\<close>, bottom up: rounding and
  the cash ledger, one position, the book of positions with its running totals, what is pending, and
  the engine whose operations change all of them. \<open>Position_Accounting\<close>, \<open>Book_Totals\<close>,
  \<open>Portfolio_Accounts\<close>, \<open>Portfolio_Identity\<close> and \<open>Portfolio_Views\<close> hold the lemmas: each fill conserves
  money, the totals are the sums over the positions, cash plus equity is what was paid in plus what
  was earned, and marking what changed is marking everything. \<open>Portfolio_Example\<close> is a run of the engine that the witnesses share.
  \<open>Contributions\<close> is \<open>core/contribution.py\<close> and the asset netting of \<open>allocation/netting.py\<close>.

  \<^bold>\<open>Risk.\<close> \<open>Risk\<close> and \<open>Risk_Engine\<close> are \<open>alphalab/risk\<close> and \<open>core/order_request.py\<close>: the limits, the
  projection of the book an order would leave, the checks, and the engine that decides, marks and
  records. The zone arithmetic of \<open>zoneinfo\<close> is the parameter \<open>wall_clock\<close> and a trading day is its number;
  the descriptions of violations are left out. \<open>Risk_Gate\<close> shows that a decision is exactly what the limits
  say of the projection, \<open>Risk_Book\<close> that the projection is the whole book valued afresh, \<open>Risk_Orders\<close>
  that orders approved one by one cannot breach a limit together and that reductions pass, and
  \<open>Risk_Records\<close> that marks, the loss of the day, decisions and events agree. The working orders a caller passes are there
  built by \<open>work_order\<close>, from the same prices the book is marked at.

  \<^bold>\<open>Allocation.\<close> What strategies intend becomes orders in \<open>alphalab/allocation\<close>: an allocation nets the
  intents of one instant, sizes them, holds them to the ceilings and the budget, and emits orders whose
  shares it remembers until the last fill; the orders then pass the risk gate and reach the OMS.
  \<open>Intents\<close> is \<open>strategy/events.py\<close> and \<open>strategy/validation.py\<close>, \<open>Allocation\<close> the budget, the constraints,
  the sizing models (a function of the state, with the five of the source), the ceilings, the netting of
  \<open>netting.py\<close> and the state, \<open>Allocation_Engine\<close> the whole of \<open>engine.py\<close>. \<open>Allocation_Budget\<close> shows that
  committed capital stays within the budget over any run, \<open>Allocation_Targets\<close> that a target is neither
  overshot nor asked for twice, \<open>Allocation_Shares\<close> that the strategies behind an order own every fill of
  it -- through fills and settlements, splits and lifecycle moves being outside that run -- and
  \<open>Allocation_Orders\<close> that a long-only account ends long; \<open>Allocation_Ledger\<close> holds the
  arithmetic they share and \<open>Allocation_Example\<close> a run.

  \<^bold>\<open>Currencies and valuation.\<close> \<open>Fx\<close> is \<open>portfolio/fx.py\<close> and the engine's conversion of cash: quoted,
  inverted and crossed rates, and a conversion at an instant. \<open>Fx_Rates\<close> shows that a conversion rests on
  a quote that was known and fresh at that instant. \<open>Valuation\<close> is \<open>portfolio/valuation.py\<close>, \<open>nav.py\<close>,
  \<open>pnl.py\<close> and \<open>exposure.py\<close>: what the cash and the book are worth in one currency.

  \<^bold>\<open>Execution.\<close> \<open>Execution_Costs\<close> holds the cost models of \<open>alphalab/execution\<close>, \<open>Execution\<close> the fill
  policies, the simulator and the engine with its reports, \<open>Execution_Queue\<close> the queue a resting order
  stands in, \<open>Square_Root\<close> the root that one impact model takes. \<open>Rounding\<close> shows that rounding never
  crosses a number the context holds, \<open>Execution_Fills\<close> from it that a fill is never better than the
  price it starts from, \<open>Execution_Priority\<close> that the queue serves orders at one limit in their order.

  \<^bold>\<open>The pipeline.\<close> \<open>runtime/execution_pipeline.py\<close> joins all of these. \<open>Pipeline\<close> has its state, its
  configuration and the market events; \<open>Pipeline_Settlement\<close> one execution report, which moves the order,
  the position, the risk state and the allocation together, and the end of an order; \<open>Pipeline_Orders\<close>
  one order's turn at an event, and all the resting orders of an asset; \<open>Pipeline_Routing\<close> the way of the
  intents through allocation, refusals, the risk gate and the OMS, and the marking of an event. An
  event's step is \<open>open_event\<close>, then, with the intents the strategies answer, \<open>route_intents\<close>.
  \<open>Pipeline_Steps\<close> states once, as the locale \<open>order_relation\<close>, what a relation between states must
  satisfy to hold across everything the pipeline does to orders, and \<open>Pipeline_Run\<close> has the runs:
  fundings, conversions, events, intents, venue reports and outcomes in any order. \<open>Pipeline_Ledgers\<close>
  interprets the locale to show that every fill is in every ledger exactly once, \<open>Pipeline_Lives\<close> and
  \<open>Pipeline_Requests\<close> to show that what is held for an order is held exactly while it is open;
  \<open>Pipeline_Books\<close> has the agreement of the ledgers and \<open>Pipeline_Properties\<close> the properties, with the run
  of \<open>Pipeline_Example\<close>. Venue calendars, halts, price bands, ticks, margin and borrow, and the gate's
  figures for margin, charge and classification, are functions of the state that the pipeline asks and
  the model takes as the parameter \<open>queries\<close>; nothing is assumed of their answers. Some of them the
  source also computes from its market state, the quotes and bars of a session, which the record of
  the state leaves out.

  \<^bold>\<open>Jobs.\<close> \<open>Cluster\<close> is \<open>alphalab/distributed\<close> and \<open>alphalab/cluster_scheduler\<close>; \<open>Cluster_Jobs\<close> shows that
  jobs are conserved, that no worker is overloaded and that the assignment loops return.

  \<^bold>\<open>How the code is read.\<close> A raise is the left of a sum. A decorator that installs a decimal context is
  the context argument of the operations below it; where the code uses bare operators outside such a
  decorator, the caller's context is the parameter \<open>amb\<close>. Identifiers that \<open>new_id\<close> draws are
  arguments. Iteration over a dictionary is in insertion order. Every loop is a recursion that ends,
  structural or with a measure, so no function has fuel.

  \<^bold>\<open>Bounds.\<close> Decimal sums are exact while they need no more digits than the context has. The
  properties of the portfolio therefore speak of books whose sums stay below \<open>10^33\<close> minor units and of
  quantities within the 34 digits of the accounting context; those of the contributions say the same of
  the caller's precision, and those of the risk projection take quantities at \<open>uq\<close> decimals and prices at
  \<open>up\<close> whose turnover stays below \<open>10^33\<close> units of their product. Those of the allocation take quantities,
  prices and multipliers at \<open>q\<close>, \<open>p\<close> and \<open>m\<close> decimals with a budget below \<open>10^34\<close> units of their product,
  and fills at twelve decimals. Inside those bounds they are exact equalities, not approximations.

  \<^bold>\<open>Not modelled.\<close> Decoding of JSON, hashing, pickling and the texts of errors; input and output (venue
  adapters, SQLite); the research packages, whose numerics run in numpy or in floating point. Of the
  pipeline: auctions, the strategies and their feedback, amendments, exercises and elections, buy-ins and
  margin calls, corporate actions, execution algorithms and routing between venues, snapshots and
  sessions. The properties of the pipeline's runs are those of the steps modelled, and the identifiers
  of allocations and of orders are drawn from streams of their own.
\<close>

end
